(* ===== verification/Prelude.thy ===== *)
theory Prelude
  imports Main "HOL-Library.Sublist"
begin

text \<open>
  The vocabulary every component shares.  Go strings are byte sequences and become \<open>string\<close>
  (a list of 8-bit characters); the functions of Go's packages \<open>strings\<close>, \<open>strconv\<close> and
  \<open>path/filepath\<close> that the sources call are written out here as executable functions, with the
  laws the component theories use.  White space, letter case and digits are those of ASCII: on
  bytes above 127 Go decodes UTF-8 first, which is outside this development.

  An untyped Go value (\<open>any\<close>, what \<open>encoding/json\<close> produces) is the datatype \<open>gval\<close>; a
  \<open>(T, error)\<close> result is the sum \<open>string + 'a\<close> with \<open>Inl\<close> the message of the error.
\<close>

named_theorems str_simps \<open>characteristic equations of the Go string functions\<close>

subsection \<open>Untyped values\<close>

datatype gval =
    GNil
  | GBool bool
  | GNum int
  | GStr string
  | GList "gval list"
  | GObj "(string \<times> gval) list"

text \<open>A type assertion \<open>v, ok := m[k].(string)\<close> on a \<open>map[string]any\<close>.\<close>

definition str_arg :: "(string \<rightharpoonup> gval) \<Rightarrow> string \<Rightarrow> string option" where
  "str_arg args k = (case args k of Some (GStr s) \<Rightarrow> Some s | _ \<Rightarrow> None)"

subsection \<open>Bytes\<close>

definition byte_of :: "char \<Rightarrow> nat" where
  "byte_of c = of_char c"

definition is_space :: "char \<Rightarrow> bool" where
  "is_space c = (byte_of c \<in> {9, 10, 11, 12, 13, 32})"

definition is_digit :: "char \<Rightarrow> bool" where
  "is_digit c = (48 \<le> byte_of c \<and> byte_of c \<le> 57)"

definition is_lower :: "char \<Rightarrow> bool" where
  "is_lower c = (97 \<le> byte_of c \<and> byte_of c \<le> 122)"

definition is_upper :: "char \<Rightarrow> bool" where
  "is_upper c = (65 \<le> byte_of c \<and> byte_of c \<le> 90)"

definition lower_char :: "char \<Rightarrow> char" where
  "lower_char c = (if is_upper c then char_of (byte_of c + 32) else c)"

definition to_lower :: "string \<Rightarrow> string" where
  "to_lower s = List.map lower_char s"

subsection \<open>Prefixes, suffixes and substrings\<close>

fun has_prefix :: "string \<Rightarrow> string \<Rightarrow> bool" where
  "has_prefix s [] = True"
| "has_prefix [] (p # ps) = False"
| "has_prefix (c # cs) (p # ps) = (c = p \<and> has_prefix cs ps)"

definition has_suffix :: "string \<Rightarrow> string \<Rightarrow> bool" where
  "has_suffix s t = has_prefix (rev s) (rev t)"

definition trim_prefix :: "string \<Rightarrow> string \<Rightarrow> string" where
  "trim_prefix s p = (if has_prefix s p then drop (length p) s else s)"

definition trim_suffix :: "string \<Rightarrow> string \<Rightarrow> string" where
  "trim_suffix s t = (if has_suffix s t then take (length s - length t) s else s)"

fun index_of :: "string \<Rightarrow> string \<Rightarrow> nat option" where
  "index_of [] sub = (if sub = [] then Some 0 else None)"
| "index_of (c # cs) sub =
     (if has_prefix (c # cs) sub then Some 0 else map_option Suc (index_of cs sub))"

fun last_index_of :: "string \<Rightarrow> string \<Rightarrow> nat option" where
  "last_index_of [] sub = (if sub = [] then Some 0 else None)"
| "last_index_of (c # cs) sub =
     (case last_index_of cs sub of
        Some i \<Rightarrow> Some (Suc i)
      | None \<Rightarrow> (if has_prefix (c # cs) sub then Some 0 else None))"

definition contains_str :: "string \<Rightarrow> string \<Rightarrow> bool" where
  "contains_str s sub = (index_of s sub \<noteq> None)"

definition contains_any :: "string \<Rightarrow> string \<Rightarrow> bool" where
  "contains_any s chars = list_ex (\<lambda>c. c \<in> set chars) s"

subsection \<open>Splitting and trimming\<close>

lemma index_of_Some_length: "index_of s sub = Some i \<Longrightarrow> sub \<noteq> [] \<Longrightarrow> i < length s"
proof (induction s arbitrary: i)
  case Nil
  then show ?case by (simp split: if_splits)
next
  case (Cons c cs)
  then show ?case by (auto split: if_splits)
qed

lemma index_of_shrinks:
  assumes "index_of s sub = Some i" and "sub \<noteq> []"
  shows "length s - (i + length sub) < length s"
  using index_of_Some_length [OF assms] assms by (cases sub) auto

function split_on :: "string \<Rightarrow> string \<Rightarrow> string list" where
  "split_on sep s =
     (if sep = [] then List.map (\<lambda>c. [c]) s
      else case index_of s sep of
             None \<Rightarrow> [s]
           | Some i \<Rightarrow> take i s # split_on sep (drop (i + length sep) s))"
  by pat_completeness auto

termination
  by (relation "measure (\<lambda>(sep, s). length s)") (auto simp: index_of_shrinks)

declare split_on.simps [simp del]

definition cut_str :: "string \<Rightarrow> string \<Rightarrow> string \<times> string \<times> bool" where
  "cut_str s sep =
     (case index_of s sep of
        None \<Rightarrow> (s, [], False)
      | Some i \<Rightarrow> (take i s, drop (i + length sep) s, True))"

definition trim_left_by :: "(char \<Rightarrow> bool) \<Rightarrow> string \<Rightarrow> string" where
  "trim_left_by P s = dropWhile P s"

definition trim_right_by :: "(char \<Rightarrow> bool) \<Rightarrow> string \<Rightarrow> string" where
  "trim_right_by P s = rev (dropWhile P (rev s))"

definition trim_space :: "string \<Rightarrow> string" where
  "trim_space s = trim_right_by is_space (trim_left_by is_space s)"

text \<open>The first \<open>n\<close> runes of valid UTF-8: every byte but a continuation byte starts one.\<close>

fun take_runes :: "nat \<Rightarrow> string \<Rightarrow> string" where
  "take_runes n [] = []"
| "take_runes n (c # cs) =
     (if 128 \<le> byte_of c \<and> byte_of c < 192 then c # take_runes n cs
      else if n = 0 then [] else c # take_runes (n - 1) cs)"

definition rune_count :: "string \<Rightarrow> nat" where
  "rune_count s = length (filter (\<lambda>c. \<not> (128 \<le> byte_of c \<and> byte_of c < 192)) s)"

text \<open>\<open>strings.Fields\<close>: the maximal runs of bytes that are not white space.\<close>

lemma str_fields_shrinks:
  assumes "dropWhile is_space s = c # cs"
  shows "length (dropWhile (\<lambda>x. \<not> is_space x) (c # cs)) < length s"
proof -
  have "\<not> is_space c" using assms by (metis hd_dropWhile list.sel(1) list.simps(3))
  then have "length (dropWhile (\<lambda>x. \<not> is_space x) (c # cs)) \<le> length cs"
    by (simp add: length_dropWhile_le)
  moreover have "length (c # cs) \<le> length s"
    using length_dropWhile_le [of is_space s] assms by simp
  ultimately show ?thesis by simp
qed

function str_fields :: "string \<Rightarrow> string list" where
  "str_fields s =
     (case dropWhile is_space s of
        [] \<Rightarrow> []
      | c # cs \<Rightarrow> takeWhile (\<lambda>x. \<not> is_space x) (c # cs)
                  # str_fields (dropWhile (\<lambda>x. \<not> is_space x) (c # cs)))"
  by pat_completeness auto

termination
  by (relation "measure length") (auto dest: str_fields_shrinks)

declare str_fields.simps [simp del]

fun join_str :: "string \<Rightarrow> string list \<Rightarrow> string" where
  "join_str sep [] = []"
| "join_str sep [x] = x"
| "join_str sep (x # y # xs) = x @ sep @ join_str sep (y # xs)"

definition replace_all :: "string \<Rightarrow> string \<Rightarrow> string \<Rightarrow> string" where
  "replace_all s old new = (if old = [] then s else join_str new (split_on old s))"

text \<open>\<open>strings.Compare\<close> order (\<open>a < b\<close> on strings): lexicographic on bytes.\<close>

fun str_less :: "string \<Rightarrow> string \<Rightarrow> bool" where
  "str_less [] [] = False"
| "str_less [] (y # ys) = True"
| "str_less (x # xs) [] = False"
| "str_less (x # xs) (y # ys) =
     (byte_of x < byte_of y \<or> (x = y \<and> str_less xs ys))"

subsection \<open>Decimal numbers\<close>

text \<open>\<open>strconv.Itoa\<close> and the verb \<open>%d\<close>.\<close>

fun nat_str :: "nat \<Rightarrow> string" where
  "nat_str n =
     (if n < 10 then [char_of (48 + n)] else nat_str (n div 10) @ [char_of (48 + n mod 10)])"

declare nat_str.simps [simp del]

definition int_str :: "int \<Rightarrow> string" where
  "int_str i = (if i < 0 then ''-'' @ nat_str (nat (- i)) else nat_str (nat i))"

text \<open>\<open>strconv.Atoi\<close>: an optional sign, digits, and the range of a 64-bit integer.\<close>

definition digits_value :: "string \<Rightarrow> int" where
  "digits_value s = foldl (\<lambda>v c. 10 * v + (int (byte_of c) - 48)) 0 s"

definition atoi :: "string \<Rightarrow> int option" where
  "atoi s =
     (let (sign, digits) = (case s of
            [] \<Rightarrow> (1, [])
          | c # cs \<Rightarrow> (if c = CHR ''-'' then (- 1, cs) else if c = CHR ''+'' then (1, cs) else (1, s)));
          v = sign * digits_value digits
      in if digits = [] \<or> \<not> list_all is_digit digits \<or> v < - (2 ^ 63) \<or> 2 ^ 63 \<le> v then None else Some v)"

text \<open>\<open>fmt.Sscanf(s, "%d", &n)\<close>: the number at the start of the string, after blanks.\<close>

definition scan_int :: "string \<Rightarrow> int option" where
  "scan_int s =
     (let s = dropWhile (\<lambda>c. is_space c \<and> byte_of c \<noteq> 10) s;
          (sign, digits) = (case s of
            [] \<Rightarrow> ([], [])
          | c # cs \<Rightarrow> (if c = CHR ''-'' \<or> c = CHR ''+'' then ([c], cs) else ([], s)))
      in atoi (sign @ takeWhile is_digit digits))"

definition wrap64 :: "int \<Rightarrow> int" where
  "wrap64 i = (i + 2 ^ 63) mod 2 ^ 64 - 2 ^ 63"

lemma digits_value_snoc [simp]:
  "digits_value (s @ [c]) = 10 * digits_value s + (int (byte_of c) - 48)"
  by (simp add: digits_value_def)

lemma byte_of_digit [simp]: "(d::nat) < 10 \<Longrightarrow> byte_of (char_of (48 + d)) = 48 + d"
  by (simp add: byte_of_def)

lemma is_digit_digit [simp]: "(d::nat) < 10 \<Longrightarrow> is_digit (char_of (48 + d))"
  by (simp add: is_digit_def)

lemma nat_str_digits: "nat_str n \<noteq> [] \<and> list_all is_digit (nat_str n)"
proof (induction n rule: nat_str.induct)
  case (1 n)
  then show ?case by (subst (1 2) nat_str.simps) auto
qed

lemma digits_value_nat_str: "digits_value (nat_str n) = int n"
proof (induction n rule: nat_str.induct)
  case (1 n)
  show ?case
  proof (cases "n < 10")
    case True
    then show ?thesis
      by (subst nat_str.simps) (simp add: digits_value_snoc [of "[]", simplified] digits_value_def)
  next
    case False
    then have "digits_value (nat_str n) = 10 * int (n div 10) + int (n mod 10)"
      using 1 by (subst nat_str.simps) simp
    also have "\<dots> = int (10 * (n div 10) + n mod 10)" by (simp only: of_nat_add of_nat_mult of_nat_numeral)
    finally show ?thesis by simp
  qed
qed

lemma digit_not_sign: "is_digit c \<Longrightarrow> c \<noteq> CHR ''-'' \<and> c \<noteq> CHR ''+'' \<and> \<not> is_space c"
  by (auto simp: is_digit_def is_space_def byte_of_def)

lemma atoi_digits:
  assumes "s \<noteq> []" "list_all is_digit s" "digits_value s < 2 ^ 63" "0 \<le> digits_value s"
  shows "atoi s = Some (digits_value s)"
proof (cases s)
  case (Cons c cs)
  then have "c \<noteq> CHR ''-''" "c \<noteq> CHR ''+''" using assms(2) digit_not_sign by auto
  then show ?thesis using assms Cons by (simp add: atoi_def)
qed (use assms in simp)

lemma atoi_int_str: "0 \<le> i \<Longrightarrow> i < 2 ^ 63 \<Longrightarrow> atoi (int_str i) = Some i"
  using nat_str_digits [of "nat i"] digits_value_nat_str [of "nat i"]
  by (simp add: int_str_def atoi_digits)

lemma scan_int_digits:
  assumes "s \<noteq> []" "list_all is_digit s"
  shows "scan_int s = atoi s"
proof (cases s)
  case (Cons c cs)
  then have "c \<noteq> CHR ''-''" "c \<noteq> CHR ''+''" "\<not> is_space c"
    using assms digit_not_sign by auto
  moreover have "takeWhile is_digit s = s"
    using assms(2) by (simp add: takeWhile_eq_all_conv list_all_iff)
  ultimately show ?thesis using Cons by (simp add: scan_int_def)
qed (use assms in simp)

lemma scan_int_int_str: "0 \<le> i \<Longrightarrow> i < 2 ^ 63 \<Longrightarrow> scan_int (int_str i) = Some i"
  using nat_str_digits [of "nat i"] atoi_int_str [of i]
  by (simp add: int_str_def scan_int_digits)

lemma digits_value_int_str: "0 \<le> i \<Longrightarrow> digits_value (int_str i) = i"
  by (simp add: int_str_def digits_value_nat_str)

lemma int_str_inj: "0 \<le> i \<Longrightarrow> 0 \<le> j \<Longrightarrow> int_str i = int_str j \<Longrightarrow> i = j"
  by (metis digits_value_int_str)

subsection \<open>Paths (\<open>path/filepath\<close> on Unix)\<close>

definition is_abs :: "string \<Rightarrow> bool" where
  "is_abs p = has_prefix p ''/''"

fun clean_comps :: "bool \<Rightarrow> string list \<Rightarrow> string list \<Rightarrow> string list" where
  "clean_comps rooted acc [] = rev acc"
| "clean_comps rooted acc (c # cs) =
     (if c = [] \<or> c = ''.'' then clean_comps rooted acc cs
      else if c = ''..'' then
        (case acc of
           [] \<Rightarrow> clean_comps rooted (if rooted then [] else [c]) cs
         | a # rest \<Rightarrow> clean_comps rooted (if a = ''..'' then c # acc else rest) cs)
      else clean_comps rooted (c # acc) cs)"

definition path_clean :: "string \<Rightarrow> string" where
  "path_clean p =
     (let body = join_str ''/'' (clean_comps (is_abs p) [] (split_on ''/'' p))
      in if is_abs p then CHR ''/'' # body else if body = [] then ''.'' else body)"

definition path_base :: "string \<Rightarrow> string" where
  "path_base p =
     (if p = [] then ''.''
      else let q = trim_right_by (\<lambda>c. c = CHR ''/'') p
           in if q = [] then ''/''
              else (case last_index_of q ''/'' of None \<Rightarrow> q | Some i \<Rightarrow> drop (i + 1) q))"

definition path_dir :: "string \<Rightarrow> string" where
  "path_dir p =
     (case last_index_of p ''/'' of
        None \<Rightarrow> ''.''
      | Some i \<Rightarrow> path_clean (take (i + 1) p))"

definition path_join :: "string \<Rightarrow> string \<Rightarrow> string" where
  "path_join a b =
     (case filter (\<lambda>x. x \<noteq> []) [a, b] of
        [] \<Rightarrow> []
      | xs \<Rightarrow> path_clean (join_str ''/'' xs))"

subsection \<open>Generic facts\<close>

lemma has_prefix_append [simp]: "has_prefix (p @ s) p"
  by (induction p) auto

lemma has_prefix_iff: "has_prefix s p \<longleftrightarrow> (\<exists>t. s = p @ t)"
proof (induction s p rule: has_prefix.induct)
  case (3 c cs p ps)
  then show ?case by auto
qed auto

lemma has_suffix_iff: "has_suffix s t \<longleftrightarrow> (\<exists>u. s = u @ t)"
proof
  assume "has_suffix s t"
  then obtain u where "rev s = rev t @ u" by (auto simp: has_suffix_def has_prefix_iff)
  then have "s = rev u @ t" by (metis rev_append rev_rev_ident)
  then show "\<exists>u. s = u @ t" ..
qed (auto simp: has_suffix_def)

lemma last_index_of_Some:
  "last_index_of s sub = Some i \<Longrightarrow> i \<le> length s \<and> has_prefix (drop i s) sub"
  by (induction s arbitrary: i) (auto split: option.splits if_splits)

lemma last_index_of_None: "last_index_of s sub = None \<longleftrightarrow> \<not> contains_str s sub"
  by (induction s) (auto simp: contains_str_def split: option.splits if_splits)

lemma last_index_of_append:
  "last_index_of (c # t) sub = Some i \<Longrightarrow> last_index_of (s @ c # t) sub = Some (length s + i)"
  by (induction s) auto

lemma last_index_of_here:
  "\<not> contains_str t sub \<Longrightarrow> has_prefix (c # t) sub \<Longrightarrow> last_index_of (c # t) sub = Some 0"
  by (simp add: last_index_of_None [symmetric])

lemma trim_right_by_append:
  "(\<forall>c \<in> set w. P c) \<Longrightarrow> trim_right_by P (s @ w) = trim_right_by P s"
  unfolding trim_right_by_def by (induction w rule: rev_induct) auto

lemma trim_right_by_last: "s = [] \<or> \<not> P (last s) \<Longrightarrow> trim_right_by P s = s"
proof (cases s rule: rev_cases)
  case (snoc ys y)
  assume "s = [] \<or> \<not> P (last s)"
  then show ?thesis using snoc by (simp add: trim_right_by_def)
qed (simp add: trim_right_by_def)

lemma length_trim_right_by: "length (trim_right_by P s) \<le> length s"
  by (simp add: trim_right_by_def) (metis length_dropWhile_le length_rev)

lemma find_None_list_ex: "List.find P xs = None \<longleftrightarrow> \<not> list_ex P xs"
  by (auto simp: find_None_iff list_ex_iff)

lemma find_Some_mem: "List.find P xs = Some x \<Longrightarrow> x \<in> set xs \<and> P x"
  by (auto simp: find_Some_iff)

lemma ex_le_Suc_split: "(\<exists>k \<le> Suc n. P k) \<longleftrightarrow> P 0 \<or> (\<exists>k \<le> n. P (Suc k))"
  by (metis Suc_le_mono le0 not0_implies_Suc)

end
