(* ===== verification/AgentLatch.thy ===== *)
theory AgentLatch
  imports Prelude
begin

text \<open>
  The interrupt protocol between \<open>Run\<close>/\<open>runOneTurn\<close> and concurrent callers of
  \<open>InterruptCurrentTurn\<close> (\<open>internal/core/agent_impl.go\<close>), at the granularity of its atomic
  operations: the store, swap and compare-and-swap of the turn pointer, the store and swap of the
  latch, the cancellation of a turn's context and the closing of its done channel.  A turn is its
  handle, a number; the states of the run goroutine are the points between two atomic operations.
\<close>

datatype verdict = Interrupted | Normal | Cancelled | Failed

datatype run_pc =
  AtWait | GotMessage | AtTop | Published nat | InTurn nat | Unwinding nat verdict
| Detached nat verdict | Judging verdict | Draining | Dead

datatype caller_pc = WillSwap | WillCancel nat | Waiting nat | Returned

record latch_state =
  pc :: run_pc
  turn_ptr :: "nat option"
  interruptPending :: bool
  ctx_cancelled :: "nat set"
  done_closed :: "nat set"
  next_handle :: nat
  callers :: "caller_pc list"

definition latch_init :: latch_state where
  "latch_init = \<lparr>pc = AtWait, turn_ptr = None, interruptPending = False, ctx_cancelled = {},
     done_closed = {}, next_handle = 0, callers = []\<rparr>"

text \<open>The run goroutine, then the callers.\<close>

inductive lstep :: "latch_state \<Rightarrow> latch_state \<Rightarrow> bool" where
  recv: "pc s = AtWait \<Longrightarrow> lstep s (s\<lparr>pc := GotMessage\<rparr>)"
| stop: "pc s = AtWait \<Longrightarrow> lstep s (s\<lparr>pc := Dead\<rparr>)"
| clear: "pc s = GotMessage \<Longrightarrow> lstep s (s\<lparr>pc := AtTop, interruptPending := False\<rparr>)"
| publish: "pc s = AtTop \<Longrightarrow>
    lstep s (s\<lparr>pc := Published (next_handle s), turn_ptr := Some (next_handle s),
               next_handle := Suc (next_handle s)\<rparr>)"
| take_latch: "pc s = Published h \<Longrightarrow> interruptPending s \<Longrightarrow>
    lstep s (s\<lparr>pc := Unwinding h Interrupted, interruptPending := False\<rparr>)"
| no_latch: "pc s = Published h \<Longrightarrow> \<not> interruptPending s \<Longrightarrow> lstep s (s\<lparr>pc := InTurn h\<rparr>)"
| turn_ends: "pc s = InTurn h \<Longrightarrow> v = Normal \<or> v = Failed \<or> (v = Cancelled \<and> h \<in> ctx_cancelled s) \<Longrightarrow>
    lstep s (s\<lparr>pc := Unwinding h v\<rparr>)"
| detach: "pc s = Unwinding h v \<Longrightarrow> turn_ptr s = Some h \<Longrightarrow>
    lstep s (s\<lparr>pc := Detached h v, turn_ptr := None, ctx_cancelled := insert h (ctx_cancelled s)\<rparr>)"
| detached_already: "pc s = Unwinding h v \<Longrightarrow> turn_ptr s \<noteq> Some h \<Longrightarrow> lstep s (s\<lparr>pc := Detached h v\<rparr>)"
| close_done: "pc s = Detached h v \<Longrightarrow>
    lstep s (s\<lparr>pc := Judging v, done_closed := insert h (done_closed s)\<rparr>)"
| was_interrupted: "pc s = Judging Interrupted \<Longrightarrow> lstep s (s\<lparr>pc := AtWait\<rparr>)"
| was_cancelled: "pc s = Judging Cancelled \<Longrightarrow> lstep s (s\<lparr>pc := AtWait, interruptPending := False\<rparr>)"
| has_failed: "pc s = Judging Failed \<Longrightarrow> lstep s (s\<lparr>pc := Dead\<rparr>)"
| has_ended: "pc s = Judging Normal \<Longrightarrow> lstep s (s\<lparr>pc := Draining\<rparr>)"
| drained_message: "pc s = Draining \<Longrightarrow> lstep s (s\<lparr>pc := AtTop\<rparr>)"
| drained_nothing: "pc s = Draining \<Longrightarrow> lstep s (s\<lparr>pc := AtWait\<rparr>)"
| call: "lstep s (s\<lparr>interruptPending := True, callers := callers s @ [WillSwap]\<rparr>)"
| swap_turn: "i < length (callers s) \<Longrightarrow> callers s ! i = WillSwap \<Longrightarrow> turn_ptr s = Some h \<Longrightarrow>
    lstep s (s\<lparr>turn_ptr := None, callers := (callers s)[i := WillCancel h]\<rparr>)"
| swap_none: "i < length (callers s) \<Longrightarrow> callers s ! i = WillSwap \<Longrightarrow> turn_ptr s = None \<Longrightarrow>
    lstep s (s\<lparr>callers := (callers s)[i := Returned]\<rparr>)"
| cancel: "i < length (callers s) \<Longrightarrow> callers s ! i = WillCancel h \<Longrightarrow>
    lstep s (s\<lparr>ctx_cancelled := insert h (ctx_cancelled s), callers := (callers s)[i := Waiting h]\<rparr>)"
| caller_returns: "i < length (callers s) \<Longrightarrow> callers s ! i = Waiting h \<Longrightarrow> h \<in> done_closed s \<Longrightarrow>
    lstep s (s\<lparr>callers := (callers s)[i := Returned]\<rparr>)"

inductive lreach :: "latch_state \<Rightarrow> bool" where
  init: "lreach latch_init"
| next_step: "lreach s \<Longrightarrow> lstep s s' \<Longrightarrow> lreach s'"

text \<open>The turn the run goroutine is busy with.\<close>

definition busy_with :: "run_pc \<Rightarrow> nat option" where
  "busy_with p = (case p of Published h \<Rightarrow> Some h | InTurn h \<Rightarrow> Some h | Unwinding h v \<Rightarrow> Some h
     | Detached h v \<Rightarrow> Some h | _ \<Rightarrow> None)"

lemma busy_with_simps [simp]:
  "busy_with AtWait = None" "busy_with GotMessage = None" "busy_with AtTop = None"
  "busy_with (Published h) = Some h" "busy_with (InTurn h) = Some h"
  "busy_with (Unwinding h v) = Some h" "busy_with (Detached h v) = Some h"
  "busy_with (Judging v) = None" "busy_with Draining = None" "busy_with Dead = None"
  by (simp_all add: busy_with_def)

subsection \<open>The invariant\<close>

definition latch_inv :: "latch_state \<Rightarrow> bool" where
  "latch_inv s \<longleftrightarrow>
     (\<forall>h. turn_ptr s = Some h \<longrightarrow> busy_with (pc s) = Some h \<and> (\<forall>v. pc s \<noteq> Detached h v))
   \<and> (\<forall>h. busy_with (pc s) = Some h \<longrightarrow> h < next_handle s \<and> h \<notin> done_closed s
        \<and> (turn_ptr s = None \<longrightarrow> h \<in> ctx_cancelled s \<or> WillCancel h \<in> set (callers s)))
   \<and> (\<forall>h \<in> done_closed s. h < next_handle s)
   \<and> (\<forall>h. Waiting h \<in> set (callers s) \<longrightarrow> h \<in> ctx_cancelled s)
   \<and> (\<forall>h. (WillCancel h \<in> set (callers s) \<or> Waiting h \<in> set (callers s)) \<longrightarrow>
        h < next_handle s \<and> turn_ptr s \<noteq> Some h)"

lemma latch_inv_init: "latch_inv latch_init"
  by (simp add: latch_inv_def latch_init_def)

lemma set_update_new: "i < length xs \<Longrightarrow> x \<in> set (xs[i := y]) \<Longrightarrow> x \<noteq> y \<Longrightarrow> x \<in> set xs"
  by (metis insertE set_update_subset_insert subsetD)

lemma set_update_keep: "x \<in> set xs \<Longrightarrow> x \<noteq> xs ! i \<Longrightarrow> x \<in> set (xs[i := y])"
  by (metis in_set_conv_nth length_list_update nth_list_update_neq)

lemma latch_inv_step: "lstep s s' \<Longrightarrow> latch_inv s \<Longrightarrow> latch_inv s'"
proof (induction rule: lstep.induct)
  case (swap_turn i s h)
  let ?cs = "(callers s)[i := WillCancel h]"
  have new: "WillCancel h \<in> set ?cs" using swap_turn.hyps(1) by (rule set_update_memI)
  have old: "x \<in> set ?cs \<Longrightarrow> x \<noteq> WillCancel h \<Longrightarrow> x \<in> set (callers s)" for x
    using set_update_new [OF swap_turn.hyps(1)] by blast
  have busy: "busy_with (pc s) = Some h" using swap_turn by (simp add: latch_inv_def)
  then show ?case using swap_turn.prems swap_turn.hyps(3) new
    by (auto simp: latch_inv_def dest: old)
next
  case (cancel i s h)
  let ?cs = "(callers s)[i := Waiting h]"
  have mem: "WillCancel h \<in> set (callers s)" using cancel.hyps by (metis nth_mem)
  have old: "x \<in> set ?cs \<Longrightarrow> x \<noteq> Waiting h \<Longrightarrow> x \<in> set (callers s)" for x
    using set_update_new [OF cancel.hyps(1)] by blast
  have keep: "x \<in> set (callers s) \<Longrightarrow> x \<noteq> WillCancel h \<Longrightarrow> x \<in> set ?cs" for x
    using set_update_keep [of x "callers s" i] cancel.hyps(2) by simp
  show ?case using cancel.prems mem
    by (auto simp: latch_inv_def dest: old keep)
next
  case (swap_none i s)
  have old: "x \<in> set ((callers s)[i := Returned]) \<Longrightarrow> x \<noteq> Returned \<Longrightarrow> x \<in> set (callers s)" for x
    using set_update_new [OF swap_none.hyps(1)] by blast
  have keep: "WillCancel h \<in> set (callers s) \<Longrightarrow> WillCancel h \<in> set ((callers s)[i := Returned])" for h
    using set_update_keep [of "WillCancel h" "callers s" i] swap_none.hyps(2) by simp
  show ?case using swap_none.prems by (auto simp: latch_inv_def dest: old keep)
next
  case (caller_returns i s h)
  have old: "x \<in> set ((callers s)[i := Returned]) \<Longrightarrow> x \<noteq> Returned \<Longrightarrow> x \<in> set (callers s)" for x
    using set_update_new [OF caller_returns.hyps(1)] by blast
  have keep: "WillCancel k \<in> set (callers s) \<Longrightarrow> WillCancel k \<in> set ((callers s)[i := Returned])" for k
    using set_update_keep [of "WillCancel k" "callers s" i] caller_returns.hyps(2) by simp
  show ?case using caller_returns.prems by (auto simp: latch_inv_def dest: old keep)
next
  case (detached_already s h v)
  then show ?case by (cases "turn_ptr s") (auto simp: latch_inv_def)
qed (auto simp: latch_inv_def less_Suc_eq)

lemma latch_inv_reach: "lreach s \<Longrightarrow> latch_inv s"
  by (induction rule: lreach.induct) (auto intro: latch_inv_init latch_inv_step)

text \<open>
  C30: In every interleaving of the agent and its interrupters, a turn that is running without being published
  has its context cancelled or a caller about to cancel it; a caller that waits has cancelled the turn it waits
  for; and once the done channel of a turn is closed -- the only way the wait ends -- the agent is out of that
  turn.  That an interrupt stops one turn only is not so: see \<open>one_interrupt_stops_two_turns\<close>.
\<close>

theorem interrupt_protocol:
  assumes "lreach s"
  shows "(\<forall>h. pc s = InTurn h \<and> turn_ptr s \<noteq> Some h \<longrightarrow>
           h \<in> ctx_cancelled s \<or> WillCancel h \<in> set (callers s))
     \<and> (\<forall>h. Waiting h \<in> set (callers s) \<longrightarrow> h \<in> ctx_cancelled s)
     \<and> (\<forall>h \<in> done_closed s. busy_with (pc s) \<noteq> Some h \<and> turn_ptr s \<noteq> Some h)"
proof -
  have inv: "latch_inv s" by (rule latch_inv_reach [OF assms])
  have "h \<in> ctx_cancelled s \<or> WillCancel h \<in> set (callers s)"
    if "pc s = InTurn h" "turn_ptr s \<noteq> Some h" for h
  proof -
    have b: "busy_with (pc s) = Some h" using that by simp
    then have "turn_ptr s = None" using inv that(2) by (cases "turn_ptr s") (auto simp: latch_inv_def)
    then show ?thesis using inv b by (simp add: latch_inv_def)
  qed
  then show ?thesis using inv by (auto simp: latch_inv_def)
qed

subsection \<open>A run in which one interrupt stops two turns\<close>

text \<open>
  The interrupt lands while turn 0 is running, but the turn ends normally before it notices; the
  latch stays set, and when the drain finds the next message, its turn 1 is skipped by the same
  interrupt.
\<close>

abbreviation lst where
  "lst p t ip cc dc nh cs \<equiv> \<lparr>pc = p, turn_ptr = t, interruptPending = ip, ctx_cancelled = cc,
     done_closed = dc, next_handle = nh, callers = cs\<rparr>"

lemma one_call_cancels_turn_0: "lreach (lst (InTurn 0) None True {0} {} 1 [Waiting 0])"
proof -
  have "lreach (lst AtWait None False {} {} 0 [])" using lreach.init by (simp add: latch_init_def)
  from lreach.next_step [OF this lstep.recv] have "lreach (lst GotMessage None False {} {} 0 [])" by simp
  from lreach.next_step [OF this lstep.clear] have "lreach (lst AtTop None False {} {} 0 [])" by simp
  from lreach.next_step [OF this lstep.publish] have "lreach (lst (Published 0) (Some 0) False {} {} 1 [])" by simp
  from lreach.next_step [OF this lstep.no_latch] have "lreach (lst (InTurn 0) (Some 0) False {} {} 1 [])" by simp
  from lreach.next_step [OF this lstep.call] have "lreach (lst (InTurn 0) (Some 0) True {} {} 1 [WillSwap])" by simp
  from lreach.next_step [OF this lstep.swap_turn [of 0]] have "lreach (lst (InTurn 0) None True {} {} 1 [WillCancel 0])" by simp
  from lreach.next_step [OF this lstep.cancel [of 0]] show ?thesis by simp
qed

theorem interrupt_protocol_witness:
  "0 \<in> ctx_cancelled (lst (InTurn 0) None True {0} {} 1 [Waiting 0])"
  using interrupt_protocol [OF one_call_cancels_turn_0] by simp

text \<open>
  One interrupt can stop two turns: a state is reachable with a single call of
  \<open>InterruptCurrentTurn\<close> in which that call cancelled turn 0, turn 0 has ended, and turn 1 -- a
  later message's turn -- is skipped because of the latch the same call left behind.
\<close>

theorem one_interrupt_stops_two_turns:
  "\<exists>s. lreach s \<and> callers s = [Waiting 0] \<and> 0 \<in> ctx_cancelled s \<and> 0 \<in> done_closed s
     \<and> pc s = Unwinding 1 Interrupted"
proof -
  note r = one_call_cancels_turn_0
  from lreach.next_step [OF r lstep.turn_ends [where v = Normal]]
  have "lreach (lst (Unwinding 0 Normal) None True {0} {} 1 [Waiting 0])" by simp
  from lreach.next_step [OF this lstep.detached_already]
  have "lreach (lst (Detached 0 Normal) None True {0} {} 1 [Waiting 0])" by simp
  from lreach.next_step [OF this lstep.close_done]
  have "lreach (lst (Judging Normal) None True {0} {0} 1 [Waiting 0])" by simp
  from lreach.next_step [OF this lstep.has_ended]
  have "lreach (lst Draining None True {0} {0} 1 [Waiting 0])" by simp
  from lreach.next_step [OF this lstep.drained_message]
  have "lreach (lst AtTop None True {0} {0} 1 [Waiting 0])" by simp
  from lreach.next_step [OF this lstep.publish]
  have "lreach (lst (Published 1) (Some 1) True {0} {0} (Suc 1) [Waiting 0])" by simp
  from lreach.next_step [OF this lstep.take_latch]
  have "lreach (lst (Unwinding 1 Interrupted) (Some 1) False {0} {0} (Suc 1) [Waiting 0])" by simp
  then show ?thesis by (intro exI) (rule conjI, assumption, simp)
qed

end
