(* ===== verification/Collections.thy ===== *)
theory Collections
  imports Prelude "HOL-Library.AList" "HOL-Library.Multiset"
begin

text \<open>
  The containers of the sources.  A Go map is an association list with distinct keys whose order
  stands for one iteration order of \<open>range\<close>: a theorem about every such list is a theorem about
  every iteration order Go may choose.  The locale \<open>go_map\<close> is what the components rely on
  when they look up, store and delete; its interpretation \<open>gm\<close> discharges those laws for the
  association lists.  \<open>sort_lt\<close> is \<open>sort.Slice\<close> with the comparison as argument; the
  locale \<open>strict_order\<close> states what a comparison must satisfy for the result to be sorted
  and independent of the order in which the map was iterated, with the byte order of strings
  (\<open>str_less\<close>) and the orders of numbers as its interpretations.
\<close>

subsection \<open>Go maps\<close>

type_synonym ('k, 'v) gomap = "('k \<times> 'v) list"

definition gm_empty :: "('k, 'v) gomap" where
  "gm_empty = []"

definition gm_get :: "('k, 'v) gomap \<Rightarrow> 'k \<Rightarrow> 'v option" where
  "gm_get m k = map_of m k"

definition gm_put :: "'k \<Rightarrow> 'v \<Rightarrow> ('k, 'v) gomap \<Rightarrow> ('k, 'v) gomap" where
  "gm_put k v m = AList.update k v m"

definition gm_del :: "'k \<Rightarrow> ('k, 'v) gomap \<Rightarrow> ('k, 'v) gomap" where
  "gm_del k m = AList.delete k m"

definition gm_ok :: "('k, 'v) gomap \<Rightarrow> bool" where
  "gm_ok m = distinct (List.map fst m)"

definition gm_keys :: "('k, 'v) gomap \<Rightarrow> 'k list" where
  "gm_keys m = List.map fst m"

definition gm_vals :: "('k, 'v) gomap \<Rightarrow> 'v list" where
  "gm_vals m = List.map snd m"

locale go_map =
  fixes empty :: "'m"
    and get :: "'m \<Rightarrow> 'k \<Rightarrow> 'v option"
    and put :: "'k \<Rightarrow> 'v \<Rightarrow> 'm \<Rightarrow> 'm"
    and del :: "'k \<Rightarrow> 'm \<Rightarrow> 'm"
    and keys :: "'m \<Rightarrow> 'k list"
    and ok :: "'m \<Rightarrow> bool"
  assumes get_empty: "get empty k = None"
    and get_put: "get (put k v m) j = (if j = k then Some v else get m j)"
    and get_del: "ok m \<Longrightarrow> get (del k m) j = (if j = k then None else get m j)"
    and ok_empty: "ok empty"
    and ok_put: "ok m \<Longrightarrow> ok (put k v m)"
    and ok_del: "ok m \<Longrightarrow> ok (del k m)"
    and keys_get: "ok m \<Longrightarrow> k \<in> set (keys m) \<longleftrightarrow> get m k \<noteq> None"
    and keys_distinct: "ok m \<Longrightarrow> distinct (keys m)"
begin

lemma put_get_same: "get (put k v m) k = Some v"
  by (simp add: get_put)

lemma del_get_same: "ok m \<Longrightarrow> get (del k m) k = None"
  by (simp add: get_del)

lemma del_all_ok: "ok m \<Longrightarrow> ok (fold del ks m)"
  by (induction ks arbitrary: m) (auto simp: ok_del)

lemma get_del_all:
  "ok m \<Longrightarrow> get (fold del ks m) j = (if j \<in> set ks then None else get m j)"
  by (induction ks arbitrary: m) (auto simp: ok_del get_del)

lemma keys_put: "ok m \<Longrightarrow> set (keys (put k v m)) = insert k (set (keys m))"
  by (auto simp: keys_get ok_put get_put split: if_splits)

lemma keys_del: "ok m \<Longrightarrow> set (keys (del k m)) = set (keys m) - {k}"
  by (auto simp: keys_get ok_del get_del split: if_splits)

lemma length_keys: "ok m \<Longrightarrow> length (keys m) = card (set (keys m))"
  by (simp add: keys_distinct distinct_card)

lemma length_put:
  assumes "ok m"
  shows "length (keys (put k v m))
       = (if get m k = None then Suc (length (keys m)) else length (keys m))"
proof (cases "get m k")
  case None
  then have "k \<notin> set (keys m)" using assms by (simp add: keys_get)
  then show ?thesis using None assms by (simp add: length_keys ok_put keys_put)
next
  case (Some w)
  then have "k \<in> set (keys m)" using assms by (simp add: keys_get)
  then show ?thesis using Some assms by (simp add: length_keys ok_put keys_put insert_absorb)
qed

lemma length_del: "ok m \<Longrightarrow> length (keys (del k m)) \<le> length (keys m)"
  by (simp add: length_keys ok_del keys_del card_Diff1_le)

lemma length_del_present:
  "ok m \<Longrightarrow> get m k \<noteq> None \<Longrightarrow> Suc (length (keys (del k m))) = length (keys m)"
  using keys_get [of m k] card_Suc_Diff1 [of "set (keys m)" k]
  by (simp add: length_keys ok_del keys_del)

end

lemma gm_laws:
  shows "gm_get gm_empty k = None"
    and "gm_get (gm_put k v m) j = (if j = k then Some v else gm_get m j)"
    and "gm_ok m \<Longrightarrow> gm_get (gm_del k m) j = (if j = k then None else gm_get m j)"
    and "gm_ok gm_empty"
    and "gm_ok m \<Longrightarrow> gm_ok (gm_put k v m)"
    and "gm_ok m \<Longrightarrow> gm_ok (gm_del k m)"
    and "k \<in> set (gm_keys m) \<longleftrightarrow> gm_get m k \<noteq> None"
    and "gm_ok m \<Longrightarrow> distinct (gm_keys m)"
  by (auto simp: gm_get_def gm_empty_def gm_put_def gm_del_def gm_ok_def gm_keys_def
      update_conv' delete_conv' distinct_update distinct_delete map_of_eq_None_iff
      simp flip: image_set)

interpretation gm: go_map gm_empty gm_get gm_put gm_del gm_keys gm_ok
  by unfold_locales (rule gm_laws; assumption?)+

lemma gm_get_Some_in: "gm_get m k = Some v \<Longrightarrow> (k, v) \<in> set m"
  by (simp add: gm_get_def map_of_SomeD)

lemma gm_get_iff_in: "gm_ok m \<Longrightarrow> gm_get m k = Some v \<longleftrightarrow> (k, v) \<in> set m"
  by (auto simp: gm_get_def gm_ok_def)

lemma gm_vals_iff: "gm_ok m \<Longrightarrow> v \<in> set (gm_vals m) \<longleftrightarrow> (\<exists>k. gm_get m k = Some v)"
  by (force simp: gm_vals_def gm_get_iff_in)

lemma gm_vals_put: "set (gm_vals (gm_put k v m)) \<subseteq> insert v (set (gm_vals m))"
  by (induction m) (auto simp: gm_vals_def gm_put_def)

lemma gm_length_keys: "length (gm_keys m) = length m"
  by (simp add: gm_keys_def)

subsection \<open>Sorting with a comparison function\<close>

fun insort_lt :: "('a \<Rightarrow> 'a \<Rightarrow> bool) \<Rightarrow> 'a \<Rightarrow> 'a list \<Rightarrow> 'a list" where
  "insort_lt lt x [] = [x]"
| "insort_lt lt x (y # ys) = (if lt y x then y # insort_lt lt x ys else x # y # ys)"

fun sort_lt :: "('a \<Rightarrow> 'a \<Rightarrow> bool) \<Rightarrow> 'a list \<Rightarrow> 'a list" where
  "sort_lt lt [] = []"
| "sort_lt lt (x # xs) = insort_lt lt x (sort_lt lt xs)"

lemma mset_insort_lt [simp]: "mset (insort_lt lt x ys) = add_mset x (mset ys)"
  by (induction ys) auto

lemma mset_sort_lt [simp]: "mset (sort_lt lt xs) = mset xs"
  by (induction xs) auto

lemma set_sort_lt [simp]: "set (sort_lt lt xs) = set xs"
  using mset_sort_lt by (metis set_mset_mset)

lemma length_sort_lt [simp]: "length (sort_lt lt xs) = length xs"
  using mset_sort_lt by (metis size_mset)

lemma set_insort_lt [simp]: "set (insort_lt lt x ys) = insert x (set ys)"
  using mset_insort_lt by (metis set_mset_mset set_mset_add_mset_insert)

locale strict_order =
  fixes lt :: "'k \<Rightarrow> 'k \<Rightarrow> bool"
  assumes irrefl: "\<not> lt x x"
    and trans: "lt x y \<Longrightarrow> lt y z \<Longrightarrow> lt x z"
    and total: "x \<noteq> y \<Longrightarrow> lt x y \<or> lt y x"
begin

lemma not_lt_trans: "\<not> lt y x \<Longrightarrow> \<not> lt z y \<Longrightarrow> \<not> lt z x"
  using trans total irrefl by metis

lemma sorted_insort:
  assumes "sorted_wrt (\<lambda>a b. \<not> lt (f b) (f a)) ys"
  shows "sorted_wrt (\<lambda>a b. \<not> lt (f b) (f a)) (insort_lt (\<lambda>a b. lt (f a) (f b)) x ys)"
  using assms
proof (induction ys)
  case Nil
  then show ?case by simp
next
  case (Cons y ys)
  show ?case
  proof (cases "lt (f y) (f x)")
    case True
    then have "\<not> lt (f x) (f y)" using trans irrefl by blast
    then show ?thesis using Cons True by auto
  next
    case False
    then have "\<forall>z \<in> set ys. \<not> lt (f z) (f x)" using Cons.prems not_lt_trans by auto
    then show ?thesis using Cons.prems False by auto
  qed
qed

lemma sorted_sort:
  "sorted_wrt (\<lambda>a b. \<not> lt (f b) (f a)) (sort_lt (\<lambda>a b. lt (f a) (f b)) xs)"
  by (induction xs) (auto intro: sorted_insort)

lemma sorted_unique:
  assumes "sorted_wrt (\<lambda>a b. \<not> lt (f b) (f a)) xs" "sorted_wrt (\<lambda>a b. \<not> lt (f b) (f a)) ys"
    and "mset xs = mset ys" and "distinct (List.map f xs)"
  shows "xs = ys"
  using assms
proof (induction xs arbitrary: ys)
  case Nil
  then show ?case by simp
next
  case (Cons x xs)
  then obtain y ys' where ys: "ys = y # ys'" by (cases ys) auto
  have sets: "set (x # xs) = set ys" using Cons.prems(3) by (metis set_mset_mset)
  have "f x = f y"
  proof (rule ccontr)
    assume "f x \<noteq> f y"
    then have "x \<noteq> y" by auto
    then have "y \<in> set xs" "x \<in> set ys'" using sets ys by auto
    then have "\<not> lt (f y) (f x)" "\<not> lt (f x) (f y)" using Cons.prems(1,2) ys by auto
    then show False using total \<open>f x \<noteq> f y\<close> by blast
  qed
  moreover have "y \<in> set (x # xs)" using sets ys by auto
  ultimately have "x = y" using Cons.prems(4) by auto
  moreover from this have "xs = ys'" using Cons ys by auto
  ultimately show ?case using ys by simp
qed

lemma sort_order_independent:
  assumes "mset xs = mset ys" and "distinct (List.map f xs)"
  shows "sort_lt (\<lambda>a b. lt (f a) (f b)) xs = sort_lt (\<lambda>a b. lt (f a) (f b)) ys"
proof (rule sorted_unique [OF sorted_sort sorted_sort])
  show "mset (sort_lt (\<lambda>a b. lt (f a) (f b)) xs) = mset (sort_lt (\<lambda>a b. lt (f a) (f b)) ys)"
    using assms(1) by simp
  show "distinct (List.map f (sort_lt (\<lambda>a b. lt (f a) (f b)) xs))"
    using assms(2) by (metis mset_map mset_eq_imp_distinct_iff mset_sort_lt)
qed

end

lemma byte_of_inj: "byte_of a = byte_of b \<longleftrightarrow> a = b"
  by (simp add: byte_of_def)

lemma str_less_irrefl: "\<not> str_less s s"
  by (induction s) auto

lemma str_less_trans: "str_less a b \<Longrightarrow> str_less b c \<Longrightarrow> str_less a c"
proof (induction a b arbitrary: c rule: str_less.induct)
  case (4 x xs y ys)
  then show ?case by (cases c) auto
qed (auto elim: str_less.elims)

lemma str_less_total: "a \<noteq> b \<Longrightarrow> str_less a b \<or> str_less b a"
  by (induction a b rule: str_less.induct) (auto simp: neq_iff byte_of_inj)

interpretation str_ord: strict_order str_less
  by unfold_locales (use str_less_irrefl str_less_trans str_less_total in blast)+

interpretation int_ord: strict_order "(<) :: int \<Rightarrow> int \<Rightarrow> bool"
  by unfold_locales auto

end
