(* ===== verification/TaskGraph.thy ===== *)
theory TaskGraph
  imports Collections
begin

text \<open>
  The task graph (\<open>internal/graph/task/task.go\<close>): jobs with dependencies, their validation, fake
  edges, Kahn's topological sort, execution levels, diamonds, the stop rule and the human gates.
  The order of the association list \<open>jobs\<close> is the order in which Go iterates over the map, so
  every theorem holds for each of its choices; \<open>jobOrder\<close> is the insertion order.  Errors are
  strings; the verb \<open>%q\<close> is written with plain quotes.
\<close>

datatype JobStatus =
  JobUnset | JobPending | JobReady | JobRunning | JobVerifying | JobDone | JobFailed | JobBlocked

record Job =
  job_ID :: string
  job_Name :: string
  job_Description :: string
  AgentHint :: string
  Dependencies :: "string list"
  job_State :: "(string, string) gomap"
  Status :: JobStatus
  IsVerifier :: bool
  VerifiesJob :: string
  HumanGate :: bool
  Irreversible :: bool
  Owner :: string

definition Job_Validate :: "Job \<Rightarrow> string option" where
  "Job_Validate j =
     (if job_ID j = [] then Some ''job: id is required''
      else if job_Name j = [] then Some (''job '' @ job_ID j @ '': name is required'')
      else if Irreversible j \<and> \<not> HumanGate j
        then Some (''job '' @ job_ID j @ '': irreversible actions must route through a human gate'')
      else if IsVerifier j \<and> VerifiesJob j = []
        then Some (''job '' @ job_ID j @ '': verifier must specify which job it verifies'')
      else None)"

record task_graph =
  jobs :: "(string, Job) gomap"
  jobOrder :: "string list"

definition NewTaskGraph :: task_graph where
  "NewTaskGraph = \<lparr>jobs = gm_empty, jobOrder = []\<rparr>"

definition AddJob :: "Job \<Rightarrow> task_graph \<Rightarrow> string option \<times> task_graph" where
  "AddJob j g =
     (case Job_Validate j of
        Some e \<Rightarrow> (Some e, g)
      | None \<Rightarrow>
          (if gm_get (jobs g) (job_ID j) \<noteq> None
             then (Some (''job '' @ job_ID j @ '' already exists''), g)
           else (None, g\<lparr>jobs := gm_put (job_ID j) j (jobs g), jobOrder := jobOrder g @ [job_ID j]\<rparr>)))"

definition GetJob :: "task_graph \<Rightarrow> string \<Rightarrow> Job option" where
  "GetJob g i = gm_get (jobs g) i"

definition AllJobs :: "task_graph \<Rightarrow> Job option list" where
  "AllJobs g = List.map (gm_get (jobs g)) (jobOrder g)"

subsection \<open>Fake edges\<close>

record FakeEdge =
  fe_From :: string
  fe_To :: string
  fe_Reason :: string

definition stateReferences :: "(string, string) gomap \<Rightarrow> (string, string) gomap \<Rightarrow> bool" where
  "stateReferences upstream downstream =
     (if upstream = [] \<or> downstream = [] then True
      else list_ex (\<lambda>(k, v). gm_get upstream k \<noteq> None
             \<or> list_ex (\<lambda>(uk, uv). contains_str v uk \<or> contains_str v uv) upstream) downstream)"

definition FindFakeEdges :: "task_graph \<Rightarrow> FakeEdge list" where
  "FindFakeEdges g =
     concat (List.map (\<lambda>job.
       concat (List.map (\<lambda>depID.
         case gm_get (jobs g) depID of
           None \<Rightarrow> []
         | Some dep \<Rightarrow>
             (if stateReferences (job_State dep) (job_State job) then []
              else [\<lparr>fe_From = depID, fe_To = job_ID job,
                     fe_Reason = ''job '' @ [CHR 0x22] @ job_ID job @ [CHR 0x22]
                       @ '' does not reference any state from '' @ [CHR 0x22] @ depID @ [CHR 0x22]\<rparr>]))
         (Dependencies job)))
       (gm_vals (jobs g)))"

subsection \<open>Topological sort\<close>

type_synonym degrees = "(string, int) gomap"

definition deg :: "degrees \<Rightarrow> string \<Rightarrow> int" where
  "deg m k = (case gm_get m k of None \<Rightarrow> 0 | Some d \<Rightarrow> d)"

definition adj_of :: "task_graph \<Rightarrow> string \<Rightarrow> string list" where
  "adj_of g d =
     concat (List.map (\<lambda>job. List.map (\<lambda>_. job_ID job) (filter (\<lambda>x. x = d) (Dependencies job)))
       (gm_vals (jobs g)))"

definition in_degrees :: "task_graph \<Rightarrow> degrees" where
  "in_degrees g =
     fold (\<lambda>job m. fold (\<lambda>_ m. gm_put (job_ID job) (deg m (job_ID job) + 1) m) (Dependencies job) m)
       (gm_vals (jobs g)) (fold (\<lambda>i m. gm_put i 0 m) (jobOrder g) gm_empty)"

text \<open>The inner loop over the jobs that wait for the one just taken.\<close>

fun relax :: "string list \<Rightarrow> degrees \<Rightarrow> string list \<Rightarrow> degrees \<times> string list" where
  "relax [] m queue = (m, queue)"
| "relax (n # ns) m queue =
     (let m = gm_put n (deg m n - 1) m
      in relax ns m (if deg m n = 0 then queue @ [n] else queue))"

definition open_work :: "degrees \<Rightarrow> nat" where
  "open_work m = sum_list (List.map (nat \<circ> snd) m)"

lemma open_work_decrement:
  "open_work (gm_put n (deg m n - 1) m) + (if deg m n - 1 = 0 then 1 else 0) \<le> open_work m"
  by (induction m)
    (auto simp: open_work_def gm_put_def deg_def gm_get_def split: option.splits if_splits)

lemma relax_work: "relax ns m q = (m', q') \<Longrightarrow> open_work m' + length q' \<le> open_work m + length q"
proof (induction ns arbitrary: m q)
  case (Cons n ns)
  have d: "deg (gm_put n v m) n = v" for v by (simp add: deg_def gm.get_put)
  from Cons.IH [of "gm_put n (deg m n - 1) m"] Cons.prems open_work_decrement [of n m] show ?case
    by (fastforce simp: Let_def d split: if_splits)
qed simp

function kahn :: "(string \<Rightarrow> string list) \<Rightarrow> degrees \<Rightarrow> string list \<Rightarrow> string list \<Rightarrow> string list" where
  "kahn adj m [] result = result"
| "kahn adj m (i # queue) result =
     (let (m', queue') = relax (adj i) m queue in kahn adj m' queue' (result @ [i]))"
  by pat_completeness auto

termination
  by (relation "measure (\<lambda>(adj, m, queue, result). open_work m + length queue)")
    (auto dest!: relax_work [OF sym])

declare kahn.simps [simp del]

definition TopoSort :: "task_graph \<Rightarrow> string + string list" where
  "TopoSort g =
     (let m = in_degrees g;
          result = kahn (adj_of g) m (filter (\<lambda>i. deg m i = 0) (jobOrder g)) []
      in if length result \<noteq> length (jobs g)
           then Inl (''cycle detected '' @ [CHR 0xE2, CHR 0x80, CHR 0x94] @ '' task graph is not a DAG'') else Inr result)"

subsection \<open>Levels\<close>

definition dep_level :: "(string, nat) gomap \<Rightarrow> string list \<Rightarrow> nat" where
  "dep_level level deps =
     fold (\<lambda>d mx. case gm_get level d of Some l \<Rightarrow> (if mx \<le> l then l + 1 else mx) | None \<Rightarrow> mx) deps 0"

definition deps_of :: "task_graph \<Rightarrow> string \<Rightarrow> string list" where
  "deps_of g i = (case gm_get (jobs g) i of None \<Rightarrow> [] | Some j \<Rightarrow> Dependencies j)"

definition assign_levels :: "task_graph \<Rightarrow> string list \<Rightarrow> (string, nat) gomap" where
  "assign_levels g order = fold (\<lambda>i level. gm_put i (dep_level level (deps_of g i)) level) order gm_empty"

definition level_of :: "(string, nat) gomap \<Rightarrow> string \<Rightarrow> nat" where
  "level_of level i = (case gm_get level i of None \<Rightarrow> 0 | Some l \<Rightarrow> l)"

definition ParallelLevels :: "task_graph \<Rightarrow> string + string list list" where
  "ParallelLevels g =
     (case TopoSort g of
        Inl e \<Rightarrow> Inl e
      | Inr order \<Rightarrow>
          (let level = assign_levels g order;
               maxLevel = fold max (gm_vals level) 0
           in Inr (List.map (\<lambda>l. sort_lt str_less (filter (\<lambda>i. level_of level i = l) order))
                     [0 ..< maxLevel + 1])))"

subsection \<open>Diamonds, stop rule, gates\<close>

record Diamond =
  Plan :: string
  Workers :: "string list"
  Verifier :: string
  Merger :: string

definition Diamond_Validate :: "Diamond \<Rightarrow> string option" where
  "Diamond_Validate d =
     (if Plan d = [] then Some ''diamond: plan (split point) is required''
      else if Workers d = [] then Some ''diamond: at least one worker is required''
      else if Verifier d = [] then Some ''diamond: separate verifier context is non-negotiable''
      else if Merger d = [] then Some ''diamond: one owned merge is required''
      else None)"

text \<open>
  \<open>dependents\<close> lists a job once per occurrence of the dependency, like \<open>adj\<close> in the sort.
\<close>

definition find_merger :: "task_graph \<Rightarrow> string \<Rightarrow> string list \<Rightarrow> Job option" where
  "find_merger g plan workers =
     List.find (\<lambda>job. job_ID job \<noteq> plan
         \<and> 2 \<le> length (filter (\<lambda>dep. dep \<in> set workers) (Dependencies job))) (gm_vals (jobs g))"

definition FindDiamonds :: "task_graph \<Rightarrow> Diamond list" where
  "FindDiamonds g =
     concat (List.map (\<lambda>plan.
       let workers = adj_of g (job_ID plan)
       in if length workers < 2 then []
          else (case find_merger g (job_ID plan) workers of
                  None \<Rightarrow> []
                | Some job \<Rightarrow>
                    (if job_ID job = [] then []
                     else [\<lparr>Plan = job_ID plan, Workers = workers,
                            Verifier = (if IsVerifier job then job_ID job else []),
                            Merger = job_ID job\<rparr>])))
       (gm_vals (jobs g)))"

record StopRuleAnalysis =
  SplittableJobs :: "string list"
  SequentialJobs :: "string list"
  Recommendation :: string

definition AnalyzeStopRule :: "task_graph \<Rightarrow> StopRuleAnalysis" where
  "AnalyzeStopRule g =
     (let splittable = List.map job_ID (filter (\<lambda>j. Dependencies j = []) (gm_vals (jobs g)));
          sequential = List.map job_ID (filter (\<lambda>j. Dependencies j \<noteq> []) (gm_vals (jobs g)))
      in \<lparr>SplittableJobs = splittable, SequentialJobs = sequential,
          Recommendation = (if length splittable < length sequential then ''single_agent'' else ''parallel'')\<rparr>)"

definition HumanGates :: "task_graph \<Rightarrow> Job list" where
  "HumanGates g = filter HumanGate (List.map_filter (gm_get (jobs g)) (jobOrder g))"

definition PendingGates :: "task_graph \<Rightarrow> Job list" where
  "PendingGates g =
     filter (\<lambda>j. HumanGate j \<and> Status j = JobBlocked) (List.map_filter (gm_get (jobs g)) (jobOrder g))"

subsection \<open>Well-formed graphs\<close>

definition graph_ok :: "task_graph \<Rightarrow> bool" where
  "graph_ok g =
     (gm_ok (jobs g) \<and> distinct (jobOrder g) \<and> set (jobOrder g) = set (gm_keys (jobs g))
      \<and> list_all (\<lambda>(k, j). job_ID j = k \<and> Job_Validate j = None) (jobs g))"

lemma graph_ok_get: "graph_ok g \<Longrightarrow> gm_get (jobs g) i = Some j \<Longrightarrow> job_ID j = i \<and> Job_Validate j = None"
  by (auto simp: graph_ok_def list_all_iff dest!: gm_get_Some_in)

lemma graph_ok_New: "graph_ok NewTaskGraph"
  by (simp add: graph_ok_def NewTaskGraph_def gm_empty_def gm_ok_def gm_keys_def)

lemma AddJob_ok: "graph_ok g \<Longrightarrow> graph_ok (snd (AddJob j g))"
proof -
  assume ok: "graph_ok g"
  show ?thesis
  proof (cases "Job_Validate j = None \<and> gm_get (jobs g) (job_ID j) = None")
    case False
    then show ?thesis using ok by (auto simp: AddJob_def split: option.splits)
  next
    case True
    then have g': "snd (AddJob j g) = g\<lparr>jobs := gm_put (job_ID j) j (jobs g), jobOrder := jobOrder g @ [job_ID j]\<rparr>"
      by (simp add: AddJob_def)
    have gok: "gm_ok (jobs g)" using ok by (simp add: graph_ok_def)
    have "job_ID x = k \<and> Job_Validate x = None" if "(k, x) \<in> set (gm_put (job_ID j) j (jobs g))" for k x
    proof -
      have "gm_get (gm_put (job_ID j) j (jobs g)) k = Some x"
        using that gm.ok_put [OF gok] by (simp add: gm_get_iff_in)
      then show ?thesis using True graph_ok_get [OF ok] by (auto simp: gm.get_put split: if_splits)
    qed
    moreover have "job_ID j \<notin> set (jobOrder g)"
      using ok True gm.keys_get [OF gok, of "job_ID j"] by (simp add: graph_ok_def)
    ultimately show ?thesis
      using ok gm.keys_put [OF gok, of "job_ID j" j] gm.ok_put [OF gok]
      by (auto simp: g' graph_ok_def list_all_iff)
  qed
qed

definition build_graph :: "Job list \<Rightarrow> task_graph" where
  "build_graph js = fold (\<lambda>j g. snd (AddJob j g)) js NewTaskGraph"

lemma build_graph_ok: "graph_ok (build_graph js)"
proof -
  have "graph_ok g \<Longrightarrow> graph_ok (fold (\<lambda>j g. snd (AddJob j g)) js g)" for g
    by (induction js arbitrary: g) (auto simp: AddJob_ok)
  then show ?thesis by (simp add: build_graph_def graph_ok_New)
qed

subsection \<open>Degrees\<close>

lemma deg_put [simp]: "deg (gm_put k v m) j = (if j = k then v else deg m j)"
  by (simp add: deg_def gm.get_put)

lemma deg_empty: "deg gm_empty i = 0"
  by (simp add: deg_def gm.get_empty)

lemma sum_vals:
  fixes f :: "Job \<Rightarrow> nat"
  assumes "graph_ok g"
  shows "sum_list (List.map (\<lambda>job. if job_ID job = i then f job else 0) (gm_vals (jobs g)))
       = (case gm_get (jobs g) i of None \<Rightarrow> 0 | Some j \<Rightarrow> f j)"
proof -
  have "distinct (List.map fst m) \<Longrightarrow> \<forall>(k, j) \<in> set m. job_ID j = k \<Longrightarrow>
      sum_list (List.map (\<lambda>job. if job_ID job = i then f job else 0) (List.map snd m))
       = (case map_of m i of None \<Rightarrow> 0 | Some j \<Rightarrow> f j)" for m
  proof (induction m)
    case (Cons x m)
    obtain k j where x: "x = (k, j)" by (cases x)
    show ?case
    proof (cases "k = i")
      case True
      then have "map_of m i = None" using Cons.prems(1) x by (simp add: map_of_eq_None_iff)
      then show ?thesis using Cons True x by simp
    next
      case False
      then show ?thesis using Cons x by simp
    qed
  qed simp
  from this [of "jobs g"] show ?thesis using assms
    by (auto simp: graph_ok_def gm_ok_def gm_vals_def gm_get_def list_all_iff)
qed

lemma filter_eq_flip: "filter ((=) d) xs = filter (\<lambda>x. x = d) xs"
  by (intro filter_cong) auto

lemma count_adj: "graph_ok g \<Longrightarrow> count_list (adj_of g d) j = count_list (deps_of g j) d"
proof -
  assume ok: "graph_ok g"
  have "count_list (concat (List.map (\<lambda>job. List.map (\<lambda>_. job_ID job) (filter (\<lambda>x. x = d) (Dependencies job))) js)) j
      = sum_list (List.map (\<lambda>job. if job_ID job = j then count_list (Dependencies job) d else 0) js)" for js
    by (induction js) (auto simp: count_list_eq_length_filter filter_map comp_def filter_eq_flip [of d])
  from this [of "gm_vals (jobs g)"] show ?thesis
    using sum_vals [OF ok, of j "\<lambda>job. count_list (Dependencies job) d"]
    by (simp add: adj_of_def deps_of_def split: option.splits)
qed

lemma deg_init: "deg (fold (\<lambda>i m. gm_put i 0 m) is m) i = (if i \<in> set is then 0 else deg m i)"
  by (induction "is" arbitrary: m) auto

lemma deg_fold_deps:
  "deg (fold (\<lambda>_ m. gm_put k (deg m k + 1) m) ds m) i = deg m i + (if i = k then int (length ds) else 0)"
  by (induction ds arbitrary: m) auto

lemma deg_fold_jobs:
  "deg (fold (\<lambda>job m. fold (\<lambda>_ m. gm_put (job_ID job) (deg m (job_ID job) + 1) m) (Dependencies job) m) js m) i
   = deg m i + int (sum_list (List.map (\<lambda>job. if job_ID job = i then length (Dependencies job) else 0) js))"
  by (induction js arbitrary: m) (auto simp: deg_fold_deps)

lemma in_degrees_deg: "graph_ok g \<Longrightarrow> deg (in_degrees g) i = int (length (deps_of g i))"
  by (simp add: in_degrees_def deg_fold_jobs deg_init sum_vals deps_of_def deg_empty split: option.split)

lemma relax_spec:
  "relax ns m q = (m', q') \<Longrightarrow>
   (\<forall>j. deg m' j = deg m j - int (count_list ns j))
   \<and> (\<exists>new. q' = q @ new \<and> distinct new
        \<and> set new = {j. 1 \<le> deg m j \<and> deg m j \<le> int (count_list ns j)})"
proof (induction ns arbitrary: m q)
  case Nil
  then show ?case by auto
next
  case (Cons n ns)
  let ?m = "gm_put n (deg m n - 1) m"
  let ?q = "if deg m n = 1 then q @ [n] else q"
  have r: "relax ns ?m ?q = (m', q')" using Cons.prems by (simp add: Let_def split: if_splits)
  from Cons.IH [OF r] obtain new where d: "\<forall>j. deg m' j = deg ?m j - int (count_list ns j)"
    and new: "q' = ?q @ new" "distinct new" "set new = {j. 1 \<le> deg ?m j \<and> deg ?m j \<le> int (count_list ns j)}"
    by blast
  show ?case
  proof (intro conjI)
    show "\<forall>j. deg m' j = deg m j - int (count_list (n # ns) j)" using d by auto
    show "\<exists>new. q' = q @ new \<and> distinct new
        \<and> set new = {j. 1 \<le> deg m j \<and> deg m j \<le> int (count_list (n # ns) j)}"
      using new by (intro exI [of _ "(if deg m n = 1 then [n] else []) @ new"]) auto
  qed
qed

subsection \<open>Correctness of the sort\<close>

definition kahn_inv :: "task_graph \<Rightarrow> degrees \<Rightarrow> string list \<Rightarrow> string list \<Rightarrow> bool" where
  "kahn_inv g m queue result =
     (distinct (result @ queue) \<and> set result \<subseteq> set (jobOrder g)
      \<and> (\<forall>i. deg m i = int (length (filter (\<lambda>d. d \<notin> set result) (deps_of g i))))
      \<and> set queue = {i \<in> set (jobOrder g). i \<notin> set result \<and> set (deps_of g i) \<subseteq> set result}
      \<and> (\<forall>k < length result. set (deps_of g (result ! k)) \<subseteq> set (take k result)))"

lemma kahn_inv_init:
  "graph_ok g \<Longrightarrow> kahn_inv g (in_degrees g) (filter (\<lambda>i. deg (in_degrees g) i = 0) (jobOrder g)) []"
  by (auto simp: kahn_inv_def in_degrees_deg graph_ok_def)

lemma length_filter_insert:
  "i \<notin> R \<Longrightarrow> length (filter (\<lambda>d. d \<notin> R) xs)
      = length (filter (\<lambda>d. d \<notin> insert i R) xs) + count_list xs i"
  by (induction xs) auto

lemma deps_of_job: "graph_ok g \<Longrightarrow> deps_of g j \<noteq> [] \<Longrightarrow> j \<in> set (jobOrder g)"
  using gm.keys_get [of "jobs g" j] by (auto simp: deps_of_def graph_ok_def split: option.splits)

lemma kahn_inv_step:
  assumes ok: "graph_ok g" and inv: "kahn_inv g m (i # queue) result"
    and relax: "relax (adj_of g i) m queue = (m', queue')"
  shows "kahn_inv g m' queue' (result @ [i])"
proof -
  let ?R = "set result"
  have iR: "i \<notin> ?R" "i \<in> set (jobOrder g)" "set (deps_of g i) \<subseteq> ?R"
    using inv by (auto simp: kahn_inv_def)
  have degm: "deg m j = int (length (filter (\<lambda>d. d \<notin> ?R) (deps_of g j)))" for j
    using inv by (simp add: kahn_inv_def)
  obtain new where degm': "\<And>j. deg m' j = deg m j - int (count_list (deps_of g j) i)"
    and new: "queue' = queue @ new" "distinct new"
      "set new = {j. 1 \<le> deg m j \<and> deg m j \<le> int (count_list (deps_of g j) i)}"
    using relax_spec [OF relax] by (auto simp: count_adj [OF ok])
  have deg': "deg m' j = int (length (filter (\<lambda>d. d \<notin> set (result @ [i])) (deps_of g j)))" for j
    using length_filter_insert [OF iR(1), of "deps_of g j"] by (simp add: degm degm')
  have zero: "deg m j = 0 \<longleftrightarrow> set (deps_of g j) \<subseteq> ?R" "deg m' j = 0 \<longleftrightarrow> set (deps_of g j) \<subseteq> insert i ?R" for j
    by (auto simp: degm deg' filter_empty_conv)
  have nonneg: "0 \<le> deg m j" "0 \<le> deg m' j" for j by (simp_all add: degm deg')
  have new_iff: "j \<in> set new \<longleftrightarrow> deg m j \<noteq> 0 \<and> deg m' j = 0" for j
    using nonneg [of j] by (auto simp: new(3) degm')
  have newJ: "j \<in> set (jobOrder g)" if "j \<in> set new" for j
  proof (rule deps_of_job [OF ok])
    show "deps_of g j \<noteq> []" using that zero(1) [of j] by (auto simp: new_iff)
  qed
  have order: "set (deps_of g (result ! k)) \<subseteq> set (take k result)" if "k < length result" for k
    using inv that by (simp add: kahn_inv_def)
  have doneR: "set (deps_of g j) \<subseteq> ?R" if "j \<in> ?R" for j
    using that order by (metis in_set_conv_nth set_take_subset subset_trans)
  have queue: "set queue = {j \<in> set (jobOrder g). j \<notin> ?R \<and> j \<noteq> i \<and> set (deps_of g j) \<subseteq> ?R}"
    using inv by (auto simp: kahn_inv_def)
  have dist: "distinct ((result @ [i]) @ queue')"
  proof -
    have "j \<notin> ?R \<and> j \<noteq> i \<and> j \<notin> set queue" if "j \<in> set new" for j
      using that zero(1) doneR iR(3) queue by (auto simp: new_iff)
    then show ?thesis using inv new(1,2) by (auto simp: kahn_inv_def)
  qed
  have "set queue' = {j \<in> set (jobOrder g). j \<notin> insert i ?R \<and> set (deps_of g j) \<subseteq> insert i ?R}"
  proof (intro set_eqI iffI)
    fix j assume "j \<in> set queue'"
    then show "j \<in> {j \<in> set (jobOrder g). j \<notin> insert i ?R \<and> set (deps_of g j) \<subseteq> insert i ?R}"
      using queue newJ dist zero(2) by (auto simp: new(1) new_iff)
  next
    fix j assume "j \<in> {j \<in> set (jobOrder g). j \<notin> insert i ?R \<and> set (deps_of g j) \<subseteq> insert i ?R}"
    then show "j \<in> set queue'" using queue zero by (auto simp: new(1) new_iff)
  qed
  moreover have "set (deps_of g ((result @ [i]) ! k)) \<subseteq> set (take k (result @ [i]))"
    if "k < length (result @ [i])" for k
    using that order iR(3) by (cases "k = length result") (auto simp: nth_append)
  ultimately show ?thesis using dist iR inv deg' by (auto simp: kahn_inv_def)
qed

lemma kahn_inv_final:
  "graph_ok g \<Longrightarrow> kahn_inv g m queue result \<Longrightarrow>
   \<exists>mf. kahn_inv g mf [] (kahn (adj_of g) m queue result)"
proof (induction "adj_of g" m queue result rule: kahn.induct)
  case (1 m result)
  then show ?case by (auto simp: kahn.simps)
next
  case (2 m i queue result)
  obtain m' queue' where r: "relax (adj_of g i) m queue = (m', queue')" by (cases "relax (adj_of g i) m queue")
  from 2(1) [OF r [symmetric] refl 2(2) kahn_inv_step [OF 2(2,3) r]] show ?case
    by (simp add: kahn.simps r)
qed

definition dep_rel :: "task_graph \<Rightarrow> (string \<times> string) set" where
  "dep_rel g = {(d, j). j \<in> set (jobOrder g) \<and> d \<in> set (deps_of g j)}"

text \<open>Dependencies come first, every job once: what an execution order is.\<close>

definition execution_order :: "task_graph \<Rightarrow> string list \<Rightarrow> bool" where
  "execution_order g order =
     (distinct order \<and> set order = set (jobOrder g)
      \<and> (\<forall>k < length order. set (deps_of g (order ! k)) \<subseteq> set (take k order)))"

lemma execution_order_acyclic:
  assumes "execution_order g order"
  shows "acyclic (dep_rel g) \<and> Domain (dep_rel g) \<subseteq> set (jobOrder g)"
proof -
  define pos where "pos j = (THE k. k < length order \<and> order ! k = j)" for j
  have pos: "pos (order ! k) = k" if "k < length order" for k
    unfolding pos_def using assms that
    by (intro the_equality) (auto simp: execution_order_def nth_eq_iff_index_eq)
  have fwd: "pos d < pos j \<and> d \<in> set order" if "(d, j) \<in> dep_rel g" for d j
  proof -
    have "j \<in> set order" using that assms by (simp add: dep_rel_def execution_order_def)
    then obtain k where k: "k < length order" "j = order ! k" by (metis in_set_conv_nth)
    then have "d \<in> set (take k order)" using that assms by (auto simp: dep_rel_def execution_order_def)
    then obtain i where "i < k" "order ! i = d" by (auto simp: in_set_conv_nth)
    then show ?thesis using pos k by (metis nth_mem order.strict_trans)
  qed
  have "dep_rel g \<subseteq> measure pos" using fwd by auto
  then have "acyclic (dep_rel g)" by (meson acyclic_subset wf_acyclic wf_measure)
  moreover have "Domain (dep_rel g) \<subseteq> set (jobOrder g)"
    using fwd assms by (auto simp: execution_order_def)
  ultimately show ?thesis by blast
qed

lemma finite_dep_rel: "finite (dep_rel g)"
proof -
  have "dep_rel g = (\<Union>j \<in> set (jobOrder g). (\<lambda>d. (d, j)) ` set (deps_of g j))"
    by (auto simp: dep_rel_def)
  then show ?thesis by simp
qed

lemma TopoSort_spec:
  assumes "graph_ok g"
  shows "TopoSort g = Inr order \<Longrightarrow> execution_order g order"
    and "acyclic (dep_rel g) \<Longrightarrow> Domain (dep_rel g) \<subseteq> set (jobOrder g) \<Longrightarrow> \<exists>order. TopoSort g = Inr order"
proof -
  define r where "r = kahn (adj_of g) (in_degrees g) (filter (\<lambda>i. deg (in_degrees g) i = 0) (jobOrder g)) []"
  obtain mf where inv: "kahn_inv g mf [] r"
    using kahn_inv_final [OF assms kahn_inv_init [OF assms]] by (auto simp: r_def)
  have len: "length (jobs g) = length (jobOrder g)"
    using assms by (metis distinct_card gm.keys_distinct gm_length_keys graph_ok_def)
  have sort: "TopoSort g = Inr order \<longleftrightarrow> order = r \<and> length r = length (jobOrder g)" for order
    by (auto simp: TopoSort_def Let_def r_def len)
  have full: "length r = length (jobOrder g) \<longleftrightarrow> set r = set (jobOrder g)"
  proof
    have d: "distinct r" "distinct (jobOrder g)" "set r \<subseteq> set (jobOrder g)"
      using inv assms by (simp_all add: kahn_inv_def graph_ok_def)
    show "set r = set (jobOrder g)" if "length r = length (jobOrder g)"
      using card_subset_eq [OF _ d(3)] that d by (simp add: distinct_card)
    show "length r = length (jobOrder g)" if "set r = set (jobOrder g)"
      using that d by (metis distinct_card)
  qed
  have order: "execution_order g r" if "length r = length (jobOrder g)"
    using inv that full by (simp add: execution_order_def kahn_inv_def)
  have stuck: "set r = set (jobOrder g)"
    if ac: "acyclic (dep_rel g)" and closed: "Domain (dep_rel g) \<subseteq> set (jobOrder g)"
  proof (rule ccontr)
    assume "set r \<noteq> set (jobOrder g)"
    then obtain j0 where "j0 \<in> set (jobOrder g) - set r" using inv by (auto simp: kahn_inv_def)
    moreover have "wf (dep_rel g)" using finite_acyclic_wf [OF finite_dep_rel ac] .
    ultimately obtain j where j: "j \<in> set (jobOrder g) - set r"
      and min: "\<And>d. (d, j) \<in> dep_rel g \<Longrightarrow> d \<notin> set (jobOrder g) - set r"
      by (metis wfE_min)
    have "set (deps_of g j) \<subseteq> set r" using min closed j by (force simp: dep_rel_def)
    then show False using inv j by (auto simp: kahn_inv_def)
  qed
  show "TopoSort g = Inr order \<Longrightarrow> execution_order g order" using sort order by simp
  show "\<exists>order. TopoSort g = Inr order"
    if "acyclic (dep_rel g)" "Domain (dep_rel g) \<subseteq> set (jobOrder g)"
    using stuck [OF that] full sort by auto
qed

text \<open>
  C31: The topological sort is correct and complete: it succeeds exactly when the dependencies are
  acyclic and all name existing jobs, and what it returns then lists every job once, each after
  all jobs it depends on.
\<close>

theorem TopoSort_correct:
  assumes "graph_ok g"
  shows "(\<forall>order. TopoSort g = Inr order \<longrightarrow> execution_order g order)
     \<and> ((\<exists>order. TopoSort g = Inr order)
        \<longleftrightarrow> acyclic (dep_rel g) \<and> Domain (dep_rel g) \<subseteq> set (jobOrder g))"
  using TopoSort_spec [OF assms] execution_order_acyclic by blast

definition demo_job :: "string \<Rightarrow> string list \<Rightarrow> Job" where
  "demo_job i deps = \<lparr>job_ID = i, job_Name = i, job_Description = [], AgentHint = [],
     Dependencies = deps, job_State = [], Status = JobPending, IsVerifier = False, VerifiesJob = [],
     HumanGate = False, Irreversible = False, Owner = []\<rparr>"

theorem TopoSort_correct_witness:
  "execution_order (build_graph [demo_job ''merge'' [''a'', ''b''], demo_job ''a'' [''plan''],
      demo_job ''b'' [''plan''], demo_job ''plan'' []]) [''plan'', ''a'', ''b'', ''merge'']"
proof -
  let ?g = "build_graph [demo_job ''merge'' [''a'', ''b''], demo_job ''a'' [''plan''],
      demo_job ''b'' [''plan''], demo_job ''plan'' []]"
  have "TopoSort ?g = Inr [''plan'', ''a'', ''b'', ''merge'']" by code_simp
  with TopoSort_correct [OF build_graph_ok] show ?thesis by blast
qed

text \<open>A dependency on a job that does not exist is reported as a cycle.\<close>

lemma missing_dependency_is_called_a_cycle:
  "(case TopoSort (build_graph [demo_job ''a'' [''gone'']]) of Inl e \<Rightarrow> has_prefix e ''cycle detected'' | Inr _ \<Rightarrow> False)"
  by code_simp

subsection \<open>Correctness of the levels\<close>

lemma dep_level_ge:
  "d \<in> set ds \<Longrightarrow> gm_get level d = Some l \<Longrightarrow>
   (l :: nat) < fold (\<lambda>d mx. case gm_get level d of Some l \<Rightarrow> (if mx \<le> l then l + 1 else mx) | None \<Rightarrow> mx) ds mx"
proof (induction ds arbitrary: mx)
  case (Cons x ds)
  have mono: "mx \<le> fold (\<lambda>d mx. case gm_get level d of Some l \<Rightarrow> (if mx \<le> l then l + 1 else mx) | None \<Rightarrow> mx) ds mx" for mx :: nat
  proof (induction ds arbitrary: mx)
    case (Cons y ds)
    have "mx \<le> (case gm_get level y of Some l \<Rightarrow> (if mx \<le> l then l + 1 else mx) | None \<Rightarrow> mx)"
      by (auto split: option.split)
    also note Cons.IH
    finally show ?case by simp
  qed simp
  show ?case
  proof (cases "x = d")
    case True
    have "l < (if mx \<le> l then l + 1 else mx)" by simp
    also note mono
    finally show ?thesis using True Cons.prems by simp
  next
    case False
    then show ?thesis using Cons by simp
  qed
qed simp

lemma assign_levels_snoc:
  "assign_levels g (xs @ [i]) = gm_put i (dep_level (assign_levels g xs) (deps_of g i)) (assign_levels g xs)"
  by (simp add: assign_levels_def)

lemma assign_levels_domain: "gm_get (assign_levels g xs) i \<noteq> None \<longleftrightarrow> i \<in> set xs"
proof (induction xs rule: rev_induct)
  case Nil
  show ?case by (simp add: assign_levels_def gm.get_empty)
qed (auto simp: assign_levels_snoc gm.get_put)

lemma assign_levels_deps:
  assumes "distinct order" and "\<forall>k < length order. set (deps_of g (order ! k)) \<subseteq> set (take k order)"
    and "i \<in> set order" and "d \<in> set (deps_of g i)"
  shows "level_of (assign_levels g order) d < level_of (assign_levels g order) i"
  using assms
proof (induction order rule: rev_induct)
  case (snoc x xs)
  let ?lx = "assign_levels g xs"
  have pre: "\<forall>k < length xs. set (deps_of g (xs ! k)) \<subseteq> set (take k xs)"
    using snoc.prems(2) by (auto simp: nth_append split: if_splits)
  have depx: "set (deps_of g x) \<subseteq> set xs" using snoc.prems(2)[rule_format, of "length xs"] by simp
  have xn: "x \<notin> set xs" using snoc.prems(1) by simp
  have lvl: "level_of (assign_levels g (xs @ [x])) j
      = (if j = x then dep_level ?lx (deps_of g x) else level_of ?lx j)" for j
    by (simp add: assign_levels_snoc level_of_def gm.get_put)
  show ?case
  proof (cases "i = x")
    case True
    then have d: "d \<in> set xs" using depx snoc.prems(4) by auto
    then obtain l where l: "gm_get ?lx d = Some l" using assign_levels_domain [of g xs d] by auto
    have "l < dep_level ?lx (deps_of g x)"
      using dep_level_ge [of d "deps_of g x" ?lx l] snoc.prems(4) True l by (simp add: dep_level_def)
    moreover have "d \<noteq> x" using d xn by auto
    ultimately show ?thesis using True l by (simp add: lvl) (simp add: level_of_def)
  next
    case False
    then have i: "i \<in> set xs" using snoc.prems(3) by simp
    then obtain k where "k < length xs" "xs ! k = i" by (metis in_set_conv_nth)
    then have "d \<in> set xs" using pre snoc.prems(4) by (metis set_take_subset subsetD)
    then have "d \<noteq> x" using xn by auto
    then show ?thesis using snoc.IH [OF _ pre i snoc.prems(4)] snoc.prems(1) False by (simp add: lvl)
  qed
qed simp

lemma fold_max_ge: "x \<in> set xs \<Longrightarrow> x \<le> fold max xs (m :: nat)"
  by (simp only: Max.set_eq_fold [symmetric]) simp

lemma mset_levels:
  "mset (concat (List.map (\<lambda>l. sort_lt str_less (filter (\<lambda>i. f i = l) xs)) [0 ..< n]))
   = mset (filter (\<lambda>i. f i < n) xs)"
proof (induction n)
  case (Suc n)
  have "mset (filter (\<lambda>i. f i < Suc n) xs) = mset (filter (\<lambda>i. f i < n) xs) + mset (filter (\<lambda>i. f i = n) xs)"
    by (induction xs) (auto simp: less_Suc_eq)
  then show ?case using Suc by (simp add: mset_sort_lt)
qed simp

text \<open>
  Jobs of one level can run in parallel: the levels partition the jobs, and whatever a job
  depends on sits in a strictly earlier level.
\<close>

theorem ParallelLevels_correct:
  assumes "graph_ok g" and "ParallelLevels g = Inr levels"
  shows "mset (concat levels) = mset (jobOrder g)
     \<and> (\<forall>l < length levels. \<forall>i \<in> set (levels ! l). \<forall>d \<in> set (deps_of g i).
          \<exists>k < l. d \<in> set (levels ! k))"
proof -
  obtain order where o: "TopoSort g = Inr order"
    using assms(2) by (cases "TopoSort g") (auto simp: ParallelLevels_def)
  then have eo: "execution_order g order" by (rule TopoSort_spec [OF assms(1)])
  define lv where "lv = level_of (assign_levels g order)"
  define n where "n = fold max (gm_vals (assign_levels g order)) 0 + 1"
  have levels: "levels = List.map (\<lambda>l. sort_lt str_less (filter (\<lambda>i. lv i = l) order)) [0 ..< n]"
    using assms(2) o by (simp add: ParallelLevels_def Let_def lv_def n_def)
  have lt: "lv i < n" if "i \<in> set order" for i
  proof -
    obtain l where l: "gm_get (assign_levels g order) i = Some l"
      using assign_levels_domain [of g order i] \<open>i \<in> set order\<close> by auto
    then have "l \<in> set (gm_vals (assign_levels g order))" by (force simp: gm_vals_def dest: gm_get_Some_in)
    then show ?thesis using fold_max_ge l by (simp add: lv_def level_of_def n_def less_Suc_eq_le)
  qed
  have mem: "i \<in> set (levels ! l) \<longleftrightarrow> i \<in> set order \<and> lv i = l" if "l < n" for i l
    using that by (auto simp: levels set_sort_lt)
  have "mset (concat levels) = mset order" using lt by (simp add: levels mset_levels cong: filter_cong)
  also have "\<dots> = mset (jobOrder g)"
    using eo assms(1) set_eq_iff_mset_eq_distinct [of order "jobOrder g"]
    by (simp add: execution_order_def graph_ok_def)
  finally have part: "mset (concat levels) = mset (jobOrder g)" .
  have "\<exists>k < l. d \<in> set (levels ! k)"
    if l: "l < length levels" and i: "i \<in> set (levels ! l)" and d: "d \<in> set (deps_of g i)" for l i d
  proof -
    have io: "i \<in> set order" "lv i = l" using mem [of l i] l i by (simp_all add: levels)
    have "lv d < lv i"
      using assign_levels_deps [OF _ _ io(1) d] eo by (simp add: execution_order_def lv_def)
    moreover have do: "d \<in> set order"
    proof -
      obtain k where "k < length order" "order ! k = i" using io(1) by (metis in_set_conv_nth)
      then have "set (deps_of g i) \<subseteq> set (take k order)" using eo by (auto simp: execution_order_def)
      then show ?thesis using d in_set_takeD by fast
    qed
    ultimately have "lv d < l \<and> d \<in> set (levels ! lv d)" using mem [OF lt [OF do]] io(2) by simp
    then show ?thesis by blast
  qed
  then show ?thesis using part by blast
qed

theorem ParallelLevels_correct_witness:
  "mset (concat [[''plan''], [''a'', ''b''], [''merge'']])
   = mset (jobOrder (build_graph [demo_job ''merge'' [''a'', ''b''], demo_job ''a'' [''plan''],
      demo_job ''b'' [''plan''], demo_job ''plan'' []]))"
proof -
  have "ParallelLevels (build_graph [demo_job ''merge'' [''a'', ''b''], demo_job ''a'' [''plan''],
      demo_job ''b'' [''plan''], demo_job ''plan'' []]) = Inr [[''plan''], [''a'', ''b''], [''merge'']]"
    by code_simp
  from ParallelLevels_correct [OF build_graph_ok this] show ?thesis by blast
qed

text \<open>
  No job that is hard to undo enters a graph without a human gate: whatever jobs are added, in
  whatever order, every irreversible job in the graph is among the human gates.
\<close>

theorem irreversible_jobs_are_gated:
  "\<forall>i j. GetJob (build_graph js) i = Some j \<and> Irreversible j \<longrightarrow> j \<in> set (HumanGates (build_graph js))"
proof (intro allI impI)
  fix i j assume j: "GetJob (build_graph js) i = Some j \<and> Irreversible j"
  let ?g = "build_graph js"
  have get: "gm_get (jobs ?g) i = Some j" using j by (simp add: GetJob_def)
  have "HumanGate j"
    using graph_ok_get [OF build_graph_ok get] j by (auto simp: Job_Validate_def split: if_splits)
  moreover have "i \<in> set (jobOrder ?g)"
    using get build_graph_ok [of js] gm.keys_get [of "jobs ?g" i] by (simp add: graph_ok_def)
  ultimately show "j \<in> set (HumanGates ?g)"
    using get by (auto simp: HumanGates_def List.map_filter_def image_iff intro!: bexI [of _ i])
qed

theorem irreversible_jobs_are_gated_witness:
  "(demo_job ''deploy'' [])\<lparr>Irreversible := True, HumanGate := True\<rparr>
   \<in> set (HumanGates (build_graph [(demo_job ''deploy'' [])\<lparr>Irreversible := True, HumanGate := True\<rparr>]))"
proof -
  let ?j = "(demo_job ''deploy'' [])\<lparr>Irreversible := True, HumanGate := True\<rparr>"
  have "GetJob (build_graph [?j]) ''deploy'' = Some ?j" by code_simp
  then show ?thesis using irreversible_jobs_are_gated [of "[?j]"] by simp
qed

end
