(* ===== verification/GraphStore.thy ===== *)
theory GraphStore
  imports Complex_Main Collections
begin

text \<open>
  The knowledge graph (\<open>internal/graph/ontology.go\<close>, \<open>types.go\<close>, \<open>store.go\<close>): the ontology with
  its subclass hierarchy and domain and range constraints, nodes, edges and events with
  provenance, and the store that admits only what validates.

  A time is the number of seconds since the zero time, or \<open>None\<close> for the zero time itself.  The
  recursive walks over the subclass hierarchy are partial functions: \<open>None\<close> means that the call
  does not return.  Writing the graph file is the parameter \<open>persist\<close>, whose error an operation
  returns after it has changed the store; reading the file back is left out.  Confidence figures,
  which nothing computes with, are rationals.
\<close>

subsection \<open>Ontology\<close>

record Attribute =
  at_Name :: string
  at_Type :: string
  at_Required :: bool
  at_Functional :: bool

record EntityType =
  et_Name :: string
  et_Description :: string
  SubClassOf :: string
  et_Attributes :: "Attribute list"
  et_Identifies :: string
  et_Props :: "(string, string) gomap"

record Relation =
  rel_Name :: string
  rel_Description :: string
  rel_Domain :: string
  rel_Range :: string
  rel_Cardinality :: string
  rel_Functional :: bool
  rel_Inverse :: string

record Ontology =
  on_Name :: string
  on_Description :: string
  EntityTypes :: "EntityType list"
  Relations :: "Relation list"
  on_Version :: string

fun check_types :: "string list \<Rightarrow> EntityType list \<Rightarrow> string option" where
  "check_types seen [] = None"
| "check_types seen (et # ets) =
     (if et_Name et = [] then Some ''entity type with empty name''
      else if et_Name et \<in> set seen then Some (''duplicate entity type: '' @ et_Name et)
      else check_types (et_Name et # seen) ets)"

fun check_subclasses :: "string list \<Rightarrow> EntityType list \<Rightarrow> string option" where
  "check_subclasses types [] = None"
| "check_subclasses types (et # ets) =
     (if SubClassOf et \<noteq> [] \<and> SubClassOf et \<notin> set types
        then Some (''entity type '' @ et_Name et @ '': sub_class_of '' @ SubClassOf et @ '' not declared'')
      else check_subclasses types ets)"

fun check_relations :: "string list \<Rightarrow> string list \<Rightarrow> Relation list \<Rightarrow> string option" where
  "check_relations types seen [] = None"
| "check_relations types seen (r # rs) =
     (if rel_Name r = [] then Some ''relation with empty name''
      else if rel_Name r \<in> set seen then Some (''duplicate relation: '' @ rel_Name r)
      else if rel_Domain r = [] \<or> rel_Range r = []
        then Some (''relation '' @ rel_Name r @ '': domain and range are required'')
      else if rel_Domain r \<notin> set types
        then Some (''relation '' @ rel_Name r @ '': domain '' @ rel_Domain r @ '' not declared'')
      else if rel_Range r \<notin> set types
        then Some (''relation '' @ rel_Name r @ '': range '' @ rel_Range r @ '' not declared'')
      else check_relations types (rel_Name r # seen) rs)"

definition Ontology_Validate :: "Ontology option \<Rightarrow> string option" where
  "Ontology_Validate oo =
     (case oo of
        None \<Rightarrow> Some ''ontology is nil''
      | Some ont \<Rightarrow>
          (let types = List.map et_Name (EntityTypes ont)
           in if on_Name ont = [] then Some ''ontology name is required''
              else if EntityTypes ont = [] then Some ''ontology must declare at least one entity type''
              else case check_types [] (EntityTypes ont) of
                     Some e \<Rightarrow> Some e
                   | None \<Rightarrow> (case check_subclasses types (EntityTypes ont) of
                                Some e \<Rightarrow> Some e
                              | None \<Rightarrow> check_relations types [] (Relations ont))))"

definition find_type :: "Ontology \<Rightarrow> string \<Rightarrow> EntityType option" where
  "find_type ont name = List.find (\<lambda>et. et_Name et = name) (EntityTypes ont)"

definition find_relation :: "Ontology \<Rightarrow> string \<Rightarrow> Relation option" where
  "find_relation ont name = List.find (\<lambda>r. rel_Name r = name) (Relations ont)"

partial_function (option) IsA :: "Ontology \<Rightarrow> string \<Rightarrow> string \<Rightarrow> bool option" where
  "IsA ont child parent =
     (if child = parent then Some True
      else case find_type ont child of
             None \<Rightarrow> Some False
           | Some et \<Rightarrow> (if SubClassOf et = [] then Some False else IsA ont (SubClassOf et) parent))"

text \<open>The loop of \<open>SubClassesOf\<close> over the types that are left.\<close>

partial_function (option) sub_loop :: "Ontology \<Rightarrow> string \<Rightarrow> EntityType list \<Rightarrow> string list option" where
  "sub_loop ont parent ets =
     (case ets of
        [] \<Rightarrow> Some []
      | et # rest \<Rightarrow>
          (if SubClassOf et = parent then
             Option.bind (sub_loop ont (et_Name et) (EntityTypes ont)) (\<lambda>xs.
             Option.bind (sub_loop ont parent rest) (\<lambda>ys. Some (et_Name et # xs @ ys)))
           else sub_loop ont parent rest))"

declare IsA.simps [code] sub_loop.simps [code]

definition SubClassesOf :: "Ontology \<Rightarrow> string \<Rightarrow> string list option" where
  "SubClassesOf ont parent = sub_loop ont parent (EntityTypes ont)"

definition RelationValidFor :: "Ontology \<Rightarrow> string \<Rightarrow> string \<Rightarrow> string \<Rightarrow> bool option" where
  "RelationValidFor ont relName subjectType objectType =
     (case find_relation ont relName of
        None \<Rightarrow> Some False
      | Some r \<Rightarrow>
          (case IsA ont subjectType (rel_Domain r) of
             None \<Rightarrow> None
           | Some b \<Rightarrow> (if b then IsA ont objectType (rel_Range r) else Some False)))"

subsection \<open>Nodes, edges, events\<close>

record Provenance =
  pv_Source :: string
  pv_Span :: string
  pv_ExtractedAt :: "int option"
  pv_Confidence :: rat
  pv_Extractor :: string

definition Provenance_Validate :: "Provenance \<Rightarrow> string option" where
  "Provenance_Validate p =
     (if pv_Source p = [] then Some ''provenance: source is required''
      else if pv_ExtractedAt p = None then Some ''provenance: extracted_at is required''
      else None)"

record Node =
  n_ID :: string
  n_Type :: string
  n_Label :: string
  n_Attributes :: "(string, string) gomap option"
  n_Aliases :: "string list"
  n_Provenance :: Provenance
  n_MergedFrom :: "string list"

text \<open>The attribute map of a node may be nil (\<open>None\<close>), which reads as the empty map.\<close>

definition attrs :: "Node \<Rightarrow> (string, string) gomap" where
  "attrs n = (case n_Attributes n of None \<Rightarrow> gm_empty | Some m \<Rightarrow> m)"

definition Node_Validate :: "Node \<Rightarrow> Ontology \<Rightarrow> string option" where
  "Node_Validate n ont =
     (if n_ID n = [] then Some ''node: id is required''
      else if n_Type n = [] then Some ''node: type is required''
      else case find_type ont (n_Type n) of
             None \<Rightarrow> Some (''node '' @ n_ID n @ '': type '' @ n_Type n @ '' not in ontology'')
           | Some et \<Rightarrow>
               (if n_Label n = [] then Some (''node '' @ n_ID n @ '': label is required'')
                else case Provenance_Validate (n_Provenance n) of
                       Some e \<Rightarrow> Some (''node '' @ n_ID n @ '': '' @ e)
                     | None \<Rightarrow>
                         (case List.find (\<lambda>attr. at_Required attr
                                  \<and> gm_get (attrs n) (at_Name attr) = None) (et_Attributes et) of
                            Some attr \<Rightarrow> Some (''node '' @ n_ID n @ '': required attribute ''
                                               @ at_Name attr @ '' missing'')
                          | None \<Rightarrow> None)))"

definition HasAlias :: "Node \<Rightarrow> string \<Rightarrow> bool" where
  "HasAlias n alias =
     (to_lower (n_Label n) = to_lower alias \<or> list_ex (\<lambda>a. to_lower a = to_lower alias) (n_Aliases n))"

record Edge =
  e_ID :: string
  e_Relation :: string
  e_Subject :: string
  e_Object :: string
  e_Attributes :: "(string, string) gomap"
  e_Provenance :: Provenance

definition arrow :: string where "arrow = [CHR 0xE2, CHR 0x86, CHR 0x92]"

text \<open>The outer option is whether the check returns, the inner one its error.\<close>

definition Edge_Validate :: "Edge \<Rightarrow> Ontology \<Rightarrow> string \<Rightarrow> string \<Rightarrow> string option option" where
  "Edge_Validate e ont subjectType objectType =
     (if e_ID e = [] then Some (Some ''edge: id is required'')
      else if e_Relation e = [] then Some (Some ''edge: relation is required'')
      else if e_Subject e = [] \<or> e_Object e = [] then Some (Some ''edge: subject and object are required'')
      else case find_relation ont (e_Relation e) of
             None \<Rightarrow> Some (Some (''edge '' @ e_ID e @ '': relation '' @ e_Relation e @ '' not in ontology''))
           | Some r \<Rightarrow>
               (case RelationValidFor ont (e_Relation e) subjectType objectType of
                  None \<Rightarrow> None
                | Some ok \<Rightarrow>
                    (if \<not> ok then Some (Some (''edge '' @ e_ID e @ '': relation '' @ e_Relation e
                         @ '' requires '' @ rel_Domain r @ arrow @ rel_Range r @ '', got ''
                         @ subjectType @ arrow @ objectType))
                     else case Provenance_Validate (e_Provenance e) of
                            Some x \<Rightarrow> Some (Some (''edge '' @ e_ID e @ '': '' @ x))
                          | None \<Rightarrow> Some None)))"

record EventArgument =
  ea_Role :: string
  ea_NodeID :: string
  ea_NodeType :: string

record Event =
  ev_ID :: string
  ev_Type :: string
  ev_Trigger :: string
  ev_Time :: "int option"
  ev_Arguments :: "EventArgument list"
  ev_Attributes :: "(string, string) gomap"
  ev_Provenance :: Provenance

definition Event_Validate :: "Event \<Rightarrow> string option" where
  "Event_Validate ev =
     (if ev_ID ev = [] then Some ''event: id is required''
      else if ev_Type ev = [] then Some ''event: type is required''
      else if ev_Trigger ev = [] then Some (''event '' @ ev_ID ev @ '': trigger is required'')
      else case Provenance_Validate (ev_Provenance ev) of
             Some e \<Rightarrow> Some (''event '' @ ev_ID ev @ '': '' @ e)
           | None \<Rightarrow> None)"

subsection \<open>The store\<close>

record MergeRecord =
  mr_Timestamp :: "int option"
  mr_Survivor :: string
  mr_absorbed :: string
  mr_Reason :: string

record store =
  ontology :: "Ontology option"
  nodes :: "(string, Node) gomap"
  edges :: "(string, Edge) gomap"
  events :: "(string, Event) gomap"
  aliasIndex :: "(string, string) gomap"
  typeIndex :: "(string, string list) gomap"
  mergeLog :: "MergeRecord list"

definition empty_store :: store where
  "empty_store = \<lparr>ontology = None, nodes = gm_empty, edges = gm_empty, events = gm_empty,
     aliasIndex = gm_empty, typeIndex = gm_empty, mergeLog = []\<rparr>"

type_synonym persistence = "store \<Rightarrow> string option"

definition SetOntology :: "persistence \<Rightarrow> Ontology option \<Rightarrow> store \<Rightarrow> string option \<times> store" where
  "SetOntology persist oo s =
     (case Ontology_Validate oo of
        Some e \<Rightarrow> (Some (''ontology invalid: '' @ e), s)
      | None \<Rightarrow> (let s = s\<lparr>ontology := oo\<rparr> in (persist s, s)))"

definition indexNode :: "Node \<Rightarrow> store \<Rightarrow> store" where
  "indexNode n s = s\<lparr>
     aliasIndex := fold (\<lambda>a ix. gm_put (to_lower a) (n_ID n) ix) (n_Aliases n)
                     (gm_put (to_lower (n_Label n)) (n_ID n) (aliasIndex s)),
     typeIndex := gm_put (n_Type n)
                    ((case gm_get (typeIndex s) (n_Type n) of None \<Rightarrow> [] | Some ids \<Rightarrow> ids) @ [n_ID n])
                    (typeIndex s)\<rparr>"

definition no_ontology :: string where
  "no_ontology = ''ontology not set '' @ [CHR 0xE2, CHR 0x80, CHR 0x94] @ '' call SetOntology first''"

definition AddNode :: "persistence \<Rightarrow> Node \<Rightarrow> store \<Rightarrow> string option \<times> store" where
  "AddNode persist n s =
     (case ontology s of
        None \<Rightarrow> (Some no_ontology, s)
      | Some ont \<Rightarrow>
          (case Node_Validate n ont of
             Some e \<Rightarrow> (Some e, s)
           | None \<Rightarrow>
               (if gm_get (nodes s) (n_ID n) \<noteq> None
                  then (Some (''node '' @ n_ID n @ '' already exists''), s)
                else let s = indexNode n (s\<lparr>nodes := gm_put (n_ID n) n (nodes s)\<rparr>)
                     in (persist s, s))))"

text \<open>\<open>None\<close>: the validation of the edge does not return.\<close>

definition AddEdge :: "persistence \<Rightarrow> Edge \<Rightarrow> store \<Rightarrow> (string option \<times> store) option" where
  "AddEdge persist e s =
     (case ontology s of
        None \<Rightarrow> Some (Some no_ontology, s)
      | Some ont \<Rightarrow>
          (case gm_get (nodes s) (e_Subject e) of
             None \<Rightarrow> Some (Some (''edge '' @ e_ID e @ '': subject node '' @ e_Subject e @ '' not found''), s)
           | Some subject \<Rightarrow>
               (case gm_get (nodes s) (e_Object e) of
                  None \<Rightarrow> Some (Some (''edge '' @ e_ID e @ '': object node '' @ e_Object e @ '' not found''), s)
                | Some obj \<Rightarrow>
                    (case Edge_Validate e ont (n_Type subject) (n_Type obj) of
                       None \<Rightarrow> None
                     | Some (Some x) \<Rightarrow> Some (Some x, s)
                     | Some None \<Rightarrow>
                         (if gm_get (edges s) (e_ID e) \<noteq> None
                            then Some (Some (''edge '' @ e_ID e @ '' already exists''), s)
                          else let s = s\<lparr>edges := gm_put (e_ID e) e (edges s)\<rparr>
                               in Some (persist s, s))))))"

definition AddEvent :: "persistence \<Rightarrow> Event \<Rightarrow> store \<Rightarrow> string option \<times> store" where
  "AddEvent persist ev s =
     (case Event_Validate ev of
        Some e \<Rightarrow> (Some e, s)
      | None \<Rightarrow>
          (if gm_get (events s) (ev_ID ev) \<noteq> None
             then (Some (''event '' @ ev_ID ev @ '' already exists''), s)
           else let s = s\<lparr>events := gm_put (ev_ID ev) ev (events s)\<rparr> in (persist s, s)))"

definition GetNode :: "store \<Rightarrow> string \<Rightarrow> Node option" where
  "GetNode s i = gm_get (nodes s) i"

definition GetEdge :: "store \<Rightarrow> string \<Rightarrow> Edge option" where
  "GetEdge s i = gm_get (edges s) i"

definition GetEvent :: "store \<Rightarrow> string \<Rightarrow> Event option" where
  "GetEvent s i = gm_get (events s) i"

text \<open>A node of the result may be the nil pointer, the inner \<open>None\<close>.\<close>

definition FindByAlias :: "store \<Rightarrow> string \<Rightarrow> Node option option" where
  "FindByAlias s alias = map_option (gm_get (nodes s)) (gm_get (aliasIndex s) (to_lower alias))"

definition sort_by_id :: "('a \<Rightarrow> string) \<Rightarrow> 'a list \<Rightarrow> 'a list" where
  "sort_by_id i xs = sort_lt (\<lambda>x y. str_less (i x) (i y)) xs"

definition NodesByType :: "store \<Rightarrow> string \<Rightarrow> Node list option" where
  "NodesByType s typeName =
     (case ontology s of
        None \<Rightarrow> Some (sort_by_id n_ID (filter (\<lambda>n. n_Type n = typeName) (gm_vals (nodes s))))
      | Some ont \<Rightarrow>
          map_option (\<lambda>subs. sort_by_id n_ID (filter (\<lambda>n. n_Type n \<in> set (typeName # subs)) (gm_vals (nodes s))))
            (SubClassesOf ont typeName))"

definition AllNodes :: "store \<Rightarrow> Node list" where
  "AllNodes s = sort_by_id n_ID (gm_vals (nodes s))"

definition EdgesFrom :: "store \<Rightarrow> string \<Rightarrow> Edge list" where
  "EdgesFrom s nodeID = sort_by_id e_ID (filter (\<lambda>e. e_Subject e = nodeID) (gm_vals (edges s)))"

definition EdgesTo :: "store \<Rightarrow> string \<Rightarrow> Edge list" where
  "EdgesTo s nodeID = sort_by_id e_ID (filter (\<lambda>e. e_Object e = nodeID) (gm_vals (edges s)))"

definition AllEdges :: "store \<Rightarrow> Edge list" where
  "AllEdges s = sort_by_id e_ID (gm_vals (edges s))"

definition AllEvents :: "store \<Rightarrow> Event list" where
  "AllEvents s = sort_by_id ev_ID (gm_vals (events s))"

fun validate_nodes :: "Ontology \<Rightarrow> Node list \<Rightarrow> string option" where
  "validate_nodes ont [] = None"
| "validate_nodes ont (n # ns) =
     (case Node_Validate n ont of Some e \<Rightarrow> Some e | None \<Rightarrow> validate_nodes ont ns)"

fun validate_edges :: "Ontology \<Rightarrow> store \<Rightarrow> Edge list \<Rightarrow> string option option" where
  "validate_edges ont s [] = Some None"
| "validate_edges ont s (e # es) =
     (case gm_get (nodes s) (e_Subject e) of
        None \<Rightarrow> Some (Some (''edge '' @ e_ID e @ '': subject '' @ e_Subject e @ '' missing''))
      | Some subject \<Rightarrow>
          (case gm_get (nodes s) (e_Object e) of
             None \<Rightarrow> Some (Some (''edge '' @ e_ID e @ '': object '' @ e_Object e @ '' missing''))
           | Some obj \<Rightarrow>
               (case Edge_Validate e ont (n_Type subject) (n_Type obj) of
                  None \<Rightarrow> None
                | Some (Some x) \<Rightarrow> Some (Some x)
                | Some None \<Rightarrow> validate_edges ont s es)))"

definition ValidateAll :: "store \<Rightarrow> string option option" where
  "ValidateAll s =
     (case ontology s of
        None \<Rightarrow> Some (Some ''ontology not set'')
      | Some ont \<Rightarrow>
          (case validate_nodes ont (gm_vals (nodes s)) of
             Some e \<Rightarrow> Some (Some e)
           | None \<Rightarrow> validate_edges ont s (gm_vals (edges s))))"

definition tally :: "string list \<Rightarrow> (string, nat) gomap" where
  "tally ks = fold (\<lambda>k m. gm_put k ((case gm_get m k of None \<Rightarrow> 0 | Some c \<Rightarrow> c) + 1) m) ks gm_empty"

record Stats =
  NodeCount :: nat
  EdgeCount :: nat
  EventCount :: nat
  TypeCounts :: "(string, nat) gomap"
  RelCounts :: "(string, nat) gomap"
  MergeCount :: nat

definition store_Stats :: "store \<Rightarrow> Stats" where
  "store_Stats s = \<lparr>NodeCount = length (nodes s), EdgeCount = length (edges s),
     EventCount = length (events s), TypeCounts = tally (List.map n_Type (gm_vals (nodes s))),
     RelCounts = tally (List.map e_Relation (gm_vals (edges s))), MergeCount = length (mergeLog s)\<rparr>"

subsection \<open>The subclass hierarchy\<close>

definition parent_rel :: "Ontology \<Rightarrow> (string \<times> string) set" where
  "parent_rel ont = {(c, SubClassOf et) | c et. find_type ont c = Some et \<and> SubClassOf et \<noteq> []}"

lemma finite_parent_rel: "finite (parent_rel ont)"
proof -
  have "parent_rel ont \<subseteq> (\<lambda>et. (et_Name et, SubClassOf et)) ` set (EntityTypes ont)"
    by (auto simp: parent_rel_def find_type_def image_iff dest!: find_Some_mem)
  then show ?thesis by (rule finite_subset) simp
qed

lemma IsA_acyclic:
  assumes "acyclic (parent_rel ont)"
  shows "IsA ont child parent = Some ((child, parent) \<in> (parent_rel ont)\<^sup>*)"
proof (induction child rule: wf_induct_rule [OF finite_acyclic_wf_converse [OF finite_parent_rel assms]])
  case (1 child)
  show ?case
  proof (cases "find_type ont child")
    case None
    then have "(child, x) \<notin> parent_rel ont" for x by (simp add: parent_rel_def)
    then show ?thesis using None by (subst IsA.simps) (auto elim: converse_rtranclE)
  next
    case (Some et)
    show ?thesis
    proof (cases "SubClassOf et = []")
      case True
      then have "(child, x) \<notin> parent_rel ont" for x using Some by (simp add: parent_rel_def)
      then show ?thesis using Some True by (subst IsA.simps) (auto elim: converse_rtranclE)
    next
      case False
      then have up: "(child, x) \<in> parent_rel ont \<longleftrightarrow> x = SubClassOf et" for x
        using Some by (auto simp: parent_rel_def)
      have "(child, parent) \<in> (parent_rel ont)\<^sup>* \<longleftrightarrow>
          child = parent \<or> (SubClassOf et, parent) \<in> (parent_rel ont)\<^sup>*"
        using up by (metis converse_rtranclE converse_rtrancl_into_rtrancl rtrancl.rtrancl_refl)
      then show ?thesis using 1 [of "SubClassOf et"] up Some False by (subst IsA.simps) auto
    qed
  qed
qed

text \<open>
  On an acyclic subclass hierarchy the subclass test returns and decides exactly the reflexive
  and transitive closure of the declared subclass relation, so a relation is valid for two types
  exactly when they are the declared domain and range or descend from them.
\<close>

theorem RelationValidFor_correct:
  assumes "acyclic (parent_rel ont)"
  shows "RelationValidFor ont name st ot
     = Some (\<exists>r. find_relation ont name = Some r \<and> (st, rel_Domain r) \<in> (parent_rel ont)\<^sup>*
                \<and> (ot, rel_Range r) \<in> (parent_rel ont)\<^sup>*)"
  by (simp add: RelationValidFor_def IsA_acyclic [OF assms] split: option.split)

definition demo_type :: "string \<Rightarrow> string \<Rightarrow> EntityType" where
  "demo_type name super = \<lparr>et_Name = name, et_Description = [], SubClassOf = super,
     et_Attributes = [], et_Identifies = [], et_Props = []\<rparr>"

definition demo_ontology :: "EntityType list \<Rightarrow> Ontology" where
  "demo_ontology ets = \<lparr>on_Name = ''demo'', on_Description = [], EntityTypes = ets,
     Relations = [\<lparr>rel_Name = ''ACQUIRED'', rel_Description = [], rel_Domain = ''Org'',
       rel_Range = ''Org'', rel_Cardinality = [], rel_Functional = False, rel_Inverse = []\<rparr>],
     on_Version = []\<rparr>"

lemma demo_acyclic: "acyclic (parent_rel (demo_ontology [demo_type ''Org'' [], demo_type ''Firm'' ''Org'']))"
proof -
  have "parent_rel (demo_ontology [demo_type ''Org'' [], demo_type ''Firm'' ''Org'']) = {(''Firm'', ''Org'')}"
    by (auto simp: parent_rel_def find_type_def demo_ontology_def demo_type_def split: if_splits)
  then show ?thesis by (auto simp: acyclic_def elim: tranclE)
qed

theorem RelationValidFor_correct_witness:
  "RelationValidFor (demo_ontology [demo_type ''Org'' [], demo_type ''Firm'' ''Org'']) ''ACQUIRED'' ''Firm'' ''Org''
   = Some True"
proof -
  let ?o = "demo_ontology [demo_type ''Org'' [], demo_type ''Firm'' ''Org'']"
  have "find_relation ?o ''ACQUIRED'' = Some (hd (Relations ?o))" by code_simp
  moreover have "(''Firm'', ''Org'') \<in> parent_rel ?o"
    by (simp add: parent_rel_def find_type_def demo_ontology_def demo_type_def)
  moreover have "rel_Domain (hd (Relations ?o)) = ''Org''" "rel_Range (hd (Relations ?o)) = ''Org''" by code_simp+
  ultimately show ?thesis
    unfolding RelationValidFor_correct [OF demo_acyclic] by (auto intro: r_into_rtrancl)
qed

text \<open>An ontology whose types are subclasses of each other.\<close>

definition loop_ontology :: Ontology where
  "loop_ontology = demo_ontology [demo_type ''A'' ''B'', demo_type ''B'' ''A'', demo_type ''Org'' []]"

lemma loop_find: "find_type loop_ontology ''A'' = Some (demo_type ''A'' ''B'')"
  "find_type loop_ontology ''B'' = Some (demo_type ''B'' ''A'')"
  by code_simp+

lemma IsA_loops:
  assumes "IsA ont c p = Some b"
  shows "\<not> (ont = loop_ontology \<and> (c = ''A'' \<or> c = ''B'') \<and> p = ''Org'')"
  by (rule IsA.raw_induct [where P = "\<lambda>ont c p b. \<not> (ont = loop_ontology \<and> (c = ''A'' \<or> c = ''B'') \<and> p = ''Org'')",
        OF _ assms])
    (fastforce simp: loop_find demo_type_def split: if_splits)

text \<open>
  Validation accepts a cyclic subclass hierarchy, on which the subclass test -- and with it
  the admission of an edge between two of those types -- never returns.
\<close>

theorem cyclic_ontology_is_accepted_and_diverges:
  "Ontology_Validate (Some loop_ontology) = None \<and> IsA loop_ontology ''A'' ''Org'' = None"
proof
  show "Ontology_Validate (Some loop_ontology) = None" by code_simp
  show "IsA loop_ontology ''A'' ''Org'' = None"
    using IsA_loops [of loop_ontology "''A''" "''Org''"] by (cases "IsA loop_ontology ''A'' ''Org''") auto
qed

subsection \<open>The store admits only what validates\<close>

datatype store_op = OpNode Node | OpEdge Edge | OpEvent Event

definition store_step :: "persistence \<Rightarrow> store_op \<Rightarrow> store \<Rightarrow> store option" where
  "store_step persist op s =
     (case op of
        OpNode n \<Rightarrow> Some (snd (AddNode persist n s))
      | OpEdge e \<Rightarrow> map_option snd (AddEdge persist e s)
      | OpEvent ev \<Rightarrow> Some (snd (AddEvent persist ev s)))"

fun run_store_ops :: "persistence \<Rightarrow> store_op list \<Rightarrow> store \<Rightarrow> store option" where
  "run_store_ops persist [] s = Some s"
| "run_store_ops persist (op # ops) s = Option.bind (store_step persist op s) (run_store_ops persist ops)"

definition store_inv :: "Ontology \<Rightarrow> store \<Rightarrow> bool" where
  "store_inv ont s \<longleftrightarrow>
     ontology s = Some ont \<and> gm_ok (nodes s) \<and> gm_ok (edges s) \<and> gm_ok (events s)
     \<and> (\<forall>i n. gm_get (nodes s) i = Some n \<longrightarrow> n_ID n = i \<and> Node_Validate n ont = None)
     \<and> (\<forall>i e. gm_get (edges s) i = Some e \<longrightarrow> e_ID e = i
          \<and> (\<exists>x y. gm_get (nodes s) (e_Subject e) = Some x \<and> gm_get (nodes s) (e_Object e) = Some y
                \<and> Edge_Validate e ont (n_Type x) (n_Type y) = Some None))
     \<and> (\<forall>i ev. gm_get (events s) i = Some ev \<longrightarrow> ev_ID ev = i \<and> Event_Validate ev = None)"

lemma indexNode_simps [simp]:
  "ontology (indexNode n s) = ontology s" "nodes (indexNode n s) = nodes s"
  "edges (indexNode n s) = edges s" "events (indexNode n s) = events s"
  by (simp_all add: indexNode_def)

lemma AddNode_inv: "store_inv ont s \<Longrightarrow> store_inv ont (snd (AddNode persist n s))"
proof -
  assume inv: "store_inv ont s"
  show ?thesis
  proof (cases "Node_Validate n ont = None \<and> gm_get (nodes s) (n_ID n) = None")
    case True
    then have s': "snd (AddNode persist n s) = indexNode n (s\<lparr>nodes := gm_put (n_ID n) n (nodes s)\<rparr>)"
      using inv by (simp add: AddNode_def store_inv_def Let_def)
    have keep: "gm_get (gm_put (n_ID n) n (nodes s)) k = Some x" if "gm_get (nodes s) k = Some x" for k x
      using that True by (cases "k = n_ID n") (simp_all add: gm.get_put)
    have nodes: "n_ID x = k \<and> Node_Validate x ont = None"
      if "gm_get (gm_put (n_ID n) n (nodes s)) k = Some x" for k x
      using that inv True by (auto simp: gm.get_put store_inv_def split: if_splits)
    have edges: "e_ID e = k \<and> (\<exists>x y. gm_get (gm_put (n_ID n) n (nodes s)) (e_Subject e) = Some x
        \<and> gm_get (gm_put (n_ID n) n (nodes s)) (e_Object e) = Some y
        \<and> Edge_Validate e ont (n_Type x) (n_Type y) = Some None)"
      if "gm_get (edges s) k = Some e" for k e
      using that inv keep unfolding store_inv_def by blast
    show ?thesis using inv nodes edges unfolding s' store_inv_def by (simp add: gm.ok_put)
  next
    case False
    then have "snd (AddNode persist n s) = s"
      using inv by (auto simp: AddNode_def store_inv_def split: option.splits)
    then show ?thesis using inv by simp
  qed
qed

lemma AddEdge_inv:
  assumes inv: "store_inv ont s" and "AddEdge persist e s = Some (err, s')"
  shows "store_inv ont s'"
proof (cases "s' = s")
  case False
  have o: "ontology s = Some ont" using inv by (simp add: store_inv_def)
  obtain x y where xy: "gm_get (nodes s) (e_Subject e) = Some x" "gm_get (nodes s) (e_Object e) = Some y"
      "Edge_Validate e ont (n_Type x) (n_Type y) = Some None"
    and s': "s' = s\<lparr>edges := gm_put (e_ID e) e (edges s)\<rparr>"
    using assms(2) False o by (auto simp: AddEdge_def Let_def split: option.splits if_splits)
  then show ?thesis using inv by (auto simp: store_inv_def gm.get_put gm.ok_put)
qed (use inv in simp)

lemma AddEvent_inv: "store_inv ont s \<Longrightarrow> store_inv ont (snd (AddEvent persist ev s))"
  by (auto simp: AddEvent_def Let_def store_inv_def gm.get_put gm.ok_put split: option.split)

lemma run_ops_inv: "store_inv ont s \<Longrightarrow> run_store_ops persist ops s = Some s' \<Longrightarrow> store_inv ont s'"
proof (induction ops arbitrary: s)
  case (Cons op ops)
  obtain s1 where s1: "store_step persist op s = Some s1" and rest: "run_store_ops persist ops s1 = Some s'"
    using Cons.prems(2) by (auto simp: bind_eq_Some_conv)
  have "store_inv ont s1" using s1 Cons.prems(1) AddNode_inv AddEdge_inv AddEvent_inv
    by (auto simp: store_step_def split: store_op.splits)
  then show ?case using Cons.IH rest by blast
qed simp

lemma store_inv_valid: "store_inv ont s \<Longrightarrow> ValidateAll s = Some None"
proof -
  assume inv: "store_inv ont s"
  have "validate_nodes ont ns = None" if "\<forall>n \<in> set ns. Node_Validate n ont = None" for ns
    using that by (induction ns) auto
  moreover have "\<forall>n \<in> set (gm_vals (nodes s)). Node_Validate n ont = None"
    using inv gm_vals_iff [of "nodes s"] by (auto simp: store_inv_def)
  moreover have "validate_edges ont s es = Some None"
    if "\<forall>e \<in> set es. \<exists>x y. gm_get (nodes s) (e_Subject e) = Some x
        \<and> gm_get (nodes s) (e_Object e) = Some y \<and> Edge_Validate e ont (n_Type x) (n_Type y) = Some None" for es
    using that by (induction es) auto
  moreover have "\<forall>e \<in> set (gm_vals (edges s)). \<exists>x y. gm_get (nodes s) (e_Subject e) = Some x
        \<and> gm_get (nodes s) (e_Object e) = Some y \<and> Edge_Validate e ont (n_Type x) (n_Type y) = Some None"
    using inv gm_vals_iff [of "edges s"] by (auto simp: store_inv_def)
  ultimately show ?thesis using inv by (simp add: ValidateAll_def store_inv_def)
qed

text \<open>
  C33: A store filled through its own operations is valid: once an ontology is installed in an empty
  store, any sequence of node, edge and event insertions -- accepted, rejected or failing to
  persist -- leaves a graph every node and edge of which passes \<open>ValidateAll\<close>; in particular no
  edge ever dangles or breaks its relation's domain or range.
\<close>

theorem store_stays_valid:
  assumes "Ontology_Validate (Some ont) = None"
    and "run_store_ops persist ops (snd (SetOntology persist (Some ont) empty_store)) = Some s"
  shows "ValidateAll s = Some None"
proof -
  have "store_inv ont (snd (SetOntology persist (Some ont) empty_store))"
    using assms(1) by (simp add: SetOntology_def Let_def store_inv_def empty_store_def gm.ok_empty gm.get_empty)
  from run_ops_inv [OF this assms(2)] show ?thesis by (rule store_inv_valid)
qed

definition demo_node :: "string \<Rightarrow> string \<Rightarrow> Node" where
  "demo_node i ty = \<lparr>n_ID = i, n_Type = ty, n_Label = i, n_Attributes = None, n_Aliases = [],
     n_Provenance = \<lparr>pv_Source = ''doc'', pv_Span = [], pv_ExtractedAt = Some 1, pv_Confidence = 0, pv_Extractor = []\<rparr>,
     n_MergedFrom = []\<rparr>"

definition demo_edge :: "string \<Rightarrow> string \<Rightarrow> string \<Rightarrow> Edge" where
  "demo_edge i x y = \<lparr>e_ID = i, e_Relation = ''ACQUIRED'', e_Subject = x, e_Object = y, e_Attributes = [],
     e_Provenance = \<lparr>pv_Source = ''doc'', pv_Span = [], pv_ExtractedAt = Some 1, pv_Confidence = 0, pv_Extractor = []\<rparr>\<rparr>"

theorem store_stays_valid_witness:
  "\<exists>s. run_store_ops (\<lambda>_. None) [OpNode (demo_node ''x'' ''Firm''), OpEdge (demo_edge ''e'' ''x'' ''gone''),
       OpNode (demo_node ''y'' ''Org''), OpEdge (demo_edge ''e'' ''x'' ''y'')]
     (snd (SetOntology (\<lambda>_. None) (Some (demo_ontology [demo_type ''Org'' [], demo_type ''Firm'' ''Org''])) empty_store))
     = Some s \<and> length (edges s) = 1 \<and> ValidateAll s = Some None"
proof -
  let ?o = "demo_ontology [demo_type ''Org'' [], demo_type ''Firm'' ''Org'']"
  let ?r = "run_store_ops (\<lambda>_. None) [OpNode (demo_node ''x'' ''Firm''), OpEdge (demo_edge ''e'' ''x'' ''gone''),
       OpNode (demo_node ''y'' ''Org''), OpEdge (demo_edge ''e'' ''x'' ''y'')]
     (snd (SetOntology (\<lambda>_. None) (Some ?o) empty_store))"
  have v: "Ontology_Validate (Some ?o) = None" by code_simp
  have "(case ?r of Some s \<Rightarrow> length (edges s) = 1 | None \<Rightarrow> False)" by code_simp
  then obtain s where s: "?r = Some s" "length (edges s) = 1" by (cases ?r) auto
  then show ?thesis using store_stays_valid [OF v s(1)] by blast
qed

end
