(* ===== verification/GraphFuse.thy ===== *)
theory GraphFuse
  imports Complex_Main GraphStore
begin

text \<open>
  Fusion of entity candidates into the graph (\<open>internal/graph/fuse/fuse.go\<close>): blocking, the
  Levenshtein matcher, the review band, the merge policy and the pipeline.  Scores are exact
  rationals where the code computes in floating point; the clock is a parameter.
\<close>

subsection \<open>Edit distance\<close>

definition min3 :: "nat \<Rightarrow> nat \<Rightarrow> nat \<Rightarrow> nat" where
  "min3 a b c = (let a = (if b < a then b else a) in (if c < a then c else a))"

text \<open>
  The inner loop of \<open>levenshtein\<close>: the cells of a row from the previous row and the cell to the
  left; then a whole row; then the loop over the rows.
\<close>

fun lev_cells :: "char \<Rightarrow> string \<Rightarrow> nat list \<Rightarrow> nat \<Rightarrow> nat list" where
  "lev_cells x (y # ys) (p0 # p1 # ps) left =
     (let cost = (if x = y then 0 else 1);
          c = min3 (p1 + 1) (left + 1) (p0 + cost)
      in c # lev_cells x ys (p1 # ps) c)"
| "lev_cells x _ _ left = []"

definition lev_row :: "char \<Rightarrow> nat \<Rightarrow> string \<Rightarrow> nat list \<Rightarrow> nat list" where
  "lev_row x i b prev = i # lev_cells x b prev i"

fun lev_rows :: "string \<Rightarrow> nat \<Rightarrow> string \<Rightarrow> nat list \<Rightarrow> nat list" where
  "lev_rows [] i b prev = prev"
| "lev_rows (x # xs) i b prev = lev_rows xs (i + 1) b (lev_row x (i + 1) b prev)"

definition levenshtein :: "string \<Rightarrow> string \<Rightarrow> nat" where
  "levenshtein a b =
     (if length a = 0 then length b
      else if length b = 0 then length a
      else lev_rows a 0 b [0 ..< length b + 1] ! length b)"

definition stringSimilarity :: "string \<Rightarrow> string \<Rightarrow> rat" where
  "stringSimilarity a b =
     (if a = [] \<and> b = [] then 1
      else 1 - of_nat (levenshtein a b) / of_nat (max (length a) (length b)))"

subsection \<open>Candidates and blocks\<close>

record EntityCandidate =
  ec_Type :: string
  ec_Label :: string
  ec_Span :: string
  ec_Attributes :: "(string, string) gomap option"
  ec_Confidence :: rat

definition normalizeLabel :: "string \<Rightarrow> string" where
  "normalizeLabel s = replace_all (to_lower (trim_space s)) '' '' []"

definition prefix_of :: "int \<Rightarrow> string \<Rightarrow> string" where
  "prefix_of n label = (if n \<le> 0 \<or> int (length label) < n then label else take (nat n) label)"

definition PrefixBlocker_Block :: "int \<Rightarrow> EntityCandidate \<Rightarrow> string" where
  "PrefixBlocker_Block prefixLen c = prefix_of prefixLen (normalizeLabel (ec_Label c))"

definition TypeBlocker_Block :: "int \<Rightarrow> EntityCandidate \<Rightarrow> string" where
  "TypeBlocker_Block prefixLen c = ec_Type c @ '':'' @ prefix_of prefixLen (normalizeLabel (ec_Label c))"

definition Block :: "EntityCandidate list \<Rightarrow> (EntityCandidate \<Rightarrow> string)
    \<Rightarrow> (string, EntityCandidate list) gomap" where
  "Block candidates key =
     fold (\<lambda>c blocks. gm_put (key c)
             ((case gm_get blocks (key c) of None \<Rightarrow> [] | Some cs \<Rightarrow> cs) @ [c]) blocks)
       candidates gm_empty"

subsection \<open>Scores and decisions\<close>

definition cattrs :: "EntityCandidate \<Rightarrow> (string, string) gomap" where
  "cattrs c = (case ec_Attributes c of None \<Rightarrow> gm_empty | Some m \<Rightarrow> m)"

definition attr_scores :: "(string, rat) gomap \<Rightarrow> EntityCandidate \<Rightarrow> EntityCandidate \<Rightarrow> rat \<times> rat" where
  "attr_scores weights a b =
     fold (\<lambda>(attr, w) (attrScore, attrWeightSum).
        case (gm_get (cattrs a) attr, gm_get (cattrs b) attr) of
          (Some va, Some vb) \<Rightarrow> (attrScore + w * stringSimilarity va vb, attrWeightSum + w)
        | _ \<Rightarrow> (attrScore, attrWeightSum)) weights (0, 0)"

text \<open>A quotient of floating point numbers; the only ones that are not rational come from a zero divisor.\<close>

datatype score = Num rat | PosInf | NegInf | NaN

definition fdiv :: "rat \<Rightarrow> rat \<Rightarrow> score" where
  "fdiv x y = (if y \<noteq> 0 then Num (x / y) else if 0 < x then PosInf else if x < 0 then NegInf else NaN)"

definition Levenshtein_Score :: "rat \<Rightarrow> (string, rat) gomap \<Rightarrow> EntityCandidate \<Rightarrow> EntityCandidate \<Rightarrow> score" where
  "Levenshtein_Score labelWeight weights a b =
     (let score = stringSimilarity (ec_Label a) (ec_Label b) * labelWeight;
          (attrScore, attrWeightSum) = attr_scores weights a b
      in if 0 < attrWeightSum then fdiv (score + attrScore) (labelWeight + attrWeightSum)
         else fdiv score labelWeight)"

datatype Decision = DecisionAutoMerge | DecisionAutoReject | DecisionHuman

record ReviewBand =
  Low :: rat
  High :: rat

fun Classify :: "ReviewBand \<Rightarrow> score \<Rightarrow> Decision" where
  "Classify band (Num score) =
     (if High band \<le> score then DecisionAutoMerge
      else if score < Low band then DecisionAutoReject
      else DecisionHuman)"
| "Classify band PosInf = DecisionAutoMerge"
| "Classify band NegInf = DecisionAutoReject"
| "Classify band NaN = DecisionHuman"

subsection \<open>Merging\<close>

record MergePolicy =
  SourcePriority :: "(string, int) gomap"
  KeepAlias :: bool

definition priority :: "MergePolicy \<Rightarrow> Node \<Rightarrow> int" where
  "priority policy n =
     (case gm_get (SourcePriority policy) (pv_Source (n_Provenance n)) of None \<Rightarrow> 0 | Some p \<Rightarrow> p)"

definition add_alias :: "string \<Rightarrow> Node \<Rightarrow> Node" where
  "add_alias alias a =
     (if \<not> HasAlias a alias \<and> alias \<noteq> n_Label a then a\<lparr>n_Aliases := n_Aliases a @ [alias]\<rparr> else a)"

definition merge_attr :: "bool \<Rightarrow> string \<times> string \<Rightarrow> (string, string) gomap \<Rightarrow> (string, string) gomap" where
  "merge_attr bWins kv m =
     (if gm_get m (fst kv) = None \<or> bWins then gm_put (fst kv) (snd kv) m else m)"

record FuseRecord =
  fr_Timestamp :: int
  fr_Survivor :: string
  fr_Absorbed :: string
  fr_Reason :: string

text \<open>\<open>None\<close>: the write into a nil attribute map panics.\<close>

definition Merge :: "int \<Rightarrow> Node \<Rightarrow> Node \<Rightarrow> MergePolicy \<Rightarrow> (Node \<times> FuseRecord) option" where
  "Merge now a b policy =
     (let record = \<lparr>fr_Timestamp = now, fr_Survivor = n_ID a, fr_Absorbed = n_ID b,
                    fr_Reason = ''fusion''\<rparr>;
          a = (if KeepAlias policy then add_alias (n_Label b) a else a);
          a = fold add_alias (n_Aliases b) a;
          bWins = priority policy a < priority policy b
      in case (n_Attributes a, attrs b) of
           (None, _ # _) \<Rightarrow> None
         | (None, []) \<Rightarrow> Some (a\<lparr>n_MergedFrom := n_MergedFrom a @ [n_ID b]\<rparr>, record)
         | (Some m, bs) \<Rightarrow>
             Some (a\<lparr>n_Attributes := Some (fold (merge_attr bWins) bs m),
                     n_MergedFrom := n_MergedFrom a @ [n_ID b]\<rparr>, record))"

subsection \<open>The pipeline\<close>

text \<open>
  \<open>Run\<close> works on the nodes of the store in place.  A review item names its node by its key in the
  store.  The clock gives the time of the \<open>k\<close>-th merge; \<open>visit\<close> is the order in which the Go map
  of blocks is traversed.  The result \<open>None\<close> is a panic, on a nil node or a nil attribute map.
\<close>

record ReviewItem =
  ri_Candidate :: EntityCandidate
  ri_Existing :: string
  ri_Score :: score

record Pipeline =
  p_Blocker :: "EntityCandidate \<Rightarrow> string"
  p_Matcher :: "EntityCandidate \<Rightarrow> EntityCandidate \<Rightarrow> score"
  p_Band :: ReviewBand
  p_Policy :: MergePolicy

type_synonym fusion = "FuseRecord list \<times> ReviewItem list \<times> store"

definition as_candidate :: "Node \<Rightarrow> EntityCandidate" where
  "as_candidate n = \<lparr>ec_Type = n_Type n, ec_Label = n_Label n, ec_Span = [],
     ec_Attributes = n_Attributes n, ec_Confidence = 0\<rparr>"

definition candidate_node :: "int \<Rightarrow> EntityCandidate \<Rightarrow> Node" where
  "candidate_node now c = \<lparr>n_ID = ec_Label c @ '':candidate'', n_Type = ec_Type c, n_Label = ec_Label c,
     n_Attributes = ec_Attributes c, n_Aliases = [],
     n_Provenance = \<lparr>pv_Source = ''fuse'', pv_Span = [], pv_ExtractedAt = Some now, pv_Confidence = 0, pv_Extractor = []\<rparr>,
     n_MergedFrom = []\<rparr>"

definition fuse_candidate :: "Pipeline \<Rightarrow> (nat \<Rightarrow> int) \<Rightarrow> EntityCandidate \<Rightarrow> fusion \<Rightarrow> fusion option" where
  "fuse_candidate p clock c fs =
     (case fs of (merges, reviews, s) \<Rightarrow>
       (case gm_get (aliasIndex s) (to_lower (ec_Label c)) of
          None \<Rightarrow> Some (merges, reviews, s)
        | Some i \<Rightarrow>
            (case gm_get (nodes s) i of
               None \<Rightarrow> None
             | Some existing \<Rightarrow>
                 (let score = p_Matcher p (as_candidate existing) c;
                      now = clock (length merges)
                  in case Classify (p_Band p) score of
                       DecisionAutoMerge \<Rightarrow>
                         (case Merge now existing (candidate_node now c) (p_Policy p) of
                            None \<Rightarrow> None
                          | Some (merged, rec) \<Rightarrow>
                              Some (merges @ [rec], reviews, s\<lparr>nodes := gm_put i merged (nodes s)\<rparr>))
                     | DecisionHuman \<Rightarrow>
                         Some (merges, reviews @ [\<lparr>ri_Candidate = c, ri_Existing = i, ri_Score = score\<rparr>], s)
                     | DecisionAutoReject \<Rightarrow> Some (merges, reviews, s)))))"

fun fuse_all :: "Pipeline \<Rightarrow> (nat \<Rightarrow> int) \<Rightarrow> EntityCandidate list \<Rightarrow> fusion \<Rightarrow> fusion option" where
  "fuse_all p clock [] fs = Some fs"
| "fuse_all p clock (c # cs) fs = Option.bind (fuse_candidate p clock c fs) (fuse_all p clock cs)"

definition Run_fusion :: "Pipeline \<Rightarrow> (nat \<Rightarrow> int)
    \<Rightarrow> ((string, EntityCandidate list) gomap \<Rightarrow> (string, EntityCandidate list) gomap)
    \<Rightarrow> EntityCandidate list \<Rightarrow> store option \<Rightarrow> (string + fusion) option" where
  "Run_fusion p clock visit candidates st =
     (case st of
        None \<Rightarrow> Some (Inl ''fuse: store is nil'')
      | Some s \<Rightarrow>
          map_option (\<lambda>(merges, reviews, s).
              Inr (sort_lt (\<lambda>x y. fr_Timestamp x < fr_Timestamp y) merges, reviews, s))
            (fuse_all p clock (concat (List.map snd (visit (Block candidates (p_Blocker p))))) ([], [], s)))"

subsection \<open>Edit distance is minimal\<close>

text \<open>A derivation of \<open>b\<close> from \<open>a\<close> by single-byte edits, with its cost.\<close>

inductive edits :: "nat \<Rightarrow> string \<Rightarrow> string \<Rightarrow> bool" where
  edits_nil: "edits 0 [] []"
| edits_insert: "edits n a b \<Longrightarrow> edits (n + 1) a (y # b)"
| edits_delete: "edits n a b \<Longrightarrow> edits (n + 1) (x # a) b"
| edits_keep: "edits n a b \<Longrightarrow> edits n (x # a) (x # b)"
| edits_replace: "edits n a b \<Longrightarrow> edits (n + 1) (x # a) (y # b)"

fun ed :: "string \<Rightarrow> string \<Rightarrow> nat" where
  "ed [] ys = length ys"
| "ed (x # xs) [] = length xs + 1"
| "ed (x # xs) (y # ys) =
     min3 (ed xs (y # ys) + 1) (ed (x # xs) ys + 1) (ed xs ys + (if x = y then 0 else 1))"

lemma min3_min: "min3 a b c = min a (min b c)"
  by (simp add: min3_def min_def Let_def)

lemma ed_nil [simp]: "ed xs [] = length xs"
  by (cases xs) simp_all

lemma edits_insert_all: "edits (length ys) [] ys"
  by (induction ys) (auto intro: edits_nil edits_insert [where n = "length _", simplified])

lemma edits_delete_all: "edits (length xs) xs []"
  by (induction xs) (auto intro: edits_nil edits_delete [where n = "length _", simplified])

lemma edits_ed: "edits (ed a b) a b"
proof (induction a b rule: ed.induct)
  case (1 ys)
  show ?case using edits_insert_all by simp
next
  case (2 x xs)
  show ?case using edits_delete_all [of "x # xs"] by simp
next
  case (3 x xs y ys)
  have "edits (ed xs ys + (if x = y then 0 else 1)) (x # xs) (y # ys)"
    using edits_keep [OF 3(3)] edits_replace [OF 3(3)] by (cases "x = y") simp_all
  moreover have "edits (ed xs (y # ys) + 1) (x # xs) (y # ys)" using 3(1) by (rule edits_delete)
  moreover have "edits (ed (x # xs) ys + 1) (x # xs) (y # ys)" using 3(2) by (rule edits_insert)
  ultimately show ?case unfolding ed.simps min3_min min_def by presburger
qed

lemma ed_insert: "ed a (y # b) \<le> ed a b + 1"
  by (cases a) (simp_all add: min3_min)

lemma ed_delete: "ed (x # a) b \<le> ed a b + 1"
  by (cases b) (simp_all add: min3_min)

lemma ed_least: "edits n a b \<Longrightarrow> ed a b \<le> n"
proof (induction rule: edits.induct)
  case (edits_insert n a b y) then show ?case using ed_insert [of a y b] by simp
next
  case (edits_delete n a b x) then show ?case using ed_delete [of x a b] by simp
qed (auto simp: min3_min min_def)

lemma edits_append: "edits n a b \<Longrightarrow> edits m c d \<Longrightarrow> edits (n + m) (a @ c) (b @ d)"
proof (induction rule: edits.induct)
  case (edits_insert n a b y) then show ?case using edits.edits_insert [of "n + m" "a @ c" "b @ d" y] by simp
next
  case (edits_delete n a b x) then show ?case using edits.edits_delete [of "n + m" "a @ c" "b @ d" x] by simp
next
  case (edits_keep n a b x) then show ?case using edits.edits_keep by simp
next
  case (edits_replace n a b x y)
  then show ?case using edits.edits_replace [of "n + m" "a @ c" "b @ d" x y] by simp
qed simp

lemma edits_rev: "edits n a b \<Longrightarrow> edits n (rev a) (rev b)"
proof (induction rule: edits.induct)
  case (edits_insert n a b y)
  show ?case using edits_append [OF edits_insert.IH edits_insert_all [of "[y]"]] by simp
next
  case (edits_delete n a b x)
  show ?case using edits_append [OF edits_delete.IH edits_delete_all [of "[x]"]] by simp
next
  case (edits_keep n a b x)
  show ?case using edits_append [OF edits_keep.IH edits.edits_keep [OF edits_nil, of x]] by simp
next
  case (edits_replace n a b x y)
  show ?case using edits_append [OF edits_replace.IH edits.edits_replace [OF edits_nil, of x y]] by simp
qed (simp add: edits_nil)

text \<open>The row of the table for the reversed prefix \<open>r\<close>: its cells over the prefixes of the other string.\<close>

fun ed_row :: "string \<Rightarrow> string \<Rightarrow> string \<Rightarrow> nat list" where
  "ed_row r q [] = [ed r q]"
| "ed_row r q (y # ys) = ed r q # ed_row r (y # q) ys"

lemma ed_row_Cons: "ed_row r q ys = ed r q # tl (ed_row r q ys)"
  by (cases ys) simp_all

lemma lev_cells_row: "lev_cells x ys (ed_row r q ys) (ed (x # r) q) = tl (ed_row (x # r) q ys)"
proof (induction ys arbitrary: q)
  case (Cons y ys)
  have "lev_cells x (y # ys) (ed_row r q (y # ys)) (ed (x # r) q)
      = ed (x # r) (y # q) # lev_cells x ys (ed_row r (y # q) ys) (ed (x # r) (y # q))"
    using ed_row_Cons [of r "y # q" ys] by (cases "ed_row r (y # q) ys") (simp_all add: Let_def)
  then show ?case using Cons.IH [of "y # q"] ed_row_Cons [of "x # r" "y # q" ys] by simp
qed simp

lemma lev_rows_row: "lev_rows xs (length r) b (ed_row r [] b) = ed_row (rev xs @ r) [] b"
proof (induction xs arbitrary: r)
  case (Cons x xs)
  have "lev_row x (length r + 1) b (ed_row r [] b) = ed_row (x # r) [] b"
    using lev_cells_row [of x b r "[]"] ed_row_Cons [of "x # r" "[]" b] by (simp add: lev_row_def)
  then show ?case using Cons.IH [of "x # r"] by simp
qed simp

lemma ed_row_nil: "ed_row [] q b = [length q ..< length q + length b + 1]"
proof (induction b arbitrary: q)
  case (Cons y b)
  then show ?case using upt_conv_Cons [of "length q" "length q + length (y # b) + 1"] by simp
qed simp

lemma ed_row_nth: "ed_row r q b ! length b = ed r (rev b @ q)"
  by (induction b arbitrary: q) simp_all

lemma levenshtein_ed: "levenshtein a b = ed (rev a) (rev b)"
proof -
  have "lev_rows a 0 b [0 ..< length b + 1] ! length b = ed (rev a) (rev b)"
    using lev_rows_row [of a "[]" b] ed_row_nil [of "[]" b] ed_row_nth [of "rev a" "[]" b] by simp
  then show ?thesis by (auto simp: levenshtein_def)
qed

text \<open>
  C34: The two-row dynamic program computes the edit distance: the result is the cost of some
  sequence of single-byte insertions, deletions and replacements that turns one string into the
  other, and no such sequence is cheaper.
\<close>

theorem levenshtein_correct:
  "edits (levenshtein a b) a b \<and> levenshtein a b = (LEAST n. edits n a b)"
proof -
  have e: "edits (levenshtein a b) a b"
    using edits_rev [OF edits_ed [of "rev a" "rev b"]] by (simp add: levenshtein_ed)
  have "levenshtein a b \<le> n" if "edits n a b" for n
    using ed_least [OF edits_rev [OF that]] by (simp add: levenshtein_ed)
  then show ?thesis using e by (simp add: Least_equality)
qed

theorem levenshtein_correct_example: "levenshtein ''kitten'' ''sitting'' = 3"
  by code_simp

subsection \<open>The merge policy\<close>

lemma fold_merge_attr:
  assumes "gm_ok bs"
  shows "gm_get (fold (merge_attr w) bs m) k =
    (case gm_get bs k of
       None \<Rightarrow> gm_get m k
     | Some v \<Rightarrow> if gm_get m k = None \<or> w then Some v else gm_get m k)"
  using assms
proof (induction bs arbitrary: m)
  case Nil
  show ?case by (simp add: gm_get_def)
next
  case (Cons b bs)
  obtain j v where b: "b = (j, v)" by (cases b)
  have j: "gm_get bs j = None" using Cons.prems b by (auto simp: gm_ok_def gm_get_def map_of_eq_None_iff)
  have ok: "gm_ok bs" using Cons.prems by (simp add: gm_ok_def)
  have hd: "gm_get (b # bs) k = (if k = j then Some v else gm_get bs k)" by (simp add: gm_get_def b)
  have put: "gm_get (merge_attr w b m) k =
      (if k = j \<and> (gm_get m j = None \<or> w) then Some v else gm_get m k)"
    by (simp add: merge_attr_def b gm.get_put)
  show ?case using Cons.IH [OF ok, of "merge_attr w b m"] j hd put by (cases "k = j") (auto split: option.split)
qed

lemma add_alias_keeps [simp]:
  "n_ID (add_alias x a) = n_ID a" "n_Type (add_alias x a) = n_Type a" "n_Label (add_alias x a) = n_Label a"
  "n_Attributes (add_alias x a) = n_Attributes a" "n_Provenance (add_alias x a) = n_Provenance a"
  "n_MergedFrom (add_alias x a) = n_MergedFrom a"
  by (simp_all add: add_alias_def)

lemma fold_add_alias_keeps [simp]:
  "n_ID (fold add_alias xs a) = n_ID a" "n_Type (fold add_alias xs a) = n_Type a"
  "n_Label (fold add_alias xs a) = n_Label a" "n_Attributes (fold add_alias xs a) = n_Attributes a"
  "n_Provenance (fold add_alias xs a) = n_Provenance a" "n_MergedFrom (fold add_alias xs a) = n_MergedFrom a"
  by (induction xs arbitrary: a) simp_all

lemma Merge_keeps:
  assumes "Merge now a b policy = Some (m, rec)"
  shows "n_ID m = n_ID a" "n_Type m = n_Type a" "n_Label m = n_Label a" "n_Provenance m = n_Provenance a"
    and "n_MergedFrom m = n_MergedFrom a @ [n_ID b]"
    and "rec = \<lparr>fr_Timestamp = now, fr_Survivor = n_ID a, fr_Absorbed = n_ID b, fr_Reason = ''fusion''\<rparr>"
  using assms by (auto simp: Merge_def Let_def split: option.splits list.splits)

lemma priority_keeps: "n_Provenance a' = n_Provenance a \<Longrightarrow> priority p a' = priority p a"
  by (simp add: priority_def)

lemma Merge_attrs:
  assumes "Merge now a b policy = Some (m, rec)" and "gm_ok (attrs b)"
  shows "gm_get (attrs m) k =
    (case gm_get (attrs b) k of
       None \<Rightarrow> gm_get (attrs a) k
     | Some v \<Rightarrow> if gm_get (attrs a) k = None \<or> priority policy a < priority policy b then Some v
                 else gm_get (attrs a) k)"
proof -
  let ?a = "fold add_alias (n_Aliases b) (if KeepAlias policy then add_alias (n_Label b) a else a)"
  have p: "priority policy ?a = priority policy a" by (rule priority_keeps) simp
  have a: "n_Attributes ?a = n_Attributes a" by simp
  show ?thesis
  proof (cases "n_Attributes a")
    case None
    then have "attrs b = []" "attrs m = attrs a"
      using assms(1) a by (auto simp: Merge_def Let_def attrs_def split: list.splits option.splits)
    then show ?thesis by (simp add: gm_get_def)
  next
    case (Some x)
    then have "attrs m = fold (merge_attr (priority policy a < priority policy b)) (attrs b) x"
      using assms(1) a p by (auto simp: Merge_def Let_def attrs_def [of m] split: option.splits)
    moreover have "attrs a = x" using Some by (simp add: attrs_def)
    ultimately show ?thesis using fold_merge_attr [OF assms(2), of "priority policy a < priority policy b" x k] by (simp only:)
  qed
qed

lemma Merge_panics: "Merge now a b policy = None \<longleftrightarrow> n_Attributes a = None \<and> attrs b \<noteq> []"
proof -
  have "n_Attributes (fold add_alias (n_Aliases b) (if KeepAlias policy then add_alias (n_Label b) a else a))
      = n_Attributes a" by simp
  then show ?thesis by (auto simp: Merge_def Let_def split: option.split list.split)
qed

text \<open>
  A merge resolves every attribute by the policy: a value only one of the two nodes has is
  kept, and of two competing values the absorbed node's wins exactly when its source has the
  strictly higher priority.  The survivor keeps its identity and records whom it absorbed; the
  merge fails only on a survivor whose attribute map is nil, when there is something to copy.
\<close>

theorem Merge_resolves_by_priority:
  assumes "gm_ok (attrs b)"
  shows "case Merge now a b policy of
      None \<Rightarrow> n_Attributes a = None \<and> attrs b \<noteq> []
    | Some (m, rec) \<Rightarrow>
        n_ID m = n_ID a \<and> n_MergedFrom m = n_MergedFrom a @ [n_ID b]
        \<and> fr_Survivor rec = n_ID m \<and> fr_Absorbed rec = n_ID b
        \<and> (\<forall>k. gm_get (attrs m) k =
             (case (gm_get (attrs a) k, gm_get (attrs b) k) of
                (x, None) \<Rightarrow> x
              | (None, y) \<Rightarrow> y
              | (Some v, Some w) \<Rightarrow> Some (if priority policy a < priority policy b then w else v)))"
proof (cases "Merge now a b policy")
  case None
  then show ?thesis using Merge_panics [of now a b policy] by simp
next
  case (Some mr)
  obtain m rec where mr: "mr = (m, rec)" by (cases mr)
  show ?thesis using Some mr Merge_keeps [of now a b policy m rec] Merge_attrs [OF _ assms, of now a policy m rec]
    by (auto split: option.split)
qed

definition demo_absorbed :: Node where
  "demo_absorbed = \<lparr>n_ID = ''b'', n_Type = ''Org'', n_Label = ''b'', n_Attributes = Some [(''k'', ''new'')],
     n_Aliases = [], n_Provenance = \<lparr>pv_Source = ''wiki'', pv_Span = [], pv_ExtractedAt = Some 1,
     pv_Confidence = 0, pv_Extractor = []\<rparr>, n_MergedFrom = []\<rparr>"

theorem Merge_resolves_by_priority_witness:
  "case Merge 0 ((demo_node ''a'' ''Org'')\<lparr>n_Attributes := Some [(''k'', ''old''), (''j'', ''x'')]\<rparr>) demo_absorbed
       \<lparr>SourcePriority = [(''wiki'', 1)], KeepAlias = True\<rparr> of
     None \<Rightarrow> False
   | Some (m, rec) \<Rightarrow> gm_get (attrs m) ''k'' = Some ''new'' \<and> gm_get (attrs m) ''j'' = Some ''x''
       \<and> n_MergedFrom m = [''b'']"
proof -
  let ?a = "(demo_node ''a'' ''Org'')\<lparr>n_Attributes := Some [(''k'', ''old''), (''j'', ''x'')]\<rparr>"
  let ?p = "\<lparr>SourcePriority = [(''wiki'', 1)], KeepAlias = True\<rparr>"
  have ok: "gm_ok (attrs demo_absorbed)" by code_simp
  have p: "priority ?p ?a < priority ?p demo_absorbed" by code_simp
  have v: "gm_get (attrs ?a) ''k'' = Some ''old''" "gm_get (attrs ?a) ''j'' = Some ''x''"
    "gm_get (attrs demo_absorbed) ''k'' = Some ''new''" "gm_get (attrs demo_absorbed) ''j'' = None"
    "n_Attributes ?a \<noteq> None" "n_MergedFrom ?a = []" "n_ID demo_absorbed = ''b''" by code_simp+
  obtain m rec where m: "Merge 0 ?a demo_absorbed ?p = Some (m, rec)"
    using Merge_resolves_by_priority [OF ok, where now = 0 and a = ?a and policy = ?p] v(5)
    by (cases "Merge 0 ?a demo_absorbed ?p") auto
  note res = Merge_resolves_by_priority [OF ok, where now = 0 and a = ?a and policy = ?p,
      unfolded m option.case prod.case]
  have "gm_get (attrs m) ''k'' = Some ''new''" "gm_get (attrs m) ''j'' = Some ''x''"
    using res [THEN conjunct2, THEN conjunct2, THEN conjunct2, THEN conjunct2, THEN spec] v p by simp_all
  then show ?thesis using res v(6,7) m by simp
qed

subsection \<open>Fusion keeps the store valid\<close>

lemma Node_Validate_iff:
  "Node_Validate n ont = None \<longleftrightarrow>
     n_ID n \<noteq> [] \<and> n_Type n \<noteq> [] \<and> n_Label n \<noteq> [] \<and> Provenance_Validate (n_Provenance n) = None
     \<and> (\<exists>et. find_type ont (n_Type n) = Some et
           \<and> (\<forall>attr \<in> set (et_Attributes et). at_Required attr \<longrightarrow> gm_get (attrs n) (at_Name attr) \<noteq> None))"
proof -
  have found: "(case x of None \<Rightarrow> None | Some y \<Rightarrow> Some (g y)) = None \<longleftrightarrow> x = None" for x :: "'a option" and g :: "'a \<Rightarrow> string"
    by (cases x) simp_all
  have none: "List.find P xs = None \<longleftrightarrow> (\<forall>x \<in> set xs. \<not> P x)" for P and xs :: "Attribute list"
    by (auto simp: find_None_iff)
  show ?thesis
    by (cases "find_type ont (n_Type n)"; cases "Provenance_Validate (n_Provenance n)")
      (simp_all add: Node_Validate_def found none)
qed

lemma Node_Validate_merged:
  assumes "Merge now a b policy = Some (m, rec)" and "gm_ok (attrs b)" and "Node_Validate a ont = None"
  shows "Node_Validate m ont = None"
proof -
  have "gm_get (attrs m) k \<noteq> None" if "gm_get (attrs a) k \<noteq> None" for k
    using that Merge_attrs [OF assms(1,2), of k] by (auto split: option.splits)
  then show ?thesis using assms(3) Merge_keeps(1-4) [OF assms(1)] unfolding Node_Validate_iff by metis
qed

text \<open>What one candidate does to the store, and to the record of merges.\<close>

definition fusion_inv :: "Ontology \<Rightarrow> store \<Rightarrow> fusion \<Rightarrow> bool" where
  "fusion_inv ont s0 fs \<longleftrightarrow>
     (case fs of (merges, reviews, s) \<Rightarrow>
        store_inv ont s \<and> edges s = edges s0 \<and> events s = events s0
        \<and> aliasIndex s = aliasIndex s0 \<and> typeIndex s = typeIndex s0 \<and> mergeLog s = mergeLog s0
        \<and> (\<forall>i. gm_get (nodes s) i = None \<longleftrightarrow> gm_get (nodes s0) i = None)
        \<and> (\<forall>rec \<in> set merges. \<exists>n. gm_get (nodes s) (fr_Survivor rec) = Some n
              \<and> fr_Absorbed rec \<in> set (n_MergedFrom n)))"

lemma fuse_candidate_inv:
  assumes inv: "fusion_inv ont s0 fs" and ok: "gm_ok (cattrs c)"
    and step: "fuse_candidate p clock c fs = Some fs'"
  shows "fusion_inv ont s0 fs'"
proof -
  obtain merges reviews s where fs: "fs = (merges, reviews, s)" by (cases fs)
  show ?thesis
  proof (cases "snd (snd fs') = s \<and> fst fs' = merges")
    case True
    then show ?thesis using inv fs by (cases fs') (auto simp: fusion_inv_def)
  next
    case False
    then obtain i a m rec now where a: "gm_get (nodes s) i = Some a"
      and m: "Merge now a (candidate_node now c) (p_Policy p) = Some (m, rec)"
      and fs': "fs' = (merges @ [rec], reviews, s\<lparr>nodes := gm_put i m (nodes s)\<rparr>)"
      using step fs by (auto simp: fuse_candidate_def Let_def split: option.splits Decision.splits)
    have okb: "gm_ok (attrs (candidate_node now c))"
      using ok by (simp add: attrs_def candidate_node_def cattrs_def)
    have si: "store_inv ont s" using inv fs by (simp add: fusion_inv_def)
    then have i: "n_ID a = i" "Node_Validate a ont = None" using a by (auto simp: store_inv_def)
    have edge: "\<exists>x y. gm_get (gm_put i m (nodes s)) (e_Subject e) = Some x
        \<and> gm_get (gm_put i m (nodes s)) (e_Object e) = Some y
        \<and> Edge_Validate e ont (n_Type x) (n_Type y) = Some None"
      if e: "gm_get (edges s) k = Some e" for k e
    proof -
      obtain x y where "gm_get (nodes s) (e_Subject e) = Some x" "gm_get (nodes s) (e_Object e) = Some y"
        "Edge_Validate e ont (n_Type x) (n_Type y) = Some None"
        using si e unfolding store_inv_def by blast
      then show ?thesis using Merge_keeps(2) [OF m] a by (auto simp: gm.get_put)
    qed
    have si': "store_inv ont (s\<lparr>nodes := gm_put i m (nodes s)\<rparr>)"
      using si edge Node_Validate_merged [OF m okb i(2)] Merge_keeps(1) [OF m] i(1)
      unfolding store_inv_def by (simp add: gm.get_put gm.ok_put)
    have old: "\<exists>n. gm_get (gm_put i m (nodes s)) (fr_Survivor r) = Some n \<and> fr_Absorbed r \<in> set (n_MergedFrom n)"
      if r: "r \<in> set merges" for r
    proof -
      obtain n where "gm_get (nodes s) (fr_Survivor r) = Some n" "fr_Absorbed r \<in> set (n_MergedFrom n)"
        using inv fs r by (auto simp: fusion_inv_def)
      then show ?thesis using Merge_keeps(5) [OF m] a by (auto simp: gm.get_put)
    qed
    have new: "\<exists>n. gm_get (gm_put i m (nodes s)) (fr_Survivor rec) = Some n \<and> fr_Absorbed rec \<in> set (n_MergedFrom n)"
      using Merge_keeps(5,6) [OF m] i(1) by (simp add: gm.get_put)
    have ids: "gm_get (gm_put i m (nodes s)) k = None \<longleftrightarrow> gm_get (nodes s) k = None" for k
      using a by (auto simp: gm.get_put)
    show ?thesis using inv fs si' old new ids unfolding fs' fusion_inv_def by simp
  qed
qed

lemma fuse_all_inv:
  assumes "fusion_inv ont s0 fs" and "\<forall>c \<in> set cs. gm_ok (cattrs c)" and "fuse_all p clock cs fs = Some fs'"
  shows "fusion_inv ont s0 fs'"
  using assms
proof (induction cs arbitrary: fs)
  case (Cons c cs)
  obtain fs1 where "fuse_candidate p clock c fs = Some fs1" "fuse_all p clock cs fs1 = Some fs'"
    using Cons.prems(3) by (auto simp: bind_eq_Some_conv)
  moreover have "fusion_inv ont s0 fs1"
    using fuse_candidate_inv [OF Cons.prems(1) _ calculation(1)] Cons.prems(2) by simp
  ultimately show ?case using Cons.IH [of fs1] Cons.prems(2) by simp
qed simp

lemma Block_lookup:
  "gm_ok (Block cs key) \<and> gm_get (Block cs key) k =
     (if filter (\<lambda>c. key c = k) cs = [] then None else Some (filter (\<lambda>c. key c = k) cs))"
proof (induction cs rule: rev_induct)
  case Nil
  show ?case by (simp add: Block_def gm.ok_empty gm.get_empty)
next
  case (snoc c cs)
  have step: "Block (cs @ [c]) key = gm_put (key c)
      ((case gm_get (Block cs key) (key c) of None \<Rightarrow> [] | Some xs \<Rightarrow> xs) @ [c]) (Block cs key)"
    by (simp add: Block_def)
  show ?case
  proof (cases "k = key c")
    case True
    then show ?thesis using snoc by (simp add: step gm.ok_put gm.get_put)
  next
    case False
    then show ?thesis using snoc by (auto simp: step gm.ok_put gm.get_put)
  qed
qed

text \<open>
  Blocking partitions the candidates: the block of a key holds exactly the candidates with that
  key, in their order, and every candidate lies in exactly one block.
\<close>

theorem Block_partitions:
  "gm_get (Block cs key) k =
     (if filter (\<lambda>c. key c = k) cs = [] then None else Some (filter (\<lambda>c. key c = k) cs))
   \<and> set (concat (gm_vals (Block cs key))) = set cs \<and> distinct (gm_keys (Block cs key))"
proof -
  have ok: "gm_ok (Block cs key)" using Block_lookup by blast
  have "c \<in> set (concat (gm_vals (Block cs key))) \<longleftrightarrow> c \<in> set cs" for c
  proof
    assume "c \<in> set (concat (gm_vals (Block cs key)))"
    then obtain xs where "xs \<in> set (gm_vals (Block cs key))" "c \<in> set xs" by auto
    then obtain j where "gm_get (Block cs key) j = Some xs" using gm_vals_iff [OF ok] by blast
    then show "c \<in> set cs" using Block_lookup [of cs key j] \<open>c \<in> set xs\<close> by (auto split: if_splits)
  next
    assume "c \<in> set cs"
    then have "gm_get (Block cs key) (key c) = Some (filter (\<lambda>d. key d = key c) cs)"
      "c \<in> set (filter (\<lambda>d. key d = key c) cs)"
      using Block_lookup [of cs key "key c"] by (auto simp: filter_empty_conv)
    then show "c \<in> set (concat (gm_vals (Block cs key)))"
      using gm_vals_iff [OF ok, of "filter (\<lambda>d. key d = key c) cs"] unfolding set_concat by blast
  qed
  then show ?thesis using Block_lookup gm.keys_distinct [OF ok] by blast
qed

text \<open>
  Fusing any candidates into a valid store, in whatever order the blocks are visited, leaves a
  valid store with the same nodes, edges, events and indices; every reported merge is recorded in
  its survivor, but none in the store's merge log.
\<close>

theorem fusion_keeps_the_store_valid:
  assumes "store_inv ont s" and "\<forall>c \<in> set cands. gm_ok (cattrs c)"
    and "set (visit (Block cands (p_Blocker p))) \<subseteq> set (Block cands (p_Blocker p))"
    and "Run_fusion p clock visit cands (Some s) = Some (Inr (merges, reviews, s'))"
  shows "ValidateAll s' = Some None \<and> edges s' = edges s \<and> events s' = events s
    \<and> (\<forall>i. GetNode s' i = None \<longleftrightarrow> GetNode s i = None) \<and> mergeLog s' = mergeLog s
    \<and> (\<forall>rec \<in> set merges. \<exists>n. GetNode s' (fr_Survivor rec) = Some n
          \<and> fr_Absorbed rec \<in> set (n_MergedFrom n))"
proof -
  let ?b = "Block cands (p_Blocker p)"
  have ok: "gm_ok ?b" using Block_lookup by blast
  have sub: "c \<in> set cands" if "c \<in> set (concat (List.map snd (visit ?b)))" for c
  proof -
    from that obtain k xs where "(k, xs) \<in> set (visit ?b)" and c: "c \<in> set xs" by auto
    then have "gm_get ?b k = Some xs" using assms(3) gm_get_iff_in [OF ok] by blast
    then show ?thesis using Block_lookup [of cands "p_Blocker p" k] c by (auto split: if_splits)
  qed
  obtain ms where run: "fuse_all p clock (concat (List.map snd (visit ?b))) ([], [], s) = Some (ms, reviews, s')"
    and merges: "set merges = set ms"
    using assms(4) by (auto simp: Run_fusion_def)
  have "fusion_inv ont s ([], [], s)" using assms(1) by (simp add: fusion_inv_def)
  from fuse_all_inv [OF this _ run] have inv: "fusion_inv ont s (ms, reviews, s')" using sub assms(2) by blast
  then have "store_inv ont s'" by (simp add: fusion_inv_def)
  then have "ValidateAll s' = Some None" by (rule store_inv_valid)
  then show ?thesis using inv merges by (simp add: fusion_inv_def GetNode_def)
qed

definition demo_pipeline :: Pipeline where
  "demo_pipeline = \<lparr>p_Blocker = TypeBlocker_Block 3, p_Matcher = Levenshtein_Score 1 [],
     p_Band = \<lparr>Low = 1/2, High = 9/10\<rparr>, p_Policy = \<lparr>SourcePriority = [], KeepAlias = True\<rparr>\<rparr>"

definition demo_graph :: store where
  "demo_graph = snd (AddNode (\<lambda>_. None) ((demo_node ''acme'' ''Org'')\<lparr>n_Attributes := Some []\<rparr>)
     (snd (SetOntology (\<lambda>_. None) (Some (demo_ontology [demo_type ''Org'' []])) empty_store)))"

definition demo_candidate :: "string \<Rightarrow> EntityCandidate" where
  "demo_candidate l = \<lparr>ec_Type = ''Org'', ec_Label = l, ec_Span = [],
     ec_Attributes = Some [(''city'', ''Rome'')], ec_Confidence = 0\<rparr>"

lemma demo_graph_inv: "store_inv (demo_ontology [demo_type ''Org'' []]) demo_graph"
proof -
  have v: "Ontology_Validate (Some (demo_ontology [demo_type ''Org'' []])) = None" by code_simp
  show ?thesis unfolding demo_graph_def
    by (rule AddNode_inv) (simp add: SetOntology_def Let_def store_inv_def empty_store_def gm.ok_empty gm.get_empty v)
qed

theorem fusion_keeps_the_store_valid_witness:
  "\<exists>ms rs s'. Run_fusion demo_pipeline int rev [demo_candidate ''acme'', demo_candidate ''zebra''] (Some demo_graph)
       = Some (Inr (ms, rs, s')) \<and> length ms = 1 \<and> ValidateAll s' = Some None"
proof -
  let ?r = "Run_fusion demo_pipeline int rev [demo_candidate ''acme'', demo_candidate ''zebra''] (Some demo_graph)"
  have "(case ?r of Some (Inr (ms, rs, s')) \<Rightarrow> length ms = 1 | _ \<Rightarrow> False)" by code_simp
  then obtain ms rs s' where r: "?r = Some (Inr (ms, rs, s'))" "length ms = 1"
    by (auto split: option.splits sum.splits)
  have c: "\<forall>c \<in> set [demo_candidate ''acme'', demo_candidate ''zebra'']. gm_ok (cattrs c)" by code_simp
  show ?thesis using fusion_keeps_the_store_valid [OF demo_graph_inv c _ r(1)] r by auto
qed

end
