(* ===== verification/Calendar.thy ===== *)
theory Calendar
  imports Prelude
begin

text \<open>
  The proleptic Gregorian calendar in UTC, as the cron component uses it through Go's package
  \<open>time\<close>.  A time is the number of nanoseconds since the zero time, 1 January of year 1, so that
  \<open>time.Time{}\<close> is 0 and \<open>Truncate\<close> rounds down to a multiple.  The locale \<open>calendar\<close> states what
  a search through the calendar relies on -- skipping to the next month, day or hour passes over
  times of the same month, day or hour only -- and \<open>cal\<close> interprets it on the Gregorian
  definitions.  A location with daylight saving is not modelled.
\<close>

subsection \<open>Years\<close>

definition leap :: "int \<Rightarrow> bool" where
  "leap y \<longleftrightarrow> y mod 4 = 0 \<and> (y mod 100 \<noteq> 0 \<or> y mod 400 = 0)"

definition days_before_year :: "int \<Rightarrow> int" where
  "days_before_year y = 365 * (y - 1) + (y - 1) div 4 - (y - 1) div 100 + (y - 1) div 400"

definition year_of :: "int \<Rightarrow> int" where
  "year_of n =
     (let q = n div 146097; r = n mod 146097;
          c = min 3 (r div 36524); r = r - 36524 * c;
          f = r div 1461; r = r mod 1461;
          a = min 3 (r div 365)
      in 400 * q + 100 * c + 4 * f + a + 1)"

lemma div_pred:
  fixes y k :: int
  assumes "0 < k"
  shows "y div k = (y - 1) div k + (if y mod k = 0 then 1 else 0)"
proof -
  define q r where "q = (y - 1) div k" and "r = (y - 1) mod k"
  have y: "y = k * q + (r + 1)" "0 \<le> r" "r < k"
    using assms by (simp_all add: q_def r_def)
  show ?thesis
  proof (cases "r + 1 = k")
    case True
    then have "y = k * (q + 1)" using y by (simp add: algebra_simps)
    moreover have "(y - 1) div k = q" by (simp add: q_def)
    ultimately show ?thesis using assms by simp
  next
    case False
    then have "y div k = q" "y mod k = r + 1"
      using y int_div_pos_eq [of y k q "r + 1"] int_mod_pos_eq [of y k q "r + 1"] by simp_all
    moreover have "(y - 1) div k = q" by (simp add: q_def)
    ultimately show ?thesis using y by simp
  qed
qed

lemma days_before_year_Suc:
  "days_before_year (y + 1) = days_before_year y + (if leap y then 366 else 365)"
proof -
  have m: "y mod 400 = 0 \<longrightarrow> y mod 100 = 0" "y mod 100 = 0 \<longrightarrow> y mod 4 = 0"
    unfolding mod_eq_0_iff_dvd using dvd_trans [of 100 400 y] dvd_trans [of 4 100 y] by simp_all
  define a b c where "a = (y - 1) div 4" and "b = (y - 1) div 100" and "c = (y - 1) div 400"
  have "y div 4 = a + (if y mod 4 = 0 then 1 else 0)" "y div 100 = b + (if y mod 100 = 0 then 1 else 0)"
    "y div 400 = c + (if y mod 400 = 0 then 1 else 0)"
    unfolding a_def b_def c_def by (rule div_pred; simp)+
  note div = this
  define p4 p100 p400 where "p4 \<longleftrightarrow> y mod 4 = 0" and "p100 \<longleftrightarrow> y mod 100 = 0" and "p400 \<longleftrightarrow> y mod 400 = 0"
  note p = p4_def [symmetric] p100_def [symmetric] p400_def [symmetric]
  have l: "leap y \<longleftrightarrow> p4 \<and> (\<not> p100 \<or> p400)" unfolding leap_def p ..
  have "days_before_year (y + 1) = 365 * y + y div 4 - y div 100 + y div 400"
    unfolding days_before_year_def add_diff_cancel_right' ..
  also have "\<dots> = 365 * y + (a + (if p4 then 1 else 0)) - (b + (if p100 then 1 else 0)) + (c + (if p400 then 1 else 0))"
    unfolding div p ..
  also have "\<dots> = 365 * (y - 1) + a - b + c + (if leap y then 366 else 365)"
    using m unfolding p l by (cases p4; cases p100; cases p400) simp_all
  finally show ?thesis unfolding days_before_year_def a_def b_def c_def .
qed

lemma days_before_year_parts:
  assumes "0 \<le> c" "c \<le> 3" "0 \<le> f" "f \<le> 24" "0 \<le> a" "a \<le> 3"
  shows "days_before_year (400 * q + 100 * c + 4 * f + a + 1) = 146097 * q + 36524 * c + 1461 * f + 365 * a"
proof -
  let ?y = "400 * q + 100 * c + 4 * f + a"
  have "?y div 400 = q" using assms by (intro int_div_pos_eq [where r = "100 * c + 4 * f + a"]) simp_all
  moreover have "?y div 100 = 4 * q + c" using assms by (intro int_div_pos_eq [where r = "4 * f + a"]) simp_all
  moreover have "?y div 4 = 100 * q + 25 * c + f" using assms by (intro int_div_pos_eq [where r = a]) simp_all
  ultimately show ?thesis by (simp add: days_before_year_def)
qed

lemma leap_parts:
  assumes "0 \<le> c" "c \<le> 3" "0 \<le> f" "f \<le> 24" "0 \<le> a" "a \<le> 3"
  shows "leap (400 * q + 100 * c + 4 * f + a + 1) \<longleftrightarrow> a = 3 \<and> (f < 24 \<or> c = 3)"
proof (cases "a = 3")
  case False
  have "(400 * q + 100 * c + 4 * f + a + 1) mod 4 = a + 1"
    using assms False by (intro int_mod_pos_eq [where q = "100 * q + 25 * c + f"]) simp_all
  then show ?thesis using False assms by (simp add: leap_def)
next
  case True
  let ?y = "400 * q + 100 * c + 4 * f + a + 1"
  have y: "?y = 4 * (100 * q + 25 * c + f + 1)" using True by simp
  have m4: "?y mod 4 = 0" unfolding y by simp
  show ?thesis
  proof (cases "f = 24")
    case False
    have "?y mod 100 = 4 * f + 4"
      using assms False True by (intro int_mod_pos_eq [where q = "4 * q + c"]) simp_all
    then show ?thesis using m4 True False assms by (simp add: leap_def)
  next
    case f: True
    have y': "?y = 100 * (4 * q + c + 1)" using True f by simp
    have m100: "?y mod 100 = 0" unfolding y' by simp
    show ?thesis
    proof (cases "c = 3")
      case True
      have "?y = 400 * (q + 1)" using y' True by simp
      then have "?y mod 400 = 0" by (metis mod_mult_self1_is_0)
      then show ?thesis using m4 True \<open>a = 3\<close> by (simp add: leap_def)
    next
      case False
      have "?y mod 400 = 100 * c + 100"
        using assms False True f by (intro int_mod_pos_eq [where q = q]) simp_all
      then show ?thesis using m100 False f assms by (simp add: leap_def)
    qed
  qed
qed

lemma year_of_bounds: "days_before_year (year_of n) \<le> n \<and> n < days_before_year (year_of n + 1)"
proof -
  define q r where "q = n div 146097" and "r = n mod 146097"
  define c where "c = min 3 (r div 36524)"
  define s where "s = r - 36524 * c"
  define f u where "f = s div 1461" and "u = s mod 1461"
  define a where "a = min 3 (u div 365)"
  have n: "n = 146097 * q + r" "0 \<le> r" "r < 146097" by (simp_all add: q_def r_def)
  have c: "0 \<le> c" "c \<le> 3" "0 \<le> s" "s \<le> 36524" "c < 3 \<Longrightarrow> s < 36524"
    using n unfolding s_def c_def by (auto simp: min_def split: if_splits)
  have f: "0 \<le> f" "f \<le> 24" "s = 1461 * f + u" "0 \<le> u" "u < 1461"
    using c by (simp_all add: f_def u_def)
  have u: "f = 24 \<Longrightarrow> u \<le> 1460" "f = 24 \<Longrightarrow> c < 3 \<Longrightarrow> u < 1460" using f c by auto
  have a: "0 \<le> a" "a \<le> 3" "365 * a \<le> u" "a < 3 \<Longrightarrow> u < 365 * a + 365"
    using f unfolding a_def by (auto simp: min_def split: if_splits)
  have y: "year_of n = 400 * q + 100 * c + 4 * f + a + 1"
    unfolding year_of_def Let_def q_def [symmetric] r_def [symmetric] c_def [symmetric]
      s_def [symmetric] f_def [symmetric] u_def [symmetric] a_def [symmetric] ..
  have d: "days_before_year (year_of n) = 146097 * q + 36524 * c + 1461 * f + 365 * a"
    unfolding y by (rule days_before_year_parts) (use c f a in auto)
  have l: "leap (year_of n) \<longleftrightarrow> a = 3 \<and> (f < 24 \<or> c = 3)"
    unfolding y by (rule leap_parts) (use c f a in auto)
  show ?thesis using n(1) s_def f(3,5) a u c d l by (auto simp: days_before_year_Suc)
qed

lemma days_before_year_mono: "x \<le> y \<Longrightarrow> days_before_year x \<le> days_before_year y"
proof (induction "nat (y - x)" arbitrary: y)
  case (Suc k)
  then have "days_before_year x \<le> days_before_year (y - 1)" by simp
  then show ?case using days_before_year_Suc [of "y - 1"] by (simp split: if_splits)
qed simp

lemma year_of_unique:
  assumes "days_before_year y \<le> n" "n < days_before_year (y + 1)"
  shows "year_of n = y"
proof (rule linorder_cases [of "year_of n" y])
  assume "year_of n < y"
  then show ?thesis using days_before_year_mono [of "year_of n + 1" y] year_of_bounds [of n] assms by simp
next
  assume "y < year_of n"
  then show ?thesis using days_before_year_mono [of "y + 1" "year_of n"] year_of_bounds [of n] assms by simp
qed

subsection \<open>Months\<close>

definition month_lengths :: "bool \<Rightarrow> int list" where
  "month_lengths l = [31, if l then 29 else 28, 31, 30, 31, 30, 31, 31, 30, 31, 30, 31]"

fun month_walk :: "int \<Rightarrow> int list \<Rightarrow> int \<Rightarrow> int \<times> int" where
  "month_walk m [] d = (m, d)"
| "month_walk m (l # ls) d = (if d < l then (m, d) else month_walk (m + 1) ls (d - l))"

definition month_day :: "int \<Rightarrow> int \<times> int" where
  "month_day n = month_walk 1 (month_lengths (leap (year_of n))) (n - days_before_year (year_of n))"

definition days_before_month :: "bool \<Rightarrow> int \<Rightarrow> int" where
  "days_before_month l m = sum_list (take (nat (m - 1)) (month_lengths l))"

lemma month_walk_at:
  fixes d :: int
  assumes "k < length ls" "sum_list (take k ls) \<le> d" "d < sum_list (take (Suc k) ls)" "\<forall>l \<in> set ls. 0 < l"
  shows "month_walk m ls d = (m + int k, d - sum_list (take k ls))"
  using assms
proof (induction ls arbitrary: m d k)
  case (Cons l ls)
  show ?case
  proof (cases k)
    case 0
    then show ?thesis using Cons.prems by simp
  next
    case (Suc j)
    have "0 \<le> sum_list (take j ls)"
      by (rule sum_list_nonneg) (use Cons.prems(4) in_set_takeD in fastforce)
    then have "\<not> d < l" using Cons.prems(2) Suc by simp
    then show ?thesis using Cons.IH [of j "d - l" "m + 1"] Cons.prems Suc by simp
  qed
qed simp

lemma month_walk_found:
  fixes d :: int
  assumes "0 \<le> d" "d < sum_list ls"
  shows "\<exists>k < length ls. sum_list (take k ls) \<le> d \<and> d < sum_list (take (Suc k) ls)"
  using assms
proof (induction ls arbitrary: d)
  case (Cons l ls)
  show ?case
  proof (cases "d < l")
    case True
    then show ?thesis using Cons.prems by (intro exI [of _ 0]) simp
  next
    case False
    then obtain k where "k < length ls" "sum_list (take k ls) \<le> d - l" "d - l < sum_list (take (Suc k) ls)"
      using Cons.IH [of "d - l"] Cons.prems by auto
    then show ?thesis by (intro exI [of _ "Suc k"]) simp
  qed
qed simp

lemma month_lengths_pos: "\<forall>l \<in> set (month_lengths b). 0 < l"
  by (simp add: month_lengths_def)

lemma length_month_lengths [simp]: "length (month_lengths b) = 12"
  by (simp add: month_lengths_def)

lemma sum_month_lengths: "sum_list (month_lengths b) = (if b then 366 else 365)"
  by (simp add: month_lengths_def)

text \<open>Where the \<open>k\<close>-th month of a year starts, counted from 0; the twelfth is the next year.\<close>

definition month_start :: "int \<Rightarrow> nat \<Rightarrow> int" where
  "month_start y k = days_before_year y + sum_list (take k (month_lengths (leap y)))"

lemma month_start_12: "month_start y 12 = month_start (y + 1) 0"
  by (simp add: month_start_def sum_month_lengths days_before_year_Suc)

lemma month_start_mono: "i \<le> j \<Longrightarrow> month_start y i \<le> month_start y j"
proof -
  assume "i \<le> j"
  then obtain e where j: "j = i + e" using le_Suc_ex by blast
  have "0 \<le> sum_list (take e (drop i (month_lengths (leap y))))"
    by (rule sum_list_nonneg) (use month_lengths_pos in_set_takeD in_set_dropD in fastforce)
  then show ?thesis by (simp add: month_start_def j take_add)
qed

lemma date_at:
  assumes "k < 12" "month_start y k \<le> n" "n < month_start y (Suc k)"
  shows "year_of n = y" "month_day n = (int k + 1, n - month_start y k)"
proof -
  have "days_before_year y \<le> n" using month_start_mono [of 0 k y] assms(2) by (simp add: month_start_def)
  moreover have "n < days_before_year (y + 1)"
    using month_start_mono [of "Suc k" 12 y] assms(1,3) month_start_12 [of y] by (simp add: month_start_def)
  ultimately show y: "year_of n = y" by (rule year_of_unique)
  show "month_day n = (int k + 1, n - month_start y k)"
    unfolding month_day_def y using assms month_walk_at [OF _ _ _ month_lengths_pos]
    by (simp add: month_start_def)
qed

lemma date_exists: "\<exists>k < 12. month_start (year_of n) k \<le> n \<and> n < month_start (year_of n) (Suc k)"
proof -
  let ?y = "year_of n"
  have "n - days_before_year ?y < sum_list (month_lengths (leap ?y))"
    using year_of_bounds [of n] by (simp add: days_before_year_Suc sum_month_lengths split: if_splits)
  then obtain k where "k < 12" "sum_list (take k (month_lengths (leap ?y))) \<le> n - days_before_year ?y"
      "n - days_before_year ?y < sum_list (take (Suc k) (month_lengths (leap ?y)))"
    using month_walk_found [of "n - days_before_year ?y" "month_lengths (leap ?y)"] year_of_bounds [of n] by auto
  then show ?thesis by (auto simp: month_start_def)
qed

subsection \<open>Times\<close>

definition second_ns :: int where "second_ns = 1000000000"
definition minute_ns :: int where "minute_ns = 60 * second_ns"
definition hour_ns :: int where "hour_ns = 60 * minute_ns"
definition day_ns :: int where "day_ns = 24 * hour_ns"

definition Year :: "int \<Rightarrow> int" where
  "Year t = year_of (t div day_ns)"

definition Month :: "int \<Rightarrow> int" where
  "Month t = fst (month_day (t div day_ns))"

definition Day :: "int \<Rightarrow> int" where
  "Day t = snd (month_day (t div day_ns)) + 1"

text \<open>1 January of year 1 is a Monday; Sunday is 0.\<close>

definition Weekday :: "int \<Rightarrow> int" where
  "Weekday t = (t div day_ns + 1) mod 7"

definition Hour :: "int \<Rightarrow> int" where
  "Hour t = t mod day_ns div hour_ns"

definition Minute :: "int \<Rightarrow> int" where
  "Minute t = t mod hour_ns div minute_ns"

text \<open>\<open>time.Date\<close> for a month from 1 to 12 and seconds and nanoseconds 0.\<close>

definition Date :: "int \<Rightarrow> int \<Rightarrow> int \<Rightarrow> int \<Rightarrow> int \<Rightarrow> int" where
  "Date y m d h mi =
     (days_before_year y + days_before_month (leap y) m + (d - 1)) * day_ns + h * hour_ns + mi * minute_ns"

definition Truncate :: "int \<Rightarrow> int \<Rightarrow> int" where
  "Truncate t d = t - t mod d"

lemmas ns_defs = day_ns_def hour_ns_def minute_ns_def second_ns_def

lemma date_of_day:
  "days_before_year (Year t) + days_before_month (leap (Year t)) (Month t) + (Day t - 1) = t div day_ns"
proof -
  obtain k where k: "k < 12" "month_start (year_of (t div day_ns)) k \<le> t div day_ns"
      "t div day_ns < month_start (year_of (t div day_ns)) (Suc k)"
    using date_exists by blast
  then show ?thesis
    using date_at(2) [OF k] by (simp add: Year_def Month_def Day_def days_before_month_def month_start_def)
qed

lemma Date_midnight: "Date (Year t) (Month t) (Day t) 0 0 = t div day_ns * day_ns"
  using date_of_day [of t] by (simp add: Date_def)

lemma hours_of_day: "t div hour_ns = 24 * (t div day_ns) + t mod day_ns div hour_ns"
proof -
  have "t = 24 * (t div day_ns) * hour_ns + t mod day_ns"
    using mult_div_mod_eq [of day_ns t] by (simp add: day_ns_def algebra_simps)
  then have "t div hour_ns = (24 * (t div day_ns) * hour_ns + t mod day_ns) div hour_ns" by simp
  also have "\<dots> = 24 * (t div day_ns) + t mod day_ns div hour_ns"
    by (rule div_mult_self3) (simp add: ns_defs)
  finally show ?thesis .
qed

lemma Date_hour: "Date (Year t) (Month t) (Day t) (Hour t) 0 = t div hour_ns * hour_ns"
proof -
  have "t div hour_ns = 24 * (t div day_ns) + Hour t"
    using hours_of_day [of t] by (simp add: Hour_def)
  then show ?thesis using date_of_day [of t] by (simp add: Date_def day_ns_def algebra_simps)
qed

lemma Month_range: "1 \<le> Month t \<and> Month t \<le> 12"
proof -
  obtain k where k: "k < 12" "month_start (year_of (t div day_ns)) k \<le> t div day_ns"
      "t div day_ns < month_start (year_of (t div day_ns)) (Suc k)"
    using date_exists by blast
  then show ?thesis using date_at(2) [OF k] by (simp add: Month_def)
qed

subsection \<open>Searching the calendar\<close>

definition advanceMonth :: "int \<Rightarrow> int" where
  "advanceMonth t =
     (if Month t = 12 then Date (Year t + 1) 1 1 0 0 else Date (Year t) (Month t + 1) 1 0 0)"

definition next_day :: "int \<Rightarrow> int" where
  "next_day t = (let t = t + day_ns in Date (Year t) (Month t) (Day t) 0 0)"

definition next_hour :: "int \<Rightarrow> int" where
  "next_hour t = (let t = t + hour_ns in Date (Year t) (Month t) (Day t) (Hour t) 0)"

lemma next_day_eq: "next_day t = (t div day_ns + 1) * day_ns"
  by (simp add: next_day_def Date_midnight) (simp add: ns_defs)

lemma next_hour_eq: "next_hour t = (t div hour_ns + 1) * hour_ns"
  by (simp add: next_hour_def Date_hour) (simp add: ns_defs)

lemma advanceMonth_eq:
  "\<exists>k < 12. month_start (Year t) k \<le> t div day_ns \<and> t div day_ns < month_start (Year t) (Suc k)
     \<and> Month t = int k + 1 \<and> advanceMonth t = month_start (Year t) (Suc k) * day_ns"
proof -
  obtain k where k: "k < 12" "month_start (year_of (t div day_ns)) k \<le> t div day_ns"
      "t div day_ns < month_start (year_of (t div day_ns)) (Suc k)"
    using date_exists by blast
  then have m: "Month t = int k + 1" using date_at(2) [OF k] by (simp add: Month_def)
  have "advanceMonth t = month_start (Year t) (Suc k) * day_ns"
  proof (cases "k = 11")
    case True
    then show ?thesis using month_start_12 [of "Year t"] m
      by (simp add: advanceMonth_def Date_def days_before_month_def month_start_def)
  next
    case False
    then have "nat (1 + int k) = Suc k" by simp
    then show ?thesis using m k(1) False
      by (simp add: advanceMonth_def Date_def days_before_month_def month_start_def)
  qed
  then show ?thesis using k m by (auto simp: Year_def)
qed

locale calendar =
  fixes month day weekday hour :: "int \<Rightarrow> int"
    and to_month to_day to_hour :: "int \<Rightarrow> int"
    and tick :: int
  assumes tick_pos: "0 < tick"
    and month_later: "t < to_month t" and month_tick: "tick dvd to_month t"
    and month_same: "t \<le> s \<Longrightarrow> s < to_month t \<Longrightarrow> month s = month t"
    and day_later: "t < to_day t" and day_tick: "tick dvd to_day t"
    and day_same: "t \<le> s \<Longrightarrow> s < to_day t \<Longrightarrow> day s = day t \<and> weekday s = weekday t"
    and hour_later: "t < to_hour t" and hour_tick: "tick dvd to_hour t"
    and hour_same: "t \<le> s \<Longrightarrow> s < to_hour t \<Longrightarrow> hour s = hour t"
begin

text \<open>A skip over a part that does not fit passes over no time that fits.\<close>

lemma skip_sound:
  assumes aligned: "tick dvd t"
    and miss: "\<not> (mo (month t) \<and> dm (day t) \<and> dw (weekday t) \<and> ho (hour t) \<and> mi t)"
    and step: "t' = (if \<not> mo (month t) then to_month t
                    else if \<not> dm (day t) \<or> \<not> dw (weekday t) then to_day t
                    else if \<not> ho (hour t) then to_hour t
                    else t + tick)"
    and s: "tick dvd s" "t \<le> s" "s < t'"
  shows "\<not> (mo (month s) \<and> dm (day s) \<and> dw (weekday s) \<and> ho (hour s) \<and> mi s)"
proof (cases "mo (month t) \<and> dm (day t) \<and> dw (weekday t) \<and> ho (hour t)")
  case True
  then have "s < t + tick" "\<not> mi t" using s step miss by auto
  moreover have "s = t"
  proof -
    obtain i j where "s = tick * i" "t = tick * j" using aligned s(1) by (auto elim!: dvdE)
    then have "tick * j \<le> tick * i" "tick * i < tick * (j + 1)"
      using s(2) \<open>s < t + tick\<close> by (simp_all add: algebra_simps)
    then have "j \<le> i" "i < j + 1" using tick_pos by simp_all
    then show "s = t" using \<open>s = tick * i\<close> \<open>t = tick * j\<close> by simp
  qed
  ultimately show ?thesis by simp
next
  case False
  then show ?thesis using step s(2,3) month_same [of t s] day_same [of t s] hour_same [of t s]
    by (auto split: if_splits)
qed

lemma skip_later:
  assumes "tick dvd t"
    and "t' = (if \<not> mo (month t) then to_month t
                    else if \<not> dm (day t) \<or> \<not> dw (weekday t) then to_day t
                    else if \<not> ho (hour t) then to_hour t
                    else t + tick)"
  shows "t < t' \<and> tick dvd t'"
  using assms month_later [of t] day_later [of t] hour_later [of t] tick_pos month_tick [of t]
    day_tick [of t] hour_tick [of t] by auto

end

lemma next_unit: "(0::int) < u \<Longrightarrow> t < (t div u + 1) * u"
  by (metis add.commute add_less_cancel_left distrib_right div_mult_mod_eq lambda_one pos_mod_bound)

lemma div_below: "(0::int) < u \<Longrightarrow> s < c * u \<Longrightarrow> s div u < c"
proof -
  assume u: "0 < u" "s < c * u"
  have "s div u * u \<le> s" using div_mult_mod_eq [of s u] pos_mod_sign [of u s] u(1) by linarith
  then have "s div u * u < c * u" using u(2) by linarith
  then show ?thesis using u(1) by simp
qed

lemma same_unit: "(0::int) < u \<Longrightarrow> t \<le> s \<Longrightarrow> s < (t div u + 1) * u \<Longrightarrow> s div u = t div u"
proof -
  assume u: "0 < u" "t \<le> s" "s < (t div u + 1) * u"
  then have "t div u \<le> s div u" by (simp add: zdiv_mono1)
  moreover have "s div u < t div u + 1" using div_below [OF u(1) u(3)] .
  ultimately show ?thesis by simp
qed

interpretation cal: calendar Month Day Weekday Hour advanceMonth next_day next_hour minute_ns
proof
  show "0 < minute_ns" by (simp add: ns_defs)
  have day: "0 < day_ns" and hour: "0 < hour_ns" by (simp_all add: ns_defs)
  fix t s :: int
  obtain k where k: "k < 12" "month_start (Year t) k \<le> t div day_ns" "t div day_ns < month_start (Year t) (Suc k)"
      "Month t = int k + 1" and nxt: "advanceMonth t = month_start (Year t) (Suc k) * day_ns"
    using advanceMonth_eq by blast
  have "(t div day_ns + 1) * day_ns \<le> advanceMonth t" using k(3) day by (simp add: nxt)
  then show "t < advanceMonth t" using next_unit [OF day, of t] by linarith
  show "minute_ns dvd advanceMonth t" by (simp add: nxt ns_defs)
  show "Month s = Month t" if "t \<le> s" "s < advanceMonth t"
  proof -
    have "t div day_ns \<le> s div day_ns" using that day by (simp add: zdiv_mono1)
    moreover have "s div day_ns < month_start (Year t) (Suc k)"
      using that(2) day unfolding nxt by (simp add: div_below)
    ultimately show ?thesis using date_at(2) [of k "Year t" "s div day_ns"] k by (simp add: Month_def)
  qed
  show "t < next_day t" using next_unit [OF day] by (simp add: next_day_eq)
  show "minute_ns dvd next_day t" by (simp add: next_day_eq ns_defs)
  show "Day s = Day t \<and> Weekday s = Weekday t" if "t \<le> s" "s < next_day t"
    using same_unit [OF day, of t s] that by (simp add: next_day_eq Day_def Weekday_def)
  show "t < next_hour t" using next_unit [OF hour] by (simp add: next_hour_eq)
  show "minute_ns dvd next_hour t" by (simp add: next_hour_eq ns_defs)
  show "Hour s = Hour t" if "t \<le> s" "s < next_hour t"
  proof -
    have "s div hour_ns = t div hour_ns" using same_unit [OF hour, of t s] that by (simp add: next_hour_eq)
    moreover have "Hour x = x div hour_ns mod 24" for x
    proof -
      have "0 \<le> x mod day_ns div hour_ns" "x mod day_ns div hour_ns < 24"
        using hour div_below [OF hour, of "x mod day_ns" 24] pos_mod_bound [OF day, of x] pos_mod_sign [OF day, of x]
        by (simp_all add: day_ns_def pos_imp_zdiv_nonneg_iff)
      then have "x div hour_ns mod 24 = x mod day_ns div hour_ns"
        unfolding hours_of_day [of x] by simp
      then show ?thesis by (simp add: Hour_def)
    qed
    ultimately show ?thesis by simp
  qed
qed

end
