(* ===== verification/Cron.thy ===== *)
theory Cron
  imports Calendar Collections
begin

text \<open>
  Cron expressions (\<open>internal/cron/cron.go\<close>): the parser of the five fields and the search for the
  next time an expression fires.  Errors are values of \<open>cron_error\<close>; the loop over a stepped range
  keeps the wrap-around of Go's 64-bit integers.
\<close>

subsection \<open>Parsing\<close>

datatype cron_error =
  FieldCount nat | BadStep string | BadRangeStart string | BadRangeEnd string
| RangeOutOfBounds int int | BadValue string | ValueOutOfBounds int | InField nat string cron_error

record fieldSpec =
  fs_min :: int
  fs_max :: int
  fs_names :: "(string, int) gomap"

record expression =
  Raw :: string
  e_Minute :: "int set"
  e_Hour :: "int set"
  e_DOM :: "int set"
  e_Month :: "int set"
  e_DOW :: "int set"

definition specs :: "fieldSpec list" where
  "specs = [\<lparr>fs_min = 0, fs_max = 59, fs_names = []\<rparr>, \<lparr>fs_min = 0, fs_max = 23, fs_names = []\<rparr>,
     \<lparr>fs_min = 1, fs_max = 31, fs_names = []\<rparr>,
     \<lparr>fs_min = 1, fs_max = 12, fs_names = [(''jan'', 1), (''feb'', 2), (''mar'', 3), (''apr'', 4), (''may'', 5),
        (''jun'', 6), (''jul'', 7), (''aug'', 8), (''sep'', 9), (''oct'', 10), (''nov'', 11), (''dec'', 12)]\<rparr>,
     \<lparr>fs_min = 0, fs_max = 6, fs_names = [(''sun'', 0), (''mon'', 1), (''tue'', 2), (''wed'', 3), (''thu'', 4),
        (''fri'', 5), (''sat'', 6)]\<rparr>]"

text \<open>
  The values of \<open>for i := lo; i <= hi; i += step\<close>.  The other conditions hold on every call: a step
  is positive, the bounds are those of a field.
\<close>

definition step_measure :: "int \<times> int \<times> int \<Rightarrow> nat" where
  "step_measure x =
     (case x of (i, hi, step) \<Rightarrow>
        (let k = 2 ^ 63 - step; j = i + step
         in nat (if hi < i then 0
                 else if 100 \<le> k then hi + 1 - i
                 else if 0 \<le> i then 2 * i + 1
                 else if hi < j then 1
                 else if 0 \<le> j then 2 * j + 2
                 else 2)))"

lemma step_measure_less:
  assumes "0 < step" "step < 2 ^ 63" "- (2 ^ 63) \<le> i" "i \<le> hi" "hi < 100"
  shows "step_measure (wrap64 (i + step), hi, step) < step_measure (i, hi, step)"
proof (cases "i + step < 2 ^ 63")
  case True
  then have w: "wrap64 (i + step) = i + step" using assms by (simp add: wrap64_def)
  show ?thesis unfolding w step_measure_def Let_def prod.case using assms by auto
next
  case False
  then have "(i + step + 2 ^ 63) mod 2 ^ 64 = i + step - 2 ^ 63"
    using assms by (intro int_mod_pos_eq [where q = 1]) auto
  then have w: "wrap64 (i + step) = i + step - 2 ^ 64" unfolding wrap64_def by simp
  show ?thesis unfolding w step_measure_def Let_def prod.case using assms False by auto
qed

function steps :: "int \<Rightarrow> int \<Rightarrow> int \<Rightarrow> int list" where
  "steps i hi step =
     (if 0 < step \<and> step < 2 ^ 63 \<and> - (2 ^ 63) \<le> i \<and> i \<le> hi \<and> hi < 100
      then i # steps (wrap64 (i + step)) hi step else [])"
  by pat_completeness auto
termination by (relation "measure step_measure") (use step_measure_less in auto)

declare steps.simps [simp del]

definition parsePart :: "string \<Rightarrow> fieldSpec \<Rightarrow> int set \<Rightarrow> cron_error + int set" where
  "parsePart part spec values =
     (let part = fold (\<lambda>(name, val) s. replace_all s name (int_str val)) (fs_names spec) (to_lower part);
          range_values = (\<lambda>step part.
            (if part = ''*'' then Inr (values \<union> set (steps (fs_min spec) (fs_max spec) step))
             else case index_of part ''-'' of
               Some idx \<Rightarrow>
                 (case atoi (take idx part) of
                    None \<Rightarrow> Inl (BadRangeStart part)
                  | Some lo \<Rightarrow>
                      (case atoi (drop (idx + 1) part) of
                         None \<Rightarrow> Inl (BadRangeEnd part)
                       | Some hi \<Rightarrow>
                           (if lo < fs_min spec \<or> fs_max spec < hi \<or> hi < lo then Inl (RangeOutOfBounds lo hi)
                            else Inr (values \<union> set (steps lo hi step)))))
             | None \<Rightarrow>
                 (case atoi part of
                    None \<Rightarrow> Inl (BadValue part)
                  | Some v \<Rightarrow>
                      (if v < fs_min spec \<or> fs_max spec < v then Inl (ValueOutOfBounds v)
                       else Inr (insert v values)))))
      in case index_of part ''/'' of
           None \<Rightarrow> range_values 1 part
         | Some idx \<Rightarrow>
             (case atoi (drop (idx + 1) part) of
                None \<Rightarrow> Inl (BadStep part)
              | Some s \<Rightarrow> (if s \<le> 0 then Inl (BadStep part) else range_values s (take idx part))))"

fun parse_parts :: "string list \<Rightarrow> fieldSpec \<Rightarrow> int set \<Rightarrow> cron_error + int set" where
  "parse_parts [] spec values = Inr values"
| "parse_parts (p # ps) spec values =
     (case parsePart p spec values of Inl e \<Rightarrow> Inl e | Inr vs \<Rightarrow> parse_parts ps spec vs)"

definition parseField :: "string \<Rightarrow> fieldSpec \<Rightarrow> cron_error + int set" where
  "parseField raw spec = parse_parts (split_on '','' raw) spec {}"

fun parse_fields :: "nat \<Rightarrow> string list \<Rightarrow> fieldSpec list \<Rightarrow> cron_error + int set list" where
  "parse_fields i (f # fs) (spec # ss) =
     (case parseField f spec of
        Inl e \<Rightarrow> Inl (InField i f e)
      | Inr vs \<Rightarrow> (case parse_fields (i + 1) fs ss of Inl e \<Rightarrow> Inl e | Inr rest \<Rightarrow> Inr (vs # rest)))"
| "parse_fields i _ _ = Inr []"

definition parse :: "string \<Rightarrow> cron_error + expression" where
  "parse expr =
     (let fields = str_fields expr
      in if length fields \<noteq> 5 then Inl (FieldCount (length fields))
         else case parse_fields 0 fields specs of
                Inl e \<Rightarrow> Inl e
              | Inr vs \<Rightarrow> Inr \<lparr>Raw = expr, e_Minute = vs ! 0, e_Hour = vs ! 1, e_DOM = vs ! 2,
                            e_Month = vs ! 3, e_DOW = vs ! 4\<rparr>)"

subsection \<open>The next time\<close>

function next_loop :: "expression \<Rightarrow> int \<Rightarrow> int \<Rightarrow> int" where
  "next_loop e deadline t =
     (if t < deadline then
        (if Month t \<notin> e_Month e then next_loop e deadline (advanceMonth t)
         else if Day t \<notin> e_DOM e \<or> Weekday t \<notin> e_DOW e then next_loop e deadline (next_day t)
         else if Hour t \<notin> e_Hour e then next_loop e deadline (next_hour t)
         else if Minute t \<notin> e_Minute e then next_loop e deadline (t + minute_ns)
         else t)
      else 0)"
  by pat_completeness auto
termination
  by (relation "measure (\<lambda>(e, deadline, t). nat (deadline - t))")
    (use cal.month_later cal.day_later cal.hour_later cal.tick_pos in auto)

declare next_loop.simps [simp del]

definition nextAfter :: "expression \<Rightarrow> int \<Rightarrow> int" where
  "nextAfter e after =
     next_loop e (after + 4 * 365 * 24 * hour_ns) (Truncate after minute_ns + minute_ns)"

subsection \<open>The search finds the first time\<close>

text \<open>A minute at which the expression fires.\<close>

definition fires :: "expression \<Rightarrow> int \<Rightarrow> bool" where
  "fires e t \<longleftrightarrow> minute_ns dvd t \<and> Month t \<in> e_Month e \<and> Day t \<in> e_DOM e \<and> Weekday t \<in> e_DOW e
     \<and> Hour t \<in> e_Hour e \<and> Minute t \<in> e_Minute e"

lemma next_loop_correct:
  assumes "minute_ns dvd t0"
  shows "(next_loop e dl t0 = 0 \<and> (\<forall>s. fires e s \<longrightarrow> t0 \<le> s \<longrightarrow> \<not> s < dl))
    \<or> (t0 \<le> next_loop e dl t0 \<and> next_loop e dl t0 < dl \<and> fires e (next_loop e dl t0)
        \<and> (\<forall>s. fires e s \<longrightarrow> t0 \<le> s \<longrightarrow> \<not> s < next_loop e dl t0))"
  using assms
proof (induction e dl t0 rule: next_loop.induct)
  case (1 e dl t)
  let ?t' = "if Month t \<notin> e_Month e then advanceMonth t
             else if Day t \<notin> e_DOM e \<or> Weekday t \<notin> e_DOW e then next_day t
             else if Hour t \<notin> e_Hour e then next_hour t else t + minute_ns"
  note later = cal.skip_later [OF 1(5) refl, of "\<lambda>x. x \<in> e_Month e" "\<lambda>x. x \<in> e_DOM e"
      "\<lambda>x. x \<in> e_DOW e" "\<lambda>x. x \<in> e_Hour e"]
  show ?case
  proof (cases "fires e t")
    case True
    then have "next_loop e dl t = (if t < dl then t else 0)"
      by (subst next_loop.simps) (simp add: fires_def)
    then show ?thesis using True by auto
  next
    case False
    have skip: "\<not> fires e s" if "t \<le> s" "s < ?t'" for s
    proof
      assume f: "fires e s"
      then have "minute_ns dvd s" by (simp add: fires_def)
      from cal.skip_sound [OF 1(5) _ refl this that(1), of "\<lambda>x. x \<in> e_Month e" "\<lambda>x. x \<in> e_DOM e"
          "\<lambda>x. x \<in> e_DOW e" "\<lambda>x. x \<in> e_Hour e" "\<lambda>x. Minute x \<in> e_Minute e"]
      show False using f that False 1(5) by (auto simp: fires_def)
    qed
    show ?thesis
    proof (cases "t < dl")
      case False
      then have "next_loop e dl t = 0" by (subst next_loop.simps) simp
      then show ?thesis using False by auto
    next
      case True
      have go: "next_loop e dl t = next_loop e dl ?t'"
        using True False 1(5) by (subst next_loop.simps) (auto simp: fires_def)
      have "(next_loop e dl ?t' = 0 \<and> (\<forall>s. fires e s \<longrightarrow> ?t' \<le> s \<longrightarrow> \<not> s < dl))
        \<or> (?t' \<le> next_loop e dl ?t' \<and> next_loop e dl ?t' < dl \<and> fires e (next_loop e dl ?t')
          \<and> (\<forall>s. fires e s \<longrightarrow> ?t' \<le> s \<longrightarrow> \<not> s < next_loop e dl ?t'))"
        using 1 True False later by (auto simp: fires_def split: if_splits)
      then show ?thesis unfolding go using skip later by (meson not_le order_trans less_imp_le)
    qed
  qed
qed

lemma nextAfter_bounds:
  assumes "0 \<le> after"
  shows "if nextAfter e after = 0
    then \<forall>s. fires e s \<and> after < s \<longrightarrow> after + 4 * 365 * day_ns \<le> s
    else after < nextAfter e after \<and> nextAfter e after < after + 4 * 365 * day_ns
      \<and> fires e (nextAfter e after) \<and> (\<forall>s. fires e s \<and> after < s \<longrightarrow> nextAfter e after \<le> s)"
proof -
  let ?t0 = "Truncate after minute_ns + minute_ns"
  have pos: "0 < minute_ns" by (simp add: ns_defs)
  have t0: "?t0 = (after div minute_ns + 1) * minute_ns"
    using minus_mod_eq_div_mult [of after minute_ns] by (simp add: Truncate_def algebra_simps)
  have after: "after < ?t0" unfolding t0 by (rule next_unit [OF pos])
  have first: "?t0 \<le> s" if "fires e s" "after < s" for s
  proof (rule ccontr)
    assume "\<not> ?t0 \<le> s"
    then have "s div minute_ns = after div minute_ns"
      using same_unit [OF pos, of after s] that(2) unfolding t0 by simp
    moreover have "s = s div minute_ns * minute_ns" using that(1) by (simp add: fires_def)
    moreover have "after div minute_ns * minute_ns \<le> after"
      using div_mult_mod_eq [of after minute_ns] pos_mod_sign [OF pos, of after] by linarith
    ultimately show False using that(2) by simp
  qed
  have dl: "after + 4 * 365 * 24 * hour_ns = after + 4 * 365 * day_ns" by (simp add: day_ns_def)
  have "minute_ns dvd ?t0" unfolding t0 by simp
  from next_loop_correct [OF this, of e "after + 4 * 365 * day_ns"]
  show ?thesis using after first assms unfolding nextAfter_def dl by (auto simp: not_less)
qed

text \<open>
  C35: In a zone whose clock never changes, modelled as UTC, the time \<open>nextAfter\<close> returns is the first minute
  after the given time at which the expression fires: it lies within the horizon of four years of 365 days,
  every field matches there and at no minute in between.  The zero time is returned only when no minute up to
  the horizon matches.  A zone that sets its clock back is another matter: see
  \<open>clock_set_back_never_returns\<close>.
\<close>

theorem nextAfter_correct:
  assumes "0 \<le> after"
  shows "if nextAfter e after = 0
    then \<forall>s. fires e s \<and> after < s \<longrightarrow> after + 4 * 365 * day_ns \<le> s
    else after < nextAfter e after \<and> nextAfter e after < after + 4 * 365 * day_ns
      \<and> fires e (nextAfter e after) \<and> (\<forall>s. fires e s \<and> after < s \<longrightarrow> nextAfter e after \<le> s)"
  using assms by (rule nextAfter_bounds)

definition demo_expr :: "string \<Rightarrow> expression" where
  "demo_expr s = (case parse s of Inr e \<Rightarrow> e | Inl _ \<Rightarrow> \<lparr>Raw = [], e_Minute = {}, e_Hour = {}, e_DOM = {},
     e_Month = {}, e_DOW = {}\<rparr>)"

text \<open>From Friday 1 March 2024, 10:00, the next half past eight on a weekday is on Monday.\<close>

theorem nextAfter_correct_witness:
  "nextAfter (demo_expr ''30 8 * * mon-fri'') (Date 2024 3 1 10 0) = Date 2024 3 4 8 30
   \<and> Date 2024 3 1 10 0 < nextAfter (demo_expr ''30 8 * * mon-fri'') (Date 2024 3 1 10 0)"
proof -
  have v: "nextAfter (demo_expr ''30 8 * * mon-fri'') (Date 2024 3 1 10 0) = Date 2024 3 4 8 30"
    "0 \<le> Date 2024 3 1 10 0" "Date 2024 3 4 8 30 \<noteq> 0" by code_simp+
  show ?thesis using nextAfter_correct [OF v(2), of "demo_expr ''30 8 * * mon-fri''"] v by simp
qed

lemma february_29:
  assumes "Month t = 2" "Day t = 29"
  shows "leap (Year t) \<and> t div day_ns = days_before_year (Year t) + 59"
proof -
  let ?n = "t div day_ns"
  obtain k where k: "k < 12" "month_start (year_of ?n) k \<le> ?n" "?n < month_start (year_of ?n) (Suc k)"
    using date_exists by blast
  then have "k = 1" "?n = month_start (year_of ?n) 1 + 28"
    using date_at(2) [OF k] assms by (simp_all add: Month_def Day_def)
  moreover have "month_start y 1 = days_before_year y + 31"
    "month_start y 2 = days_before_year y + (if leap y then 60 else 59)" for y
    by (simp_all add: month_start_def month_lengths_def eval_nat_numeral)
  ultimately show ?thesis using k(3) by (simp add: Year_def numeral_2_eq_2 split: if_splits)
qed

lemma february_29_years:
  assumes "Month t = 2" "Day t = 29" "days_before_year 2024 + 59 \<le> t div day_ns"
    "t div day_ns < days_before_year 2024 + 59 + 1460"
  shows "t div day_ns = days_before_year 2024 + 59"
proof -
  note y = february_29 [OF assms(1,2)]
  have "\<not> Year t \<le> 2023"
  proof
    assume "Year t \<le> 2023"
    from days_before_year_mono [OF this] y assms(3) show False by (simp add: days_before_year_def)
  qed
  moreover have "\<not> 2028 \<le> Year t"
  proof
    assume "2028 \<le> Year t"
    from days_before_year_mono [OF this] y assms(4) show False by (simp add: days_before_year_def)
  qed
  moreover have "Year t \<noteq> 2025" "Year t \<noteq> 2026" "Year t \<noteq> 2027" using y by (auto simp: leap_def)
  ultimately have "Year t = 2024" by linarith
  then show ?thesis using y by simp
qed

lemma midnight:
  assumes "minute_ns dvd t" "Hour t = 0" "Minute t = 0"
  shows "t = t div day_ns * day_ns"
proof -
  have pos: "0 < minute_ns" "0 < hour_ns" by (simp_all add: ns_defs)
  have "minute_ns dvd t mod hour_ns" using assms(1) by (simp add: dvd_mod hour_ns_def)
  then have "t mod hour_ns = t mod hour_ns div minute_ns * minute_ns" by simp
  then have "t mod hour_ns = 0" using assms(3) by (simp add: Minute_def)
  then have "t = t div hour_ns * hour_ns" using div_mult_mod_eq [of t hour_ns] by linarith
  also have "t div hour_ns = 24 * (t div day_ns)" using hours_of_day [of t] assms(2) by (simp add: Hour_def)
  finally show ?thesis by (simp add: day_ns_def)
qed

text \<open>
  The horizon is a day short of a leap cycle: for the expression that fires on 29 February at
  midnight, the search from one such midnight finds nothing, although the expression fires again
  four years later.
\<close>

lemma leap_day_is_not_found_again:
  "nextAfter (demo_expr ''0 0 29 2 *'') (Date 2024 2 29 0 0) = 0
   \<and> fires (demo_expr ''0 0 29 2 *'') (Date 2024 2 29 0 0)
   \<and> fires (demo_expr ''0 0 29 2 *'') (Date 2028 2 29 0 0)"
proof -
  let ?e = "demo_expr ''0 0 29 2 *''" and ?T = "Date 2024 2 29 0 0"
  have e: "e_Month ?e = {2}" "e_DOM ?e = {29}" "e_Hour ?e = {0}" "e_Minute ?e = {0}" by code_simp+
  have n: "?T = (days_before_year 2024 + 59) * day_ns" "0 \<le> ?T" by code_simp+
  have pos: "0 < day_ns" by (simp add: ns_defs)
  have "nextAfter ?e ?T = 0"
  proof (rule ccontr)
    let ?t = "nextAfter ?e ?T"
    assume "?t \<noteq> 0"
    then have t: "?T < ?t" "?t < ?T + 4 * 365 * day_ns" "fires ?e ?t"
      using nextAfter_bounds [OF n(2), of ?e] by simp_all
    have "(days_before_year 2024 + 59) * day_ns div day_ns \<le> ?t div day_ns"
      using t(1) pos unfolding n(1) by (intro zdiv_mono1) simp_all
    then have lo: "days_before_year 2024 + 59 \<le> ?t div day_ns" using pos by simp
    have "?t < (days_before_year 2024 + 59 + 1460) * day_ns" using t(2) unfolding n(1) by (simp add: algebra_simps)
    from div_below [OF pos this] lo have "?t div day_ns = days_before_year 2024 + 59"
      using t(3) by (intro february_29_years) (simp_all add: fires_def e)
    moreover have "?t = ?t div day_ns * day_ns" using t(3) by (intro midnight) (simp_all add: fires_def e)
    ultimately show False using t(1) n(1) by simp
  qed
  moreover have "fires ?e ?T" "fires ?e (Date 2028 2 29 0 0)" unfolding fires_def by code_simp+
  ultimately show ?thesis by blast
qed

subsection \<open>Zones that change their clock\<close>

text \<open>
  The same search in a zone: \<open>off t\<close> is the offset from UTC at the moment \<open>t\<close>, the fields are read from the
  local clock, and \<open>Date_in\<close> is \<open>time.Date\<close>, which looks the offset up at the local reading taken as UTC and,
  unless it is zero, once more at the moment that gives.  The search may not end, so it has fuel.
\<close>

definition Date_in :: "(int \<Rightarrow> int) \<Rightarrow> int \<Rightarrow> int" where
  "Date_in off l = (if off l = 0 then l else l - off (l - off l))"

definition local_clock :: "(int \<Rightarrow> int) \<Rightarrow> int \<Rightarrow> int" where
  "local_clock off t = t + off t"

definition day_start :: "int \<Rightarrow> int" where
  "day_start l = Date (Year l) (Month l) (Day l) 0 0"

definition hour_start :: "int \<Rightarrow> int" where
  "hour_start l = Date (Year l) (Month l) (Day l) (Hour l) 0"

fun next_in :: "(int \<Rightarrow> int) \<Rightarrow> expression \<Rightarrow> int \<Rightarrow> nat \<Rightarrow> int \<Rightarrow> int option" where
  "next_in off e deadline 0 t = None"
| "next_in off e deadline (Suc n) t =
     (if t < deadline then
        (let l = local_clock off t
         in if Month l \<notin> e_Month e then next_in off e deadline n (Date_in off (advanceMonth l))
            else if Day l \<notin> e_DOM e \<or> Weekday l \<notin> e_DOW e
              then next_in off e deadline n (Date_in off (day_start (local_clock off (t + 24 * hour_ns))))
            else if Hour l \<notin> e_Hour e
              then next_in off e deadline n (Date_in off (hour_start (local_clock off (t + hour_ns))))
            else if Minute l \<notin> e_Minute e then next_in off e deadline n (t + minute_ns)
            else Some t)
      else Some 0)"

lemma zero_zone: "Date_in (\<lambda>_. 0) l = l" "local_clock (\<lambda>_. 0) t = t"
  by (simp_all add: Date_in_def local_clock_def)

lemma utc_starts: "day_start (t + 24 * hour_ns) = next_day t" "hour_start (t + hour_ns) = next_hour t"
  by (simp_all add: next_day_def next_hour_def day_start_def hour_start_def day_ns_def Let_def)

text \<open>In UTC this is the search of the code with its loop, and it ends.\<close>

lemma next_in_utc: "\<exists>n. next_in (\<lambda>_. 0) e deadline n t = Some (next_loop e deadline t)"
proof (induction e deadline t rule: next_loop.induct)
  case (1 e deadline t)
  show ?case
  proof (cases "t < deadline")
    case False
    then have "next_in (\<lambda>_. 0) e deadline (Suc 0) t = Some (next_loop e deadline t)" by (simp add: next_loop.simps)
    then show ?thesis by blast
  next
    case True
    let ?t' = "if Month t \<notin> e_Month e then advanceMonth t
               else if Day t \<notin> e_DOM e \<or> Weekday t \<notin> e_DOW e then next_day t
               else if Hour t \<notin> e_Hour e then next_hour t else t + minute_ns"
    let ?fin = "Month t \<in> e_Month e \<and> Day t \<in> e_DOM e \<and> Weekday t \<in> e_DOW e \<and> Hour t \<in> e_Hour e \<and> Minute t \<in> e_Minute e"
    show ?thesis
    proof (cases ?fin)
      case fin: True
      then have "next_in (\<lambda>_. 0) e deadline (Suc 0) t = Some (next_loop e deadline t)"
        using True fin by (simp add: next_loop.simps zero_zone)
      then show ?thesis by blast
    next
      case skipped: False
      have "next_loop e deadline t = next_loop e deadline ?t'" using True skipped by (subst next_loop.simps) auto
      moreover have "next_in (\<lambda>_. 0) e deadline (Suc n) t = next_in (\<lambda>_. 0) e deadline n ?t'" for n
        using True skipped by (auto simp: zero_zone utc_starts)
      moreover have "\<exists>n. next_in (\<lambda>_. 0) e deadline n ?t' = Some (next_loop e deadline ?t')"
        using 1 True skipped by auto
      ultimately show ?thesis by metis
    qed
  qed
qed

text \<open>
  New York in 2024: the clock is set back at two in the night of Sunday, 3 November, so that this day has 25
  hours.  An expression for Mondays skips that Sunday by adding 24 hours to its midnight, which is 23:00 of the
  same Sunday, and goes back to its midnight; the search never returns.  The time of the call is eight in the evening
  of the Saturday before.
\<close>

definition new_york :: "int \<Rightarrow> int" where
  "new_york t = (if t < Date 2024 11 3 6 0 then - 4 * hour_ns else - 5 * hour_ns)"

lemma clock_set_back_never_returns:
  "let after = Date 2024 11 3 0 0
   in next_in new_york (demo_expr ''0 12 * * mon'') (after + 4 * 365 * 24 * hour_ns) n (Truncate after minute_ns + minute_ns) = None
      \<and> fires (demo_expr ''0 12 * * mon'') (local_clock new_york (Date 2024 11 4 17 0))"
proof -
  let ?e = "demo_expr ''0 12 * * mon''" and ?T = "Date 2024 11 3 0 0"
  let ?dl = "?T + 4 * 365 * 24 * hour_ns" and ?s = "Date 2024 11 3 4 0" and ?first = "Truncate ?T minute_ns + minute_ns"
  define skips where "skips t t' \<longleftrightarrow> t < ?dl \<and> Month (local_clock new_york t) \<in> e_Month ?e
     \<and> Weekday (local_clock new_york t) \<notin> e_DOW ?e
     \<and> Date_in new_york (day_start (local_clock new_york (t + 24 * hour_ns))) = t'" for t t'
  have go: "next_in new_york ?e ?dl (Suc n) t = next_in new_york ?e ?dl n t'" if "skips t t'" for t t' n
    using that by (simp add: skips_def)
  have s: "skips ?first ?s" "skips ?s ?s" unfolding skips_def by code_simp+
  have stuck: "next_in new_york ?e ?dl n ?s = None" for n
    using go [OF s(2)] by (induction n) simp_all
  have "next_in new_york ?e ?dl n ?first = None" using go [OF s(1)] stuck by (cases n) simp_all
  moreover have "fires ?e (local_clock new_york (Date 2024 11 4 17 0))" unfolding fires_def by code_simp
  ultimately show ?thesis by (simp add: Let_def)
qed

end
