(* ===== verification/CronStore.thy ===== *)
theory CronStore
  imports Cron "HOL-Library.Word"
begin

text \<open>
  The scheduler of cron jobs (\<open>internal/cron/store.go\<close>): creating, deleting and firing jobs, the
  spread of recurring jobs, and the file of durable jobs that all windows of a project share.

  The clock, the random id and the outcome of the file system are the record \<open>cron_env\<close>; the mutex
  makes every method one step.  The JSON file is the list of jobs it holds (without their parsed
  expressions, which are not serialised), or unreadable, or not parseable.
\<close>

unbundle bit_operations_syntax

subsection \<open>State\<close>

record CronJob =
  cj_ID :: string
  cj_Cron :: string
  cj_Prompt :: string
  cj_Recurring :: bool
  cj_Durable :: bool
  cj_CreatedAt :: int
  cj_ExpiresAt :: int
  cj_NextFire :: int
  cj_LastFired :: int
  cj_FiredCount :: int
  cj_expr :: "expression option"

record Scheduler =
  sc_jobs :: "(string, CronJob) gomap"
  storagePath :: string
  knownDurable :: "string set"

datatype job_file = NoFile | Unreadable | Garbage | JobsFile "CronJob list"

record cron_env =
  now :: int
  fresh_id :: string
  write_ok :: bool

datatype sched_error =
  ParseError cron_error | TooManyJobs | NoFireTime string | JobNotFound string
| ReadFailed | DecodeFailed

definition defaultExpiry :: int where "defaultExpiry = 7 * 24 * hour_ns"
definition maxJobs :: nat where "maxJobs = 50"
definition maxRecurringJitter :: int where "maxRecurringJitter = 15 * minute_ns"

definition NewScheduler :: Scheduler where
  "NewScheduler = \<lparr>sc_jobs = gm_empty, storagePath = [], knownDurable = {}\<rparr>"

subsection \<open>Spreading recurring jobs\<close>

text \<open>The 64-bit FNV-1a hash.\<close>

definition fnv64a :: "string \<Rightarrow> 64 word" where
  "fnv64a s = fold (\<lambda>c h. (h XOR of_nat (byte_of c)) * 1099511628211) s 14695981039346656037"

definition pad :: "nat \<Rightarrow> int \<Rightarrow> string" where
  "pad w v = (let s = int_str v in replicate (w - length s) (CHR ''0'') @ s)"

text \<open>\<open>base.Format("2006-01-02T15:04")\<close> for a year of four digits.\<close>

definition format_minute :: "int \<Rightarrow> string" where
  "format_minute t = pad 4 (Year t) @ ''-'' @ pad 2 (Month t) @ ''-'' @ pad 2 (Day t) @ ''T''
     @ pad 2 (Hour t) @ '':'' @ pad 2 (Minute t)"

definition estimateRecurringPeriod :: "expression \<Rightarrow> int \<Rightarrow> int" where
  "estimateRecurringPeriod expr base =
     (let nxt = nextAfter expr base in if nxt = 0 then 0 else nxt - base)"

definition computeRecurringJitter :: "expression \<Rightarrow> int \<Rightarrow> string \<Rightarrow> int" where
  "computeRecurringJitter expr base jobID =
     (let period = estimateRecurringPeriod expr base
      in if period \<le> 0 then 0
         else let maxJitter = (if maxRecurringJitter < period div 10 then maxRecurringJitter else period div 10)
              in if maxJitter \<le> 0 then 0
                 else uint (fnv64a (jobID @ ''|'' @ Raw expr @ ''|'' @ format_minute base)) mod maxJitter)"

definition computeNextFire :: "expression \<Rightarrow> int \<Rightarrow> string \<Rightarrow> bool \<Rightarrow> int" where
  "computeNextFire expr from_t jobID recurring =
     (let base = nextAfter expr from_t
      in if base = 0 then 0
         else if \<not> recurring then base
         else base + computeRecurringJitter expr base jobID)"

subsection \<open>The shared file\<close>

definition foreignDurable :: "job_file \<Rightarrow> string set \<Rightarrow> CronJob list \<Rightarrow> CronJob list" where
  "foreignDurable fl known mine =
     (case fl of
        JobsFile onDisk \<Rightarrow>
          filter (\<lambda>j. \<not> (cj_ID j \<in> set (List.map cj_ID mine) \<or> cj_ID j \<in> known)) onDisk
      | _ \<Rightarrow> [])"

definition saveDurable :: "cron_env \<Rightarrow> Scheduler \<times> job_file \<Rightarrow> Scheduler \<times> job_file" where
  "saveDurable E st =
     (case st of (s, fl) \<Rightarrow>
       (if storagePath s = [] then (s, fl)
        else let durable = filter cj_Durable (gm_vals (sc_jobs s));
                 s = s\<lparr>knownDurable := knownDurable s \<union> set (List.map cj_ID durable)\<rparr>;
                 all_jobs = durable @ foreignDurable fl (knownDurable s) durable
             in (s, if write_ok E then JobsFile (List.map (\<lambda>j. j\<lparr>cj_expr := None\<rparr>) all_jobs) else fl)))"

fun load_jobs :: "int \<Rightarrow> CronJob list \<Rightarrow> Scheduler \<Rightarrow> Scheduler" where
  "load_jobs t [] s = s"
| "load_jobs t (job # rest) s =
     (if cj_ExpiresAt job \<noteq> 0 \<and> cj_ExpiresAt job < t then load_jobs t rest s
      else case parse (cj_Cron job) of
             Inl _ \<Rightarrow> load_jobs t rest s
           | Inr expr \<Rightarrow>
               (let nextFire = (if cj_Recurring job then computeNextFire expr t (cj_ID job) True
                                else if cj_NextFire job = 0 \<or> cj_NextFire job \<le> t then t
                                else cj_NextFire job)
                in if cj_Recurring job \<and> nextFire = 0 then load_jobs t rest s
                   else load_jobs t rest
                     (s\<lparr>sc_jobs := gm_put (cj_ID job)
                           (job\<lparr>cj_expr := Some expr, cj_NextFire := nextFire, cj_Durable := True\<rparr>) (sc_jobs s),
                        knownDurable := insert (cj_ID job) (knownDurable s)\<rparr>)))"

definition LoadDurable :: "cron_env \<Rightarrow> Scheduler \<times> job_file \<Rightarrow> sched_error option \<times> Scheduler \<times> job_file" where
  "LoadDurable E st =
     (case st of (s, fl) \<Rightarrow>
       (if storagePath s = [] then (None, s, fl)
        else case fl of
               NoFile \<Rightarrow> (None, s, fl)
             | Unreadable \<Rightarrow> (Some ReadFailed, s, fl)
             | Garbage \<Rightarrow> (Some DecodeFailed, s, fl)
             | JobsFile jobs \<Rightarrow> (None, load_jobs (now E) jobs s, fl)))"

subsection \<open>Operations\<close>

definition save_if :: "bool \<Rightarrow> cron_env \<Rightarrow> Scheduler \<times> job_file \<Rightarrow> Scheduler \<times> job_file" where
  "save_if b E st = (if b then saveDurable E st else st)"

definition Create :: "cron_env \<Rightarrow> string \<Rightarrow> string \<Rightarrow> bool \<Rightarrow> bool \<Rightarrow> Scheduler \<times> job_file
    \<Rightarrow> (sched_error + CronJob) \<times> Scheduler \<times> job_file" where
  "Create E cronExpr prompt recurring durable st =
     (case st of (s, fl) \<Rightarrow>
       (case parse cronExpr of
          Inl e \<Rightarrow> (Inl (ParseError e), s, fl)
        | Inr expr \<Rightarrow>
            (if maxJobs \<le> length (sc_jobs s) then (Inl TooManyJobs, s, fl)
             else let job = \<lparr>cj_ID = fresh_id E, cj_Cron = cronExpr, cj_Prompt = prompt,
                        cj_Recurring = recurring, cj_Durable = durable, cj_CreatedAt = now E,
                        cj_ExpiresAt = (if recurring then now E + defaultExpiry else 0),
                        cj_NextFire = computeNextFire expr (now E) (fresh_id E) recurring,
                        cj_LastFired = 0, cj_FiredCount = 0, cj_expr = Some expr\<rparr>
                  in if cj_NextFire job = 0 then (Inl (NoFireTime cronExpr), s, fl)
                     else (Inr job,
                           save_if durable E (s\<lparr>sc_jobs := gm_put (cj_ID job) job (sc_jobs s)\<rparr>, fl)))))"

definition Add :: "cron_env \<Rightarrow> CronJob \<Rightarrow> Scheduler \<times> job_file \<Rightarrow> sched_error option \<times> Scheduler \<times> job_file" where
  "Add E job st =
     (case st of (s, fl) \<Rightarrow>
       (case parse (cj_Cron job) of
          Inl e \<Rightarrow> (Some (ParseError e), s, fl)
        | Inr expr \<Rightarrow>
            (if maxJobs \<le> length (sc_jobs s) then (Some TooManyJobs, s, fl)
             else let i = (if cj_ID job = [] then fresh_id E else cj_ID job);
                      expiresAt = (if cj_Recurring job \<and> cj_ExpiresAt job = 0 then now E + defaultExpiry
                                   else cj_ExpiresAt job);
                      j = \<lparr>cj_ID = i, cj_Cron = cj_Cron job, cj_Prompt = cj_Prompt job,
                        cj_Recurring = cj_Recurring job, cj_Durable = cj_Durable job, cj_CreatedAt = now E,
                        cj_ExpiresAt = expiresAt,
                        cj_NextFire = computeNextFire expr (now E) i (cj_Recurring job),
                        cj_LastFired = 0, cj_FiredCount = 0, cj_expr = Some expr\<rparr>
                  in if cj_NextFire j = 0 then (Some (NoFireTime (cj_Cron job)), s, fl)
                     else (None, save_if (cj_Durable j) E (s\<lparr>sc_jobs := gm_put i j (sc_jobs s)\<rparr>, fl)))))"

definition Delete :: "cron_env \<Rightarrow> string \<Rightarrow> Scheduler \<times> job_file \<Rightarrow> sched_error option \<times> Scheduler \<times> job_file" where
  "Delete E i st =
     (case st of (s, fl) \<Rightarrow>
       (case gm_get (sc_jobs s) i of
          None \<Rightarrow> (Some (JobNotFound i), s, fl)
        | Some job \<Rightarrow> (None, save_if (cj_Durable job) E (s\<lparr>sc_jobs := gm_del i (sc_jobs s)\<rparr>, fl))))"

definition Remove :: "cron_env \<Rightarrow> string \<Rightarrow> Scheduler \<times> job_file \<Rightarrow> bool \<times> Scheduler \<times> job_file" where
  "Remove E i st =
     (case st of (s, fl) \<Rightarrow>
       (case gm_get (sc_jobs s) i of
          None \<Rightarrow> (False, s, fl)
        | Some job \<Rightarrow> (True, save_if (cj_Durable job) E (s\<lparr>sc_jobs := gm_del i (sc_jobs s)\<rparr>, fl))))"

definition Reset :: "cron_env \<Rightarrow> Scheduler \<times> job_file \<Rightarrow> Scheduler \<times> job_file" where
  "Reset E st = (case st of (s, fl) \<Rightarrow> saveDurable E (s\<lparr>sc_jobs := gm_empty\<rparr>, fl))"

definition List_jobs :: "Scheduler \<Rightarrow> CronJob list" where
  "List_jobs s = sort_lt (\<lambda>x y. cj_NextFire x < cj_NextFire y) (gm_vals (sc_jobs s))"

definition Empty_store :: "Scheduler \<Rightarrow> bool" where
  "Empty_store s = (length (sc_jobs s) = 0)"

record FiredJob =
  fj_ID :: string
  fj_Prompt :: string

text \<open>One job of the loop of \<open>Tick\<close>: whether it fires, whether it is deleted, and the job afterwards.\<close>

definition tick_job :: "int \<Rightarrow> CronJob \<Rightarrow> bool \<times> bool \<times> CronJob" where
  "tick_job t job =
     (if cj_ExpiresAt job \<noteq> 0 \<and> cj_ExpiresAt job < t then (False, True, job)
      else if t < cj_NextFire job then (False, False, job)
      else let job = job\<lparr>cj_LastFired := t, cj_FiredCount := cj_FiredCount job + 1\<rparr>
           in if \<not> cj_Recurring job then (True, True, job)
              else case cj_expr job of
                     Some expr \<Rightarrow> (True, False, job\<lparr>cj_NextFire := computeNextFire expr t (cj_ID job) True\<rparr>)
                   | None \<Rightarrow>
                       (case parse (cj_Cron job) of
                          Inl _ \<Rightarrow> (True, True, job)
                        | Inr expr \<Rightarrow> (True, False,
                            job\<lparr>cj_expr := Some expr, cj_NextFire := computeNextFire expr t (cj_ID job) True\<rparr>)))"

definition tick_fired :: "int \<Rightarrow> CronJob \<Rightarrow> bool" where
  "tick_fired t job = fst (tick_job t job)"

definition tick_deleted :: "int \<Rightarrow> CronJob \<Rightarrow> bool" where
  "tick_deleted t job = fst (snd (tick_job t job))"

definition Tick :: "cron_env \<Rightarrow> Scheduler \<times> job_file \<Rightarrow> FiredJob list \<times> Scheduler \<times> job_file" where
  "Tick E st =
     (case st of (s, fl) \<Rightarrow>
       (let js = gm_vals (sc_jobs s);
            fired = List.map (\<lambda>j. \<lparr>fj_ID = cj_ID j, fj_Prompt = cj_Prompt j\<rparr>) (filter (tick_fired (now E)) js);
            toDelete = List.map cj_ID (filter (tick_deleted (now E)) js);
            changed = list_ex (\<lambda>j. cj_Durable j \<and> (tick_fired (now E) j \<or> tick_deleted (now E) j)) js;
            jobs = List.map (\<lambda>(k, j). (k, snd (snd (tick_job (now E) j)))) (sc_jobs s)
        in (fired, save_if changed E (s\<lparr>sc_jobs := fold gm_del toDelete jobs\<rparr>, fl))))"

subsection \<open>The spread of a recurring job\<close>

lemma jitter_bounds:
  "0 \<le> computeRecurringJitter expr base i \<and>
   (computeRecurringJitter expr base i = 0 \<or>
     computeRecurringJitter expr base i < maxRecurringJitter
     \<and> 10 * computeRecurringJitter expr base i < estimateRecurringPeriod expr base)"
proof (cases "estimateRecurringPeriod expr base \<le> 0")
  case False
  define m where "m = (if maxRecurringJitter < estimateRecurringPeriod expr base div 10
      then maxRecurringJitter else estimateRecurringPeriod expr base div 10)"
  have m: "m \<le> maxRecurringJitter" "10 * m \<le> estimateRecurringPeriod expr base" by (auto simp: m_def)
  show ?thesis
  proof (cases "m \<le> 0")
    case True
    then show ?thesis using False by (simp add: computeRecurringJitter_def Let_def m_def)
  next
    case pos: False
    define h where "h = uint (fnv64a (i @ ''|'' @ Raw expr @ ''|'' @ format_minute base)) mod m"
    have "computeRecurringJitter expr base i = h"
      using False pos by (simp add: computeRecurringJitter_def Let_def m_def h_def)
    moreover have "0 \<le> h" "h < m" using pos by (simp_all add: h_def)
    ultimately show ?thesis using m by simp
  qed
qed (simp add: computeRecurringJitter_def)

text \<open>
  A recurring job is spread by less than a quarter of an hour and less than a tenth of its
  period: it fires at or after the minute its expression names, and before the next such minute.
\<close>

theorem recurring_job_fires_before_its_next_turn:
  assumes "0 \<le> from_t" and "computeNextFire expr from_t i True \<noteq> 0"
  shows "fires expr (nextAfter expr from_t) \<and> from_t < nextAfter expr from_t
    \<and> nextAfter expr from_t \<le> computeNextFire expr from_t i True
    \<and> computeNextFire expr from_t i True < nextAfter expr from_t + maxRecurringJitter
    \<and> (nextAfter expr (nextAfter expr from_t) \<noteq> 0
        \<longrightarrow> computeNextFire expr from_t i True < nextAfter expr (nextAfter expr from_t))"
proof -
  let ?b = "nextAfter expr from_t"
  have b: "?b \<noteq> 0" using assms(2) by (auto simp: computeNextFire_def Let_def)
  have c: "computeNextFire expr from_t i True = ?b + computeRecurringJitter expr ?b i"
    using b by (simp add: computeNextFire_def Let_def)
  have f: "fires expr ?b" "from_t < ?b" using nextAfter_bounds [OF assms(1), of expr] b by simp_all
  have pos: "0 < maxRecurringJitter" by (simp add: maxRecurringJitter_def ns_defs)
  have nxt: "?b < nextAfter expr ?b" if "nextAfter expr ?b \<noteq> 0"
    using nextAfter_bounds [of ?b expr] that f(2) assms(1) by simp
  show ?thesis
    using f c pos nxt jitter_bounds [of expr ?b i] by (auto simp: estimateRecurringPeriod_def Let_def)
qed

theorem recurring_job_fires_before_its_next_turn_witness:
  "computeNextFire (demo_expr ''*/10 * * * *'') (Date 2024 3 1 10 0) ''a1b2c3d4'' True
     < Date 2024 3 1 10 11 \<and> Date 2024 3 1 10 10
     \<le> computeNextFire (demo_expr ''*/10 * * * *'') (Date 2024 3 1 10 0) ''a1b2c3d4'' True"
proof -
  let ?e = "demo_expr ''*/10 * * * *''" and ?t = "Date 2024 3 1 10 0"
  have v: "nextAfter ?e ?t = Date 2024 3 1 10 10" "0 \<le> ?t"
    "computeNextFire ?e ?t ''a1b2c3d4'' True \<noteq> 0"
    "computeNextFire ?e ?t ''a1b2c3d4'' True < Date 2024 3 1 10 11" by code_simp+
  show ?thesis using recurring_job_fires_before_its_next_turn [OF v(2,3)] v by simp
qed

subsection \<open>The store under its operations\<close>

definition job_ids :: "Scheduler \<Rightarrow> string set" where
  "job_ids s = cj_ID ` set (gm_vals (sc_jobs s))"

definition sched_ok :: "Scheduler \<Rightarrow> bool" where
  "sched_ok s \<longleftrightarrow> gm_ok (sc_jobs s) \<and> (\<forall>k j. gm_get (sc_jobs s) k = Some j \<longrightarrow> cj_ID j = k)"

lemma vals_put: "set (gm_vals (gm_put k v m)) \<subseteq> insert v (set (gm_vals m))"
  unfolding gm_vals_def gm_put_def by (induction m) (auto split: if_splits)

lemma vals_del: "set (gm_vals (gm_del k m)) \<subseteq> set (gm_vals m)"
  unfolding gm_vals_def gm_del_def by (induction m) (auto split: if_splits)

lemma vals_del_all: "set (gm_vals (fold gm_del ks m)) \<subseteq> set (gm_vals m)"
  using vals_del by (induction ks arbitrary: m) fastforce+

lemma tick_job_keeps [simp]:
  "cj_ID (snd (snd (tick_job t j))) = cj_ID j" "cj_Durable (snd (snd (tick_job t j))) = cj_Durable j"
  by (auto simp: tick_job_def Let_def split: option.split sum.split)

lemma ok_put: "sched_ok s \<Longrightarrow> cj_ID j = k \<Longrightarrow> sched_ok (s\<lparr>sc_jobs := gm_put k j (sc_jobs s)\<rparr>)"
  by (simp add: sched_ok_def gm.ok_put gm.get_put)

lemma ok_del: "sched_ok s \<Longrightarrow> sched_ok (s\<lparr>sc_jobs := gm_del k (sc_jobs s)\<rparr>)"
  by (simp add: sched_ok_def gm.ok_del gm.get_del)

lemma save_keeps [simp]:
  "sc_jobs (fst (saveDurable E st)) = sc_jobs (fst st)"
  "sc_jobs (fst (save_if b E st)) = sc_jobs (fst st)"
  "storagePath (fst (saveDurable E st)) = storagePath (fst st)"
  by (cases st; simp add: saveDurable_def save_if_def Let_def)+

lemma sched_ok_jobs: "sc_jobs s = sc_jobs s' \<Longrightarrow> sched_ok s \<longleftrightarrow> sched_ok s'"
  by (simp add: sched_ok_def)

lemma get_mapped:
  "gm_get (List.map (\<lambda>(k, j). (k, f j)) m) k = map_option f (gm_get m k)"
  by (induction m) (auto simp: gm_get_def)

lemma ok_mapped: "gm_ok m \<Longrightarrow> gm_ok (List.map (\<lambda>(k, j). (k, f j)) m)"
  by (simp add: gm_ok_def case_prod_beta o_def)

text \<open>What is left of each job after a tick.\<close>

definition ticked_jobs :: "int \<Rightarrow> (string, CronJob) gomap \<Rightarrow> (string, CronJob) gomap" where
  "ticked_jobs t m = fold gm_del (List.map cj_ID (filter (tick_deleted t) (gm_vals m)))
     (List.map (\<lambda>(k, j). (k, snd (snd (tick_job t j)))) m)"

lemma Tick_jobs: "sc_jobs (fst (snd (Tick E (s, fl)))) = ticked_jobs (now E) (sc_jobs s)"
  by (simp add: Tick_def ticked_jobs_def Let_def)

lemma ticked_lookup:
  assumes "sched_ok s"
  shows "gm_get (ticked_jobs t (sc_jobs s)) k =
    (case gm_get (sc_jobs s) k of
       None \<Rightarrow> None
     | Some j \<Rightarrow> if tick_deleted t j then None else Some (snd (snd (tick_job t j))))"
proof -
  let ?m = "sc_jobs s"
  let ?dead = "set (List.map cj_ID (filter (tick_deleted t) (gm_vals ?m)))"
  have ok: "gm_ok ?m" and ids: "\<And>k j. gm_get ?m k = Some j \<Longrightarrow> cj_ID j = k"
    using assms by (auto simp: sched_ok_def)
  have dead: "k \<in> ?dead \<longleftrightarrow> (\<exists>j. gm_get ?m k = Some j \<and> tick_deleted t j)"
  proof
    assume "k \<in> ?dead"
    then obtain j where j: "j \<in> set (gm_vals ?m)" "tick_deleted t j" "cj_ID j = k" by auto
    then obtain k' where "gm_get ?m k' = Some j" using gm_vals_iff [OF ok] by blast
    then show "\<exists>j. gm_get ?m k = Some j \<and> tick_deleted t j" using ids j by blast
  next
    assume "\<exists>j. gm_get ?m k = Some j \<and> tick_deleted t j"
    then obtain j where j: "gm_get ?m k = Some j" "tick_deleted t j" by blast
    then have "j \<in> set (gm_vals ?m)" using gm_vals_iff [OF ok] by blast
    then show "k \<in> ?dead" using j ids by force
  qed
  have "gm_get (ticked_jobs t ?m) k = (if k \<in> ?dead then None
      else map_option (\<lambda>j. snd (snd (tick_job t j))) (gm_get ?m k))"
    unfolding ticked_jobs_def using gm.get_del_all [OF ok_mapped [OF ok]] get_mapped by metis
  then show ?thesis unfolding dead by (auto split: option.split)
qed

lemma ticked_ok:
  assumes "sched_ok s"
  shows "sched_ok (s\<lparr>sc_jobs := ticked_jobs t (sc_jobs s)\<rparr>)"
proof -
  have "gm_ok (ticked_jobs t (sc_jobs s))"
    unfolding ticked_jobs_def using assms by (intro gm.del_all_ok ok_mapped) (simp add: sched_ok_def)
  moreover have "cj_ID j = k" if "gm_get (ticked_jobs t (sc_jobs s)) k = Some j" for k j
    using that assms ticked_lookup [OF assms, of t k] by (auto simp: sched_ok_def split: option.splits if_splits)
  ultimately show ?thesis by (simp add: sched_ok_def)
qed

text \<open>
  What a fired job may wait for next: the first minute that its expression names, late by less than a quarter
  of an hour; or no time at all, the zero time, when no minute within the horizon matches.
\<close>

definition next_turn :: "expression \<Rightarrow> int \<Rightarrow> int \<Rightarrow> bool" where
  "next_turn ex t n \<longleftrightarrow>
     n = 0 \<and> (\<forall>m. fires ex m \<and> t < m \<longrightarrow> t + 4 * 365 * day_ns \<le> m)
     \<or> (\<exists>m. fires ex m \<and> t < m \<and> (\<forall>m'. fires ex m' \<and> t < m' \<longrightarrow> m \<le> m') \<and> m \<le> n \<and> n < m + maxRecurringJitter)"

definition expression_of :: "CronJob \<Rightarrow> expression option" where
  "expression_of j =
     (case cj_expr j of
        Some ex \<Rightarrow> Some ex
      | None \<Rightarrow> (case parse (cj_Cron j) of Inl err \<Rightarrow> None | Inr ex \<Rightarrow> Some ex))"

lemma computeNextFire_turn:
  assumes "0 \<le> t"
  shows "next_turn ex t (computeNextFire ex t i True)"
proof (cases "nextAfter ex t = 0")
  case True
  then show ?thesis using nextAfter_bounds [OF assms, of ex] by (simp add: computeNextFire_def Let_def next_turn_def)
next
  case False
  have "0 < maxRecurringJitter" by (simp add: maxRecurringJitter_def ns_defs)
  then have "nextAfter ex t \<le> computeNextFire ex t i True \<and> computeNextFire ex t i True < nextAfter ex t + maxRecurringJitter"
    using False jitter_bounds [of ex "nextAfter ex t" i] by (auto simp: computeNextFire_def Let_def)
  then show ?thesis using False nextAfter_bounds [OF assms, of ex] unfolding next_turn_def by auto
qed

lemma tick_job_cases:
  "snd (tick_job t j) =
     (if cj_ExpiresAt j \<noteq> 0 \<and> cj_ExpiresAt j < t then (True, j)
      else if t < cj_NextFire j then (False, j)
      else let f = j\<lparr>cj_LastFired := t, cj_FiredCount := cj_FiredCount j + 1\<rparr>
           in if \<not> cj_Recurring j then (True, f)
              else case expression_of j of
                     None \<Rightarrow> (True, f)
                   | Some ex \<Rightarrow> (False, f\<lparr>cj_expr := Some ex, cj_NextFire := computeNextFire ex t (cj_ID j) True\<rparr>))"
  by (cases j) (auto simp: tick_job_def expression_of_def Let_def split: option.split sum.split)


definition demo_job :: "string \<Rightarrow> string \<Rightarrow> bool \<Rightarrow> int \<Rightarrow> CronJob" where
  "demo_job i cron rec t = \<lparr>cj_ID = i, cj_Cron = cron, cj_Prompt = ''p'', cj_Recurring = rec, cj_Durable = True,
     cj_CreatedAt = 1, cj_ExpiresAt = 0, cj_NextFire = t, cj_LastFired = 0, cj_FiredCount = 0, cj_expr = None\<rparr>"

definition demo_sched :: "CronJob list \<Rightarrow> Scheduler" where
  "demo_sched js = \<lparr>sc_jobs = List.map (\<lambda>j. (cj_ID j, j)) js, storagePath = ''cron.json'', knownDurable = {}\<rparr>"

lemma demo_sched_ok: "distinct (List.map cj_ID js) \<Longrightarrow> sched_ok (demo_sched js)"
  by (auto simp: sched_ok_def demo_sched_def gm_ok_def comp_def dest!: gm_get_Some_in)


text \<open>
  A job for 29 February that fires at midnight finds no next time within the horizon, one day
  short of a leap cycle: its next fire time becomes zero, and from then on every tick fires it, until
  it expires.
\<close>

theorem leap_day_job_fires_on_every_tick:
  "case tick_job (Date 2024 2 29 0 0)
       ((demo_job i ''0 0 29 2 *'' True (Date 2024 2 29 0 0))\<lparr>cj_expr := Some (demo_expr ''0 0 29 2 *''),
          cj_ExpiresAt := expiry\<rparr>) of
     (fired, deleted, job) \<Rightarrow>
       (if expiry \<noteq> 0 \<and> expiry < Date 2024 2 29 0 0 then \<not> fired
        else fired \<and> \<not> deleted \<and> cj_NextFire job = 0
          \<and> {t. 0 \<le> t \<and> (expiry = 0 \<or> t \<le> expiry)} \<subseteq> {t. tick_fired t job})"
proof -
  have n: "computeNextFire (demo_expr ''0 0 29 2 *'') (Date 2024 2 29 0 0) i True = 0"
    using leap_day_is_not_found_again by (simp add: computeNextFire_def)
  have "tick_fired t job" if "cj_NextFire job = 0" "cj_ExpiresAt job = expiry" "0 \<le> t" "expiry = 0 \<or> t \<le> expiry" for t job
    using that by (auto simp: tick_fired_def tick_job_def Let_def split: option.split sum.split)
  then show ?thesis by (auto simp: tick_job_def demo_job_def n)
qed

subsection \<open>Windows that share a file\<close>

datatype cron_op =
  OpCreate string string bool bool | OpAdd CronJob | OpDelete string | OpRemove string | OpReset | OpTick

definition window_op :: "cron_env \<Rightarrow> cron_op \<Rightarrow> Scheduler \<times> job_file \<Rightarrow> Scheduler \<times> job_file" where
  "window_op E op st =
     (case op of
        OpCreate cron prompt rec dur \<Rightarrow> snd (Create E cron prompt rec dur st)
      | OpAdd job \<Rightarrow> snd (Add E job st)
      | OpDelete i \<Rightarrow> snd (Delete E i st)
      | OpRemove i \<Rightarrow> snd (Remove E i st)
      | OpReset \<Rightarrow> Reset E st
      | OpTick \<Rightarrow> snd (Tick E st))"

fun run_window :: "(cron_env \<times> cron_op) list \<Rightarrow> Scheduler \<times> job_file \<Rightarrow> Scheduler \<times> job_file" where
  "run_window [] st = st"
| "run_window ((E, op) # ops) st = run_window ops (window_op E op st)"

text \<open>A window that does not hold the job, never held it, and sees it in the file.\<close>

definition foreign :: "CronJob \<Rightarrow> Scheduler \<times> job_file \<Rightarrow> bool" where
  "foreign j st \<longleftrightarrow> cj_ID j \<notin> job_ids (fst st) \<and> cj_ID j \<notin> knownDurable (fst st)
     \<and> (\<exists>js. snd st = JobsFile js \<and> j \<in> set js) \<and> cj_expr j = None"

definition other_id :: "string \<Rightarrow> cron_env \<times> cron_op \<Rightarrow> bool" where
  "other_id i x = (case x of (E, op) \<Rightarrow> fresh_id E \<noteq> i \<and> (case op of OpAdd job \<Rightarrow> cj_ID job \<noteq> i | _ \<Rightarrow> True))"

lemma save_foreign: "foreign j st \<Longrightarrow> foreign j (saveDurable E st)"
  by (cases st) (force simp: foreign_def saveDurable_def Let_def job_ids_def foreignDurable_def)

lemma save_if_foreign: "foreign j st \<Longrightarrow> foreign j (save_if b E st)"
  by (simp add: save_if_def save_foreign)

lemma jobs_foreign:
  assumes "foreign j (s, fl)" and "set (gm_vals m) \<subseteq> insert x (set (gm_vals (sc_jobs s)))" and "cj_ID x \<noteq> cj_ID j"
  shows "foreign j (s\<lparr>sc_jobs := m\<rparr>, fl)"
  using assms by (auto simp: foreign_def job_ids_def)

lemma fewer_jobs_foreign:
  assumes "foreign j (s, fl)" and "cj_ID ` set (gm_vals m) \<subseteq> job_ids s"
  shows "foreign j (s\<lparr>sc_jobs := m\<rparr>, fl)"
  using assms by (auto simp: foreign_def job_ids_def)

lemma ticked_ids: "cj_ID ` set (gm_vals (ticked_jobs t (sc_jobs s))) \<subseteq> job_ids s"
proof -
  have "cj_ID ` set (gm_vals (ticked_jobs t (sc_jobs s)))
      \<subseteq> cj_ID ` set (gm_vals (List.map (\<lambda>(k, j). (k, snd (snd (tick_job t j)))) (sc_jobs s)))"
    unfolding ticked_jobs_def by (rule image_mono) (rule vals_del_all)
  also have "\<dots> = job_ids s"
    by (auto simp: job_ids_def gm_vals_def image_image case_prod_beta)
  finally show ?thesis .
qed

lemma apply_op_foreign:
  assumes f: "foreign j st" and "other_id (cj_ID j) (E, op)"
  shows "foreign j (window_op E op st)"
proof -
  obtain s fl where st: "st = (s, fl)" by (cases st)
  have put: "foreign j (s\<lparr>sc_jobs := gm_put k x (sc_jobs s)\<rparr>, fl)" if "cj_ID x \<noteq> cj_ID j" for k x
    using jobs_foreign [OF f [unfolded st] vals_put that] .
  have del: "foreign j (s\<lparr>sc_jobs := gm_del k (sc_jobs s)\<rparr>, fl)" for k
    by (rule fewer_jobs_foreign [OF f [unfolded st]]) (simp add: job_ids_def image_mono vals_del)
  show ?thesis
  proof (cases op)
    case OpCreate
    then show ?thesis using f put assms(2)
      by (auto simp: st window_op_def Create_def Let_def other_id_def intro!: save_if_foreign split: sum.splits)
  next
    case (OpAdd job)
    then show ?thesis using f put assms(2)
      by (auto simp: st window_op_def Add_def Let_def other_id_def intro!: save_if_foreign split: sum.splits)
  next
    case OpDelete
    then show ?thesis using f del
      by (auto simp: st window_op_def Delete_def intro!: save_if_foreign split: option.splits)
  next
    case OpRemove
    then show ?thesis using f del
      by (auto simp: st window_op_def Remove_def intro!: save_if_foreign split: option.splits)
  next
    case OpReset
    then show ?thesis using fewer_jobs_foreign [OF f [unfolded st], of gm_empty]
      by (auto simp: st window_op_def Reset_def gm_vals_def gm_empty_def intro!: save_foreign)
  next
    case OpTick
    have "foreign j (s\<lparr>sc_jobs := ticked_jobs (now E) (sc_jobs s)\<rparr>, fl)"
      by (rule fewer_jobs_foreign [OF f [unfolded st] ticked_ids])
    then show ?thesis using OpTick
      by (simp add: st window_op_def Tick_def Let_def ticked_jobs_def save_if_foreign)
  qed
qed

lemma run_window_foreign:
  "foreign j st \<Longrightarrow> \<forall>x \<in> set ops. other_id (cj_ID j) x \<Longrightarrow> foreign j (run_window ops st)"
  by (induction ops st rule: run_window.induct) (auto intro: apply_op_foreign)

text \<open>
  A durable job of another window survives: whatever a window does that does not hold the job
  -- creating, deleting, firing, resetting, with writes that succeed or fail -- the job stays in the
  shared file as the other window wrote it.
\<close>

theorem durable_jobs_of_other_windows_survive:
  assumes "cj_ID j \<notin> job_ids s" and "cj_ID j \<notin> knownDurable s" and "j \<in> set js" and "cj_expr j = None"
    and "\<forall>x \<in> set ops. other_id (cj_ID j) x"
  shows "\<exists>js'. snd (run_window ops (s, JobsFile js)) = JobsFile js' \<and> j \<in> set js'"
proof -
  have "foreign j (s, JobsFile js)" using assms(1-4) by (simp add: foreign_def)
  from run_window_foreign [OF this assms(5)] show ?thesis by (simp add: foreign_def)
qed

definition demo_env :: "int \<Rightarrow> string \<Rightarrow> cron_env" where
  "demo_env t i = \<lparr>now = t, fresh_id = i, write_ok = True\<rparr>"

theorem durable_jobs_of_other_windows_survive_witness:
  "\<exists>js'. snd (run_window [(demo_env 5 ''b'', OpCreate ''* * * * *'' ''q'' False True), (demo_env 6 ''x'', OpReset)]
       (demo_sched [], JobsFile [demo_job ''a'' ''* * * * *'' True 5])) = JobsFile js'
     \<and> demo_job ''a'' ''* * * * *'' True 5 \<in> set js'"
  by (rule durable_jobs_of_other_windows_survive)
    (auto simp: demo_sched_def job_ids_def gm_vals_def demo_job_def other_id_def demo_env_def)

text \<open>
  Two windows that both loaded a job at boot: the one deletes it, the next save of the other
  brings it back.
\<close>

lemma deleted_job_comes_back:
  "case LoadDurable (demo_env 9 []) (demo_sched [], JobsFile [demo_job ''a'' ''* * * * *'' False 5]) of
     (_, loaded, fl) \<Rightarrow>
       (case Delete (demo_env 9 []) ''a'' (loaded, fl) of
          (err, _, fl1) \<Rightarrow>
            err = None \<and> fl1 = JobsFile []
            \<and> (case saveDurable (demo_env 9 []) (loaded, fl1) of
                 (_, JobsFile js) \<Rightarrow> List.map cj_ID js = [''a''] | _ \<Rightarrow> False))"
  by code_simp

end
