(* ===== verification/Message.thy ===== *)
theory Message
  imports Prelude
begin

text \<open>
  Conversation messages (\<open>internal/core/message.go\<close>): the wire message, the view model the TUI
  renders and the mapping between them, the text rendered for summaries, the stripping of harness
  reminders and the compaction threshold.  The interleaving of inline images is in the theory
  \<open>Blocks\<close>.
\<close>

subsection \<open>Data\<close>

datatype Role = RoleUser | RoleAssistant | RoleNotice

datatype Signal = NoSignal | SigStop | SigCompact | OtherSignal string

record Image =
  img_MediaType :: string
  img_Data :: string
  img_FileName :: string
  img_Size :: int

record ToolCall =
  tc_ID :: string
  tc_Name :: string
  tc_Input :: string
  tc_ThoughtSignature :: string

record ReasoningItem =
  ri_ID :: string
  ri_EncryptedContent :: string
  ri_Summary :: string

record FileChangeDetails =
  fc_Path :: string
  fc_EditCount :: int
  fc_IsNewFile :: bool
  fc_AddedLines :: int
  fc_RemovedLines :: int
  fc_UnifiedDiff :: string
  fc_TruncatedDiffLines :: int

record BashDetails =
  bd_Error :: string
  bd_LineCount :: int

text \<open>The dynamic types that \<open>Details\<close> can have; the session layer knows two of them.\<close>

datatype details = NoDetails | FileChange FileChangeDetails | BashRun BashDetails | OtherDetails string

record ToolResult =
  tr_ToolCallID :: string
  tr_ToolName :: string
  tr_Content :: string
  tr_IsError :: bool
  tr_HookResponse :: gval
  tr_Details :: details

record Message =
  ID :: string
  MsgRole :: Role
  Content :: string
  DisplayContent :: string
  Images :: "Image list"
  Thinking :: string
  ThinkingSignature :: string
  Reasoning :: "ReasoningItem list"
  ToolCalls :: "ToolCall list"
  MsgToolResult :: "ToolResult option"
  MsgSignal :: Signal

record ReviewDecision =
  Approved :: bool
  DecisionReason :: string

record ChatMessage =
  cID :: string
  cRole :: Role
  cContent :: string
  cDisplayContent :: string
  cThinking :: string
  cThinkingSignature :: string
  cReasoning :: "ReasoningItem list"
  cImages :: "Image list"
  cToolCalls :: "ToolCall list"
  cToolResult :: "ToolResult option"
  ToolCallsExpanded :: bool
  Expanded :: bool
  Decision :: "ReviewDecision option"
  AutopilotNote :: string
  AgentNotice :: bool
  ContentCommittedLen :: int
  ThinkingCommittedLen :: int
  BulletEmitted :: bool
  ThinkingEmitted :: bool

subsection \<open>View model and wire message\<close>

definition ResetStreamCommit :: "ChatMessage \<Rightarrow> ChatMessage" where
  "ResetStreamCommit m = m\<lparr>ContentCommittedLen := 0, ThinkingCommittedLen := 0,
     BulletEmitted := False, ThinkingEmitted := False\<rparr>"

definition ToMessage :: "ChatMessage \<Rightarrow> Message" where
  "ToMessage c = \<lparr>ID = cID c, MsgRole = cRole c, Content = cContent c,
     DisplayContent = cDisplayContent c, Images = cImages c, Thinking = cThinking c,
     ThinkingSignature = cThinkingSignature c, Reasoning = cReasoning c, ToolCalls = cToolCalls c,
     MsgToolResult = cToolResult c, MsgSignal = NoSignal\<rparr>"

definition ToChat :: "Message \<Rightarrow> ChatMessage" where
  "ToChat m = \<lparr>cID = ID m, cRole = MsgRole m, cContent = Content m,
     cDisplayContent = DisplayContent m, cThinking = Thinking m,
     cThinkingSignature = ThinkingSignature m, cReasoning = Reasoning m, cImages = Images m,
     cToolCalls = ToolCalls m, cToolResult = MsgToolResult m,
     ToolCallsExpanded = False, Expanded = False, Decision = None, AutopilotNote = [],
     AgentNotice = False, ContentCommittedLen = 0, ThinkingCommittedLen = 0,
     BulletEmitted = False, ThinkingEmitted = False\<rparr>"

subsection \<open>Constructors\<close>

definition zero_message :: Message where
  "zero_message = \<lparr>ID = [], MsgRole = RoleUser, Content = [], DisplayContent = [], Images = [],
     Thinking = [], ThinkingSignature = [], Reasoning = [], ToolCalls = [], MsgToolResult = None,
     MsgSignal = NoSignal\<rparr>"

definition UserMessage :: "string \<Rightarrow> Image list \<Rightarrow> Message" where
  "UserMessage text images =
     zero_message\<lparr>MsgRole := RoleUser, Content := text, DisplayContent := text, Images := images\<rparr>"

definition AssistantMessage :: "string \<Rightarrow> string \<Rightarrow> ToolCall list \<Rightarrow> Message" where
  "AssistantMessage text thinking calls =
     zero_message\<lparr>MsgRole := RoleAssistant, Content := text, Thinking := thinking, ToolCalls := calls\<rparr>"

definition ErrorResult :: "ToolCall \<Rightarrow> string \<Rightarrow> ToolResult" where
  "ErrorResult tc content = \<lparr>tr_ToolCallID = tc_ID tc, tr_ToolName = tc_Name tc,
     tr_Content = content, tr_IsError = True, tr_HookResponse = GNil, tr_Details = NoDetails\<rparr>"

definition ToolResultMessage :: "ToolResult \<Rightarrow> Message" where
  "ToolResultMessage result = zero_message\<lparr>MsgRole := RoleUser, MsgToolResult := Some result\<rparr>"

subsection \<open>Harness reminders\<close>

definition systemReminderOpen :: string where
  "systemReminderOpen = ''<system-reminder''"

definition systemReminderClose :: string where
  "systemReminderClose = ''</system-reminder>''"

definition is_blank :: "char \<Rightarrow> bool" where
  "is_blank c = (c \<in> {CHR '' '', CHR 0x09, CHR 0x0D, CHR 0x0A})"

text \<open>One pass of the loop of \<open>stripSystemReminders\<close>: the cut content, or none at the break.\<close>

definition peel_reminder :: "string \<Rightarrow> string option" where
  "peel_reminder content =
     (let trimmed = trim_right_by is_blank content
      in if \<not> has_suffix trimmed systemReminderClose then None
         else map_option (\<lambda>open. take open trimmed) (last_index_of trimmed systemReminderOpen))"

lemma peel_reminder_shrinks: "peel_reminder content = Some c \<Longrightarrow> length c < length content"
proof -
  assume p: "peel_reminder content = Some c"
  define t where "t = trim_right_by is_blank content"
  obtain i where i: "last_index_of t systemReminderOpen = Some i" and c: "c = take i t"
    using p by (auto simp: peel_reminder_def Let_def t_def split: if_splits)
  have "i < length t"
    using last_index_of_Some [OF i] by (cases "i < length t") (auto simp: systemReminderOpen_def)
  then show ?thesis using c length_trim_right_by [of is_blank content] by (simp add: t_def)
qed

function strip_loop :: "string \<Rightarrow> string" where
  "strip_loop content =
     (case peel_reminder content of None \<Rightarrow> content | Some c \<Rightarrow> strip_loop c)"
  by pat_completeness auto

termination
  by (relation "measure length") (auto dest: peel_reminder_shrinks)

declare strip_loop.simps [simp del]

definition stripSystemReminders :: "string \<Rightarrow> string" where
  "stripSystemReminders content = trim_space (strip_loop content)"

subsection \<open>Conversation text\<close>

text \<open>The tally of tool names: first occurrences in order, each with its number of calls.\<close>

definition call_order :: "ToolCall list \<Rightarrow> string list" where
  "call_order calls =
     fold (\<lambda>tc order. if tc_Name tc \<in> set order then order else order @ [tc_Name tc]) calls []"

definition call_count :: "ToolCall list \<Rightarrow> string \<Rightarrow> nat" where
  "call_count calls name = length (filter (\<lambda>tc. tc_Name tc = name) calls)"

definition call_parts :: "ToolCall list \<Rightarrow> string list" where
  "call_parts calls =
     List.map (\<lambda>name. if call_count calls name = 1 then name
                      else name @ '' '' @ [CHR 0xC3, CHR 0x97] @ '' '' @ nat_str (call_count calls name))
       (call_order calls)"

definition nl :: string where "nl = [CHR 0x0A]"

text \<open>The pieces one message writes, in order.\<close>

definition message_text :: "bool \<Rightarrow> Message \<Rightarrow> string list" where
  "message_text stripReminders msg =
     (case MsgRole msg of
        RoleUser \<Rightarrow>
          (case MsgToolResult msg of
             Some r \<Rightarrow>
               (let content = (if 500 < length (tr_Content r)
                               then take 500 (tr_Content r) @ ''...[truncated]'' else tr_Content r)
                in [''[Tool Result: '' @ tr_ToolName r @ '']'' @ nl @ content @ nl @ nl])
           | None \<Rightarrow>
               (if stripReminders then
                  (let content = stripSystemReminders (Content msg)
                   in if content = [] then [] else [''User: '' @ content @ nl @ nl])
                else [''User: '' @ Content msg @ nl @ nl]))
      | RoleAssistant \<Rightarrow>
          (if Content msg \<noteq> [] then [''Assistant: '' @ Content msg @ nl @ nl] else [])
          @ (if ToolCalls msg \<noteq> []
             then [''[Tool Calls: '' @ join_str '', '' (call_parts (ToolCalls msg)) @ '']'' @ nl, nl]
             else [])
      | RoleNotice \<Rightarrow> [])"

definition writeConversationText :: "Message list \<Rightarrow> bool \<Rightarrow> string list" where
  "writeConversationText msgs stripReminders =
     (''Please summarize this coding conversation:'' @ nl @ nl)
     # concat (List.map (message_text stripReminders) msgs)"

text \<open>The two writers: a string builder and a byte counter.\<close>

definition buildConversationText :: "Message list \<Rightarrow> bool \<Rightarrow> string" where
  "buildConversationText msgs stripReminders =
     fold (\<lambda>p sb. sb @ p) (writeConversationText msgs stripReminders) []"

definition BuildConversationText :: "Message list \<Rightarrow> string" where
  "BuildConversationText msgs = buildConversationText msgs False"

definition BuildCompactionText :: "Message list \<Rightarrow> string" where
  "BuildCompactionText msgs = buildConversationText msgs True"

definition conversationTextLen :: "Message list \<Rightarrow> nat" where
  "conversationTextLen msgs = fold (\<lambda>p c. c + length p) (writeConversationText msgs False) 0"

fun last_assistant :: "ChatMessage list \<Rightarrow> string" where
  "last_assistant [] = []"
| "last_assistant (m # earlier) =
     (if cRole m = RoleAssistant \<and> cContent m \<noteq> [] then cContent m else last_assistant earlier)"

definition LastAssistantChatContent :: "ChatMessage list \<Rightarrow> string" where
  "LastAssistantChatContent msgs = last_assistant (rev msgs)"

subsection \<open>The compaction threshold\<close>

definition AutoCompactThresholdPercent :: int where
  "AutoCompactThresholdPercent = 95"

text \<open>
  The comparison \<open>float64(p)/float64(l)*100 >= 95\<close>, in exact arithmetic with the division
  cleared.
\<close>

definition NeedsCompaction :: "int \<Rightarrow> int \<Rightarrow> bool" where
  "NeedsCompaction promptTokens inputLimit =
     (if inputLimit = 0 \<or> promptTokens = 0 then False
      else if 0 < inputLimit then AutoCompactThresholdPercent * inputLimit \<le> promptTokens * 100
      else promptTokens * 100 \<le> AutoCompactThresholdPercent * inputLimit)"


subsection \<open>Properties\<close>

text \<open>
  The view model and the wire message carry the same content: a message sent to the view and
  back differs only in its control signal, a view-model entry sent to the wire and back loses
  exactly its display state.
\<close>

theorem chat_message_roundtrip:
  "ToMessage (ToChat m) = m\<lparr>MsgSignal := NoSignal\<rparr>
   \<and> ToChat (ToMessage c) = (ResetStreamCommit c)\<lparr>ToolCallsExpanded := False, Expanded := False,
        Decision := None, AutopilotNote := [], AgentNotice := False\<rparr>"
  by (simp add: ToMessage_def ToChat_def ResetStreamCommit_def)

lemma is_blank_space: "is_blank c \<Longrightarrow> is_space c"
  by (auto simp: is_blank_def is_space_def byte_of_def)

lemma trim_space_blank:
  assumes "\<forall>c \<in> set w. is_blank c"
  shows "trim_space (s @ w) = trim_space s"
proof -
  have sp: "\<forall>c \<in> set w. is_space c" using assms is_blank_space by blast
  show ?thesis
  proof (cases "\<forall>c \<in> set s. is_space c")
    case True
    then have d: "dropWhile is_space (s @ w) = []" "dropWhile is_space s = []"
      using sp by (simp_all only: dropWhile_eq_Nil_conv set_append) auto
    then show ?thesis by (simp only: trim_space_def trim_left_by_def d)
  next
    case False
    then have "dropWhile is_space (s @ w) = dropWhile is_space s @ w" by (auto simp: dropWhile_append)
    then show ?thesis by (simp add: trim_space_def trim_left_by_def trim_right_by_append [OF sp])
  qed
qed

lemma peel_reminder_blank: "\<forall>c \<in> set w. is_blank c \<Longrightarrow> peel_reminder (s @ w) = peel_reminder s"
  by (simp add: peel_reminder_def trim_right_by_append)

lemma strip_blank:
  assumes "\<forall>c \<in> set w. is_blank c"
  shows "stripSystemReminders (s @ w) = stripSystemReminders s"
proof (cases "peel_reminder s")
  case None
  then have "strip_loop s = s" "strip_loop (s @ w) = s @ w"
    using assms by (simp_all add: strip_loop.simps peel_reminder_blank)
  then show ?thesis by (simp add: stripSystemReminders_def trim_space_blank [OF assms])
next
  case (Some c)
  then have "strip_loop (s @ w) = strip_loop s"
    using assms by (subst (1 2) strip_loop.simps) (simp add: peel_reminder_blank)
  then show ?thesis by (simp add: stripSystemReminders_def)
qed

text \<open>A reminder block: its own opening tag is the only one, and it ends in the closing tag.\<close>

definition is_reminder :: "string \<Rightarrow> bool" where
  "is_reminder b =
     (has_prefix b systemReminderOpen \<and> has_suffix b systemReminderClose
      \<and> \<not> contains_str (tl b) systemReminderOpen)"

lemma has_suffix_append: "has_suffix b t \<Longrightarrow> has_suffix (s @ b) t"
  by (auto simp: has_suffix_iff)

lemma peel_one_reminder:
  assumes "is_reminder b"
  shows "peel_reminder (s @ b) = Some s"
proof -
  obtain c t where b: "b = c # t" using assms by (cases b) (auto simp: is_reminder_def systemReminderOpen_def)
  have suf: "has_suffix b systemReminderClose" using assms by (simp add: is_reminder_def)
  have "last b = CHR ''>''"
    using suf by (auto simp: has_suffix_iff systemReminderClose_def)
  then have trim: "trim_right_by is_blank (s @ b) = s @ b"
    by (intro trim_right_by_last) (simp add: b is_blank_def)
  have "last_index_of b systemReminderOpen = Some 0"
    using assms unfolding b is_reminder_def by (intro last_index_of_here) auto
  then have "last_index_of (s @ b) systemReminderOpen = Some (length s)"
    using last_index_of_append [of c t _ 0 s] by (simp add: b)
  then show ?thesis using has_suffix_append [OF suf] by (simp add: peel_reminder_def Let_def trim)
qed

lemma strip_one_reminder:
  "is_reminder b \<Longrightarrow> stripSystemReminders (s @ b) = stripSystemReminders s"
  unfolding stripSystemReminders_def by (subst strip_loop.simps) (simp add: peel_one_reminder)

lemma strip_appended:
  assumes "list_all (\<lambda>(w, b). list_all is_blank w \<and> is_reminder b) blocks"
  shows "stripSystemReminders (text @ concat (List.map (\<lambda>(w, b). w @ b) blocks))
       = stripSystemReminders text"
  using assms
proof (induction blocks rule: rev_induct)
  case Nil
  then show ?case by simp
next
  case (snoc x blocks)
  obtain w b where x: "x = (w, b)" by (cases x)
  let ?t = "text @ concat (List.map (\<lambda>(w, b). w @ b) blocks)"
  have "stripSystemReminders ((?t @ w) @ b) = stripSystemReminders (?t @ w)"
    using snoc.prems x by (intro strip_one_reminder) simp
  also have "\<dots> = stripSystemReminders ?t"
    using snoc.prems x by (intro strip_blank) (simp add: list_all_iff)
  also have "\<dots> = stripSystemReminders text" using snoc by simp
  finally show ?case by (simp add: x)
qed

text \<open>
  Reminders never reach a summary: whatever reminder blocks the harness appended after the
  user's own text, with any blanks between and after them, stripping gives what stripping the
  bare text gives; and a text that does not end in a closing tag only loses its outer blanks, so
  a reminder quoted in the middle of the user's prose survives.
\<close>

theorem appended_reminders_are_stripped:
  assumes "list_all (\<lambda>(w, b). list_all is_blank w \<and> is_reminder b) blocks"
    and "list_all is_blank trail"
  shows "stripSystemReminders (text @ concat (List.map (\<lambda>(w, b). w @ b) blocks) @ trail)
      = stripSystemReminders text
    \<and> (has_suffix (trim_right_by is_blank text) systemReminderClose
       \<or> stripSystemReminders text = trim_space text)"
proof
  have "\<forall>c \<in> set trail. is_blank c" using assms(2) by (simp add: list_all_iff)
  from strip_blank [OF this] show "stripSystemReminders
      (text @ concat (List.map (\<lambda>(w, b). w @ b) blocks) @ trail) = stripSystemReminders text"
    using strip_appended [OF assms(1)] by (metis append.assoc)
next
  show "has_suffix (trim_right_by is_blank text) systemReminderClose
       \<or> stripSystemReminders text = trim_space text"
    by (cases "has_suffix (trim_right_by is_blank text) systemReminderClose")
      (simp_all add: stripSystemReminders_def strip_loop.simps peel_reminder_def)
qed

theorem appended_reminders_are_stripped_witness:
  "stripSystemReminders ''fix it <system-reminder>x</system-reminder> </system-reminder> ''
   = stripSystemReminders ''fix it''"
proof -
  have "list_all (\<lambda>(w, b). list_all is_blank w \<and> is_reminder b)
      [('' '', ''<system-reminder>x</system-reminder> </system-reminder>'')]" by code_simp
  moreover have "list_all is_blank '' ''" by code_simp
  ultimately show ?thesis
    using appended_reminders_are_stripped [of "[('' '', ''<system-reminder>x</system-reminder> </system-reminder>'')]" "'' ''" "''fix it''"]
    by simp
qed

text \<open>
  The size estimate counts exactly the text it stands for: the byte counter and the string
  builder agree on every conversation.
\<close>

theorem conversationTextLen_correct: "conversationTextLen msgs = length (BuildConversationText msgs)"
proof -
  have "length (fold (\<lambda>p sb. sb @ p) ps acc) = fold (\<lambda>p c. c + length p) ps (length acc)" for ps acc
    by (induction ps arbitrary: acc) simp_all
  from this [of "writeConversationText msgs False" "[]"] show ?thesis
    by (simp add: conversationTextLen_def BuildConversationText_def buildConversationText_def)
qed

text \<open>
  The compaction trigger is monotone in the prompt size, never fires below 95 percent of a
  positive limit and always fires from there on.
\<close>

theorem NeedsCompaction_threshold:
  assumes "0 < inputLimit" and "0 \<le> p"
  shows "(NeedsCompaction p inputLimit \<longleftrightarrow> 95 * inputLimit \<le> 100 * p)
     \<and> (NeedsCompaction p inputLimit \<and> p \<le> q \<longrightarrow> NeedsCompaction q inputLimit)"
  using assms by (auto simp: NeedsCompaction_def AutoCompactThresholdPercent_def)

theorem NeedsCompaction_threshold_witness: "NeedsCompaction 190 200 \<and> \<not> NeedsCompaction 189 200"
  using NeedsCompaction_threshold [of 200 190 190] NeedsCompaction_threshold [of 200 189 189] by simp

end
