(* ===== verification/AgentTurn.thy ===== *)
theory AgentTurn
  imports Message
begin

text \<open>
  One turn of the agent (\<open>internal/core/agent_impl.go\<close>): the inference-action cycle \<open>ThinkAct\<close>
  with its retries, its compaction and its tool batches.

  What the loop talks to -- the language model, the tools, the inbox channel, the cancellation
  context, the clock -- is the record \<open>env\<close> of functions over a world \<open>'w\<close> that each of them
  may change; a theorem about every \<open>env\<close> is a theorem about every order in which messages arrive,
  cancellations land and streams fail.  An error is a record of what the code asks of it
  (\<open>errors.Is\<close> and \<open>errors.As\<close>).  The events are those \<open>onEvent\<close> sees, in order; the bounded
  outbox, which carries the same events to the TUI, is left out, and so are digests and contexts
  handed through.
\<close>

subsection \<open>Data\<close>

record err =
  err_msg :: string
  is_canceled :: bool
  context_exceeded :: bool
  retry_after :: "int option"

datatype StopReason =
  StopEndTurn | StopMaxTokens | StopToolUse | StopMaxSteps | StopCancelled | StopHook
| StopMaxOutputRecoveryExhausted | StopError | OtherStop string

record InferResponse =
  r_Content :: string
  r_Thinking :: string
  r_ThinkingSignature :: string
  r_Reasoning :: "ReasoningItem list"
  r_ToolCalls :: "ToolCall list"
  r_StopReason :: StopReason
  r_InputTokens :: int
  r_OutputTokens :: int
  r_CacheReadTokens :: int

record Chunk =
  ch_Text :: string
  ch_Thinking :: string
  ch_Done :: bool
  ch_Response :: "InferResponse option"
  ch_Err :: "err option"

record Result =
  res_Content :: string
  res_Messages :: "Message list"
  res_Steps :: int
  res_ToolUses :: int
  res_InputTokens :: int
  res_OutputTokens :: int
  res_StopReason :: StopReason
  res_StopDetail :: string

record CompactInfo =
  ci_Summary :: string
  ci_OriginalCount :: nat
  ci_SummaryMessageID :: string
  ci_Trigger :: string

datatype event =
  EvStart | EvStop "err option" | EvMessage Message | EvAppend Message
| EvPreInfer "string list" | EvPostInfer InferResponse | EvChunk Chunk | EvStreamReset
| EvPreTool ToolCall | EvPostTool ToolResult
| EvCompactStart nat | EvCompact CompactInfo | EvTurn Result

text \<open>What wakes the select of the stream loop, and what a non-blocking receive finds.\<close>

datatype stream_event = StreamChunk Chunk | ChanClosed "err option" | IdleFired | CtxDone err

datatype poll = Empty | Closed | Received Message

datatype tool_run = Returned string "err option" | Panicked string

record 'w env =
  ctx_err :: "'w \<Rightarrow> err option \<times> 'w"
  poll_inbox :: "'w \<Rightarrow> poll \<times> 'w"
  max_steps :: "'w \<Rightarrow> int"
  system_prompt :: "'w \<Rightarrow> string"
  input_limit :: "'w \<Rightarrow> int"
  compactFunc :: "(Message list \<Rightarrow> 'w \<Rightarrow> (err + string) \<times> 'w) option"
  infer :: "Message list \<Rightarrow> 'w \<Rightarrow> (err + stream_event list) \<times> 'w"
  known_tool :: "string \<Rightarrow> bool"
  tool_Execute :: "ToolCall \<Rightarrow> 'w \<Rightarrow> tool_run \<times> 'w"
  schedule :: "'w \<Rightarrow> nat list \<times> 'w"
  BackoffSleep :: "nat \<Rightarrow> int \<Rightarrow> 'w \<Rightarrow> err option \<times> 'w"
  NewMessageID :: "'w \<Rightarrow> string \<times> 'w"
  json_ok :: "string \<Rightarrow> bool"
  maxOutputRecovery :: int
  maxTurnRetries :: int

record 'w agent =
  messages :: "Message list"
  lastTotalInputTokens :: int
  events :: "event list"
  world :: 'w

text \<open>An interaction with the outside: it reads and changes the world only.\<close>

definition ask :: "('w \<Rightarrow> 'r \<times> 'w) \<Rightarrow> 'w agent \<Rightarrow> 'r \<times> 'w agent" where
  "ask f a = (let (r, w) = f (world a) in (r, a\<lparr>world := w\<rparr>))"

definition emit :: "event \<Rightarrow> 'w agent \<Rightarrow> 'w agent" where
  "emit e a = a\<lparr>events := events a @ [e]\<rparr>"

definition errStopped :: err where
  "errStopped = \<lparr>err_msg = ''stopped'', is_canceled = False, context_exceeded = False, retry_after = None\<rparr>"

definition errStreamStalled :: err where
  "errStreamStalled = \<lparr>err_msg = ''stream stalled (no data within idle timeout)'', is_canceled = False,
     context_exceeded = False, retry_after = Some 0\<rparr>"

definition errStreamTruncated :: err where
  "errStreamTruncated = \<lparr>err_msg = ''stream closed before completion'', is_canceled = False,
     context_exceeded = False, retry_after = Some 0\<rparr>"

text \<open>\<open>fmt.Errorf("infer: %w", err)\<close>: a wrapped error answers the same questions.\<close>

definition wrap_infer :: "err \<Rightarrow> err" where
  "wrap_infer e = e\<lparr>err_msg := ''infer: '' @ err_msg e\<rparr>"

definition TotalInputTokens :: "InferResponse \<Rightarrow> int" where
  "TotalInputTokens r = r_InputTokens r + r_CacheReadTokens r"

subsection \<open>The conversation\<close>

definition append_msg :: "'w env \<Rightarrow> Message \<Rightarrow> 'w agent \<Rightarrow> 'w agent" where
  "append_msg E msg a =
     (let (msg, a) = (if ID msg = [] then (let (i, a) = ask (NewMessageID E) a in (msg\<lparr>ID := i\<rparr>, a))
                      else (msg, a))
      in emit (EvAppend msg) (a\<lparr>messages := messages a @ [msg]\<rparr>))"

definition appendResult :: "'w env \<Rightarrow> ToolCall \<Rightarrow> string \<Rightarrow> bool \<Rightarrow> 'w agent \<Rightarrow> 'w agent" where
  "appendResult E tc content isError =
     append_msg E (zero_message\<lparr>MsgRole := RoleUser, MsgToolResult :=
       Some \<lparr>tr_ToolCallID = tc_ID tc, tr_ToolName = tc_Name tc, tr_Content = content,
            tr_IsError = isError, tr_HookResponse = GNil, tr_Details = NoDetails\<rparr>\<rparr>)"

definition CompactSummaryPrefix :: string where
  "CompactSummaryPrefix = ''Previous context:'' @ nl"

definition FormatCompactSummary :: "string \<Rightarrow> string" where
  "FormatCompactSummary summary = CompactSummaryPrefix @ summary"

definition IsCompactSummary :: "string \<Rightarrow> bool" where
  "IsCompactSummary content = has_prefix content CompactSummaryPrefix"

definition applyCompaction :: "'w env \<Rightarrow> string \<Rightarrow> nat \<Rightarrow> string \<Rightarrow> 'w agent \<Rightarrow> 'w agent" where
  "applyCompaction E summary originalCount trigger a =
     (let (i, a) = ask (NewMessageID E) a;
          summaryMsg = (UserMessage (FormatCompactSummary summary) [])\<lparr>ID := i\<rparr>;
          a = a\<lparr>messages := [summaryMsg], lastTotalInputTokens := 0\<rparr>
      in emit (EvCompact \<lparr>ci_Summary = summary, ci_OriginalCount = originalCount,
                ci_SummaryMessageID = i, ci_Trigger = trigger\<rparr>) (emit (EvAppend summaryMsg) a))"

definition compact :: "'w env \<Rightarrow> (Message list \<Rightarrow> 'w \<Rightarrow> (err + string) \<times> 'w) \<Rightarrow> 'w agent \<Rightarrow> bool \<times> 'w agent" where
  "compact E compactFn a =
     (let msgs = messages a
      in if length msgs < 3 then (False, a)
         else (let (r, a) = ask (compactFn msgs) (emit (EvCompactStart (length msgs)) a)
               in case r of
                    Inl e \<Rightarrow> (False, a)
                  | Inr summary \<Rightarrow>
                      (if summary = [] then (False, a)
                       else (True, applyCompaction E summary (length msgs) ''auto'' a))))"

text \<open>\<open>compact\<close> behind the test \<open>compactFunc != nil\<close>.\<close>

definition try_compact :: "'w env \<Rightarrow> bool \<Rightarrow> 'w agent \<Rightarrow> bool \<times> 'w agent" where
  "try_compact E wanted a =
     (case compactFunc E of
        None \<Rightarrow> (False, a)
      | Some compactFn \<Rightarrow> (if wanted then compact E compactFn a else (False, a)))"

definition ingest :: "'w env \<Rightarrow> Message \<Rightarrow> 'w agent \<Rightarrow> bool \<times> 'w agent" where
  "ingest E msg a =
     (if MsgSignal msg = SigCompact
        then (False, applyCompaction E (Content msg) (length (messages a)) ''manual'' a)
      else (let a = emit (EvMessage msg) a
            in if MsgSignal msg = NoSignal then (True, append_msg E msg a) else (False, a)))"

definition drainInbox :: "'w env \<Rightarrow> 'w agent \<Rightarrow> (err + bool) \<times> 'w agent" where
  "drainInbox E a =
     (let (p, a) = ask (poll_inbox E) a
      in case p of
           Empty \<Rightarrow> (Inr False, a)
         | Closed \<Rightarrow> (Inl errStopped, a)
         | Received msg \<Rightarrow>
             (if MsgSignal msg = SigStop then (Inl errStopped, a)
              else (let (startsTurn, a) = ingest E msg a in (Inr startsTurn, a))))"

subsection \<open>Inference\<close>

text \<open>
  The select loop over the stream.  The idle timer is always armed, so a stream that delivers
  nothing more ends with the timer.
\<close>

fun stream_loop :: "stream_event list \<Rightarrow> InferResponse option \<Rightarrow> 'w agent \<Rightarrow> (err + InferResponse) \<times> 'w agent" where
  "stream_loop [] resp a = (Inl errStreamStalled, a)"
| "stream_loop (IdleFired # es) resp a = (Inl errStreamStalled, a)"
| "stream_loop (CtxDone e # es) resp a = (Inl e, a)"
| "stream_loop (ChanClosed c # es) resp a =
     (case c of
        Some e \<Rightarrow> (Inl e, a)
      | None \<Rightarrow> (case resp of None \<Rightarrow> (Inl errStreamTruncated, a) | Some r \<Rightarrow> (Inr r, a)))"
| "stream_loop (StreamChunk chunk # es) resp a =
     (case ch_Err chunk of
        Some e \<Rightarrow> (Inl (wrap_infer e), a)
      | None \<Rightarrow>
          stream_loop es (if ch_Done chunk then ch_Response chunk else resp)
            (if ch_Text chunk \<noteq> [] \<or> ch_Thinking chunk \<noteq> [] \<or> ch_Done chunk
             then emit (EvChunk chunk) a else a))"

definition streamInfer :: "'w env \<Rightarrow> 'w agent \<Rightarrow> (err + InferResponse) \<times> 'w agent" where
  "streamInfer E a =
     (let a = emit (EvPreInfer (List.map ID (messages a))) a;
          (r, a) = ask (infer E (messages a)) a
      in case r of
           Inl e \<Rightarrow> (Inl (wrap_infer e), a)
         | Inr es \<Rightarrow> stream_loop es None a)"

definition promptTokensOrEstimate :: "'w env \<Rightarrow> 'w agent \<Rightarrow> int" where
  "promptTokensOrEstimate E a =
     (if 0 < lastTotalInputTokens a then lastTotalInputTokens a
      else int (length (system_prompt E (world a)) + conversationTextLen (messages a)) div 4)"

subsection \<open>Tools\<close>

definition isReadOnlyToolCall :: "string \<Rightarrow> bool" where
  "isReadOnlyToolCall name = (name \<in> {''Read'', ''WebFetch'', ''WebSearch'', ''LSP''})"

definition isAgentSpawnToolCall :: "string \<Rightarrow> bool" where
  "isAgentSpawnToolCall name = (name = ''Agent'' \<or> name = ''SendMessage'')"

definition isParallelSafeToolCall :: "string \<Rightarrow> bool" where
  "isParallelSafeToolCall name = (isReadOnlyToolCall name \<or> isAgentSpawnToolCall name)"

definition anyTruncatedToolInput :: "'w env \<Rightarrow> ToolCall list \<Rightarrow> bool" where
  "anyTruncatedToolInput E calls =
     list_ex (\<lambda>tc. trim_space (tc_Input tc) = [] \<or> \<not> json_ok E (trim_space (tc_Input tc))) calls"

type_synonym toolTaskOutput = "string \<times> err option"

text \<open>\<open>executeToolTask\<close>: a panic of the tool is recovered into an error.\<close>

definition executeToolTask :: "'w env \<Rightarrow> ToolCall \<Rightarrow> 'w agent \<Rightarrow> toolTaskOutput \<times> 'w agent" where
  "executeToolTask E tc a =
     (let (r, a) = ask (tool_Execute E tc) (emit (EvPreTool tc) a)
      in case r of
           Returned content e \<Rightarrow> ((content, e), a)
         | Panicked why \<Rightarrow>
             (([], Some \<lparr>err_msg = ''tool '' @ tc_Name tc @ '' panicked: '' @ why, is_canceled = False,
                       context_exceeded = False, retry_after = None\<rparr>), a))"

text \<open>
  Phase 1: resolve.  A cancelled context ends the loop; an unknown tool is answered at once.
\<close>

fun resolve_tools :: "'w env \<Rightarrow> ToolCall list \<Rightarrow> ToolCall list \<Rightarrow> 'w agent \<Rightarrow> ToolCall list \<times> 'w agent" where
  "resolve_tools E [] tasks a = (tasks, a)"
| "resolve_tools E (tc # tcs) tasks a =
     (let (c, a) = ask (ctx_err E) a
      in if c \<noteq> None then (tasks, a)
         else if \<not> known_tool E (tc_Name tc)
           then resolve_tools E tcs tasks
                  (appendResult E tc (''unknown tool: '' @ tc_Name tc) True (emit (EvPreTool tc) a))
           else resolve_tools E tcs (tasks @ [tc]) a)"

text \<open>
  Phase 2: the parallel-safe tasks run in goroutines of their own and the others in one more, in
  their order.  A choice list picks the order in which the tasks take effect: at each turn the
  head of the serial queue, or any of the parallel tasks still to run.
\<close>

fun interleave :: "nat list \<Rightarrow> nat list \<Rightarrow> nat list \<Rightarrow> (bool \<times> nat) list" where
  "interleave (k # ks) par ser =
     (if k = 0 \<or> par = [] then
        (case ser of
           [] \<Rightarrow> List.map (Pair False) par
         | s # ser' \<Rightarrow> (True, s) # interleave ks par ser')
      else (let p = par ! (k mod length par)
            in (False, p) # interleave ks (removeAll p par) ser))"
| "interleave [] par ser = List.map (Pair False) par @ List.map (Pair True) ser"

fun run_tasks :: "'w env \<Rightarrow> ToolCall list \<Rightarrow> (bool \<times> nat) list \<Rightarrow> toolTaskOutput list \<Rightarrow> 'w agent
    \<Rightarrow> toolTaskOutput list \<times> 'w agent" where
  "run_tasks E tasks [] results a = (results, a)"
| "run_tasks E tasks ((serial, i) # order) results a =
     (let (c, a) = (if serial then ask (ctx_err E) a else (None, a))
      in case c of
           Some e \<Rightarrow> run_tasks E tasks order (results[i := ([], Some e)]) a
         | None \<Rightarrow> (let (r, a) = executeToolTask E (tasks ! i) a
                    in run_tasks E tasks order (results[i := r]) a))"

definition run_batch :: "'w env \<Rightarrow> ToolCall list \<Rightarrow> 'w agent \<Rightarrow> toolTaskOutput list \<times> 'w agent" where
  "run_batch E tasks a =
     (case tasks of
        [tc] \<Rightarrow> (let (r, a) = executeToolTask E tc a in ([r], a))
      | _ \<Rightarrow>
          (let idx = [0 ..< length tasks];
               parallelIdx = filter (\<lambda>i. isParallelSafeToolCall (tc_Name (tasks ! i))) idx;
               serialIdx = filter (\<lambda>i. \<not> isParallelSafeToolCall (tc_Name (tasks ! i))) idx;
               (choices, a) = ask (schedule E) a
           in run_tasks E tasks (interleave choices parallelIdx serialIdx)
                (replicate (length tasks) ([], None)) a))"

text \<open>Phase 3: record the results in call order, until a cancellation is seen.\<close>

fun record_results :: "'w env \<Rightarrow> (ToolCall \<times> toolTaskOutput) list \<Rightarrow> int \<Rightarrow> 'w agent \<Rightarrow> int \<times> 'w agent" where
  "record_results E [] toolUses a = (toolUses, a)"
| "record_results E ((tc, content, e) # rest) toolUses a =
     (let (c, a) = ask (ctx_err E) a
      in if c \<noteq> None then (toolUses, a)
         else (let text = (case e of Some x \<Rightarrow> err_msg x | None \<Rightarrow> content);
                   post = \<lparr>tr_ToolCallID = tc_ID tc, tr_ToolName = tc_Name tc, tr_Content = text,
                      tr_IsError = (e \<noteq> None), tr_HookResponse = GNil, tr_Details = NoDetails\<rparr>
               in record_results E rest (if e = None then toolUses + 1 else toolUses)
                    (emit (EvPostTool post) (appendResult E tc text (e \<noteq> None) a))))"

definition execTools :: "'w env \<Rightarrow> ToolCall list \<Rightarrow> 'w agent \<Rightarrow> int \<times> 'w agent" where
  "execTools E calls a =
     (let (tasks, a) = resolve_tools E calls [] a
      in if tasks = [] then (0, a)
         else (let (results, a) = run_batch E tasks a
               in record_results E (zip tasks results) 0 a))"

subsection \<open>The turn\<close>

record turn =
  steps :: int
  toolUses :: int
  tokensIn :: int
  tokensOut :: int
  maxOutputRecoveryCount :: int
  turnRetries :: int
  lastContent :: string

definition new_turn :: turn where
  "new_turn = \<lparr>steps = 0, toolUses = 0, tokensIn = 0, tokensOut = 0, maxOutputRecoveryCount = 0,
     turnRetries = 0, lastContent = []\<rparr>"

definition makeResult :: "turn \<Rightarrow> StopReason \<Rightarrow> 'w agent \<Rightarrow> Result" where
  "makeResult t stop a = \<lparr>res_Content = lastContent t, res_Messages = messages a,
     res_Steps = steps t, res_ToolUses = toolUses t, res_InputTokens = tokensIn t,
     res_OutputTokens = tokensOut t, res_StopReason = stop, res_StopDetail = []\<rparr>"

datatype 'w outcome =
  Again turn "'w agent"
| Finish "Result option" "err option" "'w agent"

definition TruncatedResumePrompt :: string where
  "TruncatedResumePrompt = ''Your response was truncated due to output token limits. Resume directly from where you left off. Do not repeat any content.''"

definition TruncatedToolCallResumePrompt :: string where
  "TruncatedToolCallResumePrompt = ''Your previous tool call arguments were truncated due to output token limits. Reissue any incomplete tool calls with complete, valid JSON arguments. Do not repeat successful tool results.''"

definition recovery_limit :: "'w env \<Rightarrow> int" where
  "recovery_limit E = (if maxOutputRecovery E \<le> 0 then 3 else maxOutputRecovery E)"

text \<open>Both recoveries of a truncated output: give up at the limit, else inject the prompt.\<close>

definition recover_output :: "'w env \<Rightarrow> string \<Rightarrow> turn \<Rightarrow> 'w agent \<Rightarrow> 'w outcome" where
  "recover_output E prompt t a =
     (if recovery_limit E \<le> maxOutputRecoveryCount t
        then Finish (Some (makeResult t StopMaxOutputRecoveryExhausted a)) None a
      else Again (t\<lparr>maxOutputRecoveryCount := maxOutputRecoveryCount t + 1\<rparr>)
             (append_msg E (zero_message\<lparr>MsgRole := RoleUser, Content := prompt\<rparr>) a))"

text \<open>The failure branch of a step.\<close>

definition infer_failed :: "'w env \<Rightarrow> err \<Rightarrow> turn \<Rightarrow> 'w agent \<Rightarrow> 'w outcome" where
  "infer_failed E e t a =
     (let (compacted, a) = try_compact E (context_exceeded e) a
      in if compacted then Again t a
         else if is_canceled e then Finish (Some (makeResult t StopCancelled a)) (Some e) a
         else case retry_after e of
                Some floor \<Rightarrow>
                  (if turnRetries t < maxTurnRetries E then
                     (let t = t\<lparr>turnRetries := turnRetries t + 1\<rparr>;
                          (w, a) = ask (BackoffSleep E (nat (turnRetries t)) floor) (emit EvStreamReset a)
                      in case w of
                           Some werr \<Rightarrow> Finish (Some (makeResult t StopCancelled a)) (Some werr) a
                         | None \<Rightarrow> Again t a)
                   else Finish (Some ((makeResult t StopError a)\<lparr>res_StopDetail := err_msg e\<rparr>)) (Some e) a)
              | None \<Rightarrow> Finish (Some ((makeResult t StopError a)\<lparr>res_StopDetail := err_msg e\<rparr>)) (Some e) a)"

text \<open>The success branch: account for the response, append it, act on it.\<close>

definition assistant_of :: "InferResponse \<Rightarrow> Message" where
  "assistant_of resp = zero_message\<lparr>MsgRole := RoleAssistant, Content := r_Content resp,
     Thinking := r_Thinking resp, ThinkingSignature := r_ThinkingSignature resp,
     Reasoning := r_Reasoning resp, ToolCalls := r_ToolCalls resp\<rparr>"

definition account :: "InferResponse \<Rightarrow> turn \<Rightarrow> turn" where
  "account resp t = t\<lparr>turnRetries := 0, steps := steps t + 1,
     tokensIn := tokensIn t + r_InputTokens resp, tokensOut := tokensOut t + r_OutputTokens resp,
     lastContent := r_Content resp\<rparr>"

definition take_response :: "'w env \<Rightarrow> InferResponse \<Rightarrow> 'w agent \<Rightarrow> 'w agent" where
  "take_response E resp a =
     append_msg E (assistant_of resp)
       (emit (EvPostInfer resp) (a\<lparr>lastTotalInputTokens := TotalInputTokens resp\<rparr>))"

definition infer_succeeded :: "'w env \<Rightarrow> InferResponse \<Rightarrow> turn \<Rightarrow> 'w agent \<Rightarrow> 'w outcome" where
  "infer_succeeded E resp t a =
     (let t = account resp t; a = take_response E resp a
      in if r_StopReason resp = StopMaxTokens \<and> r_ToolCalls resp = []
           then recover_output E TruncatedResumePrompt t a
         else if r_ToolCalls resp = [] then Finish (Some (makeResult t StopEndTurn a)) None a
         else (let (n, a) = execTools E (r_ToolCalls resp) a;
                   t = t\<lparr>toolUses := toolUses t + n\<rparr>
               in if r_StopReason resp = StopMaxTokens \<and> anyTruncatedToolInput E (r_ToolCalls resp)
                    then recover_output E TruncatedToolCallResumePrompt t a
                  else Again t a))"

definition infer_step :: "'w env \<Rightarrow> turn \<Rightarrow> 'w agent \<Rightarrow> 'w outcome" where
  "infer_step E t a =
     (let limit = input_limit E (world a);
          (compacted, a) = try_compact E (0 < limit \<and> NeedsCompaction (promptTokensOrEstimate E a) limit) a
      in if compacted then Again t a
         else (let (r, a) = streamInfer E a
               in case r of
                    Inl e \<Rightarrow> infer_failed E e t a
                  | Inr resp \<Rightarrow> infer_succeeded E resp t a))"

text \<open>One pass of the loop of \<open>ThinkAct\<close>.\<close>

definition turn_step :: "'w env \<Rightarrow> turn \<Rightarrow> 'w agent \<Rightarrow> 'w outcome" where
  "turn_step E t a =
     (let (c, a) = ask (ctx_err E) a
      in case c of
           Some e \<Rightarrow> Finish (Some (makeResult t StopCancelled a)) (Some e) a
         | None \<Rightarrow>
             (if 0 < max_steps E (world a) \<and> max_steps E (world a) \<le> steps t
                then Finish (Some (makeResult t StopMaxSteps a)) None a
              else if 0 < steps t then
                (let (d, a) = drainInbox E a
                 in case d of
                      Inl e \<Rightarrow> Finish None (Some e) a
                    | Inr _ \<Rightarrow> infer_step E t a)
              else infer_step E t a))"

text \<open>The loop, with fuel: \<open>None\<close> when the fuel runs out first.\<close>

fun turn_loop :: "nat \<Rightarrow> 'w env \<Rightarrow> turn \<Rightarrow> 'w agent \<Rightarrow> ((Result option \<times> err option) \<times> 'w agent) option" where
  "turn_loop 0 E t a = None"
| "turn_loop (Suc n) E t a =
     (case turn_step E t a of
        Again t a \<Rightarrow> turn_loop n E t a
      | Finish r e a \<Rightarrow> Some ((r, e), a))"

definition ThinkAct :: "nat \<Rightarrow> 'w env \<Rightarrow> 'w agent \<Rightarrow> ((Result option \<times> err option) \<times> 'w agent) option" where
  "ThinkAct fuel E a = turn_loop fuel E new_turn a"

end
