(* ===== verification/AgentTurnProps.thy ===== *)
theory AgentTurnProps
  imports AgentTurn Collections
begin

text \<open>
  What a turn guarantees: the accounting of steps and tokens, the table of outcomes, termination
  under a step cap, and the answers of a tool batch.
\<close>

subsection \<open>Inferences recorded in a trace\<close>

text \<open>The events that mark a turn's progress: inferences, and the boundaries \<open>Run\<close> emits.\<close>

definition is_mark :: "event \<Rightarrow> bool" where
  "is_mark e = (case e of EvPostInfer _ \<Rightarrow> True | EvStart \<Rightarrow> True | EvStop _ \<Rightarrow> True | EvTurn _ \<Rightarrow> True
     | _ \<Rightarrow> False)"

definition marks :: "event list \<Rightarrow> event list" where
  "marks evs = filter is_mark evs"

definition responses :: "event list \<Rightarrow> InferResponse list" where
  "responses evs = concat (List.map (\<lambda>e. case e of EvPostInfer r \<Rightarrow> [r] | _ \<Rightarrow> []) evs)"

definition infers :: "event list \<Rightarrow> InferResponse list" where
  [simp]: "infers evs = responses (marks evs)"

lemma marks_simps [simp]:
  "marks (xs @ ys) = marks xs @ marks ys" "marks [] = []"
  "marks (e # es) = (if is_mark e then e # marks es else marks es)"
  by (simp_all add: marks_def)

lemma is_mark_simps [simp]:
  "is_mark (EvPostInfer r)" "is_mark EvStart" "is_mark (EvStop e)" "is_mark (EvTurn x)"
  "\<not> is_mark (EvMessage m)" "\<not> is_mark (EvAppend m)" "\<not> is_mark (EvPreInfer ids)"
  "\<not> is_mark (EvChunk c)" "\<not> is_mark EvStreamReset" "\<not> is_mark (EvPreTool tc)"
  "\<not> is_mark (EvPostTool tr)" "\<not> is_mark (EvCompactStart n)" "\<not> is_mark (EvCompact ci)"
  by (simp_all add: is_mark_def)

lemma responses_simps [simp]:
  "responses (xs @ ys) = responses xs @ responses ys" "responses [] = []"
  "responses (e # es) = (case e of EvPostInfer r \<Rightarrow> [r] | _ \<Rightarrow> []) @ responses es"
  by (simp_all add: responses_def)

lemma emit_simps [simp]:
  "messages (emit e a) = messages a" "world (emit e a) = world a" "events (emit e a) = events a @ [e]"
  "lastTotalInputTokens (emit e a) = lastTotalInputTokens a"
  by (simp_all add: emit_def)

lemma ask_simps [simp]:
  "messages (snd (ask f a)) = messages a" "events (snd (ask f a)) = events a"
  "lastTotalInputTokens (snd (ask f a)) = lastTotalInputTokens a"
  "world (snd (ask f a)) = snd (f (world a))" "fst (ask f a) = fst (f (world a))"
  by (simp_all add: ask_def split: prod.split)

lemma append_msg_state [simp]:
  "marks (events (append_msg E m a)) = marks (events a)"
  "length (messages (append_msg E m a)) = Suc (length (messages a))"
  by (simp_all add: append_msg_def Let_def split_def)

lemma applyCompaction_state [simp]:
  "marks (events (applyCompaction E s n tr a)) = marks (events a)"
  "length (messages (applyCompaction E s n tr a)) = 1"
  "lastTotalInputTokens (applyCompaction E s n tr a) = 0"
  by (simp_all add: applyCompaction_def Let_def split_def)

lemma appendResult_state [simp]:
  "marks (events (appendResult E tc s b a)) = marks (events a)"
  by (simp add: appendResult_def)

lemma compact_state:
  "marks (events (snd (compact E f a))) = marks (events a)"
  "fst (compact E f a) \<Longrightarrow> length (messages (snd (compact E f a))) < length (messages a)"
  "\<not> fst (compact E f a) \<Longrightarrow> messages (snd (compact E f a)) = messages a"
  by (auto simp: compact_def Let_def split_def split: sum.splits if_splits)

lemma try_compact_state [simp]:
  "marks (events (snd (try_compact E b a))) = marks (events a)"
  "fst (try_compact E b a) \<Longrightarrow> length (messages (snd (try_compact E b a))) < length (messages a)"
  "\<not> fst (try_compact E b a) \<Longrightarrow> messages (snd (try_compact E b a)) = messages a"
  by (auto simp: try_compact_def compact_state split: option.splits if_splits)

lemma ingest_state [simp]: "marks (events (snd (ingest E m a))) = marks (events a)"
  by (simp add: ingest_def Let_def)

lemma drainInbox_state [simp]: "marks (events (snd (drainInbox E a))) = marks (events a)"
  by (simp add: drainInbox_def Let_def split_def split: poll.split)

lemma drainInbox_error: "fst (drainInbox E a) = Inl e \<Longrightarrow> e = errStopped"
  by (auto simp: drainInbox_def Let_def split_def split: poll.splits if_splits)

lemma stream_loop_state [simp]:
  "marks (events (snd (stream_loop es r a))) = marks (events a)"
  "messages (snd (stream_loop es r a)) = messages a" "world (snd (stream_loop es r a)) = world a"
  by (induction es r a rule: stream_loop.induct) (auto split: option.splits)

lemma streamInfer_state [simp]:
  "marks (events (snd (streamInfer E a))) = marks (events a)"
  "messages (snd (streamInfer E a)) = messages a"
  by (simp_all add: streamInfer_def Let_def split_def split: sum.split)

lemma executeToolTask_state [simp]:
  "marks (events (snd (executeToolTask E tc a))) = marks (events a)"
  "messages (snd (executeToolTask E tc a)) = messages a"
  by (simp_all add: executeToolTask_def Let_def split_def split: tool_run.split)

lemma resolve_tools_state [simp]:
  "marks (events (snd (resolve_tools E tcs ts a))) = marks (events a)"
  by (induction tcs arbitrary: ts a) (simp_all add: Let_def split_def)

lemma run_tasks_state [simp]:
  "marks (events (snd (run_tasks E ts order rs a))) = marks (events a)"
  "messages (snd (run_tasks E ts order rs a)) = messages a"
  by (induction order arbitrary: rs a) (auto simp: Let_def split_def split: option.split)

lemma run_batch_state [simp]:
  "marks (events (snd (run_batch E ts a))) = marks (events a)"
  "messages (snd (run_batch E ts a)) = messages a"
  by (simp_all add: run_batch_def Let_def split_def split: list.split)

lemma record_results_state [simp]:
  "marks (events (snd (record_results E rs n a))) = marks (events a)"
  by (induction rs arbitrary: n a) (auto simp: Let_def split_def)

lemma execTools_state [simp]: "marks (events (snd (execTools E tcs a))) = marks (events a)"
  by (simp add: execTools_def Let_def split_def)

lemma take_response_state [simp]:
  "marks (events (take_response E r a)) = marks (events a) @ [EvPostInfer r]"
  by (simp add: take_response_def)

subsection \<open>Accounting\<close>

text \<open>The turn's counters against the inferences recorded since the trace had those of \<open>base\<close>.\<close>

definition billed :: "InferResponse list \<Rightarrow> turn \<Rightarrow> 'w agent \<Rightarrow> bool" where
  "billed base t a =
     (\<exists>new. infers (events a) = base @ new \<and> steps t = int (length new)
        \<and> tokensIn t = sum_list (List.map r_InputTokens new)
        \<and> tokensOut t = sum_list (List.map r_OutputTokens new))"

lemma billed_cong:
  "marks (events a') = marks (events a) \<Longrightarrow> steps t' = steps t \<Longrightarrow> tokensIn t' = tokensIn t \<Longrightarrow>
   tokensOut t' = tokensOut t \<Longrightarrow> billed base t a \<Longrightarrow> billed base t' a'"
  by (simp add: billed_def)

lemma billed_account: "billed base t a \<Longrightarrow> billed base (account r t) (take_response E r a)"
proof -
  assume "billed base t a"
  then obtain new where "infers (events a) = base @ new" "steps t = int (length new)"
    "tokensIn t = sum_list (List.map r_InputTokens new)" "tokensOut t = sum_list (List.map r_OutputTokens new)"
    by (auto simp: billed_def)
  then show ?thesis unfolding billed_def
    by (intro exI [of _ "new @ [r]"]) (simp add: account_def)
qed

text \<open>What each outcome promises: a loop state that is billed, or a result with billed figures.\<close>

definition outcome_billed :: "InferResponse list \<Rightarrow> 'w outcome \<Rightarrow> bool" where
  "outcome_billed base o1 =
     (case o1 of
        Again t a \<Rightarrow> billed base t a
      | Finish r e a \<Rightarrow> (\<forall>x. r = Some x \<longrightarrow> (\<exists>t. billed base t a \<and> res_Steps x = steps t
            \<and> res_InputTokens x = tokensIn t \<and> res_OutputTokens x = tokensOut t)))"

lemma outcome_billed_simps [simp]:
  "outcome_billed base (Again t a) = billed base t a"
  "outcome_billed base (Finish None e a)"
  "billed base t a \<Longrightarrow> outcome_billed base (Finish (Some (makeResult t s a)) e a)"
  "billed base t a \<Longrightarrow> outcome_billed base (Finish (Some ((makeResult t s a)\<lparr>res_StopDetail := d\<rparr>)) e a)"
  by (auto simp: outcome_billed_def makeResult_def)

lemma recover_output_billed: "billed base t a \<Longrightarrow> outcome_billed base (recover_output E p t a)"
  by (auto simp: recover_output_def intro: billed_cong [of _ a _ t])

lemma infer_failed_billed:
  assumes "billed base t a"
  shows "outcome_billed base (infer_failed E e t a)"
proof -
  let ?a = "snd (try_compact E (context_exceeded e) a)"
  have b: "billed base t ?a" using assms by (auto intro: billed_cong [of _ a _ t])
  then have r: "billed base (t\<lparr>turnRetries := turnRetries t + 1\<rparr>)
      (snd (ask (BackoffSleep E n f) (emit EvStreamReset ?a)))" for n f
    by (auto intro: billed_cong [of _ ?a _ t])
  show ?thesis using b r by (auto simp: infer_failed_def Let_def split_def split: option.split)
qed

lemma infer_succeeded_billed:
  assumes "billed base t a"
  shows "outcome_billed base (infer_succeeded E r t a)"
proof -
  let ?t = "account r t" and ?a = "take_response E r a"
  have b: "billed base ?t ?a" by (rule billed_account [OF assms])
  let ?x = "execTools E (r_ToolCalls r) ?a"
  have b': "billed base (?t\<lparr>toolUses := toolUses ?t + fst ?x\<rparr>) (snd ?x)"
    using b by (auto intro: billed_cong [of _ ?a _ ?t])
  show ?thesis using b b' recover_output_billed
    by (auto simp: infer_succeeded_def Let_def split_def)
qed

lemma infer_step_billed:
  assumes "billed base t a"
  shows "outcome_billed base (infer_step E t a)"
proof -
  let ?x = "try_compact E (0 < input_limit E (world a)
      \<and> NeedsCompaction (promptTokensOrEstimate E a) (input_limit E (world a))) a"
  have b: "billed base t (snd ?x)" using assms by (auto intro: billed_cong [of _ a _ t])
  then have b': "billed base t (snd (streamInfer E (snd ?x)))" by (auto intro: billed_cong [of _ "snd ?x" _ t])
  show ?thesis using b b' infer_failed_billed infer_succeeded_billed
    by (auto simp: infer_step_def Let_def split_def split: sum.split)
qed

lemma turn_step_billed:
  assumes "billed base t a"
  shows "outcome_billed base (turn_step E t a)"
proof -
  let ?a = "snd (ask (ctx_err E) a)"
  have b: "billed base t ?a" using assms by (auto intro: billed_cong [of _ a _ t])
  then have "billed base t (snd (drainInbox E ?a))" by (auto intro: billed_cong [of _ ?a _ t])
  then show ?thesis using b infer_step_billed
    by (auto simp: turn_step_def Let_def split_def split: option.split sum.split)
qed

lemma turn_loop_billed:
  "billed base t a \<Longrightarrow> turn_loop n E t a = Some ((Some r, e), a') \<Longrightarrow>
   \<exists>t'. billed base t' a' \<and> res_Steps r = steps t' \<and> res_InputTokens r = tokensIn t'
      \<and> res_OutputTokens r = tokensOut t'"
proof (induction n arbitrary: t a)
  case 0
  then show ?case by simp
next
  case (Suc n)
  from turn_step_billed [OF Suc.prems(1), of E] show ?case
    using Suc.prems(2) by (auto simp: outcome_billed_def split: outcome.splits dest: Suc.IH)
qed

text \<open>
  C28: A turn bills exactly what it inferred: the steps and the token totals of every result --
  cancelled and failed turns included -- are the number of responses the turn received and the
  sums of their usage, with no step lost to a retry, a compaction or a truncated output.
\<close>

theorem turn_result_bills_its_inferences:
  assumes "ThinkAct fuel E a = Some ((Some r, e), a')"
  shows "\<exists>new. infers (events a') = infers (events a) @ new \<and> res_Steps r = int (length new)
     \<and> res_InputTokens r = sum_list (List.map r_InputTokens new)
     \<and> res_OutputTokens r = sum_list (List.map r_OutputTokens new)"
proof -
  have "billed (infers (events a)) new_turn a" by (simp add: billed_def new_turn_def)
  from turn_loop_billed [OF this, of fuel E r e a'] assms
  obtain t' where "billed (infers (events a)) t' a'" "res_Steps r = steps t'"
    "res_InputTokens r = tokensIn t'" "res_OutputTokens r = tokensOut t'"
    by (auto simp: ThinkAct_def)
  then show ?thesis by (auto simp: billed_def)
qed

text \<open>A scripted environment: responses in order, fresh identifiers counted up.\<close>

definition script_env :: "((err + stream_event list) list \<times> nat) env" where
  "script_env = \<lparr>ctx_err = Pair None, poll_inbox = Pair Empty, max_steps = (\<lambda>_. 5),
     system_prompt = (\<lambda>_. ''sys''), input_limit = (\<lambda>_. 1000), compactFunc = None,
     infer = (\<lambda>ms (l, n). case l of [] \<Rightarrow> (Inr [IdleFired], [], n) | x # xs \<Rightarrow> (x, xs, n)),
     known_tool = (\<lambda>t. t = ''Read'' \<or> t = ''Edit''),
     tool_Execute = (\<lambda>tc w. (Returned (tc_Input tc) None, w)), schedule = Pair [1],
     BackoffSleep = (\<lambda>_ _ w. (None, w)), NewMessageID = (\<lambda>(l, n). (nat_str n, l, Suc n)),
     json_ok = (\<lambda>_. True), maxOutputRecovery = 0, maxTurnRetries = 2\<rparr>"

definition answer :: "string \<Rightarrow> StopReason \<Rightarrow> ToolCall list \<Rightarrow> InferResponse" where
  "answer text stop calls = \<lparr>r_Content = text, r_Thinking = [], r_ThinkingSignature = [],
     r_Reasoning = [], r_ToolCalls = calls, r_StopReason = stop, r_InputTokens = 10,
     r_OutputTokens = 3, r_CacheReadTokens = 0\<rparr>"

definition stream_of :: "InferResponse \<Rightarrow> err + stream_event list" where
  "stream_of r = Inr [StreamChunk \<lparr>ch_Text = r_Content r, ch_Thinking = [], ch_Done = True,
     ch_Response = Some r, ch_Err = None\<rparr>, ChanClosed None]"

definition tool_call :: "string \<Rightarrow> string \<Rightarrow> ToolCall" where
  "tool_call i name = \<lparr>tc_ID = i, tc_Name = name, tc_Input = ''{}'', tc_ThoughtSignature = []\<rparr>"

text \<open>A tool step, a stalled stream that is retried, a truncated answer, the final answer.\<close>

definition script_agent :: "((err + stream_event list) list \<times> nat) agent" where
  "script_agent = \<lparr>messages = [UserMessage ''hi'' []], lastTotalInputTokens = 0, events = [],
     world = ([stream_of (answer ''look'' StopToolUse [tool_call ''a'' ''Edit'', tool_call ''b'' ''Nope'']),
               Inr [IdleFired],
               stream_of (answer ''trunc'' StopMaxTokens []),
               stream_of (answer ''done'' StopEndTurn [])], 0)\<rparr>"

definition turn_summary :: "((Result option \<times> err option) \<times> 'w agent) option \<Rightarrow> (int \<times> int \<times> int \<times> StopReason) option" where
  "turn_summary x = (case x of Some ((Some r, e), a) \<Rightarrow>
       Some (res_Steps r, res_InputTokens r, res_OutputTokens r, res_StopReason r) | _ \<Rightarrow> None)"

theorem turn_result_bills_its_inferences_witness:
  "\<exists>r e a'. ThinkAct 5 script_env script_agent = Some ((Some r, e), a')
     \<and> res_Steps r = 3 \<and> length (infers (events a')) = 3"
proof -
  have "turn_summary (ThinkAct 5 script_env script_agent) = Some (3, 30, 9, StopEndTurn)" by code_simp
  then obtain r e a' where t: "ThinkAct 5 script_env script_agent = Some ((Some r, e), a')"
    and s: "res_Steps r = 3" by (auto simp: turn_summary_def split: option.splits prod.splits)
  moreover have "infers (events script_agent) = []" by code_simp
  ultimately show ?thesis using turn_result_bills_its_inferences [OF t] by auto
qed

subsection \<open>The table of outcomes\<close>

definition outcome_ok :: "'w outcome \<Rightarrow> bool" where
  "outcome_ok o1 =
     (case o1 of
        Again t a \<Rightarrow> True
      | Finish r e a \<Rightarrow>
          (case r of
             None \<Rightarrow> e = Some errStopped
           | Some x \<Rightarrow> (e = None \<longleftrightarrow> res_StopReason x \<in> {StopEndTurn, StopMaxSteps, StopMaxOutputRecoveryExhausted})
               \<and> (e \<noteq> None \<longrightarrow> res_StopReason x = StopCancelled \<or> res_StopReason x = StopError)
               \<and> res_Messages x = messages a))"

lemma outcome_ok_simps [simp]:
  "outcome_ok (Again t a)"
  "outcome_ok (Finish None e a) \<longleftrightarrow> e = Some errStopped"
  "outcome_ok (Finish (Some (makeResult t s a)) e a) \<longleftrightarrow>
     ((e = None \<longleftrightarrow> s \<in> {StopEndTurn, StopMaxSteps, StopMaxOutputRecoveryExhausted})
      \<and> (e \<noteq> None \<longrightarrow> s = StopCancelled \<or> s = StopError))"
  "outcome_ok (Finish (Some ((makeResult t s a)\<lparr>res_StopDetail := d\<rparr>)) e a) \<longleftrightarrow>
     ((e = None \<longleftrightarrow> s \<in> {StopEndTurn, StopMaxSteps, StopMaxOutputRecoveryExhausted})
      \<and> (e \<noteq> None \<longrightarrow> s = StopCancelled \<or> s = StopError))"
  by (auto simp: outcome_ok_def makeResult_def)

lemma infer_outcomes_ok [simp]:
  "outcome_ok (infer_failed E e t a)" "outcome_ok (infer_succeeded E r t a)"
  by (auto simp: infer_failed_def infer_succeeded_def recover_output_def Let_def split_def
      split: option.split)

lemma turn_step_ok: "outcome_ok (turn_step E t a)"
  by (auto simp: turn_step_def infer_step_def Let_def split_def dest: drainInbox_error
      split: option.split sum.split)

text \<open>
  A result accompanies every outcome of a turn except the deliberate shutdown; it carries the
  whole conversation, a normal stop reason comes without an error, and an error comes with a
  cancelled or failed result.
\<close>

theorem every_turn_outcome_has_a_result:
  assumes "ThinkAct fuel E a = Some ((r, e), a')"
  shows "(r = None \<longrightarrow> e = Some errStopped)
     \<and> (\<forall>x. r = Some x \<longrightarrow> res_Messages x = messages a'
          \<and> (e = None \<longleftrightarrow> res_StopReason x \<in> {StopEndTurn, StopMaxSteps, StopMaxOutputRecoveryExhausted})
          \<and> (e \<noteq> None \<longrightarrow> res_StopReason x = StopCancelled \<or> res_StopReason x = StopError))"
proof -
  have "turn_loop n E t a = Some ((r, e), a') \<Longrightarrow> outcome_ok (Finish r e a')" for n t a
  proof (induction n arbitrary: t a)
    case (Suc n)
    then show ?case using turn_step_ok [of E t a] by (auto split: outcome.splits)
  qed simp
  then show ?thesis using assms by (fastforce simp: ThinkAct_def outcome_ok_def split: option.splits)
qed

theorem every_turn_outcome_has_a_result_witness:
  "\<exists>x a'. ThinkAct 5 script_env script_agent = Some ((Some x, None), a') \<and> res_Messages x = messages a'"
proof -
  have "turn_summary (ThinkAct 5 script_env script_agent) = Some (3, 30, 9, StopEndTurn)" by code_simp
  then obtain r e a' where t: "ThinkAct 5 script_env script_agent = Some ((Some r, e), a')"
    and s: "res_StopReason r = StopEndTurn" by (auto simp: turn_summary_def split: option.splits prod.splits)
  then show ?thesis using every_turn_outcome_has_a_result [OF t] by auto
qed

subsection \<open>Termination under a step cap\<close>

text \<open>
  \<open>pend\<close> bounds the messages the inbox will still deliver: receiving one uses it up and nothing
  else adds to it, and the step cap does not change during the turn.
\<close>

definition finite_supply :: "'w env \<Rightarrow> ('w \<Rightarrow> nat) \<Rightarrow> int \<Rightarrow> bool" where
  "finite_supply E pend cap =
     (\<forall>w. max_steps E w = cap
        \<and> pend (snd (ctx_err E w)) \<le> pend w
        \<and> (case poll_inbox E w of (Received m, w') \<Rightarrow> pend w' < pend w | (_, w') \<Rightarrow> pend w' \<le> pend w)
        \<and> (\<forall>f ms. compactFunc E = Some f \<longrightarrow> pend (snd (f ms w)) \<le> pend w)
        \<and> (\<forall>ms. pend (snd (infer E ms w)) \<le> pend w)
        \<and> (\<forall>tc. pend (snd (tool_Execute E tc w)) \<le> pend w)
        \<and> pend (snd (schedule E w)) \<le> pend w
        \<and> (\<forall>n f. pend (snd (BackoffSleep E n f w)) \<le> pend w)
        \<and> pend (snd (NewMessageID E w)) \<le> pend w)"

lemma pend_ops:
  assumes "finite_supply E pend cap"
  shows "pend (snd (ctx_err E w)) \<le> pend w" "pend (snd (infer E ms w)) \<le> pend w"
    "pend (snd (tool_Execute E tc w)) \<le> pend w" "pend (snd (schedule E w)) \<le> pend w"
    "pend (snd (BackoffSleep E n f w)) \<le> pend w" "pend (snd (NewMessageID E w)) \<le> pend w"
    "max_steps E w = cap"
    "compactFunc E = Some g \<Longrightarrow> pend (snd (g ms w)) \<le> pend w"
  using assms by (simp_all add: finite_supply_def)

lemma pend_append_msg:
  "finite_supply E pend cap \<Longrightarrow> pend (world a) \<le> k \<Longrightarrow> pend (world (append_msg E m a)) \<le> k"
  using pend_ops(6) [of E pend cap "world a"] by (simp add: append_msg_def Let_def split_def)

lemma pend_applyCompaction:
  "finite_supply E pend cap \<Longrightarrow> pend (world a) \<le> k \<Longrightarrow> pend (world (applyCompaction E s n tr a)) \<le> k"
  using pend_ops(6) [of E pend cap "world a"] by (simp add: applyCompaction_def Let_def split_def)

lemma pend_try_compact:
  assumes "finite_supply E pend cap" and "pend (world a) \<le> k"
  shows "pend (world (snd (try_compact E b a))) \<le> k"
proof (cases "compactFunc E")
  case None
  then show ?thesis using assms(2) by (simp add: try_compact_def)
next
  case (Some f)
  have "pend (snd (f ms (world a))) \<le> k" for ms
    using pend_ops(8) [OF assms(1) Some, of ms "world a"] assms(2) by simp
  then show ?thesis using Some assms(2) pend_applyCompaction [OF assms(1)]
    by (simp add: try_compact_def compact_def Let_def split_def split: sum.split)
qed

lemma pend_ingest:
  "finite_supply E pend cap \<Longrightarrow> pend (world a) \<le> k \<Longrightarrow> pend (world (snd (ingest E m a))) \<le> k"
  by (simp add: ingest_def Let_def pend_append_msg pend_applyCompaction)

lemma pend_drainInbox:
  assumes sup: "finite_supply E pend cap"
  shows "pend (world (snd (drainInbox E a))) < pend (world a)
    \<or> (pend (world (snd (drainInbox E a))) \<le> pend (world a)
       \<and> messages (snd (drainInbox E a)) = messages a)"
proof -
  obtain p w' where p: "poll_inbox E (world a) = (p, w')" by (cases "poll_inbox E (world a)")
  have step: "case p of Received m \<Rightarrow> pend w' < pend (world a) | _ \<Rightarrow> pend w' \<le> pend (world a)"
  proof -
    have "case poll_inbox E (world a) of (Received m, w') \<Rightarrow> pend w' < pend (world a)
        | (_, w') \<Rightarrow> pend w' \<le> pend (world a)"
      using spec [OF sup [unfolded finite_supply_def], of "world a"] by (elim conjE)
    then show ?thesis using p by (cases p) auto
  qed
  have w: "world (snd (ask (poll_inbox E) a)) = w'" "fst (ask (poll_inbox E) a) = p" using p by simp_all
  show ?thesis
  proof (cases p)
    case (Received m)
    then have "pend (world (snd (ingest E m (snd (ask (poll_inbox E) a))))) < pend (world a)"
      using step w pend_ingest [OF sup, of "snd (ask (poll_inbox E) a)" "pend w'" m] by simp
    then show ?thesis using Received step w by (simp add: drainInbox_def Let_def split_def)
  qed (use step w in \<open>simp_all add: drainInbox_def Let_def split_def\<close>)
qed

lemma pend_streamInfer:
  "finite_supply E pend cap \<Longrightarrow> pend (world a) \<le> k \<Longrightarrow> pend (world (snd (streamInfer E a))) \<le> k"
  using pend_ops(2) [of E pend cap "messages a" "world a"]
  by (simp add: streamInfer_def Let_def split_def split: sum.split)

text \<open>How one pass that loops again moves the loop state.\<close>

definition progress :: "'w env \<Rightarrow> ('w \<Rightarrow> nat) \<Rightarrow> turn \<Rightarrow> 'w agent \<Rightarrow> turn \<Rightarrow> 'w agent \<Rightarrow> bool" where
  "progress E pend t' a' t a =
     (steps t' = steps t + 1
      \<or> (steps t' = steps t \<and> pend (world a') \<le> pend (world a)
         \<and> ((turnRetries t' = turnRetries t + 1 \<and> turnRetries t < maxTurnRetries E)
            \<or> (turnRetries t' = turnRetries t \<and> length (messages a') < length (messages a)))))"

lemma progress_failed:
  assumes sup: "finite_supply E pend cap" and "infer_failed E e t a = Again t' a'"
  shows "progress E pend t' a' t a"
proof -
  let ?c = "try_compact E (context_exceeded e) a"
  have p: "pend (world (snd ?c)) \<le> pend (world a)" by (rule pend_try_compact [OF sup]) simp
  have q: "pend (snd (BackoffSleep E n f (world (snd ?c)))) \<le> pend (world a)" for n f
    using pend_ops(5) [OF sup, of n f "world (snd ?c)"] p by simp
  show ?thesis
  proof (cases "fst ?c")
    case True
    then have "t' = t" "a' = snd ?c" using assms(2) by (simp_all add: infer_failed_def Let_def split_def)
    then show ?thesis using p True by (simp add: progress_def)
  next
    case False
    then show ?thesis using assms(2) q
      by (auto simp: infer_failed_def Let_def split_def progress_def split: if_splits option.splits)
  qed
qed

lemma progress_succeeded:
  "infer_succeeded E r t a = Again t' a' \<Longrightarrow> steps t' = steps t + 1"
  by (auto simp: infer_succeeded_def recover_output_def account_def Let_def split_def split: if_splits)

lemma progress_step:
  assumes sup: "finite_supply E pend cap" and step: "infer_step E t a = Again t' a'"
  shows "progress E pend t' a' t a"
proof -
  let ?c = "try_compact E (0 < input_limit E (world a)
      \<and> NeedsCompaction (promptTokensOrEstimate E a) (input_limit E (world a))) a"
  have p: "pend (world (snd ?c)) \<le> pend (world a)" by (rule pend_try_compact [OF sup]) simp
  show ?thesis
  proof (cases "fst ?c")
    case True
    then have "t' = t" "a' = snd ?c" using step by (simp_all add: infer_step_def Let_def split_def)
    then show ?thesis using p True by (simp add: progress_def)
  next
    case False
    let ?s = "streamInfer E (snd ?c)"
    have m: "messages (snd ?s) = messages a" using False by simp
    have q: "pend (world (snd ?s)) \<le> pend (world a)" by (rule pend_streamInfer [OF sup p])
    show ?thesis
    proof (cases "fst ?s")
      case (Inl e)
      then have "infer_failed E e t (snd ?s) = Again t' a'"
        using step False by (simp add: infer_step_def Let_def split_def)
      from progress_failed [OF sup this] show ?thesis using m q by (auto simp: progress_def)
    next
      case (Inr r)
      then have "infer_succeeded E r t (snd ?s) = Again t' a'"
        using step False by (simp add: infer_step_def Let_def split_def)
      from progress_succeeded [OF this] show ?thesis by (simp add: progress_def)
    qed
  qed
qed

definition turn_measure :: "'w env \<Rightarrow> ('w \<Rightarrow> nat) \<Rightarrow> int \<Rightarrow> ((turn \<times> 'w agent) \<times> turn \<times> 'w agent) set" where
  "turn_measure E pend cap = measures
     [\<lambda>(t, a). nat (cap - steps t), \<lambda>(t, a). pend (world a),
      \<lambda>(t, a). nat (maxTurnRetries E - turnRetries t), \<lambda>(t, a). length (messages a)]"

lemma wf_turn_measure: "wf (turn_measure E pend cap)"
  by (simp add: turn_measure_def)

lemma progress_decreases:
  assumes "progress E pend t' a' t a1" and "steps t < cap"
    and "pend (world a1) < pend (world a) \<or> (pend (world a1) \<le> pend (world a) \<and> messages a1 = messages a)"
  shows "((t', a'), (t, a)) \<in> turn_measure E pend cap"
  using assms by (auto simp: turn_measure_def progress_def)

lemma turn_step_decreases:
  assumes sup: "finite_supply E pend cap" and cap: "0 < cap" and step: "turn_step E t a = Again t' a'"
  shows "((t', a'), (t, a)) \<in> turn_measure E pend cap"
proof -
  let ?a = "snd (ask (ctx_err E) a)"
  have w: "pend (world ?a) \<le> pend (world a)" using pend_ops(1) [OF sup] by simp
  have lt: "steps t < cap"
    using step cap pend_ops(7) [OF sup] by (auto simp: turn_step_def Let_def split_def split: option.splits if_splits)
  have "\<exists>a1. infer_step E t a1 = Again t' a' \<and> (pend (world a1) < pend (world a)
      \<or> (pend (world a1) \<le> pend (world a) \<and> messages a1 = messages a))"
  proof (cases "0 < steps t")
    case True
    then have "infer_step E t (snd (drainInbox E ?a)) = Again t' a'"
      using step by (auto simp: turn_step_def Let_def split_def split: option.splits if_splits sum.splits)
    moreover have "pend (world (snd (drainInbox E ?a))) < pend (world a)
        \<or> (pend (world (snd (drainInbox E ?a))) \<le> pend (world a)
           \<and> messages (snd (drainInbox E ?a)) = messages a)"
      using pend_drainInbox [OF sup, of ?a] w by auto
    ultimately show ?thesis by blast
  next
    case False
    then have "infer_step E t ?a = Again t' a'"
      using step by (auto simp: turn_step_def Let_def split_def split: option.splits if_splits)
    then show ?thesis using w by (intro exI [of _ ?a]) simp
  qed
  then show ?thesis using progress_step [OF sup] progress_decreases [OF _ lt] by blast
qed

text \<open>
  C27: A turn under a constant positive step cap ends: when the inbox delivers finitely many messages during
  the turn, some amount of fuel suffices, because every pass that loops again takes a step, uses
  up a message, spends a retry or shrinks the conversation -- so neither retries nor the two
  compactions can loop forever, and no bound on them is assumed.
\<close>

theorem ThinkAct_terminates:
  assumes "0 < cap" and "finite_supply E pend cap"
  shows "\<exists>fuel. ThinkAct fuel E a \<noteq> None"
proof -
  have "\<exists>n. turn_loop n E (fst x) (snd x) \<noteq> None" for x
  proof (induction x rule: wf_induct_rule [OF wf_turn_measure [of E pend cap]])
    case (1 x)
    show ?case
    proof (cases "turn_step E (fst x) (snd x)")
      case (Again t' a')
      have "((t', a'), x) \<in> turn_measure E pend cap"
        using turn_step_decreases [OF assms(2,1) Again] by simp
      from 1 [OF this] obtain n where "turn_loop n E t' a' \<noteq> None" by auto
      then show ?thesis using Again by (intro exI [of _ "Suc n"]) simp
    next
      case (Finish r e a')
      then show ?thesis by (intro exI [of _ "Suc 0"]) simp
    qed
  qed
  from this [of "(new_turn, a)"] show ?thesis by (simp add: ThinkAct_def)
qed

theorem ThinkAct_terminates_witness: "\<exists>fuel. ThinkAct fuel script_env script_agent \<noteq> None"
proof (rule ThinkAct_terminates)
  show "finite_supply script_env (\<lambda>_. 0) 5" by (simp add: finite_supply_def script_env_def)
qed simp

subsection \<open>The answers of a tool batch\<close>

text \<open>What each message of the conversation answers, and the calls whose execution started.\<close>

definition answers :: "'w agent \<Rightarrow> string option list" where
  "answers a = List.map (\<lambda>m. map_option tr_ToolCallID (MsgToolResult m)) (messages a)"

definition started :: "'w agent \<Rightarrow> ToolCall list" where
  "started a = concat (List.map (\<lambda>e. case e of EvPreTool tc \<Rightarrow> [tc] | _ \<Rightarrow> []) (events a))"

definition never_cancelled :: "'w env \<Rightarrow> bool" where
  "never_cancelled E = (\<forall>w. fst (ctx_err E w) = None)"

lemma answers_simps [simp]:
  "answers (emit e a) = answers a" "answers (snd (ask f a)) = answers a"
  "answers (append_msg E m a) = answers a @ [map_option tr_ToolCallID (MsgToolResult m)]"
  "answers (appendResult E tc s b a) = answers a @ [Some (tc_ID tc)]"
  by (simp_all add: answers_def append_msg_def appendResult_def Let_def split_def)

lemma started_simps [simp]:
  "started (emit e a) = started a @ (case e of EvPreTool tc \<Rightarrow> [tc] | _ \<Rightarrow> [])"
  "started (snd (ask f a)) = started a" "started (append_msg E m a) = started a"
  "started (appendResult E tc s b a) = started a"
  by (simp_all add: started_def append_msg_def appendResult_def Let_def split_def)

lemma executeToolTask_tools [simp]:
  "answers (snd (executeToolTask E tc a)) = answers a"
  "started (snd (executeToolTask E tc a)) = started a @ [tc]"
  by (simp_all add: executeToolTask_def Let_def split_def split: tool_run.split)

lemma resolve_tools_calls:
  assumes "never_cancelled E"
  shows "fst (resolve_tools E tcs ts a) = ts @ filter (\<lambda>tc. known_tool E (tc_Name tc)) tcs
    \<and> answers (snd (resolve_tools E tcs ts a))
        = answers a @ List.map (Some \<circ> tc_ID) (filter (\<lambda>tc. \<not> known_tool E (tc_Name tc)) tcs)
    \<and> started (snd (resolve_tools E tcs ts a))
        = started a @ filter (\<lambda>tc. \<not> known_tool E (tc_Name tc)) tcs"
  using assms by (induction tcs arbitrary: ts a) (simp_all add: Let_def split_def never_cancelled_def)

lemma run_tasks_calls:
  assumes "never_cancelled E"
  shows "length (fst (run_tasks E ts order rs a)) = length rs
    \<and> answers (snd (run_tasks E ts order rs a)) = answers a
    \<and> started (snd (run_tasks E ts order rs a)) = started a @ List.map (\<lambda>(s, i). ts ! i) order"
  using assms
  by (induction order arbitrary: rs a) (auto simp: Let_def split_def never_cancelled_def)

lemma record_results_calls:
  assumes "never_cancelled E"
  shows "answers (snd (record_results E rs n a)) = answers a @ List.map (Some \<circ> tc_ID \<circ> fst) rs
    \<and> started (snd (record_results E rs n a)) = started a"
  using assms by (induction rs arbitrary: n a) (auto simp: Let_def split_def never_cancelled_def)

lemma interleave_spec:
  "distinct par \<Longrightarrow>
   mset (List.map snd (interleave ks par ser)) = mset par + mset ser
   \<and> List.map snd (filter fst (interleave ks par ser)) = ser
   \<and> set (List.map snd (filter (Not \<circ> fst) (interleave ks par ser))) \<subseteq> set par"
proof (induction ks par ser rule: interleave.induct)
  case (1 k ks par ser)
  show ?case
  proof (cases "k = 0 \<or> par = []")
    case True
    then show ?thesis using 1 by (cases ser) (auto simp: comp_def split_def)
  next
    case False
    let ?p = "par ! (k mod length par)"
    have p: "?p \<in> set par" using False by simp
    then have "mset (removeAll ?p par) = mset par - {#?p#}" "distinct (removeAll ?p par)"
      using 1(3) by (simp_all add: distinct_remove1_removeAll [symmetric] distinct_remove1)
    then show ?thesis using 1(2) [OF _ refl] False p by (auto simp: Let_def)
  qed
next
  case (2 par ser)
  then show ?case by (simp add: comp_def filter_map)
qed

lemma nth_filter_upt: "List.map ((!) xs) (filter (\<lambda>i. P (xs ! i)) [0 ..< length xs]) = filter P xs"
proof -
  have "filter P (List.map ((!) xs) [0 ..< length xs]) = List.map ((!) xs) (filter (\<lambda>i. P (xs ! i)) [0 ..< length xs])"
    by (simp add: filter_map comp_def)
  then show ?thesis by (simp add: map_nth)
qed

lemma ordered_tasks:
  assumes par: "par = filter (\<lambda>i. P (ts ! i)) [0 ..< length ts]"
    and ser: "ser = filter (\<lambda>i. \<not> P (ts ! i)) [0 ..< length ts]"
    and all: "mset (List.map snd order) = mset par + mset ser"
    and serial: "List.map snd (filter fst order) = ser"
    and parallel: "set (List.map snd (filter (Not \<circ> fst) order)) \<subseteq> set par"
  shows "mset (List.map (\<lambda>(s, i). ts ! i) order) = mset ts
    \<and> filter (\<lambda>x. \<not> P x) (List.map (\<lambda>(s, i). ts ! i) order) = filter (\<lambda>x. \<not> P x) ts"
proof
  have new: "List.map (\<lambda>(s, i). ts ! i) order = List.map ((!) ts) (List.map snd order)"
    by (simp add: split_def)
  have "mset (List.map ((!) ts) (List.map snd order)) = image_mset ((!) ts) (mset par + mset ser)"
    by (simp only: all mset_map [of "(!) ts"])
  also have "\<dots> = mset (List.map ((!) ts) par) + mset (List.map ((!) ts) ser)"
    by (simp only: mset_map image_mset_union)
  also have "\<dots> = mset (filter P ts) + mset (filter (\<lambda>x. \<not> P x) ts)"
    using nth_filter_upt [of ts P] nth_filter_upt [of ts "\<lambda>x. \<not> P x"] by (simp add: par ser)
  also have "\<dots> = mset ts" by (metis mset_filter multiset_partition)
  finally show "mset (List.map (\<lambda>(s, i). ts ! i) order) = mset ts" by (simp add: new)
  have flag: "\<not> P (ts ! snd x) \<longleftrightarrow> fst x" if x: "x \<in> set order" for x
  proof (cases "fst x")
    case True
    with x have "snd x \<in> set (List.map snd (filter fst order))" by simp
    then have "snd x \<in> set ser" by (simp only: serial)
    with True show ?thesis by (simp add: ser)
  next
    case False
    with x have "snd x \<in> set (List.map snd (filter (Not \<circ> fst) order))" by simp
    with parallel have "snd x \<in> set par" by (rule subsetD)
    with False show ?thesis by (simp add: par)
  qed
  have "filter (\<lambda>x. \<not> P (ts ! snd x)) order = filter fst order" by (intro filter_cong refl flag)
  then have "filter (\<lambda>x. \<not> P x) (List.map (\<lambda>(s, i). ts ! i) order) = List.map ((!) ts) ser"
    by (simp add: new filter_map comp_def flip: serial)
  also have "\<dots> = filter (\<lambda>x. \<not> P x) ts" unfolding ser by (rule nth_filter_upt)
  finally show "filter (\<lambda>x. \<not> P x) (List.map (\<lambda>(s, i). ts ! i) order) = filter (\<lambda>x. \<not> P x) ts" .
qed

lemma run_batch_calls:
  assumes "never_cancelled E"
  shows "length (fst (run_batch E ts a)) = length ts
    \<and> answers (snd (run_batch E ts a)) = answers a
    \<and> (\<exists>new. started (snd (run_batch E ts a)) = started a @ new \<and> mset new = mset ts
        \<and> filter (\<lambda>tc. \<not> isParallelSafeToolCall (tc_Name tc)) new
            = filter (\<lambda>tc. \<not> isParallelSafeToolCall (tc_Name tc)) ts)"
proof (cases "\<exists>tc. ts = [tc]")
  case True
  then show ?thesis by (auto simp: run_batch_def Let_def split_def)
next
  case False
  define par where "par = filter (\<lambda>i. isParallelSafeToolCall (tc_Name (ts ! i))) [0 ..< length ts]"
  define ser where "ser = filter (\<lambda>i. \<not> isParallelSafeToolCall (tc_Name (ts ! i))) [0 ..< length ts]"
  define order where "order = interleave (fst (ask (schedule E) a)) par ser"
  have "distinct par" by (simp add: par_def)
  note spec = interleave_spec [OF this, of "fst (ask (schedule E) a)" ser, folded order_def]
  have tasks: "mset (List.map (\<lambda>(s, i). ts ! i) order) = mset ts"
    "filter (\<lambda>tc. \<not> isParallelSafeToolCall (tc_Name tc)) (List.map (\<lambda>(s, i). ts ! i) order)
      = filter (\<lambda>tc. \<not> isParallelSafeToolCall (tc_Name tc)) ts"
    using ordered_tasks [of par "\<lambda>tc. isParallelSafeToolCall (tc_Name tc)" ts ser order] spec
    by (simp_all add: par_def ser_def)
  have "run_batch E ts a = run_tasks E ts order (replicate (length ts) ([], None)) (snd (ask (schedule E) a))"
    using False by (simp add: run_batch_def Let_def split_def order_def par_def ser_def split: list.split)
  then show ?thesis
    using run_tasks_calls [OF assms, of ts order "replicate (length ts) ([], None)" "snd (ask (schedule E) a)"] tasks
    by auto
qed

text \<open>
  C29: Every tool call of a response is answered exactly once when nothing cancels the turn: unknown
  tools first, then the others in call order, whatever the order in which the parallel tools
  finish; each call starts exactly once, and the calls with side effects start in call order.
\<close>

theorem execTools_answers_every_call:
  assumes "never_cancelled E"
  shows "answers (snd (execTools E calls a)) = answers a
      @ List.map (Some \<circ> tc_ID) (filter (\<lambda>tc. \<not> known_tool E (tc_Name tc)) calls
                            @ filter (\<lambda>tc. known_tool E (tc_Name tc)) calls)
    \<and> (\<exists>new. started (snd (execTools E calls a)) = started a @ new \<and> mset new = mset calls
        \<and> filter (\<lambda>tc. known_tool E (tc_Name tc) \<and> \<not> isParallelSafeToolCall (tc_Name tc)) new
            = filter (\<lambda>tc. known_tool E (tc_Name tc) \<and> \<not> isParallelSafeToolCall (tc_Name tc)) calls)"
proof -
  let ?K = "\<lambda>tc. known_tool E (tc_Name tc)"
  let ?x = "resolve_tools E calls [] a"
  have r: "fst ?x = filter ?K calls"
    "answers (snd ?x) = answers a @ List.map (Some \<circ> tc_ID) (filter (\<lambda>tc. \<not> ?K tc) calls)"
    "started (snd ?x) = started a @ filter (\<lambda>tc. \<not> ?K tc) calls"
    using resolve_tools_calls [OF assms, of calls "[]" a] by simp_all
  have part: "mset (filter (\<lambda>tc. \<not> ?K tc) calls) + mset (filter ?K calls) = mset calls"
    by (metis mset_filter multiset_partition add.commute)
  show ?thesis
  proof (cases "filter ?K calls = []")
    case True
    then have "filter (\<lambda>tc. \<not> ?K tc) calls = calls" by (auto simp: filter_empty_conv filter_id_conv)
    moreover have "filter (\<lambda>tc. ?K tc \<and> \<not> isParallelSafeToolCall (tc_Name tc)) calls = []"
      using True by (auto simp: filter_empty_conv)
    ultimately show ?thesis using True r by (auto simp: execTools_def Let_def split_def)
  next
    case False
    let ?b = "run_batch E (filter ?K calls) (snd ?x)"
    let ?r = "record_results E (zip (filter ?K calls) (fst ?b)) 0 (snd ?b)"
    have e: "snd (execTools E calls a) = snd ?r" using False r(1) by (simp add: execTools_def Let_def split_def)
    obtain new where b: "length (fst ?b) = length (filter ?K calls)" "answers (snd ?b) = answers (snd ?x)"
      "started (snd ?b) = started (snd ?x) @ new" "mset new = mset (filter ?K calls)"
      "filter (\<lambda>tc. \<not> isParallelSafeToolCall (tc_Name tc)) new
        = filter (\<lambda>tc. \<not> isParallelSafeToolCall (tc_Name tc)) (filter ?K calls)"
      using run_batch_calls [OF assms] by blast
    have z: "List.map fst (zip (filter ?K calls) (fst ?b)) = filter ?K calls" using b(1) by simp
    have "List.map (Some \<circ> tc_ID \<circ> fst) (zip (filter ?K calls) (fst ?b)) = List.map (Some \<circ> tc_ID) (filter ?K calls)"
      by (metis (no_types) z List.map.compositionality)
    then have ans: "answers (snd (execTools E calls a)) = answers a
        @ List.map (Some \<circ> tc_ID) (filter (\<lambda>tc. \<not> ?K tc) calls @ filter ?K calls)"
      using record_results_calls [OF assms] by (simp add: e b r)
    have K: "\<forall>tc \<in> set new. ?K tc" using b(4) by (metis mset_eq_setD mem_Collect_eq set_filter)
    have "filter (\<lambda>tc. ?K tc \<and> \<not> isParallelSafeToolCall (tc_Name tc)) new
        = filter (\<lambda>tc. \<not> isParallelSafeToolCall (tc_Name tc)) new"
      using K by (intro filter_cong) auto
    then have f: "filter (\<lambda>tc. ?K tc \<and> \<not> isParallelSafeToolCall (tc_Name tc))
          (filter (\<lambda>tc. \<not> ?K tc) calls @ new)
        = filter (\<lambda>tc. ?K tc \<and> \<not> isParallelSafeToolCall (tc_Name tc)) calls"
      using b(5) by (simp add: conj_commute)
    have "started (snd (execTools E calls a)) = started a @ (filter (\<lambda>tc. \<not> ?K tc) calls @ new)"
      using record_results_calls [OF assms] by (simp add: e b r)
    moreover have "mset (filter (\<lambda>tc. \<not> ?K tc) calls @ new) = mset calls" using part b(4) by simp
    ultimately show ?thesis using ans f by blast
  qed
qed

theorem execTools_answers_every_call_witness:
  "answers (snd (execTools script_env [tool_call ''a'' ''Edit'', tool_call ''b'' ''Nope'', tool_call ''c'' ''Read'']
      script_agent)) = [None, Some ''b'', Some ''a'', Some ''c'']"
proof -
  have n: "never_cancelled script_env" by (simp add: never_cancelled_def script_env_def)
  show ?thesis
    using execTools_answers_every_call [OF n, of "[tool_call ''a'' ''Edit'', tool_call ''b'' ''Nope'', tool_call ''c'' ''Read'']" script_agent]
    by (simp add: answers_def script_agent_def tool_call_def UserMessage_def zero_message_def script_env_def)
qed

end
