(* ===== verification/AgentRun.thy ===== *)
theory AgentRun
  imports AgentTurnProps
begin

text \<open>
  The main loop of the agent (\<open>Run\<close>, \<open>waitForInput\<close>, \<open>ingestBatch\<close>, \<open>runOneTurn\<close> in
  \<open>internal/core/agent_impl.go\<close>) over the turn of theory AgentTurn.  The blocking receive, the
  run's own context and the interrupt latch are further functions of the world; the latch's
  concurrent behaviour is the subject of theory AgentLatch.  Loops that may go on forever take
  fuel and give \<open>None\<close> when it runs out.
\<close>

datatype wake = WakeDone err | WakeClosed | WakeMsg Message

record 'w run_env =
  tenv :: "'w env"
  block_inbox :: "'w \<Rightarrow> wake \<times> 'w"
  run_ctx_err :: "'w \<Rightarrow> err option \<times> 'w"
  latch_Swap :: "'w \<Rightarrow> bool \<times> 'w"
  latch_clear :: "'w \<Rightarrow> 'w"

definition clear_latch :: "'w run_env \<Rightarrow> 'w agent \<Rightarrow> 'w agent" where
  "clear_latch R a = a\<lparr>world := latch_clear R (world a)\<rparr>"

subsection \<open>Waiting for input\<close>

fun ingestBatch :: "nat \<Rightarrow> 'w run_env \<Rightarrow> Message option \<Rightarrow> bool \<Rightarrow> 'w agent \<Rightarrow> ((err + bool) \<times> 'w agent) option" where
  "ingestBatch 0 R msg startsTurn a = None"
| "ingestBatch (Suc n) R msg startsTurn a =
     (case msg of
        None \<Rightarrow> Some (Inl errStopped, a)
      | Some m \<Rightarrow>
          (if MsgSignal m = SigStop then Some (Inl errStopped, a)
           else let (b, a) = ingest (tenv R) m a;
                    (p, a) = ask (poll_inbox (tenv R)) a
                in case p of
                     Empty \<Rightarrow> Some (Inr (startsTurn \<or> b), a)
                   | Closed \<Rightarrow> ingestBatch n R None (startsTurn \<or> b) a
                   | Received m' \<Rightarrow> ingestBatch n R (Some m') (startsTurn \<or> b) a))"

fun waitForInput :: "nat \<Rightarrow> 'w run_env \<Rightarrow> 'w agent \<Rightarrow> (err option \<times> 'w agent) option" where
  "waitForInput 0 R a = None"
| "waitForInput (Suc n) R a =
     (let (w, a) = ask (block_inbox R) a
      in case w of
           WakeDone e \<Rightarrow> Some (Some e, a)
         | _ \<Rightarrow>
             (case ingestBatch n R (case w of WakeMsg m \<Rightarrow> Some m | _ \<Rightarrow> None) False a of
                None \<Rightarrow> None
              | Some (Inl e, a) \<Rightarrow> Some (Some e, a)
              | Some (Inr startsTurn, a) \<Rightarrow> (if startsTurn then Some (None, a) else waitForInput n R a)))"

subsection \<open>The loop\<close>

text \<open>\<open>runOneTurn\<close>: the latch is taken before the turn; a taken latch skips it.\<close>

definition runOneTurn :: "nat \<Rightarrow> 'w run_env \<Rightarrow> 'w agent
    \<Rightarrow> ((Result option \<times> err option \<times> bool) \<times> 'w agent) option" where
  "runOneTurn fuel R a =
     (let (latched, a) = ask (latch_Swap R) a
      in if latched then Some ((None, None, True), a)
         else map_option (\<lambda>((r, e), a). ((r, e, False), a)) (ThinkAct fuel (tenv R) a))"

datatype 'w next_phase = Wait "'w agent" | RunTurn "'w agent" | Stop "err option" "'w agent"

text \<open>One pass of the inner loop of \<open>Run\<close>: a turn, its report, and the decision what follows.\<close>

definition report_turn :: "Result option \<Rightarrow> 'w agent \<Rightarrow> 'w agent" where
  "report_turn r a =
     (case r of
        Some x \<Rightarrow> (if res_StopReason x \<noteq> StopError then emit (EvTurn x) a else a)
      | None \<Rightarrow> a)"

definition after_turn :: "'w run_env \<Rightarrow> Result option \<Rightarrow> err option \<Rightarrow> 'w agent \<Rightarrow> 'w next_phase" where
  "after_turn R r e a =
     (let a = report_turn r a
      in case e of
           Some x \<Rightarrow>
             (if x = errStopped then Stop None a
              else let (c, a) = ask (run_ctx_err R) a
                   in if c = None \<and> is_canceled x then Wait (clear_latch R a) else Stop (Some x) a)
         | None \<Rightarrow>
             (let (d, a) = drainInbox (tenv R) a
              in case d of
                   Inl x \<Rightarrow> Stop (if x = errStopped then None else Some x) a
                 | Inr startsTurn \<Rightarrow> (if startsTurn then RunTurn a else Wait a)))"

definition inner_pass :: "nat \<Rightarrow> 'w run_env \<Rightarrow> 'w agent \<Rightarrow> 'w next_phase option" where
  "inner_pass fuel R a =
     map_option (\<lambda>((r, e, interrupted), a). if interrupted then Wait a else after_turn R r e a)
       (runOneTurn fuel R a)"

text \<open>\<open>True\<close> in the phase argument: at the top of the inner loop; \<open>False\<close>: about to wait.\<close>

fun run_loop :: "nat \<Rightarrow> nat \<Rightarrow> 'w run_env \<Rightarrow> bool \<Rightarrow> 'w agent \<Rightarrow> (err option \<times> 'w agent) option" where
  "run_loop 0 fuel R inner a = None"
| "run_loop (Suc n) fuel R False a =
     (case waitForInput fuel R a of
        None \<Rightarrow> None
      | Some (Some e, a) \<Rightarrow> Some (if e = errStopped then None else Some e, a)
      | Some (None, a) \<Rightarrow> run_loop n fuel R True (clear_latch R a))"
| "run_loop (Suc n) fuel R True a =
     (case inner_pass fuel R a of
        None \<Rightarrow> None
      | Some (Wait a) \<Rightarrow> run_loop n fuel R False a
      | Some (RunTurn a) \<Rightarrow> run_loop n fuel R True a
      | Some (Stop e a) \<Rightarrow> Some (e, a))"

definition Run :: "nat \<Rightarrow> nat \<Rightarrow> 'w run_env \<Rightarrow> 'w agent \<Rightarrow> (err option \<times> 'w agent) option" where
  "Run n fuel R a =
     map_option (\<lambda>(e, a). (e, emit (EvStop e) a)) (run_loop n fuel R False (emit EvStart a))"

subsection \<open>What a run reports\<close>

text \<open>The marks a run may leave between its start and its stop.\<close>

definition inner_mark :: "event \<Rightarrow> bool" where
  "inner_mark e = (case e of EvPostInfer _ \<Rightarrow> True | EvTurn r \<Rightarrow> res_StopReason r \<noteq> StopError | _ \<Rightarrow> False)"

definition extends :: "'w agent \<Rightarrow> 'w agent \<Rightarrow> bool" where
  "extends a a' = (\<exists>new. marks (events a') = marks (events a) @ new \<and> list_all inner_mark new)"

lemma extends_refl: "marks (events a') = marks (events a) \<Longrightarrow> extends a a'"
  by (simp add: extends_def)

lemma extends_trans [trans]: "extends a b \<Longrightarrow> extends b c \<Longrightarrow> extends a c"
  by (fastforce simp: extends_def)

lemma outcome_extends_helpers:
  "extends a (case recover_output E p t a of Again t' a' \<Rightarrow> a' | Finish r e a' \<Rightarrow> a')"
  "extends a (case infer_failed E e t a of Again t' a' \<Rightarrow> a' | Finish r x a' \<Rightarrow> a')"
  by (auto simp: recover_output_def infer_failed_def Let_def split_def intro!: extends_refl
      split: option.split)

lemma infer_succeeded_extends:
  "extends a (case infer_succeeded E r t a of Again t' a' \<Rightarrow> a' | Finish x e a' \<Rightarrow> a')"
  by (auto simp: infer_succeeded_def recover_output_def Let_def split_def extends_def inner_mark_def)

lemma infer_step_extends:
  "extends a (case infer_step E t a of Again t' a' \<Rightarrow> a' | Finish x e a' \<Rightarrow> a')"
proof -
  let ?c = "try_compact E (0 < input_limit E (world a)
      \<and> NeedsCompaction (promptTokensOrEstimate E a) (input_limit E (world a))) a"
  have c: "extends a (snd ?c)" by (rule extends_refl) simp
  have s: "extends a (snd (streamInfer E (snd ?c)))" by (rule extends_refl) simp
  show ?thesis
    using c extends_trans [OF s outcome_extends_helpers(2) [of _ E]]
      extends_trans [OF s infer_succeeded_extends [of _ E]]
    by (auto simp: infer_step_def Let_def split_def split: sum.split)
qed

lemma turn_step_extends:
  "extends a (case turn_step E t a of Again t' a' \<Rightarrow> a' | Finish x e a' \<Rightarrow> a')"
proof -
  let ?a = "snd (ask (ctx_err E) a)"
  have s: "extends a ?a" "extends a (snd (drainInbox E ?a))" by (rule extends_refl, simp)+
  show ?thesis
    using s extends_trans [OF s(1) infer_step_extends [of _ E]]
      extends_trans [OF s(2) infer_step_extends [of _ E]]
    by (auto simp: turn_step_def Let_def split_def split: option.split sum.split)
qed

lemma ThinkAct_extends: "ThinkAct fuel E a = Some (x, a') \<Longrightarrow> extends a a'"
proof -
  have "turn_loop n E t a = Some (x, a') \<Longrightarrow> extends a a'" for n t a
  proof (induction n arbitrary: t a)
    case (Suc n)
    from turn_step_extends [of a E t] show ?case
      using Suc.prems by (auto split: outcome.splits dest: Suc.IH intro: extends_trans)
  qed simp
  then show "ThinkAct fuel E a = Some (x, a') \<Longrightarrow> extends a a'" by (simp add: ThinkAct_def)
qed

lemma ingestBatch_extends: "ingestBatch n R m b a = Some (x, a') \<Longrightarrow> extends a a'"
proof (induction n arbitrary: m b a)
  case (Suc n)
  have "extends a (snd (ask (poll_inbox (tenv R)) (snd (ingest (tenv R) m' a))))" for m'
    by (rule extends_refl) simp
  then show ?case using Suc.prems
    by (auto simp: Let_def split_def intro: extends_refl extends_trans dest!: Suc.IH
        split: option.splits if_splits poll.splits)
qed simp

lemma waitForInput_extends: "waitForInput n R a = Some (x, a') \<Longrightarrow> extends a a'"
proof (induction n arbitrary: a)
  case (Suc n)
  have w: "extends a (snd (ask (block_inbox R) a))" by (rule extends_refl) simp
  then show ?case using Suc.prems
    by (auto simp: Let_def split_def dest!: Suc.IH ingestBatch_extends intro: extends_trans
        split: wake.splits option.splits sum.splits prod.splits if_splits)
qed simp

lemma report_turn_extends: "extends a (report_turn r a)"
  by (auto simp: report_turn_def extends_def inner_mark_def split: option.split)

lemma after_turn_extends:
  "extends a (case after_turn R r e a of Wait a' \<Rightarrow> a' | RunTurn a' \<Rightarrow> a' | Stop x a' \<Rightarrow> a')"
proof -
  have "extends (report_turn r a) (case after_turn R r e a of Wait a' \<Rightarrow> a' | RunTurn a' \<Rightarrow> a' | Stop x a' \<Rightarrow> a')"
    by (rule extends_refl)
      (auto simp: after_turn_def Let_def split_def clear_latch_def split: option.split sum.split)
  then show ?thesis using report_turn_extends extends_trans by blast
qed

lemma inner_pass_extends:
  "inner_pass fuel R a = Some p \<Longrightarrow> extends a (case p of Wait a' \<Rightarrow> a' | RunTurn a' \<Rightarrow> a' | Stop x a' \<Rightarrow> a')"
proof -
  assume p: "inner_pass fuel R a = Some p"
  let ?a = "snd (ask (latch_Swap R) a)"
  have s: "extends a ?a" by (rule extends_refl) simp
  show ?thesis
  proof (cases "fst (ask (latch_Swap R) a)")
    case True
    then have "p = Wait ?a" using p by (auto simp: inner_pass_def runOneTurn_def Let_def split_def)
    then show ?thesis using s by simp
  next
    case False
    then obtain r e a' where t: "ThinkAct fuel (tenv R) ?a = Some ((r, e), a')" and "p = after_turn R r e a'"
      using p by (auto simp: inner_pass_def runOneTurn_def Let_def split_def)
    then show ?thesis
      using extends_trans [OF extends_trans [OF s ThinkAct_extends [OF t]] after_turn_extends] by blast
  qed
qed

lemma run_loop_extends: "run_loop n fuel R b a = Some (e, a') \<Longrightarrow> extends a a'"
proof (induction n arbitrary: b a)
  case (Suc n)
  have c': "extends (clear_latch R x) y \<Longrightarrow> extends x y" for x y
    by (simp add: extends_def clear_latch_def)
  show ?case
  proof (cases b)
    case True
    then show ?thesis using Suc.prems
      by (auto split: option.splits next_phase.splits dest!: inner_pass_extends Suc.IH intro: extends_trans)
  next
    case False
    then show ?thesis using Suc.prems
      by (auto split: option.splits prod.splits dest!: waitForInput_extends Suc.IH
          intro: extends_trans c')
  qed
qed simp

text \<open>
  A run reports its life in order: the trace gains one start, one stop that carries the error
  the run returns, and between them only inferences and turn reports, none of which reports a
  failed turn -- a failed turn is told by the stop alone.
\<close>

theorem run_reports_one_start_and_one_stop:
  assumes "Run n fuel R a = Some (e, a')"
  shows "\<exists>mid. marks (events a') = marks (events a) @ EvStart # mid @ [EvStop e] \<and> list_all inner_mark mid"
proof -
  obtain b where b: "run_loop n fuel R False (emit EvStart a) = Some (e, b)" and a': "a' = emit (EvStop e) b"
    using assms by (auto simp: Run_def)
  from run_loop_extends [OF b] obtain mid
    where "marks (events b) = marks (events a) @ [EvStart] @ mid" "list_all inner_mark mid"
    by (auto simp: extends_def)
  then show ?thesis by (intro exI [of _ mid]) (simp add: a')
qed

text \<open>
  A run over the script of the turn's witness: one message, a turn, then the closed inbox.
\<close>

definition script_run :: "((err + stream_event list) list \<times> nat) run_env" where
  "script_run = \<lparr>tenv = script_env,
     block_inbox = (\<lambda>(l, n). (if l = [] then WakeClosed else WakeMsg (UserMessage ''hi'' []), l, n)),
     run_ctx_err = Pair None, latch_Swap = Pair False, latch_clear = (\<lambda>w. w)\<rparr>"

definition run_ok :: "(err option \<times> 'w agent) option \<Rightarrow> bool" where
  "run_ok x = (case x of Some (e, a) \<Rightarrow> e = None | None \<Rightarrow> False)"

theorem run_reports_one_start_and_one_stop_witness:
  "\<exists>a' mid. Run 6 6 script_run script_agent = Some (None, a')
     \<and> marks (events a') = EvStart # mid @ [EvStop None] \<and> list_all inner_mark mid"
proof -
  have "run_ok (Run 6 6 script_run script_agent)" by code_simp
  then obtain a' where r: "Run 6 6 script_run script_agent = Some (None, a')"
    by (auto simp: run_ok_def split: option.splits)
  have "marks (events script_agent) = []" by code_simp
  with run_reports_one_start_and_one_stop [OF r] r show ?thesis by auto
qed

subsection \<open>What starts a turn\<close>

definition heard :: "event list \<Rightarrow> bool" where
  "heard evs = list_ex (\<lambda>e. case e of EvMessage m \<Rightarrow> MsgSignal m = NoSignal | _ \<Rightarrow> False) evs"

lemma heard_append [simp]: "heard (xs @ ys) \<longleftrightarrow> heard xs \<or> heard ys"
  by (simp add: heard_def)

lemma ingest_heard:
  "\<exists>new. events (snd (ingest E m a)) = events a @ new \<and> (fst (ingest E m a) \<longrightarrow> heard new)"
  by (auto simp: ingest_def append_msg_def applyCompaction_def Let_def split_def heard_def)

lemma ingestBatch_heard:
  "ingestBatch n R m s a = Some (Inr s', a') \<Longrightarrow>
   \<exists>new. events a' = events a @ new \<and> (s' \<longrightarrow> s \<or> heard new)"
proof (induction n arbitrary: m s a)
  case (Suc n)
  obtain m' where m: "m = Some m'" "MsgSignal m' \<noteq> SigStop"
    using Suc.prems by (cases m) (auto split: if_splits)
  let ?x = "ingest (tenv R) m' a"
  let ?a = "snd (ask (poll_inbox (tenv R)) (snd ?x))"
  obtain new where new: "events ?a = events a @ new" "fst ?x \<longrightarrow> heard new"
    using ingest_heard [of "tenv R" m' a] by auto
  show ?case
  proof (cases "fst (poll_inbox (tenv R) (world (snd ?x)))")
    case Empty
    then show ?thesis using Suc.prems m new by (auto simp: Let_def split_def)
  next
    case Closed
    then have "ingestBatch n R None (s \<or> fst ?x) ?a = Some (Inr s', a')"
      using Suc.prems m by (simp add: Let_def split_def)
    from Suc.IH [OF this] show ?thesis using new by auto
  next
    case (Received m2)
    then have "ingestBatch n R (Some m2) (s \<or> fst ?x) ?a = Some (Inr s', a')"
      using Suc.prems m by (simp add: Let_def split_def)
    from Suc.IH [OF this] show ?thesis using new by auto
  qed
qed simp

text \<open>
  Waiting ends a wait only for work: when \<open>waitForInput\<close> lets a turn start, a real message was
  appended to the conversation as its own entry since the wait began, so control signals alone --
  a manual compaction while idle -- never start an inference.
\<close>

theorem only_messages_start_turns:
  assumes "waitForInput n R a = Some (None, a')"
  shows "\<exists>new. events a' = events a @ new \<and> heard new"
  using assms
proof (induction n arbitrary: a)
  case (Suc n)
  let ?a = "snd (ask (block_inbox R) a)"
  obtain m s b where batch: "ingestBatch n R m False ?a = Some (Inr s, b)"
    and rest: "if s then b = a' else waitForInput n R b = Some (None, a')"
    using Suc.prems by (auto simp: Let_def split_def split: wake.splits option.splits sum.splits if_splits prod.splits)
  obtain new where new: "events b = events a @ new" "s \<longrightarrow> heard new"
    using ingestBatch_heard [OF batch] by auto
  show ?case
  proof (cases s)
    case True
    then show ?thesis using new rest by auto
  next
    case False
    then obtain new' where "events a' = events b @ new' \<and> heard new'" using Suc.IH rest by auto
    then show ?thesis using new by (intro exI [of _ "new @ new'"]) simp
  qed
qed simp

theorem only_messages_start_turns_witness:
  "\<exists>a'. waitForInput 3 script_run script_agent = Some (None, a') \<and> heard (events a')"
proof -
  have "(case waitForInput 3 script_run script_agent of Some (None, a) \<Rightarrow> True | _ \<Rightarrow> False)" by code_simp
  then obtain a' where w: "waitForInput 3 script_run script_agent = Some (None, a')"
    by (auto split: option.splits)
  from only_messages_start_turns [OF this] w show ?thesis by auto
qed

end
