(* ===== verification/Todo.thy ===== *)
theory Todo
  imports Collections
begin

text \<open>
  The task list of a session (\<open>internal/todo/store.go\<close> and \<open>background.go\<close>): items with dependencies,
  the directory in which every item is a file \<open>{id}.json\<close>, and the items that mirror background
  workers.

  A method holds the store's mutex, so it is one step on the pair of the store and the disk.  The
  disk maps a directory to its files; a file holds an item, or nothing that can be decoded.  The
  clock, the manager of background tasks and the outcome of writes are the record \<open>todo_env\<close>.  A
  nil and an empty metadata map behave alike and are one value; ids hold no path separator.
\<close>

subsection \<open>State\<close>

record Item =
  it_ID :: string
  it_Subject :: string
  it_Description :: string
  it_ActiveForm :: string
  it_Status :: string
  it_Owner :: string
  it_Metadata :: "(string, gval) gomap"
  it_Blocks :: "string list"
  it_BlockedBy :: "string list"
  it_CreatedAt :: int
  it_UpdatedAt :: int
  it_StatusChangedAt :: int

abbreviation StatusPending :: string where "StatusPending \<equiv> ''pending''"
abbreviation StatusInProgress :: string where "StatusInProgress \<equiv> ''in_progress''"
abbreviation StatusCompleted :: string where "StatusCompleted \<equiv> ''completed''"
abbreviation StatusDeleted :: string where "StatusDeleted \<equiv> ''deleted''"

record todo_store =
  st_items :: "(string, Item) gomap"
  st_nextID :: int
  st_storageDir :: string
  st_lastDirMod :: int

record item_file =
  fl_item :: "Item option"
  fl_mtime :: int

type_synonym item_dir = "(string, item_file) gomap"
type_synonym disk = "(string, item_dir) gomap"

record todo_env =
  t_now :: int
  t_running :: "string \<Rightarrow> bool"
  t_write_ok :: "string \<Rightarrow> bool"
  t_mkdir_ok :: bool

definition NewStore :: todo_store where
  "NewStore = \<lparr>st_items = gm_empty, st_nextID = 1, st_storageDir = [], st_lastDirMod = 0\<rparr>"

subsection \<open>Background workers\<close>

abbreviation metaTaskID :: string where "metaTaskID \<equiv> ''background_task_id''"
abbreviation metaStatusDetail :: string where "metaStatusDetail \<equiv> ''background_status_detail''"
abbreviation StatusDetailInterrupted :: string where "StatusDetailInterrupted \<equiv> ''interrupted''"

definition metadataString :: "Item \<Rightarrow> string \<Rightarrow> string" where
  "metadataString item key = (case gm_get (it_Metadata item) key of Some (GStr v) \<Rightarrow> v | _ \<Rightarrow> [])"

definition BackgroundTaskID :: "Item \<Rightarrow> string" where
  "BackgroundTaskID item = metadataString item metaTaskID"

definition BackgroundStatusDetail :: "Item \<Rightarrow> string" where
  "BackgroundStatusDetail item = metadataString item metaStatusDetail"

definition WorkerRunning :: "todo_env \<Rightarrow> Item \<Rightarrow> bool" where
  "WorkerRunning E item = (let i = BackgroundTaskID item in i \<noteq> [] \<and> t_running E i)"

definition EndedAbnormally :: "Item \<Rightarrow> bool" where
  "EndedAbnormally item =
     (BackgroundStatusDetail item \<in> {''failed'', ''killed'', ''stopped'', StatusDetailInterrupted})"

subsection \<open>Files\<close>

definition item_name :: "string \<Rightarrow> string" where
  "item_name i = i @ ''.json''"

definition dir_of :: "disk \<Rightarrow> string \<Rightarrow> item_dir" where
  "dir_of d dir = (case gm_get d dir of None \<Rightarrow> gm_empty | Some fs \<Rightarrow> fs)"

definition put_file :: "string \<Rightarrow> string \<Rightarrow> item_file \<Rightarrow> disk \<Rightarrow> disk" where
  "put_file dir name f d = gm_put dir (gm_put name f (dir_of d dir)) d"

definition del_file :: "string \<Rightarrow> string \<Rightarrow> disk \<Rightarrow> disk" where
  "del_file dir name d =
     (case gm_get d dir of None \<Rightarrow> d | Some fs \<Rightarrow> gm_put dir (gm_del name fs) d)"

definition persistItem :: "todo_env \<Rightarrow> todo_store \<Rightarrow> Item \<Rightarrow> disk \<Rightarrow> disk" where
  "persistItem E s item d =
     (let name = item_name (it_ID item)
      in if st_storageDir s = [] \<or> \<not> t_write_ok E name then d
         else put_file (st_storageDir s) name \<lparr>fl_item = Some item, fl_mtime = t_now E\<rparr> d)"

definition removeItemFile :: "todo_store \<Rightarrow> string \<Rightarrow> disk \<Rightarrow> disk" where
  "removeItemFile s i d =
     (if st_storageDir s = [] then d else del_file (st_storageDir s) (item_name i) d)"

text \<open>One item of the loops of \<open>loadFromDisk\<close> and \<open>Import\<close>.\<close>

definition adopt_item :: "Item \<Rightarrow> todo_store \<Rightarrow> todo_store" where
  "adopt_item item s =
     s\<lparr>st_items := gm_put (it_ID item) item (st_items s),
       st_nextID := (case scan_int (it_ID item) of
                       Some n \<Rightarrow> (if st_nextID s \<le> n then wrap64 (n + 1) else st_nextID s)
                     | None \<Rightarrow> st_nextID s)\<rparr>"

definition load_file :: "string \<times> item_file \<Rightarrow> todo_store \<Rightarrow> todo_store" where
  "load_file e s =
     (if \<not> has_suffix (fst e) ''.json'' then s
      else case fl_item (snd e) of None \<Rightarrow> s | Some item \<Rightarrow> adopt_item item s)"

definition ReadDir :: "disk \<Rightarrow> string \<Rightarrow> (string \<times> item_file) list option" where
  "ReadDir d dir = map_option (sort_lt (\<lambda>a b. str_less (fst a) (fst b))) (gm_get d dir)"

definition loadFromDisk :: "todo_store \<Rightarrow> disk \<Rightarrow> bool \<times> todo_store" where
  "loadFromDisk s d =
     (case ReadDir d (st_storageDir s) of
        None \<Rightarrow> (False, s)
      | Some es \<Rightarrow> (True, fold load_file es (s\<lparr>st_items := gm_empty, st_nextID := 1\<rparr>)))"

subsection \<open>Adoption\<close>

definition demoted :: "todo_env \<Rightarrow> Item \<Rightarrow> Item" where
  "demoted E item =
     (if it_Status item \<noteq> StatusInProgress \<or> WorkerRunning E item then item
      else (if BackgroundTaskID item \<noteq> []
            then item\<lparr>it_Status := StatusCompleted,
                      it_Metadata := gm_put metaStatusDetail (GStr StatusDetailInterrupted) (it_Metadata item)\<rparr>
            else item\<lparr>it_Status := StatusPending\<rparr>)\<lparr>it_StatusChangedAt := t_now E\<rparr>)"

definition orphaned :: "todo_env \<Rightarrow> Item \<Rightarrow> bool" where
  "orphaned E item \<longleftrightarrow> it_Status item = StatusInProgress \<and> \<not> WorkerRunning E item"

definition demoteOrphanedItems :: "todo_env \<Rightarrow> todo_store \<times> disk \<Rightarrow> todo_store \<times> disk" where
  "demoteOrphanedItems E w =
     (case w of (s, d) \<Rightarrow>
       (s\<lparr>st_items := List.map (\<lambda>(k, item). (k, demoted E item)) (st_items s)\<rparr>,
        fold (\<lambda>item d. persistItem E s (demoted E item) d)
          (filter (orphaned E) (gm_vals (st_items s))) d))"

definition make_dir :: "todo_env \<Rightarrow> string \<Rightarrow> disk \<Rightarrow> disk" where
  "make_dir E dir d =
     (let d = (if gm_get d dir = None then gm_put dir gm_empty d else d)
      in if gm_get (dir_of d dir) ''.lock'' = None
         then put_file dir ''.lock'' \<lparr>fl_item = None, fl_mtime = t_now E\<rparr> d else d)"

definition SetStorageDir :: "todo_env \<Rightarrow> string \<Rightarrow> todo_store \<times> disk \<Rightarrow> bool \<times> todo_store \<times> disk" where
  "SetStorageDir E dir w =
     (case w of (s, d) \<Rightarrow>
       (let s = s\<lparr>st_storageDir := dir\<rparr>
        in if dir = [] then (True, s, d)
           else if \<not> t_mkdir_ok E then (False, s, d)
           else let d = make_dir E dir d;
                    (ok, s) = loadFromDisk s d
                in if \<not> ok then (False, s, d) else (True, demoteOrphanedItems E (s, d))))"

definition Import :: "todo_env \<Rightarrow> Item list \<Rightarrow> todo_store \<times> disk \<Rightarrow> todo_store \<times> disk" where
  "Import E items w =
     (case w of (s, d) \<Rightarrow>
       demoteOrphanedItems E
         (fold adopt_item items (s\<lparr>st_items := gm_empty, st_nextID := 1\<rparr>),
          fold (persistItem E s) items d))"

definition ReloadFromDisk :: "todo_env \<Rightarrow> todo_store \<times> disk \<Rightarrow> todo_store \<times> disk" where
  "ReloadFromDisk E w =
     (case w of (s, d) \<Rightarrow>
       (if st_storageDir s = [] then (s, d)
        else case ReadDir d (st_storageDir s) of
               None \<Rightarrow> (s, d)
             | Some es \<Rightarrow>
                 (if \<not> list_ex (\<lambda>e. has_suffix (fst e) ''.json'' \<and> st_lastDirMod s < fl_mtime (snd e)) es
                     \<and> st_lastDirMod s \<noteq> 0 then (s, d)
                  else (snd (loadFromDisk (s\<lparr>st_lastDirMod := t_now E\<rparr>) d), d))))"

subsection \<open>Operations\<close>

definition new_item :: "todo_env \<Rightarrow> string \<Rightarrow> string \<Rightarrow> string \<Rightarrow> string \<Rightarrow> (string, gval) gomap \<Rightarrow> Item" where
  "new_item E i subject description activeForm metadata =
     \<lparr>it_ID = i, it_Subject = subject, it_Description = description, it_ActiveForm = activeForm,
      it_Status = StatusPending, it_Owner = [], it_Metadata = metadata, it_Blocks = [],
      it_BlockedBy = [], it_CreatedAt = t_now E, it_UpdatedAt = t_now E,
      it_StatusChangedAt = t_now E\<rparr>"

definition Create_item :: "todo_env \<Rightarrow> string \<Rightarrow> string \<Rightarrow> string \<Rightarrow> (string, gval) gomap
    \<Rightarrow> todo_store \<times> disk \<Rightarrow> Item \<times> todo_store \<times> disk" where
  "Create_item E subject description activeForm metadata w =
     (case w of (s, d) \<Rightarrow>
       (let i = int_str (st_nextID s);
            s = s\<lparr>st_nextID := wrap64 (st_nextID s + 1)\<rparr>;
            item = new_item E i subject description activeForm metadata;
            s = s\<lparr>st_items := gm_put i item (st_items s)\<rparr>
        in (item, s, persistItem E s item d)))"

definition Get_item :: "todo_store \<Rightarrow> string \<Rightarrow> Item option" where
  "Get_item s i =
     (case gm_get (st_items s) i of
        Some item \<Rightarrow> (if it_Status item = StatusDeleted then None else Some item)
      | None \<Rightarrow> None)"

definition appendUnique :: "string list \<Rightarrow> string list \<Rightarrow> string list" where
  "appendUnique slice ids = fold (\<lambda>i acc. if i \<in> set acc then acc else acc @ [i]) ids slice"

datatype update_option =
  WithStatus string | WithSubject string | WithDescription string | WithActiveForm string
| WithOwner string | WithMetadata "(string, gval) gomap" | WithAddBlocks "string list"
| WithAddBlockedBy "string list"

definition merge_metadata :: "(string, gval) gomap \<Rightarrow> (string, gval) gomap \<Rightarrow> (string, gval) gomap" where
  "merge_metadata metadata m =
     fold (\<lambda>(k, v) m. if v = GNil then gm_del k m else gm_put k v m) metadata m"

fun apply_option :: "todo_env \<Rightarrow> update_option \<Rightarrow> Item \<Rightarrow> Item" where
  "apply_option E (WithStatus status) t =
     (if it_Status t \<noteq> status then t\<lparr>it_StatusChangedAt := t_now E\<rparr> else t)\<lparr>it_Status := status\<rparr>"
| "apply_option E (WithSubject x) t = t\<lparr>it_Subject := x\<rparr>"
| "apply_option E (WithDescription x) t = t\<lparr>it_Description := x\<rparr>"
| "apply_option E (WithActiveForm x) t = t\<lparr>it_ActiveForm := x\<rparr>"
| "apply_option E (WithOwner x) t = t\<lparr>it_Owner := x\<rparr>"
| "apply_option E (WithMetadata m) t = t\<lparr>it_Metadata := merge_metadata m (it_Metadata t)\<rparr>"
| "apply_option E (WithAddBlocks ids) t = t\<lparr>it_Blocks := appendUnique (it_Blocks t) ids\<rparr>"
| "apply_option E (WithAddBlockedBy ids) t = t\<lparr>it_BlockedBy := appendUnique (it_BlockedBy t) ids\<rparr>"

definition Update_item :: "todo_env \<Rightarrow> string \<Rightarrow> update_option list \<Rightarrow> todo_store \<times> disk
    \<Rightarrow> string option \<times> todo_store \<times> disk" where
  "Update_item E i opts w =
     (case w of (s, d) \<Rightarrow>
       (case gm_get (st_items s) i of
          None \<Rightarrow> (Some (''item '' @ i @ '' not found''), s, d)
        | Some item \<Rightarrow>
            (let item = (fold (apply_option E) opts item)\<lparr>it_UpdatedAt := t_now E\<rparr>
             in (None, s\<lparr>st_items := gm_put i item (st_items s)\<rparr>, persistItem E s item d))))"

definition Delete_item :: "todo_env \<Rightarrow> string \<Rightarrow> todo_store \<times> disk \<Rightarrow> string option \<times> todo_store \<times> disk" where
  "Delete_item E i w =
     (case w of (s, d) \<Rightarrow>
       (case gm_get (st_items s) i of
          None \<Rightarrow> (Some (''item '' @ i @ '' not found''), s, d)
        | Some item \<Rightarrow>
            (None,
             s\<lparr>st_items := gm_put i (item\<lparr>it_Status := StatusDeleted, it_UpdatedAt := t_now E\<rparr>) (st_items s)\<rparr>,
             removeItemFile s i d)))"

definition Reset_items :: "todo_store \<times> disk \<Rightarrow> todo_store \<times> disk" where
  "Reset_items w =
     (case w of (s, d) \<Rightarrow>
       (s\<lparr>st_items := gm_empty, st_nextID := 1\<rparr>,
        fold (removeItemFile s) (gm_keys (st_items s)) d))"

subsection \<open>Queries\<close>

definition compareNumericIDs :: "string \<Rightarrow> string \<Rightarrow> bool" where
  "compareNumericIDs a b =
     (case (atoi a, atoi b) of (Some na, Some nb) \<Rightarrow> na < nb | _ \<Rightarrow> str_less a b)"

definition sorted_by_id :: "Item list \<Rightarrow> Item list" where
  "sorted_by_id = sort_lt (\<lambda>a b. compareNumericIDs (it_ID a) (it_ID b))"

definition List_items :: "todo_store \<Rightarrow> Item list" where
  "List_items s = sorted_by_id (filter (\<lambda>item. it_Status item \<noteq> StatusDeleted) (gm_vals (st_items s)))"

definition Export :: "todo_store \<Rightarrow> Item list" where
  "Export s = sorted_by_id (gm_vals (st_items s))"

definition open_item :: "todo_store \<Rightarrow> string \<Rightarrow> bool" where
  "open_item s i =
     (case gm_get (st_items s) i of
        None \<Rightarrow> False
      | Some blocker \<Rightarrow> it_Status blocker \<noteq> StatusCompleted \<and> it_Status blocker \<noteq> StatusDeleted)"

definition IsBlocked :: "todo_store \<Rightarrow> string \<Rightarrow> bool" where
  "IsBlocked s i =
     (case Get_item s i of None \<Rightarrow> False | Some item \<Rightarrow> list_ex (open_item s) (it_BlockedBy item))"

definition OpenBlockers :: "todo_store \<Rightarrow> string \<Rightarrow> string list" where
  "OpenBlockers s i =
     (case Get_item s i of None \<Rightarrow> [] | Some item \<Rightarrow> filter (open_item s) (it_BlockedBy item))"

definition AllMarkedCompleted :: "todo_store \<Rightarrow> bool" where
  "AllMarkedCompleted s =
     (st_items s \<noteq> [] \<and>
      list_all (\<lambda>t. it_Status t = StatusDeleted \<or> it_Status t = StatusCompleted) (gm_vals (st_items s)))"

definition FindByMetadata :: "todo_store \<Rightarrow> string \<Rightarrow> string \<Rightarrow> Item option" where
  "FindByMetadata s key want =
     (if want = [] then None
      else List.find (\<lambda>t. it_Status t \<noteq> StatusDeleted \<and> gm_get (it_Metadata t) key = Some (GStr want))
             (gm_vals (st_items s)))"

subsection \<open>Mirroring background workers\<close>

record TaskInfo =
  ti_ID :: string
  ti_Description :: string
  ti_Status :: string
  ti_Command :: string
  ti_AgentName :: string

definition workerSubject :: "TaskInfo \<Rightarrow> string" where
  "workerSubject info =
     (let name = trim_space (ti_AgentName info); desc = trim_space (ti_Description info)
      in if name \<noteq> [] \<and> desc \<noteq> [] \<and> to_lower name \<noteq> to_lower desc then name @ '': '' @ desc
         else if desc \<noteq> [] then desc
         else if name \<noteq> [] then name
         else if ti_Command info \<noteq> [] then ti_Command info
         else ti_ID info)"

definition worker_metadata :: "TaskInfo \<Rightarrow> string \<Rightarrow> (string, gval) gomap" where
  "worker_metadata info detail = [(metaTaskID, GStr (ti_ID info)), (metaStatusDetail, GStr detail)]"

definition TrackWorker :: "todo_env \<Rightarrow> TaskInfo \<Rightarrow> todo_store \<times> disk \<Rightarrow> todo_store \<times> disk" where
  "TrackWorker E info w =
     (if ti_ID info = [] then w
      else let metadata = worker_metadata info ''running''
           in case FindByMetadata (fst w) metaTaskID (ti_ID info) of
                Some existing \<Rightarrow>
                  snd (Update_item E (it_ID existing)
                    [WithSubject (workerSubject info), WithDescription (ti_Description info),
                     WithStatus StatusInProgress, WithMetadata metadata] w)
              | None \<Rightarrow>
                  (let (item, w) = Create_item E (workerSubject info) (ti_Description info) [] metadata w
                   in snd (Update_item E (it_ID item)
                        (WithStatus StatusInProgress
                          # (if ti_AgentName info \<noteq> [] then [WithOwner (ti_AgentName info)] else [])) w)))"

definition CompleteWorker :: "todo_env \<Rightarrow> TaskInfo \<Rightarrow> todo_store \<times> disk \<Rightarrow> todo_store \<times> disk" where
  "CompleteWorker E info w =
     (case FindByMetadata (fst w) metaTaskID (ti_ID info) of
        None \<Rightarrow> w
      | Some item \<Rightarrow>
          (let subject = (if it_Subject item = [] then workerSubject info else it_Subject item);
               detail = (if ti_Status info = [] then ''completed'' else ti_Status info)
           in snd (Update_item E (it_ID item)
                [WithSubject subject, WithDescription (ti_Description info), WithStatus StatusCompleted,
                 WithMetadata (worker_metadata info detail)] w)))"

subsection \<open>Sequences of operations\<close>

datatype todo_op =
  OpCreate string string string "(string, gval) gomap" | OpUpdate string "update_option list"
| OpDelete string | OpReset | OpImport "Item list" | OpReload | OpSetDir string
| OpTrack TaskInfo | OpComplete TaskInfo

fun exec_op :: "todo_env \<Rightarrow> todo_op \<Rightarrow> todo_store \<times> disk \<Rightarrow> todo_store \<times> disk" where
  "exec_op E (OpCreate subj desc act m) w = snd (Create_item E subj desc act m w)"
| "exec_op E (OpUpdate i opts) w = snd (Update_item E i opts w)"
| "exec_op E (OpDelete i) w = snd (Delete_item E i w)"
| "exec_op E OpReset w = Reset_items w"
| "exec_op E (OpImport items) w = Import E items w"
| "exec_op E OpReload w = ReloadFromDisk E w"
| "exec_op E (OpSetDir dir) w = snd (SetStorageDir E dir w)"
| "exec_op E (OpTrack info) w = TrackWorker E info w"
| "exec_op E (OpComplete info) w = CompleteWorker E info w"

fun run_ops :: "(todo_env \<times> todo_op) list \<Rightarrow> todo_store \<times> disk \<Rightarrow> todo_store \<times> disk" where
  "run_ops [] w = w"
| "run_ops ((E, op) # ops) w = run_ops ops (exec_op E op w)"

text \<open>No id reaches the largest 64-bit integer, after which the counter would wrap around.\<close>

definition id_fits :: "Item \<Rightarrow> bool" where
  "id_fits item = (scan_int (it_ID item) \<noteq> Some (2 ^ 63 - 1))"

definition files_fit :: "disk \<Rightarrow> string \<Rightarrow> bool" where
  "files_fit d dir = list_all (\<lambda>f. case fl_item f of None \<Rightarrow> True | Some item \<Rightarrow> id_fits item) (gm_vals (dir_of d dir))"

fun op_fits :: "todo_op \<Rightarrow> todo_store \<times> disk \<Rightarrow> bool" where
  "op_fits (OpCreate subj desc act m) w = (st_nextID (fst w) < 2 ^ 63 - 1)"
| "op_fits (OpTrack info) w = (st_nextID (fst w) < 2 ^ 63 - 1)"
| "op_fits (OpImport items) w = list_all id_fits items"
| "op_fits OpReload w = files_fit (snd w) (st_storageDir (fst w))"
| "op_fits (OpSetDir dir) w = files_fit (snd w) dir"
| "op_fits _ w = True"

fun ops_fit :: "(todo_env \<times> todo_op) list \<Rightarrow> todo_store \<times> disk \<Rightarrow> bool" where
  "ops_fit [] w = True"
| "ops_fit ((E, op) # ops) w = (op_fits op w \<and> ops_fit ops (exec_op E op w))"

subsection \<open>Ids\<close>

definition todo_ok :: "todo_store \<Rightarrow> bool" where
  "todo_ok s \<longleftrightarrow> gm_ok (st_items s) \<and> 1 \<le> st_nextID s
     \<and> (\<forall>k item. gm_get (st_items s) k = Some item \<longrightarrow> it_ID item = k)
     \<and> (\<forall>k n. gm_get (st_items s) k \<noteq> None \<longrightarrow> scan_int k = Some n \<longrightarrow> n < st_nextID s)"

lemma todo_ok_id: "todo_ok s \<Longrightarrow> gm_get (st_items s) k = Some item \<Longrightarrow> it_ID item = k"
  by (simp add: todo_ok_def)

lemma todo_ok_gm: "todo_ok s \<Longrightarrow> gm_ok (st_items s)"
  by (simp add: todo_ok_def)

lemma todo_ok_empty: "todo_ok (s\<lparr>st_items := gm_empty, st_nextID := 1\<rparr>)"
  by (simp add: todo_ok_def gm.ok_empty gm.get_empty)

lemma todo_ok_dir [simp]:
  "todo_ok (s\<lparr>st_storageDir := dir\<rparr>) = todo_ok s" "todo_ok (s\<lparr>st_lastDirMod := t\<rparr>) = todo_ok s"
  by (simp_all add: todo_ok_def)

lemma wrap64_small: "- (2 ^ 63) \<le> i \<Longrightarrow> i < 2 ^ 63 \<Longrightarrow> wrap64 i = i"
  by (simp add: wrap64_def)

lemma atoi_range: "atoi s = Some n \<Longrightarrow> - (2 ^ 63) \<le> n \<and> n < 2 ^ 63"
  by (auto simp: atoi_def Let_def split: prod.splits if_splits)

lemma scan_int_range: "scan_int s = Some n \<Longrightarrow> - (2 ^ 63) \<le> n \<and> n < 2 ^ 63"
  by (auto simp: scan_int_def Let_def dest!: atoi_range split: prod.splits)

lemma adopt_item_ok:
  assumes "todo_ok s" "id_fits item"
  shows "todo_ok (adopt_item item s)"
proof (cases "scan_int (it_ID item)")
  case None
  then show ?thesis using assms
    by (auto simp: todo_ok_def adopt_item_def gm.ok_put gm.get_put)
next
  case (Some n)
  then have n: "n < 2 ^ 63 - 1" "- (2 ^ 63) \<le> n"
    using assms(2) scan_int_range [OF Some] by (auto simp: id_fits_def)
  then have "wrap64 (n + 1) = n + 1" by (simp add: wrap64_small)
  then show ?thesis using assms(1) Some
    by (fastforce simp: todo_ok_def adopt_item_def gm.ok_put gm.get_put)
qed

lemma adopt_items_ok: "todo_ok s \<Longrightarrow> list_all id_fits items \<Longrightarrow> todo_ok (fold adopt_item items s)"
  by (induction items arbitrary: s) (auto simp: adopt_item_ok)

lemma load_files_ok:
  "todo_ok s \<Longrightarrow> (\<And>name f item. (name, f) \<in> set es \<Longrightarrow> fl_item f = Some item \<Longrightarrow> id_fits item)
    \<Longrightarrow> todo_ok (fold load_file es s)"
proof (induction es arbitrary: s)
  case (Cons e es)
  have "todo_ok (load_file e s)"
  proof (cases "fl_item (snd e)")
    case (Some item)
    then have "id_fits item" using Cons.prems(2) [of "fst e" "snd e" item] by simp
    then show ?thesis using Cons.prems(1) Some by (simp add: load_file_def adopt_item_ok)
  qed (use Cons.prems(1) in \<open>simp add: load_file_def\<close>)
  then show ?case using Cons.IH Cons.prems(2) by (metis fold_simps(2) list.set_intros(2))
qed simp

lemma loadFromDisk_ok:
  assumes "todo_ok s" "files_fit d (st_storageDir s)"
  shows "todo_ok (snd (loadFromDisk s d))"
proof (cases "gm_get d (st_storageDir s)")
  case None
  then show ?thesis using assms(1) by (simp add: loadFromDisk_def ReadDir_def)
next
  case (Some fs)
  have "id_fits item" if "(name, f) \<in> set fs" "fl_item f = Some item" for name f item
    using that assms(2) Some
    by (force simp: files_fit_def dir_of_def gm_vals_def list_all_iff split: option.splits)
  then show ?thesis
    using Some by (auto simp: loadFromDisk_def ReadDir_def intro!: load_files_ok todo_ok_empty)
qed

lemma it_ID_demoted [simp]: "it_ID (demoted E item) = it_ID item"
  by (simp add: demoted_def)

lemma gm_get_map_vals: "gm_get (List.map (\<lambda>(k, v). (k, f v)) m) k = map_option f (gm_get m k)"
  by (induction m) (auto simp: gm_get_def)

lemma gm_ok_map_vals: "gm_ok (List.map (\<lambda>(k, v). (k, f v)) m) = gm_ok m"
  by (simp add: gm_ok_def comp_def case_prod_beta)

lemma demote_ok: "todo_ok s \<Longrightarrow> todo_ok (fst (demoteOrphanedItems E (s, d)))"
  by (auto simp: todo_ok_def demoteOrphanedItems_def gm_get_map_vals gm_ok_map_vals)

lemma it_ID_apply_option [simp]: "it_ID (apply_option E opt t) = it_ID t"
  by (cases opt) simp_all

lemma it_ID_apply_options [simp]: "it_ID (fold (apply_option E) opts t) = it_ID t"
  by (induction opts arbitrary: t) simp_all

lemma put_item_ok:
  assumes "todo_ok s" "gm_get (st_items s) i = Some old" "it_ID item = i"
  shows "todo_ok (s\<lparr>st_items := gm_put i item (st_items s)\<rparr>)"
  using assms by (auto simp: todo_ok_def gm.ok_put gm.get_put)

lemma Update_ok: "todo_ok (fst w) \<Longrightarrow> todo_ok (fst (snd (Update_item E i opts w)))"
  by (cases w) (auto simp: Update_item_def Let_def todo_ok_id intro!: put_item_ok split: option.split)

lemma Delete_ok: "todo_ok (fst w) \<Longrightarrow> todo_ok (fst (snd (Delete_item E i w)))"
  by (cases w) (auto simp: Delete_item_def todo_ok_id intro!: put_item_ok split: option.split)

lemma fresh_id_unused:
  assumes "todo_ok s" "st_nextID s < 2 ^ 63"
  shows "gm_get (st_items s) (int_str (st_nextID s)) = None"
proof (rule ccontr)
  assume "gm_get (st_items s) (int_str (st_nextID s)) \<noteq> None"
  moreover have "scan_int (int_str (st_nextID s)) = Some (st_nextID s)"
    using assms by (simp add: todo_ok_def scan_int_int_str)
  ultimately have "st_nextID s < st_nextID s" using assms(1) unfolding todo_ok_def by blast
  then show False by simp
qed

lemma Create_ok:
  assumes "todo_ok (fst w)" "st_nextID (fst w) < 2 ^ 63 - 1"
  shows "todo_ok (fst (snd (Create_item E subj desc act m w)))"
proof -
  have "wrap64 (st_nextID (fst w) + 1) = st_nextID (fst w) + 1"
    using assms by (simp add: todo_ok_def wrap64_small)
  moreover have "scan_int (int_str (st_nextID (fst w))) = Some (st_nextID (fst w))"
    using assms by (simp add: todo_ok_def scan_int_int_str)
  ultimately show ?thesis using assms
    by (cases w) (fastforce simp: Create_item_def Let_def todo_ok_def gm.ok_put gm.get_put new_item_def)
qed

lemma Import_ok: "list_all id_fits items \<Longrightarrow> todo_ok (fst (Import E items w))"
  by (cases w) (simp add: Import_def demote_ok adopt_items_ok todo_ok_empty)

lemma ReloadFromDisk_ok:
  "todo_ok (fst w) \<Longrightarrow> files_fit (snd w) (st_storageDir (fst w)) \<Longrightarrow> todo_ok (fst (ReloadFromDisk E w))"
  by (cases w) (auto simp: ReloadFromDisk_def intro!: loadFromDisk_ok split: option.split)

lemma dir_of_put [simp]: "dir_of (gm_put dir fs d) dir = fs"
  by (simp add: dir_of_def gm.get_put)

lemma files_fit_put_nothing:
  "files_fit d dir \<Longrightarrow> fl_item f = None \<Longrightarrow> files_fit (put_file dir name f d) dir"
  using gm_vals_put [of name f "dir_of d dir"] by (auto simp: files_fit_def put_file_def list_all_iff)

lemma files_fit_make_dir: "files_fit d dir \<Longrightarrow> files_fit (make_dir E dir d) dir"
proof -
  assume "files_fit d dir"
  then have "files_fit (if gm_get d dir = None then gm_put dir gm_empty d else d) dir"
    by (simp add: files_fit_def gm_vals_def gm_empty_def)
  then show ?thesis by (simp add: make_dir_def Let_def files_fit_put_nothing del: split_paired_Ex)
qed

lemma SetStorageDir_ok:
  assumes "todo_ok (fst w)" "files_fit (snd w) dir"
  shows "todo_ok (fst (snd (SetStorageDir E dir w)))"
proof -
  obtain s d where w: "w = (s, d)" by fastforce
  obtain ok s' where l: "loadFromDisk (s\<lparr>st_storageDir := dir\<rparr>) (make_dir E dir d) = (ok, s')" by fastforce
  have "todo_ok s'"
    using loadFromDisk_ok [of "s\<lparr>st_storageDir := dir\<rparr>" "make_dir E dir d"] assms w l
    by (simp add: files_fit_make_dir)
  then show ?thesis using assms w l by (simp add: SetStorageDir_def Let_def demote_ok)
qed

lemma TrackWorker_ok:
  assumes "todo_ok (fst w)" "st_nextID (fst w) < 2 ^ 63 - 1"
  shows "todo_ok (fst (TrackWorker E info w))"
proof (cases "FindByMetadata (fst w) metaTaskID (ti_ID info)")
  case None
  obtain item w' where c: "Create_item E (workerSubject info) (ti_Description info) []
      (worker_metadata info ''running'') w = (item, w')"
    using prod.exhaust by blast
  then have "todo_ok (fst w')" using Create_ok [OF assms] by (metis snd_conv)
  then show ?thesis using assms c None by (simp add: TrackWorker_def Update_ok)
next
  case (Some a)
  then show ?thesis using assms by (simp add: TrackWorker_def Update_ok)
qed

lemma CompleteWorker_ok: "todo_ok (fst w) \<Longrightarrow> todo_ok (fst (CompleteWorker E info w))"
  by (simp add: CompleteWorker_def Let_def Update_ok split: option.split)

lemma exec_op_ok: "todo_ok (fst w) \<Longrightarrow> op_fits op w \<Longrightarrow> todo_ok (fst (exec_op E op w))"
  by (cases op) (auto simp: Create_ok Update_ok Delete_ok Import_ok ReloadFromDisk_ok SetStorageDir_ok
      TrackWorker_ok CompleteWorker_ok, cases w, simp add: Reset_items_def todo_ok_empty)

lemma run_ops_ok: "todo_ok (fst w) \<Longrightarrow> ops_fit ops w \<Longrightarrow> todo_ok (fst (run_ops ops w))"
  by (induction ops w rule: run_ops.induct) (auto simp: exec_op_ok)

lemma todo_ok_NewStore: "todo_ok NewStore"
  by (simp add: NewStore_def todo_ok_def gm.ok_empty gm.get_empty)

subsection \<open>What adoption does to items in progress\<close>

lemma not_orphaned_demoted [simp]: "\<not> orphaned E (demoted E item)"
  by (simp add: orphaned_def demoted_def)

lemma demoted_cases:
  "demoted E item = item \<or>
     orphaned E item \<and> it_Status (demoted E item)
       = (if BackgroundTaskID item = [] then StatusPending else StatusCompleted)"
  by (simp add: demoted_def orphaned_def)

lemma gm_get_demoted:
  "gm_get (st_items (fst (demoteOrphanedItems E (s, d)))) k = map_option (demoted E) (gm_get (st_items s) k)"
  by (simp add: demoteOrphanedItems_def gm_get_map_vals)

lemma adopt_item_get:
  "gm_get (st_items (adopt_item item s)) k = (if k = it_ID item then Some item else gm_get (st_items s) k)"
  by (simp add: adopt_item_def gm.get_put)

lemma adopt_items_get_origin:
  "gm_get (st_items (fold adopt_item items s)) k = Some item
    \<Longrightarrow> item \<in> set items \<and> it_ID item = k \<or> gm_get (st_items s) k = Some item"
  by (induction items arbitrary: s) (fastforce simp: adopt_item_get split: if_splits)+

lemma load_file_get_origin:
  "gm_get (st_items (fold load_file es s)) k = Some item
    \<Longrightarrow> (\<exists>e \<in> set es. has_suffix (fst e) ''.json'' \<and> fl_item (snd e) = Some item \<and> it_ID item = k)
      \<or> gm_get (st_items s) k = Some item"
proof (induction es arbitrary: s)
  case (Cons e es)
  then consider (old) "gm_get (st_items (load_file e s)) k = Some item"
    | (new) "\<exists>e \<in> set es. has_suffix (fst e) ''.json'' \<and> fl_item (snd e) = Some item \<and> it_ID item = k"
    by (metis fold_simps(2))
  then show ?case
    by cases (auto simp: load_file_def adopt_item_get split: if_splits option.splits)
qed simp

lemma loadFromDisk_origin:
  assumes "loadFromDisk s d = (True, s')" "gm_get (st_items s') k = Some item"
  shows "\<exists>name f. (name, f) \<in> set (dir_of d (st_storageDir s)) \<and> has_suffix name ''.json''
           \<and> fl_item f = Some item \<and> it_ID item = k"
  using assms load_file_get_origin [of _ "s\<lparr>st_items := gm_empty, st_nextID := 1\<rparr>" k item]
  by (fastforce simp: loadFromDisk_def ReadDir_def dir_of_def gm.get_empty split: option.splits)

lemma gm_put_in: "(j, x) \<in> set (gm_put k v m) \<Longrightarrow> (j, x) = (k, v) \<or> (j, x) \<in> set m"
  by (induction m) (auto simp: gm_put_def split: if_splits)

lemma make_dir_files:
  assumes "(name, f) \<in> set (dir_of (make_dir E dir d) dir)" "has_suffix name ''.json''"
  shows "(name, f) \<in> set (dir_of d dir)"
proof -
  have base: "dir_of (if gm_get d dir = None then gm_put dir gm_empty d else d) dir = dir_of d dir"
    by (simp add: dir_of_def gm.get_put)
  have "name \<noteq> ''.lock''" using assms(2) by (auto simp: has_suffix_def)
  then show ?thesis
    using assms(1) base
    by (auto simp: make_dir_def Let_def put_file_def split: if_splits dest!: gm_put_in)
qed

text \<open>
  Adopting a directory: every item in memory comes from a file of the directory, none of them is
  in progress unless its worker is running, and an item changes only if it was in progress without
  a running worker -- then a worker's item is completed and a planned item is pending again.
\<close>

theorem adoption_demotes_orphans:
  assumes "SetStorageDir E dir (s, d) = (True, s', d')" "dir \<noteq> []"
    and "gm_get (st_items s') k = Some item"
  shows "(it_Status item = StatusInProgress \<longrightarrow> WorkerRunning E item) \<and>
    (\<exists>name f old. (name, f) \<in> set (dir_of d dir) \<and> fl_item f = Some old \<and> it_ID old = k
       \<and> (item = old \<or> it_Status old = StatusInProgress \<and> \<not> WorkerRunning E old
            \<and> it_Status item = (if BackgroundTaskID old = [] then StatusPending else StatusCompleted)))"
proof -
  obtain s1 where l: "loadFromDisk (s\<lparr>st_storageDir := dir\<rparr>) (make_dir E dir d) = (True, s1)"
    and s': "s' = fst (demoteOrphanedItems E (s1, make_dir E dir d))"
    using assms(1,2) by (auto simp: SetStorageDir_def Let_def split: prod.splits if_splits)
  then obtain old where old: "gm_get (st_items s1) k = Some old" "item = demoted E old"
    using assms(3) by (auto simp: gm_get_demoted)
  then obtain name f where "(name, f) \<in> set (dir_of (make_dir E dir d) dir)" "has_suffix name ''.json''"
      "fl_item f = Some old" "it_ID old = k"
    using loadFromDisk_origin [OF l] by fastforce
  then have "\<exists>name f old. (name, f) \<in> set (dir_of d dir) \<and> fl_item f = Some old \<and> it_ID old = k
       \<and> (item = old \<or> it_Status old = StatusInProgress \<and> \<not> WorkerRunning E old
            \<and> it_Status item = (if BackgroundTaskID old = [] then StatusPending else StatusCompleted))"
    using make_dir_files demoted_cases [of E old] old(2) unfolding orphaned_def by blast
  moreover have "\<not> orphaned E item" using old(2) by simp
  ultimately show ?thesis unfolding orphaned_def by blast
qed

subsection \<open>New ids\<close>

lemma Create_frame:
  assumes "Create_item E subj desc act m (s, d) = (item, s', d')"
  shows "it_ID item = int_str (st_nextID s)" "it_Status item = StatusPending" "it_Metadata item = m"
    "gm_get (st_items s') j = (if j = it_ID item then Some item else gm_get (st_items s) j)"
    "st_storageDir s' = st_storageDir s" "gm_ok (st_items s) \<Longrightarrow> gm_ok (st_items s')"
  using assms by (auto simp: Create_item_def Let_def new_item_def gm.get_put gm.ok_put)

text \<open>
  A new item never takes the id of an item in memory, whatever was info' before -- creating,
  updating, deleting, importing, loading -- and it leaves every other item as it is.
\<close>

theorem new_items_get_fresh_ids:
  assumes "ops_fit ops (NewStore, d0)" and "run_ops ops (NewStore, d0) = (s, d)"
    and "st_nextID s < 2 ^ 63 - 1" and "Create_item E subj desc act m (s, d) = (item, s', d')"
  shows "gm_get (st_items s) (it_ID item) = None \<and> Get_item s' (it_ID item) = Some item
    \<and> (\<forall>j. j \<noteq> it_ID item \<longrightarrow> Get_item s' j = Get_item s j) \<and> todo_ok s'"
proof -
  have ok: "todo_ok s" using run_ops_ok [of "(NewStore, d0)" ops] assms(1,2) todo_ok_NewStore by simp
  then have "todo_ok s'" using Create_ok [of "(s, d)" E subj desc act m] assms(3,4) by simp
  moreover have "gm_get (st_items s) (int_str (st_nextID s)) = None"
    using fresh_id_unused [OF ok] assms(3) by simp
  ultimately show ?thesis using Create_frame [OF assms(4)] by (simp add: Get_item_def)
qed

subsection \<open>The life of a worker's item\<close>

definition mirrors :: "string \<Rightarrow> Item \<Rightarrow> bool" where
  "mirrors task t \<longleftrightarrow> it_Status t \<noteq> StatusDeleted \<and> gm_get (it_Metadata t) metaTaskID = Some (GStr task)"

lemma FindByMetadata_None:
  assumes "gm_ok (st_items s)" "task \<noteq> []"
  shows "FindByMetadata s metaTaskID task = None \<longleftrightarrow>
    (\<forall>k t. gm_get (st_items s) k = Some t \<longrightarrow> \<not> mirrors task t)"
  using assms by (auto simp: FindByMetadata_def find_None_iff gm_vals_iff mirrors_def)

lemma FindByMetadata_Some:
  assumes "gm_ok (st_items s)" "FindByMetadata s metaTaskID task = Some t"
  shows "mirrors task t \<and> (\<exists>k. gm_get (st_items s) k = Some t)"
  using assms by (auto simp: FindByMetadata_def gm_vals_iff mirrors_def split: if_splits dest!: find_Some_mem)

lemma FindByMetadata_unique:
  assumes "gm_ok (st_items s)" "task \<noteq> []" "gm_get (st_items s) i = Some t" "mirrors task t"
    and "\<And>k t. k \<noteq> i \<Longrightarrow> gm_get (st_items s) k = Some t \<Longrightarrow> \<not> mirrors task t"
  shows "FindByMetadata s metaTaskID task = Some t"
proof (cases "FindByMetadata s metaTaskID task")
  case None
  then show ?thesis using assms by (auto simp: FindByMetadata_None)
next
  case (Some u)
  then obtain k where "gm_get (st_items s) k = Some u" "mirrors task u"
    using FindByMetadata_Some [OF assms(1) Some] by blast
  then have "k = i" using assms(5) by blast
  then show ?thesis using Some assms(3) \<open>gm_get (st_items s) k = Some u\<close> by simp
qed

lemma Update_get:
  assumes "gm_get (st_items s) i = Some item"
  shows "gm_get (st_items (fst (snd (Update_item E i opts (s, d))))) j
     = (if j = i then Some ((fold (apply_option E) opts item)\<lparr>it_UpdatedAt := t_now E\<rparr>) else gm_get (st_items s) j)"
    and "gm_ok (st_items s) \<Longrightarrow> gm_ok (st_items (fst (snd (Update_item E i opts (s, d)))))"
  using assms by (simp_all add: Update_item_def Let_def gm.get_put gm.ok_put)

lemma TrackWorker_new:
  assumes "todo_ok s" "st_nextID s < 2 ^ 63" "ti_ID info \<noteq> []"
    and "FindByMetadata s metaTaskID (ti_ID info) = None"
  shows "\<exists>t. gm_get (st_items (fst (TrackWorker E info (s, d)))) j
        = (if j = int_str (st_nextID s) then Some t else gm_get (st_items s) j)
      \<and> it_ID t = int_str (st_nextID s) \<and> it_Status t = StatusInProgress
      \<and> it_Metadata t = worker_metadata info ''running'' \<and> it_Subject t = workerSubject info"
    (is "\<exists>t. ?get t j \<and> ?rest t")
    and "gm_ok (st_items (fst (TrackWorker E info (s, d))))"
proof -
  obtain item s1 d1 where c: "Create_item E (workerSubject info) (ti_Description info) []
      (worker_metadata info ''running'') (s, d) = (item, s1, d1)"
    by (metis prod_cases3)
  note frame = Create_frame [OF c]
  have subj: "it_Subject item = workerSubject info"
    using c by (auto simp: Create_item_def Let_def new_item_def)
  define opts where "opts = WithStatus StatusInProgress
      # (if ti_AgentName info \<noteq> [] then [WithOwner (ti_AgentName info)] else [])"
  have w: "TrackWorker E info (s, d) = snd (Update_item E (it_ID item) opts (s1, d1))"
    using assms c by (simp add: TrackWorker_def opts_def)
  have here: "gm_get (st_items s1) (it_ID item) = Some item" using frame(4) by simp
  define t where "t = (fold (apply_option E) opts item)\<lparr>it_UpdatedAt := t_now E\<rparr>"
  have "?rest t" using frame subj by (simp add: t_def opts_def)
  moreover have "?get t j"
    using Update_get(1) [OF here, of E opts d1 j] frame(1,4) unfolding w t_def [symmetric] by simp
  ultimately show "\<exists>t. ?get t j \<and> ?rest t" by blast
  show "gm_ok (st_items (fst (TrackWorker E info (s, d))))"
    using Update_get(2) [OF here] frame(6) assms(1) unfolding w by (simp add: todo_ok_gm)
qed

lemma merge_worker_metadata:
  "gm_get (merge_metadata (worker_metadata info detail) m) metaTaskID = Some (GStr (ti_ID info))"
  "gm_get (merge_metadata (worker_metadata info detail) m) metaStatusDetail = Some (GStr detail)"
  by (simp_all add: merge_metadata_def worker_metadata_def gm.get_put)

lemma worker_metadata_get:
  "gm_get (worker_metadata info detail) metaTaskID = Some (GStr (ti_ID info))"
  by (simp add: worker_metadata_def gm_get_def)

text \<open>
  A worker announced by the task manager gets an item of its own, and its completion closes exactly
  that item with the status the task reported; no other item changes.
\<close>

theorem worker_item_lifecycle:
  assumes "todo_ok s" "st_nextID s < 2 ^ 63" "ti_ID info \<noteq> []" "ti_ID info' = ti_ID info"
    and "FindByMetadata s metaTaskID (ti_ID info) = None"
    and "CompleteWorker E2 info' (TrackWorker E1 info (s, d)) = (s2, d2)"
  shows "\<exists>t. gm_get (st_items s2) (int_str (st_nextID s)) = Some t \<and> it_Status t = StatusCompleted
      \<and> BackgroundTaskID t = ti_ID info
      \<and> BackgroundStatusDetail t = (if ti_Status info' = [] then ''completed'' else ti_Status info')
      \<and> (\<forall>j. j \<noteq> int_str (st_nextID s) \<longrightarrow> gm_get (st_items s2) j = gm_get (st_items s) j)"
proof -
  let ?i = "int_str (st_nextID s)"
  obtain s1 d1 where w1: "TrackWorker E1 info (s, d) = (s1, d1)" by fastforce
  note new = TrackWorker_new [OF assms(1-3,5), of E1 d, unfolded w1 fst_conv]
  from new(1) [of ?i] obtain t where t: "gm_get (st_items s1) ?i = Some t" "it_ID t = ?i"
      "it_Status t = StatusInProgress" "it_Metadata t = worker_metadata info ''running''" by auto
  have others: "gm_get (st_items s1) j = gm_get (st_items s) j" if "j \<noteq> ?i" for j
    using new(1) [of j] that by auto
  have "mirrors (ti_ID info) t" using t by (simp add: mirrors_def worker_metadata_get)
  moreover have "\<not> mirrors (ti_ID info) u" if "k \<noteq> ?i" "gm_get (st_items s1) k = Some u" for k u
    using that others assms(1,3,5) by (simp add: FindByMetadata_None todo_ok_gm)
  ultimately have find: "FindByMetadata s1 metaTaskID (ti_ID info') = Some t"
    using FindByMetadata_unique [OF new(2) assms(3) t(1)] assms(4) by simp
  then have "s2 = fst (snd (Update_item E2 ?i
      [WithSubject (if it_Subject t = [] then workerSubject info' else it_Subject t),
       WithDescription (ti_Description info'), WithStatus StatusCompleted,
       WithMetadata (worker_metadata info' (if ti_Status info' = [] then ''completed'' else ti_Status info'))] (s1, d1)))"
    using assms(6) t(2) by (simp add: CompleteWorker_def w1 Let_def)
  then show ?thesis
    using t others assms(4)
    by (auto simp: Update_get [OF t(1)] BackgroundTaskID_def BackgroundStatusDetail_def
        metadataString_def merge_worker_metadata)
qed

subsection \<open>Blocked items\<close>

lemma IsBlocked_iff_OpenBlockers: "IsBlocked s i \<longleftrightarrow> OpenBlockers s i \<noteq> []"
  by (auto simp: IsBlocked_def OpenBlockers_def filter_empty_conv list_ex_iff split: option.split)

lemma set_appendUnique: "set (appendUnique slice ids) = set slice \<union> set ids"
  unfolding appendUnique_def by (induction ids arbitrary: slice) auto

lemma distinct_appendUnique: "distinct slice \<Longrightarrow> distinct (appendUnique slice ids)"
  unfolding appendUnique_def by (induction ids arbitrary: slice) auto

subsection \<open>Memory and disk\<close>

text \<open>
  Memory and directory agree when every file holds the item that memory has under its id, and every
  item that is not deleted has its file.
\<close>

definition named_dir :: "item_dir \<Rightarrow> bool" where
  "named_dir fs \<longleftrightarrow> gm_ok fs \<and> (\<forall>name f item. gm_get fs name = Some f \<longrightarrow> has_suffix name ''.json''
     \<longrightarrow> fl_item f = Some item \<longrightarrow> item_name (it_ID item) = name)"

definition agrees :: "(string, Item) gomap \<Rightarrow> item_dir \<Rightarrow> bool" where
  "agrees items fs \<longleftrightarrow> named_dir fs
     \<and> (\<forall>k item. gm_get items k = Some item \<longrightarrow> it_ID item = k)
     \<and> (\<forall>k f item. gm_get fs (item_name k) = Some f \<longrightarrow> fl_item f = Some item \<longrightarrow> gm_get items k = Some item)
     \<and> (\<forall>k item. gm_get items k = Some item \<longrightarrow> it_Status item \<noteq> StatusDeleted
          \<longrightarrow> (\<exists>f. gm_get fs (item_name k) = Some f \<and> fl_item f = Some item))"

definition synced :: "todo_store \<times> disk \<Rightarrow> bool" where
  "synced w \<longleftrightarrow> st_storageDir (fst w) \<noteq> []
     \<and> (\<exists>fs. gm_get (snd w) (st_storageDir (fst w)) = Some fs \<and> agrees (st_items (fst w)) fs)"

lemma item_name_inj [simp]: "item_name a = item_name b \<longleftrightarrow> a = b"
  by (simp add: item_name_def)

lemma item_name_json [simp]: "has_suffix (item_name a) ''.json''"
  by (auto simp: item_name_def has_suffix_iff)

lemma named_dirD:
  "named_dir fs \<Longrightarrow> gm_get fs name = Some f \<Longrightarrow> has_suffix name ''.json'' \<Longrightarrow> fl_item f = Some item
    \<Longrightarrow> item_name (it_ID item) = name"
  by (auto simp: named_dir_def)

lemma agreesD:
  assumes "agrees items fs"
  shows "named_dir fs" "gm_get items k = Some item \<Longrightarrow> it_ID item = k"
    "gm_get fs (item_name k) = Some f \<Longrightarrow> fl_item f = Some item \<Longrightarrow> gm_get items k = Some item"
    "gm_get items k = Some item \<Longrightarrow> it_Status item \<noteq> StatusDeleted
      \<Longrightarrow> \<exists>f. gm_get fs (item_name k) = Some f \<and> fl_item f = Some item"
  using assms unfolding agrees_def by blast+

lemma named_dir_put:
  assumes "named_dir fs" "fl_item f = Some item"
  shows "named_dir (gm_put (item_name (it_ID item)) f fs)"
  unfolding named_dir_def
proof (intro conjI allI impI)
  show "gm_ok (gm_put (item_name (it_ID item)) f fs)" using assms(1) by (simp add: named_dir_def gm.ok_put)
next
  fix name g it
  assume "gm_get (gm_put (item_name (it_ID item)) f fs) name = Some g" "has_suffix name ''.json''"
    "fl_item g = Some it"
  then show "item_name (it_ID it) = name"
    using assms named_dirD [of fs name g it] by (simp add: gm.get_put split: if_splits)
qed

lemma named_dir_del: "named_dir fs \<Longrightarrow> named_dir (gm_del name fs)"
  by (simp add: named_dir_def gm.ok_del gm.get_del)

lemma agrees_put:
  assumes "agrees items fs" "fl_item f = Some item"
  shows "agrees (gm_put (it_ID item) item items) (gm_put (item_name (it_ID item)) f fs)"
  unfolding agrees_def
proof (intro conjI allI impI)
  show "named_dir (gm_put (item_name (it_ID item)) f fs)"
    using named_dir_put agreesD(1) assms by blast
next
  fix k it assume "gm_get (gm_put (it_ID item) item items) k = Some it"
  then show "it_ID it = k" using agreesD(2) [OF assms(1), of k it] by (simp add: gm.get_put split: if_splits)
next
  fix k g it
  assume "gm_get (gm_put (item_name (it_ID item)) f fs) (item_name k) = Some g" "fl_item g = Some it"
  then show "gm_get (gm_put (it_ID item) item items) k = Some it"
    using agreesD(3) [OF assms(1), of k g it] assms(2) by (simp add: gm.get_put split: if_splits)
next
  fix k it
  assume "gm_get (gm_put (it_ID item) item items) k = Some it" "it_Status it \<noteq> StatusDeleted"
  then show "\<exists>g. gm_get (gm_put (item_name (it_ID item)) f fs) (item_name k) = Some g \<and> fl_item g = Some it"
    using agreesD(4) [OF assms(1), of k it] assms(2) by (simp add: gm.get_put split: if_splits)
qed

lemma agrees_delete:
  assumes "agrees items fs" "it_Status item = StatusDeleted"
  shows "agrees (gm_put (it_ID item) item items) (gm_del (item_name (it_ID item)) fs)"
proof -
  have ok: "gm_ok fs" using agreesD(1) [OF assms(1)] by (simp add: named_dir_def)
  show ?thesis
    unfolding agrees_def
  proof (intro conjI allI impI)
    show "named_dir (gm_del (item_name (it_ID item)) fs)" using named_dir_del agreesD(1) assms(1) by blast
  next
    fix k it assume "gm_get (gm_put (it_ID item) item items) k = Some it"
    then show "it_ID it = k" using agreesD(2) [OF assms(1), of k it] by (simp add: gm.get_put split: if_splits)
  next
    fix k g it
    assume "gm_get (gm_del (item_name (it_ID item)) fs) (item_name k) = Some g" "fl_item g = Some it"
    then show "gm_get (gm_put (it_ID item) item items) k = Some it"
      using agreesD(3) [OF assms(1), of k g it] by (simp add: gm.get_put gm.get_del [OF ok] split: if_splits)
  next
    fix k it
    assume "gm_get (gm_put (it_ID item) item items) k = Some it" "it_Status it \<noteq> StatusDeleted"
    then show "\<exists>g. gm_get (gm_del (item_name (it_ID item)) fs) (item_name k) = Some g \<and> fl_item g = Some it"
      using agreesD(4) [OF assms(1), of k it] assms(2)
      by (simp add: gm.get_put gm.get_del [OF ok] split: if_splits)
  qed
qed

definition writes_ok :: "todo_env \<Rightarrow> bool" where
  "writes_ok E \<longleftrightarrow> (\<forall>name. t_write_ok E name)"

lemma synced_put:
  assumes "synced (s, d)" "writes_ok E" "it_ID item = k"
  shows "synced (s\<lparr>st_items := gm_put k item (st_items s)\<rparr>, persistItem E s item d)"
proof -
  let ?f = "\<lparr>fl_item = Some item, fl_mtime = t_now E\<rparr>"
  obtain fs where fs: "st_storageDir s \<noteq> []" "gm_get d (st_storageDir s) = Some fs" "agrees (st_items s) fs"
    using assms(1) by (auto simp: synced_def)
  have "agrees (gm_put k item (st_items s)) (gm_put (item_name k) ?f fs)"
    using agrees_put [OF fs(3), of ?f item] assms(3) by simp
  then show ?thesis
    using fs(1,2) assms(2,3)
    by (simp add: synced_def persistItem_def put_file_def dir_of_def writes_ok_def gm.get_put)
qed

lemma persistItem_dir:
  "st_storageDir s = st_storageDir s' \<Longrightarrow> persistItem E s = persistItem E s'"
  by (intro ext) (simp add: persistItem_def Let_def)

lemma synced_nextID [simp]: "synced (s\<lparr>st_nextID := n\<rparr>, d) = synced (s, d)"
  by (simp add: synced_def)

lemma synced_Create:
  assumes "synced w" "writes_ok E"
  shows "synced (snd (Create_item E subj desc act m w))"
proof -
  obtain s d where w: "w = (s, d)" by fastforce
  let ?i = "int_str (st_nextID s)"
  let ?s = "s\<lparr>st_nextID := wrap64 (st_nextID s + 1)\<rparr>"
  let ?item = "new_item E ?i subj desc act m"
  have "synced (?s\<lparr>st_items := gm_put ?i ?item (st_items ?s)\<rparr>, persistItem E ?s ?item d)"
    using assms w by (intro synced_put) (auto simp: new_item_def)
  also have "persistItem E ?s = persistItem E (?s\<lparr>st_items := gm_put ?i ?item (st_items ?s)\<rparr>)"
    by (rule persistItem_dir) simp
  finally show ?thesis unfolding w Create_item_def Let_def by simp
qed

lemma synced_id: "synced (s, d) \<Longrightarrow> gm_get (st_items s) i = Some item \<Longrightarrow> it_ID item = i"
  by (auto simp: synced_def agrees_def)

lemma synced_Update: "synced w \<Longrightarrow> writes_ok E \<Longrightarrow> synced (snd (Update_item E i opts w))"
  by (cases w) (auto simp: Update_item_def Let_def synced_id intro!: synced_put split: option.split)

lemma synced_Delete: "synced w \<Longrightarrow> synced (snd (Delete_item E i w))"
proof (cases w)
  case (Pair s d)
  assume a: "synced w"
  show ?thesis
  proof (cases "gm_get (st_items s) i")
    case (Some item)
    let ?item = "item\<lparr>it_Status := StatusDeleted, it_UpdatedAt := t_now E\<rparr>"
    obtain fs where fs: "st_storageDir s \<noteq> []" "gm_get d (st_storageDir s) = Some fs" "agrees (st_items s) fs"
      using a Pair by (auto simp: synced_def)
    have "it_ID ?item = i" using a Pair Some by (simp add: synced_id)
    then have "agrees (gm_put i ?item (st_items s)) (gm_del (item_name i) fs)"
      using agrees_delete [OF fs(3), of ?item] by simp
    then show ?thesis using fs(1,2) Pair Some
      by (simp add: Delete_item_def synced_def removeItemFile_def del_file_def gm.get_put)
  qed (use a Pair in \<open>simp add: Delete_item_def\<close>)
qed

lemma synced_Track: "synced w \<Longrightarrow> writes_ok E \<Longrightarrow> synced (TrackWorker E info w)"
  using synced_Create [of w E] by (auto simp: TrackWorker_def Let_def synced_Update split: option.split prod.split)
    (metis snd_conv synced_Update)+

lemma synced_Complete: "synced w \<Longrightarrow> writes_ok E \<Longrightarrow> synced (CompleteWorker E info w)"
  by (simp add: CompleteWorker_def Let_def synced_Update split: option.split)

lemma removeItemFiles:
  assumes "gm_get d (st_storageDir s) = Some fs" "st_storageDir s \<noteq> []"
  shows "gm_get (fold (removeItemFile s) ks d) (st_storageDir s)
     = Some (fold gm_del (List.map item_name ks) fs)"
  using assms(1)
  by (induction ks arbitrary: d fs) (auto simp: removeItemFile_def del_file_def gm.get_put assms(2))

lemma synced_Reset: "synced w \<Longrightarrow> synced (Reset_items w)"
proof (cases w)
  case (Pair s d)
  assume "synced w"
  then obtain fs where fs: "st_storageDir s \<noteq> []" "gm_get d (st_storageDir s) = Some fs"
      "agrees (st_items s) fs" using Pair by (auto simp: synced_def)
  then have ok: "gm_ok fs" by (simp add: agrees_def named_dir_def)
  have mem: "item_name k \<in> item_name ` set (gm_keys (st_items s)) \<longleftrightarrow> gm_get (st_items s) k \<noteq> None" for k
    using gm_laws(7) [of k "st_items s"] by (auto simp: image_iff)
  have "agrees gm_empty (fold gm_del (List.map item_name (gm_keys (st_items s))) fs)" (is "agrees _ ?fs")
    unfolding agrees_def
  proof (intro conjI allI impI)
    show "named_dir ?fs"
      using agreesD(1) [OF fs(3)] by (auto simp: named_dir_def gm.get_del_all gm.del_all_ok)
  next
    fix k f item assume "gm_get ?fs (item_name k) = Some f" "fl_item f = Some item"
    then show "gm_get gm_empty k = Some item"
      using mem [of k] agreesD(3) [OF fs(3), of k f item] by (auto simp: gm.get_del_all [OF ok] split: if_splits)
  qed (simp_all add: gm.get_empty)
  then show ?thesis
    using Pair fs(1) removeItemFiles [OF fs(2,1)] by (simp add: Reset_items_def synced_def)
qed

text \<open>Reading a directory whose files carry the names of their items.\<close>

lemma load_files_get:
  assumes "distinct (List.map fst es)"
    and "\<And>name f item. (name, f) \<in> set es \<Longrightarrow> has_suffix name ''.json'' \<Longrightarrow> fl_item f = Some item
       \<Longrightarrow> item_name (it_ID item) = name"
  shows "gm_get (st_items (fold load_file es s)) k =
    (case map_of es (item_name k) of
       Some f \<Rightarrow> (case fl_item f of Some item \<Rightarrow> Some item | None \<Rightarrow> gm_get (st_items s) k)
     | None \<Rightarrow> gm_get (st_items s) k)"
  using assms
proof (induction es arbitrary: s)
  case (Cons e es)
  obtain name f where e: "e = (name, f)" by fastforce
  have IH: "gm_get (st_items (fold load_file es (load_file e s))) k =
    (case map_of es (item_name k) of
       Some f \<Rightarrow> (case fl_item f of Some item \<Rightarrow> Some item | None \<Rightarrow> gm_get (st_items (load_file e s)) k)
     | None \<Rightarrow> gm_get (st_items (load_file e s)) k)"
    using Cons.prems by (intro Cons.IH) auto
  have fresh: "map_of es name = None" using Cons.prems(1) e by (simp add: map_of_eq_None_iff)
  show ?case
  proof (cases "has_suffix name ''.json'' \<and> fl_item f \<noteq> None")
    case True
    then obtain item where item: "fl_item f = Some item" "has_suffix name ''.json''" by blast
    then have "name = item_name (it_ID item)" using Cons.prems(2) [of name f item] e by simp
    moreover have "load_file e s = adopt_item item s" using item e by (simp add: load_file_def)
    ultimately show ?thesis using IH e item(1) fresh by (auto simp: adopt_item_get split: option.splits)
  next
    case False
    then have same: "load_file e s = s" using e by (auto simp: load_file_def split: option.splits)
    show ?thesis
    proof (cases "name = item_name k")
      case True
      then have "fl_item f = None" using False by simp
      then show ?thesis using IH e fresh True same by simp
    next
      case False
      then show ?thesis using IH unfolding same using e same by simp
    qed
  qed
qed simp

lemma map_of_sorted: "gm_ok m \<Longrightarrow> map_of (sort_lt lt m) k = gm_get m k"
proof -
  assume ok: "gm_ok m"
  then have "distinct (List.map fst (sort_lt lt m))"
    unfolding gm_ok_def by (metis mset_eq_imp_distinct_iff mset_map mset_sort_lt)
  then have "map_of (sort_lt lt m) k = Some v \<longleftrightarrow> gm_get m k = Some v" for v
    using ok by (simp add: gm_get_iff_in)
  then show ?thesis by (metis option.exhaust)
qed

lemma loaded_get:
  assumes "gm_get d (st_storageDir s) = Some fs" "named_dir fs" "loadFromDisk s d = (ok, s')"
  shows "gm_get (st_items s') k = Option.bind (gm_get fs (item_name k)) fl_item"
    "ok" "st_storageDir s' = st_storageDir s"
proof -
  let ?es = "sort_lt (\<lambda>a b. str_less (fst a) (fst b)) fs"
  have gm: "gm_ok fs" using assms(2) by (simp add: named_dir_def)
  then have dist: "distinct (List.map fst ?es)"
    unfolding gm_ok_def by (metis mset_eq_imp_distinct_iff mset_map mset_sort_lt)
  have s': "s' = fold load_file ?es (s\<lparr>st_items := gm_empty, st_nextID := 1\<rparr>)" "ok"
    using assms(1,3) by (auto simp: loadFromDisk_def ReadDir_def)
  have "item_name (it_ID item) = name" if "(name, f) \<in> set ?es" "has_suffix name ''.json''" "fl_item f = Some item"
    for name f item
    using that named_dirD [OF assms(2)] gm by (simp add: gm_get_iff_in)
  note get = load_files_get [OF dist this, where k = k]
  show "gm_get (st_items s') k = Option.bind (gm_get fs (item_name k)) fl_item"
    unfolding s' by (subst get) (auto simp: map_of_sorted [OF gm] gm.get_empty split: option.split)
  show ok by (rule s'(2))
  have "st_storageDir (fold load_file es t) = st_storageDir t" for es t
    by (induction es arbitrary: t) (auto simp: load_file_def adopt_item_def split: option.split)
  then show "st_storageDir s' = st_storageDir s" unfolding s' by simp
qed

lemma loaded_agrees:
  assumes "gm_get d (st_storageDir s) = Some fs" "named_dir fs" "loadFromDisk s d = (ok, s')"
  shows "agrees (st_items s') fs"
  unfolding agrees_def
proof (intro conjI allI impI)
  fix k item assume "gm_get (st_items s') k = Some item"
  then obtain f where "gm_get fs (item_name k) = Some f" "fl_item f = Some item"
    unfolding loaded_get(1) [OF assms] by (auto split: bind_splits)
  then have "item_name (it_ID item) = item_name k" using named_dirD [OF assms(2)] by simp
  then show "it_ID item = k" by simp
  show "\<exists>f. gm_get fs (item_name k) = Some f \<and> fl_item f = Some item"
    using \<open>gm_get fs (item_name k) = Some f\<close> \<open>fl_item f = Some item\<close> by blast
qed (use assms(2) loaded_get(1) [OF assms] in simp_all)

lemma synced_Reload:
  assumes "synced w"
  shows "synced (ReloadFromDisk E w)" and "Get_item (fst (ReloadFromDisk E w)) k = Get_item (fst w) k"
proof -
  obtain s d where w: "w = (s, d)" by fastforce
  obtain fs where fs: "st_storageDir s \<noteq> []" "gm_get d (st_storageDir s) = Some fs" "agrees (st_items s) fs"
    using assms w by (auto simp: synced_def)
  obtain ok s' where l: "loadFromDisk (s\<lparr>st_lastDirMod := t_now E\<rparr>) d = (ok, s')" by fastforce
  note load = loaded_get [of d "s\<lparr>st_lastDirMod := t_now E\<rparr>" fs, OF _ agreesD(1) [OF fs(3)] l]
  have cases: "ReloadFromDisk E w = w \<or> ReloadFromDisk E w = (s', d)"
    using w fs l by (auto simp: ReloadFromDisk_def ReadDir_def)
  have "synced (s', d)"
    using fs load loaded_agrees [of d "s\<lparr>st_lastDirMod := t_now E\<rparr>" fs, OF _ agreesD(1) [OF fs(3)] l]
    by (simp add: synced_def)
  then show "synced (ReloadFromDisk E w)" using cases assms by auto
  have "Get_item s' k = Get_item s k"
  proof (cases "Get_item s k")
    case None
    have "it_Status it = StatusDeleted" if it: "gm_get (st_items s') k = Some it" for it
    proof -
      obtain f where "gm_get fs (item_name k) = Some f" "fl_item f = Some it"
        using it load(1) [of k] fs(2) by (auto split: bind_splits)
      then have "gm_get (st_items s) k = Some it" by (rule agreesD(3) [OF fs(3)])
      then show ?thesis using None by (simp add: Get_item_def split: if_splits)
    qed
    then show ?thesis using None by (simp add: Get_item_def split: option.split)
  next
    case (Some item)
    then have "gm_get (st_items s) k = Some item" "it_Status item \<noteq> StatusDeleted"
      by (auto simp: Get_item_def split: option.splits if_splits)
    then show ?thesis using load(1) [of k] agreesD(4) [OF fs(3), of k item] fs(2)
      by (auto simp: Get_item_def)
  qed
  then show "Get_item (fst (ReloadFromDisk E w)) k = Get_item (fst w) k" using cases w by auto
qed

lemma agrees_puts:
  assumes "agrees items fs"
  shows "agrees (fold (\<lambda>it m. gm_put (it_ID (g it)) (g it) m) its items)
     (fold (\<lambda>it fs. gm_put (item_name (it_ID (g it))) \<lparr>fl_item = Some (g it), fl_mtime = t\<rparr> fs) its fs)"
  using assms by (induction its arbitrary: items fs) (simp_all add: agrees_put)

lemma get_puts:
  "gm_get (fold (\<lambda>it m. gm_put (it_ID (g it)) (g it) m) its m) k =
     (case List.find (\<lambda>it. it_ID (g it) = k) (rev its) of Some it \<Rightarrow> Some (g it) | None \<Rightarrow> gm_get m k)"
  by (induction its rule: rev_induct) (simp_all add: gm.get_put)

lemma persist_all:
  assumes "gm_get d (st_storageDir s) = Some fs" "st_storageDir s \<noteq> []" "writes_ok E"
  shows "gm_get (fold (\<lambda>it d. persistItem E s (g it) d) its d) (st_storageDir s)
    = Some (fold (\<lambda>it fs. gm_put (item_name (it_ID (g it))) \<lparr>fl_item = Some (g it), fl_mtime = t_now E\<rparr> fs) its fs)"
  using assms(1)
  by (induction its arbitrary: d fs)
     (use assms(2,3) in \<open>auto simp: persistItem_def writes_ok_def put_file_def dir_of_def gm.get_put\<close>)

lemma agrees_cong:
  "(\<And>k. gm_get items k = gm_get items' k) \<Longrightarrow> agrees items fs = agrees items' fs"
  by (simp add: agrees_def)

lemma synced_demote:
  assumes "synced (s, d)" "gm_ok (st_items s)" "writes_ok E"
  shows "synced (demoteOrphanedItems E (s, d))"
proof -
  obtain fs where fs: "st_storageDir s \<noteq> []" "gm_get d (st_storageDir s) = Some fs" "agrees (st_items s) fs"
    using assms(1) by (auto simp: synced_def)
  let ?its = "filter (orphaned E) (gm_vals (st_items s))"
  let ?puts = "fold (\<lambda>it m. gm_put (it_ID (demoted E it)) (demoted E it) m) ?its (st_items s)"
  have same: "gm_get (st_items (fst (demoteOrphanedItems E (s, d)))) k = gm_get ?puts k" for k
  proof (cases "gm_get (st_items s) k")
    case None
    then have "List.find (\<lambda>it. it_ID (demoted E it) = k) (rev ?its) = None"
      using agreesD(2) [OF fs(3)] assms(2) by (auto simp: find_None_iff gm_vals_iff)
    then show ?thesis using None unfolding gm_get_demoted get_puts by simp
  next
    case (Some item)
    have uniq: "it = item" if "it \<in> set ?its" "it_ID (demoted E it) = k" for it
      using that agreesD(2) [OF fs(3)] Some assms(2) by (auto simp: gm_vals_iff)
    show ?thesis
    proof (cases "orphaned E item")
      case True
      then have "item \<in> set ?its" "it_ID item = k"
        using Some agreesD(2) [OF fs(3)] assms(2) by (auto simp: gm_vals_iff)
      then have "List.find (\<lambda>it. it_ID (demoted E it) = k) (rev ?its) \<noteq> None"
        by (auto simp: find_None_iff)
      then obtain it where it: "List.find (\<lambda>it. it_ID (demoted E it) = k) (rev ?its) = Some it" by blast
      then have "it = item" using uniq find_Some_mem [OF it] by auto
      then show ?thesis using it Some unfolding gm_get_demoted get_puts by simp
    next
      case False
      then have "List.find (\<lambda>it. it_ID (demoted E it) = k) (rev ?its) = None"
        using uniq by (auto simp: find_None_iff)
      moreover have "demoted E item = item" using False by (simp add: demoted_def orphaned_def)
      ultimately show ?thesis using Some unfolding gm_get_demoted get_puts by simp
    qed
  qed
  have "agrees (st_items (fst (demoteOrphanedItems E (s, d))))
      (fold (\<lambda>it fs. gm_put (item_name (it_ID (demoted E it)))
         \<lparr>fl_item = Some (demoted E it), fl_mtime = t_now E\<rparr> fs) ?its fs)"
    using agrees_puts [OF fs(3), of "demoted E" ?its "t_now E"] agrees_cong [OF same] by blast
  then show ?thesis
    using fs(1) persist_all [OF fs(2,1) assms(3), of "demoted E" ?its]
    by (simp add: synced_def demoteOrphanedItems_def)
qed

lemma make_dir_get:
  assumes "gm_get (make_dir E dir d) dir = Some fs"
  shows "fs = dir_of d dir \<or> fs = gm_put ''.lock'' \<lparr>fl_item = None, fl_mtime = t_now E\<rparr> (dir_of d dir)"
  using assms by (auto simp: make_dir_def Let_def put_file_def gm.get_put dir_of_def split: if_splits option.splits)

lemma make_dir_named:
  assumes "named_dir (dir_of d dir)"
  shows "\<exists>fs. gm_get (make_dir E dir d) dir = Some fs \<and> named_dir fs"
proof -
  have "gm_get (make_dir E dir d) dir \<noteq> None"
    by (simp add: make_dir_def Let_def put_file_def gm.get_put)
  then obtain fs where fs: "gm_get (make_dir E dir d) dir = Some fs" by blast
  moreover have "named_dir (gm_put ''.lock'' \<lparr>fl_item = None, fl_mtime = t_now E\<rparr> (dir_of d dir))"
    using assms by (auto simp: named_dir_def gm.ok_put gm.get_put split: if_splits)
  ultimately show ?thesis using make_dir_get [OF fs] assms by auto
qed

lemma synced_SetStorageDir:
  assumes "named_dir (dir_of d dir)" "writes_ok E" "files_fit d dir" "todo_ok s" "dir \<noteq> []"
    and "SetStorageDir E dir (s, d) = (True, w')"
  shows "synced w'"
proof -
  let ?s = "s\<lparr>st_storageDir := dir\<rparr>" and ?d = "make_dir E dir d"
  obtain s1 where l: "loadFromDisk ?s ?d = (True, s1)" and w': "w' = demoteOrphanedItems E (s1, ?d)"
    using assms(5,6) by (auto simp: SetStorageDir_def Let_def split: prod.splits if_splits)
  obtain fs where fs: "gm_get ?d (st_storageDir ?s) = Some fs" "named_dir fs"
    using make_dir_named [OF assms(1)] by auto
  have "todo_ok s1"
    using loadFromDisk_ok [of ?s ?d] assms(3,4) l by (simp add: files_fit_make_dir)
  moreover have "synced (s1, ?d)"
    using loaded_agrees [OF fs l] loaded_get(3) [OF fs l] fs assms(5) by (simp add: synced_def)
  ultimately show ?thesis using synced_demote assms(2) w' by (simp add: todo_ok_gm)
qed

fun keeps_dir :: "todo_op \<Rightarrow> bool" where
  "keeps_dir (OpImport items) = False"
| "keeps_dir (OpSetDir dir) = False"
| "keeps_dir _ = True"

lemma synced_exec: "synced w \<Longrightarrow> writes_ok E \<Longrightarrow> keeps_dir op \<Longrightarrow> synced (exec_op E op w)"
  by (cases op) (simp_all add: synced_Create synced_Update synced_Delete synced_Reset synced_Reload
      synced_Track synced_Complete)

lemma synced_run:
  "synced w \<Longrightarrow> list_all (\<lambda>(E, op). writes_ok E \<and> keeps_dir op) ops \<Longrightarrow> synced (run_ops ops w)"
  by (induction ops w rule: run_ops.induct) (simp_all add: synced_exec)

text \<open>
  Memory is a cache of the directory: after a directory was adopted, whatever is created, updated
  and deleted, reading the files again changes the answer of \<open>Get\<close> for no id.
\<close>

theorem reload_changes_no_item:
  assumes "SetStorageDir E0 dir (NewStore, d0) = (True, w0)" "dir \<noteq> []" "writes_ok E0"
    and "named_dir (dir_of d0 dir)" "files_fit d0 dir"
    and "list_all (\<lambda>(E, op). writes_ok E \<and> keeps_dir op) ops"
  shows "Get_item (fst (ReloadFromDisk E (run_ops ops w0))) k = Get_item (fst (run_ops ops w0)) k"
proof -
  have "synced w0"
    using synced_SetStorageDir [OF assms(4,3,5) todo_ok_NewStore assms(2,1)] .
  then show ?thesis using synced_run assms(6) synced_Reload(2) by blast
qed

subsection \<open>What reading the files again loses\<close>

text \<open>
  The counter of ids is not stored: reading the files again computes it from the files, and the
  file of a deleted item is gone.  The next item then takes over the id of the deleted one, and the
  items that depended on it.
\<close>

definition demo_env :: todo_env where
  "demo_env = \<lparr>t_now = 1, t_running = (\<lambda>_. False), t_write_ok = (\<lambda>_. True), t_mkdir_ok = True\<rparr>"

definition demo_world :: "todo_store \<times> disk" where
  "demo_world = run_ops (List.map (Pair demo_env)
     [OpSetDir ''tasks'', OpCreate ''build'' [] [] [], OpCreate ''test'' [] [] [],
      OpUpdate ''1'' [WithAddBlockedBy [''2'']], OpDelete ''2'']) (NewStore, [])"

lemma deleted_id_is_given_again:
  "IsBlocked (fst demo_world) ''1'' = False"
  "it_ID (fst (Create_item demo_env ''other'' [] [] [] demo_world)) = ''3''"
  "it_ID (fst (Create_item demo_env ''other'' [] [] [] (ReloadFromDisk demo_env demo_world))) = ''2''"
  "IsBlocked (fst (snd (Create_item demo_env ''other'' [] [] [] (ReloadFromDisk demo_env demo_world)))) ''1''"
  by code_simp+

lemma deleted_items_count_as_completed:
  "AllMarkedCompleted (fst (run_ops (List.map (Pair demo_env)
     [OpCreate ''build'' [] [] [], OpDelete ''1'']) (NewStore, [])))"
  by code_simp

lemma reload_changes_no_item_witness:
  "Get_item (fst (ReloadFromDisk demo_env demo_world)) ''1'' = Get_item (fst demo_world) ''1''"
proof -
  have named: "named_dir (dir_of [] ''tasks'')" by (simp add: named_dir_def dir_of_def gm_get_def gm_empty_def gm_ok_def)
  have fit: "files_fit [] ''tasks''" by code_simp
  have w: "writes_ok demo_env" by (simp add: writes_ok_def demo_env_def)
  have dir: "SetStorageDir demo_env ''tasks'' (NewStore, []) = (True, exec_op demo_env (OpSetDir ''tasks'') (NewStore, []))"
    by code_simp
  show ?thesis
    using reload_changes_no_item [OF dir _ w named fit, of "List.map (Pair demo_env)
       [OpCreate ''build'' [] [] [], OpCreate ''test'' [] [] [],
        OpUpdate ''1'' [WithAddBlockedBy [''2'']], OpDelete ''2'']" demo_env "''1''"] w
    by (simp add: demo_world_def)
qed

lemma new_items_get_fresh_ids_witness:
  "gm_get (st_items (fst demo_world)) ''3'' = None"
proof -
  obtain s d where w: "demo_world = (s, d)" by fastforce
  obtain item s' d' where c: "Create_item demo_env ''other'' [] [] [] (s, d) = (item, s', d')"
    by (metis prod_cases3)
  have n: "st_nextID s = 3" "it_ID item = ''3''"
  proof -
    have "st_nextID (fst demo_world) = 3" by code_simp
    then show "st_nextID s = 3" unfolding w by simp
    have "it_ID (fst (Create_item demo_env ''other'' [] [] [] demo_world)) = ''3''" by code_simp
    then show "it_ID item = ''3''" unfolding w c by simp
  qed
  have "ops_fit (List.map (Pair demo_env)
     [OpSetDir ''tasks'', OpCreate ''build'' [] [] [], OpCreate ''test'' [] [] [],
      OpUpdate ''1'' [WithAddBlockedBy [''2'']], OpDelete ''2'']) (NewStore, [])" by code_simp
  from new_items_get_fresh_ids [OF this w [unfolded demo_world_def] _ c] show ?thesis
    unfolding w using n by simp
qed

definition demo_dir :: disk where
  "demo_dir = [(''tasks'', [(''1.json'', \<lparr>fl_item = Some ((new_item demo_env ''1'' ''build'' [] [] [])
     \<lparr>it_Status := StatusInProgress\<rparr>), fl_mtime = 1\<rparr>)])]"

lemma adoption_demotes_orphans_witness:
  "\<exists>s' d' item. SetStorageDir demo_env ''tasks'' (NewStore, demo_dir) = (True, s', d')
     \<and> gm_get (st_items s') ''1'' = Some item \<and> it_Status item = StatusPending
     \<and> (it_Status item = StatusInProgress \<longrightarrow> WorkerRunning demo_env item)"
proof -
  obtain ok s' d' where c: "SetStorageDir demo_env ''tasks'' (NewStore, demo_dir) = (ok, s', d')"
    by (metis prod_cases3)
  have r: "fst (SetStorageDir demo_env ''tasks'' (NewStore, demo_dir))"
    "map_option it_Status (gm_get (st_items (fst (snd (SetStorageDir demo_env ''tasks'' (NewStore, demo_dir))))) ''1'')
     = Some StatusPending"
    by code_simp+
  then obtain item where item: "gm_get (st_items s') ''1'' = Some item" "it_Status item = StatusPending"
    using c by auto
  have ok: "SetStorageDir demo_env ''tasks'' (NewStore, demo_dir) = (True, s', d')" using c r(1) by simp
  from adoption_demotes_orphans [OF ok _ item(1)] show ?thesis using ok item by blast
qed

lemma worker_item_lifecycle_witness:
  "\<exists>t. gm_get (st_items (fst (CompleteWorker demo_env \<lparr>ti_ID = ''t1'', ti_Description = ''review'',
         ti_Status = ''failed'', ti_Command = [], ti_AgentName = []\<rparr>
       (TrackWorker demo_env \<lparr>ti_ID = ''t1'', ti_Description = ''review'', ti_Status = ''running'',
         ti_Command = [], ti_AgentName = []\<rparr> (NewStore, []))))) ''1'' = Some t
     \<and> it_Status t = StatusCompleted \<and> BackgroundStatusDetail t = ''failed'' \<and> EndedAbnormally t"
proof -
  let ?start = "\<lparr>ti_ID = ''t1'', ti_Description = ''review'', ti_Status = ''running'',
         ti_Command = [], ti_AgentName = []\<rparr>"
  let ?stop = "\<lparr>ti_ID = ''t1'', ti_Description = ''review'', ti_Status = ''failed'',
         ti_Command = [], ti_AgentName = []\<rparr>"
  obtain s2 d2 where c: "CompleteWorker demo_env ?stop (TrackWorker demo_env ?start (NewStore, [])) = (s2, d2)"
    by fastforce
  have n: "st_nextID NewStore = 1" "int_str 1 = ''1''" "FindByMetadata NewStore metaTaskID ''t1'' = None"
    by (simp add: NewStore_def, code_simp, code_simp)
  show ?thesis
    using worker_item_lifecycle [of NewStore ?start ?stop demo_env demo_env "[]" s2 d2] c n
    by (auto simp: todo_ok_NewStore EndedAbnormally_def)
qed

end
