(* ===== verification/Transcript.thy ===== *)
theory Transcript
  imports Todo Message
begin

text \<open>
  The records of a session and their replay (\<open>internal/session/transcript\<close>: \<open>records.go\<close>,
  \<open>types.go\<close>, \<open>view.go\<close>, \<open>store.go\<close>, \<open>projector.go\<close>).  A session is an append-only list of records;
  \<open>Project\<close> folds them into the conversation, following parent pointers from the last leaf back to
  the root or to the summary that the last compaction left.

  The value of a patch is a JSON text in the code and here the value it encodes: a string, a list
  of items, a work tree, null, or something that none of these targets accepts.  The input of a
  tool call is an opaque string, and the details of a tool result are what their JSON decodes to.
\<close>

subsection \<open>Records\<close>

abbreviation SchemaVersion :: string where "SchemaVersion \<equiv> ''2''"
abbreviation SessionStarted :: string where "SessionStarted \<equiv> ''session.started''"
abbreviation SessionForked :: string where "SessionForked \<equiv> ''session.forked''"
abbreviation SessionCompacted :: string where "SessionCompacted \<equiv> ''session.compacted''"
abbreviation SessionStatePatched :: string where "SessionStatePatched \<equiv> ''session.state.patched''"
abbreviation MessageAppended :: string where "MessageAppended \<equiv> ''message.appended''"
abbreviation InferenceRequested :: string where "InferenceRequested \<equiv> ''inference.requested''"
abbreviation InferenceResponded :: string where "InferenceResponded \<equiv> ''inference.responded''"
abbreviation SystemSectionAdded :: string where "SystemSectionAdded \<equiv> ''system.section.added''"
abbreviation SystemSectionRemoved :: string where "SystemSectionRemoved \<equiv> ''system.section.removed''"
abbreviation ToolAdded :: string where "ToolAdded \<equiv> ''tool.added''"
abbreviation ToolRemoved :: string where "ToolRemoved \<equiv> ''tool.removed''"
abbreviation HookFired :: string where "HookFired \<equiv> ''hook.fired''"
abbreviation PermissionRequired :: string where "PermissionRequired \<equiv> ''permission.required''"
abbreviation PermissionDecided :: string where "PermissionDecided \<equiv> ''permission.decided''"
abbreviation SkillStateChanged :: string where "SkillStateChanged \<equiv> ''skill.state.changed''"

record ImageSource =
  is_Type :: string
  is_MediaType :: string
  is_Data :: string

text \<open>
  A raw JSON field: absent, an object that decodes (kept as what it decodes to), or text that does
  not.
\<close>

datatype 'a raw_json = Absent | Decodes 'a | Malformed

datatype ContentBlock = ContentBlock
  (cb_Type: string) (cb_Text: string) (cb_Thinking: string) (cb_Signature: string)
  (cb_ID: string) (cb_Name: string) (cb_Input: string) (cb_ToolUseID: string)
  (cb_Content: "ContentBlock list") (cb_IsError: bool)
  (cb_EditDetails: "FileChangeDetails raw_json") (cb_BashDetails: "BashDetails raw_json")
  (cb_Source: string) (cb_ImageSource: "ImageSource option")

record MessageRecord =
  mr_MessageID :: string
  mr_Role :: string
  mr_Content :: "ContentBlock list"

record WorktreeState =
  wt_OriginalCwd :: string
  wt_WorktreePath :: string
  wt_WorktreeName :: string
  wt_WorktreeBranch :: string
  wt_OriginalBranch :: string
  wt_Exited :: bool

datatype json_value =
  JNull | JString string | JItems "Item list" | JWorktree WorktreeState | JOther

record PatchOp =
  po_Path :: string
  po_Value :: json_value

abbreviation PatchPathTitle :: string where "PatchPathTitle \<equiv> ''title''"
abbreviation PatchPathLastPrompt :: string where "PatchPathLastPrompt \<equiv> ''lastPrompt''"
abbreviation PatchPathTag :: string where "PatchPathTag \<equiv> ''tag''"
abbreviation PatchPathMode :: string where "PatchPathMode \<equiv> ''mode''"
abbreviation PatchPathAutoPilot :: string where "PatchPathAutoPilot \<equiv> ''autoPilot''"
abbreviation PatchPathTasks :: string where "PatchPathTasks \<equiv> ''tasks''"
abbreviation PatchPathWorktree :: string where "PatchPathWorktree \<equiv> ''worktree''"

record SessionRecord =
  sr_Provider :: string
  sr_Model :: string
  sr_MaxTokens :: int
  sr_AgentID :: string
  sr_ParentID :: string
  sr_SummaryMessageID :: string

record InferenceUsage =
  iu_PromptTokens :: int
  iu_CompletionTokens :: int

record InferenceRecord =
  ir_Turn :: int
  ir_SystemDigest :: string
  ir_ToolsDigest :: string
  ir_MessageIDs :: "string list"
  ir_StopReason :: string
  ir_LatencyMs :: int
  ir_Usage :: "InferenceUsage option"

record SystemSectionRecord =
  ss_Name :: string
  ss_Slot :: int
  ss_Content :: string
  ss_Caller :: string

record ToolSchemaView =
  ts_Name :: string
  ts_Description :: string
  ts_Parameters :: string

record ToolRecord =
  tl_Schema :: "ToolSchemaView option"
  tl_Name :: string
  tl_Caller :: string

record HookRecord =
  hr_Event :: string
  hr_Source :: string
  hr_Matcher :: string
  hr_Outcome :: string
  hr_Reason :: string
  hr_LatencyMs :: int

record PermissionRecord =
  pr_RequestID :: string
  pr_Tool :: string
  pr_Input :: string
  pr_Detail :: string
  pr_OptionsOffered :: "string list"
  pr_Decision :: string
  pr_Source :: string
  pr_Scope :: string
  pr_Reason :: string
  pr_Mode :: string
  pr_LatencyMs :: int

record SkillRecord =
  sk_Name :: string
  sk_Previous :: string
  sk_Current :: string
  sk_Caller :: string

record Record =
  rc_ID :: string
  rc_SessionID :: string
  rc_Time :: int
  rc_Type :: string
  rc_ParentID :: string
  rc_IsSidechain :: bool
  rc_Cwd :: string
  rc_Version :: string
  rc_GitBranch :: string
  rc_AgentID :: string
  rc_Message :: "MessageRecord option"
  rc_State :: "PatchOp list option"
  rc_Session :: "SessionRecord option"
  rc_Inference :: "InferenceRecord option"
  rc_System :: "SystemSectionRecord option"
  rc_Tool :: "ToolRecord option"
  rc_Hook :: "HookRecord option"
  rc_Permission :: "PermissionRecord option"
  rc_Skill :: "SkillRecord option"

subsection \<open>The projected session\<close>

record TrackerItemView =
  tv_ID :: string
  tv_Subject :: string
  tv_Description :: string
  tv_ActiveForm :: string
  tv_Status :: string
  tv_Owner :: string
  tv_Blocks :: "string list"
  tv_BlockedBy :: "string list"
  tv_CreatedAt :: int
  tv_UpdatedAt :: int
  tv_StatusChangedAt :: int

record SessionState =
  ps_Title :: string
  ps_LastPrompt :: string
  ps_Tag :: string
  ps_Mode :: string
  ps_AutoPilot :: string
  ps_Tasks :: "TrackerItemView list"
  ps_Worktree :: "WorktreeState option"

record MsgNode =
  nd_ID :: string
  nd_ParentID :: string
  nd_Role :: string
  nd_Time :: int
  nd_Cwd :: string
  nd_GitBranch :: string
  nd_AgentID :: string
  nd_IsSidechain :: bool
  nd_Content :: "ContentBlock list"

record Transcript =
  tr_ID :: string
  tr_ParentID :: string
  tr_Cwd :: string
  tr_CreatedAt :: int
  tr_UpdatedAt :: int
  tr_Provider :: string
  tr_Model :: string
  tr_Messages :: "MsgNode list"
  tr_State :: SessionState

definition empty_state :: SessionState where
  "empty_state = \<lparr>ps_Title = [], ps_LastPrompt = [], ps_Tag = [], ps_Mode = [], ps_AutoPilot = [],
     ps_Tasks = [], ps_Worktree = None\<rparr>"

definition empty_transcript :: Transcript where
  "empty_transcript = \<lparr>tr_ID = [], tr_ParentID = [], tr_Cwd = [], tr_CreatedAt = 0, tr_UpdatedAt = 0,
     tr_Provider = [], tr_Model = [], tr_Messages = [], tr_State = empty_state\<rparr>"

subsection \<open>Task lists in the transcript\<close>

definition item_of_view :: "TrackerItemView \<Rightarrow> Item" where
  "item_of_view v = \<lparr>it_ID = tv_ID v, it_Subject = tv_Subject v, it_Description = tv_Description v,
     it_ActiveForm = tv_ActiveForm v, it_Status = tv_Status v, it_Owner = tv_Owner v, it_Metadata = gm_empty,
     it_Blocks = tv_Blocks v, it_BlockedBy = tv_BlockedBy v, it_CreatedAt = tv_CreatedAt v,
     it_UpdatedAt = tv_UpdatedAt v, it_StatusChangedAt = tv_StatusChangedAt v\<rparr>"

definition view_of_item :: "Item \<Rightarrow> TrackerItemView" where
  "view_of_item t = \<lparr>tv_ID = it_ID t, tv_Subject = it_Subject t, tv_Description = it_Description t,
     tv_ActiveForm = it_ActiveForm t, tv_Status = it_Status t, tv_Owner = it_Owner t,
     tv_Blocks = it_Blocks t, tv_BlockedBy = it_BlockedBy t, tv_CreatedAt = it_CreatedAt t,
     tv_UpdatedAt = it_UpdatedAt t, tv_StatusChangedAt = it_StatusChangedAt t\<rparr>"

definition TrackerItemsFromView :: "TrackerItemView list \<Rightarrow> Item list" where
  "TrackerItemsFromView items = List.map item_of_view items"

definition TrackerItemViewsFromItems :: "Item list \<Rightarrow> TrackerItemView list" where
  "TrackerItemViewsFromItems items = List.map view_of_item items"

subsection \<open>Patches\<close>

definition PatchTitle :: "string \<Rightarrow> PatchOp" where
  "PatchTitle v = \<lparr>po_Path = PatchPathTitle, po_Value = JString v\<rparr>"
definition PatchLastPrompt :: "string \<Rightarrow> PatchOp" where
  "PatchLastPrompt v = \<lparr>po_Path = PatchPathLastPrompt, po_Value = JString v\<rparr>"
definition PatchTag :: "string \<Rightarrow> PatchOp" where
  "PatchTag v = \<lparr>po_Path = PatchPathTag, po_Value = JString v\<rparr>"
definition PatchMode :: "string \<Rightarrow> PatchOp" where
  "PatchMode v = \<lparr>po_Path = PatchPathMode, po_Value = JString v\<rparr>"
definition PatchAutoPilot :: "string \<Rightarrow> PatchOp" where
  "PatchAutoPilot v = \<lparr>po_Path = PatchPathAutoPilot, po_Value = JString v\<rparr>"
definition PatchTasks :: "Item list \<Rightarrow> PatchOp" where
  "PatchTasks tasks = \<lparr>po_Path = PatchPathTasks, po_Value = JItems tasks\<rparr>"
definition PatchWorktree :: "WorktreeState option \<Rightarrow> PatchOp" where
  "PatchWorktree wt = \<lparr>po_Path = PatchPathWorktree,
     po_Value = (case wt of None \<Rightarrow> JNull | Some w \<Rightarrow> JWorktree w)\<rparr>"

definition op_if :: "bool \<Rightarrow> PatchOp \<Rightarrow> PatchOp list" where
  "op_if b op = (if b then [op] else [])"

definition StateOpsDiff :: "SessionState \<Rightarrow> SessionState \<Rightarrow> PatchOp list" where
  "StateOpsDiff prev nxt =
     op_if (ps_Title prev \<noteq> ps_Title nxt) (PatchTitle (ps_Title nxt))
     @ op_if (ps_LastPrompt prev \<noteq> ps_LastPrompt nxt) (PatchLastPrompt (ps_LastPrompt nxt))
     @ op_if (ps_Tag prev \<noteq> ps_Tag nxt) (PatchTag (ps_Tag nxt))
     @ op_if (ps_Mode prev \<noteq> ps_Mode nxt) (PatchMode (ps_Mode nxt))
     @ op_if (ps_AutoPilot prev \<noteq> ps_AutoPilot nxt) (PatchAutoPilot (ps_AutoPilot nxt))
     @ op_if (ps_Tasks prev \<noteq> ps_Tasks nxt) (PatchTasks (TrackerItemsFromView (ps_Tasks nxt)))
     @ op_if (ps_Worktree prev \<noteq> ps_Worktree nxt) (PatchWorktree (ps_Worktree nxt))"

text \<open>
  \<open>json.Unmarshal\<close> into a string, a list of items and a work tree; null leaves the zero value.  A
  patch that fails leaves the operations before it applied, so the result is the error and the state.
\<close>

definition json_string :: "json_value \<Rightarrow> string option" where
  "json_string v = (case v of JString s \<Rightarrow> Some s | JNull \<Rightarrow> Some [] | _ \<Rightarrow> None)"

definition json_items :: "json_value \<Rightarrow> Item list option" where
  "json_items v = (case v of JItems xs \<Rightarrow> Some xs | JNull \<Rightarrow> Some [] | _ \<Rightarrow> None)"

definition apply_op :: "PatchOp \<Rightarrow> SessionState \<Rightarrow> SessionState option" where
  "apply_op op st =
     (let p = po_Path op; v = po_Value op
      in if p = PatchPathTitle then map_option (\<lambda>x. st\<lparr>ps_Title := x\<rparr>) (json_string v)
         else if p = PatchPathLastPrompt then map_option (\<lambda>x. st\<lparr>ps_LastPrompt := x\<rparr>) (json_string v)
         else if p = PatchPathTag then map_option (\<lambda>x. st\<lparr>ps_Tag := x\<rparr>) (json_string v)
         else if p = PatchPathMode then map_option (\<lambda>x. st\<lparr>ps_Mode := x\<rparr>) (json_string v)
         else if p = PatchPathAutoPilot then map_option (\<lambda>x. st\<lparr>ps_AutoPilot := x\<rparr>) (json_string v)
         else if p = PatchPathTasks
           then map_option (\<lambda>x. st\<lparr>ps_Tasks := TrackerItemViewsFromItems x\<rparr>) (json_items v)
         else if p = PatchPathWorktree
           then (case v of JNull \<Rightarrow> Some (st\<lparr>ps_Worktree := None\<rparr>)
                 | JWorktree w \<Rightarrow> Some (st\<lparr>ps_Worktree := Some w\<rparr>) | _ \<Rightarrow> None)
         else Some st)"

fun apply_ops :: "PatchOp list \<Rightarrow> SessionState \<Rightarrow> string option \<times> SessionState" where
  "apply_ops [] st = (None, st)"
| "apply_ops (op # ops) st =
     (case apply_op op st of
        None \<Rightarrow> (Some (''patch '' @ po_Path op), st)
      | Some st' \<Rightarrow> apply_ops ops st')"

definition applyStatePatch :: "SessionState \<Rightarrow> PatchOp list option \<Rightarrow> string option \<times> SessionState" where
  "applyStatePatch st patch = (case patch of None \<Rightarrow> (None, st) | Some ops \<Rightarrow> apply_ops ops st)"

subsection \<open>Replay\<close>

definition applyStarted :: "Transcript \<Rightarrow> Record \<Rightarrow> Transcript" where
  "applyStarted t r =
     (let t = t\<lparr>tr_ID := (if tr_ID t = [] then rc_SessionID r else tr_ID t),
                tr_Cwd := (if tr_Cwd t = [] then rc_Cwd r else tr_Cwd t),
                tr_CreatedAt := (if tr_CreatedAt t = 0 then rc_Time r else tr_CreatedAt t),
                tr_UpdatedAt := max (tr_UpdatedAt t) (rc_Time r)\<rparr>
      in case rc_Session r of
           None \<Rightarrow> t
         | Some s \<Rightarrow> t\<lparr>tr_Provider := sr_Provider s, tr_Model := sr_Model s, tr_ParentID := sr_ParentID s\<rparr>)"

definition applyForked :: "Transcript \<Rightarrow> Record \<Rightarrow> Transcript" where
  "applyForked t r =
     (let t = t\<lparr>tr_ID := (if tr_ID t = [] then rc_SessionID r else tr_ID t),
                tr_UpdatedAt := max (tr_UpdatedAt t) (rc_Time r)\<rparr>
      in case rc_Session r of
           None \<Rightarrow> t
         | Some s \<Rightarrow> (if sr_ParentID s \<noteq> [] then t\<lparr>tr_ParentID := sr_ParentID s\<rparr> else t))"

definition buildNode :: "Record \<Rightarrow> string + MsgNode" where
  "buildNode r =
     (case rc_Message r of
        None \<Rightarrow> Inl ''message.appended missing payload''
      | Some m \<Rightarrow> Inr \<lparr>nd_ID = mr_MessageID m, nd_ParentID = rc_ParentID r, nd_Role = mr_Role m,
          nd_Time = rc_Time r, nd_Cwd = rc_Cwd r, nd_GitBranch = rc_GitBranch r, nd_AgentID = rc_AgentID r,
          nd_IsSidechain = rc_IsSidechain r, nd_Content = mr_Content m\<rparr>)"

record projection =
  pj_t :: Transcript
  pj_map :: "(string, MsgNode) gomap"
  pj_order :: "string list"
  pj_boundary :: string

definition start_projection :: projection where
  "start_projection = \<lparr>pj_t = empty_transcript, pj_map = gm_empty, pj_order = [], pj_boundary = []\<rparr>"

text \<open>The bookkeeping that a message, a patch and a compaction share.\<close>

definition touched :: "Transcript \<Rightarrow> Record \<Rightarrow> Transcript" where
  "touched t r = t\<lparr>tr_ID := (if tr_ID t = [] then rc_SessionID r else tr_ID t),
     tr_UpdatedAt := max (tr_UpdatedAt t) (rc_Time r)\<rparr>"

definition project_record :: "Record \<Rightarrow> projection \<Rightarrow> string + projection" where
  "project_record r p =
     (let t = pj_t p
      in if rc_Type r = SessionStarted then Inr (p\<lparr>pj_t := applyStarted t r\<rparr>)
         else if rc_Type r = SessionForked then Inr (p\<lparr>pj_t := applyForked t r\<rparr>)
         else if rc_Type r = MessageAppended then
           (case buildNode r of
              Inl e \<Rightarrow> Inl e
            | Inr n \<Rightarrow> Inr (p\<lparr>pj_map := gm_put (nd_ID n) n (pj_map p), pj_order := pj_order p @ [nd_ID n],
                pj_t := (touched t r)\<lparr>tr_Cwd := (if tr_Cwd t = [] then rc_Cwd r else tr_Cwd t),
                   tr_CreatedAt := (if tr_CreatedAt t = 0 then rc_Time r else tr_CreatedAt t)\<rparr>\<rparr>))
         else if rc_Type r = SessionStatePatched then
           (case applyStatePatch (tr_State t) (rc_State r) of
              (Some e, _) \<Rightarrow> Inl e
            | (None, st) \<Rightarrow> Inr (p\<lparr>pj_t := touched (t\<lparr>tr_State := st\<rparr>) r\<rparr>))
         else if rc_Type r = SessionCompacted then
           Inr (p\<lparr>pj_t := touched t r,
             pj_boundary := (case rc_Session r of None \<Rightarrow> pj_boundary p | Some s \<Rightarrow> sr_SummaryMessageID s)\<rparr>)
         else Inr p)"

fun project_records :: "Record list \<Rightarrow> projection \<Rightarrow> string + projection" where
  "project_records [] p = Inr p"
| "project_records (r # rs) p =
     (case project_record r p of Inl e \<Rightarrow> Inl e | Inr p' \<Rightarrow> project_records rs p')"

text \<open>
  The walk along parent pointers; \<open>seen\<close> stops it on a cycle, so it ends after at most as many
  steps as there are messages.
\<close>

lemma gm_get_key: "gm_get m k = Some v \<Longrightarrow> k \<in> set (gm_keys m)"
  using gm_laws(7) [of k m] by simp

function chain_walk :: "(string, MsgNode) gomap \<Rightarrow> string \<Rightarrow> string list \<Rightarrow> string \<Rightarrow> MsgNode list" where
  "chain_walk m boundary seen cur =
     (if cur = [] \<or> cur \<in> set seen then []
      else case gm_get m cur of
             None \<Rightarrow> []
           | Some n \<Rightarrow> n # (if boundary \<noteq> [] \<and> cur = boundary then []
                             else chain_walk m boundary (cur # seen) (nd_ParentID n)))"
  by pat_completeness auto

termination
proof (relation "measure (\<lambda>(m, b, seen, cur). card (set (gm_keys m) - set seen))", goal_cases)
  case (2 m boundary seen cur n)
  then have "cur \<in> set (gm_keys m) - set seen" by (auto dest: gm_get_key)
  then have "card (set (gm_keys m) - set seen - {cur}) < card (set (gm_keys m) - set seen)"
    by (intro card_Diff1_less) auto
  then show ?case by (simp add: Diff_insert [of _ cur "set seen"])
qed simp

declare chain_walk.simps [simp del]

definition materializeActiveChain :: "(string, MsgNode) gomap \<Rightarrow> string list \<Rightarrow> string \<Rightarrow> MsgNode list" where
  "materializeActiveChain m order boundary =
     (if order = [] then []
      else let parent = (\<lambda>i. case gm_get m i of None \<Rightarrow> [] | Some n \<Rightarrow> nd_ParentID n);
               hasChild = (\<lambda>i. i \<noteq> [] \<and> i \<in> parent ` set order);
               leaf = (case List.find (\<lambda>i. \<not> hasChild i) (rev order) of None \<Rightarrow> [] | Some i \<Rightarrow> i);
               leaf = (if leaf = [] then last order else leaf)
           in rev (chain_walk m boundary [] leaf))"

definition Project :: "Record list \<Rightarrow> string + Transcript" where
  "Project rs =
     (case project_records rs start_projection of
        Inl e \<Rightarrow> Inl e
      | Inr p \<Rightarrow> Inr ((pj_t p)\<lparr>tr_Messages :=
                   materializeActiveChain (pj_map p) (pj_order p) (pj_boundary p)\<rparr>))"

subsection \<open>Views\<close>

record MetadataView =
  mv_ID :: string
  mv_Title :: string
  mv_LastPrompt :: string
  mv_Tag :: string
  mv_Mode :: string
  mv_AutoPilot :: string
  mv_CreatedAt :: int
  mv_UpdatedAt :: int
  mv_Provider :: string
  mv_Model :: string
  mv_Cwd :: string
  mv_MessageCount :: nat
  mv_ParentSessionID :: string

definition MetadataFromTranscript :: "Transcript \<Rightarrow> MetadataView" where
  "MetadataFromTranscript t = \<lparr>mv_ID = tr_ID t, mv_Title = ps_Title (tr_State t),
     mv_LastPrompt = ps_LastPrompt (tr_State t), mv_Tag = ps_Tag (tr_State t), mv_Mode = ps_Mode (tr_State t),
     mv_AutoPilot = ps_AutoPilot (tr_State t), mv_CreatedAt = tr_CreatedAt t, mv_UpdatedAt = tr_UpdatedAt t,
     mv_Provider = tr_Provider t, mv_Model = tr_Model t, mv_Cwd = tr_Cwd t,
     mv_MessageCount = length (tr_Messages t), mv_ParentSessionID = tr_ParentID t\<rparr>"

subsection \<open>State patches\<close>

lemma view_item_view [simp]: "TrackerItemViewsFromItems (TrackerItemsFromView vs) = vs"
  by (induction vs) (simp_all add: TrackerItemViewsFromItems_def TrackerItemsFromView_def
      view_of_item_def item_of_view_def)

lemma patch_of_diff:
  "applyStatePatch prev (Some (StateOpsDiff prev nxt)) = (None, nxt)"
proof -
  have simps: "json_string (JString v) = Some v" "json_items (JItems xs) = Some xs" for v xs
    by (simp_all add: json_string_def json_items_def)
  show ?thesis
    unfolding applyStatePatch_def StateOpsDiff_def op_if_def
    by (cases prev; cases nxt)
       (simp add: apply_op_def PatchTitle_def PatchLastPrompt_def PatchTag_def PatchMode_def
        PatchAutoPilot_def PatchTasks_def PatchWorktree_def simps split: option.split)
qed

text \<open>
  Writing only what changed loses nothing: applying the patch between two states to the first gives
  the second.
\<close>

theorem state_patch_roundtrip:
  "applyStatePatch prev (Some (StateOpsDiff prev nxt)) = (None, nxt)"
  by (rule patch_of_diff)

subsection \<open>The active chain\<close>

text \<open>A chain is linked by parent pointers, each message at most once.\<close>

fun linked :: "MsgNode list \<Rightarrow> bool" where
  "linked (a # b # ns) = (nd_ParentID b = nd_ID a \<and> linked (b # ns))"
| "linked _ = True"

fun walked :: "MsgNode list \<Rightarrow> bool" where
  "walked (b # a # ns) = (nd_ParentID b = nd_ID a \<and> walked (a # ns))"
| "walked _ = True"

lemma walked_snoc: "walked (ns @ [b, a]) \<longleftrightarrow> walked (ns @ [b]) \<and> nd_ParentID b = nd_ID a"
  by (induction ns rule: walked.induct) auto

lemma linked_rev: "linked (rev ns) = walked ns"
proof (induction ns rule: walked.induct)
  case (1 b a ns)
  have "linked (xs @ [a]) \<Longrightarrow> linked (xs @ [a, b]) = (nd_ParentID b = nd_ID a)" for xs
    by (induction xs rule: linked.induct) auto
  moreover have "linked (xs @ [a, b]) \<Longrightarrow> linked (xs @ [a])" for xs
    by (induction xs rule: linked.induct) auto
  ultimately have "linked (rev ns @ [a, b]) \<longleftrightarrow> linked (rev ns @ [a]) \<and> nd_ParentID b = nd_ID a" by blast
  then show ?case using 1 by auto
qed auto

definition keyed :: "(string, MsgNode) gomap \<Rightarrow> bool" where
  "keyed m \<longleftrightarrow> gm_ok m \<and> (\<forall>k n. gm_get m k = Some n \<longrightarrow> nd_ID n = k)"

lemma keyedD: "keyed m \<Longrightarrow> gm_get m k = Some n \<Longrightarrow> nd_ID n = k"
  by (simp add: keyed_def)

lemma chain_walk_hd:
  "keyed m \<Longrightarrow> chain_walk m b seen cur = n # ns \<Longrightarrow> nd_ID n = cur"
  by (subst (asm) chain_walk.simps) (auto simp: keyed_def split: if_splits option.splits)

lemma chain_walk_properties:
  assumes "keyed m"
  shows "walked (chain_walk m b seen cur) \<and> distinct (List.map nd_ID (chain_walk m b seen cur))
    \<and> (\<forall>n \<in> set (chain_walk m b seen cur). gm_get m (nd_ID n) = Some n \<and> nd_ID n \<noteq> [] \<and> nd_ID n \<notin> set seen)"
  using assms
proof (induction m b seen cur rule: chain_walk.induct)
  case (1 m b seen cur)
  show ?case
  proof (cases "cur = [] \<or> cur \<in> set seen \<or> gm_get m cur = None")
    case True
    then have "chain_walk m b seen cur = []" by (subst chain_walk.simps) (auto split: option.split)
    then show ?thesis by simp
  next
    case False
    then obtain n where n: "gm_get m cur = Some n" "cur \<noteq> []" "cur \<notin> set seen" by blast
    then have "nd_ID n = cur" using 1(2) keyedD by blast
    show ?thesis
    proof (cases "b \<noteq> [] \<and> cur = b")
      case True
      then have "chain_walk m b seen cur = [n]" using n by (subst chain_walk.simps) simp
      then show ?thesis using n \<open>nd_ID n = cur\<close> by simp
    next
      case False
      define rest where "rest = chain_walk m b (cur # seen) (nd_ParentID n)"
      have w: "chain_walk m b seen cur = n # rest"
        using n False unfolding rest_def by (subst chain_walk.simps) auto
      have IH: "walked rest" "distinct (List.map nd_ID rest)"
        "\<And>x. x \<in> set rest \<Longrightarrow> gm_get m (nd_ID x) = Some x \<and> nd_ID x \<noteq> [] \<and> nd_ID x \<notin> set (cur # seen)"
        using 1(1) [OF _ n(1) False] 1(2) n(2,3) unfolding rest_def by auto
      have "walked (n # rest)"
      proof (cases rest)
        case (Cons a as)
        then have "nd_ID a = nd_ParentID n" using chain_walk_hd [OF 1(2)] unfolding rest_def by blast
        then show ?thesis using Cons IH(1) by simp
      qed simp
      moreover have "distinct (List.map nd_ID (n # rest))"
        using IH(2,3) \<open>nd_ID n = cur\<close> by fastforce
      moreover have "gm_get m (nd_ID x) = Some x \<and> nd_ID x \<noteq> [] \<and> nd_ID x \<notin> set seen"
        if "x \<in> set (n # rest)" for x
        using that IH(3) [of x] n \<open>nd_ID n = cur\<close> by (cases "x = n") simp_all
      ultimately show ?thesis unfolding w by blast
    qed
  qed
qed

subsection \<open>What replay returns\<close>

definition node_of :: "Record \<Rightarrow> MsgNode list" where
  "node_of r = (if rc_Type r = MessageAppended
     then (case buildNode r of Inl _ \<Rightarrow> [] | Inr n \<Rightarrow> [n]) else [])"

definition nodes_of :: "Record list \<Rightarrow> MsgNode list" where
  "nodes_of rs = concat (List.map node_of rs)"

definition boundary_step :: "Record \<Rightarrow> string \<Rightarrow> string" where
  "boundary_step r b = (if rc_Type r = SessionCompacted
     then (case rc_Session r of None \<Rightarrow> b | Some s \<Rightarrow> sr_SummaryMessageID s) else b)"

definition boundary_of :: "Record list \<Rightarrow> string" where
  "boundary_of rs = fold boundary_step rs []"

definition put_node :: "MsgNode \<Rightarrow> (string, MsgNode) gomap \<Rightarrow> (string, MsgNode) gomap" where
  "put_node n m = gm_put (nd_ID n) n m"

lemma project_record_frame:
  assumes "project_record r p = Inr p'"
  shows "pj_map p' = fold put_node (node_of r) (pj_map p)"
    "pj_order p' = pj_order p @ List.map nd_ID (node_of r)"
    "pj_boundary p' = boundary_step r (pj_boundary p)"
  using assms by (auto simp: project_record_def Let_def node_of_def boundary_step_def put_node_def
      split: if_splits sum.splits prod.splits option.splits)

lemma project_records_frame:
  assumes "project_records rs p = Inr p'"
  shows "pj_map p' = fold put_node (nodes_of rs) (pj_map p)
    \<and> pj_order p' = pj_order p @ List.map nd_ID (nodes_of rs)
    \<and> pj_boundary p' = fold boundary_step rs (pj_boundary p)"
  using assms
proof (induction rs arbitrary: p)
  case (Cons r rs)
  then obtain q where "project_record r p = Inr q" "project_records rs q = Inr p'"
    by (auto split: sum.splits)
  then show ?case using Cons.IH [of q] project_record_frame [of r p q] by (simp add: nodes_of_def)
qed (simp add: nodes_of_def)

lemma Project_messages:
  assumes "Project rs = Inr t"
  shows "tr_Messages t = materializeActiveChain (fold put_node (nodes_of rs) gm_empty)
     (List.map nd_ID (nodes_of rs)) (boundary_of rs)"
  using assms project_records_frame [of rs start_projection]
  by (auto simp: Project_def start_projection_def boundary_of_def split: sum.splits)

lemma keyed_put_node: "keyed m \<Longrightarrow> keyed (put_node n m)"
  by (simp add: keyed_def put_node_def gm.ok_put gm.get_put)

lemma keyed_put_nodes: "keyed m \<Longrightarrow> keyed (fold put_node ns m)"
  by (induction ns arbitrary: m) (simp_all add: keyed_put_node)

lemma put_nodes_origin: "gm_get (fold put_node ns m) k = Some n \<Longrightarrow> n \<in> set ns \<or> gm_get m k = Some n"
proof (induction ns arbitrary: m)
  case (Cons a ns)
  then have "n \<in> set ns \<or> gm_get (put_node a m) k = Some n" by simp
  then show ?case by (auto simp: put_node_def gm.get_put split: if_splits)
qed simp

lemma put_nodes_other: "k \<notin> nd_ID ` set ns \<Longrightarrow> gm_get (fold put_node ns m) k = gm_get m k"
  by (induction ns arbitrary: m) (auto simp: put_node_def gm.get_put)

lemma put_nodes_get:
  "distinct (List.map nd_ID ns) \<Longrightarrow> n \<in> set ns \<Longrightarrow> gm_get (fold put_node ns m) (nd_ID n) = Some n"
proof (induction ns arbitrary: m)
  case (Cons a ns)
  have "gm_get (fold put_node ns (put_node a m)) (nd_ID a) = Some a"
    using Cons.prems(1) by (subst put_nodes_other) (auto simp: put_node_def gm.get_put)
  then show ?case using Cons by (cases "n = a") simp_all
qed simp

lemma keyed_empty: "keyed gm_empty"
  by (simp add: keyed_def gm.ok_empty gm.get_empty)

lemma nodes_of_origin: "n \<in> set (nodes_of rs) \<Longrightarrow> \<exists>r \<in> set rs. rc_Type r = MessageAppended \<and> buildNode r = Inr n"
  by (auto simp: nodes_of_def node_of_def split: if_splits sum.splits)

lemma materialize_walk: "\<exists>leaf. materializeActiveChain m order b = rev (chain_walk m b [] leaf)"
proof (cases "order = []")
  case True
  then have "materializeActiveChain m order b = rev (chain_walk m b [] [])"
    by (simp add: materializeActiveChain_def chain_walk.simps)
  then show ?thesis ..
qed (auto simp: materializeActiveChain_def Let_def)

text \<open>
  Whatever the records are -- forked, compacted, cyclic -- the conversation that comes back is a
  chain: every message is one that was appended, follows its parent, and occurs once.
\<close>

theorem replay_is_a_chain:
  assumes "Project rs = Inr t"
  shows "linked (tr_Messages t) \<and> distinct (List.map nd_ID (tr_Messages t))
    \<and> (\<forall>n \<in> set (tr_Messages t). \<exists>r \<in> set rs. rc_Type r = MessageAppended \<and> buildNode r = Inr n)"
proof -
  let ?m = "fold put_node (nodes_of rs) gm_empty"
  obtain leaf where w: "tr_Messages t = rev (chain_walk ?m (boundary_of rs) [] leaf)"
    using Project_messages [OF assms] materialize_walk by metis
  note props = chain_walk_properties [OF keyed_put_nodes [OF keyed_empty], of "nodes_of rs" "boundary_of rs" "[]" leaf]
  have "n \<in> set (nodes_of rs)" if "n \<in> set (tr_Messages t)" for n
    using that props w put_nodes_origin [of "nodes_of rs" gm_empty "nd_ID n" n] by (auto simp: gm.get_empty)
  then show ?thesis using props nodes_of_origin unfolding w linked_rev by (auto simp: rev_map [symmetric])
qed

text \<open>A conversation that was never branched: every message continues the one before it.\<close>

definition linear :: "MsgNode list \<Rightarrow> bool" where
  "linear ns \<longleftrightarrow> linked ns \<and> distinct (List.map nd_ID ns) \<and> [] \<notin> nd_ID ` set ns
     \<and> (ns \<noteq> [] \<longrightarrow> nd_ParentID (hd ns) \<notin> nd_ID ` set ns)"

definition from_boundary :: "string \<Rightarrow> MsgNode list \<Rightarrow> MsgNode list" where
  "from_boundary b ns = (if b \<in> nd_ID ` set ns then dropWhile (\<lambda>n. nd_ID n \<noteq> b) ns else ns)"

lemma linked_snoc: "linked (ns @ [a, b]) \<longleftrightarrow> linked (ns @ [a]) \<and> nd_ParentID b = nd_ID a"
  by (induction ns rule: linked.induct) auto

lemma chain_walk_linear:
  assumes "linked ns" "distinct (List.map nd_ID ns)" "[] \<notin> nd_ID ` set ns" "ns \<noteq> []"
    and "nd_ParentID (hd ns) = [] \<or> gm_get m (nd_ParentID (hd ns)) = None"
    and "\<And>n. n \<in> set ns \<Longrightarrow> gm_get m (nd_ID n) = Some n"
    and "set seen \<inter> nd_ID ` set ns = {}"
  shows "chain_walk m b seen (nd_ID (last ns)) = rev (from_boundary b ns)"
  using assms
proof (induction ns arbitrary: seen rule: rev_induct)
  case (snoc n xs)
  have n: "gm_get m (nd_ID n) = Some n" "nd_ID n \<noteq> []" "nd_ID n \<notin> set seen" "nd_ID n \<notin> nd_ID ` set xs"
    using snoc.prems by auto
  have step: "chain_walk m b seen (nd_ID n)
      = n # (if b \<noteq> [] \<and> nd_ID n = b then [] else chain_walk m b (nd_ID n # seen) (nd_ParentID n))"
    using n by (subst chain_walk.simps) simp
  show ?case
  proof (cases "b = nd_ID n")
    case True
    then have "from_boundary b (xs @ [n]) = [n]"
      using n(4) by (auto simp: from_boundary_def dropWhile_append image_iff)
    then show ?thesis using step True n(2) by simp
  next
    case False
    show ?thesis
    proof (cases "xs = []")
      case True
      then have "chain_walk m b (nd_ID n # seen) (nd_ParentID n) = []"
        using snoc.prems(5) by (subst chain_walk.simps) auto
      then show ?thesis using step False True by (auto simp: from_boundary_def)
    next
      case ne: False
      then obtain ys y where xs: "xs = ys @ [y]" using rev_exhaust by blast
      have parent: "nd_ParentID n = nd_ID (last xs)" "linked xs"
        using snoc.prems(1) linked_snoc [of ys y n] xs by simp_all
      have "chain_walk m b (nd_ID n # seen) (nd_ID (last xs)) = rev (from_boundary b xs)"
        using snoc.prems(2-7) parent(2) ne n(4) by (intro snoc.IH) auto
      moreover have "from_boundary b (xs @ [n]) = from_boundary b xs @ [n]"
        using False by (auto simp: from_boundary_def dropWhile_append)
      ultimately show ?thesis using step False parent(1) by simp
    qed
  qed
qed simp

lemma linked_parent_of_member:
  "linked ns \<Longrightarrow> n \<in> set ns \<Longrightarrow> n = hd ns \<or> nd_ParentID n \<in> nd_ID ` set (butlast ns)"
  by (induction ns rule: linked.induct) auto

lemma linear_leaf:
  assumes "linear ns" "ns \<noteq> []" "\<And>n. n \<in> set ns \<Longrightarrow> gm_get m (nd_ID n) = Some n"
  shows "materializeActiveChain m (List.map nd_ID ns) b = rev (chain_walk m b [] (nd_ID (last ns)))"
proof -
  obtain xs n where ns: "ns = xs @ [n]" using assms(2) rev_exhaust by blast
  have "nd_ParentID k \<noteq> nd_ID n" if "k \<in> set ns" for k
    using that linked_parent_of_member [of ns k] assms(1) ns by (auto simp: linear_def image_iff)
  then have "\<not> (nd_ID n \<noteq> [] \<and> nd_ID n \<in> (\<lambda>i. case gm_get m i of None \<Rightarrow> [] | Some n \<Rightarrow> nd_ParentID n)
      ` set (List.map nd_ID ns))"
    using assms(3) by (fastforce simp: image_iff)
  moreover have "nd_ID n \<noteq> []" using assms(1) ns by (auto simp: linear_def)
  ultimately show ?thesis using ns by (simp add: materializeActiveChain_def Let_def)
qed

lemma linear_replay:
  assumes "Project rs = Inr t" "linear (nodes_of rs)"
  shows "tr_Messages t = from_boundary (boundary_of rs) (nodes_of rs)"
proof (cases "nodes_of rs = []")
  case True
  then show ?thesis using Project_messages [OF assms(1)]
    by (simp add: materializeActiveChain_def from_boundary_def)
next
  case False
  let ?m = "fold put_node (nodes_of rs) gm_empty"
  have get: "gm_get ?m (nd_ID n) = Some n" if "n \<in> set (nodes_of rs)" for n
    using that put_nodes_get assms(2) by (simp add: linear_def)
  have "gm_get ?m (nd_ParentID (hd (nodes_of rs))) = None"
    using assms(2) False by (simp add: linear_def put_nodes_other gm.get_empty)
  then have "chain_walk ?m (boundary_of rs) [] (nd_ID (last (nodes_of rs)))
      = rev (from_boundary (boundary_of rs) (nodes_of rs))"
    using assms(2) False get by (intro chain_walk_linear) (auto simp: linear_def)
  then show ?thesis
    using Project_messages [OF assms(1)] linear_leaf [OF assms(2) False get] by simp
qed

text \<open>
  Replay gives an unbranched conversation back in full and in order, whatever audit records lie
  between the messages; after a compaction it starts at the summary.
\<close>

theorem linear_conversation_is_replayed:
  assumes "Project rs = Inr t" "linear (nodes_of rs)"
  shows "tr_Messages t = from_boundary (boundary_of rs) (nodes_of rs)"
  using assms by (rule linear_replay)

subsection \<open>Workers and the transcript\<close>

text \<open>
  The views in the transcript have no metadata, so an item read back from a session no longer names
  its background task: a worker that is still running counts as an orphan on adoption.
\<close>

lemma transcript_forgets_workers:
  "BackgroundTaskID (item_of_view (view_of_item t)) = []"
  by (simp add: BackgroundTaskID_def metadataString_def item_of_view_def gm.get_empty)

lemma resumed_worker_is_demoted:
  assumes "it_Status t = StatusInProgress" "WorkerRunning E t"
  shows "it_Status (demoted E t) = StatusInProgress"
    "it_Status (demoted E (item_of_view (view_of_item t))) = StatusPending"
proof -
  show "it_Status (demoted E t) = StatusInProgress" using assms by (simp add: demoted_def)
  have "it_Status (item_of_view (view_of_item t)) = StatusInProgress"
    using assms(1) by (simp add: item_of_view_def view_of_item_def)
  moreover have "\<not> WorkerRunning E (item_of_view (view_of_item t))"
    by (simp add: WorkerRunning_def transcript_forgets_workers)
  ultimately show "it_Status (demoted E (item_of_view (view_of_item t))) = StatusPending"
    by (simp add: demoted_def transcript_forgets_workers)
qed

subsection \<open>Examples\<close>

definition blank_record :: "string \<Rightarrow> string \<Rightarrow> int \<Rightarrow> Record" where
  "blank_record i sid t = \<lparr>rc_ID = i, rc_SessionID = sid, rc_Time = t, rc_Type = [], rc_ParentID = [],
     rc_IsSidechain = False, rc_Cwd = [], rc_Version = [], rc_GitBranch = [], rc_AgentID = [],
     rc_Message = None, rc_State = None, rc_Session = None, rc_Inference = None, rc_System = None,
     rc_Tool = None, rc_Hook = None, rc_Permission = None, rc_Skill = None\<rparr>"

definition demo_message :: "string \<Rightarrow> string \<Rightarrow> Record" where
  "demo_message i parent = (blank_record i ''s'' 1)\<lparr>rc_Type := MessageAppended, rc_ParentID := parent,
     rc_Message := Some \<lparr>mr_MessageID = i, mr_Role = ''user'', mr_Content = []\<rparr>\<rparr>"

definition demo_compaction :: "string \<Rightarrow> Record" where
  "demo_compaction i = (blank_record ''c'' ''s'' 1)\<lparr>rc_Type := SessionCompacted,
     rc_Session := Some \<lparr>sr_Provider = [], sr_Model = [], sr_MaxTokens = 0, sr_AgentID = [], sr_ParentID = [],
       sr_SummaryMessageID = i\<rparr>\<rparr>"

definition demo_records :: "Record list" where
  "demo_records = [demo_message ''a'' [], demo_message ''b'' ''a'', demo_message ''sum'' ''b'',
     demo_compaction ''sum'', demo_message ''d'' ''sum'']"

lemma linear_conversation_is_replayed_witness:
  "\<exists>t. Project demo_records = Inr t \<and> List.map nd_ID (tr_Messages t) = [''sum'', ''d'']"
proof -
  have "\<not> isl (Project demo_records)" by code_simp
  then obtain t where t: "Project demo_records = Inr t" by (cases "Project demo_records") auto
  have lin: "linear (nodes_of demo_records)" by code_simp
  have "List.map nd_ID (from_boundary (boundary_of demo_records) (nodes_of demo_records)) = [''sum'', ''d'']"
    by code_simp
  then show ?thesis using linear_conversation_is_replayed [OF t lin] t by auto
qed

lemma replay_is_a_chain_witness:
  "\<exists>t. Project [demo_message ''a'' ''b'', demo_message ''b'' ''a''] = Inr t \<and> linked (tr_Messages t)"
proof -
  have "\<not> isl (Project [demo_message ''a'' ''b'', demo_message ''b'' ''a''])" by code_simp
  then obtain t where t: "Project [demo_message ''a'' ''b'', demo_message ''b'' ''a''] = Inr t"
    by (cases "Project [demo_message ''a'' ''b'', demo_message ''b'' ''a'']") auto
  then show ?thesis using replay_is_a_chain [OF t] by blast
qed

end
