(* ===== verification/Blocks.thy ===== *)
theory Blocks
  imports Message Transcript
begin

text \<open>
  How a message is written to the transcript and read back (\<open>internal/session/message_convert.go\<close>,
  \<open>node_convert.go\<close>, \<open>title.go\<close>, \<open>transcript/tool_result.go\<close>, and the image tokens of
  \<open>internal/core/message.go\<close>).

  The two regular expressions of the sources are written out as recursive matchers: both are
  determined by their leftmost match, so a matcher at one position and the loop over positions say
  what they mean.  The JSON of the details of a tool result is a parameter (\<open>details_codec\<close>).
\<close>

subsection \<open>Image tokens\<close>

text \<open>\<open>\[[^\[\]]*?#(\d+)\]\<close> at the head of the string: the digits, the token and what follows.\<close>

definition token_at :: "string \<Rightarrow> (string \<times> string \<times> string) option" where
  "token_at s =
     (case s of
        [] \<Rightarrow> None
      | c # cs \<Rightarrow>
          (let inner = (\<lambda>c. c \<noteq> CHR ''['' \<and> c \<noteq> CHR '']'');
               label = takeWhile inner cs; after = dropWhile inner cs;
               digits = rev (takeWhile is_digit (rev label));
               before = take (length label - length digits) label
           in if c = CHR ''['' \<and> after \<noteq> [] \<and> hd after = CHR '']'' \<and> digits \<noteq> []
                \<and> before \<noteq> [] \<and> last before = CHR ''#''
              then Some (digits, c # label @ '']'', tl after) else None))"

datatype segment = Plain string | Mark string string

fun push_char :: "char \<Rightarrow> segment list \<Rightarrow> segment list" where
  "push_char c (Plain t # ss) = Plain (c # t) # ss"
| "push_char c ss = Plain [c] # ss"

lemma token_at_shorter:
  assumes "token_at s = Some (d, tok, rest)"
  shows "s = tok @ rest \<and> tok \<noteq> []"
proof (cases s)
  case (Cons c cs)
  let ?in = "\<lambda>c. c \<noteq> CHR ''['' \<and> c \<noteq> CHR '']''"
  have t: "dropWhile ?in cs \<noteq> []" "hd (dropWhile ?in cs) = CHR '']''"
      "tok = c # takeWhile ?in cs @ '']''" "rest = tl (dropWhile ?in cs)"
    using assms unfolding token_at_def Cons list.case Let_def by (simp_all split: if_split_asm)
  then have "dropWhile ?in cs = '']'' @ rest" by (metis append_Cons append_Nil list.collapse)
  then have "cs = takeWhile ?in cs @ '']'' @ rest" by (metis takeWhile_dropWhile_id)
  then show ?thesis using Cons t(3) by (metis append_Cons append_assoc list.discI)
qed (use assms in \<open>simp add: token_at_def\<close>)

function token_segments :: "string \<Rightarrow> segment list" where
  "token_segments s =
     (case token_at s of
        Some (digits, tok, rest) \<Rightarrow> Mark tok digits # token_segments rest
      | None \<Rightarrow> (case s of [] \<Rightarrow> [] | c # cs \<Rightarrow> push_char c (token_segments cs)))"
  by pat_completeness auto
termination by (relation "measure length") (auto dest: token_at_shorter)

declare token_segments.simps [simp del]

definition has_token :: "string \<Rightarrow> bool" where
  "has_token s = list_ex (\<lambda>x. case x of Mark _ _ \<Rightarrow> True | _ \<Rightarrow> False) (token_segments s)"

fun image_ids :: "segment list \<Rightarrow> nat \<Rightarrow> nat \<Rightarrow> (int, nat) gomap \<Rightarrow> (int, nat) gomap" where
  "image_ids [] idx limit m = m"
| "image_ids (Plain t # ss) idx limit m = image_ids ss idx limit m"
| "image_ids (Mark tok digits # ss) idx limit m =
     (case atoi digits of
        Some i \<Rightarrow> (if idx < limit then image_ids ss (idx + 1) limit (gm_put i idx m)
                    else image_ids ss idx limit m)
      | None \<Rightarrow> image_ids ss idx limit m)"

definition BuildImageIDMap :: "string \<Rightarrow> nat \<Rightarrow> (int, nat) gomap" where
  "BuildImageIDMap displayContent imageCount = image_ids (token_segments displayContent) 0 imageCount gm_empty"

datatype ContentPart = PartText string | PartImage Image

definition image_of_token :: "(int, nat) gomap \<Rightarrow> Image list \<Rightarrow> string \<Rightarrow> Image list" where
  "image_of_token m images digits =
     (case Option.bind (atoi digits) (gm_get m) of
        Some idx \<Rightarrow> (if idx < length images then [images ! idx] else [])
      | None \<Rightarrow> [])"

definition InterleavedContentParts :: "Message \<Rightarrow> ContentPart list" where
  "InterleavedContentParts msg =
     (if Images msg = [] \<or> DisplayContent msg = [] \<or> \<not> has_token (DisplayContent msg) then []
      else let m = BuildImageIDMap (DisplayContent msg) (length (Images msg))
           in concat (List.map (\<lambda>x. case x of
                  Plain t \<Rightarrow> [PartText t]
                | Mark _ digits \<Rightarrow> List.map PartImage (image_of_token m (Images msg) digits))
                (token_segments (DisplayContent msg))))"

subsection \<open>Injected text\<close>

abbreviation SourceReminder :: string where "SourceReminder \<equiv> ''reminder''"
abbreviation SourceCommand :: string where "SourceCommand \<equiv> ''command''"

definition isHiddenSource :: "string \<Rightarrow> bool" where
  "isHiddenSource source = (source = SourceCommand \<or> has_prefix source SourceReminder)"

text \<open>The class \<open>\s\<close> of a regular expression, and the characters that \<open>\b\<close> separates.\<close>

definition re_space :: "char \<Rightarrow> bool" where
  "re_space c = (byte_of c \<in> {9, 10, 12, 13, 32})"

definition word_char :: "char \<Rightarrow> bool" where
  "word_char c = (is_digit c \<or> is_lower c \<or> is_upper c \<or> byte_of c = 95)"

text \<open>The end of the first occurrence of \<open>t\<close> in \<open>s\<close>, counted from the start of \<open>s\<close>.\<close>

definition end_of :: "string \<Rightarrow> string \<Rightarrow> nat option" where
  "end_of s t = map_option (\<lambda>i. i + length t) (index_of s t)"

text \<open>\<open><system-reminder(?:\s+source="([^"]*)")?>.*?</system-reminder>\<close>: the length and the source.\<close>

definition reminder_body :: "nat \<Rightarrow> string \<Rightarrow> string \<Rightarrow> (nat \<times> string) option" where
  "reminder_body n source s =
     (if has_prefix s ''>'' then map_option (\<lambda>k. (n + 1 + k, source)) (end_of (tl s) systemReminderClose)
      else None)"

definition reminder_at :: "string \<Rightarrow> (nat \<times> string) option" where
  "reminder_at s =
     (let n = length systemReminderOpen; r = drop n s;
          ws = takeWhile re_space r; q = drop (length ws) r; attr = ''source='' @ [CHR 0x22];
          v = takeWhile (\<lambda>c. c \<noteq> CHR 0x22) (drop (length attr) q);
          after = drop (length attr + length v) q
      in if \<not> has_prefix s systemReminderOpen then None
         else if ws \<noteq> [] \<and> has_prefix q attr \<and> has_prefix after [CHR 0x22]
           then reminder_body (n + length ws + length attr + length v + 1)
                  (if v = [] then SourceReminder else SourceReminder @ '':'' @ v) (tl after)
         else reminder_body n SourceReminder r)"

definition block_at :: "string \<Rightarrow> string \<Rightarrow> nat option" where
  "block_at name s =
     (let open_tag = ''<'' @ name; r = drop (length open_tag) s
      in if has_prefix s open_tag \<and> (r = [] \<or> \<not> word_char (hd r))
         then map_option (\<lambda>k. length open_tag + k) (end_of r (''</'' @ name @ ''>'')) else None)"

definition invocation_at :: "string \<Rightarrow> nat option" where
  "invocation_at s =
     (case block_at ''skill-invocation'' s of Some n \<Rightarrow> Some n | None \<Rightarrow> block_at ''custom-command'' s)"

definition nlc :: char where
  "nlc = CHR 0x0A"

text \<open>
  \<open>.*?</command-name>\s*(?:skill|custom)\n*\<close>: the first closing tag after which an invocation
  follows.
\<close>

fun envelope_rest :: "string \<Rightarrow> nat option" where
  "envelope_rest [] = None"
| "envelope_rest (c # cs) =
     (let tag = ''</command-name>''; t = drop (length tag) (c # cs);
          ws = takeWhile re_space t; u = drop (length ws) t
      in case (if has_prefix (c # cs) tag then invocation_at u else None) of
           Some n \<Rightarrow> Some (length tag + length ws + n + length (takeWhile (\<lambda>c. c = nlc) (drop n u)))
         | None \<Rightarrow> map_option Suc (envelope_rest cs))"

definition envelope_at :: "string \<Rightarrow> (nat \<times> string) option" where
  "envelope_at s =
     (let tag = ''<command-name>''
      in if has_prefix s tag then map_option (\<lambda>k. (length tag + k, SourceCommand)) (envelope_rest (drop (length tag) s))
         else None)"

definition injected_at :: "bool \<Rightarrow> string \<Rightarrow> (nat \<times> string) option" where
  "injected_at at_start s =
     (case reminder_at s of Some x \<Rightarrow> Some x | None \<Rightarrow> (if at_start then envelope_at s else None))"

lemma reminder_at_pos: "reminder_at s = Some (n, src) \<Longrightarrow> 0 < n \<and> s \<noteq> []"
  by (auto simp: reminder_at_def reminder_body_def Let_def systemReminderOpen_def split: if_splits)

lemma envelope_at_pos: "envelope_at s = Some (n, src) \<Longrightarrow> 0 < n \<and> s \<noteq> []"
  by (auto simp: envelope_at_def Let_def split: if_splits)

lemma injected_at_pos: "injected_at b s = Some (n, src) \<Longrightarrow> 0 < n \<and> s \<noteq> []"
  by (auto simp: injected_at_def dest: reminder_at_pos envelope_at_pos split: option.splits if_splits)

function source_segments :: "bool \<Rightarrow> string \<Rightarrow> segment list" where
  "source_segments at_start s =
     (case injected_at at_start s of
        Some (n, source) \<Rightarrow> Mark (take n s) source # source_segments False (drop n s)
      | None \<Rightarrow> (case s of [] \<Rightarrow> [] | c # cs \<Rightarrow> push_char c (source_segments False cs)))"
  by pat_completeness auto
termination
  by (relation "measure (\<lambda>(b, s). length s)") (auto dest: injected_at_pos)

declare source_segments.simps [simp del]

text \<open>A content block with only a type.\<close>

definition typed_block :: "string \<Rightarrow> ContentBlock" where
  "typed_block typ = ContentBlock typ [] [] [] [] [] [] [] [] False Absent Absent [] None"

definition text_block :: "string \<Rightarrow> string \<Rightarrow> ContentBlock" where
  "text_block t source = ContentBlock ''text'' t [] [] [] [] [] [] [] False Absent Absent source None"

fun segment_block :: "segment \<Rightarrow> ContentBlock" where
  "segment_block (Plain t) = text_block t []"
| "segment_block (Mark t source) = text_block t source"

definition splitTextBySource :: "string \<Rightarrow> ContentBlock list" where
  "splitTextBySource text = List.map segment_block (source_segments True text)"

subsection \<open>Messages to blocks\<close>

definition image_block :: "Image \<Rightarrow> ContentBlock" where
  "image_block img = ContentBlock ''image'' [] [] [] [] [] [] [] [] False Absent Absent []
     (Some \<lparr>is_Type = ''base64'', is_MediaType = img_MediaType img, is_Data = img_Data img\<rparr>)"

definition interleavedUserContentToBlocks :: "string \<Rightarrow> string \<Rightarrow> Image list \<Rightarrow> ContentBlock list" where
  "interleavedUserContentToBlocks content displayContent images =
     (let idToIdx = BuildImageIDMap displayContent (length images);
          blocks = concat (List.map (\<lambda>x. case x of
              Plain t \<Rightarrow> splitTextBySource t
            | Mark _ digits \<Rightarrow> List.map image_block (image_of_token idToIdx images digits))
              (token_segments displayContent))
      in if blocks = [] \<and> content \<noteq> [] then splitTextBySource content else blocks)"

definition userContentToBlocks :: "string \<Rightarrow> string \<Rightarrow> Image list \<Rightarrow> ContentBlock list" where
  "userContentToBlocks content displayContent images =
     (if images \<noteq> [] \<and> displayContent \<noteq> [] \<and> has_token displayContent
      then interleavedUserContentToBlocks content displayContent images
      else List.map image_block images @ splitTextBySource content)"

definition tool_use_block :: "ToolCall \<Rightarrow> ContentBlock" where
  "tool_use_block tc = ContentBlock ''tool_use'' [] [] [] (tc_ID tc) (tc_Name tc) (tc_Input tc) [] []
     False Absent Absent [] None"

definition thinking_block :: "string \<Rightarrow> string \<Rightarrow> ContentBlock" where
  "thinking_block thinking signature =
     ContentBlock ''thinking'' [] thinking signature [] [] [] [] [] False Absent Absent [] None"

definition assistantContentToBlocks :: "string \<Rightarrow> string \<Rightarrow> string \<Rightarrow> ToolCall list \<Rightarrow> ContentBlock list" where
  "assistantContentToBlocks content thinking thinkingSignature toolCalls =
     (if thinking \<noteq> [] then [thinking_block thinking thinkingSignature] else [])
     @ (if content \<noteq> [] then [text_block content []] else [])
     @ List.map tool_use_block toolCalls"

definition toolResultToBlocks :: "ToolResult \<Rightarrow> ContentBlock list" where
  "toolResultToBlocks tr =
     [ContentBlock ''tool_result'' [] [] [] [] [] [] (tr_ToolCallID tr)
        (if tr_Content tr \<noteq> [] then [text_block (tr_Content tr) []] else []) (tr_IsError tr)
        (case tr_Details tr of FileChange d \<Rightarrow> Decodes d | _ \<Rightarrow> Absent)
        (case tr_Details tr of BashRun d \<Rightarrow> Decodes d | _ \<Rightarrow> Absent) [] None]"

definition MessageToBlocks :: "Message \<Rightarrow> ContentBlock list" where
  "MessageToBlocks msg =
     (case MsgRole msg of
        RoleUser \<Rightarrow>
          (case MsgToolResult msg of
             Some tr \<Rightarrow> toolResultToBlocks tr
           | None \<Rightarrow> userContentToBlocks (Content msg) (DisplayContent msg) (Images msg))
      | RoleAssistant \<Rightarrow>
          assistantContentToBlocks (Content msg) (Thinking msg) (ThinkingSignature msg) (ToolCalls msg)
      | RoleNotice \<Rightarrow> [])"

subsection \<open>Blocks to messages\<close>

record extraction =
  ex_count :: int
  ex_display :: string
  ex_content :: string
  ex_images :: "Image list"
  ex_result :: "ToolResult option"

definition block_result :: "ContentBlock \<Rightarrow> ToolResult" where
  "block_result b =
     \<lparr>tr_ToolCallID = cb_ToolUseID b, tr_ToolName = [],
      tr_Content = fold (\<lambda>sub c. if cb_Type sub = ''text'' then cb_Text sub else c) (cb_Content b) [],
      tr_IsError = cb_IsError b, tr_HookResponse = GNil,
      tr_Details =
        (case cb_EditDetails b of
           Decodes d \<Rightarrow> FileChange d
         | Malformed \<Rightarrow> NoDetails
         | Absent \<Rightarrow> (case cb_BashDetails b of Decodes d \<Rightarrow> BashRun d | _ \<Rightarrow> NoDetails))\<rparr>"

definition extract_image :: "ImageSource \<Rightarrow> extraction \<Rightarrow> extraction" where
  "extract_image src x =
     x\<lparr>ex_images := ex_images x @ [\<lparr>img_MediaType = is_MediaType src, img_Data = is_Data src,
          img_FileName = [], img_Size = 0\<rparr>],
       ex_count := ex_count x + 1,
       ex_display := ex_display x @ ''[Image #'' @ int_str (ex_count x + 1) @ '']''\<rparr>"

definition extract_block :: "ContentBlock \<Rightarrow> extraction \<Rightarrow> extraction" where
  "extract_block b x =
     (if cb_Type b = ''text''
        then x\<lparr>ex_content := ex_content x @ cb_Text b,
               ex_display := ex_display x @ (if isHiddenSource (cb_Source b) then [] else cb_Text b)\<rparr>
      else if cb_Type b = ''image''
        then (case cb_ImageSource b of None \<Rightarrow> x | Some src \<Rightarrow> extract_image src x)
      else if cb_Type b = ''tool_result'' then x\<lparr>ex_result := Some (block_result b)\<rparr>
      else x)"

definition extractUserContent :: "ContentBlock list \<Rightarrow> Message \<Rightarrow> Message" where
  "extractUserContent blocks msg =
     (let x = fold extract_block blocks
            \<lparr>ex_count = 0, ex_display = [], ex_content = [], ex_images = Images msg,
             ex_result = MsgToolResult msg\<rparr>;
          msg = msg\<lparr>Images := ex_images x, MsgToolResult := ex_result x\<rparr>
      in if ex_result x = None
         then msg\<lparr>Content := ex_content x,
                  DisplayContent := trim_right_by (\<lambda>c. c = nlc) (ex_display x)\<rparr>
         else msg)"

definition block_call :: "ContentBlock \<Rightarrow> ToolCall" where
  "block_call b = \<lparr>tc_ID = cb_ID b, tc_Name = cb_Name b, tc_Input = cb_Input b, tc_ThoughtSignature = []\<rparr>"

definition extract_assistant_block :: "ContentBlock \<Rightarrow> string \<times> Message \<Rightarrow> string \<times> Message" where
  "extract_assistant_block b = (\<lambda>(content, msg).
     if cb_Type b = ''text'' then (content @ cb_Text b, msg)
     else if cb_Type b = ''thinking''
       then (content, msg\<lparr>Thinking := cb_Thinking b, ThinkingSignature := cb_Signature b\<rparr>)
     else if cb_Type b = ''tool_use'' then (content, msg\<lparr>ToolCalls := ToolCalls msg @ [block_call b]\<rparr>)
     else (content, msg))"

definition extractAssistantContent :: "ContentBlock list \<Rightarrow> Message \<Rightarrow> Message" where
  "extractAssistantContent blocks msg =
     (let (content, msg) = fold extract_assistant_block blocks ([], msg) in msg\<lparr>Content := content\<rparr>)"

subsection \<open>Messages and nodes\<close>

definition transcriptRole :: "Role \<Rightarrow> string" where
  "transcriptRole role = (case role of RoleUser \<Rightarrow> ''user'' | RoleAssistant \<Rightarrow> ''assistant'' | RoleNotice \<Rightarrow> [])"

text \<open>\<open>new_id\<close> gives the id of a message without one, by the number of nodes before it.\<close>

definition message_node :: "(nat \<Rightarrow> string) \<Rightarrow> string \<Rightarrow> int \<Rightarrow> string \<Rightarrow> MsgNode list \<Rightarrow> Message \<Rightarrow> MsgNode" where
  "message_node new_id defaultCwd createdAt gitBranch nodes msg =
     \<lparr>nd_ID = (if ID msg = [] then new_id (length nodes) else ID msg),
      nd_ParentID = (if nodes = [] then [] else nd_ID (last nodes)),
      nd_Role = transcriptRole (MsgRole msg),
      nd_Time = createdAt + (int (length nodes) + 1) * 1000000,
      nd_Cwd = defaultCwd, nd_GitBranch = gitBranch, nd_AgentID = [], nd_IsSidechain = False,
      nd_Content = MessageToBlocks msg\<rparr>"

fun messages_to_nodes :: "(nat \<Rightarrow> string) \<Rightarrow> string \<Rightarrow> int \<Rightarrow> string \<Rightarrow> MsgNode list \<Rightarrow> Message list \<Rightarrow> MsgNode list" where
  "messages_to_nodes new_id cwd createdAt gitBranch nodes [] = nodes"
| "messages_to_nodes new_id cwd createdAt gitBranch nodes (msg # msgs) =
     messages_to_nodes new_id cwd createdAt gitBranch
       (if transcriptRole (MsgRole msg) = [] then nodes
        else nodes @ [message_node new_id cwd createdAt gitBranch nodes msg]) msgs"

definition messagesToNodes :: "(nat \<Rightarrow> string) \<Rightarrow> Message list \<Rightarrow> string \<Rightarrow> int \<Rightarrow> string \<Rightarrow> MsgNode list" where
  "messagesToNodes new_id msgs defaultCwd createdAt gitBranch =
     messages_to_nodes new_id defaultCwd createdAt gitBranch [] msgs"

definition tool_names :: "MsgNode list \<Rightarrow> (string, string) gomap" where
  "tool_names nodes =
     fold (\<lambda>n m. if nd_Role n = ''assistant''
                 then fold (\<lambda>b m. if cb_Type b = ''tool_use'' then gm_put (cb_ID b) (cb_Name b) m else m)
                        (nd_Content n) m
                 else m) nodes gm_empty"

definition fill_tool_name :: "(string, string) gomap \<Rightarrow> ToolResult \<Rightarrow> ToolResult" where
  "fill_tool_name names tr =
     (if tr_ToolName tr = []
      then (case gm_get names (tr_ToolCallID tr) of Some name \<Rightarrow> tr\<lparr>tr_ToolName := name\<rparr> | None \<Rightarrow> tr)
      else tr)"

definition node_message :: "(string, string) gomap \<Rightarrow> MsgNode \<Rightarrow> Message" where
  "node_message names n =
     (if nd_Role n = ''assistant''
      then extractAssistantContent (nd_Content n) (zero_message\<lparr>MsgRole := RoleAssistant, ID := nd_ID n\<rparr>)
      else let msg = extractUserContent (nd_Content n) (zero_message\<lparr>MsgRole := RoleUser, ID := nd_ID n\<rparr>)
           in msg\<lparr>MsgToolResult := map_option (fill_tool_name names) (MsgToolResult msg)\<rparr>)"

definition messagesFromNodes :: "MsgNode list \<Rightarrow> Message list" where
  "messagesFromNodes nodes = List.map (node_message (tool_names nodes)) nodes"

subsection \<open>Titles\<close>

abbreviation maxTitleLength :: nat where "maxTitleLength \<equiv> 60"
abbreviation MinSubstantiveLength :: nat where "MinSubstantiveLength \<equiv> 6"

definition extractUserText :: "Message \<Rightarrow> string option" where
  "extractUserText msg =
     (if MsgRole msg \<noteq> RoleUser \<or> MsgToolResult msg \<noteq> None then None
      else map_option cb_Text
             (List.find (\<lambda>b. cb_Type b = ''text'' \<and> cb_Text b \<noteq> []) (MessageToBlocks msg)))"

definition ExtractLastUserText :: "Message list \<Rightarrow> string" where
  "ExtractLastUserText msgs =
     (case List.map_filter extractUserText (rev msgs) of [] \<Rightarrow> [] | t # _ \<Rightarrow> t)"

definition truncateTitle :: "string \<Rightarrow> string" where
  "truncateTitle s =
     (let s = join_str '' '' (str_fields s)
      in if rune_count s \<le> maxTitleLength then s
         else let truncated = take_runes maxTitleLength s;
                  truncated = (case last_index_of truncated '' '' of
                      Some lastSpace \<Rightarrow>
                        (if maxTitleLength div 2 < lastSpace then take lastSpace truncated else truncated)
                    | None \<Rightarrow> truncated)
              in trim_space truncated @ ''...'')"

definition GenerateTitle :: "Message list \<Rightarrow> string" where
  "GenerateTitle msgs =
     (let texts = List.map_filter extractUserText msgs
      in case List.find (\<lambda>t. MinSubstantiveLength \<le> rune_count t) texts of
           Some t \<Rightarrow> truncateTitle t
         | None \<Rightarrow> (case texts of [] \<Rightarrow> ''Untitled Session'' | t # _ \<Rightarrow> truncateTitle t))"

subsection \<open>Tool results kept in files\<close>

definition persistedToolResultID :: "string \<Rightarrow> string \<Rightarrow> string option" where
  "persistedToolResultID t marker =
     (case index_of t marker of
        None \<Rightarrow> None
      | Some idx \<Rightarrow>
          (let suffix = drop (idx + length marker) t
           in case index_of suffix '']'' of None \<Rightarrow> None | Some e \<Rightarrow> Some (take e suffix)))"

definition hydrate_text :: "string \<Rightarrow> (string \<Rightarrow> string option) \<Rightarrow> ContentBlock \<Rightarrow> ContentBlock" where
  "hydrate_text marker load sub =
     (if cb_Type sub \<noteq> ''text'' then sub
      else case Option.bind (persistedToolResultID (cb_Text sub) marker) load of
             None \<Rightarrow> sub
           | Some content \<Rightarrow>
               (case sub of ContentBlock typ _ th sg i n inp tu c e ed bd src img \<Rightarrow>
                  ContentBlock typ content th sg i n inp tu c e ed bd src img))"

definition hydrateToolResultBlocks :: "string \<Rightarrow> (string \<Rightarrow> string option) \<Rightarrow> ContentBlock list \<Rightarrow> ContentBlock list" where
  "hydrateToolResultBlocks marker load blocks =
     List.map (\<lambda>b. if cb_Type b \<noteq> ''tool_result'' then b
                   else case b of ContentBlock typ t th sg i n inp tu c e ed bd src img \<Rightarrow>
                     ContentBlock typ t th sg i n inp tu (List.map (hydrate_text marker load) c) e ed bd src img)
       blocks"

definition persisted_marker :: "string \<Rightarrow> string" where
  "persisted_marker sessionID =
     [nlc, nlc] @ ''[Full output persisted to blobs/tool-result/'' @ sessionID @ ''/''"

definition HydrateToolResultNodes :: "string \<Rightarrow> (string \<Rightarrow> string option) \<Rightarrow> MsgNode list \<Rightarrow> MsgNode list" where
  "HydrateToolResultNodes sessionID load nodes =
     List.map (\<lambda>n. n\<lparr>nd_Content := hydrateToolResultBlocks (persisted_marker sessionID) load (nd_Content n)\<rparr>)
       nodes"

subsection \<open>What is written is what was said\<close>

fun segment_text :: "segment \<Rightarrow> string" where
  "segment_text (Plain t) = t"
| "segment_text (Mark t _) = t"

lemma push_char_text [simp]:
  "concat (List.map segment_text (push_char c ss)) = c # concat (List.map segment_text ss)"
  by (cases "(c, ss)" rule: push_char.cases) simp_all

lemma push_char_filled:
  "list_all (\<lambda>x. segment_text x \<noteq> []) ss \<Longrightarrow> list_all (\<lambda>x. segment_text x \<noteq> []) (push_char c ss)"
  by (cases "(c, ss)" rule: push_char.cases) simp_all

lemma source_segments_text: "concat (List.map segment_text (source_segments b s)) = s"
proof (induction b s rule: source_segments.induct)
  case (1 b s)
  then show ?case
    by (subst source_segments.simps) (auto split: option.split list.split)
qed

lemma source_segments_filled: "list_all (\<lambda>x. segment_text x \<noteq> []) (source_segments b s)"
proof (induction b s rule: source_segments.induct)
  case (1 b s)
  then show ?case
    by (subst source_segments.simps)
      (auto split: option.split list.split dest: injected_at_pos intro: push_char_filled)
qed

lemma token_segments_text: "concat (List.map segment_text (token_segments s)) = s"
proof (induction s rule: token_segments.induct)
  case (1 s)
  then show ?case
    by (subst token_segments.simps) (auto split: option.split list.split dest: token_at_shorter)
qed

lemma segment_block_fields [simp]:
  "cb_Type (segment_block x) = ''text''" "cb_Text (segment_block x) = segment_text x"
  by (cases x; simp add: text_block_def)+

lemma cb_simps [simp]:
  "cb_Type (text_block t src) = ''text''" "cb_Text (text_block t src) = t" "cb_Source (text_block t src) = src"
  "cb_Type (image_block img) = ''image''" "cb_Type (tool_use_block tc) = ''tool_use''"
  "cb_ID (tool_use_block tc) = tc_ID tc" "cb_Name (tool_use_block tc) = tc_Name tc"
  "cb_Input (tool_use_block tc) = tc_Input tc" "cb_Type (thinking_block t g) = ''thinking''"
  "cb_Thinking (thinking_block t g) = t" "cb_Signature (thinking_block t g) = g"
  by (simp_all add: text_block_def image_block_def tool_use_block_def thinking_block_def)

text \<open>
  Splitting loses nothing: the blocks of a text together are the text, byte for byte, none of them
  is empty, and the blocks with a source are exactly those of the injected spans.
\<close>

theorem split_blocks_are_the_text:
  "concat (List.map cb_Text (splitTextBySource t)) = t
   \<and> list_all (\<lambda>b. cb_Type b = ''text'' \<and> cb_Text b \<noteq> []) (splitTextBySource t)"
  using source_segments_text [of True t] source_segments_filled [of True t]
  by (simp add: splitTextBySource_def comp_def list_all_iff)

text \<open>How the fold over the blocks reads texts, images and results.\<close>

lemma extract_texts:
  assumes "list_all (\<lambda>b. cb_Type b = ''text'') bs"
  shows "fold extract_block bs x
           = x\<lparr>ex_content := ex_content x @ concat (List.map cb_Text bs),
               ex_display := ex_display x @ concat (List.map cb_Text (filter (\<lambda>b. \<not> isHiddenSource (cb_Source b)) bs))\<rparr>"
  using assms by (induction bs arbitrary: x) (simp_all add: extract_block_def)

lemma extract_images:
  "\<exists>d n. fold extract_block (List.map image_block images) x
     = x\<lparr>ex_images := ex_images x @ List.map (\<lambda>i. i\<lparr>img_FileName := [], img_Size := 0\<rparr>) images,
         ex_count := n, ex_display := d\<rparr>"
proof (induction images arbitrary: x)
  case Nil
  show ?case by (rule exI [of _ "ex_display x"], rule exI [of _ "ex_count x"]) simp
next
  case (Cons i imgs)
  obtain d n where b: "extract_block (image_block i) x
      = x\<lparr>ex_images := ex_images x @ [i\<lparr>img_FileName := [], img_Size := 0\<rparr>], ex_count := n, ex_display := d\<rparr>"
    by (cases i) (simp add: extract_block_def image_block_def extract_image_def)
  show ?case using Cons.IH [of "extract_block (image_block i) x"] by (simp add: b)
qed

lemma extract_calls:
  "fold extract_assistant_block (List.map tool_use_block tcs) (c, msg)
     = (c, msg\<lparr>ToolCalls := ToolCalls msg @ List.map (\<lambda>tc. tc\<lparr>tc_ThoughtSignature := []\<rparr>) tcs\<rparr>)"
  by (induction tcs arbitrary: msg) (simp_all add: extract_assistant_block_def block_call_def)

lemma assistant_restored:
  "extractAssistantContent (assistantContentToBlocks content thinking sig tcs) zero
     = zero\<lparr>Content := content, Thinking := (if thinking = [] then Thinking zero else thinking),
            ThinkingSignature := (if thinking = [] then ThinkingSignature zero else sig),
            ToolCalls := ToolCalls zero @ List.map (\<lambda>tc. tc\<lparr>tc_ThoughtSignature := []\<rparr>) tcs\<rparr>"
  by (simp add: extractAssistantContent_def assistantContentToBlocks_def extract_assistant_block_def
      extract_calls)

lemma result_restored:
  "extractUserContent (toolResultToBlocks tr) zero = zero\<lparr>MsgToolResult :=
     Some (tr\<lparr>tr_ToolName := [], tr_HookResponse := GNil,
        tr_Details := (case tr_Details tr of OtherDetails _ \<Rightarrow> NoDetails | d \<Rightarrow> d)\<rparr>)\<rparr>"
  by (cases tr) (simp add: extractUserContent_def toolResultToBlocks_def extract_block_def block_result_def
      text_block_def Let_def split: details.split)

lemma user_restored:
  assumes "\<not> (images \<noteq> [] \<and> has_token displayContent)" "MsgToolResult zero = None"
  shows "\<exists>d. extractUserContent (userContentToBlocks content displayContent images) zero
      = zero\<lparr>Content := content, DisplayContent := d,
             Images := Images zero @ List.map (\<lambda>i. i\<lparr>img_FileName := [], img_Size := 0\<rparr>) images\<rparr>"
proof -
  let ?x = "\<lparr>ex_count = 0, ex_display = [], ex_content = [], ex_images = Images zero, ex_result = None\<rparr>"
  obtain d n where i: "fold extract_block (List.map image_block images) ?x
      = ?x\<lparr>ex_images := Images zero @ List.map (\<lambda>i. i\<lparr>img_FileName := [], img_Size := 0\<rparr>) images,
           ex_count := n, ex_display := d\<rparr>"
    using extract_images [of images ?x] by auto
  have split: "concat (List.map cb_Text (splitTextBySource content)) = content"
      "list_all (\<lambda>b. cb_Type b = ''text'') (splitTextBySource content)"
    using source_segments_text [of True content] by (simp_all add: splitTextBySource_def comp_def list_all_iff)
  have blocks: "userContentToBlocks content displayContent images
      = List.map image_block images @ splitTextBySource content"
    using assms(1) by (auto simp: userContentToBlocks_def)
  have z: "zero\<lparr>Images := a, MsgToolResult := None, Content := b, DisplayContent := c\<rparr>
      = zero\<lparr>Content := b, DisplayContent := c, Images := a\<rparr>" for a b c
    using assms(2) by (cases zero) simp
  have "\<exists>d. extractUserContent (userContentToBlocks content displayContent images) zero
      = zero\<lparr>Images := Images zero @ List.map (\<lambda>i. i\<lparr>img_FileName := [], img_Size := 0\<rparr>) images,
             MsgToolResult := None, Content := content, DisplayContent := d\<rparr>"
    using assms(2) by (simp add: extractUserContent_def Let_def blocks i extract_texts [OF split(2)] split(1)) blast
  then show ?thesis unfolding z .
qed

definition call_pairs :: "Message list \<Rightarrow> (string \<times> string) list" where
  "call_pairs msgs =
     concat (List.map (\<lambda>m. if MsgRole m = RoleAssistant then List.map (\<lambda>tc. (tc_ID tc, tc_Name tc)) (ToolCalls m)
                           else []) msgs)"

text \<open>Two messages that are the same for the model, given the calls of the conversation.\<close>

definition same_result :: "(string \<times> string) list \<Rightarrow> ToolResult \<Rightarrow> ToolResult \<Rightarrow> bool" where
  "same_result calls tr tr' =
     (tr_ToolCallID tr' = tr_ToolCallID tr \<and> tr_Content tr' = tr_Content tr \<and> tr_IsError tr' = tr_IsError tr
      \<and> tr_Details tr' = (case tr_Details tr of OtherDetails _ \<Rightarrow> NoDetails | d \<Rightarrow> d)
      \<and> (\<forall>name. (tr_ToolCallID tr, name) \<in> set calls \<longrightarrow> tr_ToolName tr' = name))"

definition same_message :: "(string \<times> string) list \<Rightarrow> Message \<Rightarrow> Message \<Rightarrow> bool" where
  "same_message calls m m' =
     (ID m' = ID m \<and> MsgRole m' = MsgRole m \<and>
      (case (MsgRole m, MsgToolResult m) of
         (RoleAssistant, _) \<Rightarrow>
           Content m' = Content m \<and> Thinking m' = Thinking m
           \<and> (Thinking m \<noteq> [] \<longrightarrow> ThinkingSignature m' = ThinkingSignature m)
           \<and> List.map (\<lambda>tc. (tc_ID tc, tc_Name tc, tc_Input tc)) (ToolCalls m')
               = List.map (\<lambda>tc. (tc_ID tc, tc_Name tc, tc_Input tc)) (ToolCalls m)
       | (_, Some tr) \<Rightarrow> (\<exists>tr'. MsgToolResult m' = Some tr' \<and> same_result calls tr tr')
       | (_, None) \<Rightarrow>
           MsgToolResult m' = None \<and> Content m' = Content m
           \<and> List.map (\<lambda>i. (img_MediaType i, img_Data i)) (Images m')
               = List.map (\<lambda>i. (img_MediaType i, img_Data i)) (Images m)))"

definition savable :: "Message \<Rightarrow> bool" where
  "savable m = (ID m \<noteq> [] \<and> MsgRole m \<noteq> RoleNotice \<and> \<not> (Images m \<noteq> [] \<and> has_token (DisplayContent m)))"

definition node_for :: "Message \<Rightarrow> MsgNode \<Rightarrow> bool" where
  "node_for m n = (nd_ID n = ID m \<and> nd_Role n = transcriptRole (MsgRole m) \<and> nd_Content n = MessageToBlocks m)"

lemma messages_to_nodes_for:
  assumes "list_all savable msgs"
  shows "\<exists>ns. messages_to_nodes new_id cwd t b nodes msgs = nodes @ ns \<and> list_all2 node_for msgs ns"
  using assms
proof (induction msgs arbitrary: nodes)
  case (Cons m msgs)
  let ?n = "message_node new_id cwd t b nodes m"
  have "transcriptRole (MsgRole m) \<noteq> []" "node_for m ?n"
    using Cons.prems by (auto simp: savable_def transcriptRole_def node_for_def message_node_def split: Role.split)
  moreover obtain ns where "messages_to_nodes new_id cwd t b (nodes @ [?n]) msgs = (nodes @ [?n]) @ ns"
      "list_all2 node_for msgs ns"
    using Cons.IH [of "nodes @ [?n]"] Cons.prems by auto
  ultimately show ?case by (intro exI [of _ "?n # ns"]) simp
qed simp

text \<open>The index of tool names by call id.\<close>

lemma gm_get_puts_unique:
  assumes "(k, v) \<in> set kvs" "\<And>v'. (k, v') \<in> set kvs \<Longrightarrow> v' = v"
  shows "gm_get (fold (\<lambda>(k, v). gm_put k v) kvs m) k = Some v"
  using assms
proof (induction kvs rule: rev_induct)
  case (snoc kv kvs)
  show ?case
  proof (cases "fst kv = k")
    case True
    then have "kv = (k, v)" using snoc.prems(2) [of "snd kv"] by (cases kv) simp
    then show ?thesis by (simp add: gm_laws(2))
  next
    case False
    then have "gm_get (fold (\<lambda>(k, v). gm_put k v) kvs m) k = Some v"
      using snoc.prems(1) by (intro snoc.IH snoc.prems(2)) auto
    then show ?thesis using False by (cases kv) (simp add: gm_laws(2))
  qed
qed simp

lemma fold_tool_use:
  "fold (\<lambda>b m. if cb_Type b = ''tool_use'' then gm_put (cb_ID b) (cb_Name b) m else m) (MessageToBlocks a) m
     = fold (\<lambda>(k, v). gm_put k v) (List.map (\<lambda>tc. (tc_ID tc, tc_Name tc)) (ToolCalls a)) m"
  if "MsgRole a = RoleAssistant"
proof -
  have "fold (\<lambda>b m. if cb_Type b = ''tool_use'' then gm_put (cb_ID b) (cb_Name b) m else m)
          (List.map tool_use_block tcs) m
      = fold (\<lambda>(k, v). gm_put k v) (List.map (\<lambda>tc. (tc_ID tc, tc_Name tc)) tcs) m" for tcs m
    by (induction tcs arbitrary: m) simp_all
  then show ?thesis using that by (simp add: MessageToBlocks_def assistantContentToBlocks_def)
qed

lemma tool_names_pairs:
  assumes "list_all2 node_for msgs ns"
  shows "fold (\<lambda>n m. if nd_Role n = ''assistant''
              then fold (\<lambda>b m. if cb_Type b = ''tool_use'' then gm_put (cb_ID b) (cb_Name b) m else m)
                     (nd_Content n) m
              else m) ns names
         = fold (\<lambda>(k, v). gm_put k v) (call_pairs msgs) names"
  using assms
proof (induction msgs ns arbitrary: names rule: list_all2_induct)
  case (Cons m msgs n ns)
  have "nd_Role n = ''assistant'' \<longleftrightarrow> MsgRole m = RoleAssistant"
    using Cons.hyps(1) by (auto simp: node_for_def transcriptRole_def split: Role.splits)
  then show ?case
    using Cons.IH Cons.hyps(1) fold_tool_use [of m names]
    by (auto simp: node_for_def call_pairs_def)
qed (simp add: call_pairs_def)

lemma tool_names_get:
  assumes "list_all2 node_for msgs ns" "(k, v) \<in> set (call_pairs msgs)"
    and "\<And>v'. (k, v') \<in> set (call_pairs msgs) \<Longrightarrow> v' = v"
  shows "gm_get (tool_names ns) k = Some v"
  unfolding tool_names_def tool_names_pairs [OF assms(1)] using gm_get_puts_unique assms(2,3) by metis

lemma zero_fields [simp]:
  "Images zero_message = []" "ToolCalls zero_message = []" "MsgToolResult zero_message = None"
  "Thinking zero_message = []" "ThinkingSignature zero_message = []"
  by (simp_all add: zero_message_def)

lemma node_message_restored:
  assumes "list_all2 node_for msgs ns" "savable m" "node_for m n"
    and "\<forall>k v v'. (k, v) \<in> set (call_pairs msgs) \<and> (k, v') \<in> set (call_pairs msgs) \<longrightarrow> v = v'"
  shows "same_message (call_pairs msgs) m (node_message (tool_names ns) n)"
proof (cases "MsgRole m")
  case RoleUser
  then have n: "nd_Role n = ''user''" "nd_ID n = ID m" "nd_Content n = MessageToBlocks m"
    using assms(3) by (auto simp: node_for_def transcriptRole_def)
  let ?z = "zero_message\<lparr>MsgRole := RoleUser, ID := ID m\<rparr>"
  show ?thesis
  proof (cases "MsgToolResult m")
    case None
    then show ?thesis
      using RoleUser n user_restored [of "Images m" "DisplayContent m" ?z "Content m"] assms(2)
      by (auto simp: same_message_def node_message_def MessageToBlocks_def savable_def comp_def)
  next
    case (Some tr)
    let ?t = "tr\<lparr>tr_ToolName := [], tr_HookResponse := GNil,
        tr_Details := (case tr_Details tr of OtherDetails _ \<Rightarrow> NoDetails | d \<Rightarrow> d)\<rparr>"
    have "tr_ToolName (fill_tool_name (tool_names ns) ?t) = name"
      if "(tr_ToolCallID tr, name) \<in> set (call_pairs msgs)" for name
      using tool_names_get [OF assms(1) that] assms(4) that by (auto simp: fill_tool_name_def)
    then show ?thesis
      using RoleUser n Some result_restored [of tr ?z]
      by (auto simp: same_message_def same_result_def node_message_def MessageToBlocks_def fill_tool_name_def
          split: option.split)
  qed
next
  case RoleAssistant
  then show ?thesis
    using assms(3)
    by (auto simp: same_message_def node_message_def node_for_def transcriptRole_def MessageToBlocks_def
        assistant_restored comp_def)
next
  case RoleNotice
  then show ?thesis using assms(2) by (simp add: savable_def)
qed

lemma nodes_restored:
  assumes "list_all2 node_for msgs ns" "list_all savable msgs"
    and "\<forall>k v v'. (k, v) \<in> set (call_pairs msgs) \<and> (k, v') \<in> set (call_pairs msgs) \<longrightarrow> v = v'"
  shows "list_all2 (same_message (call_pairs msgs)) msgs (messagesFromNodes ns)"
proof -
  have "list_all2 (\<lambda>m n. same_message (call_pairs msgs) m (node_message (tool_names ns) n)) msgs ns"
    using assms node_message_restored [OF assms(1)] by (auto simp: list_all2_conv_all_nth list_all_length)
  then show ?thesis unfolding messagesFromNodes_def by (simp add: list_all2_map2)
qed

lemma conversation_restored:
  assumes "list_all savable msgs"
    and "\<forall>k v v'. (k, v) \<in> set (call_pairs msgs) \<and> (k, v') \<in> set (call_pairs msgs) \<longrightarrow> v = v'"
  shows "list_all2 (same_message (call_pairs msgs)) msgs
           (messagesFromNodes (messagesToNodes new_id msgs cwd t b))"
  using messages_to_nodes_for [OF assms(1), of new_id cwd t b "[]"] nodes_restored [OF _ assms]
  by (auto simp: messagesToNodes_def)


subsection \<open>Examples and what they show\<close>

definition reminder_text :: string where
  "reminder_text = ''<system-reminder source='' @ [CHR 0x22] @ ''memory-user'' @ [CHR 0x22]
     @ ''>be brief</system-reminder>''"

definition demo_image :: Image where
  "demo_image = \<lparr>img_MediaType = ''image/png'', img_Data = ''AAAA'', img_FileName = ''a.png'', img_Size = 4\<rparr>"

definition demo_call :: ToolCall where
  "demo_call = \<lparr>tc_ID = ''c1'', tc_Name = ''Bash'', tc_Input = ''{}'', tc_ThoughtSignature = ''sig''\<rparr>"

definition demo_result :: ToolResult where
  "demo_result = \<lparr>tr_ToolCallID = ''c1'', tr_ToolName = ''Bash'', tr_Content = ''ok'', tr_IsError = False,
     tr_HookResponse = GNil, tr_Details = BashRun \<lparr>bd_Error = [], bd_LineCount = 1\<rparr>\<rparr>"

definition demo_talk :: "Message list" where
  "demo_talk =
     [zero_message\<lparr>ID := ''m1'', Content := ''list files'' @ [nlc, nlc] @ reminder_text,
        DisplayContent := ''list files'', Images := [demo_image]\<rparr>,
      zero_message\<lparr>ID := ''m2'', MsgRole := RoleAssistant, Content := ''sure'', ToolCalls := [demo_call]\<rparr>,
      zero_message\<lparr>ID := ''m3'', MsgToolResult := Some demo_result\<rparr>]"

lemma demo_calls: "call_pairs demo_talk = [(''c1'', ''Bash'')]"
  by code_simp


text \<open>
  A message with inline images is sent and saved as its display text, so what the harness attached
  to the content, a reminder for the model, is neither sent nor saved.
\<close>

lemma inline_image_drops_the_reminder:
  fixes m :: Message
  defines "m \<equiv> zero_message\<lparr>Content := ''see [Image #1]'' @ [nlc, nlc] @ reminder_text,
       DisplayContent := ''see [Image #1]'', Images := [demo_image]\<rparr>"
  shows "InterleavedContentParts m = [PartText ''see '', PartImage demo_image]
    \<and> MessageToBlocks m = [text_block ''see '' [], image_block demo_image]"
  unfolding m_def by code_simp

text \<open>Two tokens with one id both stand for the second image, and the first is lost.\<close>

lemma repeated_token_loses_an_image:
  "InterleavedContentParts (zero_message\<lparr>DisplayContent := ''[a #1][b #1]'',
       Images := [demo_image, demo_image\<lparr>img_Data := ''BBBB''\<rparr>]\<rparr>)
   = [PartImage (demo_image\<lparr>img_Data := ''BBBB''\<rparr>), PartImage (demo_image\<lparr>img_Data := ''BBBB''\<rparr>)]"
  by code_simp

text \<open>The title of a session that starts with a command is the envelope of the command.\<close>

lemma title_shows_the_envelope:
  "GenerateTitle [zero_message\<lparr>Content := ''<command-name>fix</command-name><skill-invocation>be thorough</skill-invocation>'' @ [nlc] @ ''the login bug''\<rparr>]
   = ''<command-name>fix</command-name><skill-invocation>be...''"
  by code_simp

text \<open>The id in the text of a result is used as it stands, also when it is a path upwards.\<close>

lemma persisted_id_may_climb:
  "persistedToolResultID (persisted_marker ''s'' @ ''../../../../notes]'') (persisted_marker ''s'')
     = Some ''../../../../notes''"
  by code_simp

end
