(* ===== verification/TranscriptStore.thy ===== *)
theory TranscriptStore
  imports Transcript
begin

text \<open>
  The store of session transcripts (\<open>internal/session/transcript/fs_store.go\<close>): one append-only
  file of records per session, caches that spare reading it again, and an index of all sessions that
  is derived from the files and written late.

  A file is its complete lines and the text after the last newline, which only an interrupted write
  leaves there.  A line is a record, blank, or text that does not decode; text appended to an
  unfinished line becomes part of it.  Every method holds the store's mutex and is one step on the
  pair of the store and the disk; the context, and the outcome of every call of the file system, are
  the record \<open>ts_env\<close>.  A line fits the scanner's buffer of 16 MB, and one file exists per id.
\<close>

subsection \<open>Files\<close>

datatype line = Good Record | Bad | Blank

record tfile =
  tf_lines :: "line list"
  tf_tail :: "line option"

definition all_lines :: "tfile \<Rightarrow> line list" where
  "all_lines f = tf_lines f @ (case tf_tail f of None \<Rightarrow> [] | Some l \<Rightarrow> [l])"

fun join_text :: "line \<Rightarrow> line \<Rightarrow> line" where
  "join_text Blank y = y"
| "join_text x Blank = x"
| "join_text x y = Bad"

definition joined :: "tfile \<Rightarrow> line \<Rightarrow> line" where
  "joined f l = (case tf_tail f of None \<Rightarrow> l | Some x \<Rightarrow> join_text x l)"

definition write_line :: "line \<Rightarrow> tfile \<Rightarrow> tfile" where
  "write_line l f = \<lparr>tf_lines = tf_lines f @ [joined f l], tf_tail = None\<rparr>"

definition write_part :: "line \<Rightarrow> tfile \<Rightarrow> tfile" where
  "write_part l f = f\<lparr>tf_tail := Some (joined f l)\<rparr>"

definition empty_file :: tfile where
  "empty_file = \<lparr>tf_lines = [], tf_tail = None\<rparr>"

datatype append_outcome = AppendOk | AppendFailed string "line option" | SyncFailed string

subsection \<open>State\<close>

record sessionCache =
  wc_warmed :: bool
  wc_persistedIDs :: "string set"
  wc_lastGitBranch :: string
  wc_leafMessageID :: string
  wc_latestState :: SessionState

record fileIndexEntry =
  fe_SessionID :: string
  fe_FullPath :: string
  fe_CreatedAt :: int
  fe_UpdatedAt :: int
  fe_Title :: string
  fe_LastPrompt :: string
  fe_MessageCount :: nat
  fe_GitBranch :: string
  fe_IsSidechain :: bool

record fileIndex =
  fi_Version :: int
  fi_ProjectID :: string
  fi_Entries :: "fileIndexEntry list"

datatype index_file = NoIndex | BadIndex | IndexFile fileIndex

record FileStore =
  fs_baseDir :: string
  fs_projectID :: string
  fs_sessions :: "(string, sessionCache) gomap"
  fs_cachedIndex :: "fileIndex option"
  fs_indexDirty :: bool

record tdisk =
  td_files :: "(string, tfile) gomap"
  td_index :: index_file

type_synonym tworld = "FileStore \<times> tdisk"

record ts_env =
  te_ctx :: "string option"
  te_stat :: "string option"
  te_open :: "string option"
  te_append :: append_outcome
  te_readdir :: "string option"
  te_remove :: "string option"
  te_index :: "string option"

definition NewFileStore :: "string \<Rightarrow> string \<Rightarrow> FileStore" where
  "NewFileStore baseDir projectID = \<lparr>fs_baseDir = baseDir, fs_projectID = projectID,
     fs_sessions = gm_empty, fs_cachedIndex = None, fs_indexDirty = False\<rparr>"

definition transcriptPath :: "FileStore \<Rightarrow> string \<Rightarrow> string" where
  "transcriptPath s i = path_join (path_join (fs_baseDir s) ''transcripts'') (i @ ''.jsonl'')"

definition file_of :: "tdisk \<Rightarrow> string \<Rightarrow> tfile" where
  "file_of d i = (case gm_get (td_files d) i of None \<Rightarrow> empty_file | Some f \<Rightarrow> f)"

subsection \<open>Writing and reading records\<close>

definition appendRecord :: "ts_env \<Rightarrow> string \<Rightarrow> Record \<Rightarrow> bool \<Rightarrow> tdisk \<Rightarrow> string option \<times> tdisk" where
  "appendRecord E i r sync d =
     (let written = d\<lparr>td_files := gm_put i (write_line (Good r) (file_of d i)) (td_files d)\<rparr>
      in case te_append E of
           AppendOk \<Rightarrow> (None, written)
         | SyncFailed e \<Rightarrow> (if sync then Some e else None, written)
         | AppendFailed e None \<Rightarrow> (Some e, d)
         | AppendFailed e (Some part) \<Rightarrow>
             (Some e, d\<lparr>td_files := gm_put i (write_part part (file_of d i)) (td_files d)\<rparr>))"

fun load_lines :: "line list \<Rightarrow> string + Record list" where
  "load_lines [] = Inr []"
| "load_lines (Blank # ls) = load_lines ls"
| "load_lines (Good r # ls) = (case load_lines ls of Inl e \<Rightarrow> Inl e | Inr rs \<Rightarrow> Inr (r # rs))"
| "load_lines (Bad # ls) = (if ls \<noteq> [] then Inl ''decode transcript record'' else Inr [])"

definition loadRecordsLocked :: "ts_env \<Rightarrow> tdisk \<Rightarrow> string \<Rightarrow> string + Record list" where
  "loadRecordsLocked E d i =
     (case te_open E of
        Some e \<Rightarrow> Inl e
      | None \<Rightarrow>
          (case gm_get (td_files d) i of
             None \<Rightarrow> Inl ''transcript file not found''
           | Some f \<Rightarrow> load_lines (all_lines f)))"

subsection \<open>Caches\<close>

definition new_cache :: sessionCache where
  "new_cache = \<lparr>wc_warmed = False, wc_persistedIDs = {}, wc_lastGitBranch = [], wc_leafMessageID = [],
     wc_latestState = empty_state\<rparr>"

definition cacheLocked :: "string \<Rightarrow> FileStore \<Rightarrow> sessionCache" where
  "cacheLocked i s = (case gm_get (fs_sessions s) i of None \<Rightarrow> new_cache | Some c \<Rightarrow> c)"

definition warm_branch :: "Record \<Rightarrow> sessionCache \<Rightarrow> sessionCache" where
  "warm_branch r c = (if rc_GitBranch r \<noteq> [] then c\<lparr>wc_lastGitBranch := rc_GitBranch r\<rparr> else c)"

definition warm_message :: "Record \<Rightarrow> sessionCache \<Rightarrow> sessionCache" where
  "warm_message r c =
     (case rc_Message r of
        None \<Rightarrow> c
      | Some m \<Rightarrow>
          (if rc_Type r = MessageAppended
           then c\<lparr>wc_persistedIDs := insert (mr_MessageID m) (wc_persistedIDs c),
                  wc_leafMessageID := mr_MessageID m\<rparr>
           else c))"

definition warm_state :: "Record \<Rightarrow> sessionCache \<Rightarrow> sessionCache" where
  "warm_state r c =
     (if rc_Type r = SessionStatePatched \<and> rc_State r \<noteq> None
      then c\<lparr>wc_latestState := snd (applyStatePatch (wc_latestState c) (rc_State r))\<rparr> else c)"

definition warm_record :: "Record \<Rightarrow> sessionCache \<Rightarrow> sessionCache" where
  "warm_record r c = warm_state r (warm_message r (warm_branch r c))"

lemma warm_record_fields [simp]:
  "wc_warmed (warm_record r c) = wc_warmed c"
  "wc_persistedIDs (warm_record r c) = wc_persistedIDs (warm_message r c)"
  "wc_lastGitBranch (warm_record r c) = wc_lastGitBranch (warm_branch r c)"
  "wc_latestState (warm_record r c) = wc_latestState (warm_state r c)"
  by (auto simp: warm_record_def warm_state_def warm_message_def warm_branch_def split: option.split)

fun warm_line :: "line \<Rightarrow> sessionCache \<Rightarrow> sessionCache" where
  "warm_line (Good r) c = warm_record r c"
| "warm_line _ c = c"

definition put_cache :: "string \<Rightarrow> sessionCache \<Rightarrow> FileStore \<Rightarrow> FileStore" where
  "put_cache i c s = s\<lparr>fs_sessions := gm_put i c (fs_sessions s)\<rparr>"

definition warmupCachesLocked :: "ts_env \<Rightarrow> string \<Rightarrow> tworld \<Rightarrow> string option \<times> FileStore" where
  "warmupCachesLocked E i w =
     (case w of (s, d) \<Rightarrow>
       (let c = cacheLocked i s; s = put_cache i c s
        in if wc_warmed c then (None, s)
           else case te_open E of
                  Some e \<Rightarrow> (Some e, s)
                | None \<Rightarrow>
                    (case gm_get (td_files d) i of
                       None \<Rightarrow> (None, put_cache i (c\<lparr>wc_warmed := True\<rparr>) s)
                     | Some f \<Rightarrow>
                         (None, put_cache i ((fold warm_line (all_lines f) c)\<lparr>wc_warmed := True\<rparr>) s))))"

subsection \<open>The index\<close>

definition indexPreview :: "string \<Rightarrow> string" where
  "indexPreview s = (if length s \<le> 200 then s else take_runes 200 s)"

definition loadIndexLocked :: "tworld \<Rightarrow> string + fileIndex" where
  "loadIndexLocked w =
     (case fs_cachedIndex (fst w) of
        Some idx \<Rightarrow> Inr idx
      | None \<Rightarrow>
          (case td_index (snd w) of
             NoIndex \<Rightarrow> Inl ''no such file''
           | BadIndex \<Rightarrow> Inl ''invalid index''
           | IndexFile idx \<Rightarrow> Inr idx))"

definition saveIndexLocked :: "ts_env \<Rightarrow> fileIndex \<Rightarrow> tworld \<Rightarrow> string option \<times> tworld" where
  "saveIndexLocked E idx w =
     (case te_index E of
        Some e \<Rightarrow> (Some (''write transcript index: '' @ e), w)
      | None \<Rightarrow> (None, (fst w)\<lparr>fs_cachedIndex := Some idx, fs_indexDirty := False\<rparr>,
                 (snd w)\<lparr>td_index := IndexFile idx\<rparr>))"

text \<open>
  A loaded index that came from the cache is the cached object itself: changing it changes the cache
  before, and even if, the write to disk fails.
\<close>

definition change_cached :: "fileIndex \<Rightarrow> FileStore \<Rightarrow> FileStore" where
  "change_cached idx s = (if fs_cachedIndex s = None then s else s\<lparr>fs_cachedIndex := Some idx\<rparr>)"

definition stageIndexLocked :: "fileIndex \<Rightarrow> FileStore \<Rightarrow> FileStore" where
  "stageIndexLocked idx s = s\<lparr>fs_cachedIndex := Some idx, fs_indexDirty := True\<rparr>"

definition flushIndexLocked :: "ts_env \<Rightarrow> tworld \<Rightarrow> string option \<times> tworld" where
  "flushIndexLocked E w =
     (if \<not> fs_indexDirty (fst w) then (None, w)
      else case fs_cachedIndex (fst w) of None \<Rightarrow> (None, w) | Some idx \<Rightarrow> saveIndexLocked E idx w)"

fun first_text :: "ContentBlock list \<Rightarrow> string" where
  "first_text [] = []"
| "first_text (b # bs) =
     (if cb_Type b = ''tool_result'' then []
      else if cb_Type b = ''text'' \<and> cb_Text b \<noteq> [] then cb_Text b
      else first_text bs)"

fun first_user_text :: "MsgNode list \<Rightarrow> string" where
  "first_user_text [] = []"
| "first_user_text (n # ns) =
     (if nd_Role n = ''user'' \<and> first_text (nd_Content n) \<noteq> [] then first_text (nd_Content n)
      else first_user_text ns)"

definition last_user_text :: "MsgNode list \<Rightarrow> string" where
  "last_user_text ns = first_user_text (rev ns)"

definition lastGitBranch :: "MsgNode list \<Rightarrow> string" where
  "lastGitBranch ns =
     (case List.find (\<lambda>n. nd_GitBranch n \<noteq> []) (rev ns) of None \<Rightarrow> [] | Some n \<Rightarrow> nd_GitBranch n)"

definition anySidechain :: "MsgNode list \<Rightarrow> bool" where
  "anySidechain ns = list_ex nd_IsSidechain ns"

definition coalesce2 :: "string \<Rightarrow> string \<Rightarrow> string" where
  "coalesce2 a b = (if a \<noteq> [] then a else b)"

definition list_item :: "FileStore \<Rightarrow> string \<Rightarrow> Transcript \<Rightarrow> fileIndexEntry" where
  "list_item s i t =
     \<lparr>fe_SessionID = i, fe_FullPath = transcriptPath s i, fe_CreatedAt = tr_CreatedAt t,
      fe_UpdatedAt = tr_UpdatedAt t,
      fe_Title = indexPreview (coalesce2 (ps_Title (tr_State t)) (first_user_text (tr_Messages t))),
      fe_LastPrompt = indexPreview (coalesce2 (ps_LastPrompt (tr_State t)) (last_user_text (tr_Messages t))),
      fe_MessageCount = length (tr_Messages t), fe_GitBranch = lastGitBranch (tr_Messages t),
      fe_IsSidechain = anySidechain (tr_Messages t)\<rparr>"

definition buildListItemLocked :: "ts_env \<Rightarrow> tworld \<Rightarrow> string \<Rightarrow> string + fileIndexEntry" where
  "buildListItemLocked E w i =
     (case loadRecordsLocked E (snd w) i of
        Inl e \<Rightarrow> Inl e
      | Inr rs \<Rightarrow> (case Project rs of Inl e \<Rightarrow> Inl e | Inr t \<Rightarrow> Inr (list_item (fst w) i t)))"

definition new_index :: "FileStore \<Rightarrow> fileIndexEntry list \<Rightarrow> fileIndex" where
  "new_index s es = \<lparr>fi_Version = 1, fi_ProjectID = fs_projectID s, fi_Entries = es\<rparr>"

definition transcript_ids :: "tdisk \<Rightarrow> string list" where
  "transcript_ids d = sort_lt (\<lambda>a b. str_less (a @ ''.jsonl'') (b @ ''.jsonl'')) (gm_keys (td_files d))"

definition rebuildIndexLocked :: "ts_env \<Rightarrow> tworld \<Rightarrow> string option \<times> tworld" where
  "rebuildIndexLocked E w =
     (case te_readdir E of
        Some e \<Rightarrow> (Some e, w)
      | None \<Rightarrow>
          saveIndexLocked E (new_index (fst w)
            (List.map_filter (\<lambda>i. case buildListItemLocked E w i of Inl _ \<Rightarrow> None | Inr x \<Rightarrow> Some x)
               (transcript_ids (snd w)))) w)"

definition new_entry :: "string \<Rightarrow> fileIndexEntry" where
  "new_entry i = \<lparr>fe_SessionID = i, fe_FullPath = [], fe_CreatedAt = 0, fe_UpdatedAt = 0, fe_Title = [],
     fe_LastPrompt = [], fe_MessageCount = 0, fe_GitBranch = [], fe_IsSidechain = False\<rparr>"

fun change_entry :: "string \<Rightarrow> (fileIndexEntry \<Rightarrow> fileIndexEntry) \<Rightarrow> fileIndexEntry list \<Rightarrow> fileIndexEntry list option" where
  "change_entry i f [] = None"
| "change_entry i f (e # es) =
     (if fe_SessionID e = i then Some (f e # es) else map_option ((#) e) (change_entry i f es))"

definition upsertIndexEntryLocked :: "ts_env \<Rightarrow> string \<Rightarrow> (fileIndexEntry \<Rightarrow> bool \<Rightarrow> fileIndexEntry)
    \<Rightarrow> tworld \<Rightarrow> tworld" where
  "upsertIndexEntryLocked E i mutate w =
     (let (idx, w) =
        (case loadIndexLocked w of
           Inr idx \<Rightarrow> (idx, w)
         | Inl _ \<Rightarrow>
             (case rebuildIndexLocked E w of
                (None, w) \<Rightarrow> (case loadIndexLocked w of
                               Inr idx \<Rightarrow> (idx, w) | Inl _ \<Rightarrow> (new_index (fst w) [], w))
              | (Some _, w) \<Rightarrow> (new_index (fst w) [], w)))
      in case change_entry i (\<lambda>e. mutate e False) (fi_Entries idx) of
           Some es \<Rightarrow> (stageIndexLocked (idx\<lparr>fi_Entries := es\<rparr>) (fst w), snd w)
         | None \<Rightarrow> (stageIndexLocked (idx\<lparr>fi_Entries := fi_Entries idx @ [mutate (new_entry i) True]\<rparr>) (fst w),
                    snd w))"

definition refreshIndexLocked :: "ts_env \<Rightarrow> string \<Rightarrow> tworld \<Rightarrow> string option \<times> tworld" where
  "refreshIndexLocked E i w =
     (let idx = (case loadIndexLocked w of Inr idx \<Rightarrow> idx | Inl _ \<Rightarrow> new_index (fst w) [])
      in case buildListItemLocked E w i of
           Inl e \<Rightarrow> (Some e, w)
         | Inr entry \<Rightarrow>
             (let es = (case change_entry i (\<lambda>_. entry) (fi_Entries idx) of
                          Some es \<Rightarrow> es | None \<Rightarrow> fi_Entries idx @ [entry]);
                  idx = idx\<lparr>fi_Entries := es\<rparr>
              in saveIndexLocked E idx (change_cached idx (fst w), snd w)))"

subsection \<open>Operations that write\<close>

definition unix_nano :: "int \<Rightarrow> int" where
  "unix_nano t = wrap64 (t - 62135596800 * 10 ^ 9)"

text \<open>The id \<open>{session}:{kind}:{nanoseconds}\<close> and the fields every record has.\<close>

definition record_id :: "string \<Rightarrow> string \<Rightarrow> int \<Rightarrow> string" where
  "record_id i kind t = i @ '':'' @ kind @ '':'' @ int_str (unix_nano t)"

definition typed_record :: "string \<Rightarrow> string \<Rightarrow> int \<Rightarrow> string \<Rightarrow> Record" where
  "typed_record i kind t typ = (blank_record (record_id i kind t) i t)\<lparr>rc_Type := typ\<rparr>"

definition blank_session :: SessionRecord where
  "blank_session = \<lparr>sr_Provider = [], sr_Model = [], sr_MaxTokens = 0, sr_AgentID = [], sr_ParentID = [],
     sr_SummaryMessageID = []\<rparr>"

record StartCommand =
  sc_SessionID :: string
  sc_ProjectID :: string
  sc_Cwd :: string
  sc_Provider :: string
  sc_Model :: string
  sc_MaxTokens :: int
  sc_AgentID :: string
  sc_ParentID :: string
  sc_Time :: int

definition start_record :: "StartCommand \<Rightarrow> Record" where
  "start_record cmd = (blank_record (sc_SessionID cmd @ '':start'') (sc_SessionID cmd) (sc_Time cmd))
     \<lparr>rc_Type := SessionStarted, rc_Cwd := sc_Cwd cmd, rc_Version := SchemaVersion,
      rc_Session := Some (blank_session\<lparr>sr_Provider := sc_Provider cmd, sr_Model := sc_Model cmd,
        sr_MaxTokens := sc_MaxTokens cmd, sr_AgentID := sc_AgentID cmd, sr_ParentID := sc_ParentID cmd\<rparr>)\<rparr>"

definition start_entry :: "FileStore \<Rightarrow> StartCommand \<Rightarrow> fileIndexEntry \<Rightarrow> bool \<Rightarrow> fileIndexEntry" where
  "start_entry s cmd e fresh =
     e\<lparr>fe_FullPath := transcriptPath s (sc_SessionID cmd),
       fe_CreatedAt := (if fresh then sc_Time cmd else fe_CreatedAt e),
       fe_UpdatedAt := max (fe_UpdatedAt e) (sc_Time cmd)\<rparr>"

definition Start :: "ts_env \<Rightarrow> StartCommand \<Rightarrow> tworld \<Rightarrow> string option \<times> tworld" where
  "Start E cmd w =
     (case te_ctx E of Some e \<Rightarrow> (Some e, w) | None \<Rightarrow>
      (case te_stat E of Some e \<Rightarrow> (Some e, w) | None \<Rightarrow>
       (if gm_get (td_files (snd w)) (sc_SessionID cmd) \<noteq> None then (None, w)
        else case appendRecord E (sc_SessionID cmd) (start_record cmd) True (snd w) of
               (Some e, d) \<Rightarrow> (Some e, fst w, d)
             | (None, d) \<Rightarrow>
                 flushIndexLocked E
                   (upsertIndexEntryLocked E (sc_SessionID cmd) (start_entry (fst w) cmd) (fst w, d)))))"

record AppendMessageCommand =
  am_SessionID :: string
  am_MessageID :: string
  am_ParentID :: string
  am_Time :: int
  am_GitBranch :: string
  am_AgentID :: string
  am_IsSidechain :: bool
  am_Role :: string
  am_Content :: "ContentBlock list"

definition message_record :: "AppendMessageCommand \<Rightarrow> string \<Rightarrow> Record" where
  "message_record cmd emitBranch =
     (blank_record (am_SessionID cmd @ '':'' @ am_MessageID cmd) (am_SessionID cmd) (am_Time cmd))
     \<lparr>rc_Type := MessageAppended, rc_ParentID := am_ParentID cmd, rc_GitBranch := emitBranch,
      rc_AgentID := am_AgentID cmd, rc_IsSidechain := am_IsSidechain cmd,
      rc_Message := Some \<lparr>mr_MessageID = am_MessageID cmd, mr_Role = am_Role cmd, mr_Content = am_Content cmd\<rparr>\<rparr>"

definition message_entry :: "FileStore \<Rightarrow> AppendMessageCommand \<Rightarrow> string \<Rightarrow> fileIndexEntry \<Rightarrow> bool \<Rightarrow> fileIndexEntry" where
  "message_entry s cmd emitBranch e fresh =
     (let userText = (if am_Role cmd = ''user'' then first_text (am_Content cmd) else [])
      in e\<lparr>fe_FullPath := transcriptPath s (am_SessionID cmd),
           fe_CreatedAt := (if fresh \<or> fe_CreatedAt e = 0 then am_Time cmd else fe_CreatedAt e),
           fe_UpdatedAt := max (fe_UpdatedAt e) (am_Time cmd),
           fe_MessageCount := fe_MessageCount e + 1,
           fe_Title := (if userText \<noteq> [] \<and> fe_Title e = [] then indexPreview userText else fe_Title e),
           fe_LastPrompt := (if userText \<noteq> [] then indexPreview userText else fe_LastPrompt e),
           fe_GitBranch := (if emitBranch \<noteq> [] then emitBranch else fe_GitBranch e),
           fe_IsSidechain := (fe_IsSidechain e \<or> am_IsSidechain cmd)\<rparr>)"

definition emit_branch :: "AppendMessageCommand \<Rightarrow> sessionCache \<Rightarrow> string" where
  "emit_branch cmd c =
     (if am_GitBranch cmd \<noteq> [] \<and> am_GitBranch cmd \<noteq> wc_lastGitBranch c then am_GitBranch cmd else [])"

definition AppendMessage :: "ts_env \<Rightarrow> AppendMessageCommand \<Rightarrow> tworld \<Rightarrow> string option \<times> tworld" where
  "AppendMessage E cmd w =
     (let i = am_SessionID cmd in
      case te_ctx E of Some e \<Rightarrow> (Some e, w) | None \<Rightarrow>
      (case warmupCachesLocked E i w of
         (Some e, s) \<Rightarrow> (Some e, s, snd w)
       | (None, s) \<Rightarrow>
           (let c = cacheLocked i s
            in if am_MessageID cmd \<in> wc_persistedIDs c then (None, s, snd w)
               else let branch = emit_branch cmd c
                    in case appendRecord E i (message_record cmd branch) True (snd w) of
                         (Some e, d) \<Rightarrow> (Some e, s, d)
                       | (None, d) \<Rightarrow>
                           (let c = c\<lparr>wc_persistedIDs := insert (am_MessageID cmd) (wc_persistedIDs c)\<rparr>;
                                c = (if branch \<noteq> [] then c\<lparr>wc_lastGitBranch := branch\<rparr> else c)
                            in (None, upsertIndexEntryLocked E i (message_entry s cmd branch) (put_cache i c s, d))))))"

definition state_entry :: "FileStore \<Rightarrow> string \<Rightarrow> int \<Rightarrow> PatchOp list \<Rightarrow> SessionState \<Rightarrow> fileIndexEntry \<Rightarrow> bool \<Rightarrow> fileIndexEntry" where
  "state_entry s i t ops st e fresh =
     (let e = (if fresh then e\<lparr>fe_FullPath := transcriptPath s i, fe_CreatedAt := t\<rparr> else e);
          e = e\<lparr>fe_UpdatedAt := max (fe_UpdatedAt e) t\<rparr>
      in fold (\<lambda>op e. if po_Path op = PatchPathTitle then e\<lparr>fe_Title := indexPreview (ps_Title st)\<rparr>
                      else if po_Path op = PatchPathLastPrompt
                        then e\<lparr>fe_LastPrompt := indexPreview (ps_LastPrompt st)\<rparr>
                      else e) ops e)"

definition state_record :: "string \<Rightarrow> int \<Rightarrow> PatchOp list \<Rightarrow> Record" where
  "state_record i t ops = (typed_record i ''state'' t SessionStatePatched)\<lparr>rc_State := Some ops\<rparr>"

definition PatchState :: "ts_env \<Rightarrow> string \<Rightarrow> int \<Rightarrow> PatchOp list \<Rightarrow> tworld \<Rightarrow> string option \<times> tworld" where
  "PatchState E i t ops w =
     (case te_ctx E of Some e \<Rightarrow> (Some e, w) | None \<Rightarrow>
      (if ops = [] then (None, w)
       else case appendRecord E i (state_record i t ops) False (snd w) of
              (Some e, d) \<Rightarrow> (Some e, fst w, d)
            | (None, d) \<Rightarrow>
                (case warmupCachesLocked E i (fst w, d) of
                   (Some e, s) \<Rightarrow> (Some e, s, d)
                 | (None, s) \<Rightarrow>
                     (let c = cacheLocked i s;
                          c = c\<lparr>wc_latestState := snd (applyStatePatch (wc_latestState c) (Some ops))\<rparr>
                      in (None, upsertIndexEntryLocked E i (state_entry s i t ops (wc_latestState c))
                                  (put_cache i c s, d))))))"

text \<open>The audit records: a check of the type, then one record.\<close>

definition append_audit :: "ts_env \<Rightarrow> string \<Rightarrow> bool \<Rightarrow> string \<Rightarrow> Record \<Rightarrow> bool \<Rightarrow> tworld \<Rightarrow> string option \<times> tworld" where
  "append_audit E i type_ok what r sync w =
     (case te_ctx E of Some e \<Rightarrow> (Some e, w) | None \<Rightarrow>
      (if \<not> type_ok then (Some (''append '' @ what @ '': unexpected type''), w)
       else case appendRecord E i r sync (snd w) of (e, d) \<Rightarrow> (e, fst w, d)))"

definition AppendTool :: "ts_env \<Rightarrow> string \<Rightarrow> int \<Rightarrow> string \<Rightarrow> ToolRecord \<Rightarrow> tworld \<Rightarrow> string option \<times> tworld" where
  "AppendTool E i t typ rec = append_audit E i (typ = ToolAdded \<or> typ = ToolRemoved) ''tools''
     ((typed_record i ''tool'' t typ)\<lparr>rc_Tool := Some rec\<rparr>) False"

definition AppendSystemSection :: "ts_env \<Rightarrow> string \<Rightarrow> int \<Rightarrow> string \<Rightarrow> SystemSectionRecord \<Rightarrow> tworld \<Rightarrow> string option \<times> tworld" where
  "AppendSystemSection E i t typ rec =
     append_audit E i (typ = SystemSectionAdded \<or> typ = SystemSectionRemoved) ''system section''
     ((typed_record i ''system'' t typ)\<lparr>rc_System := Some rec\<rparr>) False"

definition AppendHook :: "ts_env \<Rightarrow> string \<Rightarrow> int \<Rightarrow> HookRecord \<Rightarrow> tworld \<Rightarrow> string option \<times> tworld" where
  "AppendHook E i t rec = append_audit E i True ''hook''
     ((typed_record i ''hook'' t HookFired)\<lparr>rc_Hook := Some rec\<rparr>) False"

definition AppendPermission :: "ts_env \<Rightarrow> string \<Rightarrow> int \<Rightarrow> string \<Rightarrow> PermissionRecord \<Rightarrow> tworld \<Rightarrow> string option \<times> tworld" where
  "AppendPermission E i t typ rec =
     append_audit E i (typ = PermissionRequired \<or> typ = PermissionDecided) ''permission''
     ((typed_record i ''perm'' t typ)\<lparr>rc_Permission := Some rec\<rparr>) False"

definition AppendSkillState :: "ts_env \<Rightarrow> string \<Rightarrow> int \<Rightarrow> SkillRecord \<Rightarrow> tworld \<Rightarrow> string option \<times> tworld" where
  "AppendSkillState E i t rec = append_audit E i True ''skill state''
     ((typed_record i ''skill'' t SkillStateChanged)\<lparr>rc_Skill := Some rec\<rparr>) False"

definition AppendInference :: "ts_env \<Rightarrow> string \<Rightarrow> int \<Rightarrow> string \<Rightarrow> InferenceRecord \<Rightarrow> tworld \<Rightarrow> string option \<times> tworld" where
  "AppendInference E i t typ rec =
     append_audit E i (typ = InferenceRequested \<or> typ = InferenceResponded) ''inference''
     ((typed_record i ''inference'' t typ)\<lparr>rc_Inference := Some rec\<rparr>) (typ = InferenceResponded)"

definition compact_record :: "string \<Rightarrow> int \<Rightarrow> string \<Rightarrow> Record" where
  "compact_record i t summary = (typed_record i ''compact'' t SessionCompacted)
     \<lparr>rc_Session := Some (blank_session\<lparr>sr_SummaryMessageID := summary\<rparr>)\<rparr>"

definition Compact :: "ts_env \<Rightarrow> string \<Rightarrow> int \<Rightarrow> string \<Rightarrow> tworld \<Rightarrow> string option \<times> tworld" where
  "Compact E i t summary w =
     (case te_ctx E of Some e \<Rightarrow> (Some e, w) | None \<Rightarrow>
      (case appendRecord E i (compact_record i t summary) True (snd w) of
         (Some e, d) \<Rightarrow> (Some e, fst w, d)
       | (None, d) \<Rightarrow> refreshIndexLocked E i (fst w, d)))"

definition rewriteRecordSessionID :: "string \<Rightarrow> string \<Rightarrow> string \<Rightarrow> string" where
  "rewriteRecordSessionID i old new =
     (if has_prefix i (old @ '':'') then new @ '':'' @ trim_prefix i (old @ '':'') else i)"

definition fork_copy :: "string \<Rightarrow> string \<Rightarrow> int \<Rightarrow> Record \<Rightarrow> Record" where
  "fork_copy src new t r = r\<lparr>rc_ID := rewriteRecordSessionID (rc_ID r) src new, rc_SessionID := new,
     rc_Version := (if rc_Version r = [] then SchemaVersion else rc_Version r), rc_Time := t\<rparr>"

definition fork_record :: "string \<Rightarrow> string \<Rightarrow> int \<Rightarrow> Record" where
  "fork_record src new t = (typed_record new ''fork'' t SessionForked)
     \<lparr>rc_Version := SchemaVersion, rc_Session := Some (blank_session\<lparr>sr_ParentID := src\<rparr>)\<rparr>"

definition Fork :: "ts_env \<Rightarrow> string \<Rightarrow> string \<Rightarrow> int \<Rightarrow> tworld \<Rightarrow> string option \<times> tworld" where
  "Fork E src new t w =
     (case te_ctx E of Some e \<Rightarrow> (Some e, w) | None \<Rightarrow>
      (case loadRecordsLocked E (snd w) src of
         Inl e \<Rightarrow> (Some e, w)
       | Inr [] \<Rightarrow> (Some (''source transcript not found: '' @ src), w)
       | Inr rs \<Rightarrow>
           (case te_append E of
              AppendOk \<Rightarrow>
                refreshIndexLocked E new
                  (fst w, (snd w)\<lparr>td_files := gm_put new
                     \<lparr>tf_lines = List.map (Good \<circ> fork_copy src new t) rs @ [Good (fork_record src new t)],
                      tf_tail = None\<rparr> (td_files (snd w))\<rparr>)
            | AppendFailed e _ \<Rightarrow> (Some e, w)
            | SyncFailed e \<Rightarrow> (Some e, w))))"

definition Delete_transcript :: "ts_env \<Rightarrow> string \<Rightarrow> tworld \<Rightarrow> string option \<times> tworld" where
  "Delete_transcript E i w =
     (case te_ctx E of Some e \<Rightarrow> (Some e, w) | None \<Rightarrow>
      (case te_remove E of
         Some e \<Rightarrow> (Some (''delete transcript file: '' @ e), w)
       | None \<Rightarrow>
           (let s = (fst w)\<lparr>fs_sessions := gm_del i (fs_sessions (fst w))\<rparr>;
                d = (snd w)\<lparr>td_files := gm_del i (td_files (snd w))\<rparr>
            in case loadIndexLocked (s, d) of
                 Inl _ \<Rightarrow> (None, s, d)
               | Inr idx \<Rightarrow>
                   (let idx = idx\<lparr>fi_Entries := filter (\<lambda>e. fe_SessionID e \<noteq> i) (fi_Entries idx)\<rparr>
                    in saveIndexLocked E idx (change_cached idx s, d)))))"

definition FlushIndex :: "ts_env \<Rightarrow> tworld \<Rightarrow> string option \<times> tworld" where
  "FlushIndex E w = flushIndexLocked E w"

subsection \<open>Operations that read\<close>

definition Load :: "ts_env \<Rightarrow> string \<Rightarrow> tworld \<Rightarrow> string + Transcript" where
  "Load E i w =
     (case te_ctx E of Some e \<Rightarrow> Inl e | None \<Rightarrow>
      (case loadRecordsLocked E (snd w) i of Inl e \<Rightarrow> Inl e | Inr rs \<Rightarrow> Project rs))"

definition warmed_read :: "(sessionCache \<Rightarrow> 'a) \<Rightarrow> ts_env \<Rightarrow> string \<Rightarrow> tworld \<Rightarrow> (string + 'a) \<times> tworld" where
  "warmed_read f E i w =
     (case te_ctx E of Some e \<Rightarrow> (Inl e, w) | None \<Rightarrow>
      (case warmupCachesLocked E i w of
         (Some e, s) \<Rightarrow> (Inl e, s, snd w)
       | (None, s) \<Rightarrow> (Inr (f (cacheLocked i s)), s, snd w)))"

definition LastMessageID :: "ts_env \<Rightarrow> string \<Rightarrow> tworld \<Rightarrow> (string + string) \<times> tworld" where
  "LastMessageID = warmed_read wc_leafMessageID"

definition LoadState :: "ts_env \<Rightarrow> string \<Rightarrow> tworld \<Rightarrow> (string + SessionState) \<times> tworld" where
  "LoadState = warmed_read wc_latestState"

definition listIndexEntries :: "ts_env \<Rightarrow> tworld \<Rightarrow> (string + fileIndexEntry list) \<times> tworld" where
  "listIndexEntries E w =
     (case loadIndexLocked w of
        Inr idx \<Rightarrow> (Inr (fi_Entries idx), w)
      | Inl _ \<Rightarrow>
          (case rebuildIndexLocked E w of
             (Some e, w) \<Rightarrow> (Inl e, w)
           | (None, w) \<Rightarrow>
               (case loadIndexLocked w of Inl e \<Rightarrow> (Inl e, w) | Inr idx \<Rightarrow> (Inr (fi_Entries idx), w))))"

definition List_transcripts :: "ts_env \<Rightarrow> string \<Rightarrow> nat \<Rightarrow> bool \<Rightarrow> tworld \<Rightarrow> (string + fileIndexEntry list) \<times> tworld" where
  "List_transcripts E projectID limit includeSidechain w =
     (case te_ctx E of Some e \<Rightarrow> (Inl e, w) | None \<Rightarrow>
      (if projectID \<noteq> [] \<and> fs_projectID (fst w) \<noteq> [] \<and> projectID \<noteq> fs_projectID (fst w) then (Inr [], w)
       else case listIndexEntries E w of
              (Inl e, w) \<Rightarrow> (Inl e, w)
            | (Inr es, w) \<Rightarrow>
                (let items = sort_lt (\<lambda>a b. fe_UpdatedAt b < fe_UpdatedAt a)
                       (filter (\<lambda>e. includeSidechain \<or> \<not> fe_IsSidechain e) es)
                 in (Inr (if 0 < limit then take limit items else items), w))))"

subsection \<open>Sequences of operations\<close>

datatype ts_op =
  OpStart StartCommand | OpMessage AppendMessageCommand | OpPatch string int "PatchOp list"
| OpTool string int string ToolRecord | OpSystem string int string SystemSectionRecord
| OpHook string int HookRecord | OpPermission string int string PermissionRecord
| OpSkill string int SkillRecord | OpInference string int string InferenceRecord
| OpCompact string int string | OpFork string string int | OpRemove string | OpFlush
| OpLoadState string | OpLastMessageID string | OpList string nat bool

fun ts_exec :: "ts_env \<Rightarrow> ts_op \<Rightarrow> tworld \<Rightarrow> tworld" where
  "ts_exec E (OpStart cmd) w = snd (Start E cmd w)"
| "ts_exec E (OpMessage cmd) w = snd (AppendMessage E cmd w)"
| "ts_exec E (OpPatch i t ops) w = snd (PatchState E i t ops w)"
| "ts_exec E (OpTool i t typ r) w = snd (AppendTool E i t typ r w)"
| "ts_exec E (OpSystem i t typ r) w = snd (AppendSystemSection E i t typ r w)"
| "ts_exec E (OpHook i t r) w = snd (AppendHook E i t r w)"
| "ts_exec E (OpPermission i t typ r) w = snd (AppendPermission E i t typ r w)"
| "ts_exec E (OpSkill i t r) w = snd (AppendSkillState E i t r w)"
| "ts_exec E (OpInference i t typ r) w = snd (AppendInference E i t typ r w)"
| "ts_exec E (OpCompact i t summary) w = snd (Compact E i t summary w)"
| "ts_exec E (OpFork src new t) w = snd (Fork E src new t w)"
| "ts_exec E (OpRemove i) w = snd (Delete_transcript E i w)"
| "ts_exec E OpFlush w = snd (FlushIndex E w)"
| "ts_exec E (OpLoadState i) w = snd (LoadState E i w)"
| "ts_exec E (OpLastMessageID i) w = snd (LastMessageID E i w)"
| "ts_exec E (OpList p n b) w = snd (List_transcripts E p n b w)"

fun ts_run :: "(ts_env \<times> ts_op) list \<Rightarrow> tworld \<Rightarrow> tworld" where
  "ts_run [] w = w"
| "ts_run ((E, op) # ops) w = ts_run ops (ts_exec E op w)"

subsection \<open>The index is apart from files and caches\<close>

lemma saveIndex_frame [simp]:
  "fs_sessions (fst (snd (saveIndexLocked E idx w))) = fs_sessions (fst w)"
  "td_files (snd (snd (saveIndexLocked E idx w))) = td_files (snd w)"
  by (simp_all add: saveIndexLocked_def split: option.split)

lemma change_cached_frame [simp]: "fs_sessions (change_cached idx s) = fs_sessions s"
  by (simp add: change_cached_def)

lemma stageIndex_frame [simp]: "fs_sessions (stageIndexLocked idx s) = fs_sessions s"
  by (simp add: stageIndexLocked_def)

lemma flushIndex_frame [simp]:
  "fs_sessions (fst (snd (flushIndexLocked E w))) = fs_sessions (fst w)"
  "td_files (snd (snd (flushIndexLocked E w))) = td_files (snd w)"
  by (simp_all add: flushIndexLocked_def split: option.split)

lemma rebuildIndex_frame [simp]:
  "fs_sessions (fst (snd (rebuildIndexLocked E w))) = fs_sessions (fst w)"
  "td_files (snd (snd (rebuildIndexLocked E w))) = td_files (snd w)"
  by (simp_all add: rebuildIndexLocked_def split: option.split)

lemma rebuildIndexD:
  "rebuildIndexLocked E w = (e, w') \<Longrightarrow> fs_sessions (fst w') = fs_sessions (fst w) \<and> td_files (snd w') = td_files (snd w)"
  by (metis rebuildIndex_frame snd_conv)

lemma upsertIndex_frame [simp]:
  "fs_sessions (fst (upsertIndexEntryLocked E i f w)) = fs_sessions (fst w)"
  "td_files (snd (upsertIndexEntryLocked E i f w)) = td_files (snd w)"
  by (auto simp: upsertIndexEntryLocked_def Let_def dest!: rebuildIndexD split: sum.split prod.split option.split)

lemma refreshIndex_frame [simp]:
  "fs_sessions (fst (snd (refreshIndexLocked E i w))) = fs_sessions (fst w)"
  "td_files (snd (snd (refreshIndexLocked E i w))) = td_files (snd w)"
  by (simp_all add: refreshIndexLocked_def Let_def split: sum.split)

lemma refreshIndexD:
  "refreshIndexLocked E i w = (e, w') \<Longrightarrow> td_files (snd w') = td_files (snd w)"
  by (metis refreshIndex_frame(2) snd_conv)

lemma listIndex_frame [simp]:
  "fs_sessions (fst (snd (listIndexEntries E w))) = fs_sessions (fst w)"
  "td_files (snd (snd (listIndexEntries E w))) = td_files (snd w)"
  by (auto simp: listIndexEntries_def dest!: rebuildIndexD split: sum.split prod.split option.split)

lemma listIndexD:
  "listIndexEntries E w = (e, w') \<Longrightarrow> fs_sessions (fst w') = fs_sessions (fst w) \<and> td_files (snd w') = td_files (snd w)"
  by (metis listIndex_frame snd_conv)

subsection \<open>Caches agree with the files\<close>

definition scan :: "tfile \<Rightarrow> sessionCache" where
  "scan f = fold warm_line (all_lines f) new_cache"

fun line_ids :: "line \<Rightarrow> string list" where
  "line_ids (Good r) = (if rc_Type r = MessageAppended
     then (case rc_Message r of None \<Rightarrow> [] | Some m \<Rightarrow> [mr_MessageID m]) else [])"
| "line_ids _ = []"

definition msg_ids :: "tfile \<Rightarrow> string list" where
  "msg_ids f = concat (List.map line_ids (all_lines f))"

definition cache_agrees :: "sessionCache \<Rightarrow> tfile \<Rightarrow> bool" where
  "cache_agrees c f \<longleftrightarrow>
     (if wc_warmed c
      then wc_persistedIDs c = set (msg_ids f) \<and> wc_lastGitBranch c = wc_lastGitBranch (scan f)
        \<and> wc_latestState c = wc_latestState (scan f)
      else c = new_cache)"

definition files_ok :: "(string, tfile) gomap \<Rightarrow> bool" where
  "files_ok fs \<longleftrightarrow> gm_ok fs \<and> (\<forall>i f. gm_get fs i = Some f \<longrightarrow> tf_tail f = None \<and> distinct (msg_ids f))"

definition caches_ok :: "(string, sessionCache) gomap \<Rightarrow> tdisk \<Rightarrow> bool" where
  "caches_ok cs d \<longleftrightarrow> gm_ok cs \<and> (\<forall>i c. gm_get cs i = Some c \<longrightarrow> cache_agrees c (file_of d i))"

definition store_ok :: "tworld \<Rightarrow> bool" where
  "store_ok w \<longleftrightarrow> files_ok (td_files (snd w)) \<and> caches_ok (fs_sessions (fst w)) (snd w)"

lemma file_of_cong: "td_files d = td_files d' \<Longrightarrow> file_of d i = file_of d' i"
  by (simp add: file_of_def)

lemma store_ok_cong:
  "fs_sessions s = fs_sessions s' \<Longrightarrow> td_files d = td_files d' \<Longrightarrow> store_ok (s, d) = store_ok (s', d')"
  by (simp add: store_ok_def caches_ok_def file_of_cong [of d d'])

lemma store_ok_frame:
  "store_ok w \<Longrightarrow> fs_sessions (fst w') = fs_sessions (fst w) \<Longrightarrow> td_files (snd w') = td_files (snd w) \<Longrightarrow> store_ok w'"
  by (metis prod.collapse store_ok_cong)

lemma wc_warmed_line [simp]: "wc_warmed (warm_line l c) = wc_warmed c"
  by (cases l) simp_all

lemma wc_warmed_lines [simp]: "wc_warmed (fold warm_line ls c) = wc_warmed c"
  by (induction ls arbitrary: c) simp_all

lemma wc_ids_message:
  "wc_persistedIDs (warm_message r c) = wc_persistedIDs c \<union> set (line_ids (Good r))"
  unfolding warm_message_def line_ids.simps by (cases "rc_Message r"; cases "rc_Type r = MessageAppended") auto

lemma wc_ids_line: "wc_persistedIDs (warm_line l c) = wc_persistedIDs c \<union> set (line_ids l)"
  by (cases l) (simp_all only: warm_line.simps warm_record_fields wc_ids_message line_ids.simps list.set Un_empty_right)

lemma wc_ids_lines: "wc_persistedIDs (fold warm_line ls c) = wc_persistedIDs c \<union> set (concat (List.map line_ids ls))"
  by (induction ls arbitrary: c) (auto simp: wc_ids_line)

lemma scan_ids: "wc_persistedIDs (scan f) = set (msg_ids f)"
  by (simp add: scan_def wc_ids_lines msg_ids_def) (simp add: new_cache_def)

lemma cache_agrees_scan: "cache_agrees ((scan f)\<lparr>wc_warmed := True\<rparr>) f"
  by (simp add: cache_agrees_def scan_ids)

lemma cache_agrees_new: "cache_agrees new_cache f"
  by (simp add: cache_agrees_def) (simp add: new_cache_def)

lemma cacheLocked_agrees:
  "store_ok (s, d) \<Longrightarrow> cache_agrees (cacheLocked i s) (file_of d i)"
  by (auto simp: cacheLocked_def store_ok_def caches_ok_def cache_agrees_new split: option.split)

lemma put_cache_ok:
  assumes "store_ok (s, d)" "cache_agrees c (file_of d i)"
  shows "store_ok (put_cache i c s, d)"
  using assms by (auto simp: store_ok_def caches_ok_def put_cache_def gm.ok_put gm.get_put)

lemma cacheLocked_put [simp]: "cacheLocked i (put_cache i c s) = c"
  by (simp add: cacheLocked_def put_cache_def gm.get_put)

lemma warmup_ok:
  assumes "store_ok (s, d)" "warmupCachesLocked E i (s, d) = (e, s')"
  shows "store_ok (s', d)" "e = None \<Longrightarrow> wc_warmed (cacheLocked i s')"
proof -
  let ?c = "cacheLocked i s"
  have agrees: "cache_agrees ?c (file_of d i)" using cacheLocked_agrees assms(1) by blast
  then have put: "store_ok (put_cache i ?c s, d)" using put_cache_ok assms(1) by blast
  have "store_ok (s', d) \<and> (e = None \<longrightarrow> wc_warmed (cacheLocked i s'))"
  proof (cases "wc_warmed ?c \<or> te_open E \<noteq> None")
    case True
    then show ?thesis using assms(2) put by (auto simp: warmupCachesLocked_def Let_def split: option.splits if_splits)
  next
    case False
    then have c: "?c = new_cache" using agrees by (simp add: cache_agrees_def)
    show ?thesis
    proof (cases "gm_get (td_files d) i")
      case None
      then have "file_of d i = empty_file" by (simp add: file_of_def)
      then have "cache_agrees (new_cache\<lparr>wc_warmed := True\<rparr>) (file_of d i)"
        using cache_agrees_scan [of empty_file] by (simp add: scan_def empty_file_def all_lines_def)
      then show ?thesis using assms(2) False None c put_cache_ok [OF put]
        by (auto simp: warmupCachesLocked_def Let_def)
    next
      case (Some f)
      then have "file_of d i = f" by (simp add: file_of_def)
      then show ?thesis using assms(2) False Some c put_cache_ok [OF put] cache_agrees_scan [of f]
        by (auto simp: warmupCachesLocked_def Let_def scan_def)
    qed
  qed
  then show "store_ok (s', d)" "e = None \<Longrightarrow> wc_warmed (cacheLocked i s')" by blast+
qed

subsection \<open>Every operation keeps the agreement\<close>

text \<open>A file system that fails cleanly: a record is written whole or not at all.\<close>

definition clean :: "ts_env \<Rightarrow> bool" where
  "clean E \<longleftrightarrow> te_append E = AppendOk \<or> (\<exists>e. te_append E = AppendFailed e None)"

definition written :: "string \<Rightarrow> Record \<Rightarrow> tdisk \<Rightarrow> tdisk" where
  "written i r d = d\<lparr>td_files := gm_put i (write_line (Good r) (file_of d i)) (td_files d)\<rparr>"

lemma appendRecord_clean:
  "clean E \<Longrightarrow> appendRecord E i r sync d = (e, d') \<Longrightarrow> e = None \<and> d' = written i r d \<or> e \<noteq> None \<and> d' = d"
  by (auto simp: clean_def appendRecord_def Let_def written_def)

lemma file_of_written: "file_of (written i r d) j = (if j = i then write_line (Good r) (file_of d i) else file_of d j)"
  by (simp add: written_def file_of_def gm.get_put)

lemma files_ok_tail: "files_ok (td_files d) \<Longrightarrow> tf_tail (file_of d i) = None"
  by (auto simp: files_ok_def file_of_def empty_file_def split: option.split)

lemma files_ok_distinct: "files_ok (td_files d) \<Longrightarrow> distinct (msg_ids (file_of d i))"
  by (auto simp: files_ok_def file_of_def empty_file_def msg_ids_def all_lines_def split: option.split)

lemma all_lines_write: "tf_tail f = None \<Longrightarrow> all_lines (write_line l f) = all_lines f @ [l]"
  by (simp add: all_lines_def write_line_def joined_def)

lemma msg_ids_write: "tf_tail f = None \<Longrightarrow> msg_ids (write_line l f) = msg_ids f @ line_ids l"
  by (simp add: msg_ids_def all_lines_write)

lemma scan_write: "tf_tail f = None \<Longrightarrow> scan (write_line (Good r) f) = warm_record r (scan f)"
  by (simp add: scan_def all_lines_write)

lemma store_ok_written:
  assumes "store_ok (s, d)" "gm_ok (fs_sessions s')"
    and "\<And>j. j \<noteq> i \<Longrightarrow> gm_get (fs_sessions s') j = gm_get (fs_sessions s) j"
    and "\<And>c. gm_get (fs_sessions s') i = Some c \<Longrightarrow> cache_agrees c (write_line (Good r) (file_of d i))"
    and "distinct (msg_ids (file_of d i) @ line_ids (Good r))"
  shows "store_ok (s', written i r d)"
proof -
  have f: "files_ok (td_files d)" and c: "caches_ok (fs_sessions s) d"
    using assms(1) by (simp_all add: store_ok_def)
  have "files_ok (td_files (written i r d))"
    using f assms(5) msg_ids_write [OF files_ok_tail [OF f], of "Good r" i]
    by (auto simp: files_ok_def written_def gm.ok_put gm.get_put write_line_def simp del: line_ids.simps)
  moreover have "caches_ok (fs_sessions s') (written i r d)"
    using c assms(2-4) by (auto simp: caches_ok_def file_of_written)
  ultimately show ?thesis by (simp add: store_ok_def)
qed

definition neutral :: "Record \<Rightarrow> bool" where
  "neutral r \<longleftrightarrow> rc_GitBranch r = [] \<and> rc_Type r \<noteq> MessageAppended \<and> rc_Type r \<noteq> SessionStatePatched"

lemma neutral_warm: "neutral r \<Longrightarrow> warm_record r c = c" "neutral r \<Longrightarrow> line_ids (Good r) = []"
  by (auto simp: neutral_def warm_record_def warm_state_def warm_message_def warm_branch_def split: option.split)

lemma store_ok_neutral:
  assumes "store_ok (s, d)" "neutral r"
  shows "store_ok (s, written i r d)"
proof (rule store_ok_written [OF assms(1)])
  have f: "files_ok (td_files d)" and c: "caches_ok (fs_sessions s) d"
    using assms(1) by (simp_all add: store_ok_def)
  note tail = files_ok_tail [OF f]
  show "cache_agrees c (write_line (Good r) (file_of d i))" if "gm_get (fs_sessions s) i = Some c" for c
    using that c assms(2) unfolding cache_agrees_def scan_write [OF tail] msg_ids_write [OF tail] neutral_warm [OF assms(2)]
    by (auto simp: caches_ok_def cache_agrees_def)
  show "distinct (msg_ids (file_of d i) @ line_ids (Good r))"
    using files_ok_distinct [OF f] neutral_warm(2) [OF assms(2)] by simp
qed (use assms(1) in \<open>auto simp: store_ok_def caches_ok_def\<close>)

lemma append_neutral_ok:
  "store_ok (s, d) \<Longrightarrow> clean E \<Longrightarrow> neutral r \<Longrightarrow> store_ok (s, snd (appendRecord E i r sync d))"
  using appendRecord_clean [of E i r sync d "fst (appendRecord E i r sync d)" "snd (appendRecord E i r sync d)"]
  by (auto simp: store_ok_neutral)

lemma append_audit_ok:
  assumes "store_ok w" "clean E" "type_ok \<longrightarrow> neutral r"
  shows "store_ok (snd (append_audit E i type_ok what r sync w))"
  using assms append_neutral_ok [of "fst w" "snd w" E r i sync]
  by (auto simp: append_audit_def split: option.split prod.split)

lemma audits_ok:
  assumes "store_ok w" "clean E"
  shows "store_ok (snd (AppendTool E i t typ tool w))"
    "store_ok (snd (AppendSystemSection E i t typ sys w))"
    "store_ok (snd (AppendHook E i t hook w))"
    "store_ok (snd (AppendPermission E i t typ prm w))"
    "store_ok (snd (AppendSkillState E i t skill w))"
    "store_ok (snd (AppendInference E i t typ infer w))"
  unfolding AppendTool_def AppendSystemSection_def AppendHook_def AppendPermission_def
    AppendSkillState_def AppendInference_def
  by (intro append_audit_ok [OF assms]; auto simp: neutral_def typed_record_def blank_record_def)+

lemma Start_ok:
  assumes "store_ok w" "clean E"
  shows "store_ok (snd (Start E cmd w))"
proof -
  obtain s d where w: "w = (s, d)" by fastforce
  have "neutral (start_record cmd)" by (simp add: neutral_def start_record_def blank_record_def)
  then have "store_ok (s, snd (appendRecord E (sc_SessionID cmd) (start_record cmd) True d))"
    using append_neutral_ok assms w by blast
  then show ?thesis using assms(1) unfolding w
    by (auto simp: Start_def split: option.split prod.split elim!: store_ok_frame)
qed

lemma Compact_ok:
  assumes "store_ok w" "clean E"
  shows "store_ok (snd (Compact E i t summary w))"
proof -
  obtain s d where w: "w = (s, d)" by fastforce
  have "neutral (compact_record i t summary)"
    by (simp add: neutral_def compact_record_def typed_record_def blank_record_def)
  then have "store_ok (s, snd (appendRecord E i (compact_record i t summary) True d))"
    using append_neutral_ok assms w by blast
  then show ?thesis using assms(1) unfolding w
    by (auto simp: Compact_def split: option.split prod.split elim!: store_ok_frame)
qed

lemma warmed_read_ok:
  assumes "store_ok w"
  shows "store_ok (snd (warmed_read f E i w))"
proof -
  obtain s d where w: "w = (s, d)" by fastforce
  show ?thesis using warmup_ok(1) [of s d E i] assms unfolding w
    by (auto simp: warmed_read_def split: option.split prod.split)
qed

lemma cacheLocked_Some: "gm_get (fs_sessions s) i = Some c \<Longrightarrow> cacheLocked i s = c"
  by (simp add: cacheLocked_def)

lemma AppendMessage_ok:
  assumes "store_ok w" "clean E"
  shows "store_ok (snd (AppendMessage E cmd w))"
proof -
  let ?i = "am_SessionID cmd"
  obtain s d where w: "w = (s, d)" by fastforce
  obtain e s1 where warm: "warmupCachesLocked E ?i (s, d) = (e, s1)" by fastforce
  have ok1: "store_ok (s1, d)" using warmup_ok(1) [OF _ warm] assms(1) w by simp
  let ?c = "cacheLocked ?i s1"
  show ?thesis
  proof (cases "te_ctx E \<noteq> None \<or> e \<noteq> None \<or> am_MessageID cmd \<in> wc_persistedIDs ?c")
    case True
    then show ?thesis using assms(1) ok1 w warm
      by (auto simp: AppendMessage_def Let_def split: option.split)
  next
    case False
    then have fresh: "am_MessageID cmd \<notin> wc_persistedIDs ?c" and e: "e = None" and ctx: "te_ctx E = None" by auto
    let ?r = "message_record cmd (emit_branch cmd ?c)"
    obtain e2 d2 where app: "appendRecord E ?i ?r True d = (e2, d2)" by fastforce
    have f: "files_ok (td_files d)" using ok1 by (simp add: store_ok_def)
    note tail = files_ok_tail [OF f]
    have warmed: "wc_warmed ?c" using warmup_ok(2) [OF _ warm e] assms(1) w by simp
    have agrees: "wc_persistedIDs ?c = set (msg_ids (file_of d ?i))"
        "wc_lastGitBranch ?c = wc_lastGitBranch (scan (file_of d ?i))"
        "wc_latestState ?c = wc_latestState (scan (file_of d ?i))"
      using cacheLocked_agrees [OF ok1, of ?i] warmed by (simp_all add: cache_agrees_def)
    define c2 where "c2 = (let c = ?c\<lparr>wc_persistedIDs := insert (am_MessageID cmd) (wc_persistedIDs ?c)\<rparr>
      in if emit_branch cmd ?c \<noteq> [] then c\<lparr>wc_lastGitBranch := emit_branch cmd ?c\<rparr> else c)"
    have ids: "line_ids (Good ?r) = [am_MessageID cmd]"
      by (simp add: message_record_def blank_record_def)
    have br: "rc_GitBranch ?r = emit_branch cmd ?c" and mtype: "rc_Type ?r = MessageAppended"
      by (simp_all add: message_record_def blank_record_def)
    have "cache_agrees c2 (write_line (Good ?r) (file_of d ?i))"
      unfolding cache_agrees_def scan_write [OF tail] msg_ids_write [OF tail] ids
      using warmed agrees br mtype by (simp add: c2_def Let_def warm_branch_def warm_state_def)
    then have "store_ok (put_cache ?i c2 s1, written ?i ?r d)"
      using ok1 fresh agrees(1) files_ok_distinct [OF f, of ?i] ids
      by (intro store_ok_written [OF ok1])
         (auto simp: put_cache_def gm.get_put gm.ok_put store_ok_def caches_ok_def)
    then show ?thesis
      using appendRecord_clean [OF assms(2) app] app warm w e ctx fresh ok1
      by (auto simp: AppendMessage_def Let_def c2_def split: option.split elim!: store_ok_frame)
  qed
qed

text \<open>
  A patch may be applied twice -- by the warm-up that reads it and by the writer -- because every
  operation of it puts a constant into one field or leaves the field alone.
\<close>

definition puts_or_keeps :: "(SessionState \<Rightarrow> 'a) \<Rightarrow> (SessionState \<Rightarrow> SessionState) \<Rightarrow> bool" where
  "puts_or_keeps field f \<longleftrightarrow> (\<exists>v. \<forall>st. field (f st) = v) \<or> (\<forall>st. field (f st) = field st)"

lemma puts_or_keeps_id: "puts_or_keeps field (\<lambda>st. st)"
  by (simp add: puts_or_keeps_def)

lemma puts_or_keeps_comp: "puts_or_keeps field f \<Longrightarrow> puts_or_keeps field g \<Longrightarrow> puts_or_keeps field (\<lambda>st. g (f st))"
  by (auto simp: puts_or_keeps_def)

definition step_state :: "PatchOp \<Rightarrow> SessionState \<Rightarrow> SessionState" where
  "step_state op st = (case apply_op op st of None \<Rightarrow> st | Some st' \<Rightarrow> st')"

lemma apply_op_uniform: "apply_op op st = None \<longleftrightarrow> apply_op op st' = None"
  by (auto simp: apply_op_def Let_def split: json_value.split)

lemma step_state_fields:
  "puts_or_keeps ps_Title (step_state op)" "puts_or_keeps ps_LastPrompt (step_state op)"
  "puts_or_keeps ps_Tag (step_state op)" "puts_or_keeps ps_Mode (step_state op)"
  "puts_or_keeps ps_AutoPilot (step_state op)" "puts_or_keeps ps_Tasks (step_state op)"
  "puts_or_keeps ps_Worktree (step_state op)"
  unfolding puts_or_keeps_def step_state_def apply_op_def Let_def
  by (cases "json_string (po_Value op)"; cases "json_items (po_Value op)"; cases "po_Value op"; auto)+

lemma apply_ops_fields:
  assumes "\<And>op. puts_or_keeps field (step_state op)"
  shows "puts_or_keeps field (\<lambda>st. snd (apply_ops ops st))"
proof (induction ops)
  case (Cons op ops)
  show ?case
  proof (cases "apply_op op empty_state")
    case None
    then have "apply_op op st = None" for st using apply_op_uniform by blast
    then show ?thesis by (simp add: puts_or_keeps_id)
  next
    case (Some a)
    have "apply_op op st = Some (step_state op st)" for st
      using Some apply_op_uniform [of op st empty_state] by (auto simp: step_state_def)
    then show ?thesis using puts_or_keeps_comp [OF assms Cons] by simp
  qed
qed (simp add: puts_or_keeps_id)

lemma puts_or_keeps_twice: "puts_or_keeps field f \<Longrightarrow> field (f (f st)) = field (f st)"
  by (auto simp: puts_or_keeps_def)

lemma patch_twice:
  "snd (applyStatePatch (snd (applyStatePatch st (Some ops))) (Some ops)) = snd (applyStatePatch st (Some ops))"
  unfolding applyStatePatch_def option.case
  by (rule SessionState.equality)
     (simp_all add: puts_or_keeps_twice [OF apply_ops_fields [OF step_state_fields(1)]]
       puts_or_keeps_twice [OF apply_ops_fields [OF step_state_fields(2)]]
       puts_or_keeps_twice [OF apply_ops_fields [OF step_state_fields(3)]]
       puts_or_keeps_twice [OF apply_ops_fields [OF step_state_fields(4)]]
       puts_or_keeps_twice [OF apply_ops_fields [OF step_state_fields(5)]]
       puts_or_keeps_twice [OF apply_ops_fields [OF step_state_fields(6)]]
       puts_or_keeps_twice [OF apply_ops_fields [OF step_state_fields(7)]])

lemma PatchState_ok:
  assumes "store_ok w" "clean E"
  shows "store_ok (snd (PatchState E i t ops w))"
proof -
  obtain s d where w: "w = (s, d)" by fastforce
  let ?r = "state_record i t ops"
  obtain e d2 where app: "appendRecord E i ?r False d = (e, d2)" by fastforce
  show ?thesis
  proof (cases "te_ctx E \<noteq> None \<or> ops = [] \<or> e \<noteq> None")
    case True
    then show ?thesis using appendRecord_clean [OF assms(2) app] app assms(1) w
      by (auto simp: PatchState_def split: option.split)
  next
    case False
    then have d2: "d2 = written i ?r d" and e: "e = None" using appendRecord_clean [OF assms(2) app] by auto
    obtain e2 s1 where warm: "warmupCachesLocked E i (s, d2) = (e2, s1)" by fastforce
    have f: "files_ok (td_files d)" and ok: "store_ok (s, d)" using assms(1) w by (simp_all add: store_ok_def)
    note tail = files_ok_tail [OF f]
    have r: "rc_GitBranch ?r = []" "rc_Type ?r = SessionStatePatched" "rc_State ?r = Some ops" "line_ids (Good ?r) = []"
      by (simp_all add: state_record_def typed_record_def blank_record_def)
    let ?f = "write_line (Good ?r) (file_of d i)"
    have stored: "gm_get (td_files d2) i = Some ?f" unfolding d2 written_def by (simp add: gm.get_put)
    let ?c = "cacheLocked i s"
    have others: "gm_get (fs_sessions s1) j = gm_get (fs_sessions s) j" if "j \<noteq> i" for j
      using warm that by (auto simp: warmupCachesLocked_def Let_def put_cache_def gm.get_put split: if_splits option.splits)
    have gm1: "gm_ok (fs_sessions s1)"
      using warm ok by (auto simp: warmupCachesLocked_def Let_def put_cache_def gm.ok_put store_ok_def caches_ok_def
          split: if_splits option.splits)
    have agrees: "cache_agrees ?c (file_of d i)" using cacheLocked_agrees [OF ok] .
    let ?patch = "\<lambda>c. c\<lparr>wc_latestState := snd (applyStatePatch (wc_latestState c) (Some ops))\<rparr>"
    have final: "cache_agrees c ?f"
      if "e2 \<noteq> None \<and> c = cacheLocked i s1 \<or> e2 = None \<and> c = ?patch (cacheLocked i s1)" for c
    proof (cases "wc_warmed ?c")
      case True
      then have "s1 = put_cache i ?c s" "e2 = None" using warm by (auto simp: warmupCachesLocked_def Let_def)
      then have "c = ?patch ?c" using that by simp
      then show ?thesis using agrees True r
        unfolding cache_agrees_def scan_write [OF tail] msg_ids_write [OF tail]
        by (simp add: warm_state_def warm_branch_def)
    next
      case False
      then have c: "?c = new_cache" using agrees by (simp add: cache_agrees_def)
      show ?thesis
      proof (cases "e2 = None")
        case True
        then have "cacheLocked i s1 = (scan ?f)\<lparr>wc_warmed := True\<rparr>"
          using warm False c stored by (auto simp: warmupCachesLocked_def Let_def scan_def split: option.splits)
        then have "c = ?patch ((scan ?f)\<lparr>wc_warmed := True\<rparr>)" using that True by simp
        then show ?thesis using r patch_twice
          unfolding cache_agrees_def
          by (simp add: scan_ids scan_write [OF tail] msg_ids_write [OF tail] wc_ids_message warm_state_def)
      next
        case e2: False
        then have "cacheLocked i s1 = ?c" using warm by (auto simp: warmupCachesLocked_def Let_def split: if_splits option.splits)
        then show ?thesis using that e2 c cache_agrees_new by simp
      qed
    qed
    have dist: "distinct (msg_ids (file_of d i) @ line_ids (Good ?r))"
      using files_ok_distinct [OF f] r(4) by simp
    show ?thesis
    proof (cases "e2 = None")
      case True
      have "store_ok (put_cache i (?patch (cacheLocked i s1)) s1, d2)"
        unfolding d2 using gm1 others final True
        by (intro store_ok_written [OF ok _ _ _ dist]) (auto simp: put_cache_def gm.get_put gm.ok_put)
      then show ?thesis using False True app warm w
        by (auto simp: PatchState_def Let_def elim!: store_ok_frame)
    next
      case e2: False
      have "store_ok (s1, d2)"
        unfolding d2 using gm1 others final e2
        by (intro store_ok_written [OF ok _ _ _ dist]) (auto dest: cacheLocked_Some)
      then show ?thesis using False e2 app warm w by (auto simp: PatchState_def)
    qed
  qed
qed

lemma load_lines_scan:
  "load_lines ls = Inr rs \<Longrightarrow> fold warm_line ls c = fold warm_record rs c
     \<and> concat (List.map line_ids ls) = concat (List.map (line_ids \<circ> Good) rs)"
  by (induction ls arbitrary: rs c rule: load_lines.induct) (auto split: sum.splits if_splits)

lemma line_ids_fork: "line_ids (Good (fork_copy src new t r)) = line_ids (Good r)"
  by (simp add: fork_copy_def)

lemma store_ok_refresh: "store_ok w \<Longrightarrow> store_ok (snd (refreshIndexLocked E i w))"
  by (erule store_ok_frame) simp_all

lemma Fork_ok:
  assumes "store_ok w" "clean E" "gm_get (fs_sessions (fst w)) new = None"
  shows "store_ok (snd (Fork E src new t w))"
proof -
  obtain s d where w: "w = (s, d)" by fastforce
  have "store_ok (s, d\<lparr>td_files := gm_put new
      \<lparr>tf_lines = List.map (Good \<circ> fork_copy src new t) rs @ [Good (fork_record src new t)], tf_tail = None\<rparr> (td_files d)\<rparr>)"
    (is "store_ok (s, ?d)") if load: "loadRecordsLocked E d src = Inr rs" for rs
  proof -
    obtain f where f: "gm_get (td_files d) src = Some f" "load_lines (all_lines f) = Inr rs"
      using load by (auto simp: loadRecordsLocked_def split: option.splits)
    have "distinct (msg_ids f)" using assms(1) f(1) w by (auto simp: store_ok_def files_ok_def)
    then have "distinct (concat (List.map (line_ids \<circ> Good) rs))"
      using load_lines_scan [OF f(2), of new_cache] by (simp add: msg_ids_def)
    moreover have "line_ids (Good (fork_record src new t)) = []"
      by (simp add: fork_record_def typed_record_def blank_record_def)
    ultimately have "distinct (msg_ids \<lparr>tf_lines = List.map (Good \<circ> fork_copy src new t) rs
        @ [Good (fork_record src new t)], tf_tail = None\<rparr>)"
      by (simp add: msg_ids_def all_lines_def comp_def line_ids_fork del: line_ids.simps)
    then have "files_ok (td_files ?d)"
      using assms(1) w by (auto simp: store_ok_def files_ok_def gm.ok_put gm.get_put)
    moreover have "caches_ok (fs_sessions s) ?d"
      using assms(1,3) w by (auto simp: store_ok_def caches_ok_def file_of_def gm.get_put)
    ultimately show ?thesis by (simp add: store_ok_def)
  qed
  then show ?thesis using assms(1) unfolding w
    by (auto simp: Fork_def store_ok_refresh split: option.split sum.split list.split append_outcome.split)
qed

lemma Delete_transcript_ok:
  assumes "store_ok w"
  shows "store_ok (snd (Delete_transcript E i w))"
proof -
  obtain s d where w: "w = (s, d)" by fastforce
  have "store_ok (s\<lparr>fs_sessions := gm_del i (fs_sessions s)\<rparr>, d\<lparr>td_files := gm_del i (td_files d)\<rparr>)"
    using assms w by (auto simp: store_ok_def files_ok_def caches_ok_def file_of_def gm.ok_del gm.get_del
        split: if_splits)
  then show ?thesis using assms unfolding w
    by (auto simp: Delete_transcript_def Let_def split: option.split sum.split elim!: store_ok_frame)
qed

lemma List_transcripts_ok: "store_ok w \<Longrightarrow> store_ok (snd (List_transcripts E p n b w))"
  by (auto simp: List_transcripts_def Let_def dest!: listIndexD split: option.split sum.split prod.split elim!: store_ok_frame)

text \<open>A fork writes to an id that no cache describes.\<close>

fun op_applies :: "ts_op \<Rightarrow> tworld \<Rightarrow> bool" where
  "op_applies (OpFork src new t) w = (gm_get (fs_sessions (fst w)) new = None)"
| "op_applies _ w = True"

fun ops_apply :: "(ts_env \<times> ts_op) list \<Rightarrow> tworld \<Rightarrow> bool" where
  "ops_apply [] w = True"
| "ops_apply ((E, op) # ops) w = (clean E \<and> op_applies op w \<and> ops_apply ops (ts_exec E op w))"

lemma ts_exec_ok: "store_ok w \<Longrightarrow> clean E \<Longrightarrow> op_applies op w \<Longrightarrow> store_ok (ts_exec E op w)"
  by (cases op) (auto simp: Start_ok AppendMessage_ok PatchState_ok audits_ok Compact_ok Fork_ok
      Delete_transcript_ok FlushIndex_def LoadState_def LastMessageID_def warmed_read_ok List_transcripts_ok
      elim!: store_ok_frame)

lemma ts_run_ok: "store_ok w \<Longrightarrow> ops_apply ops w \<Longrightarrow> store_ok (ts_run ops w)"
  by (induction ops w rule: ts_run.induct) (auto simp: ts_exec_ok)

lemma store_ok_new: "files_ok (td_files d) \<Longrightarrow> store_ok (NewFileStore base proj, d)"
  by (simp add: store_ok_def caches_ok_def NewFileStore_def gm.ok_empty gm.get_empty)

subsection \<open>Message ids under torn writes\<close>

text \<open>
  For the ids of the messages less is needed: a write may also be cut off inside its record, and the files may
  hold torn lines from the start.  A torn line and what is written into it hide records; they add none.  A
  cache that was filled knows at least the ids that can be read in the file.
\<close>

definition ids_ok :: "tworld \<Rightarrow> bool" where
  "ids_ok w \<longleftrightarrow> gm_ok (td_files (snd w)) \<and> gm_ok (fs_sessions (fst w))
     \<and> (\<forall>i. distinct (msg_ids (file_of (snd w) i)))
     \<and> (\<forall>i c. gm_get (fs_sessions (fst w)) i = Some c \<and> wc_warmed c
          \<longrightarrow> set (msg_ids (file_of (snd w) i)) \<subseteq> wc_persistedIDs c)"

text \<open>
  What the file system may do: a record is written whole, not at all, or cut off inside.  A message must not be
  written whole and then reported as failed because the file could not be flushed.
\<close>

definition no_false_alarm :: "ts_env \<Rightarrow> ts_op \<Rightarrow> bool" where
  "no_false_alarm E op =
     (case te_append E of
        AppendOk \<Rightarrow> True
      | AppendFailed e part \<Rightarrow> part = None \<or> part = Some Bad
      | SyncFailed e \<Rightarrow> (case op of OpMessage cmd \<Rightarrow> False | _ \<Rightarrow> True))"

fun ops_honest :: "(ts_env \<times> ts_op) list \<Rightarrow> tworld \<Rightarrow> bool" where
  "ops_honest [] w = True"
| "ops_honest ((E, op) # ops) w = (no_false_alarm E op \<and> op_applies op w \<and> ops_honest ops (ts_exec E op w))"

lemma msg_ids_part: "msg_ids (write_part l f) = msg_ids (write_line l f)"
  by (simp add: msg_ids_def all_lines_def write_part_def write_line_def)

lemma join_ids: "line_ids (join_text x l) = line_ids x @ line_ids l \<or> line_ids (join_text x l) = []"
  by (cases x; cases l) (auto simp del: line_ids.simps(1))

lemma write_line_ids:
  "msg_ids (write_line l f) = msg_ids f @ line_ids l \<or> (\<exists>rest. msg_ids f = msg_ids (write_line l f) @ rest)"
proof (cases "tf_tail f")
  case None
  then show ?thesis by (simp add: msg_ids_write)
next
  case (Some x)
  then show ?thesis using join_ids [of x l] by (auto simp: msg_ids_def all_lines_def write_line_def joined_def)
qed

definition ids_within :: "string set \<Rightarrow> string \<Rightarrow> tdisk \<Rightarrow> tdisk \<Rightarrow> bool" where
  "ids_within X i d d' \<longleftrightarrow> gm_ok (td_files d') \<and> (\<forall>j. distinct (msg_ids (file_of d' j))
     \<and> set (msg_ids (file_of d' j)) \<subseteq> set (msg_ids (file_of d j)) \<union> (if j = i then X else {}))"

lemma ids_within_put:
  assumes "gm_ok (td_files d)" "\<forall>j. distinct (msg_ids (file_of d j))" "msg_ids f = msg_ids (write_line l (file_of d i))"
    and "distinct (line_ids l)" "set (line_ids l) \<inter> set (msg_ids (file_of d i)) = {}"
  shows "ids_within (set (line_ids l)) i d (d\<lparr>td_files := gm_put i f (td_files d)\<rparr>)"
proof -
  have "distinct (msg_ids f) \<and> set (msg_ids f) \<subseteq> set (msg_ids (file_of d i)) \<union> set (line_ids l)"
    using write_line_ids [of l "file_of d i"] assms(2) [THEN spec, of i] assms(3-5) by auto
  moreover have "file_of (d\<lparr>td_files := gm_put i f (td_files d)\<rparr>) j = (if j = i then f else file_of d j)" for j
    by (simp add: file_of_def gm.get_put)
  ultimately show ?thesis using assms(1,2) by (simp add: ids_within_def gm.ok_put)
qed

lemma append_ids:
  assumes "appendRecord E i r sync d = (e, d')" "ids_ok (s, d)" "no_false_alarm E op"
    and "set (line_ids (Good r)) \<inter> set (msg_ids (file_of d i)) = {}"
  shows "ids_within (if e = None \<or> (\<exists>x. te_append E = SyncFailed x) then set (line_ids (Good r)) else {}) i d d'"
proof -
  have ok: "gm_ok (td_files d)" "\<forall>j. distinct (msg_ids (file_of d j))" using assms(2) by (simp_all add: ids_ok_def)
  have "distinct (line_ids (Good r))" by (simp split: option.split)
  note wr = ids_within_put [OF ok refl this assms(4)]
    and torn = ids_within_put [OF ok msg_ids_part [of Bad], of i]
  have same: "ids_within {} i d d" using ok by (simp add: ids_within_def)
  show ?thesis
    using assms(1,3) wr torn same
    by (auto simp: appendRecord_def no_false_alarm_def Let_def simp del: line_ids.simps(1) split: append_outcome.splits option.splits if_splits)
qed

lemma ids_ok_frame:
  "ids_ok w \<Longrightarrow> fs_sessions (fst w') = fs_sessions (fst w) \<Longrightarrow> td_files (snd w') = td_files (snd w) \<Longrightarrow> ids_ok w'"
  by (simp add: ids_ok_def file_of_cong [of "snd w'" "snd w"])

lemma ids_index [simp]:
  "ids_ok (snd (flushIndexLocked E w)) = ids_ok w" "ids_ok (upsertIndexEntryLocked E i f w) = ids_ok w"
  "ids_ok (snd (refreshIndexLocked E i w)) = ids_ok w" "ids_ok (snd (saveIndexLocked E idx w)) = ids_ok w"
  "ids_ok (change_cached idx s, d) = ids_ok (s, d)"
  by (auto elim!: ids_ok_frame)

lemma ids_ok_within:
  assumes "ids_ok (s, d)" "ids_within X i d d'"
    and "gm_ok (fs_sessions s')" and "\<And>j. j \<noteq> i \<Longrightarrow> gm_get (fs_sessions s') j = gm_get (fs_sessions s) j"
    and "\<And>c. gm_get (fs_sessions s') i = Some c \<Longrightarrow> wc_warmed c \<Longrightarrow> set (msg_ids (file_of d i)) \<union> X \<subseteq> wc_persistedIDs c"
  shows "ids_ok (s', d')"
proof -
  have "set (msg_ids (file_of d' j)) \<subseteq> wc_persistedIDs c" if "gm_get (fs_sessions s') j = Some c" "wc_warmed c" for j c
  proof (cases "j = i")
    case True
    then have "set (msg_ids (file_of d' j)) \<subseteq> set (msg_ids (file_of d i)) \<union> X"
      using assms(2) [unfolded ids_within_def, THEN conjunct2, THEN spec, of i] True by simp
    moreover have "set (msg_ids (file_of d i)) \<union> X \<subseteq> wc_persistedIDs c" using assms(5) True that by simp
    ultimately show ?thesis by (rule order_trans)
  next
    case False
    then have "set (msg_ids (file_of d' j)) \<subseteq> set (msg_ids (file_of d j))"
      using assms(2) [unfolded ids_within_def, THEN conjunct2, THEN spec, of j] by simp
    moreover have "set (msg_ids (file_of d j)) \<subseteq> wc_persistedIDs c" using assms(1,4) False that by (simp add: ids_ok_def)
    ultimately show ?thesis by simp
  qed
  then show ?thesis using assms(2,3) by (simp add: ids_ok_def ids_within_def)
qed

lemma append_keeps_ids:
  assumes "appendRecord E i r sync d = (e, d')" "ids_ok (s, d)" "no_false_alarm E op" "line_ids (Good r) = []"
  shows "ids_ok (s, d')"
proof (rule ids_ok_within [OF assms(2)])
  show "ids_within {} i d d'" using append_ids [OF assms(1-3), unfolded assms(4)] by (simp split: if_splits)
qed (use assms(2) in \<open>auto simp: ids_ok_def\<close>)

lemma warmup_ids:
  assumes "ids_ok (s, d)" "warmupCachesLocked E i (s, d) = (e, s')"
  shows "ids_ok (s', d)" "e = None \<Longrightarrow> set (msg_ids (file_of d i)) \<subseteq> wc_persistedIDs (cacheLocked i s')"
    and "e = None \<Longrightarrow> gm_get (fs_sessions s') i = Some (cacheLocked i s')"
proof -
  let ?c = "cacheLocked i s"
  have c: "wc_warmed ?c \<Longrightarrow> set (msg_ids (file_of d i)) \<subseteq> wc_persistedIDs ?c"
    using assms(1) by (auto simp: cacheLocked_def ids_ok_def new_cache_def split: option.splits)
  have put: "ids_ok (put_cache i x y, d)" if "ids_ok (y, d)" "wc_warmed x \<Longrightarrow> set (msg_ids (file_of d i)) \<subseteq> wc_persistedIDs x" for x y
    using that by (auto simp: ids_ok_def put_cache_def gm.ok_put gm.get_put)
  have none: "gm_get (td_files d) i = None \<Longrightarrow> msg_ids (file_of d i) = []"
    by (simp add: file_of_def empty_file_def msg_ids_def all_lines_def)
  have some: "gm_get (td_files d) i = Some f \<Longrightarrow> set (msg_ids (file_of d i)) \<subseteq> wc_persistedIDs (fold warm_line (all_lines f) ?c)" for f
    by (simp add: file_of_def wc_ids_lines msg_ids_def)
  note keep = put [OF assms(1) c]
  have got: "gm_get (fs_sessions (put_cache i x y)) i = Some x" for x y by (simp add: put_cache_def gm.get_put)
  show "ids_ok (s', d)" "e = None \<Longrightarrow> set (msg_ids (file_of d i)) \<subseteq> wc_persistedIDs (cacheLocked i s')"
    "e = None \<Longrightarrow> gm_get (fs_sessions s') i = Some (cacheLocked i s')"
    using assms(2) keep c none some put [OF keep] got
    by (auto simp: warmupCachesLocked_def Let_def split: if_splits option.splits)
qed

lemma put_cache_ids:
  "ids_ok (s, d) \<Longrightarrow> set (msg_ids (file_of d i)) \<subseteq> wc_persistedIDs c \<Longrightarrow> ids_ok (put_cache i c s, d)"
  by (auto simp: ids_ok_def put_cache_def gm.ok_put gm.get_put)

lemma audit_ids:
  "ids_ok w \<Longrightarrow> no_false_alarm E op \<Longrightarrow> (type_ok \<Longrightarrow> line_ids (Good r) = []) \<Longrightarrow>
     ids_ok (snd (append_audit E i type_ok what r sync w))"
  by (cases w) (auto simp: append_audit_def simp del: line_ids.simps split: option.split prod.split intro: append_keeps_ids)

lemma audits_ids:
  assumes "ids_ok w" "no_false_alarm E op"
  shows "ids_ok (snd (AppendTool E i t typ tool w))"
    "ids_ok (snd (AppendSystemSection E i t typ sys w))"
    "ids_ok (snd (AppendHook E i t hook w))"
    "ids_ok (snd (AppendPermission E i t typ prm w))"
    "ids_ok (snd (AppendSkillState E i t skill w))"
    "ids_ok (snd (AppendInference E i t typ infer w))"
  unfolding AppendTool_def AppendSystemSection_def AppendHook_def AppendPermission_def
    AppendSkillState_def AppendInference_def
  by (intro audit_ids [OF assms]; auto simp: typed_record_def blank_record_def)+

lemma append_neutral_ids:
  "ids_ok (s, d) \<Longrightarrow> no_false_alarm E op \<Longrightarrow> neutral r \<Longrightarrow> appendRecord E i r sync d = (e, d') \<Longrightarrow> ids_ok (s, d')"
  using append_keeps_ids neutral_warm(2) by blast

lemma Start_ids:
  assumes "ids_ok w" "no_false_alarm E op"
  shows "ids_ok (snd (Start E cmd w))"
proof -
  obtain e d where a: "appendRecord E (sc_SessionID cmd) (start_record cmd) True (snd w) = (e, d)" by fastforce
  have "neutral (start_record cmd)" by (simp add: neutral_def start_record_def blank_record_def)
  from append_neutral_ids [OF _ assms(2) this a, of "fst w"] show ?thesis
    using assms(1) by (simp add: Start_def a split: option.split)
qed

lemma Compact_ids:
  assumes "ids_ok w" "no_false_alarm E op"
  shows "ids_ok (snd (Compact E i t summary w))"
proof -
  obtain e d where a: "appendRecord E i (compact_record i t summary) True (snd w) = (e, d)" by fastforce
  have "neutral (compact_record i t summary)"
    by (simp add: neutral_def compact_record_def typed_record_def blank_record_def)
  from append_neutral_ids [OF _ assms(2) this a, of "fst w"] show ?thesis
    using assms(1) by (simp add: Compact_def a split: option.split)
qed

lemma warmed_read_ids: "ids_ok w \<Longrightarrow> ids_ok (snd (warmed_read f E i w))"
  by (cases w) (auto simp: warmed_read_def split: option.split prod.split dest: warmup_ids(1))

lemma PatchState_ids:
  assumes "ids_ok w" "no_false_alarm E op"
  shows "ids_ok (snd (PatchState E i t ops w))"
proof -
  obtain s d where w: "w = (s, d)" by fastforce
  obtain e d2 where app: "appendRecord E i (state_record i t ops) False d = (e, d2)" by fastforce
  obtain e2 s1 where warm: "warmupCachesLocked E i (s, d2) = (e2, s1)" by fastforce
  have "line_ids (Good (state_record i t ops)) = []" by (simp add: state_record_def typed_record_def blank_record_def)
  then have ok: "ids_ok (s, d2)" using append_keeps_ids [OF app _ assms(2)] assms(1) w by simp
  note wu = warmup_ids [OF ok warm]
  show ?thesis using assms(1) ok wu put_cache_ids [OF wu(1)] unfolding w
    by (simp add: PatchState_def app warm Let_def split: option.split)
qed

lemma AppendMessage_ids:
  assumes "ids_ok w" "no_false_alarm E (OpMessage cmd)"
  shows "ids_ok (snd (AppendMessage E cmd w))"
proof -
  let ?i = "am_SessionID cmd"
  obtain s d where w: "w = (s, d)" by fastforce
  obtain e s1 where warm: "warmupCachesLocked E ?i (s, d) = (e, s1)" by fastforce
  have ok: "ids_ok (s, d)" using assms(1) w by simp
  note wu = warmup_ids [OF ok warm]
  let ?c = "cacheLocked ?i s1"
  let ?r = "message_record cmd (emit_branch cmd ?c)"
  show ?thesis
  proof (cases "te_ctx E \<noteq> None \<or> e \<noteq> None \<or> am_MessageID cmd \<in> wc_persistedIDs ?c")
    case True
    then show ?thesis using assms(1) wu w warm by (auto simp: AppendMessage_def Let_def split: option.split)
  next
    case False
    obtain e2 d2 where app: "appendRecord E ?i ?r True d = (e2, d2)" by fastforce
    have ids: "line_ids (Good ?r) = [am_MessageID cmd]" by (simp add: message_record_def blank_record_def)
    have known: "set (msg_ids (file_of d ?i)) \<subseteq> wc_persistedIDs ?c" using wu(2) False by simp
    have "te_append E \<noteq> SyncFailed x" for x using assms(2) by (auto simp: no_false_alarm_def)
    moreover have "set [am_MessageID cmd] \<inter> set (msg_ids (file_of d ?i)) = {}" using known False by auto
    ultimately have "ids_within (if e2 = None then {am_MessageID cmd} else {}) ?i d d2"
      using append_ids [OF app wu(1) assms(2), unfolded ids] by (cases "e2 = None") auto
    note keep = ids_ok_within [OF wu(1) this]
    have plain: "ids_ok (s1, d2)" if "e2 \<noteq> None"
      using that wu(1) by (intro keep) (auto simp: ids_ok_def)
    have added: "ids_ok (put_cache ?i c s1, d2)" if "wc_persistedIDs c = insert (am_MessageID cmd) (wc_persistedIDs ?c)" "e2 = None" for c
      using that wu(1) known by (intro keep) (auto simp: ids_ok_def put_cache_def gm.ok_put gm.get_put)
    show ?thesis using False app warm w plain added by (simp add: AppendMessage_def Let_def split: option.split)
  qed
qed

lemma Fork_ids:
  assumes "ids_ok w" "gm_get (fs_sessions (fst w)) new = None"
  shows "ids_ok (snd (Fork E src new t w))"
proof -
  obtain s d where w: "w = (s, d)" by fastforce
  have "ids_ok (s, d\<lparr>td_files := gm_put new
      \<lparr>tf_lines = List.map (Good \<circ> fork_copy src new t) rs @ [Good (fork_record src new t)], tf_tail = None\<rparr> (td_files d)\<rparr>)"
    (is "ids_ok (s, ?d)") if load: "loadRecordsLocked E d src = Inr rs" for rs
  proof -
    obtain f where f: "gm_get (td_files d) src = Some f" "load_lines (all_lines f) = Inr rs"
      using load by (auto simp: loadRecordsLocked_def split: option.splits)
    have "distinct (msg_ids (file_of d src))" using assms(1) w by (simp add: ids_ok_def)
    then have "distinct (concat (List.map (line_ids \<circ> Good) rs))"
      using load_lines_scan [OF f(2), of new_cache] f(1) by (simp add: msg_ids_def file_of_def)
    moreover have "line_ids (Good (fork_record src new t)) = []"
      by (simp add: fork_record_def typed_record_def blank_record_def)
    ultimately have "distinct (msg_ids \<lparr>tf_lines = List.map (Good \<circ> fork_copy src new t) rs
        @ [Good (fork_record src new t)], tf_tail = None\<rparr>)"
      by (simp add: msg_ids_def all_lines_def comp_def line_ids_fork del: line_ids.simps)
    moreover have "file_of ?d j = (if j = new then \<lparr>tf_lines = List.map (Good \<circ> fork_copy src new t) rs
        @ [Good (fork_record src new t)], tf_tail = None\<rparr> else file_of d j)" for j
      by (simp add: file_of_def gm.get_put)
    ultimately show ?thesis using assms w by (auto simp: ids_ok_def gm.ok_put)
  qed
  then show ?thesis using assms(1) unfolding w
    by (auto simp: Fork_def split: option.split sum.split list.split append_outcome.split)
qed

lemma Delete_transcript_ids:
  assumes "ids_ok w"
  shows "ids_ok (snd (Delete_transcript E i w))"
proof -
  obtain s d where w: "w = (s, d)" by fastforce
  have "file_of (d\<lparr>td_files := gm_del i (td_files d)\<rparr>) j = (if j = i then empty_file else file_of d j)" for j
    using assms w by (simp add: file_of_def ids_ok_def gm.get_del)
  then have "ids_ok (s\<lparr>fs_sessions := gm_del i (fs_sessions s)\<rparr>, d\<lparr>td_files := gm_del i (td_files d)\<rparr>)"
    using assms w by (auto simp: ids_ok_def gm.ok_del gm.get_del msg_ids_def all_lines_def empty_file_def split: if_splits)
  then show ?thesis using assms unfolding w
    by (simp add: Delete_transcript_def Let_def split: option.split sum.split)
qed

lemma List_transcripts_ids: "ids_ok w \<Longrightarrow> ids_ok (snd (List_transcripts E p n b w))"
  by (auto simp: List_transcripts_def Let_def dest!: listIndexD split: option.split sum.split prod.split elim!: ids_ok_frame)

lemma ts_exec_ids: "ids_ok w \<Longrightarrow> no_false_alarm E op \<Longrightarrow> op_applies op w \<Longrightarrow> ids_ok (ts_exec E op w)"
  by (cases op) (auto simp: Start_ids AppendMessage_ids PatchState_ids audits_ids Compact_ids Fork_ids
      Delete_transcript_ids FlushIndex_def LoadState_def LastMessageID_def warmed_read_ids List_transcripts_ids
      elim!: ids_ok_frame)

lemma ts_run_ids: "ids_ok w \<Longrightarrow> ops_honest ops w \<Longrightarrow> ids_ok (ts_run ops w)"
  by (induction ops w rule: ts_run.induct) (auto simp: ts_exec_ids)

lemma ids_ok_new: "gm_ok (td_files d) \<Longrightarrow> \<forall>i. distinct (msg_ids (file_of d i)) \<Longrightarrow> ids_ok (NewFileStore base proj, d)"
  by (simp add: ids_ok_def NewFileStore_def gm.ok_empty gm.get_empty)

subsection \<open>What the agreement gives\<close>

text \<open>
  C37: No message id can be read twice in the file of a session, whatever sequence of operations ran and
  although writes failed without an effect or were cut off inside their record, provided that no write of a
  message was reported as failed after it was complete, which is what a failing fsync does (see
  \<open>failed_sync_writes_the_message_twice\<close>), and that no fork wrote to an id that the store had in its cache.
\<close>

theorem messages_are_persisted_once:
  assumes "gm_ok (td_files d0)" and "\<forall>i. distinct (msg_ids (file_of d0 i))"
    and "ops_honest ops (NewFileStore base proj, d0)" and "ts_run ops (NewFileStore base proj, d0) = (s, d)"
  shows "distinct (msg_ids (file_of d i))"
  using ts_run_ids [OF ids_ok_new [OF assms(1,2)] assms(3)] assms(4) by (simp add: ids_ok_def)

lemma project_record_state:
  assumes "project_record r p = Inr p'" "tr_State (pj_t p) = wc_latestState c"
  shows "tr_State (pj_t p') = wc_latestState (warm_record r c)"
proof -
  have st: "tr_State (applyStarted t r) = tr_State t" "tr_State (applyForked t r) = tr_State t"
    "tr_State (touched t r) = tr_State t" for t
    by (simp_all add: applyStarted_def applyForked_def touched_def Let_def split: option.split)
  show ?thesis using assms
    by (auto simp: project_record_def Let_def warm_state_def st applyStatePatch_def
        split: if_splits sum.splits prod.splits option.splits)
qed

lemma project_records_state:
  "project_records rs p = Inr p' \<Longrightarrow> tr_State (pj_t p) = wc_latestState c
    \<Longrightarrow> tr_State (pj_t p') = wc_latestState (fold warm_record rs c)"
  by (induction rs arbitrary: p c) (auto split: sum.splits dest: project_record_state)

text \<open>
  C38: The state served from memory is the state that replaying the file gives, as long as the files were intact
  at the start, every write of a record either succeeded whole or left no trace, and no fork wrote to an id that
  the store had in its cache.  A torn write breaks it: see \<open>torn_write_splits_the_state\<close>.
\<close>

theorem cached_state_is_the_replayed_state:
  assumes "files_ok (td_files d0)" "ops_apply ops (NewFileStore base proj, d0)"
    and "Load E i (ts_run ops (NewFileStore base proj, d0)) = Inr t"
    and "LoadState E i (ts_run ops (NewFileStore base proj, d0)) = (Inr st, w')"
  shows "st = tr_State t"
proof -
  obtain s d where w: "ts_run ops (NewFileStore base proj, d0) = (s, d)" by fastforce
  have ok: "store_ok (s, d)" using ts_run_ok [OF store_ok_new [OF assms(1)] assms(2)] w by simp
  obtain rs f where f: "gm_get (td_files d) i = Some f" "load_lines (all_lines f) = Inr rs" "Project rs = Inr t"
    using assms(3) w by (auto simp: Load_def loadRecordsLocked_def split: option.splits sum.splits)
  obtain s1 where s1: "warmupCachesLocked E i (s, d) = (None, s1)" "st = wc_latestState (cacheLocked i s1)"
    using assms(4) w by (auto simp: LoadState_def warmed_read_def split: option.splits prod.splits)
  have "cache_agrees (cacheLocked i s1) f" "wc_warmed (cacheLocked i s1)"
    using warmup_ok [OF ok s1(1)] cacheLocked_agrees [of s1 d i] f(1) by (simp_all add: file_of_def)
  then have "st = wc_latestState (scan f)" using s1(2) by (simp add: cache_agrees_def)
  also have "\<dots> = wc_latestState (fold warm_record rs new_cache)"
    using load_lines_scan [OF f(2)] by (simp add: scan_def)
  also have "\<dots> = tr_State t"
    using f(3) project_records_state [of rs start_projection _ new_cache]
    by (auto simp: Project_def start_projection_def empty_transcript_def new_cache_def split: sum.splits)
  finally show ?thesis .
qed

subsection \<open>Forks\<close>

definition map_vals :: "('v \<Rightarrow> 'v) \<Rightarrow> ('k, 'v) gomap \<Rightarrow> ('k, 'v) gomap" where
  "map_vals f m = List.map (\<lambda>(k, v). (k, f v)) m"

lemma gm_get_map_vals2: "gm_get (map_vals f m) k = map_option f (gm_get m k)"
  by (simp add: map_vals_def gm_get_map_vals)

lemma gm_put_map_vals: "gm_put k (f v) (map_vals f m) = map_vals f (gm_put k v m)"
  by (induction m) (auto simp: gm_put_def map_vals_def)

definition retime :: "int \<Rightarrow> MsgNode \<Rightarrow> MsgNode" where
  "retime t n = n\<lparr>nd_Time := t\<rparr>"

lemma retime_simps [simp]: "nd_ID (retime t n) = nd_ID n" "nd_ParentID (retime t n) = nd_ParentID n"
  by (simp_all add: retime_def)

lemma put_nodes_retime:
  "fold put_node (List.map (retime t) ns) (map_vals (retime t) m) = map_vals (retime t) (fold put_node ns m)"
proof (induction ns arbitrary: m)
  case (Cons n ns)
  have "put_node (retime t n) (map_vals (retime t) m) = map_vals (retime t) (put_node n m)"
    by (simp add: put_node_def gm_put_map_vals)
  then show ?case using Cons by simp
qed simp

lemma chain_walk_retime:
  "chain_walk (map_vals (retime t) m) b seen cur = List.map (retime t) (chain_walk m b seen cur)"
proof (induction m b seen cur rule: chain_walk.induct)
  case (1 m b seen cur)
  show ?case
  proof (cases "cur = [] \<or> cur \<in> set seen \<or> gm_get m cur = None")
    case True
    then show ?thesis
      by (subst (1 2) chain_walk.simps) (auto simp: gm_get_map_vals2 split: option.split)
  next
    case False
    then obtain n where n: "gm_get m cur = Some n" "cur \<noteq> []" "cur \<notin> set seen" by blast
    show ?thesis
    proof (cases "b \<noteq> [] \<and> cur = b")
      case True
      then show ?thesis using n by (subst (1 2) chain_walk.simps) (simp add: gm_get_map_vals2)
    next
      case False
      then have "chain_walk (map_vals (retime t) m) b (cur # seen) (nd_ParentID n)
          = List.map (retime t) (chain_walk m b (cur # seen) (nd_ParentID n))"
        using 1 [OF _ n(1) False] n(2,3) by blast
      then show ?thesis using n False
        by (subst (1 2) chain_walk.simps) (auto simp: gm_get_map_vals2)
    qed
  qed
qed

lemma materialize_retime:
  "materializeActiveChain (map_vals (retime t) m) order b = List.map (retime t) (materializeActiveChain m order b)"
proof -
  have "(\<lambda>i. case gm_get (map_vals (retime t) m) i of None \<Rightarrow> [] | Some n \<Rightarrow> nd_ParentID n)
      = (\<lambda>i. case gm_get m i of None \<Rightarrow> [] | Some n \<Rightarrow> nd_ParentID n)"
    by (intro ext) (simp add: gm_get_map_vals2 split: option.split)
  then show ?thesis
    by (simp add: materializeActiveChain_def Let_def chain_walk_retime rev_map)
qed

lemma fork_nodes: "nodes_of (List.map (fork_copy src new t) rs) = List.map (retime t) (nodes_of rs)"
  by (induction rs) (auto simp: nodes_of_def node_of_def fork_copy_def buildNode_def retime_def split: option.split)

lemma fork_boundary: "fold boundary_step (List.map (fork_copy src new t) rs) b = fold boundary_step rs b"
proof (induction rs arbitrary: b)
  case (Cons r rs)
  have "boundary_step (fork_copy src new t r) b = boundary_step r b"
    by (simp add: boundary_step_def fork_copy_def)
  then show ?case using Cons by simp
qed simp

lemma fork_project_record:
  assumes "project_record r p = Inr q" "tr_State (pj_t p') = tr_State (pj_t p)" "tr_ID (pj_t p') \<in> {[], new}"
  shows "\<exists>q'. project_record (fork_copy src new t r) p' = Inr q' \<and> tr_State (pj_t q') = tr_State (pj_t q)
    \<and> tr_ID (pj_t q') \<in> {[], new}"
proof -
  have st: "tr_State (applyStarted x r) = tr_State x" "tr_State (applyForked x r) = tr_State x"
    "tr_State (touched x r) = tr_State x" for x r
    by (simp_all add: applyStarted_def applyForked_def touched_def Let_def split: option.split)
  have i: "tr_ID (applyStarted x r) = (if tr_ID x = [] then rc_SessionID r else tr_ID x)"
    "tr_ID (applyForked x r) = (if tr_ID x = [] then rc_SessionID r else tr_ID x)"
    "tr_ID (touched x r) = (if tr_ID x = [] then rc_SessionID r else tr_ID x)" for x r
    by (simp_all add: applyStarted_def applyForked_def touched_def Let_def split: option.split)
  have c: "rc_Type (fork_copy src new t r) = rc_Type r" "rc_SessionID (fork_copy src new t r) = new"
    "rc_State (fork_copy src new t r) = rc_State r" "rc_Session (fork_copy src new t r) = rc_Session r"
    "rc_Message (fork_copy src new t r) = rc_Message r"
    by (simp_all add: fork_copy_def)
  show ?thesis using assms
    by (auto simp: project_record_def Let_def st i c buildNode_def
        split: if_splits sum.splits prod.splits option.splits)
qed

lemma fork_project_records:
  "project_records rs p = Inr q \<Longrightarrow> tr_State (pj_t p') = tr_State (pj_t p) \<Longrightarrow> tr_ID (pj_t p') \<in> {[], new}
    \<Longrightarrow> \<exists>q'. project_records (List.map (fork_copy src new t) rs) p' = Inr q'
      \<and> tr_State (pj_t q') = tr_State (pj_t q) \<and> tr_ID (pj_t q') \<in> {[], new}"
proof (induction rs arbitrary: p p')
  case (Cons r rs)
  then obtain p1 where p1: "project_record r p = Inr p1" "project_records rs p1 = Inr q"
    by (auto split: sum.splits)
  then obtain p1' where "project_record (fork_copy src new t r) p' = Inr p1'"
      "tr_State (pj_t p1') = tr_State (pj_t p1)" "tr_ID (pj_t p1') \<in> {[], new}"
    using fork_project_record [OF p1(1) Cons.prems(2,3)] by blast
  then show ?case using Cons.IH [OF p1(2)] by simp
qed auto

lemma project_records_append:
  "project_records (rs @ rs') p = (case project_records rs p of Inl e \<Rightarrow> Inl e | Inr q \<Rightarrow> project_records rs' q)"
  by (induction rs arbitrary: p) (auto split: sum.split)

lemma load_lines_Good: "load_lines (List.map Good rs) = Inr rs"
  by (induction rs) simp_all

lemma fork_Project:
  assumes "Project rs = Inr t" "new \<noteq> []" "src \<noteq> []"
  shows "\<exists>t'. Project (List.map (fork_copy src new time) rs @ [fork_record src new time]) = Inr t'
    \<and> tr_Messages t' = List.map (retime time) (tr_Messages t) \<and> tr_State t' = tr_State t
    \<and> tr_ID t' = new \<and> tr_ParentID t' = src"
proof -
  let ?rs = "List.map (fork_copy src new time) rs" and ?fr = "fork_record src new time"
  obtain q where q: "project_records rs start_projection = Inr q" "tr_State (pj_t q) = tr_State t"
    using assms(1) by (auto simp: Project_def split: sum.splits)
  obtain q' where q': "project_records ?rs start_projection = Inr q'" "tr_State (pj_t q') = tr_State t"
      "tr_ID (pj_t q') \<in> {[], new}"
    using fork_project_records [OF q(1), of start_projection new src time] q(2)
    by (auto simp: start_projection_def empty_transcript_def)
  have fr: "project_record ?fr q' = Inr (q'\<lparr>pj_t := applyForked (pj_t q') ?fr\<rparr>)"
    by (simp add: project_record_def fork_record_def typed_record_def blank_record_def)
  then have "project_records (?rs @ [?fr]) start_projection = Inr (q'\<lparr>pj_t := applyForked (pj_t q') ?fr\<rparr>)"
    using q'(1) by (simp add: project_records_append)
  then obtain t' where t': "Project (?rs @ [?fr]) = Inr t'"
    "tr_State t' = tr_State (applyForked (pj_t q') ?fr)" "tr_ID t' = tr_ID (applyForked (pj_t q') ?fr)"
    "tr_ParentID t' = tr_ParentID (applyForked (pj_t q') ?fr)"
    by (simp add: Project_def)
  have nodes: "nodes_of (?rs @ [?fr]) = List.map (retime time) (nodes_of rs)"
    using fork_nodes [of src new time rs]
    by (simp add: nodes_of_def node_of_def fork_record_def typed_record_def blank_record_def)
  have bnd: "boundary_of (?rs @ [?fr]) = boundary_of rs"
    by (simp add: boundary_of_def fork_boundary)
       (simp add: boundary_step_def fork_record_def typed_record_def blank_record_def)
  have ids: "List.map nd_ID (List.map (retime time) (nodes_of rs)) = List.map nd_ID (nodes_of rs)" by simp
  have "tr_Messages t' = List.map (retime time) (tr_Messages t)"
    unfolding Project_messages [OF t'(1)] Project_messages [OF assms(1)] nodes bnd ids
    using put_nodes_retime [of time "nodes_of rs" gm_empty]
    by (simp add: materialize_retime [symmetric]) (simp add: map_vals_def gm_empty_def)
  then show ?thesis
    using t' q'(2,3) assms(2,3)
    by (auto simp: applyForked_def Let_def fork_record_def typed_record_def blank_record_def blank_session_def)
qed

text \<open>
  A fork is the source's conversation and state under a new id: every message with its parent, role
  and content, only the times are the time of the fork, and the new session names its origin.
\<close>

theorem fork_copies_the_conversation:
  assumes "Fork E src new time w = (None, w')" "Load E src w = Inr t" "new \<noteq> []" "src \<noteq> []"
  shows "\<exists>t'. Load E new w' = Inr t' \<and> tr_Messages t' = List.map (retime time) (tr_Messages t)
    \<and> tr_State t' = tr_State t \<and> tr_ID t' = new \<and> tr_ParentID t' = src"
proof -
  obtain s d where w: "w = (s, d)" by fastforce
  obtain rs where rs: "te_ctx E = None" "loadRecordsLocked E d src = Inr rs" "Project rs = Inr t"
    using assms(2) w by (auto simp: Load_def split: option.splits sum.splits)
  then have op: "te_open E = None" by (auto simp: loadRecordsLocked_def split: option.splits)
  have "td_files (snd w') = gm_put new \<lparr>tf_lines = List.map (Good \<circ> fork_copy src new time) rs
      @ [Good (fork_record src new time)], tf_tail = None\<rparr> (td_files d)"
    using assms(1) rs w
    by (auto simp: Fork_def dest!: refreshIndexD split: list.splits append_outcome.splits)
  then have "loadRecordsLocked E (snd w') new
      = load_lines (List.map Good (List.map (fork_copy src new time) rs @ [fork_record src new time]))"
    using op by (simp add: loadRecordsLocked_def gm.get_put all_lines_def comp_def)
  then have "Load E new w' = Project (List.map (fork_copy src new time) rs @ [fork_record src new time])"
    using rs(1) by (simp only: Load_def load_lines_Good option.case sum.case)
  then show ?thesis using fork_Project [OF rs(3) assms(3,4)] by simp
qed

subsection \<open>Interrupted writes\<close>

lemma load_lines_Bad_end: "Bad \<notin> set ls \<Longrightarrow> load_lines (ls @ [Bad]) = load_lines ls"
  by (induction ls rule: load_lines.induct) auto

lemma load_lines_Bad_middle: "Bad \<notin> set ls \<Longrightarrow> ls' \<noteq> [] \<Longrightarrow> load_lines (ls @ Bad # ls') = Inl ''decode transcript record''"
  by (induction ls rule: load_lines.induct) auto

definition intact :: "tfile \<Rightarrow> bool" where
  "intact f \<longleftrightarrow> tf_tail f = None \<and> Bad \<notin> set (tf_lines f)"

text \<open>
  C39: A message appended to an intact file of a session whose write is cut off inside its record costs the next
  replay nothing else: the session loads as it did before.  What is appended after it is another matter: see
  \<open>append_after_torn_write\<close>.
\<close>

theorem torn_write_loses_only_itself:
  assumes "gm_get (td_files d) (am_SessionID cmd) = Some f" "intact f"
    and "te_append E = AppendFailed e (Some Bad)"
    and "AppendMessage E cmd (s, d) = (err, s', d')"
  shows "Load E' (am_SessionID cmd) (s', d') = Load E' (am_SessionID cmd) (s, d)"
proof -
  let ?i = "am_SessionID cmd"
  have "file_of d ?i = f" using assms(1) by (simp add: file_of_def)
  then have "d' = d \<or> d' = d\<lparr>td_files := gm_put ?i (write_part Bad f) (td_files d)\<rparr>"
    using assms(3,4) by (auto simp: AppendMessage_def Let_def appendRecord_def split: option.splits prod.splits if_splits)
  moreover have "load_lines (all_lines (write_part Bad f)) = load_lines (all_lines f)"
    using assms(2) load_lines_Bad_end by (simp add: all_lines_def write_part_def joined_def intact_def)
  ultimately show ?thesis using assms(1)
    by (auto simp: Load_def loadRecordsLocked_def gm.get_put split: option.split)
qed

text \<open>
  But the next append continues the unfinished line: that record is lost although its write
  succeeded, and after one more the session cannot be loaded at all.
\<close>

lemma append_after_torn_write:
  assumes "gm_get (td_files d) i = Some f" "tf_tail f = Some Bad" "Bad \<notin> set (tf_lines f)"
    and "te_append E = AppendOk" "te_open E = None"
    and "appendRecord E i r1 sync1 d = (None, d1)" "appendRecord E i r2 sync2 d1 = (None, d2)"
  shows "loadRecordsLocked E d1 i = loadRecordsLocked E d i"
    and "loadRecordsLocked E d2 i = Inl ''decode transcript record''"
proof -
  let ?f1 = "\<lparr>tf_lines = tf_lines f @ [Bad], tf_tail = None\<rparr>"
  let ?f2 = "\<lparr>tf_lines = tf_lines f @ [Bad, Good r2], tf_tail = None\<rparr>"
  have f: "file_of d i = f" using assms(1) by (simp add: file_of_def)
  have d1: "d1 = d\<lparr>td_files := gm_put i ?f1 (td_files d)\<rparr>"
    using assms(2,4,6) f by (auto simp: appendRecord_def write_line_def joined_def)
  then have f1: "file_of d1 i = ?f1" by (simp add: file_of_def gm.get_put)
  have d2: "d2 = d1\<lparr>td_files := gm_put i ?f2 (td_files d1)\<rparr>"
    using assms(4,7) f1 by (auto simp: appendRecord_def write_line_def joined_def)
  show "loadRecordsLocked E d1 i = loadRecordsLocked E d i"
    using assms(1,2,5) by (simp add: d1 loadRecordsLocked_def gm.get_put all_lines_def)
  show "loadRecordsLocked E d2 i = Inl ''decode transcript record''"
    using assms(3,5) by (simp add: d2 loadRecordsLocked_def gm.get_put all_lines_def load_lines_Bad_middle)
qed

subsection \<open>The index of sessions\<close>

definition indexed :: "fileIndex \<Rightarrow> string set" where
  "indexed idx = fe_SessionID ` set (fi_Entries idx)"

lemma change_entry_ids:
  "change_entry i f es = Some es' \<Longrightarrow> (\<And>e. fe_SessionID (f e) = fe_SessionID e)
    \<Longrightarrow> List.map fe_SessionID es' = List.map fe_SessionID es \<and> i \<in> fe_SessionID ` set es"
  by (induction es arbitrary: es') (auto split: if_splits)

lemma upsert_indexed:
  assumes "\<And>e b. fe_SessionID (mutate e b) = fe_SessionID e" "upsertIndexEntryLocked E i mutate w = w'"
  shows "\<exists>idx. fs_cachedIndex (fst w') = Some idx \<and> fs_indexDirty (fst w') \<and> i \<in> indexed idx
     \<and> (\<forall>idx0. loadIndexLocked w = Inr idx0 \<longrightarrow> indexed idx0 \<subseteq> indexed idx)
     \<and> (\<forall>e0. loadIndexLocked w = Inl e0 \<longrightarrow> te_readdir E = None \<longrightarrow> te_index E = None \<longrightarrow>
          (\<forall>j \<in> set (gm_keys (td_files (snd w))). \<not> isl (buildListItemLocked E w j) \<longrightarrow> j \<in> indexed idx))"
proof -
  define pre where "pre = (case loadIndexLocked w of
           Inr idx \<Rightarrow> (idx, w)
         | Inl _ \<Rightarrow>
             (case rebuildIndexLocked E w of
                (None, w) \<Rightarrow> (case loadIndexLocked w of
                               Inr idx \<Rightarrow> (idx, w) | Inl _ \<Rightarrow> (new_index (fst w) [], w))
              | (Some _, w) \<Rightarrow> (new_index (fst w) [], w)))"
  obtain idx1 w1 where p: "pre = (idx1, w1)" by (cases pre) blast
  define idx where "idx = (case change_entry i (\<lambda>e. mutate e False) (fi_Entries idx1) of
           Some es \<Rightarrow> idx1\<lparr>fi_Entries := es\<rparr>
         | None \<Rightarrow> idx1\<lparr>fi_Entries := fi_Entries idx1 @ [mutate (new_entry i) True]\<rparr>)"
  have w': "w' = (stageIndexLocked idx (fst w1), snd w1)"
    using assms(2) p unfolding upsertIndexEntryLocked_def pre_def [symmetric] idx_def
    by (auto split: option.splits)
  have ids: "i \<in> indexed idx \<and> indexed idx1 \<subseteq> indexed idx"
  proof (cases "change_entry i (\<lambda>e. mutate e False) (fi_Entries idx1)")
    case None
    then show ?thesis using assms(1) by (auto simp: idx_def indexed_def new_entry_def)
  next
    case (Some es)
    note c = change_entry_ids [OF Some assms(1)]
    then have "fe_SessionID ` set es = fe_SessionID ` set (fi_Entries idx1)" by (metis image_set)
    then show ?thesis using c Some by (simp add: idx_def indexed_def)
  qed
  have old: "idx1 = idx0" if "loadIndexLocked w = Inr idx0" for idx0
    using that p by (simp add: pre_def)
  have built: "j \<in> indexed idx1"
    if "loadIndexLocked w = Inl e0" "te_readdir E = None" "te_index E = None"
      "j \<in> set (gm_keys (td_files (snd w)))" and nb: "\<not> isl (buildListItemLocked E w j)" for e0 j
  proof -
    obtain x where x: "buildListItemLocked E w j = Inr x" using nb by (cases "buildListItemLocked E w j") auto
    then have "fe_SessionID x = j" by (auto simp: buildListItemLocked_def list_item_def split: sum.splits)
    moreover have "fi_Entries idx1 = List.map_filter (\<lambda>i. case buildListItemLocked E w i of Inl _ \<Rightarrow> None | Inr x \<Rightarrow> Some x)
        (transcript_ids (snd w))"
      using p that(1-3) by (auto simp: pre_def rebuildIndexLocked_def saveIndexLocked_def loadIndexLocked_def new_index_def)
    moreover have "j \<in> set (transcript_ids (snd w))" using that(4) by (simp add: transcript_ids_def)
    ultimately show ?thesis using x by (force simp: indexed_def map_filter_def image_iff)
  qed
  show ?thesis using ids old built unfolding w' stageIndexLocked_def by fastforce
qed

text \<open>
  A new session is in the index on disk as soon as \<open>Start\<close> returns, and no other session is lost
  from it: those of a readable index stay, and when the index cannot be read every transcript that
  loads is listed again.
\<close>

theorem started_session_is_listed:
  assumes "Start E cmd w = (None, w')" "gm_get (td_files (snd w)) (sc_SessionID cmd) = None"
  shows "\<exists>idx. td_index (snd w') = IndexFile idx \<and> sc_SessionID cmd \<in> indexed idx
    \<and> (\<forall>idx0. loadIndexLocked w = Inr idx0 \<longrightarrow> indexed idx0 \<subseteq> indexed idx)
    \<and> (\<forall>e. loadIndexLocked w = Inl e \<longrightarrow> te_readdir E = None \<longrightarrow>
         (\<forall>j \<in> set (gm_keys (td_files (snd w))). \<not> isl (Load E j w) \<longrightarrow> j \<in> indexed idx))"
proof -
  let ?i = "sc_SessionID cmd"
  obtain d where d: "appendRecord E ?i (start_record cmd) True (snd w) = (None, d)"
    and ctx: "te_ctx E = None"
    and fl: "flushIndexLocked E (upsertIndexEntryLocked E ?i (start_entry (fst w) cmd) (fst w, d)) = (None, w')"
    using assms by (auto simp: Start_def split: option.splits prod.splits)
  let ?up = "upsertIndexEntryLocked E ?i (start_entry (fst w) cmd) (fst w, d)"
  have keep: "fe_SessionID (start_entry (fst w) cmd e b) = fe_SessionID e" for e b
    by (simp add: start_entry_def)
  obtain idx where idx: "fs_cachedIndex (fst ?up) = Some idx" "fs_indexDirty (fst ?up)" "?i \<in> indexed idx"
    "\<And>idx0. loadIndexLocked (fst w, d) = Inr idx0 \<Longrightarrow> indexed idx0 \<subseteq> indexed idx"
    "\<And>e0 j. loadIndexLocked (fst w, d) = Inl e0 \<Longrightarrow> te_readdir E = None \<Longrightarrow> te_index E = None \<Longrightarrow>
       j \<in> set (gm_keys (td_files d)) \<Longrightarrow> \<not> isl (buildListItemLocked E (fst w, d) j) \<Longrightarrow> j \<in> indexed idx"
    using upsert_indexed [where mutate = "start_entry (fst w) cmd" and E = E and i = ?i
        and w = "(fst w, d)", OF keep refl] by auto
  have te: "te_index E = None" and w': "td_index (snd w') = IndexFile idx"
    using fl idx(1,2) by (auto simp: flushIndexLocked_def saveIndexLocked_def split: option.splits)
  have td: "td_index d = td_index (snd w)" "\<And>j. j \<noteq> ?i \<Longrightarrow> gm_get (td_files d) j = gm_get (td_files (snd w)) j"
    using d by (auto simp: appendRecord_def Let_def gm.get_put split: append_outcome.splits option.splits)
  have li: "loadIndexLocked (fst w, d) = loadIndexLocked w" using td(1) by (simp add: loadIndexLocked_def split: option.split)
  have "j \<in> indexed idx"
    if "loadIndexLocked w = Inl e" "te_readdir E = None" "j \<in> set (gm_keys (td_files (snd w)))" "\<not> isl (Load E j w)" for e j
  proof -
    have "gm_get (td_files (snd w)) j \<noteq> None" using that(3) gm_laws(7) by metis
    then have "j \<noteq> ?i" using assms(2) by auto
    then have same: "loadRecordsLocked E d j = loadRecordsLocked E (snd w) j" by (simp add: loadRecordsLocked_def td(2) split: option.split)
    have "j \<in> set (gm_keys (td_files d))"
      using td(2) [OF \<open>j \<noteq> ?i\<close>] that(3) gm_laws(7) by metis
    moreover have "\<not> isl (buildListItemLocked E (fst w, d) j)"
      using that(4) ctx by (auto simp: Load_def buildListItemLocked_def same split: sum.splits)
    ultimately show ?thesis using idx(5) li that(1,2) te by simp
  qed
  then show ?thesis using w' idx(3,4) li by auto
qed

subsection \<open>Examples\<close>

definition fine :: ts_env where
  "fine = \<lparr>te_ctx = None, te_stat = None, te_open = None, te_append = AppendOk, te_readdir = None,
     te_remove = None, te_index = None\<rparr>"

definition no_disk :: tdisk where
  "no_disk = \<lparr>td_files = [], td_index = NoIndex\<rparr>"

definition demo_start :: "string \<Rightarrow> StartCommand" where
  "demo_start i = \<lparr>sc_SessionID = i, sc_ProjectID = [], sc_Cwd = [], sc_Provider = [], sc_Model = [],
     sc_MaxTokens = 0, sc_AgentID = [], sc_ParentID = [], sc_Time = 1\<rparr>"

definition demo_append :: "string \<Rightarrow> string \<Rightarrow> string \<Rightarrow> AppendMessageCommand" where
  "demo_append i m parent = \<lparr>am_SessionID = i, am_MessageID = m, am_ParentID = parent, am_Time = 2,
     am_GitBranch = [], am_AgentID = [], am_IsSidechain = False, am_Role = ''user'', am_Content = []\<rparr>"

definition fresh_store :: tworld where
  "fresh_store = (NewFileStore ''/b'' ''p'', no_disk)"

text \<open>
  The leaf of a session is cached when it is first asked for and not when a message is appended.  A
  session that is left and entered again in one process gets the stale leaf as the parent of its
  next message, and replay drops what was written in between.
\<close>

definition stale_world :: tworld where
  "stale_world = ts_run (List.map (Pair fine)
     [OpLastMessageID ''s'', OpStart (demo_start ''s''), OpMessage (demo_append ''s'' ''m1'' []),
      OpMessage (demo_append ''s'' ''m2'' ''m1'')]) fresh_store"

fun replayed_ids :: "string + Transcript \<Rightarrow> string list" where
  "replayed_ids (Inl e) = [''error'']"
| "replayed_ids (Inr t) = List.map nd_ID (tr_Messages t)"

lemma cached_leaf_is_stale:
  "fst (LastMessageID fine ''s'' stale_world) = Inr []"
  "replayed_ids (Load fine ''s'' stale_world) = [''m1'', ''m2'']"
  "replayed_ids (Load fine ''s'' (ts_exec fine (OpMessage (demo_append ''s'' ''m3'' [])) stale_world)) = [''m3'']"
  by code_simp+

text \<open>
  A message appended while the index is unreadable is counted twice: by the rebuild, which already
  finds it in the file, and by the update of the entry.
\<close>

definition lost_index :: "tworld \<Rightarrow> tworld" where
  "lost_index w = (NewFileStore ''/b'' ''p'', (snd w)\<lparr>td_index := NoIndex\<rparr>)"

fun index_view :: "(string + fileIndexEntry list) \<times> tworld \<Rightarrow> (string \<times> nat) list" where
  "index_view (Inl e, w) = []"
| "index_view (Inr es, w) = List.map (\<lambda>e. (fe_SessionID e, fe_MessageCount e)) es"

lemma rebuild_counts_the_message_twice:
  "index_view (List_transcripts fine ''p'' 0 True (ts_exec fine (OpMessage (demo_append ''s'' ''m1'' []))
     (lost_index (ts_run [(fine, OpStart (demo_start ''s''))] fresh_store)))) = [(''s'', 2)]"
  by code_simp

text \<open>
  A fork -- or a compaction -- that finds no readable index writes one with its own session alone;
  the other sessions stay on disk and are never listed again.
\<close>

definition two_sessions :: tworld where
  "two_sessions = lost_index (ts_run (List.map (Pair fine)
     [OpStart (demo_start ''s''), OpStart (demo_start ''u'')]) fresh_store)"

lemma fork_hides_other_sessions:
  "index_view (List_transcripts fine ''p'' 0 True two_sessions) = [(''s'', 0), (''u'', 0)]"
  "index_view (List_transcripts fine ''p'' 0 True (ts_exec fine (OpFork ''s'' ''f'' 62135596800000000003) two_sessions)) = [(''f'', 0)]"
  by code_simp+

text \<open>
  A message whose fsync fails is in the file but not in the cache, and a second attempt writes it again.
\<close>

definition failing :: "append_outcome \<Rightarrow> ts_env" where
  "failing r = fine\<lparr>te_append := r\<rparr>"

definition half_synced :: tworld where
  "half_synced = ts_run [(fine, OpStart (demo_start ''s'')), (failing (SyncFailed ''io''), OpMessage (demo_append ''s'' ''m1'' [])),
     (fine, OpMessage (demo_append ''s'' ''m1'' []))] fresh_store"

lemma failed_sync_writes_the_message_twice:
  "msg_ids (file_of (snd half_synced) ''s'') = [''m1'', ''m1'']"
  by code_simp

text \<open>A patch that follows a torn write is in the cache, but cannot be read in the file.\<close>

definition torn_then_patched :: tworld where
  "torn_then_patched = ts_run [(fine, OpStart (demo_start ''s'')), (failing (AppendFailed ''io'' (Some Bad)), OpMessage (demo_append ''s'' ''m1'' [])),
     (fine, OpPatch ''s'' 62135596800000000003 [PatchTitle ''plan''])] fresh_store"

lemma torn_write_splits_the_state:
  "map_sum id ps_Title (fst (LoadState fine ''s'' torn_then_patched)) = Inr ''plan''"
  "map_sum id (\<lambda>t. ps_Title (tr_State t)) (Load fine ''s'' torn_then_patched) = Inr []"
  by code_simp+

subsection \<open>Witnesses\<close>

definition demo_ops :: "(ts_env \<times> ts_op) list" where
  "demo_ops = List.map (Pair fine)
     [OpStart (demo_start ''s''), OpMessage (demo_append ''s'' ''m1'' []),
      OpMessage (demo_append ''s'' ''m1'' []), OpPatch ''s'' 62135596800000000003 [PatchTitle ''plan'']]"

lemma files_ok_no_disk: "files_ok (td_files no_disk)"
  by (simp add: files_ok_def no_disk_def gm_ok_def gm_get_def)

lemma demo_ops_apply: "ops_apply demo_ops (NewFileStore ''/b'' ''p'', no_disk)"
proof -
  have "clean fine" by (simp add: clean_def fine_def)
  then show ?thesis by (simp add: demo_ops_def)
qed

definition torn_ops :: "(ts_env \<times> ts_op) list" where
  "torn_ops = [(fine, OpStart (demo_start ''s'')), (fine, OpMessage (demo_append ''s'' ''m1'' [])),
     (failing (AppendFailed ''io'' (Some Bad)), OpMessage (demo_append ''s'' ''m2'' ''m1'')),
     (failing (AppendFailed ''io'' None), OpMessage (demo_append ''s'' ''m2'' ''m1'')),
     (fine, OpMessage (demo_append ''s'' ''m1'' [])), (fine, OpMessage (demo_append ''s'' ''m2'' ''m1''))]"

lemma messages_are_persisted_once_witness:
  "distinct (msg_ids (file_of (snd (ts_run torn_ops (NewFileStore ''/b'' ''p'', no_disk))) ''s''))
   \<and> msg_ids (file_of (snd (ts_run torn_ops (NewFileStore ''/b'' ''p'', no_disk))) ''s'') = [''m1'']"
proof -
  obtain s d where w: "ts_run torn_ops (NewFileStore ''/b'' ''p'', no_disk) = (s, d)" by fastforce
  have start: "gm_ok (td_files no_disk)" "\<forall>i. distinct (msg_ids (file_of no_disk i))"
    by (simp_all add: no_disk_def gm_ok_def gm_get_def file_of_def empty_file_def msg_ids_def all_lines_def)
  have "ops_honest torn_ops (NewFileStore ''/b'' ''p'', no_disk)"
    by (simp add: torn_ops_def no_false_alarm_def failing_def fine_def)
  from messages_are_persisted_once [OF start this w, of "''s''"]
  have "distinct (msg_ids (file_of (snd (ts_run torn_ops (NewFileStore ''/b'' ''p'', no_disk))) ''s''))" unfolding w by simp
  moreover have "msg_ids (file_of (snd (ts_run torn_ops (NewFileStore ''/b'' ''p'', no_disk))) ''s'') = [''m1'']" by code_simp
  ultimately show ?thesis by simp
qed

lemma cached_state_is_the_replayed_state_witness:
  "\<exists>t st w'. Load fine ''s'' (ts_run demo_ops (NewFileStore ''/b'' ''p'', no_disk)) = Inr t
     \<and> LoadState fine ''s'' (ts_run demo_ops (NewFileStore ''/b'' ''p'', no_disk)) = (Inr st, w')
     \<and> st = tr_State t \<and> ps_Title st = ''plan''"
proof -
  have "\<not> isl (Load fine ''s'' (ts_run demo_ops (NewFileStore ''/b'' ''p'', no_disk)))" by code_simp
  then obtain t where t: "Load fine ''s'' (ts_run demo_ops (NewFileStore ''/b'' ''p'', no_disk)) = Inr t"
    by (cases "Load fine ''s'' (ts_run demo_ops (NewFileStore ''/b'' ''p'', no_disk))") auto
  have st: "map_sum id ps_Title (fst (LoadState fine ''s'' (ts_run demo_ops (NewFileStore ''/b'' ''p'', no_disk))))
      = Inr ''plan''" by code_simp
  obtain r w' where r: "LoadState fine ''s'' (ts_run demo_ops (NewFileStore ''/b'' ''p'', no_disk)) = (r, w')"
    using prod.exhaust by blast
  then obtain st where "r = Inr st" "ps_Title st = ''plan''" using st by (cases r) auto
  then show ?thesis
    using cached_state_is_the_replayed_state [OF files_ok_no_disk demo_ops_apply t] r t by blast
qed

lemma fork_copies_the_conversation_witness:
  "\<exists>t'. Load fine ''f'' (snd (Fork fine ''s'' ''f'' 62135596800000000009 (ts_run demo_ops (NewFileStore ''/b'' ''p'', no_disk)))) = Inr t'
     \<and> tr_ParentID t' = ''s''"
proof -
  let ?w = "ts_run demo_ops (NewFileStore ''/b'' ''p'', no_disk)"
  have "\<not> isl (Load fine ''s'' ?w)" by code_simp
  then obtain t where t: "Load fine ''s'' ?w = Inr t" by (cases "Load fine ''s'' ?w") auto
  have "fst (Fork fine ''s'' ''f'' 62135596800000000009 ?w) = None" by code_simp
  then have "Fork fine ''s'' ''f'' 62135596800000000009 ?w = (None, snd (Fork fine ''s'' ''f'' 62135596800000000009 ?w))" by (metis prod.collapse)
  from fork_copies_the_conversation [OF this t] show ?thesis by auto
qed

lemma torn_write_loses_only_itself_witness:
  "\<exists>err s' d'. AppendMessage (fine\<lparr>te_append := AppendFailed ''no space'' (Some Bad)\<rparr>) (demo_append ''s'' ''m2'' ''m1'')
       (ts_run demo_ops (NewFileStore ''/b'' ''p'', no_disk)) = (err, s', d')
     \<and> Load fine ''s'' (s', d') = Load fine ''s'' (ts_run demo_ops (NewFileStore ''/b'' ''p'', no_disk))"
proof -
  let ?E = "fine\<lparr>te_append := AppendFailed ''no space'' (Some Bad)\<rparr>" and ?cmd = "demo_append ''s'' ''m2'' ''m1''"
  obtain s d where w: "ts_run demo_ops (NewFileStore ''/b'' ''p'', no_disk) = (s, d)" by fastforce
  obtain err s' d' where a: "AppendMessage ?E ?cmd (s, d) = (err, s', d')" by (metis prod_cases3)
  have i: "am_SessionID ?cmd = ''s''" by (simp add: demo_append_def)
  have "(case gm_get (td_files (snd (ts_run demo_ops (NewFileStore ''/b'' ''p'', no_disk)))) ''s'' of
      None \<Rightarrow> False | Some f \<Rightarrow> tf_tail f = None \<and> list_all (\<lambda>l. case l of Bad \<Rightarrow> False | _ \<Rightarrow> True) (tf_lines f))"
    by code_simp
  then obtain f where f: "gm_get (td_files d) ''s'' = Some f" "intact f"
    unfolding w by (force simp: intact_def list_all_iff split: option.splits line.splits)
  have e: "te_append ?E = AppendFailed ''no space'' (Some Bad)" by simp
  have "Load fine ''s'' (s', d') = Load fine ''s'' (s, d)"
    using torn_write_loses_only_itself [of d ?cmd f ?E] i f e a by simp
  then show ?thesis using a w by auto
qed

lemma started_session_is_listed_witness:
  "\<exists>idx. td_index (snd (snd (Start fine (demo_start ''v'') two_sessions))) = IndexFile idx
     \<and> {''s'', ''u'', ''v''} \<subseteq> indexed idx"
proof -
  have r: "fst (Start fine (demo_start ''v'') two_sessions) = None"
    "gm_get (td_files (snd two_sessions)) (sc_SessionID (demo_start ''v'')) = None"
    "sc_SessionID (demo_start ''v'') = ''v''" "te_readdir fine = None"
    "isl (loadIndexLocked two_sessions)" "gm_keys (td_files (snd two_sessions)) = [''s'', ''u'']"
    "\<not> isl (Load fine ''s'' two_sessions)" "\<not> isl (Load fine ''u'' two_sessions)"
    by code_simp+
  have "Start fine (demo_start ''v'') two_sessions = (None, snd (Start fine (demo_start ''v'') two_sessions))"
    using r(1) by (metis prod.collapse)
  from started_session_is_listed [OF this r(2)] r(3-8) show ?thesis
    by (cases "loadIndexLocked two_sessions") auto
qed

end
