(* ===== verification/SessionStore.thy ===== *)
theory SessionStore
  imports Blocks TranscriptStore
begin

text \<open>
  The store of sessions (\<open>internal/session/store.go\<close>, \<open>metadata.go\<close>, \<open>path.go\<close>): a snapshot of a
  conversation is saved as records of the transcript store and read back from them, with tool
  results that were moved to files of their own.

  A store is its record and the disk: the transcripts and the files of tool results by their path.
  Clock, random ids, the git branch and the outcome of every call below are the environments
  \<open>save_env\<close> and \<open>load_env\<close>.  Every method holds the mutex and is one step.
\<close>

subsection \<open>Data\<close>

record SessSnapshot =
  sn_Metadata :: MetadataView
  sn_Messages :: "Message list"
  sn_Tasks :: "Item list"
  sn_OmitMessageWrites :: bool

record SessStore =
  ss_cwd :: string
  ss_projectID :: string
  ss_projectDir :: string
  ss_fs :: FileStore
  ss_last :: "(string, SessionState) gomap"

record sdisk =
  sd_ts :: tdisk
  sd_blobs :: "(string, string) gomap"

type_synonym sworld = "SessStore \<times> sdisk"

record save_env =
  sv_now :: int
  sv_gitBranch :: string
  sv_new_session :: string
  sv_new_message :: "nat \<Rightarrow> string"
  sv_start :: ts_env
  sv_append :: "nat \<Rightarrow> ts_env"
  sv_load :: ts_env
  sv_patch :: ts_env
  sv_flush :: ts_env

definition ts_world :: "sworld \<Rightarrow> tworld" where
  "ts_world w = (ss_fs (fst w), sd_ts (snd w))"

definition put_ts :: "tworld \<Rightarrow> sworld \<Rightarrow> sworld" where
  "put_ts t w = ((fst w)\<lparr>ss_fs := fst t\<rparr>, (snd w)\<lparr>sd_ts := snd t\<rparr>)"

text \<open>Operations of the transcript store, on the store of sessions.\<close>

definition on_ts :: "(tworld \<Rightarrow> 'a \<times> tworld) \<Rightarrow> sworld \<Rightarrow> 'a \<times> sworld" where
  "on_ts f w = (let (x, t) = f (ts_world w) in (x, put_ts t w))"

definition encodePath :: "string \<Rightarrow> string" where
  "encodePath path =
     List.map (\<lambda>c. if c = CHR ''/'' then CHR ''-'' else c) (trim_right_by (\<lambda>c. c = CHR ''/'') path)"

definition NewStoreWithDir :: "string \<Rightarrow> SessStore" where
  "NewStoreWithDir dir =
     \<lparr>ss_cwd = dir, ss_projectID = encodePath dir, ss_projectDir = dir,
      ss_fs = NewFileStore dir (encodePath dir), ss_last = gm_empty\<rparr>"

definition confdir_Dir :: "string \<Rightarrow> string" where
  "confdir_Dir root = path_join root ''.pcb''"

text \<open>\<open>home\<close> is the answer of \<open>os.UserHomeDir\<close>, \<open>mkdir\<close> what making the directories gives.\<close>

definition NewSessStore :: "string + string \<Rightarrow> string option \<Rightarrow> string \<Rightarrow> string + SessStore" where
  "NewSessStore home mkdir cwd =
     (case home of
        Inl e \<Rightarrow> Inl (''failed to get home directory: '' @ e)
      | Inr h \<Rightarrow>
          (let projectID = encodePath cwd;
               projectDir = path_join (path_join (confdir_Dir h) ''projects'') projectID
           in case mkdir of
                Some e \<Rightarrow> Inl (''failed to create project directory: '' @ e)
              | None \<Rightarrow> Inr \<lparr>ss_cwd = cwd, ss_projectID = projectID, ss_projectDir = projectDir,
                           ss_fs = NewFileStore projectDir projectID, ss_last = gm_empty\<rparr>))"

definition toolResultsDir :: "SessStore \<Rightarrow> string \<Rightarrow> string" where
  "toolResultsDir s sessionID = path_join (ss_projectDir s) (path_join ''blobs/tool-result'' sessionID)"

definition NormalizeMetadata :: "save_env \<Rightarrow> Message list \<Rightarrow> string \<Rightarrow> MetadataView \<Rightarrow> MetadataView" where
  "NormalizeMetadata E msgs defaultCwd meta =
     meta\<lparr>mv_ID := (if mv_ID meta = [] then sv_new_session E else mv_ID meta),
          mv_CreatedAt := (if mv_CreatedAt meta = 0 then sv_now E else mv_CreatedAt meta),
          mv_UpdatedAt := sv_now E, mv_MessageCount := length msgs,
          mv_Cwd := (if mv_Cwd meta = [] then defaultCwd else mv_Cwd meta),
          mv_LastPrompt := (if mv_LastPrompt meta = [] then ExtractLastUserText msgs else mv_LastPrompt meta),
          mv_Title := (if mv_Title meta = [] then GenerateTitle msgs else mv_Title meta)\<rparr>"

subsection \<open>Saving\<close>

definition save_start :: "SessStore \<Rightarrow> MetadataView \<Rightarrow> StartCommand" where
  "save_start s meta =
     \<lparr>sc_SessionID = mv_ID meta, sc_ProjectID = ss_projectID s, sc_Cwd = mv_Cwd meta,
      sc_Provider = mv_Provider meta, sc_Model = mv_Model meta, sc_MaxTokens = 0, sc_AgentID = [],
      sc_ParentID = mv_ParentSessionID meta, sc_Time = mv_CreatedAt meta\<rparr>"

definition node_append :: "string \<Rightarrow> MsgNode \<Rightarrow> AppendMessageCommand" where
  "node_append i n =
     \<lparr>am_SessionID = i, am_MessageID = nd_ID n, am_ParentID = nd_ParentID n, am_Time = nd_Time n,
      am_GitBranch = nd_GitBranch n, am_AgentID = [], am_IsSidechain = False, am_Role = nd_Role n,
      am_Content = nd_Content n\<rparr>"

fun append_nodes :: "(nat \<Rightarrow> ts_env) \<Rightarrow> nat \<Rightarrow> string \<Rightarrow> MsgNode list \<Rightarrow> sworld \<Rightarrow> string option \<times> sworld" where
  "append_nodes Es k i [] w = (None, w)"
| "append_nodes Es k i (n # ns) w =
     (case on_ts (AppendMessage (Es k) (node_append i n)) w of
        (Some e, w) \<Rightarrow> (Some e, w)
      | (None, w) \<Rightarrow> append_nodes Es (k + 1) i ns w)"

definition saved_state :: "SessSnapshot \<Rightarrow> SessionState" where
  "saved_state snap =
     (let meta = sn_Metadata snap
      in \<lparr>ps_Title = mv_Title meta, ps_LastPrompt = mv_LastPrompt meta, ps_Tag = mv_Tag meta,
          ps_Mode = mv_Mode meta, ps_AutoPilot = mv_AutoPilot meta,
          ps_Tasks = TrackerItemViewsFromItems (sn_Tasks snap), ps_Worktree = None\<rparr>)"

text \<open>The state to compare with: what was last written here, else what the transcript has.\<close>

definition previous_state :: "ts_env \<Rightarrow> string \<Rightarrow> sworld \<Rightarrow> SessionState \<times> sworld" where
  "previous_state E i w =
     (case gm_get (ss_last (fst w)) i of
        Some st \<Rightarrow> (st, w)
      | None \<Rightarrow> (case on_ts (LoadState E i) w of
                   (Inr st, w) \<Rightarrow> (st, w)
                 | (Inl _, w) \<Rightarrow> (empty_state, w)))"

definition save_state :: "save_env \<Rightarrow> string \<Rightarrow> SessionState \<Rightarrow> sworld \<Rightarrow> string option \<times> sworld" where
  "save_state E i nxt w =
     (let (prev, w) = previous_state (sv_load E) i w
      in case on_ts (PatchState (sv_patch E) i (sv_now E) (StateOpsDiff prev nxt)) w of
           (Some e, w) \<Rightarrow> (Some e, w)
         | (None, w) \<Rightarrow>
             on_ts (FlushIndex (sv_flush E)) ((fst w)\<lparr>ss_last := gm_put i nxt (ss_last (fst w))\<rparr>, snd w))"

definition normalized :: "save_env \<Rightarrow> SessStore \<Rightarrow> SessSnapshot \<Rightarrow> SessSnapshot" where
  "normalized E s snap =
     snap\<lparr>sn_Metadata := NormalizeMetadata E (sn_Messages snap) (ss_cwd s) (sn_Metadata snap)\<rparr>"

definition Save :: "save_env \<Rightarrow> SessSnapshot \<Rightarrow> sworld \<Rightarrow> string option \<times> SessSnapshot \<times> sworld" where
  "Save E snap w =
     (let snap = normalized E (fst w) snap; meta = sn_Metadata snap; i = mv_ID meta
      in case on_ts (Start (sv_start E) (save_start (fst w) meta)) w of
           (Some e, w) \<Rightarrow> (Some e, snap, w)
         | (None, w) \<Rightarrow>
             (case (if sn_OmitMessageWrites snap then (None, w)
                    else append_nodes (sv_append E) 0 i
                           (messagesToNodes (sv_new_message E) (sn_Messages snap) (mv_Cwd meta)
                              (mv_CreatedAt meta) (sv_gitBranch E)) w) of
                (Some e, w) \<Rightarrow> (Some e, snap, w)
              | (None, w) \<Rightarrow> (let (e, w) = save_state E i (saved_state snap) w in (e, snap, w))))"

subsection \<open>Loading\<close>

definition read_result :: "sworld \<Rightarrow> string \<Rightarrow> string \<Rightarrow> string option" where
  "read_result w i toolCallID = gm_get (sd_blobs (snd w)) (path_join (toolResultsDir (fst w) i) toolCallID)"

definition snapshot_of :: "sworld \<Rightarrow> Transcript \<Rightarrow> SessSnapshot" where
  "snapshot_of w tx =
     (let nodes = HydrateToolResultNodes (tr_ID tx) (read_result w (tr_ID tx)) (tr_Messages tx);
          msgs = messagesFromNodes nodes;
          meta = MetadataFromTranscript tx
      in \<lparr>sn_Metadata = meta
            \<lparr>mv_Title := (if mv_Title meta = [] then GenerateTitle msgs else mv_Title meta),
             mv_LastPrompt := (if mv_LastPrompt meta = [] then ExtractLastUserText msgs else mv_LastPrompt meta)\<rparr>,
          sn_Messages = msgs, sn_Tasks = TrackerItemsFromView (ps_Tasks (tr_State tx)),
          sn_OmitMessageWrites = False\<rparr>)"

definition loadSnapshot :: "ts_env \<Rightarrow> string \<Rightarrow> sworld \<Rightarrow> string + SessSnapshot" where
  "loadSnapshot E i w =
     (if i = [] then Inl ''session not found: ''
      else case Load E i (ts_world w) of
             Inl e \<Rightarrow> Inl (''load transcript '' @ i @ '': '' @ e)
           | Inr tx \<Rightarrow> Inr (snapshot_of w tx))"

definition Load_session :: "ts_env \<Rightarrow> string \<Rightarrow> sworld \<Rightarrow> string + SessSnapshot" where
  "Load_session E i w = loadSnapshot E i w"

definition MetadataFromListItem :: "fileIndexEntry \<Rightarrow> string \<Rightarrow> MetadataView" where
  "MetadataFromListItem e cwd =
     \<lparr>mv_ID = fe_SessionID e, mv_Title = fe_Title e, mv_LastPrompt = fe_LastPrompt e, mv_Tag = [], mv_Mode = [],
      mv_AutoPilot = [], mv_CreatedAt = fe_CreatedAt e, mv_UpdatedAt = fe_UpdatedAt e, mv_Provider = [],
      mv_Model = [], mv_Cwd = cwd, mv_MessageCount = fe_MessageCount e, mv_ParentSessionID = []\<rparr>"

definition List_sessions :: "ts_env \<Rightarrow> sworld \<Rightarrow> (string + MetadataView list) \<times> sworld" where
  "List_sessions E w =
     (case on_ts (List_transcripts E (ss_projectID (fst w)) 0 False) w of
        (Inl e, w) \<Rightarrow> (Inl e, w)
      | (Inr es, w) \<Rightarrow> (Inr (List.map (\<lambda>e. MetadataFromListItem e (ss_cwd (fst w))) es), w))"

definition GetLatest :: "ts_env \<Rightarrow> ts_env \<Rightarrow> sworld \<Rightarrow> (string + SessSnapshot) \<times> sworld" where
  "GetLatest E E' w =
     (case List_sessions E w of
        (Inl e, w) \<Rightarrow> (Inl e, w)
      | (Inr [], w) \<Rightarrow> (Inl ''no sessions found'', w)
      | (Inr (m # _), w) \<Rightarrow> (loadSnapshot E' (mv_ID m) w, w))"

definition Delete_session :: "ts_env \<Rightarrow> string \<Rightarrow> sworld \<Rightarrow> string option \<times> sworld" where
  "Delete_session E i w =
     (case on_ts (Delete_transcript E i) w of
        (Some e, w) \<Rightarrow> (Some e, w)
      | (None, (s, d)) \<Rightarrow>
          (None, s, d\<lparr>sd_blobs := filter (\<lambda>(p, _). \<not> has_prefix p (toolResultsDir s i @ ''/'')) (sd_blobs d)\<rparr>))"

definition Fork_session :: "ts_env \<Rightarrow> ts_env \<Rightarrow> string \<Rightarrow> int \<Rightarrow> string \<Rightarrow> sworld \<Rightarrow> (string + SessSnapshot) \<times> sworld" where
  "Fork_session E E' newID t sourceID w =
     (case on_ts (Fork E sourceID newID t) w of
        (Some e, w) \<Rightarrow> (Inl e, w)
      | (None, w) \<Rightarrow>
          (case loadSnapshot E' newID w of
             Inl e \<Rightarrow> (Inl (''failed to load forked session: '' @ e), w)
           | Inr snap \<Rightarrow> (Inr snap, w)))"

definition Flush_session :: "ts_env \<Rightarrow> sworld \<Rightarrow> string option \<times> sworld" where
  "Flush_session E w = on_ts (FlushIndex E) w"

definition SessionPath :: "SessStore \<Rightarrow> string \<Rightarrow> string" where
  "SessionPath s i = transcriptPath (ss_fs s) i"

definition bad_name :: "string \<Rightarrow> bool" where
  "bad_name n = (n = ''.'' \<or> n = ''/'' \<or> n = [])"

definition PersistToolResult :: "string option \<Rightarrow> string \<Rightarrow> string \<Rightarrow> string \<Rightarrow> sworld \<Rightarrow> string option \<times> sworld" where
  "PersistToolResult failure sessionID toolCallID content w =
     (let safeSessionID = path_base sessionID; safeName = path_base toolCallID
      in if bad_name safeSessionID then (Some ''invalid session ID'', w)
         else if bad_name safeName then (Some ''invalid tool call ID'', w)
         else case failure of
                Some e \<Rightarrow> (Some e, w)
              | None \<Rightarrow>
                  (None, fst w, (snd w)\<lparr>sd_blobs :=
                     gm_put (path_join (toolResultsDir (fst w) safeSessionID) safeName) content (sd_blobs (snd w))\<rparr>))"

definition SaveSubagentConversation :: "save_env \<Rightarrow> string \<Rightarrow> string \<Rightarrow> string \<Rightarrow> string \<Rightarrow> Message list \<Rightarrow> sworld
    \<Rightarrow> (string + string \<times> string) \<times> sworld" where
  "SaveSubagentConversation E parentSessionID title modelID cwd msgs w =
     (if msgs = [] then (Inr ([], []), w)
      else let meta = \<lparr>mv_ID = [], mv_Title = (if title = [] then ''Subagent'' else title), mv_LastPrompt = [],
                  mv_Tag = [], mv_Mode = [], mv_AutoPilot = [], mv_CreatedAt = 0, mv_UpdatedAt = 0,
                  mv_Provider = [], mv_Model = modelID, mv_Cwd = (if cwd = [] then ss_cwd (fst w) else cwd),
                  mv_MessageCount = 0, mv_ParentSessionID = parentSessionID\<rparr>
           in case Save E \<lparr>sn_Metadata = meta, sn_Messages = msgs, sn_Tasks = [], sn_OmitMessageWrites = False\<rparr> w of
                (Some e, snap, w) \<Rightarrow> (Inl e, w)
              | (None, snap, w) \<Rightarrow>
                  (Inr (mv_ID (sn_Metadata snap), SessionPath (fst w) (mv_ID (sn_Metadata snap))), w))"

subsection \<open>What the operations below do when nothing fails\<close>

definition works :: "ts_env \<Rightarrow> bool" where
  "works E \<longleftrightarrow> te_ctx E = None \<and> te_stat E = None \<and> te_open E = None \<and> te_append E = AppendOk \<and> te_index E = None"

lemma works_clean: "works E \<Longrightarrow> clean E"
  by (simp add: works_def clean_def)

lemma appendRecord_works: "works E \<Longrightarrow> appendRecord E i r sync d = (None, written i r d)"
  by (simp add: works_def appendRecord_def written_def)

lemma saveIndex_works: "works E \<Longrightarrow> fst (saveIndexLocked E idx w) = None"
  by (simp add: works_def saveIndexLocked_def)

lemma flushIndex_works: "works E \<Longrightarrow> fst (flushIndexLocked E w) = None"
  by (simp add: flushIndexLocked_def saveIndex_works split: option.split)

lemma warmup_works:
  assumes "works E"
  shows "\<exists>s'. warmupCachesLocked E i (s, d) = (None, s')"
  using assms by (auto simp: warmupCachesLocked_def works_def Let_def split: option.split)

text \<open>The files after an operation, the other fields left to \<open>store_ok\<close>.\<close>

lemma Start_files:
  assumes "store_ok w" "works E"
  shows "\<exists>w'. Start E cmd w = (None, w') \<and> store_ok w' \<and> td_files (snd w') =
    (if gm_get (td_files (snd w)) (sc_SessionID cmd) \<noteq> None then td_files (snd w)
     else td_files (written (sc_SessionID cmd) (start_record cmd) (snd w)))"
proof -
  obtain e w' where r: "Start E cmd w = (e, w')" using prod.exhaust by blast
  have "store_ok w'" using Start_ok [OF assms(1) works_clean [OF assms(2)], of cmd] r by simp
  moreover have "fst (Start E cmd w) = None \<and> td_files (snd (snd (Start E cmd w))) =
    (if gm_get (td_files (snd w)) (sc_SessionID cmd) \<noteq> None then td_files (snd w)
     else td_files (written (sc_SessionID cmd) (start_record cmd) (snd w)))"
    using assms(2) appendRecord_works [OF assms(2)] flushIndex_works [OF assms(2)]
    by (simp add: Start_def works_def)
  ultimately show ?thesis using r by simp
qed

lemma AppendMessage_files:
  assumes "store_ok w" "works E"
  shows "\<exists>w' b. AppendMessage E cmd w = (None, w') \<and> store_ok w' \<and> td_files (snd w') =
    (if am_MessageID cmd \<in> set (msg_ids (file_of (snd w) (am_SessionID cmd))) then td_files (snd w)
     else td_files (written (am_SessionID cmd) (message_record cmd b) (snd w)))"
proof -
  obtain s d where w: "w = (s, d)" by fastforce
  let ?i = "am_SessionID cmd"
  obtain s1 where warm: "warmupCachesLocked E ?i (s, d) = (None, s1)" using warmup_works [OF assms(2)] by blast
  have ok: "store_ok (s1, d)" "wc_warmed (cacheLocked ?i s1)"
    using warmup_ok [OF _ warm] assms(1) w by simp_all
  have ids: "wc_persistedIDs (cacheLocked ?i s1) = set (msg_ids (file_of d ?i))"
    using cacheLocked_agrees [OF ok(1), of ?i] ok(2) by (simp add: cache_agrees_def)
  have ctx: "te_ctx E = None" using assms(2) by (simp add: works_def)
  obtain e w' where r: "AppendMessage E cmd w = (e, w')" using prod.exhaust by blast
  have "store_ok w'" using AppendMessage_ok [OF assms(1) works_clean [OF assms(2)], of cmd] r by simp
  moreover have "\<exists>b. fst (AppendMessage E cmd w) = None \<and> td_files (snd (snd (AppendMessage E cmd w))) =
    (if am_MessageID cmd \<in> set (msg_ids (file_of d ?i)) then td_files d
     else td_files (written ?i (message_record cmd b) d))"
    by (rule exI [of _ "emit_branch cmd (cacheLocked ?i s1)"])
       (simp add: AppendMessage_def Let_def ctx w warm ids appendRecord_works [OF assms(2)])
  ultimately show ?thesis using r w by auto
qed

lemma PatchState_files:
  assumes "store_ok w" "works E"
  shows "\<exists>w'. PatchState E i t ops w = (None, w') \<and> store_ok w' \<and> td_files (snd w') =
    (if ops = [] then td_files (snd w) else td_files (written i (state_record i t ops) (snd w)))"
proof -
  obtain s d where w: "w = (s, d)" by fastforce
  obtain s1 where warm: "warmupCachesLocked E i (s, written i (state_record i t ops) d) = (None, s1)"
    using warmup_works [OF assms(2)] by blast
  have ctx: "te_ctx E = None" using assms(2) by (simp add: works_def)
  obtain e w' where r: "PatchState E i t ops w = (e, w')" using prod.exhaust by blast
  have "store_ok w'" using PatchState_ok [OF assms(1) works_clean [OF assms(2)], of i t ops] r by simp
  moreover have "fst (PatchState E i t ops w) = None \<and> td_files (snd (snd (PatchState E i t ops w))) =
    (if ops = [] then td_files d else td_files (written i (state_record i t ops) d))"
    by (simp add: PatchState_def Let_def ctx w warm appendRecord_works [OF assms(2)])
  ultimately show ?thesis using r w by auto
qed

definition file_state :: "tdisk \<Rightarrow> string \<Rightarrow> SessionState" where
  "file_state d i = wc_latestState (scan (file_of d i))"

lemma LoadState_files:
  assumes "store_ok w" "works E"
  shows "\<exists>w'. LoadState E i w = (Inr (file_state (snd w) i), w') \<and> store_ok w' \<and> snd w' = snd w"
proof -
  obtain s d where w: "w = (s, d)" by fastforce
  obtain s1 where warm: "warmupCachesLocked E i (s, d) = (None, s1)" using warmup_works [OF assms(2)] by blast
  have "wc_latestState (cacheLocked i s1) = file_state d i" "store_ok (s1, d)"
    using warmup_ok [OF _ warm] cacheLocked_agrees [of s1 d i] assms(1) w
    by (simp_all add: cache_agrees_def file_state_def)
  then show ?thesis using warm assms(2) w by (simp add: LoadState_def warmed_read_def works_def)
qed

subsection \<open>The file of a session\<close>

text \<open>The records of a session: whole lines, or no file yet.\<close>

definition history :: "tdisk \<Rightarrow> string \<Rightarrow> Record list \<Rightarrow> bool" where
  "history d i rs \<longleftrightarrow>
     gm_get (td_files d) i = Some \<lparr>tf_lines = List.map Good rs, tf_tail = None\<rparr>
     \<or> gm_get (td_files d) i = None \<and> rs = []"

definition state_of :: "Record list \<Rightarrow> SessionState" where
  "state_of rs = wc_latestState (fold warm_record rs new_cache)"

definition session :: "sworld \<Rightarrow> string \<Rightarrow> Record list \<Rightarrow> bool" where
  "session w i rs \<longleftrightarrow> store_ok (ts_world w) \<and> history (sd_ts (snd w)) i rs
     \<and> (\<exists>p. project_records rs start_projection = Inr p) \<and> boundary_of rs = []"

definition core :: "MsgNode \<Rightarrow> string \<times> string \<times> string \<times> ContentBlock list" where
  "core n = (nd_ID n, nd_ParentID n, nd_Role n, nd_Content n)"

lemma history_file: "history d i rs \<Longrightarrow> file_of d i = \<lparr>tf_lines = List.map Good rs, tf_tail = None\<rparr>"
  by (auto simp: history_def file_of_def empty_file_def)

lemma history_written:
  assumes "history d i rs" "td_files d' = td_files (written i r d)"
  shows "history d' i (rs @ [r])"
  using assms(2) history_file [OF assms(1)]
  by (simp add: history_def written_def gm.get_put write_line_def joined_def)

lemma history_same: "history d i rs \<Longrightarrow> td_files d' = td_files d \<Longrightarrow> history d' i rs"
  by (simp add: history_def)

lemma line_ids_node: "line_ids (Good r) = List.map nd_ID (node_of r)"
  by (auto simp: node_of_def buildNode_def split: option.split)

lemma msg_ids_history:
  assumes "history d i rs"
  shows "msg_ids (file_of d i) = List.map nd_ID (nodes_of rs)"
proof -
  have "concat (List.map (\<lambda>r. line_ids (Good r)) rs) = List.map nd_ID (concat (List.map node_of rs))"
    by (induction rs) (simp_all add: line_ids_node del: line_ids.simps)
  then show ?thesis
    by (simp add: history_file [OF assms] msg_ids_def all_lines_def nodes_of_def comp_def del: line_ids.simps)
qed

lemma file_state_history: "history d i rs \<Longrightarrow> file_state d i = state_of rs"
proof -
  have "fold warm_line (List.map Good rs) c = fold warm_record rs c" for c
    by (induction rs arbitrary: c) simp_all
  then show "history d i rs \<Longrightarrow> file_state d i = state_of rs"
    by (simp add: file_state_def history_file scan_def all_lines_def state_of_def)
qed

lemma state_of_snoc: "state_of (rs @ [r]) = wc_latestState (warm_state r (fold warm_record rs new_cache))"
  by (simp add: state_of_def)

lemma nodes_of_snoc [simp]: "nodes_of (rs @ [r]) = nodes_of rs @ node_of r"
  by (simp add: nodes_of_def)

lemma boundary_of_snoc: "boundary_of (rs @ [r]) = boundary_step r (boundary_of rs)"
  by (simp add: boundary_of_def)

lemma ts_put [simp]: "ts_world (put_ts t w) = t"
  by (simp add: ts_world_def put_ts_def)

lemma ts_world_snd [simp]: "snd (ts_world w) = sd_ts (snd w)"
  by (simp add: ts_world_def)

lemma put_ts_same [simp]: "put_ts (ts_world w) w = w"
  by (simp add: put_ts_def ts_world_def)

lemma put_ts_fields [simp]:
  "ss_last (fst (put_ts t w)) = ss_last (fst w)" "ss_cwd (fst (put_ts t w)) = ss_cwd (fst w)"
  "ss_projectID (fst (put_ts t w)) = ss_projectID (fst w)"
  "sd_blobs (snd (put_ts t w)) = sd_blobs (snd w)" "sd_ts (snd (put_ts t w)) = snd t"
  by (simp_all add: put_ts_def)

lemma on_ts_result: "f (ts_world w) = (x, t) \<Longrightarrow> on_ts f w = (x, put_ts t w)"
  by (simp add: on_ts_def)

lemma session_snoc:
  assumes "session w i rs" "store_ok t" "td_files (snd t) = td_files (written i r (sd_ts (snd w)))"
    and "\<And>p. tr_State (pj_t p) = state_of rs \<Longrightarrow> \<exists>p'. project_record r p = Inr p'"
    and "rc_Type r \<noteq> SessionCompacted"
  shows "session (put_ts t w) i (rs @ [r])"
proof -
  obtain p where p: "project_records rs start_projection = Inr p" using assms(1) by (auto simp: session_def)
  have "tr_State (pj_t p) = state_of rs"
    using project_records_state [OF p, of new_cache]
    by (simp add: state_of_def start_projection_def empty_transcript_def new_cache_def)
  then obtain p' where "project_record r p = Inr p'" using assms(4) by blast
  then have "project_records (rs @ [r]) start_projection = Inr p'" using p by (simp add: project_records_append)
  then show ?thesis
    using assms history_written [of "sd_ts (snd w)" i rs "snd t" r]
    by (auto simp: session_def boundary_of_snoc boundary_step_def)
qed

lemma session_same:
  "session w i rs \<Longrightarrow> store_ok t \<Longrightarrow> td_files (snd t) = td_files (sd_ts (snd w)) \<Longrightarrow> session (put_ts t w) i rs"
  by (auto simp: session_def elim: history_same)

subsection \<open>A save, step by step\<close>

lemma session_Start:
  assumes "session w (sc_SessionID cmd) rs" "works E" "wc = sc_SessionID cmd"
  shows "\<exists>t rs'. on_ts (Start E cmd) w = (None, put_ts t w) \<and> session (put_ts t w) wc rs'
    \<and> nodes_of rs' = nodes_of rs \<and> state_of rs' = state_of rs \<and> gm_get (td_files (snd t)) wc \<noteq> None"
proof -
  let ?i = "sc_SessionID cmd"
  have ok: "store_ok (ts_world w)" and h: "history (sd_ts (snd w)) ?i rs" using assms(1) by (simp_all add: session_def)
  obtain t where t: "Start E cmd (ts_world w) = (None, t)" "store_ok t" "td_files (snd t) =
      (if gm_get (td_files (snd (ts_world w))) ?i \<noteq> None then td_files (snd (ts_world w))
       else td_files (written ?i (start_record cmd) (snd (ts_world w))))"
    using Start_files [OF ok assms(2)] by blast
  show ?thesis
  proof (cases "gm_get (td_files (sd_ts (snd w))) ?i")
    case (Some f)
    then show ?thesis using t session_same [OF assms(1) t(2)] on_ts_result [of "Start E cmd" w, OF t(1)] assms(3)
      by (intro exI [of _ t] exI [of _ rs]) simp
  next
    case None
    let ?r = "start_record cmd"
    have st: "rc_Type ?r = SessionStarted" by (simp add: start_record_def blank_record_def)
    have "td_files (snd t) = td_files (written ?i ?r (sd_ts (snd w)))" using t(3) None by simp
    then have "session (put_ts t w) ?i (rs @ [?r])"
      by (rule session_snoc [OF assms(1) t(2)]) (simp_all add: project_record_def Let_def st)
    moreover have "node_of ?r = []" "state_of (rs @ [?r]) = state_of rs"
      by (simp_all add: node_of_def state_of_snoc warm_state_def state_of_def st)
    moreover have "gm_get (td_files (snd t)) ?i \<noteq> None"
      using t(3) None by (simp add: written_def gm.get_put)
    ultimately show ?thesis using on_ts_result [of "Start E cmd" w, OF t(1)] assms(3)
      by (intro exI [of _ t] exI [of _ "rs @ [?r]"]) simp
  qed
qed

lemma session_AppendMessage:
  assumes "session w (am_SessionID cmd) rs" "works E"
  shows "\<exists>t rs'. on_ts (AppendMessage E cmd) w = (None, put_ts t w) \<and> session (put_ts t w) (am_SessionID cmd) rs'
    \<and> state_of rs' = state_of rs
    \<and> List.map core (nodes_of rs') = List.map core (nodes_of rs)
        @ (if am_MessageID cmd \<in> nd_ID ` set (nodes_of rs) then []
           else [(am_MessageID cmd, am_ParentID cmd, am_Role cmd, am_Content cmd)])
    \<and> (gm_get (td_files (sd_ts (snd w))) (am_SessionID cmd) \<noteq> None \<longrightarrow>
         gm_get (td_files (snd t)) (am_SessionID cmd) \<noteq> None)"
proof -
  let ?i = "am_SessionID cmd"
  have ok: "store_ok (ts_world w)" and h: "history (sd_ts (snd w)) ?i rs" using assms(1) by (simp_all add: session_def)
  obtain t b where t: "AppendMessage E cmd (ts_world w) = (None, t)" "store_ok t" "td_files (snd t) =
      (if am_MessageID cmd \<in> nd_ID ` set (nodes_of rs) then td_files (sd_ts (snd w))
       else td_files (written ?i (message_record cmd b) (sd_ts (snd w))))"
    using AppendMessage_files [OF ok assms(2), of cmd] unfolding ts_world_snd msg_ids_history [OF h] set_map by blast
  note res = on_ts_result [of "AppendMessage E cmd" w, OF t(1)]
  show ?thesis
  proof (cases "am_MessageID cmd \<in> nd_ID ` set (nodes_of rs)")
    case True
    then show ?thesis using res t(2,3) session_same [OF assms(1) t(2)] by (intro exI [of _ t] exI [of _ rs]) simp
  next
    case False
    let ?r = "message_record cmd b"
    have r: "rc_Type ?r = MessageAppended" "rc_Message ?r \<noteq> None"
        "List.map core (node_of ?r) = [(am_MessageID cmd, am_ParentID cmd, am_Role cmd, am_Content cmd)]"
      by (simp_all add: message_record_def blank_record_def node_of_def buildNode_def core_def)
    have f: "td_files (snd t) = td_files (written ?i ?r (sd_ts (snd w)))" using t(3) False by simp
    have "session (put_ts t w) ?i (rs @ [?r])"
      by (rule session_snoc [OF assms(1) t(2) f])
         (use r in \<open>auto simp: project_record_def Let_def buildNode_def split: option.split\<close>)
    moreover have "state_of (rs @ [?r]) = state_of rs" using r by (simp add: state_of_snoc warm_state_def state_of_def)
    moreover have "gm_get (td_files (snd t)) ?i \<noteq> None" using f by (simp add: written_def gm.get_put)
    ultimately show ?thesis using res r(3) False by (intro exI [of _ t] exI [of _ "rs @ [?r]"]) simp
  qed
qed

lemma session_append_nodes:
  assumes "session w i rs" "\<And>k. works (Es k)" "gm_get (td_files (sd_ts (snd w))) i \<noteq> None"
    and "List.map core (nodes_of rs) = List.map core (dn @ xs)" "xs = take m ns"
    and "distinct (List.map nd_ID (dn @ ns))"
  shows "\<exists>t rs'. append_nodes Es k i ns w = (None, put_ts t w) \<and> session (put_ts t w) i rs'
    \<and> state_of rs' = state_of rs \<and> List.map core (nodes_of rs') = List.map core (dn @ ns)
    \<and> gm_get (td_files (snd t)) i \<noteq> None"
  using assms
proof (induction ns arbitrary: w rs k dn xs m)
  case Nil
  then show ?case by (intro exI [of _ "ts_world w"] exI [of _ rs]) simp
next
  case (Cons n ns)
  have ids: "nd_ID ` set (nodes_of rs) = nd_ID ` set (dn @ xs)"
    using arg_cong [OF Cons.prems(4), of "\<lambda>cs. fst ` set cs"] by (simp add: image_image core_def image_Un)
  obtain t rs1 where t: "on_ts (AppendMessage (Es k) (node_append i n)) w = (None, put_ts t w)"
      "session (put_ts t w) i rs1" "state_of rs1 = state_of rs"
      "List.map core (nodes_of rs1) = List.map core (nodes_of rs)
        @ (if nd_ID n \<in> nd_ID ` set (nodes_of rs) then [] else [core n])"
      "gm_get (td_files (snd t)) i \<noteq> None"
    using session_AppendMessage [of w "node_append i n" rs "Es k"] Cons.prems(1,3) Cons.prems(2) [of k]
    by (auto simp: node_append_def core_def)
  have c: "List.map core (nodes_of rs1) = List.map core ((dn @ [n]) @ take (m - 1) ns)"
  proof (cases m)
    case 0
    then have "nd_ID n \<notin> nd_ID ` set (nodes_of rs)" unfolding ids using Cons.prems(5,6) by auto
    then show ?thesis using t(4) Cons.prems(4,5) 0 by simp
  next
    case (Suc m')
    then have "nd_ID n \<in> nd_ID ` set (nodes_of rs)" unfolding ids using Cons.prems(5) by simp
    then show ?thesis using t(4) Cons.prems(4,5) Suc by simp
  qed
  obtain t' rs' where "append_nodes Es (k + 1) i ns (put_ts t w) = (None, put_ts t' (put_ts t w))"
      "session (put_ts t' (put_ts t w)) i rs'" "state_of rs' = state_of rs1"
      "List.map core (nodes_of rs') = List.map core ((dn @ [n]) @ ns)" "gm_get (td_files (snd t')) i \<noteq> None"
    using Cons.IH [OF t(2) Cons.prems(2) _ c refl, of "k + 1"] t(5) Cons.prems(6) by auto
  moreover have "put_ts t' (put_ts t w) = put_ts t' w" by (simp add: put_ts_def)
  ultimately show ?case using t(1,3) by (intro exI [of _ t'] exI [of _ rs']) simp
qed

lemma session_save_state:
  assumes "session w i rs" "works (sv_load E)" "works (sv_patch E)" "works (sv_flush E)"
    and "\<And>st. gm_get (ss_last (fst w)) i = Some st \<Longrightarrow> st = state_of rs"
    and "gm_get (td_files (sd_ts (snd w))) i \<noteq> None"
  shows "\<exists>w' rs'. save_state E i nxt w = (None, w') \<and> session w' i rs' \<and> state_of rs' = nxt
    \<and> nodes_of rs' = nodes_of rs \<and> gm_get (ss_last (fst w')) i = Some nxt
    \<and> sd_blobs (snd w') = sd_blobs (snd w) \<and> ss_cwd (fst w') = ss_cwd (fst w)
    \<and> gm_get (td_files (sd_ts (snd w'))) i \<noteq> None"
proof -
  have "\<exists>t. previous_state (sv_load E) i w = (state_of rs, put_ts t w) \<and> session (put_ts t w) i rs
      \<and> snd t = sd_ts (snd w)"
  proof (cases "gm_get (ss_last (fst w)) i")
    case None
    have "store_ok (ts_world w)" "history (sd_ts (snd w)) i rs" using assms(1) by (simp_all add: session_def)
    then obtain t where t: "LoadState (sv_load E) i (ts_world w) = (Inr (state_of rs), t)" "store_ok t"
        "snd t = sd_ts (snd w)"
      using LoadState_files [of "ts_world w" "sv_load E" i] assms(2) file_state_history by auto
    then show ?thesis
      using None on_ts_result [of "LoadState (sv_load E) i" w, OF t(1)] session_same [OF assms(1) t(2)]
      by (intro exI [of _ t]) (simp add: previous_state_def)
  next
    case (Some st)
    then show ?thesis using assms(1) assms(5) [of st] by (intro exI [of _ "ts_world w"]) (simp add: previous_state_def)
  qed
  then obtain t where t: "previous_state (sv_load E) i w = (state_of rs, put_ts t w)" "session (put_ts t w) i rs"
      "snd t = sd_ts (snd w)" by blast
  let ?w = "put_ts t w" and ?ops = "StateOpsDiff (state_of rs) nxt"
  have ok: "store_ok (ts_world ?w)" using t(2) by (simp add: session_def)
  obtain t2 where t2: "PatchState (sv_patch E) i (sv_now E) ?ops (ts_world ?w) = (None, t2)" "store_ok t2"
      "td_files (snd t2) = (if ?ops = [] then td_files (sd_ts (snd ?w))
         else td_files (written i (state_record i (sv_now E) ?ops) (sd_ts (snd ?w))))"
    using PatchState_files [OF ok assms(3)] unfolding ts_world_snd by blast
  have same: "snd (applyStatePatch (state_of rs) (Some ?ops)) = nxt" by (simp add: patch_of_diff)
  have "\<exists>rs'. session (put_ts t2 ?w) i rs' \<and> state_of rs' = nxt \<and> nodes_of rs' = nodes_of rs"
  proof (cases "?ops = []")
    case True
    then have "state_of rs = nxt" using same by (simp add: applyStatePatch_def)
    then show ?thesis using True t2 session_same [OF t(2) t2(2)] by (intro exI [of _ rs]) simp
  next
    case False
    let ?r = "state_record i (sv_now E) ?ops"
    have r: "rc_Type ?r = SessionStatePatched" "rc_State ?r = Some ?ops"
      by (simp_all add: state_record_def typed_record_def blank_record_def)
    have f: "td_files (snd t2) = td_files (written i ?r (sd_ts (snd ?w)))" using t2(3) False by simp
    have "session (put_ts t2 ?w) i (rs @ [?r])"
      by (rule session_snoc [OF t(2) t2(2) f]) (simp_all add: project_record_def Let_def r patch_of_diff)
    moreover have "state_of (rs @ [?r]) = nxt"
      using same by (simp add: state_of_snoc warm_state_def r flip: state_of_def)
    ultimately show ?thesis using r(1) by (intro exI [of _ "rs @ [?r]"]) (simp add: node_of_def)
  qed
  then obtain rs' where rs': "session (put_ts t2 ?w) i rs'" "state_of rs' = nxt" "nodes_of rs' = nodes_of rs" by blast
  let ?w2 = "put_ts t2 ?w"
  let ?w3 = "((fst ?w2)\<lparr>ss_last := gm_put i nxt (ss_last (fst ?w2))\<rparr>, snd ?w2)"
  obtain t4 where t4: "FlushIndex (sv_flush E) (ts_world ?w3) = (None, t4)"
    using flushIndex_works [OF assms(4), of "ts_world ?w3"] unfolding FlushIndex_def by (metis prod.collapse)
  have "session ?w3 i rs'" using rs'(1) by (simp add: session_def ts_world_def)
  moreover have "store_ok t4 \<and> td_files (snd t4) = td_files (sd_ts (snd ?w3))"
  proof -
    have t4': "t4 = snd (flushIndexLocked (sv_flush E) (ts_world ?w3))" using t4 by (simp add: FlushIndex_def)
    then show ?thesis
      using calculation store_ok_frame [of "ts_world ?w3" t4] unfolding session_def by simp
  qed
  ultimately have s4: "session (put_ts t4 ?w3) i rs'" "td_files (snd t4) = td_files (sd_ts (snd ?w3))"
    using session_same by blast+
  have "gm_get (td_files (snd t2)) i \<noteq> None"
    using t2(3) t(3) assms(6) by (simp add: written_def gm.get_put split: if_splits)
  moreover have "save_state E i nxt w = (None, put_ts t4 ?w3)"
    using t(1) on_ts_result [of "PatchState (sv_patch E) i (sv_now E) ?ops" ?w, OF t2(1)]
      on_ts_result [of "FlushIndex (sv_flush E)" ?w3, OF t4]
    by (simp add: save_state_def)
  ultimately show ?thesis using s4 rs'(2,3)
    by (intro exI [of _ "put_ts t4 ?w3"] exI [of _ rs']) (simp add: gm.get_put)
qed

text \<open>What a session has to be for a save of \<open>snap\<close> to continue it.\<close>

definition visible_core :: "SessSnapshot \<Rightarrow> (string \<times> string \<times> string \<times> ContentBlock list) list" where
  "visible_core snap = List.map core (messagesToNodes (\<lambda>_. []) (sn_Messages snap) [] 0 [])"

definition continues :: "sworld \<Rightarrow> string \<Rightarrow> SessSnapshot \<Rightarrow> bool" where
  "continues w i snap \<longleftrightarrow>
     (\<exists>rs m. session w i rs \<and> List.map core (nodes_of rs) = take m (visible_core snap)
       \<and> (\<forall>st. gm_get (ss_last (fst w)) i = Some st \<longrightarrow> st = state_of rs))"

definition all_work :: "save_env \<Rightarrow> bool" where
  "all_work E \<longleftrightarrow> works (sv_start E) \<and> (\<forall>k. works (sv_append E k)) \<and> works (sv_load E) \<and> works (sv_patch E)
     \<and> works (sv_flush E)"

lemma messages_to_nodes_core:
  assumes "list_all savable msgs" "List.map core nodes = List.map core nodes'"
  shows "List.map core (messages_to_nodes new_id cwd t b nodes msgs)
       = List.map core (messages_to_nodes new_id' cwd' t' b' nodes' msgs)"
  using assms
proof (induction msgs arbitrary: nodes nodes')
  case (Cons msg msgs)
  have "length nodes = length nodes'" using Cons.prems(2) map_eq_imp_length_eq by blast
  moreover have "nodes \<noteq> [] \<Longrightarrow> nd_ID (last nodes) = nd_ID (last nodes')"
    using arg_cong [OF Cons.prems(2), of last] calculation by (cases nodes'; auto simp: last_map core_def)
  ultimately have "core (message_node new_id cwd t b nodes msg) = core (message_node new_id' cwd' t' b' nodes' msg)"
    using Cons.prems(1) by (auto simp: core_def message_node_def savable_def)
  then have "List.map core (if transcriptRole (MsgRole msg) = [] then nodes
        else nodes @ [message_node new_id cwd t b nodes msg])
      = List.map core (if transcriptRole (MsgRole msg) = [] then nodes'
        else nodes' @ [message_node new_id' cwd' t' b' nodes' msg])"
    using Cons.prems(2) by simp
  moreover have "list_all savable msgs" using Cons.prems(1) by simp
  ultimately show ?case unfolding messages_to_nodes.simps by (intro Cons.IH)
qed simp

lemma visible_core_nodes:
  "list_all savable (sn_Messages snap) \<Longrightarrow>
   List.map core (messagesToNodes new_id (sn_Messages snap) cwd t b) = visible_core snap"
  unfolding visible_core_def messagesToNodes_def by (rule messages_to_nodes_core) simp_all

lemma visible_ids:
  assumes "list_all savable (sn_Messages snap)"
  shows "List.map fst (visible_core snap) = List.map ID (sn_Messages snap)"
proof -
  obtain ns where "messagesToNodes (\<lambda>_. []) (sn_Messages snap) [] 0 [] = ns" "list_all2 node_for (sn_Messages snap) ns"
    using messages_to_nodes_for [OF assms, of "\<lambda>_. []" "[]" 0 "[]" "[]"] by (auto simp: messagesToNodes_def)
  then have "visible_core snap = List.map core ns" "list_all2 node_for (sn_Messages snap) ns"
    by (simp_all add: visible_core_def)
  then show ?thesis
    by (auto simp: list_all2_conv_all_nth node_for_def core_def comp_def intro: nth_equalityI)
qed

lemma Save_session:
  assumes "continues w i snap" "all_work E" "mv_ID (sn_Metadata snap) = i" "i \<noteq> []"
    and "\<not> sn_OmitMessageWrites snap" "list_all savable (sn_Messages snap)" "distinct (List.map ID (sn_Messages snap))"
  shows "\<exists>w' rs. Save E snap w = (None, normalized E (fst w) snap, w') \<and> session w' i rs
    \<and> List.map core (nodes_of rs) = visible_core snap
    \<and> state_of rs = saved_state (normalized E (fst w) snap) \<and> gm_get (ss_last (fst w')) i = Some (state_of rs)
    \<and> sd_blobs (snd w') = sd_blobs (snd w) \<and> gm_get (td_files (sd_ts (snd w'))) i \<noteq> None"
proof -
  let ?snap = "normalized E (fst w) snap"
  let ?meta = "sn_Metadata ?snap"
  let ?ns = "messagesToNodes (sv_new_message E) (sn_Messages snap) (mv_Cwd ?meta) (mv_CreatedAt ?meta) (sv_gitBranch E)"
  have norm: "mv_ID ?meta = i" "sn_Messages ?snap = sn_Messages snap" "\<not> sn_OmitMessageWrites ?snap"
    using assms(3-5) by (simp_all add: normalized_def NormalizeMetadata_def)
  have ns: "List.map core ?ns = visible_core snap" using visible_core_nodes assms(6) by blast
  have ids: "List.map nd_ID ?ns = List.map ID (sn_Messages snap)"
    using visible_ids [OF assms(6)] unfolding ns [symmetric] by (simp add: comp_def core_def)
  obtain rs m where rs: "session w i rs" "List.map core (nodes_of rs) = take m (visible_core snap)"
      "\<And>st. gm_get (ss_last (fst w)) i = Some st \<Longrightarrow> st = state_of rs"
    using assms(1) by (auto simp: continues_def)
  obtain t1 rs1 where t1: "on_ts (Start (sv_start E) (save_start (fst w) ?meta)) w = (None, put_ts t1 w)"
      "session (put_ts t1 w) i rs1" "nodes_of rs1 = nodes_of rs" "state_of rs1 = state_of rs"
      "gm_get (td_files (snd t1)) i \<noteq> None"
    using session_Start [OF _ _ refl, of w "save_start (fst w) ?meta" rs "sv_start E"] rs(1) norm(1) assms(2)
    unfolding all_work_def save_start_def StartCommand.select_convs by blast
  have pre: "List.map core (nodes_of rs1) = List.map core ([] @ take m ?ns)"
    using t1(3) rs(2) unfolding ns [symmetric] by (simp add: take_map)
  have dist: "distinct (List.map nd_ID ([] @ ?ns))" using ids assms(7) by simp
  have E: "works (sv_append E k)" for k using assms(2) by (simp add: all_work_def)
  have "gm_get (td_files (sd_ts (snd (put_ts t1 w)))) i \<noteq> None" using t1(5) by simp
  from session_append_nodes [where Es = "sv_append E" and k = 0, OF t1(2) E this pre refl dist]
  obtain t2 rs2 where t2: "append_nodes (sv_append E) 0 i ?ns (put_ts t1 w) = (None, put_ts t2 (put_ts t1 w))"
      "session (put_ts t2 (put_ts t1 w)) i rs2" "state_of rs2 = state_of rs1"
      "List.map core (nodes_of rs2) = visible_core snap" "gm_get (td_files (snd t2)) i \<noteq> None"
    unfolding append_Nil ns by blast
  let ?w = "put_ts t2 (put_ts t1 w)"
  obtain w' rs' where w': "save_state E i (saved_state ?snap) ?w = (None, w')" "session w' i rs'"
      "state_of rs' = saved_state ?snap" "nodes_of rs' = nodes_of rs2"
      "gm_get (ss_last (fst w')) i = Some (saved_state ?snap)" "sd_blobs (snd w') = sd_blobs (snd ?w)"
      "gm_get (td_files (sd_ts (snd w'))) i \<noteq> None"
    using session_save_state [OF t2(2), of E "saved_state ?snap"] rs(3) t1(4) t2(3,5) assms(2)
    unfolding all_work_def put_ts_fields by metis
  have "Save E snap w = (None, ?snap, w')"
    using t1(1) t2(1) w'(1) norm by (simp add: Save_def Let_def)
  then show ?thesis using w' t2(4) by (intro exI [of _ w'] exI [of _ rs']) simp
qed

subsection \<open>Reading a session back\<close>

lemma core_fields: "core n = core n' \<longleftrightarrow> nd_ID n = nd_ID n' \<and> nd_ParentID n = nd_ParentID n'
    \<and> nd_Role n = nd_Role n' \<and> nd_Content n = nd_Content n'"
  by (simp add: core_def)

lemma messagesFromNodes_core:
  assumes "List.map core ns = List.map core ns'"
  shows "messagesFromNodes ns = messagesFromNodes ns'"
proof -
  have all: "list_all2 (\<lambda>n n'. core n = core n') ns ns'"
    using assms by (simp add: list_all2_conv_all_nth list_eq_iff_nth_eq)
  have "fold (\<lambda>n m. if nd_Role n = ''assistant''
              then fold (\<lambda>b m. if cb_Type b = ''tool_use'' then gm_put (cb_ID b) (cb_Name b) m else m)
                     (nd_Content n) m
              else m) ns m
      = fold (\<lambda>n m. if nd_Role n = ''assistant''
              then fold (\<lambda>b m. if cb_Type b = ''tool_use'' then gm_put (cb_ID b) (cb_Name b) m else m)
                     (nd_Content n) m
              else m) ns' m" for m
    using all by (induction ns ns' arbitrary: m rule: list_all2_induct) (simp_all add: core_fields)
  then have names: "tool_names ns = tool_names ns'" by (simp add: tool_names_def)
  have "List.map (node_message t) ns = List.map (node_message t) ns'" for t
    using all
  proof (induction ns ns' rule: list_all2_induct)
    case (Cons n ns n' ns')
    then show ?case by (simp add: node_message_def core_fields)
  qed simp
  then show ?thesis by (simp add: messagesFromNodes_def names)
qed

lemma linked_core: "List.map core ns = List.map core ns' \<Longrightarrow> linked ns \<longleftrightarrow> linked ns'"
proof (induction ns arbitrary: ns')
  case (Cons a ns)
  then obtain a' xs where x: "ns' = a' # xs" "core a = core a'" "List.map core ns = List.map core xs"
    by (auto simp: Cons_eq_map_conv)
  then have IH: "linked ns \<longleftrightarrow> linked xs" using Cons.IH by blast
  show ?case using x IH by (cases ns; cases xs) (simp_all add: core_fields)
qed simp

lemma linear_core: "List.map core ns = List.map core ns' \<Longrightarrow> linear ns \<longleftrightarrow> linear ns'"
proof -
  assume c: "List.map core ns = List.map core ns'"
  have "List.map nd_ID ns = List.map nd_ID ns'" using arg_cong [OF c, of "List.map fst"] by (simp add: comp_def core_def)
  moreover have "nd_ID ` set ns = nd_ID ` set ns'" using calculation by (metis set_map)
  moreover have "ns \<noteq> [] \<longleftrightarrow> ns' \<noteq> []" using c by auto
  moreover have "ns \<noteq> [] \<Longrightarrow> nd_ParentID (hd ns) = nd_ParentID (hd ns')"
    using c by (cases ns; cases ns'; simp add: core_fields)
  ultimately show ?thesis using linked_core [OF c] by (auto simp: linear_def)
qed

lemma messages_to_nodes_linked:
  "linked nodes \<Longrightarrow> linked (messages_to_nodes new_id cwd t b nodes msgs)"
proof (induction msgs arbitrary: nodes)
  case (Cons msg msgs)
  have "linked (nodes @ [message_node new_id cwd t b nodes msg])"
  proof (cases nodes rule: rev_cases)
    case (snoc xs n)
    then show ?thesis using Cons.prems linked_snoc [of xs n] by (simp add: message_node_def)
  qed simp
  then show ?case using Cons by simp
qed simp

lemma messagesToNodes_linear:
  assumes "list_all savable msgs" "distinct (List.map ID msgs)"
  shows "linear (messagesToNodes new_id msgs cwd t b)"
proof -
  obtain ns where ns: "messagesToNodes new_id msgs cwd t b = ns" "list_all2 node_for msgs ns"
    using messages_to_nodes_for [OF assms(1), of new_id cwd t b "[]"] by (auto simp: messagesToNodes_def)
  have ids: "List.map nd_ID ns = List.map ID msgs"
    using ns(2) by (auto simp: list_all2_conv_all_nth node_for_def intro: nth_equalityI)
  then have "[] \<notin> nd_ID ` set ns"
    using assms(1) by (metis (mono_tags, lifting) image_iff list.set_map list_all_iff savable_def)
  moreover have "linked ns"
    using messages_to_nodes_linked [of "[]" new_id cwd t b msgs] ns(1) by (simp add: messagesToNodes_def)
  moreover have "nd_ParentID (hd ns) = []" if "ns \<noteq> []"
  proof -
    obtain m ms where m: "msgs = m # ms" using ns(2) \<open>ns \<noteq> []\<close> by (cases msgs) auto
    have "savable m" using assms(1) m by simp
    then have vis: "transcriptRole (MsgRole m) \<noteq> []" by (auto simp: savable_def transcriptRole_def split: Role.split)
    obtain xs where "messages_to_nodes new_id cwd t b [message_node new_id cwd t b [] m] ms
        = [message_node new_id cwd t b [] m] @ xs"
      using messages_to_nodes_for [of ms new_id cwd t b "[message_node new_id cwd t b [] m]"] assms(1) m by auto
    then have "hd ns = message_node new_id cwd t b [] m"
      using ns(1) [symmetric] vis m by (simp add: messagesToNodes_def)
    then show ?thesis by (simp add: message_node_def)
  qed
  ultimately show ?thesis using ns(1) ids assms(2) by (auto simp: linear_def)
qed

lemma hydrate_nothing: "HydrateToolResultNodes i (\<lambda>_. None) ns = ns"
proof -
  have tt: "hydrate_text m (\<lambda>_. None) sub = sub" for m sub
    by (simp add: hydrate_text_def)
  have sub: "List.map (hydrate_text m (\<lambda>_. None)) c = c" for m c by (simp add: tt map_idI)
  have "hydrateToolResultBlocks m (\<lambda>_. None) bs = bs" for m bs
    by (induction bs) (simp_all add: hydrateToolResultBlocks_def sub split: ContentBlock.split)
  then show ?thesis by (simp add: HydrateToolResultNodes_def)
qed

lemma Load_of_session:
  assumes "session w i rs" "i \<noteq> []" "works E" "linear (nodes_of rs)" "gm_get (td_files (sd_ts (snd w))) i \<noteq> None"
  shows "\<exists>tx. loadSnapshot E i w = Inr (snapshot_of w tx) \<and> tr_Messages tx = nodes_of rs
    \<and> tr_State tx = state_of rs"
proof -
  obtain p where p: "project_records rs start_projection = Inr p" using assms(1) by (auto simp: session_def)
  then obtain tx where tx: "Project rs = Inr tx" "tr_State tx = tr_State (pj_t p)" by (simp add: Project_def)
  have "tr_State (pj_t p) = state_of rs"
    using project_records_state [OF p, of new_cache]
    by (simp add: state_of_def start_projection_def empty_transcript_def new_cache_def)
  moreover have "tr_Messages tx = nodes_of rs"
    using linear_replay [OF tx(1) assms(4)] assms(1,4) by (auto simp: session_def from_boundary_def linear_def)
  moreover have "Load E i (ts_world w) = Inr tx"
    using assms(1,3,5) tx(1) by (auto simp: Load_def works_def loadRecordsLocked_def session_def history_def
        all_lines_def load_lines_Good)
  ultimately show ?thesis using tx(2) assms(2) by (intro exI [of _ tx]) (simp add: loadSnapshot_def)
qed

subsection \<open>Turn after turn\<close>

fun saves :: "(save_env \<times> SessSnapshot) list \<Rightarrow> sworld \<Rightarrow> sworld" where
  "saves [] w = w"
| "saves ((E, snap) # rounds) w = saves rounds (snd (snd (Save E snap w)))"

text \<open>The saves of one session, each with the conversation of the one before and more.\<close>

definition save_ok :: "string \<Rightarrow> save_env \<times> SessSnapshot \<Rightarrow> bool" where
  "save_ok i = (\<lambda>(E, snap). all_work E \<and> mv_ID (sn_Metadata snap) = i \<and> \<not> sn_OmitMessageWrites snap
     \<and> list_all savable (sn_Messages snap) \<and> distinct (List.map ID (sn_Messages snap)))"

fun growing :: "Message list \<Rightarrow> (save_env \<times> SessSnapshot) list \<Rightarrow> bool" where
  "growing msgs [] = True"
| "growing msgs ((E, snap) # rounds) =
     (take (length msgs) (sn_Messages snap) = msgs \<and> growing (sn_Messages snap) rounds)"

lemma messages_to_nodes_append:
  "messages_to_nodes new_id cwd t b nodes (xs @ ys)
     = messages_to_nodes new_id cwd t b (messages_to_nodes new_id cwd t b nodes xs) ys"
  by (induction xs arbitrary: nodes) simp_all

lemma visible_core_take:
  assumes "list_all savable (sn_Messages snap)" "take (length xs) (sn_Messages snap) = xs"
    and "xs = sn_Messages snap0"
  shows "\<exists>m. visible_core snap0 = take m (visible_core snap)"
proof -
  obtain ys where ys: "sn_Messages snap = xs @ ys" using assms(2) by (metis append_take_drop_id)
  have "list_all savable ys" using assms(1) ys by simp
  then obtain ns where "messages_to_nodes (\<lambda>_. []) [] 0 [] (messages_to_nodes (\<lambda>_. []) [] 0 [] [] xs) ys
      = messages_to_nodes (\<lambda>_. []) [] 0 [] [] xs @ ns"
    using messages_to_nodes_for by blast
  then have "visible_core snap = visible_core snap0 @ List.map core ns"
    using ys assms(3) by (simp add: visible_core_def messagesToNodes_def messages_to_nodes_append)
  then show ?thesis by (intro exI [of _ "length (visible_core snap0)"]) simp
qed

lemma saves_session:
  assumes "rounds \<noteq> []" "list_all (save_ok i) rounds" "growing msgs rounds" "i \<noteq> []"
    and "continues w i (snd (hd rounds))"
  shows "\<exists>rs st. session (saves rounds w) i rs
    \<and> List.map core (nodes_of rs) = visible_core (snd (last rounds))
    \<and> (\<exists>s. state_of rs = saved_state (normalized (fst (last rounds)) s (snd (last rounds))))
    \<and> sd_blobs (snd (saves rounds w)) = sd_blobs (snd w)
    \<and> gm_get (td_files (sd_ts (snd (saves rounds w)))) i \<noteq> None"
  using assms
proof (induction rounds arbitrary: w msgs)
  case (Cons round rounds)
  obtain E snap where r: "round = (E, snap)" by (cases round) blast
  have ok: "all_work E" "mv_ID (sn_Metadata snap) = i" "\<not> sn_OmitMessageWrites snap"
      "list_all savable (sn_Messages snap)" "distinct (List.map ID (sn_Messages snap))"
    using Cons.prems(2) r by (simp_all add: save_ok_def)
  have c: "continues w i snap" using Cons.prems(5) r by simp
  obtain w' rs where w': "Save E snap w = (None, normalized E (fst w) snap, w')" "session w' i rs"
      "List.map core (nodes_of rs) = visible_core snap" "state_of rs = saved_state (normalized E (fst w) snap)"
      "gm_get (ss_last (fst w')) i = Some (state_of rs)" "sd_blobs (snd w') = sd_blobs (snd w)"
      "gm_get (td_files (sd_ts (snd w'))) i \<noteq> None"
    using Save_session [OF c ok(1,2) Cons.prems(4) ok(3-5)] by blast
  show ?case
  proof (cases rounds)
    case Nil
    then show ?thesis using w' r by auto
  next
    case (Cons round2 rest)
    obtain E2 snap2 where r2: "round2 = (E2, snap2)" by (cases round2) blast
    have g: "growing (sn_Messages snap) rounds" using Cons.prems(3) r by simp
    have "take (length (sn_Messages snap)) (sn_Messages snap2) = sn_Messages snap" using g Cons r2 by simp
    moreover have "list_all savable (sn_Messages snap2)" using Cons.prems(2) Cons r2 by (simp add: save_ok_def)
    ultimately obtain m where "visible_core snap = take m (visible_core snap2)" using visible_core_take by blast
    then have "continues w' i (snd (hd rounds))" using w'(2,3,5) Cons r2 by (auto simp: continues_def)
    from Cons.IH [OF _ _ g Cons.prems(4) this] show ?thesis
      using Cons.prems(2) Cons r w'(1,6) by simp
  qed
qed simp

lemma continues_new:
  assumes "files_ok (td_files d)" "gm_get (td_files d) i = None"
  shows "continues (NewStoreWithDir dir, \<lparr>sd_ts = d, sd_blobs = bs\<rparr>) i snap"
proof -
  have "store_ok (NewFileStore dir (encodePath dir), d)" using store_ok_new assms(1) .
  then have "session (NewStoreWithDir dir, \<lparr>sd_ts = d, sd_blobs = bs\<rparr>) i []"
    using assms(2) by (simp add: session_def ts_world_def NewStoreWithDir_def history_def boundary_of_def)
  then show ?thesis
    unfolding continues_def by (intro exI [of _ "[]"] exI [of _ 0]) (simp add: nodes_of_def NewStoreWithDir_def gm.get_empty)
qed


subsection \<open>Examples and what they show\<close>

definition demo_meta :: "string \<Rightarrow> MetadataView" where
  "demo_meta tag = \<lparr>mv_ID = ''s1'', mv_Title = ''Files'', mv_LastPrompt = ''list files'', mv_Tag = tag,
     mv_Mode = ''plan'', mv_AutoPilot = [], mv_CreatedAt = 62135596800000000005, mv_UpdatedAt = 0, mv_Provider = [],
     mv_Model = [], mv_Cwd = ''/w'', mv_MessageCount = 0, mv_ParentSessionID = []\<rparr>"

definition demo_save :: save_env where
  "demo_save = \<lparr>sv_now = 62135596800000000009, sv_gitBranch = ''main'', sv_new_session = ''s9'',
     sv_new_message = (\<lambda>_. []), sv_start = fine, sv_append = (\<lambda>_. fine), sv_load = fine, sv_patch = fine,
     sv_flush = fine\<rparr>"

definition demo_snapshot :: "nat \<Rightarrow> string \<Rightarrow> SessSnapshot" where
  "demo_snapshot n tag = \<lparr>sn_Metadata = demo_meta tag, sn_Messages = take n demo_talk, sn_Tasks = [],
     sn_OmitMessageWrites = False\<rparr>"

definition demo_start_world :: sworld where
  "demo_start_world = (NewStoreWithDir ''/p'', \<lparr>sd_ts = no_disk, sd_blobs = gm_empty\<rparr>)"

lemma demo_save_works: "all_work demo_save"
  by (simp add: all_work_def demo_save_def works_def fine_def)


text \<open>
  Deleting a session forgets its file, not the state last written to it: saved again, the fields that
  did not change meanwhile are missing from the new file.
\<close>

definition loaded_tag :: "string + SessSnapshot \<Rightarrow> string" where
  "loaded_tag r = (case r of Inl _ \<Rightarrow> ''?'' | Inr snap \<Rightarrow> mv_Tag (sn_Metadata snap))"

definition loaded_results :: "string + SessSnapshot \<Rightarrow> string list" where
  "loaded_results r = (case r of Inl _ \<Rightarrow> []
     | Inr snap \<Rightarrow> List.map_filter (\<lambda>m. map_option tr_Content (MsgToolResult m)) (sn_Messages snap))"

definition tagged :: "sworld \<Rightarrow> sworld" where
  "tagged w = snd (snd (Save demo_save (demo_snapshot 3 ''x'') w))"

lemma deleted_session_loses_its_state:
  "loaded_tag (Load_session fine ''s1'' (tagged demo_start_world)) = ''x''
   \<and> loaded_tag (Load_session fine ''s1''
       (tagged (snd (Delete_session fine ''s1'' (tagged demo_start_world))))) = []"
  by code_simp

text \<open>
  A fork copies the records of a session but not the files of its tool results, and looks for them
  under its own id: where the source shows the whole result the fork shows the cut text.
\<close>

definition cut_result :: "Message list" where
  "cut_result = [zero_message\<lparr>ID := ''m1'', MsgToolResult := Some \<lparr>tr_ToolCallID = ''c1'', tr_ToolName = [],
     tr_Content = ''cut'' @ persisted_marker ''s1'' @ ''c1]'', tr_IsError = False, tr_HookResponse = GNil,
     tr_Details = NoDetails\<rparr>\<rparr>]"

definition persisted_world :: sworld where
  "persisted_world = snd (PersistToolResult None ''s1'' ''c1'' ''the whole output''
     (snd (snd (Save demo_save \<lparr>sn_Metadata = demo_meta [], sn_Messages = cut_result, sn_Tasks = [],
        sn_OmitMessageWrites = False\<rparr> demo_start_world))))"

lemma fork_loses_the_tool_results:
  "loaded_results (Load_session fine ''s1'' persisted_world) = [''the whole output'']
   \<and> loaded_results (fst (Fork_session fine fine ''s2'' 62135596800000000011 ''s1'' persisted_world))
       = [''cut'' @ persisted_marker ''s1'' @ ''c1]'']"
  by code_simp

text \<open>Two directories with one project id share their sessions.\<close>

lemma project_ids_collide: "encodePath ''/home/a-b'' = encodePath ''/home/a/b''"
  by code_simp

end
