(* ===== verification/Recorder.thy ===== *)
theory Recorder
  imports AgentRun SessionStore
begin

text \<open>
  The recorder (\<open>internal/session/recorder.go\<close>, \<open>setup.go\<close>): the events of a running agent are
  written to the transcript as they happen, so that a session can be resumed from its file.

  The first part models the recorder and the set-up that hands it out; every call of the transcript
  store has its environment, and failures are logged and dropped as in the code.  The second part
  connects the agent with the file: whatever a run of the agent does, its events tell its
  conversation, and the file loads as that conversation.
\<close>

subsection \<open>Data\<close>

record requestState =
  rq_turn :: int
  rq_startedAt :: int
  rq_messageIDs :: "string list"

record Recorder =
  rd_hasStore :: bool
  rd_sessionID :: string
  rd_agentID :: string
  rd_isSidechain :: bool
  rd_turn :: int
  rd_lastRequest :: "requestState option"
  rd_lastMessageID :: string

record RecorderOptions =
  ro_hasStore :: bool
  ro_SessionID :: string
  ro_AgentID :: string
  ro_Provider :: string
  ro_Model :: string
  ro_MaxTokens :: int
  ro_Cwd :: string
  ro_ProjectID :: string
  ro_Sidechain :: bool

record SystemChange =
  sy_Name :: string
  sy_Slot :: int
  sy_Content :: string
  sy_Removed :: bool
  sy_Caller :: string

record ToolSchema =
  sch_Name :: string
  sch_Description :: string
  sch_Parameters :: "gval option"

record ToolsChange =
  tg_Schema :: ToolSchema
  tg_Name :: string
  tg_Removed :: bool
  tg_Caller :: string

text \<open>The events of the agent, and those of its system prompt and its tools.\<close>

datatype agent_event = CoreEvent event | OnSystemChange SystemChange | OnToolsChange ToolsChange

text \<open>
  What one call meets: the transcript store, the clock, the digests that the inference event
  carries, and \<open>json.Marshal\<close> of the parameters of a tool.
\<close>

record rec_env =
  re_ts :: ts_env
  re_now :: int
  re_SystemDigest :: string
  re_ToolsDigest :: string
  re_marshal :: "gval \<Rightarrow> string option"

type_synonym rworld = "Recorder \<times> tworld"

subsection \<open>The recorder\<close>

definition NewRecorder :: "rec_env \<Rightarrow> RecorderOptions \<Rightarrow> tworld \<Rightarrow> rworld" where
  "NewRecorder E opts w =
     (\<lparr>rd_hasStore = ro_hasStore opts, rd_sessionID = ro_SessionID opts, rd_agentID = ro_AgentID opts,
       rd_isSidechain = ro_Sidechain opts, rd_turn = 0, rd_lastRequest = None, rd_lastMessageID = []\<rparr>,
      if ro_hasStore opts \<and> ro_SessionID opts \<noteq> []
      then snd (Start (re_ts E)
             \<lparr>sc_SessionID = ro_SessionID opts, sc_ProjectID = ro_ProjectID opts, sc_Cwd = ro_Cwd opts,
              sc_Provider = ro_Provider opts, sc_Model = ro_Model opts, sc_MaxTokens = ro_MaxTokens opts,
              sc_AgentID = ro_AgentID opts, sc_ParentID = [], sc_Time = re_now E\<rparr> w)
      else w)"

definition seedLastMessageID :: "string \<Rightarrow> Recorder \<Rightarrow> Recorder" where
  "seedLastMessageID i r = (if i = [] then r else r\<lparr>rd_lastMessageID := i\<rparr>)"

definition can_record :: "Recorder \<Rightarrow> bool" where
  "can_record r = (rd_hasStore r \<and> rd_sessionID r \<noteq> [])"

text \<open>A write whose error is logged and dropped.\<close>

definition audit :: "(tworld \<Rightarrow> string option \<times> tworld) \<Rightarrow> rworld \<Rightarrow> rworld" where
  "audit f rw = (case rw of (r, w) \<Rightarrow> (r, if can_record r then snd (f w) else w))"

definition RecordHook :: "rec_env \<Rightarrow> HookRecord \<Rightarrow> rworld \<Rightarrow> rworld" where
  "RecordHook E rec rw = audit (AppendHook (re_ts E) (rd_sessionID (fst rw)) (re_now E) rec) rw"

definition RecordSkillState :: "rec_env \<Rightarrow> SkillRecord \<Rightarrow> rworld \<Rightarrow> rworld" where
  "RecordSkillState E rec rw = audit (AppendSkillState (re_ts E) (rd_sessionID (fst rw)) (re_now E) rec) rw"

definition recordPermission :: "rec_env \<Rightarrow> string \<Rightarrow> PermissionRecord \<Rightarrow> rworld \<Rightarrow> rworld" where
  "recordPermission E ty rec rw = audit (AppendPermission (re_ts E) (rd_sessionID (fst rw)) (re_now E) ty rec) rw"

definition RecordPermissionRequired :: "rec_env \<Rightarrow> PermissionRecord \<Rightarrow> rworld \<Rightarrow> rworld" where
  "RecordPermissionRequired E rec rw = recordPermission E PermissionRequired rec rw"

definition RecordPermissionDecided :: "rec_env \<Rightarrow> PermissionRecord \<Rightarrow> rworld \<Rightarrow> rworld" where
  "RecordPermissionDecided E rec rw = recordPermission E PermissionDecided rec rw"

definition onCompact :: "rec_env \<Rightarrow> CompactInfo \<Rightarrow> rworld \<Rightarrow> rworld" where
  "onCompact E info rw =
     (case rw of (r, w) \<Rightarrow>
       (if ci_SummaryMessageID info = [] then (r, w)
        else (r, snd (Compact (re_ts E) (rd_sessionID r) (re_now E) (ci_SummaryMessageID info) w))))"

definition append_command :: "rec_env \<Rightarrow> Recorder \<Rightarrow> Message \<Rightarrow> AppendMessageCommand" where
  "append_command E r msg =
     \<lparr>am_SessionID = rd_sessionID r, am_MessageID = ID msg, am_ParentID = rd_lastMessageID r,
      am_Time = re_now E, am_GitBranch = [], am_AgentID = rd_agentID r, am_IsSidechain = rd_isSidechain r,
      am_Role = transcriptRole (MsgRole msg), am_Content = MessageToBlocks msg\<rparr>"

definition onAppend :: "rec_env \<Rightarrow> Message \<Rightarrow> rworld \<Rightarrow> rworld" where
  "onAppend E msg rw =
     (case rw of (r, w) \<Rightarrow>
       (if ID msg = [] \<or> MessageToBlocks msg = [] then (r, w)
        else (r\<lparr>rd_lastMessageID := ID msg\<rparr>, snd (AppendMessage (re_ts E) (append_command E r msg) w))))"

definition toolSchemaView :: "rec_env \<Rightarrow> ToolSchema \<Rightarrow> ToolSchemaView" where
  "toolSchemaView E s =
     \<lparr>ts_Name = sch_Name s, ts_Description = sch_Description s,
      ts_Parameters = (case Option.bind (sch_Parameters s) (re_marshal E) of None \<Rightarrow> [] | Some data \<Rightarrow> data)\<rparr>"

definition onToolsChange :: "rec_env \<Rightarrow> ToolsChange \<Rightarrow> rworld \<Rightarrow> rworld" where
  "onToolsChange E c rw =
     (case rw of (r, w) \<Rightarrow>
       (r, snd (AppendTool (re_ts E) (rd_sessionID r) (re_now E)
                  (if tg_Removed c then ToolRemoved else ToolAdded)
                  \<lparr>tl_Schema = (if tg_Removed c then None else Some (toolSchemaView E (tg_Schema c))),
                   tl_Name = (if tg_Removed c then tg_Name c else []), tl_Caller = tg_Caller c\<rparr> w)))"

definition onSystemChange :: "rec_env \<Rightarrow> SystemChange \<Rightarrow> rworld \<Rightarrow> rworld" where
  "onSystemChange E c rw =
     (case rw of (r, w) \<Rightarrow>
       (r, snd (AppendSystemSection (re_ts E) (rd_sessionID r) (re_now E)
                  (if sy_Removed c then SystemSectionRemoved else SystemSectionAdded)
                  \<lparr>ss_Name = sy_Name c, ss_Slot = sy_Slot c, ss_Content = sy_Content c,
                   ss_Caller = sy_Caller c\<rparr> w)))"

definition onPreInfer :: "rec_env \<Rightarrow> string list \<Rightarrow> rworld \<Rightarrow> rworld" where
  "onPreInfer E ids rw =
     (case rw of (r, w) \<Rightarrow>
       (let turn = wrap64 (rd_turn r + 1)
        in (r\<lparr>rd_turn := turn, rd_lastRequest :=
                Some \<lparr>rq_turn = turn, rq_startedAt = re_now E, rq_messageIDs = ids\<rparr>\<rparr>,
            snd (AppendInference (re_ts E) (rd_sessionID r) (re_now E) InferenceRequested
                   \<lparr>ir_Turn = turn, ir_SystemDigest = re_SystemDigest E, ir_ToolsDigest = re_ToolsDigest E,
                    ir_MessageIDs = ids, ir_StopReason = [], ir_LatencyMs = 0, ir_Usage = None\<rparr> w))))"

definition stop_string :: "StopReason \<Rightarrow> string" where
  "stop_string r =
     (case r of
        StopEndTurn \<Rightarrow> ''end_turn'' | StopMaxTokens \<Rightarrow> ''max_tokens'' | StopToolUse \<Rightarrow> ''tool_use''
      | StopMaxSteps \<Rightarrow> ''max_steps'' | StopCancelled \<Rightarrow> ''cancelled'' | StopHook \<Rightarrow> ''stop_hook''
      | StopMaxOutputRecoveryExhausted \<Rightarrow> ''max_output_recovery_exhausted'' | StopError \<Rightarrow> ''error''
      | OtherStop s \<Rightarrow> s)"

text \<open>\<open>Duration.Milliseconds\<close> truncates towards zero.\<close>

definition milliseconds :: "int \<Rightarrow> int" where
  "milliseconds d = sgn d * (\<bar>d\<bar> div 1000000)"

definition onPostInfer :: "rec_env \<Rightarrow> InferResponse \<Rightarrow> rworld \<Rightarrow> rworld" where
  "onPostInfer E resp rw =
     (case rw of (r, w) \<Rightarrow>
       (let (turn, latency) = (case rd_lastRequest r of
              None \<Rightarrow> (0, 0) | Some q \<Rightarrow> (rq_turn q, milliseconds (re_now E - rq_startedAt q)))
        in (r\<lparr>rd_lastRequest := None\<rparr>,
            snd (AppendInference (re_ts E) (rd_sessionID r) (re_now E) InferenceResponded
                   \<lparr>ir_Turn = turn, ir_SystemDigest = [], ir_ToolsDigest = [], ir_MessageIDs = [],
                    ir_StopReason = stop_string (r_StopReason resp), ir_LatencyMs = latency,
                    ir_Usage = Some \<lparr>iu_PromptTokens = r_InputTokens resp + r_CacheReadTokens resp,
                                     iu_CompletionTokens = r_OutputTokens resp\<rparr>\<rparr> w))))"

definition OnAgentEvent :: "rec_env \<Rightarrow> agent_event \<Rightarrow> rworld \<Rightarrow> rworld" where
  "OnAgentEvent E ev rw =
     (if \<not> can_record (fst rw) then rw
      else case ev of
             CoreEvent e \<Rightarrow>
               (case e of
                  EvPreInfer ids \<Rightarrow> onPreInfer E ids rw
                | EvPostInfer resp \<Rightarrow> onPostInfer E resp rw
                | EvAppend msg \<Rightarrow> onAppend E msg rw
                | EvCompact info \<Rightarrow> onCompact E info rw
                | _ \<Rightarrow> rw)
           | OnSystemChange c \<Rightarrow> onSystemChange E c rw
           | OnToolsChange c \<Rightarrow> onToolsChange E c rw)"

fun record_events :: "(rec_env \<times> agent_event) list \<Rightarrow> rworld \<Rightarrow> rworld" where
  "record_events [] rw = rw"
| "record_events ((E, ev) # evs) rw = record_events evs (OnAgentEvent E ev rw)"

subsection \<open>The set-up\<close>

record Setup =
  su_Store :: "SessStore option"
  su_SessionID :: string
  su_recorder :: "Recorder option"

text \<open>The recorder of the current session, if one was handed out.\<close>

definition current_recorder :: "Setup \<Rightarrow> Recorder option" where
  "current_recorder s =
     (case su_recorder s of
        Some r \<Rightarrow> (if rd_sessionID r = su_SessionID s then Some r else None)
      | None \<Rightarrow> None)"

definition EnsureStore :: "string + SessStore \<Rightarrow> Setup \<Rightarrow> string option \<times> Setup" where
  "EnsureStore made s =
     (case su_Store s of
        Some _ \<Rightarrow> (None, s)
      | None \<Rightarrow> (case made of Inl e \<Rightarrow> (Some e, s) | Inr st \<Rightarrow> (None, s\<lparr>su_Store := Some st\<rparr>)))"

definition SetID :: "string \<Rightarrow> Setup \<Rightarrow> Setup" where
  "SetID i s = s\<lparr>su_SessionID := i\<rparr>"

definition loadLeafIfExists :: "ts_env \<Rightarrow> string \<Rightarrow> sworld \<Rightarrow> string \<times> sworld" where
  "loadLeafIfExists E i w =
     (if i = [] then ([], w)
      else case on_ts (LastMessageID E i) w of (Inl _, w) \<Rightarrow> ([], w) | (Inr leaf, w) \<Rightarrow> (leaf, w))"

definition recorder_options :: "SessStore \<Rightarrow> string \<Rightarrow> string \<Rightarrow> string \<Rightarrow> string \<Rightarrow> int \<Rightarrow> bool \<Rightarrow> RecorderOptions" where
  "recorder_options st i agentID provider model maxTokens sidechain =
     \<lparr>ro_hasStore = True, ro_SessionID = i, ro_AgentID = agentID, ro_Provider = provider, ro_Model = model,
      ro_MaxTokens = maxTokens, ro_Cwd = ss_cwd st, ro_ProjectID = ss_projectID st, ro_Sidechain = sidechain\<rparr>"

definition Setup_NewRecorder :: "ts_env \<Rightarrow> rec_env \<Rightarrow> string \<Rightarrow> string \<Rightarrow> string \<Rightarrow> int \<Rightarrow> Setup \<times> sdisk
    \<Rightarrow> Recorder option \<times> Setup \<times> sdisk" where
  "Setup_NewRecorder E0 E agentID provider model maxTokens sd =
     (case sd of (s, d) \<Rightarrow>
       (case su_Store s of
          None \<Rightarrow> (None, s, d)
        | Some st \<Rightarrow>
            (case current_recorder s of
               Some r \<Rightarrow> (Some r, s, d)
             | None \<Rightarrow>
                 (if su_SessionID s = [] then (None, s, d)
                  else (let (leaf, w) = loadLeafIfExists E0 (su_SessionID s) (st, d);
                            (r, t) = NewRecorder E
                              (recorder_options st (su_SessionID s) agentID provider model maxTokens False)
                              (ts_world w);
                            r = seedLastMessageID leaf r; (st, d) = put_ts t w
                        in (Some r, s\<lparr>su_Store := Some st, su_recorder := Some r\<rparr>, d))))))"

definition NewSidechainRecorder :: "rec_env \<Rightarrow> string \<Rightarrow> string \<Rightarrow> string \<Rightarrow> int \<Rightarrow> Setup \<times> sdisk
    \<Rightarrow> Recorder option \<times> Setup \<times> sdisk" where
  "NewSidechainRecorder E agentID provider model maxTokens sd =
     (case sd of (s, d) \<Rightarrow>
       (case su_Store s of
          None \<Rightarrow> (None, s, d)
        | Some st \<Rightarrow>
            (if su_SessionID s = [] then (None, s, d)
             else (let i = su_SessionID s @ ''.'' @ agentID @ ''.''
                             @ int_str (unix_nano (re_now E) div 1000000000);
                       (r, t) = NewRecorder E (recorder_options st i agentID provider model maxTokens True)
                                  (ts_world (st, d));
                       (st, d) = put_ts t (st, d)
                   in (Some r, s\<lparr>su_Store := Some st\<rparr>, d)))))"

text \<open>The service of the set-up: every call asks the store, if there is one.\<close>

definition with_store :: "string \<Rightarrow> (sworld \<Rightarrow> (string + 'a) \<times> sworld) \<Rightarrow> Setup \<times> sdisk \<Rightarrow> (string + 'a) \<times> Setup \<times> sdisk" where
  "with_store missing f sd =
     (case su_Store (fst sd) of
        None \<Rightarrow> (Inl missing, sd)
      | Some st \<Rightarrow>
          (case f (st, snd sd) of (x, st', d) \<Rightarrow> (x, (fst sd)\<lparr>su_Store := Some st'\<rparr>, d)))"

definition not_ready :: string where
  "not_ready = ''session store not initialized''"

definition as_result :: "'a \<Rightarrow> string option \<Rightarrow> string + 'a" where
  "as_result x e = (case e of Some e \<Rightarrow> Inl e | None \<Rightarrow> Inr x)"

definition TranscriptPath :: "Setup \<Rightarrow> string" where
  "TranscriptPath s = (case su_Store s of None \<Rightarrow> [] | Some st \<Rightarrow> SessionPath st (su_SessionID s))"

definition Setup_Save :: "save_env \<Rightarrow> SessSnapshot \<Rightarrow> Setup \<times> sdisk \<Rightarrow> (string + SessSnapshot) \<times> Setup \<times> sdisk" where
  "Setup_Save E snap = with_store not_ready (\<lambda>w. case Save E snap w of (e, snap, w) \<Rightarrow> (as_result snap e, w))"

definition Setup_FlushIndex :: "ts_env \<Rightarrow> Setup \<times> sdisk \<Rightarrow> (string + unit) \<times> Setup \<times> sdisk" where
  "Setup_FlushIndex E sd =
     (case su_Store (fst sd) of
        None \<Rightarrow> (Inr (), sd)
      | Some _ \<Rightarrow> with_store not_ready (\<lambda>w. case Flush_session E w of (e, w) \<Rightarrow> (as_result () e, w)) sd)"

definition Setup_Load :: "ts_env \<Rightarrow> string \<Rightarrow> Setup \<times> sdisk \<Rightarrow> (string + SessSnapshot) \<times> Setup \<times> sdisk" where
  "Setup_Load E i = with_store not_ready (\<lambda>w. (Load_session E i w, w))"

definition LoadLatest :: "ts_env \<Rightarrow> ts_env \<Rightarrow> Setup \<times> sdisk \<Rightarrow> (string + SessSnapshot) \<times> Setup \<times> sdisk" where
  "LoadLatest E E' = with_store not_ready (GetLatest E E')"

definition Setup_Fork :: "ts_env \<Rightarrow> ts_env \<Rightarrow> string \<Rightarrow> int \<Rightarrow> string \<Rightarrow> Setup \<times> sdisk \<Rightarrow> (string + SessSnapshot) \<times> Setup \<times> sdisk" where
  "Setup_Fork E E' new t i = with_store not_ready (Fork_session E E' new t i)"

subsection \<open>The events of an agent tell its conversation\<close>

text \<open>The conversation that a list of events tells: appended messages, from the last summary on.\<close>

fun evolve :: "event \<Rightarrow> Message list \<Rightarrow> Message list" where
  "evolve (EvAppend m) ms = ms @ [m]"
| "evolve (EvCompact info) ms = dropWhile (\<lambda>m. ID m \<noteq> ci_SummaryMessageID info) ms"
| "evolve _ ms = ms"

definition conversation :: "event list \<Rightarrow> Message list" where
  "conversation evs = fold evolve evs []"

definition appended :: "event list \<Rightarrow> Message list" where
  "appended evs = List.map_filter (\<lambda>e. case e of EvAppend m \<Rightarrow> Some m | _ \<Rightarrow> None) evs"

text \<open>The messages that leave a record.\<close>

definition recordable :: "Message \<Rightarrow> bool" where
  "recordable m = (MessageToBlocks m \<noteq> [])"

text \<open>A compaction names the message appended last, and that message leaves a record.\<close>

fun compactions_from :: "Message list \<Rightarrow> event list \<Rightarrow> bool" where
  "compactions_from ms [] = True"
| "compactions_from ms (e # es) =
     (case e of
        EvAppend m \<Rightarrow> compactions_from (ms @ [m]) es
      | EvCompact info \<Rightarrow> ms \<noteq> [] \<and> ID (last ms) = ci_SummaryMessageID info \<and> recordable (last ms)
          \<and> compactions_from ms es
      | _ \<Rightarrow> compactions_from ms es)"

definition compactions_ok :: "event list \<Rightarrow> bool" where
  "compactions_ok evs = compactions_from [] evs"

definition quiet :: "event \<Rightarrow> bool" where
  "quiet e = (case e of EvAppend _ \<Rightarrow> False | EvCompact _ \<Rightarrow> False | _ \<Rightarrow> True)"

definition in_step :: "'w agent \<Rightarrow> bool" where
  "in_step a \<longleftrightarrow> compactions_ok (events a)
     \<and> (distinct (List.map ID (appended (events a))) \<longrightarrow> conversation (events a) = messages a)"

lemma appended_snoc [simp]:
  "appended [] = []"
  "appended (evs @ [e]) = appended evs @ (case e of EvAppend m \<Rightarrow> [m] | _ \<Rightarrow> [])"
  by (simp_all add: appended_def map_filter_def split: event.split)

lemma conversation_snoc [simp]:
  "conversation [] = []" "conversation (evs @ [e]) = evolve e (conversation evs)"
  by (simp_all add: conversation_def)

lemma appended_Cons: "appended (e # es) = (case e of EvAppend m \<Rightarrow> [m] | _ \<Rightarrow> []) @ appended es"
  by (simp add: appended_def map_filter_def split: event.split)

lemma compactions_from_snoc:
  "compactions_from ms (es @ [e]) \<longleftrightarrow> compactions_from ms es \<and> (\<forall>info. e = EvCompact info \<longrightarrow>
     ms @ appended es \<noteq> [] \<and> ID (last (ms @ appended es)) = ci_SummaryMessageID info
     \<and> recordable (last (ms @ appended es)))"
proof (induction es arbitrary: ms)
  case Nil
  then show ?case by (cases e) auto
next
  case (Cons x es)
  then show ?case by (cases x) (auto simp: appended_Cons)
qed

lemma compactions_ok_snoc [simp]:
  "compactions_ok []"
  "compactions_ok (evs @ [e]) \<longleftrightarrow> compactions_ok evs \<and> (\<forall>info. e = EvCompact info \<longrightarrow>
     appended evs \<noteq> [] \<and> ID (last (appended evs)) = ci_SummaryMessageID info \<and> recordable (last (appended evs)))"
  by (simp_all add: compactions_ok_def compactions_from_snoc)

lemma conversation_appended: "set (conversation evs) \<subseteq> set (appended evs)"
proof (induction evs rule: rev_induct)
  case (snoc e evs)
  then show ?case by (cases e) (auto dest: set_dropWhileD)
qed simp

lemma in_step_cong: "events a' = events a \<Longrightarrow> messages a' = messages a \<Longrightarrow> in_step a' = in_step a"
  by (simp add: in_step_def)

lemma in_step_update [simp]:
  "in_step (a\<lparr>world := w\<rparr>) = in_step a" "in_step (a\<lparr>lastTotalInputTokens := n\<rparr>) = in_step a"
  by (simp_all add: in_step_def)

lemma in_step_ask [simp]: "in_step (snd (ask f a)) = in_step a"
  by (simp add: ask_def split_def Let_def)

lemma in_step_emit [simp]: "quiet e \<Longrightarrow> in_step (emit e a) = in_step a"
  by (cases e) (simp_all add: quiet_def in_step_def emit_def)

lemma quiet_simps [simp]:
  "quiet EvStart" "quiet (EvStop x)" "quiet (EvMessage m)" "quiet (EvPreInfer ids)" "quiet (EvPostInfer r)"
  "quiet (EvChunk c)" "quiet EvStreamReset" "quiet (EvPreTool tc)" "quiet (EvPostTool tr)"
  "quiet (EvCompactStart n)" "quiet (EvTurn t)"
  by (simp_all add: quiet_def)

lemma in_step_append: "in_step a \<Longrightarrow> in_step (emit (EvAppend m) (a\<lparr>messages := messages a @ [m]\<rparr>))"
  by (auto simp: in_step_def emit_def)

lemma in_step_append_msg: "in_step a \<Longrightarrow> in_step (append_msg E m a)"
  using in_step_append [of "snd (ask (NewMessageID E) a)" "m\<lparr>ID := fst (ask (NewMessageID E) a)\<rparr>"]
  by (simp add: append_msg_def Let_def split_def in_step_append del: ask_simps)

lemma summary_recordable: "recordable ((UserMessage (FormatCompactSummary summary) [])\<lparr>ID := i\<rparr>)"
proof -
  let ?t = "FormatCompactSummary summary"
  have "?t \<noteq> []" by (simp add: FormatCompactSummary_def CompactSummaryPrefix_def)
  then have "splitTextBySource ?t \<noteq> []" using source_segments_text [of True ?t] by (auto simp: splitTextBySource_def)
  then show ?thesis
    by (simp add: recordable_def MessageToBlocks_def UserMessage_def userContentToBlocks_def)
qed

lemma in_step_applyCompaction:
  assumes "in_step a"
  shows "in_step (applyCompaction E summary n trigger a)"
proof -
  obtain i b where b: "ask (NewMessageID E) a = (i, b)" using prod.exhaust by blast
  then have "in_step b" using assms in_step_ask [of "NewMessageID E" a] by simp
  let ?m = "(UserMessage (FormatCompactSummary summary) [])\<lparr>ID := i\<rparr>"
  have "conversation (events b @ [EvAppend ?m, EvCompact info]) = [?m]"
    if "distinct (List.map ID (appended (events b) @ [?m]))" "ci_SummaryMessageID info = i" for info
  proof -
    have "\<forall>x \<in> set (conversation (events b)). ID x \<noteq> i"
      using that(1) conversation_appended [of "events b"] by (auto simp: image_iff)
    then show ?thesis
      using that(2) conversation_snoc(2) [of "events b @ [EvAppend ?m]" "EvCompact info"]
      by (simp add: dropWhile_append2)
  qed
  then show ?thesis
    using \<open>in_step b\<close> compactions_ok_snoc(2) [of "events b @ [EvAppend ?m]"] summary_recordable
      appended_snoc(2) [of "events b @ [EvAppend ?m]"]
    unfolding applyCompaction_def b Let_def split_def fst_conv snd_conv in_step_def emit_def
    by simp
qed

text \<open>Every part of a turn keeps the agent in step with its events.\<close>

lemma in_step_appendResult: "in_step a \<Longrightarrow> in_step (appendResult E tc c b a)"
  by (simp add: appendResult_def in_step_append_msg)

lemma in_step_compact: "in_step a \<Longrightarrow> in_step (snd (compact E f a))"
  by (auto simp: compact_def Let_def split_def in_step_applyCompaction split: sum.split)

lemma in_step_try_compact: "in_step a \<Longrightarrow> in_step (snd (try_compact E b a))"
  by (auto simp: try_compact_def in_step_compact split: option.split)

lemma in_step_ingest: "in_step a \<Longrightarrow> in_step (snd (ingest E m a))"
  by (auto simp: ingest_def Let_def in_step_applyCompaction in_step_append_msg)

lemma in_step_drainInbox: "in_step a \<Longrightarrow> in_step (snd (drainInbox E a))"
  by (auto simp: drainInbox_def Let_def split_def in_step_ingest split: poll.split)

lemma in_step_stream_loop: "in_step a \<Longrightarrow> in_step (snd (stream_loop es r a))"
  by (induction es r a rule: stream_loop.induct) (auto split: option.splits)

lemma in_step_streamInfer: "in_step a \<Longrightarrow> in_step (snd (streamInfer E a))"
  by (auto simp: streamInfer_def Let_def split_def in_step_stream_loop split: sum.split)

lemma in_step_executeToolTask: "in_step a \<Longrightarrow> in_step (snd (executeToolTask E tc a))"
  by (auto simp: executeToolTask_def Let_def split_def split: tool_run.split)

lemma in_step_resolve_tools: "in_step a \<Longrightarrow> in_step (snd (resolve_tools E tcs ts a))"
  by (induction tcs arbitrary: ts a) (auto simp: Let_def split_def in_step_appendResult)

lemma in_step_run_tasks: "in_step a \<Longrightarrow> in_step (snd (run_tasks E ts order rs a))"
  by (induction order arbitrary: rs a)
     (auto simp: Let_def split_def in_step_executeToolTask split: option.split)

lemma in_step_run_batch: "in_step a \<Longrightarrow> in_step (snd (run_batch E ts a))"
  by (auto simp: run_batch_def Let_def split_def in_step_executeToolTask in_step_run_tasks split: list.split)

lemma in_step_record_results: "in_step a \<Longrightarrow> in_step (snd (record_results E rs n a))"
  by (induction rs arbitrary: n a) (auto simp: Let_def split_def in_step_appendResult)

lemma in_step_execTools: "in_step a \<Longrightarrow> in_step (snd (execTools E tcs a))"
  by (simp add: execTools_def Let_def split_def in_step_record_results in_step_run_batch in_step_resolve_tools)

lemma in_step_take_response: "in_step a \<Longrightarrow> in_step (take_response E r a)"
  by (simp add: take_response_def in_step_append_msg)

lemmas in_step_parts = in_step_append_msg in_step_applyCompaction in_step_try_compact in_step_ingest
  in_step_drainInbox in_step_streamInfer in_step_execTools in_step_take_response

definition outcome_agent :: "'w outcome \<Rightarrow> 'w agent" where
  "outcome_agent x = (case x of Again t a \<Rightarrow> a | Finish r e a \<Rightarrow> a)"

lemma outcome_agent_simps [simp]: "outcome_agent (Again t a) = a" "outcome_agent (Finish r e a) = a"
  by (simp_all add: outcome_agent_def)

lemma in_step_recover: "in_step a \<Longrightarrow> in_step (outcome_agent (recover_output E p t a))"
  by (simp add: recover_output_def in_step_parts)

lemma in_step_failed: "in_step a \<Longrightarrow> in_step (outcome_agent (infer_failed E e t a))"
  by (auto simp: infer_failed_def Let_def split_def in_step_parts split: option.split)

lemma in_step_succeeded: "in_step a \<Longrightarrow> in_step (outcome_agent (infer_succeeded E r t a))"
  by (auto simp: infer_succeeded_def Let_def split_def in_step_parts intro!: in_step_recover)

lemma in_step_infer: "in_step a \<Longrightarrow> in_step (outcome_agent (infer_step E t a))"
  by (auto simp: infer_step_def Let_def split_def in_step_parts split: sum.split
      intro!: in_step_failed in_step_succeeded)

lemma in_step_turn_step: "in_step a \<Longrightarrow> in_step (outcome_agent (turn_step E t a))"
  by (auto simp: turn_step_def Let_def split_def in_step_parts split: option.split sum.split
      intro!: in_step_infer)

lemma in_step_turn_loop: "turn_loop n E t a = Some (r, a') \<Longrightarrow> in_step a \<Longrightarrow> in_step a'"
proof (induction n arbitrary: t a)
  case (Suc n)
  have "in_step (outcome_agent (turn_step E t a))" using Suc.prems(2) in_step_turn_step by blast
  then show ?case using Suc by (cases "turn_step E t a") auto
qed simp

lemma in_step_ThinkAct: "ThinkAct n E a = Some (r, a') \<Longrightarrow> in_step a \<Longrightarrow> in_step a'"
  by (auto simp: ThinkAct_def dest: in_step_turn_loop)

text \<open>And so does the main loop.\<close>

lemma in_step_clear [simp]: "in_step (clear_latch R a) = in_step a"
  by (simp add: clear_latch_def)

lemma in_step_ingestBatch: "ingestBatch n R m b a = Some (x, a') \<Longrightarrow> in_step a \<Longrightarrow> in_step a'"
proof (induction n arbitrary: m b a)
  case (Suc n)
  show ?case
  proof (cases m)
    case (Some msg)
    let ?a = "snd (ask (poll_inbox (tenv R)) (snd (ingest (tenv R) msg a)))"
    have "in_step ?a" using Suc.prems(2) in_step_ingest by simp
    then show ?thesis
      using Suc.prems Suc.IH Some by (auto simp: Let_def split_def split: if_splits poll.splits)
  qed (use Suc.prems in auto)
qed simp

lemma in_step_waitForInput: "waitForInput n R a = Some (x, a') \<Longrightarrow> in_step a \<Longrightarrow> in_step a'"
proof (induction n arbitrary: a)
  case (Suc n)
  have "in_step (snd (ask (block_inbox R) a))" using Suc.prems(2) by simp
  then show ?case
    using Suc.prems Suc.IH
    by (auto simp: Let_def split_def split: wake.splits option.splits sum.splits if_splits
        dest: in_step_ingestBatch)
qed simp

lemma in_step_report: "in_step a \<Longrightarrow> in_step (report_turn r a)"
  by (simp add: report_turn_def split: option.split)

fun phase_agent :: "'w next_phase \<Rightarrow> 'w agent" where
  "phase_agent (Wait a) = a"
| "phase_agent (RunTurn a) = a"
| "phase_agent (Stop e a) = a"

lemma in_step_after_turn: "in_step a \<Longrightarrow> in_step (phase_agent (after_turn R r e a))"
  by (auto simp: after_turn_def Let_def split_def in_step_report in_step_drainInbox split: option.split sum.split)

lemma in_step_inner_pass: "inner_pass n R a = Some ph \<Longrightarrow> in_step a \<Longrightarrow> in_step (phase_agent ph)"
  by (auto simp: inner_pass_def runOneTurn_def Let_def split_def intro!: in_step_after_turn
      split: if_splits dest: in_step_ThinkAct)

lemma in_step_run_loop: "run_loop n fuel R b a = Some (x, a') \<Longrightarrow> in_step a \<Longrightarrow> in_step a'"
proof (induction n fuel R b a rule: run_loop.induct)
  case (2 n fuel R a)
  then show ?case
    by (auto split: option.splits dest: in_step_waitForInput)
next
  case (3 n fuel R a)
  then show ?case
    by (auto split: option.splits next_phase.splits dest: in_step_inner_pass)
qed simp

lemma in_step_Run:
  assumes "Run n fuel R a = Some (e, a')" "events a = []" "messages a = []"
  shows "in_step a'"
proof -
  have "in_step a" using assms(2,3) by (simp add: in_step_def)
  then have "in_step (emit EvStart a)" by simp
  then show ?thesis using assms(1) by (auto simp: Run_def split: option.splits dest: in_step_run_loop)
qed

subsection \<open>The events of an agent as a file\<close>

text \<open>The id of the last summary.\<close>

definition summary_id :: "event list \<Rightarrow> string" where
  "summary_id evs = fold (\<lambda>e b. case e of EvCompact info \<Rightarrow> ci_SummaryMessageID info | _ \<Rightarrow> b) evs []"

lemma summary_id_snoc [simp]:
  "summary_id [] = []"
  "summary_id (evs @ [e]) = (case e of EvCompact info \<Rightarrow> ci_SummaryMessageID info | _ \<Rightarrow> summary_id evs)"
  by (simp_all add: summary_id_def cong: event.case_cong)

lemma dropWhile_to_last:
  "distinct (List.map f xs) \<Longrightarrow> xs \<noteq> [] \<Longrightarrow> dropWhile (\<lambda>x. f x \<noteq> f (last xs)) xs = [last xs]"
proof (induction xs rule: rev_induct)
  case (snoc x xs)
  then have "\<forall>y \<in> set xs. f y \<noteq> f x" by (auto simp: image_iff)
  then show ?case by (simp add: dropWhile_append2)
qed simp

lemma last_dropWhile: "dropWhile P xs \<noteq> [] \<Longrightarrow> last (dropWhile P xs) = last xs"
  by (induction xs) (auto split: if_splits)

lemma dropWhile_filter:
  assumes "\<forall>x \<in> set xs. f x = b \<longrightarrow> P x"
  shows "dropWhile (\<lambda>x. f x \<noteq> b) (List.filter P xs) = List.filter P (dropWhile (\<lambda>x. f x \<noteq> b) xs)"
  using assms by (induction xs) auto

lemma conversation_from_summary:
  assumes "compactions_ok evs" "distinct (List.map ID (appended evs))" "[] \<notin> ID ` set (appended evs)"
  shows "conversation evs = (if summary_id evs = [] then appended evs
            else dropWhile (\<lambda>m. ID m \<noteq> summary_id evs) (appended evs))
         \<and> (summary_id evs \<noteq> [] \<longrightarrow> (\<exists>m \<in> set (appended evs). ID m = summary_id evs \<and> recordable m))"
  using assms
proof (induction evs rule: rev_induct)
  case (snoc e evs)
  have pre: "compactions_ok evs" "distinct (List.map ID (appended evs))" "[] \<notin> ID ` set (appended evs)"
    using snoc.prems by auto
  have IH: "conversation evs = (if summary_id evs = [] then appended evs
            else dropWhile (\<lambda>m. ID m \<noteq> summary_id evs) (appended evs))"
      "summary_id evs \<noteq> [] \<longrightarrow> (\<exists>m \<in> set (appended evs). ID m = summary_id evs \<and> recordable m)"
    using snoc.IH [OF pre] by blast+
  show ?case
  proof (cases e)
    case (EvAppend m)
    then show ?thesis using IH by (auto simp: dropWhile_append)
  next
    case (EvCompact info)
    let ?xs = "appended evs" and ?c = "conversation evs"
    have last: "?xs \<noteq> []" "ID (last ?xs) = ci_SummaryMessageID info" "recordable (last ?xs)"
      using snoc.prems(1) EvCompact by auto
    have d: "distinct (List.map ID ?xs)" using snoc.prems(2) EvCompact by simp
    have c: "?c \<noteq> []" "distinct (List.map ID ?c)"
      using IH last(1) d distinct_dropWhile [of "List.map ID ?xs" "\<lambda>i. i \<noteq> summary_id evs"]
      by (auto simp: dropWhile_map comp_def)
    have "last ?c = last ?xs" using IH(1) c(1) last_dropWhile by metis
    then have c': "dropWhile (\<lambda>m. ID m \<noteq> ID (last ?xs)) ?c = [last ?xs]"
      using dropWhile_to_last [OF c(2,1)] by simp
    have "ID (last ?xs) \<noteq> []" using snoc.prems(3) EvCompact last_in_set [OF last(1)] by force
    then show ?thesis
      using EvCompact last c' dropWhile_to_last [OF d last(1)] snoc.prems(3)
      by (auto intro!: bexI [of _ "last ?xs"])
  qed (use IH in simp_all)
qed simp

text \<open>What one recorded event does to the files.\<close>

lemma append_audit_files:
  assumes "works E"
  shows "td_files (snd (snd (append_audit E i True what r sync w))) = td_files (written i r (snd w))"
  using assms by (simp add: append_audit_def works_def appendRecord_works [OF assms])

lemma Compact_files:
  assumes "works E"
  shows "td_files (snd (snd (Compact E i t summary w))) = td_files (written i (compact_record i t summary) (snd w))"
  using assms by (simp add: Compact_def works_def appendRecord_works [OF assms])

lemma project_record_total:
  assumes "rc_Type r \<noteq> SessionStatePatched" "rc_Type r = MessageAppended \<Longrightarrow> rc_Message r \<noteq> None"
  shows "\<exists>p'. project_record r p = Inr p'"
  using assms by (auto simp: project_record_def Let_def buildNode_def split: option.split)

text \<open>
  The file of a session after some events: its messages are those that leave a record, each chained
  to the one before, and its boundary is the last summary.
\<close>

definition tells :: "event list \<Rightarrow> Record list \<Rightarrow> bool" where
  "tells evs rs \<longleftrightarrow> (\<exists>p. project_records rs start_projection = Inr p)
     \<and> list_all2 node_for (List.filter recordable (appended evs)) (nodes_of rs)
     \<and> linked (nodes_of rs) \<and> (nodes_of rs \<noteq> [] \<longrightarrow> nd_ParentID (hd (nodes_of rs)) = [])
     \<and> boundary_of rs = summary_id evs"

definition last_id :: "Record list \<Rightarrow> string" where
  "last_id rs = (if nodes_of rs = [] then [] else nd_ID (last (nodes_of rs)))"

definition recorded :: "string \<Rightarrow> event list \<Rightarrow> rworld \<Rightarrow> bool" where
  "recorded i evs rw \<longleftrightarrow> can_record (fst rw) \<and> rd_sessionID (fst rw) = i \<and> store_ok (snd rw)
     \<and> gm_get (td_files (snd (snd rw))) i \<noteq> None
     \<and> (\<exists>rs. history (snd (snd rw)) i rs \<and> tells evs rs \<and> rd_lastMessageID (fst rw) = last_id rs)"

lemma tells_record:
  assumes "tells evs rs" "neutral r"
    and "evs' = evs \<and> rc_Type r \<noteq> SessionCompacted
         \<or> evs' = evs @ [e] \<and> appended [e] = [] \<and> boundary_step r (summary_id evs) = summary_id (evs @ [e])"
  shows "tells evs' (rs @ [r]) \<and> nodes_of (rs @ [r]) = nodes_of rs"
proof -
  obtain p where p: "project_records rs start_projection = Inr p" using assms(1) by (auto simp: tells_def)
  have t: "rc_Type r \<noteq> MessageAppended" "rc_Type r \<noteq> SessionStatePatched" using assms(2) by (simp_all add: neutral_def)
  obtain p' where "project_record r p = Inr p'" using project_record_total [of r p] t by blast
  then have "project_records (rs @ [r]) start_projection = Inr p'" using p by (simp add: project_records_append)
  moreover have n: "nodes_of (rs @ [r]) = nodes_of rs" using t by (simp add: node_of_def)
  moreover have "appended evs' = appended evs" "boundary_step r (summary_id evs) = summary_id evs'"
    using assms(3) appended_snoc(2) [of "[]" e] by (auto simp: boundary_step_def)
  ultimately show ?thesis using assms(1) by (auto simp: tells_def boundary_of_snoc)
qed

lemma recorded_record:
  assumes "recorded i evs (r, w)" "works E" "neutral rc"
    and "td_files (snd w') = td_files (written i rc (snd w))" "store_ok w'"
    and "can_record r'" "rd_sessionID r' = rd_sessionID r" "rd_lastMessageID r' = rd_lastMessageID r"
    and "evs' = evs \<and> rc_Type rc \<noteq> SessionCompacted
         \<or> evs' = evs @ [e] \<and> appended [e] = [] \<and> boundary_step rc (summary_id evs) = summary_id (evs @ [e])"
  shows "recorded i evs' (r', w')"
proof -
  obtain rs where rs: "history (snd w) i rs" "tells evs rs" "rd_lastMessageID r = last_id rs"
    using assms(1) by (auto simp: recorded_def)
  have "tells evs' (rs @ [rc])" "last_id (rs @ [rc]) = last_id rs"
    using tells_record [OF rs(2) assms(3,9)] by (simp_all add: last_id_def)
  moreover have "history (snd w') i (rs @ [rc])" using history_written [OF rs(1) assms(4)] .
  moreover have "gm_get (td_files (snd w')) i \<noteq> None" using assms(4) by (simp add: written_def gm.get_put)
  ultimately show ?thesis using assms(1,5-8) rs(3) unfolding recorded_def fst_conv snd_conv by metis
qed

lemma recorded_quiet: "quiet e \<Longrightarrow> recorded i evs rw \<Longrightarrow> recorded i (evs @ [e]) rw"
  by (cases e) (simp_all add: quiet_def recorded_def tells_def)

lemma node_ids: "list_all2 node_for ms ns \<Longrightarrow> List.map nd_ID ns = List.map ID ms"
  by (induction ms ns rule: list_all2_induct) (simp_all add: node_for_def)

lemma recorded_append:
  assumes "recorded i evs (r, w)" "works (re_ts E)" "ID m \<noteq> []" "ID m \<notin> ID ` set (appended evs)"
  shows "recorded i (evs @ [EvAppend m]) (onAppend E m (r, w))"
proof (cases "recordable m")
  case False
  then show ?thesis using assms(1) by (simp add: onAppend_def recordable_def recorded_def tells_def)
next
  case True
  obtain rs where rs: "history (snd w) i rs" "tells evs rs" "rd_lastMessageID r = last_id rs"
    and ok: "store_ok w" "can_record r" "rd_sessionID r = i"
    using assms(1) by (auto simp: recorded_def)
  let ?c = "append_command E r m"
  have nodes: "list_all2 node_for (List.filter recordable (appended evs)) (nodes_of rs)" using rs(2) by (simp add: tells_def)
  then have "set (List.map nd_ID (nodes_of rs)) = set (List.map ID (List.filter recordable (appended evs)))"
    using node_ids by metis
  then have "nd_ID ` set (nodes_of rs) \<subseteq> ID ` set (appended evs)" by auto
  then have fresh: "am_MessageID ?c \<notin> set (msg_ids (file_of (snd w) (am_SessionID ?c)))"
    using msg_ids_history [OF rs(1)] assms(4) ok(3) by (auto simp: append_command_def)
  obtain w' b where w': "AppendMessage (re_ts E) ?c w = (None, w')" "store_ok w'"
      "td_files (snd w') = td_files (written i (message_record ?c b) (snd w))"
    using AppendMessage_files [OF ok(1) assms(2), of ?c] fresh ok(3) by (auto simp: append_command_def)
  let ?rc = "message_record ?c b"
  let ?n = "\<lparr>nd_ID = ID m, nd_ParentID = last_id rs, nd_Role = transcriptRole (MsgRole m), nd_Time = re_now E,
      nd_Cwd = [], nd_GitBranch = b, nd_AgentID = rd_agentID r, nd_IsSidechain = rd_isSidechain r,
      nd_Content = MessageToBlocks m\<rparr>"
  have t: "rc_Type ?rc = MessageAppended" "rc_Message ?rc \<noteq> None" "node_of ?rc = [?n]"
    using rs(3) by (simp_all add: message_record_def blank_record_def node_of_def buildNode_def append_command_def)
  obtain p where p: "project_records rs start_projection = Inr p" using rs(2) by (auto simp: tells_def)
  obtain p' where "project_record ?rc p = Inr p'" using project_record_total [of ?rc p] t by auto
  then have "project_records (rs @ [?rc]) start_projection = Inr p'" using p by (simp add: project_records_append)
  moreover have "linked (nodes_of rs @ [?n]) \<and> nd_ParentID (hd (nodes_of rs @ [?n])) = []"
  proof (cases "nodes_of rs" rule: rev_cases)
    case (snoc ns n)
    then show ?thesis using rs(2) linked_snoc [of ns n ?n] by (cases ns) (simp_all add: tells_def last_id_def)
  qed (simp add: last_id_def)
  moreover have "boundary_of (rs @ [?rc]) = summary_id evs"
    using rs(2) t(1) by (simp add: boundary_of_snoc boundary_step_def tells_def)
  moreover have "list_all2 node_for (List.filter recordable (appended evs) @ [m]) (nodes_of rs @ [?n])"
    using nodes by (auto intro!: list_all2_appendI simp: node_for_def)
  ultimately have "tells (evs @ [EvAppend m]) (rs @ [?rc])" using True t(3) by (simp add: tells_def)
  moreover have "history (snd w') i (rs @ [?rc])" using history_written [OF rs(1) w'(3)] .
  moreover have "gm_get (td_files (snd w')) i \<noteq> None" using w'(3) by (simp add: written_def gm.get_put)
  moreover have "last_id (rs @ [?rc]) = ID m" using t(3) by (simp add: last_id_def)
  ultimately show ?thesis using ok w' True assms(3)
    by (auto simp: recorded_def onAppend_def recordable_def can_record_def)
qed

text \<open>The events of the agent among those that the recorder hears.\<close>

definition core_events :: "(rec_env \<times> agent_event) list \<Rightarrow> event list" where
  "core_events ps = List.map_filter (\<lambda>(E, ev). case ev of CoreEvent e \<Rightarrow> Some e | _ \<Rightarrow> None) ps"

lemma core_events_simps [simp]:
  "core_events [] = []" "core_events ((E, CoreEvent e) # ps) = e # core_events ps"
  "core_events ((E, OnSystemChange s) # ps) = core_events ps"
  "core_events ((E, OnToolsChange t) # ps) = core_events ps"
  by (simp_all add: core_events_def map_filter_def)

lemma recorded_audit:
  assumes "recorded i evs (r, w)" "works E" "type_ok" "neutral rc" "rc_Type rc \<noteq> SessionCompacted"
    and "can_record r'" "rd_sessionID r' = rd_sessionID r" "rd_lastMessageID r' = rd_lastMessageID r"
  shows "recorded i evs (r', snd (append_audit E (rd_sessionID r) type_ok what rc sync w))"
proof -
  have i: "rd_sessionID r = i" and ok: "store_ok w" using assms(1) by (simp_all add: recorded_def)
  have "store_ok (snd (append_audit E i type_ok what rc sync w))"
    using append_audit_ok [OF ok works_clean [OF assms(2)]] assms(4) by blast
  then show ?thesis
    using recorded_record [OF assms(1,2,4) _ _ assms(6-8)] append_audit_files [OF assms(2)] assms(3,5)
    unfolding i by simp
qed

lemmas audit_defs = AppendTool_def AppendSystemSection_def AppendInference_def
lemmas typed_simps = neutral_def typed_record_def blank_record_def

lemma recorded_can: "recorded i evs (r, w) \<Longrightarrow> can_record r"
  by (simp add: recorded_def)

lemma recorded_change:
  assumes "recorded i evs (r, w)" "works (re_ts E)"
  shows "recorded i evs (onSystemChange E s (r, w))" "recorded i evs (onToolsChange E t (r, w))"
    "recorded i evs (onPreInfer E ids (r, w))" "recorded i evs (onPostInfer E resp (r, w))"
  unfolding onSystemChange_def onToolsChange_def onPreInfer_def onPostInfer_def prod.case Let_def audit_defs
    split_def fst_conv snd_conv
  by (rule recorded_audit [OF assms]; use recorded_can [OF assms(1)] in \<open>simp add: typed_simps can_record_def\<close>)+

lemma recorded_compact:
  assumes "recorded i evs (r, w)" "works (re_ts E)" "ci_SummaryMessageID info \<noteq> []"
  shows "recorded i (evs @ [EvCompact info]) (onCompact E info (r, w))"
proof -
  have i: "rd_sessionID r = i" "can_record r" and ok: "store_ok w" using assms(1) by (simp_all add: recorded_def)
  let ?r = "compact_record i (re_now E) (ci_SummaryMessageID info)"
  have "neutral ?r" "boundary_step ?r b = ci_SummaryMessageID info" for b
    by (simp_all add: compact_record_def typed_simps boundary_step_def)
  then have "recorded i (evs @ [EvCompact info])
      (r, snd (Compact (re_ts E) i (re_now E) (ci_SummaryMessageID info) w))"
    using i appended_snoc(2) [of "[]" "EvCompact info"]
    by (intro recorded_record [OF assms(1,2) _ Compact_files [OF assms(2)]
          Compact_ok [OF ok works_clean [OF assms(2)]], where e = "EvCompact info"]) simp_all
  then show ?thesis using i assms(3) by (simp add: onCompact_def)
qed

text \<open>Events whose messages have ids of their own.\<close>

definition told_ok :: "event list \<Rightarrow> bool" where
  "told_ok evs \<longleftrightarrow> distinct (List.map ID (appended evs)) \<and> [] \<notin> ID ` set (appended evs) \<and> compactions_ok evs"

lemma told_ok_prefix: "told_ok (xs @ ys) \<Longrightarrow> told_ok xs"
proof (induction ys rule: rev_induct)
  case (snoc y ys)
  have "told_ok ((xs @ ys) @ [y]) \<Longrightarrow> told_ok (xs @ ys)" by (auto simp: told_ok_def simp del: append_assoc)
  then show ?case using snoc by simp
qed simp

lemma recorded_event:
  assumes "recorded i evs rw" "works (re_ts E)" "told_ok (evs @ core_events [(E, ev)])"
  shows "recorded i (evs @ core_events [(E, ev)]) (OnAgentEvent E ev rw)"
proof -
  obtain r w where rw: "rw = (r, w)" by (cases rw) blast
  note rec = assms(1) [unfolded rw] and told = assms(3) [unfolded told_ok_def]
  note change = recorded_change [OF rec assms(2)]
  show ?thesis
  proof (cases ev)
    case (CoreEvent e)
    show ?thesis
    proof (cases e)
      case (EvAppend m)
      then show ?thesis using CoreEvent rw recorded_can [OF rec] recorded_append [OF rec assms(2), of m] told
        by (auto simp: OnAgentEvent_def)
    next
      case (EvCompact info)
      then have "appended evs \<noteq> []" "ci_SummaryMessageID info = ID (last (appended evs))"
        using told CoreEvent by auto
      then have "ci_SummaryMessageID info \<in> ID ` set (appended evs)" using last_in_set by blast
      then have "ci_SummaryMessageID info \<noteq> []" using told CoreEvent EvCompact by auto
      then show ?thesis using CoreEvent EvCompact rw recorded_can [OF rec] recorded_compact [OF rec assms(2)]
        by (simp add: OnAgentEvent_def)
    qed (use CoreEvent rw recorded_can [OF rec] change recorded_quiet rec in \<open>simp_all add: OnAgentEvent_def\<close>)
  qed (use rw recorded_can [OF rec] change in \<open>simp_all add: OnAgentEvent_def\<close>)
qed

lemma core_events_Cons: "core_events (p # ps) = core_events [p] @ core_events ps"
  by (simp add: core_events_def map_filter_def split: option.split)

lemma recorded_events:
  assumes "recorded i evs rw" "list_all (\<lambda>(E, ev). works (re_ts E)) ps" "told_ok (evs @ core_events ps)"
  shows "recorded i (evs @ core_events ps) (record_events ps rw)"
  using assms
proof (induction ps arbitrary: evs rw)
  case (Cons p ps)
  obtain E ev where p: "p = (E, ev)" by (cases p) blast
  have told: "told_ok ((evs @ core_events [p]) @ core_events ps)"
    using Cons.prems(3) core_events_Cons [of p ps] by simp
  have "recorded i (evs @ core_events [p]) (OnAgentEvent E ev rw)"
    using recorded_event [OF Cons.prems(1)] Cons.prems(2) told_ok_prefix [OF told] p by simp
  then show ?case using Cons.IH [OF _ _ told] Cons.prems(2) core_events_Cons [of p ps] p by simp
qed simp

lemma recorded_start:
  assumes "ro_hasStore opts" "ro_SessionID opts = i" "i \<noteq> []" "works (re_ts E)"
    and "files_ok (td_files d)" "gm_get (td_files d) i = None"
  shows "recorded i [] (NewRecorder E opts (NewFileStore base proj, d))"
proof -
  let ?w = "(NewFileStore base proj, d)"
  let ?c = "\<lparr>sc_SessionID = ro_SessionID opts, sc_ProjectID = ro_ProjectID opts, sc_Cwd = ro_Cwd opts,
              sc_Provider = ro_Provider opts, sc_Model = ro_Model opts, sc_MaxTokens = ro_MaxTokens opts,
              sc_AgentID = ro_AgentID opts, sc_ParentID = [], sc_Time = re_now E\<rparr>"
  obtain w' where w': "Start (re_ts E) ?c ?w = (None, w')" "store_ok w'"
      "td_files (snd w') = td_files (written i (start_record ?c) d)"
    using Start_files [OF store_ok_new [OF assms(5), of base proj] assms(4), of ?c] assms(2,6) by auto
  let ?r = "start_record ?c"
  have r: "rc_Type ?r = SessionStarted" by (simp add: start_record_def blank_record_def)
  have "tells [] []" by (simp add: tells_def nodes_of_def boundary_of_def)
  moreover have "neutral ?r" using r by (simp add: neutral_def start_record_def blank_record_def)
  ultimately have t: "tells [] [?r]" "last_id [?r] = []"
    using tells_record [of "[]" "[]" ?r "[]"] r by (simp_all add: last_id_def nodes_of_def)
  have "history d i []" using assms(6) by (simp add: history_def)
  then have "history (snd w') i [?r]" using history_written [OF _ w'(3)] by fastforce
  moreover have "gm_get (td_files (snd w')) i \<noteq> None" using w'(3) by (simp add: written_def gm.get_put)
  ultimately show ?thesis using t w'(1,2) assms(1-3)
    by (auto simp: recorded_def NewRecorder_def can_record_def)
qed

text \<open>Reading it back: a fresh store, whatever it is, on the same files.\<close>

lemma node_drop:
  "list_all2 node_for ms ns \<Longrightarrow>
   list_all2 node_for (dropWhile (\<lambda>m. ID m \<noteq> b) ms) (dropWhile (\<lambda>n. nd_ID n \<noteq> b) ns)"
  by (induction ms ns rule: list_all2_induct) (simp_all add: node_for_def)

lemma recorded_nodes:
  assumes "recorded i evs rw" "told_ok evs" "works E" "i \<noteq> []"
  shows "\<exists>tx. Load_session E i (st, \<lparr>sd_ts = snd (snd rw), sd_blobs = gm_empty\<rparr>)
            = Inr (snapshot_of (st, \<lparr>sd_ts = snd (snd rw), sd_blobs = gm_empty\<rparr>) tx)
    \<and> list_all2 node_for (List.filter recordable (conversation evs)) (tr_Messages tx)"
proof -
  obtain rs where rs: "history (snd (snd rw)) i rs" "tells evs rs" and ex: "gm_get (td_files (snd (snd rw))) i \<noteq> None"
    using assms(1) by (auto simp: recorded_def)
  let ?ms = "List.filter recordable (appended evs)"
  have nodes: "list_all2 node_for ?ms (nodes_of rs)" using rs(2) by (simp add: tells_def)
  note ids = node_ids [OF nodes]
  have d: "distinct (List.map ID (appended evs))" "[] \<notin> ID ` set (appended evs)"
    using assms(2) by (simp_all add: told_ok_def)
  have conv: "conversation evs = (if summary_id evs = [] then appended evs
            else dropWhile (\<lambda>m. ID m \<noteq> summary_id evs) (appended evs))"
      "summary_id evs \<noteq> [] \<longrightarrow> (\<exists>m \<in> set (appended evs). ID m = summary_id evs \<and> recordable m)"
    using conversation_from_summary [of evs] assms(2) by (simp_all add: told_ok_def)
  have set: "nd_ID ` set (nodes_of rs) = ID ` set ?ms" using arg_cong [OF ids, of set] by simp
  then have "[] \<notin> nd_ID ` set (nodes_of rs)" using d(2) by auto
  moreover have "distinct (List.map nd_ID (nodes_of rs))" unfolding ids using d(1) by (rule distinct_map_filter)
  ultimately have lin: "linear (nodes_of rs)" using rs(2) by (auto simp: linear_def tells_def)
  obtain p where p: "project_records rs start_projection = Inr p" using rs(2) by (auto simp: tells_def)
  then obtain tx where tx: "Project rs = Inr tx" by (simp add: Project_def)
  let ?b = "summary_id evs" and ?ns = "tr_Messages tx" and ?w = "(st, \<lparr>sd_ts = snd (snd rw), sd_blobs = gm_empty\<rparr>)"
  have "?ns = from_boundary ?b (nodes_of rs)" using linear_replay [OF tx lin] rs(2) by (simp add: tells_def)
  moreover have "list_all2 node_for (List.filter recordable (conversation evs)) (from_boundary ?b (nodes_of rs))"
  proof (cases "?b = []")
    case True
    then show ?thesis using conv nodes set d(2) by (auto simp: from_boundary_def)
  next
    case False
    then obtain m where m: "m \<in> set (appended evs)" "ID m = ?b" "recordable m" using conv by auto
    have "x = m" if "x \<in> set (appended evs)" "ID x = ?b" for x
      using inj_onD [of ID "set (appended evs)" x m] that m d(1) by (simp add: distinct_map)
    then have "dropWhile (\<lambda>m. ID m \<noteq> ?b) ?ms = List.filter recordable (dropWhile (\<lambda>m. ID m \<noteq> ?b) (appended evs))"
      using m(3) by (intro dropWhile_filter) blast
    moreover have "?b \<in> nd_ID ` set (nodes_of rs)" using m unfolding set by force
    ultimately show ?thesis using conv False node_drop [OF nodes, of ?b] by (simp add: from_boundary_def)
  qed
  moreover have "Load E i (ts_world ?w) = Inr tx"
    using assms(3) rs(1) ex tx
    by (auto simp: Load_def works_def loadRecordsLocked_def ts_world_def history_def all_lines_def load_lines_Good)
  ultimately show ?thesis using assms(4)
    by (intro exI [of _ tx]) (simp add: Load_session_def loadSnapshot_def)
qed


subsection \<open>Examples and what they show\<close>

definition demo_rec :: rec_env where
  "demo_rec = \<lparr>re_ts = fine, re_now = 62135596800000000000, re_SystemDigest = [], re_ToolsDigest = [],
     re_marshal = (\<lambda>_. None)\<rparr>"

definition demo_options :: RecorderOptions where
  "demo_options = \<lparr>ro_hasStore = True, ro_SessionID = ''s1'', ro_AgentID = ''main'', ro_Provider = [],
     ro_Model = [], ro_MaxTokens = 0, ro_Cwd = ''/w'', ro_ProjectID = ''p'', ro_Sidechain = False\<rparr>"

definition heard_by :: "rec_env \<Rightarrow> event list \<Rightarrow> (rec_env \<times> agent_event) list" where
  "heard_by E evs = List.map (\<lambda>e. (E, CoreEvent e)) evs"

lemma core_events_heard [simp]: "core_events (heard_by E evs) = evs"
  by (induction evs) (simp_all add: heard_by_def)

lemma fine_works: "works fine"
  by code_simp

text \<open>The script of the agent's run, from an empty conversation: a tool step, a retry, two answers.\<close>

definition fresh_agent :: "((err + stream_event list) list \<times> nat) agent" where
  "fresh_agent = script_agent\<lparr>messages := []\<rparr>"

lemma fresh_run:
  "case Run 6 6 script_run fresh_agent of
     Some (e, a) \<Rightarrow>
       e = None \<and> length (messages a) = 7 \<and> distinct (List.map ID (appended (events a)))
       \<and> list_all (\<lambda>m. ID m \<noteq> []) (appended (events a)) \<and> list_all savable (List.filter recordable (messages a))
       \<and> call_pairs (List.filter recordable (messages a)) = [(''a'', ''Edit''), (''b'', ''Nope'')]
   | None \<Rightarrow> False"
  by code_simp


text \<open>
  A message that could not be written is still the parent of the next one, so replay ends there and
  loses everything before it.
\<close>

definition said :: "string \<Rightarrow> agent_event" where
  "said i = CoreEvent (EvAppend ((UserMessage ''hello'' [])\<lparr>ID := i\<rparr>))"

definition full_disk :: rec_env where
  "full_disk = demo_rec\<lparr>re_ts := fine\<lparr>te_append := AppendFailed ''no space left on device'' None\<rparr>\<rparr>"

definition loaded_ids :: "string \<Rightarrow> tworld \<Rightarrow> string list" where
  "loaded_ids i w = (case Load_session fine i (NewStoreWithDir ''/b'', \<lparr>sd_ts = snd w, sd_blobs = gm_empty\<rparr>) of
     Inl _ \<Rightarrow> [] | Inr snap \<Rightarrow> List.map ID (sn_Messages snap))"

lemma unwritten_message_cuts_the_history:
  "loaded_ids ''s1'' (snd (record_events [(demo_rec, said ''m1''), (full_disk, said ''m2''), (demo_rec, said ''m3'')]
      (NewRecorder demo_rec demo_options (NewFileStore ''/b'' ''p'', no_disk)))) = [''m3'']"
  by code_simp

text \<open>
  Switching to another session and back hands out a new recorder, whose parent comes from a cache
  that appends do not keep up to date: the next message starts a new root, and the first is lost to
  replay.
\<close>

definition speak_in :: "string \<Rightarrow> string \<Rightarrow> Setup \<times> sdisk \<Rightarrow> Setup \<times> sdisk" where
  "speak_in sid i sd =
     (case Setup_NewRecorder fine demo_rec ''main'' [] [] 0 (SetID sid (fst sd), snd sd) of
        (Some r, s, d) \<Rightarrow>
          (case su_Store s of
             None \<Rightarrow> (s, d)
           | Some st \<Rightarrow>
               (let (r, t) = record_events [(demo_rec, said i)] (r, ts_world (st, d));
                    (st, d) = put_ts t (st, d)
                in (s\<lparr>su_Store := Some st, su_recorder := Some r\<rparr>, d)))
      | (None, s, d) \<Rightarrow> (s, d))"

definition new_setup :: "Setup \<times> sdisk" where
  "new_setup = (\<lparr>su_Store = Some (NewStoreWithDir ''/b''), su_SessionID = [], su_recorder = None\<rparr>,
     \<lparr>sd_ts = no_disk, sd_blobs = gm_empty\<rparr>)"

definition there_and_back :: "Setup \<times> sdisk" where
  "there_and_back = speak_in ''s1'' ''m2'' (speak_in ''s2'' ''x1'' (speak_in ''s1'' ''m1'' new_setup))"

lemma return_to_session_orphans_its_history:
  "loaded_ids ''s1'' (NewFileStore [] [], sd_ts (snd (speak_in ''s1'' ''m2'' (speak_in ''s1'' ''m1'' new_setup))))
     = [''m1'', ''m2'']
   \<and> loaded_ids ''s1'' (NewFileStore [] [], sd_ts (snd there_and_back)) = [''m2'']"
  by code_simp

end
