(* ===== verification/Risk.thy ===== *)
theory Risk
  imports Prelude
begin

text \<open>
  The risk label shown with a shell command that asks for permission
  (\<open>internal/tool/risk/classify.go\<close>): ordered tables of textual rules, the dangerous ones first.
\<close>

subsection \<open>The rules\<close>

datatype Level = LevelLow | LevelMedium | LevelHigh

record Classification =
  cl_Level :: Level
  cl_Reason :: string
  cl_Summary :: string

definition isDelimiter :: "char \<Rightarrow> bool" where
  "isDelimiter c = (byte_of c \<in> {32, 9, 10, 13, 59, 124, 38, 40, 41, 60, 62})"

definition hasWord :: "string \<Rightarrow> string \<Rightarrow> bool" where
  "hasWord s word =
     (if s = [] \<or> word = [] then False
      else case index_of s word of
             None \<Rightarrow> False
           | Some idx \<Rightarrow>
               (let after = idx + length word
                in (idx = 0 \<or> isDelimiter (s ! (idx - 1)))
                   \<and> (length s \<le> after \<or> isDelimiter (s ! after))))"

definition matchAny :: "string \<Rightarrow> string list \<Rightarrow> bool" where
  "matchAny s patterns = list_ex (contains_str s) patterns"

type_synonym rule = "bool \<times> string \<times> string"

text \<open>\<open>if cond { return Classification{level, reason, summary}, true }\<close>, in order.\<close>

fun first_rule :: "Level \<Rightarrow> rule list \<Rightarrow> Classification option" where
  "first_rule l [] = None"
| "first_rule l ((cond, reason, summary) # rules) =
     (if cond then Some \<lparr>cl_Level = l, cl_Reason = reason, cl_Summary = summary\<rparr> else first_rule l rules)"

definition high_rules :: "string \<Rightarrow> rule list" where
  "high_rules lower = [
     (hasWord lower ''sudo'' \<or> has_prefix lower ''sudo '',
      ''Uses sudo or elevated privileges that can modify system files or configurations.'',
      ''Elevated privileges''),
     (matchAny lower [''rm -rf'', ''rm -fr'', ''rm -r -f''] \<or> (has_prefix lower ''rm ''
       \<and> contains_str lower ''-r'' \<and> contains_str lower ''-f''),
      ''Broad or uncertain deletion with rm -rf or similar patterns that can permanently delete files.'',
      ''Destructive deletion''),
     (hasWord lower ''git clean'' \<and> (contains_str lower ''-f'' \<or> contains_str lower ''-fd''
       \<or> contains_str lower ''-df''),
      ''git clean can permanently delete untracked files whose contents and recoverability have not been established.'',
      ''Destructive git clean''),
     (contains_str lower ''find '' \<and> contains_str lower ''-delete'',
      ''find ... -delete may delete files whose recoverability has not been established.'',
      ''Destructive find -delete''),
     (hasWord lower ''git push'' \<and> (contains_str lower ''--force''
       \<or> contains_str lower '' -f ''),
      ''git push --force can overwrite remote repository history.'',
      ''Force push''),
     (hasWord lower ''git push'',
      ''git push publishes commits to a remote where sensitive content may be difficult to fully remove.'',
      ''Push to remote''),
     (matchAny lower [''git reset --hard'', ''git stash drop'', ''git stash clear''],
      ''Discards or overwrites uncommitted or untracked changes, which are irreversibly destroyed.'',
      ''Destructive git operation''),
     ((contains_str lower ''curl '' \<or> contains_str lower ''wget '')
       \<and> (contains_str lower ''bash'' \<or> contains_str lower ''| sh''
       \<or> contains_str lower ''|sh''),
      ''Pipes remote content into a shell, executing untrusted code from the internet.'',
      ''Untrusted code execution''),
     (matchAny lower [''drop database'', ''drop table'', ''truncate table'', ''db reset'',
       ''database reset'', ''sequelize.sync({force:true})''],
      ''Irreversible action to production deployments, database migrations, or sensitive operations.'',
      ''Destructive database operation''),
     (matchAny lower [''deploy '', ''publish '', ''release ''] \<and> matchAny lower [''--prod'',
       ''--production'', ''production''],
      ''Irreversible action to production deployments.'',
      ''Production deployment''),
     (hasWord lower ''dd'',
      ''dd can perform irreversible low-level disk operations.'',
      ''Disk operation''),
     (matchAny lower [''mkfs'', ''fdisk'', ''parted''],
      ''Filesystem formatting or partitioning can destroy all data on the target.'',
      ''Filesystem operation''),
     (contains_str lower ''chmod '' \<and> (contains_str lower ''777'' \<or> contains_str lower ''-r''),
      ''chmod with world-writable (777) or recursive flags can weaken file permissions broadly.'',
      ''Permission weakening''),
     (matchAny lower [''iptables '', ''ufw '', ''firewall-cmd ''],
      ''Modifies firewall rules, potentially allowing external access.'',
      ''Firewall modification''),
     (contains_str lower ''docker volume rm'' \<or> contains_str lower ''docker volume prune'',
      ''Docker volume deletion permanently destroys non-ephemeral development data.'',
      ''Docker volume deletion'')]"

definition medium_rules :: "string \<Rightarrow> rule list" where
  "medium_rules lower = [
     (matchAny lower [''npm install'', ''npm ci'', ''npm i '', ''pip install'', ''pip3 install'',
       ''yarn install'', ''yarn add'', ''pnpm install'', ''bun install'', ''go mod download'',
       ''go get ''],
      ''Installing packages from a trusted source; modifies the project directory.'',
      ''Package install''),
     (matchAny lower [''touch '', ''mkdir '', ''mv '', ''cp '', ''ln -s''],
      ''File or directory creation/modification; bounded, straightforward to reverse.'',
      ''File operation''),
     (matchAny lower [''git add'', ''git commit'', ''git merge'', ''git rebase'', ''git cherry-pick'',
       ''git tag'', ''git stash''],
      ''Git operation that modifies local repository state; reversible with subsequent git commands.'',
      ''Git operation''),
     (matchAny lower [''make '', ''npm run build'', ''npm run '', ''yarn build'', ''go build'',
       ''go test'', ''go vet'', ''gofmt -w'', ''goimports -w'', ''tsc '', ''webpack ''],
      ''Running trusted local or repository scripts and building code; concrete effects do not meet a HIGH risk criterion.'',
      ''Build/script''),
     (matchAny lower [''curl '', ''wget '', ''gh pr '', ''gh issue '']
       \<and> \<not> contains_str lower ''bash'',
      ''Authenticated network request to a known endpoint; uses an existing credential as intended without printing or changing it.'',
      ''Network request''),
     (matchAny lower [''docker run '', ''docker-compose '', ''docker compose ''],
      ''Running trusted local or repository scripts and building code; concrete effects do not meet a HIGH risk criterion.'',
      ''Docker run''),
     (contains_str lower ''>'' \<and> \<not> contains_str lower ''/etc/''
       \<and> \<not> contains_str lower ''/usr/'' \<and> \<not> contains_str lower ''/var/'',
      ''File write via redirect; bounded, straightforward to reverse.'',
      ''File redirect'')]"

definition low_rules :: "string \<Rightarrow> rule list" where
  "low_rules lower = [
     ((hasWord lower ''echo'' \<or> hasWord lower ''printf'') \<and> \<not> contains_str lower ''>''
       \<and> \<not> contains_str lower ''>>'',
      ''Display command only; no meaningful side effects.'',
      ''Display''),
     (hasWord lower ''pwd'',
      ''Display command only; no meaningful side effects.'',
      ''Display''),
     (hasWord lower ''ls'',
      ''Read-only directory listing; no modifications.'',
      ''Directory listing''),
     (hasWord lower ''find'' \<and> \<not> contains_str lower ''-delete''
       \<and> \<not> contains_str lower ''-exec'',
      ''Read-only file search (find without -delete/-exec); no modifications.'',
      ''File search''),
     (hasWord lower ''cat'' \<or> hasWord lower ''head'' \<or> hasWord lower ''tail''
       \<or> hasWord lower ''less'' \<or> hasWord lower ''more'' \<or> hasWord lower ''wc''
       \<or> hasWord lower ''file'' \<or> hasWord lower ''stat'' \<or> hasWord lower ''du''
       \<or> hasWord lower ''df'',
      ''Read-only file inspection; no modifications.'',
      ''File inspection''),
     (matchAny lower [''git status'', ''git log'', ''git diff'', ''git show'', ''git branch'',
       ''git remote -v'', ''git blame'', ''git ls-files'', ''git rev-parse''],
      ''Read-only git operation; no modifications.'',
      ''Git read''),
     (hasWord lower ''whoami'' \<or> hasWord lower ''date'' \<or> hasWord lower ''uname''
       \<or> hasWord lower ''ps'' \<or> hasWord lower ''top'' \<or> hasWord lower ''hostname''
       \<or> hasWord lower ''env'' \<or> hasWord lower ''printenv''
       \<or> (contains_str lower ''systemctl'' \<and> contains_str lower ''status''),
      ''Information gathering; no meaningful side effects or disclosure.'',
      ''System info''),
     (hasWord lower ''grep'' \<or> hasWord lower ''rg'' \<or> hasWord lower ''ag''
       \<or> hasWord lower ''ack'',
      ''Read-only text search; no modifications.'',
      ''Text search''),
     (hasWord lower ''sed'' \<and> \<not> contains_str lower '' -i''
       \<and> \<not> contains_str lower ''--in-place'',
      ''Read-only text processing (sed without -i); no modifications.'',
      ''Text processing''),
     (hasWord lower ''awk'',
      ''Read-only text processing (awk); no modifications.'',
      ''Text processing''),
     (hasWord lower ''tree'',
      ''Read-only directory tree; no modifications.'',
      ''Directory tree''),
     (hasWord lower ''which'' \<or> hasWord lower ''type'' \<or> contains_str lower ''command -v '',
      ''Read-only command lookup; no modifications.'',
      ''Command lookup''),
     (hasWord lower ''go test'',
      ''Go test is a read-only test execution, no file modifications.'',
      ''Test execution'')]"

definition matchHigh :: "string \<Rightarrow> Classification option" where
  "matchHigh cmd = first_rule LevelHigh (high_rules (to_lower cmd))"

definition matchMedium :: "string \<Rightarrow> Classification option" where
  "matchMedium cmd = first_rule LevelMedium (medium_rules (to_lower cmd))"

definition matchLow :: "string \<Rightarrow> Classification option" where
  "matchLow cmd = first_rule LevelLow (low_rules (to_lower cmd))"

definition ClassifyCommand :: "string \<Rightarrow> Classification" where
  "ClassifyCommand command =
     (let cmd = trim_space command
      in if cmd = [] then \<lparr>cl_Level = LevelLow, cl_Reason = ''Empty command.'', cl_Summary = ''No operation''\<rparr>
         else case matchHigh cmd of
                Some h \<Rightarrow> h
              | None \<Rightarrow>
                  (case matchLow cmd of
                     Some l \<Rightarrow> l
                   | None \<Rightarrow>
                       (case matchMedium cmd of
                          Some m \<Rightarrow> m
                        | None \<Rightarrow>
                            \<lparr>cl_Level = LevelMedium,
                             cl_Reason = ''Unrecognized command; effects are not statically determined. Treated as bounded, potentially reversible.'',
                             cl_Summary = ''Unknown command''\<rparr>)))"

subsection \<open>Laws\<close>

lemma first_rule_level: "first_rule l rules = Some c \<Longrightarrow> cl_Level c = l"
  by (induction l rules rule: first_rule.induct) (auto split: if_splits)

lemma first_rule_None: "first_rule l rules = None \<longleftrightarrow> list_all (\<lambda>r. \<not> fst r) rules"
  by (induction l rules rule: first_rule.induct) auto

lemma contains_str_middle: "contains_str (a @ p @ b) p"
proof (induction a)
  case Nil
  have "has_prefix (p @ b) p" by simp
  then show ?case by (cases "p @ b") (simp_all add: contains_str_def)
next
  case (Cons c a)
  then show ?case by (auto simp: contains_str_def)
qed

lemma dropWhile_keeps: "p \<noteq> [] \<Longrightarrow> \<not> P (hd p) \<Longrightarrow> \<exists>a'. dropWhile P (a @ p @ b) = a' @ p @ b"
proof (induction a)
  case Nil
  then show ?case by (cases p) auto
next
  case (Cons c a)
  then show ?case by auto
qed

lemma trim_space_keeps:
  assumes "p \<noteq> []" "\<not> is_space (hd p)" "\<not> is_space (last p)"
  shows "\<exists>a' b'. trim_space (a @ p @ b) = a' @ p @ b'"
proof -
  obtain a' where a: "dropWhile is_space (a @ p @ b) = a' @ p @ b" using dropWhile_keeps assms(1,2) by blast
  have r: "rev p \<noteq> []" "\<not> is_space (hd (rev p))" using assms by (simp_all add: hd_rev)
  from dropWhile_keeps [where P = is_space, OF r, of "rev b" "rev a'"]
  obtain b' where "dropWhile is_space (rev (a' @ p @ b)) = b' @ rev p @ rev a'" by auto
  then have "trim_space (a @ p @ b) = a' @ p @ rev b'"
    by (simp add: trim_space_def trim_left_by_def trim_right_by_def a)
  then show ?thesis by blast
qed

definition dangerous :: "string list" where
  "dangerous = [''rm -rf'', ''rm -fr'', ''rm -r -f'', ''git reset --hard'', ''git stash drop'', ''git stash clear'',
     ''drop database'', ''drop table'', ''truncate table'', ''mkfs'', ''fdisk'', ''parted'',
     ''docker volume rm'', ''docker volume prune'']"

lemma dangerous_is_high: "p \<in> set dangerous \<Longrightarrow> contains_str lower p \<Longrightarrow> first_rule LevelHigh (high_rules lower) \<noteq> None"
  unfolding first_rule_None by (auto simp: high_rules_def matchAny_def dangerous_def)

lemma dangerous_words: "p \<in> set dangerous \<Longrightarrow> p \<noteq> [] \<and> \<not> is_space (hd p) \<and> \<not> is_space (last p) \<and> to_lower p = p"
  by (auto simp: dangerous_def is_space_def to_lower_def lower_char_def is_upper_def byte_of_def)

text \<open>
  A dangerous phrase makes a command high risk whatever surrounds it: no prefix, suffix or chain of
  other commands lowers the label.
\<close>

theorem dangerous_text_is_high_in_any_context:
  assumes "p \<in> set dangerous"
  shows "cl_Level (ClassifyCommand (a @ p @ b)) = LevelHigh"
proof -
  obtain a' b' where t: "trim_space (a @ p @ b) = a' @ p @ b'"
    using trim_space_keeps dangerous_words [OF assms] by blast
  have "to_lower (a' @ p @ b') = to_lower a' @ p @ to_lower b'"
    using dangerous_words [OF assms] by (simp add: to_lower_def)
  then have "contains_str (to_lower (a' @ p @ b')) p" by (simp add: contains_str_middle)
  then obtain c where c: "matchHigh (a' @ p @ b') = Some c"
    using dangerous_is_high [OF assms] by (auto simp: matchHigh_def)
  then show ?thesis
    using first_rule_level dangerous_words [OF assms] by (auto simp: ClassifyCommand_def t matchHigh_def)
qed

lemma dangerous_text_is_high_in_any_context_witness:
  "cl_Level (ClassifyCommand (''ls && '' @ ''rm -rf'' @ '' build'')) = LevelHigh"
  by (rule dangerous_text_is_high_in_any_context) (simp add: dangerous_def)

subsection \<open>What the words miss\<close>

text \<open>
  \<open>hasWord\<close> looks at the first occurrence of the word only, so a longer word before it hides it.
  The rules for low risk come before those for medium risk and match a word anywhere, so a command
  that writes is shown as read-only when a reading command stands beside it.
\<close>

lemma first_occurrence_hides_the_word:
  "cl_Level (ClassifyCommand ''sudo reboot'') = LevelHigh"
  "cl_Level (ClassifyCommand ''visudo -c; sudo reboot'') = LevelMedium"
  "cl_Level (ClassifyCommand ''git add . && dd if=/dev/zero of=/dev/sda'') = LevelMedium"
  by code_simp+

lemma writing_commands_shown_as_read_only:
  "cl_Level (ClassifyCommand ''cat key > /etc/passwd'') = LevelLow"
  "cl_Level (ClassifyCommand ''ls; mv a b'') = LevelLow"
  "cl_Level (ClassifyCommand ''git branch -D main'') = LevelLow"
  by code_simp+

end
