(* ===== verification/Glob.thy ===== *)
theory Glob
  imports Prelude
begin

text \<open>
  The pattern language of permission rules (\<open>internal/setting/permission.go\<close>): the rule parser
  \<open>parseRule\<close>, the backtracking wildcard matcher \<open>matchSimpleWildcard\<close>, the path globs
  of \<open>matchGlob\<close> and \<open>MatchRule\<close>.  The matcher keeps the source's four loop variables;
  its reference is the textbook relation \<open>wild_match\<close> on lists.
\<close>

subsection \<open>The wildcard matcher\<close>

text \<open>
  One iteration per call: \<open>s\<close> and \<open>p\<close> index the string and the pattern, \<open>star\<close> is
  \<open>starIdx\<close> (-1 when no star was seen) and \<open>mi\<close> is \<open>matchIdx\<close>.
\<close>

function wildcard_loop :: "string \<Rightarrow> string \<Rightarrow> nat \<Rightarrow> nat \<Rightarrow> int \<Rightarrow> nat \<Rightarrow> bool" where
  "wildcard_loop str pat s p star mi =
     (if s < length str then
        (if p < length pat \<and> (pat ! p = CHR ''?'' \<or> pat ! p = str ! s)
         then wildcard_loop str pat (s + 1) (p + 1) star mi
         else if p < length pat \<and> pat ! p = CHR ''*''
         then wildcard_loop str pat s (p + 1) (int p) s
         else if star \<noteq> -1
         then wildcard_loop str pat (mi + 1) (nat (star + 1)) star (mi + 1)
         else False)
      else list_all (\<lambda>c. c = CHR ''*'') (drop p pat))"
  by pat_completeness auto
termination
proof (relation "measures
    [\<lambda>(str, pat, s, p, star, mi). if mi \<le> s \<and> star < int p then 0 else 1,
     \<lambda>(str, pat, s, p, star, mi). nat (int (length pat) - star),
     \<lambda>(str, pat, s, p, star, mi). length str - mi,
     \<lambda>(str, pat, s, p, star, mi). length str - s]", goal_cases)
  case 1
  show ?case by simp
qed (auto split: if_splits)

declare wildcard_loop.simps [simp del]

definition matchSimpleWildcard :: "string \<Rightarrow> string \<Rightarrow> bool" where
  "matchSimpleWildcard str pat = wildcard_loop str pat 0 0 (-1) 0"

text \<open>The reference: a star stands for any sequence, a question mark for one character.\<close>

fun wild_match :: "string \<Rightarrow> string \<Rightarrow> bool" where
  "wild_match [] [] = True"
| "wild_match (c # cs) [] = False"
| "wild_match [] (p # ps) = (p = CHR ''*'' \<and> wild_match [] ps)"
| "wild_match (c # cs) (p # ps) =
     (if p = CHR ''*'' then wild_match cs (p # ps) \<or> wild_match (c # cs) ps
      else (p = CHR ''?'' \<or> p = c) \<and> wild_match cs ps)"

subsection \<open>Laws of the reference\<close>

abbreviation char_match :: "char \<Rightarrow> char \<Rightarrow> bool" where
  "char_match p c \<equiv> p = CHR ''?'' \<or> p = c"

lemma wild_match_Nil: "wild_match [] ps = list_all (\<lambda>c. c = CHR ''*'') ps"
  by (induction ps) auto

lemma wild_match_Nil2: "wild_match s [] = (s = [])"
  by (cases s) auto

lemma wild_match_star:
  "wild_match s (CHR ''*'' # ps) = (\<exists>k \<le> length s. wild_match (drop k s) ps)"
proof (induction s)
  case Nil
  then show ?case by simp
next
  case (Cons c s)
  then show ?case by (auto simp: ex_le_Suc_split)
qed

lemma wild_match_star_drop:
  assumes "s \<le> length str"
  shows "wild_match (drop s str) (CHR ''*'' # ps)
       = (\<exists>k \<ge> s. k \<le> length str \<and> wild_match (drop k str) ps)"
  unfolding wild_match_star
proof
  assume "\<exists>k \<le> length (drop s str). wild_match (drop k (drop s str)) ps"
  then obtain k where "k \<le> length str - s" "wild_match (drop (k + s) str) ps" by auto
  then show "\<exists>k \<ge> s. k \<le> length str \<and> wild_match (drop k str) ps"
    using assms by (intro exI [of _ "k + s"]) auto
next
  assume "\<exists>k \<ge> s. k \<le> length str \<and> wild_match (drop k str) ps"
  then obtain k where "s \<le> k" "k \<le> length str" "wild_match (drop k str) ps" by auto
  then show "\<exists>k \<le> length (drop s str). wild_match (drop k (drop s str)) ps"
    by (intro exI [of _ "k - s"]) auto
qed

lemma wild_match_segment:
  assumes "CHR ''*'' \<notin> set seg"
  shows "wild_match s (seg @ ps)
       = (length seg \<le> length s \<and> list_all2 char_match seg (take (length seg) s)
          \<and> wild_match (drop (length seg) s) ps)"
  using assms
proof (induction seg arbitrary: s)
  case Nil
  then show ?case by simp
next
  case (Cons p seg)
  then show ?case by (cases s) auto
qed

lemma wild_match_one:
  "s < length str \<Longrightarrow> p < length pat \<Longrightarrow> pat ! p \<noteq> CHR ''*'' \<Longrightarrow>
   wild_match (drop s str) (drop p pat)
     = (char_match (pat ! p) (str ! s) \<and> wild_match (drop (Suc s) str) (drop (Suc p) pat))"
  by (simp add: Cons_nth_drop_Suc [symmetric])

lemma wild_match_literal_star:
  "s < length str \<Longrightarrow> p < length pat \<Longrightarrow> char_match (pat ! p) (str ! s) \<Longrightarrow>
   wild_match (drop (Suc s) str) (drop (Suc p) pat) \<Longrightarrow> wild_match (drop s str) (drop p pat)"
proof -
  assume a: "s < length str" "p < length pat" "char_match (pat ! p) (str ! s)"
    "wild_match (drop (Suc s) str) (drop (Suc p) pat)"
  show ?thesis
  proof (cases "pat ! p = CHR ''*''")
    case True
    then have "drop p pat = CHR ''*'' # drop (Suc p) pat"
      using a(2) by (simp add: Cons_nth_drop_Suc [symmetric])
    then show ?thesis using a wild_match_star_drop [of s str "drop (Suc p) pat"]
      by (auto intro!: exI [of _ "Suc s"])
  qed (use a in \<open>simp add: wild_match_one\<close>)
qed

subsection \<open>Soundness: the loop only accepts what the reference accepts\<close>

lemma wildcard_loop_sound:
  assumes "wildcard_loop str pat s p star mi"
    and "s \<le> length str"
    and "star = -1 \<or> (0 \<le> star \<and> mi \<le> s \<and> (\<forall>k \<ge> mi. wild_match (drop k str) (drop (nat (star + 1)) pat) \<longrightarrow> T))"
    and "wild_match (drop s str) (drop p pat) \<longrightarrow> T"
  shows T
  using assms
proof (induction str pat s p star mi rule: wildcard_loop.induct)
  case (1 str pat s p star mi)
  show ?case
  proof (cases "s < length str")
    case False
    then have "list_all (\<lambda>c. c = CHR ''*'') (drop p pat)"
      using 1(4) by (subst (asm) wildcard_loop.simps) simp
    then show T using 1(7) False by (simp add: wild_match_Nil)
  next
    case True
    note step = 1(4) [unfolded wildcard_loop.simps [of str pat s p star mi]]
    consider (same) "p < length pat \<and> char_match (pat ! p) (str ! s)"
      | (star) "\<not> (p < length pat \<and> char_match (pat ! p) (str ! s))"
          "p < length pat \<and> pat ! p = CHR ''*''"
      | (retry) "\<not> (p < length pat \<and> char_match (pat ! p) (str ! s))"
          "\<not> (p < length pat \<and> pat ! p = CHR ''*'')" "star \<noteq> -1"
      | (stuck) "\<not> (p < length pat \<and> char_match (pat ! p) (str ! s))"
          "\<not> (p < length pat \<and> pat ! p = CHR ''*'')" "star = -1"
      by blast
    then show T
    proof cases
      case same
      then have loop: "wildcard_loop str pat (s + 1) (p + 1) star mi" using step True by simp
      have "wild_match (drop (s + 1) str) (drop (p + 1) pat) \<longrightarrow> T"
        using wild_match_literal_star [of s str p pat] same True 1(7) by auto
      moreover have "star = -1 \<or> (0 \<le> star \<and> mi \<le> s + 1 \<and>
          (\<forall>k \<ge> mi. wild_match (drop k str) (drop (nat (star + 1)) pat) \<longrightarrow> T))"
        using 1(6) by auto
      moreover have "s + 1 \<le> length str" using True by simp
      ultimately show T using 1(1) [OF True same loop] by blast
    next
      case star
      then have loop: "wildcard_loop str pat s (p + 1) (int p) s" using step True by simp
      have "drop p pat = CHR ''*'' # drop (Suc p) pat"
        using star(2) by (simp add: Cons_nth_drop_Suc [symmetric])
      then have T_if: "wild_match (drop k str) (drop (Suc p) pat) \<longrightarrow> T" if "s \<le> k" for k
        using 1(7) wild_match_star_drop [of s str "drop (Suc p) pat"] True that
        by (cases "k \<le> length str") (auto intro: exI [of _ "length str"])
      show T using 1(2) [OF True star loop] True T_if T_if [of s] by (simp add: nat_add_distrib)
    next
      case retry
      have loop: "wildcard_loop str pat (mi + 1) (nat (star + 1)) star (mi + 1)"
        using step unfolding if_P [OF True] if_not_P [OF retry(1)] if_not_P [OF retry(2)]
          if_P [OF retry(3)] .
      have "0 \<le> star" "mi \<le> s"
        and T_if: "mi \<le> k \<Longrightarrow> wild_match (drop k str) (drop (nat (star + 1)) pat) \<longrightarrow> T" for k
        using 1(6) retry(3) by auto
      moreover have "\<forall>k \<ge> Suc mi. wild_match (drop k str) (drop (nat (star + 1)) pat) \<longrightarrow> T"
        using T_if Suc_leD by blast
      ultimately show T using 1(3) [OF True retry loop] True T_if [of "Suc mi"] by simp
    next
      case stuck
      then show T using step
        unfolding if_P [OF True] if_not_P [OF stuck(1)] if_not_P [OF stuck(2)] by simp
    qed
  qed
qed

lemma wildcard_sound_aux: "matchSimpleWildcard str pat \<Longrightarrow> wild_match str pat"
  unfolding matchSimpleWildcard_def by (rule wildcard_loop_sound) auto

subsection \<open>Completeness on strings without a literal star\<close>

text \<open>
  The loop compares the current characters before it looks for a star, so a \<open>*\<close> in the string
  that meets a \<open>*\<close> of the pattern is consumed as a literal and the backtracking point is lost.
  On strings that hold no star the loop decides the reference exactly.
\<close>

definition pattern_part :: "string \<Rightarrow> nat \<Rightarrow> nat \<Rightarrow> string" where
  "pattern_part pat i j = take (j - i) (drop i pat)"

lemma pattern_part_drop: "i \<le> j \<Longrightarrow> drop i pat = pattern_part pat i j @ drop j pat"
  by (metis append_take_drop_id drop_drop le_add_diff_inverse2 pattern_part_def)

lemma length_segment: "i \<le> j \<Longrightarrow> j \<le> length pat \<Longrightarrow> length (pattern_part pat i j) = j - i"
  by (simp add: pattern_part_def)

lemma segment_snoc: "i \<le> j \<Longrightarrow> j < length pat \<Longrightarrow> pattern_part pat i (Suc j) = pattern_part pat i j @ [pat ! j]"
  by (simp add: pattern_part_def Suc_diff_le take_Suc_conv_app_nth)

text \<open>
  The invariant of the loop once a star at \<open>q\<close> is remembered: the pattern between the star and
  the current position has no star and matches the string from \<open>mi\<close> to the current position.
\<close>

definition star_inv :: "string \<Rightarrow> string \<Rightarrow> nat \<Rightarrow> nat \<Rightarrow> nat \<Rightarrow> nat \<Rightarrow> bool" where
  "star_inv str pat s p q mi \<longleftrightarrow>
     q < p \<and> p \<le> length pat \<and> mi \<le> s \<and> s \<le> length str \<and> s - mi = p - Suc q \<and>
     CHR ''*'' \<notin> set (pattern_part pat (Suc q) p) \<and>
     list_all2 char_match (pattern_part pat (Suc q) p) (pattern_part str mi s)"

lemma star_inv_match:
  assumes "star_inv str pat s p q mi"
  shows "wild_match (drop mi str) (drop (Suc q) pat) = wild_match (drop s str) (drop p pat)"
proof -
  let ?seg = "pattern_part pat (Suc q) p"
  have "drop (Suc q) pat = ?seg @ drop p pat"
    using assms by (simp add: pattern_part_drop star_inv_def)
  moreover have "length ?seg = s - mi" using assms by (simp add: star_inv_def length_segment)
  moreover have "take (s - mi) (drop mi str) = pattern_part str mi s" by (simp add: pattern_part_def)
  moreover have "mi \<le> s" using assms by (simp add: star_inv_def)
  then have "drop (s - mi) (drop mi str) = drop s str" by simp
  moreover have "s - mi \<le> length str - mi" using assms by (auto simp: star_inv_def)
  ultimately show ?thesis
    using assms wild_match_segment [of ?seg "drop mi str" "drop p pat"]
    by (simp add: star_inv_def)
qed

text \<open>Any later start that matches passes the same pattern_part, so it reaches beyond \<open>s\<close>.\<close>

lemma star_inv_shift:
  assumes "star_inv str pat s p q mi" and "mi \<le> k" and "k \<le> length str"
    and "wild_match (drop k str) (drop (Suc q) pat)"
  shows "\<exists>k' \<ge> s. k' \<le> length str \<and> k' = k + (s - mi) \<and> wild_match (drop k' str) (drop p pat)"
proof -
  let ?seg = "pattern_part pat (Suc q) p"
  have "drop (Suc q) pat = ?seg @ drop p pat" "length ?seg = s - mi"
    using assms by (simp_all add: pattern_part_drop star_inv_def length_segment)
  then have "s - mi \<le> length str - k" "wild_match (drop (k + (s - mi)) str) (drop p pat)"
    using assms wild_match_segment [of ?seg "drop k str" "drop p pat"]
    by (auto simp: star_inv_def add.commute)
  then show ?thesis using assms by (auto simp: star_inv_def)
qed

lemma star_inv_same:
  assumes "star_inv str pat s p q mi" and "s < length str" and "p < length pat"
    and "char_match (pat ! p) (str ! s)" and "pat ! p \<noteq> CHR ''*''"
  shows "star_inv str pat (Suc s) (Suc p) q mi"
  using assms
  by (auto simp: star_inv_def segment_snoc list_all2_appendI)

lemma star_inv_start:
  "p < length pat \<Longrightarrow> s \<le> length str \<Longrightarrow> star_inv str pat s (Suc p) p s"
  by (simp add: star_inv_def pattern_part_def)

lemma star_inv_retry:
  "star_inv str pat s p q mi \<Longrightarrow> s < length str \<Longrightarrow> star_inv str pat (Suc mi) (Suc q) q (Suc mi)"
  by (auto simp: star_inv_def pattern_part_def)

lemma wildcard_loop_complete_star:
  assumes "CHR ''*'' \<notin> set str" and "star = int q" and "star_inv str pat s p q mi"
    and "mi \<le> k" and "k \<le> length str" and "wild_match (drop k str) (drop (Suc q) pat)"
  shows "wildcard_loop str pat s p star mi"
  using assms
proof (induction str pat s p star mi arbitrary: q k rule: wildcard_loop.induct)
  case (1 str pat s p star mi)
  note inv = 1(6) and hit = 1(7,8,9)
  from star_inv_shift [OF inv hit] obtain k' where
    k': "s \<le> k'" "k' \<le> length str" "k' = k + (s - mi)" "wild_match (drop k' str) (drop p pat)" by blast
  show ?case
  proof (cases "s < length str")
    case False
    then have "wild_match [] (drop p pat)" using k' by simp
    then show ?thesis using False
      by (subst wildcard_loop.simps) (simp add: wild_match_Nil)
  next
    case True
    show ?thesis
    proof (cases "p < length pat \<and> char_match (pat ! p) (str ! s)")
      case same: True
      then have "pat ! p \<noteq> CHR ''*''" using 1(4) True nth_mem by fastforce
      then have "star_inv str pat (s + 1) (p + 1) q mi"
        using star_inv_same [OF inv True] same by simp
      then have "wildcard_loop str pat (s + 1) (p + 1) star mi"
        using 1(1) [OF True same 1(4,5)] hit by blast
      then show ?thesis using True same by (subst wildcard_loop.simps) simp
    next
      case diff: False
      show ?thesis
      proof (cases "p < length pat \<and> pat ! p = CHR ''*''")
        case st: True
        then have "drop p pat = CHR ''*'' # drop (Suc p) pat"
          by (simp add: Cons_nth_drop_Suc [symmetric])
        then obtain j where "k' \<le> j" "j \<le> length str" "wild_match (drop j str) (drop (Suc p) pat)"
          using k' wild_match_star_drop [of k' str "drop (Suc p) pat"] by auto
        moreover have "star_inv str pat s (p + 1) p s" using star_inv_start st True by simp
        ultimately have "wildcard_loop str pat s (p + 1) (int p) s"
          using 1(2) [OF True diff st 1(4) refl] k'(1) by (meson le_trans)
        then show ?thesis using True diff st by (subst wildcard_loop.simps) simp
      next
        case nost: False
        have "\<not> wild_match (drop s str) (drop p pat)"
          using diff nost True wild_match_one [of s str p pat]
          by (cases "p < length pat") (auto simp: wild_match_Nil2)
        then have "k \<noteq> mi" using star_inv_match [OF inv] hit(3) by auto
        then have "Suc mi \<le> k" using hit(1) by simp
        moreover have "star_inv str pat (mi + 1) (nat (star + 1)) q (mi + 1)"
          using star_inv_retry [OF inv True] 1(5) by (simp add: nat_add_distrib)
        ultimately have "wildcard_loop str pat (mi + 1) (nat (star + 1)) star (mi + 1)"
          using 1(3) [OF True diff nost _ 1(4,5)] 1(5) hit by simp
        then show ?thesis using True diff nost 1(5) by (subst wildcard_loop.simps) auto
      qed
    qed
  qed
qed

lemma wildcard_loop_complete_nostar:
  assumes "CHR ''*'' \<notin> set str" and "star = -1" and "s \<le> length str"
    and "wild_match (drop s str) (drop p pat)"
  shows "wildcard_loop str pat s p star mi"
  using assms
proof (induction str pat s p star mi rule: wildcard_loop.induct)
  case (1 str pat s p star mi)
  show ?case
  proof (cases "s < length str")
    case False
    then have "wild_match [] (drop p pat)" using 1(6,7) by simp
    then show ?thesis using False
      by (subst wildcard_loop.simps) (simp add: wild_match_Nil)
  next
    case True
    show ?thesis
    proof (cases "p < length pat \<and> char_match (pat ! p) (str ! s)")
      case same: True
      then have "pat ! p \<noteq> CHR ''*''" using 1(4) True nth_mem by fastforce
      then have "wild_match (drop (s + 1) str) (drop (p + 1) pat)"
        using 1(7) wild_match_one [of s str p pat] True same by simp
      then have "wildcard_loop str pat (s + 1) (p + 1) star mi"
        using 1(1) [OF True same 1(4,5)] True by simp
      then show ?thesis using True same by (subst wildcard_loop.simps) simp
    next
      case diff: False
      then have st: "p < length pat \<and> pat ! p = CHR ''*''"
        using 1(7) True wild_match_one [of s str p pat]
        by (cases "p < length pat") (auto simp: wild_match_Nil2)
      then have "drop p pat = CHR ''*'' # drop (Suc p) pat"
        by (simp add: Cons_nth_drop_Suc [symmetric])
      then obtain j where "s \<le> j" "j \<le> length str" "wild_match (drop j str) (drop (Suc p) pat)"
        using 1(7) True wild_match_star_drop [of s str "drop (Suc p) pat"] by auto
      then have "wildcard_loop str pat s (p + 1) (int p) s"
        using wildcard_loop_complete_star [OF 1(4) refl, of pat s "p + 1" p s j]
          star_inv_start [of p pat s str] st True by simp
      then show ?thesis using True diff st by (subst wildcard_loop.simps) simp
    qed
  qed
qed

lemma wildcard_complete:
  "CHR ''*'' \<notin> set str \<Longrightarrow> wild_match str pat \<Longrightarrow> matchSimpleWildcard str pat"
  unfolding matchSimpleWildcard_def by (rule wildcard_loop_complete_nostar) auto

subsection \<open>Rules and globs\<close>

definition parseRule :: "string \<Rightarrow> string \<times> string" where
  "parseRule s =
     (let (tool, args, found) = cut_str s ''(''
      in if \<not> found then (s, []) else (tool, trim_suffix args '')''))"

text \<open>The branch of \<open>matchGlob\<close> for a pattern with exactly one \<open>**\<close>.\<close>

definition match_double_star :: "string \<Rightarrow> string \<Rightarrow> string \<Rightarrow> bool" where
  "match_double_star str seg0 seg1 =
     (let prefix = trim_suffix seg0 ''/'';
          suffix = trim_prefix seg1 ''/''
      in if prefix \<noteq> [] \<and> \<not> has_prefix str prefix then False
         else if suffix \<noteq> [] then
           (if contains_str suffix ''*'' then
              (let filename = (case last_index_of str ''/'' of Some i \<Rightarrow> drop (i + 1) str | None \<Rightarrow> str)
               in if matchSimpleWildcard filename suffix then True
                  else (let remaining =
                          (if prefix \<noteq> [] then trim_prefix (trim_prefix str prefix) ''/'' else str)
                        in matchSimpleWildcard remaining suffix))
            else has_suffix str suffix)
         else True)"

definition matchGlob :: "string \<Rightarrow> string \<Rightarrow> bool" where
  "matchGlob str pattern =
     (if pattern = [] then str = []
      else if pattern = ''**'' then True
      else case (if contains_str pattern ''**'' then split_on ''**'' pattern else []) of
             [seg0, seg1] \<Rightarrow> match_double_star str seg0 seg1
           | _ \<Rightarrow> (if contains_str pattern ''*'' \<or> contains_str pattern ''?''
                  then matchSimpleWildcard str pattern
                  else str = pattern))"

definition MatchRule :: "string \<Rightarrow> string \<Rightarrow> bool" where
  "MatchRule rule pattern =
     (let (toolRule, argsRule) = parseRule rule;
          (toolPat, argsPat) = parseRule pattern
      in if toolRule \<noteq> toolPat then False else matchGlob argsRule argsPat)"

text \<open>
  C26: On a string that contains no literal \<open>*\<close>, the greedy backtracking loop of
  \<open>matchSimpleWildcard\<close> (four integer variables, one remembered star) decides exactly the
  declarative wildcard relation, in which every star may stand for any sequence.
\<close>

theorem matchSimpleWildcard_correct:
  "CHR ''*'' \<notin> set str \<Longrightarrow> matchSimpleWildcard str pat = wild_match str pat"
  using wildcard_sound_aux wildcard_complete by blast

theorem matchSimpleWildcard_correct_witness:
  "matchSimpleWildcard ''npm:install lodash'' ''npm:*l?da*'' = wild_match ''npm:install lodash'' ''npm:*l?da*''
   \<and> wild_match ''npm:install lodash'' ''npm:*l?da*''"
  using matchSimpleWildcard_correct [of "''npm:install lodash''" "''npm:*l?da*''"] by simp

text \<open>
  Whatever the loop accepts, the declarative relation accepts, for every string and pattern,
  literal stars included: a permission rule never matches more than its pattern describes.
\<close>

theorem wildcard_sound: "matchSimpleWildcard str pat \<Longrightarrow> wild_match str pat"
  by (rule wildcard_sound_aux)

theorem wildcard_sound_witness: "wild_match ''rm:-rf *'' ''rm:*''"
  by (rule wildcard_sound) code_simp

text \<open>
  The loop is not complete on strings with a literal star: the reference matches the star of the
  pattern against \<open>*a\<close>, the loop pairs the two stars and rejects.
\<close>

lemma wildcard_literal_star_missed:
  "\<not> matchSimpleWildcard ''*ab'' ''*b'' \<and> wild_match ''*ab'' ''*b''"
  by (simp add: matchSimpleWildcard_def wildcard_loop.simps)

lemma glob_prefix_crosses_names: "matchGlob ''src-private/key'' ''src/**''"
  by code_simp

lemma MatchRule_tool: "MatchRule rule pattern \<Longrightarrow> fst (parseRule rule) = fst (parseRule pattern)"
  by (auto simp: MatchRule_def split: prod.splits if_splits)

end
