(* ===== verification/BashAst.thy ===== *)
theory BashAst
  imports Collections
begin

text \<open>
  The walk over a parsed bash command (\<open>internal/setting/bash_ast.go\<close>).

  The parser is the third-party package \<open>mvdan.cc/sh/v3/syntax\<close>.  The datatypes below name the
  node kinds of that package the code switches on, each with the fields the code reads; every kind
  it does not look into is one constructor (\<open>OtherPart\<close>, \<open>OtherCmd\<close>).  The traversal
  \<open>syntax.Walk\<close> is the package's too: a file carries, as data, the command substitutions that
  traversal visits, in its order, each with its statements and, per statement, whether the
  traversal of that statement meets a substitution.
\<close>

record parsedCommand =
  Name :: string
  Args :: "string list"
  HasPipe :: bool
  RedirPaths :: "string list"
  InSubshell :: bool
  HasAssign :: bool

subsection \<open>Syntax trees\<close>

datatype word_part =
  Lit string | SglQuoted string | DblQuoted "word_part list"
| ParamExp "string option" | CmdSubst | OtherPart

type_synonym bash_word = "word_part list"

datatype redir_op = RdrOut | AppOut | RdrAll | AppAll | OtherRedir

datatype bin_op = AndStmt | OrStmt | Pipe | PipeAll

type_synonym redirect = "redir_op \<times> bash_word option"

datatype stmt = Stmt (Redirs: "redirect list") (Cmd: "bash_cmd option")
and bash_cmd =
  CallExpr (Assigns: nat) (CallArgs: "bash_word list")
| BinaryCmd bin_op "stmt option" "stmt option"
| Subshell "stmt list"
| Block "stmt list"
| IfClause if_clause
| WhileClause "stmt list" "stmt list"
| ForClause "stmt list"
| CaseClause "stmt list list"
| FuncDecl "stmt option"
| TimeClause "stmt option"
| CoprocClause "stmt option"
| DeclClause "string option"
| TestDecl "stmt option"
| OtherCmd
and if_clause = If (If_Cond: "stmt list") (If_Then: "stmt list") (If_Else: "if_clause option")

record bash_file =
  Stmts :: "stmt list"
  walked_substs :: "(stmt \<times> bool) list list"

subsection \<open>Words\<close>

fun partToString :: "word_part \<Rightarrow> string" where
  "partToString (Lit v) = v"
| "partToString (SglQuoted v) = v"
| "partToString (DblQuoted parts) = concat (List.map partToString parts)"
| "partToString (ParamExp p) = ''$'' @ (case p of None \<Rightarrow> [] | Some v \<Rightarrow> v)"
| "partToString CmdSubst = ''$(...)''"
| "partToString OtherPart = ''...''"

definition wordToString :: "bash_word \<Rightarrow> string" where
  "wordToString w = concat (List.map partToString w)"

subsection \<open>Simple commands\<close>

definition parsedCommand_String :: "parsedCommand \<Rightarrow> string" where
  "parsedCommand_String p =
     (if Args p = [] then Name p else Name p @ '' '' @ join_str '' '' (Args p))"

definition safeWrapperCommands :: "string list" where
  "safeWrapperCommands = [''timeout'', ''time'', ''nice'', ''nohup'', ''stdbuf'']"

definition looksLikeCommand :: "string \<Rightarrow> bool" where
  "looksLikeCommand s =
     (if s = [] then False
      else if hd s = CHR ''-'' then False
      else if list_all is_digit s then False
      else if 2 \<le> length s \<and> last s \<in> {CHR ''s'', CHR ''m'', CHR ''h'', CHR ''d''}
              \<and> list_all is_digit (butlast s) then False
      else True)"

text \<open>
  The loop that strips wrapper commands in front of a command: while the name is a wrapper, skip
  to the next word that looks like a command and take its base name.
\<close>

lemma dropWhile_Cons_shorter: "dropWhile P xs = y # ys \<Longrightarrow> length ys < length xs"
  using length_dropWhile_le [of P xs] by simp

function unwrap_command :: "(string \<Rightarrow> bool) \<Rightarrow> string \<Rightarrow> string list \<Rightarrow> string \<times> string list" where
  "unwrap_command wrapper name args =
     (if wrapper name \<and> args \<noteq> [] then
        (case dropWhile (\<lambda>a. \<not> looksLikeCommand a) args of
           [] \<Rightarrow> (name, [])
         | a # rest \<Rightarrow> unwrap_command wrapper (path_base a) rest)
      else (name, args))"
  by pat_completeness auto

termination
  by (relation "measure (\<lambda>(w, name, args). length args)", simp,
      drule dropWhile_Cons_shorter, simp)

declare unwrap_command.simps [simp del]

definition no_command :: parsedCommand where
  "no_command = \<lparr>Name = [], Args = [], HasPipe = False, RedirPaths = [], InSubshell = False,
                 HasAssign = False\<rparr>"

definition extractFromCall :: "nat \<Rightarrow> bash_word list \<Rightarrow> bool \<Rightarrow> bool \<Rightarrow> parsedCommand" where
  "extractFromCall assigns call_args inPipe inSubshell =
     (case List.map wordToString call_args of
        [] \<Rightarrow> no_command
      | w # ws \<Rightarrow>
          (let (name, args) = unwrap_command (\<lambda>n. n \<in> set safeWrapperCommands) (path_base w) ws
           in \<lparr>Name = name, Args = args, HasPipe = inPipe, RedirPaths = [],
               InSubshell = inSubshell, HasAssign = 0 < assigns\<rparr>))"

subsection \<open>Statements\<close>

text \<open>The loop over the redirections of a statement: the targets of output redirections.\<close>

definition output_redirs :: "redirect list \<Rightarrow> string list" where
  "output_redirs rs =
     concat (List.map (\<lambda>(op, w).
       if op = OtherRedir then []
       else (case w of None \<Rightarrow> []
             | Some w \<Rightarrow> (if wordToString w = [] then [] else [wordToString w]))) rs)"

fun extractFromStmt :: "bool \<Rightarrow> bool \<Rightarrow> stmt \<Rightarrow> parsedCommand list"
  and extractFromCmd :: "bool \<Rightarrow> bool \<Rightarrow> string list \<Rightarrow> bash_cmd \<Rightarrow> parsedCommand list"
  and extractFromIfClause :: "bool \<Rightarrow> if_clause \<Rightarrow> parsedCommand list"
where
  "extractFromStmt inPipe inSub (Stmt redirs c) =
     (case c of None \<Rightarrow> [] | Some cmd \<Rightarrow> extractFromCmd inPipe inSub (output_redirs redirs) cmd)"
| "extractFromCmd inPipe inSub paths (CallExpr n ws) =
     (let parsed = extractFromCall n ws inPipe inSub
      in if Name parsed = [] then [] else [parsed\<lparr>RedirPaths := RedirPaths parsed @ paths\<rparr>])"
| "extractFromCmd inPipe inSub paths (BinaryCmd op x y) =
     (let isPipe = (op = Pipe \<or> op = PipeAll)
      in (case x of None \<Rightarrow> [] | Some s \<Rightarrow> extractFromStmt isPipe inSub s)
         @ (case y of None \<Rightarrow> [] | Some s \<Rightarrow> extractFromStmt isPipe inSub s))"
| "extractFromCmd inPipe inSub paths (Subshell ss) =
     concat (List.map (extractFromStmt False True) ss)"
| "extractFromCmd inPipe inSub paths (Block ss) =
     concat (List.map (extractFromStmt False inSub) ss)"
| "extractFromCmd inPipe inSub paths (IfClause ic) = extractFromIfClause inSub ic"
| "extractFromCmd inPipe inSub paths (WhileClause cond body) =
     concat (List.map (extractFromStmt False inSub) cond)
     @ concat (List.map (extractFromStmt False inSub) body)"
| "extractFromCmd inPipe inSub paths (ForClause body) =
     concat (List.map (extractFromStmt False inSub) body)"
| "extractFromCmd inPipe inSub paths (CaseClause items) =
     concat (List.map (\<lambda>ss. concat (List.map (extractFromStmt False inSub) ss)) items)"
| "extractFromCmd inPipe inSub paths (FuncDecl body) =
     (case body of None \<Rightarrow> [] | Some s \<Rightarrow> extractFromStmt False inSub s)"
| "extractFromCmd inPipe inSub paths (TimeClause body) =
     (case body of None \<Rightarrow> [] | Some s \<Rightarrow> extractFromStmt False inSub s)"
| "extractFromCmd inPipe inSub paths (CoprocClause body) =
     (case body of None \<Rightarrow> [] | Some s \<Rightarrow> extractFromStmt False inSub s)"
| "extractFromCmd inPipe inSub paths (DeclClause variant) =
     (case variant of
        None \<Rightarrow> []
      | Some name \<Rightarrow> (if name = [] then []
          else [no_command\<lparr>Name := name, HasPipe := inPipe, InSubshell := inSub, RedirPaths := paths\<rparr>]))"
| "extractFromCmd inPipe inSub paths (TestDecl body) =
     (case body of None \<Rightarrow> [] | Some s \<Rightarrow> extractFromStmt False inSub s)"
| "extractFromCmd inPipe inSub paths OtherCmd = []"
| "extractFromIfClause inSub (If cond thn els) =
     concat (List.map (extractFromStmt False inSub) cond)
     @ concat (List.map (extractFromStmt False inSub) thn)
     @ (case els of None \<Rightarrow> [] | Some ic \<Rightarrow> extractFromIfClause inSub ic)"

definition extractCommandsAST :: "bash_file \<Rightarrow> parsedCommand list" where
  "extractCommandsAST f =
     concat (List.map (extractFromStmt False False) (Stmts f))
     @ concat (List.map (\<lambda>cs. concat (List.map (\<lambda>(s, _). extractFromStmt False True s) cs))
         (walked_substs f))"

definition checkNestedSubstitution :: "bash_file \<Rightarrow> string" where
  "checkNestedSubstitution f =
     (if list_ex (list_ex snd) (walked_substs f) then ''nested command substitution detected'' else [])"


subsection \<open>No command hides in a control structure\<close>

text \<open>
  The statements a compound command executes or declares, and the simple commands that occur in a
  statement at any depth: the specification the extraction is held against.
\<close>

fun if_stmts :: "if_clause \<Rightarrow> stmt list" where
  "if_stmts (If cond thn els) = cond @ thn @ (case els of None \<Rightarrow> [] | Some ic \<Rightarrow> if_stmts ic)"

definition opt_list :: "'a option \<Rightarrow> 'a list" where
  "opt_list x = (case x of None \<Rightarrow> [] | Some a \<Rightarrow> [a])"

lemma opt_list_mem [simp]: "a \<in> set (opt_list x) \<longleftrightarrow> x = Some a"
  by (auto simp: opt_list_def split: option.split)

fun substmts :: "bash_cmd \<Rightarrow> stmt list" where
  "substmts (CallExpr n ws) = []"
| "substmts (BinaryCmd op x y) = opt_list x @ opt_list y"
| "substmts (Subshell ss) = ss"
| "substmts (Block ss) = ss"
| "substmts (IfClause ic) = if_stmts ic"
| "substmts (WhileClause cond body) = cond @ body"
| "substmts (ForClause body) = body"
| "substmts (CaseClause items) = concat items"
| "substmts (FuncDecl b) = opt_list b"
| "substmts (TimeClause b) = opt_list b"
| "substmts (CoprocClause b) = opt_list b"
| "substmts (DeclClause v) = []"
| "substmts (TestDecl b) = opt_list b"
| "substmts OtherCmd = []"

inductive call_in :: "nat \<Rightarrow> bash_word list \<Rightarrow> stmt \<Rightarrow> bool" where
  here: "call_in n ws (Stmt rs (Some (CallExpr n ws)))"
| inside: "s \<in> set (substmts c) \<Longrightarrow> call_in n ws s \<Longrightarrow> call_in n ws (Stmt rs (Some c))"

lemma if_stmts_extracted:
  "s \<in> set (if_stmts ic) \<Longrightarrow> set (extractFromStmt False j s) \<subseteq> set (extractFromIfClause j ic)"
proof (induction ic rule: if_stmts.induct)
  case (1 cond thn els)
  then show ?case by (cases els) auto
qed

lemma substmt_extracted:
  "s \<in> set (substmts c) \<Longrightarrow>
   \<exists>a b. set (extractFromStmt a b s) \<subseteq> set (extractFromCmd i j paths c)"
proof (cases c)
  case (BinaryCmd op x y)
  assume "s \<in> set (substmts c)"
  then have "x = Some s \<or> y = Some s" using BinaryCmd by simp
  then have "set (extractFromStmt (op = Pipe \<or> op = PipeAll) j s) \<subseteq> set (extractFromCmd i j paths c)"
    using BinaryCmd by (auto simp: Let_def)
  then show ?thesis by blast
next
  case (Subshell ss)
  assume "s \<in> set (substmts c)"
  then have "set (extractFromStmt False True s) \<subseteq> set (extractFromCmd i j paths c)"
    using Subshell by auto
  then show ?thesis by blast
next
  case (IfClause ic)
  assume "s \<in> set (substmts c)"
  then have "set (extractFromStmt False j s) \<subseteq> set (extractFromCmd i j paths c)"
    using IfClause if_stmts_extracted by simp
  then show ?thesis by blast
qed (force intro: exI [of _ False] exI [of _ j])+

lemma call_extracted_aux:
  assumes "call_in n ws s" and "Name (extractFromCall n ws False False) \<noteq> []"
  shows "\<exists>p \<in> set (extractFromStmt a b s).
     Name p = Name (extractFromCall n ws False False) \<and> Args p = Args (extractFromCall n ws False False)"
  using assms
proof (induction arbitrary: a b)
  case (here n ws rs)
  then show ?case
    by (auto simp: extractFromCall_def no_command_def Let_def split: list.splits prod.splits)
next
  case (inside s c n ws rs)
  obtain a' b' where "set (extractFromStmt a' b' s) \<subseteq> set (extractFromCmd a b (output_redirs rs) c)"
    using substmt_extracted [OF inside.hyps(1)] by blast
  then show ?case using inside.IH [OF inside.prems, of a' b'] by auto
qed

lemma call_extracted:
  assumes "s \<in> set (Stmts f) \<or> s \<in> fst ` set (concat (walked_substs f))"
    and "call_in n ws s" and "Name (extractFromCall n ws False False) \<noteq> []"
  shows "\<exists>p \<in> set (extractCommandsAST f).
     Name p = Name (extractFromCall n ws False False) \<and> Args p = Args (extractFromCall n ws False False)"
  using assms(1)
proof
  assume "s \<in> set (Stmts f)"
  then show ?thesis
    using call_extracted_aux [OF assms(2,3), of False False] by (auto simp: extractCommandsAST_def)
next
  assume "s \<in> fst ` set (concat (walked_substs f))"
  then obtain cs x where "cs \<in> set (walked_substs f)" "(s, x) \<in> set cs" by auto
  then show ?thesis
    using call_extracted_aux [OF assms(2,3), of False True]
    by (force simp: extractCommandsAST_def)
qed

text \<open>
  C5: The walk loses no command outside process substitutions: every simple command with a name that occurs
  in a parsed file, at any depth of blocks, subshells, pipelines, conditionals, loops, case items, functions and
  coprocesses, or in a command substitution, is among the commands the security checks see.  Words are read as
  text, so a command inside \<open><( )\<close> or \<open>>( )\<close> is not entered: the code collects the substitutions \<open>$( )\<close> and
  backquotes only.
\<close>

theorem every_command_is_extracted:
  assumes "s \<in> set (Stmts f) \<or> s \<in> fst ` set (concat (walked_substs f))"
    and "call_in n ws s" and "Name (extractFromCall n ws False False) \<noteq> []"
  shows "\<exists>p \<in> set (extractCommandsAST f).
     Name p = Name (extractFromCall n ws False False) \<and> Args p = Args (extractFromCall n ws False False)"
  using assms by (rule call_extracted)

text \<open>The tree of \<open>if true; then timeout 5 /bin/rm -rf x; fi\<close>.\<close>

definition demo_if :: bash_file where
  "demo_if = \<lparr>Stmts = [Stmt [] (Some (IfClause (If [Stmt [] (Some (CallExpr 0 [[Lit ''true'']]))]
       [Stmt [] (Some (CallExpr 0 [[Lit ''timeout''], [Lit ''5''], [Lit ''/bin/rm''], [Lit ''-rf''], [Lit ''x'']]))]
       None)))], walked_substs = []\<rparr>"

theorem every_command_is_extracted_witness:
  "\<exists>p \<in> set (extractCommandsAST demo_if). Name p = ''rm'' \<and> Args p = [''-rf'', ''x'']"
proof -
  let ?ws = "[[Lit ''timeout''], [Lit ''5''], [Lit ''/bin/rm''], [Lit ''-rf''], [Lit ''x'']]"
  have in_s: "call_in 0 ?ws (hd (Stmts demo_if))"
    unfolding demo_if_def by (auto intro!: inside here)
  have mem: "hd (Stmts demo_if) \<in> set (Stmts demo_if) \<or>
     hd (Stmts demo_if) \<in> fst ` set (concat (walked_substs demo_if))" by (simp add: demo_if_def)
  have e: "Name (extractFromCall 0 ?ws False False) = ''rm''"
    "Args (extractFromCall 0 ?ws False False) = [''-rf'', ''x'']" by code_simp+
  have "Name (extractFromCall 0 ?ws False False) \<noteq> []" by (simp add: e)
  from every_command_is_extracted [OF mem in_s this] show ?thesis by (simp only: e)
qed

text \<open>
  The redirections of a compound statement are dropped: a block, a subshell or a loop yields the
  same commands whatever its output is redirected to.
\<close>

lemma compound_redirects_are_dropped:
  "substmts c \<noteq> [] \<Longrightarrow>
   extractFromStmt a b (Stmt rs (Some c)) = extractFromStmt a b (Stmt [] (Some c))"
  by (cases c) auto

end
