(* ===== verification/Posture.thy ===== *)
theory Posture
  imports Collections
begin

text \<open>
  The runtime posture of a session (\<open>internal/setting/settings.go\<close>: \<open>OperationMode\<close>,
  \<open>SessionPermissions\<close>; \<open>internal/setting/security.go\<close>: \<open>DenialTracking\<close>) and the
  tool classes of \<open>internal/tool/perm/decision.go\<close>.  The mutex of \<open>SessionPermissions\<close> makes
  each method one critical section, so each is one state transformer here; \<open>Snapshot\<close> copies the
  record, which in a model with immutable values is the identity on its fields.
\<close>

subsection \<open>Permission decisions and tool classes\<close>

datatype decision = Permit | Reject | Prompt

definition decision_String :: "decision \<Rightarrow> string" where
  "decision_String d = (case d of Permit \<Rightarrow> ''permit'' | Reject \<Rightarrow> ''reject'' | Prompt \<Rightarrow> ''prompt'')"

definition IsEditTool :: "string \<Rightarrow> bool" where
  "IsEditTool name = (name \<in> {''Edit'', ''Write'', ''NotebookEdit''})"

definition readOnlyTools :: "string list" where
  "readOnlyTools = [''Read'', ''WebFetch'', ''WebSearch'', ''LSP'']"

definition IsReadOnlyTool :: "string \<Rightarrow> bool" where
  "IsReadOnlyTool name = (name \<in> set readOnlyTools)"

definition safeTools :: "string list" where
  "safeTools = [''TaskCreate'', ''TaskGet'', ''TaskUpdate'', ''AskUserQuestion'',
                ''ExitSpecMode'', ''Evolve''] @ readOnlyTools"

definition IsSafeTool :: "string \<Rightarrow> bool" where
  "IsSafeTool name = (name \<in> set safeTools)"

subsection \<open>Operation modes\<close>

datatype OperationMode =
    ModeNormal | ModeAutoAccept | ModeBypassPermissions | ModeDontAsk | ModeReadOnly
  | ModeAutoPilot | ModeSwarm

definition cycleModes :: "OperationMode list" where
  "cycleModes = [ModeNormal, ModeReadOnly, ModeSwarm]"

definition OperationMode_String :: "OperationMode \<Rightarrow> string" where
  "OperationMode_String m =
     (case m of
        ModeAutoAccept \<Rightarrow> ''accept edits''
      | ModeAutoPilot \<Rightarrow> ''autopilot''
      | ModeBypassPermissions \<Rightarrow> ''bypass permissions''
      | ModeDontAsk \<Rightarrow> ''don'' @ [CHR 0x27] @ ''t ask''
      | ModeReadOnly \<Rightarrow> ''read-only''
      | ModeSwarm \<Rightarrow> ''swarm''
      | ModeNormal \<Rightarrow> ''default'')"

definition PersistenceName :: "OperationMode \<Rightarrow> string" where
  "PersistenceName m =
     (case m of
        ModeAutoAccept \<Rightarrow> ''auto-accept''
      | ModeAutoPilot \<Rightarrow> ''auto-pilot''
      | ModeBypassPermissions \<Rightarrow> ''bypass''
      | ModeDontAsk \<Rightarrow> ''dont-ask''
      | ModeReadOnly \<Rightarrow> ''read-only''
      | ModeSwarm \<Rightarrow> ''swarm''
      | ModeNormal \<Rightarrow> ''default'')"

definition OperationModeFromString :: "string \<Rightarrow> OperationMode" where
  "OperationModeFromString mode0 =
     (let mode = trim_space mode0
      in if mode \<in> {''acceptEdits'', ''accept-edits'', ''autoAccept'', ''auto-accept''} then ModeAutoAccept
         else if mode \<in> {''autoPilot'', ''auto-pilot'', ''autopilot'', ''pilot''} then ModeAutoPilot
         else if mode \<in> {''bypassPermissions'', ''bypass-permissions'', ''bypass''} then ModeBypassPermissions
         else if mode \<in> {''dontAsk'', ''dont-ask''} then ModeDontAsk
         else if mode \<in> {''readOnly'', ''read-only''} then ModeReadOnly
         else if mode \<in> {''swarm'', ''agent''} then ModeSwarm
         else ModeNormal)"

text \<open>The loop of \<open>Next\<close>: the index of the mode in the cycle, then its successor.\<close>

fun next_from :: "OperationMode list \<Rightarrow> nat \<Rightarrow> OperationMode \<Rightarrow> OperationMode" where
  "next_from [] i m = ModeNormal"
| "next_from (mode # modes) i m =
     (if mode = m then cycleModes ! ((i + 1) mod length cycleModes) else next_from modes (i + 1) m)"

definition mode_Next :: "OperationMode \<Rightarrow> OperationMode" where
  "mode_Next m = next_from cycleModes 0 m"

definition NextWithBypass :: "OperationMode \<Rightarrow> bool \<Rightarrow> OperationMode" where
  "NextWithBypass m enabled = mode_Next m"

subsection \<open>Denial tracking\<close>

record DenialTracking =
  ConsecutiveDenials :: int
  TotalDenials :: int

definition MaxConsecutive :: int where "MaxConsecutive = 3"
definition MaxTotal :: int where "MaxTotal = 20"

definition ShouldFallbackToPrompting :: "DenialTracking \<Rightarrow> bool" where
  "ShouldFallbackToPrompting d \<longleftrightarrow>
     MaxConsecutive \<le> ConsecutiveDenials d \<or> MaxTotal \<le> TotalDenials d"

definition RecordDenial :: "DenialTracking \<Rightarrow> bool \<times> DenialTracking" where
  "RecordDenial d =
     (let d' = d\<lparr>ConsecutiveDenials := ConsecutiveDenials d + 1, TotalDenials := TotalDenials d + 1\<rparr>
      in (ShouldFallbackToPrompting d', d'))"

definition RecordSuccess :: "DenialTracking \<Rightarrow> DenialTracking" where
  "RecordSuccess d = d\<lparr>ConsecutiveDenials := 0\<rparr>"

subsection \<open>Session permissions\<close>

record SessionPermissions =
  Mode :: OperationMode
  AllowAllEdits :: bool
  AllowAllWrites :: bool
  AllowAllBash :: bool
  AllowAllSkills :: bool
  AllowAllTasks :: bool
  AllowedTools :: "(string, bool) gomap"
  AllowedPatterns :: "(string, bool) gomap"
  Denials :: DenialTracking
  BypassPermissions :: bool
  WorkingDirectories :: "string list"
  ShouldAvoidPrompts :: bool

definition NewSessionPermissions :: SessionPermissions where
  "NewSessionPermissions =
     \<lparr>Mode = ModeNormal, AllowAllEdits = False, AllowAllWrites = False, AllowAllBash = False,
      AllowAllSkills = False, AllowAllTasks = False, AllowedTools = gm_empty,
      AllowedPatterns = gm_empty, Denials = \<lparr>ConsecutiveDenials = 0, TotalDenials = 0\<rparr>,
      BypassPermissions = False, WorkingDirectories = [], ShouldAvoidPrompts = False\<rparr>"

definition Snapshot :: "SessionPermissions option \<Rightarrow> SessionPermissions option" where
  "Snapshot sp =
     (case sp of
        None \<Rightarrow> None
      | Some s \<Rightarrow> Some
          \<lparr>Mode = Mode s, AllowAllEdits = AllowAllEdits s, AllowAllWrites = AllowAllWrites s,
           AllowAllBash = AllowAllBash s, AllowAllSkills = AllowAllSkills s,
           AllowAllTasks = AllowAllTasks s, AllowedTools = AllowedTools s,
           AllowedPatterns = AllowedPatterns s, Denials = Denials s,
           BypassPermissions = BypassPermissions s, WorkingDirectories = WorkingDirectories s,
           ShouldAvoidPrompts = ShouldAvoidPrompts s\<rparr>)"

definition ResetPosture :: "SessionPermissions \<Rightarrow> SessionPermissions" where
  "ResetPosture sp = sp\<lparr>AllowAllEdits := False, AllowAllWrites := False, AllowAllBash := False,
     AllowAllSkills := False, Mode := ModeNormal\<rparr>"

definition ResetAll :: "SessionPermissions \<Rightarrow> SessionPermissions" where
  "ResetAll sp = sp\<lparr>AllowAllEdits := False, AllowAllWrites := False, AllowAllBash := False,
     AllowAllSkills := False, Mode := ModeNormal, BypassPermissions := False\<rparr>"

definition SetMode :: "OperationMode \<Rightarrow> SessionPermissions \<Rightarrow> SessionPermissions" where
  "SetMode mode sp = sp\<lparr>Mode := mode\<rparr>"

definition SetBypass :: "bool \<Rightarrow> SessionPermissions \<Rightarrow> SessionPermissions" where
  "SetBypass on sp = sp\<lparr>BypassPermissions := on\<rparr>"

definition IsBypass :: "SessionPermissions \<Rightarrow> bool" where
  "IsBypass sp = BypassPermissions sp"

definition IsBypassSafe :: "SessionPermissions option \<Rightarrow> bool" where
  "IsBypassSafe sp = (case sp of None \<Rightarrow> False | Some s \<Rightarrow> IsBypass s)"

definition addWorkingDirectoryLocked :: "string \<Rightarrow> SessionPermissions \<Rightarrow> SessionPermissions" where
  "addWorkingDirectoryLocked dir sp =
     (if dir \<in> set (WorkingDirectories sp) then sp
      else sp\<lparr>WorkingDirectories := WorkingDirectories sp @ [dir]\<rparr>)"

definition AddWorkingDirectory :: "string \<Rightarrow> SessionPermissions \<Rightarrow> SessionPermissions" where
  "AddWorkingDirectory dir sp = addWorkingDirectoryLocked dir sp"

definition GrantEditPosture :: "string \<Rightarrow> SessionPermissions \<Rightarrow> SessionPermissions" where
  "GrantEditPosture cwd sp =
     addWorkingDirectoryLocked cwd (sp\<lparr>AllowAllEdits := True, AllowAllWrites := True\<rparr>)"

definition AllowTool :: "string \<Rightarrow> SessionPermissions \<Rightarrow> SessionPermissions" where
  "AllowTool name sp = sp\<lparr>AllowedTools := gm_put name True (AllowedTools sp)\<rparr>"

definition AllowPattern :: "string \<Rightarrow> SessionPermissions \<Rightarrow> SessionPermissions" where
  "AllowPattern pattern sp = sp\<lparr>AllowedPatterns := gm_put pattern True (AllowedPatterns sp)\<rparr>"

text \<open>Reading an absent key of a \<open>map[string]bool\<close> gives \<open>false\<close>.\<close>

definition IsToolAllowed :: "SessionPermissions \<Rightarrow> string \<Rightarrow> bool" where
  "IsToolAllowed sp name =
     (if gm_get (AllowedTools sp) name = Some True then True
      else if name = ''Edit'' then AllowAllEdits sp
      else if name = ''Write'' then AllowAllWrites sp
      else if name = ''Bash'' then AllowAllBash sp
      else if name = ''Skill'' then AllowAllSkills sp
      else if name = ''Agent'' then AllowAllTasks sp
      else False)"

lemma Snapshot_id [simp]: "Snapshot sp = sp"
  by (simp add: Snapshot_def split: option.split)

subsection \<open>Runs of posture changes\<close>

text \<open>Every method that changes the posture, as one step of the UI goroutine.\<close>

datatype posture_op =
    OpResetPosture | OpResetAll | OpSetMode OperationMode | OpSetBypass bool
  | OpGrantEditPosture string | OpAllowTool string | OpAllowPattern string
  | OpAddWorkingDirectory string

fun posture_step :: "posture_op \<Rightarrow> SessionPermissions \<Rightarrow> SessionPermissions" where
  "posture_step OpResetPosture sp = ResetPosture sp"
| "posture_step OpResetAll sp = ResetAll sp"
| "posture_step (OpSetMode m) sp = SetMode m sp"
| "posture_step (OpSetBypass b) sp = SetBypass b sp"
| "posture_step (OpGrantEditPosture d) sp = GrantEditPosture d sp"
| "posture_step (OpAllowTool t) sp = AllowTool t sp"
| "posture_step (OpAllowPattern p) sp = AllowPattern p sp"
| "posture_step (OpAddWorkingDirectory d) sp = AddWorkingDirectory d sp"

lemmas posture_defs = ResetPosture_def ResetAll_def SetMode_def SetBypass_def
  addWorkingDirectoryLocked_def AddWorkingDirectory_def GrantEditPosture_def
  AllowTool_def AllowPattern_def

definition posture_inv :: "SessionPermissions \<Rightarrow> bool" where
  "posture_inv sp \<longleftrightarrow> distinct (WorkingDirectories sp)
     \<and> gm_ok (AllowedTools sp) \<and> gm_ok (AllowedPatterns sp)"

lemma posture_step_inv: "posture_inv sp \<Longrightarrow> posture_inv (posture_step op sp)"
  by (cases op) (auto simp: posture_inv_def posture_defs gm.ok_put)

lemma posture_run_inv: "posture_inv sp \<Longrightarrow> posture_inv (fold posture_step ops sp)"
  by (induction ops arbitrary: sp) (auto simp: posture_step_inv)

text \<open>
  Bypass is orthogonal to the mode: of all the posture changes only the bypass toggle itself
  and the full reset touch it, so a run of changes without those leaves the /yolo flag as it was,
  however often the mode is cycled or the allowances are reset.
\<close>

theorem bypass_survives_posture_changes:
  assumes "\<forall>op \<in> set ops. op \<noteq> OpResetAll \<and> (\<forall>b. op \<noteq> OpSetBypass b)"
  shows "IsBypass (fold posture_step ops sp) = IsBypass sp"
  using assms
proof (induction ops arbitrary: sp)
  case Nil
  then show ?case by simp
next
  case (Cons op ops)
  have "IsBypass (posture_step op sp) = IsBypass sp"
    using Cons.prems by (cases op) (auto simp: posture_defs IsBypass_def)
  then show ?case using Cons by simp
qed

theorem bypass_survives_posture_changes_witness:
  "IsBypass (fold posture_step [OpSetMode ModeSwarm, OpGrantEditPosture ''/w'', OpResetPosture]
     (SetBypass True NewSessionPermissions))"
  using bypass_survives_posture_changes
    [of "[OpSetMode ModeSwarm, OpGrantEditPosture ''/w'', OpResetPosture]"
        "SetBypass True NewSessionPermissions"]
  by (simp add: SetBypass_def IsBypass_def)

lemma PersistenceName_roundtrip_aux: "OperationModeFromString (PersistenceName m) = m"
  by (cases m)
    (simp_all add: OperationModeFromString_def PersistenceName_def trim_space_def
      trim_left_by_def trim_right_by_def is_space_def byte_of_def)

text \<open>
  The persisted name of a mode is read back as the same mode, and distinct modes have distinct
  persisted names, so the mode a session was left in is the one it starts in.
\<close>

theorem PersistenceName_roundtrip:
  "OperationModeFromString (PersistenceName m) = m
   \<and> (PersistenceName m = PersistenceName n \<longleftrightarrow> m = n)"
  by (metis PersistenceName_roundtrip_aux)

text \<open>
  Shift+Tab walks the three primary modes in a cycle of length three, and from any other mode
  it leads back to the default mode.
\<close>

theorem mode_Next_cycle:
  "(if m \<in> set cycleModes
    then mode_Next m \<in> set cycleModes \<and> mode_Next m \<noteq> m \<and> mode_Next (mode_Next (mode_Next m)) = m
    else mode_Next m = ModeNormal)"
  by (cases m) (simp_all add: mode_Next_def cycleModes_def)

text \<open>
  After three denials in a row the tracker asks for a fallback to prompting, one success in
  between resets the run but never the session total, which forces the fallback at twenty.
\<close>

theorem denial_fallback:
  "(fst (RecordDenial d) \<longleftrightarrow> 2 \<le> ConsecutiveDenials d \<or> 19 \<le> TotalDenials d)
   \<and> (ShouldFallbackToPrompting (RecordSuccess d) \<longleftrightarrow> 20 \<le> TotalDenials d)
   \<and> TotalDenials (snd (RecordDenial (RecordSuccess d))) = TotalDenials d + 1
   \<and> ConsecutiveDenials (snd (RecordDenial (RecordSuccess d))) = 1"
  by (auto simp: RecordDenial_def RecordSuccess_def ShouldFallbackToPrompting_def Let_def
      MaxConsecutive_def MaxTotal_def)

end
