(* ===== verification/Shell.thy ===== *)
theory Shell
  imports BashAst Posture
begin

text \<open>
  What the permission gate knows about shell commands (\<open>internal/setting/bash_ast.go\<close>,
  \<open>internal/setting/security.go\<close> and the normalisation part of \<open>permission.go\<close>).

  The third-party bash parser is the field \<open>parse_bash\<close> of the environment record; what the code
  collects from its trees is in theory BashAst.  The file system, the user database and the URL
  parser are the other fields of the environment.
\<close>

record sys_env =
  parse_bash :: "string \<Rightarrow> bash_file option"
  eval_symlinks :: "string \<Rightarrow> string option"
  abs_path :: "string \<Rightarrow> string option"
  user_home :: "string option"
  url_host :: "string \<Rightarrow> string option"
  goos_darwin :: bool

subsection \<open>Normalised commands\<close>

definition normalizeBashCommand :: "string \<Rightarrow> string" where
  "normalizeBashCommand cmd0 =
     (let cmd = trim_space cmd0
      in if cmd = [] then []
         else let (head, rest, found) = cut_str cmd '' '';
                  baseCmd = path_base head
              in if \<not> found then baseCmd else baseCmd @ '':'' @ rest)"

definition normalizeParsedCommand :: "parsedCommand \<Rightarrow> string" where
  "normalizeParsedCommand cmd =
     (if Name cmd = [] then []
      else if Args cmd = [] then Name cmd
      else Name cmd @ '':'' @ join_str '' '' (Args cmd))"

definition extractBashCommands :: "string \<Rightarrow> string list" where
  "extractBashCommands cmd =
     filter (\<lambda>t. t \<noteq> [])
       (List.map trim_space (concat (List.map (split_on '';'') (split_on ''&&'' cmd))))"

definition normalizedBashCommands :: "sys_env \<Rightarrow> string \<Rightarrow> string list" where
  "normalizedBashCommands E cmd =
     (let raw = filter (\<lambda>n. n \<noteq> []) (List.map normalizeBashCommand (extractBashCommands cmd))
      in case parse_bash E cmd of
           None \<Rightarrow> raw
         | Some f \<Rightarrow>
             (let normalized = filter (\<lambda>n. n \<noteq> []) (List.map normalizeParsedCommand (extractCommandsAST f))
              in if normalized \<noteq> [] then normalized else raw))"

definition meaningfulBashCommands :: "sys_env \<Rightarrow> string \<Rightarrow> string list" where
  "meaningfulBashCommands E cmd =
     (let normalized = normalizedBashCommands E cmd
      in if length normalized \<le> 1 then normalized
         else let filtered = filter (\<lambda>c. \<not> (c = ''cd'' \<or> has_prefix c ''cd:'')) normalized
              in if filtered \<noteq> [] then filtered else normalized)"

text \<open>The closure \<open>add\<close> of \<open>bashRuleForms\<close>: trim, skip the empty and the already seen.\<close>

definition add_form :: "string \<Rightarrow> string list \<Rightarrow> string list" where
  "add_form s0 forms =
     (let s = trim_space s0 in if s = [] \<or> s \<in> set forms then forms else forms @ [s])"

definition bashRuleForms :: "sys_env \<Rightarrow> string \<Rightarrow> string list" where
  "bashRuleForms E cmd =
     fold add_form (normalizedBashCommands E cmd) (fold add_form (extractBashCommands cmd) [])"

definition bashSubcommandRuleForms :: "sys_env \<Rightarrow> string \<Rightarrow> string list list" where
  "bashSubcommandRuleForms E cmd =
     (let parsed = (case parse_bash E cmd of Some f \<Rightarrow> extractCommandsAST f | None \<Rightarrow> [])
      in if parsed \<noteq> [] then
           List.map (\<lambda>c. let n = normalizeParsedCommand c
                         in if n \<noteq> [] \<and> n \<noteq> parsedCommand_String c
                            then [parsedCommand_String c, n] else [parsedCommand_String c]) parsed
         else
           List.map (\<lambda>raw. let n = normalizeBashCommand raw
                           in if n \<noteq> [] \<and> n \<noteq> raw then [raw, n] else [raw])
             (filter (\<lambda>r. r \<noteq> []) (List.map trim_space (extractBashCommands cmd))))"

subsection \<open>Destructive and history-discarding commands\<close>

definition destructiveCommands :: "string list" where
  "destructiveCommands =
     [''rm:-rf'', ''rm:-fr'', ''rm:-r'', ''chmod:777'', ''chmod:-R 777'', '':(){ :|:& };:'',
      ''> /dev/'', ''dd:if='', ''mkfs'', ''fdisk'', ''sudo:'', ''visudo'', ''chsh:'', ''crontab:'',
      ''launchctl:'']"

definition gitDiscardingCommands :: "string list" where
  "gitDiscardingCommands =
     [''git:reset --hard'', ''git:clean -fd'', ''git:clean -f'', ''git:push -f'',
      ''git:checkout --'', ''git:stash drop'', ''git:stash clear'', ''git:branch -D'',
      ''git:branch -d -f'']"

definition matchesAnyPattern :: "string \<Rightarrow> string list \<Rightarrow> bool" where
  "matchesAnyPattern normalized patterns = list_ex (contains_str normalized) patterns"

definition matchesBashPatterns :: "sys_env \<Rightarrow> string \<Rightarrow> string list \<Rightarrow> bool" where
  "matchesBashPatterns E cmd patterns =
     list_ex (\<lambda>n. matchesAnyPattern n patterns) (normalizedBashCommands E cmd)"

definition isDestructiveCommand :: "sys_env \<Rightarrow> string \<Rightarrow> bool" where
  "isDestructiveCommand E cmd = matchesBashPatterns E cmd destructiveCommands"

definition isGitDiscardingCommand :: "sys_env \<Rightarrow> string \<Rightarrow> bool" where
  "isGitDiscardingCommand E cmd =
     list_ex (\<lambda>n. matchesAnyPattern n gitDiscardingCommands
         \<or> (has_prefix n ''git:push ''
            \<and> ''--force'' \<in> set (str_fields (drop (length ''git:push '') n))))
       (normalizedBashCommands E cmd)"

subsection \<open>The circuit breaker\<close>

definition isRootOrHomePath :: "sys_env \<Rightarrow> string \<Rightarrow> bool" where
  "isRootOrHomePath E target =
     (if target = ''/'' \<or> target = ''/*'' then True
      else let t = trim_suffix (trim_suffix target ''/*'') ''/''
           in if t \<in> {''~'', ''$HOME'', ''${HOME}''} then True
              else (case user_home E of
                      None \<Rightarrow> False
                    | Some home \<Rightarrow> home \<noteq> [] \<and> t = trim_suffix home ''/''))"

definition is_recursive_flag :: "string \<Rightarrow> bool" where
  "is_recursive_flag a =
     (has_prefix a ''-''
      \<and> (a = ''--recursive'' \<or> (\<not> has_prefix a ''--'' \<and> contains_any a ''rR'')))"

definition removes_root_or_home :: "sys_env \<Rightarrow> parsedCommand \<Rightarrow> bool" where
  "removes_root_or_home E c =
     (let (name, args) = unwrap_command (\<lambda>n. n = ''sudo'' \<or> n \<in> set safeWrapperCommands) (Name c) (Args c)
      in name = ''rm'' \<and> list_ex is_recursive_flag args
         \<and> list_ex (isRootOrHomePath E) (filter (\<lambda>a. \<not> has_prefix a ''-'') args))"

text \<open>The scan of a command that does not parse: three flags over the fields.\<close>

fun crude_scan :: "sys_env \<Rightarrow> string list \<Rightarrow> bool \<Rightarrow> bool \<Rightarrow> bool \<Rightarrow> bool" where
  "crude_scan E [] hasRM recursive rootHome = (hasRM \<and> recursive \<and> rootHome)"
| "crude_scan E (f # fs) hasRM recursive rootHome =
     (if f = ''rm'' \<or> has_suffix f ''/rm'' then crude_scan E fs True recursive rootHome
      else if has_prefix f ''-'' \<and> contains_any f ''rR'' then crude_scan E fs hasRM True rootHome
      else if isRootOrHomePath E f then crude_scan E fs hasRM recursive True
      else crude_scan E fs hasRM recursive rootHome)"

definition crudeRootOrHomeRemovalScan :: "sys_env \<Rightarrow> string \<Rightarrow> bool" where
  "crudeRootOrHomeRemovalScan E cmd = crude_scan E (str_fields cmd) False False False"

definition isRootOrHomeRemoval :: "sys_env \<Rightarrow> string \<Rightarrow> bool" where
  "isRootOrHomeRemoval E cmd =
     (case parse_bash E cmd of
        None \<Rightarrow> crudeRootOrHomeRemovalScan E cmd
      | Some f \<Rightarrow> list_ex (removes_root_or_home E) (extractCommandsAST f))"

subsection \<open>Textual security checks\<close>

definition zshDangerousCommands :: "string list" where
  "zshDangerousCommands =
     [''zmodload'', ''emulate'', ''sysopen'', ''sysread'', ''syswrite'', ''sysseek'', ''zpty'',
      ''ztcp'', ''zsocket'', ''zf_rm'', ''zf_mv'', ''zf_ln'', ''zf_chmod'', ''zf_chown'']"

text \<open>The loop over adjacent bytes with its nesting depth.\<close>

fun subst_scan :: "string \<Rightarrow> nat \<Rightarrow> bool" where
  "subst_scan (c # d # rest) depth =
     (let opens = (c = CHR ''$'' \<and> d = CHR ''('');
          depth1 = (if opens then depth + 1 else depth)
      in if opens \<and> 1 < depth1 then True
         else subst_scan (d # rest) (if c = CHR '')'' \<and> 0 < depth1 then depth1 - 1 else depth1))"
| "subst_scan _ depth = False"

definition hasCommandSubstitution :: "string \<Rightarrow> bool" where
  "hasCommandSubstitution cmd =
     (subst_scan cmd 0
      \<or> (contains_str cmd ''eval '' \<and> (contains_str cmd ''$('' \<or> contains_str cmd [CHR 0x60])))"

definition hasObfuscatedFlags :: "string \<Rightarrow> bool" where
  "hasObfuscatedFlags cmd =
     list_ex (\<lambda>i. cmd ! i = CHR 0x5C \<and> (is_lower (cmd ! (i + 1)) \<or> is_upper (cmd ! (i + 1)))
         \<and> (let before = trim_right_by (\<lambda>c. c = CHR '' '' \<or> c = CHR 0x09) (take i cmd)
            in before \<noteq> [] \<and> last before = CHR ''-''))
       [0 ..< length cmd - 1]"

text \<open>
  A \<open>range\<close> over a string decodes runes.  A byte below 32 is a rune of its own, and the
  zero-width runes are recognised by their UTF-8 encodings, which start at a rune boundary
  wherever they occur because their first byte is never a continuation byte.
\<close>

definition hasControlCharacters :: "string \<Rightarrow> bool" where
  "hasControlCharacters cmd =
     (list_ex (\<lambda>c. byte_of c < 32 \<and> byte_of c \<notin> {9, 10, 13}) cmd
      \<or> contains_str cmd [CHR 0xE2, CHR 0x80, CHR 0x8B]
      \<or> contains_str cmd [CHR 0xE2, CHR 0x80, CHR 0x8C]
      \<or> contains_str cmd [CHR 0xE2, CHR 0x80, CHR 0x8D]
      \<or> contains_str cmd [CHR 0xEF, CHR 0xBB, CHR 0xBF])"

definition hasIFSInjection :: "string \<Rightarrow> bool" where
  "hasIFSInjection cmd = (contains_str cmd ''IFS='' \<or> contains_str cmd ''IFS ='')"

definition hasZshDangerousCommand :: "string \<Rightarrow> bool" where
  "hasZshDangerousCommand cmd =
     (let expanded = filter (\<lambda>s. s \<noteq> [])
            (List.map trim_space (concat (List.map (split_on ''|'') (extractBashCommands cmd))))
      in list_ex (\<lambda>c. case str_fields c of
                         [] \<Rightarrow> False
                       | w # _ \<Rightarrow> path_base w \<in> set zshDangerousCommands) expanded)"

definition hasProcEnvironAccess :: "string \<Rightarrow> bool" where
  "hasProcEnvironAccess cmd = (contains_str cmd ''/proc/'' \<and> contains_str cmd ''environ'')"

definition suspiciousPaths :: "string list" where
  "suspiciousPaths =
     [''> /etc/'', ''>> /etc/'', ''> /dev/sd'', ''>> /dev/sd'', ''> /dev/nvme'', ''>> /dev/nvme'',
      ''> ~/.ssh/'', ''>> ~/.ssh/'', ''> ~/.bashrc'', ''>> ~/.bashrc'', ''> ~/.zshrc'',
      ''>> ~/.zshrc'', ''> ~/.profile'', ''>> ~/.profile'']"

definition hasSuspiciousRedirection :: "string \<Rightarrow> bool" where
  "hasSuspiciousRedirection cmd = list_ex (contains_str (to_lower cmd)) suspiciousPaths"

definition bashSecurityPatterns :: "((string \<Rightarrow> bool) \<times> string) list" where
  "bashSecurityPatterns =
     [(hasCommandSubstitution, ''command substitution detected''),
      (hasObfuscatedFlags, ''obfuscated flags detected''),
      (hasControlCharacters, ''control characters detected''),
      (hasIFSInjection, ''IFS injection detected''),
      (hasZshDangerousCommand, ''zsh dangerous command''),
      (hasProcEnvironAccess, ''/proc/environ access''),
      (hasSuspiciousRedirection, ''suspicious redirection'')]"

text \<open>The reason of the first check that fires; the empty string when none does.\<close>

fun first_reason :: "((string \<Rightarrow> bool) \<times> string) list \<Rightarrow> string \<Rightarrow> string" where
  "first_reason [] cmd = []"
| "first_reason ((check, reason) # ps) cmd = (if check cmd then reason else first_reason ps cmd)"

subsection \<open>Sensitive paths\<close>

definition sensitiveDirectories :: "string list" where
  "sensitiveDirectories =
     [''.git'', ''.claude'', ''.pcb'', ''.vscode'', ''.idea'', ''.ssh'', ''.aws'', ''.gnupg'', ''.kube'']"

definition sensitiveFiles :: "(string \<times> string) list" where
  "sensitiveFiles =
     [(''.bashrc'', ''shell startup script''),
      (''.bash_profile'', ''shell startup script''),
      (''.zshrc'', ''shell startup script''),
      (''.zprofile'', ''shell startup script''),
      (''.profile'', ''shell startup script''),
      (''.zshenv'', ''shell startup script''),
      (''.login'', ''shell startup script''),
      (''.gitconfig'', ''git configuration (hooks, aliases)''),
      (''.gitmodules'', ''git submodule config''),
      (''.npmrc'', ''npm config (may contain auth tokens)''),
      (''.pypirc'', ''PyPI config (may contain auth tokens)''),
      (''.netrc'', ''network credentials''),
      (''.docker/config.json'', ''Docker credentials'')]"

definition resolve_for_check :: "sys_env \<Rightarrow> string \<Rightarrow> string" where
  "resolve_for_check E filePath0 =
     (let filePath = (case eval_symlinks E (path_dir filePath0) of
                        Some resolved \<Rightarrow> path_join resolved (path_base filePath0)
                      | None \<Rightarrow> filePath0)
      in if is_abs filePath then filePath
         else (case abs_path E filePath of Some a \<Rightarrow> a | None \<Rightarrow> filePath))"

definition isSensitivePath :: "sys_env \<Rightarrow> string \<Rightarrow> string" where
  "isSensitivePath E filePath0 =
     (let filePath = resolve_for_check E filePath0;
          parts = split_on ''/'' filePath;
          basename = path_base filePath
      in case List.find (\<lambda>part. part \<in> set sensitiveDirectories) parts of
           Some dir \<Rightarrow> dir @ ''/ directory''
         | None \<Rightarrow>
             (case map_of sensitiveFiles basename of
                Some reason \<Rightarrow> basename @ '' ('' @ reason @ '')''
              | None \<Rightarrow>
                  if 2 \<le> length parts then
                    (let twoLevel = parts ! (length parts - 2) @ ''/'' @ basename
                     in case map_of sensitiveFiles twoLevel of
                          Some reason \<Rightarrow> twoLevel @ '' ('' @ reason @ '')''
                        | None \<Rightarrow> [])
                  else []))"

definition sensitiveRedirectPrefixes :: "string list" where
  "sensitiveRedirectPrefixes =
     [''/etc/'', ''/dev/sd'', ''/dev/nvme'', ''/boot/'', ''/usr/lib/'', ''/usr/bin/'']"

definition isSensitiveRedirectTarget :: "string \<Rightarrow> bool" where
  "isSensitiveRedirectTarget path = list_ex (has_prefix (to_lower path)) sensitiveRedirectPrefixes"

end
