(* ===== verification/ShellPolicy.thy ===== *)
theory ShellPolicy
  imports Shell
begin

text \<open>
  The structural checks over parsed commands: read-only git (\<open>isReadOnlyGitCommand\<close> and its
  helpers), network egress, \<open>checkASTSecurity\<close>, \<open>checkBashSecurity\<close> and the proof of
  harmlessness \<open>IsReadOnlyBashCommand\<close> that lets a command run unasked in every mode.
\<close>

subsection \<open>Read-only git\<close>

definition dangerousBuiltins :: "string list" where
  "dangerousBuiltins = [''eval'', ''source'', ''.'']"

definition readOnlyGitSubcommands :: "string list" where
  "readOnlyGitSubcommands =
     [''blame'', ''cat-file'', ''describe'', ''diff'', ''grep'', ''log'', ''ls-files'', ''ls-tree'',
      ''merge-base'', ''reflog'', ''rev-parse'', ''shortlog'', ''show'', ''show-ref'', ''status'',
      ''symbolic-ref'']"

definition hasUnsafeReadOnlyGitFlag :: "string list \<Rightarrow> bool" where
  "hasUnsafeReadOnlyGitFlag args =
     list_ex (\<lambda>arg. arg = ''--output'' \<or> has_prefix arg ''--output='' \<or> arg = ''--ext-diff''
         \<or> arg = ''--textconv'') args"

text \<open>\<open>gitSubcommandIndex\<close> and the slicing around it: skip the empty words and the flags.\<close>

definition gitSubcommandAndArgs :: "string list \<Rightarrow> string \<times> string list" where
  "gitSubcommandAndArgs args =
     (case dropWhile (\<lambda>a. a = [] \<or> has_prefix a ''-'') args of
        [] \<Rightarrow> ([], [])
      | a # rest \<Rightarrow> (a, rest))"

definition has_any_prefix :: "string \<Rightarrow> string list \<Rightarrow> bool" where
  "has_any_prefix arg ps = list_ex (has_prefix arg) ps"

fun git_tag_loop :: "bool \<Rightarrow> string list \<Rightarrow> bool" where
  "git_tag_loop listMode [] = True"
| "git_tag_loop listMode (arg # args) =
     (if arg = [] \<or> arg = ''-v'' then git_tag_loop listMode args
      else if arg = ''-l'' \<or> arg = ''--list'' then git_tag_loop True args
      else if has_any_prefix arg [''-n'', ''--sort='', ''--contains='', ''--no-contains='',
                ''--merged='', ''--no-merged='', ''--points-at='', ''--column='']
              \<or> arg = ''--column''
        then git_tag_loop listMode args
      else if has_prefix arg ''-'' then False
      else if \<not> listMode then False
      else git_tag_loop listMode args)"

definition isReadOnlyGitTag :: "string list \<Rightarrow> bool" where
  "isReadOnlyGitTag args = git_tag_loop (args = []) args"

fun git_branch_loop :: "bool \<Rightarrow> string list \<Rightarrow> bool" where
  "git_branch_loop listMode [] = True"
| "git_branch_loop listMode (arg # args) =
     (if arg = [] \<or> arg \<in> {''-a'', ''-r'', ''-vv'', ''-v'', ''--show-current''}
        then git_branch_loop listMode args
      else if arg = ''--list'' \<or> arg = ''--column''
              \<or> has_any_prefix arg [''--format='', ''--sort='', ''--column='', ''--contains'',
                   ''--no-contains'', ''--merged'', ''--no-merged'', ''--points-at'']
        then git_branch_loop True args
      else if has_prefix arg ''-'' then False
      else if \<not> listMode then False
      else git_branch_loop listMode args)"

definition isReadOnlyGitBranch :: "string list \<Rightarrow> bool" where
  "isReadOnlyGitBranch args = (if args = [] then True else git_branch_loop False args)"

definition isReadOnlyGitRemote :: "string list \<Rightarrow> bool" where
  "isReadOnlyGitRemote args =
     (case args of [] \<Rightarrow> True | a # _ \<Rightarrow> a \<in> {''-v'', ''show'', ''get-url''})"

definition isReadOnlyGitCommand :: "parsedCommand \<Rightarrow> bool" where
  "isReadOnlyGitCommand cmd =
     (let (subcommand, rest) = gitSubcommandAndArgs (Args cmd)
      in if hasUnsafeReadOnlyGitFlag rest then False
         else if subcommand \<in> set readOnlyGitSubcommands then True
         else if subcommand = ''tag'' then isReadOnlyGitTag rest
         else if subcommand = ''branch'' then isReadOnlyGitBranch rest
         else if subcommand = ''remote'' then isReadOnlyGitRemote rest
         else False)"

subsection \<open>Network egress\<close>

definition shellInterpreters :: "string list" where
  "shellInterpreters = [''sh'', ''bash'', ''zsh'', ''dash'', ''ksh'']"

definition rawNetworkTools :: "string list" where
  "rawNetworkTools = [''nc'', ''ncat'', ''netcat'', ''telnet'', ''socat'', ''ftp'', ''tftp'']"

definition remoteCopyTools :: "string list" where
  "remoteCopyTools = [''scp'', ''rsync'']"

definition hasOperand :: "string list \<Rightarrow> bool" where
  "hasOperand args = list_ex (\<lambda>a. \<not> (a = [] \<or> has_prefix a ''-'')) args"

definition hasFileUpload :: "string list \<Rightarrow> bool" where
  "hasFileUpload args =
     list_ex (\<lambda>a. has_prefix a ''-T'' \<or> has_prefix a ''--upload-file''
         \<or> (case index_of a ''@'' of None \<Rightarrow> False | Some i \<Rightarrow> \<not> contains_str (take i a) ''://'')) args"

definition hasRemoteTarget :: "string list \<Rightarrow> bool" where
  "hasRemoteTarget args =
     list_ex (\<lambda>a. \<not> (a = [] \<or> has_prefix a ''-'')
         \<and> (contains_str a ''://''
            \<or> (case index_of a '':'' of
                 None \<Rightarrow> False
               | Some i \<Rightarrow> 0 < i \<and> \<not> contains_str (take i a) ''/''))) args"

fun checkNetworkEgress :: "parsedCommand list \<Rightarrow> string" where
  "checkNetworkEgress [] = []"
| "checkNetworkEgress (cmd # cmds) =
     (if Name cmd \<in> set shellInterpreters \<and> HasPipe cmd \<and> \<not> hasOperand (Args cmd)
        then ''pipe into shell (remote code execution vector)''
      else if Name cmd \<in> set rawNetworkTools then ''network egress via '' @ Name cmd
      else if Name cmd = ''sftp'' \<and> hasOperand (Args cmd) then ''remote transfer via sftp''
      else if Name cmd \<in> set remoteCopyTools \<and> hasRemoteTarget (Args cmd)
        then ''remote transfer via '' @ Name cmd
      else if (Name cmd = ''curl'' \<or> Name cmd = ''wget'') \<and> hasFileUpload (Args cmd)
        then ''file upload via '' @ Name cmd
      else checkNetworkEgress cmds)"

subsection \<open>Checks on the parsed file\<close>

definition isLiteralCdCommand :: "parsedCommand \<Rightarrow> bool" where
  "isLiteralCdCommand cmd =
     (case Args cmd of
        [a] \<Rightarrow> (let target = trim_space a
                in if target = [] \<or> has_prefix target ''-'' then False
                   else \<not> contains_any target (CHR 0x60 # ''$;&|<>(){}''))
      | _ \<Rightarrow> False)"

fun check_builtins :: "parsedCommand list \<Rightarrow> string" where
  "check_builtins [] = []"
| "check_builtins (cmd # cmds) =
     (if Name cmd \<in> set dangerousBuiltins then ''dangerous builtin: '' @ Name cmd
      else check_builtins cmds)"

fun check_cd_git :: "bool \<Rightarrow> parsedCommand list \<Rightarrow> string" where
  "check_cd_git cdIntoLiteralPath [] = []"
| "check_cd_git cdIntoLiteralPath (cmd # cmds) =
     (if Name cmd = ''cd'' then check_cd_git (isLiteralCdCommand cmd) cmds
      else if Name cmd = ''git'' \<and> cdIntoLiteralPath \<and> \<not> isReadOnlyGitCommand cmd
        then ''cd + git compound command (potential bare repo RCE)''
      else check_cd_git cdIntoLiteralPath cmds)"

fun check_redirects :: "sys_env \<Rightarrow> string list \<Rightarrow> string" where
  "check_redirects E [] = []"
| "check_redirects E (path # paths) =
     (if isSensitivePath E path \<noteq> [] \<or> isSensitiveRedirectTarget path
        then ''redirect to sensitive path: '' @ path
      else check_redirects E paths)"

text \<open>The reason of the first check of a sequence that gives one.\<close>

fun coalesce_reasons :: "string list \<Rightarrow> string" where
  "coalesce_reasons [] = []"
| "coalesce_reasons (r # rs) = (if r \<noteq> [] then r else coalesce_reasons rs)"

definition checkASTSecurity :: "sys_env \<Rightarrow> bash_file \<Rightarrow> string" where
  "checkASTSecurity E f =
     (let commands = extractCommandsAST f
      in coalesce_reasons
           [if 50 < length commands then ''excessive command count (>50 subcommands)'' else [],
            check_builtins commands,
            check_cd_git False commands,
            check_redirects E (concat (List.map RedirPaths commands)),
            checkNestedSubstitution f,
            checkNetworkEgress commands])"

definition checkBashSecurity :: "sys_env \<Rightarrow> string \<Rightarrow> string" where
  "checkBashSecurity E cmd =
     (let reason = (case parse_bash E cmd of Some f \<Rightarrow> checkASTSecurity E f | None \<Rightarrow> [])
      in if reason \<noteq> [] then reason else first_reason bashSecurityPatterns cmd)"

subsection \<open>Provably read-only commands\<close>

definition readOnlyBashCommands :: "string list" where
  "readOnlyBashCommands =
     [''rg'', ''grep'', ''egrep'', ''fgrep'', ''find'', ''fd'', ''ls'', ''tree'', ''cat'', ''head'',
      ''tail'', ''wc'', ''stat'', ''file'', ''du'', ''which'', ''pwd'', ''cd'', ''basename'',
      ''dirname'', ''realpath'', ''readlink'']"

definition readOnlyBashUnsafeFlags :: "string \<Rightarrow> string list" where
  "readOnlyBashUnsafeFlags name =
     (if name = ''find'' then [''-exec'', ''-execdir'', ''-ok'', ''-okdir'', ''-delete'', ''-fprint'',
                              ''-fprintf'', ''-fls'']
      else if name = ''fd'' then [''-x'', ''--exec'', ''-X'', ''--exec-batch'']
      else if name = ''rg'' then [''--pre'', ''--hostname-bin'']
      else if name = ''tree'' then [''-o'']
      else [])"

definition isReadOnlyParsedCommand :: "parsedCommand \<Rightarrow> bool" where
  "isReadOnlyParsedCommand c =
     (if HasAssign c then False
      else if list_ex (\<lambda>path. path \<noteq> ''/dev/null'') (RedirPaths c) then False
      else if Name c = ''git'' then isReadOnlyGitCommand c
      else if Name c \<notin> set readOnlyBashCommands then False
      else \<not> list_ex (\<lambda>flag. list_ex (\<lambda>arg. has_prefix arg flag) (Args c))
               (readOnlyBashUnsafeFlags (Name c)))"

definition IsReadOnlyBashCommand :: "sys_env \<Rightarrow> string \<Rightarrow> bool" where
  "IsReadOnlyBashCommand E cmd =
     (if contains_str cmd ''$('' \<or> contains_str cmd [CHR 0x60] \<or> contains_str cmd ''<(''
         \<or> contains_str cmd ''>('' then False
      else if isDestructiveCommand E cmd \<or> checkBashSecurity E cmd \<noteq> [] then False
      else (case parse_bash E cmd of
              None \<Rightarrow> False
            | Some f \<Rightarrow> extractCommandsAST f \<noteq> [] \<and> list_all isReadOnlyParsedCommand (extractCommandsAST f)))"

subsection \<open>Working directories\<close>

definition normalizeMacOSPath :: "sys_env \<Rightarrow> string \<Rightarrow> string" where
  "normalizeMacOSPath E path =
     (if \<not> goos_darwin E then path
      else if has_prefix path ''/private/var/'' then ''/var/'' @ drop (length ''/private/var/'') path
      else if has_prefix path ''/private/tmp/'' then ''/tmp/'' @ drop (length ''/private/tmp/'') path
      else if path = ''/private/var'' then ''/var''
      else if path = ''/private/tmp'' then ''/tmp''
      else path)"

definition isSubpath :: "sys_env \<Rightarrow> string \<Rightarrow> string \<Rightarrow> bool" where
  "isSubpath E child0 parent0 =
     (let child = normalizeMacOSPath E child0;
          parent1 = normalizeMacOSPath E parent0;
          parent = (if has_suffix parent1 ''/'' then parent1 else parent1 @ ''/'')
      in if child @ ''/'' = parent then True else has_prefix child parent)"

definition cleanPath :: "sys_env \<Rightarrow> string \<Rightarrow> string" where
  "cleanPath E path =
     path_clean (if is_abs path then path
                 else (case abs_path E path of Some a \<Rightarrow> a | None \<Rightarrow> path))"

definition resolvePath :: "sys_env \<Rightarrow> string \<Rightarrow> string" where
  "resolvePath E path =
     (case eval_symlinks E path of
        Some resolved \<Rightarrow> resolved
      | None \<Rightarrow> (case eval_symlinks E (path_dir path) of
                   Some resolvedDir \<Rightarrow> path_join resolvedDir (path_base path)
                 | None \<Rightarrow> path))"

definition isInWorkingDirectory :: "sys_env \<Rightarrow> string \<Rightarrow> string list \<Rightarrow> bool" where
  "isInWorkingDirectory E filePath workingDirs =
     (if workingDirs = [] then True
      else let origPath = cleanPath E filePath;
               resolvedPath = resolvePath E origPath
           in list_ex (\<lambda>dir.
                let origDir = cleanPath E dir;
                    resolvedDir = resolvePath E origDir
                in (isSubpath E origPath origDir \<or> isSubpath E origPath resolvedDir)
                   \<and> (isSubpath E resolvedPath origDir \<or> isSubpath E resolvedPath resolvedDir))
              workingDirs)"


subsection \<open>What read-only means\<close>

lemma first_reason_empty:
  "first_reason ps cmd = [] \<Longrightarrow> list_all (\<lambda>(c, r). r \<noteq> []) ps \<Longrightarrow> list_all (\<lambda>(c, r). \<not> c cmd) ps"
  by (induction ps) (auto split: if_splits)

lemma coalesce_reasons_empty: "coalesce_reasons rs = [] \<longleftrightarrow> (\<forall>r \<in> set rs. r = [])"
  by (induction rs) auto

lemma check_builtins_empty:
  "check_builtins cs = [] \<longleftrightarrow> (\<forall>c \<in> set cs. Name c \<notin> set dangerousBuiltins)"
  by (induction cs) auto

lemma check_redirects_empty:
  "check_redirects E ps = [] \<longleftrightarrow>
   (\<forall>p \<in> set ps. isSensitivePath E p = [] \<and> \<not> isSensitiveRedirectTarget p)"
  by (induction ps) auto


text \<open>An environment whose parser knows two commands: \<open>git log\<close> and \<open>(cat a) > out\<close>.\<close>

definition parse_env :: sys_env where
  "parse_env = \<lparr>parse_bash = (\<lambda>cmd.
       if cmd = ''git log'' then Some \<lparr>Stmts = [Stmt [] (Some (CallExpr 0 [[Lit ''git''], [Lit ''log'']]))],
                                       walked_substs = []\<rparr>
       else if cmd = ''(cat a) > out'' then
         Some \<lparr>Stmts = [Stmt [(RdrOut, Some [Lit ''out''])]
                  (Some (Subshell [Stmt [] (Some (CallExpr 0 [[Lit ''cat''], [Lit ''a'']]))]))],
               walked_substs = []\<rparr>
       else None),
     eval_symlinks = (\<lambda>_. None), abs_path = (\<lambda>p. Some (''/w/'' @ p)),
     user_home = Some ''/home/u'', url_host = (\<lambda>_. None), goos_darwin = False\<rparr>"


text \<open>
  Because the walk drops the redirections of compound statements, a subshell that overwrites a
  file counts as read-only and runs unasked in every mode.
\<close>

lemma redirected_subshell_counts_as_read_only: "IsReadOnlyBashCommand parse_env ''(cat a) > out''"
  by code_simp

end
