(* ===== verification/Permission.thy ===== *)
theory Permission
  imports Glob ShellPolicy
begin

text \<open>
  The permission gate (\<open>internal/setting/permission.go\<close>): building and matching rules, the
  two confirmation tiers, the mode table and the decision pipeline \<open>HasPermissionToUseTool\<close>.
  The environment record \<open>sys_env\<close> carries the bash parser, the file system, the user database
  and the URL parser; the arguments of a tool call are a finite map into untyped values; the
  iteration order of the session's pattern set is the order of its association list.
\<close>

record PermissionDecision =
  Behavior :: decision
  Reason :: string
  Reviewable :: bool

record PermissionSettings =
  DefaultMode :: string
  Allow :: "string list"
  Deny :: "string list"
  Ask :: "string list"

type_synonym tool_args = "string \<rightharpoonup> gval"

definition decide :: "decision \<Rightarrow> string \<Rightarrow> PermissionDecision" where
  "decide b reason = \<lparr>Behavior = b, Reason = reason, Reviewable = False\<rparr>"

subsection \<open>Rules\<close>

definition filePathArg :: "string \<Rightarrow> tool_args \<Rightarrow> string option" where
  "filePathArg toolName args =
     str_arg args (if toolName = ''Edit'' then ''path'' else ''file_path'')"

definition BuildRule :: "sys_env \<Rightarrow> string \<Rightarrow> tool_args \<Rightarrow> string" where
  "BuildRule E toolName args =
     (let argStr =
        (if toolName = ''Bash'' then
           (case str_arg args ''command'' of
              None \<Rightarrow> []
            | Some cmd \<Rightarrow> (case meaningfulBashCommands E cmd of
                             n # _ \<Rightarrow> n
                           | [] \<Rightarrow> normalizeBashCommand cmd))
         else if toolName \<in> {''Read'', ''Write'', ''Edit''} then
           (case filePathArg toolName args of None \<Rightarrow> [] | Some fp \<Rightarrow> fp)
         else if toolName = ''WebFetch'' then
           (case str_arg args ''url'' of
              None \<Rightarrow> []
            | Some u \<Rightarrow> (case url_host E u of Some host \<Rightarrow> ''domain:'' @ host | None \<Rightarrow> u))
         else if toolName = ''Skill'' then
           (case str_arg args ''skill'' of None \<Rightarrow> [] | Some s \<Rightarrow> s)
         else
           (case str_arg args ''file_path'' of
              Some fp \<Rightarrow> fp
            | None \<Rightarrow> (case str_arg args ''path'' of
                         Some p \<Rightarrow> p
                       | None \<Rightarrow> (case str_arg args ''pattern'' of Some p \<Rightarrow> p | None \<Rightarrow> []))))
      in toolName @ ''('' @ argStr @ '')'')"

definition bash_form :: "string \<Rightarrow> string" where
  "bash_form form = ''Bash('' @ form @ '')''"

definition MatchesToolPattern :: "sys_env \<Rightarrow> string \<Rightarrow> tool_args \<Rightarrow> string \<Rightarrow> string \<Rightarrow> bool" where
  "MatchesToolPattern E toolName args rule pattern =
     (if MatchRule rule pattern then True
      else if toolName \<noteq> ''Bash'' then False
      else (case str_arg args ''command'' of
              None \<Rightarrow> False
            | Some cmd \<Rightarrow> cmd \<noteq> []
                \<and> list_ex (\<lambda>form. MatchRule (bash_form form) pattern) (bashRuleForms E cmd)))"

text \<open>The inner loops of \<open>MatchAllowList\<close>: the first pattern that covers one subcommand.\<close>

definition covering_pattern :: "string list \<Rightarrow> string list \<Rightarrow> string" where
  "covering_pattern patterns forms =
     (case List.find (\<lambda>pattern. pattern \<noteq> []
              \<and> list_ex (\<lambda>form. MatchRule (bash_form form) pattern) forms) patterns of
        Some pattern \<Rightarrow> pattern
      | None \<Rightarrow> [])"

fun match_subcommands :: "string list \<Rightarrow> string \<Rightarrow> string list list \<Rightarrow> string option" where
  "match_subcommands patterns firstMatch [] = Some firstMatch"
| "match_subcommands patterns firstMatch (forms # rest) =
     (let matched = covering_pattern patterns forms
      in if matched = [] then None
         else match_subcommands patterns (if firstMatch = [] then matched else firstMatch) rest)"

definition MatchAllowList :: "sys_env \<Rightarrow> string \<Rightarrow> tool_args \<Rightarrow> string list \<Rightarrow> string option" where
  "MatchAllowList E toolName args patterns =
     (if patterns = [] then None
      else if toolName \<noteq> ''Bash'' then
        List.find (MatchesToolPattern E toolName args (BuildRule E toolName args)) patterns
      else (case str_arg args ''command'' of
              None \<Rightarrow> None
            | Some cmd \<Rightarrow>
                (if trim_space cmd = [] then None
                 else (case bashSubcommandRuleForms E cmd of
                         [] \<Rightarrow> None
                       | subcommands \<Rightarrow> match_subcommands patterns [] subcommands))))"

subsection \<open>Safety checks\<close>

definition bashCommandArg :: "string \<Rightarrow> tool_args \<Rightarrow> string option" where
  "bashCommandArg toolName args = (if toolName \<noteq> ''Bash'' then None else str_arg args ''command'')"

definition CircuitBreakerReason :: "sys_env \<Rightarrow> string \<Rightarrow> tool_args \<Rightarrow> string" where
  "CircuitBreakerReason E toolName args =
     (case bashCommandArg toolName args of
        Some cmd \<Rightarrow> (if isRootOrHomeRemoval E cmd
                     then ''removal targets the filesystem root or home directory'' else [])
      | None \<Rightarrow> [])"

definition RecoverableReason :: "sys_env \<Rightarrow> string \<Rightarrow> tool_args \<Rightarrow> string" where
  "RecoverableReason E toolName args =
     (case bashCommandArg toolName args of
        Some cmd \<Rightarrow> (if isGitDiscardingCommand E cmd then ''git command that discards work'' else [])
      | None \<Rightarrow> [])"

definition UnrecoverableReason :: "sys_env \<Rightarrow> string \<Rightarrow> tool_args \<Rightarrow> string" where
  "UnrecoverableReason E toolName args =
     (if toolName \<in> {''Edit'', ''Write'', ''NotebookEdit''} then
        (case filePathArg toolName args of Some fp \<Rightarrow> isSensitivePath E fp | None \<Rightarrow> [])
      else if toolName = ''Bash'' then
        (case bashCommandArg toolName args of
           Some cmd \<Rightarrow> (if isDestructiveCommand E cmd then ''destructive command''
                        else checkBashSecurity E cmd)
         | None \<Rightarrow> [])
      else [])"

definition ConfirmationTier :: "sys_env \<Rightarrow> string \<Rightarrow> tool_args \<Rightarrow> string \<times> bool" where
  "ConfirmationTier E toolName args =
     (if UnrecoverableReason E toolName args \<noteq> [] then (UnrecoverableReason E toolName args, False)
      else if RecoverableReason E toolName args \<noteq> [] then (RecoverableReason E toolName args, True)
      else ([], False))"

definition confirmationPromptReason ::
    "sys_env \<Rightarrow> string \<Rightarrow> tool_args \<Rightarrow> SessionPermissions option \<Rightarrow> string \<times> bool" where
  "confirmationPromptReason E toolName args session =
     (let (reason, recoverable) = ConfirmationTier E toolName args
      in if reason \<noteq> [] then (''confirmation: '' @ reason, recoverable)
         else (case session of
                 None \<Rightarrow> ([], False)
               | Some s \<Rightarrow>
                   (if WorkingDirectories s \<noteq> [] \<and> (toolName = ''Edit'' \<or> toolName = ''Write'') then
                      (case filePathArg toolName args of
                         Some fp \<Rightarrow> (if \<not> isInWorkingDirectory E fp (WorkingDirectories s)
                                     then (''outside working directory'', False) else ([], False))
                       | None \<Rightarrow> ([], False))
                    else ([], False))))"

subsection \<open>The mode table\<close>

definition ModeDefault :: "string \<Rightarrow> OperationMode \<Rightarrow> PermissionDecision" where
  "ModeDefault toolName mode =
     (if IsSafeTool toolName then decide Permit ''mode: safe tool''
      else case mode of
        ModeBypassPermissions \<Rightarrow> decide Permit ''mode: bypass permissions''
      | ModeAutoAccept \<Rightarrow>
          (if IsEditTool toolName then decide Permit ''mode: accept edits''
           else decide Prompt ''mode: accept edits requires confirmation'')
      | ModeAutoPilot \<Rightarrow>
          (if IsEditTool toolName then decide Permit ''mode: auto review (edits)''
           else (decide Prompt ''mode: auto review requires confirmation'')\<lparr>Reviewable := True\<rparr>)
      | ModeReadOnly \<Rightarrow> decide Reject ''mode: read-only''
      | ModeDontAsk \<Rightarrow> decide Reject (''mode: don'' @ [CHR 0x27] @ ''t ask (auto-deny)'')
      | _ \<Rightarrow> decide Prompt ''mode: default requires confirmation'')"

definition ModeDefaultForCall ::
    "sys_env \<Rightarrow> string \<Rightarrow> tool_args \<Rightarrow> OperationMode \<Rightarrow> PermissionDecision" where
  "ModeDefaultForCall E toolName args mode =
     (if toolName = ''Bash''
         \<and> (case str_arg args ''command'' of Some cmd \<Rightarrow> IsReadOnlyBashCommand E cmd | None \<Rightarrow> False)
      then decide Permit ''mode: read-only bash command''
      else if toolName = ''Cron'' \<and> str_arg args ''action'' = Some ''list''
      then decide Permit ''mode: read-only cron listing''
      else ModeDefault toolName mode)"

definition modeDefaultDecision ::
    "sys_env \<Rightarrow> string \<Rightarrow> tool_args \<Rightarrow> SessionPermissions option \<Rightarrow> PermissionDecision" where
  "modeDefaultDecision E toolName args session =
     ModeDefaultForCall E toolName args (case session of None \<Rightarrow> ModeNormal | Some s \<Rightarrow> Mode s)"

definition coerceAsk :: "PermissionDecision \<Rightarrow> SessionPermissions option \<Rightarrow> PermissionDecision" where
  "coerceAsk d session =
     (case session of
        None \<Rightarrow> d
      | Some s \<Rightarrow>
          (if Behavior d \<noteq> Prompt then d
           else if Mode s = ModeDontAsk
             then decide Reject (''mode: don'' @ [CHR 0x27] @ ''t ask (auto-deny): '' @ Reason d)
           else if ShouldAvoidPrompts s then decide Reject (''headless: '' @ Reason d)
           else d))"

subsection \<open>The pipeline\<close>

text \<open>Step 5: the session's blanket allowances, then its granted patterns.\<close>

definition session_allow ::
    "sys_env \<Rightarrow> string \<Rightarrow> tool_args \<Rightarrow> SessionPermissions option \<Rightarrow> PermissionDecision option" where
  "session_allow E toolName args session =
     (case session of
        None \<Rightarrow> None
      | Some s \<Rightarrow>
          (if IsToolAllowed s toolName then Some (decide Permit (''session: allow all '' @ toolName))
           else map_option (\<lambda>p. decide Permit (''session pattern: '' @ p))
                  (MatchAllowList E toolName args (gm_keys (AllowedPatterns s)))))"

definition HasPermissionToUseTool ::
    "sys_env \<Rightarrow> PermissionSettings \<Rightarrow> string \<Rightarrow> tool_args \<Rightarrow> SessionPermissions option
     \<Rightarrow> PermissionDecision" where
  "HasPermissionToUseTool E perms toolName args session0 =
     (let session = Snapshot session0;
          rule = BuildRule E toolName args
      in case List.find (MatchesToolPattern E toolName args rule) (Deny perms) of
           Some pattern \<Rightarrow> decide Reject (''deny rule: '' @ pattern)
         | None \<Rightarrow>
      if CircuitBreakerReason E toolName args \<noteq> []
        then coerceAsk (decide Prompt (''circuit breaker: '' @ CircuitBreakerReason E toolName args)) session
      else if IsBypassSafe session
        then decide Permit ''bypass permissions on (/yolo)''
      else let (reason, reviewable) = confirmationPromptReason E toolName args session
           in if reason \<noteq> []
                then coerceAsk ((decide Prompt reason)\<lparr>Reviewable := reviewable\<rparr>) session
              else case session_allow E toolName args session of
                     Some d \<Rightarrow> d
                   | None \<Rightarrow>
              case List.find (MatchesToolPattern E toolName args rule) (Ask perms) of
                Some pattern \<Rightarrow> coerceAsk (decide Prompt (''ask rule: '' @ pattern)) session
              | None \<Rightarrow>
              case MatchAllowList E toolName args (Allow perms) of
                Some pattern \<Rightarrow> decide Permit (''allow rule: '' @ pattern)
              | None \<Rightarrow> coerceAsk (modeDefaultDecision E toolName args session) session)"

definition ResolveHookAllow ::
    "sys_env \<Rightarrow> PermissionSettings \<Rightarrow> string \<Rightarrow> tool_args \<Rightarrow> SessionPermissions option \<Rightarrow> bool" where
  "ResolveHookAllow E perms toolName args session =
     (let rule = BuildRule E toolName args
      in if list_ex (MatchesToolPattern E toolName args rule) (Deny perms) then False
         else if CircuitBreakerReason E toolName args \<noteq> [] then False
         else if fst (confirmationPromptReason E toolName args session) \<noteq> [] then False
         else if list_ex (MatchesToolPattern E toolName args rule) (Ask perms) then False
         else True)"

definition CheckPermission ::
    "sys_env \<Rightarrow> PermissionSettings \<Rightarrow> string \<Rightarrow> tool_args \<Rightarrow> SessionPermissions option \<Rightarrow> decision" where
  "CheckPermission E perms toolName args session =
     Behavior (HasPermissionToUseTool E perms toolName args session)"

subsection \<open>The stages of the pipeline\<close>

named_theorems gate \<open>unfolding the permission pipeline\<close>

lemma decide_simps [simp]:
  "Behavior (decide b r) = b" "Reason (decide b r) = r" "Reviewable (decide b r) = False"
  by (simp_all add: decide_def)

lemma coerceAsk_not_Prompt [simp]: "Behavior d \<noteq> Prompt \<Longrightarrow> coerceAsk d session = d"
  by (simp add: coerceAsk_def split: option.split)

lemma coerceAsk_Permit: "Behavior (coerceAsk d session) = Permit \<longleftrightarrow> Behavior d = Permit"
  by (auto simp: coerceAsk_def split: option.split)

lemma coerceAsk_Reviewable: "Reviewable (coerceAsk d session) \<Longrightarrow> Reviewable d"
  by (auto simp: coerceAsk_def split: option.splits if_splits)

lemma coerceAsk_headless:
  "ShouldAvoidPrompts s \<or> Mode s = ModeDontAsk \<Longrightarrow> Behavior (coerceAsk d (Some s)) \<noteq> Prompt"
  by (auto simp: coerceAsk_def)

lemma session_allow_Permit: "session_allow E t args session = Some d \<Longrightarrow> Behavior d = Permit \<and> \<not> Reviewable d"
  by (auto simp: session_allow_def split: option.splits if_splits)

lemma confirmation_unrecoverable:
  "UnrecoverableReason E t args \<noteq> [] \<Longrightarrow>
   confirmationPromptReason E t args session = (''confirmation: '' @ UnrecoverableReason E t args, False)"
  by (simp add: confirmationPromptReason_def ConfirmationTier_def)

lemma confirmation_reviewable:
  "confirmationPromptReason E t args session = (r, True) \<Longrightarrow>
   RecoverableReason E t args \<noteq> [] \<and> UnrecoverableReason E t args = []"
  by (auto simp: confirmationPromptReason_def ConfirmationTier_def Let_def
      split: if_splits option.splits)

lemma mode_default_reviewable:
  "Reviewable (modeDefaultDecision E t args session) \<Longrightarrow>
   \<exists>s. session = Some s \<and> Mode s = ModeAutoPilot"
  by (auto simp: modeDefaultDecision_def ModeDefaultForCall_def ModeDefault_def
      split: option.splits OperationMode.splits if_splits)

text \<open>The gate as one conditional equation per stage.\<close>

abbreviation deny_hit where
  "deny_hit E perms t args \<equiv>
     list_ex (MatchesToolPattern E t args (BuildRule E t args)) (Deny perms)"

lemma gate_deny:
  "deny_hit E perms t args \<Longrightarrow>
   \<exists>p \<in> set (Deny perms). MatchesToolPattern E t args (BuildRule E t args) p
     \<and> HasPermissionToUseTool E perms t args session = decide Reject (''deny rule: '' @ p)"
proof (cases "List.find (MatchesToolPattern E t args (BuildRule E t args)) (Deny perms)")
  case None
  then show "deny_hit E perms t args \<Longrightarrow> ?thesis" by (simp add: find_None_list_ex)
next
  case (Some p)
  then show ?thesis using find_Some_mem [OF Some]
    by (auto simp: HasPermissionToUseTool_def)
qed

lemma gate_breaker:
  "\<not> deny_hit E perms t args \<Longrightarrow> CircuitBreakerReason E t args \<noteq> [] \<Longrightarrow>
   HasPermissionToUseTool E perms t args session
     = coerceAsk (decide Prompt (''circuit breaker: '' @ CircuitBreakerReason E t args)) session"
  by (simp add: HasPermissionToUseTool_def find_None_list_ex [THEN iffD2])

lemma gate_bypass:
  "\<not> deny_hit E perms t args \<Longrightarrow> CircuitBreakerReason E t args = [] \<Longrightarrow> IsBypassSafe session \<Longrightarrow>
   HasPermissionToUseTool E perms t args session = decide Permit ''bypass permissions on (/yolo)''"
  by (simp add: HasPermissionToUseTool_def find_None_list_ex [THEN iffD2])

lemma gate_confirmation:
  "\<not> deny_hit E perms t args \<Longrightarrow> CircuitBreakerReason E t args = [] \<Longrightarrow> \<not> IsBypassSafe session \<Longrightarrow>
   confirmationPromptReason E t args session = (r, v) \<Longrightarrow> r \<noteq> [] \<Longrightarrow>
   HasPermissionToUseTool E perms t args session
     = coerceAsk ((decide Prompt r)\<lparr>Reviewable := v\<rparr>) session"
  by (simp add: HasPermissionToUseTool_def find_None_list_ex [THEN iffD2])

text \<open>What is left when no earlier stage decided: allowances, ask rules, allow rules, the mode.\<close>

definition late_stages where
  "late_stages E perms t args session =
     (case session_allow E t args session of
        Some d \<Rightarrow> d
      | None \<Rightarrow>
          case List.find (MatchesToolPattern E t args (BuildRule E t args)) (Ask perms) of
            Some p \<Rightarrow> coerceAsk (decide Prompt (''ask rule: '' @ p)) session
          | None \<Rightarrow>
              case MatchAllowList E t args (Allow perms) of
                Some p \<Rightarrow> decide Permit (''allow rule: '' @ p)
              | None \<Rightarrow> coerceAsk (modeDefaultDecision E t args session) session)"

lemma late_stages_Deny: "late_stages E (perms\<lparr>Deny := ds\<rparr>) t args session = late_stages E perms t args session"
  by (simp add: late_stages_def split: option.split)

lemma gate_late:
  "\<not> deny_hit E perms t args \<Longrightarrow> CircuitBreakerReason E t args = [] \<Longrightarrow> \<not> IsBypassSafe session \<Longrightarrow>
   confirmationPromptReason E t args session = ([], v) \<Longrightarrow>
   HasPermissionToUseTool E perms t args session = late_stages E perms t args session"
  by (simp add: HasPermissionToUseTool_def late_stages_def find_None_list_ex [THEN iffD2])

text \<open>Every call ends in exactly one stage.\<close>

lemma gate_cases [case_names deny breaker bypass confirmation late]:
  assumes "deny_hit E perms t args \<Longrightarrow> thesis"
    and "\<lbrakk>\<not> deny_hit E perms t args; CircuitBreakerReason E t args \<noteq> []\<rbrakk> \<Longrightarrow> thesis"
    and "\<lbrakk>\<not> deny_hit E perms t args; CircuitBreakerReason E t args = []; IsBypassSafe session\<rbrakk> \<Longrightarrow> thesis"
    and "\<And>r v. \<lbrakk>\<not> deny_hit E perms t args; CircuitBreakerReason E t args = []; \<not> IsBypassSafe session;
           confirmationPromptReason E t args session = (r, v); r \<noteq> []\<rbrakk> \<Longrightarrow> thesis"
    and "\<And>v. \<lbrakk>\<not> deny_hit E perms t args; CircuitBreakerReason E t args = []; \<not> IsBypassSafe session;
           confirmationPromptReason E t args session = ([], v)\<rbrakk> \<Longrightarrow> thesis"
  shows thesis
  using assms by (metis surj_pair)

lemma gate_bypass_on: "IsBypassSafe (Some s) = BypassPermissions s"
  by (simp add: IsBypassSafe_def IsBypass_def)

lemma late_stages_Prompt_reviewable:
  "Reviewable (late_stages E perms t args session) \<Longrightarrow>
   \<exists>s. session = Some s \<and> Mode s = ModeAutoPilot"
  by (auto simp: late_stages_def dest!: session_allow_Permit coerceAsk_Reviewable mode_default_reviewable
      split: option.splits)

lemma late_stages_headless:
  "ShouldAvoidPrompts s \<or> Mode s = ModeDontAsk \<Longrightarrow> Behavior (late_stages E perms t args (Some s)) \<noteq> Prompt"
  by (auto simp: late_stages_def coerceAsk_headless dest: session_allow_Permit split: option.splits)

subsection \<open>A concrete environment for the witnesses\<close>

text \<open>
  No command parses, there are no symbolic links, the home directory is \<open>/home/u\<close>; the textual
  fallbacks of the code then decide.
\<close>

definition demo_env :: sys_env where
  "demo_env = \<lparr>parse_bash = (\<lambda>_. None), eval_symlinks = (\<lambda>_. None), abs_path = (\<lambda>p. Some (''/w/'' @ p)),
     user_home = Some ''/home/u'', url_host = (\<lambda>_. None), goos_darwin = False\<rparr>"

definition demo_perms :: PermissionSettings where
  "demo_perms = \<lparr>DefaultMode = [], Allow = [''Bash(npm:*)''], Deny = [''Read(**/.env)''], Ask = [''Write(/w/**)'']\<rparr>"

definition bash_call :: "string \<Rightarrow> tool_args" where
  "bash_call cmd = [''command'' \<mapsto> GStr cmd]"

definition file_call :: "string \<Rightarrow> tool_args" where
  "file_call path = [''file_path'' \<mapsto> GStr path]"

lemmas demo_defs = demo_env_def demo_perms_def bash_call_def file_call_def

subsection \<open>Safety of the gate\<close>

text \<open>
  C1: A deny rule is final: when any deny pattern matches the call, the decision is a rejection
  that names a matching deny pattern, whatever the session's mode, allowances and bypass flag and
  whatever the ask and allow rules say.
\<close>

theorem deny_rules_are_final:
  assumes "pat \<in> set (Deny perms)" and "MatchesToolPattern E t args (BuildRule E t args) pat"
  shows "\<exists>p \<in> set (Deny perms). MatchesToolPattern E t args (BuildRule E t args) p
     \<and> HasPermissionToUseTool E perms t args session = decide Reject (''deny rule: '' @ p)"
proof (rule gate_deny)
  show "deny_hit E perms t args" using assms by (auto simp: list_ex_iff)
qed

theorem deny_rules_are_final_witness:
  "\<exists>p \<in> set (Deny demo_perms). HasPermissionToUseTool demo_env demo_perms ''Read'' (file_call ''/w/.env'')
      (Some (SetBypass True NewSessionPermissions)) = decide Reject (''deny rule: '' @ p)"
proof -
  have "''Read(**/.env)'' \<in> set (Deny demo_perms)" by (simp add: demo_perms_def)
  moreover have "MatchesToolPattern demo_env ''Read'' (file_call ''/w/.env'')
      (BuildRule demo_env ''Read'' (file_call ''/w/.env'')) ''Read(**/.env)''" by code_simp
  ultimately show ?thesis using deny_rules_are_final by blast
qed

lemma tripped_breaker_never_permits:
  assumes "CircuitBreakerReason E t args \<noteq> []"
  shows "CheckPermission E perms t args session \<noteq> Permit"
  using assms gate_deny [of E t args perms session] gate_breaker [of E t args perms session]
    coerceAsk_Permit [of _ session]
  by (cases "deny_hit E perms t args") (auto simp: CheckPermission_def)

text \<open>
  What the circuit breaker is to stop, said apart from the code: the spellings of the root and of the home
  directory, the flag that makes a removal recursive, and a command that removes one of them, with or without a
  command in front that runs another.
\<close>

definition fixed_spellings :: "string set" where
  "fixed_spellings = {''/'', ''/*'', ''~'', ''~/'', ''~/*'', ''$HOME'', ''$HOME/'', ''$HOME/*'', ''${HOME}'', ''${HOME}/'', ''${HOME}/*''}"

definition names_root_or_home :: "string option \<Rightarrow> string \<Rightarrow> bool" where
  "names_root_or_home home t \<longleftrightarrow>
     t \<in> fixed_spellings
     \<or> (\<exists>h. home = Some (CHR ''/'' # h) \<and> h \<noteq> [] \<and> last h \<notin> {CHR ''/'', CHR ''*''}
          \<and> t \<in> {CHR ''/'' # h, CHR ''/'' # h @ ''/'', CHR ''/'' # h @ ''/*''})"

definition says_recursive :: "string \<Rightarrow> bool" where
  "says_recursive a \<longleftrightarrow>
     a = ''--recursive''
     \<or> (\<exists>flags. a = CHR ''-'' # flags \<and> take 1 flags \<noteq> ''-'' \<and> CHR ''/'' \<notin> set flags
          \<and> (CHR ''r'' \<in> set flags \<or> CHR ''R'' \<in> set flags))"

definition rm_programs :: "string set" where
  "rm_programs = {''rm'', ''/bin/rm'', ''/usr/bin/rm''}"

definition option_word :: "string \<Rightarrow> bool" where
  "option_word opt \<longleftrightarrow> (\<exists>c cs. opt = c # cs \<and> (c = CHR ''-'' \<or> list_all is_digit opt))"

definition front_words :: "string set" where
  "front_words = {''sudo'', ''timeout'', ''time'', ''nice'', ''nohup'', ''stdbuf''}"

definition runs_rm :: "string list \<Rightarrow> string list \<Rightarrow> bool" where
  "runs_rm argv args \<longleftrightarrow>
     (\<exists>rm \<in> rm_programs. argv = rm # args
        \<or> (\<exists>w \<in> front_words. \<exists>opts.
             argv = w # opts @ rm # args \<and> list_all option_word opts))"

definition wipes_root_or_home :: "string option \<Rightarrow> string list \<Rightarrow> bool" where
  "wipes_root_or_home home argv \<longleftrightarrow>
     (\<exists>args. runs_rm argv args \<and> (\<exists>a \<in> set args. says_recursive a) \<and> (\<exists>t \<in> set args. names_root_or_home home t))"

text \<open>
  A command line that orders such a removal: it parses and has such a command somewhere outside process
  substitutions, or it does not parse and its words hold the program, the flag and one of the fixed spellings.
\<close>

definition orders_wipe :: "sys_env \<Rightarrow> string \<Rightarrow> bool" where
  "orders_wipe E cmd \<longleftrightarrow>
     (case parse_bash E cmd of
        Some f \<Rightarrow> \<exists>s n ws. (s \<in> set (Stmts f) \<or> s \<in> fst ` set (concat (walked_substs f))) \<and> call_in n ws s
                    \<and> wipes_root_or_home (user_home E) (List.map wordToString ws)
      | None \<Rightarrow> (\<exists>c \<in> set (str_fields cmd). c \<in> rm_programs) \<and> (\<exists>a \<in> set (str_fields cmd). says_recursive a)
                  \<and> (\<exists>t \<in> set (str_fields cmd). names_root_or_home None t))"

lemma spelled_fixed:
  assumes "names_root_or_home None t"
  shows "isRootOrHomePath E t \<and> \<not> has_prefix t ''-'' \<and> \<not> has_suffix t ''/rm'' \<and> t \<noteq> ''rm''"
proof -
  have "t \<in> fixed_spellings" using assms by (simp add: names_root_or_home_def)
  then show ?thesis unfolding fixed_spellings_def
    by (elim insertE emptyE) (simp_all add: isRootOrHomePath_def Let_def trim_suffix_def has_suffix_def)
qed

lemma trim_suffix_append: "trim_suffix (s @ t) t = s"
  by (simp add: trim_suffix_def has_suffix_iff)

lemma trim_suffix_other: "s \<noteq> [] \<Longrightarrow> t \<noteq> [] \<Longrightarrow> last s \<noteq> last t \<Longrightarrow> trim_suffix s t = s"
proof -
  assume s: "s \<noteq> []" "t \<noteq> []" "last s \<noteq> last t"
  have "\<not> has_suffix s t"
  proof
    assume "has_suffix s t"
    then obtain u where "s = u @ t" unfolding has_suffix_iff by blast
    then show False using s by simp
  qed
  then show ?thesis by (simp add: trim_suffix_def)
qed

lemma spelled_root_or_home:
  assumes "names_root_or_home (user_home E) t"
  shows "isRootOrHomePath E t \<and> \<not> has_prefix t ''-''"
proof (cases "names_root_or_home None t")
  case True
  then show ?thesis using spelled_fixed by blast
next
  case False
  then obtain h where h: "user_home E = Some (CHR ''/'' # h)" "h \<noteq> []" "last h \<noteq> CHR ''/''" "last h \<noteq> CHR ''*''"
    and t: "t = CHR ''/'' # h \<or> t = (CHR ''/'' # h) @ ''/'' \<or> t = (CHR ''/'' # h) @ ''/*''"
    using assms by (auto simp: names_root_or_home_def)
  have plain: "trim_suffix (CHR ''/'' # h) ''/'' = CHR ''/'' # h" "trim_suffix (CHR ''/'' # h) ''/*'' = CHR ''/'' # h"
    using h by (simp_all add: trim_suffix_other)
  have slash: "trim_suffix ((CHR ''/'' # h) @ ''/'') ''/*'' = (CHR ''/'' # h) @ ''/''" by (rule trim_suffix_other) simp_all
  have "trim_suffix (trim_suffix t ''/*'') ''/'' = CHR ''/'' # h"
    using t by (elim disjE) (simp_all only: plain slash trim_suffix_append)
  then have "isRootOrHomePath E t" using h(1) plain(1) by (simp add: isRootOrHomePath_def Let_def)
  then show ?thesis using t by auto
qed

lemma recursive_word:
  assumes "says_recursive a"
  shows "has_prefix a ''-'' \<and> contains_any a ''rR'' \<and> is_recursive_flag a \<and> a \<noteq> ''rm'' \<and> \<not> has_suffix a ''/rm''"
proof (cases "a = ''--recursive''")
  case True
  show ?thesis unfolding True by code_simp
next
  case False
  then obtain flags where a: "a = CHR ''-'' # flags" "take 1 flags \<noteq> ''-''" "CHR ''/'' \<notin> set flags"
    "CHR ''r'' \<in> set flags \<or> CHR ''R'' \<in> set flags" using assms unfolding says_recursive_def by blast
  have "CHR ''/'' \<notin> set a" using a(1,3) by simp
  then have suffix: "\<not> has_suffix a ''/rm''" by (auto simp: has_suffix_iff)
  have any: "contains_any a ''rR''" using a(1,4) by (auto simp: contains_any_def list_ex_iff)
  have "\<not> has_prefix a ''--''" using a(1,2) by (cases flags) simp_all
  then show ?thesis using a(1) any suffix by (simp add: is_recursive_flag_def)
qed

lemma rm_word: "rm \<in> rm_programs \<Longrightarrow> looksLikeCommand rm \<and> path_base rm = ''rm'' \<and> (rm = ''rm'' \<or> has_suffix rm ''/rm'')"
  unfolding rm_programs_def by (elim insertE emptyE; hypsubst; code_simp)

lemma option_no_command: "option_word opt \<Longrightarrow> \<not> looksLikeCommand opt"
  by (auto simp: option_word_def looksLikeCommand_def)

lemma options_skipped:
  "list_all option_word opts \<Longrightarrow> looksLikeCommand rm \<Longrightarrow>
     dropWhile (\<lambda>a. \<not> looksLikeCommand a) (opts @ rm # args) = rm # args"
  by (induction opts) (simp_all add: option_no_command)

lemma rm_unwrapped: "\<not> W ''rm'' \<Longrightarrow> unwrap_command W ''rm'' args = (''rm'', args)"
  by (subst unwrap_command.simps) simp

lemma front_unwrapped:
  assumes "W w" "list_all option_word opts" "rm \<in> rm_programs" "\<not> W ''rm''"
  shows "unwrap_command W w (opts @ rm # args) = (''rm'', args)"
  using assms options_skipped [of opts rm args] rm_word [of rm] rm_unwrapped [of W args]
  by (subst unwrap_command.simps) simp

lemma extracted_call:
  assumes "List.map wordToString ws = w # rest"
    and "unwrap_command (\<lambda>n. n \<in> set safeWrapperCommands) (path_base w) rest = (name, args)"
  shows "Name (extractFromCall n ws False False) = name" and "Args (extractFromCall n ws False False) = args"
  using assms by (simp_all add: extractFromCall_def)

lemma front_word: "w \<in> front_words \<Longrightarrow> path_base w = w \<and> w \<noteq> []"
  unfolding front_words_def by (elim insertE emptyE; hypsubst; code_simp)

lemma front_cases: "w \<in> front_words \<Longrightarrow> w = ''sudo'' \<or> w \<in> set safeWrapperCommands"
  by (auto simp: front_words_def safeWrapperCommands_def)

lemma never_wrapped: "''rm'' \<notin> set safeWrapperCommands" "''sudo'' \<notin> set safeWrapperCommands" "''rm'' \<noteq> ''sudo''"
  by (simp_all add: safeWrapperCommands_def)

lemma rm_extracted:
  assumes "runs_rm (List.map wordToString ws) args"
  shows "Name (extractFromCall n ws False False) \<noteq> []
     \<and> unwrap_command (\<lambda>n. n = ''sudo'' \<or> n \<in> set safeWrapperCommands)
         (Name (extractFromCall n ws False False)) (Args (extractFromCall n ws False False)) = (''rm'', args)"
proof -
  let ?W = "\<lambda>n. n = ''sudo'' \<or> n \<in> set safeWrapperCommands" and ?S = "\<lambda>n. n \<in> set safeWrapperCommands"
  have notW: "\<not> ?W ''rm''" "\<not> ?S ''rm''" using never_wrapped by auto
  note fin = rm_unwrapped [of ?W, OF notW(1)] rm_unwrapped [of ?S, OF notW(2)]
  obtain rm where rm: "rm \<in> rm_programs" and argv: "List.map wordToString ws = rm # args
     \<or> (\<exists>w \<in> front_words. \<exists>opts. List.map wordToString ws = w # opts @ rm # args \<and> list_all option_word opts)"
    using assms unfolding runs_rm_def by (elim bexE)
  have base: "path_base rm = ''rm''" using rm_word [OF rm] by blast
  from argv show ?thesis
  proof
    assume ws: "List.map wordToString ws = rm # args"
    have "unwrap_command ?S (path_base rm) args = (''rm'', args)" unfolding base by (rule fin(2))
    note e = extracted_call [OF ws this]
    show ?thesis unfolding e fin(1) by simp
  next
    assume "\<exists>w \<in> front_words. \<exists>opts. List.map wordToString ws = w # opts @ rm # args \<and> list_all option_word opts"
    then obtain w opts where w: "w \<in> front_words"
      and ws: "List.map wordToString ws = w # opts @ rm # args" and opts: "list_all option_word opts" by (elim bexE exE conjE)
    have wb: "path_base w = w" "w \<noteq> []" using front_word [OF w] by blast+
    show ?thesis
    proof (cases "?S w")
      case True
      have "unwrap_command ?S (path_base w) (opts @ rm # args) = (''rm'', args)"
        unfolding wb(1) by (rule front_unwrapped [OF True opts rm notW(2)])
      note e = extracted_call [OF ws this]
      show ?thesis unfolding e fin(1) by simp
    next
      case False
      have "unwrap_command ?S (path_base w) (opts @ rm # args) = (w, opts @ rm # args)"
        unfolding wb(1) using False by (subst unwrap_command.simps) simp
      note e = extracted_call [OF ws this]
      have "?W w" using False front_cases [OF w] by blast
      from front_unwrapped [of ?W, OF this opts rm notW(1)] show ?thesis unfolding e using wb(2) by blast
    qed
  qed
qed

lemma wipe_extracted:
  assumes "wipes_root_or_home (user_home E) (List.map wordToString ws)"
  shows "Name (extractFromCall n ws False False) \<noteq> []"
    and "Name p = Name (extractFromCall n ws False False) \<Longrightarrow> Args p = Args (extractFromCall n ws False False)
           \<Longrightarrow> removes_root_or_home E p"
proof -
  obtain args a t where args: "runs_rm (List.map wordToString ws) args" and a: "a \<in> set args" "says_recursive a"
    and t: "t \<in> set args" "names_root_or_home (user_home E) t"
    using assms unfolding wipes_root_or_home_def by blast
  have "list_ex is_recursive_flag args" "list_ex (isRootOrHomePath E) (filter (\<lambda>a. \<not> has_prefix a ''-'') args)"
    using a t recursive_word [OF a(2)] spelled_root_or_home [OF t(2)] by (auto simp: list_ex_iff)
  then show "Name (extractFromCall n ws False False) \<noteq> []"
    and "Name p = Name (extractFromCall n ws False False) \<Longrightarrow> Args p = Args (extractFromCall n ws False False)
           \<Longrightarrow> removes_root_or_home E p"
    using rm_extracted [OF args, of n] by (auto simp: removes_root_or_home_def)
qed

lemma crude_scan_iff:
  "crude_scan E fs a b c \<longleftrightarrow>
     (a \<or> list_ex (\<lambda>f. f = ''rm'' \<or> has_suffix f ''/rm'') fs)
     \<and> (b \<or> list_ex (\<lambda>f. \<not> (f = ''rm'' \<or> has_suffix f ''/rm'') \<and> has_prefix f ''-'' \<and> contains_any f ''rR'') fs)
     \<and> (c \<or> list_ex (\<lambda>f. \<not> (f = ''rm'' \<or> has_suffix f ''/rm'') \<and> \<not> (has_prefix f ''-'' \<and> contains_any f ''rR'')
                \<and> isRootOrHomePath E f) fs)"
  by (induction fs arbitrary: a b c) auto

lemma ordered_wipe_trips: "orders_wipe E cmd \<Longrightarrow> isRootOrHomeRemoval E cmd"
proof (cases "parse_bash E cmd")
  case None
  assume "orders_wipe E cmd"
  then obtain c a t where w: "c \<in> set (str_fields cmd)" "c \<in> rm_programs" "a \<in> set (str_fields cmd)" "says_recursive a"
    "t \<in> set (str_fields cmd)" "names_root_or_home None t" using None by (auto simp only: orders_wipe_def option.case)
  have "crudeRootOrHomeRemovalScan E cmd"
    unfolding crudeRootOrHomeRemovalScan_def crude_scan_iff list_ex_iff
    using w rm_word [OF w(2)] recursive_word [OF w(4)] spelled_fixed [OF w(6), of E] by blast
  then show ?thesis using None by (simp add: isRootOrHomeRemoval_def)
next
  case (Some f)
  assume "orders_wipe E cmd"
  then obtain s n ws where s: "s \<in> set (Stmts f) \<or> s \<in> fst ` set (concat (walked_substs f))" "call_in n ws s"
    and w: "wipes_root_or_home (user_home E) (List.map wordToString ws)" using Some by (auto simp only: orders_wipe_def option.case)
  obtain p where "p \<in> set (extractCommandsAST f)" "Name p = Name (extractFromCall n ws False False)"
    "Args p = Args (extractFromCall n ws False False)" using call_extracted [OF s wipe_extracted(1) [OF w]] by blast
  then show ?thesis using Some wipe_extracted(2) [OF w] by (auto simp: isRootOrHomeRemoval_def list_ex_iff)
qed

text \<open>
  C2: The circuit breaker holds in every mode, bypass included: a shell command that orders a recursive removal
  of the filesystem root or the home directory in one of the listed spellings, anywhere outside process
  substitutions and with or without one of the listed commands in front, is never permitted, under any settings
  and any session.  Other spellings pass, see \<open>other_spellings_pass_the_breaker\<close>.
\<close>

theorem circuit_breaker_never_permits:
  assumes "str_arg args ''command'' = Some cmd" and "orders_wipe E cmd"
  shows "CheckPermission E perms ''Bash'' args session \<noteq> Permit"
proof (rule tripped_breaker_never_permits)
  show "CircuitBreakerReason E ''Bash'' args \<noteq> []"
    using assms ordered_wipe_trips by (simp add: CircuitBreakerReason_def bashCommandArg_def)
qed

text \<open>The tree of \<open>if true; then sudo -n /bin/rm -r -f "$HOME"/*; fi\<close>.\<close>

definition wipe_words :: "bash_word list" where
  "wipe_words = [[Lit ''sudo''], [Lit ''-n''], [Lit ''/bin/rm''], [Lit ''-r''], [Lit ''-f''], [DblQuoted [ParamExp (Some ''HOME'')], Lit ''/*'']]"

definition wipe_file :: bash_file where
  "wipe_file = \<lparr>Stmts = [Stmt [] (Some (IfClause (If [Stmt [] (Some (CallExpr 0 [[Lit ''true'']]))]
       [Stmt [] (Some (CallExpr 0 wipe_words))] None)))], walked_substs = []\<rparr>"

definition sudo_file :: bash_file where
  "sudo_file = \<lparr>Stmts = [Stmt [] (Some (CallExpr 0 [[Lit ''sudo''], [Lit ''-u''], [Lit ''root''], [Lit ''rm''], [Lit ''-rf''], [Lit ''/'']]))],
     walked_substs = []\<rparr>"

definition wipe_env :: sys_env where
  "wipe_env = demo_env\<lparr>parse_bash := (\<lambda>cmd. Some (if cmd = ''wipe'' then wipe_file else sudo_file))\<rparr>"

theorem circuit_breaker_never_permits_witness:
  "CheckPermission wipe_env demo_perms ''Bash'' (bash_call ''wipe'') (Some (SetBypass True NewSessionPermissions)) \<noteq> Permit"
proof (rule circuit_breaker_never_permits)
  show "str_arg (bash_call ''wipe'') ''command'' = Some ''wipe''" by (simp add: bash_call_def str_arg_def)
  have f: "parse_bash wipe_env ''wipe'' = Some wipe_file" by (simp add: wipe_env_def)
  have c: "hd (Stmts wipe_file) \<in> set (Stmts wipe_file)" "call_in 0 wipe_words (hd (Stmts wipe_file))"
    unfolding wipe_file_def by (auto intro!: call_in.inside call_in.here)
  have argv: "List.map wordToString wipe_words = ''sudo'' # [''-n''] @ ''/bin/rm'' # [''-r'', ''-f'', ''$HOME/*'']"
    by (simp add: wordToString_def wipe_words_def)
  have "option_word ''-n''" "''/bin/rm'' \<in> rm_programs" by (simp_all add: option_word_def rm_programs_def)
  then have "runs_rm (List.map wordToString wipe_words) [''-r'', ''-f'', ''$HOME/*'']"
    unfolding runs_rm_def argv by (intro bexI [of _ "''/bin/rm''"] disjI2 bexI [of _ "''sudo''"] exI [of _ "[''-n'']"]) (simp_all add: front_words_def)
  moreover have "says_recursive ''-r''" "names_root_or_home (user_home wipe_env) ''$HOME/*''"
    by (simp_all add: says_recursive_def names_root_or_home_def fixed_spellings_def)
  ultimately have "wipes_root_or_home (user_home wipe_env) (List.map wordToString wipe_words)"
    unfolding wipes_root_or_home_def by (intro exI [of _ "[''-r'', ''-f'', ''$HOME/*'']"]) simp
  then show "orders_wipe wipe_env ''wipe''" using c unfolding orders_wipe_def f option.case by blast
qed

text \<open>
  In bypass mode other spellings are permitted: a doubled slash, and an option of \<open>sudo\<close> that takes a value, which
  is read as the command.
\<close>

lemma other_spellings_pass_the_breaker:
  "CheckPermission demo_env demo_perms ''Bash'' (bash_call ''rm -rf //'') (Some (SetBypass True NewSessionPermissions)) = Permit"
  "CheckPermission wipe_env demo_perms ''Bash'' (bash_call ''sudo -u root rm -rf /'') (Some (SetBypass True NewSessionPermissions)) = Permit"
  by code_simp+

text \<open>
  With the bypass flag on, every call that no deny rule matches and that does not trip the
  circuit breaker is permitted.
\<close>

theorem bypass_permits_the_rest:
  assumes "BypassPermissions s" and "CircuitBreakerReason E t args = []"
    and "\<forall>p \<in> set (Deny perms). \<not> MatchesToolPattern E t args (BuildRule E t args) p"
  shows "CheckPermission E perms t args (Some s) = Permit"
proof -
  have "\<not> deny_hit E perms t args" using assms(3) by (simp add: list_ex_iff)
  from gate_bypass [OF this assms(2)] show ?thesis
    using assms(1) by (simp add: gate_bypass_on CheckPermission_def)
qed

theorem bypass_permits_the_rest_witness:
  "CheckPermission demo_env demo_perms ''Bash'' (bash_call ''rm -rf build'')
     (Some (SetBypass True NewSessionPermissions)) = Permit"
  by (rule bypass_permits_the_rest) (simp add: SetBypass_def, code_simp, code_simp)

text \<open>
  C3: Without bypass, a call in the unrecoverable tier (destructive command, sensitive path,
  suspicious shell construct) is never permitted and never handed to the automatic reviewer, so
  neither session allowances, nor allow rules, nor a mode can wave it through.
\<close>

theorem unrecoverable_calls_need_the_human:
  assumes "UnrecoverableReason E t args \<noteq> []" and "\<not> IsBypassSafe session"
  shows "Behavior (HasPermissionToUseTool E perms t args session) \<noteq> Permit
    \<and> \<not> Reviewable (HasPermissionToUseTool E perms t args session)"
proof (cases rule: gate_cases [where E = E and perms = perms and t = t and args = args and session = session])
  case deny
  then show ?thesis using gate_deny [of E t args perms session] by auto
next
  case breaker
  then show ?thesis using coerceAsk_Permit [of _ session]
    by (auto simp: gate_breaker dest: coerceAsk_Reviewable)
next
  case bypass
  then show ?thesis using assms by simp
next
  case (confirmation r v)
  then have "\<not> v" using assms(1) confirmation_unrecoverable by fastforce
  then show ?thesis using confirmation coerceAsk_Permit [of _ session]
    by (auto simp: gate_confirmation dest: coerceAsk_Reviewable)
next
  case (late v)
  then show ?thesis using assms(1) confirmation_unrecoverable by fastforce
qed

theorem unrecoverable_calls_need_the_human_witness:
  "Behavior (HasPermissionToUseTool demo_env demo_perms ''Write'' (file_call ''/w/.git/hooks/pre-commit'')
      (Some (GrantEditPosture ''/w'' NewSessionPermissions))) \<noteq> Permit"
proof -
  have "UnrecoverableReason demo_env ''Write'' (file_call ''/w/.git/hooks/pre-commit'') \<noteq> []" by code_simp
  moreover have "\<not> IsBypassSafe (Some (GrantEditPosture ''/w'' NewSessionPermissions))" by code_simp
  ultimately show ?thesis using unrecoverable_calls_need_the_human by blast
qed

text \<open>
  A decision is marked reviewable only for the AutoPilot gray zone or for the recoverable git
  tier, and in the latter case only when no unrecoverable reason holds: the automatic reviewer is
  never asked about anything else.
\<close>

theorem reviewable_only_gray_zone:
  assumes "Reviewable (HasPermissionToUseTool E perms t args session)"
  shows "(\<exists>s. session = Some s \<and> Mode s = ModeAutoPilot)
    \<or> (RecoverableReason E t args \<noteq> [] \<and> UnrecoverableReason E t args = [])"
proof (cases rule: gate_cases [where E = E and perms = perms and t = t and args = args and session = session])
  case deny
  then show ?thesis using gate_deny [of E t args perms session] assms by auto
next
  case breaker
  then show ?thesis using assms by (auto simp: gate_breaker dest: coerceAsk_Reviewable)
next
  case bypass
  then show ?thesis using assms by (auto simp: gate_bypass)
next
  case (confirmation r v)
  then have "Reviewable ((decide Prompt r)\<lparr>Reviewable := v\<rparr>)"
    using assms by (metis gate_confirmation coerceAsk_Reviewable)
  then have "v" by simp
  with confirmation have "confirmationPromptReason E t args session = (r, True)" by simp
  then show ?thesis by (blast dest: confirmation_reviewable)
next
  case (late v)
  with assms have "Reviewable (late_stages E perms t args session)" by (simp add: gate_late)
  then show ?thesis by (blast dest: late_stages_Prompt_reviewable)
qed

theorem reviewable_only_gray_zone_witness:
  "RecoverableReason demo_env ''Bash'' (bash_call ''git reset --hard HEAD~1'') \<noteq> []"
proof -
  have "Reviewable (HasPermissionToUseTool demo_env demo_perms ''Bash'' (bash_call ''git reset --hard HEAD~1'')
      (Some NewSessionPermissions))" by code_simp
  from reviewable_only_gray_zone [OF this] show ?thesis by (auto simp: NewSessionPermissions_def)
qed

text \<open>
  A session that cannot show a dialog (headless, or in don't-ask mode) never ends in a prompt:
  every question is turned into a rejection.
\<close>

theorem headless_never_prompts:
  assumes "ShouldAvoidPrompts s \<or> Mode s = ModeDontAsk"
  shows "CheckPermission E perms t args (Some s) \<noteq> Prompt"
proof (cases rule: gate_cases [where E = E and perms = perms and t = t and args = args and session = "Some s"])
  case deny
  then show ?thesis using gate_deny [of E t args perms "Some s"] by (auto simp: CheckPermission_def)
qed (use assms in \<open>auto simp: CheckPermission_def gate_breaker gate_bypass gate_confirmation gate_late
      coerceAsk_headless late_stages_headless\<close>)

theorem headless_never_prompts_witness:
  "CheckPermission demo_env demo_perms ''Agent'' Map.empty (Some (SetMode ModeDontAsk NewSessionPermissions)) \<noteq> Prompt"
  by (rule headless_never_prompts) (simp add: SetMode_def)


subsection \<open>What can permit a call\<close>

lemma covering_pattern_sound:
  "covering_pattern patterns forms \<noteq> [] \<Longrightarrow>
   covering_pattern patterns forms \<in> set patterns
   \<and> (\<exists>form \<in> set forms. MatchRule (bash_form form) (covering_pattern patterns forms))"
  by (auto simp: covering_pattern_def list_ex_iff split: option.splits dest!: find_Some_mem)

lemma match_subcommands_covers:
  "match_subcommands patterns acc subs = Some p \<Longrightarrow>
   (\<forall>forms \<in> set subs. \<exists>pat \<in> set patterns. \<exists>form \<in> set forms. MatchRule (bash_form form) pat)
   \<and> (p = acc \<or> p \<in> set patterns)"
proof (induction subs arbitrary: acc)
  case Nil
  then show ?case by simp
next
  case (Cons forms rest)
  then have m: "covering_pattern patterns forms \<noteq> []" by (auto simp: Let_def split: if_splits)
  with Cons.prems have "match_subcommands patterns
      (if acc = [] then covering_pattern patterns forms else acc) rest = Some p"
    by (simp add: Let_def)
  from Cons.IH [OF this] covering_pattern_sound [OF m] show ?case
    by (auto split: if_splits)
qed

text \<open>
  C4: An allow list covers a Bash call only as a whole: when \<open>MatchAllowList\<close> accepts a command,
  every subcommand the parser finds in it has a rule form that some listed pattern matches, so a
  permitted prefix never carries a second command along.
\<close>

theorem allow_list_covers_every_subcommand:
  assumes "MatchAllowList E ''Bash'' args patterns = Some p"
  shows "\<exists>cmd. str_arg args ''command'' = Some cmd \<and> bashSubcommandRuleForms E cmd \<noteq> []
    \<and> (\<forall>forms \<in> set (bashSubcommandRuleForms E cmd).
          \<exists>pat \<in> set patterns. \<exists>form \<in> set forms. MatchRule (bash_form form) pat)"
proof -
  obtain cmd where cmd: "str_arg args ''command'' = Some cmd"
    and ne: "bashSubcommandRuleForms E cmd \<noteq> []"
    and m: "match_subcommands patterns [] (bashSubcommandRuleForms E cmd) = Some p"
    using assms by (auto simp: MatchAllowList_def split: if_splits option.splits list.splits)
  show ?thesis using cmd ne match_subcommands_covers [OF m] by blast
qed

theorem allow_list_covers_every_subcommand_witness:
  "\<exists>cmd. str_arg (bash_call ''npm run build'') ''command'' = Some cmd"
proof -
  have "MatchAllowList demo_env ''Bash'' (bash_call ''npm run build'') [''Bash(npm:*)'']
     = Some ''Bash(npm:*)''" by code_simp
  from allow_list_covers_every_subcommand [OF this] show ?thesis by blast
qed

text \<open>
  Adding deny rules only ever takes permissions away: a call permitted under a longer deny list
  gets the very same decision under any list it contains.
\<close>

theorem deny_rules_are_monotone:
  assumes "CheckPermission E (perms\<lparr>Deny := ds\<rparr>) t args session = Permit"
    and "set (Deny perms) \<subseteq> set ds"
  shows "HasPermissionToUseTool E perms t args session
       = HasPermissionToUseTool E (perms\<lparr>Deny := ds\<rparr>) t args session"
proof -
  have nd: "\<not> deny_hit E (perms\<lparr>Deny := ds\<rparr>) t args"
    using assms(1) gate_deny [of E t args "perms\<lparr>Deny := ds\<rparr>" session] by (auto simp: CheckPermission_def)
  then have nd': "\<not> deny_hit E perms t args" using assms(2) by (auto simp: list_ex_iff)
  have n: "List.find (MatchesToolPattern E t args (BuildRule E t args)) ds = None"
    "List.find (MatchesToolPattern E t args (BuildRule E t args)) (Deny perms) = None"
    using nd nd' by (simp_all add: find_None_list_ex)
  show ?thesis by (simp add: HasPermissionToUseTool_def n split: option.split)
qed

theorem deny_rules_are_monotone_witness:
  "CheckPermission demo_env (demo_perms\<lparr>Deny := []\<rparr>) ''Bash'' (bash_call ''npm run build'') (Some NewSessionPermissions) = Permit"
proof -
  have "CheckPermission demo_env ((demo_perms\<lparr>Deny := []\<rparr>)\<lparr>Deny := [''Read(**/.env)'']\<rparr>)
     ''Bash'' (bash_call ''npm run build'') (Some NewSessionPermissions) = Permit" by code_simp
  from this deny_rules_are_monotone [OF this] show ?thesis by (simp add: CheckPermission_def)
qed

text \<open>
  In read-only mode, without bypass, session allowances or a matching allow rule, the only
  calls permitted are the safe tools, bash commands judged read-only and the cron listing.
\<close>

theorem read_only_mode_permits_only_reads:
  assumes "CheckPermission E perms t args (Some s) = Permit"
    and "Mode s = ModeReadOnly" and "\<not> BypassPermissions s"
    and "session_allow E t args (Some s) = None" and "MatchAllowList E t args (Allow perms) = None"
  shows "IsSafeTool t
    \<or> (t = ''Bash'' \<and> (\<exists>cmd. str_arg args ''command'' = Some cmd \<and> IsReadOnlyBashCommand E cmd))
    \<or> (t = ''Cron'' \<and> str_arg args ''action'' = Some ''list'')"
proof (cases rule: gate_cases [where E = E and perms = perms and t = t and args = args and session = "Some s"])
  case deny
  then show ?thesis using gate_deny [of E t args perms "Some s"] assms(1) by (auto simp: CheckPermission_def)
next
  case breaker
  then show ?thesis using assms(1) by (auto simp: CheckPermission_def gate_breaker coerceAsk_Permit)
next
  case bypass
  then show ?thesis using assms(3) by (simp add: gate_bypass_on)
next
  case (confirmation r v)
  then show ?thesis using assms(1) by (auto simp: CheckPermission_def gate_confirmation coerceAsk_Permit)
next
  case (late v)
  then have "Behavior (late_stages E perms t args (Some s)) = Permit"
    using assms(1) by (simp add: CheckPermission_def gate_late)
  then have "Behavior (modeDefaultDecision E t args (Some s)) = Permit"
    using assms(4,5) by (auto simp: late_stages_def coerceAsk_Permit split: option.splits)
  then show ?thesis using assms(2)
    by (auto simp: modeDefaultDecision_def ModeDefaultForCall_def ModeDefault_def
        split: if_splits option.splits)
qed

theorem read_only_mode_permits_only_reads_witness:
  "IsSafeTool ''Read''"
proof -
  have "CheckPermission demo_env demo_perms ''Read'' (file_call ''/w/a'')
      (Some (SetMode ModeReadOnly NewSessionPermissions)) = Permit" by code_simp
  moreover have "Mode (SetMode ModeReadOnly NewSessionPermissions) = ModeReadOnly" by code_simp
  moreover have "\<not> BypassPermissions (SetMode ModeReadOnly NewSessionPermissions)" by code_simp
  moreover have "session_allow demo_env ''Read'' (file_call ''/w/a'')
      (Some (SetMode ModeReadOnly NewSessionPermissions)) = None" by code_simp
  moreover have "MatchAllowList demo_env ''Read'' (file_call ''/w/a'') (Allow demo_perms) = None" by code_simp
  ultimately show ?thesis using read_only_mode_permits_only_reads by fastforce
qed

text \<open>
  A hook's allow is honoured only for calls outside every safety tier: then no deny rule
  matches, the circuit breaker is not tripped, neither confirmation tier applies, no ask rule
  matches, and without bypass the gate itself would have reached its session and mode stages.
\<close>

theorem hook_allow_respects_safety:
  assumes "ResolveHookAllow E perms t args session"
  shows "CircuitBreakerReason E t args = [] \<and> ConfirmationTier E t args = ([], False)
    \<and> list_all (\<lambda>p. \<not> MatchesToolPattern E t args (BuildRule E t args) p) (Deny perms @ Ask perms)
    \<and> (IsBypassSafe session \<or> HasPermissionToUseTool E perms t args session
           = (case session_allow E t args session of
                Some d \<Rightarrow> d
              | None \<Rightarrow> (case MatchAllowList E t args (Allow perms) of
                           Some p \<Rightarrow> decide Permit (''allow rule: '' @ p)
                         | None \<Rightarrow> coerceAsk (modeDefaultDecision E t args session) session)))"
proof -
  have nd: "\<not> deny_hit E perms t args" and cb: "CircuitBreakerReason E t args = []"
    and cr: "fst (confirmationPromptReason E t args session) = []"
    and na: "\<not> list_ex (MatchesToolPattern E t args (BuildRule E t args)) (Ask perms)"
    using assms by (auto simp: ResolveHookAllow_def Let_def split: if_splits)
  have tier: "ConfirmationTier E t args = ([], False)"
    using cr by (auto simp: confirmationPromptReason_def ConfirmationTier_def Let_def split: if_splits)
  obtain v where v: "confirmationPromptReason E t args session = ([], v)" using cr by (cases "confirmationPromptReason E t args session") auto
  have "\<not> IsBypassSafe session \<Longrightarrow>
      HasPermissionToUseTool E perms t args session = late_stages E perms t args session"
    by (rule gate_late [OF nd cb _ v])
  moreover have "List.find (MatchesToolPattern E t args (BuildRule E t args)) (Ask perms) = None"
    using na by (simp add: find_None_list_ex)
  then have "late_stages E perms t args session
     = (case session_allow E t args session of
          Some d \<Rightarrow> d
        | None \<Rightarrow> (case MatchAllowList E t args (Allow perms) of
                     Some p \<Rightarrow> decide Permit (''allow rule: '' @ p)
                   | None \<Rightarrow> coerceAsk (modeDefaultDecision E t args session) session))"
    by (simp add: late_stages_def split: option.split)
  ultimately show ?thesis using nd cb tier na by (auto simp: list_ex_iff list_all_iff)
qed

theorem hook_allow_respects_safety_witness:
  "ConfirmationTier demo_env ''Bash'' (bash_call ''make all'') = ([], False)"
proof -
  have "ResolveHookAllow demo_env demo_perms ''Bash'' (bash_call ''make all'') (Some NewSessionPermissions)"
    by code_simp
  from hook_allow_respects_safety [OF this] show ?thesis by blast
qed

end
