(* ===== verification/Hook.thy ===== *)
theory Hook
  imports Permission Collections
begin

text \<open>
  The hook engine (\<open>internal/hook\<close>): which hooks an event fires, how each kind runs, what its answer means
  and how the answers are merged.  The programs, endpoints, models and callbacks that a hook is, JSON and
  regular expressions are the environment \<open>hook_env\<close>.  Of the input of a hook the fields are kept which
  the engine reads or writes; the others only pass through JSON.

  A hook with \<open>async\<close> set is put on the list \<open>en_detached\<close> and runs at a later step.  The audit records and
  the reports of detached hooks are kept in the order in which they are delivered.
\<close>

subsection \<open>Events, inputs and answers\<close>

datatype EventType =
    SessionStart | SessionEnd | UserPromptSubmit | PreToolUse | PostToolUse | PostToolUseFailure
  | PermissionRequest_event | PermissionDenied | Stop | StopFailure | Notification | SubagentStart | SubagentStop
  | Setup_event | TaskCreated | TaskCompleted | ConfigChange | InstructionsLoaded | CwdChanged | FileChanged
  | PreCompact | PostCompact | WorktreeCreate | WorktreeRemove

fun event_name :: "EventType \<Rightarrow> string" where
  "event_name SessionStart = ''SessionStart''"
| "event_name SessionEnd = ''SessionEnd''"
| "event_name UserPromptSubmit = ''UserPromptSubmit''"
| "event_name PreToolUse = ''PreToolUse''"
| "event_name PostToolUse = ''PostToolUse''"
| "event_name PostToolUseFailure = ''PostToolUseFailure''"
| "event_name PermissionRequest_event = ''PermissionRequest''"
| "event_name PermissionDenied = ''PermissionDenied''"
| "event_name Stop = ''Stop''"
| "event_name StopFailure = ''StopFailure''"
| "event_name Notification = ''Notification''"
| "event_name SubagentStart = ''SubagentStart''"
| "event_name SubagentStop = ''SubagentStop''"
| "event_name Setup_event = ''Setup''"
| "event_name TaskCreated = ''TaskCreated''"
| "event_name TaskCompleted = ''TaskCompleted''"
| "event_name ConfigChange = ''ConfigChange''"
| "event_name InstructionsLoaded = ''InstructionsLoaded''"
| "event_name CwdChanged = ''CwdChanged''"
| "event_name FileChanged = ''FileChanged''"
| "event_name PreCompact = ''PreCompact''"
| "event_name PostCompact = ''PostCompact''"
| "event_name WorktreeCreate = ''WorktreeCreate''"
| "event_name WorktreeRemove = ''WorktreeRemove''"

record HookInput =
  hi_SessionID :: string
  hi_TranscriptPath :: string
  hi_Cwd :: string
  hi_PermissionMode :: string
  hi_HookEventName :: string
  hi_ToolName :: string
  hi_ToolInput :: tool_args
  hi_NotificationType :: string
  hi_AgentName :: string
  hi_Source :: string
  hi_Reason :: string
  hi_Trigger :: string
  hi_TaskSubject :: string
  hi_FilePath :: string
  hi_NewCwd :: string
  hi_Name :: string
  hi_WorktreePath :: string

record PermissionRequestDecision =
  prd_Behavior :: string
  prd_UpdatedInput :: "tool_args option"
  prd_UpdatedPermissions :: "gval list"
  prd_Message :: string
  prd_Interrupt :: bool

record HookSpecificOutput =
  hso_HookEventName :: string
  hso_PermissionDecision :: string
  hso_PermissionDecisionReason :: string
  hso_UpdatedInput :: "tool_args option"
  hso_AdditionalContext :: string
  hso_Decision :: "PermissionRequestDecision option"
  hso_WatchPaths :: "string list"
  hso_InitialUserMessage :: string
  hso_Retry :: bool

record HookOutput =
  ho_Continue :: "bool option"
  ho_StopReason :: string
  ho_SuppressOutput :: bool
  ho_SystemMessage :: string
  ho_Decision :: string
  ho_Reason :: string
  ho_Specific :: "HookSpecificOutput option"

record PermissionRule =
  rule_ToolName :: string
  rule_Content :: string

record PermissionUpdate =
  pu_Type :: string
  pu_Mode :: string
  pu_Rules :: "PermissionRule list"
  pu_Behavior :: string
  pu_Directories :: "string list"
  pu_Destination :: string

record HookOutcome =
  oc_ShouldContinue :: bool
  oc_ShouldBlock :: bool
  oc_BlockReason :: string
  oc_AdditionalContext :: string
  oc_UpdatedInput :: "tool_args option"
  oc_PermissionAllow :: bool
  oc_PermissionReason :: string
  oc_ForceAsk :: bool
  oc_UpdatedPermissions :: "PermissionUpdate list"
  oc_HookSource :: string
  oc_WatchPaths :: "string list"
  oc_InitialUserMessage :: string
  oc_Retry :: bool
  oc_Error :: "string option"

definition continue_outcome :: HookOutcome where
  "continue_outcome = \<lparr>oc_ShouldContinue = True, oc_ShouldBlock = False, oc_BlockReason = [],
     oc_AdditionalContext = [], oc_UpdatedInput = None, oc_PermissionAllow = False, oc_PermissionReason = [],
     oc_ForceAsk = False, oc_UpdatedPermissions = [], oc_HookSource = [], oc_WatchPaths = [],
     oc_InitialUserMessage = [], oc_Retry = False, oc_Error = None\<rparr>"

definition failed_outcome :: "string \<Rightarrow> HookOutcome" where
  "failed_outcome e = continue_outcome\<lparr>oc_Error := Some e\<rparr>"

subsection \<open>What an answer means\<close>

definition appendContext :: "string \<Rightarrow> string \<Rightarrow> string" where
  "appendContext a b = (if b = [] then a else if a = [] then b else a @ [CHR 0x0A] @ b)"

definition firstNonEmpty :: "string list \<Rightarrow> string" where
  "firstNonEmpty strs = (case List.find (\<lambda>s. s \<noteq> []) strs of Some s \<Rightarrow> s | None \<Rightarrow> [])"

definition getString :: "(string \<times> gval) list \<Rightarrow> string \<Rightarrow> string" where
  "getString m key = (case map_of m key of Some (GStr s) \<Rightarrow> s | _ \<Rightarrow> [])"

definition no_update :: PermissionUpdate where
  "no_update = \<lparr>pu_Type = [], pu_Mode = [], pu_Rules = [], pu_Behavior = [], pu_Directories = [], pu_Destination = []\<rparr>"

fun parse_rules :: "gval list \<Rightarrow> PermissionRule list" where
  "parse_rules [] = []"
| "parse_rules (GObj rm # rs) =
     \<lparr>rule_ToolName = getString rm ''toolName'', rule_Content = getString rm ''ruleContent''\<rparr> # parse_rules rs"
| "parse_rules (_ # rs) = parse_rules rs"

fun parse_directories :: "gval list \<Rightarrow> string list" where
  "parse_directories [] = []"
| "parse_directories (GStr s # ds) = s # parse_directories ds"
| "parse_directories (_ # ds) = parse_directories ds"

fun parsePermissionUpdate :: "gval \<Rightarrow> PermissionUpdate" where
  "parsePermissionUpdate (GObj m) =
     \<lparr>pu_Type = getString m ''type'', pu_Mode = getString m ''mode'',
      pu_Rules = (case map_of m ''rules'' of Some (GList rs) \<Rightarrow> parse_rules rs | _ \<Rightarrow> []),
      pu_Behavior = getString m ''behavior'',
      pu_Directories = (case map_of m ''directories'' of Some (GList ds) \<Rightarrow> parse_directories ds | _ \<Rightarrow> []),
      pu_Destination = getString m ''destination''\<rparr>"
| "parsePermissionUpdate (GStr s) =
     (if s \<noteq> []
      then no_update\<lparr>pu_Type := ''addRules'', pu_Behavior := ''allow'', pu_Destination := ''session'',
             pu_Rules := [\<lparr>rule_ToolName = [], rule_Content = s\<rparr>]\<rparr>
      else no_update)"
| "parsePermissionUpdate _ = no_update"

definition take_input :: "tool_args option \<Rightarrow> HookOutcome \<Rightarrow> HookOutcome" where
  "take_input updated outcome = (if updated = None then outcome else outcome\<lparr>oc_UpdatedInput := updated\<rparr>)"

definition applyPermissionDecision :: "HookOutcome \<Rightarrow> PermissionRequestDecision \<Rightarrow> HookOutcome" where
  "applyPermissionDecision outcome prd =
     (if prd_Behavior prd = ''allow''
      then (take_input (prd_UpdatedInput prd) (outcome\<lparr>oc_PermissionAllow := True, oc_HookSource := ''PermissionRequest''\<rparr>))
             \<lparr>oc_UpdatedPermissions := oc_UpdatedPermissions outcome
                @ List.filter (\<lambda>pu. pu_Type pu \<noteq> []) (List.map parsePermissionUpdate (prd_UpdatedPermissions prd))\<rparr>
      else let outcome =
             (if prd_Behavior prd = ''deny''
              then outcome\<lparr>oc_ShouldContinue := False, oc_ShouldBlock := True,
                     oc_BlockReason := (if prd_Message prd \<noteq> [] then prd_Message prd else ''denied by hook'')\<rparr>
              else outcome);
             outcome = (if prd_Interrupt prd then outcome\<lparr>oc_ShouldContinue := False, oc_ShouldBlock := True\<rparr> else outcome)
           in take_input (prd_UpdatedInput prd) outcome)"

definition apply_tool_decision :: "HookOutcome \<Rightarrow> HookSpecificOutput \<Rightarrow> HookOutcome" where
  "apply_tool_decision outcome hso =
     (if hso_PermissionDecision hso = ''deny''
        then outcome\<lparr>oc_ShouldContinue := False, oc_ShouldBlock := True, oc_BlockReason := hso_PermissionDecisionReason hso\<rparr>
      else if hso_PermissionDecision hso = ''allow''
        then outcome\<lparr>oc_PermissionAllow := True, oc_PermissionReason := hso_PermissionDecisionReason hso,
               oc_HookSource := ''PreToolUse''\<rparr>
      else if hso_PermissionDecision hso = ''ask''
        then outcome\<lparr>oc_ForceAsk := True, oc_PermissionReason := hso_PermissionDecisionReason hso\<rparr>
      else outcome)"

definition applySpecificOutput :: "HookOutcome \<Rightarrow> HookSpecificOutput \<Rightarrow> HookOutcome" where
  "applySpecificOutput outcome hso =
     (let outcome = take_input (hso_UpdatedInput hso) (apply_tool_decision outcome hso);
          outcome = outcome\<lparr>oc_AdditionalContext := appendContext (oc_AdditionalContext outcome) (hso_AdditionalContext hso)\<rparr>;
          outcome = (if hso_WatchPaths hso \<noteq> [] then outcome\<lparr>oc_WatchPaths := hso_WatchPaths hso\<rparr> else outcome);
          outcome = (if hso_InitialUserMessage hso \<noteq> [] then outcome\<lparr>oc_InitialUserMessage := hso_InitialUserMessage hso\<rparr> else outcome);
          outcome = (if hso_Retry hso \<and> hso_HookEventName hso = ''PermissionDenied'' then outcome\<lparr>oc_Retry := True\<rparr> else outcome)
      in case hso_Decision hso of
           None \<Rightarrow> outcome
         | Some prd \<Rightarrow>
             if hso_HookEventName hso = ''PermissionRequest'' then applyPermissionDecision outcome prd else outcome)"

definition applyHookOutput :: "HookOutcome \<Rightarrow> HookOutput \<Rightarrow> HookOutcome" where
  "applyHookOutput outcome hookOutput =
     (let outcome = (if ho_Continue hookOutput = Some False
                     then outcome\<lparr>oc_ShouldContinue := False, oc_ShouldBlock := True,
                            oc_BlockReason := firstNonEmpty [ho_StopReason hookOutput, ho_Reason hookOutput]\<rparr>
                     else outcome);
          outcome = (if ho_SystemMessage hookOutput \<noteq> []
                     then outcome\<lparr>oc_AdditionalContext := ho_SystemMessage hookOutput\<rparr> else outcome)
      in case ho_Specific hookOutput of None \<Rightarrow> outcome | Some hso \<Rightarrow> applySpecificOutput outcome hso)"

definition mergeOutcome :: "HookOutcome \<Rightarrow> HookOutcome \<Rightarrow> HookOutcome" where
  "mergeOutcome outcome result =
     (let outcome = outcome\<lparr>oc_AdditionalContext := appendContext (oc_AdditionalContext outcome) (oc_AdditionalContext result)\<rparr>;
          outcome = take_input (oc_UpdatedInput result) outcome;
          outcome = (if oc_ForceAsk result then outcome\<lparr>oc_ForceAsk := True\<rparr> else outcome);
          outcome = (if oc_PermissionAllow result
                     then outcome\<lparr>oc_PermissionAllow := True, oc_HookSource := oc_HookSource result\<rparr> else outcome);
          outcome = outcome\<lparr>oc_UpdatedPermissions := oc_UpdatedPermissions outcome @ oc_UpdatedPermissions result,
                      oc_WatchPaths := oc_WatchPaths outcome @ oc_WatchPaths result\<rparr>;
          outcome = (if oc_InitialUserMessage result \<noteq> []
                     then outcome\<lparr>oc_InitialUserMessage := oc_InitialUserMessage result\<rparr> else outcome)
      in if oc_Retry result then outcome\<lparr>oc_Retry := True\<rparr> else outcome)"

subsection \<open>Registration\<close>

record HookCmd =
  hc_Type :: string
  hc_Command :: string
  hc_Prompt :: string
  hc_URL :: string
  hc_If :: string
  hc_Shell :: string
  hc_Model :: string
  hc_Async :: bool
  hc_AsyncRewake :: bool
  hc_Timeout :: int
  hc_StatusMessage :: string
  hc_Once :: bool
  hc_Headers :: "(string, string) gomap"
  hc_AllowedEnvVars :: "string list"

record Hook_entry =
  hk_Matcher :: string
  hk_Hooks :: "HookCmd list"

record FunctionHook =
  fh_ID :: string
  fh_Timeout :: int
  fh_Once :: bool
  fh_StatusMessage :: string
  fh_Callback :: "(HookInput \<Rightarrow> string + HookOutput) option"

record functionHookRegistration =
  fr_Matcher :: string
  fr_Hook :: FunctionHook

record hookStore =
  hs_sessionHooks :: "(EventType, Hook_entry list) gomap"
  hs_runtimeHooks :: "(EventType, Hook_entry list) gomap"
  hs_sessionFuncs :: "(EventType, functionHookRegistration list) gomap"
  hs_runtimeFuncs :: "(EventType, functionHookRegistration list) gomap"
  hs_executedOnce :: "(string, unit) gomap"
  hs_functionSeqNo :: nat

definition newHookStore :: hookStore where
  "newHookStore = \<lparr>hs_sessionHooks = gm_empty, hs_runtimeHooks = gm_empty, hs_sessionFuncs = gm_empty,
     hs_runtimeFuncs = gm_empty, hs_executedOnce = gm_empty, hs_functionSeqNo = 0\<rparr>"

text \<open>A missing key of a map of slices reads as the nil slice.\<close>

definition at_event :: "('k, 'a list) gomap \<Rightarrow> 'k \<Rightarrow> 'a list" where
  "at_event m ev = (case gm_get m ev of None \<Rightarrow> [] | Some xs \<Rightarrow> xs)"

definition push_event :: "'k \<Rightarrow> 'a \<Rightarrow> ('k, 'a list) gomap \<Rightarrow> ('k, 'a list) gomap" where
  "push_event ev x m = gm_put ev (at_event m ev @ [x]) m"

definition AddSessionHook :: "EventType \<Rightarrow> string \<Rightarrow> HookCmd \<Rightarrow> hookStore \<Rightarrow> hookStore" where
  "AddSessionHook ev matcher hook s =
     s\<lparr>hs_sessionHooks := push_event ev \<lparr>hk_Matcher = matcher, hk_Hooks = [hook]\<rparr> (hs_sessionHooks s)\<rparr>"

definition AddRuntimeHook :: "EventType \<Rightarrow> string \<Rightarrow> HookCmd \<Rightarrow> hookStore \<Rightarrow> hookStore" where
  "AddRuntimeHook ev matcher hook s =
     s\<lparr>hs_runtimeHooks := push_event ev \<lparr>hk_Matcher = matcher, hk_Hooks = [hook]\<rparr> (hs_runtimeHooks s)\<rparr>"

definition ensureFunctionHookID :: "string \<Rightarrow> EventType \<Rightarrow> string \<Rightarrow> hookStore \<Rightarrow> string \<times> hookStore" where
  "ensureFunctionHookID scope ev current s =
     (if current \<noteq> [] then (current, s)
      else let s = s\<lparr>hs_functionSeqNo := hs_functionSeqNo s + 1\<rparr>
           in (scope @ ''-'' @ event_name ev @ ''-'' @ nat_str (hs_functionSeqNo s), s))"

definition AddSessionFunctionHook :: "EventType \<Rightarrow> string \<Rightarrow> FunctionHook \<Rightarrow> hookStore \<Rightarrow> string \<times> hookStore" where
  "AddSessionFunctionHook ev matcher hook s =
     (let (i, s) = ensureFunctionHookID ''session'' ev (fh_ID hook) s
      in (i, s\<lparr>hs_sessionFuncs := push_event ev \<lparr>fr_Matcher = matcher, fr_Hook = hook\<lparr>fh_ID := i\<rparr>\<rparr> (hs_sessionFuncs s)\<rparr>))"

definition AddRuntimeFunctionHook :: "EventType \<Rightarrow> string \<Rightarrow> FunctionHook \<Rightarrow> hookStore \<Rightarrow> string \<times> hookStore" where
  "AddRuntimeFunctionHook ev matcher hook s =
     (let (i, s) = ensureFunctionHookID ''runtime'' ev (fh_ID hook) s
      in (i, s\<lparr>hs_runtimeFuncs := push_event ev \<lparr>fr_Matcher = matcher, fr_Hook = hook\<lparr>fh_ID := i\<rparr>\<rparr> (hs_runtimeFuncs s)\<rparr>))"

fun remove_first :: "('a \<Rightarrow> bool) \<Rightarrow> 'a list \<Rightarrow> 'a list option" where
  "remove_first P [] = None"
| "remove_first P (x # xs) = (if P x then Some xs else map_option (\<lambda>ys. x # ys) (remove_first P xs))"

definition removeFunctionHookByID ::
    "(EventType, functionHookRegistration list) gomap \<Rightarrow> EventType \<Rightarrow> string
     \<Rightarrow> bool \<times> (EventType, functionHookRegistration list) gomap" where
  "removeFunctionHookByID store ev i =
     (case remove_first (\<lambda>h. fh_ID (fr_Hook h) = i) (at_event store ev) of
        None \<Rightarrow> (False, store)
      | Some rest \<Rightarrow> (True, if rest = [] then gm_del ev store else gm_put ev rest store))"

definition RemoveSessionFunctionHook :: "EventType \<Rightarrow> string \<Rightarrow> hookStore \<Rightarrow> bool \<times> hookStore" where
  "RemoveSessionFunctionHook ev i s =
     (let (b, m) = removeFunctionHookByID (hs_sessionFuncs s) ev i in (b, s\<lparr>hs_sessionFuncs := m\<rparr>))"

definition RemoveRuntimeFunctionHook :: "EventType \<Rightarrow> string \<Rightarrow> hookStore \<Rightarrow> bool \<times> hookStore" where
  "RemoveRuntimeFunctionHook ev i s =
     (let (b, m) = removeFunctionHookByID (hs_runtimeFuncs s) ev i in (b, s\<lparr>hs_runtimeFuncs := m\<rparr>))"

definition ClearSessionHooks :: "hookStore \<Rightarrow> hookStore" where
  "ClearSessionHooks s = s\<lparr>hs_sessionHooks := gm_empty, hs_sessionFuncs := gm_empty, hs_executedOnce := gm_empty\<rparr>"

record hookSource =
  src_Matcher :: string
  src_Hooks :: "HookCmd list"
  src_Source :: string

record functionHookSource =
  fsrc_Matcher :: string
  fsrc_Hooks :: "FunctionHook list"
  fsrc_Source :: string

type_synonym settings_hooks = "(string, Hook_entry list) gomap option"

definition settings_at :: "settings_hooks \<Rightarrow> EventType \<Rightarrow> Hook_entry list" where
  "settings_at settings ev = (case settings of None \<Rightarrow> [] | Some hooks \<Rightarrow> at_event hooks (event_name ev))"

definition CollectHooks :: "EventType \<Rightarrow> settings_hooks \<Rightarrow> hookStore \<Rightarrow> hookSource list" where
  "CollectHooks ev settings s =
     (let from = (\<lambda>src. List.map (\<lambda>h. \<lparr>src_Matcher = hk_Matcher h, src_Hooks = hk_Hooks h, src_Source = src\<rparr>))
      in from ''settings'' (settings_at settings ev) @ from ''runtime'' (at_event (hs_runtimeHooks s) ev)
         @ from ''session'' (at_event (hs_sessionHooks s) ev))"

definition CollectFunctionHooks :: "EventType \<Rightarrow> hookStore \<Rightarrow> functionHookSource list" where
  "CollectFunctionHooks ev s =
     (let from = (\<lambda>src. List.map (\<lambda>h. \<lparr>fsrc_Matcher = fr_Matcher h, fsrc_Hooks = [fr_Hook h], fsrc_Source = src\<rparr>))
      in from ''runtime'' (at_event (hs_runtimeFuncs s) ev) @ from ''session'' (at_event (hs_sessionFuncs s) ev))"

definition CheckOnce :: "string \<Rightarrow> hookStore \<Rightarrow> bool \<times> hookStore" where
  "CheckOnce key s =
     (if gm_get (hs_executedOnce s) key \<noteq> None then (False, s)
      else (True, s\<lparr>hs_executedOnce := gm_put key () (hs_executedOnce s)\<rparr>))"

definition store_HasHooks :: "EventType \<Rightarrow> settings_hooks \<Rightarrow> hookStore \<Rightarrow> bool" where
  "store_HasHooks ev settings s \<longleftrightarrow>
     settings_at settings ev \<noteq> [] \<or> at_event (hs_sessionHooks s) ev \<noteq> [] \<or> at_event (hs_runtimeHooks s) ev \<noteq> []
     \<or> at_event (hs_sessionFuncs s) ev \<noteq> [] \<or> at_event (hs_runtimeFuncs s) ev \<noteq> []"

subsection \<open>The engine\<close>

record HookFiredAudit =
  au_Event :: string
  au_Source :: string
  au_Matcher :: string
  au_Outcome :: string
  au_Reason :: string

record AsyncHookResult =
  ar_Event :: EventType
  ar_HookType :: string
  ar_HookSource :: string
  ar_HookName :: string
  ar_BlockReason :: string

record matchedHook =
  mh_Event :: EventType
  mh_Matcher :: string
  mh_Source :: string
  mh_Command :: "HookCmd option"
  mh_Func :: "FunctionHook option"

record PromptRequest_msg =
  pq_Prompt :: string
  pq_Message :: string

record PromptResponse =
  ps_PromptResponse :: string
  ps_Selected :: string

type_synonym PromptCallback = "PromptRequest_msg \<Rightarrow> PromptResponse \<times> bool"

type_synonym LLMCompleter = "string \<Rightarrow> string \<Rightarrow> string \<Rightarrow> string + string"

record statusTracker =
  tr_seq :: nat
  tr_active :: "(string, string \<times> nat) gomap"

record Engine =
  en_settings :: settings_hooks
  en_sessionID :: string
  en_cwd :: string
  en_transcriptPath :: string
  en_permissionMode :: string
  en_promptCallback :: "PromptCallback option"
  en_llmCompleter :: "LLMCompleter option"
  en_hookModel :: string
  en_asyncCallback :: bool
  en_auditCallback :: bool
  en_store :: hookStore
  en_status :: statusTracker
  en_detached :: "(matchedHook \<times> HookInput) list"
  en_audits :: "HookFiredAudit list"
  en_async_results :: "AsyncHookResult list"
  en_ran :: "(matchedHook \<times> HookInput) list"

definition NewEngine :: "settings_hooks \<Rightarrow> string \<Rightarrow> string \<Rightarrow> string \<Rightarrow> Engine" where
  "NewEngine settings sessionID cwd transcriptPath =
     \<lparr>en_settings = settings, en_sessionID = sessionID, en_cwd = cwd, en_transcriptPath = transcriptPath,
      en_permissionMode = ''default'', en_promptCallback = None, en_llmCompleter = None, en_hookModel = [],
      en_asyncCallback = False, en_auditCallback = False, en_store = newHookStore,
      en_status = \<lparr>tr_seq = 0, tr_active = gm_empty\<rparr>, en_detached = [], en_audits = [], en_async_results = [], en_ran = []\<rparr>"

definition Initialize_engine ::
    "settings_hooks \<Rightarrow> string \<Rightarrow> string \<Rightarrow> string \<Rightarrow> LLMCompleter option \<Rightarrow> string \<Rightarrow> Engine" where
  "Initialize_engine settings sessionID cwd transcriptPath completer modelID =
     (NewEngine settings sessionID cwd transcriptPath)\<lparr>en_llmCompleter := completer, en_hookModel := modelID\<rparr>"

text \<open>The status line: the message of the hook started last among those that run.\<close>

definition status_Start :: "string \<Rightarrow> statusTracker \<Rightarrow> string \<times> statusTracker" where
  "status_Start message t =
     (if message = [] then ([], t)
      else let seq = tr_seq t + 1; key = ''status-'' @ nat_str seq
           in (key, t\<lparr>tr_seq := seq, tr_active := gm_put key (message, seq) (tr_active t)\<rparr>))"

definition status_End :: "string \<Rightarrow> statusTracker \<Rightarrow> statusTracker" where
  "status_End i t = (if i = [] then t else t\<lparr>tr_active := gm_del i (tr_active t)\<rparr>)"

definition CurrentMessage :: "statusTracker \<Rightarrow> string" where
  "CurrentMessage t =
     fst (fold (\<lambda>(m, n) (message, maxSeq). if maxSeq \<le> n then (m, n) else (message, maxSeq)) (gm_vals (tr_active t)) ([], 0))"

definition audit_hook :: "HookFiredAudit \<Rightarrow> Engine \<Rightarrow> Engine" where
  "audit_hook a e = (if en_auditCallback e then e\<lparr>en_audits := en_audits e @ [a]\<rparr> else e)"

text \<open>
  An interactive program is a function \<open>he_line\<close> from its command, what was written to it and what it
  printed, to its next line; \<open>he_lines\<close> bounds how many lines it prints before its timeout kills it.
\<close>

text \<open>The environment: regular expressions, JSON, programs, their interactive form, HTTP, and the process environment.\<close>

record proc_result =
  pr_exit :: int
  pr_runErr :: string
  pr_stdout :: string
  pr_stderr :: string

record hook_env =
  he_sys :: sys_env
  he_regex :: "string \<Rightarrow> (string \<Rightarrow> bool) option"
  he_marshal :: "HookInput \<Rightarrow> string + string"
  he_decode :: "string \<Rightarrow> string + HookOutput"
  he_run :: "string list \<Rightarrow> string \<Rightarrow> string list \<Rightarrow> string \<Rightarrow> int \<Rightarrow> proc_result"
  he_start :: "string list \<Rightarrow> string option"
  he_write :: "string \<Rightarrow> bool"
  he_lines :: nat
  he_line :: "string list \<Rightarrow> string list \<Rightarrow> string list \<Rightarrow> string option"
  he_exit :: "string list \<Rightarrow> string list \<Rightarrow> int \<times> string"
  he_is_async :: "string \<Rightarrow> bool"
  he_request :: "string \<Rightarrow> PromptRequest_msg option"
  he_response :: "PromptResponse \<Rightarrow> string + string"
  he_http :: "string \<Rightarrow> (string \<times> string) list \<Rightarrow> string \<Rightarrow> string + int \<times> (string + string)"
  he_environ :: "string list"
  he_getenv :: "string \<Rightarrow> string"
  he_provided :: "string list"

subsection \<open>Which hooks fire\<close>

text \<open>A pattern is anchored at both ends; one that does not compile is compared as it is.\<close>

definition matchesEvent :: "hook_env \<Rightarrow> string \<Rightarrow> string \<Rightarrow> bool" where
  "matchesEvent H matcher matchValue =
     (if matcher \<in> {[], ''*''} then True
      else case he_regex H (''^('' @ matcher @ '')$'') of Some re \<Rightarrow> re matchValue | None \<Rightarrow> matcher = matchValue)"

definition tool_events :: "EventType set" where
  "tool_events = {PreToolUse, PostToolUse, PostToolUseFailure, PermissionRequest_event, PermissionDenied}"

definition getMatchValue :: "EventType \<Rightarrow> HookInput \<Rightarrow> string" where
  "getMatchValue ev input =
     (if ev \<in> tool_events then hi_ToolName input
      else case ev of
             SessionStart \<Rightarrow> hi_Source input
           | SessionEnd \<Rightarrow> hi_Reason input
           | Notification \<Rightarrow> hi_NotificationType input
           | Setup_event \<Rightarrow> hi_Trigger input
           | SubagentStart \<Rightarrow> hi_AgentName input
           | SubagentStop \<Rightarrow> hi_AgentName input
           | TaskCreated \<Rightarrow> hi_TaskSubject input
           | TaskCompleted \<Rightarrow> hi_TaskSubject input
           | ConfigChange \<Rightarrow> hi_Source input
           | InstructionsLoaded \<Rightarrow> hi_FilePath input
           | CwdChanged \<Rightarrow> hi_NewCwd input
           | FileChanged \<Rightarrow> hi_FilePath input
           | PreCompact \<Rightarrow> hi_Trigger input
           | PostCompact \<Rightarrow> hi_Trigger input
           | WorktreeCreate \<Rightarrow> hi_Name input
           | WorktreeRemove \<Rightarrow> hi_WorktreePath input
           | _ \<Rightarrow> [])"

definition eventSupportsMatcher :: "EventType \<Rightarrow> bool" where
  "eventSupportsMatcher ev \<longleftrightarrow> ev \<notin> {UserPromptSubmit, Stop, StopFailure}"

definition populateInputFields :: "Engine \<Rightarrow> EventType \<Rightarrow> HookInput \<Rightarrow> HookInput" where
  "populateInputFields e ev input =
     (let input = input\<lparr>hi_SessionID := en_sessionID e, hi_TranscriptPath := en_transcriptPath e, hi_Cwd := en_cwd e,
                    hi_HookEventName := event_name ev\<rparr>
      in if ev \<in> {SessionStart, SessionEnd, Notification, SubagentStart, PreCompact} then input
         else input\<lparr>hi_PermissionMode := en_permissionMode e\<rparr>)"

definition matchesIfCondition :: "hook_env \<Rightarrow> HookCmd \<Rightarrow> HookInput \<Rightarrow> bool" where
  "matchesIfCondition H cmd input =
     (if hc_If cmd = [] then True
      else if hi_HookEventName input \<in> event_name ` tool_events
      then let rule = BuildRule (he_sys H) (hi_ToolName input) (hi_ToolInput input)
           in MatchesToolPattern (he_sys H) (hi_ToolName input) (hi_ToolInput input) rule (hc_If cmd)
              \<or> (hi_ToolName input = ''Bash''
                 \<and> (case str_arg (hi_ToolInput input) ''command'' of
                      None \<Rightarrow> False
                    | Some raw \<Rightarrow> MatchRule (''Bash('' @ trim_space raw @ '')'') (hc_If cmd)))
      else False)"

definition normalizedHookType :: "HookCmd \<Rightarrow> string" where
  "normalizedHookType cmd = (if hc_Type cmd = [] then ''command'' else hc_Type cmd)"

definition hookIdentity :: "HookCmd \<Rightarrow> string" where
  "hookIdentity cmd =
     (if normalizedHookType cmd \<in> {''prompt'', ''agent''} then hc_Prompt cmd @ ''|'' @ hc_If cmd @ ''|'' @ hc_Model cmd
      else if normalizedHookType cmd = ''http'' then hc_URL cmd @ ''|'' @ hc_If cmd
      else hc_Command cmd @ ''|'' @ hc_If cmd @ ''|'' @ hc_Shell cmd)"

definition matchedHookType :: "matchedHook \<Rightarrow> string" where
  "matchedHookType h =
     (if mh_Func h \<noteq> None then ''function''
      else case mh_Command h of Some c \<Rightarrow> normalizedHookType c | None \<Rightarrow> [])"

definition matchedHookIdentity :: "matchedHook \<Rightarrow> string" where
  "matchedHookIdentity h =
     (case mh_Func h of Some f \<Rightarrow> fh_ID f | None \<Rightarrow> (case mh_Command h of Some c \<Rightarrow> hookIdentity c | None \<Rightarrow> []))"

definition matchedHookStatusMessage :: "matchedHook \<Rightarrow> string" where
  "matchedHookStatusMessage h =
     (case mh_Func h of Some f \<Rightarrow> fh_StatusMessage f
      | None \<Rightarrow> (case mh_Command h of Some c \<Rightarrow> hc_StatusMessage c | None \<Rightarrow> []))"

definition hookRunsOnce :: "matchedHook \<Rightarrow> bool" where
  "hookRunsOnce h =
     (case mh_Command h of Some c \<Rightarrow> hc_Once c
      | None \<Rightarrow> (case mh_Func h of Some f \<Rightarrow> fh_Once f | None \<Rightarrow> False))"

definition once_key :: "matchedHook \<Rightarrow> string" where
  "once_key h = join_str ''|'' [event_name (mh_Event h), mh_Source h, mh_Matcher h, matchedHookType h, matchedHookIdentity h]"

definition shouldRunHook :: "matchedHook \<Rightarrow> hookStore \<Rightarrow> bool \<times> hookStore" where
  "shouldRunHook h s = (if \<not> hookRunsOnce h then (True, s) else CheckOnce (once_key h) s)"

definition candidate_hooks :: "hook_env \<Rightarrow> EventType \<Rightarrow> HookInput \<Rightarrow> Engine \<Rightarrow> matchedHook list" where
  "candidate_hooks H ev input e =
     (let matchValue = getMatchValue ev input
      in concat (List.map (\<lambda>src. List.map (\<lambda>c. \<lparr>mh_Event = ev, mh_Matcher = src_Matcher src, mh_Source = src_Source src,
                                       mh_Command = Some c, mh_Func = None\<rparr>)
                      (List.filter (\<lambda>c. matchesIfCondition H c input) (src_Hooks src)))
           (List.filter (\<lambda>src. matchesEvent H (src_Matcher src) matchValue) (CollectHooks ev (en_settings e) (en_store e))))
         @ concat (List.map (\<lambda>src. List.map (\<lambda>f. \<lparr>mh_Event = ev, mh_Matcher = fsrc_Matcher src, mh_Source = fsrc_Source src,
                                       mh_Command = None, mh_Func = Some f\<rparr>) (fsrc_Hooks src))
           (List.filter (\<lambda>src. matchesEvent H (fsrc_Matcher src) matchValue) (CollectFunctionHooks ev (en_store e)))))"

fun claim_hooks :: "matchedHook list \<Rightarrow> hookStore \<Rightarrow> matchedHook list \<times> hookStore" where
  "claim_hooks [] s = ([], s)"
| "claim_hooks (h # hs) s =
     (let (run, s) = shouldRunHook h s; (rest, s) = claim_hooks hs s in (if run then h # rest else rest, s))"

definition getMatchingHooks :: "hook_env \<Rightarrow> EventType \<Rightarrow> HookInput \<Rightarrow> Engine \<Rightarrow> matchedHook list \<times> HookInput \<times> Engine" where
  "getMatchingHooks H ev input e =
     (let input = populateInputFields e ev input;
          (hooks, store) = claim_hooks (candidate_hooks H ev input e) (en_store e)
      in (hooks, input, e\<lparr>en_store := store\<rparr>))"

subsection \<open>Running one hook\<close>

definition EnvPair :: "string \<Rightarrow> string \<Rightarrow> string list" where
  "EnvPair key v = [''PCB_'' @ key @ ''='' @ v, ''CLAUDE_'' @ key @ ''='' @ v]"

definition buildEnv :: "hook_env \<Rightarrow> Engine \<Rightarrow> HookInput \<Rightarrow> string list" where
  "buildEnv H e input =
     he_environ H @ EnvPair ''PROJECT_DIR'' (en_cwd e) @ EnvPair ''SESSION_ID'' (en_sessionID e)
     @ EnvPair ''EVENT_TYPE'' (hi_HookEventName input)
     @ (if hi_ToolName input \<noteq> [] then EnvPair ''TOOL_NAME'' (hi_ToolName input) else [])
     @ he_provided H"

definition buildShellCommand :: "HookCmd \<Rightarrow> string list" where
  "buildShellCommand cmd =
     (if to_lower (trim_space (hc_Shell cmd)) \<in> {''powershell'', ''pwsh''}
      then [''pwsh'', ''-NoProfile'', ''-Command'', hc_Command cmd]
      else [''sh'', ''-c'', hc_Command cmd])"

definition defaultTimeout :: int where "defaultTimeout = 600"

definition handleBlockingExit :: "string \<Rightarrow> HookOutcome" where
  "handleBlockingExit stderr =
     continue_outcome\<lparr>oc_ShouldContinue := False, oc_ShouldBlock := True,
       oc_BlockReason := (let reason = trim_space stderr in if reason = [] then ''Hook blocked execution'' else reason)\<rparr>"

definition commandFailure :: "int \<Rightarrow> string \<Rightarrow> string" where
  "commandFailure exitCode stderr =
     (let reason = trim_space stderr; reason = takeWhile (\<lambda>c. c \<noteq> CHR 0x0A) reason
      in if reason = [] then ''hook exited '' @ int_str exitCode
         else ''hook exited '' @ int_str exitCode @ '': '' @ reason)"

definition parseOutput :: "hook_env \<Rightarrow> string \<Rightarrow> HookOutcome \<Rightarrow> HookOutcome" where
  "parseOutput H output outcome =
     (if output = [] then outcome
      else case he_decode H output of
             Inl e \<Rightarrow> outcome\<lparr>oc_Error := Some (''hook output not valid JSON: '' @ e)\<rparr>
           | Inr hookOutput \<Rightarrow> applyHookOutput outcome hookOutput)"

definition hook_timeout :: "int \<Rightarrow> int" where
  "hook_timeout t = (if 0 < t then t else defaultTimeout)"

definition executeCommand :: "hook_env \<Rightarrow> Engine \<Rightarrow> HookCmd \<Rightarrow> HookInput \<Rightarrow> HookOutcome" where
  "executeCommand H e cmd input =
     (if hc_Command cmd = [] then continue_outcome
      else case he_marshal H input of
             Inl err \<Rightarrow> failed_outcome (''failed to marshal input: '' @ err)
           | Inr inputJSON \<Rightarrow>
               (let r = he_run H (buildShellCommand cmd) (en_cwd e) (buildEnv H e input) inputJSON (hook_timeout (hc_Timeout cmd))
                in if pr_exit r < 0 then failed_outcome (pr_runErr r)
                   else if pr_exit r = 2 then handleBlockingExit (pr_stderr r)
                   else if pr_exit r \<noteq> 0 then failed_outcome (commandFailure (pr_exit r) (pr_stderr r))
                   else parseOutput H (trim_space (pr_stdout r)) continue_outcome))"

datatype bidi_end = Detached | Cancelled | Ended string

fun bidi_loop :: "hook_env \<Rightarrow> PromptCallback option \<Rightarrow> string list \<Rightarrow> nat \<Rightarrow> bool \<Rightarrow> string list \<Rightarrow> string list
    \<Rightarrow> string \<Rightarrow> bidi_end \<times> string list" where
  "bidi_loop H cb argv 0 firstLine written seen final = (Ended final, written)"
| "bidi_loop H cb argv (Suc n) firstLine written seen final =
     (case he_line H argv written seen of
        None \<Rightarrow> (Ended final, written)
      | Some raw \<Rightarrow>
          (let line = trim_space raw; seen = seen @ [raw]
           in if line = [] then bidi_loop H cb argv n firstLine written seen final
              else if firstLine \<and> he_is_async H line then (Detached, written)
              else case he_request H line of
                     Some req \<Rightarrow>
                       if pq_Prompt req \<noteq> [] \<and> pq_Message req \<noteq> []
                       then (case cb of
                               None \<Rightarrow> bidi_loop H cb argv n False written seen final
                             | Some ask \<Rightarrow>
                                 (let (resp, cancelled) = ask req
                                  in if cancelled then (Cancelled, written)
                                     else case he_response H resp of
                                            Inl _ \<Rightarrow> bidi_loop H cb argv n False written seen final
                                          | Inr json \<Rightarrow>
                                              if he_write H json
                                              then bidi_loop H cb argv n False (written @ [json]) seen final
                                              else (Ended final, written)))
                       else bidi_loop H cb argv n False written seen line
                   | None \<Rightarrow> bidi_loop H cb argv n False written seen line))"

definition executeCommandBidirectional :: "hook_env \<Rightarrow> Engine \<Rightarrow> HookCmd \<Rightarrow> HookInput \<Rightarrow> HookOutcome" where
  "executeCommandBidirectional H e cmd input =
     (if hc_Command cmd = [] then continue_outcome
      else case he_marshal H input of
             Inl err \<Rightarrow> failed_outcome (''failed to marshal input: '' @ err)
           | Inr inputJSON \<Rightarrow>
               (let argv = buildShellCommand cmd
                in case he_start H argv of
                     Some err \<Rightarrow> failed_outcome (''failed to start hook: '' @ err)
                   | None \<Rightarrow>
                       if \<not> he_write H inputJSON then failed_outcome ''failed to write to stdin: broken pipe''
                       else case bidi_loop H (en_promptCallback e) argv (he_lines H) True [inputJSON] [] [] of
                              (Ended final, written) \<Rightarrow>
                                (let (exitCode, stderr) = he_exit H argv written
                                 in if exitCode = 2 then handleBlockingExit stderr
                                    else if exitCode \<noteq> 0 \<and> 0 \<le> exitCode then continue_outcome
                                    else parseOutput H final continue_outcome)
                            | _ \<Rightarrow> continue_outcome))"

definition hookJSONResponseInstruction :: string where
  "hookJSONResponseInstruction =
     ''Return exactly one JSON object matching the hook output schema. Do not include markdown fences or commentary.''"

definition buildHookPrompt :: "string \<Rightarrow> string \<Rightarrow> string" where
  "buildHookPrompt template inputJSON =
     (if contains_str template ''$ARGUMENTS'' then replace_all template ''$ARGUMENTS'' inputJSON
      else trim_space (template @ [CHR 0x0A, CHR 0x0A] @ ''Hook input JSON:'' @ [CHR 0x0A] @ inputJSON))"

definition resolveModel :: "Engine \<Rightarrow> HookCmd \<Rightarrow> string" where
  "resolveModel e cmd = (if hc_Model cmd \<noteq> [] then hc_Model cmd else en_hookModel e)"

definition complete_hook :: "hook_env \<Rightarrow> LLMCompleter \<Rightarrow> string \<Rightarrow> string \<Rightarrow> string \<Rightarrow> HookOutcome" where
  "complete_hook H completer system prompt modelID =
     (case completer system prompt modelID of
        Inl err \<Rightarrow> failed_outcome err
      | Inr resp \<Rightarrow> parseOutput H (trim_space resp) continue_outcome)"

definition executePromptHook :: "hook_env \<Rightarrow> Engine \<Rightarrow> HookCmd \<Rightarrow> HookInput \<Rightarrow> HookOutcome" where
  "executePromptHook H e cmd input =
     (case en_llmCompleter e of
        None \<Rightarrow> failed_outcome ''prompt hook requires an active provider and model''
      | Some completer \<Rightarrow>
          if resolveModel e cmd = [] then failed_outcome ''prompt hook requires an active provider and model''
          else case he_marshal H input of
                 Inl err \<Rightarrow> failed_outcome (''failed to marshal input: '' @ err)
               | Inr inputJSON \<Rightarrow>
                   complete_hook H completer hookJSONResponseInstruction (buildHookPrompt (hc_Prompt cmd) inputJSON)
                     (resolveModel e cmd))"

definition agent_hook_prompt :: string where
  "agent_hook_prompt = ''You are an autonomous hook verifier. Reason through the request and return only hook JSON.''
     @ [CHR 0x0A] @ hookJSONResponseInstruction"

definition executeAgentHook :: "hook_env \<Rightarrow> Engine \<Rightarrow> HookCmd \<Rightarrow> HookInput \<Rightarrow> HookOutcome" where
  "executeAgentHook H e cmd input =
     (case he_marshal H input of
        Inl err \<Rightarrow> failed_outcome (''failed to marshal input: '' @ err)
      | Inr inputJSON \<Rightarrow>
          (case en_llmCompleter e of
             None \<Rightarrow> failed_outcome ''agent hook requires an active provider and model''
           | Some completer \<Rightarrow>
               if resolveModel e cmd = [] then failed_outcome ''agent hook requires an active provider and model''
               else complete_hook H completer agent_hook_prompt (buildHookPrompt (hc_Prompt cmd) inputJSON) (resolveModel e cmd)))"

text \<open>\<open>envInterpolationPattern\<close>: a dollar sign, an optional brace, a name, an optional brace.\<close>

definition is_name_start :: "char \<Rightarrow> bool" where
  "is_name_start c \<longleftrightarrow> is_lower c \<or> is_upper c \<or> c = CHR ''_''"

definition is_name_char :: "char \<Rightarrow> bool" where
  "is_name_char c \<longleftrightarrow> is_name_start c \<or> is_digit c"

definition drop_char :: "char \<Rightarrow> string \<Rightarrow> string" where
  "drop_char c s = (case s of x # xs \<Rightarrow> if x = c then xs else s | [] \<Rightarrow> [])"

definition env_reference :: "string \<Rightarrow> (string \<times> string) option" where
  "env_reference s =
     (case s of
        CHR ''$'' # rest \<Rightarrow>
          (case drop_char CHR ''{'' rest of
             c # cs \<Rightarrow> if is_name_start c
                       then Some (c # takeWhile is_name_char cs, drop_char CHR ''}'' (dropWhile is_name_char cs))
                       else None
           | [] \<Rightarrow> None)
      | _ \<Rightarrow> None)"

lemma drop_char_length: "length (drop_char c s) \<le> length s"
  by (cases s) (auto simp: drop_char_def)

lemma env_reference_shrinks: "env_reference s = Some (n, rest) \<Longrightarrow> length rest < length s"
proof (cases s)
  case (Cons d ds)
  assume a: "env_reference s = Some (n, rest)"
  then have d: "d = CHR ''$''" using Cons by (auto simp: env_reference_def split: list.splits char.splits bool.splits)
  then obtain c cs where c: "drop_char CHR ''{'' ds = c # cs" "rest = drop_char CHR ''}'' (dropWhile is_name_char cs)"
    using a Cons by (auto simp: env_reference_def split: list.splits if_splits)
  have "length rest \<le> length cs"
    using c(2) drop_char_length order_trans length_dropWhile_le by metis
  moreover have "length (c # cs) \<le> length ds" using drop_char_length [of "CHR ''{''" ds] c(1) by simp
  ultimately show ?thesis using Cons by simp
qed (simp add: env_reference_def)

function interpolateAllowedEnv :: "(string \<Rightarrow> string) \<Rightarrow> string list \<Rightarrow> string \<Rightarrow> string" where
  "interpolateAllowedEnv getenv allowed s =
     (case s of
        [] \<Rightarrow> []
      | c # cs \<Rightarrow>
          (case env_reference s of
             Some (name, rest) \<Rightarrow>
               (if name \<in> set allowed then getenv name else []) @ interpolateAllowedEnv getenv allowed rest
           | None \<Rightarrow> c # interpolateAllowedEnv getenv allowed cs))"
  by pat_completeness auto
termination by (relation "measure (\<lambda>(_, _, s). length s)") (auto dest: env_reference_shrinks)

declare interpolateAllowedEnv.simps [simp del]

definition executeHTTPHook :: "hook_env \<Rightarrow> Engine \<Rightarrow> HookCmd \<Rightarrow> HookInput \<Rightarrow> HookOutcome" where
  "executeHTTPHook H e cmd input =
     (if hc_URL cmd = [] then failed_outcome ''http hook missing url''
      else case he_marshal H input of
             Inl err \<Rightarrow> failed_outcome (''failed to marshal input: '' @ err)
           | Inr inputJSON \<Rightarrow>
               (let headers = (''Content-Type'', ''application/json'')
                      # List.map (\<lambda>(k, v). (k, interpolateAllowedEnv (he_getenv H) (hc_AllowedEnvVars cmd) v)) (hc_Headers cmd)
                in case he_http H (hc_URL cmd) headers inputJSON of
                     Inl err \<Rightarrow> failed_outcome err
                   | Inr (code, body) \<Rightarrow>
                       (case body of
                          Inl err \<Rightarrow> failed_outcome err
                        | Inr reply \<Rightarrow>
                            if 400 \<le> code then failed_outcome (''http hook failed with status '' @ int_str code)
                            else parseOutput H (trim_space (take 10485760 reply)) continue_outcome)))"

definition executeFunctionHook :: "FunctionHook \<Rightarrow> HookInput \<Rightarrow> HookOutcome" where
  "executeFunctionHook f input =
     (case fh_Callback f of
        None \<Rightarrow> failed_outcome (''function hook '' @ [CHR 0x22] @ fh_ID f @ [CHR 0x22] @ '' has no callback'')
      | Some callback \<Rightarrow>
          (case callback input of Inl err \<Rightarrow> failed_outcome err | Inr output \<Rightarrow> applyHookOutput continue_outcome output))"

definition run_payload :: "hook_env \<Rightarrow> Engine \<Rightarrow> matchedHook \<Rightarrow> HookInput \<Rightarrow> HookOutcome" where
  "run_payload H e h input =
     (case mh_Func h of
        Some f \<Rightarrow> executeFunctionHook f input
      | None \<Rightarrow>
          (case mh_Command h of
             None \<Rightarrow> failed_outcome ''hook has no executable payload''
           | Some cmd \<Rightarrow>
               if normalizedHookType cmd = ''command''
                 then if en_promptCallback e \<noteq> None then executeCommandBidirectional H e cmd input
                      else executeCommand H e cmd input
               else if normalizedHookType cmd = ''prompt'' then executePromptHook H e cmd input
               else if normalizedHookType cmd = ''agent'' then executeAgentHook H e cmd input
               else if normalizedHookType cmd = ''http'' then executeHTTPHook H e cmd input
               else failed_outcome (''unsupported hook type: '' @ hc_Type cmd)))"

text \<open>
  Running a hook has effects outside; \<open>en_ran\<close> is the list of the hooks that were run, with the input they got,
  in their order.
\<close>

definition executeMatchedHook :: "hook_env \<Rightarrow> matchedHook \<Rightarrow> HookInput \<Rightarrow> Engine \<Rightarrow> HookOutcome \<times> Engine" where
  "executeMatchedHook H h input e =
     (let (i, t) = status_Start (matchedHookStatusMessage h) (en_status e);
          e = e\<lparr>en_status := t, en_ran := en_ran e @ [(h, input)]\<rparr>; result = run_payload H e h input
      in (result, e\<lparr>en_status := status_End i (en_status e)\<rparr>))"

subsection \<open>Firing an event\<close>

definition outcomeOf :: "HookOutcome \<Rightarrow> string" where
  "outcomeOf r = (if oc_Error r \<noteq> None then ''error'' else if \<not> oc_ShouldContinue r then ''blocked'' else ''ran'')"

definition reasonOf :: "HookOutcome \<Rightarrow> string" where
  "reasonOf r = (case oc_Error r of Some err \<Rightarrow> err | None \<Rightarrow> if \<not> oc_ShouldContinue r then oc_BlockReason r else [])"

definition audit_of :: "EventType \<Rightarrow> matchedHook \<Rightarrow> HookOutcome \<Rightarrow> HookFiredAudit" where
  "audit_of ev h r = \<lparr>au_Event = event_name ev, au_Source = matchedHookIdentity h, au_Matcher = mh_Matcher h,
     au_Outcome = outcomeOf r, au_Reason = reasonOf r\<rparr>"

definition launch_audit :: "EventType \<Rightarrow> matchedHook \<Rightarrow> HookFiredAudit" where
  "launch_audit ev h = \<lparr>au_Event = event_name ev, au_Source = matchedHookIdentity h, au_Matcher = mh_Matcher h,
     au_Outcome = ''async'', au_Reason = []\<rparr>"

definition is_detached :: "matchedHook \<Rightarrow> bool" where
  "is_detached h = (case mh_Command h of None \<Rightarrow> False | Some c \<Rightarrow> hc_Async c \<or> hc_AsyncRewake c)"

definition detach :: "matchedHook \<Rightarrow> HookInput \<Rightarrow> Engine \<Rightarrow> Engine" where
  "detach h input e = e\<lparr>en_detached := en_detached e @ [(h, input)]\<rparr>"

fun exec_hooks :: "hook_env \<Rightarrow> EventType \<Rightarrow> HookInput \<Rightarrow> matchedHook list \<Rightarrow> HookOutcome \<Rightarrow> Engine \<Rightarrow> HookOutcome \<times> Engine" where
  "exec_hooks H ev input [] outcome e = (outcome, e)"
| "exec_hooks H ev input (h # hs) outcome e =
     (if is_detached h then exec_hooks H ev input hs outcome (audit_hook (launch_audit ev h) (detach h input e))
      else let (result, e) = executeMatchedHook H h input e;
               e = audit_hook (audit_of ev h result) e
           in if oc_Error result \<noteq> None then exec_hooks H ev input hs outcome e
              else if \<not> oc_ShouldContinue result then (result, e)
              else exec_hooks H ev input hs (mergeOutcome outcome result) e)"

definition Execute_hooks :: "hook_env \<Rightarrow> EventType \<Rightarrow> HookInput \<Rightarrow> Engine \<Rightarrow> HookOutcome \<times> Engine" where
  "Execute_hooks H ev input e =
     (let (hooks, input, e) = getMatchingHooks H ev input e in exec_hooks H ev input hooks continue_outcome e)"

definition ExecuteAsync :: "hook_env \<Rightarrow> EventType \<Rightarrow> HookInput \<Rightarrow> Engine \<Rightarrow> Engine" where
  "ExecuteAsync H ev input e =
     (let (hooks, input, e) = getMatchingHooks H ev input e in fold (\<lambda>h. detach h input) hooks e)"

definition executeDetachedHook :: "hook_env \<Rightarrow> matchedHook \<Rightarrow> HookInput \<Rightarrow> Engine \<Rightarrow> Engine" where
  "executeDetachedHook H h input e =
     (let (result, e) = executeMatchedHook H h input e;
          e = audit_hook (audit_of (mh_Event h) h result) e
      in case mh_Command h of
           None \<Rightarrow> e
         | Some c \<Rightarrow>
             if \<not> hc_AsyncRewake c \<or> \<not> oc_ShouldBlock result \<or> \<not> en_asyncCallback e then e
             else e\<lparr>en_async_results := en_async_results e @
                    [\<lparr>ar_Event = mh_Event h, ar_HookType = matchedHookType h, ar_HookSource = mh_Source h,
                      ar_HookName = matchedHookIdentity h, ar_BlockReason = oc_BlockReason result\<rparr>]\<rparr>)"

text \<open>A detached hook runs to its end at some later time, in any order.\<close>

definition finish_detached :: "hook_env \<Rightarrow> nat \<Rightarrow> Engine \<Rightarrow> Engine" where
  "finish_detached H n e =
     (case drop n (en_detached e) of
        [] \<Rightarrow> e
      | (h, input) # rest \<Rightarrow> executeDetachedHook H h input (e\<lparr>en_detached := take n (en_detached e) @ rest\<rparr>))"

definition HasHooks :: "EventType \<Rightarrow> Engine \<Rightarrow> bool" where
  "HasHooks ev e = store_HasHooks ev (en_settings e) (en_store e)"

definition StopHookActive :: "Engine \<Rightarrow> bool" where
  "StopHookActive e = HasHooks Stop e"


subsection \<open>Answers are reduced from left to right\<close>

text \<open>The reference: run the waiting hooks in order up to the first that blocks, and fold what the others said.\<close>

definition sync_hooks :: "matchedHook list \<Rightarrow> matchedHook list" where
  "sync_hooks hs = List.filter (\<lambda>h. \<not> is_detached h) hs"

definition hook_results :: "hook_env \<Rightarrow> Engine \<Rightarrow> HookInput \<Rightarrow> matchedHook list \<Rightarrow> HookOutcome list" where
  "hook_results H e input hs = List.map (\<lambda>h. run_payload H e h input) (sync_hooks hs)"

definition hook_blocks :: "HookOutcome \<Rightarrow> bool" where
  "hook_blocks r \<longleftrightarrow> oc_Error r = None \<and> \<not> oc_ShouldContinue r"

definition hook_says :: "HookOutcome \<Rightarrow> bool" where
  "hook_says r \<longleftrightarrow> oc_Error r = None"

definition reduce_outcomes :: "HookOutcome list \<Rightarrow> HookOutcome \<Rightarrow> HookOutcome" where
  "reduce_outcomes rs outcome =
     (case List.find hook_blocks rs of
        Some r \<Rightarrow> r
      | None \<Rightarrow> foldl mergeOutcome outcome (List.filter hook_says rs))"

text \<open>What a hook answers does not depend on the status line, the records and the hooks that wait.\<close>

definition same_setup :: "Engine \<Rightarrow> Engine \<Rightarrow> bool" where
  "same_setup e e' \<longleftrightarrow> en_sessionID e' = en_sessionID e \<and> en_cwd e' = en_cwd e
     \<and> en_promptCallback e' = en_promptCallback e \<and> en_llmCompleter e' = en_llmCompleter e
     \<and> en_hookModel e' = en_hookModel e"

lemma run_payload_same:
  assumes "same_setup e e'"
  shows "run_payload H e' h input = run_payload H e h input"
proof -
  have eqs: "en_sessionID e' = en_sessionID e" "en_cwd e' = en_cwd e" "en_promptCallback e' = en_promptCallback e"
    "en_llmCompleter e' = en_llmCompleter e" "en_hookModel e' = en_hookModel e"
    using assms by (simp_all add: same_setup_def)
  have h: "resolveModel e' = resolveModel e" "buildEnv H e' = buildEnv H e"
    using eqs by (auto simp: resolveModel_def buildEnv_def fun_eq_iff)
  have runs: "executeCommand H e' = executeCommand H e"
    "executeCommandBidirectional H e' = executeCommandBidirectional H e"
    "executePromptHook H e' = executePromptHook H e" "executeAgentHook H e' = executeAgentHook H e"
    "executeHTTPHook H e' = executeHTTPHook H e"
    unfolding executeCommand_def executeCommandBidirectional_def executePromptHook_def executeAgentHook_def
      executeHTTPHook_def h eqs by (rule refl)+
  show ?thesis unfolding run_payload_def eqs runs by (rule refl)
qed

lemma same_setup_trans: "same_setup e f \<Longrightarrow> same_setup f g \<Longrightarrow> same_setup e g"
  by (simp add: same_setup_def)

lemma same_setup_steps:
  shows "same_setup e e" and "same_setup e (e\<lparr>en_status := t\<rparr>)" and "same_setup e (e\<lparr>en_store := s\<rparr>)"
    and "same_setup e (audit_hook a e)" and "same_setup e (detach h input e)"
    and "same_setup e (e\<lparr>en_status := t, en_ran := l\<rparr>)"
  by (simp_all add: same_setup_def audit_hook_def detach_def)

lemma executeMatchedHook_result: "executeMatchedHook H h input e = (r, e') \<Longrightarrow>
    r = run_payload H e h input \<and> same_setup e e' \<and> en_audits e' = en_audits e
    \<and> en_auditCallback e' = en_auditCallback e \<and> en_detached e' = en_detached e \<and> en_store e' = en_store e
    \<and> en_ran e' = en_ran e @ [(h, input)]"
  using run_payload_same [OF same_setup_steps(6)]
  by (auto simp: executeMatchedHook_def Let_def same_setup_def split: prod.splits)

lemma exec_hooks_reduces:
  "same_setup e e0 \<Longrightarrow>
   fst (exec_hooks H ev input hs outcome e0) = reduce_outcomes (hook_results H e input hs) outcome"
proof (induction H ev input hs outcome e0 rule: exec_hooks.induct)
  case (2 H ev input h hs outcome e0)
  show ?case
  proof (cases "is_detached h")
    case True
    have "same_setup e (audit_hook (launch_audit ev h) (detach h input e0))"
      using same_setup_trans [OF 2(4) same_setup_trans [OF same_setup_steps(5) same_setup_steps(4)]] .
    then show ?thesis using 2(1) True by (simp add: hook_results_def sync_hooks_def)
  next
    case False
    obtain r e1 where x: "executeMatchedHook H h input e0 = (r, e1)" by fastforce
    have r: "r = run_payload H e h input" and e1: "same_setup e (audit_hook (audit_of ev h r) e1)"
      using executeMatchedHook_result [OF x] run_payload_same 2(4) same_setup_steps(4) same_setup_trans by blast+
    have rs: "hook_results H e input (h # hs) = r # hook_results H e input hs"
      using False r by (simp add: hook_results_def sync_hooks_def)
    have fails: "oc_Error r \<noteq> None \<Longrightarrow> fst (exec_hooks H ev input hs outcome (audit_hook (audit_of ev h r) e1))
        = reduce_outcomes (hook_results H e input hs) outcome"
      using 2(2) False x e1 by auto
    have goes_on: "oc_Error r = None \<Longrightarrow> oc_ShouldContinue r \<Longrightarrow>
        fst (exec_hooks H ev input hs (mergeOutcome outcome r) (audit_hook (audit_of ev h r) e1))
        = reduce_outcomes (hook_results H e input hs) (mergeOutcome outcome r)"
      using 2(3) False x e1 by auto
    show ?thesis
      using False x fails goes_on unfolding rs
      by (cases "oc_Error r"; cases "oc_ShouldContinue r")
        (simp_all add: reduce_outcomes_def hook_blocks_def hook_says_def split: option.split)
  qed
qed (simp add: hook_results_def sync_hooks_def reduce_outcomes_def)

text \<open>The hooks that an event reaches: those up to and with the first that waits and blocks.\<close>

definition stops_event :: "hook_env \<Rightarrow> Engine \<Rightarrow> HookInput \<Rightarrow> matchedHook \<Rightarrow> bool" where
  "stops_event H e input h \<longleftrightarrow> \<not> is_detached h \<and> hook_blocks (run_payload H e h input)"

definition reached_hooks :: "hook_env \<Rightarrow> Engine \<Rightarrow> HookInput \<Rightarrow> matchedHook list \<Rightarrow> matchedHook list" where
  "reached_hooks H e input hs =
     takeWhile (\<lambda>h. \<not> stops_event H e input h) hs @ take 1 (dropWhile (\<lambda>h. \<not> stops_event H e input h) hs)"

lemma reached_simps [simp]:
  "reached_hooks H e input [] = []"
  "reached_hooks H e input (h # hs) = h # (if stops_event H e input h then [] else reached_hooks H e input hs)"
  by (simp_all add: reached_hooks_def)

definition leaves_trace :: "Engine \<Rightarrow> HookInput \<Rightarrow> matchedHook list \<Rightarrow> Engine \<Rightarrow> bool" where
  "leaves_trace e input reached e' \<longleftrightarrow>
     en_ran e' = en_ran e @ List.map (\<lambda>h. (h, input)) (List.filter (\<lambda>h. \<not> is_detached h) reached)
     \<and> en_detached e' = en_detached e @ List.map (\<lambda>h. (h, input)) (List.filter is_detached reached)
     \<and> length (en_audits e') = length (en_audits e) + (if en_auditCallback e then length reached else 0)"

lemma audit_fields [simp]:
  "en_ran (audit_hook a e) = en_ran e" "en_detached (audit_hook a e) = en_detached e"
  "en_auditCallback (audit_hook a e) = en_auditCallback e"
  "length (en_audits (audit_hook a e)) = length (en_audits e) + (if en_auditCallback e then 1 else 0)"
  by (simp_all add: audit_hook_def)

lemma detach_fields [simp]:
  "en_ran (detach h input e) = en_ran e" "en_detached (detach h input e) = en_detached e @ [(h, input)]"
  "en_audits (detach h input e) = en_audits e" "en_auditCallback (detach h input e) = en_auditCallback e"
  by (simp_all add: detach_def)

lemma exec_hooks_trace:
  "same_setup e e0 \<Longrightarrow> leaves_trace e0 input (reached_hooks H e input hs) (snd (exec_hooks H ev input hs outcome e0))"
proof (induction H ev input hs outcome e0 rule: exec_hooks.induct)
  case (2 H ev input h hs outcome e0)
  show ?case
  proof (cases "is_detached h")
    case True
    have "same_setup e (audit_hook (launch_audit ev h) (detach h input e0))"
      using same_setup_trans [OF 2(4) same_setup_trans [OF same_setup_steps(5) same_setup_steps(4)]] .
    then show ?thesis using 2(1) True by (simp add: stops_event_def leaves_trace_def)
  next
    case False
    obtain r e1 where x: "executeMatchedHook H h input e0 = (r, e1)" by fastforce
    note res = executeMatchedHook_result [OF x]
    have r: "r = run_payload H e h input" and e1: "same_setup e (audit_hook (audit_of ev h r) e1)"
      using res run_payload_same 2(4) same_setup_steps(4) same_setup_trans by blast+
    have fails: "oc_Error r \<noteq> None \<Longrightarrow> leaves_trace (audit_hook (audit_of ev h r) e1) input (reached_hooks H e input hs)
        (snd (exec_hooks H ev input hs outcome (audit_hook (audit_of ev h r) e1)))"
      using 2(2) False x e1 by auto
    have goes_on: "oc_Error r = None \<Longrightarrow> oc_ShouldContinue r \<Longrightarrow> leaves_trace (audit_hook (audit_of ev h r) e1) input
        (reached_hooks H e input hs) (snd (exec_hooks H ev input hs (mergeOutcome outcome r) (audit_hook (audit_of ev h r) e1)))"
      using 2(3) False x e1 by auto
    have "stops_event H e input h \<longleftrightarrow> oc_Error r = None \<and> \<not> oc_ShouldContinue r"
      using False r by (simp add: stops_event_def hook_blocks_def)
    then show ?thesis
      using False x fails goes_on res by (cases "oc_Error r"; cases "oc_ShouldContinue r") (simp_all add: leaves_trace_def)
  qed
qed (simp add: leaves_trace_def)


lemma merge_fields:
  shows "oc_PermissionAllow (mergeOutcome o1 o2) \<longleftrightarrow> oc_PermissionAllow o1 \<or> oc_PermissionAllow o2"
    and "oc_ForceAsk (mergeOutcome o1 o2) \<longleftrightarrow> oc_ForceAsk o1 \<or> oc_ForceAsk o2"
    and "oc_Retry (mergeOutcome o1 o2) \<longleftrightarrow> oc_Retry o1 \<or> oc_Retry o2"
    and "oc_ShouldContinue (mergeOutcome o1 o2) = oc_ShouldContinue o1"
    and "oc_ShouldBlock (mergeOutcome o1 o2) = oc_ShouldBlock o1"
    and "oc_Error (mergeOutcome o1 o2) = oc_Error o1"
    and "oc_PermissionReason (mergeOutcome o1 o2) = oc_PermissionReason o1"
    and "oc_UpdatedInput (mergeOutcome o1 o2) = (if oc_UpdatedInput o2 \<noteq> None then oc_UpdatedInput o2 else oc_UpdatedInput o1)"
    and "oc_UpdatedPermissions (mergeOutcome o1 o2) = oc_UpdatedPermissions o1 @ oc_UpdatedPermissions o2"
  by (simp_all add: mergeOutcome_def Let_def take_input_def)

lemma merged_fields:
  shows "oc_PermissionAllow (foldl mergeOutcome out rs) \<longleftrightarrow> oc_PermissionAllow out \<or> list_ex oc_PermissionAllow rs"
    and "oc_ForceAsk (foldl mergeOutcome out rs) \<longleftrightarrow> oc_ForceAsk out \<or> list_ex oc_ForceAsk rs"
    and "oc_ShouldContinue (foldl mergeOutcome out rs) = oc_ShouldContinue out"
    and "oc_ShouldBlock (foldl mergeOutcome out rs) = oc_ShouldBlock out"
    and "oc_PermissionReason (foldl mergeOutcome out rs) = oc_PermissionReason out"
  by (induction rs arbitrary: out) (auto simp: merge_fields)


subsection \<open>Hooks that run once\<close>

definition once_keys :: "matchedHook list \<Rightarrow> string list" where
  "once_keys hs = List.map once_key (List.filter hookRunsOnce hs)"

definition was_claimed :: "hookStore \<Rightarrow> string \<Rightarrow> bool" where
  "was_claimed s k \<longleftrightarrow> gm_get (hs_executedOnce s) k \<noteq> None"

lemma claim_hooks_once:
  "claim_hooks hs s = (ms, s') \<Longrightarrow> distinct (once_keys ms) \<and> (\<forall>k \<in> set (once_keys ms). \<not> was_claimed s k)
     \<and> (\<forall>k. was_claimed s' k \<longleftrightarrow> was_claimed s k \<or> k \<in> set (once_keys ms))"
proof (induction hs arbitrary: s ms s')
  case Nil
  then show ?case by (simp add: once_keys_def)
next
  case (Cons h hs)
  obtain b s1 where b: "shouldRunHook h s = (b, s1)" by fastforce
  obtain rest s2 where r: "claim_hooks hs s1 = (rest, s2)" by fastforce
  have "ms = (if b then h # rest else rest)" "s' = s2" using Cons.prems b r by auto
  moreover have "(\<forall>k. was_claimed s1 k \<longleftrightarrow> was_claimed s k \<or> hookRunsOnce h \<and> k = once_key h)
      \<and> (b \<longleftrightarrow> \<not> hookRunsOnce h \<or> \<not> was_claimed s (once_key h))"
    using b by (auto simp: shouldRunHook_def CheckOnce_def was_claimed_def gm.get_put split: if_splits)
  ultimately show ?case using Cons.IH [OF r] by (auto simp: once_keys_def)
qed

text \<open>What may happen to an engine; a step returns the hooks that its event claimed.\<close>

datatype engine_op =
    Fire EventType HookInput | FireAsync EventType HookInput | Finish nat
  | AddSessionHook_op EventType string HookCmd | AddRuntimeHook_op EventType string HookCmd
  | AddSessionFunction_op EventType string FunctionHook | AddRuntimeFunction_op EventType string FunctionHook
  | RemoveSessionFunction_op EventType string | RemoveRuntimeFunction_op EventType string
  | SetSettings settings_hooks | SetPermissionMode string | SetCwd string | SetTranscriptPath string
  | SetPromptCallback "PromptCallback option" | SetLLMCompleter "LLMCompleter option" string
  | SetAsyncHookCallback bool | SetAuditCallback bool | ClearSession

definition on_store :: "(hookStore \<Rightarrow> hookStore) \<Rightarrow> Engine \<Rightarrow> Engine" where
  "on_store f e = e\<lparr>en_store := f (en_store e)\<rparr>"

definition claimed_by :: "hook_env \<Rightarrow> EventType \<Rightarrow> HookInput \<Rightarrow> Engine \<Rightarrow> matchedHook list" where
  "claimed_by H ev input e = fst (getMatchingHooks H ev input e)"

fun engine_step :: "hook_env \<Rightarrow> engine_op \<Rightarrow> Engine \<Rightarrow> matchedHook list \<times> Engine" where
  "engine_step H (Fire ev input) e = (claimed_by H ev input e, snd (Execute_hooks H ev input e))"
| "engine_step H (FireAsync ev input) e = (claimed_by H ev input e, ExecuteAsync H ev input e)"
| "engine_step H (Finish n) e = ([], finish_detached H n e)"
| "engine_step H (AddSessionHook_op ev m h) e = ([], on_store (AddSessionHook ev m h) e)"
| "engine_step H (AddRuntimeHook_op ev m h) e = ([], on_store (AddRuntimeHook ev m h) e)"
| "engine_step H (AddSessionFunction_op ev m f) e = ([], on_store (\<lambda>s. snd (AddSessionFunctionHook ev m f s)) e)"
| "engine_step H (AddRuntimeFunction_op ev m f) e = ([], on_store (\<lambda>s. snd (AddRuntimeFunctionHook ev m f s)) e)"
| "engine_step H (RemoveSessionFunction_op ev i) e = ([], on_store (\<lambda>s. snd (RemoveSessionFunctionHook ev i s)) e)"
| "engine_step H (RemoveRuntimeFunction_op ev i) e = ([], on_store (\<lambda>s. snd (RemoveRuntimeFunctionHook ev i s)) e)"
| "engine_step H (SetSettings ss) e = ([], e\<lparr>en_settings := ss\<rparr>)"
| "engine_step H (SetPermissionMode m) e = ([], e\<lparr>en_permissionMode := m\<rparr>)"
| "engine_step H (SetCwd d) e = ([], e\<lparr>en_cwd := d\<rparr>)"
| "engine_step H (SetTranscriptPath p) e = ([], e\<lparr>en_transcriptPath := p\<rparr>)"
| "engine_step H (SetPromptCallback cb) e = ([], e\<lparr>en_promptCallback := cb\<rparr>)"
| "engine_step H (SetLLMCompleter f m) e = ([], e\<lparr>en_llmCompleter := f, en_hookModel := m\<rparr>)"
| "engine_step H (SetAsyncHookCallback b) e = ([], e\<lparr>en_asyncCallback := b\<rparr>)"
| "engine_step H (SetAuditCallback b) e = ([], e\<lparr>en_auditCallback := b\<rparr>)"
| "engine_step H ClearSession e = ([], on_store ClearSessionHooks e)"

fun engine_run :: "hook_env \<Rightarrow> engine_op list \<Rightarrow> Engine \<Rightarrow> matchedHook list \<times> Engine" where
  "engine_run H [] e = ([], e)"
| "engine_run H (a # as) e =
     (let (hs, e) = engine_step H a e; (rest, e) = engine_run H as e in (hs @ rest, e))"

lemma audit_hook_store [simp]: "en_store (audit_hook a e) = en_store e"
  by (simp add: audit_hook_def)

lemma detach_store [simp]: "en_store (detach h i e) = en_store e"
  by (simp add: detach_def)

lemma exec_hooks_store: "en_store (snd (exec_hooks H ev input hs out e)) = en_store e"
proof (induction hs arbitrary: out e)
  case (Cons h hs)
  obtain r e1 where x: "executeMatchedHook H h input e = (r, e1)" by fastforce
  then have "en_store e1 = en_store e" using executeMatchedHook_result by blast
  then show ?case using Cons x by (simp add: Let_def)
qed simp

lemma fold_detach_store: "en_store (fold (\<lambda>h. detach h i) hs e) = en_store e"
  by (induction hs arbitrary: e) auto

lemma detached_store: "en_store (executeDetachedHook H h i e) = en_store e"
  by (auto simp: executeDetachedHook_def Let_def split: prod.splits option.splits dest!: executeMatchedHook_result)

lemma engine_step_once:
  assumes "engine_step H a e = (hs, e')" and "a \<noteq> ClearSession"
  shows "distinct (once_keys hs) \<and> (\<forall>k \<in> set (once_keys hs). \<not> was_claimed (en_store e) k)
     \<and> (\<forall>k. was_claimed (en_store e') k \<longleftrightarrow> was_claimed (en_store e) k \<or> k \<in> set (once_keys hs))"
proof (cases "\<exists>ev input. a = Fire ev input \<or> a = FireAsync ev input")
  case True
  then obtain ev input where a: "a = Fire ev input \<or> a = FireAsync ev input" by blast
  obtain ms s' where c: "claim_hooks (candidate_hooks H ev (populateInputFields e ev input) e) (en_store e) = (ms, s')"
    by fastforce
  have "hs = ms \<and> en_store e' = s'"
    using assms(1) a c
    by (auto simp: claimed_by_def getMatchingHooks_def Execute_hooks_def ExecuteAsync_def Let_def exec_hooks_store
        fold_detach_store split: prod.splits)
  then show ?thesis using claim_hooks_once [OF c] by simp
next
  case False
  then have "hs = []" "hs_executedOnce (en_store e') = hs_executedOnce (en_store e)"
    using assms
    by (cases a; auto simp: on_store_def AddSessionHook_def AddRuntimeHook_def AddSessionFunctionHook_def
        AddRuntimeFunctionHook_def ensureFunctionHookID_def RemoveSessionFunctionHook_def RemoveRuntimeFunctionHook_def
        finish_detached_def detached_store Let_def split: prod.splits list.splits if_splits)+
  then show ?thesis by (simp add: once_keys_def was_claimed_def)
qed

text \<open>
  Between two resets of the session hooks, whatever happens, a hook marked \<open>once\<close> is claimed by at most one
  event, and by none if it had been claimed before.
\<close>

theorem once_hooks_are_claimed_once:
  assumes "engine_run H as e = (hs, e')" and "ClearSession \<notin> set as"
  shows "distinct (once_keys hs) \<and> (\<forall>k \<in> set (once_keys hs). \<not> was_claimed (en_store e) k)
     \<and> (\<forall>k. was_claimed (en_store e') k \<longleftrightarrow> was_claimed (en_store e) k \<or> k \<in> set (once_keys hs))"
  using assms
proof (induction as arbitrary: e hs)
  case Nil
  then show ?case by (simp add: once_keys_def)
next
  case (Cons a as)
  obtain hs1 e1 where s: "engine_step H a e = (hs1, e1)" by fastforce
  obtain rest where r: "engine_run H as e1 = (rest, e')" "hs = hs1 @ rest"
    using Cons.prems s by (auto split: prod.splits)
  moreover have "once_keys (hs1 @ rest) = once_keys hs1 @ once_keys rest" by (simp add: once_keys_def)
  ultimately show ?case
    using Cons.IH [OF r(1)] Cons.prems(2) engine_step_once [OF s] by auto
qed


subsection \<open>Secrets\<close>

text \<open>
  The headers of an HTTP hook depend on the process environment only through the variables that the hook
  allows.
\<close>

lemma interpolation_reads_allowed:
  assumes "\<forall>n \<in> set allowed. getenv n = getenv' n"
  shows "interpolateAllowedEnv getenv allowed s = interpolateAllowedEnv getenv' allowed s"
  using assms
proof (induction getenv allowed s rule: interpolateAllowedEnv.induct)
  case (1 getenv allowed s)
  show ?case
  proof (cases s)
    case (Cons c cs)
    then show ?thesis
      using 1 by (simp add: interpolateAllowedEnv.simps [of _ _ "c # cs"] split: option.split prod.split)
  qed (simp add: interpolateAllowedEnv.simps)
qed

subsection \<open>Examples\<close>

definition demo_hooks :: hook_env where
  "demo_hooks = \<lparr>he_sys = demo_env, he_regex = (\<lambda>_. None), he_marshal = (\<lambda>_. Inr ''{}''),
     he_decode = (\<lambda>_. Inl ''no JSON''), he_run = (\<lambda>_ _ _ _ _. \<lparr>pr_exit = 1, pr_runErr = [], pr_stdout = [], pr_stderr = ''jq: not found''\<rparr>),
     he_start = (\<lambda>_. None), he_write = (\<lambda>_. True), he_lines = 10, he_line = (\<lambda>_ _ _. None),
     he_exit = (\<lambda>_ _. (1, ''jq: not found'')), he_is_async = (\<lambda>_. False), he_request = (\<lambda>_. None),
     he_response = (\<lambda>_. Inl []), he_http = (\<lambda>_ _ _. Inl ''offline''), he_environ = [], he_getenv = (\<lambda>_. []),
     he_provided = []\<rparr>"

definition plain_output :: HookOutput where
  "plain_output = \<lparr>ho_Continue = None, ho_StopReason = [], ho_SuppressOutput = False, ho_SystemMessage = [],
     ho_Decision = [], ho_Reason = [], ho_Specific = None\<rparr>"

definition tool_answer :: "string \<Rightarrow> string \<Rightarrow> HookOutput" where
  "tool_answer d reason = plain_output\<lparr>ho_Specific := Some \<lparr>hso_HookEventName = ''PreToolUse'', hso_PermissionDecision = d,
     hso_PermissionDecisionReason = reason, hso_UpdatedInput = None, hso_AdditionalContext = [], hso_Decision = None,
     hso_WatchPaths = [], hso_InitialUserMessage = [], hso_Retry = False\<rparr>\<rparr>"

definition answering :: "bool \<Rightarrow> string \<Rightarrow> string \<Rightarrow> FunctionHook" where
  "answering once d reason = \<lparr>fh_ID = [], fh_Timeout = 0, fh_Once = once, fh_StatusMessage = [],
     fh_Callback = Some (\<lambda>_. Inr (tool_answer d reason))\<rparr>"

definition tool_input :: "string \<Rightarrow> tool_args \<Rightarrow> HookInput" where
  "tool_input name args = \<lparr>hi_SessionID = [], hi_TranscriptPath = [], hi_Cwd = [], hi_PermissionMode = [],
     hi_HookEventName = [], hi_ToolName = name, hi_ToolInput = args, hi_NotificationType = [], hi_AgentName = [],
     hi_Source = [], hi_Reason = [], hi_Trigger = [], hi_TaskSubject = [], hi_FilePath = [], hi_NewCwd = [],
     hi_Name = [], hi_WorktreePath = []\<rparr>"

definition demo_engine :: "FunctionHook list \<Rightarrow> Engine" where
  "demo_engine fs = (NewEngine None ''s'' ''/w'' ''/t'')\<lparr>en_auditCallback := True,
     en_store := fold (\<lambda>f s. snd (AddSessionFunctionHook PreToolUse [] f s)) fs newHookStore\<rparr>"

definition read_event :: engine_op where
  "read_event = Fire PreToolUse (tool_input ''Read'' (file_call ''/w/a''))"

text \<open>Two events, one hook that runs once and one that runs always.\<close>

lemma demo_once_run: "once_keys (fst (engine_run demo_hooks [read_event, read_event]
    (demo_engine [answering True ''allow'' [], answering False ''ask'' []])))
  = [''PreToolUse|session||function|session-PreToolUse-1'']"
  by code_simp

theorem once_hooks_are_claimed_once_witness:
  "distinct (once_keys (fst (engine_run demo_hooks [read_event, read_event]
     (demo_engine [answering True ''allow'' [], answering False ''ask'' []]))))"
  using once_hooks_are_claimed_once [of demo_hooks "[read_event, read_event]"
      "demo_engine [answering True ''allow'' [], answering False ''ask'' []]", OF surjective_pairing]
  by (simp add: read_event_def)

text \<open>The reason that comes with an answer of ask or allow is lost when the answers are merged.\<close>

lemma merged_answer_has_no_reason:
  "List.find hook_blocks rs = None \<Longrightarrow> oc_PermissionReason (reduce_outcomes rs continue_outcome) = []"
  by (simp add: reduce_outcomes_def merged_fields continue_outcome_def)

lemma ask_reason_is_lost:
  "let out = fst (Execute_hooks demo_hooks PreToolUse (tool_input ''Read'' (file_call ''/w/a''))
       (demo_engine [answering False ''ask'' ''explain this'']))
   in oc_ForceAsk out \<and> oc_PermissionReason out = []"
  by code_simp

text \<open>A hook that runs once is used up by an event that another hook blocked before its turn.\<close>

lemma blocked_event_uses_up_once:
  "let e = demo_engine [answering False ''deny'' ''no'', answering True ''allow'' []];
       (hs, e) = engine_run demo_hooks [read_event, read_event] e
   in List.map au_Source (en_audits e) = [''session-PreToolUse-1'', ''session-PreToolUse-1'']
      \<and> once_keys hs = [''PreToolUse|session||function|session-PreToolUse-2'']"
  by code_simp

text \<open>The top-level decision of an answer is parsed and has no effect.\<close>

lemma decision_field_is_ignored: "applyHookOutput out (ho\<lparr>ho_Decision := d\<rparr>) = applyHookOutput out ho"
  by (simp add: applyHookOutput_def)

text \<open>A program that fails is an error when it runs unattended, and a success once a prompt callback is set.\<close>

definition failing_hook :: HookCmd where
  "failing_hook = \<lparr>hc_Type = ''command'', hc_Command = ''jq .'', hc_Prompt = [], hc_URL = [], hc_If = [], hc_Shell = [],
     hc_Model = [], hc_Async = False, hc_AsyncRewake = False, hc_Timeout = 0, hc_StatusMessage = [], hc_Once = False,
     hc_Headers = [], hc_AllowedEnvVars = []\<rparr>"

lemma interactive_failure_is_silent:
  "(let r = executeCommand demo_hooks (demo_engine []) failing_hook (tool_input ''Read'' (file_call ''/w/a''))
    in outcomeOf r = ''error'' \<and> reasonOf r = ''hook exited 1: jq: not found'')
   \<and> outcomeOf (executeCommandBidirectional demo_hooks (demo_engine []) failing_hook (tool_input ''Read'' (file_call ''/w/a'')))
     = ''ran''"
  by code_simp

end
