(* ===== verification/EditMatch.thy ===== *)
theory EditMatch
  imports Prelude
begin

text \<open>
  The replacement that the Edit tool makes in a text (\<open>internal/tool/fs/edit.go\<close>,
  \<open>edit_match.go\<close>): an exact match first, else whole lines that agree up to trailing white space,
  else an error that quotes the file.  Byte order marks and the line endings of Windows are kept.

  The theorems: an edit that succeeds changes one region, which is the old text or agrees with it
  line by line, and leaves every other byte of the file as it is.
\<close>

subsection \<open>Text and lines\<close>

abbreviation newline :: char where "newline \<equiv> CHR 0x0A"

definition crlf :: string where
  "crlf = [CHR 0x0D, newline]"

definition byte_order_mark :: string where
  "byte_order_mark = [CHR 0xEF, CHR 0xBB, CHR 0xBF]"

definition em_dash :: string where
  "em_dash = [CHR 0xE2, CHR 0x80, CHR 0x94]"

definition slice :: "string \<Rightarrow> nat \<Rightarrow> nat \<Rightarrow> string" where
  "slice s a b = take (b - a) (drop a s)"

text \<open>\<open>strings.Count\<close>: the occurrences that do not overlap.\<close>

definition count_str :: "string \<Rightarrow> string \<Rightarrow> nat" where
  "count_str s sub = (if sub = [] then rune_count s + 1 else length (split_on sub s) - 1)"

record lineSpan =
  sp_start :: nat
  sp_end :: nat

fun line_spans :: "nat \<Rightarrow> nat \<Rightarrow> string \<Rightarrow> lineSpan list" where
  "line_spans lineStart i [] =
     (if lineStart < i then [\<lparr>sp_start = lineStart, sp_end = i\<rparr>] else [])"
| "line_spans lineStart i (c # cs) =
     (if c = newline
      then \<lparr>sp_start = lineStart, sp_end = i + 1\<rparr> # line_spans (i + 1) (i + 1) cs
      else line_spans lineStart (i + 1) cs)"

definition splitLineSpans :: "string \<Rightarrow> lineSpan list" where
  "splitLineSpans content = line_spans 0 0 content"

record tolerantMatch =
  tm_start :: nat
  tm_end :: nat
  tm_firstLine :: nat
  tm_lineCount :: nat

definition splitOldTextLines :: "string \<Rightarrow> string list \<times> bool" where
  "splitOldTextLines oldText =
     (let lines = split_on [newline] oldText
      in if 1 < length lines \<and> last lines = [] then (butlast lines, True) else (lines, False))"

definition allBlank :: "string list \<Rightarrow> bool" where
  "allBlank lines = list_all (\<lambda>line. trim_space line = []) lines"

definition span_line :: "string \<Rightarrow> lineSpan \<Rightarrow> string" where
  "span_line content sp = trim_suffix (slice content (sp_start sp) (sp_end sp)) [newline]"

definition trimmedLinesEqual :: "string \<Rightarrow> lineSpan list \<Rightarrow> string list \<Rightarrow> (string \<Rightarrow> string) \<Rightarrow> bool" where
  "trimmedLinesEqual content spans trimmedOld trimLine =
     list_all (\<lambda>(sp, old). trimLine (span_line content sp) = old) (zip spans trimmedOld)"

definition match_at :: "string \<Rightarrow> lineSpan list \<Rightarrow> nat \<Rightarrow> bool \<Rightarrow> nat \<Rightarrow> tolerantMatch" where
  "match_at content spans n matchTrailingNewline i =
     (let last = spans ! (i + n - 1);
          e = (if \<not> matchTrailingNewline \<and> sp_start last < sp_end last
                  \<and> content ! (sp_end last - 1) = newline
               then sp_end last - 1 else sp_end last)
      in \<lparr>tm_start = sp_start (spans ! i), tm_end = e, tm_firstLine = i, tm_lineCount = n\<rparr>)"

definition matchTrimmedLines :: "string \<Rightarrow> lineSpan list \<Rightarrow> string list \<Rightarrow> bool \<Rightarrow> (string \<Rightarrow> string) \<Rightarrow> tolerantMatch list" where
  "matchTrimmedLines content spans oldLines matchTrailingNewline trimLine =
     (let trimmedOld = List.map trimLine oldLines; n = length oldLines
      in List.map (match_at content spans n matchTrailingNewline)
           (List.filter (\<lambda>i. trimmedLinesEqual content (take n (drop i spans)) trimmedOld trimLine)
              [0..<length spans + 1 - n]))"

text \<open>\<open>%6d\<close>, a tab, the line.\<close>

definition numbered_line :: "nat \<Rightarrow> string \<Rightarrow> string" where
  "numbered_line k line =
     (let d = nat_str k in replicate (6 - length d) CHR '' '' @ d @ [CHR 0x09] @ line @ [newline])"

definition maxEchoLines :: nat where
  "maxEchoLines = 30"

definition echoFileLines :: "string \<Rightarrow> lineSpan list \<Rightarrow> nat \<Rightarrow> nat \<Rightarrow> string" where
  "echoFileLines content spans firstLine lineCount =
     concat (List.map (\<lambda>j. numbered_line (firstLine + j + 1) (span_line content (spans ! (firstLine + j))))
               [0..<min lineCount maxEchoLines])
     @ (if maxEchoLines < lineCount
        then ''... ('' @ nat_str (lineCount - maxEchoLines) @ '' more lines; Read the file for the rest)'' @ [newline]
        else [])"

definition errOldStringNotFound :: string where
  "errOldStringNotFound = ''old_string was not found in the file '' @ em_dash
     @ '' likely a transcription slip; re-read the target lines and copy them exactly''"

definition trim_trailing :: "string \<Rightarrow> string" where
  "trim_trailing s = trim_right_by (\<lambda>c. c = CHR '' '' \<or> c = CHR 0x09) s"

definition indentation_error :: "string \<Rightarrow> lineSpan list \<Rightarrow> tolerantMatch \<Rightarrow> string" where
  "indentation_error content spans m =
     ''old_string does not match the file exactly, but lines '' @ nat_str (tm_firstLine m + 1) @ ''-''
     @ nat_str (tm_firstLine m + tm_lineCount m) @ '' match it when indentation is ignored '' @ em_dash
     @ '' the indentation in old_string is wrong. The file''
     @ [CHR 0x27] @ ''s actual text is (format: line number, tab, exact content):'' @ [newline]
     @ echoFileLines content spans (tm_firstLine m) (tm_lineCount m)
     @ ''Retry with the indentation exactly as shown after the tab, in both old_string and new_string.''"

definition resolveTolerantMatch :: "string \<Rightarrow> string \<Rightarrow> string + tolerantMatch" where
  "resolveTolerantMatch content oldString =
     (let spans = splitLineSpans content; (oldLines, matchTrailingNewline) = splitOldTextLines oldString
      in if allBlank oldLines then Inl errOldStringNotFound
         else case matchTrimmedLines content spans oldLines matchTrailingNewline trim_trailing of
                [m] \<Rightarrow> Inr m
              | [] \<Rightarrow>
                  (case matchTrimmedLines content spans oldLines matchTrailingNewline trim_space of
                     [m] \<Rightarrow> Inl (indentation_error content spans m)
                   | _ \<Rightarrow> Inl errOldStringNotFound)
              | ms \<Rightarrow> Inl (''old_string matches '' @ nat_str (length ms)
                     @ '' locations when ignoring trailing whitespace; include more surrounding context''))"

subsection \<open>The edit\<close>

record editReplacement =
  ed_oldString :: string
  ed_newString :: string
  ed_replaceAll :: bool

definition normalizeLineEndings :: "string \<Rightarrow> string" where
  "normalizeLineEndings content = replace_all content crlf [newline]"

definition replace_first :: "string \<Rightarrow> string \<Rightarrow> string \<Rightarrow> string" where
  "replace_first s old new = (case cut_str s old of (before_it, after_it, found) \<Rightarrow>
     if found then before_it @ new @ after_it else s)"

definition replaceInContent :: "string \<Rightarrow> editReplacement \<Rightarrow> string + string \<times> nat" where
  "replaceInContent content edit =
     (let occurrences = count_str content (ed_oldString edit)
      in if ed_replaceAll edit \<and> 0 < occurrences
           then Inr (replace_all content (ed_oldString edit) (ed_newString edit), occurrences)
         else if occurrences = 1
           then Inr (replace_first content (ed_oldString edit) (ed_newString edit), 1)
         else if occurrences = 0
           then (case resolveTolerantMatch content (ed_oldString edit) of
                   Inl e \<Rightarrow> Inl e
                 | Inr m \<Rightarrow> Inr (take (tm_start m) content @ ed_newString edit @ drop (tm_end m) content, 1))
         else Inl (''old_string matches '' @ nat_str occurrences
                @ '' locations; add surrounding context to make it unique, or set replace_all to change every occurrence''))"

definition applyEdit :: "string \<Rightarrow> editReplacement \<Rightarrow> string + string \<times> nat" where
  "applyEdit content edit =
     (let bom = (if has_prefix content byte_order_mark then byte_order_mark else []);
          content = trim_prefix content byte_order_mark;
          windowsLineEndings = contains_str content crlf
      in if windowsLineEndings \<and> contains_str (replace_all content crlf []) [newline]
           then Inl ''file has mixed line endings; normalize it before editing''
         else case replaceInContent (normalizeLineEndings content) edit of
                Inl e \<Rightarrow> Inl e
              | Inr (content, n) \<Rightarrow>
                  Inr (bom @ (if windowsLineEndings then replace_all content [newline] crlf else content), n))"

definition parseEditRequest :: "(string \<rightharpoonup> gval) \<Rightarrow> string + string \<times> editReplacement" where
  "parseEditRequest params =
     (case str_arg params ''file_path'' of
        None \<Rightarrow> Inl ''file_path is required''
      | Some path \<Rightarrow>
          if path = [] then Inl ''file_path is required''
          else (case str_arg params ''old_string'' of
            None \<Rightarrow> Inl ''old_string must be a non-empty string''
          | Some old \<Rightarrow>
              if old = [] then Inl ''old_string must be a non-empty string''
              else (case str_arg params ''new_string'' of
                None \<Rightarrow> Inl ''new_string is required (use an empty string to delete old_string)''
              | Some new \<Rightarrow>
                  let old = normalizeLineEndings old; new = normalizeLineEndings new
                  in if new = old then Inl ''new_string must be different from old_string''
                     else Inr (path, \<lparr>ed_oldString = old, ed_newString = new,
                                ed_replaceAll = (params ''replace_all'' = Some (GBool True))\<rparr>))))"

subsection \<open>Splitting and replacing\<close>

lemma split_on_nonempty: "sep \<noteq> [] \<Longrightarrow> split_on sep s \<noteq> []"
  by (subst split_on.simps) (simp split: option.split)

lemma join_str_Cons: "xs \<noteq> [] \<Longrightarrow> join_str sep (x # xs) = x @ sep @ join_str sep xs"
  by (cases xs) simp_all

lemma join_str_push: "xs \<noteq> [] \<Longrightarrow> join_str sep ((c # hd xs) # tl xs) = c # join_str sep xs"
  by (cases xs rule: list.exhaust; cases "tl xs") simp_all

text \<open>Splitting, one character at a time.\<close>

lemma split_on_step:
  assumes "sep \<noteq> []"
  shows "split_on sep (c # cs) =
     (if has_prefix (c # cs) sep then [] # split_on sep (drop (length sep) (c # cs))
      else (c # hd (split_on sep cs)) # tl (split_on sep cs))"
proof (cases "has_prefix (c # cs) sep")
  case True
  then show ?thesis using assms by (subst split_on.simps) simp
next
  case False
  show ?thesis
  proof (cases "index_of cs sep")
    case None
    then show ?thesis using False assms split_on.simps [of sep cs] split_on.simps [of sep "c # cs"] by simp
  next
    case (Some i)
    then show ?thesis using False assms split_on.simps [of sep cs] split_on.simps [of sep "c # cs"] by simp
  qed
qed

lemma split_on_Nil: "sep \<noteq> [] \<Longrightarrow> split_on sep [] = [[]]"
  by (subst split_on.simps) simp

lemma replace_all_Nil: "replace_all [] old new = []"
  by (simp add: replace_all_def split_on_Nil)

lemma replace_all_step:
  assumes "old \<noteq> []"
  shows "replace_all (c # cs) old new =
     (if has_prefix (c # cs) old then new @ replace_all (drop (length old) (c # cs)) old new
      else c # replace_all cs old new)"
  using assms split_on_nonempty [OF assms, of cs] split_on_nonempty [OF assms, of "drop (length old) (c # cs)"]
  by (simp add: replace_all_def split_on_step join_str_Cons join_str_push)

lemma count_str_step:
  assumes "sub \<noteq> []"
  shows "count_str (c # cs) sub =
     (if has_prefix (c # cs) sub then Suc (count_str (drop (length sub) (c # cs)) sub) else count_str cs sub)"
  using assms split_on_nonempty [OF assms, of cs] split_on_nonempty [OF assms, of "drop (length sub) (c # cs)"]
  by (auto simp: count_str_def split_on_step Suc_diff_le length_greater_0_conv [symmetric]
      simp del: length_greater_0_conv split: if_splits)

lemma replace_all_char: "replace_all s [a] x = concat (List.map (\<lambda>c. if c = a then x else [c]) s)"
  by (induction s) (simp_all add: replace_all_Nil replace_all_step)

lemma index_of_split: "index_of s sub = Some i \<Longrightarrow> s = take i s @ sub @ drop (i + length sub) s"
proof (induction s arbitrary: i)
  case (Cons c cs)
  then show ?case by (auto simp: has_prefix_iff split: if_splits)
qed (simp split: if_splits)

lemma index_of_append: "index_of (p @ sub @ q) sub \<noteq> None"
proof (induction p)
  case Nil
  then show ?case using has_prefix_append [of sub q] by (cases "sub @ q") simp_all
next
  case (Cons c cs)
  then show ?case by simp
qed

lemma contains_str_iff: "contains_str s sub \<longleftrightarrow> (\<exists>p q. s = p @ sub @ q)"
  unfolding contains_str_def using index_of_split index_of_append by (metis option.exhaust)

lemma contains_char: "contains_str s [a] \<longleftrightarrow> a \<in> set s"
  unfolding contains_str_iff by (metis append_Cons append_Nil in_set_conv_decomp)

lemma replace_all_absent: "\<not> contains_str s old \<Longrightarrow> replace_all s old new = s"
  by (simp add: replace_all_def contains_str_def split_on.simps [of old s])

lemma replace_first_split:
  assumes "count_str s old = 1" "old \<noteq> []"
  shows "\<exists>p q. s = p @ old @ q \<and> replace_first s old new = p @ new @ q"
proof -
  obtain i where i: "index_of s old = Some i"
    using assms by (auto simp: count_str_def split_on.simps [of old s] split: option.splits)
  then show ?thesis using index_of_split [OF i] by (auto simp: replace_first_def cut_str_def)
qed

subsection \<open>Line endings\<close>

definition windows :: "string \<Rightarrow> string" where
  "windows s = replace_all s [newline] crlf"

lemma windows_append: "windows (s @ t) = windows s @ windows t"
  by (simp add: windows_def replace_all_char)

lemma crlf_step:
  "replace_all (c # cs) crlf x =
     (if c = CHR 0x0D \<and> cs \<noteq> [] \<and> hd cs = newline then x @ replace_all (tl cs) crlf x
      else c # replace_all cs crlf x)"
  by (cases cs) (auto simp: replace_all_step crlf_def)

lemma windows_simps:
  "windows [] = []" "windows (c # cs) = (if c = newline then crlf else [c]) @ windows cs"
  by (simp_all add: windows_def replace_all_char)

lemma normalize_simps:
  "normalizeLineEndings [] = []"
  "normalizeLineEndings (crlf @ cs) = newline # normalizeLineEndings cs"
  "c \<noteq> CHR 0x0D \<or> cs = [] \<or> hd cs \<noteq> newline \<Longrightarrow> normalizeLineEndings (c # cs) = c # normalizeLineEndings cs"
  using crlf_step [of "CHR 0x0D" "newline # cs" "[newline]"] crlf_step [of c cs "[newline]"]
  by (auto simp: normalizeLineEndings_def replace_all_Nil) (simp add: crlf_def)

lemma windows_hd: "windows s \<noteq> [] \<Longrightarrow> hd (windows s) \<noteq> newline"
  by (cases s) (auto simp: windows_simps crlf_def)

lemma normalize_windows [simp]: "normalizeLineEndings (windows s) = s"
proof (induction s)
  case (Cons c cs)
  then show ?case using windows_hd [of cs] normalize_simps(3) [of c "windows cs"]
    by (auto simp: windows_simps normalize_simps(2))
qed (simp add: windows_simps normalize_simps)

lemma windows_normalize:
  "newline \<notin> set (replace_all s crlf []) \<Longrightarrow> windows (normalizeLineEndings s) = s"
proof (induction s rule: length_induct)
  case (1 s)
  show ?case
  proof (cases s)
    case Nil
    then show ?thesis by (simp add: normalize_simps windows_simps)
  next
    case (Cons c cs)
    note step = crlf_step [of c cs "[]"]
    show ?thesis
    proof (cases "c = CHR 0x0D \<and> cs \<noteq> [] \<and> hd cs = newline")
      case True
      then obtain t where t: "s = crlf @ t" "cs = newline # t" using Cons by (cases cs) (auto simp: crlf_def)
      then have "newline \<notin> set (replace_all t crlf [])" using 1(2) step True Cons by simp
      moreover have "length t < length s" using t(2) Cons by simp
      ultimately have "windows (normalizeLineEndings t) = t" using 1(1) by blast
      then show ?thesis using t(1) by (simp add: normalize_simps windows_simps)
    next
      case False
      then have eq: "replace_all s crlf [] = c # replace_all cs crlf []" using step Cons by auto
      then have "windows (normalizeLineEndings cs) = cs" using 1 Cons by simp
      moreover have "c \<noteq> newline" using 1(2) eq by auto
      ultimately show ?thesis using False Cons normalize_simps(3) [of c cs] by (auto simp: windows_simps)
    qed
  qed
qed

subsection \<open>Lines\<close>

text \<open>The lines of a text with their newlines.\<close>

fun lines_of :: "string \<Rightarrow> string list" where
  "lines_of [] = []"
| "lines_of (c # cs) =
     (if c = newline then [c] # lines_of cs
      else case lines_of cs of [] \<Rightarrow> [[c]] | l # ls \<Rightarrow> (c # l) # ls)"

fun spans_at :: "nat \<Rightarrow> string list \<Rightarrow> lineSpan list" where
  "spans_at a [] = []"
| "spans_at a (l # ls) = \<lparr>sp_start = a, sp_end = a + length l\<rparr> # spans_at (a + length l) ls"

lemma lines_of_plain: "newline \<notin> set p \<Longrightarrow> p \<noteq> [] \<Longrightarrow> lines_of p = [p]"
proof (induction p)
  case (Cons c cs)
  then show ?case by (cases "cs = []") auto
qed simp

lemma lines_of_line: "newline \<notin> set p \<Longrightarrow> lines_of (p @ newline # s) = (p @ [newline]) # lines_of s"
  by (induction p) auto

lemma line_spans_lines:
  "newline \<notin> set p \<Longrightarrow> length p = i - ls \<Longrightarrow> ls \<le> i \<Longrightarrow> line_spans ls i s = spans_at ls (lines_of (p @ s))"
proof (induction s arbitrary: ls i p)
  case Nil
  then show ?case using lines_of_plain [of p] by (cases "p = []") auto
next
  case (Cons c cs)
  show ?case
  proof (cases "c = newline")
    case True
    then show ?thesis using Cons.prems Cons.IH [of "[]" "i + 1" "i + 1"] lines_of_line [of p cs] by simp
  next
    case False
    then show ?thesis using Cons.prems Cons.IH [of "p @ [c]" "i + 1" ls] by simp
  qed
qed

lemma splitLineSpans_lines: "splitLineSpans content = spans_at 0 (lines_of content)"
  using line_spans_lines [of "[]" 0 0 content] by (simp add: splitLineSpans_def)

lemma concat_lines [simp]: "concat (lines_of s) = s"
  by (induction s) (auto split: list.splits)

lemma length_spans [simp]: "length (spans_at a ls) = length ls"
  by (induction ls arbitrary: a) simp_all

lemma nth_spans:
  "k < length ls \<Longrightarrow> spans_at a ls ! k =
     \<lparr>sp_start = a + length (concat (take k ls)), sp_end = a + length (concat (take (Suc k) ls))\<rparr>"
proof (induction ls arbitrary: a k)
  case (Cons l ls)
  then show ?case by (cases k) simp_all
qed simp

lemma slice_span:
  assumes "k < length (lines_of s)"
  shows "slice s (sp_start (splitLineSpans s ! k)) (sp_end (splitLineSpans s ! k)) = lines_of s ! k"
proof -
  let ?ls = "lines_of s"
  have "s = concat (take k ?ls) @ ?ls ! k @ concat (drop (Suc k) ?ls)"
    using concat_lines [of s] id_take_nth_drop [OF assms] by (metis concat.simps(2) concat_append)
  then have "drop (length (concat (take k ?ls))) s = ?ls ! k @ concat (drop (Suc k) ?ls)"
    by (metis append_eq_conv_conj)
  then show ?thesis using nth_spans [OF assms, of 0] assms
    by (simp add: splitLineSpans_lines slice_def take_Suc_conv_app_nth)
qed

text \<open>A line as the code compares it, without its newline; the lines of a text by its newlines.\<close>

definition bare :: "string \<Rightarrow> string" where
  "bare l = trim_suffix l [newline]"

definition bare_lines :: "string \<Rightarrow> string list" where
  "bare_lines s = split_on [newline] s"

lemma bare_simps: "bare (l @ [newline]) = l" "newline \<notin> set l \<Longrightarrow> bare l = l"
  by (auto simp: bare_def trim_suffix_def has_suffix_iff)

lemma bare_lines_simps:
  "bare_lines [] = [[]]"
  "bare_lines (c # cs) = (if c = newline then [] # bare_lines cs
     else (c # hd (bare_lines cs)) # tl (bare_lines cs))"
  by (simp_all add: bare_lines_def split_on_Nil split_on_step)

lemma bare_lines_plain: "newline \<notin> set p \<Longrightarrow> bare_lines p = [p]"
  by (induction p) (auto simp: bare_lines_simps)

lemma bare_lines_line: "newline \<notin> set p \<Longrightarrow> bare_lines (p @ newline # s) = p # bare_lines s"
  by (induction p) (auto simp: bare_lines_simps)

text \<open>Lines as \<open>lines_of\<close> gives them, and any stretch of them.\<close>

fun wf_lines :: "string list \<Rightarrow> bool" where
  "wf_lines [] = True"
| "wf_lines [l] = (l \<noteq> [] \<and> newline \<notin> set (butlast l))"
| "wf_lines (l # m # ls) = (l \<noteq> [] \<and> newline \<notin> set (butlast l) \<and> last l = newline \<and> wf_lines (m # ls))"

lemma wf_lines_Cons:
  "wf_lines (l # ls) \<longleftrightarrow> l \<noteq> [] \<and> newline \<notin> set (butlast l) \<and> (ls \<noteq> [] \<longrightarrow> last l = newline) \<and> wf_lines ls"
  by (cases ls) auto

lemma wf_lines_of: "wf_lines (lines_of s)"
proof (induction s)
  case (Cons c cs)
  then show ?case by (auto simp: wf_lines_Cons split: list.splits)
qed simp

lemma wf_lines_take: "wf_lines ls \<Longrightarrow> wf_lines (take n ls)"
  by (induction ls arbitrary: n) (auto simp: wf_lines_Cons take_Cons split: nat.split)

lemma wf_lines_drop: "wf_lines ls \<Longrightarrow> wf_lines (drop n ls)"
  by (induction ls arbitrary: n) (auto simp: wf_lines_Cons drop_Cons split: nat.split)

lemma ending_line: "l \<noteq> [] \<Longrightarrow> newline \<notin> set (butlast l) \<Longrightarrow> last l = newline \<Longrightarrow>
    \<exists>p. l = p @ [newline] \<and> newline \<notin> set p"
  by (metis append_butlast_last_id)

text \<open>The bare lines of a stretch: its last newline is or is not part of the text.\<close>

lemma stretch_lines:
  assumes "wf_lines ls" "ls \<noteq> []" "last (last ls) = newline"
  shows "bare_lines (concat ls) = List.map bare ls @ [[]] \<and> bare_lines (butlast (concat ls)) = List.map bare ls
    \<and> concat ls \<noteq> []"
  using assms
proof (induction ls)
  case (Cons l ls)
  have "last l = newline" using Cons.prems by (cases ls) (auto simp: wf_lines_Cons)
  then obtain p where p: "l = p @ [newline]" "newline \<notin> set p"
    using Cons.prems ending_line [of l] by (auto simp: wf_lines_Cons)
  show ?case
  proof (cases "ls = []")
    case True
    then show ?thesis using p bare_lines_line [of p "[]"] bare_lines_plain [of p]
      by (simp add: bare_simps bare_lines_simps butlast_append)
  next
    case False
    then show ?thesis using p Cons bare_lines_line [of p] by (auto simp: wf_lines_Cons bare_simps butlast_append)
  qed
qed simp

lemma open_stretch_lines:
  assumes "wf_lines ls" "ls \<noteq> []" "last (last ls) \<noteq> newline"
  shows "bare_lines (concat ls) = List.map bare ls \<and> bare_lines (concat ls @ [newline]) = List.map bare ls @ [[]]"
  using assms
proof (induction ls)
  case (Cons l ls)
  show ?case
  proof (cases "ls = []")
    case True
    then have "newline \<notin> set l"
      using Cons.prems by (cases l rule: rev_cases) (auto simp: wf_lines_Cons)
    then show ?thesis using True bare_lines_plain [of l] bare_lines_line [of l "[]"]
      by (simp add: bare_simps bare_lines_simps)
  next
    case False
    then obtain p where p: "l = p @ [newline]" "newline \<notin> set p"
      using Cons.prems ending_line [of l] by (auto simp: wf_lines_Cons)
    then show ?thesis using Cons False bare_lines_line [of p] by (simp add: wf_lines_Cons bare_simps)
  qed
qed simp

lemma wf_lines_nonempty: "wf_lines ls \<Longrightarrow> l \<in> set ls \<Longrightarrow> l \<noteq> []"
  by (induction ls) (auto simp: wf_lines_Cons)

lemma last_concat_lines: "wf_lines ls \<Longrightarrow> ls \<noteq> [] \<Longrightarrow> concat ls \<noteq> [] \<and> last (concat ls) = last (last ls)"
proof (induction ls)
  case (Cons l ls)
  then show ?case by (cases "ls = []") (auto simp: wf_lines_Cons)
qed simp

subsection \<open>What an edit changes\<close>

text \<open>Two texts agree line by line up to trailing white space, and perhaps in their last newline.\<close>

definition trimmed_lines :: "string \<Rightarrow> string list" where
  "trimmed_lines s = List.map trim_trailing (bare_lines s)"

definition agrees_loosely :: "string \<Rightarrow> string \<Rightarrow> bool" where
  "agrees_loosely s t = (trimmed_lines s = trimmed_lines t \<or> trimmed_lines (s @ [newline]) = trimmed_lines t)"

lemma old_lines:
  assumes "splitOldTextLines old = (ls, nl)"
  shows "bare_lines old = (if nl then ls @ [[]] else ls) \<and> ls \<noteq> []"
proof (cases "split_on [newline] old" rule: rev_cases)
  case Nil
  then show ?thesis using split_on_nonempty [of "[newline]" old] by simp
next
  case (snoc xs x)
  then show ?thesis using assms by (auto simp: splitOldTextLines_def bare_lines_def Let_def split: if_splits)
qed

lemma trimmed_run:
  assumes "trimmedLinesEqual content spans (List.map trim ls) trim" "length spans = length ls"
  shows "List.map (\<lambda>sp. trim (span_line content sp)) spans = List.map trim ls"
  using assms by (auto simp: trimmedLinesEqual_def list_all_length intro!: nth_equalityI)

lemma stretch_spans:
  assumes "i + n \<le> length (lines_of s)" "0 < n"
  defines "P \<equiv> concat (take i (lines_of s))" and "S \<equiv> take n (drop i (lines_of s))"
  shows "sp_start (splitLineSpans s ! i) = length P"
    "sp_end (splitLineSpans s ! (i + n - 1)) = length P + length (concat S)"
    "s = P @ concat S @ concat (drop (i + n) (lines_of s))"
    "List.map (span_line s) (take n (drop i (splitLineSpans s))) = List.map bare S"
proof -
  let ?ls = "lines_of s"
  have take: "take (i + n) ?ls = take i ?ls @ S" by (simp add: S_def take_add)
  show "sp_start (splitLineSpans s ! i) = length P"
    using assms(1,2) nth_spans [of i ?ls 0] by (simp add: splitLineSpans_lines P_def)
  show "sp_end (splitLineSpans s ! (i + n - 1)) = length P + length (concat S)"
    using assms(1,2) nth_spans [of "i + n - 1" ?ls 0] take by (simp add: splitLineSpans_lines P_def)
  show "s = P @ concat S @ concat (drop (i + n) ?ls)"
    using take concat_lines [of s] append_take_drop_id [of "i + n" ?ls]
    unfolding P_def by (metis append_assoc concat_append)
  show "List.map (span_line s) (take n (drop i (splitLineSpans s))) = List.map bare S"
    using assms(1) slice_span [of _ s]
    by (auto simp: S_def splitLineSpans_lines span_line_def bare_def intro!: nth_equalityI)
qed

lemma tolerant_match_region:
  assumes "m \<in> set (matchTrimmedLines s (splitLineSpans s) ls nl trim)" "ls \<noteq> []"
  shows "\<exists>M Q. s = take (tm_start m) s @ M @ drop (tm_end m) s
    \<and> (List.map trim (bare_lines M) = List.map trim (if nl then ls @ [[]] else ls)
       \<or> List.map trim (bare_lines (M @ [newline])) = List.map trim (if nl then ls @ [[]] else ls))"
proof -
  let ?n = "length ls" and ?ls = "lines_of s" and ?spans = "splitLineSpans s"
  obtain i where i: "m = match_at s ?spans ?n nl i" "i + ?n \<le> length ?ls"
      "trimmedLinesEqual s (take ?n (drop i ?spans)) (List.map trim ls) trim"
    using assms(1) by (auto simp: matchTrimmedLines_def Let_def splitLineSpans_lines)
  define P where "P = concat (take i ?ls)"
  define S where "S = take ?n (drop i ?ls)"
  define Q where "Q = concat (drop (i + ?n) ?ls)"
  note st = stretch_spans [OF i(2), folded P_def S_def Q_def]
  have n: "0 < ?n" using assms(2) by simp
  have "List.map (\<lambda>sp. trim (span_line s sp)) (take ?n (drop i ?spans)) = List.map trim ls"
    using trimmed_run [OF i(3)] i(2) by (simp add: splitLineSpans_lines)
  then have eq: "List.map trim (List.map bare S) = List.map trim ls"
    using arg_cong [OF st(4) [OF n], of "List.map trim"] by (simp add: comp_def)
  have k: "i + ?n - 1 < length ?ls" using i(2) n by linarith
  moreover have "i < length ?ls" using k n by linarith
  ultimately have S: "S \<noteq> []" "wf_lines S" using n wf_lines_take wf_lines_drop wf_lines_of by (auto simp: S_def)
  note last = last_concat_lines [OF S(2,1)]
  have len: "sp_start (?spans ! (i + ?n - 1)) < sp_end (?spans ! (i + ?n - 1))"
    using nth_spans [OF k, of 0] wf_lines_nonempty [OF wf_lines_of, of "?ls ! (i + ?n - 1)" s] k
    by (simp add: splitLineSpans_lines take_Suc_conv_app_nth)
  have end_char: "s ! (sp_end (?spans ! (i + ?n - 1)) - 1) = last (concat S)"
  proof -
    have "s ! (length P + (length (concat S) - 1)) = concat S ! (length (concat S) - 1)"
      using last unfolding st(3) [OF n] nth_append_length_plus by (simp add: nth_append)
    moreover have "0 < length (concat S)" using last by blast
    moreover have "concat S ! (length (concat S) - 1) = last (concat S)" using last last_conv_nth by metis
    ultimately show ?thesis unfolding st(2) [OF n] by simp
  qed
  show ?thesis
  proof (cases "\<not> nl \<and> last (concat S) = newline")
    case True
    then have m: "tm_start m = length P" "tm_end m = length P + length (concat S) - 1"
      using i(1) st(1,2) [OF n] len end_char by (simp_all add: match_at_def Let_def)
    define B where "B = butlast (concat S)"
    have B: "concat S = B @ [newline]" "bare_lines B = List.map bare S"
      using True last append_butlast_last_id [of "concat S"] stretch_lines [OF S(2,1)] by (simp_all add: B_def)
    have "s = P @ B @ newline # Q" using st(3) [OF n] B(1) by simp
    then show ?thesis using m B eq True by (intro exI [of _ B]) simp
  next
    case False
    then have m: "tm_start m = length P" "tm_end m = length P + length (concat S)"
      using i(1) st(1,2) [OF n] len end_char by (auto simp: match_at_def Let_def)
    let ?want = "if nl then List.map bare S @ [[]] else List.map bare S"
    have "bare_lines (concat S) = ?want \<or> bare_lines (concat S @ [newline]) = ?want"
      using stretch_lines [OF S(2,1)] open_stretch_lines [OF S(2,1)] False last
      by (cases "last (last S) = newline") simp_all
    moreover have "List.map trim ?want = List.map trim (if nl then ls @ [[]] else ls)" using eq by simp
    ultimately show ?thesis using m st(3) [OF n] by (intro exI [of _ "concat S"]) auto
  qed
qed

lemma replace_region:
  assumes "replaceInContent s edit = Inr (s', n)" "ed_oldString edit \<noteq> []" "\<not> ed_replaceAll edit"
  shows "n = 1 \<and> (\<exists>p m q. s = p @ m @ q \<and> s' = p @ ed_newString edit @ q
    \<and> (m = ed_oldString edit \<or> agrees_loosely m (ed_oldString edit)))"
proof (cases "count_str s (ed_oldString edit) = 1")
  case True
  then show ?thesis using assms replace_first_split [OF True assms(2), of "ed_newString edit"]
    by (auto simp: replaceInContent_def)
next
  case False
  let ?old = "ed_oldString edit"
  obtain m where m: "resolveTolerantMatch s ?old = Inr m" "n = 1"
      "s' = take (tm_start m) s @ ed_newString edit @ drop (tm_end m) s"
    using assms False by (auto simp: replaceInContent_def Let_def split: if_splits sum.splits)
  obtain ls nl where old: "splitOldTextLines ?old = (ls, nl)" using prod.exhaust by blast
  then have "m \<in> set (matchTrimmedLines s (splitLineSpans s) ls nl trim_trailing)"
    using m(1) by (auto simp: resolveTolerantMatch_def Let_def split: if_splits list.splits)
  from tolerant_match_region [OF this] obtain M where
    M: "s = take (tm_start m) s @ M @ drop (tm_end m) s" "agrees_loosely M ?old"
    using old_lines [OF old] by (auto simp: agrees_loosely_def trimmed_lines_def split: if_splits)
  then show ?thesis using m(2,3) by blast
qed

text \<open>
  C12: An edit of one occurrence that succeeds changes one region of the file and no byte outside it: the
  region is the old text, or agrees with it line by line up to trailing white space, and what comes
  in its place is the new text with the line endings of the file.
\<close>

theorem edit_changes_one_region:
  assumes "applyEdit content edit = Inr (content', n)" "ed_oldString edit \<noteq> []" "\<not> ed_replaceAll edit"
  shows "n = 1 \<and> (\<exists>P M Q. content = P @ M @ Q
    \<and> content' = P @ (if contains_str (trim_prefix content byte_order_mark) crlf
                     then windows (ed_newString edit) else ed_newString edit) @ Q
    \<and> (normalizeLineEndings M = ed_oldString edit
       \<or> agrees_loosely (normalizeLineEndings M) (ed_oldString edit)))"
proof -
  define bom where "bom = (if has_prefix content byte_order_mark then byte_order_mark else [])"
  define body where "body = trim_prefix content byte_order_mark"
  have content: "content = bom @ body"
    by (auto simp: bom_def body_def trim_prefix_def has_prefix_iff)
  obtain s' where s': "replaceInContent (normalizeLineEndings body) edit = Inr (s', n)"
      "content' = bom @ (if contains_str body crlf then windows s' else s')"
      "contains_str body crlf \<longrightarrow> newline \<notin> set (replace_all body crlf [])"
    using assms(1) by (auto simp: applyEdit_def Let_def bom_def body_def windows_def contains_char
        split: if_splits sum.splits)
  from replace_region [OF s'(1) assms(2,3)] obtain p m q where
    r: "n = 1" "normalizeLineEndings body = p @ m @ q" "s' = p @ ed_newString edit @ q"
      "m = ed_oldString edit \<or> agrees_loosely m (ed_oldString edit)" by blast
  show ?thesis
  proof (cases "contains_str body crlf")
    case True
    then have "body = windows p @ windows m @ windows q"
      using windows_normalize [of body] s'(3) r(2) by (simp add: windows_append)
    then have "content = (bom @ windows p) @ windows m @ windows q"
        "content' = (bom @ windows p) @ windows (ed_newString edit) @ windows q"
      using content s'(2) r(3) True by (simp_all add: windows_append)
    then show ?thesis using True r(1,4) normalize_windows [of m] unfolding body_def [symmetric] by metis
  next
    case False
    then have same: "normalizeLineEndings body = body"
      by (simp add: normalizeLineEndings_def replace_all_absent)
    have "\<not> contains_str m crlf" using False same r(2) unfolding contains_str_iff by (metis append_assoc)
    then have "normalizeLineEndings m = m" by (simp add: normalizeLineEndings_def replace_all_absent)
    moreover have "content = (bom @ p) @ m @ q" "content' = (bom @ p) @ ed_newString edit @ q"
      using content s'(2) r(2,3) same False by simp_all
    ultimately show ?thesis using False r(1,4) unfolding body_def [symmetric] by metis
  qed
qed

subsection \<open>Examples and what they show\<close>

definition demo_file :: string where
  "demo_file = byte_order_mark @ ''if x {'' @ [CHR 0x09] @ crlf @ [CHR 0x09] @ ''go()'' @ crlf @ ''}'' @ crlf"

definition demo_edit :: editReplacement where
  "demo_edit = \<lparr>ed_oldString = ''if x {'' @ [newline] @ [CHR 0x09] @ ''go()'',
     ed_newString = ''if y {'' @ [newline] @ [CHR 0x09] @ ''stop()'', ed_replaceAll = False\<rparr>"

lemma demo_edited:
  "applyEdit demo_file demo_edit = Inr (byte_order_mark @ ''if y {'' @ crlf @ [CHR 0x09] @ ''stop()'' @ crlf @ ''}'' @ crlf, 1)"
  by code_simp

theorem edit_changes_one_region_witness:
  "\<exists>content'. applyEdit demo_file demo_edit = Inr (content', 1) \<and> (\<exists>P M Q. demo_file = P @ M @ Q
    \<and> content' = P @ windows (ed_newString demo_edit) @ Q
    \<and> (normalizeLineEndings M = ed_oldString demo_edit
       \<or> agrees_loosely (normalizeLineEndings M) (ed_oldString demo_edit)))"
proof -
  have c: "contains_str (trim_prefix demo_file byte_order_mark) crlf" by code_simp
  have "ed_oldString demo_edit \<noteq> []" "\<not> ed_replaceAll demo_edit" by (simp_all add: demo_edit_def)
  from edit_changes_one_region [OF demo_edited this] show ?thesis using demo_edited c by auto
qed

text \<open>
  The tool promises to refuse an old text that is not unique, but it counts the occurrences that do not
  overlap, and takes the first of two that do.
\<close>

lemma overlapping_matches_count_once:
  "applyEdit ''aaa'' \<lparr>ed_oldString = ''aa'', ed_newString = ''b'', ed_replaceAll = False\<rparr> = Inr (''ba'', 1)"
  by code_simp

end
