(* ===== verification/DiffView.thy ===== *)
theory DiffView
  imports Prelude
begin

text \<open>
  The diff that a permission prompt shows (\<open>internal/tool/perm/diff.go\<close>, \<open>types.go\<close>): a unified diff
  is read back into numbered lines, whose additions and removals are counted.  The diff itself comes
  from a library and is a parameter (\<open>unified\<close>: path, old text, new text).
\<close>

datatype DiffLineType =
    DiffLineContext | DiffLineAdded | DiffLineRemoved | DiffLineHunk | DiffLineMetadata | DiffLineNoNewline

record DiffLine =
  dl_Type :: DiffLineType
  dl_Content :: string
  dl_OldLineNo :: int
  dl_NewLineNo :: int

record DiffMetadata =
  dm_OldContent :: string
  dm_NewContent :: string
  dm_UnifiedDiff :: string
  dm_Lines :: "DiffLine list"
  dm_IsNewFile :: bool
  dm_PreviewMode :: bool
  dm_AddedCount :: int
  dm_RemovedCount :: int

text \<open>The pattern \<open>hunkHeaderRegex\<close>, part by part; each is optional only where the pattern says so.\<close>

definition re_blank :: "char \<Rightarrow> bool" where
  "re_blank c = (c = CHR '' '' \<or> c = CHR 0x09 \<or> c = CHR 0x0A \<or> c = CHR 0x0C \<or> c = CHR 0x0D)"

definition some_blanks :: "string \<Rightarrow> string option" where
  "some_blanks s = (let t = dropWhile re_blank s in if length t < length s then Some t else None)"

definition some_digits :: "string \<Rightarrow> (string \<times> string) option" where
  "some_digits s = (let d = takeWhile is_digit s in if d = [] then None else Some (d, drop (length d) s))"

definition expect :: "string \<Rightarrow> string \<Rightarrow> string option" where
  "expect p s = (if has_prefix s p then Some (drop (length p) s) else None)"

definition range_after :: "string \<Rightarrow> string \<Rightarrow> (string \<times> string) option" where
  "range_after sign s =
     (case Option.bind (expect sign s) some_digits of
        None \<Rightarrow> None
      | Some (d, s) \<Rightarrow>
          Some (d, case Option.bind (expect '','' s) some_digits of None \<Rightarrow> s | Some (_, s) \<Rightarrow> s))"

definition hunk_header :: "string \<Rightarrow> (string \<times> string) option" where
  "hunk_header line =
     (case Option.bind (Option.bind (expect ''@@'' line) some_blanks) (range_after ''-'') of
        None \<Rightarrow> None
      | Some (old, s) \<Rightarrow>
          (case Option.bind (some_blanks s) (range_after ''+'') of
             None \<Rightarrow> None
           | Some (new, s) \<Rightarrow>
               (case Option.bind (some_blanks s) (expect ''@@'') of None \<Rightarrow> None | Some _ \<Rightarrow> Some (old, new))))"

text \<open>\<open>strconv.Atoi\<close> of digits whose error is dropped: out of range it is the largest value.\<close>

definition line_number :: "string \<Rightarrow> int" where
  "line_number d = (case atoi d of Some n \<Rightarrow> n | None \<Rightarrow> 2 ^ 63 - 1)"

definition diff_line :: "DiffLineType \<Rightarrow> string \<Rightarrow> int \<Rightarrow> int \<Rightarrow> DiffLine" where
  "diff_line ty content old new =
     \<lparr>dl_Type = ty, dl_Content = content, dl_OldLineNo = old, dl_NewLineNo = new\<rparr>"

definition is_file_header :: "string \<Rightarrow> bool" where
  "is_file_header line = (has_prefix line ''---'' \<or> has_prefix line ''+++'')"

fun parse_lines :: "int \<Rightarrow> int \<Rightarrow> string list \<Rightarrow> DiffLine list" where
  "parse_lines old new [] = []"
| "parse_lines old new (line # rest) =
     (if is_file_header line then parse_lines old new rest
      else if has_prefix line [CHR 0x5C]
        then (let content = trim_prefix line [CHR 0x5C, CHR '' '']
              in diff_line (if content = ''No newline at end of file'' then DiffLineNoNewline else DiffLineMetadata)
                   content 0 0 # parse_lines old new rest)
      else case hunk_header line of
             Some (o', n') \<Rightarrow>
               diff_line DiffLineHunk line 0 0 # parse_lines (line_number o') (line_number n') rest
           | None \<Rightarrow>
               (case line of
                  [] \<Rightarrow> diff_line DiffLineContext [] old new # parse_lines (old + 1) (new + 1) rest
                | c # content \<Rightarrow>
                    if c = CHR ''+'' then diff_line DiffLineAdded content 0 new # parse_lines old (new + 1) rest
                    else if c = CHR ''-'' then diff_line DiffLineRemoved content old 0 # parse_lines (old + 1) new rest
                    else if c = CHR '' '' then diff_line DiffLineContext content old new # parse_lines (old + 1) (new + 1) rest
                    else diff_line DiffLineContext line old new # parse_lines (old + 1) (new + 1) rest))"

definition diff_lines :: "string \<Rightarrow> string list" where
  "diff_lines d = (let ls = split_on [CHR 0x0A] d in if ls \<noteq> [] \<and> last ls = [] then butlast ls else ls)"

definition ParseUnifiedDiff :: "string \<Rightarrow> DiffLine list" where
  "ParseUnifiedDiff unifiedDiff = (if unifiedDiff = [] then [] else parse_lines 0 0 (diff_lines unifiedDiff))"

definition lines_of_type :: "DiffLineType \<Rightarrow> DiffLine list \<Rightarrow> string list" where
  "lines_of_type ty ls = List.map dl_Content (List.filter (\<lambda>l. dl_Type l = ty) ls)"

definition GenerateDiff :: "(string \<Rightarrow> string \<Rightarrow> string \<Rightarrow> string) \<Rightarrow> string \<Rightarrow> string \<Rightarrow> string \<Rightarrow> DiffMetadata" where
  "GenerateDiff unified filePath oldContent newContent =
     (let d = unified filePath oldContent newContent; ls = ParseUnifiedDiff d
      in \<lparr>dm_OldContent = oldContent, dm_NewContent = newContent, dm_UnifiedDiff = d, dm_Lines = ls,
          dm_IsNewFile = (oldContent = []), dm_PreviewMode = False,
          dm_AddedCount = int (length (lines_of_type DiffLineAdded ls)),
          dm_RemovedCount = int (length (lines_of_type DiffLineRemoved ls))\<rparr>)"

definition CapUnifiedDiff :: "string \<Rightarrow> nat \<Rightarrow> string \<times> int" where
  "CapUnifiedDiff diff maxLines =
     (let ls = split_on [CHR 0x0A] diff
      in if length ls \<le> maxLines then (diff, 0)
         else (join_str [CHR 0x0A] (take maxLines ls), int (length ls - maxLines)))"

definition GeneratePreview :: "string \<Rightarrow> bool \<Rightarrow> DiffMetadata" where
  "GeneratePreview content isNewFile =
     (let ls = split_on [CHR 0x0A] content
      in \<lparr>dm_OldContent = [], dm_NewContent = content, dm_UnifiedDiff = [],
          dm_Lines = List.map (\<lambda>(i, l). diff_line DiffLineContext l 0 (int i + 1)) (enumerate 0 ls),
          dm_IsNewFile = isNewFile, dm_PreviewMode = True,
          dm_AddedCount = int (length ls), dm_RemovedCount = 0\<rparr>)"

subsection \<open>What the prompt shows\<close>

text \<open>The changed lines of a unified diff: those that start with the sign.\<close>

definition signed :: "char \<Rightarrow> string list \<Rightarrow> string list" where
  "signed c ls = List.map tl (List.filter (\<lambda>l. l \<noteq> [] \<and> hd l = c) ls)"

lemma hunk_header_sign: "hunk_header line \<noteq> None \<Longrightarrow> has_prefix line ''@@''"
  by (auto simp: hunk_header_def expect_def split: if_splits)

lemma lines_of_type_Cons:
  "lines_of_type ty (diff_line t c i j # ls) = (if t = ty then c # lines_of_type ty ls else lines_of_type ty ls)"
  by (simp add: lines_of_type_def diff_line_def)

lemma parse_lines_shows:
  assumes "\<forall>l \<in> set ls. \<not> is_file_header l"
  shows "lines_of_type DiffLineAdded (parse_lines i j ls) = signed CHR ''+'' ls
    \<and> lines_of_type DiffLineRemoved (parse_lines i j ls) = signed CHR ''-'' ls"
  using assms
proof (induction ls arbitrary: i j)
  case Nil
  then show ?case by (simp add: lines_of_type_def signed_def)
next
  case (Cons l ls)
  have IH: "lines_of_type DiffLineAdded (parse_lines i j ls) = signed CHR ''+'' ls"
      "lines_of_type DiffLineRemoved (parse_lines i j ls) = signed CHR ''-'' ls" for i j
    using Cons by simp_all
  have h: "\<not> is_file_header l" using Cons.prems by simp
  show ?case
  proof (cases "hunk_header l")
    case None
    then show ?thesis using h IH
      by (cases l) (auto simp: lines_of_type_Cons signed_def Let_def)
  next
    case (Some x)
    then obtain t where "l = ''@@'' @ t" using hunk_header_sign [of l] by (auto simp: has_prefix_iff)
    then show ?thesis using h IH Some
      by (cases x) (simp add: lines_of_type_Cons signed_def)
  qed
qed


text \<open>The cap keeps the first lines and counts what it drops.\<close>

lemma capped_diff:
  "CapUnifiedDiff d n = (d', k) \<Longrightarrow> k = int (length (split_on [CHR 0x0A] d) - n)"
  by (auto simp: CapUnifiedDiff_def Let_def split: if_splits)

subsection \<open>Examples and what they show\<close>

definition text_diff :: "string list \<Rightarrow> string" where
  "text_diff ls = concat (List.map (\<lambda>l. l @ [CHR 0x0A]) ls)"

definition demo_diff :: "string \<Rightarrow> string \<Rightarrow> string \<Rightarrow> string" where
  "demo_diff path old new =
     text_diff [''--- a.txt'', ''+++ a.txt'', ''@@ -3,2 +3,3 @@'', '' keep'', ''-gone'', ''+one'', ''+two'']"


text \<open>
  A removed line that starts with two hyphens, or an added one that starts with two plus signs, looks
  like a header in the diff: it is neither shown for approval nor counted.
\<close>

lemma removed_comment_is_not_shown:
  "List.map dl_Content (ParseUnifiedDiff (text_diff
       [''--- q.sql'', ''+++ q.sql'', ''@@ -1,2 +1 @@'', ''--- only own rows'', '' SELECT 1'']))
     = [''@@ -1,2 +1 @@'', ''SELECT 1'']"
  by code_simp

end
