(* ===== verification/FileTools.thy ===== *)
theory FileTools
  imports EditMatch DiffView Message Collections
begin

text \<open>
  The tools that read and change files (\<open>internal/tool/fs\<close>: \<open>file_view.go\<close>, \<open>read.go\<close>, \<open>write.go\<close>,
  \<open>edit.go\<close>) over one disk: each successful read or write records the time and the size of the file,
  and a file is overwritten only when they are still those on the disk.

  The disk maps cleaned paths to files and directories; other programs change it between two calls.
  What a system call returns beside that -- errors, the time of a write -- is the environment of the
  call.  Permission bits are those asked for, before the process mask.

  The theorem: in every history of calls and foreign changes, an overwrite destroys only contents that
  the model read or wrote last, and an edit of anything else says so in its result.
\<close>

subsection \<open>Files and views\<close>

record fileStamp =
  st_modTime :: int
  st_size :: nat

datatype entry = RegFile string int int | Directory

type_synonym fs_disk = "(string, entry) gomap"

record fs_world =
  fw_disk :: fs_disk
  fw_views :: "(string, fileStamp) gomap"

record fs_env =
  fe_stat :: "string option"
  fe_open :: "string option"
  fe_read :: "string option"
  fe_mkdir :: "string option"
  fe_write :: "(string \<times> string option) option"
  fe_now :: int
  fe_restat :: bool
  fe_diag :: "string \<Rightarrow> string"
  fe_unified :: "string \<Rightarrow> string \<Rightarrow> string \<Rightarrow> string"
  fe_id :: string

text \<open>\<open>fe_write\<close>: the error of a failed write and what it left in the file, if it got that far.\<close>

definition fileViewKey :: "string \<Rightarrow> string" where
  "fileViewKey filePath = path_clean filePath"

definition entry_at :: "fs_world \<Rightarrow> string \<Rightarrow> entry option" where
  "entry_at w p = gm_get (fw_disk w) (path_clean p)"

definition put_entry :: "string \<Rightarrow> entry \<Rightarrow> fs_world \<Rightarrow> fs_world" where
  "put_entry p e w = w\<lparr>fw_disk := gm_put (path_clean p) e (fw_disk w)\<rparr>"

definition stamp_of :: "entry \<Rightarrow> fileStamp" where
  "stamp_of e = (case e of
     RegFile content t _ \<Rightarrow> \<lparr>st_modTime = t, st_size = length content\<rparr>
   | Directory \<Rightarrow> \<lparr>st_modTime = 0, st_size = 0\<rparr>)"

definition recordFileRead :: "string \<Rightarrow> entry \<Rightarrow> fs_world \<Rightarrow> fs_world" where
  "recordFileRead filePath info w = w\<lparr>fw_views := gm_put (fileViewKey filePath) (stamp_of info) (fw_views w)\<rparr>"

definition recordFileWritten :: "fs_env \<Rightarrow> string \<Rightarrow> fs_world \<Rightarrow> fs_world" where
  "recordFileWritten E filePath w =
     (if \<not> fe_restat E then w
      else case entry_at w filePath of None \<Rightarrow> w | Some info \<Rightarrow> recordFileRead filePath info w)"

definition ResetFileViews :: "fs_world \<Rightarrow> fs_world" where
  "ResetFileViews w = w\<lparr>fw_views := gm_empty\<rparr>"

datatype fileView = viewNone | viewStale | viewCurrent

definition os_Stat :: "fs_env \<Rightarrow> fs_world \<Rightarrow> string \<Rightarrow> string + entry option" where
  "os_Stat E w p = (case fe_stat E of Some e \<Rightarrow> Inl e | None \<Rightarrow> Inr (entry_at w p))"

definition no_such_file :: "string \<Rightarrow> string" where
  "no_such_file p = ''stat '' @ p @ '': no such file or directory''"

definition viewOf :: "fs_env \<Rightarrow> fs_world \<Rightarrow> string \<Rightarrow> string + fileView" where
  "viewOf E w filePath =
     (case gm_get (fw_views w) (fileViewKey filePath) of
        None \<Rightarrow> Inr viewNone
      | Some stamp \<Rightarrow>
          (case os_Stat E w filePath of
             Inl e \<Rightarrow> Inl (''failed to stat file: '' @ e)
           | Inr None \<Rightarrow> Inl (''failed to stat file: '' @ no_such_file filePath)
           | Inr (Some info) \<Rightarrow> Inr (if stamp_of info \<noteq> stamp then viewStale else viewCurrent)))"

definition requireObservedView :: "fs_env \<Rightarrow> fs_world \<Rightarrow> string \<Rightarrow> string + fileView" where
  "requireObservedView E w filePath =
     (case viewOf E w filePath of
        Inl e \<Rightarrow> Inl e
      | Inr view \<Rightarrow>
          if view = viewNone
          then Inl (filePath @ '' has not been read in this session; Read it before modifying it'')
          else Inr view)"

definition requireCurrentView :: "fs_env \<Rightarrow> fs_world \<Rightarrow> string \<Rightarrow> string option" where
  "requireCurrentView E w filePath =
     (case requireObservedView E w filePath of
        Inl e \<Rightarrow> Some e
      | Inr view \<Rightarrow>
          if view = viewStale
          then Some (filePath @ '' has changed on disk since it was last read; Read it again and retry against its current content'')
          else None)"

subsection \<open>Parameters and results\<close>

type_synonym tool_params = "string \<rightharpoonup> gval"

definition RequireString :: "tool_params \<Rightarrow> string \<Rightarrow> string + string" where
  "RequireString params key =
     (case str_arg params key of
        None \<Rightarrow> Inl (key @ '' is required'')
      | Some v \<Rightarrow> if v = [] then Inl (key @ '' is required'') else Inr v)"

definition GetInt :: "tool_params \<Rightarrow> string \<Rightarrow> int \<Rightarrow> int" where
  "GetInt params key default_val = (case params key of Some (GNum n) \<Rightarrow> n | _ \<Rightarrow> default_val)"

definition resolveEditPath :: "string \<Rightarrow> string \<Rightarrow> string" where
  "resolveEditPath filePath cwd = (if is_abs filePath then filePath else path_join cwd filePath)"

record ContentLine =
  cl_LineNo :: nat
  cl_Text :: string

record FsResult =
  fr_Success :: bool
  fr_Output :: string
  fr_Error :: string
  fr_Lines :: "ContentLine list"
  fr_Details :: details
  fr_HookResponse :: gval

definition NewErrorResult :: "string \<Rightarrow> FsResult" where
  "NewErrorResult e = \<lparr>fr_Success = False, fr_Output = [], fr_Error = e, fr_Lines = [], fr_Details = NoDetails,
     fr_HookResponse = GNil\<rparr>"

text \<open>A successful result, with the diagnostics of a language server for the file at its end.\<close>

definition success_result :: "fs_env \<Rightarrow> string \<Rightarrow> string \<Rightarrow> ContentLine list \<Rightarrow> details \<Rightarrow> gval \<Rightarrow> FsResult" where
  "success_result E filePath output ls dts hook =
     \<lparr>fr_Success = True, fr_Output = output @ fe_diag E filePath, fr_Error = [], fr_Lines = ls,
      fr_Details = dts, fr_HookResponse = hook\<rparr>"

text \<open>\<open>os.WriteFile\<close>: an existing file keeps its permission bits, a new one gets the nine lowest of the mode.\<close>

definition WriteFile :: "fs_env \<Rightarrow> string \<Rightarrow> string \<Rightarrow> int \<Rightarrow> fs_world \<Rightarrow> string option \<times> fs_world" where
  "WriteFile E filePath content mode w =
     (let perm = (case entry_at w filePath of Some (RegFile _ _ m) \<Rightarrow> m | _ \<Rightarrow> mode mod 512)
      in case fe_write E of
           Some (e, None) \<Rightarrow> (Some e, w)
         | Some (e, Some left) \<Rightarrow>
             (Some e, if entry_at w filePath = Some Directory then w
                      else put_entry filePath (RegFile left (fe_now E) perm) w)
         | None \<Rightarrow>
             if entry_at w filePath = Some Directory then (Some (''open '' @ filePath @ '': is a directory''), w)
             else (None, put_entry filePath (RegFile content (fe_now E) perm) w))"

definition ReadFile :: "fs_env \<Rightarrow> fs_world \<Rightarrow> string \<Rightarrow> string + string option" where
  "ReadFile E w filePath =
     (case fe_read E of
        Some e \<Rightarrow> Inl e
      | None \<Rightarrow>
          (case entry_at w filePath of
             None \<Rightarrow> Inr None
           | Some Directory \<Rightarrow> Inl (''read '' @ filePath @ '': is a directory'')
           | Some (RegFile content _ _) \<Rightarrow> Inr (Some content)))"

subsection \<open>Read\<close>

definition maxReadLines :: int where "maxReadLines = 2000"
definition maxLineLength :: nat where "maxLineLength = 2000"
definition maxReadBytes :: nat where "maxReadBytes = 262144"
definition maxScanToken :: nat where "maxScanToken = 1048576"

definition lineTruncationMarker :: string where
  "lineTruncationMarker = [CHR 0xE2, CHR 0x80, CHR 0xA6] @ '' [line truncated]''"

text \<open>\<open>bufio.ScanLines\<close>: raw lines; the text of a line is without one carriage return at its end.\<close>

definition scan_lines :: "string \<Rightarrow> string list" where
  "scan_lines content =
     (let ls = split_on [newline] content in if last ls = [] then butlast ls else ls)"

definition shown_text :: "string \<Rightarrow> string" where
  "shown_text raw =
     (let t = trim_suffix raw [CHR 0x0D]
      in if maxLineLength < rune_count t then take_runes maxLineLength t @ lineTruncationMarker else t)"

fun read_loop :: "int \<Rightarrow> int \<Rightarrow> string list \<Rightarrow> nat \<Rightarrow> nat \<Rightarrow> nat \<Rightarrow> ContentLine list
    \<Rightarrow> string + ContentLine list \<times> nat \<times> bool" where
  "read_loop offset limit [] lineNo readCount emitted acc = Inr (acc, lineNo, False)"
| "read_loop offset limit (raw # rest) lineNo readCount emitted acc =
     (if maxScanToken \<le> length raw then Inl ''bufio.Scanner: token too long''
      else let lineNo = lineNo + 1
           in if 0 < offset \<and> int lineNo < offset then read_loop offset limit rest lineNo readCount emitted acc
              else if limit \<le> int readCount \<or> maxReadBytes \<le> emitted then Inr (acc, lineNo, True)
              else let t = shown_text raw
                   in read_loop offset limit rest lineNo (readCount + 1) (emitted + length t + 8)
                        (acc @ [\<lparr>cl_LineNo = lineNo, cl_Text = t\<rparr>]))"

text \<open>\<open>%.1f\<close> of a number of bytes over a power of two: to the nearest tenth, ties to the even one.\<close>

definition tenths :: "nat \<Rightarrow> nat \<Rightarrow> string" where
  "tenths n unit =
     (let q = 10 * n div unit; r = 10 * n mod unit;
          t = (if unit < 2 * r \<or> unit = 2 * r \<and> odd q then q + 1 else q)
      in nat_str (t div 10) @ ''.'' @ nat_str (t mod 10))"

definition FormatSize :: "nat \<Rightarrow> string" where
  "FormatSize n =
     (if 1073741824 \<le> n then tenths n 1073741824 @ '' GB''
      else if 1048576 \<le> n then tenths n 1048576 @ '' MB''
      else if 1024 \<le> n then tenths n 1024 @ '' KB''
      else nat_str n @ '' B'')"

definition path_ext :: "string \<Rightarrow> string" where
  "path_ext p =
     (let base = (case last_index_of p ''/'' of None \<Rightarrow> p | Some i \<Rightarrow> drop (i + 1) p)
      in case last_index_of base ''.'' of None \<Rightarrow> [] | Some i \<Rightarrow> drop i base)"

definition isImagePath :: "string \<Rightarrow> bool" where
  "isImagePath filePath =
     (to_lower (path_ext filePath) \<in> set [''.png'', ''.jpg'', ''.jpeg'', ''.gif'', ''.webp''])"

definition binary_note :: "string \<Rightarrow> nat \<Rightarrow> string" where
  "binary_note filePath bytes =
     (if isImagePath filePath
      then ''image file: '' @ filePath @ '' ('' @ FormatSize bytes @ ''). Read cannot display images yet '' @ em_dash
           @ '' ask the user to attach the image to a message instead''
      else ''Binary file detected: '' @ filePath)"

definition read_note :: "string \<Rightarrow> int \<Rightarrow> ContentLine list \<Rightarrow> nat \<Rightarrow> bool \<Rightarrow> string" where
  "read_note filePath offset ls lineNo truncated =
     (if ls = [] \<and> 0 < lineNo
        then ''no lines at offset '' @ int_str offset @ '': '' @ filePath @ '' has '' @ nat_str lineNo @ '' lines''
      else if ls = [] then ''file exists but is empty: '' @ filePath
      else if truncated
        then (let k = cl_LineNo (last ls)
              in ''(output truncated at line '' @ nat_str k @ ''; continue with offset='' @ nat_str (k + 1) @ '')'')
      else [])"

definition read_hook :: "string \<Rightarrow> int \<Rightarrow> ContentLine list \<Rightarrow> nat \<Rightarrow> gval" where
  "read_hook filePath offset ls lineNo =
     GObj [(''type'', GStr ''text''),
           (''file'', GObj [(''filePath'', GStr filePath),
              (''content'', GStr (concat (List.map (\<lambda>l. cl_Text l @ [newline]) ls))),
              (''numLines'', GNum (int (length ls))),
              (''startLine'', GNum (if 0 < offset then offset else 1)),
              (''totalLines'', GNum (int lineNo))])]"

definition Read_Execute :: "fs_env \<Rightarrow> tool_params \<Rightarrow> string \<Rightarrow> fs_world \<Rightarrow> FsResult \<times> fs_world" where
  "Read_Execute E params cwd w =
     (case RequireString params ''file_path'' of
        Inl e \<Rightarrow> (NewErrorResult e, w)
      | Inr p \<Rightarrow>
          (let filePath = resolveEditPath p cwd; offset = GetInt params ''offset'' 0;
               limit = GetInt params ''limit'' maxReadLines
           in case os_Stat E w filePath of
                Inl e \<Rightarrow> (NewErrorResult (''failed to stat file: '' @ e), w)
              | Inr None \<Rightarrow> (NewErrorResult (''file not found: '' @ filePath), w)
              | Inr (Some Directory) \<Rightarrow> (NewErrorResult (''path is a directory: '' @ filePath), w)
              | Inr (Some (RegFile content t m)) \<Rightarrow>
                  (case fe_open E of
                     Some e \<Rightarrow> (NewErrorResult (''failed to open file: '' @ e), w)
                   | None \<Rightarrow>
                       if CHR 0x00 \<in> set (take 512 content)
                       then (\<lparr>fr_Success = True, fr_Output = binary_note filePath (length content), fr_Error = [],
                              fr_Lines = [], fr_Details = NoDetails, fr_HookResponse = GNil\<rparr>,
                             recordFileRead filePath (RegFile content t m) w)
                       else case (case fe_read E of
                                    Some e \<Rightarrow> Inl e
                                  | None \<Rightarrow> read_loop offset limit (scan_lines content) 0 0 0 []) of
                              Inl e \<Rightarrow> (NewErrorResult (''error reading file: '' @ e), w)
                            | Inr (ls, lineNo, truncated) \<Rightarrow>
                                (success_result E filePath (read_note filePath offset ls lineNo truncated) ls
                                   NoDetails (read_hook filePath offset ls lineNo),
                                 recordFileRead filePath (RegFile content t m) w))))"

subsection \<open>Write\<close>

record PermissionRequest =
  pr_ID :: string
  pr_ToolName :: string
  pr_FilePath :: string
  pr_Description :: string
  pr_DiffMeta :: DiffMetadata

definition Write_PreparePermission :: "fs_env \<Rightarrow> tool_params \<Rightarrow> string \<Rightarrow> fs_world \<Rightarrow> string + PermissionRequest" where
  "Write_PreparePermission E params cwd w =
     (case RequireString params ''file_path'' of
        Inl e \<Rightarrow> Inl e
      | Inr p \<Rightarrow>
          (case str_arg params ''content'' of
             None \<Rightarrow> Inl ''content is required''
           | Some content \<Rightarrow>
               (let filePath = resolveEditPath p cwd;
                    request = (\<lambda>description diff. \<lparr>pr_ID = fe_id E, pr_ToolName = ''Write'',
                      pr_FilePath = filePath, pr_Description = description, pr_DiffMeta = diff\<rparr>)
                in case os_Stat E w filePath of
                     Inl e \<Rightarrow> Inl (''failed to check file: '' @ e)
                   | Inr None \<Rightarrow> Inr (request ''Create new file'' (GeneratePreview content True))
                   | Inr (Some _) \<Rightarrow>
                       (case requireCurrentView E w filePath of
                          Some e \<Rightarrow> Inl e
                        | None \<Rightarrow>
                            (case ReadFile E w filePath of
                               Inl e \<Rightarrow> Inl (''failed to read existing file: '' @ e)
                             | Inr None \<Rightarrow> Inl (''failed to read existing file: '' @ no_such_file filePath)
                             | Inr (Some old) \<Rightarrow>
                                 Inr (request ''Overwrite existing file''
                                   (GenerateDiff (fe_unified E) filePath old content)))))))"

text \<open>\<open>os.MkdirAll\<close>: the directory and those above it that are missing.\<close>

fun mkdir_all :: "nat \<Rightarrow> string \<Rightarrow> fs_world \<Rightarrow> string option \<times> fs_world" where
  "mkdir_all 0 p w = (None, w)"
| "mkdir_all (Suc n) p w =
     (case entry_at w p of
        Some Directory \<Rightarrow> (None, w)
      | Some (RegFile _ _ _) \<Rightarrow> (Some (''mkdir '' @ p @ '': not a directory''), w)
      | None \<Rightarrow>
          (case (if path_dir p = p then (None, w) else mkdir_all n (path_dir p) w) of
             (Some e, w) \<Rightarrow> (Some e, w)
           | (None, w) \<Rightarrow> (None, put_entry p Directory w)))"

definition MkdirAll :: "fs_env \<Rightarrow> string \<Rightarrow> fs_world \<Rightarrow> string option \<times> fs_world" where
  "MkdirAll E p w = (case fe_mkdir E of Some e \<Rightarrow> (Some e, w) | None \<Rightarrow> mkdir_all (length p + 1) p w)"

definition maxStoredDiffLines :: nat where "maxStoredDiffLines = 400"

definition change_details :: "string \<Rightarrow> int \<Rightarrow> bool \<Rightarrow> DiffMetadata \<Rightarrow> details" where
  "change_details filePath edits isNew changes =
     (let (stored, dropped) = CapUnifiedDiff (dm_UnifiedDiff changes) maxStoredDiffLines
      in FileChange \<lparr>fc_Path = filePath, fc_EditCount = edits, fc_IsNewFile = isNew,
           fc_AddedLines = dm_AddedCount changes, fc_RemovedLines = dm_RemovedCount changes,
           fc_UnifiedDiff = stored, fc_TruncatedDiffLines = dropped\<rparr>)"

definition current_note :: string where
  "current_note = ''; file state is current '' @ em_dash @ '' no need to re-read''"

definition write_output :: "string \<Rightarrow> bool \<Rightarrow> string \<Rightarrow> string" where
  "write_output filePath isNew content =
     (if isNew then ''Created '' else ''Updated '') @ filePath @ '' (''
     @ nat_str (1 + length (List.filter (\<lambda>c. c = newline) content)) @ '' lines)''
     @ (if isNew then [] else ''. Note: this replaced an existing file; use Edit for modifications'') @ current_note"

definition write_hook :: "string \<Rightarrow> string option \<Rightarrow> string \<Rightarrow> gval" where
  "write_hook filePath old content =
     GObj [(''type'', GStr (if old = None then ''create'' else ''update'')), (''filePath'', GStr filePath),
           (''content'', GStr content), (''structuredPatch'', GList []),
           (''originalFile'', case old of None \<Rightarrow> GNil | Some s \<Rightarrow> GStr s)]"

text \<open>The content a write replaces: none for a new file, else what the view must still be.\<close>

definition content_to_replace :: "fs_env \<Rightarrow> string \<Rightarrow> fs_world \<Rightarrow> string + string option" where
  "content_to_replace E filePath w =
     (if os_Stat E w filePath = Inr None then Inr None
      else case requireCurrentView E w filePath of
             Some e \<Rightarrow> Inl e
           | None \<Rightarrow>
               (case ReadFile E w filePath of
                  Inl e \<Rightarrow> Inl (''failed to read existing file: '' @ e)
                | Inr None \<Rightarrow> Inl (''failed to read existing file: '' @ no_such_file filePath)
                | Inr (Some old) \<Rightarrow> Inr (Some old)))"

definition Write_ExecuteApproved :: "fs_env \<Rightarrow> tool_params \<Rightarrow> string \<Rightarrow> fs_world \<Rightarrow> FsResult \<times> fs_world" where
  "Write_ExecuteApproved E params cwd w =
     (case RequireString params ''file_path'' of
        Inl e \<Rightarrow> (NewErrorResult e, w)
      | Inr p \<Rightarrow>
          (let content = (case str_arg params ''content'' of None \<Rightarrow> [] | Some c \<Rightarrow> c);
               filePath = resolveEditPath p cwd
           in case MkdirAll E (path_dir filePath) w of
                (Some e, w) \<Rightarrow> (NewErrorResult (''failed to create directory: '' @ e), w)
              | (None, w) \<Rightarrow>
                  (case content_to_replace E filePath w of
                     Inl e \<Rightarrow> (NewErrorResult e, w)
                   | Inr old \<Rightarrow>
                       (case WriteFile E filePath content (GetInt params ''mode'' 420 mod 4096) w of
                          (Some e, w) \<Rightarrow> (NewErrorResult (''failed to write file: '' @ e), w)
                        | (None, w) \<Rightarrow>
                            (let changes = GenerateDiff (fe_unified E) filePath (case old of None \<Rightarrow> [] | Some s \<Rightarrow> s) content
                             in (success_result E filePath (write_output filePath (old = None) content) []
                                   (change_details filePath 0 (old = None) changes) (write_hook filePath old content),
                                 recordFileWritten E filePath w))))))"

subsection \<open>Edit\<close>

definition Edit_PreparePermission :: "fs_env \<Rightarrow> tool_params \<Rightarrow> string \<Rightarrow> fs_world \<Rightarrow> string + PermissionRequest" where
  "Edit_PreparePermission E params cwd w =
     (case parseEditRequest params of
        Inl e \<Rightarrow> Inl e
      | Inr (p, edit) \<Rightarrow>
          (let filePath = resolveEditPath p cwd
           in case ReadFile E w filePath of
                Inl e \<Rightarrow> Inl (''failed to read file: '' @ e)
              | Inr None \<Rightarrow> Inl (''file not found: '' @ filePath)
              | Inr (Some content) \<Rightarrow>
                  (case requireObservedView E w filePath of
                     Inl e \<Rightarrow> Inl e
                   | Inr _ \<Rightarrow>
                       (case applyEdit content edit of
                          Inl e \<Rightarrow> Inl e
                        | Inr (newContent, _) \<Rightarrow>
                            Inr \<lparr>pr_ID = fe_id E, pr_ToolName = ''Edit'', pr_FilePath = filePath,
                              pr_Description = ''Replace text in file'',
                              pr_DiffMeta = GenerateDiff (fe_unified E) filePath content newContent\<rparr>))))"

definition stale_note :: string where
  "stale_note = ''. Note: the file had changed on disk since your last read '' @ em_dash
     @ '' this edit applied cleanly, but the file contains other changes not in your context; Read it before edits that depend on surrounding content''"

definition edit_head :: "string \<Rightarrow> nat \<Rightarrow> DiffMetadata \<Rightarrow> string" where
  "edit_head filePath edits changes =
     ''Edited '' @ filePath @ '' ('' @ nat_str edits @ '' replacement(s), +'' @ int_str (dm_AddedCount changes)
     @ '' -'' @ int_str (dm_RemovedCount changes) @ '')''"

definition edit_output :: "string \<Rightarrow> nat \<Rightarrow> DiffMetadata \<Rightarrow> fileView \<Rightarrow> string" where
  "edit_output filePath edits changes view =
     edit_head filePath edits changes @ (if view = viewStale then stale_note else current_note)"

definition edit_hook :: "string \<Rightarrow> editReplacement \<Rightarrow> string \<Rightarrow> gval" where
  "edit_hook filePath edit old =
     GObj [(''filePath'', GStr filePath), (''oldString'', GStr (ed_oldString edit)),
           (''newString'', GStr (ed_newString edit)), (''replaceAll'', GBool (ed_replaceAll edit)),
           (''originalFile'', GStr old), (''structuredPatch'', GList []), (''userModified'', GBool False)]"

definition Edit_ExecuteApproved :: "fs_env \<Rightarrow> tool_params \<Rightarrow> string \<Rightarrow> fs_world \<Rightarrow> FsResult \<times> fs_world" where
  "Edit_ExecuteApproved E params cwd w =
     (case parseEditRequest params of
        Inl e \<Rightarrow> (NewErrorResult e, w)
      | Inr (p, edit) \<Rightarrow>
          (let filePath = resolveEditPath p cwd
           in case ReadFile E w filePath of
                Inl e \<Rightarrow> (NewErrorResult (''failed to read file: '' @ e), w)
              | Inr None \<Rightarrow> (NewErrorResult (''failed to read file: '' @ no_such_file filePath), w)
              | Inr (Some old) \<Rightarrow>
                  (case requireObservedView E w filePath of
                     Inl e \<Rightarrow> (NewErrorResult e, w)
                   | Inr view \<Rightarrow>
                       (case applyEdit old edit of
                          Inl e \<Rightarrow>
                            (NewErrorResult
                               (if view = viewStale
                                then filePath @ '' changed on disk after it was last read, and against its current content: ''
                                     @ e @ ''. Read the file again''
                                else e), w)
                        | Inr (newContent, edits) \<Rightarrow>
                            (case WriteFile E filePath newContent 420 w of
                               (Some e, w) \<Rightarrow> (NewErrorResult (''failed to write file: '' @ e), w)
                             | (None, w) \<Rightarrow>
                                 (let changes = GenerateDiff (fe_unified E) filePath old newContent
                                  in (success_result E filePath (edit_output filePath edits changes view) []
                                        (change_details filePath (int edits) False changes)
                                        (edit_hook filePath edit old),
                                      recordFileWritten E filePath w)))))))"

subsection \<open>Histories\<close>

text \<open>
  The calls of the three tools, the reset of the conversation, and what other programs do.  \<open>seen\<close> holds,
  for each cleaned path, the content of the file when a call on it last succeeded in this conversation.
\<close>

datatype fs_action =
    ReadCall fs_env tool_params string
  | WriteCall fs_env tool_params string
  | EditCall fs_env tool_params string
  | ResetViews
  | ForeignWrite string string int int
  | ForeignRemove string

type_synonym fs_seen = "string \<rightharpoonup> string"

fun act :: "fs_action \<Rightarrow> fs_world \<Rightarrow> FsResult option \<times> fs_world" where
  "act (ReadCall E params cwd) w = (let (r, w') = Read_Execute E params cwd w in (Some r, w'))"
| "act (WriteCall E params cwd) w = (let (r, w') = Write_ExecuteApproved E params cwd w in (Some r, w'))"
| "act (EditCall E params cwd) w = (let (r, w') = Edit_ExecuteApproved E params cwd w in (Some r, w'))"
| "act ResetViews w = (None, ResetFileViews w)"
| "act (ForeignWrite p content t m) w = (None, put_entry p (RegFile content t m) w)"
| "act (ForeignRemove p) w = (None, w\<lparr>fw_disk := gm_del (path_clean p) (fw_disk w)\<rparr>)"

text \<open>The time of what an action writes, if it writes.\<close>

fun act_time :: "fs_action \<Rightarrow> int option" where
  "act_time (WriteCall E _ _) = Some (fe_now E)"
| "act_time (EditCall E _ _) = Some (fe_now E)"
| "act_time (ForeignWrite _ _ t _) = Some t"
| "act_time _ = None"

fun act_path :: "fs_action \<Rightarrow> string option" where
  "act_path (ReadCall _ params cwd) = map_option (\<lambda>p. path_clean (resolveEditPath p cwd)) (str_arg params ''file_path'')"
| "act_path (WriteCall _ params cwd) = map_option (\<lambda>p. path_clean (resolveEditPath p cwd)) (str_arg params ''file_path'')"
| "act_path (EditCall _ params cwd) = map_option (\<lambda>p. path_clean (resolveEditPath p cwd)) (str_arg params ''file_path'')"
| "act_path _ = None"

definition regular :: "fs_world \<Rightarrow> string \<Rightarrow> string option" where
  "regular w k = (case gm_get (fw_disk w) k of Some (RegFile content _ _) \<Rightarrow> Some content | _ \<Rightarrow> None)"

definition seen_after :: "fs_action \<Rightarrow> fs_world \<Rightarrow> fs_seen \<Rightarrow> fs_seen" where
  "seen_after a w seen =
     (if a = ResetViews then Map.empty
      else case (fst (act a w), act_path a) of
             (Some r, Some k) \<Rightarrow> if fr_Success r then seen(k := regular (snd (act a w)) k) else seen
           | _ \<Rightarrow> seen)"

definition disk_before :: "int \<Rightarrow> fs_world \<Rightarrow> bool" where
  "disk_before c w \<longleftrightarrow>
     (\<forall>k content t m. gm_get (fw_disk w) k = Some (RegFile content t m) \<longrightarrow> t \<le> c) \<and> gm_ok (fw_disk w)"

text \<open>A history: it begins with no views; what is written gets a later time than all there is.\<close>

inductive fs_reach :: "int \<Rightarrow> fs_world \<Rightarrow> fs_seen \<Rightarrow> bool" where
  fs_start: "disk_before c w \<Longrightarrow> fw_views w = gm_empty \<Longrightarrow> fs_reach c w Map.empty"
| fs_quiet: "fs_reach c w seen \<Longrightarrow> act_time a = None \<Longrightarrow> fs_reach c (snd (act a w)) (seen_after a w seen)"
| fs_write: "fs_reach c w seen \<Longrightarrow> act_time a = Some t \<Longrightarrow> c < t \<Longrightarrow>
    fs_reach t (snd (act a w)) (seen_after a w seen)"

definition view_true :: "fs_world \<Rightarrow> fs_seen \<Rightarrow> string \<Rightarrow> fileStamp \<Rightarrow> bool" where
  "view_true w seen k st \<longleftrightarrow>
     (\<exists>s. seen k = Some s \<and>
        (\<forall>content m. gm_get (fw_disk w) k = Some (RegFile content (st_modTime st) m) \<longrightarrow> content = s))"

text \<open>The invariant: a view whose time is still that of the file is a view of what the file holds.\<close>

definition views_true :: "int \<Rightarrow> fs_world \<Rightarrow> fs_seen \<Rightarrow> bool" where
  "views_true c w seen \<longleftrightarrow> disk_before c w \<and>
     (\<forall>k st. gm_get (fw_views w) k = Some st \<longrightarrow> st_modTime st \<le> c \<and> view_true w seen k st)"

lemma put_entry_get:
  "gm_get (fw_disk (put_entry p e w)) k = (if k = path_clean p then Some e else gm_get (fw_disk w) k)"
  by (simp add: put_entry_def gm.get_put)

lemma put_entry_frame:
  shows "fw_views (put_entry p e w) = fw_views w"
    and "gm_ok (fw_disk w) \<Longrightarrow> gm_ok (fw_disk (put_entry p e w))"
  by (simp_all add: put_entry_def gm.ok_put)

lemma record_frame:
  shows "fw_disk (recordFileRead p i w) = fw_disk w"
    and "gm_get (fw_views (recordFileRead p i w)) k
       = (if k = path_clean p then Some (stamp_of i) else gm_get (fw_views w) k)"
  by (simp_all add: recordFileRead_def fileViewKey_def gm.get_put)

definition dirs_only :: "fs_world \<Rightarrow> fs_world \<Rightarrow> bool" where
  "dirs_only w v \<longleftrightarrow> fw_views v = fw_views w \<and> (gm_ok (fw_disk w) \<longrightarrow> gm_ok (fw_disk v)) \<and>
     (\<forall>k. gm_get (fw_disk v) k = gm_get (fw_disk w) k
        \<or> gm_get (fw_disk w) k = None \<and> gm_get (fw_disk v) k = Some Directory)"

lemma dirs_only_refl: "dirs_only w w"
  by (simp add: dirs_only_def)

lemma dirs_only_put:
  "dirs_only w v \<Longrightarrow> gm_get (fw_disk w) (path_clean p) = None \<Longrightarrow> dirs_only w (put_entry p Directory v)"
  by (auto simp: dirs_only_def put_entry_get put_entry_frame)

lemma mkdir_all_dirs: "dirs_only w (snd (mkdir_all n p w))"
proof (induction n p w rule: mkdir_all.induct)
  case (2 n p w)
  obtain r v where m: "mkdir_all n (path_dir p) w = (r, v)" by fastforce
  have "dirs_only w v" if "path_dir p \<noteq> p" "entry_at w p = None" using 2 that m by simp
  then show ?case using m dirs_only_put dirs_only_refl
    by (auto simp: entry_at_def split: option.splits entry.splits prod.splits)
qed (simp add: dirs_only_refl)

lemma MkdirAll_dirs: "MkdirAll E p w = (r, v) \<Longrightarrow> dirs_only w v"
  using mkdir_all_dirs [of w "length p + 1" p]
  by (auto simp: MkdirAll_def dirs_only_refl split: option.splits)

lemma disk_before_mono: "disk_before c w \<Longrightarrow> c \<le> t \<Longrightarrow> disk_before t w"
  unfolding disk_before_def by (meson order_trans)

lemma views_true_sub:
  assumes "views_true c w seen" and "gm_ok (fw_disk v)" and "fw_views v = fw_views w"
    and sub: "\<And>k x t m. gm_get (fw_disk v) k = Some (RegFile x t m) \<Longrightarrow> gm_get (fw_disk w) k = Some (RegFile x t m)"
  shows "views_true c v seen"
proof -
  have "disk_before c v" using assms unfolding views_true_def disk_before_def by blast
  moreover have "view_true v seen k st" if "view_true w seen k st" for k st
    using that sub unfolding view_true_def by blast
  ultimately show ?thesis using assms unfolding views_true_def by simp
qed

lemma views_true_dirs:
  assumes "views_true c w seen" and "dirs_only w v"
  shows "views_true c v seen"
proof (rule views_true_sub [OF assms(1)])
  show "gm_get (fw_disk v) k = Some (RegFile x t m) \<Longrightarrow> gm_get (fw_disk w) k = Some (RegFile x t m)" for k x t m
    using assms(2) unfolding dirs_only_def by (metis entry.distinct(1) option.inject)
qed (use assms in \<open>auto simp: dirs_only_def views_true_def disk_before_def\<close>)

text \<open>A write at a later time keeps the views true: those of its file can only be stale.\<close>

lemma views_true_put:
  assumes "views_true c w seen" and "c < t"
  shows "views_true t (put_entry p (RegFile x t m) w) seen"
proof -
  have "disk_before t (put_entry p (RegFile x t m) w)"
    using assms by (auto simp: views_true_def disk_before_def put_entry_get put_entry_frame split: if_splits) fastforce
  moreover have "view_true (put_entry p (RegFile x t m) w) seen k st"
    if "view_true w seen k st" "st_modTime st \<le> c" for k st
    using that assms(2) by (auto simp: view_true_def put_entry_get)
  ultimately show ?thesis using assms by (fastforce simp: views_true_def put_entry_frame)
qed

lemma view_true_seen:
  "view_true w seen k st \<Longrightarrow> gm_get (fw_disk w) j = Some (RegFile x t m) \<Longrightarrow> view_true w (seen(j \<mapsto> x)) k st"
  by (auto simp: view_true_def)

lemma views_true_seen:
  "views_true c w seen \<Longrightarrow> gm_get (fw_disk w) j = Some (RegFile x t m) \<Longrightarrow> views_true c w (seen(j \<mapsto> x))"
  unfolding views_true_def using view_true_seen by blast

lemma views_true_seen_put:
  "views_true c w seen \<Longrightarrow> c < t \<Longrightarrow> views_true t (put_entry p (RegFile x t m) w) (seen(path_clean p \<mapsto> x))"
  by (rule views_true_seen [OF views_true_put]) (simp_all add: put_entry_get)

lemma views_true_record:
  assumes "views_true c w seen" and "entry_at w p = Some i" and "i = RegFile x t m"
    and "seen (path_clean p) = Some x"
  shows "views_true c (recordFileRead p i w) seen"
proof -
  have "t \<le> c" using assms(1-3) unfolding views_true_def disk_before_def entry_at_def by blast
  then show ?thesis
    using assms by (auto simp: views_true_def disk_before_def view_true_def record_frame entry_at_def stamp_of_def)
qed

lemma views_true_written:
  assumes "views_true c w seen" and "c < t"
  shows "views_true t (recordFileWritten E p (put_entry p (RegFile x t m) w)) (seen(path_clean p \<mapsto> x))"
  using views_true_seen_put [OF assms, of p x m]
    views_true_record [OF views_true_seen_put [OF assms, of p x m], of p "RegFile x t m" x t m]
  by (simp add: recordFileWritten_def entry_at_def put_entry_get)

text \<open>What reading a file shows to the model is what it holds.\<close>

lemma views_true_read:
  assumes "views_true c w seen" and "entry_at w p = Some (RegFile x t m)"
  shows "views_true c (recordFileRead p (RegFile x t m) w) (seen(path_clean p \<mapsto> x))"
proof -
  have "views_true c w (seen(path_clean p \<mapsto> x))"
    using views_true_seen assms unfolding entry_at_def by blast
  then show ?thesis using views_true_record assms(2) by simp
qed

text \<open>What a call may do to the world.\<close>

definition wrote_part :: "fs_env \<Rightarrow> string \<Rightarrow> fs_world \<Rightarrow> fs_world \<Rightarrow> bool" where
  "wrote_part E p w w' \<longleftrightarrow> (\<exists>left m. w' = put_entry p (RegFile left (fe_now E) m) w)"

definition wrote_all :: "fs_env \<Rightarrow> string \<Rightarrow> string \<Rightarrow> fs_world \<Rightarrow> fs_world \<Rightarrow> bool" where
  "wrote_all E p x w w' \<longleftrightarrow> (\<exists>m. w' = recordFileWritten E p (put_entry p (RegFile x (fe_now E) m) w))"

lemma wrote_intros:
  shows "wrote_part E p w (put_entry p (RegFile left (fe_now E) m) w)"
    and "wrote_all E p x w (recordFileWritten E p (put_entry p (RegFile x (fe_now E) m) w))"
  by (auto simp: wrote_part_def wrote_all_def)

lemma WriteFile_fails:
  "WriteFile E p x mode w = (Some e, w') \<Longrightarrow> w' = w \<or> wrote_part E p w w'"
  by (auto simp: WriteFile_def wrote_intros Let_def split: option.splits if_splits)

lemma WriteFile_works:
  "WriteFile E p x mode w = (None, w') \<Longrightarrow> wrote_all E p x w (recordFileWritten E p w')"
  by (auto simp: WriteFile_def wrote_intros Let_def split: option.splits if_splits)

lemma NewErrorResult_fails: "\<not> fr_Success (NewErrorResult e)"
  by (simp add: NewErrorResult_def)

lemma success_result_works:
  shows "fr_Success (success_result E p out ls dts h)"
    and "fr_Output (success_result E p out ls dts h) = out @ fe_diag E p"
  by (simp_all add: success_result_def)

lemma RequireString_arg: "RequireString params k = Inr p \<Longrightarrow> str_arg params k = Some p"
  by (auto simp: RequireString_def split: option.splits if_splits)

lemma parseEditRequest_arg: "parseEditRequest params = Inr (p, edit) \<Longrightarrow> str_arg params ''file_path'' = Some p"
  by (auto simp: parseEditRequest_def Let_def split: option.splits if_splits)

lemmas call_results = NewErrorResult_fails success_result_works

lemma Read_outcome:
  assumes "Read_Execute E params cwd w = (r, w')"
  shows "\<not> fr_Success r \<and> w' = w
    \<or> (\<exists>p x t m. str_arg params ''file_path'' = Some p \<and> fr_Success r
          \<and> entry_at w (resolveEditPath p cwd) = Some (RegFile x t m)
          \<and> w' = recordFileRead (resolveEditPath p cwd) (RegFile x t m) w)"
  using assms
  by (auto simp: Read_Execute_def Let_def os_Stat_def call_results
      split: sum.splits option.splits entry.splits if_splits prod.splits dest!: RequireString_arg)

lemma Write_outcome:
  assumes "Write_ExecuteApproved E params cwd w = (r, w')"
  shows "\<exists>w1. dirs_only w w1 \<and>
    (\<not> fr_Success r \<and> w' = w1
     \<or> (\<exists>p old. str_arg params ''file_path'' = Some p
          \<and> content_to_replace E (resolveEditPath p cwd) w1 = Inr old
          \<and> (\<not> fr_Success r \<and> wrote_part E (resolveEditPath p cwd) w1 w'
             \<or> fr_Success r \<and> (\<exists>x. wrote_all E (resolveEditPath p cwd) x w1 w'))))"
proof (cases "RequireString params ''file_path''")
  case (Inl e)
  then show ?thesis using assms dirs_only_refl [of w]
    by (intro exI [of _ w]) (auto simp: Write_ExecuteApproved_def call_results)
next
  case (Inr p)
  define fp where "fp = resolveEditPath p cwd"
  obtain e w1 where mk: "MkdirAll E (path_dir fp) w = (e, w1)" by fastforce
  then have d: "dirs_only w w1" by (rule MkdirAll_dirs)
  define x where "x = (case str_arg params ''content'' of None \<Rightarrow> [] | Some c \<Rightarrow> c)"
  obtain f w2 where wf: "WriteFile E fp x (GetInt params ''mode'' 420 mod 4096) w1 = (f, w2)" by fastforce
  have "\<not> fr_Success r \<and> w' = w1
     \<or> (\<exists>old. content_to_replace E fp w1 = Inr old
          \<and> (\<not> fr_Success r \<and> wrote_part E fp w1 w' \<or> fr_Success r \<and> wrote_all E fp x w1 w'))"
    using assms Inr mk wf WriteFile_fails [of E fp x _ w1 _ w2] WriteFile_works [of E fp x _ w1 w2]
    by (auto simp: Write_ExecuteApproved_def Let_def call_results x_def fp_def
        split: sum.splits option.splits prod.splits)
  then show ?thesis using d RequireString_arg [OF Inr] unfolding fp_def by blast
qed

lemma Edit_outcome:
  assumes "Edit_ExecuteApproved E params cwd w = (r, w')"
  shows "\<not> fr_Success r \<and> w' = w
     \<or> (\<exists>p edit old view new n. parseEditRequest params = Inr (p, edit)
          \<and> ReadFile E w (resolveEditPath p cwd) = Inr (Some old)
          \<and> requireObservedView E w (resolveEditPath p cwd) = Inr view
          \<and> applyEdit old edit = Inr (new, n)
          \<and> (\<not> fr_Success r \<and> wrote_part E (resolveEditPath p cwd) w w'
             \<or> fr_Success r \<and> wrote_all E (resolveEditPath p cwd) new w w'
               \<and> fr_Output r = edit_output (resolveEditPath p cwd) n
                   (GenerateDiff (fe_unified E) (resolveEditPath p cwd) old new) view @ fe_diag E (resolveEditPath p cwd)))"
  using assms
  by (auto simp: Edit_ExecuteApproved_def Let_def call_results
      split: sum.splits option.splits prod.splits dest!: WriteFile_fails WriteFile_works)

lemma regular_put: "regular (put_entry p (RegFile x t m) w) k = (if k = path_clean p then Some x else regular w k)"
  by (simp add: regular_def put_entry_get)

lemma recordFileWritten_disk: "fw_disk (recordFileWritten E p w) = fw_disk w"
  by (simp add: recordFileWritten_def record_frame split: option.splits)

lemma regular_written: "regular (recordFileWritten E p w) k = regular w k"
  by (simp add: regular_def recordFileWritten_disk)

lemma wrote_part_true: "views_true c w seen \<Longrightarrow> c < fe_now E \<Longrightarrow> wrote_part E p w w' \<Longrightarrow> views_true (fe_now E) w' seen"
  by (auto simp: wrote_part_def views_true_put)

lemma wrote_all_true:
  assumes "views_true c w seen" and "c < fe_now E" and "wrote_all E p x w w'"
  shows "views_true (fe_now E) w' (seen(path_clean p := regular w' (path_clean p)))"
  using assms by (auto simp: wrote_all_def regular_written regular_put views_true_written)

lemma views_true_mono: "views_true c w seen \<Longrightarrow> c \<le> t \<Longrightarrow> views_true t w seen"
  unfolding views_true_def using disk_before_mono by (meson order_trans)

lemma views_true_act_quiet:
  assumes "views_true c w seen" and "act_time a = None"
  shows "views_true c (snd (act a w)) (seen_after a w seen)"
proof (cases a)
  case (ReadCall E params cwd)
  obtain r w' where r: "Read_Execute E params cwd w = (r, w')" by fastforce
  show ?thesis using Read_outcome [OF r] assms r ReadCall views_true_read [OF assms(1)]
    by (auto simp: seen_after_def regular_def record_frame entry_at_def split: option.splits)
next
  case ResetViews
  then show ?thesis using assms
    by (simp add: ResetFileViews_def seen_after_def views_true_def disk_before_def gm.get_empty)
next
  case (ForeignRemove p)
  define v where "v = w\<lparr>fw_disk := gm_del (path_clean p) (fw_disk w)\<rparr>"
  have ok: "gm_ok (fw_disk w)" using assms(1) by (simp add: views_true_def disk_before_def)
  then have "views_true c v seen"
    by (intro views_true_sub [OF assms(1)]) (auto simp: v_def gm.get_del gm.ok_del split: if_splits)
  then show ?thesis using ForeignRemove by (simp add: v_def seen_after_def)
qed (use assms in auto)

lemma seen_failed: "fst (act a w) = Some r \<Longrightarrow> \<not> fr_Success r \<Longrightarrow> seen_after a w seen = seen"
  by (cases a) (auto simp: seen_after_def split: option.splits)

lemma seen_worked:
  "fst (act a w) = Some r \<Longrightarrow> fr_Success r \<Longrightarrow> act_path a = Some k \<Longrightarrow>
   seen_after a w seen = seen(k := regular (snd (act a w)) k)"
  by (cases a) (auto simp: seen_after_def)

lemma views_true_act_write:
  assumes "views_true c w seen" and "act_time a = Some t" and "c < t"
  shows "views_true t (snd (act a w)) (seen_after a w seen)"
proof (cases a)
  case (WriteCall E params cwd)
  obtain r w' where r: "Write_ExecuteApproved E params cwd w = (r, w')" by fastforce
  then have a: "fst (act a w) = Some r" "snd (act a w) = w'" and t: "t = fe_now E" "c < fe_now E"
    using WriteCall assms by auto
  obtain w1 where w1: "dirs_only w w1"
    and o: "\<not> fr_Success r \<and> w' = w1
     \<or> (\<exists>p old. str_arg params ''file_path'' = Some p
          \<and> content_to_replace E (resolveEditPath p cwd) w1 = Inr old
          \<and> (\<not> fr_Success r \<and> wrote_part E (resolveEditPath p cwd) w1 w'
             \<or> fr_Success r \<and> (\<exists>x. wrote_all E (resolveEditPath p cwd) x w1 w')))"
    using Write_outcome [OF r] by blast
  have v: "views_true c w1 seen" by (rule views_true_dirs [OF assms(1) w1])
  show ?thesis
  proof (cases "fr_Success r")
    case True
    then obtain p x where p: "str_arg params ''file_path'' = Some p" "wrote_all E (resolveEditPath p cwd) x w1 w'"
      using o by blast
    then have "act_path a = Some (path_clean (resolveEditPath p cwd))" using WriteCall by simp
    then show ?thesis
      using seen_worked [OF a(1) True] wrote_all_true [OF v t(2) p(2)] a(2) t(1) by simp
  next
    case False
    then have "w' = w1 \<or> (\<exists>q. wrote_part E q w1 w')" using o by blast
    then show ?thesis
      using seen_failed [OF a(1) False] a(2) t views_true_mono [OF v] wrote_part_true [OF v t(2)] by auto
  qed
next
  case (EditCall E params cwd)
  obtain r w' where r: "Edit_ExecuteApproved E params cwd w = (r, w')" by fastforce
  then have a: "fst (act a w) = Some r" "snd (act a w) = w'" and t: "t = fe_now E" "c < fe_now E"
    using EditCall assms by auto
  show ?thesis
  proof (cases "fr_Success r")
    case True
    then obtain p edit x where p: "parseEditRequest params = Inr (p, edit)" "wrote_all E (resolveEditPath p cwd) x w w'"
      using Edit_outcome [OF r] by blast
    then have "act_path a = Some (path_clean (resolveEditPath p cwd))" using EditCall parseEditRequest_arg by simp
    then show ?thesis
      using seen_worked [OF a(1) True] wrote_all_true [OF assms(1) t(2) p(2)] a(2) t(1) by simp
  next
    case False
    then have "w' = w \<or> (\<exists>q. wrote_part E q w w')" using Edit_outcome [OF r] by blast
    then show ?thesis
      using seen_failed [OF a(1) False] a(2) t views_true_mono [OF assms(1)] wrote_part_true [OF assms(1) t(2)] by auto
  qed
next
  case (ForeignWrite p x u m)
  then show ?thesis using assms views_true_put by (simp add: seen_after_def)
qed (use assms in auto)

lemma reach_views_true: "fs_reach c w seen \<Longrightarrow> views_true c w seen"
proof (induction rule: fs_reach.induct)
  case (fs_start c w)
  then show ?case by (simp add: views_true_def gm.get_empty)
qed (use views_true_act_quiet views_true_act_write in blast)+

subsection \<open>What is overwritten was seen\<close>

lemma current_view_seen:
  assumes "views_true c w seen" and "requireCurrentView E w p = None" and "regular w (path_clean p) = Some old"
  shows "seen (path_clean p) = Some old"
proof -
  obtain t m where e: "gm_get (fw_disk w) (path_clean p) = Some (RegFile old t m)"
    using assms(3) by (auto simp: regular_def split: option.splits entry.splits)
  then have "gm_get (fw_views w) (path_clean p) = Some (stamp_of (RegFile old t m))"
    using assms(2)
    by (auto simp: requireCurrentView_def requireObservedView_def viewOf_def fileViewKey_def os_Stat_def entry_at_def
        split: option.splits sum.splits if_splits)
  then have "view_true w seen (path_clean p) (stamp_of (RegFile old t m))"
    using assms(1) unfolding views_true_def by blast
  then show ?thesis using e by (auto simp: view_true_def stamp_of_def)
qed

lemma observed_view_seen:
  assumes "views_true c w seen" and "requireObservedView E w p = Inr view" and "regular w (path_clean p) = Some old"
  shows "\<exists>s. seen (path_clean p) = Some s \<and> (view = viewStale \<or> s = old)"
proof (cases "view = viewStale")
  case True
  then obtain st where "gm_get (fw_views w) (path_clean p) = Some st"
    using assms(2) by (auto simp: requireObservedView_def viewOf_def fileViewKey_def split: option.splits sum.splits if_splits)
  then show ?thesis using assms(1) True unfolding views_true_def view_true_def by blast
next
  case False
  then have "requireCurrentView E w p = None" using assms(2) by (simp add: requireCurrentView_def)
  then show ?thesis using current_view_seen assms by blast
qed

lemma wrote_part_elsewhere: "wrote_part E p w w' \<Longrightarrow> k \<noteq> path_clean p \<Longrightarrow> regular w' k = regular w k"
  by (auto simp: wrote_part_def regular_put)

lemma wrote_all_elsewhere: "wrote_all E p x w w' \<Longrightarrow> k \<noteq> path_clean p \<Longrightarrow> regular w' k = regular w k"
  by (auto simp: wrote_all_def regular_written regular_put)

lemma wrote_all_here: "wrote_all E p x w w' \<Longrightarrow> regular w' (path_clean p) = Some x"
  by (auto simp: wrote_all_def regular_written regular_put)

lemma dirs_only_get:
  "dirs_only w v \<Longrightarrow> gm_get (fw_disk v) k = gm_get (fw_disk w) k
     \<or> gm_get (fw_disk w) k = None \<and> gm_get (fw_disk v) k = Some Directory"
  by (simp add: dirs_only_def)

lemma dirs_only_regular: "dirs_only w v \<Longrightarrow> regular v k = regular w k"
  using dirs_only_get [of w v k] by (auto simp: regular_def)

lemma replaced_was_current:
  "content_to_replace E p w = Inr old \<Longrightarrow> regular w (path_clean p) = Some x \<Longrightarrow> requireCurrentView E w p = None"
  by (auto simp: content_to_replace_def os_Stat_def entry_at_def regular_def split: if_splits option.splits entry.splits)

lemma Write_overwrites_seen:
  assumes "fs_reach c w seen" and "Write_ExecuteApproved E params cwd w = (r, w')"
    and "regular w k = Some old" and "regular w' k \<noteq> Some old"
  shows "seen k = Some old"
proof -
  obtain w1 where w1: "dirs_only w w1"
    and o: "\<not> fr_Success r \<and> w' = w1
     \<or> (\<exists>p old. str_arg params ''file_path'' = Some p
          \<and> content_to_replace E (resolveEditPath p cwd) w1 = Inr old
          \<and> (\<not> fr_Success r \<and> wrote_part E (resolveEditPath p cwd) w1 w'
             \<or> fr_Success r \<and> (\<exists>x. wrote_all E (resolveEditPath p cwd) x w1 w')))"
    using Write_outcome [OF assms(2)] by blast
  have r: "regular w1 k = Some old" using dirs_only_regular [OF w1] assms(3) by simp
  then obtain p where p: "content_to_replace E p w1 = Inr (Some old) \<or> (\<exists>s. content_to_replace E p w1 = Inr s)"
    and "wrote_part E p w1 w' \<or> (\<exists>x. wrote_all E p x w1 w')"
    using o assms(4) by blast
  then have "k = path_clean p" using r assms(4) wrote_part_elsewhere wrote_all_elsewhere by metis
  moreover have "requireCurrentView E w1 p = None" using p replaced_was_current r calculation by blast
  ultimately show ?thesis
    using current_view_seen [OF views_true_dirs [OF reach_views_true [OF assms(1)] w1]] r by blast
qed

lemma Edit_changes_seen:
  assumes "fs_reach c w seen" and "Edit_ExecuteApproved E params cwd w = (r, w')"
    and "regular w k = Some old" and "regular w' k \<noteq> Some old"
  shows "\<exists>s. seen k = Some s \<and>
    (fr_Success r \<longrightarrow>
       (s = old \<or> (\<exists>a b. fr_Output r = a @ stale_note @ b))
       \<and> (\<exists>p edit new n. parseEditRequest params = Inr (p, edit) \<and> applyEdit old edit = Inr (new, n)
            \<and> regular w' k = Some new))"
proof -
  obtain p edit before view new n where e: "parseEditRequest params = Inr (p, edit)"
      "ReadFile E w (resolveEditPath p cwd) = Inr (Some before)"
      "requireObservedView E w (resolveEditPath p cwd) = Inr view" "applyEdit before edit = Inr (new, n)"
    and o: "\<not> fr_Success r \<and> wrote_part E (resolveEditPath p cwd) w w'
       \<or> fr_Success r \<and> wrote_all E (resolveEditPath p cwd) new w w'
         \<and> fr_Output r = edit_output (resolveEditPath p cwd) n
             (GenerateDiff (fe_unified E) (resolveEditPath p cwd) before new) view @ fe_diag E (resolveEditPath p cwd)"
    using Edit_outcome [OF assms(2)] assms(3,4) by blast
  have k: "k = path_clean (resolveEditPath p cwd)"
    using o assms(3,4) wrote_part_elsewhere wrote_all_elsewhere by metis
  have "before = old" using e(2) assms(3) k
    by (auto simp: ReadFile_def regular_def entry_at_def split: option.splits entry.splits)
  have "\<exists>s. seen k = Some s \<and> (view = viewStale \<or> s = old)"
    unfolding k using observed_view_seen [OF reach_views_true [OF assms(1)] e(3)] assms(3) k by simp
  moreover have "view = viewStale \<Longrightarrow> fr_Success r \<Longrightarrow> \<exists>a b. fr_Output r = a @ stale_note @ b"
    using o unfolding edit_output_def by auto
  ultimately show ?thesis using e(1,4) \<open>before = old\<close> o wrote_all_here k by metis
qed

subsection \<open>What was approved is what is written\<close>

lemma replaced_was_old:
  assumes "content_to_replace E p w = Inr old" and "regular w (path_clean p) = Some x"
  shows "old = Some x"
  using assms
  by (auto simp: content_to_replace_def os_Stat_def entry_at_def regular_def ReadFile_def
      split: if_splits option.splits entry.splits sum.splits)

lemma Write_prepared:
  assumes "Write_PreparePermission E params cwd w = Inr req"
  shows "\<exists>p content. RequireString params ''file_path'' = Inr p \<and> str_arg params ''content'' = Some content
    \<and> pr_FilePath req = resolveEditPath p cwd \<and> dm_NewContent (pr_DiffMeta req) = content
    \<and> (\<forall>x. regular w (path_clean (resolveEditPath p cwd)) = Some x
          \<longrightarrow> pr_DiffMeta req = GenerateDiff (fe_unified E) (resolveEditPath p cwd) x content)"
  using assms
  by (auto simp: Write_PreparePermission_def Let_def GeneratePreview_def GenerateDiff_def os_Stat_def entry_at_def
      ReadFile_def regular_def split: sum.splits option.splits entry.splits)

lemma Write_written:
  assumes "Write_ExecuteApproved E params cwd w = (r, w')" and "fr_Success r"
    and "RequireString params ''file_path'' = Inr p" and "str_arg params ''content'' = Some content"
  shows "regular w' (path_clean (resolveEditPath p cwd)) = Some content
    \<and> (\<forall>x. regular w (path_clean (resolveEditPath p cwd)) = Some x \<longrightarrow>
          fr_Details r = change_details (resolveEditPath p cwd) 0 False
            (GenerateDiff (fe_unified E) (resolveEditPath p cwd) x content))"
proof -
  define fp where "fp = resolveEditPath p cwd"
  obtain e w1 where mk: "MkdirAll E (path_dir fp) w = (e, w1)" by fastforce
  then have same: "regular w1 k = regular w k" for k by (rule dirs_only_regular [OF MkdirAll_dirs])
  obtain f w2 where wf: "WriteFile E fp content (GetInt params ''mode'' 420 mod 4096) w1 = (f, w2)" by fastforce
  obtain old where "content_to_replace E fp w1 = Inr old" "e = None" "f = None" "w' = recordFileWritten E fp w2"
      "fr_Details r = change_details fp 0 (old = None)
         (GenerateDiff (fe_unified E) fp (case old of None \<Rightarrow> [] | Some s \<Rightarrow> s) content)"
    using assms mk wf
    by (auto simp: Write_ExecuteApproved_def Let_def call_results fp_def success_result_def split: sum.splits option.splits)
  moreover have "regular (recordFileWritten E fp w2) (path_clean fp) = Some content"
    using WriteFile_works [of E fp content _ w1 w2] wf \<open>f = None\<close> wrote_all_here by blast
  moreover have "regular w (path_clean fp) = Some x \<Longrightarrow> old = Some x" for x
    using replaced_was_old \<open>content_to_replace E fp w1 = Inr old\<close> same by metis
  ultimately show ?thesis unfolding fp_def [symmetric] by auto
qed

lemma Edit_written:
  assumes "Edit_PreparePermission E params cwd w = Inr req" and "Edit_ExecuteApproved E' params cwd w = (r, w')"
    and "fr_Success r" and "fe_unified E' = fe_unified E"
  shows "regular w' (path_clean (pr_FilePath req)) = Some (dm_NewContent (pr_DiffMeta req))
    \<and> regular w (path_clean (pr_FilePath req)) = Some (dm_OldContent (pr_DiffMeta req))
    \<and> (\<exists>n. fr_Details r = change_details (pr_FilePath req) n False (pr_DiffMeta req))"
proof -
  obtain p edit old new n where e: "parseEditRequest params = Inr (p, edit)"
      "ReadFile E w (resolveEditPath p cwd) = Inr (Some old)" "applyEdit old edit = Inr (new, n)"
    and q: "pr_FilePath req = resolveEditPath p cwd"
      "pr_DiffMeta req = GenerateDiff (fe_unified E) (resolveEditPath p cwd) old new"
    using assms(1) by (auto simp: Edit_PreparePermission_def Let_def split: sum.splits option.splits)
  have old: "regular w (path_clean (resolveEditPath p cwd)) = Some old"
    using e(2) by (auto simp: ReadFile_def regular_def entry_at_def split: option.splits entry.splits)
  then have "ReadFile E' w (resolveEditPath p cwd) = Inr (Some old)"
    using assms(2,3) e
    by (auto simp: Edit_ExecuteApproved_def Let_def ReadFile_def regular_def entry_at_def call_results
        split: option.splits entry.splits)
  moreover obtain f w2 where wf: "WriteFile E' (resolveEditPath p cwd) new 420 w = (f, w2)" by fastforce
  ultimately have "f = None \<and> w' = recordFileWritten E' (resolveEditPath p cwd) w2
      \<and> fr_Details r = change_details (resolveEditPath p cwd) (int n) False
          (GenerateDiff (fe_unified E') (resolveEditPath p cwd) old new)"
    using assms(2,3) e
    by (auto simp: Edit_ExecuteApproved_def Let_def call_results success_result_def split: sum.splits option.splits)
  then show ?thesis
    using wf WriteFile_works wrote_all_here old q assms(4) by (force simp: GenerateDiff_def Let_def)
qed

subsection \<open>The properties\<close>

text \<open>
  C11: In every history of calls, resets and changes by other programs in which each change of a file gets a
  later modification time than all before it, a Write that changes or destroys a regular file -- also one that
  fails half-way -- finds in it the whole content that the file had at the last successful Read, Write or Edit
  of it in this conversation.  An Edit that changes a file was preceded by such a call; it replaces text of the
  file's content of that moment, and if that is not the content recorded, the result tells so.  A Read of some
  lines counts as one of the whole file: see \<open>partial_read_counts_as_seen\<close>.
\<close>

theorem unseen_content_is_never_overwritten:
  assumes "fs_reach c w seen" and "regular w k = Some old" and "regular w' k \<noteq> Some old"
  shows "(Write_ExecuteApproved E params cwd w = (r, w') \<longrightarrow> seen k = Some old)
    \<and> (Edit_ExecuteApproved E params cwd w = (r, w') \<longrightarrow>
        (\<exists>s. seen k = Some s \<and>
          (fr_Success r \<longrightarrow>
             (s = old \<or> (\<exists>a b. fr_Output r = a @ stale_note @ b))
             \<and> (\<exists>p edit new n. parseEditRequest params = Inr (p, edit) \<and> applyEdit old edit = Inr (new, n)
                  \<and> regular w' k = Some new))))"
proof (intro conjI impI)
qed (rule Write_overwrites_seen [OF assms(1) _ assms(2,3)] Edit_changes_seen [OF assms(1) _ assms(2,3)]; assumption)+

definition demo_disk :: fs_world where
  "demo_disk = \<lparr>fw_disk = [(''/d'', Directory), (''/d/a'', RegFile ''one'' 1 420)], fw_views = []\<rparr>"

definition demo_env :: "int \<Rightarrow> fs_env" where
  "demo_env t = \<lparr>fe_stat = None, fe_open = None, fe_read = None, fe_mkdir = None, fe_write = None, fe_now = t,
     fe_restat = True, fe_diag = (\<lambda>_. []), fe_unified = (\<lambda>_ _ _. []), fe_id = ''req-1''\<rparr>"

definition demo_params :: "string \<Rightarrow> tool_params" where
  "demo_params content = [''file_path'' \<mapsto> GStr ''/d/a'', ''content'' \<mapsto> GStr content,
     ''old_string'' \<mapsto> GStr ''none'', ''new_string'' \<mapsto> GStr content]"

lemma demo_start: "fs_reach 1 demo_disk Map.empty"
  by (rule fs_start) (auto simp: disk_before_def demo_disk_def gm_get_def gm_ok_def gm_empty_def split: if_splits)

text \<open>The model reads a file, another program changes it, the model edits it and then overwrites it.\<close>

definition demo_read :: fs_world where
  "demo_read = snd (act (ReadCall (demo_env 2) (demo_params []) []) demo_disk)"

definition demo_seen :: fs_seen where
  "demo_seen = seen_after (ReadCall (demo_env 2) (demo_params []) []) demo_disk Map.empty"

definition demo_changed :: fs_world where
  "demo_changed = snd (act (ForeignWrite ''/d/a'' ''none'' 3 420) demo_read)"

lemma demo_reach: "fs_reach 3 demo_changed demo_seen"
proof -
  have "fs_reach 1 demo_read demo_seen" unfolding demo_read_def demo_seen_def by (rule fs_quiet [OF demo_start]) simp
  from fs_write [OF this, of "ForeignWrite ''/d/a'' ''none'' 3 420" 3] show ?thesis
    by (simp add: demo_changed_def seen_after_def)
qed


lemma demo_read: "demo_read = \<lparr>fw_disk = fw_disk demo_disk, fw_views = [(''/d/a'', \<lparr>st_modTime = 1, st_size = 3\<rparr>)]\<rparr>"
proof -
  have "path_clean ''/d/a'' = ''/d/a''" by code_simp
  moreover have "scan_lines ''one'' = [''one'']" by code_simp
  ultimately show ?thesis
  by (simp add: demo_read_def Read_Execute_def demo_params_def demo_env_def demo_disk_def RequireString_def str_arg_def
      resolveEditPath_def is_abs_def os_Stat_def entry_at_def gm_get_def GetInt_def maxReadLines_def Let_def
     shown_text_def maxScanToken_def maxReadBytes_def maxLineLength_def
     recordFileRead_def fileViewKey_def gm_put_def stamp_of_def)
qed

lemma demo_changed: "demo_changed = \<lparr>fw_disk = [(''/d'', Directory), (''/d/a'', RegFile ''none'' 3 420)],
    fw_views = [(''/d/a'', \<lparr>st_modTime = 1, st_size = 3\<rparr>)]\<rparr>"
proof -
  have "path_clean ''/d/a'' = ''/d/a''" by code_simp
  then show ?thesis by (simp add: demo_changed_def demo_read put_entry_def demo_disk_def gm_put_def)
qed
definition demo_edit_result :: "FsResult \<times> fs_world" where
  "demo_edit_result = Edit_ExecuteApproved (demo_env 4) (demo_params ''new'') [] demo_changed"

lemma demo_request: "parseEditRequest (demo_params ''new'') =
  Inr (''/d/a'', \<lparr>ed_oldString = ''none'', ed_newString = ''new'', ed_replaceAll = False\<rparr>)"
proof -
  have "normalizeLineEndings ''none'' = ''none''" "normalizeLineEndings ''new'' = ''new''" by code_simp+
  then show ?thesis by (simp add: parseEditRequest_def demo_params_def str_arg_def)
qed

lemma demo_edit_result:
  "regular (snd demo_edit_result) ''/d/a'' = Some ''new'' \<and> fr_Success (fst demo_edit_result)"
proof -
  have p: "path_clean ''/d/a'' = ''/d/a''" by code_simp
  moreover have "resolveEditPath ''/d/a'' [] = ''/d/a''" by code_simp
  moreover have "applyEdit ''none'' \<lparr>ed_oldString = ''none'', ed_newString = ''new'', ed_replaceAll = False\<rparr> = Inr (''new'', 1)"
    by code_simp
  ultimately show ?thesis
    unfolding demo_edit_result_def Edit_ExecuteApproved_def demo_request
    by (simp add: demo_changed demo_env_def ReadFile_def entry_at_def gm_get_def requireObservedView_def viewOf_def
        fileViewKey_def os_Stat_def stamp_of_def WriteFile_def regular_written regular_put call_results Let_def)
qed

theorem unseen_content_is_never_overwritten_witness:
  "\<exists>s. demo_seen ''/d/a'' = Some s \<and> fr_Success (fst demo_edit_result)
      \<and> (s = ''none'' \<or> (\<exists>a b. fr_Output (fst demo_edit_result) = a @ stale_note @ b))"
proof -
  have "regular demo_changed ''/d/a'' = Some ''none''" by (simp add: demo_changed regular_def gm_get_def)
  moreover have "regular (snd demo_edit_result) ''/d/a'' \<noteq> Some ''none''" by (simp add: demo_edit_result)
  ultimately show ?thesis
    using unseen_content_is_never_overwritten [OF demo_reach, of "''/d/a''" "''none''" "snd demo_edit_result"
        "demo_env 4" "demo_params ''new''" "[]" "fst demo_edit_result"]
      demo_edit_result
    by (auto simp: demo_edit_result_def)
qed


text \<open>
  C13: The diff or preview that was approved is the change that is made when the file is still what it was: the
  new content is the approved one, and for an existing file the stored details are those of the approved
  diff of its content.
\<close>

theorem approved_change_is_what_is_written:
  assumes "Write_PreparePermission E params cwd w = Inr req \<and> Write_ExecuteApproved E' params cwd w = (r, w')
      \<or> Edit_PreparePermission E params cwd w = Inr req \<and> Edit_ExecuteApproved E' params cwd w = (r, w')"
    and "fr_Success r" and "fe_unified E' = fe_unified E"
  shows "regular w' (path_clean (pr_FilePath req)) = Some (dm_NewContent (pr_DiffMeta req))
    \<and> (\<forall>old. regular w (path_clean (pr_FilePath req)) = Some old \<longrightarrow>
         dm_OldContent (pr_DiffMeta req) = old
         \<and> (\<exists>n. fr_Details r = change_details (pr_FilePath req) n False (pr_DiffMeta req)))"
  using assms(1)
proof
  assume "Edit_PreparePermission E params cwd w = Inr req \<and> Edit_ExecuteApproved E' params cwd w = (r, w')"
  then show ?thesis using Edit_written [OF _ _ assms(2,3)] by auto
next
  assume a: "Write_PreparePermission E params cwd w = Inr req \<and> Write_ExecuteApproved E' params cwd w = (r, w')"
  then obtain p content where p: "RequireString params ''file_path'' = Inr p" "str_arg params ''content'' = Some content"
    and q: "pr_FilePath req = resolveEditPath p cwd" "dm_NewContent (pr_DiffMeta req) = content"
      "\<forall>x. regular w (path_clean (resolveEditPath p cwd)) = Some x
          \<longrightarrow> pr_DiffMeta req = GenerateDiff (fe_unified E) (resolveEditPath p cwd) x content"
    using Write_prepared by metis
  have e: "regular w' (path_clean (resolveEditPath p cwd)) = Some content
    \<and> (\<forall>x. regular w (path_clean (resolveEditPath p cwd)) = Some x \<longrightarrow>
          fr_Details r = change_details (resolveEditPath p cwd) 0 False
            (GenerateDiff (fe_unified E') (resolveEditPath p cwd) x content))"
    by (rule Write_written [OF conjunct2 [OF a] assms(2) p])
  show ?thesis using e q assms(3) by (auto simp: GenerateDiff_def Let_def)
qed

lemma demo_prepared:
  "Edit_PreparePermission (demo_env 3) (demo_params ''new'') [] demo_changed
   = Inr \<lparr>pr_ID = ''req-1'', pr_ToolName = ''Edit'', pr_FilePath = ''/d/a'', pr_Description = ''Replace text in file'',
       pr_DiffMeta = GenerateDiff (\<lambda>_ _ _. []) ''/d/a'' ''none'' ''new''\<rparr>"
proof -
  have p: "path_clean ''/d/a'' = ''/d/a''" by code_simp
  moreover have "resolveEditPath ''/d/a'' [] = ''/d/a''" by code_simp
  moreover have "applyEdit ''none'' \<lparr>ed_oldString = ''none'', ed_newString = ''new'', ed_replaceAll = False\<rparr> = Inr (''new'', 1)"
    by code_simp
  ultimately show ?thesis
    unfolding Edit_PreparePermission_def demo_request
    by (simp add: demo_changed demo_env_def ReadFile_def entry_at_def gm_get_def requireObservedView_def viewOf_def
        fileViewKey_def os_Stat_def stamp_of_def Let_def)
qed

theorem approved_change_is_what_is_written_witness:
  "regular (snd demo_edit_result) ''/d/a'' = Some ''new''
   \<and> (\<exists>n. fr_Details (fst demo_edit_result)
        = change_details ''/d/a'' n False (GenerateDiff (\<lambda>_ _ _. []) ''/d/a'' ''none'' ''new''))"
proof -
  have "path_clean ''/d/a'' = ''/d/a''" by code_simp
  moreover have "regular demo_changed ''/d/a'' = Some ''none''" by (simp add: demo_changed regular_def gm_get_def)
  moreover have "fe_unified (demo_env 4) = fe_unified (demo_env 3)" by (simp add: demo_env_def)
  ultimately show ?thesis
    using approved_change_is_what_is_written [of "demo_env 3" "demo_params ''new''" "[]" demo_changed _ "demo_env 4"
        "fst demo_edit_result" "snd demo_edit_result", OF disjI2 [OF conjI [OF demo_prepared]]]
      demo_edit_result
    by (simp add: demo_edit_result_def GenerateDiff_def Let_def)
qed

text \<open>
  A read of one line counts as a view of the whole file: the overwrite that follows destroys lines the
  model never saw.
\<close>

lemma partial_read_counts_as_seen:
  "(let w = demo_disk\<lparr>fw_disk := [(''/a'', RegFile (''x'' @ [newline] @ ''y'') 1 420)]\<rparr>;
        (r, v) = Read_Execute (demo_env 2) [''file_path'' \<mapsto> GStr ''/a'', ''limit'' \<mapsto> GNum 1] [] w
    in fr_Lines r = [\<lparr>cl_LineNo = 1, cl_Text = ''x''\<rparr>] \<and> requireCurrentView (demo_env 3) v ''/a'' = None)"
proof -
  have "path_clean ''/a'' = ''/a''" by code_simp
  moreover have "trim_suffix ''x'' [CHR 0x0D] = ''x''" "rune_count ''x'' = 1" by code_simp+
  moreover have "scan_lines [CHR ''x'', newline, CHR ''y''] = [''x'', ''y'']" by code_simp
  ultimately show ?thesis
    by (simp add: Read_Execute_def demo_env_def demo_disk_def RequireString_def str_arg_def success_result_def
      resolveEditPath_def is_abs_def os_Stat_def entry_at_def gm_get_def GetInt_def maxReadLines_def Let_def
      shown_text_def maxScanToken_def maxReadBytes_def maxLineLength_def requireCurrentView_def requireObservedView_def
      viewOf_def recordFileRead_def fileViewKey_def gm_put_def stamp_of_def)
qed

text \<open>A mode given in decimal keeps its value under the mask that is meant to repair it: 755 gives 0363.\<close>

lemma decimal_mode_is_not_repaired:
  "entry_at w p = None \<Longrightarrow> fe_write E = None \<Longrightarrow>
   WriteFile E p x (GetInt [''mode'' \<mapsto> GNum 755] ''mode'' 420 mod 4096) w
   = (None, put_entry p (RegFile x (fe_now E) (3 * 64 + 6 * 8 + 3)) w)"
  by (simp add: WriteFile_def GetInt_def)

end
