(* ===== verification/Gate.thy ===== *)
theory Gate
  imports Hook FileTools
begin

text \<open>
  The way of a tool call from the agent to the tool: the hooks of \<open>PreToolUse\<close>
  (\<open>internal/tool/pretool_hook.go\<close>), the gate (\<open>internal/agent/permission.go\<close>) over the rules of
  \<open>Permission\<close>, the reviewing model of autopilot mode (\<open>internal/app/agent.go\<close>, \<open>internal/reviewer\<close>)
  and the answer of the user with what it grants (\<open>internal/app/update_approval.go\<close>).

  The inference of the reviewer, the JSON of its verdict and the user are the environment \<open>gate_env\<close>.  The
  channel to the terminal is the function \<open>ge_user\<close>: no answer stands for a turn that was cancelled.  What
  an always-allow answer writes to the settings file is only noted, in \<open>gw_persisted\<close>.

  The theorems: a call that runs has the authority of a hook, a rule, a reviewer that may give it, or the
  user; without a hook nothing that a deny rule names runs.  The examples show two holes: an answer of allow
  from a hook passes over every rule, and the gate looks for the path of an Edit where it is not.
\<close>

subsection \<open>State\<close>

record SteerSettings =
  steer_Suggest :: "bool option"
  steer_Permission :: "bool option"
  steer_BashPrompt :: bool
  steer_Skill :: bool
  steer_Question :: bool
  steer_TurnEnd :: bool

definition PermissionOn :: "SteerSettings \<Rightarrow> bool" where
  "PermissionOn s \<longleftrightarrow> steer_Permission s = None \<or> steer_Permission s = Some True"

record PermDecisionResult =
  pd_Decision :: decision
  pd_Reason :: string
  pd_ToolName :: string
  pd_Description :: string
  pd_RequestID :: string
  pd_Reviewable :: bool

record PermReviewResult =
  rv_Allow :: bool
  rv_Reason :: string

record PermGateRequest =
  gr_RequestID :: string
  gr_ToolName :: string
  gr_Description :: string
  gr_Input :: tool_args

record permissionDecision =
  ud_Approved :: bool
  ud_AllowAll :: bool
  ud_Persist :: bool
  ud_ToolName :: string
  ud_SuggestedRules :: "string list"

record ReviewRequest =
  rq_ToolName :: string
  rq_Args :: tool_args
  rq_Reason :: string
  rq_CWD :: string
  rq_UnderGit :: bool
  rq_Mission :: string

record DecisionRecord =
  rec_RequestID :: string
  rec_Tool :: string
  rec_Decision :: string
  rec_Source :: string
  rec_Scope :: string
  rec_Reason :: string
  rec_Mode :: string

record gate_world =
  gw_engine :: Engine
  gw_session :: SessionPermissions
  gw_perms :: PermissionSettings
  gw_engaged :: bool
  gw_steers :: SteerSettings
  gw_mission :: string
  gw_cwd :: string
  gw_git :: bool
  gw_mode :: string
  gw_records :: "DecisionRecord list"
  gw_persisted :: "string list"

record gate_env =
  ge_sys :: sys_env
  ge_hooks :: hook_env
  ge_infer :: "ReviewRequest \<Rightarrow> string + string"
  ge_verdict :: "string \<Rightarrow> string + string \<times> string"
  ge_user :: "PermGateRequest \<Rightarrow> permissionDecision option"
  ge_id :: string

definition note_decision :: "DecisionRecord \<Rightarrow> gate_world \<Rightarrow> gate_world" where
  "note_decision r w = w\<lparr>gw_records := gw_records w @ [r]\<rparr>"

definition permDecisionFor :: "bool \<Rightarrow> string" where
  "permDecisionFor approved = (if approved then ''permit'' else ''reject'')"

subsection \<open>The rules\<close>

definition config_record :: "gate_world \<Rightarrow> string \<Rightarrow> bool \<Rightarrow> string \<Rightarrow> DecisionRecord" where
  "config_record w name ok reason =
     \<lparr>rec_RequestID = [], rec_Tool = name, rec_Decision = permDecisionFor ok, rec_Source = ''config'', rec_Scope = [],
      rec_Reason = reason, rec_Mode = gw_mode w\<rparr>"

definition PermissionRules :: "gate_env \<Rightarrow> string \<Rightarrow> tool_args \<Rightarrow> gate_world \<Rightarrow> PermDecisionResult \<times> gate_world" where
  "PermissionRules G name args w =
     (let d = HasPermissionToUseTool (ge_sys G) (gw_perms w) name args (Some (gw_session w));
          plain = \<lparr>pd_Decision = Behavior d, pd_Reason = Reason d, pd_ToolName = [], pd_Description = [],
                   pd_RequestID = [], pd_Reviewable = False\<rparr>
      in case Behavior d of
           Permit \<Rightarrow> (plain, note_decision (config_record w name True (Reason d)) w)
         | Reject \<Rightarrow> (plain, note_decision (config_record w name False (Reason d)) w)
         | _ \<Rightarrow> (\<lparr>pd_Decision = Prompt, pd_Reason = Reason d, pd_ToolName = name, pd_Description = Reason d,
                  pd_RequestID = ge_id G, pd_Reviewable = Reviewable d\<rparr>, w))"

subsection \<open>The reviewer\<close>

definition ExtractJSONObject :: "string \<Rightarrow> string" where
  "ExtractJSONObject s =
     (case (index_of s ''{'', last_index_of s ''}'') of
        (Some i, Some j) \<Rightarrow> if j < i then [] else drop i (take (j + 1) s)
      | _ \<Rightarrow> [])"

definition truncate_str :: "string \<Rightarrow> nat \<Rightarrow> string" where
  "truncate_str s n = (if length s \<le> n then s else take n s @ [CHR 0xE2, CHR 0x80, CHR 0xA6])"

record Verdict =
  ve_Allow :: bool
  ve_Reason :: string

definition parseVerdict :: "gate_env \<Rightarrow> string \<Rightarrow> string + Verdict" where
  "parseVerdict G content =
     (let raw = ExtractJSONObject content
      in if raw = [] then Inl (''no JSON object in judge response: '' @ truncate_str content 200)
         else case ge_verdict G raw of
                Inl e \<Rightarrow> Inl (''parse judge verdict: '' @ e)
              | Inr (d, reason) \<Rightarrow>
                  if to_lower (trim_space d) = ''allow'' then Inr \<lparr>ve_Allow = True, ve_Reason = reason\<rparr>
                  else if to_lower (trim_space d) = ''escalate'' then Inr \<lparr>ve_Allow = False, ve_Reason = reason\<rparr>
                  else Inl (''unrecognized judge decision: '' @ d))"

definition Judge_Permission :: "gate_env \<Rightarrow> ReviewRequest \<Rightarrow> string + Verdict" where
  "Judge_Permission G req = (case ge_infer G req of Inl e \<Rightarrow> Inl e | Inr content \<Rightarrow> parseVerdict G content)"

definition escalate :: PermReviewResult where
  "escalate = \<lparr>rv_Allow = False, rv_Reason = []\<rparr>"

definition grant_rule :: "gate_env \<Rightarrow> string \<Rightarrow> tool_args \<Rightarrow> gate_world \<Rightarrow> gate_world" where
  "grant_rule G name args w = w\<lparr>gw_session := AllowPattern (BuildRule (ge_sys G) name args) (gw_session w)\<rparr>"

definition PermissionReview :: "gate_env \<Rightarrow> string \<Rightarrow> tool_args \<Rightarrow> string \<Rightarrow> gate_world \<Rightarrow> PermReviewResult \<times> gate_world" where
  "PermissionReview G name args reason w =
     (if \<not> gw_engaged w then (escalate, w)
      else if CircuitBreakerReason (ge_sys G) name args \<noteq> [] then (escalate, w)
      else if UnrecoverableReason (ge_sys G) name args \<noteq> [] then (escalate, w)
      else if name = ''Skill'' \<and> steer_Skill (gw_steers w)
        then (\<lparr>rv_Allow = True, rv_Reason = ''autopilot: skill steer''\<rparr>, grant_rule G name args w)
      else if \<not> PermissionOn (gw_steers w) then (escalate, w)
      else case Judge_Permission G \<lparr>rq_ToolName = name, rq_Args = args, rq_Reason = reason, rq_CWD = gw_cwd w,
                 rq_UnderGit = gw_git w, rq_Mission = gw_mission w\<rparr> of
             Inl e \<Rightarrow> (escalate, w)
           | Inr v \<Rightarrow>
               if \<not> ve_Allow v then (escalate, w)
               else (\<lparr>rv_Allow = True, rv_Reason = ''autopilot: '' @ ve_Reason v\<rparr>,
                     grant_rule G name args
                       (note_decision \<lparr>rec_RequestID = [], rec_Tool = name, rec_Decision = permDecisionFor True,
                          rec_Source = ''reviewer'', rec_Scope = [], rec_Reason = ve_Reason v, rec_Mode = gw_mode w\<rparr> w)))"

subsection \<open>The user\<close>

definition permScope :: "permissionDecision \<Rightarrow> string" where
  "permScope d = (if ud_Persist d then ''persistent'' else if ud_AllowAll d then ''session'' else ''once'')"

definition persistentAllowRules :: "gate_env \<Rightarrow> permissionDecision \<Rightarrow> string \<Rightarrow> tool_args \<Rightarrow> string list" where
  "persistentAllowRules G d toolName input =
     (if ud_SuggestedRules d \<noteq> [] then ud_SuggestedRules d
      else let toolName = (if toolName = [] then ud_ToolName d else toolName)
           in if toolName = [] then []
              else if BuildRule (ge_sys G) toolName input = [] then [] else [BuildRule (ge_sys G) toolName input])"

definition applyPersistentAllow :: "gate_env \<Rightarrow> permissionDecision \<Rightarrow> string \<Rightarrow> tool_args \<Rightarrow> gate_world \<Rightarrow> gate_world" where
  "applyPersistentAllow G d toolName input w =
     (let rules = persistentAllowRules G d toolName input
      in w\<lparr>gw_session := fold AllowPattern rules (gw_session w), gw_persisted := gw_persisted w @ rules\<rparr>)"

definition permDecisionRecord :: "PermGateRequest \<Rightarrow> permissionDecision \<Rightarrow> string \<Rightarrow> string \<Rightarrow> DecisionRecord" where
  "permDecisionRecord req d reason mode =
     \<lparr>rec_RequestID = gr_RequestID req, rec_Tool = gr_ToolName req, rec_Decision = permDecisionFor (ud_Approved d),
      rec_Source = ''user'', rec_Scope = permScope d, rec_Reason = reason, rec_Mode = mode\<rparr>"

definition handlePermGateDecision ::
    "gate_env \<Rightarrow> PermGateRequest \<Rightarrow> permissionDecision \<Rightarrow> gate_world \<Rightarrow> (bool \<times> string) \<times> gate_world" where
  "handlePermGateDecision G req d w =
     (let reason = (if ud_Approved d then ''user approved'' else ''user denied'');
          w = (if ud_Approved d \<and> ud_AllowAll d then w\<lparr>gw_session := AllowTool (ud_ToolName d) (gw_session w)\<rparr> else w);
          w = (if ud_Approved d \<and> ud_Persist d then applyPersistentAllow G d (gr_ToolName req) (gr_Input req) w else w)
      in ((ud_Approved d, reason), note_decision (permDecisionRecord req d reason (gw_mode w)) w))"

subsection \<open>The gate\<close>

definition prompt :: "gate_env \<Rightarrow> PermGateRequest \<Rightarrow> gate_world \<Rightarrow> (bool \<times> string) \<times> gate_world" where
  "prompt G req w =
     (case ge_user G req of
        None \<Rightarrow> ((False, ''cancelled''), w)
      | Some d \<Rightarrow> handlePermGateDecision G req d w)"

definition prompt_for :: "PermDecisionResult \<Rightarrow> string \<Rightarrow> tool_args \<Rightarrow> PermGateRequest" where
  "prompt_for d name input =
     \<lparr>gr_RequestID = pd_RequestID d, gr_ToolName = (if pd_ToolName d = [] then name else pd_ToolName d),
      gr_Description = (if pd_Description d = [] then pd_Reason d else pd_Description d), gr_Input = input\<rparr>"

definition Check :: "gate_env \<Rightarrow> string \<Rightarrow> tool_args \<Rightarrow> bool \<Rightarrow> string \<Rightarrow> gate_world \<Rightarrow> (bool \<times> string) \<times> gate_world" where
  "Check G name input forcePrompt reason w =
     (if forcePrompt
      then prompt G \<lparr>gr_RequestID = [], gr_ToolName = name, gr_Description = reason, gr_Input = input\<rparr> w
      else let (d, w) = PermissionRules G name input w
           in if pd_Decision d = Permit then ((True, pd_Reason d), w)
              else if pd_Decision d = Reject then ((False, pd_Reason d), w)
              else let (rv, w) = (if pd_Reviewable d then PermissionReview G name input (pd_Reason d) w else (escalate, w))
                   in if rv_Allow rv then ((True, rv_Reason rv), w)
                      else prompt G (prompt_for d name input) w)"

subsection \<open>A tool call\<close>

datatype gated_run = Blocked string | Ran tool_args

definition no_event :: HookInput where
  "no_event = \<lparr>hi_SessionID = [], hi_TranscriptPath = [], hi_Cwd = [], hi_PermissionMode = [], hi_HookEventName = [],
     hi_ToolName = [], hi_ToolInput = Map.empty, hi_NotificationType = [], hi_AgentName = [], hi_Source = [],
     hi_Reason = [], hi_Trigger = [], hi_TaskSubject = [], hi_FilePath = [], hi_NewCwd = [], hi_Name = [],
     hi_WorktreePath = []\<rparr>"

definition pre_tool_outcome :: "gate_env \<Rightarrow> string \<Rightarrow> tool_args \<Rightarrow> gate_world \<Rightarrow> HookOutcome \<times> gate_world" where
  "pre_tool_outcome G name input w =
     (if HasHooks PreToolUse (gw_engine w)
      then let (out, e) = Execute_hooks (ge_hooks G) PreToolUse (no_event\<lparr>hi_ToolName := name, hi_ToolInput := input\<rparr>) (gw_engine w)
           in (out, w\<lparr>gw_engine := e\<rparr>)
      else (continue_outcome, w))"

definition block_reason :: "HookOutcome \<Rightarrow> string" where
  "block_reason out =
     (if oc_BlockReason out \<noteq> [] then oc_BlockReason out
      else if oc_AdditionalContext out \<noteq> [] then oc_AdditionalContext out
      else ''blocked by PreToolUse hook'')"

definition preTool_Execute :: "gate_env \<Rightarrow> string \<Rightarrow> tool_args \<Rightarrow> gate_world \<Rightarrow> gated_run \<times> gate_world" where
  "preTool_Execute G name input w =
     (let (out, w) = pre_tool_outcome G name input w
      in if \<not> oc_ShouldContinue out \<or> oc_ShouldBlock out then (Blocked (''blocked: '' @ block_reason out), w)
         else let input = (case oc_UpdatedInput out of None \<Rightarrow> input | Some i \<Rightarrow> i)
              in if \<not> oc_PermissionAllow out \<or> oc_ForceAsk out
                 then let ((allow, reason), w) = Check G name input (oc_ForceAsk out) (oc_PermissionReason out) w
                      in if allow then (Ran input, w) else (Blocked (''blocked: '' @ reason), w)
                 else (Ran input, w))"


subsection \<open>Who lets a call run\<close>

definition rule_permits :: "gate_env \<Rightarrow> string \<Rightarrow> tool_args \<Rightarrow> gate_world \<Rightarrow> bool" where
  "rule_permits G name args w \<longleftrightarrow>
     CheckPermission (ge_sys G) (gw_perms w) name args (Some (gw_session w)) = Permit"

definition reviewer_permits :: "gate_env \<Rightarrow> string \<Rightarrow> tool_args \<Rightarrow> gate_world \<Rightarrow> bool" where
  "reviewer_permits G name args w \<longleftrightarrow>
     (let d = HasPermissionToUseTool (ge_sys G) (gw_perms w) name args (Some (gw_session w))
      in Behavior d = Prompt \<and> Reviewable d) \<and> gw_engaged w
     \<and> CircuitBreakerReason (ge_sys G) name args = [] \<and> UnrecoverableReason (ge_sys G) name args = []
     \<and> (name = ''Skill'' \<and> steer_Skill (gw_steers w)
        \<or> PermissionOn (gw_steers w)
          \<and> (\<exists>req v. rq_ToolName req = name \<and> rq_Args req = args \<and> Judge_Permission G req = Inr v \<and> ve_Allow v))"

definition user_permits :: "gate_env \<Rightarrow> string \<Rightarrow> tool_args \<Rightarrow> bool" where
  "user_permits G name args \<longleftrightarrow>
     (\<exists>req d. gr_ToolName req = name \<and> gr_Input req = args \<and> ge_user G req = Some d \<and> ud_Approved d)"

lemma prompt_asks: "prompt G req w = ((True, r), w') \<Longrightarrow> \<exists>d. ge_user G req = Some d \<and> ud_Approved d"
  by (auto simp: prompt_def handlePermGateDecision_def Let_def split: option.splits)

lemma PermissionRules_result:
  assumes "PermissionRules G name args w = (d, w')"
  shows "pd_Decision d = Behavior (HasPermissionToUseTool (ge_sys G) (gw_perms w) name args (Some (gw_session w)))"
    and "pd_Reviewable d \<Longrightarrow> Behavior (HasPermissionToUseTool (ge_sys G) (gw_perms w) name args (Some (gw_session w))) = Prompt
       \<and> Reviewable (HasPermissionToUseTool (ge_sys G) (gw_perms w) name args (Some (gw_session w)))"
    and "pd_ToolName d = [] \<or> pd_ToolName d = name"
    and "gw_engaged w' = gw_engaged w" and "gw_steers w' = gw_steers w"
  using assms
  by (cases "Behavior (HasPermissionToUseTool (ge_sys G) (gw_perms w) name args (Some (gw_session w)))";
      auto simp: PermissionRules_def Let_def note_decision_def)+

lemma PermissionReview_allows:
  assumes "PermissionReview G name args reason w = (rv, w')" and "rv_Allow rv"
  shows "gw_engaged w \<and> CircuitBreakerReason (ge_sys G) name args = [] \<and> UnrecoverableReason (ge_sys G) name args = []
     \<and> (name = ''Skill'' \<and> steer_Skill (gw_steers w)
        \<or> PermissionOn (gw_steers w)
          \<and> (\<exists>req v. rq_ToolName req = name \<and> rq_Args req = args \<and> Judge_Permission G req = Inr v \<and> ve_Allow v))"
  using assms
  by (auto simp: PermissionReview_def escalate_def Let_def split: if_splits sum.splits) (metis ReviewRequest.select_convs(1,2))+

lemma Check_authority:
  assumes "Check G name args False reason w = ((True, r), w')"
  shows "rule_permits G name args w \<or> reviewer_permits G name args w \<or> user_permits G name args"
proof -
  obtain d w1 where d: "PermissionRules G name args w = (d, w1)" by fastforce
  note rules = PermissionRules_result [OF d]
  obtain rv w2 where rv: "(if pd_Reviewable d then PermissionReview G name args (pd_Reason d) w1 else (escalate, w1)) = (rv, w2)"
    by fastforce
  show ?thesis
  proof (cases "pd_Decision d = Permit \<or> pd_Decision d = Reject")
    case True
    then show ?thesis using assms d rules(1) by (auto simp: Check_def rule_permits_def CheckPermission_def)
  next
    case False
    show ?thesis
    proof (cases "rv_Allow rv")
      case True
      then have "pd_Reviewable d" "PermissionReview G name args (pd_Reason d) w1 = (rv, w2)"
        using rv by (auto simp: escalate_def split: if_splits)
      then have "reviewer_permits G name args w"
        unfolding reviewer_permits_def Let_def
        using PermissionReview_allows [OF _ True] rules(2,4,5) by metis
      then show ?thesis by blast
    next
      case no: False
      then have "prompt G (prompt_for d name args) w2 = ((True, r), w')"
        using assms d False rv by (auto simp: Check_def split: if_splits)
      then have "user_permits G name args"
        unfolding user_permits_def using prompt_asks rules(3)
        by (intro exI [of _ "prompt_for d name args"]) (auto simp: prompt_for_def)
      then show ?thesis by blast
    qed
  qed
qed

lemma pre_tool_outcome_keeps:
  assumes "pre_tool_outcome G name input w = (out, w1)"
  shows "gw_perms w1 = gw_perms w \<and> gw_session w1 = gw_session w \<and> gw_engaged w1 = gw_engaged w
    \<and> gw_steers w1 = gw_steers w"
  using assms by (auto simp: pre_tool_outcome_def split: if_splits prod.splits)

lemma authority_keeps:
  assumes "pre_tool_outcome G name input w = (out, w1)"
  shows "rule_permits G n a w1 = rule_permits G n a w" and "reviewer_permits G n a w1 = reviewer_permits G n a w"
  using pre_tool_outcome_keeps [OF assms] by (simp_all add: rule_permits_def reviewer_permits_def)

definition final_input :: "HookOutcome \<Rightarrow> tool_args \<Rightarrow> tool_args" where
  "final_input out input = (case oc_UpdatedInput out of None \<Rightarrow> input | Some i \<Rightarrow> i)"

lemma Ran_authority:
  assumes "preTool_Execute G name input w = (Ran args, w')" and o: "pre_tool_outcome G name input w = (out, w1)"
  shows "args = final_input out input \<and> oc_ShouldContinue out \<and> \<not> oc_ShouldBlock out
     \<and> (oc_PermissionAllow out \<and> \<not> oc_ForceAsk out
        \<or> user_permits G name args
        \<or> \<not> oc_ForceAsk out \<and> (rule_permits G name args w \<or> reviewer_permits G name args w))"
proof -
  have go: "oc_ShouldContinue out \<and> \<not> oc_ShouldBlock out" and a: "args = final_input out input"
    using assms by (auto simp: preTool_Execute_def final_input_def Let_def split: if_splits prod.splits)
  show ?thesis
  proof (cases "oc_PermissionAllow out \<and> \<not> oc_ForceAsk out")
    case False
    then obtain r where c: "Check G name args (oc_ForceAsk out) (oc_PermissionReason out) w1 = ((True, r), w')"
      using assms a go by (auto simp: preTool_Execute_def final_input_def Let_def split: if_splits prod.splits)
    show ?thesis
    proof (cases "oc_ForceAsk out")
      case True
      then have "\<exists>r'. prompt G \<lparr>gr_RequestID = [], gr_ToolName = name, gr_Description = oc_PermissionReason out,
          gr_Input = args\<rparr> w1 = ((True, r'), w')" using c by (simp add: Check_def)
      then have "user_permits G name args"
        unfolding user_permits_def using prompt_asks PermGateRequest.select_convs(2,4) by metis
      then show ?thesis using a go by blast
    next
      case no: False
      then have "Check G name args False (oc_PermissionReason out) w1 = ((True, r), w')" using c by simp
      from Check_authority [OF this] show ?thesis using a go no authority_keeps [OF o] by auto
    qed
  qed (use a go in blast)
qed

text \<open>
  C7: A call that runs, runs with the input that the hooks left, and somebody let it: a hook that answers allow
  while none asks for the user; the user, for this tool and this input; or, when no hook asks for the user,
  the rules, or the reviewer of autopilot, which cannot approve the removal of the root or of the home
  directory nor anything of the unrecoverable tier.
\<close>

theorem calls_run_only_with_authority:
  assumes "preTool_Execute G name input w = (Ran args, w')" and "pre_tool_outcome G name input w = (out, w1)"
  shows "args = final_input out input \<and> oc_ShouldContinue out \<and> \<not> oc_ShouldBlock out
     \<and> (oc_PermissionAllow out \<and> \<not> oc_ForceAsk out
        \<or> user_permits G name args
        \<or> \<not> oc_ForceAsk out \<and> (rule_permits G name args w \<or> reviewer_permits G name args w))"
  by (rule Ran_authority [OF assms])

lemma denied_call_is_refused:
  assumes "pre_tool_outcome G name input w = (out, w1)" and "\<not> oc_PermissionAllow out" and "\<not> oc_ForceAsk out"
    and "pat \<in> set (Deny (gw_perms w))"
    and "MatchesToolPattern (ge_sys G) name (final_input out input) (BuildRule (ge_sys G) name (final_input out input)) pat"
  shows "\<exists>reason. fst (preTool_Execute G name input w) = Blocked reason"
proof -
  obtain p where "HasPermissionToUseTool (ge_sys G) (gw_perms w1) name (final_input out input) (Some (gw_session w1))
      = decide Reject (''deny rule: '' @ p)"
    using gate_deny [of "ge_sys G" name "final_input out input" "gw_perms w"] assms(4,5) pre_tool_outcome_keeps [OF assms(1)]
    by (auto simp: list_ex_iff)
  then obtain r v where "Check G name (final_input out input) False (oc_PermissionReason out) w1 = ((False, r), v)"
    by (simp add: Check_def PermissionRules_def Let_def)
  then show ?thesis
    using assms(1-3) by (auto simp: preTool_Execute_def final_input_def Let_def split: if_splits)
qed

text \<open>
  C8: A call that a deny rule of the settings matches runs in two cases only, with the input that the hooks left:
  a hook answered allow and none asked for the user, or a hook asked for the user and the user approved this tool with
  this input.  Neither the mode, nor the session, nor the reviewer can let it run.
\<close>

theorem denied_calls_do_not_run:
  assumes "pre_tool_outcome G name input w = (out, w1)" and "pat \<in> set (Deny (gw_perms w))"
    and "MatchesToolPattern (ge_sys G) name (final_input out input) (BuildRule (ge_sys G) name (final_input out input)) pat"
    and "preTool_Execute G name input w = (Ran args, w')"
  shows "args = final_input out input
    \<and> (oc_PermissionAllow out \<and> \<not> oc_ForceAsk out \<or> oc_ForceAsk out \<and> user_permits G name args)"
proof -
  have "oc_PermissionAllow out \<or> oc_ForceAsk out"
    using denied_call_is_refused [OF assms(1) _ _ assms(2,3)] assms(4) by auto
  then show ?thesis using Ran_authority [OF assms(4,1)] by auto
qed

subsection \<open>The path of an Edit\<close>

lemma str_arg_other: "k \<noteq> j \<Longrightarrow> str_arg (args(k := v)) j = str_arg args j"
  by (simp add: str_arg_def)

lemma edit_gate_blind:
  shows "BuildRule E ''Edit'' (args(''file_path'' := v)) = BuildRule E ''Edit'' args"
    and "CircuitBreakerReason E ''Edit'' (args(''file_path'' := v)) = CircuitBreakerReason E ''Edit'' args"
    and "MatchesToolPattern E ''Edit'' (args(''file_path'' := v)) = MatchesToolPattern E ''Edit'' args"
    and "UnrecoverableReason E ''Edit'' (args(''file_path'' := v)) = UnrecoverableReason E ''Edit'' args"
    and "RecoverableReason E ''Edit'' (args(''file_path'' := v)) = RecoverableReason E ''Edit'' args"
    and "filePathArg ''Edit'' (args(''file_path'' := v)) = filePathArg ''Edit'' args"
    and "modeDefaultDecision E ''Edit'' (args(''file_path'' := v)) session = modeDefaultDecision E ''Edit'' args session"
  by (simp_all add: BuildRule_def filePathArg_def str_arg_other CircuitBreakerReason_def bashCommandArg_def
      MatchesToolPattern_def UnrecoverableReason_def RecoverableReason_def modeDefaultDecision_def
      ModeDefaultForCall_def fun_eq_iff)

lemma edit_allow_blind:
  "MatchAllowList E ''Edit'' (args(''file_path'' := v)) ps = MatchAllowList E ''Edit'' args ps"
  by (simp add: MatchAllowList_def edit_gate_blind)

lemma edit_confirmation_blind:
  "confirmationPromptReason E ''Edit'' (args(''file_path'' := v)) session = confirmationPromptReason E ''Edit'' args session"
  unfolding confirmationPromptReason_def ConfirmationTier_def edit_gate_blind by (rule refl)

lemma edit_session_blind:
  "session_allow E ''Edit'' (args(''file_path'' := v)) session = session_allow E ''Edit'' args session"
  unfolding session_allow_def edit_allow_blind by (rule refl)

text \<open>
  The gate decides an Edit without looking at the file that it changes: for every accepted request, and any
  other file, the answer is the same, so no deny or ask rule, no check of sensitive paths and no bound to
  the working directories tells one file from another.
\<close>

theorem gate_ignores_the_edited_file:
  assumes "parseEditRequest params = Inr (p, edit)" and "q \<noteq> []"
  shows "parseEditRequest (params(''file_path'' \<mapsto> GStr q)) = Inr (q, edit)
    \<and> HasPermissionToUseTool E perms ''Edit'' (params(''file_path'' \<mapsto> GStr q)) session
      = HasPermissionToUseTool E perms ''Edit'' params session"
proof
  show "parseEditRequest (params(''file_path'' \<mapsto> GStr q)) = Inr (q, edit)"
    using assms by (auto simp: parseEditRequest_def str_arg_def Let_def split: option.splits if_splits gval.splits)
  show "HasPermissionToUseTool E perms ''Edit'' (params(''file_path'' \<mapsto> GStr q)) session
      = HasPermissionToUseTool E perms ''Edit'' params session"
    unfolding HasPermissionToUseTool_def edit_gate_blind edit_allow_blind edit_confirmation_blind edit_session_blind
    by (rule refl)
qed


lemma edit_rule_without_path: "args ''path'' = None \<Longrightarrow> BuildRule E ''Edit'' args = ''Edit()''"
  by (simp add: BuildRule_def filePathArg_def str_arg_def)

lemma edit_rule_matches: "MatchRule ''Edit()'' ''Edit()''"
  by code_simp

text \<open>Whoever approves one Edit for the rest of the session has approved every Edit.\<close>

lemma one_granted_edit_grants_all:
  assumes "args ''path'' = None" and "other ''path'' = None"
  shows "\<exists>p. MatchAllowList E ''Edit'' other (gm_keys (AllowedPatterns (AllowPattern (BuildRule E ''Edit'' args) s))) = Some p"
proof -
  have "''Edit()'' \<in> set (gm_keys (AllowedPatterns (AllowPattern ''Edit()'' s)))"
    by (simp add: AllowPattern_def gm_laws(7) gm.get_put)
  moreover have "MatchesToolPattern E ''Edit'' other ''Edit()'' ''Edit()''"
    using edit_rule_matches by (simp add: MatchesToolPattern_def)
  ultimately show ?thesis
    using assms by (auto simp: MatchAllowList_def edit_rule_without_path find_None_iff simp flip: not_None_eq)
qed

subsection \<open>The prompt of the reviewer\<close>

text \<open>
  \<open>steeringDelimiterTag\<close>: an angle bracket, an optional slash, white space around the name in any case, a
  closing bracket.  The replacement passes over the text once.
\<close>

definition steering_tag :: "string \<Rightarrow> string option" where
  "steering_tag s =
     (let name = ''steering_instructions''; rest = dropWhile re_blank (drop_char CHR ''/'' (drop 1 s));
          after = dropWhile re_blank (drop (length name) rest)
      in if take 1 s = ''<'' \<and> to_lower (take (length name) rest) = name \<and> take 1 after = ''>'' then Some (drop 1 after)
         else None)"

lemma steering_tag_shrinks:
  assumes "steering_tag s = Some t"
  shows "length t < length s"
proof -
  define r where "r = dropWhile re_blank (drop_char CHR ''/'' (drop 1 s))"
  define q where "q = dropWhile re_blank (drop (length ''steering_instructions'') r)"
  have t: "t = drop 1 q" "take 1 q = ''>''" "take 1 s = ''<''"
    using assms unfolding steering_tag_def Let_def r_def [symmetric] q_def [symmetric] by (auto split: if_splits)
  have "length q \<le> length r"
    unfolding q_def by (rule order_trans [OF length_dropWhile_le]) simp
  moreover have "length r \<le> length (drop 1 s)"
    unfolding r_def by (rule order_trans [OF length_dropWhile_le drop_char_length])
  moreover have "q \<noteq> []" "s \<noteq> []" using t by auto
  then have "length t < length q" "length (drop 1 s) < length s" using t by simp_all
  ultimately show ?thesis by linarith
qed

function strip_tags :: "string \<Rightarrow> string" where
  "strip_tags s =
     (case s of
        [] \<Rightarrow> []
      | c # cs \<Rightarrow> (case steering_tag s of Some rest \<Rightarrow> strip_tags rest | None \<Rightarrow> c # strip_tags cs))"
  by pat_completeness auto
termination by (relation "measure length") (auto dest: steering_tag_shrinks)

declare strip_tags.simps [simp del]

definition steering_open :: string where
  "steering_open = ''<steering_instructions>''"

definition steering_close :: string where
  "steering_close = ''</steering_instructions>''"

definition ComposeSystemPrompt :: "string \<Rightarrow> string \<Rightarrow> string \<Rightarrow> string" where
  "ComposeSystemPrompt defaultInstructions policy steering =
     (let steering = trim_space steering; steering = (if steering = [] then defaultInstructions else steering)
      in steering_open @ [CHR 0x0A] @ strip_tags steering @ [CHR 0x0A] @ steering_close @ [CHR 0x0A, CHR 0x0A] @ policy)"

definition SetSteeringInstructions :: "string \<Rightarrow> string \<Rightarrow> string \<Rightarrow> string \<Rightarrow> string" where
  "SetSteeringInstructions defaultInstructions policy steering current =
     (if trim_space steering \<noteq> [] then ComposeSystemPrompt defaultInstructions policy steering else current)"

text \<open>A tag inside a tag: taking the inner one out puts the outer one together.\<close>

lemma nested_tag_is_forged:
  "strip_tags (''</steering_'' @ ''<steering_instructions>'' @ ''instructions>'') = steering_close"
  by code_simp

subsection \<open>Answers typed into a running command\<close>

record BashPromptReply =
  bp_Input :: string
  bp_Answer :: bool

definition is_control :: "char \<Rightarrow> bool" where
  "is_control c \<longleftrightarrow> byte_of c < 32 \<or> byte_of c = 127"

definition parseBashPromptReply :: "(string \<Rightarrow> string + string \<times> string) \<Rightarrow> string \<Rightarrow> string + BashPromptReply" where
  "parseBashPromptReply decode content =
     (let raw = ExtractJSONObject content
      in if raw = [] then Inl (''no JSON object in judge response: '' @ truncate_str content 200)
         else case decode raw of
                Inl e \<Rightarrow> Inl (''parse prompt reply: '' @ e)
              | Inr (action, input) \<Rightarrow>
                  if to_lower (trim_space action) = ''answer''
                    then if 256 < length input \<or> list_ex is_control input then Inl ''unsafe prompt input''
                         else Inr \<lparr>bp_Input = input, bp_Answer = True\<rparr>
                  else if to_lower (trim_space action) = ''skip'' then Inr \<lparr>bp_Input = [], bp_Answer = False\<rparr>
                  else Inl (''unrecognized prompt action: '' @ action))"

lemma typed_answers_are_one_line:
  "parseBashPromptReply decode content = Inr r \<Longrightarrow>
   length (bp_Input r) \<le> 256 \<and> list_all (\<lambda>c. \<not> is_control c) (bp_Input r)"
  by (auto simp: parseBashPromptReply_def Let_def list_ex_iff list_all_iff split: if_splits sum.splits)

subsection \<open>Examples\<close>

definition demo_gate :: gate_env where
  "demo_gate = \<lparr>ge_sys = Permission.demo_env, ge_hooks = demo_hooks, ge_infer = (\<lambda>_. Inl ''offline''),
     ge_verdict = (\<lambda>_. Inl ''no JSON''), ge_user = (\<lambda>_. None), ge_id = ''req-1''\<rparr>"

definition gate_demo :: "FunctionHook list \<Rightarrow> string list \<Rightarrow> gate_world" where
  "gate_demo fs deny = \<lparr>gw_engine = demo_engine fs, gw_session = SetMode ModeAutoAccept NewSessionPermissions,
     gw_perms = demo_perms\<lparr>Deny := deny\<rparr>, gw_engaged = False, gw_steers = \<lparr>steer_Suggest = None, steer_Permission = None, steer_BashPrompt = False, steer_Skill = False,
       steer_Question = False, steer_TurnEnd = False\<rparr>,
     gw_mission = [], gw_cwd = ''/w'', gw_git = True, gw_mode = ''auto-accept'', gw_records = [], gw_persisted = []\<rparr>"

definition secret_read :: tool_args where
  "secret_read = file_call ''/w/.env''"

definition env_rule :: string where
  "env_rule = ''Read(**/.env)''"

lemma demo_no_hook: "pre_tool_outcome demo_gate ''Read'' args (gate_demo [] deny) = (continue_outcome, gate_demo [] deny)"
proof -
  have "\<not> HasHooks PreToolUse (demo_engine [])" by code_simp
  then show ?thesis by (simp add: pre_tool_outcome_def gate_demo_def)
qed

lemma denied_call_is_refused_here:
  "\<exists>reason. fst (preTool_Execute demo_gate ''Read'' secret_read (gate_demo [] [env_rule])) = Blocked reason"
proof -
  have "MatchesToolPattern Permission.demo_env ''Read'' secret_read (BuildRule Permission.demo_env ''Read'' secret_read) env_rule"
    by code_simp
  then show ?thesis
    using denied_call_is_refused [OF demo_no_hook, of env_rule "[env_rule]" secret_read]
    by (simp add: continue_outcome_def gate_demo_def demo_gate_def final_input_def)
qed

lemma demo_permitted: "fst (preTool_Execute demo_gate ''Read'' (file_call ''/w/a.go'') (gate_demo [] [env_rule]))
   = Ran (file_call ''/w/a.go'')"
proof -
  have "Behavior (HasPermissionToUseTool Permission.demo_env (demo_perms\<lparr>Deny := [env_rule]\<rparr>) ''Read'' (file_call ''/w/a.go'')
      (Some (SetMode ModeAutoAccept NewSessionPermissions))) = Permit" by code_simp
  then show ?thesis
    unfolding preTool_Execute_def demo_no_hook
    by (simp add: continue_outcome_def Check_def PermissionRules_def Let_def gate_demo_def demo_gate_def)
qed

theorem calls_run_only_with_authority_witness:
  "user_permits demo_gate ''Read'' (file_call ''/w/a.go'')
   \<or> rule_permits demo_gate ''Read'' (file_call ''/w/a.go'') (gate_demo [] [env_rule])
   \<or> reviewer_permits demo_gate ''Read'' (file_call ''/w/a.go'') (gate_demo [] [env_rule])"
proof -
  obtain w' where "preTool_Execute demo_gate ''Read'' (file_call ''/w/a.go'') (gate_demo [] [env_rule])
      = (Ran (file_call ''/w/a.go''), w')"
    using demo_permitted by (metis prod.collapse)
  from calls_run_only_with_authority [OF this demo_no_hook] show ?thesis by (auto simp: continue_outcome_def)
qed

text \<open>An answer of allow from a hook passes over the rules: the call that a deny rule names runs.\<close>

lemma hook_allow_skips_the_gate:
  assumes "pre_tool_outcome G name input w = (out, w1)" and "oc_ShouldContinue out" and "\<not> oc_ShouldBlock out"
    and "oc_PermissionAllow out" and "\<not> oc_ForceAsk out"
  shows "preTool_Execute G name input w = (Ran (final_input out input), w1)"
  using assms by (simp add: preTool_Execute_def final_input_def Let_def)

lemma hook_allow_beats_a_deny_rule:
  "let w = gate_demo [answering False ''allow'' []] [env_rule]
   in (\<exists>out w1. pre_tool_outcome demo_gate ''Read'' secret_read w = (out, w1)
         \<and> preTool_Execute demo_gate ''Read'' secret_read w = (Ran secret_read, w1))
      \<and> CheckPermission Permission.demo_env (gw_perms w) ''Read'' secret_read (Some (gw_session w)) = Reject
      \<and> \<not> ResolveHookAllow Permission.demo_env (gw_perms w) ''Read'' secret_read (Some (gw_session w))"
proof -
  define w where "w = gate_demo [answering False ''allow'' []] [env_rule]"
  obtain out w1 where o: "pre_tool_outcome demo_gate ''Read'' secret_read w = (out, w1)" by fastforce
  have "let out = fst (pre_tool_outcome demo_gate ''Read'' secret_read w)
        in oc_ShouldContinue out \<and> \<not> oc_ShouldBlock out \<and> oc_PermissionAllow out \<and> \<not> oc_ForceAsk out
           \<and> (case oc_UpdatedInput out of None \<Rightarrow> True | Some _ \<Rightarrow> False)"
    unfolding w_def by code_simp
  then have "preTool_Execute demo_gate ''Read'' secret_read w = (Ran secret_read, w1)"
    using hook_allow_skips_the_gate [OF o] o by (auto simp: final_input_def Let_def split: option.splits)
  moreover have "CheckPermission Permission.demo_env (demo_perms\<lparr>Deny := [env_rule]\<rparr>) ''Read'' secret_read
      (Some (SetMode ModeAutoAccept NewSessionPermissions)) = Reject" by code_simp
  moreover have "\<not> ResolveHookAllow Permission.demo_env (demo_perms\<lparr>Deny := [env_rule]\<rparr>) ''Read'' secret_read
      (Some (SetMode ModeAutoAccept NewSessionPermissions))" by code_simp
  ultimately show ?thesis using o by (simp add: w_def gate_demo_def)
qed

theorem denied_calls_do_not_run_witness:
  "\<exists>out. fst (pre_tool_outcome demo_gate ''Read'' secret_read (gate_demo [answering False ''allow'' []] [env_rule])) = out
     \<and> oc_PermissionAllow out \<or> user_permits demo_gate ''Read'' secret_read"
proof -
  let ?w = "gate_demo [answering False ''allow'' []] [env_rule]"
  obtain out w1 where o: "pre_tool_outcome demo_gate ''Read'' secret_read ?w = (out, w1)"
    and r: "preTool_Execute demo_gate ''Read'' secret_read ?w = (Ran secret_read, w1)"
    using hook_allow_beats_a_deny_rule by (auto simp: Let_def)
  have "case oc_UpdatedInput (fst (pre_tool_outcome demo_gate ''Read'' secret_read ?w)) of None \<Rightarrow> True | Some _ \<Rightarrow> False" by code_simp
  then have f: "final_input out secret_read = secret_read" using o by (simp add: final_input_def split: option.splits)
  have "MatchesToolPattern Permission.demo_env ''Read'' secret_read (BuildRule Permission.demo_env ''Read'' secret_read) env_rule"
    by code_simp
  then have "MatchesToolPattern (ge_sys demo_gate) ''Read'' (final_input out secret_read)
      (BuildRule (ge_sys demo_gate) ''Read'' (final_input out secret_read)) env_rule"
    by (simp add: f demo_gate_def)
  moreover have "env_rule \<in> set (Deny (gw_perms ?w))" by (simp add: gate_demo_def)
  ultimately show ?thesis using denied_calls_do_not_run [OF o _ _ r] o by auto
qed

text \<open>A rule that denies the edit of a file, the check of sensitive paths: neither sees the file of an Edit.\<close>

definition edit_call :: "string \<Rightarrow> tool_args" where
  "edit_call p = [''file_path'' \<mapsto> GStr p, ''old_string'' \<mapsto> GStr ''a'', ''new_string'' \<mapsto> GStr ''b'']"

definition edit_settings :: PermissionSettings where
  "edit_settings = \<lparr>DefaultMode = [], Allow = [], Deny = [''Edit(**/.env)'', ''Write(**/.env)''], Ask = []\<rparr>"

lemma demo_edit_request: "parseEditRequest (edit_call ''/w/a.go'') =
    Inr (''/w/a.go'', \<lparr>ed_oldString = ''a'', ed_newString = ''b'', ed_replaceAll = False\<rparr>)"
proof -
  have "normalizeLineEndings ''a'' = ''a''" "normalizeLineEndings ''b'' = ''b''" by code_simp+
  then show ?thesis by (simp add: parseEditRequest_def edit_call_def str_arg_def)
qed

lemma edit_call_other: "(edit_call p)(''file_path'' \<mapsto> GStr q) = edit_call q"
  by (simp add: edit_call_def fun_upd_twist fun_eq_iff)

definition accept_edits :: "SessionPermissions option" where
  "accept_edits = Some (SetMode ModeAutoAccept NewSessionPermissions)"

theorem gate_ignores_the_edited_file_witness:
  "CheckPermission Permission.demo_env edit_settings ''Edit'' (edit_call ''/w/.env'') accept_edits = Permit
   \<and> CheckPermission Permission.demo_env edit_settings ''Write'' (edit_call ''/w/.env'') accept_edits = Reject"
proof -
  have "CheckPermission Permission.demo_env edit_settings ''Edit'' (edit_call ''/w/a.go'') accept_edits = Permit" by code_simp
  moreover have "CheckPermission Permission.demo_env edit_settings ''Write'' (edit_call ''/w/.env'') accept_edits = Reject"
    by code_simp
  ultimately show ?thesis
    using gate_ignores_the_edited_file [OF demo_edit_request, of "''/w/.env''" Permission.demo_env edit_settings accept_edits]
    by (simp add: edit_call_other CheckPermission_def)
qed

lemma sensitive_edit_is_not_held:
  "UnrecoverableReason Permission.demo_env ''Write'' (edit_call ''/w/.git/hooks/pre-commit'') \<noteq> []
   \<and> CheckPermission Permission.demo_env edit_settings ''Edit'' (edit_call ''/w/.git/hooks/pre-commit'') accept_edits = Permit"
  by code_simp

end
