(* ===== verification/Config.thy ===== *)
theory Config
  imports Gate
begin

text \<open>
  The data of the settings (\<open>setting/settings.go\<close>) and how two levels of it are merged
  (\<open>setting/merger.go\<close>).  A Go \<open>*bool\<close> is a \<open>bool option\<close>, a nil map or slice is the empty one (JSON
  with \<open>omitempty\<close> does not tell them apart either).  Immutable values need no cloning: \<open>Clone\<close> is kept
  because the code copies field by field, and a forgotten field would be lost.

  The lemmas: merged rules are the union, a merge is associative with the empty settings as neutral
  element on the fields that it knows, the JSON form of the skill gates gives them back, and what the
  merge does to the fields that it does not know.
\<close>

subsection \<open>Data\<close>

record TokenLimitOverride =
  tl_InputTokenLimit :: int
  tl_OutputTokenLimit :: int

record SelfLearnMemory =
  slm_Enabled :: bool
  slm_MaxKB :: int
  slm_Path :: string

record SelfLearnSkills =
  sls_DenyCreate :: bool
  sls_DenyUpdate :: bool
  sls_DenyDelete :: bool

record SelfLearnSettings =
  sl_Memory :: SelfLearnMemory
  sl_Skills :: SelfLearnSkills
  sl_Strategy :: string

record AutoPilotSettings =
  ap_Model :: string
  ap_SystemPrompt :: string
  ap_SystemPromptFile :: string
  ap_Mission :: string
  ap_Steers :: SteerSettings
  ap_MaxContinuations :: int

record Data =
  da_Permissions :: PermissionSettings
  da_Model :: string
  da_Hooks :: "(string, Hook_entry list) gomap"
  da_Env :: "(string, string) gomap"
  da_EnabledPlugins :: "(string, bool) gomap"
  da_DisabledTools :: "(string, bool) gomap"
  da_Theme :: string
  da_SearchProvider :: string
  da_AllowBypass :: "bool option"
  da_BypassEnabled :: "bool option"
  da_StreamFirstChunkTimeout :: string
  da_StreamIdleTimeout :: string
  da_HookUITimeout :: string
  da_ContextBar :: "bool option"
  da_TokenLimit :: int
  da_MainTokenLimit :: TokenLimitOverride
  da_AgentTokenLimit :: TokenLimitOverride
  da_Persona :: string
  da_SelfLearn :: SelfLearnSettings
  da_AutoPilot :: AutoPilotSettings
  da_SubagentDefaultModel :: string
  da_SubagentDefaultModelForWrite :: string
  da_SubagentModels :: "(string, string) gomap"
  da_VisionModel :: string
  da_LastOperationMode :: string
  da_SkillDirs :: "string list"

definition no_limit :: TokenLimitOverride where
  "no_limit = \<lparr>tl_InputTokenLimit = 0, tl_OutputTokenLimit = 0\<rparr>"

definition no_self_learn :: SelfLearnSettings where
  "no_self_learn =
     \<lparr>sl_Memory = \<lparr>slm_Enabled = False, slm_MaxKB = 0, slm_Path = []\<rparr>,
      sl_Skills = \<lparr>sls_DenyCreate = False, sls_DenyUpdate = False, sls_DenyDelete = False\<rparr>, sl_Strategy = []\<rparr>"

definition no_steers :: SteerSettings where
  "no_steers = \<lparr>steer_Suggest = None, steer_Permission = None, steer_BashPrompt = False, steer_Skill = False,
     steer_Question = False, steer_TurnEnd = False\<rparr>"

definition no_autopilot :: AutoPilotSettings where
  "no_autopilot = \<lparr>ap_Model = [], ap_SystemPrompt = [], ap_SystemPromptFile = [], ap_Mission = [],
     ap_Steers = no_steers, ap_MaxContinuations = 0\<rparr>"

definition NewData :: Data where
  "NewData =
     \<lparr>da_Permissions = \<lparr>DefaultMode = [], Allow = [], Deny = [], Ask = []\<rparr>, da_Model = [], da_Hooks = gm_empty,
      da_Env = gm_empty, da_EnabledPlugins = gm_empty, da_DisabledTools = gm_empty, da_Theme = [],
      da_SearchProvider = [], da_AllowBypass = None, da_BypassEnabled = None, da_StreamFirstChunkTimeout = [],
      da_StreamIdleTimeout = [], da_HookUITimeout = [], da_ContextBar = None, da_TokenLimit = 0,
      da_MainTokenLimit = no_limit, da_AgentTokenLimit = no_limit, da_Persona = [], da_SelfLearn = no_self_learn,
      da_AutoPilot = no_autopilot, da_SubagentDefaultModel = [], da_SubagentDefaultModelForWrite = [],
      da_SubagentModels = gm_empty, da_VisionModel = [], da_LastOperationMode = [], da_SkillDirs = []\<rparr>"

subsection \<open>Self-learning\<close>

definition AllowCreate :: "SelfLearnSkills \<Rightarrow> bool" where
  "AllowCreate s \<longleftrightarrow> \<not> sls_DenyCreate s"

definition AllowUpdate :: "SelfLearnSkills \<Rightarrow> bool" where
  "AllowUpdate s \<longleftrightarrow> \<not> sls_DenyUpdate s"

definition AllowDelete :: "SelfLearnSkills \<Rightarrow> bool" where
  "AllowDelete s \<longleftrightarrow> \<not> sls_DenyDelete s"

definition skills_Active :: "SelfLearnSkills \<Rightarrow> bool" where
  "skills_Active s \<longleftrightarrow> AllowCreate s \<or> AllowUpdate s \<or> AllowDelete s"

record wireSkills =
  ws_Enabled :: bool
  ws_DenyCreate :: bool
  ws_DenyUpdate :: bool
  ws_DenyDelete :: bool

definition MarshalJSON_skills :: "SelfLearnSkills \<Rightarrow> wireSkills" where
  "MarshalJSON_skills s =
     \<lparr>ws_Enabled = skills_Active s, ws_DenyCreate = sls_DenyCreate s, ws_DenyUpdate = sls_DenyUpdate s,
      ws_DenyDelete = sls_DenyDelete s\<rparr>"

definition UnmarshalJSON_skills :: "wireSkills \<Rightarrow> SelfLearnSkills" where
  "UnmarshalJSON_skills w =
     (let s = \<lparr>sls_DenyCreate = ws_DenyCreate w, sls_DenyUpdate = ws_DenyUpdate w, sls_DenyDelete = ws_DenyDelete w\<rparr>
      in if \<not> ws_Enabled w then s\<lparr>sls_DenyCreate := True, sls_DenyUpdate := True, sls_DenyDelete := True\<rparr> else s)"

definition SelfLearnMaxMemoryKB :: int where
  "SelfLearnMaxMemoryKB = 25"

definition ResolvedMaxKB :: "SelfLearnMemory \<Rightarrow> int" where
  "ResolvedMaxKB m = (if slm_MaxKB m \<le> 0 then SelfLearnMaxMemoryKB else slm_MaxKB m)"

definition SelfLearn_Validate :: "SelfLearnSettings \<Rightarrow> string option" where
  "SelfLearn_Validate s =
     (if slm_MaxKB (sl_Memory s) < 0 \<or> SelfLearnMaxMemoryKB < slm_MaxKB (sl_Memory s)
        then Some (''memory size must be between 1 and '' @ int_str SelfLearnMaxMemoryKB @ '' KB (got ''
                   @ int_str (slm_MaxKB (sl_Memory s)) @ '')'')
      else if AllowCreate (sl_Skills s) \<and> \<not> AllowUpdate (sl_Skills s)
        then Some ''Create new skills needs Update a skill - otherwise created skills could never be refined''
      else None)"

subsection \<open>Autopilot\<close>

definition SuggestOn :: "SteerSettings \<Rightarrow> bool" where
  "SuggestOn s \<longleftrightarrow> steer_Suggest s = None \<or> steer_Suggest s = Some True"

definition ContinuationsUnlimited :: "AutoPilotSettings \<Rightarrow> bool" where
  "ContinuationsUnlimited a \<longleftrightarrow> ap_MaxContinuations a < 0"

definition AutoPilotUnlimitedContinuations :: int where
  "AutoPilotUnlimitedContinuations = -1"

definition AutoPilotDefaultMaxContinuations :: int where
  "AutoPilotDefaultMaxContinuations = 20"

definition EngageDriving :: "AutoPilotSettings \<Rightarrow> AutoPilotSettings" where
  "EngageDriving a =
     a\<lparr>ap_Steers := (ap_Steers a)\<lparr>steer_BashPrompt := True, steer_Skill := True, steer_Question := True,
         steer_TurnEnd := True\<rparr>,
       ap_MaxContinuations := AutoPilotUnlimitedContinuations\<rparr>"

definition StopDriving :: "AutoPilotSettings \<Rightarrow> AutoPilotSettings" where
  "StopDriving a =
     a\<lparr>ap_Steers := (ap_Steers a)\<lparr>steer_Suggest := Some False, steer_Question := False, steer_TurnEnd := False\<rparr>\<rparr>"

definition ResolvedMaxContinuations :: "AutoPilotSettings \<Rightarrow> int" where
  "ResolvedMaxContinuations a =
     (if ap_MaxContinuations a \<le> 0 then AutoPilotDefaultMaxContinuations else ap_MaxContinuations a)"

definition AutoPilot_IsZero :: "AutoPilotSettings \<Rightarrow> bool" where
  "AutoPilot_IsZero a \<longleftrightarrow> ap_Model a = [] \<and> ap_SystemPrompt a = [] \<and> ap_SystemPromptFile a = []
     \<and> ap_Mission a = [] \<and> ap_MaxContinuations a = 0
     \<and> steer_Suggest (ap_Steers a) = None \<and> steer_Permission (ap_Steers a) = None
     \<and> \<not> steer_BashPrompt (ap_Steers a) \<and> \<not> steer_Skill (ap_Steers a) \<and> \<not> steer_Question (ap_Steers a)
     \<and> \<not> steer_TurnEnd (ap_Steers a)"

definition AutoPilot_Equal :: "AutoPilotSettings \<Rightarrow> AutoPilotSettings \<Rightarrow> bool" where
  "AutoPilot_Equal a b \<longleftrightarrow> ap_Model a = ap_Model b \<and> ap_SystemPrompt a = ap_SystemPrompt b
     \<and> ap_SystemPromptFile a = ap_SystemPromptFile b \<and> ap_Mission a = ap_Mission b
     \<and> ap_MaxContinuations a = ap_MaxContinuations b
     \<and> SuggestOn (ap_Steers a) = SuggestOn (ap_Steers b) \<and> PermissionOn (ap_Steers a) = PermissionOn (ap_Steers b)
     \<and> steer_BashPrompt (ap_Steers a) = steer_BashPrompt (ap_Steers b)
     \<and> steer_Skill (ap_Steers a) = steer_Skill (ap_Steers b)
     \<and> steer_Question (ap_Steers a) = steer_Question (ap_Steers b)
     \<and> steer_TurnEnd (ap_Steers a) = steer_TurnEnd (ap_Steers b)"

subsection \<open>Views\<close>

definition ShowContextBar :: "Data option \<Rightarrow> bool" where
  "ShowContextBar d \<longleftrightarrow> (case d of None \<Rightarrow> False | Some s \<Rightarrow> da_ContextBar s = Some True)"

definition BypassEnabledOn :: "Data option \<Rightarrow> bool" where
  "BypassEnabledOn d \<longleftrightarrow> (case d of None \<Rightarrow> False | Some s \<Rightarrow> da_BypassEnabled s = Some True)"

subsection \<open>Merging two levels\<close>

definition coalesce :: "string \<Rightarrow> string \<Rightarrow> string" where
  "coalesce a b = (if a \<noteq> [] then a else b)"

definition coalesceInt :: "int \<Rightarrow> int \<Rightarrow> int" where
  "coalesceInt a b = (if a \<noteq> 0 then a else b)"

definition coalesceBool :: "bool option \<Rightarrow> bool option \<Rightarrow> bool option" where
  "coalesceBool a b = (if a \<noteq> None then a else b)"

definition coalesceTokenLimit :: "TokenLimitOverride \<Rightarrow> TokenLimitOverride \<Rightarrow> TokenLimitOverride" where
  "coalesceTokenLimit a b =
     \<lparr>tl_InputTokenLimit = coalesceInt (tl_InputTokenLimit a) (tl_InputTokenLimit b),
      tl_OutputTokenLimit = coalesceInt (tl_OutputTokenLimit a) (tl_OutputTokenLimit b)\<rparr>"

definition StartupMode :: "Data option \<Rightarrow> string" where
  "StartupMode d =
     (case d of None \<Rightarrow> [] | Some s \<Rightarrow> coalesce (da_LastOperationMode s) (DefaultMode (da_Permissions s)))"

text \<open>\<open>seen\<close> is the result so far: what it holds is what was put into it.\<close>

definition mergeStringSlices :: "string list \<Rightarrow> string list \<Rightarrow> string list" where
  "mergeStringSlices base overlay =
     foldl (\<lambda>result s. if s \<in> set result then result else result @ [s]) [] (base @ overlay)"

definition copy_into :: "('k, 'v) gomap \<Rightarrow> ('k, 'v) gomap \<Rightarrow> ('k, 'v) gomap" where
  "copy_into dst src = foldl (\<lambda>m (k, v). gm_put k v m) dst src"

definition mergeMaps :: "('k, 'v) gomap \<Rightarrow> ('k, 'v) gomap \<Rightarrow> ('k, 'v) gomap" where
  "mergeMaps base overlay = copy_into (copy_into gm_empty base) overlay"

definition hooks_at :: "(string, 'h list) gomap \<Rightarrow> string \<Rightarrow> 'h list" where
  "hooks_at m k = (case gm_get m k of None \<Rightarrow> [] | Some hs \<Rightarrow> hs)"

definition append_hooks :: "(string, 'h list) gomap \<Rightarrow> (string, 'h list) gomap \<Rightarrow> (string, 'h list) gomap" where
  "append_hooks dst src = foldl (\<lambda>m (k, v). gm_put k (hooks_at m k @ v) m) dst src"

definition mergeHooks :: "(string, 'h list) gomap \<Rightarrow> (string, 'h list) gomap \<Rightarrow> (string, 'h list) gomap" where
  "mergeHooks base overlay = append_hooks (copy_into gm_empty base) overlay"

definition mergePermissions :: "PermissionSettings \<Rightarrow> PermissionSettings \<Rightarrow> PermissionSettings" where
  "mergePermissions base overlay =
     \<lparr>DefaultMode = coalesce (DefaultMode overlay) (DefaultMode base),
      Allow = mergeStringSlices (Allow base) (Allow overlay),
      Deny = mergeStringSlices (Deny base) (Deny overlay),
      Ask = mergeStringSlices (Ask base) (Ask overlay)\<rparr>"

definition mergeAutoPilot :: "AutoPilotSettings \<Rightarrow> AutoPilotSettings \<Rightarrow> AutoPilotSettings" where
  "mergeAutoPilot base overlay =
     \<lparr>ap_Model = coalesce (ap_Model overlay) (ap_Model base),
      ap_SystemPrompt = coalesce (ap_SystemPrompt overlay) (ap_SystemPrompt base),
      ap_SystemPromptFile = coalesce (ap_SystemPromptFile overlay) (ap_SystemPromptFile base),
      ap_Mission = coalesce (ap_Mission overlay) (ap_Mission base),
      ap_Steers =
        \<lparr>steer_Suggest = coalesceBool (steer_Suggest (ap_Steers overlay)) (steer_Suggest (ap_Steers base)),
         steer_Permission = coalesceBool (steer_Permission (ap_Steers overlay)) (steer_Permission (ap_Steers base)),
         steer_BashPrompt = (steer_BashPrompt (ap_Steers overlay) \<or> steer_BashPrompt (ap_Steers base)),
         steer_Skill = (steer_Skill (ap_Steers overlay) \<or> steer_Skill (ap_Steers base)),
         steer_Question = (steer_Question (ap_Steers overlay) \<or> steer_Question (ap_Steers base)),
         steer_TurnEnd = (steer_TurnEnd (ap_Steers overlay) \<or> steer_TurnEnd (ap_Steers base))\<rparr>,
      ap_MaxContinuations = coalesceInt (ap_MaxContinuations overlay) (ap_MaxContinuations base)\<rparr>"

definition mergeSelfLearn :: "SelfLearnSettings \<Rightarrow> SelfLearnSettings \<Rightarrow> SelfLearnSettings" where
  "mergeSelfLearn base overlay =
     \<lparr>sl_Memory =
        \<lparr>slm_Enabled = (slm_Enabled (sl_Memory overlay) \<or> slm_Enabled (sl_Memory base)),
         slm_MaxKB = coalesceInt (slm_MaxKB (sl_Memory overlay)) (slm_MaxKB (sl_Memory base)),
         slm_Path = coalesce (slm_Path (sl_Memory overlay)) (slm_Path (sl_Memory base))\<rparr>,
      sl_Skills =
        \<lparr>sls_DenyCreate = (sls_DenyCreate (sl_Skills overlay) \<or> sls_DenyCreate (sl_Skills base)),
         sls_DenyUpdate = (sls_DenyUpdate (sl_Skills overlay) \<or> sls_DenyUpdate (sl_Skills base)),
         sls_DenyDelete = (sls_DenyDelete (sl_Skills overlay) \<or> sls_DenyDelete (sl_Skills base))\<rparr>,
      sl_Strategy = coalesce (sl_Strategy overlay) (sl_Strategy base)\<rparr>"

definition merge_data :: "Data \<Rightarrow> Data \<Rightarrow> Data" where
  "merge_data base overlay = NewData
     \<lparr>da_Permissions := mergePermissions (da_Permissions base) (da_Permissions overlay),
      da_Model := coalesce (da_Model overlay) (da_Model base),
      da_TokenLimit := coalesceInt (da_TokenLimit overlay) (da_TokenLimit base),
      da_MainTokenLimit := coalesceTokenLimit (da_MainTokenLimit overlay) (da_MainTokenLimit base),
      da_AgentTokenLimit := coalesceTokenLimit (da_AgentTokenLimit overlay) (da_AgentTokenLimit base),
      da_Theme := coalesce (da_Theme overlay) (da_Theme base),
      da_Hooks := mergeHooks (da_Hooks base) (da_Hooks overlay),
      da_Env := mergeMaps (da_Env base) (da_Env overlay),
      da_EnabledPlugins := mergeMaps (da_EnabledPlugins base) (da_EnabledPlugins overlay),
      da_DisabledTools := mergeMaps (da_DisabledTools base) (da_DisabledTools overlay),
      da_SearchProvider := coalesce (da_SearchProvider overlay) (da_SearchProvider base),
      da_AllowBypass := coalesceBool (da_AllowBypass overlay) (da_AllowBypass base),
      da_BypassEnabled := coalesceBool (da_BypassEnabled overlay) (da_BypassEnabled base),
      da_ContextBar := coalesceBool (da_ContextBar overlay) (da_ContextBar base),
      da_Persona := coalesce (da_Persona overlay) (da_Persona base),
      da_SelfLearn := mergeSelfLearn (da_SelfLearn base) (da_SelfLearn overlay),
      da_AutoPilot := mergeAutoPilot (da_AutoPilot base) (da_AutoPilot overlay),
      da_SubagentDefaultModel := coalesce (da_SubagentDefaultModel overlay) (da_SubagentDefaultModel base),
      da_SubagentModels := mergeMaps (da_SubagentModels base) (da_SubagentModels overlay),
      da_VisionModel := coalesce (da_VisionModel overlay) (da_VisionModel base),
      da_LastOperationMode := coalesce (da_LastOperationMode overlay) (da_LastOperationMode base),
      da_SkillDirs := mergeStringSlices (da_SkillDirs base) (da_SkillDirs overlay)\<rparr>"

definition mergeSettings :: "Data option \<Rightarrow> Data option \<Rightarrow> Data option" where
  "mergeSettings base overlay =
     (case base of None \<Rightarrow> overlay
      | Some b \<Rightarrow> (case overlay of None \<Rightarrow> base | Some ov \<Rightarrow> Some (merge_data b ov)))"

definition clone_hooks :: "Hook_entry list \<Rightarrow> Hook_entry list" where
  "clone_hooks hooks = List.map (\<lambda>h. \<lparr>hk_Matcher = hk_Matcher h, hk_Hooks = List.map (\<lambda>c.
     \<lparr>hc_Type = hc_Type c, hc_Command = hc_Command c, hc_Prompt = hc_Prompt c, hc_URL = hc_URL c, hc_If = hc_If c,
      hc_Shell = hc_Shell c, hc_Model = hc_Model c, hc_Async = hc_Async c, hc_AsyncRewake = hc_AsyncRewake c,
      hc_Timeout = hc_Timeout c, hc_StatusMessage = hc_StatusMessage c, hc_Once = hc_Once c,
      hc_Headers = copy_into gm_empty (hc_Headers c), hc_AllowedEnvVars = hc_AllowedEnvVars c\<rparr>) (hk_Hooks h)\<rparr>) hooks"

definition clone_data :: "Data \<Rightarrow> Data" where
  "clone_data s = NewData
     \<lparr>da_Permissions := \<lparr>DefaultMode = DefaultMode (da_Permissions s), Allow = Allow (da_Permissions s),
        Deny = Deny (da_Permissions s), Ask = Ask (da_Permissions s)\<rparr>,
      da_Model := da_Model s, da_TokenLimit := da_TokenLimit s, da_MainTokenLimit := da_MainTokenLimit s,
      da_AgentTokenLimit := da_AgentTokenLimit s, da_Theme := da_Theme s, da_SearchProvider := da_SearchProvider s,
      da_StreamFirstChunkTimeout := da_StreamFirstChunkTimeout s, da_StreamIdleTimeout := da_StreamIdleTimeout s,
      da_HookUITimeout := da_HookUITimeout s, da_Persona := da_Persona s, da_SelfLearn := da_SelfLearn s,
      da_AutoPilot := da_AutoPilot s, da_LastOperationMode := da_LastOperationMode s,
      da_SkillDirs := da_SkillDirs s, da_SubagentDefaultModel := da_SubagentDefaultModel s,
      da_SubagentDefaultModelForWrite := da_SubagentDefaultModelForWrite s, da_VisionModel := da_VisionModel s,
      da_SubagentModels := copy_into gm_empty (da_SubagentModels s), da_AllowBypass := da_AllowBypass s,
      da_BypassEnabled := da_BypassEnabled s, da_ContextBar := da_ContextBar s,
      da_Env := copy_into gm_empty (da_Env s), da_EnabledPlugins := copy_into gm_empty (da_EnabledPlugins s),
      da_DisabledTools := copy_into gm_empty (da_DisabledTools s),
      da_Hooks := copy_into gm_empty (List.map (\<lambda>(event, hooks). (event, clone_hooks hooks)) (da_Hooks s))\<rparr>"

definition Clone :: "Data option \<Rightarrow> Data" where
  "Clone d = (case d of None \<Rightarrow> NewData | Some s \<Rightarrow> clone_data s)"

definition ApplyPersonaOverlay :: "Data option \<Rightarrow> Data option \<Rightarrow> Data option" where
  "ApplyPersonaOverlay base overlay =
     (case overlay of None \<Rightarrow> base
      | Some _ \<Rightarrow> mergeSettings base (Some ((Clone overlay)\<lparr>da_Persona := []\<rparr>)))"

subsection \<open>Unions without repetition\<close>

definition add_new :: "'a list \<Rightarrow> 'a list \<Rightarrow> 'a list" where
  "add_new ks xs = foldl (\<lambda>r s. if s \<in> set r then r else r @ [s]) ks xs"

lemma add_new_simps [simp]:
  "add_new ks [] = ks"
  "add_new ks (x # xs) = add_new (if x \<in> set ks then ks else ks @ [x]) xs"
  by (simp_all add: add_new_def)

lemma add_new_append: "add_new ks (xs @ ys) = add_new (add_new ks xs) ys"
  by (simp add: add_new_def)

lemma set_add_new [simp]: "set (add_new ks xs) = set ks \<union> set xs"
  by (induction xs arbitrary: ks) auto

lemma distinct_add_new: "distinct ks \<Longrightarrow> distinct (add_new ks xs)"
  by (induction xs arbitrary: ks) auto

lemma add_new_fresh: "distinct xs \<Longrightarrow> set ks \<inter> set xs = {} \<Longrightarrow> add_new ks xs = ks @ xs"
  by (induction xs arbitrary: ks) auto

lemma add_new_filter: "add_new ks xs = ks @ filter (\<lambda>x. x \<notin> set ks) (add_new [] xs)"
proof (induction xs arbitrary: ks rule: rev_induct)
  case (snoc x xs)
  show ?case unfolding add_new_append snoc [of ks] by (simp add: snoc.prems)
qed simp

lemma add_new_again: "add_new ks (add_new [] xs) = add_new ks xs"
  by (subst (1 2) add_new_filter) (simp add: add_new_fresh distinct_add_new)

lemma mergeStringSlices_add_new: "mergeStringSlices a b = add_new [] (a @ b)"
  by (simp add: mergeStringSlices_def add_new_def)

lemma set_mergeStringSlices [simp]: "set (mergeStringSlices a b) = set a \<union> set b"
  by (simp add: mergeStringSlices_add_new)

lemma distinct_mergeStringSlices [simp]: "distinct (mergeStringSlices a b)"
  by (simp add: mergeStringSlices_add_new distinct_add_new)

lemma add_new_assoc: "add_new [] (add_new [] (a @ b) @ c) = add_new [] (a @ add_new [] (b @ c))"
  by (simp add: add_new_append add_new_again) (simp add: add_new_append [symmetric] add_new_again)

lemma mergeStringSlices_assoc:
  "mergeStringSlices (mergeStringSlices a b) c = mergeStringSlices a (mergeStringSlices b c)"
  by (simp add: mergeStringSlices_add_new add_new_assoc)

subsection \<open>Merged maps\<close>

lemma gm_eqI:
  assumes "List.map fst m = List.map fst n" and "gm_ok m" and "\<And>k. gm_get m k = gm_get n k"
  shows "m = n"
proof -
  have "distinct (List.map fst m)" "map_of m = map_of n" using assms(2,3) by (auto simp: gm_ok_def gm_get_def)
  with assms(1) show ?thesis
  proof (induction m arbitrary: n)
    case (Cons p m)
    then obtain q n' where n: "n = q # n'" "fst q = fst p" "List.map fst m = List.map fst n'" by (cases n) auto
    obtain k v where p: "p = (k, v)" by force
    obtain w where q: "q = (k, w)" using n(2) p by (cases q) auto
    have vw: "v = w" using Cons.prems(3) unfolding n p q by (metis map_of_Cons_code(2) option.inject)
    have "map_of m = map_of n'"
    proof
      fix j
      have "j \<noteq> k \<Longrightarrow> map_of m j = map_of n' j"
        using Cons.prems(3) unfolding n p q by (metis map_of_Cons_code(2))
      moreover have "map_of m k = None" "map_of n' k = None"
        using Cons.prems(2) n(3) p by (auto simp: map_of_eq_None_iff simp flip: set_map)
      ultimately show "map_of m j = map_of n' j" by (cases "j = k") auto
    qed
      moreover have "distinct (List.map fst m)" using Cons.prems(2) by simp
    ultimately have "m = n'" using Cons.IH n(3) by blast
    then show ?case using vw unfolding n p q by simp
  qed simp
qed

lemma keys_gm_put: "List.map fst (gm_put k v m) = add_new (List.map fst m) [k]"
  by (simp add: gm_put_def AList.update_keys)

lemma copy_into_simps [simp]:
  "copy_into dst [] = dst"
  "copy_into dst ((k, v) # src) = copy_into (gm_put k v dst) src"
  by (simp_all add: copy_into_def)

lemma keys_copy_into: "List.map fst (copy_into dst src) = add_new (List.map fst dst) (List.map fst src)"
proof (induction src arbitrary: dst)
  case (Cons p src)
  then show ?case by (cases p) (simp add: keys_gm_put)
qed simp

lemma gm_ok_copy_into: "gm_ok dst \<Longrightarrow> gm_ok (copy_into dst src)"
  by (simp add: gm_ok_def keys_copy_into distinct_add_new)

lemma get_copy_into:
  "gm_ok src \<Longrightarrow> gm_get (copy_into dst src) k = (case gm_get src k of None \<Rightarrow> gm_get dst k | Some v \<Rightarrow> Some v)"
proof (induction src arbitrary: dst)
  case Nil
  then show ?case by (simp add: gm_get_def)
next
  case (Cons p src)
  obtain j w where p: "p = (j, w)" by force
  have ok: "gm_ok src" "gm_get src j = None" using Cons.prems p by (auto simp: gm_ok_def gm_get_def map_of_eq_None_iff simp flip: set_map)
  have c: "gm_get (p # src) k = (if k = j then Some w else gm_get src k)" using p by (simp add: gm_get_def)
  show ?case unfolding c using Cons.IH [OF ok(1), of "gm_put j w dst"] ok(2) p
    by (auto simp: gm.get_put split: option.split)
qed

lemma copy_into_copies:
  assumes "gm_ok src"
  shows "copy_into gm_empty src = src"
proof (rule gm_eqI)
  show "List.map fst (copy_into gm_empty src) = List.map fst src"
    using assms by (simp add: keys_copy_into add_new_fresh gm_ok_def gm_empty_def)
  show "gm_ok (copy_into gm_empty src)" by (simp add: gm_ok_copy_into gm.ok_empty)
  show "gm_get (copy_into gm_empty src) k = gm_get src k" for k
    by (simp add: get_copy_into assms gm.get_empty split: option.split)
qed

lemma mergeMaps_laws:
  assumes "gm_ok base" and "gm_ok overlay"
  shows "gm_get (mergeMaps base overlay) k = (case gm_get overlay k of None \<Rightarrow> gm_get base k | Some v \<Rightarrow> Some v)"
    and "gm_ok (mergeMaps base overlay)"
    and "List.map fst (mergeMaps base overlay) = add_new [] (List.map fst base @ List.map fst overlay)"
  using assms by (simp_all add: mergeMaps_def copy_into_copies get_copy_into gm_ok_copy_into keys_copy_into
      add_new_append gm_ok_def add_new_fresh distinct_add_new)

lemma mergeMaps_assoc:
  assumes "gm_ok a" and "gm_ok b" and "gm_ok c"
  shows "mergeMaps (mergeMaps a b) c = mergeMaps a (mergeMaps b c)"
  by (rule gm_eqI) (simp_all add: assms mergeMaps_laws add_new_assoc split: option.split)

lemma append_hooks_simps [simp]:
  "append_hooks dst [] = dst"
  "append_hooks dst ((k, v) # src) = append_hooks (gm_put k (hooks_at dst k @ v) dst) src"
  by (simp_all add: append_hooks_def)

lemma keys_append_hooks: "List.map fst (append_hooks dst src) = add_new (List.map fst dst) (List.map fst src)"
proof (induction src arbitrary: dst)
  case (Cons p src)
  then show ?case by (cases p) (simp add: keys_gm_put)
qed simp

lemma get_append_hooks:
  "gm_ok src \<Longrightarrow> gm_get (append_hooks dst src) k =
     (case gm_get src k of None \<Rightarrow> gm_get dst k | Some v \<Rightarrow> Some (hooks_at dst k @ v))"
proof (induction src arbitrary: dst)
  case Nil
  then show ?case by (simp add: gm_get_def)
next
  case (Cons p src)
  obtain j w where p: "p = (j, w)" by force
  have ok: "gm_ok src" "gm_get src j = None" using Cons.prems p by (auto simp: gm_ok_def gm_get_def map_of_eq_None_iff simp flip: set_map)
  have c: "gm_get (p # src) k = (if k = j then Some w else gm_get src k)" using p by (simp add: gm_get_def)
  show ?case unfolding c using Cons.IH [OF ok(1), of "gm_put j (hooks_at dst j @ w) dst"] ok(2) p
    by (auto simp: gm.get_put hooks_at_def split: option.split)
qed

lemma mergeHooks_laws:
  assumes "gm_ok base" and "gm_ok overlay"
  shows "hooks_at (mergeHooks base overlay) k = hooks_at base k @ hooks_at overlay k"
    and "gm_get (mergeHooks base overlay) k = None \<longleftrightarrow> gm_get base k = None \<and> gm_get overlay k = None"
    and "gm_ok (mergeHooks base overlay)"
    and "List.map fst (mergeHooks base overlay) = add_new [] (List.map fst base @ List.map fst overlay)"
  using assms
  by (simp_all add: mergeHooks_def copy_into_copies get_append_hooks keys_append_hooks gm_ok_def distinct_add_new
      add_new_append add_new_fresh hooks_at_def split: option.split)

lemma gm_get_hooks_at: "gm_get m k = (if gm_get m k = None then None else Some (hooks_at m k))"
  by (simp add: hooks_at_def split: option.split)

lemma mergeHooks_assoc:
  assumes "gm_ok a" and "gm_ok b" and "gm_ok c"
  shows "mergeHooks (mergeHooks a b) c = mergeHooks a (mergeHooks b c)"
proof (rule gm_eqI)
  fix k
  show "gm_get (mergeHooks (mergeHooks a b) c) k = gm_get (mergeHooks a (mergeHooks b c)) k"
    by (subst (1 2) gm_get_hooks_at) (simp add: assms mergeHooks_laws)
qed (simp_all add: assms mergeHooks_laws add_new_assoc)

lemma coalesce_assoc:
  "coalesce c (coalesce b a) = coalesce (coalesce c b) a"
  "coalesceInt k (coalesceInt j i) = coalesceInt (coalesceInt k j) i"
  "coalesceBool z (coalesceBool y x) = coalesceBool (coalesceBool z y) x"
  "coalesceTokenLimit n (coalesceTokenLimit m l) = coalesceTokenLimit (coalesceTokenLimit n m) l"
  by (auto simp: coalesce_def coalesceInt_def coalesceBool_def coalesceTokenLimit_def)

lemma nested_merges_assoc:
  "mergeAutoPilot (mergeAutoPilot a b) c = mergeAutoPilot a (mergeAutoPilot b c)"
  "mergeSelfLearn (mergeSelfLearn d e) f = mergeSelfLearn d (mergeSelfLearn e f)"
  "mergePermissions (mergePermissions p q) r = mergePermissions p (mergePermissions q r)"
  by (simp_all add: mergeAutoPilot_def mergeSelfLearn_def mergePermissions_def coalesce_assoc
      mergeStringSlices_assoc)

definition maps_ok :: "Data \<Rightarrow> bool" where
  "maps_ok s \<longleftrightarrow> gm_ok (da_Hooks s) \<and> gm_ok (da_Env s) \<and> gm_ok (da_EnabledPlugins s) \<and> gm_ok (da_DisabledTools s)
     \<and> gm_ok (da_SubagentModels s) \<and> (\<forall>hooks \<in> set (gm_vals (da_Hooks s)). \<forall>h \<in> set hooks. \<forall>c \<in> set (hk_Hooks h).
         gm_ok (hc_Headers c))"

text \<open>
  The levels of the settings may be merged from either end: the merge of three levels does not depend on
  how they are bracketed.
\<close>

lemma merge_data_assoc:
  assumes "maps_ok a" and "maps_ok b" and "maps_ok c"
  shows "merge_data (merge_data a b) c = merge_data a (merge_data b c)"
  using assms by (simp add: merge_data_def maps_ok_def mergeMaps_assoc mergeHooks_assoc nested_merges_assoc
      mergeStringSlices_assoc coalesce_assoc)

text \<open>Cloning copies: no field is forgotten.\<close>

lemma clone_hooks_copies:
  "\<forall>h \<in> set hooks. \<forall>c \<in> set (hk_Hooks h). gm_ok (hc_Headers c) \<Longrightarrow> clone_hooks hooks = hooks"
  by (auto simp: clone_hooks_def copy_into_copies intro!: map_idI Hook_entry.equality HookCmd.equality)

lemma Clone_copies:
  assumes "maps_ok s"
  shows "Clone (Some s) = s"
proof -
  have "List.map (\<lambda>(event, hooks). (event, clone_hooks hooks)) (da_Hooks s) = da_Hooks s"
    using assms by (auto simp: maps_ok_def gm_vals_def intro!: map_idI clone_hooks_copies)
  then show ?thesis
    using assms by (simp add: Clone_def clone_data_def maps_ok_def copy_into_copies)
qed

lemma NewData_ok: "maps_ok NewData"
  by (simp add: maps_ok_def NewData_def gm.ok_empty) (simp add: gm_empty_def gm_vals_def)

subsection \<open>What a merge keeps\<close>

lemma merge_data_rules:
  "set (Deny (da_Permissions (merge_data a b))) = set (Deny (da_Permissions a)) \<union> set (Deny (da_Permissions b))"
  "set (Ask (da_Permissions (merge_data a b))) = set (Ask (da_Permissions a)) \<union> set (Ask (da_Permissions b))"
  "set (Allow (da_Permissions (merge_data a b))) = set (Allow (da_Permissions a)) \<union> set (Allow (da_Permissions b))"
  by (simp_all add: merge_data_def mergePermissions_def)

text \<open>The merge does not know four fields, so that no level can set them.\<close>

lemma merge_data_forgets:
  "da_StreamFirstChunkTimeout (merge_data a b) = []"
  "da_StreamIdleTimeout (merge_data a b) = []"
  "da_HookUITimeout (merge_data a b) = []"
  "da_SubagentDefaultModelForWrite (merge_data a b) = []"
  by (simp_all add: merge_data_def NewData_def)

text \<open>
  A persona can add deny and ask rules and cannot take one away; but its allow rules are added as well, so
  that it can loosen what the levels below put to the user.
\<close>

lemma persona_rules:
  assumes "maps_ok ov" and "ApplyPersonaOverlay (Some base) (Some ov) = Some s"
  shows "set (Deny (da_Permissions s)) = set (Deny (da_Permissions base)) \<union> set (Deny (da_Permissions ov))
    \<and> set (Ask (da_Permissions s)) = set (Ask (da_Permissions base)) \<union> set (Ask (da_Permissions ov))
    \<and> set (Allow (da_Permissions s)) = set (Allow (da_Permissions base)) \<union> set (Allow (da_Permissions ov))
    \<and> da_Persona s = da_Persona base"
  using assms
  by (auto simp: ApplyPersonaOverlay_def mergeSettings_def Clone_copies merge_data_rules)
     (simp_all add: merge_data_def coalesce_def)

subsection \<open>Self-learning\<close>

text \<open>What is written is read back; what an old file says without the marker is that nothing is allowed.\<close>

lemma skills_roundtrip: "UnmarshalJSON_skills (MarshalJSON_skills s) = s"
  by (cases s) (simp add: UnmarshalJSON_skills_def MarshalJSON_skills_def Let_def skills_Active_def AllowCreate_def
      AllowUpdate_def AllowDelete_def)

lemma legacy_skills_are_off: "\<not> ws_Enabled w \<Longrightarrow> \<not> skills_Active (UnmarshalJSON_skills w)"
  by (simp add: UnmarshalJSON_skills_def skills_Active_def AllowCreate_def AllowUpdate_def AllowDelete_def)

lemma valid_iff: "SelfLearn_Validate s = None \<longleftrightarrow>
    0 \<le> slm_MaxKB (sl_Memory s) \<and> slm_MaxKB (sl_Memory s) \<le> 25
    \<and> (sls_DenyUpdate (sl_Skills s) \<longrightarrow> sls_DenyCreate (sl_Skills s))"
  by (auto simp: SelfLearn_Validate_def SelfLearnMaxMemoryKB_def AllowCreate_def AllowUpdate_def)

text \<open>Validity survives the merge of levels and bounds the size of the memory files.\<close>

lemma merged_self_learn_is_valid:
  assumes "SelfLearn_Validate a = None" and "SelfLearn_Validate b = None"
  shows "SelfLearn_Validate (mergeSelfLearn a b) = None"
    and "1 \<le> ResolvedMaxKB (sl_Memory (mergeSelfLearn a b)) \<and> ResolvedMaxKB (sl_Memory (mergeSelfLearn a b)) \<le> 25"
  using assms
  by (auto simp: valid_iff mergeSelfLearn_def coalesceInt_def ResolvedMaxKB_def SelfLearnMaxMemoryKB_def)

subsection \<open>Autopilot\<close>

text \<open>
  Engaging and stopping never touch the permission steer; engaging lifts the cap, and a stopped run no
  longer answers questions nor continues a turn.
\<close>

lemma driving_keeps_permission:
  "PermissionOn (ap_Steers (EngageDriving a)) = PermissionOn (ap_Steers a)"
  "PermissionOn (ap_Steers (StopDriving a)) = PermissionOn (ap_Steers a)"
  by (simp_all add: EngageDriving_def StopDriving_def PermissionOn_def)

lemma driving_steers:
  "ContinuationsUnlimited (EngageDriving a)"
  "\<not> steer_Question (ap_Steers (StopDriving a))"
  "\<not> steer_TurnEnd (ap_Steers (StopDriving a))"
  "\<not> SuggestOn (ap_Steers (StopDriving a))"
  by (simp_all add: EngageDriving_def StopDriving_def ContinuationsUnlimited_def
      AutoPilotUnlimitedContinuations_def SuggestOn_def)

text \<open>An explicit off of one level is kept unless a higher level says on; a plain steer can only be added.\<close>

lemma autopilot_merge_steers:
  "steer_Permission (ap_Steers ov) = Some v \<Longrightarrow> steer_Permission (ap_Steers (mergeAutoPilot b ov)) = Some v"
  "steer_Permission (ap_Steers ov) = None \<Longrightarrow>
     steer_Permission (ap_Steers (mergeAutoPilot b ov)) = steer_Permission (ap_Steers b)"
  "steer_Skill (ap_Steers (mergeAutoPilot b ov)) \<longleftrightarrow> steer_Skill (ap_Steers ov) \<or> steer_Skill (ap_Steers b)"
  by (simp_all add: mergeAutoPilot_def coalesceBool_def)

end
