(* ===== verification/ConfigStore.thy ===== *)
theory ConfigStore
  imports Config
begin

text \<open>
  The files of the settings (\<open>setting/loader.go\<close>) and the live handle over them (\<open>setting/service.go\<close>).
  JSON is structural: a file is absent, holds the data, or cannot be decoded, and then still leaves what
  the decoder had filled in before it gave up.  The home and working directories and the outcome of a
  write are the environment; a read and the write that follows it are one step.  The nil handle and the
  zero value of a Go map are those of \<open>Config\<close>.

  The theorems: the files are merged in the order of their priority and no rule of a readable file is
  lost; which hooks an event has; what a saved rule does; and the fields that no file can set.
\<close>

subsection \<open>Files\<close>

datatype config_file = NoFile | BadFile Data | GoodFile Data

record conf_env =
  ce_Home :: string
  ce_Cwd :: string
  ce_write_error :: "string \<Rightarrow> string option"

record conf_world =
  cw_files :: "string \<Rightarrow> config_file"
  cw_loaded :: "Data option"

definition resolve_path :: "conf_env \<Rightarrow> string \<Rightarrow> string" where
  "resolve_path E p = (if is_abs p then p else path_join (ce_Cwd E) p)"

definition read_config :: "conf_env \<Rightarrow> conf_world \<Rightarrow> string \<Rightarrow> config_file" where
  "read_config E w p = cw_files w (resolve_path E p)"

definition WriteJSON :: "conf_env \<Rightarrow> string \<Rightarrow> Data \<Rightarrow> conf_world \<Rightarrow> string option \<times> conf_world" where
  "WriteJSON E p d w =
     (case ce_write_error E p of
        Some err \<Rightarrow> (Some err, w)
      | None \<Rightarrow> (None, w\<lparr>cw_files := (cw_files w)(resolve_path E p := GoodFile d)\<rparr>))"

definition config_dir :: "string \<Rightarrow> string" where
  "config_dir root = path_join root ''.pcb''"

subsection \<open>The loader\<close>

record Loader =
  lo_userDir :: string
  lo_projectDir :: string
  lo_projectRoot :: string
  lo_claudeCompat :: bool

definition user_dir :: "conf_env \<Rightarrow> string" where
  "user_dir E = (if ce_Home E \<noteq> [] then config_dir (ce_Home E) else [])"

definition NewLoader :: "conf_env \<Rightarrow> Loader" where
  "NewLoader E = \<lparr>lo_userDir = user_dir E, lo_projectDir = config_dir ''.'', lo_projectRoot = ''.'', lo_claudeCompat = True\<rparr>"

definition NewLoaderWithOptions :: "string \<Rightarrow> string \<Rightarrow> bool \<Rightarrow> Loader" where
  "NewLoaderWithOptions userDir projectDir claudeCompat =
     \<lparr>lo_userDir = userDir, lo_projectDir = projectDir, lo_projectRoot = path_dir projectDir, lo_claudeCompat = claudeCompat\<rparr>"

definition NewLoaderForCwd :: "conf_env \<Rightarrow> string \<Rightarrow> Loader" where
  "NewLoaderForCwd E cwd =
     \<lparr>lo_userDir = user_dir E, lo_projectDir = config_dir cwd, lo_projectRoot = cwd, lo_claudeCompat = True\<rparr>"

definition settings_json :: "string \<Rightarrow> string" where
  "settings_json dir = path_join dir ''settings.json''"

definition claude_json :: "string \<Rightarrow> string \<Rightarrow> string" where
  "claude_json root name = path_join (path_join root ''.claude'') name"

definition load_sources :: "conf_env \<Rightarrow> Loader \<Rightarrow> (string \<times> bool) list" where
  "load_sources E l =
     (if lo_claudeCompat l \<and> ce_Home E \<noteq> [] then [(claude_json (ce_Home E) ''settings.json'', True)] else [])
     @ (if lo_userDir l \<noteq> [] then [(settings_json (lo_userDir l), False)] else [])
     @ (if lo_claudeCompat l then [(claude_json (lo_projectRoot l) ''settings.json'', True)] else [])
     @ [(settings_json (lo_projectDir l), False)]
     @ (if lo_claudeCompat l then [(claude_json (lo_projectRoot l) ''settings.local.json'', True)] else [])
     @ [(path_join (lo_projectDir l) ''settings.local.json'', False)]"

text \<open>The state of the loop over the sources: the settings so far, and the hooks by their origin.\<close>

record load_state =
  ls_settings :: Data
  ls_claude :: "(string, Hook_entry list) gomap"
  ls_native :: "(string, Hook_entry list) gomap"

definition load_source :: "Data \<times> bool \<Rightarrow> load_state \<Rightarrow> load_state" where
  "load_source src st =
     (let (s, claudeCompat) = src; srcHooks = da_Hooks s;
          st = st\<lparr>ls_settings := merge_data (ls_settings st) (s\<lparr>da_Hooks := gm_empty\<rparr>)\<rparr>
      in if claudeCompat then st\<lparr>ls_claude := append_hooks (ls_claude st) srcHooks\<rparr>
         else st\<lparr>ls_native := copy_into (ls_native st) srcHooks\<rparr>)"

definition readable :: "conf_env \<Rightarrow> conf_world \<Rightarrow> (string \<times> bool) list \<Rightarrow> (Data \<times> bool) list" where
  "readable E w srcs =
     concat (List.map (\<lambda>(path, claude). case read_config E w path of GoodFile s \<Rightarrow> [(s, claude)] | _ \<Rightarrow> []) srcs)"

definition merge_loaded_hooks ::
    "(string, Hook_entry list) gomap \<Rightarrow> (string, Hook_entry list) gomap \<Rightarrow> (string, Hook_entry list) gomap" where
  "merge_loaded_hooks claude native =
     (let merged = foldl (\<lambda>m (event, hooks).
            if event = ''PermissionRequest'' then m
            else if gm_get native event = None then gm_put event hooks m else m) gm_empty claude
      in foldl (\<lambda>m (event, hooks). if hooks \<noteq> [] then gm_put event hooks m else m) merged native)"

definition Load_files :: "conf_env \<Rightarrow> conf_world \<Rightarrow> Loader \<Rightarrow> Data" where
  "Load_files E w l =
     (let st = fold load_source (readable E w (load_sources E l))
                 \<lparr>ls_settings = NewData, ls_claude = gm_empty, ls_native = gm_empty\<rparr>
      in (ls_settings st)\<lparr>da_Hooks := merge_loaded_hooks (ls_claude st) (ls_native st)\<rparr>)"

definition LoadFile :: "conf_env \<Rightarrow> conf_world \<Rightarrow> string \<Rightarrow> Data option" where
  "LoadFile E w path = (case read_config E w path of GoodFile s \<Rightarrow> Some s | _ \<Rightarrow> None)"

subsection \<open>Saving through the merge\<close>

definition saveToFile :: "conf_env \<Rightarrow> string \<Rightarrow> Data \<Rightarrow> conf_world \<Rightarrow> string option \<times> conf_world" where
  "saveToFile E path settings w =
     (let toSave = (case read_config E w path of GoodFile existing \<Rightarrow> merge_data existing settings | _ \<Rightarrow> settings)
      in WriteJSON E path toSave w)"

definition SaveToProject :: "conf_env \<Rightarrow> Loader \<Rightarrow> Data \<Rightarrow> conf_world \<Rightarrow> string option \<times> conf_world" where
  "SaveToProject E l settings w = saveToFile E (settings_json (lo_projectDir l)) settings w"

definition SaveToUser :: "conf_env \<Rightarrow> Loader \<Rightarrow> Data \<Rightarrow> conf_world \<Rightarrow> string option \<times> conf_world" where
  "SaveToUser E l settings w = saveToFile E (settings_json (lo_userDir l)) settings w"

subsection \<open>The cache of the process\<close>

definition Load_cached :: "conf_env \<Rightarrow> conf_world \<Rightarrow> Data \<times> conf_world" where
  "Load_cached E w =
     (case cw_loaded w of
        Some s \<Rightarrow> (s, w)
      | None \<Rightarrow> (let s = Load_files E w (NewLoader E) in (s, w\<lparr>cw_loaded := Some s\<rparr>)))"

definition Reload_cached :: "conf_env \<Rightarrow> conf_world \<Rightarrow> Data \<times> conf_world" where
  "Reload_cached E w = (let s = Load_files E w (NewLoader E) in (s, w\<lparr>cw_loaded := Some s\<rparr>))"

definition LoadForCwd :: "conf_env \<Rightarrow> conf_world \<Rightarrow> string \<Rightarrow> Data" where
  "LoadForCwd E w cwd = Load_files E w (NewLoaderForCwd E cwd)"

definition drop_loaded :: "string option \<times> conf_world \<Rightarrow> string option \<times> conf_world" where
  "drop_loaded r = (case r of (None, w) \<Rightarrow> (None, w\<lparr>cw_loaded := None\<rparr>) | (Some err, w) \<Rightarrow> (Some err, w))"

subsection \<open>Replacing one block of a file\<close>

definition level_path :: "conf_env \<Rightarrow> bool \<Rightarrow> string" where
  "level_path E userLevel = settings_json (if userLevel then lo_userDir (NewLoader E) else lo_projectDir (NewLoader E))"

definition decoded :: "config_file \<Rightarrow> Data" where
  "decoded f = (case f of NoFile \<Rightarrow> NewData | BadFile partial \<Rightarrow> partial | GoodFile s \<Rightarrow> s)"

definition updateSettingsFile :: "conf_env \<Rightarrow> bool \<Rightarrow> (Data \<Rightarrow> Data) \<Rightarrow> conf_world \<Rightarrow> string option \<times> conf_world" where
  "updateSettingsFile E userLevel mutate w =
     (let path = level_path E userLevel
      in drop_loaded (WriteJSON E path (mutate (decoded (read_config E w path))) w))"

definition UpdateDisabledToolsAt :: "conf_env \<Rightarrow> (string, bool) gomap \<Rightarrow> bool \<Rightarrow> conf_world \<Rightarrow> string option \<times> conf_world" where
  "UpdateDisabledToolsAt E tools userLevel = updateSettingsFile E userLevel (\<lambda>d. d\<lparr>da_DisabledTools := tools\<rparr>)"

definition UpdateSelfLearnAt :: "conf_env \<Rightarrow> SelfLearnSettings \<Rightarrow> bool \<Rightarrow> conf_world \<Rightarrow> string option \<times> conf_world" where
  "UpdateSelfLearnAt E cfg userLevel w =
     (case SelfLearn_Validate cfg of
        Some err \<Rightarrow> (Some err, w)
      | None \<Rightarrow> updateSettingsFile E userLevel (\<lambda>d. d\<lparr>da_SelfLearn := cfg\<rparr>) w)"

definition UpdateAutoPilotAt :: "conf_env \<Rightarrow> AutoPilotSettings \<Rightarrow> bool \<Rightarrow> conf_world \<Rightarrow> string option \<times> conf_world" where
  "UpdateAutoPilotAt E cfg userLevel = updateSettingsFile E userLevel (\<lambda>d. d\<lparr>da_AutoPilot := cfg\<rparr>)"

definition UpdateLastOperationMode :: "conf_env \<Rightarrow> OperationMode \<Rightarrow> conf_world \<Rightarrow> string option \<times> conf_world" where
  "UpdateLastOperationMode E mode = updateSettingsFile E True (\<lambda>d. d\<lparr>da_LastOperationMode := PersistenceName mode\<rparr>)"

definition inherits :: "string \<Rightarrow> bool" where
  "inherits model \<longleftrightarrow> model = [] \<or> model = ''inherit''"

definition UpdateSubagentDefaultModel :: "conf_env \<Rightarrow> string \<Rightarrow> bool \<Rightarrow> conf_world \<Rightarrow> string option \<times> conf_world" where
  "UpdateSubagentDefaultModel E model userLevel =
     updateSettingsFile E userLevel (\<lambda>d. d\<lparr>da_SubagentDefaultModel := (if inherits model then [] else model)\<rparr>)"

definition UpdateSubagentDefaultModelForWrite :: "conf_env \<Rightarrow> string \<Rightarrow> bool \<Rightarrow> conf_world \<Rightarrow> string option \<times> conf_world" where
  "UpdateSubagentDefaultModelForWrite E model userLevel =
     updateSettingsFile E userLevel (\<lambda>d. d\<lparr>da_SubagentDefaultModelForWrite := (if inherits model then [] else model)\<rparr>)"

definition UpdateVisionModel :: "conf_env \<Rightarrow> string \<Rightarrow> bool \<Rightarrow> conf_world \<Rightarrow> string option \<times> conf_world" where
  "UpdateVisionModel E model userLevel =
     updateSettingsFile E userLevel (\<lambda>d. d\<lparr>da_VisionModel := (if inherits model then [] else model)\<rparr>)"

definition UpdateSubagentModelAt :: "conf_env \<Rightarrow> string \<Rightarrow> string \<Rightarrow> bool \<Rightarrow> conf_world \<Rightarrow> string option \<times> conf_world" where
  "UpdateSubagentModelAt E name model userLevel =
     updateSettingsFile E userLevel (\<lambda>d. d\<lparr>da_SubagentModels :=
       (if inherits model then gm_del name (da_SubagentModels d) else gm_put name model (da_SubagentModels d))\<rparr>)"

definition UpdateTokenLimitFor :: "conf_env \<Rightarrow> string \<Rightarrow> TokenLimitOverride \<Rightarrow> bool \<Rightarrow> conf_world \<Rightarrow> string option \<times> conf_world" where
  "UpdateTokenLimitFor E role limit userLevel =
     updateSettingsFile E userLevel (\<lambda>d.
       let limit = (if tl_InputTokenLimit limit \<le> 0 \<and> tl_OutputTokenLimit limit \<le> 0 then no_limit else limit)
       in if role = ''agent'' then d\<lparr>da_AgentTokenLimit := limit\<rparr> else d\<lparr>da_MainTokenLimit := limit\<rparr>)"

subsection \<open>Names of presets\<close>

definition sanitizePresetName :: "string \<Rightarrow> string" where
  "sanitizePresetName name =
     (let name = path_base (trim_suffix (trim_space name) ''.json'')
      in if name = ''.'' \<or> name = ''..'' \<or> name = ''/'' then [] else name)"

subsection \<open>Tools that ship disabled\<close>

definition defaultDisabledTools :: "(string, bool) gomap" where
  "defaultDisabledTools = [(''Cron'', True), (''TaskCreate'', True), (''TaskGet'', True), (''TaskUpdate'', True),
     (''SendMessage'', True), (''AgentStop'', True)]"

definition IsDefaultDisabledTool :: "string \<Rightarrow> bool" where
  "IsDefaultDisabledTool name \<longleftrightarrow> gm_get defaultDisabledTools name = Some True"

definition WithDefaultDisabledTools :: "(string, bool) gomap \<Rightarrow> (string, bool) gomap" where
  "WithDefaultDisabledTools explicit =
     (let result = copy_into (copy_into gm_empty defaultDisabledTools) explicit
      in filter (\<lambda>(name, disabled). disabled) result)"

definition GetDisabledTools :: "conf_env \<Rightarrow> conf_world \<Rightarrow> (string, bool) gomap \<times> conf_world" where
  "GetDisabledTools E w = (let (s, w) = Load_cached E w in (WithDefaultDisabledTools (da_DisabledTools s), w))"

definition GetDisabledToolsAt :: "conf_env \<Rightarrow> bool \<Rightarrow> conf_world \<Rightarrow> (string, bool) gomap" where
  "GetDisabledToolsAt E userLevel w =
     (case LoadFile E w (level_path E userLevel) of None \<Rightarrow> gm_empty | Some s \<Rightarrow> copy_into gm_empty (da_DisabledTools s))"

subsection \<open>Rules, persona and appearance\<close>

definition loader_for :: "conf_env \<Rightarrow> string \<Rightarrow> Loader" where
  "loader_for E cwd = (if cwd \<noteq> [] then NewLoaderForCwd E cwd else NewLoader E)"

definition PersonaAt :: "conf_env \<Rightarrow> string \<Rightarrow> bool \<Rightarrow> conf_world \<Rightarrow> string" where
  "PersonaAt E cwd userLevel w =
     (let l = loader_for E cwd; dir = (if userLevel then lo_userDir l else lo_projectDir l)
      in if dir = [] then []
         else case LoadFile E w (settings_json dir) of None \<Rightarrow> [] | Some s \<Rightarrow> da_Persona s)"

definition allow_rule_data :: "string \<Rightarrow> Data" where
  "allow_rule_data rule = NewData\<lparr>da_Permissions := \<lparr>DefaultMode = [], Allow = [rule], Deny = [], Ask = []\<rparr>\<rparr>"

definition AddAllowRuleDirectlyAt :: "conf_env \<Rightarrow> string \<Rightarrow> string \<Rightarrow> conf_world \<Rightarrow> string option \<times> conf_world" where
  "AddAllowRuleDirectlyAt E rule cwd w =
     (if rule = [] then (None, w)
      else let l = loader_for E cwd
           in case LoadFile E w (settings_json (lo_projectDir l)) of
                Some existing \<Rightarrow>
                  if rule \<in> set (Allow (da_Permissions existing)) then (None, w)
                  else drop_loaded (SaveToProject E l (allow_rule_data rule) w)
              | None \<Rightarrow> drop_loaded (SaveToProject E l (allow_rule_data rule) w))"

definition AddAllowRuleAt :: "sys_env \<Rightarrow> conf_env \<Rightarrow> string \<Rightarrow> tool_args \<Rightarrow> string \<Rightarrow> conf_world \<Rightarrow> string option \<times> conf_world" where
  "AddAllowRuleAt S E toolName args cwd = AddAllowRuleDirectlyAt E (BuildRule S toolName args) cwd"

definition LoadTheme :: "conf_env \<Rightarrow> conf_world \<Rightarrow> string \<times> conf_world" where
  "LoadTheme E w = (let (s, w) = Load_cached E w in (da_Theme s, w))"

definition SaveTheme :: "conf_env \<Rightarrow> string \<Rightarrow> conf_world \<Rightarrow> string option \<times> conf_world" where
  "SaveTheme E t w = drop_loaded (SaveToUser E (NewLoader E) (NewData\<lparr>da_Theme := t\<rparr>) w)"

definition SaveContextBar :: "conf_env \<Rightarrow> bool \<Rightarrow> conf_world \<Rightarrow> string option \<times> conf_world" where
  "SaveContextBar E on w = drop_loaded (SaveToUser E (NewLoader E) (NewData\<lparr>da_ContextBar := Some on\<rparr>) w)"

definition SaveBypassEnabled :: "conf_env \<Rightarrow> bool \<Rightarrow> conf_world \<Rightarrow> string option \<times> conf_world" where
  "SaveBypassEnabled E on w = drop_loaded (SaveToUser E (NewLoader E) (NewData\<lparr>da_BypassEnabled := Some on\<rparr>) w)"

definition SavePersonaAt :: "conf_env \<Rightarrow> string \<Rightarrow> string \<Rightarrow> bool \<Rightarrow> conf_world \<Rightarrow> string option \<times> conf_world" where
  "SavePersonaAt E cwd name userLevel w =
     (let l = loader_for E cwd; dir = (if userLevel then lo_userDir l else lo_projectDir l)
      in if dir = [] then (Some ''file does not exist'', w)
         else drop_loaded (WriteJSON E (settings_json dir)
                ((decoded (read_config E w (settings_json dir)))\<lparr>da_Persona := name\<rparr>) w))"

subsection \<open>The live handle\<close>

text \<open>The search provider of \<open>providers.json\<close>, which belongs to another package, is a parameter.\<close>

definition mergeProviderPreferences :: "string option \<Rightarrow> Data \<Rightarrow> Data" where
  "mergeProviderPreferences provider s =
     (if da_SearchProvider s \<noteq> [] then s
      else case provider of None \<Rightarrow> s | Some p \<Rightarrow> s\<lparr>da_SearchProvider := p\<rparr>)"

text \<open>Without a directory the settings are those of the cache, and the preferences are written into them.\<close>

definition load_live :: "conf_env \<Rightarrow> string option \<Rightarrow> string \<Rightarrow> conf_world \<Rightarrow> Data \<times> conf_world" where
  "load_live E provider cwd w =
     (if cwd \<noteq> [] then (mergeProviderPreferences provider (LoadForCwd E w cwd), w)
      else let (s, w) = Load_cached E w; s = mergeProviderPreferences provider s
           in (s, w\<lparr>cw_loaded := Some s\<rparr>))"

definition InitForApp :: "conf_env \<Rightarrow> string option \<Rightarrow> string \<Rightarrow> conf_world \<Rightarrow> Data \<times> conf_world" where
  "InitForApp E provider cwd w = (let (s, w) = load_live E provider cwd w in (Clone (Some s), w))"

definition Settings_Reload :: "conf_env \<Rightarrow> string option \<Rightarrow> string \<Rightarrow> Data option \<Rightarrow> conf_world \<Rightarrow> Data option \<times> conf_world" where
  "Settings_Reload E provider cwd live w = (let (s, w) = load_live E provider cwd w in (Some (Clone (Some s)), w))"

definition AllowBypass :: "Data option \<Rightarrow> bool" where
  "AllowBypass live \<longleftrightarrow> (case live of None \<Rightarrow> True | Some s \<Rightarrow> da_AllowBypass s = None \<or> da_AllowBypass s = Some True)"

definition Settings_DisabledTools :: "Data option \<Rightarrow> (string, bool) gomap" where
  "Settings_DisabledTools live =
     (case live of None \<Rightarrow> WithDefaultDisabledTools gm_empty | Some s \<Rightarrow> WithDefaultDisabledTools (da_DisabledTools s))"

definition SetSearchProvider :: "string \<Rightarrow> Data option \<Rightarrow> Data option" where
  "SetSearchProvider provider live = map_option (\<lambda>s. s\<lparr>da_SearchProvider := provider\<rparr>) live"

definition Settings_HasPermissionToUseTool ::
    "sys_env \<Rightarrow> Data option \<Rightarrow> string \<Rightarrow> tool_args \<Rightarrow> SessionPermissions option \<Rightarrow> PermissionDecision" where
  "Settings_HasPermissionToUseTool S live toolName args session =
     (case live of
        None \<Rightarrow> decide Prompt ''default: no settings loaded''
      | Some s \<Rightarrow> HasPermissionToUseTool S (da_Permissions s) toolName args session)"

definition Settings_ResolveHookAllow ::
    "sys_env \<Rightarrow> Data option \<Rightarrow> string \<Rightarrow> tool_args \<Rightarrow> SessionPermissions option \<Rightarrow> bool" where
  "Settings_ResolveHookAllow S live toolName args session =
     (case live of None \<Rightarrow> True | Some s \<Rightarrow> ResolveHookAllow S (da_Permissions s) toolName args session)"

subsection \<open>What the loop over the sources computes\<close>

definition without_hooks :: "Data \<Rightarrow> Data" where
  "without_hooks s = s\<lparr>da_Hooks := gm_empty\<rparr>"

definition merge_all :: "Data list \<Rightarrow> Data" where
  "merge_all ss = foldl (\<lambda>acc s. merge_data acc (without_hooks s)) NewData ss"

definition claude_of :: "(Data \<times> bool) list \<Rightarrow> Data list" where
  "claude_of srcs = List.map fst (filter snd srcs)"

definition native_of :: "(Data \<times> bool) list \<Rightarrow> Data list" where
  "native_of srcs = List.map fst (filter (\<lambda>p. \<not> snd p) srcs)"

lemma load_source_fields:
  "ls_settings (load_source (s, c) st) = merge_data (ls_settings st) (without_hooks s)"
  "ls_claude (load_source (s, c) st) = (if c then append_hooks (ls_claude st) (da_Hooks s) else ls_claude st)"
  "ls_native (load_source (s, c) st) = (if c then ls_native st else copy_into (ls_native st) (da_Hooks s))"
  by (simp_all add: load_source_def Let_def without_hooks_def)

lemma load_fold:
  "ls_settings (fold load_source srcs st) =
     foldl (\<lambda>acc s. merge_data acc (without_hooks s)) (ls_settings st) (List.map fst srcs)"
  "ls_claude (fold load_source srcs st) = foldl append_hooks (ls_claude st) (List.map da_Hooks (claude_of srcs))"
  "ls_native (fold load_source srcs st) = foldl copy_into (ls_native st) (List.map da_Hooks (native_of srcs))"
proof (induction srcs arbitrary: st)
  case (Cons p srcs)
  obtain s c where p: "p = (s, c)" by force
  { case 1 show ?case unfolding p by (simp add: Cons load_source_fields) }
  { case 2 show ?case unfolding p by (simp add: Cons load_source_fields claude_of_def) }
  { case 3 show ?case unfolding p by (simp add: Cons load_source_fields native_of_def) }
qed (simp_all add: claude_of_def native_of_def)

abbreviation loaded_from :: "conf_env \<Rightarrow> conf_world \<Rightarrow> Loader \<Rightarrow> (Data \<times> bool) list" where
  "loaded_from E w l \<equiv> readable E w (load_sources E l)"

lemma Load_files_alt:
  "Load_files E w l = (merge_all (List.map fst (loaded_from E w l)))
     \<lparr>da_Hooks := merge_loaded_hooks (foldl append_hooks gm_empty (List.map da_Hooks (claude_of (loaded_from E w l))))
        (foldl copy_into gm_empty (List.map da_Hooks (native_of (loaded_from E w l))))\<rparr>"
  by (simp add: Load_files_def Let_def load_fold merge_all_def)

lemma merge_all_snoc: "merge_all (ss @ [s]) = merge_data (merge_all ss) (without_hooks s)"
  by (simp add: merge_all_def)

text \<open>The rules of the files are collected, whatever the order.\<close>

lemma merge_all_rules:
  "set (Deny (da_Permissions (merge_all ss))) = (\<Union>s \<in> set ss. set (Deny (da_Permissions s)))"
  "set (Ask (da_Permissions (merge_all ss))) = (\<Union>s \<in> set ss. set (Ask (da_Permissions s)))"
  "set (Allow (da_Permissions (merge_all ss))) = (\<Union>s \<in> set ss. set (Allow (da_Permissions s)))"
  by (induction ss rule: rev_induct)
     (simp_all add: merge_all_snoc merge_data_rules without_hooks_def Un_commute, simp_all add: merge_all_def NewData_def)

lemma Load_files_rules:
  "set (Deny (da_Permissions (Load_files E w l))) = (\<Union>(s, c) \<in> set (loaded_from E w l). set (Deny (da_Permissions s)))"
  "set (Ask (da_Permissions (Load_files E w l))) = (\<Union>(s, c) \<in> set (loaded_from E w l). set (Ask (da_Permissions s)))"
  "set (Allow (da_Permissions (Load_files E w l))) = (\<Union>(s, c) \<in> set (loaded_from E w l). set (Allow (da_Permissions s)))"
  by (auto simp: Load_files_alt merge_all_rules)

text \<open>A field that one level sets and a later one does not keeps its value.\<close>

fun last_set :: "'a \<Rightarrow> 'a list \<Rightarrow> 'a" where
  "last_set unset [] = unset"
| "last_set unset (x # xs) = (if last_set unset xs \<noteq> unset then last_set unset xs else x)"

lemma last_set_snoc: "last_set unset (xs @ [x]) = (if x \<noteq> unset then x else last_set unset xs)"
  by (induction xs) auto

lemma merge_all_fields:
  "da_Model (merge_all ss) = last_set [] (List.map da_Model ss)"
  "da_Theme (merge_all ss) = last_set [] (List.map da_Theme ss)"
  "da_Persona (merge_all ss) = last_set [] (List.map da_Persona ss)"
  "DefaultMode (da_Permissions (merge_all ss)) = last_set [] (List.map (\<lambda>s. DefaultMode (da_Permissions s)) ss)"
  "da_LastOperationMode (merge_all ss) = last_set [] (List.map da_LastOperationMode ss)"
  "da_AllowBypass (merge_all ss) = last_set None (List.map da_AllowBypass ss)"
  "da_BypassEnabled (merge_all ss) = last_set None (List.map da_BypassEnabled ss)"
  "da_TokenLimit (merge_all ss) = last_set 0 (List.map da_TokenLimit ss)"
  by (induction ss rule: rev_induct)
     (simp_all add: merge_all_snoc last_set_snoc without_hooks_def merge_data_def coalesce_def coalesceBool_def
        coalesceInt_def mergePermissions_def, simp_all add: merge_all_def NewData_def)

subsection \<open>Which hooks an event has\<close>

lemma gm_ok_foldl:
  "gm_ok m \<Longrightarrow> gm_ok (foldl copy_into m hs)"
  by (induction hs arbitrary: m) (simp_all add: gm_ok_copy_into)

lemma get_foldl_copy:
  "\<forall>h \<in> set hs. gm_ok h \<Longrightarrow> gm_get (foldl copy_into m hs) k = last_set None (gm_get m k # List.map (\<lambda>h. gm_get h k) hs)"
proof (induction hs rule: rev_induct)
  case (snoc h hs)
  then have "gm_get (foldl copy_into m (hs @ [h])) k
      = last_set None ((gm_get m k # List.map (\<lambda>h. gm_get h k) hs) @ [gm_get h k])"
    by (simp only: last_set_snoc) (simp add: get_copy_into split: option.split)
  then show ?case by simp
qed simp

lemma gm_ok_append_hooks: "gm_ok m \<Longrightarrow> gm_ok (append_hooks m h)"
  by (simp add: gm_ok_def keys_append_hooks distinct_add_new)

lemma gm_ok_foldl_append: "gm_ok m \<Longrightarrow> gm_ok (foldl append_hooks m hs)"
  by (induction hs arbitrary: m) (simp_all add: gm_ok_append_hooks)

lemma hooks_at_append_hooks: "gm_ok src \<Longrightarrow> hooks_at (append_hooks dst src) k = hooks_at dst k @ hooks_at src k"
  by (simp add: hooks_at_def get_append_hooks split: option.split)

lemma hooks_at_foldl_append:
  "\<forall>h \<in> set hs. gm_ok h \<Longrightarrow> hooks_at (foldl append_hooks m hs) k = hooks_at m k @ concat (List.map (\<lambda>h. hooks_at h k) hs)"
  by (induction hs rule: rev_induct) (simp_all add: hooks_at_append_hooks)

lemma get_put_if:
  "gm_ok src \<Longrightarrow> gm_get (foldl (\<lambda>m (k, v). if P k v then gm_put k v m else m) dst src) k =
     (case gm_get src k of None \<Rightarrow> gm_get dst k | Some v \<Rightarrow> if P k v then Some v else gm_get dst k)"
proof (induction src arbitrary: dst)
  case Nil
  then show ?case by (simp add: gm_get_def)
next
  case (Cons p src)
  obtain j w where p: "p = (j, w)" by force
  have ok: "gm_ok src" "gm_get src j = None" using Cons.prems p by (auto simp: gm_ok_def gm_get_def map_of_eq_None_iff simp flip: set_map)
  have c: "gm_get (p # src) k = (if k = j then Some w else gm_get src k)" using p by (simp add: gm_get_def)
  show ?case unfolding c using Cons.IH [OF ok(1), of "if P j w then gm_put j w dst else dst"] ok(2) p
    by (auto simp: gm.get_put split: option.split)
qed

lemma merge_loaded_hooks_alt:
  "merge_loaded_hooks claude native =
     foldl (\<lambda>m (k, v). if v \<noteq> [] then gm_put k v m else m)
       (foldl (\<lambda>m (k, v). if k \<noteq> ''PermissionRequest'' \<and> gm_get native k = None then gm_put k v m else m) gm_empty claude)
       native"
  unfolding merge_loaded_hooks_def Let_def
  by (rule arg_cong [where f = "\<lambda>f. foldl _ (foldl f _ _) _"]) (auto simp: fun_eq_iff)

lemma hooks_at_merged:
  assumes "gm_ok claude" and "gm_ok native"
  shows "hooks_at (merge_loaded_hooks claude native) ev =
     (case gm_get native ev of Some hs \<Rightarrow> hs
      | None \<Rightarrow> if ev = ''PermissionRequest'' then [] else hooks_at claude ev)"
  unfolding merge_loaded_hooks_alt hooks_at_def
  by (simp add: get_put_if [OF assms(1)] get_put_if [OF assms(2)] gm.get_empty split: option.split)

definition hooks_by_origin :: "(Data \<times> bool) list \<Rightarrow> string \<Rightarrow> Hook_entry list" where
  "hooks_by_origin srcs ev =
     (case last_set None (List.map (\<lambda>s. gm_get (da_Hooks s) ev) (native_of srcs)) of
        Some hs \<Rightarrow> hs
      | None \<Rightarrow> if ev = ''PermissionRequest'' then []
                else concat (List.map (\<lambda>s. hooks_at (da_Hooks s) ev) (claude_of srcs)))"

lemma last_set_unset: "last_set unset (unset # xs) = last_set unset xs"
  by simp

text \<open>
  The hooks of an event are those of the last native file that names the event, be it with the empty list;
  if no native file names it, those of all files in the format of Claude, one after the other, except for
  permission requests, which are never taken over.
\<close>

theorem hooks_of_an_event:
  assumes "\<forall>(s, c) \<in> set (loaded_from E w l). maps_ok s"
  shows "hooks_at (da_Hooks (Load_files E w l)) ev = hooks_by_origin (loaded_from E w l) ev"
proof -
  let ?cl = "List.map da_Hooks (claude_of (loaded_from E w l))" and ?na = "List.map da_Hooks (native_of (loaded_from E w l))"
  have ok: "\<forall>h \<in> set ?cl. gm_ok h" "\<forall>h \<in> set ?na. gm_ok h"
    using assms by (auto simp: claude_of_def native_of_def maps_ok_def)
  have "hooks_at (da_Hooks (Load_files E w l)) ev =
      hooks_at (merge_loaded_hooks (foldl append_hooks gm_empty ?cl) (foldl copy_into gm_empty ?na)) ev"
    by (simp add: Load_files_alt)
  also have "\<dots> = (case last_set None (List.map (\<lambda>h. gm_get h ev) ?na) of Some hs \<Rightarrow> hs
      | None \<Rightarrow> if ev = ''PermissionRequest'' then [] else hooks_at (foldl append_hooks gm_empty ?cl) ev)"
    by (simp only: hooks_at_merged gm_ok_foldl_append gm_ok_foldl gm.ok_empty get_foldl_copy [OF ok(2)] gm.get_empty
        last_set_unset)
  also have "hooks_at (foldl append_hooks gm_empty ?cl) ev = concat (List.map (\<lambda>h. hooks_at h ev) ?cl)"
    unfolding hooks_at_foldl_append [OF ok(1)] by (simp add: hooks_at_def gm.get_empty)
  also have "(case last_set None (List.map (\<lambda>h. gm_get h ev) ?na) of Some hs \<Rightarrow> hs
      | None \<Rightarrow> if ev = ''PermissionRequest'' then [] else concat (List.map (\<lambda>h. hooks_at h ev) ?cl))
      = hooks_by_origin (loaded_from E w l) ev"
    unfolding hooks_by_origin_def map_map comp_def by (rule refl)
  finally show ?thesis .
qed

text \<open>
  The highest level that says something decides: the loaded value of a setting is that of the last readable
  file that sets it, in the order of the priorities.
\<close>

theorem highest_level_decides:
  "let ss = List.map fst (loaded_from E w l); s = Load_files E w l
   in da_Model s = last_set [] (List.map da_Model ss)
      \<and> da_Theme s = last_set [] (List.map da_Theme ss)
      \<and> da_Persona s = last_set [] (List.map da_Persona ss)
      \<and> da_TokenLimit s = last_set 0 (List.map da_TokenLimit ss)
      \<and> da_AllowBypass s = last_set None (List.map da_AllowBypass ss)
      \<and> da_BypassEnabled s = last_set None (List.map da_BypassEnabled ss)
      \<and> StartupMode (Some s) = coalesce (last_set [] (List.map da_LastOperationMode ss))
          (last_set [] (List.map (\<lambda>s. DefaultMode (da_Permissions s)) ss))"
  by (simp add: Load_files_alt merge_all_fields StartupMode_def)

subsection \<open>Rules\<close>

lemma live_permissions:
  "da_Permissions (fst (InitForApp E provider cwd w)) = da_Permissions (fst (load_live E provider cwd w))"
  by (simp add: InitForApp_def Clone_def clone_data_def split: prod.split)

lemma live_rules:
  "cwd \<noteq> [] \<Longrightarrow> da_Permissions (fst (InitForApp E provider cwd w)) = da_Permissions (LoadForCwd E w cwd)"
  by (simp add: live_permissions load_live_def mergeProviderPreferences_def split: option.split)

text \<open>
  C15: A deny rule of any readable file refuses the calls that it matches, whatever the other files and the
  persona say.
\<close>

theorem deny_rule_of_any_file_refuses:
  assumes "cwd \<noteq> []" and "(s, claude) \<in> set (loaded_from E w (NewLoaderForCwd E cwd))"
    and "pat \<in> set (Deny (da_Permissions s))" and "MatchesToolPattern S name args (BuildRule S name args) pat"
    and "ApplyPersonaOverlay (Some (fst (InitForApp E provider cwd w))) persona = Some d"
  shows "Behavior (Settings_HasPermissionToUseTool S (Some d) name args session) = Reject"
proof -
  have "pat \<in> set (Deny (da_Permissions (LoadForCwd E w cwd)))"
    using assms(2,3) by (auto simp: LoadForCwd_def Load_files_rules)
  then have "pat \<in> set (Deny (da_Permissions d))"
    using assms(1,5) live_rules [OF assms(1), of E provider w]
    by (auto simp: ApplyPersonaOverlay_def mergeSettings_def merge_data_rules split: option.splits)
  then have "deny_hit S (da_Permissions d) name args" using assms(4) by (auto simp: list_ex_iff)
  from gate_deny [OF this, of session] show ?thesis
    by (auto simp: Settings_HasPermissionToUseTool_def decide_def)
qed

subsection \<open>Saving\<close>

definition file_rules :: "(PermissionSettings \<Rightarrow> string list) \<Rightarrow> config_file \<Rightarrow> string set" where
  "file_rules rules f = (case f of GoodFile s \<Rightarrow> set (rules (da_Permissions s)) | _ \<Rightarrow> {})"

lemma file_rules_simps [simp]:
  "file_rules rules (GoodFile s) = set (rules (da_Permissions s))"
  "file_rules rules (BadFile s) = {}" "file_rules rules NoFile = {}"
  by (simp_all add: file_rules_def)

lemma readable_rules:
  "(\<Union>(s, c) \<in> set (readable E w srcs). set (rules (da_Permissions s)))
     = (\<Union>(path, c) \<in> set srcs. file_rules rules (read_config E w path))"
  by (induction srcs) (auto simp: readable_def file_rules_def split: config_file.splits)

lemma LoadForCwd_rules:
  fixes E w cwd
  defines "srcs \<equiv> load_sources E (NewLoaderForCwd E cwd)"
  shows "set (Deny (da_Permissions (LoadForCwd E w cwd))) = (\<Union>(path, c) \<in> set srcs. file_rules Deny (read_config E w path))"
    and "set (Ask (da_Permissions (LoadForCwd E w cwd))) = (\<Union>(path, c) \<in> set srcs. file_rules Ask (read_config E w path))"
    and "set (Allow (da_Permissions (LoadForCwd E w cwd))) = (\<Union>(path, c) \<in> set srcs. file_rules Allow (read_config E w path))"
  unfolding LoadForCwd_def Load_files_rules srcs_def by (simp_all only: readable_rules)

lemma drop_loaded_files: "drop_loaded r = (e, w) \<Longrightarrow> \<exists>v. r = (e, v) \<and> cw_files w = cw_files v"
  by (auto simp: drop_loaded_def split: prod.splits option.splits)

lemma saveToFile_ok:
  assumes "saveToFile E path settings w = (None, w')"
  shows "read_config E w' p = (if resolve_path E p = resolve_path E path
      then GoodFile (case read_config E w path of GoodFile existing \<Rightarrow> merge_data existing settings | _ \<Rightarrow> settings)
      else read_config E w p)"
  using assms by (auto simp: saveToFile_def WriteJSON_def read_config_def split: option.splits)

definition project_file :: "conf_env \<Rightarrow> string \<Rightarrow> string" where
  "project_file E cwd = settings_json (lo_projectDir (NewLoaderForCwd E cwd))"

lemma project_file_is_loaded: "(project_file E cwd, False) \<in> set (load_sources E (NewLoaderForCwd E cwd))"
  by (simp add: load_sources_def project_file_def)

lemma AddAllowRule_file:
  assumes "AddAllowRuleDirectlyAt E rule cwd w = (None, w')" and "rule \<noteq> []" and "cwd \<noteq> []"
    and known: "rules \<in> {Allow, Deny, Ask}"
  shows "file_rules rules (read_config E w' p) = file_rules rules (read_config E w p)
      \<union> (if resolve_path E p = resolve_path E (project_file E cwd) then set (rules \<lparr>DefaultMode = [], Allow = [rule], Deny = [], Ask = []\<rparr>)
         else {})"
proof (cases "\<exists>d. LoadFile E w (project_file E cwd) = Some d \<and> rule \<in> set (Allow (da_Permissions d))")
  case True
  then obtain d where d: "read_config E w (project_file E cwd) = GoodFile d" "rule \<in> set (Allow (da_Permissions d))"
    by (auto simp: LoadFile_def split: config_file.splits)
  have "w' = w" using assms d by (simp add: AddAllowRuleDirectlyAt_def loader_for_def project_file_def LoadFile_def)
  moreover have "read_config E w p = GoodFile d" if "resolve_path E p = resolve_path E (project_file E cwd)"
    using d(1) that by (simp add: read_config_def)
  ultimately show ?thesis using d(2) known by auto
next
  case False
  then have "drop_loaded (SaveToProject E (NewLoaderForCwd E cwd) (allow_rule_data rule) w) = (None, w')"
    using assms by (auto simp: AddAllowRuleDirectlyAt_def loader_for_def project_file_def Let_def split: option.splits if_splits)
  then obtain v where v: "saveToFile E (project_file E cwd) (allow_rule_data rule) w = (None, v)" "cw_files w' = cw_files v"
    unfolding SaveToProject_def project_file_def using drop_loaded_files by blast
  have r: "read_config E w' p = read_config E v p" using v(2) by (simp add: read_config_def)
  have "read_config E w p = read_config E w (project_file E cwd)" if "resolve_path E p = resolve_path E (project_file E cwd)"
    using that by (simp add: read_config_def)
  then show ?thesis
    unfolding r saveToFile_ok [OF v(1)] using known
    by (auto simp: merge_data_rules allow_rule_data_def split: config_file.split)
qed

text \<open>
  C18: A rule that is saved for good is in force when the settings of the directory are read again, and saving it
  neither drops nor adds any other rule.
\<close>

theorem saved_rule_is_loaded:
  assumes "AddAllowRuleDirectlyAt E rule cwd w = (None, w')" and "rule \<noteq> []" and "cwd \<noteq> []"
  shows "set (Allow (da_Permissions (LoadForCwd E w' cwd))) = insert rule (set (Allow (da_Permissions (LoadForCwd E w cwd))))
    \<and> set (Deny (da_Permissions (LoadForCwd E w' cwd))) = set (Deny (da_Permissions (LoadForCwd E w cwd)))
    \<and> set (Ask (da_Permissions (LoadForCwd E w' cwd))) = set (Ask (da_Permissions (LoadForCwd E w cwd)))"
  using project_file_is_loaded [of E cwd]
  by (auto simp: LoadForCwd_rules AddAllowRule_file [OF assms] split: if_splits)

text \<open>
  Four settings are read, documented and saved, but the merge through which every load goes does not know
  them: no file can set them.
\<close>

theorem timeouts_are_never_loaded:
  "let s = Load_files E w l
   in da_HookUITimeout s = [] \<and> da_StreamFirstChunkTimeout s = [] \<and> da_StreamIdleTimeout s = []
      \<and> da_SubagentDefaultModelForWrite s = []"
proof (cases "List.map fst (loaded_from E w l)" rule: rev_cases)
  case Nil
  then show ?thesis by (simp add: Load_files_alt merge_all_def NewData_def)
next
  case (snoc ss s)
  then show ?thesis by (simp add: Load_files_alt merge_all_snoc merge_data_forgets)
qed

text \<open>And what a file says of them is lost when anything is saved to it through the merge.\<close>

lemma saving_drops_the_timeouts:
  assumes "saveToFile E path settings w = (None, w')" and "read_config E w path = GoodFile d"
  shows "\<exists>d'. read_config E w' path = GoodFile d' \<and> da_HookUITimeout d' = [] \<and> da_StreamIdleTimeout d' = []
    \<and> da_SubagentDefaultModelForWrite d' = []"
  using saveToFile_ok [OF assms(1), of path] assms(2) by (simp add: merge_data_forgets)

text \<open>A file that cannot be decoded is replaced by the one block that is written.\<close>

lemma unreadable_file_is_replaced:
  assumes "read_config E w (level_path E True) = BadFile NewData" and "ce_write_error E (level_path E True) = None"
  shows "read_config E (snd (UpdateLastOperationMode E mode w)) (level_path E True)
    = GoodFile (NewData\<lparr>da_LastOperationMode := PersistenceName mode\<rparr>)"
  using assms by (simp add: UpdateLastOperationMode_def updateSettingsFile_def Let_def WriteJSON_def drop_loaded_def
      decoded_def read_config_def)

subsection \<open>Disabled tools and presets\<close>

lemma gm_get_filter: "gm_ok m \<Longrightarrow> gm_get (filter (\<lambda>(k, v). P v) m) k = (case gm_get m k of None \<Rightarrow> None | Some v \<Rightarrow> if P v then Some v else None)"
  by (induction m) (auto simp: gm_get_def gm_ok_def map_of_eq_None_iff image_iff split: option.split)

lemma WithDefaultDisabledTools_get:
  assumes "gm_ok explicit"
  shows "gm_get (WithDefaultDisabledTools explicit) name =
    (if (case gm_get explicit name of Some disabled \<Rightarrow> disabled | None \<Rightarrow> IsDefaultDisabledTool name) then Some True else None)"
proof -
  have d: "gm_ok defaultDisabledTools" by (simp add: gm_ok_def defaultDisabledTools_def)
  have "gm_get defaultDisabledTools name = Some v \<Longrightarrow> v" for v
    by (auto simp: defaultDisabledTools_def gm_get_def split: if_splits)
  then show ?thesis
    unfolding WithDefaultDisabledTools_def Let_def
    by (auto simp: gm_get_filter gm_ok_copy_into gm.ok_empty copy_into_copies [OF d] get_copy_into [OF assms] d
        IsDefaultDisabledTool_def split: option.split)
qed

subsection \<open>Examples\<close>

definition rules_data :: "string list \<Rightarrow> string list \<Rightarrow> Data" where
  "rules_data allow deny = NewData\<lparr>da_Permissions := \<lparr>DefaultMode = [], Allow = allow, Deny = deny, Ask = []\<rparr>\<rparr>"

definition conf_demo :: conf_env where
  "conf_demo = \<lparr>ce_Home = ''/h'', ce_Cwd = ''/w'', ce_write_error = (\<lambda>_. None)\<rparr>"

definition demo_hook :: "string \<Rightarrow> Hook_entry" where
  "demo_hook m = \<lparr>hk_Matcher = m, hk_Hooks = []\<rparr>"

text \<open>The user forbids to read \<open>.env\<close> files; the project has hooks in both formats and a timeout.\<close>

definition demo_files :: "string \<Rightarrow> config_file" where
  "demo_files p =
     (if p = ''/h/.pcb/settings.json'' then GoodFile (rules_data [] [''Read(**/.env)''])
      else if p = ''/w/.claude/settings.json'' then GoodFile (NewData\<lparr>da_Hooks :=
             [(''Stop'', [demo_hook ''a'']), (''PreToolUse'', [demo_hook ''b'']), (''PermissionRequest'', [demo_hook ''c''])]\<rparr>)
      else if p = ''/w/.pcb/settings.json'' then GoodFile (NewData\<lparr>da_Hooks := [(''Stop'', [])], da_HookUITimeout := ''20s''\<rparr>)
      else NoFile)"

definition demo_conf :: conf_world where
  "demo_conf = \<lparr>cw_files = demo_files, cw_loaded = None\<rparr>"

lemma demo_sources: "load_sources conf_demo (NewLoaderForCwd conf_demo ''/w'') =
   [(''/h/.claude/settings.json'', True), (''/h/.pcb/settings.json'', False), (''/w/.claude/settings.json'', True),
    (''/w/.pcb/settings.json'', False), (''/w/.claude/settings.local.json'', True), (''/w/.pcb/settings.local.json'', False)]"
  by code_simp

lemma demo_resolve: "resolve_path conf_demo (CHR ''/'' # p) = CHR ''/'' # p"
  by (simp add: resolve_path_def is_abs_def)

lemma demo_loaded: "loaded_from conf_demo demo_conf (NewLoaderForCwd conf_demo ''/w'') =
  [(rules_data [] [''Read(**/.env)''], False),
   (NewData\<lparr>da_Hooks := [(''Stop'', [demo_hook ''a'']), (''PreToolUse'', [demo_hook ''b'']),
      (''PermissionRequest'', [demo_hook ''c''])]\<rparr>, True),
   (NewData\<lparr>da_Hooks := [(''Stop'', [])], da_HookUITimeout := ''20s''\<rparr>, False)]"
  unfolding demo_sources by (simp add: readable_def read_config_def demo_resolve demo_conf_def demo_files_def)

theorem deny_rule_of_any_file_refuses_witness:
  "\<exists>d. ApplyPersonaOverlay (Some (fst (InitForApp conf_demo None ''/w'' demo_conf))) (Some (rules_data [''Read(**)''] [])) = Some d
     \<and> Behavior (Settings_HasPermissionToUseTool Permission.demo_env (Some d) ''Read'' (file_call ''/w/.env'') None) = Reject"
proof -
  have "MatchesToolPattern Permission.demo_env ''Read'' (file_call ''/w/.env'') (BuildRule Permission.demo_env ''Read'' (file_call ''/w/.env''))
      ''Read(**/.env)''" by code_simp
  moreover obtain d where "ApplyPersonaOverlay (Some (fst (InitForApp conf_demo None ''/w'' demo_conf)))
      (Some (rules_data [''Read(**)''] [])) = Some d"
    by (simp add: ApplyPersonaOverlay_def mergeSettings_def)
  ultimately show ?thesis
    using deny_rule_of_any_file_refuses [of "''/w''" "rules_data [] [''Read(**/.env)'']" False conf_demo demo_conf
        "''Read(**/.env)''" Permission.demo_env "''Read''" "file_call ''/w/.env''"]
    by (simp add: demo_loaded rules_data_def)
qed

theorem hooks_of_an_event_witness:
  "let h = hooks_at (da_Hooks (LoadForCwd conf_demo demo_conf ''/w''))
   in h ''Stop'' = [] \<and> h ''PreToolUse'' = [demo_hook ''b''] \<and> h ''PermissionRequest'' = []"
proof -
  have ok: "\<forall>(s, c) \<in> set (loaded_from conf_demo demo_conf (NewLoaderForCwd conf_demo ''/w'')). maps_ok s"
    using NewData_ok by (simp add: demo_loaded rules_data_def maps_ok_def gm_ok_def gm_vals_def demo_hook_def)
  show ?thesis
    unfolding LoadForCwd_def hooks_of_an_event [OF ok] demo_loaded
    by (simp add: hooks_by_origin_def native_of_def claude_of_def gm_get_def hooks_at_def rules_data_def NewData_def gm_empty_def)
qed

lemma writes_succeed: "ce_write_error E = (\<lambda>_. None) \<Longrightarrow> fst (AddAllowRuleDirectlyAt E rule cwd w) = None"
  by (simp add: AddAllowRuleDirectlyAt_def Let_def SaveToProject_def saveToFile_def WriteJSON_def drop_loaded_def
      split: option.split)

theorem saved_rule_is_loaded_witness:
  "let w' = snd (AddAllowRuleDirectlyAt conf_demo ''Bash(ls:*)'' ''/w'' demo_conf)
   in set (Allow (da_Permissions (LoadForCwd conf_demo w' ''/w''))) = {''Bash(ls:*)''}
      \<and> set (Deny (da_Permissions (LoadForCwd conf_demo w' ''/w''))) = {''Read(**/.env)''}"
proof -
  obtain w' where "AddAllowRuleDirectlyAt conf_demo ''Bash(ls:*)'' ''/w'' demo_conf = (None, w')"
    using writes_succeed [of conf_demo] by (metis conf_demo_def conf_env.select_convs(3) prod.collapse)
  then show ?thesis
    using saved_rule_is_loaded [of conf_demo "''Bash(ls:*)''" "''/w''" demo_conf w']
    by (simp add: LoadForCwd_def Load_files_rules demo_loaded rules_data_def NewData_def)
qed

end
