(* ===== verification/Autopilot.thy ===== *)
theory Autopilot
  imports ConfigStore AgentTurn
begin

text \<open>
  The posture of a session and the copilot that drives it (\<open>app/env.go\<close>, \<open>app/update_modal.go\<close>,
  \<open>app/autopilot.go\<close>, \<open>app/update_submit.go\<close> and the handlers of \<open>app/model_agent_events.go\<close> and
  \<open>app/model_lifecycle.go\<close> that touch them).  The program is the handler of one message at a time: a
  handler takes the state of the application to the commands it returns and the next state, and a command
  comes back later as a message.  What the model answers, the files, the hooks and the other slash commands
  are the environment; the texts of the prompts and images are left out, and notices keep their words but not
  their colours, marks and dashes.

  The theorems: the copilot's turns between two turns of the human are bounded by its cap, except for
  requests that overlap; a goal that ends gives the configuration back; only the switch for it turns the
  bypass on; answers given for the user are options of the question.
\<close>

subsection \<open>State\<close>

record QuestionItem =
  qi_Question :: string
  qi_Options :: "string list"
  qi_MultiSelect :: bool

record QuestionRequest =
  qr_ID :: string
  qr_Questions :: "QuestionItem list"

record app =
  m_cwd :: string
  m_OperationMode :: OperationMode
  m_Session :: SessionPermissions
  m_AutoPilot :: AutoPilotSettings
  m_beforeGoal :: "AutoPilotSettings option"
  m_runtime :: "AutoPilotSettings option"
  m_continuations :: int
  m_continuing :: bool
  m_deciding :: bool
  m_recoveries :: int
  m_stream :: bool
  m_compact :: bool
  m_composer :: string
  m_queue :: "string list"
  m_chat :: "ChatMessage list"
  m_notices :: "string list"
  m_live :: "Data option"
  m_hook_mode :: string
  m_context_bar :: bool
  m_question :: "QuestionRequest option"
  m_reply_open :: bool
  m_conf :: conf_world

datatype autopilotOrigin = FromTurnEnd | FromKick | FromRecovery

record autopilotTrigger =
  tg_origin :: autopilotOrigin
  tg_situation :: string

record autopilotDecision =
  dm_trigger :: autopilotTrigger
  dm_cont :: bool
  dm_done :: bool
  dm_instruction :: string
  dm_err :: "string option"
  dm_deferrals :: nat

datatype app_msg = YoloMsg "bool option" | GoalSetMsg string | GoalClearedMsg

datatype app_cmd =
    DecideCmd autopilotTrigger string string
  | DecisionTick autopilotDecision
  | RecoverTick nat string
  | IdleHooksCmd
  | SubmitCmd string
  | AnswerCmd QuestionRequest string string
  | ReplyCmd "(nat \<times> string list) list option"
  | SettleTick
  | EmitCmd app_msg
  | OtherCmd string
  | QuitCmd

record app_env =
  ae_conf :: conf_env
  ae_model :: "string \<Rightarrow> bool"
  ae_file :: "string \<Rightarrow> string option"
  ae_hook :: "string \<Rightarrow> string option"
  ae_build :: "string \<Rightarrow> string + string"
  ae_slash :: "string \<Rightarrow> string \<Rightarrow> app \<Rightarrow> string"
  ae_width :: "string \<Rightarrow> nat"

definition AddNotice :: "string \<Rightarrow> app \<Rightarrow> app" where
  "AddNotice s m = m\<lparr>m_notices := m_notices m @ [s]\<rparr>"

subsection \<open>The posture of a mode\<close>

definition OperationModeName :: "app \<Rightarrow> string" where
  "OperationModeName m =
     (case m_OperationMode m of
        ModeAutoAccept \<Rightarrow> ''auto'' | ModeAutoPilot \<Rightarrow> ''autoPilot'' | ModeReadOnly \<Rightarrow> ''chat'' | ModeSwarm \<Rightarrow> ''agent''
      | _ \<Rightarrow> ''default'')"

definition SessionMode :: "app \<Rightarrow> string" where
  "SessionMode m =
     (case m_OperationMode m of
        ModeAutoAccept \<Rightarrow> ''auto-accept'' | ModeAutoPilot \<Rightarrow> ''auto-pilot'' | ModeReadOnly \<Rightarrow> ''chat'' | ModeSwarm \<Rightarrow> ''agent''
      | _ \<Rightarrow> ''default'')"

definition parseSessionMode :: "string \<Rightarrow> OperationMode" where
  "parseSessionMode mode =
     (case OperationModeFromString mode of
        ModeAutoAccept \<Rightarrow> ModeAutoAccept | ModeAutoPilot \<Rightarrow> ModeAutoPilot | ModeReadOnly \<Rightarrow> ModeReadOnly
      | ModeSwarm \<Rightarrow> ModeSwarm | _ \<Rightarrow> ModeNormal)"

definition ResetSessionPermissions :: "app \<Rightarrow> app" where
  "ResetSessionPermissions m = m\<lparr>m_Session := ResetPosture (m_Session m)\<rparr>"

definition applyEditPosture :: "string \<Rightarrow> app \<Rightarrow> app" where
  "applyEditPosture cwd m = m\<lparr>m_Session := GrantEditPosture cwd (m_Session m)\<rparr>"

definition ApplyModePermissions :: "string \<Rightarrow> app \<Rightarrow> app" where
  "ApplyModePermissions cwd m =
     (let m = ResetSessionPermissions m; m = m\<lparr>m_Session := SetMode (m_OperationMode m) (m_Session m)\<rparr>
      in if m_OperationMode m \<in> {ModeAutoAccept, ModeAutoPilot} then applyEditPosture cwd m else m)"

definition ApplyDefaultPermissionMode :: "string \<Rightarrow> string \<Rightarrow> app \<Rightarrow> app" where
  "ApplyDefaultPermissionMode mode cwd m =
     (let opMode = OperationModeFromString mode; opMode = (if opMode = ModeBypassPermissions then ModeNormal else opMode)
      in ApplyModePermissions cwd (m\<lparr>m_OperationMode := opMode\<rparr>))"

definition ApplyPersistedBypass :: "bool \<Rightarrow> app \<Rightarrow> app" where
  "ApplyPersistedBypass on m = m\<lparr>m_Session := SetBypass on (m_Session m)\<rparr>"

definition SetPermissionMode :: "string \<Rightarrow> app \<Rightarrow> app" where
  "SetPermissionMode mode m = m\<lparr>m_hook_mode := mode\<rparr>"

definition applyStartupSettings :: "Data option \<Rightarrow> app \<Rightarrow> app" where
  "applyStartupSettings settings m =
     (case settings of
        None \<Rightarrow> m
      | Some s \<Rightarrow>
          (let m = ApplyDefaultPermissionMode (StartupMode settings) (m_cwd m) m;
               m = SetPermissionMode (OperationModeName m) m;
               m = m\<lparr>m_context_bar := ShowContextBar settings\<rparr>;
               m = ApplyPersistedBypass (BypassEnabledOn settings) m
           in m\<lparr>m_AutoPilot := da_AutoPilot s\<rparr>))"

definition applyOperationMode :: "app \<Rightarrow> app" where
  "applyOperationMode m = (let m = ApplyModePermissions (m_cwd m) m in SetPermissionMode (OperationModeName m) m)"

definition persistOperationMode :: "app_env \<Rightarrow> app \<Rightarrow> app" where
  "persistOperationMode E m =
     m\<lparr>m_conf := snd (UpdateLastOperationMode (ae_conf E) (m_OperationMode m) (m_conf m))\<rparr>"

definition cycleOperationMode :: "app_env \<Rightarrow> app \<Rightarrow> app_cmd list \<times> app" where
  "cycleOperationMode E m =
     (let m = m\<lparr>m_OperationMode := NextWithBypass (m_OperationMode m) (AllowBypass (m_live m))\<rparr>;
          m = persistOperationMode E (applyOperationMode m)
      in (if m_OperationMode m = ModeAutoPilot then [SettleTick] else [], m))"

definition enterAutoPilotMode :: "app_env \<Rightarrow> app \<Rightarrow> app" where
  "enterAutoPilotMode E m = persistOperationMode E (applyOperationMode (m\<lparr>m_OperationMode := ModeAutoPilot\<rparr>))"

definition persistBypass :: "app_env \<Rightarrow> bool \<Rightarrow> app \<Rightarrow> app" where
  "persistBypass E on m = m\<lparr>m_conf := snd (SaveBypassEnabled (ae_conf E) on (m_conf m))\<rparr>"

definition applyYoloMode :: "app_env \<Rightarrow> bool option \<Rightarrow> app \<Rightarrow> string \<times> app" where
  "applyYoloMode E enable m =
     (let currentlyOn = IsBypass (m_Session m);
          wantOn = (case enable of None \<Rightarrow> \<not> currentlyOn | Some b \<Rightarrow> b)
      in if wantOn then
           (if \<not> AllowBypass (m_live m) then (''Bypass permissions is locked out (allowBypass: false in settings).'', m)
            else if currentlyOn then (''Bypass permissions already on.'', m)
            else let m = m\<lparr>m_Session := SetBypass True (m_Session m)\<rparr>;
                     m = persistBypass E True (SetPermissionMode (OperationModeName m) m)
                 in (''Bypass permissions on - tool calls auto-accepted. Active mode: '' @ OperationModeName m
                     @ '' (shift+tab to cycle).'', m))
         else if \<not> currentlyOn then (''Bypass permissions already off.'', m)
         else let m = m\<lparr>m_Session := SetBypass False (m_Session m)\<rparr>;
                  m = persistBypass E False (SetPermissionMode (OperationModeName m) m)
              in (''Bypass permissions off. Active mode: '' @ OperationModeName m @ ''.'', m))"

subsection \<open>The configuration that the agent reads\<close>

definition rebuildAutopilotReviewer :: "app \<Rightarrow> app" where
  "rebuildAutopilotReviewer m = m\<lparr>m_runtime := Some (m_AutoPilot m)\<rparr>"

definition refreshAutopilotSnapshot :: "app \<Rightarrow> app" where
  "refreshAutopilotSnapshot m =
     (case m_runtime m of None \<Rightarrow> m | Some _ \<Rightarrow> m\<lparr>m_runtime := Some (m_AutoPilot m)\<rparr>)"

definition autopilotSteeringInstructions :: "app_env \<Rightarrow> string \<Rightarrow> app \<Rightarrow> string" where
  "autopilotSteeringInstructions E builtin m =
     (let s = trim_space (ap_SystemPrompt (m_AutoPilot m)); path = ap_SystemPromptFile (m_AutoPilot m)
      in if s \<noteq> [] then s
         else if path \<noteq> []
           then (case ae_file E path of None \<Rightarrow> builtin | Some b \<Rightarrow> if trim_space b \<noteq> [] then b else builtin)
         else builtin)"

definition autopilotSystemPrompt :: "app_env \<Rightarrow> string \<Rightarrow> string \<Rightarrow> app \<Rightarrow> string" where
  "autopilotSystemPrompt E builtin policy m =
     ComposeSystemPrompt builtin policy (autopilotSteeringInstructions E builtin m)"

definition liveAutopilotConfig :: "app \<Rightarrow> AutoPilotSettings" where
  "liveAutopilotConfig m = (case m_runtime m of Some cfg \<Rightarrow> cfg | None \<Rightarrow> no_autopilot)"

definition autopilotEngaged :: "app \<Rightarrow> bool" where
  "autopilotEngaged m \<longleftrightarrow> m_OperationMode m = ModeAutoPilot"

definition marshalAutoPilot :: "AutoPilotSettings \<Rightarrow> AutoPilotSettings option" where
  "marshalAutoPilot a = (if AutoPilot_IsZero a then None else Some a)"

definition parseAutoPilot :: "AutoPilotSettings option \<Rightarrow> AutoPilotSettings" where
  "parseAutoPilot s = (case s of None \<Rightarrow> no_autopilot | Some a \<Rightarrow> a)"

definition autopilotWithoutSessionFields :: "AutoPilotSettings \<Rightarrow> AutoPilotSettings" where
  "autopilotWithoutSessionFields cfg = cfg\<lparr>ap_Mission := [], ap_SystemPrompt := []\<rparr>"

definition writeAutopilotDefault :: "app_env \<Rightarrow> app \<Rightarrow> app" where
  "writeAutopilotDefault E m =
     m\<lparr>m_conf := snd (UpdateAutoPilotAt (ae_conf E) (autopilotWithoutSessionFields (m_AutoPilot m)) True (m_conf m))\<rparr>"

definition persistAutopilotDefault :: "app_env \<Rightarrow> app \<Rightarrow> app" where
  "persistAutopilotDefault E m = writeAutopilotDefault E (rebuildAutopilotReviewer m)"

subsection \<open>The evidence for a decision\<close>

text \<open>The width of a text is a parameter; a rune is one byte.\<close>

definition ellipsis :: string where
  "ellipsis = [CHR 0xE2, CHR 0x80, CHR 0xA6]"

fun fit_width :: "(string \<Rightarrow> nat) \<Rightarrow> nat \<Rightarrow> nat \<Rightarrow> string \<Rightarrow> string" where
  "fit_width w budget used [] = []"
| "fit_width w budget used (c # cs) =
     (if budget < used + w [c] then [] else c # fit_width w budget (used + w [c]) cs)"

definition TruncateText :: "(string \<Rightarrow> nat) \<Rightarrow> string \<Rightarrow> nat \<Rightarrow> string" where
  "TruncateText w s maxLen =
     (if maxLen = 0 \<or> w s \<le> maxLen then s
      else if maxLen = 1 then ellipsis
      else fit_width w (maxLen - 1) 0 s @ ellipsis)"

definition turnCap :: nat where "turnCap = 600"
definition toolCap :: nat where "toolCap = 300"

definition evidence_row :: "ChatMessage \<Rightarrow> (string \<times> string \<times> nat) option" where
  "evidence_row msg =
     (if IsCompactSummary (cContent msg)
        then Some (''session summary'', trim_prefix (cContent msg) CompactSummaryPrefix, turnCap)
      else case cToolResult msg of
        Some r \<Rightarrow> Some (''tool '' @ tr_ToolName r @ '' result'' @ (if tr_IsError r then '' (error)'' else []),
                        tr_Content r, toolCap)
      | None \<Rightarrow>
          if cRole msg = RoleUser then Some (''you'', cContent msg, turnCap)
          else if cRole msg = RoleAssistant then Some (''agent'', cContent msg, turnCap)
          else None)"

text \<open>The loop, from the newest message backwards.\<close>

fun recent_lines :: "(string \<Rightarrow> nat) \<Rightarrow> nat \<Rightarrow> nat \<Rightarrow> ChatMessage list \<Rightarrow> string list" where
  "recent_lines w budget used [] = []"
| "recent_lines w budget used (msg # older) =
     (if \<not> used < budget then []
      else case evidence_row msg of
             None \<Rightarrow> recent_lines w budget used older
           | Some (label, body, limit) \<Rightarrow>
               (let body = trim_space body
                in if body = [] then recent_lines w budget used older
                   else let line = label @ '': '' @ TruncateText w body limit
                        in line # recent_lines w budget (used + length line) older))"

definition autopilotRecentTranscript :: "(string \<Rightarrow> nat) \<Rightarrow> ChatMessage list \<Rightarrow> nat \<Rightarrow> string" where
  "autopilotRecentTranscript w msgs budget =
     join_str [CHR 0x0A] (rev (recent_lines w budget 0 (rev msgs)))"

subsection \<open>Asking the copilot\<close>

text \<open>
  One steer: the round trip is tried three times, unless the error says that it will not fix itself or the
  wait between two attempts is cancelled.
\<close>

definition autopilotSteerAttempts :: nat where
  "autopilotSteerAttempts = 3"

function autopilotSteer ::
    "(nat \<Rightarrow> err + string) \<Rightarrow> (string \<Rightarrow> string + 'r) \<Rightarrow> (nat \<Rightarrow> int \<Rightarrow> bool) \<Rightarrow> nat \<Rightarrow> string + 'r" where
  "autopilotSteer complete parse wait attempt =
     (let retry = (\<lambda>e retryFloor.
            if autopilotSteerAttempts \<le> attempt then Inl e
            else if \<not> wait attempt retryFloor then Inl e
            else autopilotSteer complete parse wait (Suc attempt))
      in case complete attempt of
           Inr content \<Rightarrow> (case parse (trim_space content) of Inr out \<Rightarrow> Inr out | Inl e \<Rightarrow> retry e 0)
         | Inl e \<Rightarrow> (case retry_after e of None \<Rightarrow> Inl (err_msg e) | Some retryFloor \<Rightarrow> retry (err_msg e) retryFloor))"
  by pat_completeness auto

termination
  by (relation "measure (\<lambda>(complete, parse, wait, attempt). autopilotSteerAttempts - attempt)") auto

declare autopilotSteer.simps [simp del]

record continue_decision =
  de_Continue :: bool
  de_Done :: bool
  de_Instruction :: string

definition check_decision :: "continue_decision \<Rightarrow> string + continue_decision" where
  "check_decision d0 =
     (let d = d0\<lparr>de_Instruction := trim_space (de_Instruction d0)\<rparr>
      in if de_Continue d \<and> (de_Done d \<or> de_Instruction d = []) then Inl ''invalid continue decision state''
         else if de_Done d \<and> de_Instruction d \<noteq> [] then Inl ''done decision included an instruction''
         else if \<not> de_Continue d \<and> \<not> de_Done d \<and> de_Instruction d \<noteq> [] then Inl ''stop decision included an instruction''
         else Inr d)"

text \<open>\<open>decode\<close> is the JSON decoder; the prompt is part of the round trip.\<close>

definition autopilotDecideContinue ::
    "(nat \<Rightarrow> err + string) \<Rightarrow> (string \<Rightarrow> string + continue_decision) \<Rightarrow> (nat \<Rightarrow> int \<Rightarrow> bool) \<Rightarrow> string + continue_decision" where
  "autopilotDecideContinue complete decode wait =
     autopilotSteer complete
       (\<lambda>content. case decode (ExtractJSONObject content) of Inl e \<Rightarrow> Inl e | Inr d \<Rightarrow> check_decision d) wait 1"

definition decision_message :: "autopilotTrigger \<Rightarrow> string + continue_decision \<Rightarrow> autopilotDecision" where
  "decision_message tg r =
     (case r of
        Inl e \<Rightarrow> \<lparr>dm_trigger = tg, dm_cont = False, dm_done = False, dm_instruction = [], dm_err = Some e, dm_deferrals = 0\<rparr>
      | Inr d \<Rightarrow> \<lparr>dm_trigger = tg, dm_cont = de_Continue d, dm_done = de_Done d, dm_instruction = de_Instruction d,
                 dm_err = None, dm_deferrals = 0\<rparr>)"

definition autopilotDecideCmd :: "app_env \<Rightarrow> autopilotTrigger \<Rightarrow> app \<Rightarrow> app_cmd list \<times> app" where
  "autopilotDecideCmd E tg m =
     (if \<not> ae_model E (ap_Model (m_AutoPilot m)) then ([], m)
      else let mission = trim_space (ap_Mission (m_AutoPilot m));
               evidence = autopilotRecentTranscript (ae_width E) (m_chat m) 3000
           in if mission = [] \<and> evidence = [] then ([], m)
              else ([DecideCmd tg mission evidence], m\<lparr>m_deciding := True\<rparr>))"

definition autopilotStopEvidence :: "StopReason \<Rightarrow> bool \<times> string" where
  "autopilotStopEvidence reason =
     (case reason of
        StopEndTurn \<Rightarrow> (True, [])
      | StopMaxSteps \<Rightarrow> (True, ''the previous turn hit its step limit and stopped mid-work - it was not finished'')
      | StopMaxOutputRecoveryExhausted \<Rightarrow>
          (True, ''the previous turn's output was truncated and could not be recovered - it was not finished'')
      | _ \<Rightarrow> (False, []))"

definition autopilotBudgetSpent :: "app \<Rightarrow> bool" where
  "autopilotBudgetSpent m \<longleftrightarrow>
     \<not> ContinuationsUnlimited (m_AutoPilot m) \<and> ResolvedMaxContinuations (m_AutoPilot m) \<le> m_continuations m"

definition autopilotContinueCmd :: "app_env \<Rightarrow> StopReason \<Rightarrow> app \<Rightarrow> app_cmd list \<times> app" where
  "autopilotContinueCmd E reason m =
     (let (resumable, situation) = autopilotStopEvidence reason
      in if \<not> autopilotEngaged m \<or> \<not> steer_TurnEnd (ap_Steers (m_AutoPilot m)) \<or> \<not> resumable then ([], m)
         else if autopilotBudgetSpent m then ([], AddNotice ''over to you'' m)
         else autopilotDecideCmd E \<lparr>tg_origin = FromTurnEnd, tg_situation = situation\<rparr> m)"

definition autopilotKickCmd :: "app_env \<Rightarrow> app \<Rightarrow> app_cmd list \<times> app" where
  "autopilotKickCmd E m =
     (if \<not> autopilotEngaged m \<or> m_deciding m then ([], m)
      else if m_stream m \<or> trim_space (m_composer m) \<noteq> [] then ([], m)
      else if autopilotBudgetSpent m then ([], m)
      else autopilotDecideCmd E \<lparr>tg_origin = FromKick, tg_situation = []\<rparr> m)"

subsection \<open>Submitting\<close>

definition maxQueueSize :: nat where
  "maxQueueSize = 50"

definition enqueueWhileStreaming :: "string \<Rightarrow> app \<Rightarrow> app_cmd list \<times> app" where
  "enqueueWhileStreaming raw m =
     (if maxQueueSize \<le> length (m_queue m)
        then ([], AddNotice ''Input queue is full. Please wait for the current turn to complete.'' m)
      else ([], m\<lparr>m_queue := m_queue m @ [raw], m_composer := []\<rparr>))"

definition IsExitRequest :: "string \<Rightarrow> bool" where
  "IsExitRequest raw \<longleftrightarrow> to_lower (trim_space raw) \<in> {''exit'', ''quit''}"

definition ParseCommand :: "string \<Rightarrow> (string \<times> string) option" where
  "ParseCommand inp =
     (let inp = trim_space inp
      in if \<not> has_prefix inp ''/'' then None
         else let (name, rest, found) = cut_str (drop 1 inp) '' ''
              in Some (to_lower name, if found then trim_space rest else []))"

definition handleYoloCommand :: "string \<Rightarrow> app \<Rightarrow> string \<times> app_msg option" where
  "handleYoloCommand args m =
     (let arg = to_lower (trim_space args);
          run = (\<lambda>enable. if enable = Some True \<and> \<not> AllowBypass (m_live m)
            then (''Bypass permissions is locked out (allowBypass: false in settings).'', None)
            else ([], Some (YoloMsg enable)))
      in if arg = [] then run None
         else if arg \<in> {''on'', ''enable'', ''true'', ''1''} then run (Some True)
         else if arg \<in> {''off'', ''disable'', ''false'', ''0''} then run (Some False)
         else (''Usage: /yolo [on|off]'', None))"

definition handleGoalCommand :: "string \<Rightarrow> app \<Rightarrow> string \<times> app_msg option" where
  "handleGoalCommand args m =
     (let goal = trim_space args
      in if to_lower goal = ''clear'' then ([], Some GoalClearedMsg)
         else if goal = [] then
           (if trim_space (ap_Mission (m_AutoPilot m)) = []
              then ''No goal set. /goal <what to achieve> - autopilot drives until it's done.''
            else ''Goal: '' @ trim_space (ap_Mission (m_AutoPilot m)) @ '' (/goal clear to stand down)'', None)
         else ([], Some (GoalSetMsg goal)))"

definition user_chat :: "string \<Rightarrow> string \<Rightarrow> ChatMessage" where
  "user_chat content note =
     \<lparr>cID = [], cRole = RoleUser, cContent = content, cDisplayContent = content, cThinking = [], cThinkingSignature = [],
      cReasoning = [], cImages = [], cToolCalls = [], cToolResult = None, ToolCallsExpanded = False, Expanded = False,
      Decision = None, AutopilotNote = note, AgentNotice = False, ContentCommittedLen = 0, ThinkingCommittedLen = 0,
      BulletEmitted = False, ThinkingEmitted = False\<rparr>"

definition shouldPreserve :: "string \<Rightarrow> bool" where
  "shouldPreserve name \<longleftrightarrow> name \<in> {''compact'', ''fork'', ''resume'', ''loop'', ''init'', ''goal''}"

text \<open>
  A slash command: \<open>/exit\<close>, the two that steer the posture, and the others, which reach this state by
  messages of their own and by a notice.
\<close>

definition HandleCommand :: "app_env \<Rightarrow> string \<Rightarrow> string \<Rightarrow> string \<Rightarrow> app \<Rightarrow> app_cmd list \<times> app" where
  "HandleCommand E raw name args m =
     (let m = (if shouldPreserve name then m\<lparr>m_chat := m_chat m @ [user_chat raw []]\<rparr> else m);
          finish = (\<lambda>(notice, msg).
            let m = m\<lparr>m_composer := []\<rparr>; m = (if notice \<noteq> [] then AddNotice notice m else m)
            in (case msg of None \<Rightarrow> [] | Some g \<Rightarrow> [EmitCmd g], m))
      in if name = ''exit'' \<or> name = ''quit'' then ([QuitCmd], m\<lparr>m_stream := False, m_composer := []\<rparr>)
         else if name = ''goal'' then finish (handleGoalCommand args m)
         else if name = ''yolo'' then finish (handleYoloCommand args m)
         else (let notice = ae_slash E name args m; m = m\<lparr>m_composer := []\<rparr>
               in ([OtherCmd raw], if notice \<noteq> [] then AddNotice notice m else m)))"

definition autopilot_note :: "app \<Rightarrow> string" where
  "autopilot_note m =
     (if m_continuing m then
        (if ContinuationsUnlimited (m_AutoPilot m) then ''step '' @ int_str (m_continuations m)
         else int_str (m_continuations m) @ ''/'' @ int_str (ResolvedMaxContinuations (m_AutoPilot m)))
      else [])"

definition dispatchSubmission :: "app_env \<Rightarrow> string \<Rightarrow> app \<Rightarrow> app_cmd list \<times> app" where
  "dispatchSubmission E raw m =
     (if IsExitRequest raw then ([QuitCmd], m)
      else let note = autopilot_note m;
               m = (if m_continuing m then m\<lparr>m_continuing := False\<rparr> else m\<lparr>m_continuations := 0\<rparr>)
           in case ae_hook E raw of
                Some reason \<Rightarrow> ([], (AddNotice (''Prompt blocked: '' @ reason) m)\<lparr>m_composer := []\<rparr>)
              | None \<Rightarrow>
                  (case ParseCommand raw of
                     Some (name, args) \<Rightarrow> HandleCommand E raw name args m
                   | None \<Rightarrow>
                       (case ae_build E raw of
                          Inl e \<Rightarrow> ([], AddNotice (''Image error: '' @ e) m)
                        | Inr content \<Rightarrow>
                            ([SubmitCmd content], m\<lparr>m_chat := m_chat m @ [user_chat content note], m_composer := []\<rparr>))))"

definition handleSubmit :: "app_env \<Rightarrow> app \<Rightarrow> app_cmd list \<times> app" where
  "handleSubmit E m =
     (let raw = trim_space (m_composer m)
      in if raw = [] then ([], m)
         else if m_stream m then enqueueWhileStreaming raw m
         else if m_compact m then ([], AddNotice ''Compaction in progress - please resubmit in a moment.'' m)
         else dispatchSubmission E raw m)"

subsection \<open>Goals\<close>

definition startGoal :: "app_env \<Rightarrow> string \<Rightarrow> app \<Rightarrow> app_cmd list \<times> app" where
  "startGoal E goal m =
     (let m = (if m_beforeGoal m = None then m\<lparr>m_beforeGoal := Some (m_AutoPilot m)\<rparr> else m);
          m = m\<lparr>m_AutoPilot := EngageDriving ((m_AutoPilot m)\<lparr>ap_Mission := goal\<rparr>)\<rparr>;
          m = enterAutoPilotMode E (refreshAutopilotSnapshot m)
      in if m_stream m then ([], AddNotice ''goal set - starts after this turn'' m)
         else autopilotKickCmd E (AddNotice ''goal set'' m))"

definition retireAutopilotMission :: "app \<Rightarrow> app" where
  "retireAutopilotMission m =
     (let m = (case m_beforeGoal m of
                 Some before \<Rightarrow> m\<lparr>m_AutoPilot := before, m_beforeGoal := None\<rparr>
               | None \<Rightarrow> m\<lparr>m_AutoPilot := StopDriving (m_AutoPilot m)\<rparr>)
      in rebuildAutopilotReviewer (m\<lparr>m_AutoPilot := (m_AutoPilot m)\<lparr>ap_Mission := []\<rparr>\<rparr>))"

definition clearGoal :: "app \<Rightarrow> app" where
  "clearGoal m =
     (if trim_space (ap_Mission (m_AutoPilot m)) = [] then AddNotice ''No goal set.'' m
      else AddNotice ''goal cleared'' (retireAutopilotMission m))"

subsection \<open>Acting on a decision\<close>

definition autopilotMaxDeferrals :: nat where
  "autopilotMaxDeferrals = 30"

definition autopilotStandDown :: "autopilotTrigger \<Rightarrow> app_cmd list" where
  "autopilotStandDown tg = (if tg_origin tg \<noteq> FromTurnEnd then [] else [IdleHooksCmd])"

definition handleAutopilotDecision :: "app_env \<Rightarrow> autopilotDecision \<Rightarrow> app \<Rightarrow> app_cmd list \<times> app" where
  "handleAutopilotDecision E msg m =
     (if m_compact m \<and> dm_deferrals msg < autopilotMaxDeferrals
        then ([DecisionTick (msg\<lparr>dm_deferrals := Suc (dm_deferrals msg)\<rparr>)], m)
      else let m = m\<lparr>m_deciding := False\<rparr>
           in if m_stream m \<or> m_compact m then ([], m)
              else if \<not> autopilotEngaged m \<or> trim_space (m_composer m) \<noteq> []
                then (autopilotStandDown (dm_trigger msg), m)
              else if dm_err msg = None \<and> dm_cont msg \<and> dm_instruction msg \<noteq> []
                then handleSubmit E (m\<lparr>m_continuations := m_continuations m + 1, m_continuing := True,
                       m_composer := dm_instruction msg\<rparr>)
              else if dm_err msg = None \<and> dm_done msg
                then (autopilotStandDown (dm_trigger msg), retireAutopilotMission (AddNotice ''mission complete'' m))
              else let detail = (case dm_err msg of None \<Rightarrow> [] | Some e \<Rightarrow> TruncateText (ae_width E) e 120)
                   in if tg_origin (dm_trigger msg) = FromKick
                        then ([], if detail \<noteq> [] then AddNotice (''start failed - '' @ detail) m else m)
                      else (autopilotStandDown (dm_trigger msg), AddNotice (''over to you - '' @ detail) m))"

definition autopilotMaxRecoveries :: int where
  "autopilotMaxRecoveries = 3"

definition autopilotRecoverCmd :: "app_env \<Rightarrow> string option \<Rightarrow> app \<Rightarrow> app_cmd list \<times> app" where
  "autopilotRecoverCmd E err m =
     (case err of
        None \<Rightarrow> ([], m)
      | Some e \<Rightarrow>
          if \<not> autopilotEngaged m \<or> \<not> steer_TurnEnd (ap_Steers (m_AutoPilot m)) \<or> m_deciding m then ([], m)
          else if autopilotMaxRecoveries \<le> m_recoveries m \<or> autopilotBudgetSpent m then ([], m)
          else if trim_space (m_composer m) \<noteq> [] then ([], m)
          else let m = m\<lparr>m_recoveries := m_recoveries m + 1\<rparr>
               in ([RecoverTick (nat (m_recoveries m) * 5) (TruncateText (ae_width E) e 200)],
                   AddNotice ''turn failed - retrying'' m))"

definition handleAutopilotRecover :: "app_env \<Rightarrow> string \<Rightarrow> app \<Rightarrow> app_cmd list \<times> app" where
  "handleAutopilotRecover E failure m =
     (if \<not> autopilotEngaged m \<or> m_stream m \<or> m_compact m \<or> m_deciding m then ([], m)
      else if trim_space (m_composer m) \<noteq> [] then ([], m)
      else autopilotDecideCmd E \<lparr>tg_origin = FromRecovery,
             tg_situation = ''the previous turn did not finish - it failed with: '' @ failure\<rparr> m)"

subsection \<open>Answering a question for the user\<close>

record answer_reply =
  an_Defer :: bool
  an_Answers :: "(string, string list) gomap"

definition validQuestionLabels :: "QuestionItem \<Rightarrow> string list \<Rightarrow> string list" where
  "validQuestionLabels q labels = filter (\<lambda>l. l \<in> set (qi_Options q)) labels"

fun choose_answers :: "(string, string list) gomap \<Rightarrow> nat \<Rightarrow> QuestionItem list \<Rightarrow> (nat \<times> string list) list option" where
  "choose_answers answers i [] = Some []"
| "choose_answers answers i (q # qs) =
     (let chosen = validQuestionLabels q (case gm_get answers (nat_str i) of None \<Rightarrow> [] | Some ls \<Rightarrow> ls)
      in if chosen = [] then None
         else map_option (\<lambda>rest. (i, if qi_MultiSelect q then chosen else take 1 chosen) # rest) (choose_answers answers (Suc i) qs))"

definition autopilotAnswerQuestion ::
    "(nat \<Rightarrow> err + string) \<Rightarrow> (string \<Rightarrow> string + answer_reply) \<Rightarrow> (nat \<Rightarrow> int \<Rightarrow> bool) \<Rightarrow> QuestionRequest
      \<Rightarrow> (nat \<times> string list) list option" where
  "autopilotAnswerQuestion complete decode wait req =
     (case autopilotSteer complete (\<lambda>content. decode (ExtractJSONObject content)) wait 1 of
        Inl e \<Rightarrow> None
      | Inr out \<Rightarrow> if an_Defer out then None else choose_answers (an_Answers out) 0 (qr_Questions req))"

definition autopilotAnswerQuestionCmd :: "app_env \<Rightarrow> QuestionRequest \<Rightarrow> app \<Rightarrow> app_cmd list" where
  "autopilotAnswerQuestionCmd E req m =
     (if \<not> autopilotEngaged m \<or> \<not> steer_Question (ap_Steers (m_AutoPilot m)) \<or> qr_Questions req = [] then []
      else if \<not> ae_model E (ap_Model (m_AutoPilot m)) then []
      else [AnswerCmd req (trim_space (ap_Mission (m_AutoPilot m)))
              (autopilotRecentTranscript (ae_width E) (m_chat m) 2000)])"

definition handleQuestionRequest :: "app_env \<Rightarrow> QuestionRequest \<Rightarrow> app \<Rightarrow> app_cmd list \<times> app" where
  "handleQuestionRequest E req m =
     (let m = m\<lparr>m_question := Some req, m_reply_open := True\<rparr> in (autopilotAnswerQuestionCmd E req m, m))"

text \<open>\<open>None\<close> is the answer of a user who closes the question.\<close>

definition handleQuestionResponse :: "(nat \<times> string list) list option \<Rightarrow> app \<Rightarrow> app_cmd list \<times> app" where
  "handleQuestionResponse response m =
     (let open_reply = m_reply_open m; m = m\<lparr>m_reply_open := False, m_question := None\<rparr>
      in (if open_reply then [ReplyCmd response] else [], m))"

definition handleAutopilotQuestion ::
    "QuestionRequest \<Rightarrow> (nat \<times> string list) list option \<Rightarrow> app \<Rightarrow> app_cmd list \<times> app" where
  "handleAutopilotQuestion req answers m =
     (if m_question m \<noteq> Some req \<or> \<not> m_reply_open m then ([], m)
      else if \<not> autopilotEngaged m \<or> \<not> steer_Question (ap_Steers (m_AutoPilot m)) then ([], m)
      else case answers of
             None \<Rightarrow> ([], AddNotice ''over to you - this question is yours'' m)
           | Some as \<Rightarrow>
               if as = [] then ([], AddNotice ''over to you - this question is yours'' m)
               else handleQuestionResponse (Some as) (AddNotice ''answered for you'' m))"

subsection \<open>Turns and sessions\<close>

text \<open>\<open>held\<close>: the head of the queue is being edited.  A message of the queue has no images here.\<close>

definition releaseQueuedMessage :: "bool \<Rightarrow> app \<Rightarrow> (app_cmd list \<times> app) option" where
  "releaseQueuedMessage held m =
     (if held then None
      else case m_queue m of
             [] \<Rightarrow> None
           | item # rest \<Rightarrow> Some ([SubmitCmd item], m\<lparr>m_queue := rest, m_chat := m_chat m @ [user_chat item []]\<rparr>))"

definition drainInputQueueWhileIdle :: "app_env \<Rightarrow> app \<Rightarrow> app_cmd list \<times> app" where
  "drainInputQueueWhileIdle E m =
     (case m_queue m of
        [] \<Rightarrow> ([], m)
      | item # rest \<Rightarrow>
          (let draft = m_composer m; (cmds, m) = dispatchSubmission E item (m\<lparr>m_queue := rest\<rparr>)
           in (cmds, if draft \<noteq> [] \<and> m_composer m = [] then m\<lparr>m_composer := draft\<rparr> else m)))"

text \<open>The end of a turn; \<open>others\<close> is a prompt of the scheduler, a hook or a worker that waits for the turn.\<close>

definition drainTurnQueues :: "bool \<Rightarrow> string option \<Rightarrow> app \<Rightarrow> (app_cmd list \<times> app) option" where
  "drainTurnQueues held others m =
     (case releaseQueuedMessage held m of
        Some r \<Rightarrow> Some r
      | None \<Rightarrow> map_option (\<lambda>s. ([SubmitCmd s], m)) others)"

definition OnTurnEnd :: "app_env \<Rightarrow> bool \<Rightarrow> string option \<Rightarrow> StopReason \<Rightarrow> app \<Rightarrow> app_cmd list \<times> app" where
  "OnTurnEnd E held others reason m =
     (let m = m\<lparr>m_recoveries := 0\<rparr>
      in if reason = StopCancelled then ([], m)
         else case drainTurnQueues held others m of
                Some r \<Rightarrow> r
              | None \<Rightarrow>
                  (let (cmds, m) = autopilotContinueCmd E reason m
                   in (if cmds \<noteq> [] then cmds else [IdleHooksCmd], m)))"

text \<open>The agent stopped with an error (\<open>None\<close>: it was shut down).  The question on the screen stays pending.\<close>

definition OnAgentStop :: "app_env \<Rightarrow> string option \<Rightarrow> app \<Rightarrow> app_cmd list \<times> app" where
  "OnAgentStop E failure m =
     (case failure of
        None \<Rightarrow> ([], m)
      | Some e \<Rightarrow> autopilotRecoverCmd E failure (AddNotice (''Agent error: '' @ e) m))"

definition restore_posture :: "AutoPilotSettings option \<Rightarrow> string \<Rightarrow> app \<Rightarrow> app" where
  "restore_posture stored stored_mode m =
     (let ar = parseAutoPilot stored;
          m = (if \<not> AutoPilot_IsZero ar then m\<lparr>m_AutoPilot := ar\<rparr> else m);
          m = rebuildAutopilotReviewer m; mode = parseSessionMode stored_mode
      in if mode \<noteq> m_OperationMode m
           then (let m = ApplyModePermissions (m_cwd m) (m\<lparr>m_OperationMode := mode\<rparr>)
                 in SetPermissionMode (OperationModeName m) m)
         else m)"

definition applyNewSession :: "app \<Rightarrow> app" where
  "applyNewSession m = m\<lparr>m_AutoPilot := da_AutoPilot (Clone (m_live m))\<rparr>"

subsection \<open>Messages\<close>

text \<open>
  What the loop of the interface may receive: input of the human, replies of commands, events of the agent,
  and the start and end of a stream of the agent and of a compaction, which its events announce later.
\<close>

datatype app_event =
    EvType string | EvEnter | EvCycle | EvMsg app_msg
  | EvPanelSave AutoPilotSettings | EvPanelStart AutoPilotSettings | EvMission string
  | EvDecision autopilotDecision | EvRecover string
  | EvTurnEnd bool "string option" StopReason | EvAgentStop "string option"
  | EvQuestion QuestionRequest | EvUserAnswer "(nat \<times> string list) list option"
  | EvCopilotAnswer QuestionRequest "(nat \<times> string list) list option"
  | EvStream bool | EvCompact bool | EvDrainIdle | EvNewSession | EvResume "AutoPilotSettings option" string

definition app_step :: "app_env \<Rightarrow> app_event \<Rightarrow> app \<Rightarrow> app_cmd list \<times> app" where
  "app_step E ev m =
     (case ev of
        EvType s \<Rightarrow> ([], m\<lparr>m_composer := s\<rparr>)
      | EvEnter \<Rightarrow> handleSubmit E m
      | EvCycle \<Rightarrow> cycleOperationMode E m
      | EvMsg (YoloMsg enable) \<Rightarrow> (let (notice, m) = applyYoloMode E enable m in ([], AddNotice notice m))
      | EvMsg (GoalSetMsg goal) \<Rightarrow> startGoal E goal m
      | EvMsg GoalClearedMsg \<Rightarrow> ([], clearGoal m)
      | EvPanelSave cfg \<Rightarrow> ([], AddNotice ''Autopilot config saved'' (persistAutopilotDefault E (m\<lparr>m_AutoPilot := cfg\<rparr>)))
      | EvPanelStart cfg \<Rightarrow>
          autopilotKickCmd E (AddNotice ''Autopilot engaged''
            (enterAutoPilotMode E (persistAutopilotDefault E (m\<lparr>m_AutoPilot := cfg\<rparr>))))
      | EvMission s \<Rightarrow>
          ([], writeAutopilotDefault E (refreshAutopilotSnapshot (m\<lparr>m_AutoPilot := (m_AutoPilot m)\<lparr>ap_Mission := s\<rparr>\<rparr>)))
      | EvDecision d \<Rightarrow> handleAutopilotDecision E d m
      | EvRecover failure \<Rightarrow> handleAutopilotRecover E failure m
      | EvTurnEnd held others reason \<Rightarrow> OnTurnEnd E held others reason m
      | EvAgentStop failure \<Rightarrow> OnAgentStop E failure m
      | EvQuestion req \<Rightarrow> handleQuestionRequest E req m
      | EvUserAnswer r \<Rightarrow> handleQuestionResponse r m
      | EvCopilotAnswer req r \<Rightarrow> handleAutopilotQuestion req r m
      | EvStream b \<Rightarrow> ([], m\<lparr>m_stream := b\<rparr>)
      | EvCompact b \<Rightarrow> ([], m\<lparr>m_compact := b\<rparr>)
      | EvDrainIdle \<Rightarrow> drainInputQueueWhileIdle E m
      | EvNewSession \<Rightarrow> ([], applyNewSession m)
      | EvResume stored mode \<Rightarrow> ([], restore_posture stored mode m))"

fun app_run :: "app_env \<Rightarrow> app_event list \<Rightarrow> app \<Rightarrow> app_cmd list \<times> app" where
  "app_run E [] m = ([], m)"
| "app_run E (ev # evs) m =
     (let (cmds, m1) = app_step E ev m; (rest, m2) = app_run E evs m1 in (cmds @ rest, m2))"

subsection \<open>What a handler changes\<close>

lemmas posture_defs = ApplyModePermissions_def ResetSessionPermissions_def applyEditPosture_def SetPermissionMode_def
  applyOperationMode_def persistOperationMode_def enterAutoPilotMode_def cycleOperationMode_def persistBypass_def
  applyYoloMode_def rebuildAutopilotReviewer_def refreshAutopilotSnapshot_def writeAutopilotDefault_def
  persistAutopilotDefault_def AddNotice_def Let_def

lemmas submit_defs = handleSubmit_def enqueueWhileStreaming_def dispatchSubmission_def HandleCommand_def AddNotice_def Let_def

text \<open>The fields that the copilot's budget, a goal and the bypass rest on.\<close>

definition same_pilot :: "app \<Rightarrow> app \<Rightarrow> bool" where
  "same_pilot m m' \<longleftrightarrow> m_AutoPilot m' = m_AutoPilot m \<and> m_beforeGoal m' = m_beforeGoal m \<and> m_recoveries m' = m_recoveries m
     \<and> m_live m' = m_live m"

definition same_posture :: "app \<Rightarrow> app \<Rightarrow> bool" where
  "same_posture m m' \<longleftrightarrow> m_Session m' = m_Session m \<and> m_OperationMode m' = m_OperationMode m"

definition is_request :: "app_cmd \<Rightarrow> bool" where
  "is_request c = (case c of DecideCmd tg ms ev \<Rightarrow> True | _ \<Rightarrow> False)"

definition is_redelivery :: "app_cmd \<Rightarrow> bool" where
  "is_redelivery c = (case c of DecisionTick d \<Rightarrow> True | _ \<Rightarrow> False)"

definition requests :: "app_cmd list \<Rightarrow> nat" where
  "requests cmds = length (filter is_request cmds)"

definition redeliveries :: "app_cmd list \<Rightarrow> nat" where
  "redeliveries cmds = length (filter is_redelivery cmds)"

lemma cmd_counts [simp]:
  "requests [] = 0" "redeliveries [] = 0"
  "requests (c # cs) = (if is_request c then Suc (requests cs) else requests cs)"
  "redeliveries (c # cs) = (if is_redelivery c then Suc (redeliveries cs) else redeliveries cs)"
  by (simp_all add: requests_def redeliveries_def)

lemma cmd_kinds [simp]:
  "is_request (DecideCmd tg ms ev)" "\<not> is_redelivery (DecideCmd tg ms ev)"
  "is_redelivery (DecisionTick d)" "\<not> is_request (DecisionTick d)"
  "\<not> is_request (SubmitCmd s)" "\<not> is_redelivery (SubmitCmd s)" "\<not> is_request QuitCmd" "\<not> is_redelivery QuitCmd"
  "\<not> is_request (EmitCmd g)" "\<not> is_redelivery (EmitCmd g)" "\<not> is_request (OtherCmd s)" "\<not> is_redelivery (OtherCmd s)"
  "\<not> is_request IdleHooksCmd" "\<not> is_redelivery IdleHooksCmd" "\<not> is_request SettleTick" "\<not> is_redelivery SettleTick"
  "\<not> is_request (RecoverTick n s)" "\<not> is_redelivery (RecoverTick n s)" "\<not> is_request (AnswerCmd q s t)"
  "\<not> is_redelivery (AnswerCmd q s t)" "\<not> is_request (ReplyCmd r)" "\<not> is_redelivery (ReplyCmd r)"
  by (simp_all add: is_request_def is_redelivery_def)

lemma HandleCommand_keeps:
  assumes "HandleCommand E raw name args m = (cmds, m')"
  shows "same_pilot m m' \<and> same_posture m m' \<and> m_continuations m' = m_continuations m
    \<and> requests cmds = 0 \<and> redeliveries cmds = 0"
  using assms
  by (auto simp: HandleCommand_def Let_def same_pilot_def same_posture_def AddNotice_def split: prod.splits if_splits option.splits)

lemma dispatch_keeps:
  assumes "dispatchSubmission E raw m = (cmds, m')"
  shows "same_pilot m m' \<and> same_posture m m' \<and> m_continuations m' \<in> {0, m_continuations m}
    \<and> (m_continuing m \<longrightarrow> m_continuations m' = m_continuations m) \<and> requests cmds = 0 \<and> redeliveries cmds = 0"
proof -
  define v where "v = (if m_continuing m then m\<lparr>m_continuing := False\<rparr> else m\<lparr>m_continuations := 0\<rparr>)"
  have v: "same_pilot m v" "same_posture m v" "m_continuations v \<in> {0, m_continuations m}"
    "m_continuing m \<longrightarrow> m_continuations v = m_continuations m"
    by (simp_all add: v_def same_pilot_def same_posture_def)
  show ?thesis
  proof (cases "IsExitRequest raw \<or> ae_hook E raw \<noteq> None \<or> ParseCommand raw = None")
    case True
    then show ?thesis
      using assms v unfolding dispatchSubmission_def Let_def v_def [symmetric]
      by (auto simp: same_pilot_def same_posture_def AddNotice_def split: option.splits sum.splits prod.splits if_splits)
  next
    case False
    then obtain name args where "ParseCommand raw = Some (name, args)" by auto
    then have "HandleCommand E raw name args v = (cmds, m')"
      using assms False unfolding dispatchSubmission_def Let_def v_def [symmetric] by simp
    from HandleCommand_keeps [OF this] v show ?thesis by (auto simp: same_pilot_def same_posture_def)
  qed
qed

lemma submit_keeps:
  assumes "handleSubmit E m = (cmds, m')"
  shows "same_pilot m m' \<and> same_posture m m' \<and> m_continuations m' \<in> {0, m_continuations m}
    \<and> (m_continuing m \<longrightarrow> m_continuations m' = m_continuations m) \<and> requests cmds = 0 \<and> redeliveries cmds = 0"
proof (cases "trim_space (m_composer m) = [] \<or> m_stream m \<or> m_compact m")
  case True
  then show ?thesis
    using assms by (auto simp: handleSubmit_def enqueueWhileStreaming_def AddNotice_def same_pilot_def same_posture_def Let_def
        split: if_splits)
next
  case False
  then have "dispatchSubmission E (trim_space (m_composer m)) m = (cmds, m')"
    using assms by (simp add: handleSubmit_def Let_def)
  then show ?thesis by (rule dispatch_keeps)
qed

lemma decide_keeps:
  assumes "autopilotDecideCmd E tg m = (cmds, m')"
  shows "same_pilot m m' \<and> same_posture m m' \<and> m_continuations m' = m_continuations m
    \<and> requests cmds \<le> 1 \<and> redeliveries cmds = 0"
  using assms by (auto simp: autopilotDecideCmd_def Let_def same_pilot_def same_posture_def split: if_splits)

subsection \<open>The budget of the copilot\<close>

text \<open>Events that leave the configuration of the copilot alone.\<close>

definition keeps_config :: "app_event \<Rightarrow> bool" where
  "keeps_config ev =
     (case ev of
        EvMsg (YoloMsg enable) \<Rightarrow> True | EvMsg g \<Rightarrow> False
      | EvPanelSave cfg \<Rightarrow> False | EvPanelStart cfg \<Rightarrow> False | EvNewSession \<Rightarrow> False | EvResume stored mode \<Rightarrow> False
      | _ \<Rightarrow> True)"

definition is_decision :: "app_event \<Rightarrow> bool" where
  "is_decision ev = (case ev of EvDecision d \<Rightarrow> True | _ \<Rightarrow> False)"

text \<open>
  What a handler sends off on behalf of the one who submitted: a message to the agent or a slash command; and
  the events with which the human submits something, at the prompt or from the queue.
\<close>

definition is_input :: "app_cmd \<Rightarrow> bool" where
  "is_input c = (case c of SubmitCmd s \<Rightarrow> True | OtherCmd s \<Rightarrow> True | EmitCmd g \<Rightarrow> True | _ \<Rightarrow> False)"

definition inputs :: "app_cmd list \<Rightarrow> nat" where
  "inputs cmds = length (filter is_input cmds)"

lemma inputs_simps [simp]:
  "inputs [] = 0" "inputs (c # cs) = (if is_input c then Suc (inputs cs) else inputs cs)"
  by (simp_all add: inputs_def)

definition human_turn :: "app_event \<Rightarrow> app \<Rightarrow> bool" where
  "human_turn ev m =
     (case ev of
        EvEnter \<Rightarrow> trim_space (m_composer m) \<noteq> [] \<and> \<not> m_stream m \<and> \<not> m_compact m
      | EvDrainIdle \<Rightarrow> m_queue m \<noteq> []
      | _ \<Rightarrow> False)"

definition is_recovery :: "app_event \<Rightarrow> bool" where
  "is_recovery ev = (case ev of EvRecover failure \<Rightarrow> True | _ \<Rightarrow> False)"

text \<open>
  The states that are reached while the configuration is left alone, with three counters of what is seen from
  outside: the inputs that were sent off by decisions of the copilot since the human last submitted something,
  the decisions that are in flight, and the requests that no check of the budget covers, that is, those made
  while another decision was in flight and those of a recovery that began with the cap used up.
\<close>

inductive driven :: "app_env \<Rightarrow> app \<Rightarrow> app \<Rightarrow> nat \<Rightarrow> nat \<Rightarrow> nat \<Rightarrow> bool" for E :: app_env and m0 :: app where
  start: "driven E m0 m0 0 0 0"
| event: "driven E m0 m n p v \<Longrightarrow> keeps_config ev \<Longrightarrow> (is_decision ev \<longrightarrow> 0 < p) \<Longrightarrow> app_step E ev m = (cmds, m') \<Longrightarrow>
    driven E m0 m' (if is_decision ev then n + inputs cmds else if human_turn ev m then 0 else n)
      (p - (if is_decision ev then 1 else 0) + requests cmds + redeliveries cmds)
      (v + (if 0 < p \<or> is_recovery ev \<and> ResolvedMaxContinuations (m_AutoPilot m0) \<le> int n then requests cmds else 0))"

definition same_cap :: "app \<Rightarrow> app \<Rightarrow> bool" where
  "same_cap m m' \<longleftrightarrow> ap_MaxContinuations (m_AutoPilot m') = ap_MaxContinuations (m_AutoPilot m) \<and> m_beforeGoal m' = m_beforeGoal m"

lemma same_pilot_cap: "same_pilot m m' \<Longrightarrow> same_cap m m'"
  by (simp add: same_pilot_def same_cap_def)

lemma retire_keeps_cap: "m_beforeGoal m = None \<Longrightarrow> same_cap m (retireAutopilotMission m)"
  by (simp add: retireAutopilotMission_def rebuildAutopilotReviewer_def StopDriving_def same_cap_def Let_def)

lemma retire_count: "m_continuations (retireAutopilotMission m) = m_continuations m"
  by (simp add: retireAutopilotMission_def rebuildAutopilotReviewer_def Let_def split: option.split)

lemma dispatch_inputs: "dispatchSubmission E raw m = (cmds, m') \<Longrightarrow> inputs cmds \<le> 1"
  by (auto simp: dispatchSubmission_def HandleCommand_def AddNotice_def Let_def is_input_def
      split: option.splits sum.splits prod.splits if_splits)

lemma submit_inputs: "handleSubmit E m = (cmds, m') \<Longrightarrow> \<not> m_stream m \<Longrightarrow> inputs cmds \<le> 1"
  by (auto simp: handleSubmit_def Let_def split: if_splits dest: dispatch_inputs)

lemma decision_keeps:
  assumes "handleAutopilotDecision E d m = (cmds, m')" and "m_beforeGoal m = None"
  shows "same_cap m m' \<and> requests cmds = 0 \<and> inputs cmds + redeliveries cmds \<le> 1
    \<and> m_continuations m + int (inputs cmds) \<le> m_continuations m'"
proof -
  define v where "v = m\<lparr>m_deciding := False, m_continuations := m_continuations m + 1, m_continuing := True, m_composer := dm_instruction d\<rparr>"
  show ?thesis
  proof (cases "\<not> (m_compact m \<and> dm_deferrals d < autopilotMaxDeferrals) \<and> \<not> m_stream m \<and> \<not> m_compact m \<and> autopilotEngaged m
      \<and> trim_space (m_composer m) = [] \<and> dm_err d = None \<and> dm_cont d \<and> dm_instruction d \<noteq> []")
    case True
    then have v: "handleSubmit E v = (cmds, m')"
      using assms(1) by (simp add: handleAutopilotDecision_def Let_def v_def autopilotEngaged_def)
    have "inputs cmds \<le> 1" using submit_inputs [OF v] True by (simp add: v_def)
    with submit_keeps [OF v] show ?thesis by (auto simp: v_def same_pilot_def same_cap_def)
  next
    case False
    then show ?thesis
      using assms retire_keeps_cap [of "(AddNotice ''mission complete'' (m\<lparr>m_deciding := False\<rparr>))"]
      by (auto simp: handleAutopilotDecision_def Let_def autopilotEngaged_def autopilotStandDown_def AddNotice_def same_cap_def
          retire_count is_input_def split: if_splits option.splits)
  qed
qed

lemma continue_keeps:
  assumes "autopilotContinueCmd E reason m = (cmds, m')"
  shows "same_pilot m m' \<and> same_posture m m' \<and> m_continuations m' = m_continuations m \<and> requests cmds \<le> 1 \<and> redeliveries cmds = 0
    \<and> (autopilotBudgetSpent m \<longrightarrow> requests cmds = 0)"
  using assms decide_keeps [of E "\<lparr>tg_origin = FromTurnEnd, tg_situation = snd (autopilotStopEvidence reason)\<rparr>" m cmds m']
  by (auto simp: autopilotContinueCmd_def AddNotice_def same_pilot_def same_posture_def split: prod.splits if_splits)

lemma drain_keeps:
  assumes "drainTurnQueues held others m = Some (cmds, m')"
  shows "same_pilot m m' \<and> same_posture m m' \<and> m_continuations m' = m_continuations m \<and> requests cmds = 0 \<and> redeliveries cmds = 0"
  using assms by (auto simp: drainTurnQueues_def releaseQueuedMessage_def same_pilot_def same_posture_def
      split: option.splits list.splits if_splits)

lemma turn_end_keeps:
  assumes "OnTurnEnd E held others reason m = (cmds, m')"
  shows "same_cap m m' \<and> same_posture m m' \<and> m_continuations m' = m_continuations m \<and> requests cmds \<le> 1 \<and> redeliveries cmds = 0
    \<and> (autopilotBudgetSpent m \<longrightarrow> requests cmds = 0) \<and> m_AutoPilot m' = m_AutoPilot m \<and> m_live m' = m_live m \<and> m_recoveries m' = 0"
proof -
  define v where "v = m\<lparr>m_recoveries := 0\<rparr>"
  have v: "autopilotBudgetSpent v = autopilotBudgetSpent m" by (simp add: v_def autopilotBudgetSpent_def)
  obtain c2 m2 where c: "autopilotContinueCmd E reason v = (c2, m2)" using prod.exhaust by blast
  note k = continue_keeps [OF c]
  show ?thesis
  proof (cases "reason = StopCancelled \<or> drainTurnQueues held others v \<noteq> None")
    case True
    then show ?thesis
      using assms drain_keeps [of held others v cmds m'] unfolding OnTurnEnd_def Let_def v_def [symmetric]
      by (auto simp: v_def same_pilot_def same_posture_def same_cap_def split: if_splits)
  next
    case False
    then have "drainTurnQueues held others v = None" by (cases "drainTurnQueues held others v") auto
    with False have "cmds = (if c2 \<noteq> [] then c2 else [IdleHooksCmd])" "m' = m2"
      using assms c unfolding OnTurnEnd_def Let_def v_def [symmetric] by auto
    then show ?thesis using k v by (auto simp: v_def same_pilot_def same_posture_def same_cap_def)
  qed
qed

lemma recover_keeps:
  assumes "handleAutopilotRecover E failure m = (cmds, m')"
  shows "same_pilot m m' \<and> same_posture m m' \<and> m_continuations m' = m_continuations m \<and> requests cmds \<le> 1 \<and> redeliveries cmds = 0"
  using assms by (auto simp: handleAutopilotRecover_def same_pilot_def same_posture_def split: if_splits dest: decide_keeps)

lemma mode_changes_keep:
  "same_pilot m (snd (cycleOperationMode E m))" "m_continuations (snd (cycleOperationMode E m)) = m_continuations m"
  "requests (fst (cycleOperationMode E m)) = 0" "redeliveries (fst (cycleOperationMode E m)) = 0"
  "same_pilot m (snd (applyYoloMode E enable m))" "m_continuations (snd (applyYoloMode E enable m)) = m_continuations m"
  by (simp_all add: posture_defs same_pilot_def split: option.split)

lemma agent_stop_keeps:
  assumes "OnAgentStop E failure m = (cmds, m')"
  shows "same_cap m m' \<and> m_continuations m' = m_continuations m \<and> requests cmds = 0 \<and> redeliveries cmds = 0"
  using assms
  by (auto simp: OnAgentStop_def autopilotRecoverCmd_def AddNotice_def Let_def same_cap_def split: option.splits if_splits)

lemma question_keeps:
  "handleQuestionRequest E req m = (cmds, m') \<Longrightarrow>
     same_pilot m m' \<and> same_posture m m' \<and> m_continuations m' = m_continuations m \<and> requests cmds = 0 \<and> redeliveries cmds = 0"
  "handleQuestionResponse r m = (cmds, m') \<Longrightarrow>
     same_pilot m m' \<and> same_posture m m' \<and> m_continuations m' = m_continuations m \<and> requests cmds = 0 \<and> redeliveries cmds = 0"
  "handleAutopilotQuestion req r m = (cmds, m') \<Longrightarrow>
     same_pilot m m' \<and> same_posture m m' \<and> m_continuations m' = m_continuations m \<and> requests cmds = 0 \<and> redeliveries cmds = 0"
  by (auto simp: handleQuestionRequest_def autopilotAnswerQuestionCmd_def handleQuestionResponse_def handleAutopilotQuestion_def
      AddNotice_def Let_def same_pilot_def same_posture_def split: if_splits option.splits)

lemma drain_idle_keeps:
  assumes "drainInputQueueWhileIdle E m = (cmds, m')"
  shows "same_pilot m m' \<and> same_posture m m' \<and> m_continuations m' \<in> {0, m_continuations m} \<and> requests cmds = 0 \<and> redeliveries cmds = 0"
proof (cases "m_queue m")
  case Nil
  then show ?thesis using assms by (simp add: drainInputQueueWhileIdle_def same_pilot_def same_posture_def)
next
  case (Cons item rest)
  obtain c2 m2 where d: "dispatchSubmission E item (m\<lparr>m_queue := rest\<rparr>) = (c2, m2)" using prod.exhaust by blast
  then have "cmds = c2" "m' = (if m_composer m \<noteq> [] \<and> m_composer m2 = [] then m2\<lparr>m_composer := m_composer m\<rparr> else m2)"
    using assms Cons by (simp_all add: drainInputQueueWhileIdle_def Let_def)
  then show ?thesis using dispatch_keeps [OF d] by (auto simp: same_pilot_def same_posture_def)
qed

lemma drain_idle_empty: "drainInputQueueWhileIdle E m = (cmds, m') \<Longrightarrow> m_queue m = [] \<Longrightarrow> m' = m"
  by (simp add: drainInputQueueWhileIdle_def)

lemma submit_no_turn:
  assumes "handleSubmit E m = (cmds, m')" and "\<not> human_turn EvEnter m"
  shows "m_continuations m' = m_continuations m"
  using assms by (auto simp: handleSubmit_def human_turn_def enqueueWhileStreaming_def AddNotice_def Let_def split: if_splits)

lemma step_budget:
  assumes s: "app_step E ev m = (cmds, m')" and c: "keeps_config ev" and g: "m_beforeGoal m = None"
  shows "same_cap m m' \<and> requests cmds \<le> 1
    \<and> (if is_decision ev
       then requests cmds = 0 \<and> inputs cmds + redeliveries cmds \<le> 1 \<and> m_continuations m + int (inputs cmds) \<le> m_continuations m'
       else redeliveries cmds = 0
         \<and> m_continuations m' \<in> (if human_turn ev m then {0, m_continuations m} else {m_continuations m})
         \<and> (is_recovery ev \<or> autopilotBudgetSpent m \<longrightarrow> is_recovery ev \<or> requests cmds = 0))"
proof -
  note [simp] = app_step_def is_decision_def is_recovery_def same_pilot_cap
  show ?thesis
  proof (cases ev)
    case EvEnter
    then show ?thesis using s submit_keeps [of E m cmds m'] submit_no_turn [of E m cmds m'] by auto
  next
    case EvCycle
    then have "cycleOperationMode E m = (cmds, m')" using s by simp
    then have "snd (cycleOperationMode E m) = m'" "fst (cycleOperationMode E m) = cmds" by simp_all
    then show ?thesis
      using EvCycle mode_changes_keep(1) [where m = m and E = E] mode_changes_keep(2-4) [where m = m and E = E]
      by (simp add: human_turn_def)
  next
    case (EvMsg g)
    then obtain enable where e: "ev = EvMsg (YoloMsg enable)" using c by (cases g) (auto simp: keeps_config_def)
    obtain notice m2 where y: "applyYoloMode E enable m = (notice, m2)" using prod.exhaust by blast
    then have "cmds = []" "m' = AddNotice notice m2" using s e by auto
    then show ?thesis
      using e y mode_changes_keep(5,6) [where m = m and E = E and enable = enable]
      by (simp add: AddNotice_def same_pilot_def same_cap_def human_turn_def)
  next
    case (EvDecision d)
    then show ?thesis using s decision_keeps [OF _ g] by simp
  next
    case (EvRecover failure)
    then show ?thesis using s recover_keeps [of E failure m cmds m'] by (simp add: human_turn_def)
  next
    case (EvTurnEnd held others reason)
    then show ?thesis using s turn_end_keeps [of E held others reason m cmds m'] by (simp add: human_turn_def)
  next
    case (EvAgentStop failure)
    then show ?thesis using s agent_stop_keeps [of E failure m cmds m'] by (simp add: human_turn_def)
  next
    case (EvQuestion req)
    then show ?thesis using s question_keeps(1) [of E req m cmds m'] by (simp add: human_turn_def)
  next
    case (EvUserAnswer r)
    then show ?thesis using s question_keeps(2) [of r m cmds m'] by (simp add: human_turn_def)
  next
    case (EvCopilotAnswer req r)
    then show ?thesis using s question_keeps(3) [of req r m cmds m'] by (simp add: human_turn_def)
  next
    case EvDrainIdle
    then show ?thesis
      using s drain_idle_keeps [of E m cmds m'] drain_idle_empty [of E m cmds m'] by (auto simp: human_turn_def)
  next
    case (EvMission ms)
    then show ?thesis using s
      by (auto simp: writeAutopilotDefault_def refreshAutopilotSnapshot_def same_cap_def human_turn_def split: option.split)
  qed (insert s c, auto simp: keeps_config_def same_cap_def human_turn_def)
qed

lemma driven_invariant:
  assumes "driven E m0 m n p v" and "m_beforeGoal m0 = None" and "m_continuations m0 = 0" and "\<not> ContinuationsUnlimited (m_AutoPilot m0)"
  shows "same_cap m0 m \<and> int n \<le> m_continuations m
    \<and> int n + int p \<le> ResolvedMaxContinuations (m_AutoPilot m0) + int v"
  using assms(1)
proof induction
  case start
  then show ?case using assms by (simp add: same_cap_def ResolvedMaxContinuations_def AutoPilotDefaultMaxContinuations_def)
next
  case (event m n p v ev cmds m')
  have g: "m_beforeGoal m = None" using event.IH assms(2) by (simp add: same_cap_def)
  note b = step_budget [OF event.hyps(4,2) g]
  have cap: "same_cap m0 m'" using event.IH b by (simp add: same_cap_def)
  have spent: "autopilotBudgetSpent m \<longleftrightarrow> ResolvedMaxContinuations (m_AutoPilot m0) \<le> m_continuations m"
    using event.IH assms(4)
    by (auto simp: autopilotBudgetSpent_def ContinuationsUnlimited_def ResolvedMaxContinuations_def same_cap_def)
  show ?case
  proof (cases "is_decision ev")
    case True
    then have "0 < p" using event.hyps(3) by simp
    then show ?thesis using True b event.IH cap by simp
  next
    case False
    then show ?thesis using b event.IH cap spent by (auto split: if_splits)
  qed
qed

text \<open>
  C17: While the configuration is left alone and no goal is set, the copilot takes no more turns on its own
  after the human last submitted something than its cap allows, the decisions in flight included, except for
  the requests that no check of the budget covers: those made while another decision was in flight, and those
  of a recovery that began with the cap used up.  The turns counted are the inputs that were really sent off by
  a decision of the copilot, not the counter that the program keeps.
\<close>

theorem copilot_turns_are_bounded:
  assumes "driven E m0 m n p v" and "m_beforeGoal m0 = None" and "m_continuations m0 = 0" and "\<not> ContinuationsUnlimited (m_AutoPilot m0)"
  shows "int n + int p \<le> ResolvedMaxContinuations (m_AutoPilot m0) + int v"
  using driven_invariant [OF assms] by simp

subsection \<open>The bypass\<close>

lemma mode_keeps_bypass [simp]:
  "BypassPermissions (m_Session (ApplyModePermissions cwd m)) = BypassPermissions (m_Session m)"
  by (simp add: posture_defs ResetPosture_def SetMode_def GrantEditPosture_def addWorkingDirectoryLocked_def)

lemma mode_ops_keep_bypass:
  "BypassPermissions (m_Session (snd (cycleOperationMode E m))) = BypassPermissions (m_Session m)"
  "BypassPermissions (m_Session (enterAutoPilotMode E m)) = BypassPermissions (m_Session m)"
  "BypassPermissions (m_Session (restore_posture stored mode m)) = BypassPermissions (m_Session m)"
  "BypassPermissions (m_Session (retireAutopilotMission m)) = BypassPermissions (m_Session m)"
  by (simp_all add: cycleOperationMode_def enterAutoPilotMode_def persistOperationMode_def applyOperationMode_def
      SetPermissionMode_def restore_posture_def rebuildAutopilotReviewer_def retireAutopilotMission_def Let_def
      split: option.split)

lemma mode_ops_keep_live:
  "m_live (ApplyModePermissions cwd m) = m_live m"
  "m_live (snd (cycleOperationMode E m)) = m_live m"
  "m_live (enterAutoPilotMode E m) = m_live m"
  "m_live (restore_posture stored mode m) = m_live m"
  "m_live (retireAutopilotMission m) = m_live m"
  "m_live (snd (applyYoloMode E enable m)) = m_live m"
  by (simp_all add: posture_defs restore_posture_def retireAutopilotMission_def split: option.split)

lemma kick_keeps: "autopilotKickCmd E m = (cmds, m') \<Longrightarrow> same_pilot m m' \<and> same_posture m m'"
  by (auto simp: autopilotKickCmd_def same_pilot_def same_posture_def split: if_splits dest: decide_keeps)

lemma start_goal_keeps:
  assumes "startGoal E goal m = (cmds, m')"
  shows "BypassPermissions (m_Session m') = BypassPermissions (m_Session m) \<and> m_live m' = m_live m
    \<and> m_beforeGoal m' = Some (case m_beforeGoal m of None \<Rightarrow> m_AutoPilot m | Some b \<Rightarrow> b)"
proof -
  define u where "u = (if m_beforeGoal m = None then m\<lparr>m_beforeGoal := Some (m_AutoPilot m)\<rparr> else m)"
  define v where "v = enterAutoPilotMode E (refreshAutopilotSnapshot
    (u\<lparr>m_AutoPilot := EngageDriving ((m_AutoPilot u)\<lparr>ap_Mission := goal\<rparr>)\<rparr>))"
  have u: "m_Session u = m_Session m" "m_live u = m_live m"
    "m_beforeGoal u = Some (case m_beforeGoal m of None \<Rightarrow> m_AutoPilot m | Some b \<Rightarrow> b)"
    by (simp_all add: u_def split: option.split)
  have v: "BypassPermissions (m_Session v) = BypassPermissions (m_Session m)" "m_live v = m_live m"
    "m_beforeGoal v = Some (case m_beforeGoal m of None \<Rightarrow> m_AutoPilot m | Some b \<Rightarrow> b)"
    using u by (simp_all add: v_def mode_ops_keep_bypass mode_ops_keep_live refreshAutopilotSnapshot_def split: option.split)
       (simp_all add: posture_defs split: option.split)
  have "(if m_stream v then ([], AddNotice ''goal set - starts after this turn'' v)
      else autopilotKickCmd E (AddNotice ''goal set'' v)) = (cmds, m')"
    using assms unfolding startGoal_def Let_def u_def [symmetric] v_def [symmetric] .
  then show ?thesis
    using v kick_keeps [of E "AddNotice ''goal set'' v" cmds m']
    by (auto simp: AddNotice_def same_pilot_def same_posture_def split: if_splits)
qed

lemma decision_posture:
  assumes "handleAutopilotDecision E d m = (cmds, m')"
  shows "BypassPermissions (m_Session m') = BypassPermissions (m_Session m) \<and> m_live m' = m_live m"
proof -
  define v where "v = m\<lparr>m_deciding := False, m_continuations := m_continuations m + 1, m_continuing := True, m_composer := dm_instruction d\<rparr>"
  show ?thesis
  proof (cases "handleSubmit E v = (cmds, m')")
    case True
    from submit_keeps [OF this] show ?thesis by (simp add: v_def same_pilot_def same_posture_def)
  next
    case False
    then show ?thesis
      using assms mode_ops_keep_bypass(4) [of "AddNotice ''mission complete'' (m\<lparr>m_deciding := False\<rparr>)"]
        mode_ops_keep_live(5) [of "AddNotice ''mission complete'' (m\<lparr>m_deciding := False\<rparr>)"]
      by (auto simp: handleAutopilotDecision_def Let_def v_def AddNotice_def split: if_splits option.splits)
  qed
qed

lemma step_bypass:
  assumes s: "app_step E ev m = (cmds, m')"
  shows "m_live m' = m_live m \<and> (BypassPermissions (m_Session m') \<longrightarrow>
    BypassPermissions (m_Session m) \<or> (\<exists>enable. ev = EvMsg (YoloMsg enable)) \<and> AllowBypass (m_live m))"
proof -
  note [simp] = app_step_def same_pilot_def same_posture_def AddNotice_def
  show ?thesis
  proof (cases ev)
    case EvEnter
    then show ?thesis using s submit_keeps [of E m cmds m'] by auto
  next
    case EvCycle
    then have "snd (cycleOperationMode E m) = m'" using s by simp
    then show ?thesis using mode_ops_keep_bypass(1) [of E m] mode_ops_keep_live(2) [of E m] by simp
  next
    case (EvMsg g)
    show ?thesis
    proof (cases g)
      case (YoloMsg enable)
      obtain notice m2 where y: "applyYoloMode E enable m = (notice, m2)" using prod.exhaust by blast
      then have "m' = AddNotice notice m2" using s EvMsg YoloMsg by auto
      then show ?thesis
        using y EvMsg YoloMsg mode_ops_keep_live(6) [of E enable m]
        by (auto simp: applyYoloMode_def Let_def persistBypass_def SetPermissionMode_def SetBypass_def split: if_splits)
    next
      case (GoalSetMsg goal)
      then show ?thesis using s EvMsg start_goal_keeps [of E goal m cmds m'] by simp
    next
      case GoalClearedMsg
      then show ?thesis
        using s EvMsg mode_ops_keep_bypass(4) [of m] mode_ops_keep_live(5) [of m] by (auto simp: clearGoal_def split: if_splits)
    qed
  next
    case (EvPanelSave cfg)
    then show ?thesis using s by (auto simp: persistAutopilotDefault_def writeAutopilotDefault_def rebuildAutopilotReviewer_def)
  next
    case (EvPanelStart cfg)
    define v where "v = enterAutoPilotMode E (persistAutopilotDefault E (m\<lparr>m_AutoPilot := cfg\<rparr>))"
    have "BypassPermissions (m_Session v) = BypassPermissions (m_Session m)" "m_live v = m_live m"
      by (simp_all add: v_def mode_ops_keep_bypass mode_ops_keep_live)
         (simp_all add: persistAutopilotDefault_def writeAutopilotDefault_def rebuildAutopilotReviewer_def)
    then show ?thesis
      using s EvPanelStart kick_keeps [of E "AddNotice ''Autopilot engaged'' v" cmds m'] by (simp add: v_def)
  next
    case (EvDecision d)
    then show ?thesis using s decision_posture [of E d m cmds m'] by simp
  next
    case (EvRecover failure)
    then show ?thesis using s recover_keeps [of E failure m cmds m'] by simp
  next
    case (EvTurnEnd held others reason)
    then show ?thesis using s turn_end_keeps [of E held others reason m cmds m'] by simp
  next
    case (EvAgentStop failure)
    then show ?thesis using s
      by (auto simp: OnAgentStop_def autopilotRecoverCmd_def Let_def split: option.splits if_splits)
  next
    case (EvQuestion req)
    then show ?thesis using s question_keeps(1) [of E req m cmds m'] by simp
  next
    case (EvUserAnswer r)
    then show ?thesis using s question_keeps(2) [of r m cmds m'] by simp
  next
    case (EvCopilotAnswer req r)
    then show ?thesis using s question_keeps(3) [of req r m cmds m'] by simp
  next
    case EvDrainIdle
    then show ?thesis using s drain_idle_keeps [of E m cmds m'] by simp
  next
    case (EvMission ms)
    then show ?thesis using s by (cases "m_runtime m") (auto simp: writeAutopilotDefault_def refreshAutopilotSnapshot_def)
  next
    case EvNewSession
    then show ?thesis using s by (auto simp: applyNewSession_def)
  next
    case (EvResume stored mode)
    then show ?thesis using s mode_ops_keep_bypass(3) [of stored mode m] mode_ops_keep_live(4) [of stored mode m] by auto
  qed (insert s, auto)
qed

lemma app_run_live: "app_run E evs m = (cmds, m') \<Longrightarrow> m_live m' = m_live m"
  by (induction evs arbitrary: m cmds) (auto split: prod.splits dest: step_bypass)

text \<open>
  C16: Once the session runs, the lock holds: if the settings forbid the bypass and it is off, then no event turns
  it on, be it a change of mode, a resumed session, a goal or a command that the copilot types.
\<close>

theorem locked_bypass_stays_off:
  assumes "app_run E evs m = (cmds, m')" and "\<not> AllowBypass (m_live m)" and "\<not> IsBypass (m_Session m)"
  shows "\<not> IsBypass (m_Session m')"
  using assms
proof (induction evs arbitrary: m cmds)
  case (Cons ev evs)
  obtain c1 m1 where s: "app_step E ev m = (c1, m1)" using prod.exhaust by blast
  obtain c2 where r: "app_run E evs m1 = (c2, m')" using Cons.prems(1) s by (auto split: prod.splits)
  show ?case using Cons.IH [OF r] step_bypass [OF s] Cons.prems(2,3) by (auto simp: IsBypass_def)
qed simp

text \<open>The lock does not hold at the start: a persisted bypass comes back whatever the settings allow.\<close>

theorem startup_ignores_the_lock:
  "IsBypass (m_Session (applyStartupSettings (Some s) m)) \<longleftrightarrow> da_BypassEnabled s = Some True"
  by (simp add: applyStartupSettings_def Let_def ApplyPersistedBypass_def IsBypass_def SetBypass_def BypassEnabledOn_def)

subsection \<open>Goals\<close>

definition may_end_the_goal :: "app_event \<Rightarrow> bool" where
  "may_end_the_goal ev = (case ev of EvMsg GoalClearedMsg \<Rightarrow> True | EvDecision d \<Rightarrow> dm_done d | _ \<Rightarrow> False)"

lemma step_keeps_goal:
  assumes s: "app_step E ev m = (cmds, m')" and g: "m_beforeGoal m = Some b" and n: "\<not> may_end_the_goal ev"
  shows "m_beforeGoal m' = Some b"
proof -
  note [simp] = app_step_def same_pilot_def same_cap_def AddNotice_def may_end_the_goal_def
  show ?thesis
  proof (cases ev)
    case EvEnter
    then show ?thesis using s g submit_keeps [of E m cmds m'] by simp
  next
    case EvCycle
    then have "snd (cycleOperationMode E m) = m'" using s by simp
    then show ?thesis using g mode_changes_keep(1) [where m = m and E = E] by simp
  next
    case (EvMsg msg)
    show ?thesis
    proof (cases msg)
      case (YoloMsg enable)
      obtain notice m2 where y: "applyYoloMode E enable m = (notice, m2)" using prod.exhaust by blast
      then have "m' = AddNotice notice m2" using s EvMsg YoloMsg by auto
      then show ?thesis using y g mode_changes_keep(5) [where m = m and E = E and enable = enable] by simp
    next
      case (GoalSetMsg goal)
      then show ?thesis using s g EvMsg start_goal_keeps [of E goal m cmds m'] by simp
    next
      case GoalClearedMsg
      then show ?thesis using n EvMsg by simp
    qed
  next
    case (EvPanelSave cfg)
    then show ?thesis using s g by (auto simp: persistAutopilotDefault_def writeAutopilotDefault_def rebuildAutopilotReviewer_def)
  next
    case (EvPanelStart cfg)
    define v where "v = enterAutoPilotMode E (persistAutopilotDefault E (m\<lparr>m_AutoPilot := cfg\<rparr>))"
    have "m_beforeGoal v = Some b" using g by (simp add: v_def posture_defs split: option.split)
    then show ?thesis
      using s EvPanelStart kick_keeps [of E "AddNotice ''Autopilot engaged'' v" cmds m'] by (simp add: v_def)
  next
    case (EvDecision d)
    define v where "v = m\<lparr>m_deciding := False, m_continuations := m_continuations m + 1, m_continuing := True, m_composer := dm_instruction d\<rparr>"
    have d: "handleAutopilotDecision E d m = (cmds, m')" "\<not> dm_done d" using s n EvDecision by simp_all
    show ?thesis
    proof (cases "handleSubmit E v = (cmds, m')")
      case True
      from submit_keeps [OF this] g show ?thesis by (simp add: v_def)
    next
      case False
      then show ?thesis using d g
        by (auto simp: handleAutopilotDecision_def Let_def v_def split: if_splits option.splits)
    qed
  next
    case (EvRecover failure)
    then show ?thesis using s g recover_keeps [of E failure m cmds m'] by simp
  next
    case (EvTurnEnd held others reason)
    then show ?thesis using s g turn_end_keeps [of E held others reason m cmds m'] by simp
  next
    case (EvAgentStop failure)
    then show ?thesis using s g agent_stop_keeps [of E failure m cmds m'] by simp
  next
    case (EvQuestion req)
    then show ?thesis using s g question_keeps(1) [of E req m cmds m'] by simp
  next
    case (EvUserAnswer r)
    then show ?thesis using s g question_keeps(2) [of r m cmds m'] by simp
  next
    case (EvCopilotAnswer req r)
    then show ?thesis using s g question_keeps(3) [of req r m cmds m'] by simp
  next
    case EvDrainIdle
    then show ?thesis using s g drain_idle_keeps [of E m cmds m'] by simp
  next
    case (EvMission ms)
    then show ?thesis using s g by (cases "m_runtime m") (auto simp: writeAutopilotDefault_def refreshAutopilotSnapshot_def)
  next
    case EvNewSession
    then show ?thesis using s g by (auto simp: applyNewSession_def)
  next
    case (EvResume stored mode)
    then show ?thesis using s g by (auto simp: restore_posture_def posture_defs)
  qed (insert s g, auto)
qed

lemma run_keeps_goal:
  "app_run E evs m = (cmds, m') \<Longrightarrow> m_beforeGoal m = Some b \<Longrightarrow> \<not> list_ex may_end_the_goal evs \<Longrightarrow> m_beforeGoal m' = Some b"
  by (induction evs arbitrary: m cmds) (auto split: prod.splits dest: step_keeps_goal)

text \<open>
  C19: A goal that is set where none was remembered, and cleared while a mission is still set, gives back the
  configuration that it found, with an empty mission, provided that no event in between may itself end the
  goal: a decision that calls it done, or another clear.  That is so for every other event in between, also for
  a configuration that the user saved in the panel, for a new and for a resumed session, which are lost.
\<close>

theorem goal_gives_the_configuration_back:
  assumes "m_beforeGoal m = None" and "startGoal E goal m = (c1, m1)" and "app_run E evs m1 = (c2, m2)"
    and "\<not> list_ex may_end_the_goal evs" and "trim_space (ap_Mission (m_AutoPilot m2)) \<noteq> []"
  shows "m_AutoPilot (clearGoal m2) = (m_AutoPilot m)\<lparr>ap_Mission := []\<rparr> \<and> m_beforeGoal (clearGoal m2) = None
    \<and> m_runtime (clearGoal m2) = Some (m_AutoPilot (clearGoal m2))"
proof -
  have "m_beforeGoal m1 = Some (m_AutoPilot m)" using start_goal_keeps [OF assms(2)] assms(1) by simp
  from run_keeps_goal [OF assms(3) this assms(4)] have "m_beforeGoal m2 = Some (m_AutoPilot m)" .
  then show ?thesis
    using assms(5) by (simp add: clearGoal_def retireAutopilotMission_def rebuildAutopilotReviewer_def AddNotice_def Let_def)
qed

subsection \<open>Answers, steers and recoveries\<close>

lemma choose_answers_valid:
  assumes "choose_answers answers i qs = Some as"
  shows "List.map fst as = [i..<i + length qs] \<and> (\<forall>(q, (j, ls)) \<in> set (zip qs as).
    ls \<noteq> [] \<and> set ls \<subseteq> set (qi_Options q) \<and> (\<not> qi_MultiSelect q \<longrightarrow> length ls = 1))"
  using assms
proof (induction qs arbitrary: i as)
  case (Cons q qs)
  define chosen where "chosen = validQuestionLabels q (case gm_get answers (nat_str i) of None \<Rightarrow> [] | Some ls \<Rightarrow> ls)"
  obtain rest where r: "chosen \<noteq> []" "choose_answers answers (Suc i) qs = Some rest"
    "as = (i, if qi_MultiSelect q then chosen else take 1 chosen) # rest"
    using Cons.prems by (auto simp: chosen_def Let_def split: if_splits)
  have "set chosen \<subseteq> set (qi_Options q)" by (auto simp: chosen_def validQuestionLabels_def)
  moreover have "set (take 1 chosen) \<subseteq> set chosen" by (rule set_take_subset)
  moreover have "length (take 1 chosen) = 1" using r(1) by (cases chosen) simp_all
  moreover have "[i..<i + length (q # qs)] = i # [Suc i..<Suc i + length qs]" by (simp add: upt_conv_Cons del: upt_Suc)
  ultimately show ?case using Cons.IH [OF r(2)] r(1,3) by (auto simp del: upt_Suc)
qed simp

text \<open>
  What the copilot answers for the user is an answer to every question, each with options of that question,
  and with exactly one where one is asked for; anything else is left to the user.
\<close>

theorem copilot_answers_are_options:
  assumes "autopilotAnswerQuestion complete decode wait req = Some as"
  shows "List.map fst as = [0..<length (qr_Questions req)] \<and> (\<forall>(q, (j, ls)) \<in> set (zip (qr_Questions req) as).
    ls \<noteq> [] \<and> set ls \<subseteq> set (qi_Options q) \<and> (\<not> qi_MultiSelect q \<longrightarrow> length ls = 1))"
  using assms choose_answers_valid [where i = 0]
  by (fastforce simp: autopilotAnswerQuestion_def split: sum.splits if_splits)

text \<open>A verdict that is acted on is consistent.\<close>

lemma checked_decision:
  "check_decision d = Inr d' \<Longrightarrow>
    (de_Continue d' \<longrightarrow> \<not> de_Done d' \<and> de_Instruction d' \<noteq> []) \<and> (\<not> de_Continue d' \<longrightarrow> de_Instruction d' = [])"
  by (auto simp: check_decision_def Let_def split: if_splits)

text \<open>No more than three attempts are made in a row to revive a run.\<close>

lemma recoveries_are_bounded:
  "OnAgentStop E failure m = (cmds, m') \<Longrightarrow> m_recoveries m \<le> 3 \<Longrightarrow> m_recoveries m' \<le> 3"
  by (auto simp: OnAgentStop_def autopilotRecoverCmd_def autopilotMaxRecoveries_def AddNotice_def Let_def
      split: option.splits if_splits)

subsection \<open>Examples\<close>

definition pilot_env :: app_env where
  "pilot_env = \<lparr>ae_conf = conf_demo, ae_model = (\<lambda>_. True), ae_file = (\<lambda>_. None), ae_hook = (\<lambda>_. None), ae_build = Inr,
     ae_slash = (\<lambda>_ _ _. []), ae_width = length\<rparr>"

definition pilot_config :: "string \<Rightarrow> int \<Rightarrow> AutoPilotSettings" where
  "pilot_config mission cap = no_autopilot\<lparr>ap_Mission := mission, ap_MaxContinuations := cap, ap_Steers := no_steers\<lparr>steer_TurnEnd := True\<rparr>\<rparr>"

definition pilot_app :: "Data \<Rightarrow> app" where
  "pilot_app live = \<lparr>m_cwd = ''/w'', m_OperationMode = ModeAutoPilot, m_Session = NewSessionPermissions,
     m_AutoPilot = pilot_config ''ship it'' 1, m_beforeGoal = None, m_runtime = None, m_continuations = 0, m_continuing = False,
     m_deciding = False, m_recoveries = 0, m_stream = False, m_compact = False, m_composer = [], m_queue = [], m_chat = [],
     m_notices = [], m_live = Some live, m_hook_mode = [], m_context_bar = False, m_question = None, m_reply_open = False,
     m_conf = demo_conf\<rparr>"

definition go_on :: "string \<Rightarrow> autopilotDecision" where
  "go_on instruction = \<lparr>dm_trigger = \<lparr>tg_origin = FromTurnEnd, tg_situation = []\<rparr>, dm_cont = True, dm_done = False,
     dm_instruction = instruction, dm_err = None, dm_deferrals = 0\<rparr>"

definition turn_ends :: app_event where
  "turn_ends = EvTurnEnd False None StopEndTurn"

lemma driven_step:
  assumes "driven E m0 m n p v" and "keeps_config ev" and "is_decision ev \<longrightarrow> 0 < p" and "\<not> human_turn ev m" and "\<not> is_recovery ev"
    and "requests (fst (app_step E ev m)) = r" and "redeliveries (fst (app_step E ev m)) = 0" and "inputs (fst (app_step E ev m)) = i"
  shows "driven E m0 (snd (app_step E ev m)) (n + (if is_decision ev then i else 0)) (p - (if is_decision ev then 1 else 0) + r)
    (v + (if 0 < p then r else 0))"
  using driven.event [OF assms(1-3) surjective_pairing] assms(4,5) by (simp only: assms(6-8) add_0_right if_False simp_thms) (auto split: if_splits)

fun pilot_states :: "app_event list \<Rightarrow> app \<Rightarrow> app" where
  "pilot_states [] m = m"
| "pilot_states (ev # evs) m = pilot_states evs (snd (app_step pilot_env ev m))"

abbreviation pilot_after :: "app_event list \<Rightarrow> app" where
  "pilot_after evs \<equiv> pilot_states evs (pilot_app NewData)"

lemma pilot_events [simp]:
  "keeps_config turn_ends" "\<not> is_decision turn_ends" "keeps_config (EvDecision d)" "is_decision (EvDecision d)"
  "\<not> human_turn turn_ends m" "\<not> human_turn (EvDecision d) m" "\<not> is_recovery turn_ends" "\<not> is_recovery (EvDecision d)"
  by (simp_all add: turn_ends_def keeps_config_def is_decision_def human_turn_def is_recovery_def)

text \<open>
  Two turns end before the first verdict is there, the second one a prompt of the scheduler: both requests
  pass the check of the budget, and the copilot takes two turns where one is allowed.
\<close>

lemma overlapping_decisions_overrun:
  "driven pilot_env (pilot_app NewData) (pilot_after [turn_ends, turn_ends, EvDecision (go_on ''a''), EvDecision (go_on ''b'')]) 2 0 1"
proof -
  have r1: "requests (fst (app_step pilot_env turn_ends (pilot_app NewData))) = 1"
    "redeliveries (fst (app_step pilot_env turn_ends (pilot_app NewData))) = 0"
    "inputs (fst (app_step pilot_env turn_ends (pilot_app NewData))) = 0" by code_simp+
  have d1: "driven pilot_env (pilot_app NewData) (pilot_after [turn_ends]) 0 1 0"
    using driven_step [OF driven.start _ _ _ _ r1] by simp
  have r2: "requests (fst (app_step pilot_env turn_ends (pilot_after [turn_ends]))) = 1"
    "redeliveries (fst (app_step pilot_env turn_ends (pilot_after [turn_ends]))) = 0"
    "inputs (fst (app_step pilot_env turn_ends (pilot_after [turn_ends]))) = 0" by code_simp+
  have d2: "driven pilot_env (pilot_app NewData) (pilot_after [turn_ends, turn_ends]) 0 2 1"
    using driven_step [OF d1 _ _ _ _ r2] by (simp add: numeral_2_eq_2)
  have r3: "requests (fst (app_step pilot_env (EvDecision (go_on ''a'')) (pilot_after [turn_ends, turn_ends]))) = 0"
    "redeliveries (fst (app_step pilot_env (EvDecision (go_on ''a'')) (pilot_after [turn_ends, turn_ends]))) = 0"
    "inputs (fst (app_step pilot_env (EvDecision (go_on ''a'')) (pilot_after [turn_ends, turn_ends]))) = 1" by code_simp+
  have d3: "driven pilot_env (pilot_app NewData) (pilot_after [turn_ends, turn_ends, EvDecision (go_on ''a'')]) 1 1 1"
    using driven_step [OF d2 _ _ _ _ r3] by simp
  have r4: "requests (fst (app_step pilot_env (EvDecision (go_on ''b'')) (pilot_after [turn_ends, turn_ends, EvDecision (go_on ''a'')]))) = 0"
    "redeliveries (fst (app_step pilot_env (EvDecision (go_on ''b'')) (pilot_after [turn_ends, turn_ends, EvDecision (go_on ''a'')]))) = 0"
    "inputs (fst (app_step pilot_env (EvDecision (go_on ''b'')) (pilot_after [turn_ends, turn_ends, EvDecision (go_on ''a'')]))) = 1" by code_simp+
  show ?thesis using driven_step [OF d3 _ _ _ _ r4] by (simp add: numeral_2_eq_2)
qed

theorem copilot_turns_are_bounded_witness:
  "int 2 + int 0 \<le> ResolvedMaxContinuations (m_AutoPilot (pilot_app NewData)) + int 1 \<and> ResolvedMaxContinuations (m_AutoPilot (pilot_app NewData)) = 1"
proof -
  have "m_beforeGoal (pilot_app NewData) = None" "m_continuations (pilot_app NewData) = 0"
    "\<not> ContinuationsUnlimited (m_AutoPilot (pilot_app NewData))"
    "ResolvedMaxContinuations (m_AutoPilot (pilot_app NewData)) = 1" by code_simp+
  from copilot_turns_are_bounded [OF overlapping_decisions_overrun this(1-3)] this(4) show ?thesis by simp
qed

text \<open>The switch is refused where it is forbidden.\<close>

definition locked_data :: Data where
  "locked_data = NewData\<lparr>da_AllowBypass := Some False\<rparr>"

theorem locked_bypass_stays_off_witness:
  "\<not> IsBypass (m_Session (snd (app_run pilot_env [EvMsg (YoloMsg (Some True)), EvCycle, EvMsg (YoloMsg None)] (pilot_app locked_data))))"
  by (rule locked_bypass_stays_off [of pilot_env "[EvMsg (YoloMsg (Some True)), EvCycle, EvMsg (YoloMsg None)]" "pilot_app locked_data", OF surjective_pairing])
     (simp_all add: pilot_app_def AllowBypass_def locked_data_def IsBypass_def NewSessionPermissions_def)

text \<open>
  The instruction of the copilot goes the way of the user's own input, commands included: where the bypass is
  not locked, the copilot can switch it on.
\<close>

lemma copilot_can_switch_the_bypass_on:
  "fst (app_step pilot_env (EvDecision (go_on ''/yolo on'')) (pilot_app NewData)) = [EmitCmd (YoloMsg (Some True))]
   \<and> IsBypass (m_Session (pilot_after [EvDecision (go_on ''/yolo on''), EvMsg (YoloMsg (Some True))]))"
proof
  show "fst (app_step pilot_env (EvDecision (go_on ''/yolo on'')) (pilot_app NewData)) = [EmitCmd (YoloMsg (Some True))]"
    by code_simp
  show "IsBypass (m_Session (pilot_after [EvDecision (go_on ''/yolo on''), EvMsg (YoloMsg (Some True))]))" by code_simp
qed

text \<open>A project whose settings file says so starts with the bypass on, although the user has locked it.\<close>

definition hostile_project :: conf_world where
  "hostile_project = \<lparr>cw_files = (\<lambda>p.
       if p = ''/h/.pcb/settings.json'' then GoodFile locked_data
       else if p = ''/w/.pcb/settings.json'' then GoodFile (NewData\<lparr>da_BypassEnabled := Some True\<rparr>) else NoFile),
     cw_loaded = None\<rparr>"

lemma project_file_turns_the_bypass_on:
  "let s = fst (InitForApp conf_demo None ''/w'' hostile_project)
   in \<not> AllowBypass (Some s) \<and> IsBypass (m_Session (applyStartupSettings (Some s) m))"
proof -
  have l: "loaded_from conf_demo hostile_project (NewLoaderForCwd conf_demo ''/w'')
      = [(locked_data, False), (NewData\<lparr>da_BypassEnabled := Some True\<rparr>, False)]"
    unfolding demo_sources by (simp add: readable_def read_config_def demo_resolve hostile_project_def)
  have "da_AllowBypass (LoadForCwd conf_demo hostile_project ''/w'') = Some False"
    "da_BypassEnabled (LoadForCwd conf_demo hostile_project ''/w'') = Some True"
    unfolding LoadForCwd_def Load_files_alt l by (simp_all add: merge_all_fields locked_data_def) (simp_all add: NewData_def)
  then show ?thesis
    unfolding Let_def InitForApp_def load_live_def mergeProviderPreferences_def
    by (auto simp: Clone_def clone_data_def AllowBypass_def IsBypass_def applyStartupSettings_def Let_def
        ApplyPersistedBypass_def SetBypass_def BypassEnabledOn_def)
qed

text \<open>The configuration that the user saves in the panel while a goal runs is lost when the goal ends.\<close>

theorem goal_gives_the_configuration_back_witness:
  "let m2 = pilot_after [EvMsg (GoalSetMsg ''tidy up''), EvPanelSave (pilot_config ''tidy up'' 7)]
   in ap_MaxContinuations (m_AutoPilot m2) = 7 \<and> m_AutoPilot (clearGoal m2) = pilot_config [] 1"
proof -
  obtain c1 m1 where g: "startGoal pilot_env ''tidy up'' (pilot_app NewData) = (c1, m1)" using prod.exhaust by blast
  define m2 where "m2 = snd (app_run pilot_env [EvPanelSave (pilot_config ''tidy up'' 7)] m1)"
  have p: "m2 = pilot_after [EvMsg (GoalSetMsg ''tidy up''), EvPanelSave (pilot_config ''tidy up'' 7)]"
    using g by (simp add: m2_def app_step_def split: prod.split)
  have a: "m_AutoPilot m2 = pilot_config ''tidy up'' 7"
    unfolding m2_def by (simp add: app_step_def AddNotice_def persistAutopilotDefault_def writeAutopilotDefault_def rebuildAutopilotReviewer_def)
  have t: "trim_space (ap_Mission (m_AutoPilot m2)) \<noteq> []" unfolding a by code_simp
  have "m_AutoPilot (clearGoal m2) = (m_AutoPilot (pilot_app NewData))\<lparr>ap_Mission := []\<rparr>"
    using goal_gives_the_configuration_back [OF _ g surjective_pairing [of "app_run pilot_env [EvPanelSave (pilot_config ''tidy up'' 7)] m1"]]
      t unfolding m2_def by (simp add: may_end_the_goal_def pilot_app_def)
  then show ?thesis unfolding p [symmetric] by (simp add: a) (simp add: pilot_config_def pilot_app_def)
qed

theorem copilot_answers_are_options_witness:
  "let req = \<lparr>qr_ID = ''q'', qr_Questions = [\<lparr>qi_Question = ''?'', qi_Options = [''Yes'', ''No''], qi_MultiSelect = False\<rparr>]\<rparr>
   in set (snd (hd (the (autopilotAnswerQuestion (\<lambda>_. Inr ''{}'')
        (\<lambda>_. Inr \<lparr>an_Defer = False, an_Answers = [(''0'', [''Maybe'', ''No''])]\<rparr>) (\<lambda>_ _. True) req)))) \<subseteq> {''Yes'', ''No''}"
proof -
  define req where "req = \<lparr>qr_ID = ''q'', qr_Questions = [\<lparr>qi_Question = ''?'', qi_Options = [''Yes'', ''No''], qi_MultiSelect = False\<rparr>]\<rparr>"
  have n: "nat_str 0 = ''0''" by code_simp
  have "autopilotAnswerQuestion (\<lambda>_. Inr ''{}'') (\<lambda>_. Inr \<lparr>an_Defer = False, an_Answers = [(''0'', [''Maybe'', ''No''])]\<rparr>)
      (\<lambda>_ _. True) req = Some [(0, [''No''])]"
    unfolding req_def autopilotAnswerQuestion_def autopilotSteer.simps [of _ _ _ 1]
    by (simp add: n gm_get_def validQuestionLabels_def Let_def)
  from copilot_answers_are_options [OF this] this show ?thesis unfolding Let_def req_def [symmetric] by (simp add: req_def)
qed

text \<open>
  A message that is typed while the agent works is queued, and what leaves the queue is not put to the prompt
  hooks, which stop the same message when it is sent to an idle agent.
\<close>

lemma queued_messages_pass_the_prompt_hook:
  assumes "m_stream m" and "m_queue m = []" and "trim_space s \<noteq> []" and "reason \<noteq> StopCancelled"
  shows "fst (app_run E [EvType s, EvEnter, EvStream False, EvTurnEnd False None reason] m) = [SubmitCmd (trim_space s)]"
  using assms by (simp add: app_step_def handleSubmit_def enqueueWhileStreaming_def maxQueueSize_def OnTurnEnd_def
      drainTurnQueues_def releaseQueuedMessage_def Let_def)

lemma hook_stops_the_idle_message:
  assumes "\<not> m_stream m" and "\<not> m_compact m" and "ae_hook E (trim_space s) = Some reason" and "\<not> IsExitRequest (trim_space s)"
  shows "fst (app_run E [EvType s, EvEnter] m) = []"
  using assms by (simp add: app_step_def handleSubmit_def dispatchSubmission_def Let_def)

text \<open>The copilot still answers the question of an agent that has stopped.\<close>

lemma stopped_agent_is_still_answered:
  assumes "m_question m = Some req" and "m_reply_open m" and "autopilotEngaged m"
    and "steer_Question (ap_Steers (m_AutoPilot m))" and "as \<noteq> []"
  shows "fst (app_run E [EvAgentStop None, EvCopilotAnswer req (Some as)] m) = [ReplyCmd (Some as)]"
  using assms by (simp add: app_step_def OnAgentStop_def handleAutopilotQuestion_def handleQuestionResponse_def
      autopilotEngaged_def AddNotice_def Let_def)

text \<open>Neither the bypass nor what was granted for a session ends with the session.\<close>

lemma grants_survive_the_session: "m_Session (snd (app_step E EvNewSession m)) = m_Session m"
  by (simp add: app_step_def applyNewSession_def)

end
