(* ===== verification/Worker.thy ===== *)
theory Worker
  imports Permission Collections
begin

text \<open>
  What a subagent may do: the rule lists of its definition and the forms they are written in
  (\<open>subagent/types.go\<close>, \<open>subagent/match.go\<close>), the permission gate around its tools
  (\<open>subagent/executor.go\<close>, \<open>tool/permission.go\<close>, \<open>mcp/registry.go\<close>) and the tools it is shown
  (\<open>tool/set.go\<close>).  The matching of rules, the tiers of confirmation and the mode table are those of
  theory \<open>Permission\<close>.  A YAML document is its tree of nodes; a list that Go leaves nil is \<open>None\<close>; the
  schema of a tool is its name with the rest.

  The theorems: what runs in a worker passed its deny list, the circuit breaker and, outside bypass, the
  tiers of confirmation; an exploring worker only reads; a worker changes nothing but by its allow list
  or its mode; and the deny rules of the settings do not reach it.
\<close>

subsection \<open>Modes\<close>

type_synonym PermissionMode = string

definition PermissionDefault :: PermissionMode where "PermissionDefault = ''default''"
definition PermissionAcceptEdits :: PermissionMode where "PermissionAcceptEdits = ''acceptEdits''"
definition PermissionExplore :: PermissionMode where "PermissionExplore = ''explore''"
definition PermissionBypass :: PermissionMode where "PermissionBypass = ''bypassPermissions''"
definition PermissionDontAsk :: PermissionMode where "PermissionDontAsk = ''dontAsk''"
definition PermissionAuto :: PermissionMode where "PermissionAuto = ''auto''"

lemmas permission_modes = PermissionDefault_def PermissionAcceptEdits_def PermissionExplore_def
  PermissionBypass_def PermissionDontAsk_def PermissionAuto_def

definition NormalizePermissionMode :: "string \<Rightarrow> PermissionMode" where
  "NormalizePermissionMode s0 =
     (let s = trim_space s0; l = to_lower s
      in if l = [] then PermissionDefault
         else if l = ''edit'' \<or> l = ''acceptedits'' then PermissionAcceptEdits
         else if l = ''explore'' \<or> l = ''readonly'' \<or> l = ''read-only'' then PermissionExplore
         else if l = ''bypass'' \<or> l = ''bypasspermissions'' then PermissionBypass
         else if l = ''dontask'' \<or> l = ''dont-ask'' then PermissionDontAsk
         else if l = ''auto'' then PermissionAuto
         else if l = ''default'' then PermissionDefault
         else s)"

definition displayPermissionMode :: "PermissionMode \<Rightarrow> string" where
  "displayPermissionMode mode =
     (if mode = PermissionExplore then ''Explore''
      else if mode = PermissionAcceptEdits then ''Accept Edits''
      else if mode = PermissionBypass then ''Bypass''
      else if mode = PermissionDontAsk then ''Don'' @ [CHR 0x27] @ ''t Ask''
      else if mode = PermissionAuto then ''Auto''
      else ''Default'')"

definition operationMode :: "PermissionMode \<Rightarrow> OperationMode" where
  "operationMode mode =
     (let m = NormalizePermissionMode mode
      in if m = PermissionExplore then ModeReadOnly
         else if m = PermissionAcceptEdits \<or> m = PermissionAuto then ModeAutoAccept
         else if m = PermissionBypass then ModeBypassPermissions
         else if m = PermissionDontAsk then ModeDontAsk
         else ModeNormal)"

definition PermissionModeFromOperationMode :: "OperationMode \<Rightarrow> PermissionMode" where
  "PermissionModeFromOperationMode mode =
     (case mode of
        ModeAutoAccept \<Rightarrow> PermissionAcceptEdits
      | ModeAutoPilot \<Rightarrow> PermissionAcceptEdits
      | ModeBypassPermissions \<Rightarrow> PermissionBypass
      | ModeDontAsk \<Rightarrow> PermissionDontAsk
      | ModeReadOnly \<Rightarrow> PermissionExplore
      | _ \<Rightarrow> PermissionDefault)"

subsection \<open>Rule lists\<close>

record ToolRule =
  tr_Name :: string
  tr_Pattern :: string

type_synonym ToolList = "ToolRule list option"

definition rule_String :: "ToolRule \<Rightarrow> string" where
  "rule_String r = (if tr_Pattern r = [] then tr_Name r else tr_Name r @ ''('' @ tr_Pattern r @ '')'')"

definition rules_of :: "ToolList \<Rightarrow> ToolRule list" where
  "rules_of t = (case t of None \<Rightarrow> [] | Some rs \<Rightarrow> rs)"

definition ToolNames :: "string list \<Rightarrow> ToolList" where
  "ToolNames names = Some (List.map (\<lambda>n. \<lparr>tr_Name = n, tr_Pattern = []\<rparr>) names)"

definition Names :: "ToolList \<Rightarrow> string list option" where
  "Names t = map_option (\<lambda>rs. filter (\<lambda>n. n \<noteq> []) (List.map tr_Name rs)) t"

definition BareNames :: "ToolList \<Rightarrow> string list option" where
  "BareNames t = map_option (\<lambda>rs. List.map tr_Name (filter (\<lambda>r. tr_Name r \<noteq> [] \<and> tr_Pattern r = []) rs)) t"

definition DisplayNames :: "ToolList \<Rightarrow> string list" where
  "DisplayNames t = List.map rule_String (filter (\<lambda>r. tr_Name r \<noteq> []) (rules_of t))"

definition ConstrainedDisplayNames :: "ToolList \<Rightarrow> string list" where
  "ConstrainedDisplayNames t = List.map rule_String (filter (\<lambda>r. tr_Pattern r \<noteq> []) (rules_of t))"

definition HasName :: "ToolList \<Rightarrow> string \<Rightarrow> bool" where
  "HasName t name \<longleftrightarrow> list_ex (\<lambda>r. tr_Name r = name) (rules_of t)"

definition HasPattern :: "ToolList \<Rightarrow> string \<Rightarrow> bool" where
  "HasPattern t name \<longleftrightarrow> list_ex (\<lambda>r. tr_Name r = name \<and> tr_Pattern r \<noteq> []) (rules_of t)"

subsection \<open>The forms a list is written in\<close>

datatype yaml_node = YScalar string | YSeq "yaml_node list" | YMap "(yaml_node \<times> yaml_node) list" | YAlias

definition node_value :: "yaml_node \<Rightarrow> string" where
  "node_value n = (case n of YScalar s \<Rightarrow> s | _ \<Rightarrow> [])"

definition parseRuleString :: "string \<Rightarrow> ToolRule option" where
  "parseRuleString s0 =
     (let s = trim_space s0
      in if s = [] then None
         else case index_of s ''('' of
                None \<Rightarrow> Some \<lparr>tr_Name = s, tr_Pattern = []\<rparr>
              | Some i \<Rightarrow>
                  if \<not> has_suffix s '')'' then Some \<lparr>tr_Name = s, tr_Pattern = []\<rparr>
                  else let name = trim_space (take i s)
                       in if name = [] then None
                          else Some \<lparr>tr_Name = name, tr_Pattern = trim_space (drop (i + 1) (butlast s))\<rparr>)"

fun object_rule :: "(yaml_node \<times> yaml_node) list \<Rightarrow> ToolRule \<Rightarrow> ToolRule" where
  "object_rule [] r = r"
| "object_rule ((k, v) # kvs) r =
     object_rule kvs (if node_value k = ''name'' then r\<lparr>tr_Name := trim_space (node_value v)\<rparr>
                      else if node_value k = ''pattern'' then r\<lparr>tr_Pattern := trim_space (node_value v)\<rparr>
                      else r)"

definition parseObjectToolRule :: "(yaml_node \<times> yaml_node) list \<Rightarrow> ToolRule" where
  "parseObjectToolRule kvs = object_rule kvs \<lparr>tr_Name = [], tr_Pattern = []\<rparr>"

fun last_pattern :: "string \<Rightarrow> (yaml_node \<times> yaml_node) list \<Rightarrow> string" where
  "last_pattern p [] = p"
| "last_pattern p ((k, v) # kvs) = last_pattern (if node_value k = ''pattern'' then trim_space (node_value v) else p) kvs"

definition parseNamedToolRule :: "string \<Rightarrow> yaml_node \<Rightarrow> string + ToolRule option" where
  "parseNamedToolRule name value =
     (case value of
        YScalar s \<Rightarrow>
          Inr (if s = ''true'' then Some \<lparr>tr_Name = name, tr_Pattern = []\<rparr>
               else if s = ''false'' \<or> s = [] then None
               else Some \<lparr>tr_Name = name, tr_Pattern = trim_space s\<rparr>)
      | YMap kvs \<Rightarrow> Inr (Some \<lparr>tr_Name = name, tr_Pattern = last_pattern [] kvs\<rparr>)
      | _ \<Rightarrow> Inl (''unsupported rule for tool '' @ name))"

fun rule_map_loop :: "(yaml_node \<times> yaml_node) list \<Rightarrow> (yaml_node \<times> yaml_node) list \<Rightarrow> ToolRule list \<Rightarrow> string + ToolRule list" where
  "rule_map_loop node [] rules = Inr rules"
| "rule_map_loop node ((k, value) # kvs) rules =
     (if node_value k = ''name'' \<or> node_value k = ''pattern'' then
        (let rule = parseObjectToolRule node in Inr (if tr_Name rule \<noteq> [] then [rule] else []))
      else case parseNamedToolRule (node_value k) value of
             Inl e \<Rightarrow> Inl e
           | Inr None \<Rightarrow> rule_map_loop node kvs rules
           | Inr (Some rule) \<Rightarrow> rule_map_loop node kvs (rules @ [rule]))"

definition parseToolRuleMap :: "(yaml_node \<times> yaml_node) list \<Rightarrow> string + ToolRule list" where
  "parseToolRuleMap node = rule_map_loop node node []"

definition parseToolRuleNode :: "yaml_node \<Rightarrow> string + ToolRule list" where
  "parseToolRuleNode node =
     (case node of
        YScalar s \<Rightarrow> Inr (case parseRuleString s of None \<Rightarrow> [] | Some rule \<Rightarrow> [rule])
      | YMap kvs \<Rightarrow> parseToolRuleMap kvs
      | _ \<Rightarrow> Inl ''unsupported tool rule format'')"

fun rules_of_nodes :: "yaml_node list \<Rightarrow> string + ToolRule list" where
  "rules_of_nodes [] = Inr []"
| "rules_of_nodes (n # ns) =
     (case parseToolRuleNode n of
        Inl e \<Rightarrow> Inl e
      | Inr rs \<Rightarrow> (case rules_of_nodes ns of Inl e \<Rightarrow> Inl e | Inr rs' \<Rightarrow> Inr (rs @ rs')))"

text \<open>Appending nothing to a nil slice leaves it nil.\<close>

definition append_rules :: "ToolList \<Rightarrow> ToolRule list \<Rightarrow> ToolList" where
  "append_rules t rs = (if t = None \<and> rs = [] then None else Some (rules_of t @ rs))"

definition UnmarshalYAML_rules :: "yaml_node \<Rightarrow> string + ToolList" where
  "UnmarshalYAML_rules value =
     (case value of
        YScalar s \<Rightarrow> Inr (append_rules None (List.map_filter parseRuleString (split_on '','' s)))
      | YSeq ns \<Rightarrow> (case rules_of_nodes ns of Inl e \<Rightarrow> Inl e | Inr rs \<Rightarrow> Inr (append_rules None rs))
      | YMap kvs \<Rightarrow> (case parseToolRuleNode value of Inl e \<Rightarrow> Inl e | Inr rs \<Rightarrow> Inr (append_rules None rs))
      | YAlias \<Rightarrow> Inr None)"

subsection \<open>Matching\<close>

definition Matches :: "sys_env \<Rightarrow> ToolList \<Rightarrow> string \<Rightarrow> tool_args \<Rightarrow> bool" where
  "Matches E t name args \<longleftrightarrow>
     (case t of
        None \<Rightarrow> False
      | Some rs \<Rightarrow>
          if \<not> HasPattern t name then HasName t name
          else let rule = BuildRule E name args
               in list_ex (\<lambda>r. tr_Name r = name
                    \<and> (tr_Pattern r = [] \<or> MatchesToolPattern E name args rule (rule_String r))) rs)"

definition Allows :: "sys_env \<Rightarrow> ToolList \<Rightarrow> string \<Rightarrow> tool_args \<Rightarrow> bool" where
  "Allows E t name args \<longleftrightarrow>
     (case t of
        None \<Rightarrow> False
      | Some rs \<Rightarrow>
          if \<not> HasPattern t name then HasName t name
          else list_ex (\<lambda>r. tr_Name r = name \<and> tr_Pattern r = []) rs
            \<or> MatchAllowList E name args (List.map rule_String (filter (\<lambda>r. tr_Name r = name) rs)) \<noteq> None)"

subsection \<open>Classes of tools\<close>

definition parentOnlyTools :: "string list" where
  "parentOnlyTools = [''Agent'', ''AgentStop'', ''TaskCreate'', ''TaskUpdate'', ''TaskGet'', ''Cron'']"

definition IsParentOnlyTool :: "string \<Rightarrow> bool" where
  "IsParentOnlyTool name \<longleftrightarrow> name \<in> set parentOnlyTools"

definition parseMCPToolName :: "string \<Rightarrow> (string \<times> string) option" where
  "parseMCPToolName name =
     (if \<not> has_prefix name ''mcp__'' then None
      else let (server, tool, ok) = cut_str (drop 5 name) ''__''
           in if \<not> ok \<or> server = [] \<or> tool = [] then None else Some (server, tool))"

definition IsMCPTool :: "string \<Rightarrow> bool" where
  "IsMCPTool name \<longleftrightarrow> parseMCPToolName name \<noteq> None"

definition readOnlyMCPToolPrefixes :: "string list" where
  "readOnlyMCPToolPrefixes =
     [''read'', ''get'', ''list'', ''search'', ''query'', ''fetch'', ''view'', ''show'',
      ''status'', ''info'', ''describe'', ''inspect'', ''find'', ''grep'', ''glob'',
      ''head'', ''peek'', ''stat'', ''ls'', ''cat'', ''who'', ''what'', ''where'']"

definition writeMCPToolPrefixes :: "string list" where
  "writeMCPToolPrefixes =
     [''write'', ''edit'', ''create'', ''update'', ''delete'', ''insert'', ''set'', ''put'', ''post'', ''remove'',
      ''apply'', ''execute'', ''run'', ''push'', ''send'', ''invoke'', ''call'', ''trigger'', ''start'', ''stop'',
      ''restart'', ''kill'', ''close'', ''disconnect'', ''drop'', ''truncate'', ''wipe'', ''clear'', ''reset'']"

definition IsMCPReadOnlyTool :: "string \<Rightarrow> bool" where
  "IsMCPReadOnlyTool name \<longleftrightarrow>
     (case parseMCPToolName name of
        None \<Rightarrow> False
      | Some (server, tool) \<Rightarrow>
          let tool = to_lower tool
          in \<not> list_ex (has_prefix tool) writeMCPToolPrefixes \<and> list_ex (has_prefix tool) readOnlyMCPToolPrefixes)"

subsection \<open>The gate\<close>

definition reads_only :: "sys_env \<Rightarrow> tool_args \<Rightarrow> bool" where
  "reads_only E args \<longleftrightarrow> (case str_arg args ''command'' of Some cmd \<Rightarrow> IsReadOnlyBashCommand E cmd | None \<Rightarrow> False)"

definition explore_command :: "tool_args \<Rightarrow> string" where
  "explore_command args = (case str_arg args ''command'' of Some cmd \<Rightarrow> cmd | None \<Rightarrow> [])"

definition subagentPermissionFunc ::
    "sys_env \<Rightarrow> PermissionMode \<Rightarrow> ToolList \<Rightarrow> ToolList \<Rightarrow> string \<Rightarrow> tool_args \<Rightarrow> bool \<times> string" where
  "subagentPermissionFunc E mode0 allowRules denyRules name args =
     (let mode = NormalizePermissionMode mode0; opMode = operationMode mode; display = displayPermissionMode mode
      in if Matches E denyRules name args then (False, ''tool '' @ name @ '' is blocked by deny_tools'')
         else if CircuitBreakerReason E name args \<noteq> []
           then (False, ''tool '' @ name @ '' blocked: '' @ CircuitBreakerReason E name args)
         else if opMode = ModeBypassPermissions \<and> \<not> IsParentOnlyTool name then (True, [])
         else if fst (ConfirmationTier E name args) \<noteq> []
           then (False, ''tool '' @ name @ '' blocked: '' @ fst (ConfirmationTier E name args))
         else if IsParentOnlyTool name
           then (False, ''tool '' @ name @ '' is reserved for the main conversation'')
         else if mode = PermissionExplore then
           (if IsSafeTool name \<or> IsMCPReadOnlyTool name \<or> name = ''SendMessage'' \<or> name = ''Skill'' then (True, [])
            else if name = ''Bash'' \<and> IsReadOnlyBashCommand E (explore_command args) then (True, [])
            else (False, ''tool '' @ name @ '' is denied in '' @ display @ '' mode''))
         else if IsMCPReadOnlyTool name then (True, [])
         else if name = ''SendMessage'' \<and> allowRules = None then (True, [])
         else if Allows E allowRules name args then (True, [])
         else if name = ''Bash'' \<and> reads_only E args then (True, [])
         else if HasName allowRules name
           then (False, ''tool '' @ name @ '' call is outside the allow_tools constraint'')
         else if name = ''Skill'' then (True, [])
         else (case Behavior (ModeDefault name opMode) of
                 Permit \<Rightarrow> (True, [])
               | Reject \<Rightarrow> (False, ''tool '' @ name @ '' is denied in '' @ display @ '' mode'')
               | Prompt \<Rightarrow> (False, ''tool '' @ name @ '' would require approval; subagent in '' @ display @ '' mode denies it'')))"

text \<open>The decorator: a refused call fails with the reason and the tool does not run.\<close>

definition permission_Execute ::
    "(string \<Rightarrow> tool_args \<Rightarrow> bool \<times> string) \<Rightarrow> (tool_args \<Rightarrow> 'w \<Rightarrow> (string + string) \<times> 'w) \<Rightarrow> string \<Rightarrow> tool_args \<Rightarrow> 'w \<Rightarrow> (string + string) \<times> 'w" where
  "permission_Execute check run name args w =
     (let (allow, reason) = check name args in if \<not> allow then (Inl (''blocked: '' @ reason), w) else run args w)"

subsection \<open>The tools that are shown\<close>

type_synonym 'd schema = "string \<times> 'd"

record 'd Set =
  ts_Static :: "'d schema list option"
  ts_Disabled :: "string list"
  ts_MCP :: "'d schema list option"
  ts_Allow :: "string list option"
  ts_Disallow :: "string list"
  ts_IsAgent :: bool
  ts_ExtraTools :: "'d schema list"

definition isDisallowed :: "'d Set \<Rightarrow> string \<Rightarrow> bool" where
  "isDisallowed s name \<longleftrightarrow> to_lower name \<in> set (List.map to_lower (ts_Disallow s))"

text \<open>\<open>builtin\<close>: the schemas of the registered tools; the optional getters are their values.\<close>

definition mcp_schemas :: "'d Set \<Rightarrow> 'd schema list" where
  "mcp_schemas s = (case ts_MCP s of None \<Rightarrow> [] | Some ts \<Rightarrow> ts)"

definition defaultTools :: "'d schema list \<Rightarrow> 'd Set \<Rightarrow> 'd schema list" where
  "defaultTools builtin s = filter (\<lambda>t. fst t \<notin> set (ts_Disabled s)) (builtin @ ts_ExtraTools s @ mcp_schemas s)"

definition agentAllTools :: "'d schema list \<Rightarrow> 'd Set \<Rightarrow> 'd schema list" where
  "agentAllTools builtin s =
     filter (\<lambda>t. \<not> IsParentOnlyTool (fst t) \<and> fst t \<notin> set (ts_Disabled s) \<and> \<not> isDisallowed s (fst t))
       (builtin @ mcp_schemas s)"

definition agentTools :: "'d schema list \<Rightarrow> string list \<Rightarrow> 'd Set \<Rightarrow> 'd schema list" where
  "agentTools builtin allow s =
     (let listed = (\<lambda>n. to_lower n \<in> set (List.map to_lower allow))
      in filter (\<lambda>t. listed (fst t) \<and> \<not> IsParentOnlyTool (fst t) \<and> fst t \<notin> set (ts_Disabled s) \<and> \<not> isDisallowed s (fst t)) builtin
         @ filter (\<lambda>t. listed (fst t) \<and> fst t \<notin> set (ts_Disabled s) \<and> \<not> isDisallowed s (fst t)) (mcp_schemas s))"

definition Tools :: "'d schema list \<Rightarrow> 'd Set \<Rightarrow> 'd schema list" where
  "Tools builtin s =
     (case ts_Static s of
        Some ts \<Rightarrow> ts
      | None \<Rightarrow> (case ts_Allow s of
                   Some allow \<Rightarrow> agentTools builtin allow s
                 | None \<Rightarrow> if ts_IsAgent s then agentAllTools builtin s else defaultTools builtin s))"

definition newAgentToolSet :: "string list option \<Rightarrow> string list option \<Rightarrow> string list \<Rightarrow> 'd schema list option \<Rightarrow> 'd Set" where
  "newAgentToolSet allow disallow disabled mcp =
     \<lparr>ts_Static = None, ts_Disabled = disabled, ts_MCP = mcp, ts_Allow = allow,
      ts_Disallow = (case disallow of None \<Rightarrow> [] | Some ns \<Rightarrow> ns), ts_IsAgent = True, ts_ExtraTools = []\<rparr>"

definition modeAllowsSchema :: "PermissionMode \<Rightarrow> string \<Rightarrow> bool" where
  "modeAllowsSchema mode name \<longleftrightarrow>
     IsSafeTool name \<or> IsMCPReadOnlyTool name \<or> name = ''SendMessage''
     \<or> mode = PermissionBypass \<or> mode = PermissionAuto
     \<or> (mode = PermissionAcceptEdits \<and> IsEditTool name)
     \<or> name = ''Bash'' \<or> name = ''Skill''"

definition filterSchemasForPermission :: "'d schema list \<Rightarrow> PermissionMode \<Rightarrow> ToolList \<Rightarrow> 'd schema list" where
  "filterSchemasForPermission schemas mode0 allowTools =
     (let mode = NormalizePermissionMode mode0
      in filter (\<lambda>t. if allowTools \<noteq> None
                       then HasName allowTools (fst t) \<and> (mode \<noteq> PermissionExplore \<or> modeAllowsSchema mode (fst t))
                     else modeAllowsSchema mode (fst t)) schemas)"

text \<open>What a run of a definition with these lists is shown.\<close>

definition worker_schemas ::
    "'d schema list \<Rightarrow> 'd schema list option \<Rightarrow> string list \<Rightarrow> PermissionMode \<Rightarrow> ToolList \<Rightarrow> ToolList \<Rightarrow> 'd schema list" where
  "worker_schemas builtin mcp disabled mode allowTools denyTools =
     filterSchemasForPermission (Tools builtin (newAgentToolSet (Names allowTools) (BareNames denyTools) disabled mcp))
       mode allowTools"

definition canEditWorkspace :: "PermissionMode \<Rightarrow> ToolList \<Rightarrow> bool" where
  "canEditWorkspace mode allow \<longleftrightarrow>
     operationMode mode \<in> {ModeAutoAccept, ModeBypassPermissions}
     \<or> (case Names allow of None \<Rightarrow> False | Some ns \<Rightarrow> list_ex IsEditTool ns)"

subsection \<open>Modes: facts\<close>

lemma trim_space_idem: "trim_space (trim_space s) = trim_space s"
proof -
  have l: "s = [] \<or> \<not> is_space (hd s) \<Longrightarrow> trim_left_by is_space s = s" for s
    by (cases s) (simp_all add: trim_left_by_def)
  have hd_left: "trim_left_by is_space s = [] \<or> \<not> is_space (hd (trim_left_by is_space s))" for s
    unfolding trim_left_by_def using hd_dropWhile by blast
  have r: "trim_right_by is_space u = [] \<or> hd (trim_right_by is_space u) = hd u \<and> u \<noteq> []" for u
  proof (cases "trim_right_by is_space u")
    case (Cons a x)
    have "\<exists>v. u = trim_right_by is_space u @ v"
      unfolding trim_right_by_def by (metis rev_append rev_rev_ident takeWhile_dropWhile_id)
    then show ?thesis using Cons by (metis append_is_Nil_conv hd_append2 list.distinct(1))
  qed simp
  have last_right: "trim_right_by is_space u = [] \<or> \<not> is_space (last (trim_right_by is_space u))" for u
    unfolding trim_right_by_def by (metis hd_dropWhile last_rev rev_is_Nil_conv)
  let ?u = "trim_left_by is_space s"
  have "trim_space (trim_space s) = trim_right_by is_space (trim_left_by is_space (trim_right_by is_space ?u))"
    by (simp add: trim_space_def)
  also have "trim_left_by is_space (trim_right_by is_space ?u) = trim_right_by is_space ?u"
    using l hd_left [of s] r [of ?u] by metis
  also have "trim_right_by is_space (trim_right_by is_space ?u) = trim_right_by is_space ?u"
    using last_right by (rule trim_right_by_last)
  finally show ?thesis by (simp add: trim_space_def)
qed

lemma normalized_constants:
  "NormalizePermissionMode PermissionDefault = PermissionDefault"
  "NormalizePermissionMode PermissionAcceptEdits = PermissionAcceptEdits"
  "NormalizePermissionMode PermissionExplore = PermissionExplore"
  "NormalizePermissionMode PermissionBypass = PermissionBypass"
  "NormalizePermissionMode PermissionDontAsk = PermissionDontAsk"
  "NormalizePermissionMode PermissionAuto = PermissionAuto"
  by code_simp+

lemma NormalizePermissionMode_idem [simp]:
  "NormalizePermissionMode (NormalizePermissionMode s) = NormalizePermissionMode s"
proof -
  have "NormalizePermissionMode s \<in> {PermissionDefault, PermissionAcceptEdits, PermissionExplore, PermissionBypass,
      PermissionDontAsk, PermissionAuto} \<or> NormalizePermissionMode s = trim_space s"
    by (auto simp: NormalizePermissionMode_def Let_def)
  then consider "NormalizePermissionMode s \<in> {PermissionDefault, PermissionAcceptEdits, PermissionExplore, PermissionBypass,
      PermissionDontAsk, PermissionAuto}" | "NormalizePermissionMode s = trim_space s"
    by blast
  then show ?thesis
  proof cases
    case 1
    then show ?thesis using normalized_constants by auto
  next
    case 2
    then have "NormalizePermissionMode (trim_space s) = NormalizePermissionMode s"
      by (simp add: NormalizePermissionMode_def trim_space_idem)
    then show ?thesis using 2 by simp
  qed
qed

lemma operationMode_normalized [simp]: "operationMode (NormalizePermissionMode m) = operationMode m"
  by (simp add: operationMode_def)

lemma permission_modes_distinct:
  "distinct [PermissionDefault, PermissionAcceptEdits, PermissionExplore, PermissionBypass, PermissionDontAsk, PermissionAuto]"
  by code_simp

lemma operationMode_cases:
  "operationMode m = ModeReadOnly \<longleftrightarrow> NormalizePermissionMode m = PermissionExplore"
  "operationMode m = ModeBypassPermissions \<longleftrightarrow> NormalizePermissionMode m = PermissionBypass"
  "operationMode m = ModeAutoAccept \<longleftrightarrow> NormalizePermissionMode m \<in> {PermissionAcceptEdits, PermissionAuto}"
  using permission_modes_distinct by (auto simp: operationMode_def Let_def)

lemma operationMode_never_reviewed: "operationMode m \<noteq> ModeAutoPilot" "operationMode m \<noteq> ModeSwarm"
  by (simp_all add: operationMode_def Let_def)

text \<open>The posture of a parent survives the way into the mode of a worker, but for the reviewed one.\<close>

lemma posture_round_trip:
  "m \<in> {ModeNormal, ModeAutoAccept, ModeBypassPermissions, ModeDontAsk, ModeReadOnly} \<Longrightarrow>
   operationMode (PermissionModeFromOperationMode m) = m"
  by (elim insertE emptyE; hypsubst; code_simp)

subsection \<open>The gate: facts\<close>

lemmas gate_simps = subagentPermissionFunc_def Let_def

lemma gate_passed:
  assumes "fst (subagentPermissionFunc E mode allow deny name args)"
  shows "\<not> Matches E deny name args" and "CircuitBreakerReason E name args = []" and "\<not> IsParentOnlyTool name"
    and "operationMode mode = ModeBypassPermissions \<or> fst (ConfirmationTier E name args) = []"
  using assms by (auto simp: gate_simps split: if_splits)

text \<open>
  C20: A call that a worker makes runs only if no rule of \<open>deny_tools\<close> matches it, the circuit breaker does
  not fire on it, it is not reserved for the main conversation, and -- outside bypass -- it is in neither tier of
  confirmation.  In particular no worker runs a command line that orders a recursive removal of the root or the home
  directory in one of the listed spellings.  A call that is refused fails and changes nothing.
\<close>

theorem worker_call_passes_every_check:
  assumes "permission_Execute (subagentPermissionFunc E mode allow deny) run name args w = (r, w')"
    and "(\<forall>e. r \<noteq> Inl (''blocked: '' @ e)) \<or> w' \<noteq> w"
  shows "\<not> Matches E deny name args \<and> CircuitBreakerReason E name args = [] \<and> \<not> IsParentOnlyTool name
    \<and> (operationMode mode = ModeBypassPermissions \<or> fst (ConfirmationTier E name args) = [])
    \<and> \<not> (name = ''Bash'' \<and> (\<exists>cmd. str_arg args ''command'' = Some cmd \<and> orders_wipe E cmd)) \<and> (r, w') = run args w"
proof -
  have "fst (subagentPermissionFunc E mode allow deny name args)" "(r, w') = run args w"
    using assms by (auto simp: permission_Execute_def split: prod.splits if_splits)
  then show ?thesis
    using gate_passed [of E mode allow deny name args] ordered_wipe_trips [of E]
    by (auto simp: CircuitBreakerReason_def bashCommandArg_def split: if_splits)
qed

lemma explore_gate_reads:
  assumes "fst (subagentPermissionFunc E mode allow deny name args)" and "NormalizePermissionMode mode = PermissionExplore"
  shows "IsSafeTool name \<or> IsMCPReadOnlyTool name \<or> name = ''SendMessage'' \<or> name = ''Skill''
    \<or> (name = ''Bash'' \<and> IsReadOnlyBashCommand E (explore_command args))"
proof -
  have "operationMode PermissionExplore = ModeReadOnly" by code_simp
  then show ?thesis using assms by (auto simp: gate_simps split: if_splits)
qed

text \<open>The words that the name of an MCP tool must begin with to count as reading, and those that it must not.\<close>

definition reading_words :: "string set" where
  "reading_words =
     {''read'', ''get'', ''list'', ''search'', ''query'', ''fetch'', ''view'', ''show'', ''status'', ''info'', ''describe'',
      ''inspect'', ''find'', ''grep'', ''glob'', ''head'', ''peek'', ''stat'', ''ls'', ''cat'', ''who'', ''what'', ''where''}"

definition writing_words :: "string set" where
  "writing_words =
     {''write'', ''edit'', ''create'', ''update'', ''delete'', ''insert'', ''set'', ''put'', ''post'', ''remove'', ''apply'',
      ''execute'', ''run'', ''push'', ''send'', ''invoke'', ''call'', ''trigger'', ''start'', ''stop'', ''restart'', ''kill'',
      ''close'', ''disconnect'', ''drop'', ''truncate'', ''wipe'', ''clear'', ''reset''}"

lemma mcp_words: "set readOnlyMCPToolPrefixes = reading_words" "set writeMCPToolPrefixes = writing_words"
  by (simp_all only: readOnlyMCPToolPrefixes_def writeMCPToolPrefixes_def reading_words_def writing_words_def list.set insert_commute)

lemma index_of_Some: "index_of s sub = Some i \<Longrightarrow> i \<le> length s \<and> has_prefix (drop i s) sub"
  by (induction s arbitrary: i) (auto split: if_splits)

lemma mcp_name_reads:
  assumes "IsMCPReadOnlyTool name"
  shows "\<exists>server tool. server \<noteq> [] \<and> name = ''mcp__'' @ server @ ''__'' @ tool
    \<and> (\<exists>word \<in> reading_words. has_prefix (to_lower tool) word) \<and> \<not> (\<exists>word \<in> writing_words. has_prefix (to_lower tool) word)"
proof -
  obtain server tool where p: "parseMCPToolName name = Some (server, tool)"
    and r: "\<not> list_ex (has_prefix (to_lower tool)) writeMCPToolPrefixes" "list_ex (has_prefix (to_lower tool)) readOnlyMCPToolPrefixes"
    using assms by (auto simp: IsMCPReadOnlyTool_def Let_def split: option.splits)
  obtain rest where name: "name = ''mcp__'' @ rest" using p by (auto simp: parseMCPToolName_def has_prefix_iff split: if_splits)
  obtain i where i: "index_of rest ''__'' = Some i" and st: "server = take i rest" "tool = drop (i + 2) rest" "server \<noteq> []"
    using p name by (auto simp: parseMCPToolName_def cut_str_def numeral_2_eq_2 split: if_splits option.splits)
  have "has_prefix (drop i rest) ''__''" using index_of_Some [OF i] by simp
  then obtain t where "drop i rest = ''__'' @ t" unfolding has_prefix_iff by blast
  then have "tool = t" unfolding st by (metis add.commute drop_drop append_eq_conv_conj length_Cons list.size(3) numeral_2_eq_2)
  then have "rest = server @ ''__'' @ tool" using st(1) \<open>drop i rest = _\<close> by (metis append_take_drop_id)
  then show ?thesis using name st(3) r unfolding list_ex_iff mcp_words by auto
qed

text \<open>
  C21: What an exploring worker is permitted, whatever its lists say: one of the named tools that read or ask or
  flag the turn, a message, a skill, a shell command of the read-only kind, or a tool of an MCP server whose name begins
  with one of the reading words and with none of the writing words.  A name is no proof: see
  \<open>writers_with_reading_names\<close>.
\<close>

theorem explore_worker_only_reads:
  assumes "fst (subagentPermissionFunc E mode allow deny name args)" and "NormalizePermissionMode mode = PermissionExplore"
  shows "name \<in> {''Read'', ''WebFetch'', ''WebSearch'', ''LSP'', ''AskUserQuestion'', ''ExitSpecMode'', ''Evolve'', ''SendMessage'', ''Skill''}
    \<or> (name = ''Bash'' \<and> IsReadOnlyBashCommand E (explore_command args))
    \<or> (\<exists>server tool. server \<noteq> [] \<and> name = ''mcp__'' @ server @ ''__'' @ tool
        \<and> (\<exists>word \<in> {''read'', ''get'', ''list'', ''search'', ''query'', ''fetch'', ''view'', ''show'', ''status'', ''info'', ''describe'',
             ''inspect'', ''find'', ''grep'', ''glob'', ''head'', ''peek'', ''stat'', ''ls'', ''cat'', ''who'', ''what'', ''where''}.
             has_prefix (to_lower tool) word)
        \<and> \<not> (\<exists>word \<in> {''write'', ''edit'', ''create'', ''update'', ''delete'', ''insert'', ''set'', ''put'', ''post'', ''remove'', ''apply'',
             ''execute'', ''run'', ''push'', ''send'', ''invoke'', ''call'', ''trigger'', ''start'', ''stop'', ''restart'', ''kill'',
             ''close'', ''disconnect'', ''drop'', ''truncate'', ''wipe'', ''clear'', ''reset''}. has_prefix (to_lower tool) word))"
proof -
  note g = explore_gate_reads [OF assms] gate_passed(3) [OF assms(1)]
  have safe: "IsSafeTool name \<Longrightarrow> name \<in> {''Read'', ''WebFetch'', ''WebSearch'', ''LSP'', ''AskUserQuestion'', ''ExitSpecMode'', ''Evolve''}"
    using g(2) by (auto simp: IsSafeTool_def safeTools_def readOnlyTools_def IsParentOnlyTool_def parentOnlyTools_def)
  from g(1) show ?thesis
  proof (elim disjE)
    assume "IsSafeTool name"
    from safe [OF this] show ?thesis by (intro disjI1) auto
  next
    assume "IsMCPReadOnlyTool name"
    from mcp_name_reads [OF this, unfolded reading_words_def writing_words_def] show ?thesis by (intro disjI2)
  next
    assume "name = ''Bash'' \<and> IsReadOnlyBashCommand E (explore_command args)"
    then show ?thesis by (intro disjI2 disjI1)
  qed simp_all
qed

lemma worker_changes:
  assumes "fst (subagentPermissionFunc E mode allow deny name args)" and "operationMode mode \<noteq> ModeBypassPermissions"
    and "\<not> IsSafeTool name" and "\<not> IsMCPReadOnlyTool name" and "name \<noteq> ''SendMessage''" and "name \<noteq> ''Skill''"
    and "name = ''Bash'' \<Longrightarrow> \<not> IsReadOnlyBashCommand E (explore_command args)"
  shows "Allows E allow name args \<or> (operationMode mode = ModeAutoAccept \<and> IsEditTool name)"
proof -
  have "name = ''Bash'' \<Longrightarrow> \<not> reads_only E args"
    using assms(7) by (auto simp: reads_only_def explore_command_def split: option.splits)
  moreover have "name = ''Bash'' \<longrightarrow> \<not> IsReadOnlyBashCommand E (explore_command args)" using assms(7) by blast
  ultimately show ?thesis using assms(1-6)
    using operationMode_never_reviewed [of mode]
    by (auto simp: gate_simps ModeDefault_def split: if_splits OperationMode.splits)
qed

text \<open>
  Outside bypass a worker changes something only by a rule of its allow list or, in a mode that
  accepts edits, by an edit.
\<close>

theorem worker_changes_by_authority:
  assumes "fst (subagentPermissionFunc E mode allow deny name args)" and "operationMode mode \<noteq> ModeBypassPermissions"
    and "\<not> IsSafeTool name" and "\<not> IsMCPReadOnlyTool name" and "name \<noteq> ''SendMessage''" and "name \<noteq> ''Skill''"
    and "name = ''Bash'' \<Longrightarrow> \<not> IsReadOnlyBashCommand E (explore_command args)"
  shows "Allows E allow name args \<or> (operationMode mode = ModeAutoAccept \<and> IsEditTool name)"
  using assms by (rule worker_changes)

text \<open>
  The deny rules of the settings do not reach a worker: a reading tool that the gate of the main
  conversation refuses by such a rule is permitted in every worker whose own lists leave the tool alone,
  in every mode.
\<close>

theorem settings_deny_does_not_bind_workers:
  assumes "IsReadOnlyTool name" and "pat \<in> set (Deny perms)" and "MatchesToolPattern E name args (BuildRule E name args) pat"
    and "\<not> HasName deny name" and "\<not> HasPattern allow name"
  shows "Behavior (HasPermissionToUseTool E perms name args session) = Reject
    \<and> fst (subagentPermissionFunc E mode allow deny name args)"
proof
  show "Behavior (HasPermissionToUseTool E perms name args session) = Reject"
    using gate_deny [where E = E and perms = perms and t = name and args = args and session = session] assms(2,3)
    by (force simp: list_ex_iff decide_def)
  have n: "name \<noteq> ''Bash''" "\<not> IsParentOnlyTool name" "\<not> IsEditTool name" "IsSafeTool name"
    using assms(1) by (auto simp: IsReadOnlyTool_def readOnlyTools_def IsParentOnlyTool_def parentOnlyTools_def
        IsEditTool_def IsSafeTool_def safeTools_def)
  have d: "\<not> Matches E deny name args"
    using assms(4) by (auto simp: Matches_def HasName_def rules_of_def list_ex_iff split: option.splits)
  have t: "fst (ConfirmationTier E name args) = []" "CircuitBreakerReason E name args = []"
    using n by (auto simp: ConfirmationTier_def UnrecoverableReason_def RecoverableReason_def CircuitBreakerReason_def
        bashCommandArg_def IsEditTool_def)
  have a: "HasName allow name \<Longrightarrow> Allows E allow name args"
    using assms(5) by (auto simp: Allows_def HasName_def rules_of_def split: option.splits)
  show "fst (subagentPermissionFunc E mode allow deny name args)"
    using n d t a by (auto simp: gate_simps ModeDefault_def)
qed

text \<open>
  What is shown is what may be used: for a worker without an allow list, a tool of which some call is
  permitted is among the shown ones, and a shown tool is neither reserved for the main conversation nor
  disabled nor denied by name.
\<close>

theorem permitted_tools_are_shown:
  assumes "allow = None" and "fst (subagentPermissionFunc E mode allow deny name args)"
    and "(name, d) \<in> set (builtin @ (case mcp of None \<Rightarrow> [] | Some ts \<Rightarrow> ts))" and "name \<notin> set disabled"
    and "\<not> isDisallowed (newAgentToolSet None (BareNames deny) disabled mcp) name"
  shows "(name, d) \<in> set (worker_schemas builtin mcp disabled mode allow deny)"
proof -
  have p: "\<not> IsParentOnlyTool name" using gate_passed(3) [OF assms(2)] .
  have "modeAllowsSchema (NormalizePermissionMode mode) name"
  proof (rule ccontr)
    assume "\<not> ?thesis"
    then have "\<not> IsSafeTool name" "\<not> IsMCPReadOnlyTool name" "name \<noteq> ''SendMessage''" "name \<noteq> ''Skill''" "name \<noteq> ''Bash''"
      "operationMode mode \<noteq> ModeBypassPermissions" "\<not> (operationMode mode = ModeAutoAccept \<and> IsEditTool name)"
      by (auto simp: modeAllowsSchema_def operationMode_cases)
    then show False using worker_changes [OF assms(2)] assms(1) by (auto simp: Allows_def)
  qed
  then show ?thesis using assms p
    by (auto simp: worker_schemas_def filterSchemasForPermission_def Let_def Tools_def newAgentToolSet_def Names_def
        agentAllTools_def mcp_schemas_def)
qed

subsection \<open>Rule lists: facts\<close>

lemma index_of_paren: "CHR ''('' \<notin> set n \<Longrightarrow> index_of (n @ CHR ''('' # t) ''('' = Some (length n)"
  by (induction n) auto

lemma index_of_no_paren: "CHR ''('' \<notin> set n \<Longrightarrow> index_of n ''('' = None"
  by (induction n) auto

lemma trim_space_closed:
  assumes "n \<noteq> []" and "trim_space n = n" and "\<not> is_space c"
  shows "trim_space (n @ t @ [c]) = n @ t @ [c]"
proof -
  have "\<not> is_space (hd n)"
  proof
    assume sp: "is_space (hd n)"
    have "length (trim_space n) \<le> length (trim_left_by is_space n)"
      by (simp add: trim_space_def length_trim_right_by)
    also have "\<dots> < length n"
      using sp assms(1) by (cases n) (auto simp: trim_left_by_def le_imp_less_Suc length_dropWhile_le)
    finally show False using assms(2) by simp
  qed
  then have "trim_left_by is_space (n @ t @ [c]) = n @ t @ [c]"
    using assms(1) by (cases n) (auto simp: trim_left_by_def)
  then show ?thesis using assms(3) by (simp add: trim_space_def trim_right_by_last)
qed

text \<open>
  A rule that is written out is read back as the same rule, if its name and pattern carry no outer
  blanks and its name has no parenthesis.
\<close>

theorem written_rule_is_read_back:
  assumes "tr_Name r \<noteq> []" and "trim_space (tr_Name r) = tr_Name r" and "trim_space (tr_Pattern r) = tr_Pattern r"
    and "CHR ''('' \<notin> set (tr_Name r)"
  shows "parseRuleString (rule_String r) = Some r"
proof (cases "tr_Pattern r = []")
  case True
  then show ?thesis using assms by (simp add: rule_String_def parseRuleString_def Let_def index_of_no_paren)
next
  case False
  let ?s = "tr_Name r @ CHR ''('' # tr_Pattern r @ '')''"
  have t: "trim_space ?s = ?s"
    using trim_space_closed [OF assms(1,2), of "CHR '')''" "CHR ''('' # tr_Pattern r"] by (simp add: is_space_def byte_of_def)
  have i: "index_of ?s ''('' = Some (length (tr_Name r))" using assms(4) by (simp add: index_of_paren)
  have x: "has_suffix ?s '')''" by (auto simp: has_suffix_iff)
  have "butlast ?s = tr_Name r @ CHR ''('' # tr_Pattern r" by (simp add: butlast_append)
  then show ?thesis using False assms t i x by (simp add: rule_String_def parseRuleString_def Let_def)
qed

text \<open>
  A list of calls in one line is cut at every comma, those of a pattern included; and a list that names
  nothing is no list at all, so that every tool is left.
\<close>

lemma comma_cuts_the_pattern:
  "UnmarshalYAML_rules (YScalar ''Bash(sed, awk)'')
    = Inr (Some [\<lparr>tr_Name = ''Bash(sed'', tr_Pattern = []\<rparr>, \<lparr>tr_Name = ''awk)'', tr_Pattern = []\<rparr>])"
  by code_simp

lemma cut_rule_denies_nothing:
  "\<not> Matches E (Some [\<lparr>tr_Name = ''Bash(sed'', tr_Pattern = []\<rparr>, \<lparr>tr_Name = ''awk)'', tr_Pattern = []\<rparr>]) ''Bash'' args"
  by (simp add: Matches_def HasPattern_def HasName_def rules_of_def)

lemma empty_allow_list_is_no_list:
  "UnmarshalYAML_rules (YSeq []) = Inr None"
  "UnmarshalYAML_rules (YScalar []) = Inr None"
  "UnmarshalYAML_rules (YMap [(YScalar ''Bash'', YScalar ''false'')]) = Inr None"
  by code_simp+

subsection \<open>Examples\<close>

definition run_tool :: "tool_args \<Rightarrow> nat \<Rightarrow> (string + string) \<times> nat" where
  "run_tool args w = (Inr ''ok'', w + 1)"

definition read_only_list :: ToolList where
  "read_only_list = ToolNames [''Read'']"

definition edit_list :: ToolList where
  "edit_list = Some [\<lparr>tr_Name = ''Write'', tr_Pattern = ''/w/**''\<rparr>]"

theorem worker_call_passes_every_check_witness:
  "\<not> Matches demo_env None ''Read'' (file_call ''/w/a'') \<and> \<not> IsParentOnlyTool ''Read''
    \<and> fst (ConfirmationTier demo_env ''Read'' (file_call ''/w/a'')) = []"
proof -
  have r: "permission_Execute (subagentPermissionFunc demo_env PermissionDefault None None) run_tool ''Read''
      (file_call ''/w/a'') 0 = (Inr ''ok'', 1)"
    by code_simp
  have m: "operationMode PermissionDefault \<noteq> ModeBypassPermissions" by code_simp
  show ?thesis using worker_call_passes_every_check [OF r] m by simp
qed

theorem explore_worker_only_reads_witness:
  "\<exists>server tool. ''mcp__db__Query'' = ''mcp__'' @ server @ ''__'' @ tool
     \<and> fst (subagentPermissionFunc demo_env ''readonly'' edit_list None ''mcp__db__Query'' Map.empty)"
proof -
  have a: "fst (subagentPermissionFunc demo_env ''readonly'' edit_list None ''mcp__db__Query'' Map.empty)" by code_simp
  have "NormalizePermissionMode ''readonly'' = PermissionExplore" by code_simp
  from explore_worker_only_reads [OF a this] a show ?thesis by auto
qed

theorem worker_changes_by_authority_witness:
  "Allows demo_env edit_list ''Write'' (file_call ''/w/a'')
    \<or> (operationMode PermissionDefault = ModeAutoAccept \<and> IsEditTool ''Write'')"
proof (rule worker_changes_by_authority)
  show "fst (subagentPermissionFunc demo_env PermissionDefault edit_list None ''Write'' (file_call ''/w/a''))" by code_simp
  show "operationMode PermissionDefault \<noteq> ModeBypassPermissions" "\<not> IsSafeTool ''Write''" "\<not> IsMCPReadOnlyTool ''Write''"
    by code_simp+
qed simp_all

theorem settings_deny_does_not_bind_workers_witness:
  "Behavior (HasPermissionToUseTool demo_env demo_perms ''Read'' (file_call ''/w/.env'') None) = Reject
    \<and> fst (subagentPermissionFunc demo_env PermissionExplore None None ''Read'' (file_call ''/w/.env''))"
proof (rule settings_deny_does_not_bind_workers)
  show "IsReadOnlyTool ''Read''" by code_simp
  show "''Read(**/.env)'' \<in> set (Deny demo_perms)" by (simp add: demo_perms_def)
  show "MatchesToolPattern demo_env ''Read'' (file_call ''/w/.env'')
      (BuildRule demo_env ''Read'' (file_call ''/w/.env'')) ''Read(**/.env)''" by code_simp
  show "\<not> HasName None ''Read''" "\<not> HasPattern None ''Read''" by code_simp+
qed

theorem permitted_tools_are_shown_witness:
  "(''Read'', ()) \<in> set (worker_schemas [(''Read'', ()), (''Agent'', ())] None [] PermissionDefault None None)"
proof (rule permitted_tools_are_shown)
  show "fst (subagentPermissionFunc demo_env PermissionDefault None None ''Read'' (file_call ''/w/a''))" by code_simp
  show "\<not> isDisallowed (newAgentToolSet None (BareNames None) [] None) ''Read''"
    by (simp add: isDisallowed_def newAgentToolSet_def BareNames_def)
qed simp_all

theorem written_rule_is_read_back_witness:
  "parseRuleString (rule_String \<lparr>tr_Name = ''Bash'', tr_Pattern = ''git diff*''\<rparr>)
    = Some \<lparr>tr_Name = ''Bash'', tr_Pattern = ''git diff*''\<rparr>"
proof (rule written_rule_is_read_back)
  show "trim_space (tr_Name \<lparr>tr_Name = ''Bash'', tr_Pattern = ''git diff*''\<rparr>)
      = tr_Name \<lparr>tr_Name = ''Bash'', tr_Pattern = ''git diff*''\<rparr>" by code_simp
  show "trim_space (tr_Pattern \<lparr>tr_Name = ''Bash'', tr_Pattern = ''git diff*''\<rparr>)
      = tr_Pattern \<lparr>tr_Name = ''Bash'', tr_Pattern = ''git diff*''\<rparr>" by code_simp
qed simp_all

text \<open>The list of an exploring worker does not narrow what the gate permits.\<close>

lemma explore_gate_ignores_the_allow_list:
  "fst (subagentPermissionFunc demo_env PermissionExplore read_only_list None ''WebFetch'' [''url'' \<mapsto> GStr ''https://a''])"
  by code_simp

text \<open>Names of MCP tools that read by their first letters only.\<close>

lemma writers_with_reading_names:
  "list_all IsMCPReadOnlyTool [''mcp__db__query'', ''mcp__crm__get_or_create_user'', ''mcp__shop__category_delete'',
     ''mcp__fs__find_and_replace'', ''mcp__q__fetch_and_remove'']"
  by code_simp

text \<open>A bypassing worker is bound by its deny list but not by its allow list.\<close>

lemma bypass_ignores_the_allow_list:
  "fst (subagentPermissionFunc demo_env PermissionBypass read_only_list None ''Write'' (file_call ''/etc/passwd''))"
  by code_simp

end
