(* ===== verification/Agents.thy ===== *)
theory Agents
  imports Worker
begin

text \<open>
  The definitions of subagents: how they are read from files and which file wins (\<open>subagent/loader.go\<close>,
  \<open>markdown/frontmatter.go\<close>, \<open>builtin.go\<close>), the registry with its switches and the allow list of a
  persona (\<open>registry.go\<close>), and the stores of the switches (\<open>store.go\<close>).  The decoder of YAML and the
  texts of the built-in agents are parameters; a directory is the list of its entries in the order in
  which it is read, and a file its lines.  A map that Go leaves nil is \<open>None\<close>, and writing to it
  \<open>None\<close>, a panic.

  The theorems: the definition of the highest priority wins; an agent that is switched off, or that the
  persona does not list, is found disabled by every look-up; and a switch is on disk when it is set.
\<close>

subsection \<open>Definitions\<close>

record AgentConfig =
  ac_Name :: string
  ac_Description :: string
  ac_WhenToUse :: string
  ac_Model :: string
  ac_PermissionMode :: PermissionMode
  ac_AllowWrite :: bool
  ac_AllowTools :: ToolList
  ac_DenyTools :: ToolList
  ac_Skills :: "string list"
  ac_SystemPrompt :: string
  ac_MaxSteps :: int
  ac_Complexity :: string
  ac_GeneralPurpose :: bool
  ac_Source :: string
  ac_McpServers :: "string list"
  ac_SourceFile :: string
  ac_displayOnly :: bool

definition blank_config :: AgentConfig where
  "blank_config = \<lparr>ac_Name = [], ac_Description = [], ac_WhenToUse = [], ac_Model = [], ac_PermissionMode = [],
     ac_AllowWrite = False, ac_AllowTools = None, ac_DenyTools = None, ac_Skills = [], ac_SystemPrompt = [],
     ac_MaxSteps = 0, ac_Complexity = [], ac_GeneralPurpose = False, ac_Source = [], ac_McpServers = [],
     ac_SourceFile = [], ac_displayOnly = False\<rparr>"

record frontmatterAliases =
  fa_Tools :: ToolList
  fa_AllowedTools :: ToolList
  fa_PermissionMode :: PermissionMode
  fa_MaxSteps :: int
  fa_AllowWrite :: bool

definition applyTo :: "frontmatterAliases \<Rightarrow> AgentConfig \<Rightarrow> AgentConfig" where
  "applyTo a config =
     (let config = (if ac_AllowTools config = None
                    then config\<lparr>ac_AllowTools := (if fa_AllowedTools a \<noteq> None then fa_AllowedTools a
                           else if fa_Tools a \<noteq> None then fa_Tools a else ac_AllowTools config)\<rparr>
                    else config);
          config = (if ac_PermissionMode config = [] \<and> fa_PermissionMode a \<noteq> []
                    then config\<lparr>ac_PermissionMode := fa_PermissionMode a\<rparr> else config);
          config = (if ac_MaxSteps config \<le> 0 \<and> 0 < fa_MaxSteps a then config\<lparr>ac_MaxSteps := fa_MaxSteps a\<rparr> else config)
      in if \<not> ac_AllowWrite config \<and> fa_AllowWrite a then config\<lparr>ac_AllowWrite := fa_AllowWrite a\<rparr> else config)"

subsection \<open>Front matter\<close>

fun frontmatter_loop :: "string list \<Rightarrow> bool \<Rightarrow> string \<Rightarrow> string \<Rightarrow> (string \<times> string) option" where
  "frontmatter_loop [] inside fm body = (if inside then None else Some (fm, trim_space body))"
| "frontmatter_loop (line # ls) inside fm body =
     (if inside
      then (if trim_space line = ''---'' then frontmatter_loop ls False fm body
            else frontmatter_loop ls True (fm @ line @ [CHR 0x0A]) body)
      else frontmatter_loop ls False fm (body @ line @ [CHR 0x0A]))"

definition ParseFrontmatterFile :: "string list option \<Rightarrow> (string \<times> string) option" where
  "ParseFrontmatterFile content =
     (case content of
        None \<Rightarrow> None
      | Some [] \<Rightarrow> Some ([], [])
      | Some (line # ls) \<Rightarrow>
          if trim_space line = ''---'' then frontmatter_loop ls True [] []
          else frontmatter_loop ls False [] (line @ [CHR 0x0A]))"

text \<open>
  What the loader asks of the outside: the decoders, the home directory (empty when it cannot be found),
  the texts of the built-in agents, and the disk.
\<close>

datatype dir_entry = PlainFile string "string list option" | SubDir string "string list option option"

datatype place = Missing | SingleFile "string list option" | Unreadable | Directory "dir_entry list"

record agents_env =
  ge_yaml :: "string \<Rightarrow> AgentConfig option"
  ge_aliases :: "string \<Rightarrow> frontmatterAliases option"
  ge_home :: string
  ge_texts :: "string \<Rightarrow> string \<times> string \<times> string"
  ge_place :: "string \<Rightarrow> place"

definition agent_dirs :: "string \<Rightarrow> string list" where
  "agent_dirs root = [path_join (path_join root ''.pcb'') ''agents'', path_join (path_join root ''.claude'') ''agents'']"

definition parseAgentFile :: "agents_env \<Rightarrow> string \<Rightarrow> string list option \<Rightarrow> AgentConfig option option" where
  "parseAgentFile E path content =
     (case ParseFrontmatterFile content of
        None \<Rightarrow> None
      | Some (frontmatter, body) \<Rightarrow>
          if frontmatter = [] then Some None
          else (case ge_yaml E frontmatter of
                  None \<Rightarrow> None
                | Some config0 \<Rightarrow>
                    (let config = (case ge_aliases E frontmatter of None \<Rightarrow> config0 | Some a \<Rightarrow> applyTo a config0);
                         config = config\<lparr>ac_PermissionMode := NormalizePermissionMode (ac_PermissionMode config)\<rparr>;
                         config = (if ac_Name config = [] then config\<lparr>ac_Name := trim_suffix (path_base path) ''.md''\<rparr> else config);
                         config = (if ac_Model config = [] then config\<lparr>ac_Model := ''inherit''\<rparr> else config);
                         config = (if ac_MaxSteps config < 0 then config\<lparr>ac_MaxSteps := 0\<rparr> else config);
                         config = (if ac_PermissionMode config = [] then config\<lparr>ac_PermissionMode := PermissionDefault\<rparr> else config);
                         config = config\<lparr>ac_SourceFile := path\<rparr>
                     in Some (Some (if ac_Source config = []
                          then config\<lparr>ac_Source := (if list_ex (\<lambda>d. has_prefix path d) (agent_dirs (ge_home E)) then ''user'' else ''project'')\<rparr>
                          else config)))))"

subsection \<open>The stores of the switches\<close>

record AgentStoreData =
  sd_Disabled :: "string list"
  sd_WriteEnabled :: "string list"

record AgentStore =
  as_path :: string
  as_disabled :: "(string, bool) gomap"
  as_writeEnabled :: "(string, bool) gomap option"

text \<open>The files of the stores: \<open>None\<close> is one that does not decode.\<close>

type_synonym switch_disk = "(string, AgentStoreData option) gomap"

definition set_of_names :: "string list \<Rightarrow> (string, bool) gomap" where
  "set_of_names names = fold (\<lambda>n m. gm_put n True m) names gm_empty"

definition load_store :: "switch_disk \<Rightarrow> AgentStore \<Rightarrow> AgentStore" where
  "load_store dk s =
     (case gm_get dk (as_path s) of
        Some (Some sd) \<Rightarrow> s\<lparr>as_disabled := set_of_names (sd_Disabled sd), as_writeEnabled := Some (set_of_names (sd_WriteEnabled sd))\<rparr>
      | _ \<Rightarrow> s)"

definition NewAgentStore :: "switch_disk \<Rightarrow> string \<Rightarrow> AgentStore" where
  "NewAgentStore dk path = load_store dk \<lparr>as_path = path, as_disabled = gm_empty, as_writeEnabled = Some gm_empty\<rparr>"

definition NewUserAgentStore :: "switch_disk \<Rightarrow> string option \<Rightarrow> AgentStore" where
  "NewUserAgentStore dk home =
     (case home of
        None \<Rightarrow> \<lparr>as_path = [], as_disabled = gm_empty, as_writeEnabled = None\<rparr>
      | Some h \<Rightarrow> NewAgentStore dk (path_join (path_join h ''.pcb'') ''agents.json''))"

definition NewProjectAgentStore :: "switch_disk \<Rightarrow> string \<Rightarrow> AgentStore" where
  "NewProjectAgentStore dk cwd = NewAgentStore dk (path_join (path_join cwd ''.pcb'') ''agents.json'')"

definition is_on :: "(string, bool) gomap \<Rightarrow> string \<Rightarrow> bool" where
  "is_on m name \<longleftrightarrow> gm_get m name = Some True"

definition IsDisabled_store :: "AgentStore \<Rightarrow> string \<Rightarrow> bool" where
  "IsDisabled_store s name \<longleftrightarrow> is_on (as_disabled s) name"

definition IsWriteEnabled_store :: "AgentStore \<Rightarrow> string \<Rightarrow> bool" where
  "IsWriteEnabled_store s name \<longleftrightarrow> (case as_writeEnabled s of None \<Rightarrow> False | Some m \<Rightarrow> is_on m name)"

definition persistDisabled :: "(string \<Rightarrow> bool) \<Rightarrow> string \<Rightarrow> string list \<Rightarrow> switch_disk \<Rightarrow> bool \<times> switch_disk" where
  "persistDisabled ok path names dk =
     (if ok path then (True, gm_put path (Some \<lparr>sd_Disabled = names, sd_WriteEnabled = []\<rparr>) dk) else (False, dk))"

definition persistWriteEnabled :: "(string \<Rightarrow> bool) \<Rightarrow> string \<Rightarrow> string list \<Rightarrow> switch_disk \<Rightarrow> bool \<times> switch_disk" where
  "persistWriteEnabled ok path names dk =
     (if ok path then (True, gm_put path (Some \<lparr>sd_Disabled = [], sd_WriteEnabled = names\<rparr>) dk) else (False, dk))"

definition SetDisabled_store ::
    "(string \<Rightarrow> bool) \<Rightarrow> string \<Rightarrow> bool \<Rightarrow> AgentStore \<Rightarrow> switch_disk \<Rightarrow> bool \<times> AgentStore \<times> switch_disk" where
  "SetDisabled_store ok name disabled s dk =
     (let m = (if disabled then gm_put name True (as_disabled s) else gm_del name (as_disabled s));
          (saved, dk) = persistDisabled ok (as_path s) (gm_keys m) dk
      in (saved, s\<lparr>as_disabled := m\<rparr>, dk))"

definition SetWriteEnabled_store ::
    "(string \<Rightarrow> bool) \<Rightarrow> string \<Rightarrow> bool \<Rightarrow> AgentStore \<Rightarrow> switch_disk \<Rightarrow> (bool \<times> AgentStore \<times> switch_disk) option" where
  "SetWriteEnabled_store ok name enabled s dk =
     (case as_writeEnabled s of
        None \<Rightarrow> if enabled then None
                else (let (saved, dk) = persistWriteEnabled ok (as_path s) [] dk in Some (saved, s, dk))
      | Some m0 \<Rightarrow>
          (let m = (if enabled then gm_put name True m0 else gm_del name m0);
               (saved, dk) = persistWriteEnabled ok (as_path s) (gm_keys m) dk
           in Some (saved, s\<lparr>as_writeEnabled := Some m\<rparr>, dk)))"

subsection \<open>The registry\<close>

record Registry =
  rg_agents :: "(string, AgentConfig) gomap"
  rg_userStore :: "AgentStore option"
  rg_projectStore :: "AgentStore option"
  rg_personaAllow :: "(string, bool) gomap option"
  rg_cwd :: string

definition NewRegistry :: Registry where
  "NewRegistry = \<lparr>rg_agents = gm_empty, rg_userStore = None, rg_projectStore = None, rg_personaAllow = None, rg_cwd = []\<rparr>"

definition Register_agent :: "AgentConfig \<Rightarrow> Registry \<Rightarrow> Registry" where
  "Register_agent config0 r =
     (let config = config0\<lparr>ac_Name := trim_space (ac_Name config0)\<rparr>
      in if ac_Name config = [] then r else r\<lparr>rg_agents := gm_put (to_lower (ac_Name config)) config (rg_agents r)\<rparr>)"

definition Get_agent :: "Registry \<Rightarrow> string \<Rightarrow> AgentConfig option" where
  "Get_agent r name = gm_get (rg_agents r) (to_lower name)"

definition switched_off :: "AgentStore option \<Rightarrow> string \<Rightarrow> bool" where
  "switched_off s name \<longleftrightarrow> (case s of None \<Rightarrow> False | Some st \<Rightarrow> IsDisabled_store st name)"

definition hidden_by_persona :: "Registry \<Rightarrow> string \<Rightarrow> bool" where
  "hidden_by_persona r name \<longleftrightarrow> (case rg_personaAllow r of None \<Rightarrow> False | Some m \<Rightarrow> \<not> is_on m name)"

definition isDisabledInternal :: "Registry \<Rightarrow> string \<Rightarrow> bool" where
  "isDisabledInternal r name \<longleftrightarrow>
     (if hidden_by_persona r name then True
      else if switched_off (rg_projectStore r) name then True
      else if switched_off (rg_userStore r) name then True else False)"

definition LookupAgent :: "Registry \<Rightarrow> string \<Rightarrow> AgentConfig option \<times> bool \<times> bool" where
  "LookupAgent r name =
     (let lowerName = to_lower (trim_space name)
      in case gm_get (rg_agents r) lowerName of
           None \<Rightarrow> (None, False, False)
         | Some config \<Rightarrow> (Some config, True, \<not> isDisabledInternal r lowerName))"

definition ResolveEnabledAgent :: "Registry \<Rightarrow> string \<Rightarrow> AgentConfig option \<times> bool" where
  "ResolveEnabledAgent r name = (let (config, exists, enabled) = LookupAgent r name in (config, exists \<and> enabled))"

definition ListConfigs :: "Registry \<Rightarrow> AgentConfig list" where
  "ListConfigs r = List.map snd (filter (\<lambda>(name, config). \<not> hidden_by_persona r name) (rg_agents r))"

definition InitStores :: "switch_disk \<Rightarrow> string option \<Rightarrow> string \<Rightarrow> Registry \<Rightarrow> Registry" where
  "InitStores dk home cwd r =
     r\<lparr>rg_cwd := cwd, rg_userStore := Some (NewUserAgentStore dk home), rg_projectStore := Some (NewProjectAgentStore dk cwd)\<rparr>"

definition IsEnabled_agent :: "Registry \<Rightarrow> string \<Rightarrow> bool" where
  "IsEnabled_agent r name =
     (let lowerName = to_lower name
      in if hidden_by_persona r lowerName then False
         else if switched_off (rg_projectStore r) lowerName then False
         else if switched_off (rg_userStore r) lowerName then False else True)"

definition SetEnabled_agent ::
    "(string \<Rightarrow> bool) \<Rightarrow> string \<Rightarrow> bool \<Rightarrow> bool \<Rightarrow> Registry \<Rightarrow> switch_disk \<Rightarrow> bool \<times> Registry \<times> switch_disk" where
  "SetEnabled_agent ok name enabled userLevel r dk =
     (let lowerName = to_lower name
      in if userLevel
         then (case rg_userStore r of
                 None \<Rightarrow> (True, r, dk)
               | Some s \<Rightarrow> (let (saved, s, dk) = SetDisabled_store ok lowerName (\<not> enabled) s dk
                            in (saved, r\<lparr>rg_userStore := Some s\<rparr>, dk)))
         else (case rg_projectStore r of
                 None \<Rightarrow> (True, r, dk)
               | Some s \<Rightarrow> (let (saved, s, dk) = SetDisabled_store ok lowerName (\<not> enabled) s dk
                            in (saved, r\<lparr>rg_projectStore := Some s\<rparr>, dk))))"

definition IsWriteEnabled_agent :: "Registry \<Rightarrow> string \<Rightarrow> bool" where
  "IsWriteEnabled_agent r name =
     (let lowerName = to_lower name
      in if (case rg_projectStore r of None \<Rightarrow> False | Some s \<Rightarrow> IsWriteEnabled_store s lowerName) then True
         else if (case rg_userStore r of None \<Rightarrow> False | Some s \<Rightarrow> IsWriteEnabled_store s lowerName) then True
         else False)"

definition SetWriteEnabled_agent ::
    "(string \<Rightarrow> bool) \<Rightarrow> string \<Rightarrow> bool \<Rightarrow> bool \<Rightarrow> Registry \<Rightarrow> switch_disk \<Rightarrow> (bool \<times> Registry \<times> switch_disk) option" where
  "SetWriteEnabled_agent ok name enabled userLevel r dk =
     (let lowerName = to_lower name
      in if userLevel
         then (case rg_userStore r of
                 None \<Rightarrow> Some (True, r, dk)
               | Some s \<Rightarrow> map_option (\<lambda>(saved, s, dk). (saved, r\<lparr>rg_userStore := Some s\<rparr>, dk))
                            (SetWriteEnabled_store ok lowerName enabled s dk))
         else (case rg_projectStore r of
                 None \<Rightarrow> Some (True, r, dk)
               | Some s \<Rightarrow> map_option (\<lambda>(saved, s, dk). (saved, r\<lparr>rg_projectStore := Some s\<rparr>, dk))
                            (SetWriteEnabled_store ok lowerName enabled s dk)))"

definition persona_names :: "string list \<Rightarrow> string list" where
  "persona_names allow = filter (\<lambda>n. n \<noteq> []) (List.map (\<lambda>n. to_lower (trim_space n)) allow)"

definition LoadPersona :: "string list \<Rightarrow> Registry \<Rightarrow> Registry" where
  "LoadPersona allow r =
     (let m = set_of_names (persona_names allow)
      in if m = gm_empty then r\<lparr>rg_personaAllow := None\<rparr> else r\<lparr>rg_personaAllow := Some m\<rparr>)"

definition ClearPersona :: "Registry \<Rightarrow> Registry" where
  "ClearPersona r = r\<lparr>rg_personaAllow := None\<rparr>"

definition agent_entry :: "AgentConfig \<Rightarrow> string" where
  "agent_entry c =
     ''- '' @ ac_Name c @ '': '' @ ac_Description c
     @ (if ac_WhenToUse c \<noteq> [] then [CHR 0x0A] @ ''  Use when: '' @ ac_WhenToUse c else [])
     @ [CHR 0x0A] @ ''  Tools: '' @ (if ac_AllowTools c \<noteq> None then join_str '', '' (DisplayNames (ac_AllowTools c)) else ''*'')"

definition GetAgentsSection :: "Registry \<Rightarrow> string" where
  "GetAgentsSection r =
     (let configs = List.map snd (filter (\<lambda>(name, config). \<not> isDisabledInternal r name) (rg_agents r));
          sorted = sort_lt (\<lambda>a b. str_less (ac_Name a) (ac_Name b)) configs
      in if configs = [] then []
         else ''Available agents for the Agent tool:'' @ [CHR 0x0A, CHR 0x0A] @ join_str [CHR 0x0A] (List.map agent_entry sorted))"

subsection \<open>Loading\<close>

record agentSearchPath =
  sp_path :: string
  sp_namespace :: string

definition namespaced :: "string \<Rightarrow> AgentConfig \<Rightarrow> AgentConfig" where
  "namespaced ns config =
     (if ns \<noteq> [] \<and> \<not> contains_str (ac_Name config) '':''
      then config\<lparr>ac_Name := ns @ '':'' @ ac_Name config, ac_Source := ''plugin''\<rparr> else config)"

text \<open>The definition that a file adds, if any, and the files of a search path.\<close>

definition file_agents :: "agents_env \<Rightarrow> string \<Rightarrow> string \<Rightarrow> string list option \<Rightarrow> AgentConfig list" where
  "file_agents E ns path content =
     (case parseAgentFile E path content of Some (Some config) \<Rightarrow> [namespaced ns config] | _ \<Rightarrow> [])"

definition loadAgentFromFileWithNamespace :: "agents_env \<Rightarrow> string \<Rightarrow> string list option \<Rightarrow> string \<Rightarrow> Registry \<Rightarrow> Registry" where
  "loadAgentFromFileWithNamespace E path content ns r = fold Register_agent (file_agents E ns path content) r"

fun load_entry :: "agents_env \<Rightarrow> string \<Rightarrow> string \<Rightarrow> dir_entry \<Rightarrow> Registry \<Rightarrow> Registry" where
  "load_entry E path ns (SubDir name (Some content)) r =
     loadAgentFromFileWithNamespace E (path_join (path_join path name) ''AGENT.md'') content ns r"
| "load_entry E path ns (SubDir name None) r = r"
| "load_entry E path ns (PlainFile name content) r =
     (if \<not> has_suffix name ''.md'' then r else loadAgentFromFileWithNamespace E (path_join path name) content ns r)"

definition loadAgentsFromDirWithNamespace :: "agents_env \<Rightarrow> string \<Rightarrow> string \<Rightarrow> Registry \<Rightarrow> Registry" where
  "loadAgentsFromDirWithNamespace E path ns r =
     (case ge_place E path of
        Missing \<Rightarrow> r
      | SingleFile content \<Rightarrow> if has_suffix path ''.md'' then loadAgentFromFileWithNamespace E path content ns r else r
      | Unreadable \<Rightarrow> r
      | Directory es \<Rightarrow> fold (load_entry E path ns) es r)"

definition builtinAgentConfigs :: "agents_env \<Rightarrow> AgentConfig list" where
  "builtinAgentConfigs E =
     List.map (\<lambda>(name, mode, wr, steps, gen, complexity).
         (case ge_texts E name of (desc, use, prompt) \<Rightarrow>
           blank_config\<lparr>ac_Name := name, ac_Description := desc, ac_WhenToUse := use, ac_SystemPrompt := prompt,
             ac_Model := ''inherit'', ac_PermissionMode := mode, ac_AllowWrite := wr, ac_MaxSteps := steps,
             ac_GeneralPurpose := gen, ac_Complexity := complexity, ac_Source := ''builtin''\<rparr>))
       [(''researcher'', PermissionExplore, False, 0, False, []),
        (''planner'', PermissionExplore, False, 30, False, []),
        (''implementer'', PermissionAcceptEdits, True, 50, False, []),
        (''tester'', PermissionAcceptEdits, True, 40, False, []),
        (''worker'', PermissionAcceptEdits, True, 60, True, ''medium''),
        (''explorer'', PermissionExplore, False, 20, True, ''light'')]"

definition registerBuiltinAgents :: "agents_env \<Rightarrow> Registry \<Rightarrow> Registry" where
  "registerBuiltinAgents E r = fold Register_agent (builtinAgentConfigs E) r"

definition search_paths :: "agents_env \<Rightarrow> string \<Rightarrow> agentSearchPath list \<Rightarrow> agentSearchPath list" where
  "search_paths E cwd plugins =
     List.map (\<lambda>p. \<lparr>sp_path = p, sp_namespace = []\<rparr>)
       [path_join (path_join cwd ''.pcb'') ''agents'', path_join (path_join (ge_home E) ''.pcb'') ''agents'',
        path_join (path_join cwd ''.claude'') ''agents'', path_join (path_join (ge_home E) ''.claude'') ''agents'']
     @ plugins"

definition LoadAgents :: "agents_env \<Rightarrow> string \<Rightarrow> agentSearchPath list \<Rightarrow> Registry \<Rightarrow> Registry" where
  "LoadAgents E cwd plugins r =
     fold (\<lambda>sp. loadAgentsFromDirWithNamespace E (sp_path sp) (sp_namespace sp)) (rev (search_paths E cwd plugins))
       (registerBuiltinAgents E r)"

subsection \<open>Which definition wins\<close>

text \<open>The reference: what each place defines, the last definition of a name in it, the first place that has one.\<close>

definition entry_agents :: "agents_env \<Rightarrow> agentSearchPath \<Rightarrow> dir_entry \<Rightarrow> AgentConfig list" where
  "entry_agents E sp e =
     (case e of
        SubDir name content \<Rightarrow>
          (case content of None \<Rightarrow> []
           | Some c \<Rightarrow> file_agents E (sp_namespace sp) (path_join (path_join (sp_path sp) name) ''AGENT.md'') c)
      | PlainFile name c \<Rightarrow>
          if has_suffix name ''.md'' then file_agents E (sp_namespace sp) (path_join (sp_path sp) name) c else [])"

definition agents_at :: "agents_env \<Rightarrow> agentSearchPath \<Rightarrow> AgentConfig list" where
  "agents_at E sp =
     (case ge_place E (sp_path sp) of
        SingleFile c \<Rightarrow> if has_suffix (sp_path sp) ''.md'' then file_agents E (sp_namespace sp) (sp_path sp) c else []
      | Directory es \<Rightarrow> concat (List.map (entry_agents E sp) es)
      | _ \<Rightarrow> [])"

definition named :: "string \<Rightarrow> AgentConfig \<Rightarrow> bool" where
  "named key c \<longleftrightarrow> trim_space (ac_Name c) \<noteq> [] \<and> to_lower (trim_space (ac_Name c)) = key"

fun last_named :: "string \<Rightarrow> AgentConfig list \<Rightarrow> AgentConfig option" where
  "last_named key [] = None"
| "last_named key (c # cs) =
     (case last_named key cs of Some d \<Rightarrow> Some d
      | None \<Rightarrow> if named key c then Some (c\<lparr>ac_Name := trim_space (ac_Name c)\<rparr>) else None)"

fun first_some :: "'a option list \<Rightarrow> 'a option" where
  "first_some [] = None"
| "first_some (Some x # xs) = Some x"
| "first_some (None # xs) = first_some xs"

lemma Register_agent_get:
  "gm_get (rg_agents (Register_agent c r)) key
     = (if named key c then Some (c\<lparr>ac_Name := trim_space (ac_Name c)\<rparr>) else gm_get (rg_agents r) key)"
  by (auto simp: Register_agent_def Let_def named_def gm.get_put)

lemma fold_Register_get:
  "gm_get (rg_agents (fold Register_agent cs r)) key
     = (case last_named key cs of Some c \<Rightarrow> Some c | None \<Rightarrow> gm_get (rg_agents r) key)"
  by (induction cs arbitrary: r) (auto simp: Register_agent_get split: option.splits)

lemma load_entry_fold: "load_entry E (sp_path sp) (sp_namespace sp) e r = fold Register_agent (entry_agents E sp e) r"
  by (cases "(E, sp_path sp, sp_namespace sp, e, r)" rule: load_entry.cases)
     (auto simp: entry_agents_def loadAgentFromFileWithNamespace_def)

lemma load_dir_fold:
  "loadAgentsFromDirWithNamespace E (sp_path sp) (sp_namespace sp) r = fold Register_agent (agents_at E sp) r"
proof -
  have "fold (load_entry E (sp_path sp) (sp_namespace sp)) es r = fold Register_agent (concat (List.map (entry_agents E sp) es)) r"
    for es and r :: Registry
    by (induction es arbitrary: r) (simp_all add: load_entry_fold)
  then show ?thesis
    by (simp add: loadAgentsFromDirWithNamespace_def agents_at_def loadAgentFromFileWithNamespace_def split: place.split)
qed

lemma first_some_append: "first_some (xs @ ys) = (case first_some xs of Some x \<Rightarrow> Some x | None \<Rightarrow> first_some ys)"
  by (induction xs rule: first_some.induct) auto

lemma load_paths_get:
  "gm_get (rg_agents (fold (\<lambda>sp. loadAgentsFromDirWithNamespace E (sp_path sp) (sp_namespace sp)) (rev sps) b)) key
   = first_some (List.map (\<lambda>sp. last_named key (agents_at E sp)) sps @ [gm_get (rg_agents b) key])"
proof (induction sps arbitrary: b)
  case Nil
  show ?case by (cases "gm_get (rg_agents b) key") simp_all
next
  case (Cons sp sps)
  then show ?case by (cases "last_named key (agents_at E sp)") (simp_all add: load_dir_fold fold_Register_get)
qed

lemma first_some_snoc: "first_some ys = first_some zs \<Longrightarrow> first_some (xs @ ys) = first_some (xs @ zs)"
  by (simp add: first_some_append split: option.split)

text \<open>
  Of all definitions of a name the one of the highest priority is registered: the project's files,
  the user's, those of the other program in the same order, the plugins in their order, and the built-in
  agents last; within a place the last file wins.
\<close>

theorem highest_priority_definition_wins:
  "Get_agent (LoadAgents E cwd plugins r) name
   = first_some (List.map (\<lambda>sp. last_named (to_lower name) (agents_at E sp)) (search_paths E cwd plugins)
       @ [last_named (to_lower name) (builtinAgentConfigs E), Get_agent r name])"
proof -
  have "first_some [gm_get (rg_agents (registerBuiltinAgents E r)) (to_lower name)]
      = first_some [last_named (to_lower name) (builtinAgentConfigs E), Get_agent r name]"
    by (cases "last_named (to_lower name) (builtinAgentConfigs E)"; cases "Get_agent r name")
       (simp_all add: registerBuiltinAgents_def fold_Register_get Get_agent_def)
  from first_some_snoc [OF this] show ?thesis
    unfolding Get_agent_def LoadAgents_def load_paths_get by simp
qed

subsection \<open>Switches\<close>

definition switch_map_ok :: "(string, bool) gomap \<Rightarrow> bool" where
  "switch_map_ok m \<longleftrightarrow> gm_ok m \<and> (\<forall>n b. gm_get m n = Some b \<longrightarrow> b)"

lemma is_on_iff: "switch_map_ok m \<Longrightarrow> is_on m n \<longleftrightarrow> n \<in> set (gm_keys m)"
  by (cases "gm_get m n") (auto simp: is_on_def switch_map_ok_def gm.keys_get)

lemma set_of_names_fold:
  "switch_map_ok m \<Longrightarrow> switch_map_ok (fold (\<lambda>n m. gm_put n True m) ns m)
     \<and> (\<forall>k. is_on (fold (\<lambda>n m. gm_put n True m) ns m) k \<longleftrightarrow> k \<in> set ns \<or> is_on m k)"
proof (induction ns arbitrary: m)
  case (Cons n ns)
  have "switch_map_ok (gm_put n True m)" using Cons.prems by (auto simp: switch_map_ok_def gm.ok_put gm.get_put)
  from Cons.IH [OF this] show ?case by (auto simp: is_on_def gm.get_put)
qed simp

lemma switch_map_ok_empty: "switch_map_ok gm_empty"
  by (simp add: switch_map_ok_def gm.ok_empty gm.get_empty)

lemma set_of_names_on: "is_on (set_of_names ns) k \<longleftrightarrow> k \<in> set ns"
  using set_of_names_fold [OF switch_map_ok_empty, of ns] by (simp add: set_of_names_def is_on_def gm.get_empty)

lemma set_of_names_ok: "switch_map_ok (set_of_names ns)"
  using set_of_names_fold [OF switch_map_ok_empty, of ns] by (simp add: set_of_names_def)

definition switches_ok :: "AgentStore \<Rightarrow> bool" where
  "switches_ok s \<longleftrightarrow> switch_map_ok (as_disabled s) \<and> (case as_writeEnabled s of None \<Rightarrow> True | Some m \<Rightarrow> switch_map_ok m)"

lemma switches_ok_load: "switches_ok s \<Longrightarrow> switches_ok (load_store dk s)"
  by (auto simp: switches_ok_def load_store_def set_of_names_ok split: option.splits)

lemma switches_ok_new: "switches_ok (NewAgentStore dk path)"
  unfolding NewAgentStore_def by (rule switches_ok_load) (simp add: switches_ok_def switch_map_ok_empty)

lemma switch_map_put: "switch_map_ok m \<Longrightarrow> switch_map_ok (gm_put n True m)"
  by (auto simp: switch_map_ok_def gm.ok_put gm.get_put)

lemma switch_map_del: "switch_map_ok m \<Longrightarrow> switch_map_ok (gm_del n m)"
  by (auto simp: switch_map_ok_def gm.ok_del gm.get_del split: if_splits)

lemma SetDisabled_switches_ok: "switches_ok s \<Longrightarrow> SetDisabled_store ok name d s dk = (saved, s', dk') \<Longrightarrow> switches_ok s'"
  by (auto simp: switches_ok_def SetDisabled_store_def Let_def switch_map_put switch_map_del split: prod.splits if_splits)

text \<open>
  A switch that is reported as saved is on disk: a store that another session opens on the same file
  has exactly the agents switched off that this one has.
\<close>

theorem saved_switch_is_read_back:
  assumes "switches_ok s" and "SetDisabled_store ok name d s dk = (True, s', dk')"
  shows "IsDisabled_store s' name = d
    \<and> (\<forall>n. IsDisabled_store (NewAgentStore dk' (as_path s)) n = IsDisabled_store s' n)"
proof -
  define m where "m = (if d then gm_put name True (as_disabled s) else gm_del name (as_disabled s))"
  have m: "switch_map_ok m" using assms(1) by (simp add: m_def switches_ok_def switch_map_put switch_map_del)
  have s': "as_disabled s' = m" and dk': "dk' = gm_put (as_path s) (Some \<lparr>sd_Disabled = gm_keys m, sd_WriteEnabled = []\<rparr>) dk"
    using assms(2) by (auto simp: SetDisabled_store_def persistDisabled_def Let_def m_def split: if_splits)
  have "gm_ok (as_disabled s)" using assms(1) by (simp add: switches_ok_def switch_map_ok_def)
  then have "is_on m name = d" by (simp add: m_def is_on_def gm.get_put gm.get_del)
  moreover have "IsDisabled_store (NewAgentStore dk' (as_path s)) n = is_on m n" for n
    by (simp add: IsDisabled_store_def NewAgentStore_def load_store_def dk' gm.get_put set_of_names_on is_on_iff [OF m])
  ultimately show ?thesis by (simp add: IsDisabled_store_def s')
qed

text \<open>What a session does with the registry.\<close>

datatype reg_op = RegSet string bool bool | RegWrite string bool bool | RegPersona "string list" | RegClear
  | RegAgent AgentConfig | RegLoad agents_env string "agentSearchPath list"

definition reg_step :: "(string \<Rightarrow> bool) \<Rightarrow> reg_op \<Rightarrow> Registry \<times> switch_disk \<Rightarrow> Registry \<times> switch_disk" where
  "reg_step ok op w =
     (let (r, dk) = w
      in case op of
          RegSet name enabled userLevel \<Rightarrow> snd (SetEnabled_agent ok name enabled userLevel r dk)
        | RegWrite name enabled userLevel \<Rightarrow>
            (case SetWriteEnabled_agent ok name enabled userLevel r dk of None \<Rightarrow> w | Some x \<Rightarrow> snd x)
        | RegPersona allow \<Rightarrow> (LoadPersona allow r, dk)
        | RegClear \<Rightarrow> (ClearPersona r, dk)
        | RegAgent config \<Rightarrow> (Register_agent config r, dk)
        | RegLoad E cwd plugins \<Rightarrow> (LoadAgents E cwd plugins r, dk))"

definition reg_run :: "(string \<Rightarrow> bool) \<Rightarrow> reg_op list \<Rightarrow> Registry \<times> switch_disk \<Rightarrow> Registry \<times> switch_disk" where
  "reg_run ok ops w = fold (reg_step ok) ops w"

definition store_at :: "bool \<Rightarrow> Registry \<Rightarrow> AgentStore option" where
  "store_at userLevel r = (if userLevel then rg_userStore r else rg_projectStore r)"

definition off_at :: "bool \<Rightarrow> string \<Rightarrow> Registry \<Rightarrow> bool" where
  "off_at lv key r \<longleftrightarrow> (\<exists>s. store_at lv r = Some s \<and> gm_ok (as_disabled s) \<and> IsDisabled_store s key)"

definition keeps_off :: "bool \<Rightarrow> string \<Rightarrow> reg_op \<Rightarrow> bool" where
  "keeps_off lv key op \<longleftrightarrow> (case op of RegSet name enabled lv' \<Rightarrow> enabled \<longrightarrow> lv' \<noteq> lv \<or> to_lower name \<noteq> key | _ \<Rightarrow> True)"

lemma Register_agent_stores [simp]: "store_at lv (Register_agent c r) = store_at lv r"
  by (simp add: store_at_def Register_agent_def Let_def)

lemma fold_Register_stores [simp]: "store_at lv (fold Register_agent cs r) = store_at lv r"
  by (induction cs arbitrary: r) simp_all

lemma LoadAgents_stores [simp]: "store_at lv (LoadAgents E cwd plugins r) = store_at lv r"
proof -
  have "store_at lv (fold (\<lambda>sp. loadAgentsFromDirWithNamespace E (sp_path sp) (sp_namespace sp)) sps b) = store_at lv b"
    for sps :: "agentSearchPath list" and b
    by (induction sps arbitrary: b) (simp_all add: load_dir_fold)
  then show ?thesis by (simp add: LoadAgents_def registerBuiltinAgents_def)
qed

lemma persona_stores [simp]: "store_at lv (LoadPersona allow r) = store_at lv r" "store_at lv (ClearPersona r) = store_at lv r"
  by (simp_all add: store_at_def LoadPersona_def ClearPersona_def Let_def)

lemma SetEnabled_stores:
  assumes "SetEnabled_agent ok name enabled lv' r dk = (saved, r', dk')" and "off_at lv key r"
    and "enabled \<longrightarrow> lv' \<noteq> lv \<or> to_lower name \<noteq> key"
  shows "off_at lv key r'"
  using assms
  by (cases lv; cases lv')
     (auto simp: SetEnabled_agent_def off_at_def store_at_def SetDisabled_store_def Let_def IsDisabled_store_def is_on_def
        gm.get_put gm.get_del gm.ok_put gm.ok_del split: option.splits prod.splits if_splits)

lemma SetWriteEnabled_stores:
  assumes "SetWriteEnabled_agent ok name enabled lv' r dk = Some (saved, r', dk')" and "off_at lv key r"
  shows "off_at lv key r'"
  using assms
  by (cases lv; cases lv')
     (auto simp: SetWriteEnabled_agent_def SetWriteEnabled_store_def off_at_def store_at_def Let_def IsDisabled_store_def
        split: option.splits prod.splits if_splits)

lemma reg_step_off:
  assumes "off_at lv key (fst w)" and "keeps_off lv key op"
  shows "off_at lv key (fst (reg_step ok op w))"
proof (cases w)
  case (Pair r dk)
  show ?thesis
  proof (cases op)
    case (RegSet name enabled lv')
    obtain saved r' dk' where s: "SetEnabled_agent ok name enabled lv' r dk = (saved, r', dk')" by (metis prod_cases3)
    show ?thesis using SetEnabled_stores [OF s] assms by (simp add: Pair RegSet reg_step_def keeps_off_def s)
  next
    case (RegWrite name enabled lv')
    show ?thesis
    proof (cases "SetWriteEnabled_agent ok name enabled lv' r dk")
      case (Some x)
      obtain saved r' dk' where x: "x = (saved, r', dk')" by (metis prod_cases3)
      show ?thesis using SetWriteEnabled_stores [OF Some [unfolded x]] assms by (simp add: Pair RegWrite reg_step_def Some x)
    qed (use assms in \<open>simp add: Pair RegWrite reg_step_def\<close>)
  qed (use assms in \<open>simp_all add: Pair reg_step_def off_at_def\<close>)
qed

text \<open>
  An agent that is switched off stays off until it is switched on where it was switched off: no
  definition that is loaded, no persona, no switch of another agent or at the other level brings it back.
\<close>

theorem switched_off_stays_off:
  assumes "store_at lv r = Some s" and "switches_ok s"
    and "list_all (keeps_off lv (to_lower name)) ops"
    and "to_lower (trim_space who) = to_lower name"
  shows "snd (snd (LookupAgent (fst (reg_run ok (RegSet name False lv # ops) (r, dk))) who)) = False"
proof -
  have run: "off_at lv key (fst (reg_run ok ops w))" if "off_at lv key (fst w)" "list_all (keeps_off lv key) ops" for key w ops
    using that
  proof (induction ops arbitrary: w)
    case (Cons op ops)
    then show ?case using reg_step_off [of lv key w op ok] by (simp add: reg_run_def)
  qed (simp add: reg_run_def)
  have "off_at lv (to_lower name) (fst (reg_step ok (RegSet name False lv) (r, dk)))"
    using assms(1,2)
    by (cases lv) (auto simp: reg_step_def SetEnabled_agent_def SetDisabled_store_def off_at_def store_at_def Let_def
        IsDisabled_store_def is_on_def gm.get_put gm.ok_put switches_ok_def switch_map_ok_def split: prod.splits)
  from run [OF this assms(3)]
  have "off_at lv (to_lower name) (fst (reg_run ok (RegSet name False lv # ops) (r, dk)))" by (simp add: reg_run_def)
  then have "isDisabledInternal (fst (reg_run ok (RegSet name False lv # ops) (r, dk))) (to_lower name)"
    by (cases lv) (auto simp: off_at_def store_at_def isDisabledInternal_def switched_off_def)
  then show ?thesis by (simp add: LookupAgent_def Let_def assms(4) split: option.split)
qed

lemma lookups_agree:
  "gm_get (rg_agents r) (to_lower (trim_space name)) = Some c
     \<Longrightarrow> LookupAgent r name = (Some c, True, IsEnabled_agent r (trim_space name))"
  by (simp add: LookupAgent_def IsEnabled_agent_def isDisabledInternal_def Let_def)

text \<open>A persona only takes agents away.\<close>

lemma persona_only_restricts:
  "IsEnabled_agent (LoadPersona allow r) name \<Longrightarrow> IsEnabled_agent (ClearPersona r) name"
  by (auto simp: IsEnabled_agent_def LoadPersona_def ClearPersona_def hidden_by_persona_def Let_def split: if_splits)
subsection \<open>Examples\<close>

definition shelf :: agents_env where
  "shelf = \<lparr>ge_yaml = \<lambda>s. Some (blank_config\<lparr>ac_Name := ''reviewer'', ac_Description := s\<rparr>), ge_aliases = \<lambda>s. None,
     ge_home = ''/h'', ge_texts = \<lambda>n. ([], [], []),
     ge_place = \<lambda>p. if p = ''/p/.pcb/agents'' then Directory [PlainFile ''r.md'' (Some [''---'', ''mine'', ''---''])]
        else if p = ''/h/.pcb/agents'' then Directory [SubDir ''r'' (Some (Some [''---'', ''theirs'', ''---'']))]
        else Missing\<rparr>"

definition bare_shelf :: agents_env where
  "bare_shelf = shelf\<lparr>ge_place := \<lambda>p. Missing\<rparr>"

definition shelved :: Registry where
  "shelved = InitStores gm_empty (Some ''/h'') ''/p'' (LoadAgents shelf ''/p'' [] NewRegistry)"

lemma project_file_wins: "map_option ac_Description (Get_agent shelved ''Reviewer'') = Some (''mine'' @ [CHR 0x0A])"
  by code_simp

definition user_store :: AgentStore where
  "user_store = NewAgentStore gm_empty ''/h/.pcb/agents.json''"

lemma saved_switch_is_read_back_witness:
  "IsDisabled_store (NewAgentStore (snd (snd (SetDisabled_store (\<lambda>p. True) ''reviewer'' True user_store gm_empty)))
      ''/h/.pcb/agents.json'') ''reviewer''"
proof -
  have ok: "switches_ok user_store" unfolding user_store_def by (rule switches_ok_new)
  obtain saved s' dk' where s: "SetDisabled_store (\<lambda>p. True) ''reviewer'' True user_store gm_empty = (saved, s', dk')"
    by (metis prod_cases3)
  have "fst (SetDisabled_store (\<lambda>p. True) ''reviewer'' True user_store gm_empty)" by code_simp
  then have "saved" using s by simp
  then have s2: "SetDisabled_store (\<lambda>p. True) ''reviewer'' True user_store gm_empty = (True, s', dk')" using s by simp
  have p: "as_path user_store = ''/h/.pcb/agents.json''" by code_simp
  from saved_switch_is_read_back [OF ok s2] show ?thesis unfolding s2 by (simp add: p)
qed

lemma switched_off_stays_off_witness:
  "snd (snd (LookupAgent (fst (reg_run (\<lambda>p. True) [RegSet ''reviewer'' False True, RegSet ''reviewer'' True False,
      RegLoad shelf ''/p'' [], RegPersona [''reviewer'']] (shelved, gm_empty))) '' Reviewer '')) = False"
proof -
  have s: "store_at True shelved = Some user_store" by code_simp
  have ok: "switches_ok user_store" unfolding user_store_def by (rule switches_ok_new)
  show ?thesis
    by (rule switched_off_stays_off [OF s ok]) code_simp+
qed

text \<open>Each of the two switches of a store erases the other one on disk.\<close>

lemma switching_off_erases_the_write_switches:
  "(let (saved, s, dk) = the (SetWriteEnabled_store (\<lambda>p. True) ''reviewer'' True user_store gm_empty);
        (saved', s', dk') = SetDisabled_store (\<lambda>p. True) ''other'' True s dk
    in saved' \<and> IsWriteEnabled_store s' ''reviewer'' \<and> \<not> IsWriteEnabled_store (NewAgentStore dk' ''/h/.pcb/agents.json'') ''reviewer'')"
  by code_simp

lemma granting_write_switches_agents_on:
  "(let (saved, s, dk) = SetDisabled_store (\<lambda>p. True) ''reviewer'' True user_store gm_empty;
        (saved', s', dk') = the (SetWriteEnabled_store (\<lambda>p. True) ''other'' True s dk)
    in saved' \<and> IsDisabled_store s' ''reviewer'' \<and> \<not> IsDisabled_store (NewAgentStore dk' ''/h/.pcb/agents.json'') ''reviewer'')"
  by code_simp

text \<open>Without a home directory the write switch of the user panics.\<close>

lemma write_switch_without_a_home: "SetWriteEnabled_store ok name True (NewUserAgentStore dk None) dk = None"
  by (simp add: SetWriteEnabled_store_def NewUserAgentStore_def)

text \<open>A definition whose file is gone is still registered after the agents have been loaded again.\<close>

lemma deleted_definition_is_kept:
  "map_option ac_Description (Get_agent (LoadAgents bare_shelf ''/p'' [] shelved) ''reviewer'') = Some (''mine'' @ [CHR 0x0A])"
  by code_simp

end
