(* ===== verification/BgTask.thy ===== *)
theory BgTask
  imports Todo "HOL-Library.Multiset"
begin

text \<open>
  Background work (\<open>task\<close>): shell commands and subagents that run beside the conversation, the manager
  that knows and stops them, their output; the tracker item and the notice that a task leaves behind
  (\<open>app/model_lifecycle.go\<close>, \<open>app/notify.go\<close>); and the messages between agents (\<open>broker\<close>,
  \<open>tool/agent/sendmessage.go\<close>, \<open>agent_stop.go\<close>).

  Several goroutines act on one world.  A step is what one of them does between two points at which it
  holds no lock, so that the end of a task is two steps: the transition under its lock, and the
  announcement after it; a kill is the stop, the wait and, when the wait times out, the hard kill.  A
  history is any sequence of steps.  Processes, the error of a wait and of a signal, and which files can
  be written come with the step or the environment; times are left out; output is a list of bytes.
  The insertion of a new task into the manager and the call of its observer are one step, although the
  lock is released between them: nothing is shown about what happens in that gap.

  The notices for the main conversation go through a channel that holds 64 of them; what finds it full
  waits in a goroutine of its own, and the waiting ones get in in any order.  Self-learning posts to the
  same channel; the interface empties it.  The list of everything the interface has taken is a ghost.

  The theorems: a task ends once and is announced once, and a stop is never reported as a failure; the
  tracker shows every task as it is; what is reported as delivered lies in the inbox of the addressee,
  and a notice for the main conversation is never lost.
\<close>

subsection \<open>State\<close>

abbreviation TaskTypeBash :: string where "TaskTypeBash \<equiv> ''bash''"
abbreviation TaskTypeAgent :: string where "TaskTypeAgent \<equiv> ''agent''"
abbreviation StatusRunning :: string where "StatusRunning \<equiv> ''running''"
abbreviation TaskCompleted :: string where "TaskCompleted \<equiv> ''completed''"
abbreviation StatusFailed :: string where "StatusFailed \<equiv> ''failed''"
abbreviation StatusKilled :: string where "StatusKilled \<equiv> ''killed''"
abbreviation StatusStopped :: string where "StatusStopped \<equiv> ''stopped''"

record BackgroundTask =
  bt_Type :: string
  bt_ID :: string
  bt_Command :: string
  bt_Description :: string
  bt_PID :: int
  bt_AgentName :: string
  bt_SessionID :: string
  bt_status :: string
  bt_errMsg :: string
  bt_exitCode :: int
  bt_output :: string
  bt_OutputFile :: string
  bt_StepCount :: int
  bt_TokenUsage :: int
  bt_hasCancel :: bool
  bt_cancelled :: bool
  bt_stopRequested :: bool
  bt_reaped :: bool

record outputRecord =
  or_Event :: string
  or_TaskType :: string
  or_Description :: string
  or_Status :: string
  or_Content :: string
  or_Metadata :: "(string, gval) gomap"

record TaskSnapshot =
  sn_ID :: string
  sn_Type :: string
  sn_Description :: string
  sn_Status :: string
  sn_Output :: string
  sn_OutputFile :: string
  sn_Error :: string
  sn_Command :: string
  sn_PID :: int
  sn_ExitCode :: int
  sn_AgentName :: string
  sn_AgentSessionID :: string
  sn_StepCount :: int
  sn_TokenUsage :: int

record broker_msg =
  bm_From :: string
  bm_To :: string
  bm_Subject :: string
  bm_Content :: string

record mainNotice =
  mn_Display :: string
  mn_Content :: string
  mn_FromAgent :: bool

text \<open>What is registered at an address: the main conversation, which takes everything, or an inbox.\<close>

datatype mailbox = MainBox | Inbox nat "string list"

record world =
  wd_tasks :: "(string, BackgroundTask) gomap"
  wd_outputDir :: string
  wd_files :: "(string, outputRecord list) gomap"
  wd_todo :: "todo_store \<times> disk"
  wd_routes :: "(string, mailbox) gomap"
  wd_notices :: "mainNotice list"
  wd_blocked :: "mainNotice list"
  wd_taken :: "mainNotice list"
  wd_created :: "TaskSnapshot list"
  wd_ended :: "TaskSnapshot list"
  wd_pending :: "string list"
  wd_waiting :: "string list"

record bg_env =
  be_todo :: todo_env
  be_open :: "string \<Rightarrow> bool"

subsection \<open>Output\<close>

definition maxOutputBufferSize :: int where
  "maxOutputBufferSize = 512 * 1024"

definition appendCapped :: "int \<Rightarrow> string \<Rightarrow> string \<Rightarrow> string" where
  "appendCapped cap buf data0 =
     (let data = (if cap < int (length data0) then drop (nat (int (length data0) - cap)) data0 else data0);
          over = int (length buf) + int (length data) - cap
      in (if 0 < over then drop (nat over) buf else buf) @ data)"

definition OutputPath :: "world \<Rightarrow> string \<Rightarrow> string" where
  "OutputPath w taskID =
     (if wd_outputDir w = [] \<or> taskID = [] then [] else path_join (wd_outputDir w) (taskID @ ''.log''))"

definition initOutputFile :: "bg_env \<Rightarrow> string \<Rightarrow> world \<Rightarrow> string \<times> world" where
  "initOutputFile E taskID w =
     (let path = OutputPath w taskID
      in if path = [] \<or> \<not> be_open E path then ([], w) else (path, w\<lparr>wd_files := gm_put path [] (wd_files w)\<rparr>))"

definition appendOutputFile :: "bg_env \<Rightarrow> string \<Rightarrow> outputRecord \<Rightarrow> world \<Rightarrow> world" where
  "appendOutputFile E path r w =
     (if path = [] \<or> or_Event r = [] \<or> \<not> be_open E path then w
      else w\<lparr>wd_files := gm_put path ((case gm_get (wd_files w) path of None \<Rightarrow> [] | Some rs \<Rightarrow> rs) @ [r]) (wd_files w)\<rparr>)"

definition plain_record :: outputRecord where
  "plain_record = \<lparr>or_Event = [], or_TaskType = [], or_Description = [], or_Status = [], or_Content = [], or_Metadata = []\<rparr>"

subsection \<open>Text of a notice\<close>

definition EscapeXMLText :: "string \<Rightarrow> string" where
  "EscapeXMLText s = concat (List.map (\<lambda>c. if c = CHR ''&'' then ''&amp;'' else if c = CHR ''<'' then ''&lt;''
     else if c = CHR ''>'' then ''&gt;'' else [c]) s)"

definition hex_digit :: "nat \<Rightarrow> char" where
  "hex_digit n = (if n < 10 then char_of (48 + n) else char_of (87 + n))"

text \<open>The verb \<open>%q\<close>, with every rune beyond ASCII printable.\<close>

definition quote_char :: "char \<Rightarrow> string" where
  "quote_char c =
     (let n = byte_of c
      in if c = CHR 0x22 then [CHR 0x5C, CHR 0x22]
         else if c = CHR 0x5C then [CHR 0x5C, CHR 0x5C]
         else if n = 7 then [CHR 0x5C, CHR ''a'']
         else if n = 8 then [CHR 0x5C, CHR ''b'']
         else if n = 12 then [CHR 0x5C, CHR ''f'']
         else if n = 10 then [CHR 0x5C, CHR ''n'']
         else if n = 13 then [CHR 0x5C, CHR ''r'']
         else if n = 9 then [CHR 0x5C, CHR ''t'']
         else if n = 11 then [CHR 0x5C, CHR ''v'']
         else if n < 32 \<or> n = 127 then [CHR 0x5C, CHR ''x'', hex_digit (n div 16), hex_digit (n mod 16)]
         else [c])"

definition go_quote :: "string \<Rightarrow> string" where
  "go_quote s = [CHR 0x22] @ concat (List.map quote_char s) @ [CHR 0x22]"

definition joinNameDesc :: "string \<Rightarrow> string \<Rightarrow> string" where
  "joinNameDesc name0 desc0 =
     (let name = trim_space name0; desc = trim_space desc0
      in if name \<noteq> [] \<and> desc \<noteq> [] \<and> to_lower name \<noteq> to_lower desc then name @ '': '' @ desc
         else if desc \<noteq> [] then desc else if name \<noteq> [] then name else [])"

definition taskSubject :: "TaskSnapshot \<Rightarrow> string" where
  "taskSubject info =
     (if sn_Type info = TaskTypeAgent \<and> joinNameDesc (sn_AgentName info) (sn_Description info) \<noteq> []
        then joinNameDesc (sn_AgentName info) (sn_Description info)
      else if sn_Type info = TaskTypeBash \<and> sn_Command info \<noteq> [] then sn_Command info
      else sn_Description info)"

definition formatStatus :: "string \<Rightarrow> string" where
  "formatStatus status = (if status \<in> {TaskCompleted, StatusFailed, StatusKilled, StatusStopped} then status else [])"

definition maxTaskOutputInNotification :: int where
  "maxTaskOutputInNotification = 40000"

definition taskCompletionMessage :: "int \<Rightarrow> TaskSnapshot \<Rightarrow> broker_msg option" where
  "taskCompletionMessage cap info =
     (let status = formatStatus (sn_Status info)
      in if status = [] then None
         else let description = (if taskSubject info = [] then ''Background task'' else taskSubject info);
                  result = trim_space (sn_Output info);
                  head = ''<task-notification task-id='' @ go_quote (sn_ID info) @ '' status='' @ go_quote status
                    @ (if sn_AgentSessionID info \<noteq> [] then '' agent-id='' @ go_quote (sn_AgentSessionID info) else [])
                    @ (if description \<noteq> [] then '' description='' @ go_quote description else [])
                    @ (if sn_OutputFile info \<noteq> [] then '' output-file='' @ go_quote (sn_OutputFile info) else [])
                    @ ''>'' @ [CHR 0x0A];
                  body = (if sn_Error info \<noteq> [] then EscapeXMLText (sn_Error info)
                          else if cap < int (length result) \<and> sn_OutputFile info \<noteq> []
                            then ''Output is '' @ nat_str (length result) @ '' bytes ''
                                 @ [CHR 0xE2, CHR 0x80, CHR 0x94] @ '' too large to inline. Read the full result from the output file above.''
                          else EscapeXMLText result)
              in Some \<lparr>bm_From = sn_ID info, bm_To = ''main'', bm_Subject = description @ '' '' @ status,
                   bm_Content = head @ body @ [CHR 0x0A] @ ''</task-notification>''\<rparr>)"

subsection \<open>The broker\<close>

abbreviation Main :: string where "Main \<equiv> ''main''"

definition Register_route :: "string \<Rightarrow> mailbox \<Rightarrow> world \<Rightarrow> world" where
  "Register_route addr box w = w\<lparr>wd_routes := gm_put addr box (wd_routes w)\<rparr>"

definition Unregister_route :: "string \<Rightarrow> world \<Rightarrow> world" where
  "Unregister_route addr w = w\<lparr>wd_routes := gm_del addr (wd_routes w)\<rparr>"

definition fromBrokerMessage :: "broker_msg \<Rightarrow> mainNotice" where
  "fromBrokerMessage m = \<lparr>mn_Display = bm_Subject m, mn_Content = bm_Content m, mn_FromAgent = True\<rparr>"

text \<open>
  The channel of the main conversation: a notice that finds it full is handed to a goroutine that waits
  for room, and any of the waiting ones may get the next place; the interface takes from the front.
\<close>

definition mainNotices_cap :: nat where
  "mainNotices_cap = 64"

definition notifyMain :: "mainNotice \<Rightarrow> world \<Rightarrow> world" where
  "notifyMain n w =
     (if length (wd_notices w) < mainNotices_cap then w\<lparr>wd_notices := wd_notices w @ [n]\<rparr>
      else w\<lparr>wd_blocked := wd_blocked w @ [n]\<rparr>)"

definition post_blocked :: "nat \<Rightarrow> world \<Rightarrow> world" where
  "post_blocked k w =
     (if k < length (wd_blocked w) \<and> length (wd_notices w) < mainNotices_cap
        then w\<lparr>wd_notices := wd_notices w @ [wd_blocked w ! k],
               wd_blocked := take k (wd_blocked w) @ drop (Suc k) (wd_blocked w)\<rparr>
      else w)"

definition drainNotices :: "nat \<Rightarrow> world \<Rightarrow> mainNotice list \<times> world" where
  "drainNotices limit w =
     (let out = take limit (wd_notices w)
      in (out, w\<lparr>wd_notices := drop limit (wd_notices w), wd_taken := wd_taken w @ out\<rparr>))"

definition Send :: "broker_msg \<Rightarrow> world \<Rightarrow> bool \<times> world" where
  "Send m w =
     (case gm_get (wd_routes w) (bm_To m) of
        None \<Rightarrow> (False, w)
      | Some MainBox \<Rightarrow> (True, notifyMain (fromBrokerMessage m) w)
      | Some (Inbox cap msgs) \<Rightarrow>
          if length msgs < cap
            then (True, w\<lparr>wd_routes := gm_put (bm_To m) (Inbox cap (msgs @ [bm_Content m])) (wd_routes w)\<rparr>)
          else (False, w))"

definition mergeNotices :: "mainNotice list \<Rightarrow> mainNotice" where
  "mergeNotices ns =
     (case ns of
        [n] \<Rightarrow> n
      | _ \<Rightarrow>
          (let contents = filter (\<lambda>c. c \<noteq> []) (List.map (\<lambda>n. trim_space (mn_Content n)) ns)
           in \<lparr>mn_Display = join_str ''; '' (filter (\<lambda>d. d \<noteq> []) (List.map mn_Display ns)),
               mn_Content = (case contents of
                  [] \<Rightarrow> []
                | [c] \<Rightarrow> c
                | _ \<Rightarrow> ''<agent-messages>'' @ [CHR 0x0A] @ join_str [CHR 0x0A] contents @ [CHR 0x0A] @ ''</agent-messages>''),
               mn_FromAgent = list_ex mn_FromAgent ns\<rparr>))"

subsection \<open>The manager\<close>

definition Get_task :: "world \<Rightarrow> string \<Rightarrow> BackgroundTask option" where
  "Get_task w i = gm_get (wd_tasks w) i"

definition put_task :: "BackgroundTask \<Rightarrow> world \<Rightarrow> world" where
  "put_task t w = w\<lparr>wd_tasks := gm_put (bt_ID t) t (wd_tasks w)\<rparr>"

definition task_IsRunning :: "BackgroundTask \<Rightarrow> bool" where
  "task_IsRunning t \<longleftrightarrow> bt_status t = StatusRunning"

definition List_tasks :: "world \<Rightarrow> BackgroundTask list" where
  "List_tasks w = gm_vals (wd_tasks w)"

definition ListRunning :: "world \<Rightarrow> BackgroundTask list" where
  "ListRunning w = filter task_IsRunning (gm_vals (wd_tasks w))"

definition HasRunning :: "world \<Rightarrow> bool" where
  "HasRunning w \<longleftrightarrow> list_ex task_IsRunning (gm_vals (wd_tasks w))"

definition IsRunning_task :: "world \<Rightarrow> string \<Rightarrow> bool" where
  "IsRunning_task w i \<longleftrightarrow> (case Get_task w i of None \<Rightarrow> False | Some t \<Rightarrow> task_IsRunning t)"

definition GetStatus :: "BackgroundTask \<Rightarrow> TaskSnapshot" where
  "GetStatus t =
     \<lparr>sn_ID = bt_ID t, sn_Type = bt_Type t, sn_Description = bt_Description t, sn_Status = bt_status t,
      sn_Output = bt_output t, sn_OutputFile = bt_OutputFile t, sn_Error = bt_errMsg t,
      sn_Command = bt_Command t, sn_PID = bt_PID t, sn_ExitCode = bt_exitCode t,
      sn_AgentName = bt_AgentName t, sn_AgentSessionID = bt_SessionID t,
      sn_StepCount = bt_StepCount t, sn_TokenUsage = bt_TokenUsage t\<rparr>"

definition todo_info :: "TaskSnapshot \<Rightarrow> TaskInfo" where
  "todo_info s = \<lparr>ti_ID = sn_ID s, ti_Description = sn_Description s, ti_Status = sn_Status s,
     ti_Command = sn_Command s, ti_AgentName = sn_AgentName s\<rparr>"

text \<open>The handler of the application for the two ends of a task.\<close>

definition todo_env_of :: "bg_env \<Rightarrow> world \<Rightarrow> todo_env" where
  "todo_env_of E w = (be_todo E)\<lparr>t_running := IsRunning_task w\<rparr>"

definition onCreated :: "bg_env \<Rightarrow> TaskSnapshot \<Rightarrow> world \<Rightarrow> world" where
  "onCreated E info w =
     w\<lparr>wd_created := wd_created w @ [info], wd_todo := TrackWorker (todo_env_of E w) (todo_info info) (wd_todo w)\<rparr>"

definition onCompleted :: "bg_env \<Rightarrow> TaskSnapshot \<Rightarrow> world \<Rightarrow> world" where
  "onCompleted E info w =
     (let w = w\<lparr>wd_ended := wd_ended w @ [info], wd_todo := CompleteWorker (todo_env_of E w) (todo_info info) (wd_todo w)\<rparr>
      in case taskCompletionMessage maxTaskOutputInNotification info of None \<Rightarrow> w | Some msg \<Rightarrow> snd (Send msg w))"

definition NewBashTask :: "bg_env \<Rightarrow> string \<Rightarrow> string \<Rightarrow> string \<Rightarrow> int \<Rightarrow> bool \<Rightarrow> world \<Rightarrow> BackgroundTask \<times> world" where
  "NewBashTask E i command description pid hasCancel w =
     (let (path, w) = initOutputFile E i w
      in (\<lparr>bt_Type = TaskTypeBash, bt_ID = i, bt_Command = command, bt_Description = description, bt_PID = pid,
           bt_AgentName = [], bt_SessionID = [], bt_status = StatusRunning, bt_errMsg = [], bt_exitCode = 0,
           bt_output = [], bt_OutputFile = path, bt_StepCount = 0, bt_TokenUsage = 0, bt_hasCancel = hasCancel,
           bt_cancelled = False, bt_stopRequested = False, bt_reaped = False\<rparr>,
          appendOutputFile E path (plain_record\<lparr>or_Event := ''task.started'', or_TaskType := TaskTypeBash,
            or_Description := description, or_Metadata := [(''command'', GStr command), (''pid'', GNum pid)]\<rparr>) w))"

definition NewAgentTask :: "bg_env \<Rightarrow> string \<Rightarrow> string \<Rightarrow> string \<Rightarrow> world \<Rightarrow> BackgroundTask \<times> world" where
  "NewAgentTask E i agentName description w =
     (let (path, w) = initOutputFile E i w
      in (\<lparr>bt_Type = TaskTypeAgent, bt_ID = i, bt_Command = [], bt_Description = description, bt_PID = 0,
           bt_AgentName = agentName, bt_SessionID = [], bt_status = StatusRunning, bt_errMsg = [], bt_exitCode = 0,
           bt_output = [], bt_OutputFile = path, bt_StepCount = 0, bt_TokenUsage = 0, bt_hasCancel = True,
           bt_cancelled = False, bt_stopRequested = False, bt_reaped = False\<rparr>,
          appendOutputFile E path (plain_record\<lparr>or_Event := ''task.started'', or_TaskType := TaskTypeAgent,
            or_Description := description, or_Metadata := [(''agent_name'', GStr agentName)]\<rparr>) w))"

definition RegisterTask :: "bg_env \<Rightarrow> BackgroundTask \<Rightarrow> world \<Rightarrow> world" where
  "RegisterTask E t w = onCreated E (GetStatus t) (put_task t w)"

definition CreateBashTask :: "bg_env \<Rightarrow> string \<Rightarrow> string \<Rightarrow> string \<Rightarrow> int \<Rightarrow> bool \<Rightarrow> world \<Rightarrow> world" where
  "CreateBashTask E i command description pid hasCancel w =
     (let (t, w) = NewBashTask E i command description pid hasCancel w in RegisterTask E t w)"

subsection \<open>Operations of a task\<close>

definition AppendOutput :: "bg_env \<Rightarrow> string \<Rightarrow> BackgroundTask \<Rightarrow> world \<Rightarrow> world" where
  "AppendOutput E bytes t w =
     appendOutputFile E (bt_OutputFile t) (plain_record\<lparr>or_Event := ''task.output'', or_Content := bytes\<rparr>)
       (put_task (t\<lparr>bt_output := appendCapped maxOutputBufferSize (bt_output t) bytes\<rparr>) w)"

definition AppendProgress :: "bg_env \<Rightarrow> string \<Rightarrow> BackgroundTask \<Rightarrow> world \<Rightarrow> world" where
  "AppendProgress E msg t w =
     appendOutputFile E (bt_OutputFile t) (plain_record\<lparr>or_Event := ''task.progress'', or_Content := msg\<rparr>) w"

definition SetIdentity :: "bg_env \<Rightarrow> string \<Rightarrow> string \<Rightarrow> BackgroundTask \<Rightarrow> world \<Rightarrow> world" where
  "SetIdentity E agentName sessionID t w =
     (let changed = bt_AgentName t \<noteq> agentName \<or> sessionID \<noteq> [];
          t' = t\<lparr>bt_AgentName := agentName, bt_SessionID := (if sessionID \<noteq> [] then sessionID else bt_SessionID t)\<rparr>;
          w = put_task t' w
      in if changed then appendOutputFile E (bt_OutputFile t) (plain_record\<lparr>or_Event := ''agent.identity'',
           or_Metadata := [(''agent_name'', GStr agentName), (''agent_id'', GStr sessionID)]\<rparr>) w
         else w)"

definition SetOutputFile :: "string \<Rightarrow> BackgroundTask \<Rightarrow> world \<Rightarrow> world" where
  "SetOutputFile path t w =
     put_task (if path \<noteq> [] \<and> bt_OutputFile t = [] then t\<lparr>bt_OutputFile := path\<rparr> else t) w"

definition UpdateProgress :: "int \<Rightarrow> int \<Rightarrow> BackgroundTask \<Rightarrow> world \<Rightarrow> world" where
  "UpdateProgress steps tokens t w = put_task (t\<lparr>bt_StepCount := steps, bt_TokenUsage := tokens\<rparr>) w"

text \<open>The transition under the lock; the announcement is a step of its own.\<close>

definition finalize :: "string \<Rightarrow> int \<Rightarrow> string \<Rightarrow> BackgroundTask \<Rightarrow> world \<Rightarrow> world" where
  "finalize status exitCode errMsg t w =
     (if bt_status t \<noteq> StatusRunning then w
      else (put_task (t\<lparr>bt_status := status, bt_exitCode := exitCode, bt_errMsg := errMsg\<rparr>) w)
             \<lparr>wd_pending := wd_pending w @ [bt_ID t]\<rparr>)"

definition announce :: "bg_env \<Rightarrow> BackgroundTask \<Rightarrow> world \<Rightarrow> world" where
  "announce E t w =
     (let meta = (if bt_Type t = TaskTypeBash then [(''exit_code'', GNum (bt_exitCode t)), (''error'', GStr (bt_errMsg t))]
                  else [(''error'', GStr (bt_errMsg t))]);
          w = w\<lparr>wd_pending := remove1 (bt_ID t) (wd_pending w)\<rparr>;
          w = appendOutputFile E (bt_OutputFile t) (plain_record\<lparr>or_Event := ''task.completed'',
                or_Status := bt_status t, or_Metadata := meta\<rparr>) w
      in onCompleted E (GetStatus t) w)"

datatype wait_error = SignalDeath nat string | OtherError string

definition error_text :: "wait_error \<Rightarrow> string" where
  "error_text e = (case e of SignalDeath n s \<Rightarrow> s | OtherError s \<Rightarrow> s)"

definition wasGracefullyTerminated :: "wait_error option \<Rightarrow> bool" where
  "wasGracefullyTerminated e \<longleftrightarrow> (case e of Some (SignalDeath n s) \<Rightarrow> n = 15 | _ \<Rightarrow> False)"

definition signalExitCode :: "nat \<Rightarrow> int" where
  "signalExitCode sig = 128 + int sig"

definition Complete_bash :: "int \<Rightarrow> wait_error option \<Rightarrow> BackgroundTask \<Rightarrow> world \<Rightarrow> world" where
  "Complete_bash exitCode err t w =
     (let (status, errMsg) =
        (if bt_stopRequested t \<or> wasGracefullyTerminated err then (StatusStopped, ''stopped before completion'')
         else case err of
                Some e \<Rightarrow> (StatusFailed, error_text e)
              | None \<Rightarrow> if exitCode \<noteq> 0 then (StatusFailed, []) else (TaskCompleted, []))
      in finalize status exitCode errMsg t w)"

datatype run_error = Cancelled string | RunFailed string

definition Complete_agent :: "run_error option \<Rightarrow> BackgroundTask \<Rightarrow> world \<Rightarrow> world" where
  "Complete_agent err t w =
     (case err of
        None \<Rightarrow> finalize TaskCompleted 0 [] t w
      | Some (Cancelled s) \<Rightarrow> finalize StatusStopped 0 ''stopped before completion'' t w
      | Some (RunFailed s) \<Rightarrow> finalize StatusFailed 0 s t w)"

definition markKilled :: "BackgroundTask \<Rightarrow> world \<Rightarrow> world" where
  "markKilled t w = finalize StatusKilled (if bt_Type t = TaskTypeBash then signalExitCode 9 else 0) [] t w"

definition MarkReaped :: "BackgroundTask \<Rightarrow> world \<Rightarrow> world" where
  "MarkReaped t w = put_task (t\<lparr>bt_reaped := True\<rparr>) w"

text \<open>\<open>sigerr\<close>: what the signal to the process group answers.\<close>

definition Stop_task :: "string option \<Rightarrow> BackgroundTask \<Rightarrow> world \<Rightarrow> string option \<times> world" where
  "Stop_task sigerr t w =
     (if bt_Type t = TaskTypeBash
        then (if bt_reaped t then None else sigerr, put_task (t\<lparr>bt_stopRequested := True\<rparr>) w)
      else (None, put_task (if bt_hasCancel t then t\<lparr>bt_cancelled := True\<rparr> else t) w))"

definition Kill_task :: "string option \<Rightarrow> BackgroundTask \<Rightarrow> world \<Rightarrow> string option \<times> world" where
  "Kill_task sigerr t w =
     (let t' = (if bt_hasCancel t then t\<lparr>bt_cancelled := True\<rparr> else t);
          err = (if bt_Type t = TaskTypeBash \<and> \<not> bt_hasCancel t \<and> \<not> bt_reaped t then sigerr else None)
      in (err, markKilled t' (put_task t' w)))"

text \<open>The kill of the manager: its first part, and the two ways its wait ends.\<close>

definition Manager_Kill :: "string option \<Rightarrow> string option \<Rightarrow> string \<Rightarrow> world \<Rightarrow> string option \<times> world" where
  "Manager_Kill stoperr killerr i w =
     (case Get_task w i of
        None \<Rightarrow> (Some (''task not found: '' @ i), w)
      | Some t \<Rightarrow>
          if \<not> task_IsRunning t then (Some (''task already completed: '' @ i), w)
          else (case Stop_task stoperr t w of
                  (Some e, w') \<Rightarrow>
                    (case Get_task w' i of None \<Rightarrow> (None, w') | Some t' \<Rightarrow> Kill_task killerr t' w')
                | (None, w') \<Rightarrow> (None, w'\<lparr>wd_waiting := i # wd_waiting w'\<rparr>)))"

definition Kill_timeout :: "string option \<Rightarrow> string \<Rightarrow> world \<Rightarrow> string option \<times> world" where
  "Kill_timeout killerr i w =
     (case Get_task w i of
        None \<Rightarrow> (None, w)
      | Some t \<Rightarrow> Kill_task killerr t (w\<lparr>wd_waiting := remove1 i (wd_waiting w)\<rparr>))"

subsection \<open>Messages and stops as tools\<close>

definition senderLabel :: "world \<Rightarrow> string \<Rightarrow> string" where
  "senderLabel w i =
     (if i = Main then ''the main conversation''
      else case Get_task w i of
             Some t \<Rightarrow> if bt_AgentName t \<noteq> [] then bt_AgentName t @ '' (task '' @ i @ '')'' else ''task '' @ i
           | None \<Rightarrow> ''task '' @ i)"

definition recipientLabel :: "world \<Rightarrow> string \<Rightarrow> string" where
  "recipientLabel w i = (if i = Main then ''the main conversation'' else ''running '' @ senderLabel w i)"

definition undeliverableReason :: "world \<Rightarrow> string \<Rightarrow> string" where
  "undeliverableReason w i =
     (if i = Main then ''the main conversation is not currently reachable''
      else case Get_task w i of
             None \<Rightarrow> ''no running worker is registered at '' @ go_quote i
               @ '' '' @ [CHR 0xE2, CHR 0x80, CHR 0x94] @ '' it has finished or was never started; spawn a new agent to continue the work''
           | Some t \<Rightarrow>
               if bt_status t = StatusRunning
                 then ''worker '' @ go_quote i @ '' is still starting up or its inbox is momentarily full ''
                   @ [CHR 0xE2, CHR 0x80, CHR 0x94] @ '' wait a moment and send again''
               else ''worker '' @ go_quote i @ '' has finished (status '' @ bt_status t
                   @ '') and can no longer be messaged; spawn a new agent to continue its work'')"

definition wrapAgentMessage :: "string \<Rightarrow> string \<Rightarrow> string" where
  "wrapAgentMessage sender body =
     ''<agent-message from='' @ go_quote sender @ ''>'' @ [CHR 0x0A] @ EscapeXMLText body @ [CHR 0x0A] @ ''</agent-message>''"

text \<open>\<open>caller\<close>: the address in the context of the call, empty for the main conversation.\<close>

definition SendMessage_execute :: "string \<Rightarrow> string \<Rightarrow> string \<Rightarrow> world \<Rightarrow> (string + string) \<times> world" where
  "SendMessage_execute caller to0 message w =
     (if message = [] then (Inl ''message is required'', w)
      else let to = trim_space to0; sender = (if caller = [] then Main else caller)
           in if to = [] then (Inl (''to is required (a subagent task id, or '' @ go_quote ''main'' @ '')''), w)
              else if sender = to then (Inl ''cannot send a message to yourself'', w)
              else let (delivered, w') = Send \<lparr>bm_From = sender, bm_To = to,
                         bm_Subject = ''Message from '' @ senderLabel w sender, bm_Content = wrapAgentMessage sender message\<rparr> w
                   in if \<not> delivered then (Inl (undeliverableReason w' to), w')
                      else (Inr (''Message delivered to '' @ recipientLabel w' to
                              @ ''; it is read at the recipient'' @ [CHR 0x27] @ ''s next step. Continue with your task.''), w'))"

definition AgentStop_execute :: "string option \<Rightarrow> world \<Rightarrow> (string + string) \<times> world" where
  "AgentStop_execute taskID w =
     (case taskID of
        None \<Rightarrow> (Inl ''task_id is required'', w)
      | Some i \<Rightarrow>
          (case Get_task w i of
             None \<Rightarrow> (Inl (''agent task not found: '' @ i), w)
           | Some t \<Rightarrow>
               if bt_Type t \<noteq> TaskTypeAgent
                 then (Inl (''task '' @ i @ '' is a background Bash command; stop its process group with Bash instead''), w)
               else (case Manager_Kill None None i w of
                       (Some e, w') \<Rightarrow> (Inl (''failed to stop agent task: '' @ e), w')
                     | (None, w') \<Rightarrow> (Inr i, w'))))"

subsection \<open>Histories\<close>

datatype bg_event =
    EvBash string string string int bool
  | EvAgent string string string
  | EvOutput string string | EvProgress string string | EvIdentity string string string
  | EvOutputFile string string | EvSteps string int int
  | EvReaped string
  | EvBashExit string int "wait_error option"
  | EvAgentExit string "run_error option"
  | EvAnnounce string
  | EvKill string "string option" "string option" | EvKillSeen string | EvKillTimeout string "string option"
  | EvRoute string nat | EvUnroute string | EvRead string
  | EvSend string string string
  | EvNotice mainNotice | EvUnblock nat | EvDrain nat
  | EvTracker todo_op

definition with_task :: "string \<Rightarrow> (BackgroundTask \<Rightarrow> world \<Rightarrow> world) \<Rightarrow> world \<Rightarrow> world" where
  "with_task i f w = (case Get_task w i of None \<Rightarrow> w | Some t \<Rightarrow> f t w)"

definition bg_step :: "bg_env \<Rightarrow> bg_event \<Rightarrow> world \<Rightarrow> world" where
  "bg_step E ev w =
     (case ev of
        EvBash i command description pid hasCancel \<Rightarrow> CreateBashTask E i command description pid hasCancel w
      | EvAgent i name description \<Rightarrow> (let (t, w) = NewAgentTask E i name description w in RegisterTask E t w)
      | EvOutput i bytes \<Rightarrow> with_task i (AppendOutput E bytes) w
      | EvProgress i msg \<Rightarrow> with_task i (AppendProgress E msg) w
      | EvIdentity i name s \<Rightarrow> with_task i (SetIdentity E name s) w
      | EvOutputFile i path \<Rightarrow> with_task i (SetOutputFile path) w
      | EvSteps i steps tokens \<Rightarrow> with_task i (UpdateProgress steps tokens) w
      | EvReaped i \<Rightarrow> with_task i MarkReaped w
      | EvBashExit i code err \<Rightarrow> with_task i (Complete_bash code err) w
      | EvAgentExit i err \<Rightarrow> with_task i (Complete_agent err) w
      | EvAnnounce i \<Rightarrow> with_task i (announce E) w
      | EvKill i stoperr killerr \<Rightarrow> snd (Manager_Kill stoperr killerr i w)
      | EvKillSeen i \<Rightarrow> w\<lparr>wd_waiting := remove1 i (wd_waiting w)\<rparr>
      | EvKillTimeout i killerr \<Rightarrow> snd (Kill_timeout killerr i w)
      | EvRoute addr cap \<Rightarrow> Register_route addr (Inbox cap []) w
      | EvUnroute addr \<Rightarrow> Unregister_route addr w
      | EvRead addr \<Rightarrow>
          (case gm_get (wd_routes w) addr of
             Some (Inbox cap (m # ms)) \<Rightarrow> Register_route addr (Inbox cap ms) w
           | _ \<Rightarrow> w)
      | EvSend caller to message \<Rightarrow> snd (SendMessage_execute caller to message w)
      | EvNotice n \<Rightarrow> notifyMain n w
      | EvUnblock k \<Rightarrow> post_blocked k w
      | EvDrain k \<Rightarrow> snd (drainNotices k w)
      | EvTracker op \<Rightarrow> w\<lparr>wd_todo := exec_op (todo_env_of E w) op (wd_todo w)\<rparr>)"

text \<open>
  When a step can happen: a new task has an id that neither the manager nor the tracker knows, a process
  exits for a shell command and a run for an agent, an end is
  announced after it happened, and a wait that ends was begun.  The tracker is also changed by the
  conversation, which creates, updates and deletes items, as long as it leaves alone which tasks they
  mirror and the status and details of those that mirror one.  A reset of the tracker, an import and a
  reload are not among the steps: they take away items of tasks.
\<close>

definition worker_item :: "todo_store \<Rightarrow> string \<Rightarrow> bool" where
  "worker_item s k \<longleftrightarrow> (case gm_get (st_items s) k of None \<Rightarrow> False | Some x \<Rightarrow> gm_get (it_Metadata x) metaTaskID \<noteq> None)"

definition harmless :: "update_option \<Rightarrow> bool" where
  "harmless opt \<longleftrightarrow> (case opt of WithStatus st \<Rightarrow> False | WithMetadata m \<Rightarrow> False | _ \<Rightarrow> True)"

definition names_no_task :: "update_option \<Rightarrow> bool" where
  "names_no_task opt \<longleftrightarrow> (case opt of WithMetadata m \<Rightarrow> list_all (\<lambda>(k, v). k \<noteq> metaTaskID) m | _ \<Rightarrow> True)"

fun spares_tasks :: "todo_op \<Rightarrow> todo_store \<Rightarrow> bool" where
  "spares_tasks (OpCreate subj desc act m) s \<longleftrightarrow> gm_get m metaTaskID = None"
| "spares_tasks (OpUpdate k opts) s \<longleftrightarrow>
     list_all harmless opts \<or> (\<not> worker_item s k \<and> list_all names_no_task opts)"
| "spares_tasks (OpDelete k) s \<longleftrightarrow> \<not> worker_item s k"
| "spares_tasks _ s \<longleftrightarrow> False"

definition enabled :: "bg_event \<Rightarrow> world \<Rightarrow> bool" where
  "enabled ev w =
     (let fresh = (\<lambda>i. i \<noteq> [] \<and> Get_task w i = None \<and> FindByMetadata (fst (wd_todo w)) metaTaskID i = None
            \<and> st_nextID (fst (wd_todo w)) < 2 ^ 63 - 1)
      in case ev of
           EvBash i command description pid hasCancel \<Rightarrow> fresh i
         | EvAgent i name description \<Rightarrow> fresh i
         | EvBashExit i code err \<Rightarrow> (case Get_task w i of None \<Rightarrow> False | Some t \<Rightarrow> bt_Type t = TaskTypeBash)
         | EvAgentExit i err \<Rightarrow> (case Get_task w i of None \<Rightarrow> False | Some t \<Rightarrow> bt_Type t = TaskTypeAgent)
         | EvAnnounce i \<Rightarrow> i \<in> set (wd_pending w)
         | EvKillSeen i \<Rightarrow> i \<in> set (wd_waiting w) \<and> \<not> IsRunning_task w i
         | EvKillTimeout i killerr \<Rightarrow> i \<in> set (wd_waiting w)
         | EvTracker op \<Rightarrow> op_fits op (wd_todo w) \<and> spares_tasks op (fst (wd_todo w))
         | _ \<Rightarrow> True)"

definition world_start :: "world \<Rightarrow> bool" where
  "world_start w \<longleftrightarrow> wd_tasks w = gm_empty \<and> wd_pending w = [] \<and> wd_created w = [] \<and> wd_ended w = [] \<and> wd_waiting w = []
     \<and> todo_ok (fst (wd_todo w))"

inductive reachable :: "world \<Rightarrow> bool" where
  start: "world_start w \<Longrightarrow> reachable w"
| step: "reachable w \<Longrightarrow> enabled ev w \<Longrightarrow> reachable (bg_step E ev w)"

fun bg_run :: "(bg_env \<times> bg_event) list \<Rightarrow> world \<Rightarrow> world" where
  "bg_run [] w = w"
| "bg_run ((E, ev) # evs) w = bg_run evs (bg_step E ev w)"

fun all_enabled :: "(bg_env \<times> bg_event) list \<Rightarrow> world \<Rightarrow> bool" where
  "all_enabled [] w \<longleftrightarrow> True"
| "all_enabled ((E, ev) # evs) w \<longleftrightarrow> enabled ev w \<and> all_enabled evs (bg_step E ev w)"

lemma reachable_run: "reachable w \<Longrightarrow> all_enabled evs w \<Longrightarrow> reachable (bg_run evs w)"
proof (induction evs arbitrary: w)
  case (Cons a evs)
  obtain E ev where "a = (E, ev)" by fastforce
  then show ?case using Cons by (auto intro: reachable.step)
qed simp

subsection \<open>Frames\<close>

lemma appendOutputFile_frame [simp]:
  "wd_tasks (appendOutputFile E p r w) = wd_tasks w" "wd_pending (appendOutputFile E p r w) = wd_pending w"
  "wd_ended (appendOutputFile E p r w) = wd_ended w" "wd_todo (appendOutputFile E p r w) = wd_todo w"
  "wd_waiting (appendOutputFile E p r w) = wd_waiting w" "wd_routes (appendOutputFile E p r w) = wd_routes w"
  "wd_notices (appendOutputFile E p r w) = wd_notices w" "wd_created (appendOutputFile E p r w) = wd_created w"
  by (simp_all add: appendOutputFile_def)

lemma initOutputFile_frame:
  assumes "initOutputFile E i w = (p, w')"
  shows "wd_tasks w' = wd_tasks w" "wd_pending w' = wd_pending w" "wd_ended w' = wd_ended w" "wd_todo w' = wd_todo w"
  using assms by (auto simp: initOutputFile_def Let_def split: if_splits)

lemma put_task_frame [simp]:
  "wd_pending (put_task t w) = wd_pending w" "wd_ended (put_task t w) = wd_ended w" "wd_todo (put_task t w) = wd_todo w"
  "wd_waiting (put_task t w) = wd_waiting w" "wd_routes (put_task t w) = wd_routes w" "wd_notices (put_task t w) = wd_notices w"
  by (simp_all add: put_task_def)

lemma main_frame [simp]:
  "wd_tasks (notifyMain n w) = wd_tasks w" "wd_pending (notifyMain n w) = wd_pending w"
  "wd_ended (notifyMain n w) = wd_ended w" "wd_todo (notifyMain n w) = wd_todo w"
  "wd_routes (notifyMain n w) = wd_routes w" "wd_waiting (notifyMain n w) = wd_waiting w"
  "wd_tasks (post_blocked k w) = wd_tasks w" "wd_pending (post_blocked k w) = wd_pending w"
  "wd_ended (post_blocked k w) = wd_ended w" "wd_todo (post_blocked k w) = wd_todo w"
  "wd_tasks (snd (drainNotices k w)) = wd_tasks w" "wd_pending (snd (drainNotices k w)) = wd_pending w"
  "wd_ended (snd (drainNotices k w)) = wd_ended w" "wd_todo (snd (drainNotices k w)) = wd_todo w"
  by (simp_all add: notifyMain_def post_blocked_def drainNotices_def Let_def)

lemma Send_frame [simp]:
  "wd_tasks (snd (Send m w)) = wd_tasks w" "wd_pending (snd (Send m w)) = wd_pending w"
  "wd_ended (snd (Send m w)) = wd_ended w" "wd_todo (snd (Send m w)) = wd_todo w"
  by (auto simp: Send_def split: option.splits mailbox.splits)

lemma Get_task_put: "Get_task (put_task t w) i = (if i = bt_ID t then Some t else Get_task w i)"
  by (simp add: Get_task_def put_task_def gm.get_put)

lemma Get_task_cong: "wd_tasks w' = wd_tasks w \<Longrightarrow> Get_task w' i = Get_task w i"
  by (simp add: Get_task_def)

lemma count_remove1: "i \<in> set xs \<Longrightarrow> count_list (remove1 i xs) j = count_list xs j - (if j = i then 1 else 0)"
  by (induction xs) auto

lemma count_pos: "i \<in> set xs \<longleftrightarrow> 0 < count_list xs i"
  by (induction xs) auto

subsection \<open>The invariant of the manager\<close>

definition ended_count :: "world \<Rightarrow> string \<Rightarrow> nat" where
  "ended_count w i = count_list (List.map sn_ID (wd_ended w)) i"

definition terminal :: "string set" where
  "terminal = {TaskCompleted, StatusFailed, StatusKilled, StatusStopped}"

definition manager_ok :: "world \<Rightarrow> bool" where
  "manager_ok w \<longleftrightarrow> gm_ok (wd_tasks w)
     \<and> (\<forall>i t. Get_task w i = Some t \<longrightarrow> bt_ID t = i \<and> bt_status t \<in> insert StatusRunning terminal)
     \<and> (\<forall>i. count_list (wd_pending w) i + ended_count w i
          = (case Get_task w i of None \<Rightarrow> 0 | Some t \<Rightarrow> if bt_status t = StatusRunning then 0 else 1))"

lemma manager_id: "manager_ok w \<Longrightarrow> Get_task w i = Some t \<Longrightarrow> bt_ID t = i"
  by (simp add: manager_ok_def)

lemma manager_status: "manager_ok w \<Longrightarrow> Get_task w i = Some t \<Longrightarrow> bt_status t \<in> insert StatusRunning terminal"
  by (simp add: manager_ok_def)

lemma manager_count:
  "manager_ok w \<Longrightarrow> count_list (wd_pending w) i + ended_count w i
     = (case Get_task w i of None \<Rightarrow> 0 | Some t \<Rightarrow> if bt_status t = StatusRunning then 0 else 1)"
  by (simp add: manager_ok_def)

lemma manager_cong:
  "wd_tasks w' = wd_tasks w \<Longrightarrow> wd_pending w' = wd_pending w \<Longrightarrow> wd_ended w' = wd_ended w \<Longrightarrow> manager_ok w' = manager_ok w"
  by (simp add: manager_ok_def ended_count_def Get_task_def)

text \<open>A change of a task that leaves its status alone, and the end of one.\<close>

lemma manager_put:
  assumes "manager_ok w" and "Get_task w i = Some t" and "bt_ID t' = i" and "bt_status t' = bt_status t"
  shows "manager_ok (put_task t' w)"
proof -
  have "gm_ok (wd_tasks (put_task t' w))" using assms(1) by (simp add: manager_ok_def put_task_def gm.ok_put)
  moreover have "count_list (wd_pending (put_task t' w)) j + ended_count (put_task t' w) j
      = (case Get_task (put_task t' w) j of None \<Rightarrow> 0 | Some t \<Rightarrow> if bt_status t = StatusRunning then 0 else 1)" for j
    using manager_count [OF assms(1), of j] assms(2-4) by (simp add: Get_task_put ended_count_def)
  ultimately show ?thesis using assms by (auto simp: manager_ok_def Get_task_put)
qed

lemma manager_new:
  assumes "manager_ok w" and "Get_task w (bt_ID t) = None" and "bt_status t = StatusRunning"
  shows "manager_ok (put_task t w)"
proof -
  have "gm_ok (wd_tasks (put_task t w))" using assms(1) by (simp add: manager_ok_def put_task_def gm.ok_put)
  moreover have "count_list (wd_pending (put_task t w)) j + ended_count (put_task t w) j
      = (case Get_task (put_task t w) j of None \<Rightarrow> 0 | Some t \<Rightarrow> if bt_status t = StatusRunning then 0 else 1)" for j
    using manager_count [OF assms(1), of j] assms(2,3) by (simp add: Get_task_put ended_count_def)
  ultimately show ?thesis using assms by (auto simp: manager_ok_def Get_task_put)
qed

lemma manager_finalize:
  assumes "manager_ok w" and "Get_task w i = Some t" and "s \<in> terminal"
  shows "manager_ok (finalize s code msg t w)"
proof (cases "bt_status t = StatusRunning")
  case True
  let ?t = "t\<lparr>bt_status := s, bt_exitCode := code, bt_errMsg := msg\<rparr>"
  let ?w = "(put_task ?t w)\<lparr>wd_pending := wd_pending w @ [bt_ID t]\<rparr>"
  have i: "bt_ID t = i" using manager_id [OF assms(1,2)] .
  have nr: "s \<noteq> StatusRunning" using assms(3) by (auto simp: terminal_def)
  have "gm_ok (wd_tasks ?w)" using assms(1) by (simp add: manager_ok_def put_task_def gm.ok_put)
  moreover have g: "Get_task ?w j = (if j = i then Some ?t else Get_task w j)" for j
    using Get_task_put [of ?t w j] i by (simp add: Get_task_def)
  moreover have "count_list (wd_pending ?w) j + ended_count ?w j
      = (case Get_task ?w j of None \<Rightarrow> 0 | Some t \<Rightarrow> if bt_status t = StatusRunning then 0 else 1)" for j
    using manager_count [OF assms(1), of j] assms(2) nr True i g [of j] by (cases "j = i") (auto simp: ended_count_def)
  ultimately have "manager_ok ?w" using assms(1,3) i by (auto simp: manager_ok_def)
  then show ?thesis using True by (simp add: finalize_def)
qed (simp add: finalize_def assms(1))

lemma onCompleted_frame [simp]:
  "wd_tasks (onCompleted E info w) = wd_tasks w" "wd_pending (onCompleted E info w) = wd_pending w"
  "wd_ended (onCompleted E info w) = wd_ended w @ [info]"
  "wd_todo (onCompleted E info w)
     = CompleteWorker (todo_env_of E w) (todo_info info) (wd_todo w)"
  by (auto simp: onCompleted_def Let_def split: option.splits)

lemma announce_frame:
  "wd_tasks (announce E t w) = wd_tasks w" "wd_pending (announce E t w) = remove1 (bt_ID t) (wd_pending w)"
  "wd_ended (announce E t w) = wd_ended w @ [GetStatus t]"
  "\<exists>E'. wd_todo (announce E t w) = CompleteWorker E' (todo_info (GetStatus t)) (wd_todo w)"
  by (auto simp: announce_def Let_def)

lemma manager_announce:
  assumes "manager_ok w" and "Get_task w i = Some t" and "i \<in> set (wd_pending w)"
  shows "manager_ok (announce E t w)"
proof -
  have i: "bt_ID t = i" "sn_ID (GetStatus t) = i" using manager_id [OF assms(1,2)] by (simp_all add: GetStatus_def)
  have p: "0 < count_list (wd_pending w) i" using assms(3) by (simp add: count_pos)
  have "count_list (wd_pending (announce E t w)) j + ended_count (announce E t w) j
      = count_list (wd_pending w) j + ended_count w j" for j
    using p assms(3) by (cases "j = i") (auto simp: announce_frame ended_count_def i count_remove1)
  then show ?thesis using assms(1) by (simp add: manager_ok_def announce_frame Get_task_def)
qed

subsection \<open>The invariant of the tracker\<close>

definition item_of :: "world \<Rightarrow> string \<Rightarrow> Item option" where
  "item_of w i = FindByMetadata (fst (wd_todo w)) metaTaskID i"

definition shown :: "todo_store \<Rightarrow> string \<Rightarrow> bool \<Rightarrow> string \<Rightarrow> bool" where
  "shown s i ended detail \<longleftrightarrow>
     (\<exists>k x. gm_get (st_items s) k = Some x \<and> mirrors i x
        \<and> (\<forall>k' x'. gm_get (st_items s) k' = Some x' \<longrightarrow> mirrors i x' \<longrightarrow> k' = k)
        \<and> (if ended then it_Status x = StatusCompleted \<and> BackgroundStatusDetail x = detail
           else it_Status x = StatusInProgress \<and> BackgroundStatusDetail x = StatusRunning))"

definition tracker_ok :: "world \<Rightarrow> bool" where
  "tracker_ok w \<longleftrightarrow> todo_ok (fst (wd_todo w))
     \<and> (\<forall>i t. Get_task w i = Some t \<longrightarrow> i \<noteq> [] \<and> shown (fst (wd_todo w)) i (0 < ended_count w i) (bt_status t))"

lemma shown_find:
  assumes "todo_ok s" and "i \<noteq> []" and "shown s i ended detail"
  shows "\<exists>k x. gm_get (st_items s) k = Some x
    \<and> {k'. \<exists>x'. gm_get (st_items s) k' = Some x' \<and> mirrors i x'} = {k}
    \<and> FindByMetadata s metaTaskID i = Some x
    \<and> (if ended then it_Status x = StatusCompleted \<and> BackgroundStatusDetail x = detail
       else it_Status x = StatusInProgress \<and> BackgroundStatusDetail x = StatusRunning)"
proof -
  from assms(3) obtain k x where x: "gm_get (st_items s) k = Some x" "mirrors i x"
      "\<forall>k' x'. gm_get (st_items s) k' = Some x' \<longrightarrow> mirrors i x' \<longrightarrow> k' = k"
      "if ended then it_Status x = StatusCompleted \<and> BackgroundStatusDetail x = detail
       else it_Status x = StatusInProgress \<and> BackgroundStatusDetail x = StatusRunning"
    unfolding shown_def by blast
  have "FindByMetadata s metaTaskID i = Some x"
    using FindByMetadata_unique [OF todo_ok_gm [OF assms(1)] assms(2) x(1,2)] x(3) by blast
  moreover have "{k'. \<exists>x'. gm_get (st_items s) k' = Some x' \<and> mirrors i x'} = {k}" using x(1-3) by blast
  ultimately show ?thesis using x(1,4) by blast
qed

lemma if_not_swap: "(if \<not> b then x else y) = (if b then y else x)"
  by simp

lemma tracker_cong:
  "wd_tasks w' = wd_tasks w \<Longrightarrow> wd_ended w' = wd_ended w \<Longrightarrow> wd_todo w' = wd_todo w \<Longrightarrow> tracker_ok w' = tracker_ok w"
  by (simp add: tracker_ok_def ended_count_def Get_task_def)

text \<open>A task changes; only the status of one that has not been announced may change.\<close>

lemma tracker_put:
  assumes "tracker_ok w" and "Get_task w i = Some t" and "bt_ID t' = i" and "bt_status t' = bt_status t \<or> ended_count w i = 0"
  shows "tracker_ok (put_task t' w)"
proof -
  have n: "i \<noteq> []" and sh: "shown (fst (wd_todo w)) i (0 < ended_count w i) (bt_status t)"
    using assms(1,2) by (auto simp: tracker_ok_def)
  have "shown (fst (wd_todo w)) i (0 < ended_count w i) (bt_status t')"
  proof (cases "ended_count w i = 0")
    case True
    then show ?thesis using sh by (simp add: shown_def)
  next
    case False
    then show ?thesis using sh assms(4) by simp
  qed
  then show ?thesis using assms(1,3) n by (auto simp: tracker_ok_def Get_task_put ended_count_def)
qed

lemma tracker_finalize:
  assumes "manager_ok w" and "tracker_ok w" and "Get_task w i = Some t"
  shows "tracker_ok (finalize s code msg t w)"
proof (cases "bt_status t = StatusRunning")
  case True
  have "ended_count w i = 0" using manager_count [OF assms(1), of i] assms(3) True by simp
  then have "tracker_ok (put_task (t\<lparr>bt_status := s, bt_exitCode := code, bt_errMsg := msg\<rparr>) w)"
    using tracker_put [OF assms(2,3)] manager_id [OF assms(1,3)] by simp
  then show ?thesis using True
    by (simp add: finalize_def) (simp add: tracker_ok_def Get_task_def ended_count_def)
qed (simp add: finalize_def assms)

text \<open>The two ends of a task as the tracker sees them.\<close>

lemma CompleteWorker_shown:
  assumes "todo_ok s" and "i \<noteq> []" and "sn_ID info = i" and "sn_Status info = d" and "d \<noteq> []"
    and "shown s i False d'" and "CompleteWorker E (todo_info info) (s, dk) = (s', dk')"
  shows "shown s' i True d" and "j \<noteq> i \<Longrightarrow> shown s j e f \<Longrightarrow> shown s' j e f" and "todo_ok s'"
proof -
  from assms(6) obtain k x where x: "gm_get (st_items s) k = Some x" "mirrors i x"
      "\<forall>k' x'. gm_get (st_items s) k' = Some x' \<longrightarrow> mirrors i x' \<longrightarrow> k' = k" "it_Status x = StatusInProgress"
    unfolding shown_def by auto
  have find: "FindByMetadata s metaTaskID (ti_ID (todo_info info)) = Some x"
    using FindByMetadata_unique [OF todo_ok_gm [OF assms(1)] assms(2) x(1,2)] x(3) assms(3) by (auto simp: todo_info_def)
  have key: "it_ID x = k" using todo_ok_id [OF assms(1) x(1)] .
  define opts where "opts = [WithSubject (if it_Subject x = [] then workerSubject (todo_info info) else it_Subject x),
    WithDescription (sn_Description info), WithStatus StatusCompleted, WithMetadata (worker_metadata (todo_info info) d)]"
  have ti: "ti_Status (todo_info info) = d" "ti_Description (todo_info info) = sn_Description info"
    using assms(4) by (simp_all add: todo_info_def)
  have "snd (Update_item E k opts (s, dk)) = (s', dk')"
    using assms(5,7) find key ti by (simp add: CompleteWorker_def opts_def Let_def cong: if_cong)
  then have s': "s' = fst (snd (Update_item E k opts (s, dk)))" by simp
  define y where "y = (fold (apply_option E) opts x)\<lparr>it_UpdatedAt := t_now E\<rparr>"
  have get: "gm_get (st_items s') m = (if m = k then Some y else gm_get (st_items s) m)" for m
    using Update_get(1) [OF x(1), of E opts dk m] by (simp add: s' y_def)
  have y: "it_Status y = StatusCompleted" "gm_get (it_Metadata y) metaTaskID = Some (GStr i)"
      "gm_get (it_Metadata y) metaStatusDetail = Some (GStr d)"
    using assms(3) by (simp_all add: y_def opts_def merge_worker_metadata todo_info_def)
  have my: "mirrors j y \<longleftrightarrow> j = i" for j using y by (auto simp: mirrors_def)
  show "shown s' i True d"
    unfolding shown_def
  proof (intro exI conjI)
    show "gm_get (st_items s') k = Some y" by (simp add: get)
    show "mirrors i y" by (simp add: my)
    show "\<forall>k' x'. gm_get (st_items s') k' = Some x' \<longrightarrow> mirrors i x' \<longrightarrow> k' = k" using x(3) by (auto simp: get split: if_splits)
    show "if True then it_Status y = StatusCompleted \<and> BackgroundStatusDetail y = d
        else it_Status y = StatusInProgress \<and> BackgroundStatusDetail y = StatusRunning"
      using y by (simp add: BackgroundStatusDetail_def metadataString_def)
  qed
  show "shown s' j e f" if j: "j \<noteq> i" and sj: "shown s j e f"
  proof -
    have xm: "\<not> mirrors j x" using x(2) j by (auto simp: mirrors_def)
    from sj obtain k2 x2 where x2: "gm_get (st_items s) k2 = Some x2" "mirrors j x2"
        "\<forall>k' x'. gm_get (st_items s) k' = Some x' \<longrightarrow> mirrors j x' \<longrightarrow> k' = k2"
        "if e then it_Status x2 = StatusCompleted \<and> BackgroundStatusDetail x2 = f
         else it_Status x2 = StatusInProgress \<and> BackgroundStatusDetail x2 = StatusRunning"
      unfolding shown_def by blast
    have "k2 \<noteq> k" using x2(1,2) x(1) xm by auto
    then have "gm_get (st_items s') k2 = Some x2" using x2(1) by (simp add: get)
    moreover have "\<forall>k' x'. gm_get (st_items s') k' = Some x' \<longrightarrow> mirrors j x' \<longrightarrow> k' = k2"
      using x2(3) my j by (auto simp: get split: if_splits)
    ultimately show ?thesis using x2(2,4) unfolding shown_def by blast
  qed
  show "todo_ok s'" using CompleteWorker_ok [of "(s, dk)" E "todo_info info"] assms(1,7) by simp
qed

lemma TrackWorker_shown:
  assumes "todo_ok s" and "i \<noteq> []" and "sn_ID info = i" and "FindByMetadata s metaTaskID i = None"
    and "st_nextID s < 2 ^ 63 - 1" and "TrackWorker E (todo_info info) (s, dk) = (s', dk')"
  shows "shown s' i False d" and "j \<noteq> i \<Longrightarrow> shown s j e f \<Longrightarrow> shown s' j e f" and "todo_ok s'"
proof -
  have id: "ti_ID (todo_info info) = i" using assms(3) by (simp add: todo_info_def)
  have lt: "st_nextID s < 2 ^ 63" using assms(5) by simp
  let ?k = "int_str (st_nextID s)"
  have new: "\<exists>t. gm_get (st_items s') m = (if m = ?k then Some t else gm_get (st_items s) m)
      \<and> it_ID t = ?k \<and> it_Status t = StatusInProgress \<and> it_Metadata t = worker_metadata (todo_info info) ''running''" for m
    using TrackWorker_new(1) [OF assms(1) lt, of "todo_info info" E dk m] assms(2,4,6) id by auto
  from new [of ?k] obtain t where t: "gm_get (st_items s') ?k = Some t" "it_Status t = StatusInProgress"
      "it_Metadata t = worker_metadata (todo_info info) ''running''" by auto
  have others: "m \<noteq> ?k \<Longrightarrow> gm_get (st_items s') m = gm_get (st_items s) m" for m using new [of m] by auto
  have mt: "mirrors j t \<longleftrightarrow> j = i" for j using t id by (auto simp: mirrors_def worker_metadata_get)
  have none: "gm_get (st_items s) m = Some x \<Longrightarrow> \<not> mirrors i x" for m x
    using assms(2,4) todo_ok_gm [OF assms(1)] by (simp add: FindByMetadata_None)
  have old: "gm_get (st_items s) ?k = None"
    using assms(1) lt by (auto simp: todo_ok_def scan_int_int_str)
  show "shown s' i False d"
    unfolding shown_def
  proof (intro exI conjI)
    show "gm_get (st_items s') ?k = Some t" by (rule t)
    show "mirrors i t" by (simp add: mt)
    show "\<forall>k' x'. gm_get (st_items s') k' = Some x' \<longrightarrow> mirrors i x' \<longrightarrow> k' = ?k" using others none by metis
    show "if False then it_Status t = StatusCompleted \<and> BackgroundStatusDetail t = d
        else it_Status t = StatusInProgress \<and> BackgroundStatusDetail t = StatusRunning"
      using t by (simp add: BackgroundStatusDetail_def metadataString_def worker_metadata_def gm_get_def)
  qed
  show "shown s' j e f" if j: "j \<noteq> i" and sj: "shown s j e f"
  proof -
    from sj obtain k2 x2 where x2: "gm_get (st_items s) k2 = Some x2" "mirrors j x2"
        "\<forall>k' x'. gm_get (st_items s) k' = Some x' \<longrightarrow> mirrors j x' \<longrightarrow> k' = k2"
        "if e then it_Status x2 = StatusCompleted \<and> BackgroundStatusDetail x2 = f
         else it_Status x2 = StatusInProgress \<and> BackgroundStatusDetail x2 = StatusRunning"
      unfolding shown_def by blast
    have "k2 \<noteq> ?k" using x2(1) old by auto
    then have "gm_get (st_items s') k2 = Some x2" using x2(1) others by simp
    moreover have "\<forall>k' x'. gm_get (st_items s') k' = Some x' \<longrightarrow> mirrors j x' \<longrightarrow> k' = k2"
      using x2(3) mt j others t(1) by (metis option.inject)
    ultimately show ?thesis using x2(2,4) unfolding shown_def by blast
  qed
  show "todo_ok s'" using exec_op_ok [where w = "(s, dk)" and op = "OpTrack (todo_info info)" and E = E] assms(1,5,6) by simp
qed

lemma tracker_announce:
  assumes "manager_ok w" and "tracker_ok w" and "Get_task w i = Some t" and "i \<in> set (wd_pending w)"
  shows "tracker_ok (announce E t w)"
proof -
  have ne: "bt_status t \<noteq> []" using manager_status [OF assms(1,3)] by (auto simp: terminal_def)
  have i: "bt_ID t = i" "sn_ID (GetStatus t) = i" using manager_id [OF assms(1,3)] by (simp_all add: GetStatus_def)
  have st: "sn_Status (GetStatus t) = bt_status t" by (simp add: GetStatus_def)
  have "0 < count_list (wd_pending w) i" using assms(4) by (simp add: count_pos)
  then have c: "ended_count w i = 0"
    using manager_count [OF assms(1), of i] assms(3) by (simp split: if_splits)
  obtain s dk where w: "wd_todo w = (s, dk)" by fastforce
  obtain E' where E': "wd_todo (announce E t w) = CompleteWorker E' (todo_info (GetStatus t)) (s, dk)"
    using announce_frame(4) [of E t w] w by auto
  obtain s' dk' where w': "CompleteWorker E' (todo_info (GetStatus t)) (s, dk) = (s', dk')" by fastforce
  have "todo_ok s \<and> i \<noteq> [] \<and> shown s i (0 < ended_count w i) (bt_status t)"
    using assms(2,3) w by (simp add: tracker_ok_def)
  then have ok: "todo_ok s" and n: "i \<noteq> []" and sh: "shown s i False (bt_status t)"
    using c by simp_all
  note fin = CompleteWorker_shown [OF ok n i(2) st ne sh w']
  have ec: "ended_count (announce E t w) j = ended_count w j + (if j = i then 1 else 0)" for j
    by (simp add: ended_count_def announce_frame i)
  show ?thesis
    unfolding tracker_ok_def
  proof (intro conjI allI impI)
    show "todo_ok (fst (wd_todo (announce E t w)))" using fin(3) by (simp add: E' w')
    fix j u assume "Get_task (announce E t w) j = Some u"
    then have u: "Get_task w j = Some u" by (simp add: Get_task_def announce_frame)
    then show "j \<noteq> []" using assms(2) by (simp add: tracker_ok_def)
    show "shown (fst (wd_todo (announce E t w))) j (0 < ended_count (announce E t w) j) (bt_status u)"
    proof (cases "j = i")
      case True
      have ut: "u = t" using u assms(3) True by simp
      show ?thesis unfolding True ut using fin(1) by (simp add: E' w' ec)
    next
      case False
      then show ?thesis using fin(2) [OF False] u assms(2) by (simp add: E' w' ec tracker_ok_def w)
    qed
  qed
qed

lemma register_ok:
  assumes "manager_ok w" and "tracker_ok w" and "Get_task w i = None" and "i \<noteq> []"
    and "FindByMetadata (fst (wd_todo w)) metaTaskID i = None" and "st_nextID (fst (wd_todo w)) < 2 ^ 63 - 1"
    and "bt_ID t = i" and "bt_status t = StatusRunning"
    and "wd_tasks v = wd_tasks w" and "wd_pending v = wd_pending w" and "wd_ended v = wd_ended w" and "wd_todo v = wd_todo w"
  shows "manager_ok (RegisterTask E t v) \<and> tracker_ok (RegisterTask E t v)"
proof -
  let ?r = "RegisterTask E t v"
  have r: "wd_tasks ?r = wd_tasks (put_task t w)" "wd_pending ?r = wd_pending w" "wd_ended ?r = wd_ended w"
    using assms(9-12) by (simp_all add: RegisterTask_def onCreated_def put_task_def)
  have "manager_ok (put_task t w)" using manager_new [of w t] assms by simp
  then have m: "manager_ok ?r" using manager_cong [of ?r "put_task t w"] r by simp
  obtain s dk where w: "wd_todo w = (s, dk)" by fastforce
  obtain E' where E': "wd_todo ?r = TrackWorker E' (todo_info (GetStatus t)) (s, dk)"
    using assms(12) w by (auto simp: RegisterTask_def onCreated_def)
  obtain s' dk' where w': "TrackWorker E' (todo_info (GetStatus t)) (s, dk) = (s', dk')" by fastforce
  have "todo_ok s" "FindByMetadata s metaTaskID i = None" "st_nextID s < 2 ^ 63 - 1" "sn_ID (GetStatus t) = i"
    using assms(2,5-7) w by (simp_all add: tracker_ok_def GetStatus_def)
  note new = TrackWorker_shown [OF this(1) assms(4) this(4,2,3) w']
  have c: "ended_count w i = 0" using manager_count [OF assms(1), of i] assms(3) by simp
  have "tracker_ok ?r"
    unfolding tracker_ok_def
  proof (intro conjI allI impI)
    show "todo_ok (fst (wd_todo ?r))" using new(3) by (simp add: E' w')
    fix j u assume "Get_task ?r j = Some u"
    then have u: "(if j = i then Some t else Get_task w j) = Some u"
      using Get_task_put [of t w j] assms(7) r(1) by (simp add: Get_task_def)
    then show "j \<noteq> []" using assms(2,4) by (auto simp: tracker_ok_def split: if_splits)
    have ec: "ended_count ?r j = ended_count w j" by (simp add: ended_count_def r)
    show "shown (fst (wd_todo ?r)) j (0 < ended_count ?r j) (bt_status u)"
    proof (cases "j = i")
      case True
      then show ?thesis using new(1) c ec unfolding True by (simp add: E' w')
    next
      case False
      then show ?thesis using new(2) [OF False] u assms(2) by (simp add: E' w' ec tracker_ok_def w)
    qed
  qed
  with m show ?thesis by blast
qed

text \<open>What the conversation does to the tracker keeps every task shown.\<close>

lemma gm_get_del_other: "j \<noteq> k \<Longrightarrow> gm_get (gm_del k m) j = gm_get m j"
  by (simp add: gm_get_def gm_del_def AList.delete_conv')

lemma merge_metadata_get:
  "list_all (\<lambda>(k, v). k \<noteq> key) m \<Longrightarrow> gm_get (merge_metadata m x) key = gm_get x key"
  by (induction m arbitrary: x) (auto simp: merge_metadata_def gm.get_put gm_get_del_other)

lemma harmless_options:
  "list_all harmless opts \<Longrightarrow> it_Status (fold (apply_option E) opts x) = it_Status x
     \<and> it_Metadata (fold (apply_option E) opts x) = it_Metadata x"
proof (induction opts arbitrary: x)
  case (Cons opt opts)
  then show ?case by (cases opt) (simp_all add: harmless_def)
qed simp

lemma names_no_task_options:
  "list_all names_no_task opts \<Longrightarrow> gm_get (it_Metadata (fold (apply_option E) opts x)) metaTaskID = gm_get (it_Metadata x) metaTaskID"
proof (induction opts arbitrary: x)
  case (Cons opt opts)
  then show ?case by (cases opt) (simp_all add: names_no_task_def merge_metadata_get)
qed simp

lemma shown_change:
  assumes "shown s i e d"
    and "\<And>m. gm_get (st_items s') m = (if m = k then Some y else gm_get (st_items s) m)"
    and "case gm_get (st_items s) k of
        None \<Rightarrow> \<not> mirrors i y
      | Some x \<Rightarrow> it_Status y = it_Status x \<and> it_Metadata y = it_Metadata x \<or> \<not> mirrors i x \<and> \<not> mirrors i y"
  shows "shown s' i e d"
proof -
  from assms(1) obtain k1 x1 where x1: "gm_get (st_items s) k1 = Some x1" "mirrors i x1"
      "\<forall>k' x'. gm_get (st_items s) k' = Some x' \<longrightarrow> mirrors i x' \<longrightarrow> k' = k1"
      "if e then it_Status x1 = StatusCompleted \<and> BackgroundStatusDetail x1 = d
       else it_Status x1 = StatusInProgress \<and> BackgroundStatusDetail x1 = StatusRunning"
    unfolding shown_def by blast
  show ?thesis
  proof (cases "k = k1")
    case True
    then have y: "it_Status y = it_Status x1" "it_Metadata y = it_Metadata x1" using assms(3) x1(1,2) by auto
    show ?thesis unfolding shown_def
    proof (intro exI conjI)
      show "gm_get (st_items s') k = Some y" by (simp add: assms(2))
      show "mirrors i y" using x1(2) y by (simp add: mirrors_def)
      show "\<forall>k' x'. gm_get (st_items s') k' = Some x' \<longrightarrow> mirrors i x' \<longrightarrow> k' = k"
        using x1(3) True by (auto simp: assms(2) split: if_splits)
      show "if e then it_Status y = StatusCompleted \<and> BackgroundStatusDetail y = d
          else it_Status y = StatusInProgress \<and> BackgroundStatusDetail y = StatusRunning"
        using x1(4) y by (cases e) (simp_all add: BackgroundStatusDetail_def metadataString_def)
    qed
  next
    case False
    have "\<not> mirrors i y"
    proof
      assume m: "mirrors i y"
      then obtain x where x: "gm_get (st_items s) k = Some x" "it_Status y = it_Status x" "it_Metadata y = it_Metadata x"
        using assms(3) by (auto split: option.splits)
      then have "mirrors i x" using m by (simp add: mirrors_def)
      then show False using x1(3) x(1) False by blast
    qed
    then have "\<forall>k' x'. gm_get (st_items s') k' = Some x' \<longrightarrow> mirrors i x' \<longrightarrow> k' = k1"
      using x1(3) by (auto simp: assms(2) split: if_splits)
    moreover have "gm_get (st_items s') k1 = Some x1" using False x1(1) by (simp add: assms(2))
    ultimately show ?thesis using x1(2,4) unfolding shown_def by blast
  qed
qed

lemma spared_tasks_stay_shown:
  assumes "todo_ok s" and "op_fits op (s, dk)" and "spares_tasks op s" and "i \<noteq> []" and "shown s i e d"
  shows "shown (fst (exec_op E op (s, dk))) i e d"
  using assms(3)
proof (cases op)
  case (OpCreate subj desc act m)
  obtain item s' dk' where c: "Create_item E subj desc act m (s, dk) = (item, s', dk')" by (metis prod_cases3)
  have "st_nextID s < 2 ^ 63" using assms(2) OpCreate by simp
  then have "gm_get (st_items s) (it_ID item) = None" using fresh_id_unused [OF assms(1)] Create_frame(1) [OF c] by simp
  then have "shown s' i e d"
    using shown_change [OF assms(5) Create_frame(4) [OF c]] Create_frame(3) [OF c] assms(3) OpCreate
    by (simp add: mirrors_def)
  then show ?thesis using c by (simp add: OpCreate)
next
  case (OpUpdate k opts)
  show ?thesis
  proof (cases "gm_get (st_items s) k")
    case None
    then show ?thesis using assms(5) by (simp add: OpUpdate Update_item_def)
  next
    case (Some x)
    let ?y = "(fold (apply_option E) opts x)\<lparr>it_UpdatedAt := t_now E\<rparr>"
    have "it_Status ?y = it_Status x \<and> it_Metadata ?y = it_Metadata x \<or> \<not> mirrors i x \<and> \<not> mirrors i ?y"
    proof (cases "list_all harmless opts")
      case True
      then show ?thesis using harmless_options by simp
    next
      case False
      then show ?thesis using assms(3) OpUpdate Some names_no_task_options [of opts E x]
        by (simp add: worker_item_def mirrors_def)
    qed
    then show ?thesis using shown_change [OF assms(5) Update_get(1) [OF Some]] Some by (simp add: OpUpdate)
  qed
next
  case (OpDelete k)
  show ?thesis
  proof (cases "gm_get (st_items s) k")
    case None
    then show ?thesis using assms(5) by (simp add: OpDelete Delete_item_def)
  next
    case (Some x)
    then have "\<not> mirrors i x" using assms(3) by (simp add: OpDelete worker_item_def mirrors_def)
    then show ?thesis using Some
      by (intro shown_change [OF assms(5), where k = k and y = "x\<lparr>it_Status := StatusDeleted, it_UpdatedAt := t_now E\<rparr>"])
        (simp_all add: OpDelete Delete_item_def gm.get_put mirrors_def)
  qed
qed simp_all

subsection \<open>Every step\<close>

definition bg_ok :: "world \<Rightarrow> bool" where
  "bg_ok w \<longleftrightarrow> manager_ok w \<and> tracker_ok w"

lemma bg_ok_cong:
  "bg_ok w \<Longrightarrow> wd_tasks w' = wd_tasks w \<Longrightarrow> wd_pending w' = wd_pending w \<Longrightarrow> wd_ended w' = wd_ended w
    \<Longrightarrow> wd_todo w' = wd_todo w \<Longrightarrow> bg_ok w'"
  using manager_cong [of w' w] tracker_cong [of w' w] by (simp add: bg_ok_def)

lemma bg_ok_put:
  "bg_ok w \<Longrightarrow> Get_task w i = Some t \<Longrightarrow> bt_ID t' = bt_ID t \<Longrightarrow> bt_status t' = bt_status t \<Longrightarrow> bg_ok (put_task t' w)"
  using manager_put [of w i t t'] tracker_put [of w i t t'] manager_id [of w i t] by (simp add: bg_ok_def)

lemma bg_ok_finalize:
  "bg_ok w \<Longrightarrow> Get_task w i = Some t \<Longrightarrow> s \<in> terminal \<Longrightarrow> bg_ok (finalize s code msg t w)"
  using manager_finalize [of w i t s] tracker_finalize [of w i t] by (simp add: bg_ok_def)

lemma bg_ok_kill:
  assumes "bg_ok w" and "Get_task w i = Some t"
  shows "bg_ok (snd (Kill_task killerr t w))"
proof -
  define t' where "t' = (if bt_hasCancel t then t\<lparr>bt_cancelled := True\<rparr> else t)"
  have t': "bt_ID t' = bt_ID t" "bt_status t' = bt_status t" by (simp_all add: t'_def)
  have i: "bt_ID t = i" using assms manager_id [of w i t] by (simp add: bg_ok_def)
  have "bg_ok (put_task t' w)" using bg_ok_put [OF assms t'] .
  moreover have "Get_task (put_task t' w) i = Some t'" using i t' by (simp add: Get_task_put)
  ultimately have "bg_ok (finalize StatusKilled (if bt_Type t' = TaskTypeBash then signalExitCode 9 else 0) [] t' (put_task t' w))"
    by (rule bg_ok_finalize) (simp add: terminal_def)
  then show ?thesis by (simp add: Kill_task_def Let_def t'_def markKilled_def)
qed

lemma Stop_task_put:
  "Stop_task sigerr t w = (e, w') \<Longrightarrow> \<exists>t'. w' = put_task t' w \<and> bt_ID t' = bt_ID t \<and> bt_status t' = bt_status t
    \<and> bt_Type t' = bt_Type t"
  by (auto simp: Stop_task_def split: if_splits)

lemma bg_ok_manager_kill:
  assumes "bg_ok w"
  shows "bg_ok (snd (Manager_Kill stoperr killerr i w))"
proof (cases "Get_task w i")
  case (Some t)
  obtain e w' where s: "Stop_task stoperr t w = (e, w')" by fastforce
  from Stop_task_put [OF this] obtain t' where t': "w' = put_task t' w" "bt_ID t' = bt_ID t" "bt_status t' = bt_status t"
    by blast
  have ok: "bg_ok w'" using bg_ok_put [OF assms Some t'(2,3)] t'(1) by simp
  moreover have "bg_ok (w'\<lparr>wd_waiting := i # wd_waiting w'\<rparr>)" using bg_ok_cong [OF ok] by simp
  ultimately show ?thesis
    using bg_ok_kill [OF ok] assms Some s by (auto simp: Manager_Kill_def split: option.splits)
qed (simp add: Manager_Kill_def assms)

lemma bg_ok_step:
  assumes ok: "bg_ok w" and en: "enabled ev w"
  shows "bg_ok (bg_step E ev w)"
proof -
  note m = ok [unfolded bg_ok_def, THEN conjunct1] and t = ok [unfolded bg_ok_def, THEN conjunct2]
  have change: "bg_ok (with_task i f w)"
    if "\<And>x. Get_task w i = Some x \<Longrightarrow> bg_ok (f x w)" for i f
    using that ok by (simp add: with_task_def split: option.split)
  have send: "bg_ok (snd (Send msg w))" for msg using bg_ok_cong [OF ok] by simp
  show ?thesis
  proof (cases ev)
    case (EvBash i command description pid hasCancel)
    obtain x v where x: "NewBashTask E i command description pid hasCancel w = (x, v)" by fastforce
    then have "bt_ID x = i" "bt_status x = StatusRunning" "wd_tasks v = wd_tasks w" "wd_pending v = wd_pending w"
        "wd_ended v = wd_ended w" "wd_todo v = wd_todo w"
      by (auto simp: NewBashTask_def initOutputFile_frame split: prod.splits)
    then show ?thesis using register_ok [OF m t, of i x v E] en x
      by (simp add: EvBash bg_step_def CreateBashTask_def bg_ok_def enabled_def)
  next
    case (EvAgent i name description)
    obtain x v where x: "NewAgentTask E i name description w = (x, v)" by fastforce
    then have "bt_ID x = i" "bt_status x = StatusRunning" "wd_tasks v = wd_tasks w" "wd_pending v = wd_pending w"
        "wd_ended v = wd_ended w" "wd_todo v = wd_todo w"
      by (auto simp: NewAgentTask_def initOutputFile_frame split: prod.splits)
    then show ?thesis using register_ok [OF m t, of i x v E] en x
      by (simp add: EvAgent bg_step_def bg_ok_def enabled_def)
  next
    case (EvOutput i bytes)
    have "bg_ok (AppendOutput E bytes x w)" if "Get_task w i = Some x" for x
      using bg_ok_put [OF ok that, of "x\<lparr>bt_output := appendCapped maxOutputBufferSize (bt_output x) bytes\<rparr>"]
      by (auto simp: AppendOutput_def intro: bg_ok_cong)
    then show ?thesis using change by (simp add: EvOutput bg_step_def)
  next
    case (EvProgress i msg)
    have "bg_ok (AppendProgress E msg x w)" for x using bg_ok_cong [OF ok] by (simp add: AppendProgress_def)
    then show ?thesis using change by (simp add: EvProgress bg_step_def)
  next
    case (EvIdentity i name s)
    have "bg_ok (SetIdentity E name s x w)" if "Get_task w i = Some x" for x
      using bg_ok_put [OF ok that, of "x\<lparr>bt_AgentName := name, bt_SessionID := (if s \<noteq> [] then s else bt_SessionID x)\<rparr>"]
      by (auto simp: SetIdentity_def Let_def intro: bg_ok_cong)
    then show ?thesis using change by (simp add: EvIdentity bg_step_def)
  next
    case (EvOutputFile i path)
    have "bg_ok (SetOutputFile path x w)" if "Get_task w i = Some x" for x
      using bg_ok_put [OF ok that] by (simp add: SetOutputFile_def)
    then show ?thesis using change by (simp add: EvOutputFile bg_step_def)
  next
    case (EvSteps i steps tokens)
    have "bg_ok (UpdateProgress steps tokens x w)" if "Get_task w i = Some x" for x
      using bg_ok_put [OF ok that] by (simp add: UpdateProgress_def)
    then show ?thesis using change by (simp add: EvSteps bg_step_def)
  next
    case (EvReaped i)
    have "bg_ok (MarkReaped x w)" if "Get_task w i = Some x" for x
      using bg_ok_put [OF ok that] by (simp add: MarkReaped_def)
    then show ?thesis using change by (simp add: EvReaped bg_step_def)
  next
    case (EvBashExit i code err)
    have "bg_ok (Complete_bash code err x w)" if "Get_task w i = Some x" for x
      using bg_ok_finalize [OF ok that] by (simp add: Complete_bash_def terminal_def split: option.split)
    then show ?thesis using change by (simp add: EvBashExit bg_step_def)
  next
    case (EvAgentExit i err)
    have "bg_ok (Complete_agent err x w)" if "Get_task w i = Some x" for x
      using bg_ok_finalize [OF ok that] by (simp add: Complete_agent_def terminal_def split: option.split run_error.split)
    then show ?thesis using change by (simp add: EvAgentExit bg_step_def)
  next
    case (EvAnnounce i)
    have "bg_ok (announce E x w)" if "Get_task w i = Some x" for x
      using manager_announce [OF m that] tracker_announce [OF m t that] en by (simp add: EvAnnounce enabled_def bg_ok_def)
    then show ?thesis using change by (simp add: EvAnnounce bg_step_def)
  next
    case (EvKill i stoperr killerr)
    then show ?thesis using bg_ok_manager_kill [OF ok] by (simp add: bg_step_def)
  next
    case (EvKillSeen i)
    then show ?thesis using bg_ok_cong [OF ok] by (simp add: bg_step_def)
  next
    case (EvKillTimeout i killerr)
    have ok': "bg_ok (w\<lparr>wd_waiting := remove1 i (wd_waiting w)\<rparr>)" using bg_ok_cong [OF ok] by simp
    show ?thesis using bg_ok_kill [OF ok'] ok
      by (auto simp: EvKillTimeout bg_step_def Kill_timeout_def Get_task_def split: option.split)
  next
    case (EvRoute addr cap)
    then show ?thesis using bg_ok_cong [OF ok] by (simp add: bg_step_def Register_route_def)
  next
    case (EvUnroute addr)
    then show ?thesis using bg_ok_cong [OF ok] by (simp add: bg_step_def Unregister_route_def)
  next
    case (EvRead addr)
    then show ?thesis using bg_ok_cong [OF ok] ok
      by (auto simp: bg_step_def Register_route_def split: option.split mailbox.split list.split)
  next
    case (EvSend caller to message)
    then show ?thesis using send ok by (auto simp: bg_step_def SendMessage_execute_def Let_def split: prod.split) (metis snd_conv)+
  next
    case (EvNotice n)
    then show ?thesis using bg_ok_cong [OF ok] by (simp add: bg_step_def)
  next
    case (EvUnblock k)
    then show ?thesis using bg_ok_cong [OF ok] by (simp add: bg_step_def)
  next
    case (EvDrain k)
    then show ?thesis using bg_ok_cong [OF ok] by (simp add: bg_step_def)
  next
    case (EvTracker op)
    let ?w = "bg_step E ev w"
    obtain s dk where w: "wd_todo w = (s, dk)" by fastforce
    have op: "op_fits op (s, dk)" "spares_tasks op s" using en by (simp_all add: EvTracker enabled_def w)
    have f: "wd_tasks ?w = wd_tasks w" "wd_pending ?w = wd_pending w" "wd_ended ?w = wd_ended w"
        "wd_todo ?w = exec_op (todo_env_of E w) op (s, dk)" by (simp_all add: EvTracker bg_step_def w)
    have s: "todo_ok s" using t by (simp add: tracker_ok_def w)
    have "todo_ok (fst (wd_todo ?w))" using exec_op_ok [of "(s, dk)" op] s op(1) by (simp add: f)
    moreover have "j \<noteq> [] \<and> shown (fst (wd_todo ?w)) j (0 < ended_count ?w j) (bt_status x)" if "Get_task ?w j = Some x" for j x
    proof -
      have "Get_task w j = Some x" using that Get_task_cong [OF f(1)] by simp
      then have "j \<noteq> []" "shown s j (0 < ended_count w j) (bt_status x)" using t by (simp_all add: tracker_ok_def w)
      then show ?thesis using spared_tasks_stay_shown [OF s op] by (simp add: f ended_count_def)
    qed
    ultimately have "tracker_ok ?w" by (simp add: tracker_ok_def)
    moreover have "manager_ok ?w" using m manager_cong [OF f(1-3)] by simp
    ultimately show ?thesis by (simp add: bg_ok_def)
  qed
qed

lemma reachable_ok: "reachable w \<Longrightarrow> bg_ok w"
proof (induction rule: reachable.induct)
  case (start w)
  then show ?case
    by (simp add: world_start_def bg_ok_def manager_ok_def tracker_ok_def ended_count_def Get_task_def gm.get_empty gm.ok_empty)
qed (rule bg_ok_step)

subsection \<open>Ends, announcements and the tracker\<close>

text \<open>
  C22: In every history a task ends at most once and its end is announced at most once: a task that runs
  has not been announced, and one that has ended either was announced exactly once or its announcement is
  still to come, exactly one.
\<close>

theorem task_is_announced_once:
  assumes "reachable w" and "Get_task w i = Some t"
  shows "count_list (wd_pending w) i + length (filter (\<lambda>s. sn_ID s = i) (wd_ended w))
    = (if bt_status t = StatusRunning then 0 else 1)"
proof -
  have c: "count_list (List.map sn_ID xs) i = length (filter (\<lambda>s. sn_ID s = i) xs)" for xs :: "TaskSnapshot list"
    by (induction xs) auto
  have "manager_ok w" using reachable_ok [OF assms(1)] by (simp add: bg_ok_def)
  from manager_count [OF this, of i] assms(2) show ?thesis by (simp add: ended_count_def c)
qed

text \<open>
  C23: Until its tracker is reset, imported or reloaded, and whatever happens to other tasks and items,
  exactly one item of the tracker mirrors a background task, and it is the one a search for the task
  finds: it is in progress until the end of the task is announced, and then completed with the status in
  which the task ended.  The conversation may meanwhile create, update and delete items, short of the
  status, the metadata and the deletion of an item that mirrors a task.
\<close>

theorem tracker_shows_every_task:
  assumes "reachable w" and "Get_task w i = Some t"
  shows "\<exists>k x. gm_get (st_items (fst (wd_todo w))) k = Some x
    \<and> {k'. \<exists>x'. gm_get (st_items (fst (wd_todo w))) k' = Some x' \<and> mirrors i x'} = {k}
    \<and> FindByMetadata (fst (wd_todo w)) metaTaskID i = Some x
    \<and> (if bt_status t = StatusRunning \<or> i \<in> set (wd_pending w)
       then it_Status x = StatusInProgress \<and> BackgroundStatusDetail x = StatusRunning
       else it_Status x = StatusCompleted \<and> BackgroundStatusDetail x = bt_status t)"
proof -
  have ok: "manager_ok w" "tracker_ok w" using reachable_ok [OF assms(1)] by (simp_all add: bg_ok_def)
  have e: "0 < ended_count w i \<longleftrightarrow> \<not> (bt_status t = StatusRunning \<or> i \<in> set (wd_pending w))"
    using manager_count [OF ok(1), of i] assms(2) by (auto simp: count_pos split: if_splits)
  have s: "i \<noteq> []" "shown (fst (wd_todo w)) i (0 < ended_count w i) (bt_status t)" "todo_ok (fst (wd_todo w))"
    using ok(2) assms(2) by (simp_all add: tracker_ok_def)
  show ?thesis using shown_find [OF s(3,1,2)] unfolding e if_not_swap by blast
qed

subsection \<open>What lasts\<close>

text \<open>
  A property of single tasks that no operation takes away: neither a change of what does not belong to its
  end, nor the end of one that runs, where a stopped command ends as stopped or killed.
\<close>

definition kept :: "(BackgroundTask \<Rightarrow> bool) \<Rightarrow> world \<Rightarrow> world \<Rightarrow> bool" where
  "kept P w w' \<longleftrightarrow> (\<forall>i t. Get_task w i = Some t \<and> P t \<longrightarrow> (\<exists>u. Get_task w' i = Some u \<and> P u))"

definition later :: "BackgroundTask \<Rightarrow> BackgroundTask \<Rightarrow> bool" where
  "later t u \<longleftrightarrow> bt_Type u = bt_Type t \<and> bt_status u = bt_status t \<and> bt_errMsg u = bt_errMsg t
     \<and> bt_exitCode u = bt_exitCode t \<and> (bt_stopRequested t \<longrightarrow> bt_stopRequested u)"

definition may_end :: "BackgroundTask \<Rightarrow> string \<Rightarrow> bool" where
  "may_end t s \<longleftrightarrow> s \<in> terminal \<and> (bt_Type t = TaskTypeBash \<and> bt_stopRequested t \<longrightarrow> s \<in> {StatusStopped, StatusKilled})"

lemma later_refl [simp]: "later t t"
  by (simp add: later_def)

lemma kept_trans: "kept P w v \<Longrightarrow> kept P v x \<Longrightarrow> kept P w x"
  unfolding kept_def by metis

lemma kept_cong: "wd_tasks w' = wd_tasks w \<Longrightarrow> kept P w w'"
  by (simp add: kept_def Get_task_def)

lemma kept_new: "Get_task w (bt_ID x) = None \<Longrightarrow> wd_tasks v = wd_tasks w \<Longrightarrow> kept P w (RegisterTask E x v)"
  by (auto simp: kept_def RegisterTask_def onCreated_def Get_task_def put_task_def gm.get_put)

lemma finalize_ends: "Get_task w j = Some x \<Longrightarrow> bt_ID x = j \<Longrightarrow> s \<noteq> StatusRunning \<Longrightarrow> \<not> IsRunning_task (finalize s code msg x w) j"
  by (auto simp: IsRunning_task_def task_IsRunning_def finalize_def Get_task_def put_task_def gm.get_put)

lemma SendMessage_tasks [simp]: "wd_tasks (snd (SendMessage_execute caller to message w)) = wd_tasks w"
proof -
  obtain d v where s: "Send \<lparr>bm_From = if caller = [] then Main else caller, bm_To = trim_space to,
      bm_Subject = ''Message from '' @ senderLabel w (if caller = [] then Main else caller),
      bm_Content = wrapAgentMessage (if caller = [] then Main else caller) message\<rparr> w = (d, v)" by fastforce
  then have "wd_tasks v = wd_tasks w" using Send_frame(1) by (metis snd_conv)
  then show ?thesis using s by (simp add: SendMessage_execute_def Let_def)
qed

lemma Kill_task_unfold:
  "snd (Kill_task killerr t w) =
     (let t' = (if bt_hasCancel t then t\<lparr>bt_cancelled := True\<rparr> else t)
      in finalize StatusKilled (if bt_Type t' = TaskTypeBash then signalExitCode 9 else 0) [] t' (put_task t' w))"
  by (simp add: Kill_task_def Let_def markKilled_def)

lemma kill_ends:
  assumes "Get_task w i = Some t" and "bt_ID t = i"
  shows "\<not> IsRunning_task (snd (Kill_task killerr t w)) i"
proof -
  define t' where "t' = (if bt_hasCancel t then t\<lparr>bt_cancelled := True\<rparr> else t)"
  have t': "bt_ID t' = i" using assms(2) by (simp add: t'_def)
  then have g: "Get_task (put_task t' w) i = Some t'" by (simp add: Get_task_put)
  show ?thesis using finalize_ends [OF g t'] by (simp add: Kill_task_unfold Let_def flip: t'_def)
qed

locale lasting =
  fixes P :: "BackgroundTask \<Rightarrow> bool"
  assumes change: "P t \<Longrightarrow> later t u \<Longrightarrow> P u"
    and finish: "P t \<Longrightarrow> bt_status t = StatusRunning \<Longrightarrow> may_end t s
      \<Longrightarrow> P (t\<lparr>bt_status := s, bt_exitCode := code, bt_errMsg := msg\<rparr>)"
begin

lemma kept_put: "Get_task w j = Some x \<Longrightarrow> bt_ID x' = j \<Longrightarrow> later x x' \<Longrightarrow> kept P w (put_task x' w)"
  using change by (auto simp: kept_def Get_task_put)

lemma kept_finalize:
  "Get_task w j = Some x \<Longrightarrow> bt_ID x = j \<Longrightarrow> may_end x s \<Longrightarrow> kept P w (finalize s code msg x w)"
  using finish by (auto simp: kept_def finalize_def Get_task_def put_task_def gm.get_put)

lemma kept_kill:
  assumes "Get_task w i = Some t" and "bt_ID t = i"
  shows "kept P w (snd (Kill_task killerr t w))"
proof -
  define t' where "t' = (if bt_hasCancel t then t\<lparr>bt_cancelled := True\<rparr> else t)"
  have t': "bt_ID t' = i" "later t t'" using assms(2) by (simp_all add: t'_def later_def)
  have g: "Get_task (put_task t' w) i = Some t'" using t' by (simp add: Get_task_put)
  have e: "may_end t' StatusKilled" by (simp add: may_end_def terminal_def)
  show ?thesis
    using kept_trans [OF kept_put [OF assms(1) t'] kept_finalize [OF g t'(1) e]] by (simp add: Kill_task_unfold Let_def flip: t'_def)
qed

lemma kept_manager_kill:
  assumes "manager_ok w"
  shows "kept P w (snd (Manager_Kill stoperr killerr i w))"
proof (cases "Get_task w i")
  case (Some t)
  have i: "bt_ID t = i" using manager_id [OF assms Some] .
  show ?thesis
  proof (cases "task_IsRunning t")
    case True
    obtain e w' where s: "Stop_task stoperr t w = (e, w')" by fastforce
    then obtain t' where t': "w' = put_task t' w" "bt_ID t' = i" "later t t'"
      using i by (auto simp: Stop_task_def later_def split: if_splits)
    have k: "kept P w w'" using kept_put [OF Some t'(2,3)] t'(1) by simp
    have g: "Get_task w' i = Some t'" using t' by (simp add: Get_task_put)
    have "kept P w (w'\<lparr>wd_waiting := i # wd_waiting w'\<rparr>)" using k by (simp add: kept_def Get_task_def)
    then show ?thesis
      using kept_trans [OF k kept_kill [OF g t'(2), of killerr]] Some True s g
      by (simp add: Manager_Kill_def split: option.splits)
  next
    case False
    then show ?thesis using Some by (simp add: Manager_Kill_def kept_cong)
  qed
qed (simp add: Manager_Kill_def kept_cong)

lemma kept_step:
  assumes ok: "manager_ok w" and en: "enabled ev w"
  shows "kept P w (bg_step E ev w)"
proof -
  have change: "kept P w (with_task i f w)"
    if "\<And>x. Get_task w i = Some x \<Longrightarrow> bt_ID x = i \<Longrightarrow> kept P w (f x w)" for i f
    using that manager_id [OF ok, of i] by (auto simp: with_task_def kept_cong split: option.split)
  have touch: "kept P w (put_task x' w)" if "Get_task w i = Some x" "bt_ID x = i" "bt_ID x' = bt_ID x" "later x x'" for i x x'
    using kept_put [OF that(1) _ that(4)] that(2,3) by simp
  show ?thesis
  proof (cases ev)
    case (EvBash i command description pid hasCancel)
    obtain x v where "NewBashTask E i command description pid hasCancel w = (x, v)" by fastforce
    then show ?thesis using kept_new [of w x v P E] en
      by (auto simp: EvBash bg_step_def CreateBashTask_def enabled_def NewBashTask_def initOutputFile_frame split: prod.splits)
  next
    case (EvAgent i name description)
    obtain x v where "NewAgentTask E i name description w = (x, v)" by fastforce
    then show ?thesis using kept_new [of w x v P E] en
      by (auto simp: EvAgent bg_step_def enabled_def NewAgentTask_def initOutputFile_frame split: prod.splits)
  next
    case (EvOutput i bytes)
    have "kept P w (AppendOutput E bytes x w)" if "Get_task w i = Some x" "bt_ID x = i" for x
      using touch [OF that, of "x\<lparr>bt_output := appendCapped maxOutputBufferSize (bt_output x) bytes\<rparr>"]
      by (auto simp: AppendOutput_def later_def kept_def Get_task_def)
    then show ?thesis using change by (simp add: EvOutput bg_step_def)
  next
    case (EvIdentity i name s)
    have "kept P w (SetIdentity E name s x w)" if "Get_task w i = Some x" "bt_ID x = i" for x
      using touch [OF that, of "x\<lparr>bt_AgentName := name, bt_SessionID := (if s \<noteq> [] then s else bt_SessionID x)\<rparr>"]
      by (auto simp: SetIdentity_def Let_def later_def kept_def Get_task_def)
    then show ?thesis using change by (simp add: EvIdentity bg_step_def)
  next
    case (EvOutputFile i path)
    then show ?thesis using change touch by (simp add: bg_step_def SetOutputFile_def later_def)
  next
    case (EvSteps i steps tokens)
    then show ?thesis using change touch by (simp add: bg_step_def UpdateProgress_def later_def)
  next
    case (EvReaped i)
    then show ?thesis using change touch by (simp add: bg_step_def MarkReaped_def later_def)
  next
    case (EvBashExit i code err)
    have "kept P w (Complete_bash code err x w)" if "Get_task w i = Some x" "bt_ID x = i" for x
      using kept_finalize [OF that] by (simp add: Complete_bash_def may_end_def terminal_def split: option.split)
    then show ?thesis using change by (simp add: EvBashExit bg_step_def)
  next
    case (EvAgentExit i err)
    have "kept P w (Complete_agent err x w)" if "Get_task w i = Some x" "bt_ID x = i" for x
      using kept_finalize [OF that] en that
      by (simp add: EvAgentExit enabled_def Complete_agent_def may_end_def terminal_def split: option.split run_error.split)
    then show ?thesis using change by (simp add: EvAgentExit bg_step_def)
  next
    case (EvKill i stoperr killerr)
    then show ?thesis using kept_manager_kill [OF ok] by (simp add: bg_step_def)
  next
    case (EvKillTimeout i killerr)
    let ?v = "w\<lparr>wd_waiting := remove1 i (wd_waiting w)\<rparr>"
    have v: "kept P w ?v" by (rule kept_cong) simp
    have "kept P w (snd (Kill_task killerr x ?v))" if "Get_task w i = Some x" for x
      using kept_trans [OF v kept_kill [of ?v i x]] that manager_id [OF ok that] by (simp add: Get_task_def)
    then show ?thesis by (auto simp: EvKillTimeout bg_step_def Kill_timeout_def kept_cong split: option.split)
  next
    case (EvSend caller to message)
    then show ?thesis using kept_cong [OF SendMessage_tasks] by (simp add: bg_step_def)
  qed (auto simp: bg_step_def with_task_def AppendProgress_def announce_frame Register_route_def Unregister_route_def
      intro!: kept_cong split: option.split mailbox.split list.split)
qed

lemma kept_run:
  "reachable w \<Longrightarrow> all_enabled evs w \<Longrightarrow> kept P w (bg_run evs w)"
proof (induction evs arbitrary: w)
  case (Cons a evs)
  obtain E ev where a: "a = (E, ev)" by fastforce
  then have en: "enabled ev w" "all_enabled evs (bg_step E ev w)" using Cons.prems(2) by simp_all
  have "manager_ok w" using reachable_ok [OF Cons.prems(1)] by (simp add: bg_ok_def)
  from kept_step [OF this en(1)] Cons.IH [OF reachable.step [OF Cons.prems(1) en(1)] en(2)]
  show ?case unfolding a bg_run.simps by (rule kept_trans)
qed (simp add: kept_cong)

lemma lasts:
  "reachable w \<Longrightarrow> all_enabled evs w \<Longrightarrow> Get_task w i = Some t \<Longrightarrow> P t \<Longrightarrow> \<exists>u. Get_task (bg_run evs w) i = Some u \<and> P u"
  using kept_run unfolding kept_def by blast

end

text \<open>The end of a task lasts, and so does the mark of a command that is to stop.\<close>

definition ended_as :: "string \<Rightarrow> string \<Rightarrow> int \<Rightarrow> BackgroundTask \<Rightarrow> bool" where
  "ended_as s msg code t \<longleftrightarrow> s \<noteq> StatusRunning \<and> bt_status t = s \<and> bt_errMsg t = msg \<and> bt_exitCode t = code"

definition stopping :: "BackgroundTask \<Rightarrow> bool" where
  "stopping t \<longleftrightarrow> bt_Type t = TaskTypeBash \<and> bt_stopRequested t \<and> bt_status t \<in> {StatusRunning, StatusStopped, StatusKilled}"

interpretation ended: lasting "ended_as s msg code"
  by unfold_locales (auto simp: ended_as_def later_def)

interpretation stopped: lasting stopping
  by unfold_locales (auto simp: stopping_def later_def may_end_def)

lemma reachable_id: "reachable w \<Longrightarrow> Get_task w i = Some t \<Longrightarrow> bt_ID t = i"
  using reachable_ok [of w] manager_id [of w i t] by (simp add: bg_ok_def)

lemma still_ended:
  assumes "reachable w" and "all_enabled evs w" and "\<not> IsRunning_task w i"
    and "Get_task w i \<noteq> None"
  shows "\<not> IsRunning_task (bg_run evs w) i"
proof -
  obtain t where t: "Get_task w i = Some t" using assms(4) by blast
  then have "ended_as (bt_status t) (bt_errMsg t) (bt_exitCode t) t"
    using assms(3) by (simp add: ended_as_def IsRunning_task_def task_IsRunning_def)
  from ended.lasts [OF assms(1,2) t this] show ?thesis
    by (auto simp: ended_as_def IsRunning_task_def task_IsRunning_def)
qed

text \<open>
  A task that has ended stays as it ended, whatever happens later: a late exit of its process, a kill
  whose wait runs out, output that still arrives, leave status, error and exit code alone.
\<close>

theorem ended_task_stays_ended:
  assumes "reachable w" and "all_enabled evs w" and "Get_task w i = Some t" and "bt_status t \<noteq> StatusRunning"
  shows "\<exists>u. Get_task (bg_run evs w) i = Some u
    \<and> bt_status u = bt_status t \<and> bt_errMsg u = bt_errMsg t \<and> bt_exitCode u = bt_exitCode t"
  using ended.lasts [OF assms(1-3), of "bt_status t" "bt_errMsg t" "bt_exitCode t"] assms(4)
  by (simp add: ended_as_def)

text \<open>
  A shell command that was asked to stop while it ran never counts as completed or failed, in whatever
  way its process exits: it runs on, or it ends as stopped or as killed.
\<close>

theorem stopped_command_never_fails:
  assumes "reachable w" and "Get_task w i = Some t" and "bt_Type t = TaskTypeBash" and "bt_status t = StatusRunning"
    and "all_enabled ((E, EvKill i None killerr) # evs) w"
  shows "\<exists>u. Get_task (bg_run ((E, EvKill i None killerr) # evs) w) i = Some u
    \<and> bt_status u \<in> {StatusRunning, StatusStopped, StatusKilled}"
proof -
  let ?w = "bg_step E (EvKill i None killerr) w" and ?t = "t\<lparr>bt_stopRequested := True\<rparr>"
  have r: "reachable ?w" "all_enabled evs ?w" using assms(1,5) by (auto intro: reachable.step)
  have "bt_ID t = i" using reachable_id [OF assms(1,2)] .
  then have g: "Get_task ?w i = Some ?t" using assms(2-4)
    by (simp add: bg_step_def Manager_Kill_def Stop_task_def task_IsRunning_def Get_task_def put_task_def gm.get_put)
  have "stopping ?t" using assms(3,4) by (simp add: stopping_def)
  from stopped.lasts [OF r g this] show ?thesis by (auto simp: stopping_def)
qed

text \<open>
  C24: A kill is never in vain: where the polite stop cannot be delivered the task is over at once, and
  where it can, the task is over when the wait ends, by the sight of its end or by the hard kill; over it
  stays.
\<close>

theorem a_kill_ends_the_task:
  assumes "reachable w" and "Get_task w i = Some t" and "bt_status t = StatusRunning"
    and "all_enabled ((E, EvKill i stoperr killerr) # evs @ (E', ev) # evs') w"
    and "ev = EvKillSeen i \<or> ev = EvKillTimeout i killerr' \<or> (bt_Type t = TaskTypeBash \<and> \<not> bt_reaped t \<and> stoperr \<noteq> None)"
  shows "\<not> IsRunning_task (bg_run ((E, EvKill i stoperr killerr) # evs @ (E', ev) # evs') w) i"
proof -
  have split_run: "bg_run (xs @ ys) v = bg_run ys (bg_run xs v)" for xs ys v
    by (induction xs arbitrary: v) auto
  have split_en: "all_enabled (xs @ ys) v \<longleftrightarrow> all_enabled xs v \<and> all_enabled ys (bg_run xs v)" for xs ys v
    by (induction xs arbitrary: v) auto
  let ?w1 = "bg_step E (EvKill i stoperr killerr) w"
  let ?w2 = "bg_run evs ?w1"
  let ?w3 = "bg_step E' ev ?w2"
  have en: "enabled ev ?w2" "all_enabled evs ?w1" "all_enabled evs' ?w3" using assms(4) by (simp_all add: split_en)
  have r1: "reachable ?w1" using assms(1,4) by (auto intro: reachable.step)
  have r2: "reachable ?w2" using reachable_run [OF r1 en(2)] .
  have r3: "reachable ?w3" using reachable.step [OF r2 en(1)] .
  have known: "Get_task ?w3 i \<noteq> None"
  proof -
    have "lasting (\<lambda>_. True)" by unfold_locales simp_all
    from lasting.lasts [OF this assms(1) _ assms(2), of "(E, EvKill i stoperr killerr) # evs @ [(E', ev)]"]
    show ?thesis using assms(4) en(1) by (auto simp: split_run split_en)
  qed
  have over: "\<not> IsRunning_task ?w3 i"
    using assms(5)
  proof (elim disjE)
    assume ev: "ev = EvKillSeen i"
    then show ?thesis using en(1) by (simp add: bg_step_def enabled_def IsRunning_task_def Get_task_def)
  next
    assume ev: "ev = EvKillTimeout i killerr'"
    show ?thesis
    proof (cases "Get_task ?w2 i")
      case None
      then show ?thesis by (simp add: ev bg_step_def Kill_timeout_def IsRunning_task_def)
    next
      case (Some u)
      let ?v = "?w2\<lparr>wd_waiting := remove1 i (wd_waiting ?w2)\<rparr>"
      have "bt_ID u = i" using reachable_id [OF r2 Some] .
      then show ?thesis using kill_ends [of ?v i u] Some by (simp add: ev bg_step_def Kill_timeout_def Get_task_def)
    qed
  next
    assume b: "bt_Type t = TaskTypeBash \<and> \<not> bt_reaped t \<and> stoperr \<noteq> None"
    then obtain e where e: "stoperr = Some e" by blast
    let ?t = "t\<lparr>bt_stopRequested := True\<rparr>"
    have i: "bt_ID t = i" using reachable_id [OF assms(1,2)] .
    have g: "Get_task (put_task ?t w) i = Some ?t" by (simp add: Get_task_put i)
    have "\<not> IsRunning_task ?w1 i"
      using kill_ends [OF g, of killerr] assms(2,3) b g i
      by (simp add: e bg_step_def Manager_Kill_def Stop_task_def task_IsRunning_def)
    moreover have "Get_task ?w1 i \<noteq> None"
      using assms(2,3) b g i
      by (auto simp: e bg_step_def Manager_Kill_def Stop_task_def task_IsRunning_def Kill_task_unfold Let_def finalize_def
          Get_task_def put_task_def gm.get_put)
    ultimately show ?thesis
      using still_ended [OF r1, of "evs @ [(E', ev)]"] en(1,2) by (simp add: split_run split_en)
  qed
  show ?thesis using still_ended [OF r3 en(3) over known] by (simp add: split_run)
qed
subsection \<open>Output and messages\<close>

lemma appendCapped_drop: "appendCapped (int cap) buf data = drop (length (buf @ data) - cap) (buf @ data)"
  by (auto simp: appendCapped_def Let_def nat_diff_distrib nat_add_distrib)

lemma drop_drop_tail: "drop (length (drop (length a - n) a @ b) - n) (drop (length a - n) a @ b) = drop (length (a @ b) - n) (a @ b)"
proof (cases "length a \<le> n")
  case False
  then have "length (drop (length a - n) a) = n" by simp
  then show ?thesis using False by (cases "length b \<le> n") (simp_all add: add.commute)
qed simp

text \<open>
  The buffer of a task is bounded and loses only the oldest bytes: however the output is cut into
  pieces, it holds exactly the last bytes of all of it, up to the bound.
\<close>

theorem output_is_the_tail:
  "fold (\<lambda>data buf. appendCapped (int cap) buf data) pieces [] = drop (length (concat pieces) - cap) (concat pieces)
   \<and> length (fold (\<lambda>data buf. appendCapped (int cap) buf data) pieces []) \<le> cap"
proof -
  have f: "fold (\<lambda>data buf. appendCapped (int cap) buf data) pieces [] = drop (length (concat pieces) - cap) (concat pieces)"
    by (induction pieces rule: rev_induct) (simp_all only: fold_append fold.simps o_apply id_apply concat.simps concat_append
        append_Nil append_Nil2 list.size drop_Nil appendCapped_drop drop_drop_tail)
  then show ?thesis by simp
qed

lemma EscapeXMLText_Cons:
  "EscapeXMLText (c # s) = (if c = CHR ''&'' then ''&amp;'' else if c = CHR ''<'' then ''&lt;''
     else if c = CHR ''>'' then ''&gt;'' else [c]) @ EscapeXMLText s"
  by (simp add: EscapeXMLText_def)

lemma EscapeXMLText_plain: "CHR ''<'' \<notin> set (EscapeXMLText s) \<and> CHR ''>'' \<notin> set (EscapeXMLText s)"
  by (induction s) (auto simp: EscapeXMLText_Cons EscapeXMLText_def)

fun unescape :: "string \<Rightarrow> string" where
  "unescape [] = []"
| "unescape (c # s) =
     (if c = CHR ''&'' \<and> take 4 s = ''amp;'' then CHR ''&'' # unescape (drop 4 s)
      else if c = CHR ''&'' \<and> take 3 s = ''lt;'' then CHR ''<'' # unescape (drop 3 s)
      else if c = CHR ''&'' \<and> take 3 s = ''gt;'' then CHR ''>'' # unescape (drop 3 s)
      else c # unescape s)"

lemma unescape_EscapeXMLText: "unescape (EscapeXMLText s) = s"
  by (induction s) (simp_all add: EscapeXMLText_Cons, simp add: EscapeXMLText_def)

text \<open>
  The letter a message travels as: the envelope of its sender, around a body that no angle bracket can
  close and that reads back as the message.
\<close>

definition letter_of :: "string \<Rightarrow> string \<Rightarrow> string \<Rightarrow> bool" where
  "letter_of sender message letter \<longleftrightarrow>
     (\<exists>body. letter = ''<agent-message from='' @ go_quote sender @ ''>'' @ [CHR 0x0A] @ body @ [CHR 0x0A] @ ''</agent-message>''
        \<and> CHR ''<'' \<notin> set body \<and> CHR ''>'' \<notin> set body \<and> unescape body = message)"

lemma wrapped_letter: "letter_of sender message (wrapAgentMessage sender message)"
  using EscapeXMLText_plain [of message] unescape_EscapeXMLText [of message] unfolding letter_of_def wrapAgentMessage_def by blast

text \<open>No step loses a notice that the main conversation has been sent.\<close>

definition all_notices :: "world \<Rightarrow> mainNotice multiset" where
  "all_notices w = mset (wd_taken w) + mset (wd_notices w) + mset (wd_blocked w)"

lemma all_notices_notifyMain: "all_notices (notifyMain n w) = add_mset n (all_notices w)"
  by (simp add: all_notices_def notifyMain_def)

lemma mset_take_nth: "k < length xs \<Longrightarrow> add_mset (xs ! k) (mset (take k xs) + mset (drop (Suc k) xs)) = mset xs"
  by (metis id_take_nth_drop mset.simps(2) mset_append union_mset_add_mset_right)

lemma all_notices_post: "all_notices (post_blocked k w) = all_notices w"
  using mset_take_nth [of k "wd_blocked w"] by (auto simp: all_notices_def post_blocked_def)

lemma all_notices_drain: "all_notices (snd (drainNotices k w)) = all_notices w"
proof -
  have "mset (take k (wd_notices w)) + mset (drop k (wd_notices w)) = mset (wd_notices w)"
    by (metis append_take_drop_id mset_append)
  then show ?thesis by (simp add: all_notices_def drainNotices_def Let_def add.assoc)
qed

lemma all_notices_Send: "all_notices w \<subseteq># all_notices (snd (Send m w))"
  by (auto simp: Send_def all_notices_notifyMain split: option.split mailbox.split) (simp add: all_notices_def)

lemma all_notices_frame [simp]:
  "all_notices (put_task t w) = all_notices w"
  "all_notices (appendOutputFile E p r w) = all_notices w"
  "all_notices (finalize st code msg t w) = all_notices w"
  "all_notices (RegisterTask E t w) = all_notices w"
  "all_notices (w\<lparr>wd_waiting := ws\<rparr>) = all_notices w"
  "all_notices (w\<lparr>wd_pending := ws\<rparr>) = all_notices w"
  "all_notices (w\<lparr>wd_todo := td\<rparr>) = all_notices w"
  "all_notices (Register_route a b w) = all_notices w"
  "all_notices (Unregister_route a w) = all_notices w"
  by (simp_all add: all_notices_def put_task_def appendOutputFile_def finalize_def RegisterTask_def onCreated_def
      Register_route_def Unregister_route_def)

lemma all_notices_init: "initOutputFile E i w = (path, v) \<Longrightarrow> all_notices v = all_notices w"
  by (auto simp: initOutputFile_def Let_def all_notices_def split: if_splits)

lemma all_notices_new:
  "NewBashTask E i c d pid h w = (t, v) \<Longrightarrow> all_notices v = all_notices w"
  "NewAgentTask E i n d w = (t, v) \<Longrightarrow> all_notices v = all_notices w"
  by (auto simp: NewBashTask_def NewAgentTask_def all_notices_init split: prod.splits)

lemma all_notices_ends [simp]:
  "all_notices (Complete_bash code e t w) = all_notices w" "all_notices (Complete_agent re t w) = all_notices w"
  "all_notices (snd (Kill_task ke t w)) = all_notices w"
  by (simp_all add: Complete_bash_def Complete_agent_def Kill_task_def markKilled_def Let_def
      split: prod.split option.split run_error.split)

lemma all_notices_stop: "Stop_task se t w = (e, v) \<Longrightarrow> all_notices v = all_notices w"
  by (auto simp: Stop_task_def split: if_splits)

lemma all_notices_kill [simp]:
  "all_notices (snd (Manager_Kill se ke i w)) = all_notices w"
  by (auto simp: Manager_Kill_def all_notices_stop split: option.split prod.split)

lemma all_notices_announce: "all_notices w \<subseteq># all_notices (announce E t w)"
proof -
  let ?v = "appendOutputFile E p r (w\<lparr>wd_pending := ws\<rparr>)"
  have "all_notices v \<subseteq># all_notices (onCompleted E info v)" for info v
  proof -
    let ?u = "v\<lparr>wd_ended := wd_ended v @ [info], wd_todo := CompleteWorker (todo_env_of E v) (todo_info info) (wd_todo v)\<rparr>"
    have u: "all_notices ?u = all_notices v" by (simp add: all_notices_def)
    show ?thesis using all_notices_Send [of ?u] u by (auto simp: onCompleted_def Let_def split: option.split)
  qed
  note o = this
  show ?thesis unfolding announce_def Let_def by (rule subset_mset.order_trans [OF _ o]) simp
qed

lemma all_notices_SendMessage: "all_notices w \<subseteq># all_notices (snd (SendMessage_execute caller to message w))"
proof -
  obtain d v where s: "Send \<lparr>bm_From = if caller = [] then Main else caller, bm_To = trim_space to,
      bm_Subject = ''Message from '' @ senderLabel w (if caller = [] then Main else caller),
      bm_Content = wrapAgentMessage (if caller = [] then Main else caller) message\<rparr> w = (d, v)" by fastforce
  then have "all_notices w \<subseteq># all_notices v" using all_notices_Send by (metis snd_conv)
  then show ?thesis using s by (simp add: SendMessage_execute_def Let_def)
qed

lemma all_notices_step: "all_notices w \<subseteq># all_notices (bg_step E ev w)"
proof (cases ev)
  case (EvBash i command description pid hasCancel)
  then show ?thesis by (simp add: bg_step_def CreateBashTask_def all_notices_new(1) split: prod.split)
next
  case (EvAgent i name description)
  then show ?thesis by (simp add: bg_step_def all_notices_new(2) split: prod.split)
next
  case (EvAnnounce i)
  then show ?thesis using all_notices_announce by (simp add: bg_step_def with_task_def split: option.split)
next
  case (EvSend caller to message)
  then show ?thesis using all_notices_SendMessage by (simp add: bg_step_def)
qed (auto simp: bg_step_def with_task_def AppendOutput_def AppendProgress_def SetIdentity_def SetOutputFile_def UpdateProgress_def
    MarkReaped_def Kill_timeout_def Let_def all_notices_notifyMain all_notices_post all_notices_drain
    split: option.split mailbox.split list.split)

lemma all_notices_run: "all_notices w \<subseteq># all_notices (bg_run evs w)"
proof (induction evs arbitrary: w)
  case (Cons a evs)
  obtain E ev where "a = (E, ev)" by fastforce
  then show ?case using subset_mset.order_trans [OF all_notices_step Cons.IH] by simp
qed simp

lemma notice_stays: "add_mset n (all_notices w) \<subseteq># all_notices (bg_run evs (notifyMain n w))"
  using all_notices_run [of "notifyMain n w" evs] by (simp add: all_notices_notifyMain)

lemma SendMessage_cases:
  assumes "SendMessage_execute caller to message w = (Inr report, w')"
  shows "message \<noteq> []" and "trim_space to \<noteq> (if caller = [] then Main else caller)"
    and "\<exists>m. bm_To m = trim_space to \<and> bm_Content m = wrapAgentMessage (if caller = [] then Main else caller) message
      \<and> Send m w = (True, w')"
proof -
  let ?sender = "if caller = [] then Main else caller"
  let ?m = "\<lparr>bm_From = ?sender, bm_To = trim_space to, bm_Subject = ''Message from '' @ senderLabel w ?sender,
    bm_Content = wrapAgentMessage ?sender message\<rparr>"
  obtain d v where s: "Send ?m w = (d, v)" by fastforce
  have a: "message \<noteq> [] \<and> trim_space to \<noteq> ?sender \<and> d \<and> w' = v"
    using assms s by (auto simp: SendMessage_execute_def Let_def split: if_splits)
  show "message \<noteq> []" "trim_space to \<noteq> ?sender" using a by simp_all
  show "\<exists>m. bm_To m = trim_space to \<and> bm_Content m = wrapAgentMessage ?sender message \<and> Send m w = (True, w')"
    using a s by (intro exI [where x = ?m]) simp
qed


text \<open>
  A message between agents cannot forge the envelope it arrives in: the escaped body holds no angle
  bracket, so the envelope of a task id ends where it ends, and the body reads back unchanged.
\<close>

theorem envelope_cannot_be_forged:
  "CHR ''<'' \<notin> set (EscapeXMLText body) \<and> CHR ''>'' \<notin> set (EscapeXMLText body) \<and> unescape (EscapeXMLText body) = body"
  using EscapeXMLText_plain unescape_EscapeXMLText by blast

subsection \<open>Examples\<close>

definition desk :: bg_env where
  "desk = \<lparr>be_todo = Todo.demo_env, be_open = \<lambda>p. True\<rparr>"

definition idle_world :: world where
  "idle_world = \<lparr>wd_tasks = gm_empty, wd_outputDir = ''/o'', wd_files = gm_empty, wd_todo = (NewStore, []),
     wd_routes = gm_put Main MainBox gm_empty, wd_notices = [], wd_blocked = [], wd_taken = [], wd_created = [], wd_ended = [], wd_pending = [], wd_waiting = []\<rparr>"

definition build_run :: "(bg_env \<times> bg_event) list" where
  "build_run = [(desk, EvBash ''t1'' ''make'' ''build'' 7 True)]"

definition kill_run :: "(bg_env \<times> bg_event) list" where
  "kill_run = [(desk, EvReaped ''t1''), (desk, EvKillTimeout ''t1'' None), (desk, EvAnnounce ''t1''),
     (desk, EvOutput ''t1'' ''ok''), (desk, EvBashExit ''t1'' 0 None)]"

definition building :: world where
  "building = bg_run build_run idle_world"

lemma idle_world_start: "world_start idle_world"
  by (simp add: world_start_def idle_world_def todo_ok_NewStore)

lemma reachable_building: "reachable building"
proof -
  have "all_enabled build_run idle_world" by code_simp
  then show ?thesis unfolding building_def using reachable_run [OF reachable.start [OF idle_world_start]] by blast
qed

definition make_task :: BackgroundTask where
  "make_task = \<lparr>bt_Type = TaskTypeBash, bt_ID = ''t1'', bt_Command = ''make'', bt_Description = ''build'', bt_PID = 7,
     bt_AgentName = [], bt_SessionID = [], bt_status = StatusRunning, bt_errMsg = [], bt_exitCode = 0,
     bt_output = [], bt_OutputFile = ''/o/t1.log'', bt_StepCount = 0, bt_TokenUsage = 0, bt_hasCancel = True,
     bt_cancelled = False, bt_stopRequested = False, bt_reaped = False\<rparr>"

lemma building_task: "Get_task building ''t1'' = Some make_task"
  by code_simp

lemma kill_enabled: "all_enabled ((desk, EvKill ''t1'' None None) # kill_run) building"
  by code_simp

lemma task_is_announced_once_witness:
  "count_list (wd_pending building) ''t1'' + length (filter (\<lambda>s. sn_ID s = ''t1'') (wd_ended building)) = 0"
  using task_is_announced_once [OF reachable_building building_task] by (simp add: make_task_def)

lemma tracker_shows_every_task_witness:
  "\<exists>x. FindByMetadata (fst (wd_todo building)) metaTaskID ''t1'' = Some x \<and> it_Status x = StatusInProgress"
  using tracker_shows_every_task [OF reachable_building building_task] by (auto simp: make_task_def)

definition built :: world where
  "built = bg_run [(desk, EvBashExit ''t1'' 0 None)] building"

lemma ended_task_stays_ended_witness:
  "\<exists>u. Get_task (bg_run [(desk, EvBashExit ''t1'' 2 (Some (OtherError ''late'')))] built) ''t1'' = Some u
     \<and> bt_status u = TaskCompleted \<and> bt_exitCode u = 0"
proof -
  have "all_enabled [(desk, EvBashExit ''t1'' 0 None)] building" by code_simp
  then have r: "reachable built" unfolding built_def by (rule reachable_run [OF reachable_building])
  have g: "Get_task built ''t1'' = Some (make_task\<lparr>bt_status := TaskCompleted\<rparr>)" by code_simp
  have en: "all_enabled [(desk, EvBashExit ''t1'' 2 (Some (OtherError ''late'')))] built" by code_simp
  from ended_task_stays_ended [OF r en g] show ?thesis by (auto simp: make_task_def)
qed

lemma stopped_command_never_fails_witness:
  "\<exists>u. Get_task (bg_run ((desk, EvKill ''t1'' None None) # kill_run) building) ''t1'' = Some u
     \<and> bt_status u \<in> {StatusRunning, StatusStopped, StatusKilled}"
  by (rule stopped_command_never_fails [OF reachable_building building_task _ _ kill_enabled]) (simp_all add: make_task_def)

lemma a_kill_ends_the_task_witness:
  "\<not> IsRunning_task (bg_run ((desk, EvKill ''t1'' None None) # kill_run) building) ''t1''"
proof -
  let ?evs = "[(desk, EvReaped ''t1'')]"
    and ?rest = "[(desk, EvAnnounce ''t1''), (desk, EvOutput ''t1'' ''ok''), (desk, EvBashExit ''t1'' 0 None)]"
  have k: "kill_run = ?evs @ (desk, EvKillTimeout ''t1'' None) # ?rest" by (simp add: kill_run_def)
  show ?thesis unfolding k
    by (rule a_kill_ends_the_task [OF reachable_building building_task _ kill_enabled [unfolded k]]) (simp_all add: make_task_def)
qed

text \<open>
  Order is not kept when the channel is full: a message that comes when a place is free again overtakes
  one that still waits for room.
\<close>

lemma a_later_message_overtakes:
  "let busy = idle_world\<lparr>wd_notices := replicate 64 \<lparr>mn_Display = [], mn_Content = ''old'', mn_FromAgent = True\<rparr>\<rparr>;
       w = bg_run [(desk, EvSend ''a'' Main ''first''), (desk, EvDrain 2), (desk, EvSend ''a'' Main ''second''), (desk, EvUnblock 0)] busy
   in drop 62 (List.map mn_Content (wd_notices w)) = [wrapAgentMessage ''a'' ''second'', wrapAgentMessage ''a'' ''first'']"
  by code_simp

text \<open>
  A kill that runs into its deadline announces the end before the output of the command has been stored:
  the notice to the main conversation is empty, although the task ends with its output.
\<close>

lemma killed_command_reports_no_output:
  "List.map mn_Content (wd_notices (bg_run ((desk, EvKill ''t1'' None None) # kill_run) building))
     = [''<task-notification task-id='' @ go_quote ''t1'' @ '' status='' @ go_quote ''killed''
        @ '' description='' @ go_quote ''make'' @ '' output-file='' @ go_quote ''/o/t1.log'' @ ''>'' @ [CHR 0x0A]
        @ [CHR 0x0A] @ ''</task-notification>'']
   \<and> map_option bt_output (Get_task (bg_run ((desk, EvKill ''t1'' None None) # kill_run) building) ''t1'') = Some ''ok''"
  by code_simp

text \<open>
  The attributes of a notice are quoted, not escaped: a command that holds the closing tag closes the notice.
\<close>

lemma command_closes_its_notice:
  "\<exists>rest. map_option bm_Content (taskCompletionMessage 40000
     (GetStatus (make_task\<lparr>bt_status := TaskCompleted, bt_Command := ''</task-notification> all is well''\<rparr>)))
   = Some (''<task-notification task-id='' @ go_quote ''t1'' @ '' status='' @ go_quote ''completed''
       @ '' description='' @ [CHR 0x22] @ ''</task-notification> all is well'' @ rest)"
  by (rule exI [where x = "CHR 0x22 # '' output-file='' @ go_quote ''/o/t1.log'' @ ''>'' @ [CHR 0x0A, CHR 0x0A] @ ''</task-notification>''"])
     code_simp

end
