(* ===== verification/WorkerRun.thy ===== *)
theory WorkerRun
  imports Agents AgentTurn BgTask
begin

text \<open>
  The run of a subagent (\<open>subagent/executor.go\<close>, \<open>executor_prompt.go\<close>, \<open>executor_run.go\<close>,
  \<open>executor_session.go\<close>, \<open>executor_swap.go\<close>): which definition, mode, model and step cap a request gets,
  the hooks, registrations and results of the run, its end as a background task of \<open>BgTask\<close>, and the
  change of its model while it runs.  The turn of the agent itself is the one of \<open>AgentTurn\<close> and a
  parameter here: it ends with a result, or with an error and what there was of a result; meanwhile the
  world may change and the model of the run may be swapped.  The texts of the display are left out, and so
  are times.

  The theorems: every run that starts fires one start and one stop with the same id, and leaves no
  registration behind; a request to explore only reads; a model that a run uses is the parent's or one
  that its catalog or its vendor offers; and a background run ends as its result says.
\<close>

subsection \<open>Requests and configuration\<close>

datatype resolved_config = NoConfig | ForeignValue | ResolvedConfig "AgentConfig option"

record AgentExecRequest =
  rq_Agent :: string
  rq_ResolvedAgentConfig :: resolved_config
  rq_Prompt :: string
  rq_Description :: string
  rq_Model :: string
  rq_MaxSteps :: int
  rq_Mode :: string
  rq_Complexity :: string
  rq_TaskID :: string
  rq_OnActivity :: bool

record SubagentBrief =
  br_AgentName :: string
  br_Description :: string
  br_Mode :: string
  br_ToolConstraints :: "string list"
  br_CustomPrompt :: string
  br_Complexity :: string

record runConfig =
  rc_config :: AgentConfig
  rc_provider :: "string option"
  rc_modelID :: string
  rc_maxSteps :: int
  rc_displayName :: string
  rc_brief :: SubagentBrief
  rc_permMode :: PermissionMode
  rc_complexity :: string

record preparedRun =
  pr_req :: AgentExecRequest
  pr_cfg :: runConfig
  pr_hookID :: string
  pr_activity :: "string list"

text \<open>
  The executor; a provider is its name, a function that is nil is \<open>None\<close>.  Among the fields are what it
  asks of the outside: the vendors known by name, the resolver, the cached catalogs, the settings of the
  models, the texts of definitions and skills, and the session store.
\<close>

record Executor =
  ex_provider :: "string option"
  ex_registry :: "Registry option"
  ex_resolver :: "(string \<Rightarrow> string option) option"
  ex_isProvider :: "string \<Rightarrow> bool"
  ex_catalog :: "(string \<Rightarrow> string list option) option"
  ex_parentProviderName :: string
  ex_parentModelID :: string
  ex_parentMode :: "string option"
  ex_override :: "(string \<Rightarrow> string \<times> string \<times> string) option"
  ex_hooks :: bool
  ex_save :: "(string \<Rightarrow> string \<Rightarrow> string \<Rightarrow> Message list \<Rightarrow> (string \<times> string) option) option"
  ex_parentSessionID :: string
  ex_body :: "string \<Rightarrow> string"
  ex_skill :: "(string \<Rightarrow> string) option"
  ex_shortName :: "string \<Rightarrow> PermissionMode \<Rightarrow> string"
  ex_recursionDepth :: int
  ex_maxRecursionDepth :: int

definition validateRequest :: "AgentExecRequest \<Rightarrow> string option" where
  "validateRequest req =
     (if trim_space (rq_Prompt req) = [] then Some ''agent prompt cannot be empty''
      else if trim_space (rq_Mode req) \<in> {[], ''default'', ''explore'', ''edit''} then None
      else Some (''invalid agent mode '' @ go_quote (rq_Mode req) @ '': must be explore, edit, or default''))"

definition baseAgentConfig :: AgentConfig where
  "baseAgentConfig = blank_config\<lparr>ac_Description := ''Subagent for research and implementation tasks.'',
     ac_Model := ''inherit'', ac_PermissionMode := PermissionDefault\<rparr>"

definition displayOnlyAgentConfig :: "string \<Rightarrow> AgentConfig" where
  "displayOnlyAgentConfig name = baseAgentConfig\<lparr>ac_Name := trim_space name, ac_displayOnly := True\<rparr>"

definition resolveAgentConfigFrom :: "Registry option \<Rightarrow> string \<Rightarrow> AgentConfig option \<times> bool" where
  "resolveAgentConfigFrom registry name0 =
     (let name = trim_space name0
      in if name = [] then (Some baseAgentConfig, True)
         else case registry of
                None \<Rightarrow> (Some (displayOnlyAgentConfig name), True)
              | Some r \<Rightarrow>
                  (let (config, exists, enabled) = LookupAgent r name
                   in if exists then (config, enabled) else (Some (displayOnlyAgentConfig name), True)))"

definition resolveRequestAgentConfig :: "Executor \<Rightarrow> AgentExecRequest \<Rightarrow> AgentConfig option \<times> bool" where
  "resolveRequestAgentConfig e req =
     (case rq_ResolvedAgentConfig req of
        NoConfig \<Rightarrow> resolveAgentConfigFrom (ex_registry e) (rq_Agent req)
      | ForeignValue \<Rightarrow> (None, False)
      | ResolvedConfig config \<Rightarrow> (config, config \<noteq> None))"

definition currentParentPermissionMode :: "Executor \<Rightarrow> PermissionMode" where
  "currentParentPermissionMode e =
     (case ex_parentMode e of None \<Rightarrow> PermissionDefault | Some m \<Rightarrow> NormalizePermissionMode m)"

definition isWriteEnabled :: "Executor \<Rightarrow> string \<Rightarrow> bool" where
  "isWriteEnabled e name =
     (case ex_registry e of
        None \<Rightarrow> False
      | Some r \<Rightarrow> if trim_space name = [] then False else IsWriteEnabled_agent r name)"

definition requestPermissionMode :: "Executor \<Rightarrow> AgentConfig \<Rightarrow> AgentExecRequest \<Rightarrow> PermissionMode" where
  "requestPermissionMode e config req =
     (let mode = trim_space (rq_Mode req)
      in if mode = ''explore'' then PermissionExplore
         else if mode = ''edit'' then PermissionAcceptEdits
         else if mode = [] \<or> mode = ''default''
           then (if trim_space (rq_Agent req) = [] \<or> ac_displayOnly config then currentParentPermissionMode e
                 else let normalized = NormalizePermissionMode (ac_PermissionMode config)
                      in if normalized \<noteq> [] \<and> normalized \<noteq> PermissionDefault then normalized
                         else if ac_AllowWrite config \<or> isWriteEnabled e (ac_Name config) then PermissionAcceptEdits
                         else PermissionDefault)
         else mode)"

text \<open>The mode that the permission dialog of the Agent tool shows (\<open>tool/agent/agent.go\<close>).\<close>

definition effectivePermissionMode :: "string \<Rightarrow> PermissionMode \<Rightarrow> string" where
  "effectivePermissionMode mode configMode = (if mode \<noteq> [] \<and> mode \<noteq> ''default'' then mode else configMode)"

definition complexity_of :: "string \<Rightarrow> string option" where
  "complexity_of s = (let c = to_lower (trim_space s) in if c \<in> {''light'', ''medium'', ''heavy''} then Some c else None)"

definition normalizeComplexity :: "string \<Rightarrow> string \<Rightarrow> string" where
  "normalizeComplexity reqComplexity configComplexity =
     (case complexity_of reqComplexity of
        Some c \<Rightarrow> c
      | None \<Rightarrow> (case complexity_of configComplexity of Some c \<Rightarrow> c | None \<Rightarrow> ''medium''))"

definition effectiveToolConstraints :: "AgentConfig \<Rightarrow> PermissionMode \<Rightarrow> string list" where
  "effectiveToolConstraints config permMode =
     (let constraints = ConstrainedDisplayNames (ac_AllowTools config)
      in if NormalizePermissionMode permMode \<noteq> PermissionExplore
            \<or> (ac_AllowTools config \<noteq> None \<and> \<not> HasName (ac_AllowTools config) ''Bash'')
           then constraints
         else filter (\<lambda>c. \<not> has_prefix c ''Bash('') constraints
                @ [''Bash limited to commands classified as read-only''])"

definition GetSystemPrompt :: "Executor \<Rightarrow> AgentConfig \<Rightarrow> string" where
  "GetSystemPrompt e c =
     (if ac_SourceFile c \<noteq> [] \<and> ex_body e (ac_SourceFile c) \<noteq> [] then ex_body e (ac_SourceFile c) else ac_SystemPrompt c)"

definition buildBriefWithComplexity :: "Executor \<Rightarrow> AgentConfig \<Rightarrow> PermissionMode \<Rightarrow> string \<Rightarrow> SubagentBrief" where
  "buildBriefWithComplexity e config permMode complexity =
     (let custom = trim_space (GetSystemPrompt e config);
          custom = (case ex_skill e of
              None \<Rightarrow> custom
            | Some body \<Rightarrow>
                if ac_Skills config = [] then custom
                else trim_right_by (\<lambda>c. c = CHR 0x0A)
                  ((if custom \<noteq> [] then custom @ [CHR 0x0A, CHR 0x0A] else [])
                   @ concat (List.map (\<lambda>n. if body n \<noteq> [] then body n @ [CHR 0x0A, CHR 0x0A] else []) (ac_Skills config))))
      in \<lparr>br_AgentName = ac_Name config, br_Description = ac_Description config, br_Mode = permMode,
          br_ToolConstraints = effectiveToolConstraints config permMode, br_CustomPrompt = custom,
          br_Complexity = complexity\<rparr>)"

subsection \<open>Models\<close>

definition modelAliases :: "(string \<times> string) list" where
  "modelAliases = [(''sonnet'', ''claude-sonnet-4-6''), (''opus'', ''claude-opus-4-7''), (''haiku'', ''claude-haiku-4-5'')]"

definition resolveModelAlias :: "string \<Rightarrow> string" where
  "resolveModelAlias model = (case map_of modelAliases model of Some full \<Rightarrow> full | None \<Rightarrow> model)"

definition ParseVendorModel :: "(string \<Rightarrow> bool) \<Rightarrow> string \<Rightarrow> (string \<times> string) option" where
  "ParseVendorModel isProvider ref =
     (let (v, m, found) = cut_str ref ''/''
      in if \<not> found \<or> v = [] \<or> m = [] \<or> \<not> isProvider v then None else Some (v, m))"

definition cachedCatalogAllowsModel :: "Executor \<Rightarrow> string \<Rightarrow> bool" where
  "cachedCatalogAllowsModel e modelID =
     (case ex_catalog e of
        None \<Rightarrow> True
      | Some catalog \<Rightarrow>
          if ex_parentProviderName e = [] \<or> modelID = [] then True
          else case catalog (ex_parentProviderName e) of None \<Rightarrow> True | Some models \<Rightarrow> modelID \<in> set models)"

text \<open>The reference that the settings and the definition give, and the connection it leads to.\<close>

definition model_ref :: "Executor \<Rightarrow> string \<Rightarrow> string \<Rightarrow> string \<Rightarrow> bool \<Rightarrow> string" where
  "model_ref e requestModel configModel agentName allowWrite =
     (let ref = trim_space requestModel;
          (ref, defaultRef, writeDefaultRef) =
            (case ex_override e of
               Some f \<Rightarrow> if ref = [] then (case f agentName of (override, def, writeDef) \<Rightarrow>
                            (trim_space override, trim_space def, trim_space writeDef))
                         else (ref, [], [])
             | None \<Rightarrow> (ref, [], []));
          ref = (if ref = [] then trim_space configModel else ref)
      in if ref = [] \<or> ref = ''inherit''
           then (if allowWrite \<and> writeDefaultRef \<noteq> [] then writeDefaultRef
                 else if defaultRef \<noteq> [] then defaultRef else ref)
         else ref)"

definition route_model :: "Executor \<Rightarrow> string \<Rightarrow> string option \<times> string" where
  "route_model e ref =
     (let parent = (ex_provider e, ex_parentModelID e)
      in if ref = [] \<or> ref = ''inherit'' then parent
         else case ParseVendorModel (ex_isProvider e) ref of
                Some (vendor, modelID) \<Rightarrow>
                  (case ex_resolver e of
                     None \<Rightarrow> parent
                   | Some resolve \<Rightarrow>
                       if vendor = ex_parentProviderName e \<and> modelID \<noteq> ex_parentModelID e
                          \<and> \<not> cachedCatalogAllowsModel e modelID then parent
                       else case resolve vendor of None \<Rightarrow> parent | Some p \<Rightarrow> (Some p, modelID))
              | None \<Rightarrow>
                  (let modelID = resolveModelAlias ref
                   in if modelID \<noteq> ex_parentModelID e \<and> \<not> cachedCatalogAllowsModel e modelID then parent
                      else (ex_provider e, modelID)))"

definition resolveRunModel :: "Executor \<Rightarrow> string \<Rightarrow> string \<Rightarrow> string \<Rightarrow> bool \<Rightarrow> string option \<times> string" where
  "resolveRunModel e requestModel configModel agentName allowWrite =
     route_model e (model_ref e requestModel configModel agentName allowWrite)"

definition shouldRetryWithParentModel :: "string \<Rightarrow> string \<Rightarrow> string \<Rightarrow> bool" where
  "shouldRetryWithParentModel err modelID parentModelID =
     (if parentModelID = [] \<or> modelID = [] \<or> modelID = parentModelID then False
      else let msg = to_lower err
           in contains_str msg ''model_not_found'' \<or> contains_str msg ''model not found'' \<or> contains_str msg ''model_not_exist'')"

subsection \<open>Preparing a run\<close>

definition minMaxSteps :: int where
  "minMaxSteps = 10"

definition prepareRunConfig :: "Executor \<Rightarrow> AgentExecRequest \<Rightarrow> string + runConfig" where
  "prepareRunConfig e req =
     (case resolveRequestAgentConfig e req of
        (Some config, True) \<Rightarrow>
          (let permMode = requestPermissionMode e config req;
               maxSteps = (if 0 < ac_MaxSteps config then ac_MaxSteps config else 0);
               maxSteps = (if 0 < rq_MaxSteps req then rq_MaxSteps req else maxSteps);
               maxSteps = (if 0 < maxSteps \<and> maxSteps < minMaxSteps then minMaxSteps else maxSteps);
               (provider, modelID) = resolveRunModel e (rq_Model req) (ac_Model config) (ac_Name config)
                  (ac_AllowWrite config \<or> isWriteEnabled e (ac_Name config));
               complexity = normalizeComplexity (rq_Complexity req) (ac_Complexity config)
           in Inr \<lparr>rc_config = config, rc_provider = provider, rc_modelID = modelID, rc_maxSteps = maxSteps,
                rc_displayName = ex_shortName e (ac_Name config) permMode,
                rc_brief = buildBriefWithComplexity e config permMode complexity,
                rc_permMode = permMode, rc_complexity = complexity\<rparr>)
      | _ \<Rightarrow> Inl (''unknown or disabled agent: '' @ rq_Agent req))"

definition prepareRun :: "Executor \<Rightarrow> string \<Rightarrow> AgentExecRequest \<Rightarrow> string + preparedRun" where
  "prepareRun e shortID req =
     (case validateRequest req of
        Some err \<Rightarrow> Inl err
      | None \<Rightarrow>
          if 0 < ex_maxRecursionDepth e \<and> ex_maxRecursionDepth e \<le> ex_recursionDepth e
            then Inl (''maximum agent recursion depth ('' @ int_str (ex_maxRecursionDepth e) @ '') exceeded'')
          else case prepareRunConfig e req of
                 Inl err \<Rightarrow> Inl err
               | Inr cfg \<Rightarrow> Inr \<lparr>pr_req = req, pr_cfg = cfg, pr_hookID = ''a'' @ shortID, pr_activity = []\<rparr>)"

subsection \<open>The run\<close>

datatype hook_event = SubagentStart string string string | SubagentStop string string string string

record run_world =
  ru_hooks :: "hook_event list"
  ru_live :: "(string, preparedRun) gomap"
  ru_world :: world

datatype thought = ThinkOk Result | ThinkErr "Result option" run_error

text \<open>
  One turn of the agent: how it ends, the lines of its tool calls, the connection it was swapped to, and
  what became of the world meanwhile.
\<close>

record think_outcome =
  oc_thought :: thought
  oc_lines :: "string list"
  oc_swapped :: "(string option \<times> string) option"
  oc_world :: world

record AgentResult =
  ar_AgentID :: string
  ar_AgentName :: string
  ar_Model :: string
  ar_Success :: bool
  ar_Content :: string
  ar_TranscriptPath :: string
  ar_Messages :: "Message list"
  ar_StepCount :: int
  ar_ToolUses :: int
  ar_InputTokens :: int
  ar_OutputTokens :: int
  ar_Activity :: "string list"
  ar_Error :: string

definition fireSubagentStart :: "Executor \<Rightarrow> AgentExecRequest \<Rightarrow> string \<Rightarrow> run_world \<Rightarrow> run_world" where
  "fireSubagentStart e req i w =
     (if \<not> ex_hooks e then w
      else w\<lparr>ru_hooks := ru_hooks w @ [SubagentStart (trim_space (rq_Agent req)) i (rq_Description req)]\<rparr>)"

definition fireSubagentStop :: "Executor \<Rightarrow> AgentExecRequest \<Rightarrow> string \<Rightarrow> string \<Rightarrow> string \<Rightarrow> run_world \<Rightarrow> run_world" where
  "fireSubagentStop e req i path content w =
     (if \<not> ex_hooks e then w
      else w\<lparr>ru_hooks := ru_hooks w @ [SubagentStop (trim_space (rq_Agent req)) i path content]\<rparr>)"

definition registerRun :: "string \<Rightarrow> preparedRun \<Rightarrow> run_world \<Rightarrow> run_world" where
  "registerRun addr run w = (if addr = [] then w else w\<lparr>ru_live := gm_put addr run (ru_live w)\<rparr>)"

definition unregisterRun :: "string \<Rightarrow> run_world \<Rightarrow> run_world" where
  "unregisterRun addr w = (if addr = [] then w else w\<lparr>ru_live := gm_del addr (ru_live w)\<rparr>)"

definition agent_addr :: "preparedRun \<Rightarrow> string" where
  "agent_addr run = (if rq_TaskID (pr_req run) = [] then pr_hookID run else rq_TaskID (pr_req run))"

definition executePreparedRun ::
    "(preparedRun \<Rightarrow> world \<Rightarrow> think_outcome) \<Rightarrow> nat \<Rightarrow> preparedRun \<Rightarrow> run_world \<Rightarrow> thought \<times> preparedRun \<times> run_world" where
  "executePreparedRun think inbox run w =
     (let addr = agent_addr run; task = rq_TaskID (pr_req run);
          w = registerRun addr run w;
          w = (if task = [] then w else w\<lparr>ru_world := Register_route task (Inbox inbox []) (ru_world w)\<rparr>);
          oc = think run (ru_world w);
          run = (if rq_OnActivity (pr_req run) then run\<lparr>pr_activity := pr_activity run @ oc_lines oc\<rparr> else run);
          run = (case oc_swapped oc of None \<Rightarrow> run
                 | Some (p, m) \<Rightarrow> run\<lparr>pr_cfg := (pr_cfg run)\<lparr>rc_provider := p, rc_modelID := m\<rparr>\<rparr>);
          w = w\<lparr>ru_world := oc_world oc\<rparr>;
          w = (if task = [] then w else w\<lparr>ru_world := Unregister_route task (ru_world w)\<rparr>)
      in (oc_thought oc, run, unregisterRun addr w))"

definition interpretStopReason :: "Result \<Rightarrow> int \<Rightarrow> bool \<times> string" where
  "interpretStopReason r maxSteps =
     (res_StopReason r = StopEndTurn,
      case res_StopReason r of
        StopMaxSteps \<Rightarrow>
          if 0 < res_Steps r then ''reached maximum steps ('' @ int_str (res_Steps r) @ '')''
          else if 0 < maxSteps then ''reached maximum steps ('' @ int_str maxSteps @ '')''
          else ''reached maximum steps''
      | StopMaxOutputRecoveryExhausted \<Rightarrow> ''output was repeatedly truncated and recovery was exhausted''
      | StopCancelled \<Rightarrow> ''agent cancelled''
      | StopHook \<Rightarrow> res_StopDetail r
      | StopError \<Rightarrow> res_StopDetail r
      | _ \<Rightarrow> [])"

definition persistSubagentSession :: "Executor \<Rightarrow> string \<Rightarrow> string \<Rightarrow> string \<Rightarrow> Message list \<Rightarrow> string \<times> string" where
  "persistSubagentSession e agentName modelID description msgs =
     (case ex_save e of
        None \<Rightarrow> ([], [])
      | Some save \<Rightarrow>
          if ex_parentSessionID e = [] then ([], [])
          else case save (ex_parentSessionID e) (if description = [] then agentName else description) modelID msgs of
                 None \<Rightarrow> ([], []) | Some x \<Rightarrow> x)"

definition finalizeResult :: "Executor \<Rightarrow> preparedRun \<Rightarrow> Result \<Rightarrow> bool \<Rightarrow> string \<Rightarrow> run_world \<Rightarrow> AgentResult \<times> run_world" where
  "finalizeResult e run r success errMsg w =
     (let (sessionID, path) = persistSubagentSession e (rc_displayName (pr_cfg run)) (rc_modelID (pr_cfg run))
            (rq_Description (pr_req run)) (res_Messages r)
      in (\<lparr>ar_AgentID = sessionID, ar_AgentName = ac_Name (rc_config (pr_cfg run)), ar_Model = rc_modelID (pr_cfg run),
           ar_Success = success, ar_Content = res_Content r, ar_TranscriptPath = path, ar_Messages = res_Messages r,
           ar_StepCount = res_Steps r, ar_ToolUses = res_ToolUses r, ar_InputTokens = res_InputTokens r,
           ar_OutputTokens = res_OutputTokens r, ar_Activity = pr_activity run, ar_Error = errMsg\<rparr>,
          fireSubagentStop e (pr_req run) (pr_hookID run) path (res_Content r) w))"

definition buildAgentResult :: "Executor \<Rightarrow> preparedRun \<Rightarrow> Result \<Rightarrow> run_world \<Rightarrow> AgentResult \<times> run_world" where
  "buildAgentResult e run r w =
     (let (success, errMsg) = interpretStopReason r (rc_maxSteps (pr_cfg run))
      in finalizeResult e run r success errMsg w)"

definition buildUnfinishedAgentResult ::
    "Executor \<Rightarrow> preparedRun \<Rightarrow> Result option \<Rightarrow> run_world \<Rightarrow> (AgentResult \<times> run_world) option" where
  "buildUnfinishedAgentResult e run result w =
     (case result of
        None \<Rightarrow> None
      | Some r \<Rightarrow>
          if res_StopReason r \<noteq> StopCancelled \<and> res_StopReason r \<noteq> StopError then None
          else Some (finalizeResult e run r False (snd (interpretStopReason r (rc_maxSteps (pr_cfg run)))) w))"

definition run_error_text :: "run_error \<Rightarrow> string" where
  "run_error_text err = (case err of Cancelled s \<Rightarrow> s | RunFailed s \<Rightarrow> s)"

definition wrap_error :: "string \<Rightarrow> run_error \<Rightarrow> run_error" where
  "wrap_error s err = (case err of Cancelled t \<Rightarrow> Cancelled (s @ t) | RunFailed t \<Rightarrow> RunFailed (s @ t))"

text \<open>\<open>think n\<close> is the turn of attempt \<open>n\<close>.\<close>

definition Run_worker ::
    "Executor \<Rightarrow> string \<Rightarrow> (nat \<Rightarrow> preparedRun \<Rightarrow> world \<Rightarrow> think_outcome) \<Rightarrow> nat \<Rightarrow> AgentExecRequest \<Rightarrow> run_world
     \<Rightarrow> (AgentResult option \<times> run_error option) \<times> run_world" where
  "Run_worker e shortID think inbox req w =
     (case prepareRun e shortID req of
        Inl err \<Rightarrow> ((None, Some (RunFailed err)), w)
      | Inr run \<Rightarrow>
          (let w = fireSubagentStart e (pr_req run) (pr_hookID run) w;
               (t, run, w) = executePreparedRun (think 0) inbox run w;
               (t, run, w) =
                 (case t of
                    ThinkErr _ err \<Rightarrow>
                      if shouldRetryWithParentModel (run_error_text err) (rc_modelID (pr_cfg run)) (ex_parentModelID e)
                        then executePreparedRun (think 1) inbox
                               (run\<lparr>pr_cfg := (pr_cfg run)\<lparr>rc_provider := ex_provider e, rc_modelID := ex_parentModelID e\<rparr>\<rparr>) w
                      else (t, run, w)
                  | ThinkOk _ \<Rightarrow> (t, run, w))
           in case t of
                ThinkErr result err \<Rightarrow>
                  (case buildUnfinishedAgentResult e run result w of
                     Some (unfinished, w) \<Rightarrow> ((Some unfinished, Some err), w)
                   | None \<Rightarrow> ((None, Some (wrap_error ''LLM completion failed: '' err)),
                               fireSubagentStop e (pr_req run) (pr_hookID run) [] [] w))
              | ThinkOk r \<Rightarrow> (let (result, w) = buildAgentResult e run r w in ((Some result, None), w))))"

subsection \<open>Background runs\<close>

text \<open>What the goroutine of a background run does to its task once the run is over, in the steps of \<open>BgTask\<close>.\<close>

definition finish_events :: "string \<Rightarrow> string \<Rightarrow> AgentResult option \<times> run_error option \<Rightarrow> bg_event list" where
  "finish_events i identity think_outcome =
     (case think_outcome of
        (result, Some err) \<Rightarrow>
          (case result of
             None \<Rightarrow> []
           | Some r \<Rightarrow> (if ar_Content r \<noteq> [] then [EvOutput i (ar_Content r @ [CHR 0x0A])] else [])
                @ [EvIdentity i identity (ar_AgentID r), EvSteps i (ar_StepCount r) (ar_InputTokens r + ar_OutputTokens r)])
          @ [EvOutput i (''Error: '' @ run_error_text err @ [CHR 0x0A]), EvAgentExit i (Some err)]
      | (Some r, None) \<Rightarrow>
          (if ar_Content r \<noteq> [] then [EvOutput i (ar_Content r)] else [])
          @ [EvIdentity i identity (ar_AgentID r), EvOutputFile i (ar_TranscriptPath r),
             EvSteps i (ar_StepCount r) (ar_InputTokens r + ar_OutputTokens r),
             EvAgentExit i (if ar_Success r then None else Some (RunFailed (ar_Error r)))]
      | (None, None) \<Rightarrow> [])"

text \<open>The start of one: the task, or the error.\<close>

definition RunBackground :: "Executor \<Rightarrow> bg_env \<Rightarrow> string \<Rightarrow> AgentExecRequest \<Rightarrow> world \<Rightarrow> (string + AgentExecRequest) \<times> world" where
  "RunBackground e E i req w =
     (case validateRequest req of
        Some err \<Rightarrow> (Inl err, w)
      | None \<Rightarrow>
          (case resolveRequestAgentConfig e req of
             (Some config, True) \<Rightarrow>
               (Inr (req\<lparr>rq_TaskID := i, rq_OnActivity := True\<rparr>), bg_step E (EvAgent i (ac_Name config) (rq_Description req)) w)
           | _ \<Rightarrow> (Inl (''unknown or disabled agent: '' @ rq_Agent req), w)))"

subsection \<open>Swapping the model\<close>

definition swap_targets :: "Executor \<Rightarrow> string \<Rightarrow> preparedRun \<Rightarrow> bool" where
  "swap_targets e agentName run =
     (let name = trim_space agentName;
          isWriteDefault = (name = ''Default model for write'');
          isGlobalDefault = (name = [] \<or> name = ''Default model'');
          config = rc_config (pr_cfg run)
      in if isGlobalDefault \<or> isWriteDefault
           then (let fm = trim_space (ac_Model config)
                 in (fm = [] \<or> fm = ''inherit'')
                    \<and> (isWriteDefault \<longrightarrow> ac_AllowWrite config \<or> isWriteEnabled e (ac_Name config)))
         else ac_Name config = name)"

definition swapRun :: "Executor \<Rightarrow> string \<Rightarrow> preparedRun \<Rightarrow> preparedRun" where
  "swapRun e modelRef run =
     (let config = rc_config (pr_cfg run);
          (provider, modelID) = resolveRunModel e modelRef (ac_Model config) (ac_Name config)
             (ac_AllowWrite config \<or> isWriteEnabled e (ac_Name config))
      in run\<lparr>pr_cfg := (pr_cfg run)\<lparr>rc_provider := provider, rc_modelID := modelID\<rparr>\<rparr>)"

definition SwapRunModelByName :: "Executor \<Rightarrow> string \<Rightarrow> string \<Rightarrow> run_world \<Rightarrow> nat \<times> run_world" where
  "SwapRunModelByName e agentName modelRef w =
     (length (filter (swap_targets e agentName) (gm_vals (ru_live w))),
      w\<lparr>ru_live := List.map (\<lambda>(addr, run). (addr, if swap_targets e agentName run then swapRun e modelRef run else run)) (ru_live w)\<rparr>)"

subsection \<open>The bracket of a run\<close>

lemma gm_get_del: "gm_get (gm_del k m) j = (if j = k then None else gm_get m j)"
  by (simp add: gm_get_def gm_del_def delete_conv')

lemma execute_facts:
  assumes "executePreparedRun think inbox run w = (t, run', w')"
  shows "pr_req run' = pr_req run" "pr_hookID run' = pr_hookID run" "ru_hooks w' = ru_hooks w"
    "agent_addr run' = agent_addr run" "rc_config (pr_cfg run') = rc_config (pr_cfg run)"
    "rc_permMode (pr_cfg run') = rc_permMode (pr_cfg run)"
    "gm_get (ru_live w') = (gm_get (ru_live w))(agent_addr run := (if agent_addr run = [] then gm_get (ru_live w) [] else None))"
    "rq_TaskID (pr_req run) = [] \<or> gm_get (wd_routes (ru_world w')) (rq_TaskID (pr_req run)) = None"
  using assms
  by (auto simp: executePreparedRun_def Let_def registerRun_def unregisterRun_def agent_addr_def Unregister_route_def
      gm_get_del gm.get_put fun_eq_iff split: option.splits if_splits)

lemma prepareRun_facts:
  assumes "prepareRun e shortID req = Inr run"
  shows "pr_req run = req" "pr_hookID run = ''a'' @ shortID" "agent_addr run \<noteq> []"
    "resolveRequestAgentConfig e req = (Some (rc_config (pr_cfg run)), True)"
    "rc_permMode (pr_cfg run) = requestPermissionMode e (rc_config (pr_cfg run)) req"
    "(rc_provider (pr_cfg run), rc_modelID (pr_cfg run))
       = resolveRunModel e (rq_Model req) (ac_Model (rc_config (pr_cfg run))) (ac_Name (rc_config (pr_cfg run)))
           (ac_AllowWrite (rc_config (pr_cfg run)) \<or> isWriteEnabled e (ac_Name (rc_config (pr_cfg run))))"
    "0 \<le> rc_maxSteps (pr_cfg run)" "rc_maxSteps (pr_cfg run) = 0 \<or> minMaxSteps \<le> rc_maxSteps (pr_cfg run)"
proof -
  obtain config where c: "resolveRequestAgentConfig e req = (Some config, True)" and run: "prepareRunConfig e req = Inr (pr_cfg run)"
      "run = \<lparr>pr_req = req, pr_cfg = pr_cfg run, pr_hookID = ''a'' @ shortID, pr_activity = []\<rparr>"
    using assms by (auto simp: prepareRun_def prepareRunConfig_def split: option.splits if_splits sum.splits prod.splits bool.splits)
  obtain p m where r: "resolveRunModel e (rq_Model req) (ac_Model config) (ac_Name config)
      (ac_AllowWrite config \<or> isWriteEnabled e (ac_Name config)) = (p, m)" by fastforce
  note cfg = run(1) [unfolded prepareRunConfig_def c, simplified, unfolded r Let_def, simplified]
  show "pr_req run = req" "pr_hookID run = ''a'' @ shortID" by (subst run(2), simp)+
  then show "agent_addr run \<noteq> []" by (simp add: agent_addr_def)
  show "resolveRequestAgentConfig e req = (Some (rc_config (pr_cfg run)), True)" unfolding c by (simp flip: cfg)
  show "rc_permMode (pr_cfg run) = requestPermissionMode e (rc_config (pr_cfg run)) req" by (simp flip: cfg)
  show "(rc_provider (pr_cfg run), rc_modelID (pr_cfg run))
       = resolveRunModel e (rq_Model req) (ac_Model (rc_config (pr_cfg run))) (ac_Name (rc_config (pr_cfg run)))
           (ac_AllowWrite (rc_config (pr_cfg run)) \<or> isWriteEnabled e (ac_Name (rc_config (pr_cfg run))))"
    by (simp add: r flip: cfg)
  show "0 \<le> rc_maxSteps (pr_cfg run)" "rc_maxSteps (pr_cfg run) = 0 \<or> minMaxSteps \<le> rc_maxSteps (pr_cfg run)"
    by (simp_all add: minMaxSteps_def flip: cfg)
qed

lemma fireSubagentStop_frame [simp]:
  "ru_live (fireSubagentStop e req i path content w) = ru_live w"
  "ru_world (fireSubagentStop e req i path content w) = ru_world w"
  "ru_hooks (fireSubagentStop e req i path content w)
     = ru_hooks w @ (if ex_hooks e then [SubagentStop (trim_space (rq_Agent req)) i path content] else [])"
  by (simp_all add: fireSubagentStop_def)

lemma fireSubagentStart_frame [simp]:
  "ru_live (fireSubagentStart e req i w) = ru_live w" "ru_world (fireSubagentStart e req i w) = ru_world w"
  "ru_hooks (fireSubagentStart e req i w)
     = ru_hooks w @ (if ex_hooks e then [SubagentStart (trim_space (rq_Agent req)) i (rq_Description req)] else [])"
  by (simp_all add: fireSubagentStart_def)

lemma finalizeResult_frame:
  "finalizeResult e run r success msg w = (x, w') \<Longrightarrow>
     ar_Success x = success \<and> (\<exists>path content. w' = fireSubagentStop e (pr_req run) (pr_hookID run) path content w)"
  unfolding finalizeResult_def by (auto split: prod.splits)

text \<open>The last part of a run, after its turns.\<close>

definition conclude :: "Executor \<Rightarrow> thought \<times> preparedRun \<times> run_world \<Rightarrow> (AgentResult option \<times> run_error option) \<times> run_world" where
  "conclude e x =
     (case x of (t, run, w) \<Rightarrow>
        (case t of
           ThinkErr result err \<Rightarrow>
             (case buildUnfinishedAgentResult e run result w of
                Some (unfinished, w) \<Rightarrow> ((Some unfinished, Some err), w)
              | None \<Rightarrow> ((None, Some (wrap_error ''LLM completion failed: '' err)),
                          fireSubagentStop e (pr_req run) (pr_hookID run) [] [] w))
         | ThinkOk r \<Rightarrow> (let (result, w) = buildAgentResult e run r w in ((Some result, None), w))))"

lemma conclude_facts:
  assumes "conclude e (t, run, w) = ((res, err), w')"
  shows "\<exists>path content. w' = fireSubagentStop e (pr_req run) (pr_hookID run) path content w"
    "err = None \<longleftrightarrow> (\<exists>r. t = ThinkOk r)" "res = None \<Longrightarrow> err \<noteq> None"
  using assms
  by (auto simp: conclude_def buildAgentResult_def buildUnfinishedAgentResult_def
      dest: finalizeResult_frame split: thought.splits option.splits prod.splits if_splits)

definition second_try ::
    "Executor \<Rightarrow> (nat \<Rightarrow> preparedRun \<Rightarrow> world \<Rightarrow> think_outcome) \<Rightarrow> nat \<Rightarrow> thought \<times> preparedRun \<times> run_world \<Rightarrow> thought \<times> preparedRun \<times> run_world" where
  "second_try e think inbox x =
     (case x of (t, run, w) \<Rightarrow>
        (case t of
           ThinkErr _ err \<Rightarrow>
             if shouldRetryWithParentModel (run_error_text err) (rc_modelID (pr_cfg run)) (ex_parentModelID e)
               then executePreparedRun (think 1) inbox
                      (run\<lparr>pr_cfg := (pr_cfg run)\<lparr>rc_provider := ex_provider e, rc_modelID := ex_parentModelID e\<rparr>\<rparr>) w
             else x
         | ThinkOk _ \<Rightarrow> x))"

lemma Run_worker_parts:
  "Run_worker e shortID think inbox req w =
     (case prepareRun e shortID req of
        Inl err \<Rightarrow> ((None, Some (RunFailed err)), w)
      | Inr run \<Rightarrow> conclude e (second_try e think inbox
          (executePreparedRun (think 0) inbox run (fireSubagentStart e (pr_req run) (pr_hookID run) w))))"
  by (auto simp: Run_worker_def conclude_def second_try_def Let_def split: sum.split prod.split thought.split option.split)

definition left_behind :: "preparedRun \<Rightarrow> run_world \<Rightarrow> run_world \<Rightarrow> bool" where
  "left_behind run w w' \<longleftrightarrow> gm_get (ru_live w') \<noteq> (gm_get (ru_live w))(agent_addr run := None)
     \<or> (rq_TaskID (pr_req run) \<noteq> [] \<and> gm_get (wd_routes (ru_world w')) (rq_TaskID (pr_req run)) \<noteq> None)"

lemma tries_facts:
  assumes "agent_addr run \<noteq> []" and "second_try e think inbox (executePreparedRun (think 0) inbox run w) = (t, run', w')"
  shows "pr_req run' = pr_req run \<and> pr_hookID run' = pr_hookID run \<and> ru_hooks w' = ru_hooks w \<and> \<not> left_behind run w w'"
proof -
  obtain t1 run1 w1 where x: "executePreparedRun (think 0) inbox run w = (t1, run1, w1)" by (metis prod_cases3)
  note f = execute_facts [OF x]
  let ?again = "run1\<lparr>pr_cfg := (pr_cfg run1)\<lparr>rc_provider := ex_provider e, rc_modelID := ex_parentModelID e\<rparr>\<rparr>"
  have "(t1, run1, w1) = (t, run', w') \<or> executePreparedRun (think 1) inbox ?again w1 = (t, run', w')"
    using assms(2) by (auto simp: second_try_def x split: thought.splits if_splits)
  then show ?thesis
  proof
    assume "(t1, run1, w1) = (t, run', w')"
    then show ?thesis using f assms(1) by (auto simp: left_behind_def)
  next
    assume y: "executePreparedRun (think 1) inbox ?again w1 = (t, run', w')"
    have a: "agent_addr ?again = agent_addr run" "pr_req ?again = pr_req run" "pr_hookID ?again = pr_hookID run"
      using f by (simp_all add: agent_addr_def)
    show ?thesis using execute_facts [OF y] f assms(1) by (auto simp: left_behind_def a)
  qed
qed

lemma run_result: "fst (Run_worker e shortID think inbox req w) \<noteq> (None, None)"
proof (cases "prepareRun e shortID req")
  case (Inr run)
  obtain t run' w1 where s: "second_try e think inbox (executePreparedRun (think 0) inbox run
      (fireSubagentStart e (pr_req run) (pr_hookID run) w)) = (t, run', w1)" by (metis prod_cases3)
  obtain res err w' where c: "conclude e (t, run', w1) = ((res, err), w')" by (metis surj_pair)
  show ?thesis using conclude_facts(3) [OF c] by (auto simp: Run_worker_parts Inr s c)
qed (simp add: Run_worker_parts)

text \<open>
  Every run is bracketed: a request that cannot be prepared leaves no trace; any other fires one start
  and, however its turns end, one stop with the same id, unregisters what it registered, and returns a
  result or an error.
\<close>

theorem every_run_is_bracketed:
  "case Run_worker e shortID think inbox req w of ((res, err), w') \<Rightarrow>
     (case prepareRun e shortID req of
        Inl reason \<Rightarrow> (res, err) = (None, Some (RunFailed reason)) \<and> w' = w
      | Inr run \<Rightarrow>
          (\<exists>path content. ru_hooks w' = ru_hooks w @ (if ex_hooks e
             then [SubagentStart (trim_space (rq_Agent req)) (pr_hookID run) (rq_Description req),
                   SubagentStop (trim_space (rq_Agent req)) (pr_hookID run) path content] else []))
          \<and> \<not> left_behind run w w' \<and> (res, err) \<noteq> (None, None))"
proof (cases "prepareRun e shortID req")
  case (Inl err)
  then show ?thesis by (simp add: Run_worker_parts)
next
  case (Inr run)
  note p = prepareRun_facts [OF Inr]
  obtain t run' w1 where s: "second_try e think inbox (executePreparedRun (think 0) inbox run
      (fireSubagentStart e (pr_req run) (pr_hookID run) w)) = (t, run', w1)" by (metis prod_cases3)
  obtain res err w' where c: "conclude e (t, run', w1) = ((res, err), w')" by (metis surj_pair)
  note tr = tries_facts [OF p(3) s] and cf = conclude_facts [OF c]
  from cf(1) obtain path content where w': "w' = fireSubagentStop e (pr_req run') (pr_hookID run') path content w1" by blast
  have r: "Run_worker e shortID think inbox req w = ((res, err), w')" by (simp add: Run_worker_parts Inr s c)
  have nb: "\<not> left_behind run w w'" using tr by (simp add: left_behind_def w')
  have "ru_hooks w' = ru_hooks w @ (if ex_hooks e
      then [SubagentStart (trim_space (rq_Agent req)) (pr_hookID run) (rq_Description req),
            SubagentStop (trim_space (rq_Agent req)) (pr_hookID run) path content] else [])"
    using tr p(1) by (simp add: w')
  then show ?thesis using nb cf(3) unfolding r Inr by auto
qed

subsection \<open>Mode and model\<close>

text \<open>
  A request to explore is a ceiling: whatever the definition, its switches and the mode of the session
  say, the run it starts permits nothing but reading, messages, skills and commands of the read-only kind.
\<close>

theorem requested_explore_only_reads:
  assumes "prepareRun e shortID req = Inr run" and "trim_space (rq_Mode req) = ''explore''"
    and "fst (subagentPermissionFunc S (rc_permMode (pr_cfg run)) allow deny name args)"
  shows "IsSafeTool name \<or> IsMCPReadOnlyTool name \<or> name = ''SendMessage'' \<or> name = ''Skill''
    \<or> (name = ''Bash'' \<and> IsReadOnlyBashCommand S (explore_command args))"
proof -
  have "NormalizePermissionMode PermissionExplore = PermissionExplore" by code_simp
  moreover have "rc_permMode (pr_cfg run) = PermissionExplore"
    using prepareRun_facts(5) [OF assms(1)] assms(2) by (simp add: requestPermissionMode_def)
  ultimately show ?thesis using explore_gate_reads [OF assms(3)] by simp
qed

lemma route_model_cases:
  "route_model e ref = (ex_provider e, ex_parentModelID e)
   \<or> (\<exists>m. route_model e ref = (ex_provider e, m) \<and> m = resolveModelAlias ref \<and> (m = ex_parentModelID e \<or> cachedCatalogAllowsModel e m))
   \<or> (\<exists>vendor m resolve p. route_model e ref = (Some p, m) \<and> ParseVendorModel (ex_isProvider e) ref = Some (vendor, m)
        \<and> ex_resolver e = Some resolve \<and> resolve vendor = Some p
        \<and> (vendor = ex_parentProviderName e \<longrightarrow> m = ex_parentModelID e \<or> cachedCatalogAllowsModel e m))"
  by (auto simp: route_model_def Let_def split: option.split prod.split)

text \<open>
  The connection of a run is one that can serve it: the parent's with the parent's own model or with
  one that its catalog does not deny, or a vendor that could be resolved, with the model named for it.
\<close>

theorem run_uses_a_reachable_model:
  assumes "prepareRun e shortID req = Inr run"
  shows "(rc_provider (pr_cfg run) = ex_provider e
      \<and> (rc_modelID (pr_cfg run) = ex_parentModelID e \<or> cachedCatalogAllowsModel e (rc_modelID (pr_cfg run))))
    \<or> (\<exists>vendor ref resolve. ParseVendorModel (ex_isProvider e) ref = Some (vendor, rc_modelID (pr_cfg run))
        \<and> ex_resolver e = Some resolve \<and> resolve vendor = rc_provider (pr_cfg run) \<and> resolve vendor \<in> range Some)"
proof -
  define ref where "ref = model_ref e (rq_Model req) (ac_Model (rc_config (pr_cfg run))) (ac_Name (rc_config (pr_cfg run)))
    (ac_AllowWrite (rc_config (pr_cfg run)) \<or> isWriteEnabled e (ac_Name (rc_config (pr_cfg run))))"
  have "(rc_provider (pr_cfg run), rc_modelID (pr_cfg run)) = route_model e ref"
    using prepareRun_facts(6) [OF assms] by (simp add: resolveRunModel_def ref_def)
  then have r: "route_model e ref = (rc_provider (pr_cfg run), rc_modelID (pr_cfg run))" by simp
  from route_model_cases [of e ref] show ?thesis
    unfolding r
  proof (elim disjE exE conjE)
    fix vendor m resolve p
    assume "(rc_provider (pr_cfg run), rc_modelID (pr_cfg run)) = (Some p, m)" "ex_resolver e = Some resolve"
      "resolve vendor = Some p" "ParseVendorModel (ex_isProvider e) ref = Some (vendor, m)"
    then show ?thesis by (intro disjI2 exI [where x = vendor] exI [where x = ref] exI [where x = resolve]) simp
  qed auto
qed

text \<open>The order in which a reference is looked for, where no level says \<open>inherit\<close>.\<close>

lemma model_by_priority:
  assumes "ex_override e = Some f" and "f agentName = (override, def, writeDef)"
    and "\<forall>s\<in>{requestModel, override, configModel}. trim_space s \<noteq> ''inherit''"
  shows "trim_space requestModel \<noteq> [] \<Longrightarrow> model_ref e requestModel configModel agentName wr = trim_space requestModel"
    "trim_space requestModel = [] \<Longrightarrow> model_ref e requestModel configModel agentName wr
       = (if trim_space override \<noteq> [] then trim_space override
          else if trim_space configModel \<noteq> [] then trim_space configModel
          else if wr \<and> trim_space writeDef \<noteq> [] then trim_space writeDef else trim_space def)"
  using assms by (auto simp: model_ref_def Let_def)
subsection \<open>The end of a background run\<close>

lemma step_on:
  assumes "Get_task w i = Some t" and "bt_ID t = i"
  shows "Get_task (bg_step E (EvOutput i b) w) i = Some (t\<lparr>bt_output := appendCapped maxOutputBufferSize (bt_output t) b\<rparr>)"
    "Get_task (bg_step E (EvIdentity i name s) w) i
       = Some (t\<lparr>bt_AgentName := name, bt_SessionID := (if s \<noteq> [] then s else bt_SessionID t)\<rparr>)"
    "Get_task (bg_step E (EvOutputFile i path) w) i = Some (if path \<noteq> [] \<and> bt_OutputFile t = [] then t\<lparr>bt_OutputFile := path\<rparr> else t)"
    "Get_task (bg_step E (EvSteps i k tokens) w) i = Some (t\<lparr>bt_StepCount := k, bt_TokenUsage := tokens\<rparr>)"
  using assms
  by (auto simp: bg_step_def with_task_def AppendOutput_def SetIdentity_def SetOutputFile_def UpdateProgress_def Let_def
      Get_task_def put_task_def gm.get_put)

definition end_status :: "run_error option \<Rightarrow> string" where
  "end_status err = (case err of None \<Rightarrow> TaskCompleted | Some (Cancelled s) \<Rightarrow> StatusStopped | Some (RunFailed s) \<Rightarrow> StatusFailed)"

lemma step_exit:
  assumes "Get_task w i = Some t" and "bt_ID t = i" and "bt_status t = StatusRunning"
  shows "\<exists>u. Get_task (bg_step E (EvAgentExit i err) w) i = Some u \<and> bt_status u = end_status err
    \<and> bt_output u = bt_output t \<and> i \<in> set (wd_pending (bg_step E (EvAgentExit i err) w))"
  using assms
  by (auto simp: bg_step_def with_task_def Complete_agent_def finalize_def end_status_def Get_task_def put_task_def gm.get_put
      split: option.split run_error.split)

definition report_of :: "AgentResult option \<times> run_error option \<Rightarrow> string" where
  "report_of oc =
     (case oc of
        (res, Some err) \<Rightarrow> (case res of Some r \<Rightarrow> (if ar_Content r \<noteq> [] then ar_Content r @ [CHR 0x0A] else []) | None \<Rightarrow> [])
          @ ''Error: '' @ run_error_text err @ [CHR 0x0A]
      | (Some r, None) \<Rightarrow> ar_Content r
      | _ \<Rightarrow> [])"

definition run_end :: "AgentResult option \<times> run_error option \<Rightarrow> run_error option" where
  "run_end oc = (case oc of (res, Some err) \<Rightarrow> Some err
     | (Some r, None) \<Rightarrow> (if ar_Success r then None else Some (RunFailed (ar_Error r))) | _ \<Rightarrow> None)"

fun touches :: "string \<Rightarrow> bg_event \<Rightarrow> bool" where
  "touches i (EvOutput j b) \<longleftrightarrow> j = i"
| "touches i (EvIdentity j name s) \<longleftrightarrow> j = i"
| "touches i (EvOutputFile j path) \<longleftrightarrow> j = i"
| "touches i (EvSteps j k tokens) \<longleftrightarrow> j = i"
| "touches i ev \<longleftrightarrow> False"

fun outputs :: "bg_event list \<Rightarrow> string list" where
  "outputs [] = []"
| "outputs (EvOutput j b # evs) = b # outputs evs"
| "outputs (ev # evs) = outputs evs"

lemma touch_one:
  assumes "Get_task w i = Some t" and "bt_ID t = i" and "touches i ev"
  shows "\<exists>u. Get_task (bg_step E ev w) i = Some u \<and> bt_ID u = i \<and> bt_status u = bt_status t
    \<and> bt_output u = fold (\<lambda>d b. appendCapped maxOutputBufferSize b d) (outputs [ev]) (bt_output t)"
  using assms(3) step_on [OF assms(1,2)] assms(2) by (cases ev) auto

lemma outputs_Cons: "outputs (ev # evs) = outputs [ev] @ outputs evs"
  by (cases ev) simp_all

lemma touch_run:
  "Get_task w i = Some t \<Longrightarrow> bt_ID t = i \<Longrightarrow> list_all (touches i) evs \<Longrightarrow>
     \<exists>u. Get_task (bg_run (List.map (Pair E) evs) w) i = Some u \<and> bt_ID u = i \<and> bt_status u = bt_status t
       \<and> bt_output u = fold (\<lambda>d b. appendCapped maxOutputBufferSize b d) (outputs evs) (bt_output t)"
proof (induction evs arbitrary: w t)
  case (Cons ev evs)
  obtain u where u: "Get_task (bg_step E ev w) i = Some u" "bt_ID u = i" "bt_status u = bt_status t"
      "bt_output u = fold (\<lambda>d b. appendCapped maxOutputBufferSize b d) (outputs [ev]) (bt_output t)"
    using touch_one [of w i t ev E] Cons.prems by auto
  have "list_all (touches i) evs" using Cons.prems(3) by simp
  from Cons.IH [OF u(1,2) this] u(3,4) outputs_Cons [of ev evs] show ?case by auto
qed simp

lemma fold_capped:
  "fold (\<lambda>d b. appendCapped (int cap) b d) ds buf
     = (if ds = [] then buf else drop (length (buf @ concat ds) - cap) (buf @ concat ds))"
proof (induction ds rule: rev_induct)
  case (snoc d ds)
  show ?case
  proof (cases "ds = []")
    case False
    then have "fold (\<lambda>d b. appendCapped (int cap) b d) (ds @ [d]) buf
        = appendCapped (int cap) (drop (length (buf @ concat ds) - cap) (buf @ concat ds)) d"
      using snoc by (simp del: drop_append)
    also have "\<dots> = drop (length ((buf @ concat ds) @ d) - cap) ((buf @ concat ds) @ d)"
      unfolding appendCapped_drop by (rule drop_drop_tail)
    finally show ?thesis by (simp del: drop_append)
  qed (simp add: appendCapped_drop)
qed simp

lemma bg_run_append: "bg_run (xs @ ys) w = bg_run ys (bg_run xs w)"
  by (induction xs arbitrary: w) auto

lemma finish_split:
  assumes "oc \<noteq> (None, None)"
  shows "\<exists>pre. finish_events i identity oc = pre @ [EvAgentExit i (run_end oc)] \<and> list_all (touches i) pre
    \<and> concat (outputs pre) = report_of oc"
  using assms
  by (cases oc; cases "fst oc"; cases "snd oc") (auto simp: finish_events_def run_end_def report_of_def)

text \<open>
  A background run ends its task as it ended itself, whatever the model did: completed when the agent
  finished its turn, stopped when it was cancelled, failed otherwise; the task then holds the last bytes
  of its report, the error included, and its announcement is due.
\<close>

theorem background_run_ends_its_task:
  assumes "reachable w" and "Get_task w i = Some t" and "bt_status t = StatusRunning"
    and "Run_worker e shortID think inbox req rw = (oc, rw')"
  shows "\<exists>u. Get_task (bg_run (List.map (Pair E) (finish_events i identity oc)) w) i = Some u
    \<and> bt_status u = end_status (run_end oc)
    \<and> (report_of oc = [] \<or> bt_output u = drop (length (bt_output t @ report_of oc) - 524288) (bt_output t @ report_of oc))
    \<and> i \<in> set (wd_pending (bg_run (List.map (Pair E) (finish_events i identity oc)) w))"
proof -
  have "oc \<noteq> (None, None)"
    using run_result [of e shortID think inbox req rw] assms(4) by auto
  from finish_split [OF this, of i identity] obtain pre where pre: "finish_events i identity oc = pre @ [EvAgentExit i (run_end oc)]"
      "list_all (touches i) pre" "concat (outputs pre) = report_of oc" by blast
  let ?v = "bg_run (List.map (Pair E) pre) w"
  have run: "bg_run (List.map (Pair E) (finish_events i identity oc)) w = bg_step E (EvAgentExit i (run_end oc)) ?v"
    by (simp add: pre(1) bg_run_append)
  obtain u where u: "Get_task ?v i = Some u" "bt_ID u = i" "bt_status u = bt_status t"
      "bt_output u = fold (\<lambda>d b. appendCapped maxOutputBufferSize b d) (outputs pre) (bt_output t)"
    using touch_run [OF assms(2) reachable_id [OF assms(1,2)] pre(2)] by blast
  have c: "maxOutputBufferSize = int 524288" by (simp add: maxOutputBufferSize_def)
  have out: "report_of oc = [] \<or> bt_output u = drop (length (bt_output t @ report_of oc) - 524288) (bt_output t @ report_of oc)"
  proof (cases "outputs pre = []")
    case True
    then show ?thesis using pre(3) by simp
  next
    case False
    then show ?thesis unfolding u(4) c fold_capped pre(3) by simp
  qed
  from step_exit [OF u(1,2), of E "run_end oc"] u(3) assms(3) out show ?thesis unfolding run by auto
qed

subsection \<open>Swaps\<close>

lemma map_of_swap: "map_of (List.map (\<lambda>(k, v). (k, f v)) xs) k = map_option f (map_of xs k)"
  by (simp add: map_of_map)

lemma swap_touches_its_targets:
  "gm_get (ru_live (snd (SwapRunModelByName e agentName modelRef w))) addr
     = map_option (\<lambda>run. if swap_targets e agentName run then swapRun e modelRef run else run) (gm_get (ru_live w) addr)"
  by (simp only: SwapRunModelByName_def snd_conv gm_get_def run_world.select_convs run_world.update_convs map_of_swap
      run_world.surjective) (cases w, simp add: map_of_swap)
subsection \<open>Examples\<close>

definition shop :: Executor where
  "shop = \<lparr>ex_provider = Some ''anthropic'', ex_registry = Some shelved, ex_resolver = Some (\<lambda>v. if v = ''deepseek'' then Some v else None),
     ex_isProvider = \<lambda>v. v = ''deepseek'' \<or> v = ''openai'', ex_catalog = None, ex_parentProviderName = [],
     ex_parentModelID = ''claude-opus-4-7'', ex_parentMode = None, ex_override = Some (\<lambda>n. (''haiku'', ''sonnet'', [])),
     ex_hooks = True, ex_save = None, ex_parentSessionID = [], ex_body = \<lambda>p. [], ex_skill = None,
     ex_shortName = \<lambda>n m. n, ex_recursionDepth = 0, ex_maxRecursionDepth = 0\<rparr>"

definition explore_ask :: AgentExecRequest where
  "explore_ask = \<lparr>rq_Agent = ''reviewer'', rq_ResolvedAgentConfig = NoConfig, rq_Prompt = ''look'', rq_Description = ''check'', rq_Model = [],
     rq_MaxSteps = 3, rq_Mode = ''explore'', rq_Complexity = [], rq_TaskID = [], rq_OnActivity = False\<rparr>"

definition ended_turn :: "StopReason \<Rightarrow> string \<Rightarrow> Result" where
  "ended_turn stop content = \<lparr>res_Content = content, res_Messages = [], res_Steps = 2, res_ToolUses = 1, res_InputTokens = 10,
     res_OutputTokens = 5, res_StopReason = stop, res_StopDetail = []\<rparr>"

definition calm :: "thought \<Rightarrow> nat \<Rightarrow> preparedRun \<Rightarrow> world \<Rightarrow> think_outcome" where
  "calm t n run w = \<lparr>oc_thought = t, oc_lines = [], oc_swapped = None, oc_world = w\<rparr>"

definition hall :: run_world where
  "hall = \<lparr>ru_hooks = [], ru_live = gm_empty, ru_world = idle_world\<rparr>"

lemma explore_run: "\<exists>run. prepareRun shop ''1'' explore_ask = Inr run \<and> rc_modelID (pr_cfg run) = ''claude-haiku-4-5'' \<and> rc_maxSteps (pr_cfg run) = 10
    \<and> rc_provider (pr_cfg run) = Some ''anthropic''"
proof -
  have "(case prepareRun shop ''1'' explore_ask of Inl e \<Rightarrow> False | Inr run \<Rightarrow> rc_modelID (pr_cfg run) = ''claude-haiku-4-5''
      \<and> rc_maxSteps (pr_cfg run) = 10 \<and> rc_provider (pr_cfg run) = Some ''anthropic'')" by code_simp
  then show ?thesis by (auto split: sum.splits)
qed

lemma requested_explore_only_reads_witness:
  "IsSafeTool ''Read'' \<or> IsMCPReadOnlyTool ''Read''"
proof -
  obtain run where r: "prepareRun shop ''1'' explore_ask = Inr run" using explore_run by blast
  have m: "trim_space (rq_Mode explore_ask) = ''explore''" by code_simp
  have "rc_permMode (pr_cfg run) = PermissionExplore"
    using prepareRun_facts(5) [OF r] m by (simp add: requestPermissionMode_def)
  moreover have "fst (subagentPermissionFunc Permission.demo_env PermissionExplore None None ''Read'' Map.empty)" by code_simp
  ultimately have g: "fst (subagentPermissionFunc Permission.demo_env (rc_permMode (pr_cfg run)) None None ''Read'' Map.empty)" by simp
  from requested_explore_only_reads [OF r m g] show ?thesis by simp
qed

lemma run_uses_a_reachable_model_witness:
  "\<exists>run. prepareRun shop ''1'' explore_ask = Inr run \<and> rc_provider (pr_cfg run) = ex_provider shop
     \<and> cachedCatalogAllowsModel shop (rc_modelID (pr_cfg run))"
proof -
  obtain run where r: "prepareRun shop ''1'' explore_ask = Inr run" "rc_modelID (pr_cfg run) = ''claude-haiku-4-5''"
      "rc_provider (pr_cfg run) = Some ''anthropic''"
    using explore_run by blast
  have "ex_resolver shop = Some resolve \<Longrightarrow> resolve vendor = Some ''anthropic'' \<Longrightarrow> False" for resolve vendor
    by (auto simp: shop_def split: if_splits)
  with run_uses_a_reachable_model [OF r(1)] r show ?thesis
    by (auto simp: cachedCatalogAllowsModel_def shop_def)
qed

definition reviewing :: world where
  "reviewing = bg_run [(desk, EvAgent ''w1'' ''reviewer'' ''check'')] idle_world"

definition finished_run :: "(AgentResult option \<times> run_error option) \<times> run_world" where
  "finished_run = Run_worker shop ''1'' (calm (ThinkOk (ended_turn StopMaxSteps ''half''))) 8 (explore_ask\<lparr>rq_TaskID := ''w1''\<rparr>) hall"

lemma background_run_ends_its_task_witness:
  "\<exists>u. Get_task (bg_run (List.map (Pair desk) (finish_events ''w1'' ''reviewer'' (fst finished_run))) reviewing) ''w1'' = Some u
    \<and> bt_status u = StatusFailed"
proof -
  have "all_enabled [(desk, EvAgent ''w1'' ''reviewer'' ''check'')] idle_world" by code_simp
  then have r: "reachable reviewing" unfolding reviewing_def by (rule reachable_run [OF reachable.start [OF idle_world_start]])
  have "map_option bt_status (Get_task reviewing ''w1'') = Some StatusRunning" by code_simp
  then obtain t where t: "Get_task reviewing ''w1'' = Some t" "bt_status t = StatusRunning" by auto
  have d: "Run_worker shop ''1'' (calm (ThinkOk (ended_turn StopMaxSteps ''half''))) 8 (explore_ask\<lparr>rq_TaskID := ''w1''\<rparr>) hall
      = (fst finished_run, snd finished_run)" by (simp add: finished_run_def)
  have "end_status (run_end (fst finished_run)) = StatusFailed" by code_simp
  with background_run_ends_its_task [OF r t d, where E = desk and identity = "''reviewer''"] show ?thesis by auto
qed

text \<open>A message delivered after the last step of a run is reported as read at the next one, and lost.\<close>

definition late_letter :: "nat \<Rightarrow> preparedRun \<Rightarrow> world \<Rightarrow> think_outcome" where
  "late_letter n run w = \<lparr>oc_thought = ThinkOk (ended_turn StopEndTurn ''done''), oc_lines = [], oc_swapped = None,
     oc_world = snd (SendMessage_execute [] ''w1'' ''wait'' w)\<rparr>"

lemma late_message_is_lost:
  "(let w = Register_route ''w1'' (Inbox 8 []) idle_world in
      \<exists>report. fst (SendMessage_execute [] ''w1'' ''wait'' w) = Inr report)
   \<and> gm_get (wd_routes (ru_world (snd (Run_worker shop ''1'' late_letter 8 (explore_ask\<lparr>rq_TaskID := ''w1''\<rparr>) hall)))) ''w1'' = None
   \<and> wd_notices (ru_world (snd (Run_worker shop ''1'' late_letter 8 (explore_ask\<lparr>rq_TaskID := ''w1''\<rparr>) hall))) = []"
proof (intro conjI)
  have "\<not> isl (fst (SendMessage_execute [] ''w1'' ''wait'' (Register_route ''w1'' (Inbox 8 []) idle_world)))" by code_simp
  then show "let w = Register_route ''w1'' (Inbox 8 []) idle_world in \<exists>report. fst (SendMessage_execute [] ''w1'' ''wait'' w) = Inr report"
    by (auto simp: isl_def Let_def) (metis sum.exhaust_sel)
qed code_simp+

text \<open>A swap of the default model reaches a run whose model the settings pin for its agent.\<close>

definition pinned_run :: preparedRun where
  "pinned_run = (case prepareRun shop ''1'' explore_ask of Inr run \<Rightarrow> run | Inl e \<Rightarrow> \<lparr>pr_req = explore_ask,
     pr_cfg = \<lparr>rc_config = blank_config, rc_provider = None, rc_modelID = [], rc_maxSteps = 0, rc_displayName = [],
       rc_brief = buildBriefWithComplexity shop blank_config [] [], rc_permMode = [], rc_complexity = []\<rparr>,
     pr_hookID = [], pr_activity = []\<rparr>)"

lemma default_swap_reaches_pinned_runs:
  "rc_modelID (pr_cfg pinned_run) = ''claude-haiku-4-5''
   \<and> map_option (\<lambda>run. rc_modelID (pr_cfg run))
       (gm_get (ru_live (snd (SwapRunModelByName shop ''Default model'' ''sonnet'' (registerRun ''a1'' pinned_run hall)))) ''a1'')
     = Some ''claude-sonnet-4-6''"
  by code_simp

text \<open>A swap to a vendor that cannot be resolved silently puts the run on the parent's model.\<close>

lemma failed_swap_falls_back:
  "rc_modelID (pr_cfg (swapRun shop ''openai/gpt-5'' pinned_run)) = ''claude-opus-4-7''"
  by code_simp

text \<open>What the user approves and what runs; and a definition that explores can be asked to edit.\<close>

lemma approved_mode_is_not_the_mode:
  "effectivePermissionMode [] PermissionDefault = PermissionDefault
   \<and> requestPermissionMode shop (blank_config\<lparr>ac_Name := ''w'', ac_AllowWrite := True, ac_PermissionMode := PermissionDefault\<rparr>)
       (explore_ask\<lparr>rq_Mode := []\<rparr>) = PermissionAcceptEdits"
  by code_simp

lemma explorer_can_be_asked_to_edit:
  "requestPermissionMode shop (blank_config\<lparr>ac_Name := ''researcher'', ac_PermissionMode := PermissionExplore\<rparr>)
     (explore_ask\<lparr>rq_Mode := ''edit''\<rparr>) = PermissionAcceptEdits"
  by code_simp

end
