(* ===== verification/Spec2Isabelle.thy ===== *)
theory Spec2Isabelle
  imports AgentLatch TaskGraph GraphFuse CronStore Recorder Risk Autopilot WorkerRun
begin

text \<open>
  Verification of the core of packboy-builder, a coding agent for the terminal written in Go.  All
  paths below are under \<open>src/internal\<close>.

  \<^bold>\<open>The program and its parts.\<close>  A user message reaches the agent (\<open>core\<close>), whose main loop runs
  turns: it asks a language model for the next step, executes the tool calls of the answer and feeds
  the results back.  Every tool call passes the permission gate (\<open>setting\<close>), which decides by rules,
  the mode of the session and an analysis of shell commands whether it runs, is refused or is put to
  the user, with a label of its risk (\<open>tool/risk\<close>).  The events of the agent go to the recorder
  (\<open>session/recorder.go\<close>), which writes them to the transcript of the session
  (\<open>session/transcript\<close>); the session store (\<open>session/store.go\<close>) saves, lists, forks and resumes
  sessions over the same files.  Beside this core stand the task list with its background workers
  (\<open>todo\<close>), the scheduler of recurring prompts (\<open>cron\<close>) and the knowledge graph with its task graph
  (\<open>graph\<close>).

  \<^bold>\<open>Conventions\<close> (theories \<open>Prelude\<close>, \<open>Collections\<close>).  Go strings are byte lists.  A Go map is an
  association list with distinct keys, whose order stands for one iteration order, so that a theorem
  about every such list holds for every order; the locale \<open>go_map\<close> of \<open>Collections\<close> states the laws of
  the operations and is interpreted on them.  A method on a pointer receiver becomes a function from
  the state to the result and the next state; errors are \<open>Inl\<close> or \<open>Some message\<close> and keep the texts
  of the source where code looks at them.  What the code asks of the outside -- the clock, random
  ids, the file system, the model, the tools, the parser of shell syntax -- are the fields of an
  environment record of the component, so that the theorems hold for every behaviour of it.  Code
  between a lock and its unlock is one step.  Integers are unbounded where the code counts, and wrap
  where it converts (\<open>wrap64\<close>, words in \<open>CronStore\<close>).

  \<^bold>\<open>Permission.\<close>  \<open>Glob\<close>: the pattern language of rules, with the iterative wildcard matcher against
  its recursive definition.  \<open>Posture\<close>: modes, denial counters and the session's allowances
  (\<open>setting/settings.go\<close>, \<open>tool/perm\<close>).  \<open>BashAst\<close>: the walk over a parsed command
  (\<open>setting/bash_ast.go\<close>).  \<open>Shell\<close>, \<open>ShellPolicy\<close>: what counts as destructive or read-only
  (\<open>setting/security.go\<close>, \<open>bash_ast.go\<close>).  \<open>Permission\<close>: the decision pipeline
  (\<open>setting/permission.go\<close>).  The theorems: deny rules and the circuit breaker are final whatever the
  mode, the breaker for the spellings of a removal of the root or the home directory that are listed
  there; unrecoverable calls are put to the human; an allow list must cover every subcommand; every named
  command outside process substitutions reaches the checks; what runs unasked as read-only was vetted.  \<open>Risk\<close>:
  the rules of the label in their order.

  \<^bold>\<open>Agent.\<close>  \<open>Message\<close>: messages, results and the text sent to the model (\<open>core/message.go\<close>).
  \<open>AgentTurn\<close>: one turn of \<open>core/agent_impl.go\<close>, from inference over recovery, compaction and retries
  to the tool batch; \<open>AgentTurnProps\<close>: its accounting, the answer of every call, and termination.
  \<open>AgentRun\<close>: the main loop, its inbox and its events.  \<open>AgentLatch\<close>: the interrupt protocol as a step
  relation over all interleavings.  Loops that wait for the outside have fuel and return \<open>None\<close> when
  it runs out; \<open>ThinkAct_terminates\<close> shows that a turn needs only boundedly much, by a measure of
  compactions, retries and steps that remain.

  \<^bold>\<open>Sessions.\<close>  \<open>Transcript\<close>: records, state patches and replay (\<open>projector.go\<close>), with the chain of
  active messages.  \<open>TranscriptStore\<close>: the files, caches and index of \<open>fs_store.go\<close>, where a write may
  fail, tear or be refused.  \<open>Blocks\<close>: messages as content blocks and back (\<open>message_convert.go\<close>,
  \<open>node_convert.go\<close>).  \<open>SessionStore\<close>: snapshots over the transcript (\<open>store.go\<close>).  \<open>Recorder\<close>: the
  events of an agent written as they happen (\<open>recorder.go\<close>, \<open>setup.go\<close>).  The theorems climb: caches
  agree with files, a message is stored once, a torn write loses only itself to the next replay, each for
  the failures its text names and with a lemma for those that break it; replay is a chain and
  gives back an unbranched conversation, blocks give back the conversation, a session saved turn
  after turn loads as it was last saved, and the transcript of a run of the agent of \<open>AgentRun\<close> loads
  as the conversation which that agent holds -- the last one joins all theories of the two parts.

  \<^bold>\<open>Tasks, time and knowledge.\<close>  \<open>Todo\<close>: the item store with its directory of files and the adoption
  of orphaned workers.  \<open>Calendar\<close>, \<open>Cron\<close>, \<open>CronStore\<close>: dates, expressions with the search for the
  next minute that fires, and the scheduler whose file several windows share.  \<open>TaskGraph\<close>: topological
  sorting and levels (\<open>graph/task\<close>).  \<open>GraphStore\<close>, \<open>GraphFuse\<close>: ontology, nodes, edges, validation and
  the fusion of candidates by edit distance (\<open>graph\<close>, \<open>graph/fuse\<close>).

  \<^bold>\<open>File tools\<close> (\<open>tool/fs\<close>, \<open>tool/perm\<close>).  \<open>EditMatch\<close>: which region of a file an edit means and what
  becomes of it.  \<open>DiffView\<close>: the diff of the approval prompt.  \<open>FileTools\<close>: Read, Write and Edit over a
  disk that other programs change, with the record of what the model has seen; histories of calls are a
  step relation with the invariant that a view with the time of the file is a view of its content.  The
  theorems: only content that a call has looked at is overwritten, the approved change is what is written, an edit touches
  one region, the prompt shows every change.  The edit script (a library) and the diagnostics of a
  language server are parameters; one call sees one state of the disk.

  \<^bold>\<open>Hooks and the gate.\<close>  \<open>Hook\<close>: the engine of \<open>hook\<close>: which hooks an event selects, by matcher,
  source and condition, how each kind of hook runs, what its answer means and how answers merge;
  subprocesses, HTTP, the model, JSON and regular expressions are parameters, a hook is a function of
  the event and what has run is recorded, \<open>he_lines\<close> bounds the
  lines of an interactive hook, and a detached hook is a later step of the engine.  The theorems: the
  answer to an event is that of the first hook that blocks, after which none runs, or a fold over the
  hooks in their order; a hook marked once is selected once.
  \<open>Gate\<close>: the way of a tool call through hooks, rules, reviewer and user (\<open>tool/pretool_hook.go\<close>,
  \<open>agent/permission.go\<close>, \<open>app/agent.go\<close>, \<open>app/update_approval.go\<close>, \<open>reviewer\<close>), over the pipeline of
  \<open>Permission\<close>.  The theorems: what runs had an authority for exactly the input it ran with, and what
  a deny rule names does not run unless a hook allows it or has the user asked.  Two lemmas show where the gate is open:
  the answer of a hook passes over deny rules, and the path of an Edit is not seen by the rules.

  \<^bold>\<open>Settings and modes.\<close>  \<open>Config\<close>: the data of a settings file, its views and the merge of two
  levels (\<open>setting/settings.go\<close>, \<open>merger.go\<close>).  \<open>ConfigStore\<close>: the order of the files, the hooks of
  native and Claude files, every save and update, the cache and the live handle (\<open>loader.go\<close>,
  \<open>service.go\<close>); a file is absent, undecodable with what the decoder had filled in, or its data, and
  the preferences of the providers are a parameter.  The theorems: a deny rule of any file refuses, the
  last file that sets a value decides, a saved rule is loaded.  \<open>Autopilot\<close>: the handlers of the
  interface that touch the mode, the bypass, the submission of messages, goals and the copilot
  (\<open>app/autopilot.go\<close>, \<open>env.go\<close>, \<open>update_modal.go\<close>, \<open>update_submit.go\<close>), each a function from a message
  to commands and the next state; slash commands but three, and whatever else the interface does, reach
  this state by its events.  The theorems, over all sequences of events: a locked bypass stays off, the
  copilot's own turns since the last input of the human are bounded, a goal gives the configuration back; and what is answered for the
  user is one of his options.

  \<^bold>\<open>Subagents and background work.\<close>  \<open>Worker\<close>: the modes and tool rules of a subagent with their
  YAML forms, the gate of its calls and the tools it is shown (\<open>subagent/types.go\<close>, \<open>match.go\<close>,
  \<open>executor.go\<close>, \<open>tool/set.go\<close>, \<open>tool/permission.go\<close>), over the classes of \<open>Permission\<close>.  \<open>Agents\<close>: the
  definitions of subagents, where they are found, their registry and its switches on disk (\<open>loader.go\<close>,
  \<open>registry.go\<close>, \<open>store.go\<close>).  \<open>BgTask\<close>: the tasks that run in the background, their manager, their item
  in the tracker of \<open>Todo\<close> and the notice they leave, and the messages between agents (\<open>task\<close>, \<open>broker\<close>,
  \<open>app/notify.go\<close>, \<open>app/model_lifecycle.go\<close>, \<open>tool/agent/sendmessage.go\<close>); a step is what a goroutine does
  between two points at which it holds no lock, except that a new task enters the manager and is made
  known in one step.  Histories are all sequences of enabled steps, in which a task has a new id and the
  tracker is changed by tasks and, where that spares their items, by the conversation, but not reset,
  imported or reloaded.  \<open>WorkerRun\<close>: the run of a subagent around the turn of its agent, which is a
  parameter: its definition, mode, model and step cap, its hooks, registrations, retry and results, its
  end as a task of \<open>BgTask\<close> and the change of its model while it runs (\<open>executor.go\<close>, \<open>executor_run.go\<close>,
  \<open>executor_swap.go\<close>).  The theorems: what a worker runs passed every check, a worker that explores only
  runs what is listed or named as reading; the definition of the highest priority wins, and an agent
  switched off stays off; a task ends once and is announced once, one item of the tracker shows it, a
  kill ends its task, a delivery that is reported took place and no notice of the main conversation is
  lost; a run fires one start and one stop, uses a model that can be reached, and ends its task as its
  result says.  The locale \<open>lasting\<close> has the properties of a task which no step takes away, and is
  interpreted for the end of a task and for the mark of a stop.

  \<^bold>\<open>Shape of the theories.\<close>  Each has its data as records and datatypes with the names of the source,
  one definition per function in the order of the source, the lemmas on them, the theorems, and last a
  section of examples: concrete inputs at which the theorems apply, and lemmas that show what the code
  does in cases its comments or tests do not expect.  All definitions compute, the searches with a
  bound (four years of days for the next cron minute, as in the code) or fuel.

  \<^bold>\<open>Not modelled.\<close>  The rest of the terminal interface (\<open>app\<close>), the clients of model vendors (\<open>llm\<close>), MCP and
  language servers, plugins, skills, personas, how the child agent of a subagent is put together (\<open>buildAgent\<close>), the
  inspector, logging and web search are input and output around these parts: subprocesses, HTTP, JSON of third parties, rendering.  Of the
  parts above, JSON encoding is structural (a line of a file is a record, a torn one or a blank one),
  Unicode classes are those of ASCII, and local time is UTC, except in the section of \<open>Cron\<close> on zones
  that change their clock.  The parser of shell syntax is a library
  outside the repository and a parameter.
\<close>

end
